(* ===== verification/Prelude.thy ===== *)
theory Prelude
  imports Complex_Main
    "HOL-Library.AList"
    "HOL-Library.Char_ord"
    "HOL-Library.List_Lexorder"
    "HOL-Library.Product_Lexorder"
begin

text \<open>
  Shared vocabulary of the development: the exceptions the daemon raises, results, instants,
  the value \<open>math.inf\<close>, Python dictionaries as insertion-ordered association lists, and the
  generic lemmas on clamping, weighted sums, stable sorting and keyed lists that the component
  theories use.

  Python's \<open>float\<close> is modelled by \<^typ>\<open>real\<close> (exact arithmetic, no NaN), \<open>int\<close> by
  \<^typ>\<open>int\<close>, a \<open>datetime\<close> by the number of seconds since the epoch in UTC: the code
  reads every naive instant as UTC before it compares it.  Every read of the clock is an explicit
  argument of the operation that makes it.
\<close>

section \<open>Names, instants, errors\<close>

type_synonym datetime = real
type_synonym node_id = string
type_synonym task_id = string

datatype error =
    KeyError string
  | ValueError string
  | RuntimeError string
  | FileNotFoundError string
  | ActivationOutcomeUnknownError string
  | CheckpointValidationError string
  | ArtifactValidationError string
  | OtherError string

type_synonym 'a result = "error + 'a"

fun is_ok :: "'a result \<Rightarrow> bool" where
  "is_ok (Inr _) = True"
| "is_ok (Inl _) = False"

lemma is_ok_Inr: "is_ok r \<longleftrightarrow> (\<exists>x. r = Inr x)"
  by (cases r) simp_all

definition bind_result :: "'a result \<Rightarrow> ('a \<Rightarrow> 'b result) \<Rightarrow> 'b result" where
  "bind_result r f = (case r of Inl e \<Rightarrow> Inl e | Inr x \<Rightarrow> f x)"

lemma bind_result_simps [simp]:
  "bind_result (Inl e) f = Inl e"
  "bind_result (Inr x) f = f x"
  by (simp_all add: bind_result_def)

lemma bind_result_Inr_iff:
  "bind_result r f = Inr y \<longleftrightarrow> (\<exists>x. r = Inr x \<and> f x = Inr y)"
  by (cases r) simp_all

text \<open>A property of the value a computation returns, when it returns one.\<close>

definition on_ok :: "('a \<Rightarrow> bool) \<Rightarrow> 'a result \<Rightarrow> bool" where
  "on_ok P r = (case r of Inl _ \<Rightarrow> True | Inr x \<Rightarrow> P x)"

lemma on_ok_simps [simp]:
  "on_ok P (Inl e)" "on_ok P (Inr x) = P x"
  "on_ok P (if c then r else r') = (if c then on_ok P r else on_ok P r')"
  by (simp_all add: on_ok_def)

lemma on_ok_bind: "(\<And>x. r = Inr x \<Longrightarrow> on_ok P (f x)) \<Longrightarrow> on_ok P (bind_result r f)"
  by (cases r) simp_all

lemma on_okD: "on_ok P r \<Longrightarrow> r = Inr x \<Longrightarrow> P x"
  by simp

section \<open>Decimal rendering of integers, as \<open>str(int)\<close>\<close>

fun nat_str :: "nat \<Rightarrow> string" where
  "nat_str n =
     (if n < 10 then [char_of (48 + n)] else nat_str (n div 10) @ [char_of (48 + n mod 10)])"

declare nat_str.simps [simp del]

definition int_str :: "int \<Rightarrow> string" where
  "int_str i = (if i < 0 then ''-'' @ nat_str (nat (- i)) else nat_str (nat i))"

lemma nat_str_nonempty [simp]: "nat_str n \<noteq> []"
  by (subst nat_str.simps) simp

section \<open>Floats extended by \<open>math.inf\<close>\<close>

datatype xreal = Fin real | PInf

instantiation xreal :: linorder
begin

fun less_eq_xreal :: "xreal \<Rightarrow> xreal \<Rightarrow> bool" where
  "less_eq_xreal _ PInf = True"
| "less_eq_xreal PInf (Fin _) = False"
| "less_eq_xreal (Fin a) (Fin b) = (a \<le> b)"

fun less_xreal :: "xreal \<Rightarrow> xreal \<Rightarrow> bool" where
  "less_xreal PInf _ = False"
| "less_xreal (Fin _) PInf = True"
| "less_xreal (Fin a) (Fin b) = (a < b)"

instance
proof
  fix x y z :: xreal
  show "(x < y) = (x \<le> y \<and> \<not> y \<le> x)" by (cases x; cases y) auto
  show "x \<le> x" by (cases x) simp_all
  show "x \<le> z" if "x \<le> y" "y \<le> z" using that by (cases x; cases y; cases z) simp_all
  show "x = y" if "x \<le> y" "y \<le> x" using that by (cases x; cases y) simp_all
  show "x \<le> y \<or> y \<le> x" by (cases x; cases y) auto
qed

end

fun xminus :: "xreal \<Rightarrow> real \<Rightarrow> xreal" where
  "xminus PInf _ = PInf"
| "xminus (Fin a) r = Fin (a - r)"

section \<open>Clamping and convex combinations\<close>

definition clamp :: "real \<Rightarrow> real \<Rightarrow> real \<Rightarrow> real" where
  "clamp value lower upper = max lower (min upper value)"

lemma clamp_lower [simp, intro]: "lower \<le> clamp v lower upper"
  by (simp add: clamp_def)

lemma clamp_upper [intro]: "lower \<le> upper \<Longrightarrow> clamp v lower upper \<le> upper"
  by (simp add: clamp_def)

lemma clamp_id: "lower \<le> v \<Longrightarrow> v \<le> upper \<Longrightarrow> clamp v lower upper = v"
  by (simp add: clamp_def)

lemma clamp_mono: "v \<le> w \<Longrightarrow> clamp v lower upper \<le> clamp w lower upper"
  by (auto simp: clamp_def)

lemma weighted_sum_bounds:
  fixes a b c x y z :: real
  assumes "0 \<le> a" "0 \<le> b" "0 \<le> c" "a + b + c = 1"
    and "x \<in> {lo..hi}" "y \<in> {lo..hi}" "z \<in> {lo..hi}"
  shows "a * x + b * y + c * z \<in> {lo..hi}"
proof -
  have "a * lo + b * lo + c * lo \<le> a * x + b * y + c * z"
    using assms by (intro add_mono mult_left_mono) auto
  moreover have "a * x + b * y + c * z \<le> a * hi + b * hi + c * hi"
    using assms by (intro add_mono mult_left_mono) auto
  moreover have "a * r + b * r + c * r = r" for r
    using assms(4) by (metis distrib_right mult_1)
  ultimately show ?thesis by simp
qed

section \<open>Python dictionaries: insertion-ordered association lists\<close>

type_synonym 'v dict = "(string \<times> 'v) list"

definition dict_get :: "'v dict \<Rightarrow> string \<Rightarrow> 'v option" where
  "dict_get d k = map_of d k"

definition dict_put :: "string \<Rightarrow> 'v \<Rightarrow> 'v dict \<Rightarrow> 'v dict" where
  "dict_put k v d = AList.update k v d"

definition dict_ok :: "'v dict \<Rightarrow> bool" where
  "dict_ok d = distinct (map fst d)"

lemma dict_get_put [simp]: "dict_get (dict_put k v d) k' = (if k' = k then Some v else dict_get d k')"
  by (simp add: dict_get_def dict_put_def update_conv')

lemma dict_ok_put [simp]: "dict_ok d \<Longrightarrow> dict_ok (dict_put k v d)"
  by (simp add: dict_ok_def dict_put_def distinct_update)

lemma dict_ok_Nil [simp]: "dict_ok []"
  by (simp add: dict_ok_def)

lemma dict_get_Nil [simp]: "dict_get [] k = None"
  by (simp add: dict_get_def)

lemma dict_get_Cons: "dict_get ((k', v) # d) k = (if k = k' then Some v else dict_get d k)"
  by (simp add: dict_get_def)

lemma dict_get_SomeD: "dict_get d k = Some v \<Longrightarrow> (k, v) \<in> set d"
  by (simp add: dict_get_def map_of_SomeD)

lemma dict_get_iff: "dict_ok d \<Longrightarrow> dict_get d k = Some v \<longleftrightarrow> (k, v) \<in> set d"
  by (simp add: dict_get_def dict_ok_def)

lemma dict_get_None_iff: "dict_get d k = None \<longleftrightarrow> k \<notin> fst ` set d"
  by (simp add: dict_get_def map_of_eq_None_iff)

lemma fst_set_dict_put: "fst ` set (dict_put k v d) = insert k (fst ` set d)"
  by (simp add: dict_put_def update_conv' flip: dom_map_of_conv_image_fst)

lemma dict_put_fresh: "dict_get d k = None \<Longrightarrow> dict_put k v d = d @ [(k, v)]"
  by (induction d) (auto simp: dict_put_def dict_get_def split: if_splits)

text \<open>Storing into an existing key replaces its value in place, as a Python dictionary does.\<close>

lemma dict_put_present:
  "dict_ok d \<Longrightarrow> dict_get d k \<noteq> None \<Longrightarrow>
   dict_put k v d = map (\<lambda>(k', v'). (k', if k' = k then v else v')) d"
proof (induction d)
  case Nil
  then show ?case by simp
next
  case (Cons kv d)
  obtain a b where kv: "kv = (a, b)" by (cases kv)
  show ?case
  proof (cases "a = k")
    case True
    with Cons.prems kv have "k \<notin> fst ` set d" by (auto simp: dict_ok_def)
    then have "map (\<lambda>(k', v'). (k', if k' = k then v else v')) d = d"
      by (intro map_idI) force
    with True kv show ?thesis by (simp add: dict_put_def)
  next
    case False
    with Cons.prems kv have "dict_ok d" "dict_get d k \<noteq> None"
      by (auto simp: dict_ok_def dict_get_def)
    with Cons.IH False kv show ?thesis by (simp add: dict_put_def)
  qed
qed

section \<open>Sums over keyed lists\<close>

lemma sum_list_filter_le:
  fixes f :: "'a \<Rightarrow> 'b::ordered_comm_monoid_add"
  assumes "\<And>x. x \<in> set xs \<Longrightarrow> P x \<Longrightarrow> Q x" and "\<And>x. x \<in> set xs \<Longrightarrow> 0 \<le> f x"
  shows "sum_list (map f (filter P xs)) \<le> sum_list (map f (filter Q xs))"
  using assms by (induction xs) (auto intro: add_mono add_increasing)

lemma sum_list_map_add:
  fixes f g :: "'a \<Rightarrow> 'b::comm_monoid_add"
  shows "sum_list (map (\<lambda>x. f x + g x) xs) = sum_list (map f xs) + sum_list (map g xs)"
  by (induction xs) (auto simp: algebra_simps)

section \<open>First minimum by a key, as \<open>min(xs, key=f)\<close>\<close>

definition min_by :: "('a \<Rightarrow> real) \<Rightarrow> 'a list \<Rightarrow> 'a option" where
  "min_by f xs = (if xs = [] then None else Some (arg_min_list f xs))"

lemma min_by_None [simp]: "min_by f xs = None \<longleftrightarrow> xs = []"
  by (simp add: min_by_def)

lemma min_by_SomeD:
  assumes "min_by f xs = Some m"
  shows "m \<in> set xs" and "\<And>x. x \<in> set xs \<Longrightarrow> f m \<le> f x"
proof -
  from assms have ne: "xs \<noteq> []" and m: "m = arg_min_list f xs"
    by (auto simp: min_by_def split: if_splits)
  show "m \<in> set xs" using ne m by (simp add: arg_min_list_in)
  show "f m \<le> f x" if "x \<in> set xs" for x
    using ne m that by (simp add: f_arg_min_list_f)
qed

lemma list_extrema:
  fixes xs :: "real list"
  assumes "x \<in> set xs"
  shows "Min (set xs) \<le> x" and "x \<le> Max (set xs)"
  using assms by simp_all

lemma hd_sort_key_least:
  fixes f :: "'a \<Rightarrow> 'b::linorder"
  assumes "x \<in> set xs"
  shows "f (hd (sort_key f xs)) \<le> f x"
proof -
  let ?ys = "sort_key f xs"
  from assms have "?ys \<noteq> []" by (metis empty_iff empty_set set_sort)
  then obtain y zs where ys: "?ys = y # zs" by (cases ?ys) auto
  have "sorted (map f ?ys)" by simp
  then have "\<forall>z \<in> set zs. f y \<le> f z" by (simp add: ys)
  moreover have "x \<in> set ?ys" using assms by simp
  ultimately show ?thesis by (auto simp: ys)
qed

end
