(* ===== verification/Capabilities.thy ===== *)
theory Capabilities
  imports Prelude
begin

text \<open>
  \<open>magellan/capabilities/models.py\<close> and \<open>checker.py\<close>: what a location advertises, what a
  task requires, and the hard compatibility check that prunes destinations before scoring and
  that the destination's arbiter repeats.  Reasons are structured values; their rendering as
  English sentences is not modelled.
\<close>

section \<open>Records\<close>

record node_runtime_capabilities =
  architecture :: "string option"
  operating_system :: "string option"
  cap_cpu_cores :: "real option"
  cap_memory_mb :: "int option"
  cap_gpu_count :: "int option"
  cap_accelerator_types :: "string set"
  commands :: "string set"
  runtimes :: "string dict"
  features :: "string set"

record task_compatibility_requirements =
  architectures :: "string set"
  operating_systems :: "string set"
  minimum_cpu_cores :: "real option"
  minimum_memory_mb :: "int option"
  minimum_gpu_count :: "int option"
  req_accelerator_types :: "string set"
  required_commands :: "string set"
  required_runtimes :: "string dict"
  required_features :: "string set"
  checkpoint_architecture_independent :: bool
  requires_same_mpi_world_size :: bool

definition default_capabilities :: node_runtime_capabilities where
  "default_capabilities = \<lparr>architecture = None, operating_system = None, cap_cpu_cores = None,
     cap_memory_mb = None, cap_gpu_count = None, cap_accelerator_types = {}, commands = {},
     runtimes = [], features = {}\<rparr>"

definition default_requirements :: task_compatibility_requirements where
  "default_requirements = \<lparr>architectures = {}, operating_systems = {}, minimum_cpu_cores = None,
     minimum_memory_mb = None, minimum_gpu_count = None, req_accelerator_types = {},
     required_commands = {}, required_runtimes = [], required_features = {},
     checkpoint_architecture_independent = True, requires_same_mpi_world_size = False\<rparr>"

datatype incompatibility =
    ArchitectureMismatch "string option"
  | OperatingSystemMismatch "string option"
  | TooFewCpuCores real "real option"
  | TooLittleMemory int "int option"
  | TooFewGpus int "int option"
  | NoCommonAccelerator "string set" "string set"
  | MissingCommands "string set"
  | MissingFeatures "string set"
  | RuntimeNotAdvertised string
  | RuntimeVersionMismatch string string string

record compatibility_result =
  compatible :: bool
  reasons :: "incompatibility list"

section \<open>Version constraints\<close>

definition is_digit :: "char \<Rightarrow> bool" where
  "is_digit c = (CHR ''0'' \<le> c \<and> c \<le> CHR ''9'')"

definition digit_value :: "char \<Rightarrow> int" where
  "digit_value c = int (of_char c) - 48"

text \<open>\<open>re.findall(r"\d+", s)\<close>: the maximal runs of digits, from left to right.\<close>

fun digit_runs_acc :: "string \<Rightarrow> string \<Rightarrow> string list" where
  "digit_runs_acc run [] = (if run = [] then [] else [run])"
| "digit_runs_acc run (c # cs) =
     (if is_digit c then digit_runs_acc (run @ [c]) cs
      else if run = [] then digit_runs_acc [] cs
      else run # digit_runs_acc [] cs)"

definition digit_runs :: "string \<Rightarrow> string list" where
  "digit_runs s = digit_runs_acc [] s"

definition parse_int :: "string \<Rightarrow> int" where
  "parse_int s = fold (\<lambda>c n. 10 * n + digit_value c) s 0"

definition version_tuple :: "string \<Rightarrow> int list" where
  "version_tuple value =
     (let numbers = take 4 (map parse_int (digit_runs value))
      in if numbers = [] then [0] else numbers)"

definition is_space :: "char \<Rightarrow> bool" where
  "is_space c = (c = CHR '' '' \<or> c = CHR 0x09 \<or> c = CHR 0x0A \<or> c = CHR 0x0B \<or> c = CHR 0x0C
                 \<or> c = CHR 0x0D \<or> c \<in> {CHR 0x1C, CHR 0x1D, CHR 0x1E, CHR 0x1F})"

definition strip :: "string \<Rightarrow> string" where
  "strip s = rev (dropWhile is_space (rev (dropWhile is_space s)))"

fun split_on :: "char \<Rightarrow> string \<Rightarrow> string list" where
  "split_on sep [] = [[]]"
| "split_on sep (c # cs) =
     (if c = sep then [] # split_on sep cs
      else (case split_on sep cs of [] \<Rightarrow> [[c]] | w # ws \<Rightarrow> (c # w) # ws))"

datatype version_operator = GE | LE | EQ | GT | LT

text \<open>The operator of a clause and the text after it; a clause with no operator means \<open>==\<close>.\<close>

fun clause_operator :: "string \<Rightarrow> version_operator \<times> string" where
  "clause_operator clause =
     (if take 2 clause = ''>='' then (GE, strip (drop 2 clause))
      else if take 2 clause = ''<='' then (LE, strip (drop 2 clause))
      else if take 2 clause = ''=='' then (EQ, strip (drop 2 clause))
      else if take 1 clause = ''>'' then (GT, strip (drop 1 clause))
      else if take 1 clause = ''<'' then (LT, strip (drop 1 clause))
      else (EQ, clause))"

fun clause_holds :: "int list \<Rightarrow> version_operator \<Rightarrow> int list \<Rightarrow> bool" where
  "clause_holds actual GE expected = (actual \<ge> expected)"
| "clause_holds actual LE expected = (actual \<le> expected)"
| "clause_holds actual GT expected = (actual > expected)"
| "clause_holds actual LT expected = (actual < expected)"
| "clause_holds actual EQ expected = (take (length expected) actual = expected)"

definition version_matches :: "string \<Rightarrow> string \<Rightarrow> bool" where
  "version_matches actual specification =
     list_all (\<lambda>raw. let clause = strip raw in
        if clause = [] then True
        else let (operator, expected) = clause_operator clause
             in clause_holds (version_tuple actual) operator (version_tuple expected))
       (split_on (CHR '','') specification)"

section \<open>The compatibility check\<close>

definition runtime_reasons ::
  "string dict \<Rightarrow> string dict \<Rightarrow> incompatibility list" where
  "runtime_reasons required advertised =
     concat (map (\<lambda>(runtime, specification).
        case dict_get advertised runtime of
          None \<Rightarrow> [RuntimeNotAdvertised runtime]
        | Some actual \<Rightarrow>
            if version_matches actual specification then []
            else [RuntimeVersionMismatch runtime specification actual]) required)"

definition below_minimum :: "'a::linorder option \<Rightarrow> 'a option \<Rightarrow> bool" where
  "below_minimum minimum actual =
     (case minimum of None \<Rightarrow> False
      | Some m \<Rightarrow> (case actual of None \<Rightarrow> True | Some a \<Rightarrow> a < m))"

definition reason_if :: "bool \<Rightarrow> incompatibility \<Rightarrow> incompatibility list" where
  "reason_if failed reason = (if failed then [reason] else [])"

definition compatibility_reasons ::
  "task_compatibility_requirements \<Rightarrow> node_runtime_capabilities \<Rightarrow> incompatibility list" where
  "compatibility_reasons requirements capabilities =
     reason_if (architectures requirements \<noteq> {} \<and>
         architecture capabilities \<notin> Some ` architectures requirements)
       (ArchitectureMismatch (architecture capabilities))
     @ reason_if (operating_systems requirements \<noteq> {} \<and>
         operating_system capabilities \<notin> Some ` operating_systems requirements)
       (OperatingSystemMismatch (operating_system capabilities))
     @ reason_if (below_minimum (minimum_cpu_cores requirements) (cap_cpu_cores capabilities))
       (TooFewCpuCores (the (minimum_cpu_cores requirements)) (cap_cpu_cores capabilities))
     @ reason_if (below_minimum (minimum_memory_mb requirements) (cap_memory_mb capabilities))
       (TooLittleMemory (the (minimum_memory_mb requirements)) (cap_memory_mb capabilities))
     @ reason_if (below_minimum (minimum_gpu_count requirements) (cap_gpu_count capabilities))
       (TooFewGpus (the (minimum_gpu_count requirements)) (cap_gpu_count capabilities))
     @ reason_if (req_accelerator_types requirements \<noteq> {} \<and>
         req_accelerator_types requirements \<inter> cap_accelerator_types capabilities = {})
       (NoCommonAccelerator (req_accelerator_types requirements)
          (cap_accelerator_types capabilities))
     @ (let missing = required_commands requirements - commands capabilities
        in reason_if (missing \<noteq> {}) (MissingCommands missing))
     @ (let missing = required_features requirements - features capabilities
        in reason_if (missing \<noteq> {}) (MissingFeatures missing))
     @ runtime_reasons (required_runtimes requirements) (runtimes capabilities)"

definition check_compatibility ::
  "task_compatibility_requirements \<Rightarrow> node_runtime_capabilities \<Rightarrow> compatibility_result" where
  "check_compatibility requirements capabilities =
     (let rs = compatibility_reasons requirements capabilities
      in \<lparr>compatible = (rs = []), reasons = rs\<rparr>)"

section \<open>What compatibility means\<close>

lemma compatible_iff_no_reasons:
  "compatible (check_compatibility r c) \<longleftrightarrow> reasons (check_compatibility r c) = []"
  by (simp add: check_compatibility_def Let_def)

lemma runtime_reasons_Nil_iff:
  "runtime_reasons required advertised = [] \<longleftrightarrow>
     (\<forall>(runtime, specification) \<in> set required.
        \<exists>actual. dict_get advertised runtime = Some actual \<and> version_matches actual specification)"
  by (auto simp: runtime_reasons_def split: option.splits if_splits)

lemma reason_if_Nil_iff [simp]: "reason_if failed reason = [] \<longleftrightarrow> \<not> failed"
  by (simp add: reason_if_def)

lemma not_below_minimum_iff:
  "\<not> below_minimum minimum actual \<longleftrightarrow>
     (\<forall>m. minimum = Some m \<longrightarrow> (\<exists>a. actual = Some a \<and> m \<le> a))"
  by (auto simp: below_minimum_def split: option.splits)

text \<open>
  The declarative reading of the check: every stated requirement is met by something the node
  advertises; an unadvertised quantity never satisfies a requirement.
\<close>

definition requirements_met ::
  "task_compatibility_requirements \<Rightarrow> node_runtime_capabilities \<Rightarrow> bool" where
  "requirements_met r c \<longleftrightarrow>
     (architectures r = {} \<or> (\<exists>a \<in> architectures r. architecture c = Some a))
   \<and> (operating_systems r = {} \<or> (\<exists>a \<in> operating_systems r. operating_system c = Some a))
   \<and> (\<forall>m. minimum_cpu_cores r = Some m \<longrightarrow> (\<exists>a. cap_cpu_cores c = Some a \<and> m \<le> a))
   \<and> (\<forall>m. minimum_memory_mb r = Some m \<longrightarrow> (\<exists>a. cap_memory_mb c = Some a \<and> m \<le> a))
   \<and> (\<forall>m. minimum_gpu_count r = Some m \<longrightarrow> (\<exists>a. cap_gpu_count c = Some a \<and> m \<le> a))
   \<and> (req_accelerator_types r = {} \<or> req_accelerator_types r \<inter> cap_accelerator_types c \<noteq> {})
   \<and> required_commands r \<subseteq> commands c
   \<and> required_features r \<subseteq> features c
   \<and> (\<forall>(runtime, specification) \<in> set (required_runtimes r).
        \<exists>actual. dict_get (runtimes c) runtime = Some actual \<and> version_matches actual specification)"

lemma Some_image_disjoint: "x \<notin> Some ` A \<longleftrightarrow> (\<forall>a \<in> A. x \<noteq> Some a)"
  by auto

lemma check_compatibility_iff:
  "compatible (check_compatibility r c) \<longleftrightarrow> requirements_met r c"
  unfolding check_compatibility_def compatibility_reasons_def requirements_met_def Let_def
  by (simp add: runtime_reasons_Nil_iff not_below_minimum_iff Some_image_disjoint Diff_eq_empty_iff
      del: de_Morgan_conj) blast

lemma default_requirements_met [simp]: "requirements_met default_requirements c"
  by (simp add: requirements_met_def default_requirements_def)

text \<open>A capability set that advertises more satisfies every requirement a smaller one does.\<close>

definition advertises_at_least ::
  "node_runtime_capabilities \<Rightarrow> node_runtime_capabilities \<Rightarrow> bool" where
  "advertises_at_least c' c \<longleftrightarrow>
     architecture c' = architecture c \<and> operating_system c' = operating_system c
   \<and> (\<forall>a. cap_cpu_cores c = Some a \<longrightarrow> (\<exists>a'. cap_cpu_cores c' = Some a' \<and> a \<le> a'))
   \<and> (\<forall>a. cap_memory_mb c = Some a \<longrightarrow> (\<exists>a'. cap_memory_mb c' = Some a' \<and> a \<le> a'))
   \<and> (\<forall>a. cap_gpu_count c = Some a \<longrightarrow> (\<exists>a'. cap_gpu_count c' = Some a' \<and> a \<le> a'))
   \<and> cap_accelerator_types c \<subseteq> cap_accelerator_types c'
   \<and> commands c \<subseteq> commands c' \<and> features c \<subseteq> features c' \<and> runtimes c' = runtimes c"

end
