(* ===== verification/Config_Models.thy ===== *)
theory Config_Models
  imports Capabilities
begin

text \<open>
  \<open>magellan/models/types.py\<close>, \<open>models/utils.py\<close>, \<open>config/models.py\<close> and
  \<open>config/policy_models.py\<close>: the task profile and its resource request, the cluster
  description and the policy sections.  A pydantic model is a record; the constraints its
  \<open>Field(ge=..., gt=...)\<close> declarations and validators enforce on construction are a
  predicate \<open>wf_...\<close> over the record, and a validator that raises is a function into a result.
\<close>

section \<open>Task profiles and actions (\<open>models/types.py\<close>)\<close>

datatype action_type = Continue | Pause | Migrate

record task_resource_request =
  cpu_cores :: real
  memory_mb :: int
  gpu_count :: int
  accelerator_type :: "string option"

definition default_resource_request :: task_resource_request where
  "default_resource_request =
     \<lparr>cpu_cores = 1, memory_mb = 0, gpu_count = 0, accelerator_type = None\<rparr>"

definition wf_resource_request :: "task_resource_request \<Rightarrow> bool" where
  "wf_resource_request r \<longleftrightarrow> 0 < cpu_cores r \<and> 0 \<le> memory_mb r \<and> 0 \<le> gpu_count r"

record task_profile =
  profile_task_id :: task_id
  workload_type :: string
  current_node_id :: node_id
  power_kw :: real
  checkpoint_bytes :: int
  data_bytes :: int
  prestaged_node_ids :: "node_id set"
  profile_remaining_seconds :: "real option"
  profile_accumulated_cost :: real
  cost_cap_usd :: "real option"
  last_migration_at :: "datetime option"
  last_pause_at :: "datetime option"
  priority :: int
  deadline_at :: "datetime option"
  resource_request :: task_resource_request
  compatibility :: task_compatibility_requirements

definition wf_profile :: "task_profile \<Rightarrow> bool" where
  "wf_profile t \<longleftrightarrow>
     profile_task_id t \<noteq> [] \<and> workload_type t \<noteq> [] \<and> current_node_id t \<noteq> []
   \<and> 0 < power_kw t \<and> 0 \<le> checkpoint_bytes t \<and> 0 \<le> data_bytes t
   \<and> (\<forall>r. profile_remaining_seconds t = Some r \<longrightarrow> 0 \<le> r) \<and> 0 \<le> profile_accumulated_cost t
   \<and> (\<forall>c. cost_cap_usd t = Some c \<longrightarrow> 0 < c) \<and> 0 \<le> priority t \<and> priority t \<le> 100
   \<and> wf_resource_request (resource_request t)"

text \<open>
  A raw estimate keeps, of its \<open>details\<close> dictionary, the entries the scheduler reads back:
  the idle seconds of a pause and the carbon confidence.
\<close>

record raw_action_estimate =
  action :: action_type
  source_node :: node_id
  destination_node :: "node_id option"
  time_seconds :: real
  carbon_grams :: real
  cost_usd :: real
  detail_idle_seconds :: "real option"
  detail_carbon_confidence :: "real option"

definition wf_estimate :: "('a raw_action_estimate_scheme) \<Rightarrow> bool" where
  "wf_estimate e \<longleftrightarrow> 0 \<le> time_seconds e \<and> 0 \<le> carbon_grams e \<and> 0 \<le> cost_usd e"

record scored_action = raw_action_estimate +
  normalized_time :: real
  normalized_carbon :: real
  normalized_cost :: real
  score :: real

record decision_result =
  selected :: scored_action
  ranked_actions :: "scored_action list"
  decision_reason_text :: string

section \<open>Unit conversions and normalisation (\<open>models/utils.py\<close>)\<close>

definition seconds_to_hours :: "real \<Rightarrow> real" where
  "seconds_to_hours seconds = seconds / 3600"

definition bytes_to_gb :: "int \<Rightarrow> real" where
  "bytes_to_gb size_bytes = of_int size_bytes / 1000000000"

definition transfer_seconds :: "int \<Rightarrow> real \<Rightarrow> real \<Rightarrow> real result" where
  "transfer_seconds size_bytes bandwidth_mbps latency_ms =
     (if bandwidth_mbps \<le> 0 then Inl (ValueError ''bandwidth_mbps must be positive'')
      else Inr (of_int (size_bytes * 8) / (bandwidth_mbps * 1000000) + latency_ms / 1000))"

definition minmax_normalize :: "real list \<Rightarrow> real list" where
  "minmax_normalize values =
     (if values = [] then []
      else let minimum = Min (set values); maximum = Max (set values)
           in if maximum = minimum then map (\<lambda>_. 0) values
              else map (\<lambda>value. (value - minimum) / (maximum - minimum)) values)"

lemma length_minmax_normalize [simp]: "length (minmax_normalize vs) = length vs"
  by (simp add: minmax_normalize_def Let_def)

lemma minmax_normalize_unit:
  assumes "n \<in> set (minmax_normalize vs)"
  shows "0 \<le> n \<and> n \<le> 1"
proof (cases "Max (set vs) = Min (set vs)")
  case True
  with assms show ?thesis by (auto simp: minmax_normalize_def Let_def split: if_splits)
next
  case False
  with assms obtain v where v: "v \<in> set vs"
    and n: "n = (v - Min (set vs)) / (Max (set vs) - Min (set vs))"
    by (auto simp: minmax_normalize_def Let_def split: if_splits)
  from v have "Min (set vs) \<le> v" "v \<le> Max (set vs)" by (rule list_extrema)+
  moreover from this False have "Min (set vs) < Max (set vs)" by simp
  ultimately show ?thesis by (simp add: n)
qed

text \<open>Normalisation keeps the order of the values and sends the extremes to 0 and 1.\<close>

lemma minmax_normalize_nth:
  assumes "i < length vs"
  shows "minmax_normalize vs ! i =
    (if Max (set vs) = Min (set vs) then 0
     else (vs ! i - Min (set vs)) / (Max (set vs) - Min (set vs)))"
  using assms by (auto simp: minmax_normalize_def Let_def)

lemma minmax_normalize_mono:
  assumes "i < length vs" "j < length vs" "vs ! i \<le> vs ! j"
  shows "minmax_normalize vs ! i \<le> minmax_normalize vs ! j"
proof (cases "Max (set vs) = Min (set vs)")
  case True
  with assms show ?thesis by (simp add: minmax_normalize_nth)
next
  case False
  from assms(1) have "Min (set vs) \<le> Max (set vs)"
    by (meson list_extrema nth_mem order_trans)
  with False assms show ?thesis
    by (simp add: minmax_normalize_nth divide_right_mono)
qed

section \<open>Cluster description (\<open>config/models.py\<close>)\<close>

record network_edge_config =
  edge_source :: node_id
  edge_destination :: node_id
  edge_bandwidth_mbps :: real
  edge_latency_ms :: real

record node_resource_capacity =
  capacity_cpu_cores :: "real option"
  capacity_memory_mb :: "int option"
  capacity_gpu_count :: "int option"
  capacity_accelerator_types :: "string set"

definition wf_capacity :: "node_resource_capacity \<Rightarrow> bool" where
  "wf_capacity c \<longleftrightarrow>
     (\<forall>x. capacity_cpu_cores c = Some x \<longrightarrow> 0 < x)
   \<and> (\<forall>x. capacity_memory_mb c = Some x \<longrightarrow> 0 < x)
   \<and> (\<forall>x. capacity_gpu_count c = Some x \<longrightarrow> 0 \<le> x)"

definition unlimited_capacity :: node_resource_capacity where
  "unlimited_capacity = \<lparr>capacity_cpu_cores = None, capacity_memory_mb = None,
     capacity_gpu_count = None, capacity_accelerator_types = {}\<rparr>"

text \<open>The site fields the control plane computes with; VM and dataset names are left out.\<close>

record node_config =
  node_identity :: node_id
  latitude :: real
  longitude :: real
  task_capacity :: "int option"
  resources :: node_resource_capacity
  capabilities :: node_runtime_capabilities
  pue :: real
  compute_price_usd_per_hour :: real
  egress_price_usd_per_gb :: real
  carbon_fallback_g_per_kwh :: "real option"

definition wf_node :: "node_config \<Rightarrow> bool" where
  "wf_node n \<longleftrightarrow> node_identity n \<noteq> [] \<and> - 90 \<le> latitude n \<and> latitude n \<le> 90
   \<and> - 180 \<le> longitude n \<and> longitude n \<le> 180 \<and> (\<forall>c. task_capacity n = Some c \<longrightarrow> 1 \<le> c)
   \<and> wf_capacity (resources n) \<and> 1 \<le> pue n \<and> 0 \<le> compute_price_usd_per_hour n
   \<and> 0 \<le> egress_price_usd_per_gb n \<and> (\<forall>c. carbon_fallback_g_per_kwh n = Some c \<longrightarrow> 0 \<le> c)"

record cluster_config =
  epoch_seconds :: int
  bid_window_seconds :: int
  request_timeout_seconds :: real
  reservation_ttl_seconds :: real
  reservation_renew_interval_seconds :: real
  default_bandwidth_mbps :: real
  default_latency_ms :: real
  nodes :: "node_config list"
  edges :: "network_edge_config list"

definition validate_reservation_policy :: "cluster_config \<Rightarrow> cluster_config result" where
  "validate_reservation_policy c =
     (if reservation_renew_interval_seconds c \<ge> reservation_ttl_seconds c
      then Inl (ValueError ''reservation_renew_interval_seconds must be less than reservation_ttl_seconds'')
      else Inr c)"

definition get_node :: "cluster_config \<Rightarrow> node_id \<Rightarrow> node_config result" where
  "get_node c nid =
     (case find (\<lambda>n. node_identity n = nid) (nodes c) of
        Some n \<Rightarrow> Inr n | None \<Rightarrow> Inl (KeyError (''Unknown Magellan node: '' @ nid)))"

definition get_edge_override ::
  "cluster_config \<Rightarrow> node_id \<Rightarrow> node_id \<Rightarrow> network_edge_config option" where
  "get_edge_override c source destination =
     find (\<lambda>e. edge_source e = source \<and> edge_destination e = destination) (edges c)"

lemma get_node_InrD:
  assumes "get_node c nid = Inr n"
  shows "n \<in> set (nodes c)" and "node_identity n = nid"
  using assms by (auto simp: get_node_def find_Some_iff split: option.splits)

section \<open>Policy sections (\<open>config/policy_models.py\<close>)\<close>

record weight_vector =
  w_time :: real
  w_carbon :: real
  w_cost :: real

definition wf_weights :: "weight_vector \<Rightarrow> bool" where
  "wf_weights w \<longleftrightarrow> 0 \<le> w_time w \<and> 0 \<le> w_carbon w \<and> 0 \<le> w_cost w \<and> 0 < w_time w + w_carbon w + w_cost w"

definition normalized :: "weight_vector \<Rightarrow> weight_vector" where
  "normalized w = (let total = w_time w + w_carbon w + w_cost w
     in \<lparr>w_time = w_time w / total, w_carbon = w_carbon w / total, w_cost = w_cost w / total\<rparr>)"

definition weight_total :: "weight_vector \<Rightarrow> real" where
  "weight_total w = w_time w + w_carbon w + w_cost w"

text \<open>The simplex on which every weight vector used for scoring lies.\<close>

definition on_simplex :: "weight_vector \<Rightarrow> bool" where
  "on_simplex w \<longleftrightarrow> 0 \<le> w_time w \<and> 0 \<le> w_carbon w \<and> 0 \<le> w_cost w \<and> weight_total w = 1"

lemma normalized_on_simplex: "wf_weights w \<Longrightarrow> on_simplex (normalized w)"
  by (simp add: wf_weights_def on_simplex_def normalized_def weight_total_def Let_def
      flip: add_divide_distrib)

lemma on_simplex_wf: "on_simplex w \<Longrightarrow> wf_weights w"
  by (simp add: on_simplex_def wf_weights_def weight_total_def)

lemma normalized_fixpoint: "on_simplex w \<Longrightarrow> normalized w = w"
  by (simp add: on_simplex_def normalized_def weight_total_def Let_def)

record pause_policy =
  pause_seconds :: real
  idle_seconds :: real
  candidate_idle_seconds :: "real list"
  resume_seconds :: real
  max_pause_window_seconds :: real
  min_pause_gap_seconds :: real

definition idle_candidates :: "pause_policy \<Rightarrow> real list" where
  "idle_candidates p =
     (let raw = (if candidate_idle_seconds p = [] then [idle_seconds p]
                 else candidate_idle_seconds p);
          raw' = (if idle_seconds p \<in> set raw then raw else idle_seconds p # raw)
      in sort (remdups raw'))"

definition validate_pause_candidates :: "pause_policy \<Rightarrow> pause_policy result" where
  "validate_pause_candidates p =
     (if \<exists>v \<in> set (idle_candidates p). v < 0
      then Inl (ValueError ''Pause candidate durations must be non-negative'')
      else if \<exists>v \<in> set (idle_candidates p). v > max_pause_window_seconds p
      then Inl (ValueError ''Pause candidate duration exceeds max_pause_window_seconds'')
      else Inr p)"

lemma idle_candidates_set:
  "set (idle_candidates p) = insert (idle_seconds p) (set (candidate_idle_seconds p))"
  by (auto simp: idle_candidates_def Let_def)

lemma idle_candidates_sorted_distinct:
  "sorted (idle_candidates p) \<and> distinct (idle_candidates p)"
  by (simp add: idle_candidates_def Let_def)

record migration_policy =
  min_migration_gap_seconds :: real
  required_improvement_fraction :: real
  network_energy_kwh_per_gb_base :: real
  network_energy_kwh_per_gb_km :: real
  activation_timeout_seconds :: real

record auction_policy =
  credit_increment :: real
  credit_max :: real
  accepted_credit_decay :: real
  deadline_urgency_window_seconds :: real
  resource_efficiency_floor :: real

definition wf_auction_policy :: "auction_policy \<Rightarrow> bool" where
  "wf_auction_policy a \<longleftrightarrow> 0 < credit_increment a \<and> 0 < credit_max a
   \<and> 0 \<le> accepted_credit_decay a \<and> accepted_credit_decay a \<le> 1
   \<and> 0 < deadline_urgency_window_seconds a \<and> 0 < resource_efficiency_floor a"

record adaptive_policy =
  adaptive_enabled :: bool
  multiplier_bound_fraction :: real
  rolling_window_epochs :: nat
  decision_history_limit :: nat
  confidence_floor :: real

definition wf_adaptive_policy :: "adaptive_policy \<Rightarrow> bool" where
  "wf_adaptive_policy p \<longleftrightarrow> 0 \<le> multiplier_bound_fraction p \<and> multiplier_bound_fraction p \<le> 1 / 2
   \<and> 1 \<le> rolling_window_epochs p \<and> rolling_window_epochs p \<le> 1000
   \<and> 1 \<le> decision_history_limit p \<and> decision_history_limit p \<le> 1000
   \<and> 0 \<le> confidence_floor p \<and> confidence_floor p \<le> 1"

record scoring_policy =
  horizon_seconds :: int
  weights :: weight_vector
  pause :: pause_policy
  migration :: migration_policy

definition wf_scoring_policy :: "scoring_policy \<Rightarrow> bool" where
  "wf_scoring_policy p \<longleftrightarrow> 0 < horizon_seconds p \<and> wf_weights (weights p)
   \<and> 0 \<le> pause_seconds (pause p) \<and> 0 \<le> idle_seconds (pause p) \<and> 0 \<le> resume_seconds (pause p)
   \<and> validate_pause_candidates (pause p) = Inr (pause p)
   \<and> 0 < max_pause_window_seconds (pause p) \<and> 0 \<le> min_pause_gap_seconds (pause p)
   \<and> 0 \<le> min_migration_gap_seconds (migration p)
   \<and> 0 \<le> required_improvement_fraction (migration p) \<and> required_improvement_fraction (migration p) \<le> 1
   \<and> 0 \<le> network_energy_kwh_per_gb_base (migration p) \<and> 0 \<le> network_energy_kwh_per_gb_km (migration p)"

lemma wf_scoring_policy_idle:
  "wf_scoring_policy p \<Longrightarrow> v \<in> set (idle_candidates (pause p)) \<Longrightarrow> 0 \<le> v"
  by (auto simp: wf_scoring_policy_def validate_pause_candidates_def split: if_splits)

end
