(* ===== verification/Bid_Resources.thy ===== *)
theory Bid_Resources
  imports Config_Models
begin

text \<open>
  \<open>magellan/bidding/resources.py\<close>: resource vectors, the ledger of unreserved resources that
  admission consumes, and the dominant share.  A limit that is not configured is \<open>math.inf\<close>
  in the ledger, the constructor \<^const>\<open>PInf\<close> here.
\<close>

section \<open>Resource vectors\<close>

record resource_vector =
  rv_cpu_cores :: real
  rv_memory_mb :: int
  rv_gpu_count :: int

definition zero_vector :: resource_vector where
  "zero_vector = \<lparr>rv_cpu_cores = 0, rv_memory_mb = 0, rv_gpu_count = 0\<rparr>"

definition from_request :: "task_resource_request \<Rightarrow> resource_vector" where
  "from_request r =
     \<lparr>rv_cpu_cores = cpu_cores r, rv_memory_mb = memory_mb r, rv_gpu_count = gpu_count r\<rparr>"

definition vector_add :: "resource_vector \<Rightarrow> resource_vector \<Rightarrow> resource_vector" where
  "vector_add a b =
     \<lparr>rv_cpu_cores = rv_cpu_cores a + rv_cpu_cores b,
      rv_memory_mb = rv_memory_mb a + rv_memory_mb b,
      rv_gpu_count = rv_gpu_count a + rv_gpu_count b\<rparr>"

definition sum_requests :: "task_resource_request list \<Rightarrow> resource_vector" where
  "sum_requests requests =
     fold (\<lambda>request total. vector_add total (from_request request)) requests zero_vector"

lemma resource_vector_eqI:
  fixes a b :: resource_vector
  shows "rv_cpu_cores a = rv_cpu_cores b \<Longrightarrow> rv_memory_mb a = rv_memory_mb b \<Longrightarrow>
    rv_gpu_count a = rv_gpu_count b \<Longrightarrow> a = b"
  by simp

lemma vector_add_select [simp]:
  "rv_cpu_cores (vector_add a b) = rv_cpu_cores a + rv_cpu_cores b"
  "rv_memory_mb (vector_add a b) = rv_memory_mb a + rv_memory_mb b"
  "rv_gpu_count (vector_add a b) = rv_gpu_count a + rv_gpu_count b"
  by (simp_all add: vector_add_def)

lemma zero_vector_select [simp]:
  "rv_cpu_cores zero_vector = 0" "rv_memory_mb zero_vector = 0" "rv_gpu_count zero_vector = 0"
  by (simp_all add: zero_vector_def)

lemma from_request_select [simp]:
  "rv_cpu_cores (from_request r) = cpu_cores r"
  "rv_memory_mb (from_request r) = memory_mb r"
  "rv_gpu_count (from_request r) = gpu_count r"
  by (simp_all add: from_request_def)

lemma vector_add_commute: "vector_add a b = vector_add b a"
  by (rule resource_vector_eqI) simp_all

lemma vector_add_assoc: "vector_add (vector_add a b) c = vector_add a (vector_add b c)"
  by (rule resource_vector_eqI) simp_all

lemma vector_add_zero [simp]: "vector_add zero_vector a = a" "vector_add a zero_vector = a"
  by (rule resource_vector_eqI; simp)+

text \<open>The accumulating loop adds up to the field-wise sums, in any order.\<close>

lemma fold_requests_shift:
  "fold (\<lambda>request total. vector_add total (from_request request)) rs a
     = vector_add a (sum_requests rs)"
proof (induction rs arbitrary: a)
  case Nil
  then show ?case by (simp add: sum_requests_def)
next
  case (Cons r rs)
  have "sum_requests (r # rs) = vector_add (from_request r) (sum_requests rs)"
    using Cons.IH [of "from_request r"] by (simp add: sum_requests_def)
  with Cons.IH [of "vector_add a (from_request r)"] show ?case
    by (simp add: vector_add_assoc)
qed

lemma sum_requests_Nil [simp]: "sum_requests [] = zero_vector"
  by (simp add: sum_requests_def)

lemma sum_requests_Cons [simp]:
  "sum_requests (r # rs) = vector_add (from_request r) (sum_requests rs)"
  using fold_requests_shift [of rs "from_request r"] by (simp add: sum_requests_def)

lemma sum_requests_append:
  "sum_requests (rs @ ss) = vector_add (sum_requests rs) (sum_requests ss)"
  by (induction rs) (simp_all add: vector_add_assoc)

lemma sum_requests_select:
  "rv_cpu_cores (sum_requests rs) = sum_list (map cpu_cores rs)"
  "rv_memory_mb (sum_requests rs) = sum_list (map memory_mb rs)"
  "rv_gpu_count (sum_requests rs) = sum_list (map gpu_count rs)"
  by (induction rs) simp_all

section \<open>The ledger of unreserved resources\<close>

record resource_ledger =
  ledger_cpu_cores :: xreal
  ledger_memory_mb :: xreal
  ledger_gpu_count :: xreal
  ledger_accelerator_types :: "string set"

definition remaining :: "real option \<Rightarrow> real \<Rightarrow> xreal" where
  "remaining limit used = (case limit of None \<Rightarrow> PInf | Some l \<Rightarrow> Fin (max 0 (l - used)))"

definition from_capacity :: "node_resource_capacity \<Rightarrow> resource_vector \<Rightarrow> resource_ledger" where
  "from_capacity capacity used =
     \<lparr>ledger_cpu_cores = remaining (capacity_cpu_cores capacity) (rv_cpu_cores used),
      ledger_memory_mb =
        remaining (map_option of_int (capacity_memory_mb capacity)) (of_int (rv_memory_mb used)),
      ledger_gpu_count =
        remaining (map_option of_int (capacity_gpu_count capacity)) (of_int (rv_gpu_count used)),
      ledger_accelerator_types = capacity_accelerator_types capacity\<rparr>"

datatype infeasibility =
    NoGpuAvailable
  | AcceleratorTypeMissing string
  | InsufficientCpu
  | InsufficientMemory
  | InsufficientGpu

text \<open>\<open>ResourceLedger.compatible\<close>: \<^const>\<open>None\<close> is the answer \<open>(True, None)\<close>.\<close>

definition ledger_compatible ::
  "resource_ledger \<Rightarrow> task_resource_request \<Rightarrow> infeasibility option" where
  "ledger_compatible ledger request =
     (if gpu_count request > 0 \<and> ledger_gpu_count ledger \<le> Fin 0 then Some NoGpuAvailable
      else if gpu_count request > 0 \<and> accelerator_type request \<noteq> None
        \<and> ledger_accelerator_types ledger \<noteq> {}
        \<and> the (accelerator_type request) \<notin> ledger_accelerator_types ledger
      then Some (AcceleratorTypeMissing (the (accelerator_type request)))
      else if Fin (cpu_cores request) > ledger_cpu_cores ledger then Some InsufficientCpu
      else if Fin (of_int (memory_mb request)) > ledger_memory_mb ledger
      then Some InsufficientMemory
      else if Fin (of_int (gpu_count request)) > ledger_gpu_count ledger then Some InsufficientGpu
      else None)"

fun consume_amount :: "xreal \<Rightarrow> real \<Rightarrow> xreal" where
  "consume_amount PInf _ = PInf"
| "consume_amount (Fin available) amount = Fin (max 0 (available - amount))"

definition ledger_consume :: "resource_ledger \<Rightarrow> task_resource_request \<Rightarrow> resource_ledger" where
  "ledger_consume ledger request =
     ledger\<lparr>ledger_cpu_cores := consume_amount (ledger_cpu_cores ledger) (cpu_cores request),
       ledger_memory_mb := consume_amount (ledger_memory_mb ledger) (of_int (memory_mb request)),
       ledger_gpu_count := consume_amount (ledger_gpu_count ledger) (of_int (gpu_count request))\<rparr>"

text \<open>
  \<open>ResourceLedger.snapshot\<close>: the available amounts, \<open>None\<close> where no limit is configured;
  \<open>int(x)\<close> truncates a non-negative amount.
\<close>

definition ledger_snapshot ::
  "resource_ledger \<Rightarrow> real option \<times> int option \<times> int option \<times> string set" where
  "ledger_snapshot ledger =
     ((case ledger_cpu_cores ledger of PInf \<Rightarrow> None | Fin x \<Rightarrow> Some x),
      (case ledger_memory_mb ledger of PInf \<Rightarrow> None | Fin x \<Rightarrow> Some \<lfloor>x\<rfloor>),
      (case ledger_gpu_count ledger of PInf \<Rightarrow> None | Fin x \<Rightarrow> Some \<lfloor>x\<rfloor>),
      ledger_accelerator_types ledger)"

section \<open>Fitting a capacity\<close>

text \<open>
  \<open>within_limit\<close> and \<open>fits_capacity\<close> are the specification the ledger implements: a total
  demand fits when no configured limit is exceeded.
\<close>

definition within_limit :: "real \<Rightarrow> real option \<Rightarrow> bool" where
  "within_limit x limit = (case limit of None \<Rightarrow> True | Some l \<Rightarrow> x \<le> l)"

definition fits_capacity :: "resource_vector \<Rightarrow> node_resource_capacity \<Rightarrow> bool" where
  "fits_capacity used capacity \<longleftrightarrow>
     within_limit (rv_cpu_cores used) (capacity_cpu_cores capacity)
   \<and> within_limit (of_int (rv_memory_mb used)) (map_option of_int (capacity_memory_mb capacity))
   \<and> within_limit (of_int (rv_gpu_count used)) (map_option of_int (capacity_gpu_count capacity))"

lemma remaining_ge_iff:
  "0 \<le> x \<Longrightarrow> within_limit used limit \<Longrightarrow>
     Fin x \<le> remaining limit used \<longleftrightarrow> within_limit (used + x) limit"
  by (auto simp: remaining_def within_limit_def split: option.splits)

lemma consume_remaining:
  "0 \<le> x \<Longrightarrow> within_limit (used + x) limit \<Longrightarrow>
     consume_amount (remaining limit used) x = remaining limit (used + x)"
  by (auto simp: remaining_def within_limit_def max_def split: option.splits)

lemma remaining_pos_limit:
  assumes "0 < x" "Fin x \<le> remaining limit used"
  shows "within_limit (used + x) limit"
  using assms by (auto simp: remaining_def within_limit_def max_def split: option.splits if_splits)

lemma ledger_compatible_None_iff:
  "ledger_compatible ledger request = None \<longleftrightarrow>
     (gpu_count request > 0 \<longrightarrow> Fin 0 < ledger_gpu_count ledger)
   \<and> (gpu_count request > 0 \<longrightarrow> (\<forall>a. accelerator_type request = Some a \<longrightarrow>
        ledger_accelerator_types ledger \<noteq> {} \<longrightarrow> a \<in> ledger_accelerator_types ledger))
   \<and> Fin (cpu_cores request) \<le> ledger_cpu_cores ledger
   \<and> Fin (of_int (memory_mb request)) \<le> ledger_memory_mb ledger
   \<and> Fin (of_int (gpu_count request)) \<le> ledger_gpu_count ledger"
  unfolding ledger_compatible_def by (auto simp: not_less not_le)

text \<open>The ledger built from a usage that fits answers exactly whether the request still fits.\<close>

lemma from_capacity_compatibleD:
  assumes "ledger_compatible (from_capacity capacity used) request = None"
    and "fits_capacity used capacity" and "wf_resource_request request"
  shows "fits_capacity (vector_add used (from_request request)) capacity"
proof -
  from assms(1) have
    "Fin (cpu_cores request) \<le> remaining (capacity_cpu_cores capacity) (rv_cpu_cores used)"
    "Fin (of_int (memory_mb request)) \<le>
       remaining (map_option of_int (capacity_memory_mb capacity)) (of_int (rv_memory_mb used))"
    "Fin (of_int (gpu_count request)) \<le>
       remaining (map_option of_int (capacity_gpu_count capacity)) (of_int (rv_gpu_count used))"
    by (simp_all add: ledger_compatible_None_iff from_capacity_def)
  with assms(2,3) show ?thesis
    by (simp add: fits_capacity_def remaining_ge_iff wf_resource_request_def)
qed

lemma from_capacity_consume:
  assumes "fits_capacity (vector_add used (from_request request)) capacity"
    and "wf_resource_request request"
  shows "ledger_consume (from_capacity capacity used) request
     = from_capacity capacity (vector_add used (from_request request))"
  using assms
  by (simp add: ledger_consume_def from_capacity_def fits_capacity_def consume_remaining
      wf_resource_request_def)

lemma fits_capacity_mono:
  assumes "fits_capacity b capacity"
    and "rv_cpu_cores a \<le> rv_cpu_cores b" "rv_memory_mb a \<le> rv_memory_mb b"
    and "rv_gpu_count a \<le> rv_gpu_count b"
  shows "fits_capacity a capacity"
  using assms by (auto simp: fits_capacity_def within_limit_def split: option.splits)

section \<open>Dominant shares\<close>

definition resource_shares ::
  "task_resource_request \<Rightarrow> node_resource_capacity \<Rightarrow> real list" where
  "resource_shares request capacity =
     (case capacity_cpu_cores capacity of None \<Rightarrow> [] | Some c \<Rightarrow> [cpu_cores request / c])
     @ (case capacity_memory_mb capacity of None \<Rightarrow> []
        | Some m \<Rightarrow> if memory_mb request > 0 then [of_int (memory_mb request) / of_int m] else [])
     @ (case capacity_gpu_count capacity of None \<Rightarrow> []
        | Some g \<Rightarrow> if gpu_count request > 0 then [of_int (gpu_count request) / of_int g] else [])"

text \<open>
  \<open>dominant_resource_share\<close> returns \<open>math.inf\<close> when GPUs are requested of a node configured
  with none; with no configured limit it falls back to the CPU demand.
\<close>

definition dominant_resource_share ::
  "task_resource_request \<Rightarrow> node_resource_capacity \<Rightarrow> xreal" where
  "dominant_resource_share request capacity =
     (if capacity_gpu_count capacity = Some 0 \<and> gpu_count request > 0 then PInf
      else let shares = resource_shares request capacity
           in if shares = [] then Fin (max (cpu_cores request) 1) else Fin (Max (set shares)))"

definition resource_busy_fraction :: "resource_vector \<Rightarrow> node_resource_capacity \<Rightarrow> real" where
  "resource_busy_fraction used capacity =
     (let cpu = (case capacity_cpu_cores capacity of None \<Rightarrow> [] | Some c \<Rightarrow> [rv_cpu_cores used / c]);
          mem = (case capacity_memory_mb capacity of None \<Rightarrow> []
                 | Some m \<Rightarrow> [of_int (rv_memory_mb used) / of_int m]);
          gpu = (case capacity_gpu_count capacity of None \<Rightarrow> []
                 | Some g \<Rightarrow> if g > 0 then [of_int (rv_gpu_count used) / of_int g] else []);
          shares = cpu @ mem @ gpu
      in if shares = [] then 0 else Max (set shares))"

text \<open>A usage that fits keeps the node at most fully busy.\<close>

lemma busy_fraction_le_one:
  assumes "fits_capacity used capacity" "wf_capacity capacity"
  shows "resource_busy_fraction used capacity \<le> 1"
proof -
  have "\<forall>s \<in> set ((case capacity_cpu_cores capacity of None \<Rightarrow> [] | Some c \<Rightarrow> [rv_cpu_cores used / c])
     @ (case capacity_memory_mb capacity of None \<Rightarrow> [] | Some m \<Rightarrow> [of_int (rv_memory_mb used) / of_int m])
     @ (case capacity_gpu_count capacity of None \<Rightarrow> []
          | Some g \<Rightarrow> if g > 0 then [of_int (rv_gpu_count used) / of_int g] else [])). s \<le> 1"
    using assms by (auto simp: fits_capacity_def within_limit_def wf_capacity_def split: option.splits)
  then show ?thesis
    unfolding resource_busy_fraction_def Let_def by (auto simp del: set_append)
qed

text \<open>The share is positive on a well-formed request, so it can divide a migration value.\<close>

lemma resource_shares_pos:
  assumes "wf_resource_request r" "wf_capacity c"
    and "\<not> (capacity_gpu_count c = Some 0 \<and> gpu_count r > 0)" "x \<in> set (resource_shares r c)"
  shows "0 < x"
proof -
  have gpu: "0 < g" if "capacity_gpu_count c = Some g" "gpu_count r > 0" for g
    using that assms(2,3) by (fastforce simp: wf_capacity_def)
  show ?thesis
    using assms(1,2,4) gpu
    by (auto simp: resource_shares_def wf_resource_request_def wf_capacity_def
        split: option.splits if_splits)
qed

lemma dominant_share_pos:
  assumes "wf_resource_request r" "wf_capacity c" "dominant_resource_share r c = Fin s"
  shows "0 < s"
proof (cases "resource_shares r c = []")
  case True
  with assms show ?thesis
    by (auto simp: dominant_resource_share_def Let_def split: if_splits)
next
  case False
  with assms(3) have "s = Max (set (resource_shares r c))"
    and guard: "\<not> (capacity_gpu_count c = Some 0 \<and> gpu_count r > 0)"
    by (auto simp: dominant_resource_share_def Let_def split: if_splits)
  with False have "s \<in> set (resource_shares r c)" by simp
  with assms(1,2) guard show ?thesis by (rule resource_shares_pos)
qed

end
