(* ===== verification/Bid_Models.thy ===== *)
theory Bid_Models
  imports Bid_Resources
begin

text \<open>
  \<open>magellan/bidding/models.py\<close>: the auction strategies, the life cycle of a bid, the bid a task
  submits and the record the destination keeps of it.  The reasons written into a record are
  structured values, one constructor per literal of the code.
\<close>

datatype auction_strategy =
    LowestScore
  | ShortestRemaining
  | LongestRemaining
  | CreditFair
  | HighestRegret
  | PriorityDeadline
  | ResourceEfficiency

datatype bid_status =
    Pending
  | Accepted
  | Activating
  | Consumed
  | Rejected
  | Cancelled
  | Expired

fun bid_status_value :: "bid_status \<Rightarrow> string" where
  "bid_status_value Pending = ''pending''"
| "bid_status_value Accepted = ''accepted''"
| "bid_status_value Activating = ''activating''"
| "bid_status_value Consumed = ''consumed''"
| "bid_status_value Rejected = ''rejected''"
| "bid_status_value Cancelled = ''cancelled''"
| "bid_status_value Expired = ''expired''"

datatype decision_reason =
    ReservationExpired
  | DuplicateTask
  | Incompatible "incompatibility list"
  | Infeasible infeasibility
  | SlotsTaken
  | Contention infeasibility
  | SelectedBy auction_strategy
  | ClaimedByActivation
  | ActivationCompleted
  | ReasonText string

record task_bid_context =
  ctx_workload_type :: string
  ctx_priority :: int
  ctx_deadline_at :: "datetime option"
  ctx_remaining_seconds :: "real option"
  ctx_checkpoint_bytes :: int
  ctx_static_data_bytes :: int
  ctx_accumulated_cost :: real
  ctx_cost_cap :: "real option"
  ctx_resource_request :: task_resource_request
  ctx_fallback_action :: "action_type option"
  ctx_fallback_destination :: "node_id option"
  ctx_fallback_score :: "real option"
  ctx_opportunity_loss :: real
  ctx_compatibility :: task_compatibility_requirements

definition wf_bid_context :: "task_bid_context \<Rightarrow> bool" where
  "wf_bid_context c \<longleftrightarrow> 0 \<le> ctx_priority c \<and> ctx_priority c \<le> 100
   \<and> (\<forall>r. ctx_remaining_seconds c = Some r \<longrightarrow> 0 \<le> r)
   \<and> 0 \<le> ctx_checkpoint_bytes c \<and> 0 \<le> ctx_static_data_bytes c \<and> 0 \<le> ctx_accumulated_cost c
   \<and> (\<forall>x. ctx_cost_cap c = Some x \<longrightarrow> 0 < x)
   \<and> (\<forall>x. ctx_fallback_score c = Some x \<longrightarrow> 0 \<le> x) \<and> 0 \<le> ctx_opportunity_loss c
   \<and> wf_resource_request (ctx_resource_request c)"

text \<open>The metrics \<open>rank_bids\<close> computes for one bid.\<close>

record rank_metrics =
  m_candidate_score :: real
  m_remaining :: "real option"
  m_credit :: real
  m_opportunity_loss :: real
  m_priority :: int
  m_deadline_slack :: "real option"
  m_deadline_urgency :: real
  m_dominant_share :: xreal
  m_efficiency :: real

record bid_request =
  bid_id :: string
  epoch_id :: string
  bid_task_id :: task_id
  task_context :: "task_bid_context option"
  bid_source :: node_id
  bid_destination :: node_id
  candidate :: scored_action
  submitted_at :: datetime

definition validate_migration_candidate ::
  "('a bid_request_scheme) \<Rightarrow> ('a bid_request_scheme) result" where
  "validate_migration_candidate b =
     (if action (candidate b) \<noteq> Migrate
      then Inl (ValueError ''A bid candidate must represent a migrate action'')
      else if source_node (candidate b) \<noteq> bid_source b
      then Inl (ValueError ''Candidate source does not match bid source'')
      else if destination_node (candidate b) \<noteq> Some (bid_destination b)
      then Inl (ValueError ''Candidate destination does not match bid destination'')
      else Inr b)"

record bid_record = bid_request +
  status :: bid_status
  received_at :: datetime
  decided_at :: "datetime option"
  bid_decision_reason :: "decision_reason option"
  reservation_expires_at :: "datetime option"
  activation_started_at :: "datetime option"
  consumed_at :: "datetime option"
  bid_strategy :: "auction_strategy option"
  auction_rank :: "nat option"
  auction_credit_before :: real
  auction_credit_after :: real
  resource_fit :: "bool option"
  compatibility_fit :: "bool option"
  compatibility_notes :: "incompatibility list"
  auction_metrics :: "(rank_metrics \<times> task_resource_request) option"

text \<open>\<open>BidArbiter._request\<close>: a bid without context asks for the default resources.\<close>

definition request_of :: "('a bid_request_scheme) \<Rightarrow> task_resource_request" where
  "request_of b =
     (case task_context b of None \<Rightarrow> default_resource_request | Some c \<Rightarrow> ctx_resource_request c)"

definition requirements_of :: "('a bid_request_scheme) \<Rightarrow> task_compatibility_requirements" where
  "requirements_of b =
     (case task_context b of None \<Rightarrow> default_requirements | Some c \<Rightarrow> ctx_compatibility c)"

definition wf_bid :: "('a bid_request_scheme) \<Rightarrow> bool" where
  "wf_bid b \<longleftrightarrow> bid_id b \<noteq> [] \<and> validate_migration_candidate b = Inr b
   \<and> (\<forall>c. task_context b = Some c \<longrightarrow> wf_bid_context c) \<and> 0 \<le> score (candidate b)"

lemma wf_bid_request [simp]: "wf_bid b \<Longrightarrow> wf_resource_request (request_of b)"
  by (auto simp: wf_bid_def request_of_def wf_bid_context_def default_resource_request_def
      wf_resource_request_def split: option.splits)

text \<open>Fields of a record that no later operation writes are those of the submitted bid.\<close>

lemma request_of_update [simp]:
  "request_of (b\<lparr>status := s\<rparr>) = request_of (b :: bid_record)"
  "request_of (b\<lparr>decided_at := d\<rparr>) = request_of b"
  "request_of (b\<lparr>bid_decision_reason := r\<rparr>) = request_of b"
  "request_of (b\<lparr>reservation_expires_at := e\<rparr>) = request_of b"
  "request_of (b\<lparr>activation_started_at := a\<rparr>) = request_of b"
  "request_of (b\<lparr>consumed_at := a\<rparr>) = request_of b"
  "request_of (b\<lparr>auction_credit_after := x\<rparr>) = request_of b"
  by (simp_all add: request_of_def)

end
