(* ===== verification/Bid_Ranking.thy ===== *)
theory Bid_Ranking
  imports Bid_Models "HOL-Library.Multiset"
begin

text \<open>
  \<open>magellan/bidding/ranking.py\<close>: the sort key of every auction strategy and the ranking of one
  auction window.  A Python key tuple \<open>(v, score, received_at, bid_id)\<close> is the pair of the list
  of its numbers and the identifier, ordered lexicographically.
\<close>

section \<open>Keys and metrics\<close>

record ranked_bid =
  ranked_of :: bid_record
  rank_key :: "xreal list \<times> string"
  ranking_value :: xreal
  metrics :: rank_metrics

definition context_value ::
  "bid_record \<Rightarrow> (task_bid_context \<Rightarrow> 'v option) \<Rightarrow> 'v option \<Rightarrow> 'v option" where
  "context_value b field fallback =
     (case task_context b of None \<Rightarrow> fallback
      | Some c \<Rightarrow> (case field c of None \<Rightarrow> fallback | Some v \<Rightarrow> Some v))"

definition remaining_of :: "bid_record \<Rightarrow> real option" where
  "remaining_of b = context_value b ctx_remaining_seconds None"

definition opportunity_loss_of :: "bid_record \<Rightarrow> real" where
  "opportunity_loss_of b = the (context_value b (\<lambda>c. Some (ctx_opportunity_loss c)) (Some 0))"

definition priority_of :: "bid_record \<Rightarrow> int" where
  "priority_of b = the (context_value b (\<lambda>c. Some (ctx_priority c)) (Some 0))"

definition deadline_metrics :: "bid_record \<Rightarrow> datetime \<Rightarrow> auction_policy \<Rightarrow> real \<times> real option" where
  "deadline_metrics b now policy =
     (case context_value b ctx_deadline_at None of
        None \<Rightarrow> (0, None)
      | Some deadline \<Rightarrow>
          let remaining_seconds = the (context_value b ctx_remaining_seconds (Some 0));
              wall_slack = deadline - now;
              completion_slack = wall_slack - remaining_seconds;
              urgency = max 0 (min 2 (1 - completion_slack / deadline_urgency_window_seconds policy))
          in (urgency, Some completion_slack))"

definition efficiency_of ::
  "bid_record \<Rightarrow> node_resource_capacity \<Rightarrow> auction_policy \<Rightarrow> xreal \<times> real" where
  "efficiency_of b node_resources policy =
     (let share = (case task_context b of None \<Rightarrow> Fin 1
                   | Some c \<Rightarrow> dominant_resource_share (ctx_resource_request c) node_resources);
          migration_value = max (opportunity_loss_of b) (max 0 (1 - score (candidate b)))
      in (share, case share of PInf \<Rightarrow> 0
                 | Fin s \<Rightarrow> migration_value / max s (resource_efficiency_floor policy)))"

definition credit_of :: "real dict \<Rightarrow> task_id \<Rightarrow> real" where
  "credit_of credits t = (case dict_get credits t of None \<Rightarrow> 0 | Some c \<Rightarrow> c)"

definition metrics_of ::
  "real dict \<Rightarrow> node_resource_capacity \<Rightarrow> auction_policy \<Rightarrow> datetime \<Rightarrow> bid_record \<Rightarrow> rank_metrics" where
  "metrics_of credits node_resources policy now b =
     (let (urgency, slack) = deadline_metrics b now policy;
          (share, efficiency) = efficiency_of b node_resources policy
      in \<lparr>m_candidate_score = score (candidate b), m_remaining = remaining_of b,
          m_credit = credit_of credits (bid_task_id b), m_opportunity_loss = opportunity_loss_of b,
          m_priority = priority_of b, m_deadline_slack = slack, m_deadline_urgency = urgency,
          m_dominant_share = share, m_efficiency = efficiency\<rparr>)"

definition urgency_value :: "rank_metrics \<Rightarrow> real" where
  "urgency_value m = m_deadline_urgency m + of_int (m_priority m) / 100"

text \<open>The leading key components and the reported ranking value of each strategy.\<close>

fun strategy_key :: "auction_strategy \<Rightarrow> rank_metrics \<Rightarrow> xreal list \<times> xreal" where
  "strategy_key LowestScore m = ([Fin (m_candidate_score m)], Fin (m_candidate_score m))"
| "strategy_key ShortestRemaining m =
     (let value = (case m_remaining m of None \<Rightarrow> PInf | Some r \<Rightarrow> Fin r)
      in ([value, Fin (m_candidate_score m)], value))"
| "strategy_key LongestRemaining m =
     (let value = (case m_remaining m of None \<Rightarrow> - 1 | Some r \<Rightarrow> r)
      in ([Fin (- value), Fin (m_candidate_score m)], Fin value))"
| "strategy_key CreditFair m =
     ([Fin (- m_credit m), Fin (m_candidate_score m)], Fin (m_credit m))"
| "strategy_key HighestRegret m =
     ([Fin (- m_opportunity_loss m), Fin (m_candidate_score m)], Fin (m_opportunity_loss m))"
| "strategy_key PriorityDeadline m =
     ([Fin (- urgency_value m), Fin (m_candidate_score m)], Fin (urgency_value m))"
| "strategy_key ResourceEfficiency m =
     ([Fin (- m_efficiency m), Fin (m_candidate_score m)], Fin (m_efficiency m))"

definition rank_one ::
  "auction_strategy \<Rightarrow> real dict \<Rightarrow> node_resource_capacity \<Rightarrow> auction_policy \<Rightarrow> datetime
     \<Rightarrow> bid_record \<Rightarrow> ranked_bid" where
  "rank_one strategy credits node_resources policy now b =
     (let m = metrics_of credits node_resources policy now b;
          (key, value) = strategy_key strategy m
      in \<lparr>ranked_of = b, rank_key = (key @ [Fin (received_at b)], bid_id b),
          ranking_value = value, metrics = m\<rparr>)"

definition rank_bids ::
  "bid_record list \<Rightarrow> auction_strategy \<Rightarrow> real dict \<Rightarrow> node_resource_capacity \<Rightarrow> auction_policy
     \<Rightarrow> datetime \<Rightarrow> ranked_bid list" where
  "rank_bids bids strategy credits node_resources policy now =
     sort_key rank_key (map (rank_one strategy credits node_resources policy now) bids)"

section \<open>The ranking is a sorted permutation of the window\<close>

lemma ranked_of_rank_one [simp]: "ranked_of (rank_one st cr nr pol now b) = b"
  by (simp add: rank_one_def Let_def split: prod.split)

lemma snd_rank_key_rank_one [simp]: "snd (rank_key (rank_one st cr nr pol now b)) = bid_id b"
  by (simp add: rank_one_def Let_def split: prod.split)

lemma set_rank_bids: "set (rank_bids bids st cr nr pol now) = rank_one st cr nr pol now ` set bids"
  by (simp add: rank_bids_def)

lemma ranked_of_rank_bids_set [simp]: "ranked_of ` set (rank_bids bids st cr nr pol now) = set bids"
  by (simp add: set_rank_bids image_image)

lemma mset_rank_bids: "mset (map ranked_of (rank_bids bids st cr nr pol now)) = mset bids"
proof -
  have "mset (map ranked_of (rank_bids bids st cr nr pol now))
      = image_mset ranked_of (mset (map (rank_one st cr nr pol now) bids))"
    by (simp add: rank_bids_def)
  also have "\<dots> = mset (map (ranked_of \<circ> rank_one st cr nr pol now) bids)"
    by (simp only: map_map flip: mset_map)
  also have "\<dots> = mset bids" by (simp add: comp_def)
  finally show ?thesis .
qed

lemma length_rank_bids [simp]: "length (rank_bids bids st cr nr pol now) = length bids"
  by (simp add: rank_bids_def)

lemma sorted_rank_bids: "sorted (map rank_key (rank_bids bids st cr nr pol now))"
  by (simp add: rank_bids_def)

lemma rank_bids_metrics:
  assumes "r \<in> set (rank_bids bids st cr nr pol now)"
  shows "metrics r = metrics_of cr nr pol now (ranked_of r)"
    and "fst (rank_key r) = fst (strategy_key st (metrics r)) @ [Fin (received_at (ranked_of r))]"
    and "ranking_value r = snd (strategy_key st (metrics r))"
  using assms by (auto simp: set_rank_bids rank_one_def Let_def split: prod.splits)

text \<open>
  Bid identifiers are part of the key, so the order of the incoming list has no influence on the
  ranking of a window whose bids have different identifiers.
\<close>

lemma rank_key_inj:
  assumes "distinct (map bid_id bids)"
  shows "inj_on rank_key (set (map (rank_one st cr nr pol now) bids))"
proof (rule inj_onI)
  fix x y
  assume x: "x \<in> set (map (rank_one st cr nr pol now) bids)"
    and y: "y \<in> set (map (rank_one st cr nr pol now) bids)" and eq: "rank_key x = rank_key y"
  from x y obtain b c where b: "b \<in> set bids" "x = rank_one st cr nr pol now b"
    and c: "c \<in> set bids" "y = rank_one st cr nr pol now c" by auto
  from eq b(2) c(2) have "bid_id b = bid_id c" by (metis snd_rank_key_rank_one)
  with assms b(1) c(1) have "b = c" by (metis distinct_map inj_onD)
  with b(2) c(2) show "x = y" by simp
qed

lemma sort_key_mset_cong:
  fixes f :: "'a \<Rightarrow> 'b::linorder"
  assumes "mset xs = mset ys" "inj_on f (set xs)"
  shows "sort_key f xs = sort_key f ys"
proof (rule properties_for_sort_key)
  show "mset (sort_key f ys) = mset xs" by (simp add: assms(1))
  show "sorted (map f (sort_key f ys))" by simp
  fix k assume "k \<in> set (sort_key f ys)"
  with assms(1) have "k \<in> set xs" by (metis set_mset_mset set_sort)
  have one: "filter (\<lambda>x. f k = f x) zs = replicate (count (mset zs) k) k"
    if "set zs = set xs" for zs
  proof -
    have "filter (\<lambda>x. f k = f x) zs = filter (\<lambda>x. k = x) zs"
      using assms(2) \<open>k \<in> set xs\<close> that by (intro filter_cong) (auto dest: inj_onD)
    then show ?thesis by (metis (no_types, lifting) replicate_count_mset_eq_filter_eq)
  qed
  have "set (sort_key f ys) = set xs" by (metis assms(1) set_mset_mset set_sort)
  with one [of xs] one [of "sort_key f ys"]
  show "filter (\<lambda>x. f k = f x) (sort_key f ys) = filter (\<lambda>x. f k = f x) xs"
    by (simp add: assms(1))
qed

lemma rank_bids_order_independent:
  assumes "distinct (map bid_id bids)" "mset bids = mset bids'"
  shows "rank_bids bids st cr nr pol now = rank_bids bids' st cr nr pol now"
  unfolding rank_bids_def
proof (rule sort_key_mset_cong)
  show "mset (map (rank_one st cr nr pol now) bids) = mset (map (rank_one st cr nr pol now) bids')"
    using assms(2) by simp
  show "inj_on rank_key (set (map (rank_one st cr nr pol now) bids))"
    using assms(1) by (rule rank_key_inj)
qed

section \<open>What each strategy prefers\<close>

text \<open>
  The strict preference each strategy documents, stated on the metrics and independent of the
  keys; a missing estimate of the remaining work ranks last under both remaining-work strategies.
\<close>

fun prefers :: "auction_strategy \<Rightarrow> rank_metrics \<Rightarrow> rank_metrics \<Rightarrow> bool" where
  "prefers LowestScore a b \<longleftrightarrow> m_candidate_score a < m_candidate_score b"
| "prefers ShortestRemaining a b \<longleftrightarrow>
     (case (m_remaining a, m_remaining b) of
        (Some x, Some y) \<Rightarrow> x < y | (Some _, None) \<Rightarrow> True | _ \<Rightarrow> False)"
| "prefers LongestRemaining a b \<longleftrightarrow>
     (case (m_remaining a, m_remaining b) of
        (Some x, Some y) \<Rightarrow> y < x | (Some x, None) \<Rightarrow> - 1 < x | (None, Some y) \<Rightarrow> y < - 1
      | _ \<Rightarrow> False)"
| "prefers CreditFair a b \<longleftrightarrow> m_credit a > m_credit b"
| "prefers HighestRegret a b \<longleftrightarrow> m_opportunity_loss a > m_opportunity_loss b"
| "prefers PriorityDeadline a b \<longleftrightarrow> urgency_value a > urgency_value b"
| "prefers ResourceEfficiency a b \<longleftrightarrow> m_efficiency a > m_efficiency b"

lemma strategy_key_prefers:
  assumes "strategy_key st a = (ka, va)" "strategy_key st b = (kb, vb)" "prefers st a b"
  shows "ka @ [Fin s] < kb @ [Fin t]"
  using assms
  by (cases st) (auto simp: Let_def split: option.splits)

lemma strategy_key_tie:
  assumes "strategy_key st a = (ka, va)" "strategy_key st b = (kb, vb)"
    and "\<not> prefers st a b" "\<not> prefers st b a" "m_candidate_score a < m_candidate_score b"
  shows "ka @ [Fin s] < kb @ [Fin t]"
  using assms
  by (cases st) (auto simp: Let_def split: option.splits)

lemma rank_bids_nth_key_le:
  assumes "i < j" "j < length bids"
  shows "rank_key (rank_bids bids st cr nr pol now ! i) \<le> rank_key (rank_bids bids st cr nr pol now ! j)"
  using sorted_nth_mono [OF sorted_rank_bids, of i j bids st cr nr pol now] assms by simp

lemma key_less_not_le: "fst x < fst y \<Longrightarrow> \<not> (y :: xreal list \<times> string) \<le> x"
  by (simp add: less_eq_prod_def not_le)

lemma rank_bids_respects_preference:
  fixes st :: auction_strategy and cr :: "real dict" and nr :: node_resource_capacity
    and pol :: auction_policy and now :: datetime
  assumes "i < j" "j < length bids"
  defines "r \<equiv> rank_bids bids st cr nr pol now"
  shows "\<not> prefers st (metrics (r ! j)) (metrics (r ! i))"
    and "\<not> prefers st (metrics (r ! i)) (metrics (r ! j)) \<Longrightarrow>
         m_candidate_score (metrics (r ! i)) \<le> m_candidate_score (metrics (r ! j))"
proof -
  have mem: "r ! i \<in> set r" "r ! j \<in> set r"
    using assms by (simp_all add: r_def nth_mem)
  note key = mem [unfolded r_def, THEN rank_bids_metrics(2), folded r_def]
  obtain ki vi kj vj where ki: "strategy_key st (metrics (r ! i)) = (ki, vi)"
    and kj: "strategy_key st (metrics (r ! j)) = (kj, vj)"
    by (metis surj_pair)
  have le: "rank_key (r ! i) \<le> rank_key (r ! j)"
    unfolding r_def using assms(1,2) by (rule rank_bids_nth_key_le)
  show np: "\<not> prefers st (metrics (r ! j)) (metrics (r ! i))"
  proof
    assume "prefers st (metrics (r ! j)) (metrics (r ! i))"
    with strategy_key_prefers [OF kj ki] have "fst (rank_key (r ! j)) < fst (rank_key (r ! i))"
      by (simp add: key ki kj)
    with le show False by (metis key_less_not_le)
  qed
  show "m_candidate_score (metrics (r ! i)) \<le> m_candidate_score (metrics (r ! j))"
    if tie: "\<not> prefers st (metrics (r ! i)) (metrics (r ! j))"
  proof (rule ccontr)
    assume "\<not> ?thesis"
    with strategy_key_tie [OF kj ki np tie]
    have "fst (rank_key (r ! j)) < fst (rank_key (r ! i))" by (simp add: key ki kj)
    with le show False by (metis key_less_not_le)
  qed
qed

section \<open>Bounds on the deadline urgency and the efficiency\<close>

lemma deadline_urgency_bounds: "0 \<le> m_deadline_urgency (metrics_of cr nr pol now b)
    \<and> m_deadline_urgency (metrics_of cr nr pol now b) \<le> 2"
  by (auto simp: metrics_of_def deadline_metrics_def Let_def split: option.splits prod.splits)

lemma efficiency_nonneg:
  assumes "0 < resource_efficiency_floor pol"
  shows "0 \<le> m_efficiency (metrics_of cr nr pol now b)"
  using assms
  by (auto simp: metrics_of_def efficiency_of_def Let_def max_def
      split: option.splits prod.splits xreal.splits)

end
