(* ===== verification/Bid_Ranking_Claims.thy ===== *)
theory Bid_Ranking_Claims
  imports Bid_Ranking
begin

text \<open>The claims about compatibility checking and about the ranking of an auction window.\<close>

text \<open>
  The compatibility check accepts a node exactly when it meets every requirement of the task
  (architecture, operating system, minima, accelerators, commands, features, runtime versions),
  and it reports a reason exactly when it refuses.
\<close>

theorem compatibility_decides_requirements:
  "(compatible (check_compatibility r c) \<longleftrightarrow> requirements_met r c)
   \<and> (compatible (check_compatibility r c) \<longleftrightarrow> reasons (check_compatibility r c) = [])"
  using check_compatibility_iff compatible_iff_no_reasons by blast

text \<open>
  The ranking of an auction window is a permutation of its bids that does not depend on the
  order in which they are given: the bids of a window have one ranking.
\<close>

theorem ranking_is_canonical:
  assumes "distinct (map bid_id bids)" and "mset bids = mset bids'"
  shows "mset (map ranked_of (rank_bids bids st cr nr pol now)) = mset bids
    \<and> rank_bids bids st cr nr pol now = rank_bids bids' st cr nr pol now"
  using mset_rank_bids rank_bids_order_independent [OF assms] by blast

text \<open>
  The ranking respects the documented preference of the configured strategy: no bid stands
  behind a bid the strategy prefers it to, and of two bids the strategy does not separate, the one
  with the lower score stands first.
\<close>

theorem ranking_respects_strategy:
  assumes "i < j" and "j < length bids"
  shows "\<not> prefers st (metrics (rank_bids bids st cr nr pol now ! j))
             (metrics (rank_bids bids st cr nr pol now ! i))
    \<and> (\<not> prefers st (metrics (rank_bids bids st cr nr pol now ! i))
             (metrics (rank_bids bids st cr nr pol now ! j))
        \<longrightarrow> m_candidate_score (metrics (rank_bids bids st cr nr pol now ! i))
          \<le> m_candidate_score (metrics (rank_bids bids st cr nr pol now ! j)))"
  using rank_bids_respects_preference [OF assms] by blast

section \<open>Two bids\<close>

definition plain_bid :: "string \<Rightarrow> real \<Rightarrow> bid_record" where
  "plain_bid i s =
     \<lparr>bid_id = i, epoch_id = ''e'', bid_task_id = i, task_context = None, bid_source = ''a'',
      bid_destination = ''b'',
      candidate = \<lparr>action = Migrate, source_node = ''a'', destination_node = Some ''b'',
        time_seconds = 1, carbon_grams = 1, cost_usd = 1, detail_idle_seconds = None,
        detail_carbon_confidence = None, normalized_time = 0, normalized_carbon = 0,
        normalized_cost = 0, score = s\<rparr>,
      submitted_at = 0, status = Pending, received_at = 0, decided_at = None,
      bid_decision_reason = None, reservation_expires_at = None, activation_started_at = None,
      consumed_at = None, bid_strategy = None, auction_rank = None, auction_credit_before = 0,
      auction_credit_after = 0, resource_fit = None, compatibility_fit = None,
      compatibility_notes = [], auction_metrics = None\<rparr>"

lemma plain_bid_select [simp]: "bid_id (plain_bid i s) = i" "score (candidate (plain_bid i s)) = s"
  by (simp_all add: plain_bid_def)

definition plain_policy :: auction_policy where
  "plain_policy = \<lparr>credit_increment = 1, credit_max = 5, accepted_credit_decay = 1 / 2,
     deadline_urgency_window_seconds = 3600, resource_efficiency_floor = 1 / 100\<rparr>"

theorem ranking_is_canonical_witness:
  "rank_bids [plain_bid ''x'' 2, plain_bid ''y'' 1] LowestScore [] unlimited_capacity plain_policy 0
     = rank_bids [plain_bid ''y'' 1, plain_bid ''x'' 2] LowestScore [] unlimited_capacity plain_policy 0"
  using ranking_is_canonical [of "[plain_bid ''x'' 2, plain_bid ''y'' 1]" "[plain_bid ''y'' 1, plain_bid ''x'' 2]"
      LowestScore "[]" unlimited_capacity plain_policy 0]
  by (simp add: add_mset_commute)

theorem ranking_respects_strategy_witness:
  "\<not> prefers HighestRegret
     (metrics (rank_bids [plain_bid ''x'' 2, plain_bid ''y'' 1] HighestRegret [] unlimited_capacity plain_policy 0 ! 1))
     (metrics (rank_bids [plain_bid ''x'' 2, plain_bid ''y'' 1] HighestRegret [] unlimited_capacity plain_policy 0 ! 0))"
  using ranking_respects_strategy [of 0 1 "[plain_bid ''x'' 2, plain_bid ''y'' 1]" HighestRegret]
  by simp

end
