(* ===== verification/Bid_Store.thy ===== *)
theory Bid_Store
  imports Bid_Ranking
begin

text \<open>
  \<open>magellan/bidding/store.py\<close>: the durable store of bids and capacity leases of one daemon.
  Every method runs under the store's lock, so it is one atomic function from the store and an
  instant to the new store and its result; a method that raises still keeps the expirations it
  performed first.  The file \<open>control/bids.json\<close> is the component \<open>store_file\<close>: the text
  encoding is left out, what is written and when is not.
\<close>

section \<open>State\<close>

datatype bid_file =
    LegacyFile "bid_record list"
  | DocumentFile "bid_record list" "real dict"

record bid_store =
  records :: "bid_record dict"
  credits :: "real dict"
  reservation_ttl :: real
  has_state_file :: bool
  store_file :: "bid_file option"

definition active_status :: "bid_status \<Rightarrow> bool" where
  "active_status s = (s \<in> {Accepted, Activating})"

definition find_bid :: "bid_store \<Rightarrow> string \<Rightarrow> bid_record option" where
  "find_bid s i = dict_get (records s) i"

definition bids_of :: "bid_store \<Rightarrow> bid_record list" where
  "bids_of s = map snd (records s)"

section \<open>Persistence\<close>

definition persist :: "bid_store \<Rightarrow> bid_store" where
  "persist s =
     (if has_state_file s
      then s\<lparr>store_file := Some (DocumentFile (bids_of s) (sort_key fst (credits s)))\<rparr>
      else s)"

definition dict_of_records :: "bid_record list \<Rightarrow> bid_record dict" where
  "dict_of_records rs = fold (\<lambda>r d. dict_put (bid_id r) r d) rs []"

definition dict_of_credits :: "real dict \<Rightarrow> real dict" where
  "dict_of_credits cs = fold (\<lambda>(t, v) d. dict_put t (max 0 v) d) cs []"

definition load :: "real \<Rightarrow> bool \<Rightarrow> bid_file option \<Rightarrow> bid_store" where
  "load ttl durable file =
     (let blank = \<lparr>records = [], credits = [], reservation_ttl = ttl, has_state_file = durable,
                   store_file = file\<rparr>
      in if \<not> durable then blank
         else case file of
           None \<Rightarrow> blank
         | Some (LegacyFile rs) \<Rightarrow> blank\<lparr>records := dict_of_records rs\<rparr>
         | Some (DocumentFile rs cs) \<Rightarrow>
             blank\<lparr>records := dict_of_records rs, credits := dict_of_credits cs\<rparr>)"

section \<open>Expiry and submission\<close>

definition is_due :: "datetime \<Rightarrow> bid_record \<Rightarrow> bool" where
  "is_due now r =
     (active_status (status r) \<and>
      (case reservation_expires_at r of None \<Rightarrow> False | Some e \<Rightarrow> e \<le> now))"

definition expire_record :: "datetime \<Rightarrow> bid_record \<Rightarrow> bid_record" where
  "expire_record now r =
     (if is_due now r
      then r\<lparr>status := Expired, decided_at := Some now, bid_decision_reason := Some ReservationExpired\<rparr>
      else r)"

definition expire_locked :: "datetime \<Rightarrow> bid_store \<Rightarrow> bid_store \<times> bid_record list" where
  "expire_locked now s =
     (let due = filter (is_due now) (bids_of s);
          s' = s\<lparr>records := map (\<lambda>(k, r). (k, expire_record now r)) (records s)\<rparr>
      in (if due = [] then s' else persist s', map (expire_record now) due))"

definition submit :: "bid_request \<Rightarrow> datetime \<Rightarrow> bid_store \<Rightarrow> bid_store \<times> bid_record" where
  "submit request now s =
     (case find_bid s (bid_id request) of
        Some existing \<Rightarrow> (s, existing)
      | None \<Rightarrow>
          let r = \<lparr>bid_id = bid_id request, epoch_id = epoch_id request,
                   bid_task_id = bid_task_id request, task_context = task_context request,
                   bid_source = bid_source request, bid_destination = bid_destination request,
                   candidate = candidate request, submitted_at = submitted_at request,
                   status = Pending, received_at = now, decided_at = None,
                   bid_decision_reason = None, reservation_expires_at = None,
                   activation_started_at = None, consumed_at = None, bid_strategy = None,
                   auction_rank = None, auction_credit_before = 0, auction_credit_after = 0,
                   resource_fit = None, compatibility_fit = None, compatibility_notes = [],
                   auction_metrics = None\<rparr>
          in (persist (s\<lparr>records := dict_put (bid_id r) r (records s)\<rparr>), r))"

section \<open>Queries\<close>

definition get_bid :: "string \<Rightarrow> datetime \<Rightarrow> bid_store \<Rightarrow> bid_store \<times> bid_record option" where
  "get_bid i now s = (let s' = fst (expire_locked now s) in (s', find_bid s' i))"

text \<open>\<open>sorted(..., reverse=True)\<close> keeps the order of equal keys.\<close>

definition list_records :: "datetime \<Rightarrow> bid_store \<Rightarrow> bid_store \<times> bid_record list" where
  "list_records now s =
     (let s' = fst (expire_locked now s)
      in (s', rev (sort_key received_at (rev (bids_of s')))))"

definition pending_records :: "datetime \<Rightarrow> bid_store \<Rightarrow> bid_store \<times> bid_record list" where
  "pending_records now s =
     (let (s', rs) = list_records now s
      in (s', sort_key received_at (filter (\<lambda>r. status r = Pending) rs)))"

definition reservations_of :: "bid_store \<Rightarrow> bid_record list" where
  "reservations_of s = filter (\<lambda>r. active_status (status r)) (bids_of s)"

definition active_reservations :: "datetime \<Rightarrow> bid_store \<Rightarrow> bid_store \<times> bid_record list" where
  "active_reservations now s =
     (let s' = fst (expire_locked now s) in (s', reservations_of s'))"

definition active_reservation_count :: "datetime \<Rightarrow> bid_store \<Rightarrow> bid_store \<times> nat" where
  "active_reservation_count now s =
     (let (s', rs) = active_reservations now s in (s', length rs))"

section \<open>Decisions and leases\<close>

definition put_bid :: "bid_record \<Rightarrow> bid_store \<Rightarrow> bid_store" where
  "put_bid r s = persist (s\<lparr>records := dict_put (bid_id r) r (records s)\<rparr>)"

record decision =
  d_status :: bid_status
  d_reason :: decision_reason
  d_strategy :: "auction_strategy option"
  d_rank :: "nat option"
  d_credit_before :: real
  d_resource_fit :: "bool option"
  d_compatibility_fit :: "bool option"
  d_compatibility_notes :: "incompatibility list"
  d_metrics :: "(rank_metrics \<times> task_resource_request) option"

definition decided_record :: "decision \<Rightarrow> datetime \<Rightarrow> real \<Rightarrow> bid_record \<Rightarrow> bid_record" where
  "decided_record d now ttl r =
     r\<lparr>status := d_status d, decided_at := Some now, bid_decision_reason := Some (d_reason d),
       bid_strategy := d_strategy d, auction_rank := d_rank d,
       auction_credit_before := max 0 (d_credit_before d),
       auction_credit_after := max 0 (d_credit_before d), resource_fit := d_resource_fit d,
       compatibility_fit := d_compatibility_fit d, compatibility_notes := d_compatibility_notes d,
       auction_metrics := d_metrics d,
       reservation_expires_at :=
         (if d_status d = Accepted then Some (now + ttl) else reservation_expires_at r)\<rparr>"

definition decide ::
  "string \<Rightarrow> decision \<Rightarrow> datetime \<Rightarrow> bid_store \<Rightarrow> bid_store \<times> bid_record result" where
  "decide i d now s =
     (if d_status d \<noteq> Accepted \<and> d_status d \<noteq> Rejected
      then (s, Inl (ValueError ''An arbiter decision must accept or reject a bid''))
      else
        let s1 = fst (expire_locked now s)
        in case find_bid s1 i of
             None \<Rightarrow> (s1, Inl (KeyError (''Unknown bid: '' @ i)))
           | Some r \<Rightarrow>
               if status r \<noteq> Pending then (s1, Inr r)
               else let r' = decided_record d now (reservation_ttl s) r
                    in (put_bid r' s1, Inr r'))"

definition renew :: "string \<Rightarrow> datetime \<Rightarrow> bid_store \<Rightarrow> bid_store \<times> bid_record result" where
  "renew i now s =
     (let s1 = fst (expire_locked now s)
      in case find_bid s1 i of
           None \<Rightarrow> (s1, Inl (KeyError (''Unknown bid: '' @ i)))
         | Some r \<Rightarrow>
             if \<not> active_status (status r)
             then (s1, Inl (RuntimeError (''Cannot renew bid '' @ i @ ''; status='' @ bid_status_value (status r))))
             else let r' = r\<lparr>reservation_expires_at := Some (now + reservation_ttl s)\<rparr>
                  in (put_bid r' s1, Inr r'))"

definition begin_activation ::
  "string \<Rightarrow> task_id \<Rightarrow> node_id \<Rightarrow> node_id \<Rightarrow> datetime \<Rightarrow> bid_store
     \<Rightarrow> bid_store \<times> bid_record result" where
  "begin_activation i task source destination now s =
     (let s1 = fst (expire_locked now s)
      in case find_bid s1 i of
           None \<Rightarrow> (s1, Inl (KeyError (''Unknown bid: '' @ i)))
         | Some r \<Rightarrow>
             if \<not> (bid_task_id r = task \<and> bid_source r = source \<and> bid_destination r = destination)
             then (s1, Inl (RuntimeError (''Reservation '' @ i @ '' does not match the activation request'')))
             else if status r \<noteq> Accepted
             then (s1, Inl (RuntimeError (''Reservation '' @ i @ '' is not activatable; status=''
                     @ bid_status_value (status r))))
             else let r' = r\<lparr>status := Activating, activation_started_at := Some now,
                             bid_decision_reason := Some ClaimedByActivation\<rparr>
                  in (put_bid r' s1, Inr r'))"

definition consume :: "string \<Rightarrow> datetime \<Rightarrow> bid_store \<Rightarrow> bid_store \<times> bid_record result" where
  "consume i now s =
     (case find_bid s i of
        None \<Rightarrow> (s, Inl (KeyError (''Unknown bid: '' @ i)))
      | Some r \<Rightarrow>
          if status r \<noteq> Activating
          then (s, Inl (RuntimeError (''Cannot consume bid '' @ i @ ''; status='' @ bid_status_value (status r))))
          else let r' = r\<lparr>status := Consumed, consumed_at := Some now,
                          reservation_expires_at := None,
                          bid_decision_reason := Some ActivationCompleted\<rparr>
               in (put_bid r' s, Inr r'))"

definition cancel ::
  "string \<Rightarrow> decision_reason \<Rightarrow> datetime \<Rightarrow> bid_store \<Rightarrow> bid_store \<times> bid_record result" where
  "cancel i reason now s =
     (case find_bid s i of
        None \<Rightarrow> (s, Inl (KeyError (''Unknown bid: '' @ i)))
      | Some r \<Rightarrow>
          if status r \<in> {Consumed, Rejected, Expired, Cancelled} then (s, Inr r)
          else let r' = r\<lparr>status := Cancelled, decided_at := Some now,
                          reservation_expires_at := None, bid_decision_reason := Some reason\<rparr>
               in (put_bid r' s, Inr r'))"

section \<open>Fairness credits\<close>

definition credit_for :: "bid_store \<Rightarrow> task_id \<Rightarrow> real" where
  "credit_for s t = credit_of (credits s) t"

definition set_credit :: "string \<Rightarrow> real \<Rightarrow> bid_store \<Rightarrow> bid_store" where
  "set_credit i after s =
     (case find_bid s i of
        None \<Rightarrow> s
      | Some r \<Rightarrow> s\<lparr>credits := dict_put (bid_task_id r) after (credits s),
                     records := dict_put (bid_id r) (r\<lparr>auction_credit_after := after\<rparr>) (records s)\<rparr>)"

definition decay_credit :: "real \<Rightarrow> string \<Rightarrow> bid_store \<Rightarrow> bid_store" where
  "decay_credit accepted_decay i s =
     (case find_bid s i of None \<Rightarrow> s
      | Some r \<Rightarrow> set_credit i (max 0 (credit_for s (bid_task_id r) * accepted_decay)) s)"

definition earn_credit :: "real \<Rightarrow> real \<Rightarrow> string \<Rightarrow> bid_store \<Rightarrow> bid_store" where
  "earn_credit increment maximum i s =
     (case find_bid s i of None \<Rightarrow> s
      | Some r \<Rightarrow> set_credit i (min maximum (credit_for s (bid_task_id r) + increment)) s)"

definition refresh_credit :: "string \<Rightarrow> bid_store \<Rightarrow> bid_store" where
  "refresh_credit i s =
     (case find_bid s i of None \<Rightarrow> s
      | Some r \<Rightarrow>
          if auction_credit_after r = 0
          then s\<lparr>records := dict_put (bid_id r)
                   (r\<lparr>auction_credit_after := credit_for s (bid_task_id r)\<rparr>) (records s)\<rparr>
          else s)"

text \<open>The two sets of identifiers are given as the lists in which Python iterates over them.\<close>

definition apply_credit_outcomes ::
  "string list \<Rightarrow> string list \<Rightarrow> real \<Rightarrow> real \<Rightarrow> real \<Rightarrow> bid_store \<Rightarrow> bid_store" where
  "apply_credit_outcomes accepted rejected increment maximum accepted_decay s =
     (let s1 = fold (decay_credit accepted_decay) accepted s;
          s2 = fold (earn_credit increment maximum) rejected s1;
          s3 = fold refresh_credit (remdups (accepted @ rejected)) s2
      in persist s3)"

section \<open>The operations as one alphabet\<close>

datatype store_op =
    Submit bid_request
  | Get string
  | ListRecords
  | PendingRecords
  | ActiveReservations
  | ActiveCount
  | ExpireReservations
  | Decide string decision
  | Renew string
  | BeginActivation string task_id node_id node_id
  | Consume string
  | Cancel string decision_reason
  | CreditOutcomes "string list" "string list" real real real

text \<open>The effect of one locked call on the store, its result left aside.\<close>

fun store_effect :: "datetime \<Rightarrow> store_op \<Rightarrow> bid_store \<Rightarrow> bid_store" where
  "store_effect now (Submit b) s = fst (submit b now s)"
| "store_effect now (Get i) s = fst (get_bid i now s)"
| "store_effect now ListRecords s = fst (list_records now s)"
| "store_effect now PendingRecords s = fst (pending_records now s)"
| "store_effect now ActiveReservations s = fst (active_reservations now s)"
| "store_effect now ActiveCount s = fst (active_reservation_count now s)"
| "store_effect now ExpireReservations s = fst (expire_locked now s)"
| "store_effect now (Decide i d) s = fst (decide i d now s)"
| "store_effect now (Renew i) s = fst (renew i now s)"
| "store_effect now (BeginActivation i t a b) s = fst (begin_activation i t a b now s)"
| "store_effect now (Consume i) s = fst (consume i now s)"
| "store_effect now (Cancel i reason) s = fst (cancel i reason now s)"
| "store_effect now (CreditOutcomes acc rej increment maximum decay) s =
     apply_credit_outcomes acc rej increment maximum decay s"

text \<open>The policy bounds credit parameters (\<open>AuctionPolicyConfig\<close>); other calls are unrestricted.\<close>

fun wf_store_op :: "store_op \<Rightarrow> bool" where
  "wf_store_op (CreditOutcomes acc rej increment maximum decay) \<longleftrightarrow>
     0 \<le> increment \<and> 0 < maximum \<and> 0 \<le> decay \<and> decay \<le> 1"
| "wf_store_op _ \<longleftrightarrow> True"

inductive store_step :: "bid_store \<Rightarrow> bid_store \<Rightarrow> bool" where
  call: "wf_store_op op \<Longrightarrow> s' = store_effect now op s \<Longrightarrow> store_step s s'"

inductive_cases store_stepE [elim]: "store_step s s'"

section \<open>What each primitive does to the record of a key\<close>

lemma active_status_simps [simp]:
  "active_status Accepted" "active_status Activating" "\<not> active_status Pending"
  "\<not> active_status Consumed" "\<not> active_status Rejected" "\<not> active_status Cancelled"
  "\<not> active_status Expired"
  by (simp_all add: active_status_def)

lemma persist_select [simp]:
  "records (persist s) = records s" "credits (persist s) = credits s"
  "reservation_ttl (persist s) = reservation_ttl s" "has_state_file (persist s) = has_state_file s"
  by (simp_all add: persist_def)

lemma dict_get_map: "dict_get (map (\<lambda>(k, r). (k, f r)) d) k = map_option f (dict_get d k)"
  by (simp add: dict_get_def map_of_map comp_def)

lemma expire_locked_select [simp]:
  "records (fst (expire_locked now s)) = map (\<lambda>(k, r). (k, expire_record now r)) (records s)"
  "credits (fst (expire_locked now s)) = credits s"
  "reservation_ttl (fst (expire_locked now s)) = reservation_ttl s"
  "has_state_file (fst (expire_locked now s)) = has_state_file s"
  by (simp_all add: expire_locked_def Let_def)

lemma find_bid_expire_locked [simp]:
  "find_bid (fst (expire_locked now s)) i = map_option (expire_record now) (find_bid s i)"
  by (simp add: find_bid_def dict_get_map)

lemma find_bid_put_bid [simp]:
  "find_bid (put_bid r s) i = (if i = bid_id r then Some r else find_bid s i)"
  by (simp add: find_bid_def put_bid_def)

lemma put_bid_select [simp]:
  "records (put_bid r s) = dict_put (bid_id r) r (records s)" "credits (put_bid r s) = credits s"
  "reservation_ttl (put_bid r s) = reservation_ttl s" "has_state_file (put_bid r s) = has_state_file s"
  by (simp_all add: put_bid_def)

text \<open>
  Expiry either leaves a record alone or moves an active one to \<^const>\<open>Expired\<close>; the submitted
  part of the bid is never touched.
\<close>

lemma expire_record_select [simp]:
  "bid_id (expire_record now r) = bid_id r"
  "bid_task_id (expire_record now r) = bid_task_id r"
  "bid_source (expire_record now r) = bid_source r"
  "bid_destination (expire_record now r) = bid_destination r"
  "request_of (expire_record now r) = request_of r"
  "received_at (expire_record now r) = received_at r"
  "status (expire_record now r) = (if is_due now r then Expired else status r)"
  by (simp_all add: expire_record_def)

lemma not_due_expire_record [simp]: "\<not> is_due now r \<Longrightarrow> expire_record now r = r"
  by (simp add: expire_record_def)

lemma is_due_active: "is_due now r \<Longrightarrow> active_status (status r)"
  by (simp add: is_due_def)

section \<open>The invariant of the store\<close>

text \<open>
  The optional fields a status fixes: an active lease has an expiry, an activating one a start,
  a consumed one its instant and no expiry; credits are never negative.
\<close>

definition wf_record :: "bid_record \<Rightarrow> bool" where
  "wf_record r \<longleftrightarrow>
     (active_status (status r) \<longrightarrow> reservation_expires_at r \<noteq> None \<and> decided_at r \<noteq> None)
   \<and> (status r = Activating \<longrightarrow> activation_started_at r \<noteq> None)
   \<and> (status r = Pending \<longrightarrow> decided_at r = None)
   \<and> (status r \<in> {Pending, Rejected, Cancelled, Consumed} \<longrightarrow> reservation_expires_at r = None)
   \<and> (status r = Consumed \<longleftrightarrow> consumed_at r \<noteq> None)
   \<and> (status r \<in> {Pending, Accepted, Rejected} \<longrightarrow> activation_started_at r = None)
   \<and> 0 \<le> auction_credit_after r"

definition store_inv :: "bid_store \<Rightarrow> bool" where
  "store_inv s \<longleftrightarrow> dict_ok (records s)
   \<and> (\<forall>i r. find_bid s i = Some r \<longrightarrow> bid_id r = i \<and> wf_record r)
   \<and> dict_ok (credits s) \<and> (\<forall>t c. dict_get (credits s) t = Some c \<longrightarrow> 0 \<le> c)"

lemma store_invD:
  assumes "store_inv s" "find_bid s i = Some r"
  shows "bid_id r = i" "wf_record r"
  using assms by (auto simp: store_inv_def)

lemma wf_record_expire: "wf_record r \<Longrightarrow> wf_record (expire_record now r)"
  by (cases "is_due now r"; cases "status r")
     (simp_all add: wf_record_def expire_record_def is_due_def)

lemma dict_ok_map [simp]: "dict_ok (map (\<lambda>(k, r). (k, f r)) d) = dict_ok d"
  by (simp add: dict_ok_def comp_def case_prod_unfold)

lemma store_inv_persist [simp]: "store_inv (persist s) = store_inv s"
  by (simp add: store_inv_def find_bid_def)

lemma store_inv_expire: "store_inv s \<Longrightarrow> store_inv (fst (expire_locked now s))"
  by (auto simp: store_inv_def wf_record_expire)

lemma store_inv_put_bid:
  "store_inv s \<Longrightarrow> wf_record r \<Longrightarrow> store_inv (put_bid r s)"
  by (auto simp: store_inv_def split: if_splits)

section \<open>The life cycle of a bid\<close>

fun status_next :: "bid_status \<Rightarrow> bid_status \<Rightarrow> bool" where
  "status_next Pending s' \<longleftrightarrow> s' \<in> {Accepted, Rejected, Cancelled}"
| "status_next Accepted s' \<longleftrightarrow> s' \<in> {Activating, Expired, Cancelled}"
| "status_next Activating s' \<longleftrightarrow> s' \<in> {Consumed, Expired, Cancelled}"
| "status_next _ s' \<longleftrightarrow> False"

definition terminal :: "bid_status \<Rightarrow> bool" where
  "terminal s = (s \<in> {Consumed, Rejected, Expired, Cancelled})"

definition same_bid :: "bid_record \<Rightarrow> bid_record \<Rightarrow> bool" where
  "same_bid r r' \<longleftrightarrow> bid_request.truncate r' = bid_request.truncate r \<and> received_at r' = received_at r"

definition advances :: "bid_record \<Rightarrow> bid_record \<Rightarrow> bool" where
  "advances r r' \<longleftrightarrow> same_bid r r' \<and> (status r' = status r \<or> status_next (status r) (status r'))"

definition evolves :: "bid_store \<Rightarrow> bid_store \<Rightarrow> bool" where
  "evolves s s' \<longleftrightarrow>
     (\<forall>i r. find_bid s i = Some r \<longrightarrow> (\<exists>r'. find_bid s' i = Some r' \<and> advances r r'))"

lemma same_bid_refl [simp]: "same_bid r r"
  by (simp add: same_bid_def)

lemma same_bid_trans: "same_bid a b \<Longrightarrow> same_bid b c \<Longrightarrow> same_bid a c"
  by (simp add: same_bid_def)

lemma same_bid_select:
  assumes "same_bid r r'"
  shows "bid_id r' = bid_id r" "bid_task_id r' = bid_task_id r" "bid_source r' = bid_source r"
    "bid_destination r' = bid_destination r" "candidate r' = candidate r"
    "task_context r' = task_context r"
  using assms by (cases r; cases r'; simp add: same_bid_def bid_request.truncate_def)+

lemma same_bid_update [simp]:
  "same_bid a (b\<lparr>status := c\<rparr>) = same_bid a b"
  "same_bid a (b\<lparr>decided_at := d\<rparr>) = same_bid a b"
  "same_bid a (b\<lparr>bid_decision_reason := e\<rparr>) = same_bid a b"
  "same_bid a (b\<lparr>reservation_expires_at := d\<rparr>) = same_bid a b"
  "same_bid a (b\<lparr>activation_started_at := d\<rparr>) = same_bid a b"
  "same_bid a (b\<lparr>consumed_at := d\<rparr>) = same_bid a b"
  "same_bid a (b\<lparr>auction_credit_after := x\<rparr>) = same_bid a b"
  by (simp_all add: same_bid_def bid_request.truncate_def)

lemma same_bid_decided [simp]: "same_bid a (decided_record d now ttl b) = same_bid a b"
  by (simp add: decided_record_def same_bid_def bid_request.truncate_def)

lemma same_bid_expire [simp]: "same_bid a (expire_record now b) = same_bid a b"
  by (simp add: expire_record_def)

lemma advances_refl [simp]: "advances r r"
  by (simp add: advances_def)

lemma is_due_next: "is_due now r \<Longrightarrow> status_next (status r) Expired"
  by (cases "status r") (auto simp: is_due_def)

lemma advances_expire [simp]: "advances r (expire_record now r)"
  by (auto simp: advances_def is_due_next)

lemma terminal_status_next [simp]: "terminal s \<Longrightarrow> \<not> status_next s t"
  by (cases s) (simp_all add: terminal_def)

lemma evolves_refl [simp]: "evolves s s"
  by (simp add: evolves_def)

lemma evolves_persist [simp]: "evolves s (persist s') = evolves s s'"
  by (simp add: evolves_def find_bid_def)

lemma evolves_expire [simp]: "evolves s (fst (expire_locked now s))"
  by (simp add: evolves_def)

text \<open>
  Every locked operation on an existing bid leaves the store as it is, expires what is due, or in
  addition replaces one record that is not expired; \<open>edits\<close> says so for one transition.
\<close>

definition edits :: "datetime \<Rightarrow> bid_store \<Rightarrow> bid_store \<Rightarrow> bool" where
  "edits now s s' \<longleftrightarrow>
     s' = s \<or> s' = fst (expire_locked now s)
   \<or> (\<exists>i r r'. find_bid s i = Some r \<and> advances r r' \<and> (wf_record r \<longrightarrow> wf_record r')
        \<and> (s' = put_bid r' s \<or> \<not> is_due now r \<and> s' = put_bid r' (fst (expire_locked now s))))"

lemma live_after_expire:
  assumes "find_bid (fst (expire_locked now s)) i = Some r" "status r \<noteq> Expired"
  shows "find_bid s i = Some r" "\<not> is_due now r"
  using assms by (auto split: if_splits)

lemma edits_expire [simp]: "edits now s (fst (expire_locked now s))" "edits now s s"
  by (simp_all add: edits_def)

lemma edits_put:
  assumes "find_bid (fst (expire_locked now s)) i = Some r" "status r \<noteq> Expired"
    and "advances r r'" "wf_record r \<Longrightarrow> wf_record r'"
  shows "edits now s (put_bid r' (fst (expire_locked now s)))"
  using live_after_expire [OF assms(1,2)] assms(3,4) unfolding edits_def by blast

lemma edits_evolves:
  assumes "store_inv s" "edits now s s'"
  shows "evolves s s'"
proof -
  have "evolves s (put_bid r' s)" "\<not> is_due now r \<Longrightarrow> evolves s (put_bid r' (fst (expire_locked now s)))"
    if "find_bid s i = Some r" "advances r r'" for i r r'
    using that assms(1) same_bid_select(1) [of r r'] store_invD(1) [of s]
    by (auto simp: evolves_def advances_def is_due_next)
  with assms(2) show ?thesis by (auto simp: edits_def)
qed

lemma edits_inv:
  assumes "store_inv s" "edits now s s'"
  shows "store_inv s'"
  using assms(2) store_inv_put_bid store_inv_expire [OF assms(1)] store_invD(2) [OF assms(1)] assms(1)
  unfolding edits_def by metis

section \<open>Every operation edits\<close>

lemma decide_edits: "edits now s (fst (decide i d now s))"
proof -
  have *: "edits now s (put_bid (decided_record d now ttl r) (fst (expire_locked now s)))"
    if "find_bid (fst (expire_locked now s)) i = Some r" "status r = Pending"
      "d_status d = Accepted \<or> d_status d = Rejected" for r ttl
    using that(1)
  proof (rule edits_put)
    show "status r \<noteq> Expired" using that(2) by simp
    show "advances r (decided_record d now ttl r)"
      using that(2,3) by (auto simp: advances_def) (auto simp: decided_record_def)
    show "wf_record (decided_record d now ttl r)" if "wf_record r"
      using \<open>status r = Pending\<close> \<open>_ \<or> _\<close> that by (auto simp: wf_record_def decided_record_def)
  qed
  show ?thesis
    unfolding decide_def Let_def by (simp add: * del: find_bid_expire_locked split: option.split)
qed

lemma renew_edits: "edits now s (fst (renew i now s))"
proof -
  have *: "edits now s (put_bid (r\<lparr>reservation_expires_at := Some e\<rparr>) (fst (expire_locked now s)))"
    if "find_bid (fst (expire_locked now s)) i = Some r" "active_status (status r)" for r e
    using that(1)
  proof (rule edits_put)
    show "status r \<noteq> Expired" using that(2) by auto
    show "advances r (r\<lparr>reservation_expires_at := Some e\<rparr>)" by (simp add: advances_def)
    show "wf_record (r\<lparr>reservation_expires_at := Some e\<rparr>)" if "wf_record r"
      using \<open>active_status (status r)\<close> that by (cases "status r") (simp_all add: wf_record_def)
  qed
  show ?thesis
    unfolding renew_def Let_def by (simp add: * del: find_bid_expire_locked split: option.split)
qed

lemma begin_activation_edits: "edits now s (fst (begin_activation i t a b now s))"
proof -
  have *: "edits now s (put_bid (r\<lparr>status := Activating, activation_started_at := Some now,
             bid_decision_reason := Some x\<rparr>) (fst (expire_locked now s)))"
    if "find_bid (fst (expire_locked now s)) i = Some r" "status r = Accepted" for r x
    by (rule edits_put [OF that(1)]) (use that(2) in \<open>auto simp: advances_def wf_record_def\<close>)
  show ?thesis
    unfolding begin_activation_def Let_def by (simp add: * del: find_bid_expire_locked split: option.split)
qed

lemma consume_edits: "edits now s (fst (consume i now s))"
proof -
  have *: "edits now s (put_bid (r\<lparr>status := Consumed, consumed_at := Some now,
             reservation_expires_at := None, bid_decision_reason := x\<rparr>) s)"
    if "find_bid s i = Some r" "status r = Activating" for r x
  proof -
    let ?r = "r\<lparr>status := Consumed, consumed_at := Some now, reservation_expires_at := None,
                bid_decision_reason := x\<rparr>"
    have "advances r ?r" "wf_record r \<Longrightarrow> wf_record ?r"
      using that(2) by (auto simp: advances_def wf_record_def)
    with that(1) show ?thesis unfolding edits_def by blast
  qed
  show ?thesis unfolding consume_def Let_def by (simp add: * split: option.split)
qed

lemma cancel_edits: "edits now s (fst (cancel i reason now s))"
proof -
  have *: "edits now s (put_bid (r\<lparr>status := Cancelled, decided_at := Some now,
             reservation_expires_at := None, bid_decision_reason := x\<rparr>) s)"
    if "find_bid s i = Some r" "\<not> terminal (status r)" for r x
  proof -
    let ?r = "r\<lparr>status := Cancelled, decided_at := Some now, reservation_expires_at := None,
                bid_decision_reason := x\<rparr>"
    have "advances r ?r" "wf_record r \<Longrightarrow> wf_record ?r"
      using that(2) by (cases "status r"; simp add: advances_def wf_record_def terminal_def)+
    with that(1) show ?thesis unfolding edits_def by blast
  qed
  show ?thesis
    unfolding cancel_def Let_def by (simp add: * terminal_def split: option.split)
qed

lemma submit_inv:
  assumes "store_inv s"
  shows "store_inv (fst (submit b now s))" "evolves s (fst (submit b now s))"
  using assms
  by (auto simp: submit_def Let_def store_inv_def find_bid_def evolves_def wf_record_def
      split: option.splits)

section \<open>Fairness credits\<close>

text \<open>A credit update touches no field of a bid but its reported credit.\<close>

definition recredited :: "bid_record \<Rightarrow> bid_record \<Rightarrow> bool" where
  "recredited r r' \<longleftrightarrow> r' = r\<lparr>auction_credit_after := auction_credit_after r'\<rparr>"

definition restyles :: "bid_store \<Rightarrow> bid_store \<Rightarrow> bool" where
  "restyles s s' \<longleftrightarrow> (\<forall>i. rel_option recredited (find_bid s i) (find_bid s' i))"

lemma recredited_refl [simp]: "recredited r r"
  by (simp add: recredited_def)

lemma recredited_update [simp]: "recredited r (r\<lparr>auction_credit_after := x\<rparr>)"
  by (simp add: recredited_def)

lemma recredited_trans: "recredited a b \<Longrightarrow> recredited b c \<Longrightarrow> recredited a c"
  by (cases a; cases b; cases c) (simp add: recredited_def)

lemma recredited_select:
  assumes "recredited r r'"
  shows "status r' = status r" "same_bid r r'" "reservation_expires_at r' = reservation_expires_at r"
proof -
  obtain x where "r' = r\<lparr>auction_credit_after := x\<rparr>" using assms by (auto simp: recredited_def)
  then show "status r' = status r" "same_bid r r'" "reservation_expires_at r' = reservation_expires_at r"
    by simp_all
qed

lemma restyles_refl: "restyles s s"
  by (simp add: restyles_def option.rel_refl)

lemma restyles_trans: "restyles a b \<Longrightarrow> restyles b c \<Longrightarrow> restyles a c"
  unfolding restyles_def by (metis (mono_tags, opaque_lifting) option.rel_transp recredited_trans transpD transpI)

lemma restyles_evolves:
  assumes "restyles s s'"
  shows "evolves s s'"
  unfolding evolves_def
proof (intro allI impI)
  fix i r
  assume "find_bid s i = Some r"
  moreover have "rel_option recredited (find_bid s i) (find_bid s' i)"
    using assms by (simp add: restyles_def)
  ultimately obtain r' where "find_bid s' i = Some r'" "recredited r r'" by (auto simp: option_rel_Some1)
  then show "\<exists>r'. find_bid s' i = Some r' \<and> advances r r'"
    by (auto simp: advances_def recredited_select)
qed

lemma find_bid_put_credits [simp]:
  "find_bid (s\<lparr>records := dict_put k r (records s), credits := c\<rparr>) i = (if i = k then Some r else find_bid s i)"
  "find_bid (s\<lparr>credits := c, records := dict_put k r (records s)\<rparr>) i = (if i = k then Some r else find_bid s i)"
  "find_bid (s\<lparr>records := dict_put k r (records s)\<rparr>) i = (if i = k then Some r else find_bid s i)"
  by (simp_all add: find_bid_def)

lemma restyles_put:
  "find_bid s i = Some r \<Longrightarrow> bid_id r = i \<Longrightarrow>
   (\<And>j. find_bid s' j = (if j = bid_id r then Some (r\<lparr>auction_credit_after := x\<rparr>) else find_bid s j)) \<Longrightarrow>
   restyles s s'"
  by (auto simp: restyles_def option.rel_refl)

lemma wf_record_credit:
  "wf_record r \<Longrightarrow> 0 \<le> x \<Longrightarrow> wf_record (r\<lparr>auction_credit_after := x\<rparr>)"
  by (cases "status r") (simp_all add: wf_record_def)

lemma set_credit_ok:
  assumes "store_inv s" "0 \<le> after"
  shows "store_inv (set_credit i after s)" "restyles s (set_credit i after s)"
proof -
  show "store_inv (set_credit i after s)"
  proof (cases "find_bid s i")
    case None
    then show ?thesis using assms(1) by (simp add: set_credit_def)
  next
    case (Some r)
    with store_invD [OF assms(1)] have "bid_id r = i" "wf_record r" by blast+
    with Some assms show ?thesis by (auto simp: set_credit_def store_inv_def wf_record_credit)
  qed
  show "restyles s (set_credit i after s)"
    using store_invD(1) [OF assms(1)] restyles_put [of s i]
    by (simp add: set_credit_def restyles_refl split: option.split)
qed

lemma credit_for_nonneg: "store_inv s \<Longrightarrow> 0 \<le> credit_for s t"
  by (auto simp: store_inv_def credit_for_def credit_of_def split: option.split)

lemma decay_credit_ok:
  assumes "store_inv s"
  shows "store_inv (decay_credit d i s)" "restyles s (decay_credit d i s)"
  using set_credit_ok [OF assms] assms
  by (simp_all add: decay_credit_def restyles_refl split: option.split)

lemma earn_credit_ok:
  assumes "store_inv s" "0 \<le> increment" "0 \<le> maximum"
  shows "store_inv (earn_credit increment maximum i s)" "restyles s (earn_credit increment maximum i s)"
  using set_credit_ok [OF assms(1)] assms credit_for_nonneg [OF assms(1)]
  by (simp_all add: earn_credit_def restyles_refl split: option.split)

lemma refresh_credit_ok:
  assumes "store_inv s"
  shows "store_inv (refresh_credit i s)" "restyles s (refresh_credit i s)"
proof -
  show "store_inv (refresh_credit i s)"
  proof (cases "find_bid s i")
    case None
    then show ?thesis using assms by (simp add: refresh_credit_def)
  next
    case (Some r)
    with store_invD [OF assms] have "bid_id r = i" "wf_record r" by blast+
    with Some assms credit_for_nonneg [OF assms, of "bid_task_id r"] show ?thesis
      by (auto simp: refresh_credit_def store_inv_def wf_record_credit)
  qed
  show "restyles s (refresh_credit i s)"
    using store_invD(1) [OF assms] restyles_put [of s i]
    by (simp add: refresh_credit_def restyles_refl split: option.split)
qed

lemma fold_restyles:
  assumes "store_inv s" "\<And>x t. store_inv t \<Longrightarrow> store_inv (f x t) \<and> restyles t (f x t)"
  shows "store_inv (fold f xs s)" "restyles s (fold f xs s)"
proof -
  have "store_inv (fold f xs s) \<and> restyles s (fold f xs s)"
    by (rule fold_invariant [where Q = "\<lambda>_. True" and P = "\<lambda>t. store_inv t \<and> restyles s t"])
       (use assms restyles_refl restyles_trans in blast)+
  then show "store_inv (fold f xs s)" "restyles s (fold f xs s)" by blast+
qed

lemma restyles_persist [simp]: "restyles s (persist s') = restyles s s'"
  by (simp add: restyles_def find_bid_def)

lemma credit_outcomes_ok:
  assumes inv: "store_inv s" and pars: "0 \<le> increment" "0 \<le> maximum"
  shows "store_inv (apply_credit_outcomes acc rej increment maximum d s)"
    "restyles s (apply_credit_outcomes acc rej increment maximum d s)"
proof -
  let ?s1 = "fold (decay_credit d) acc s"
  let ?s2 = "fold (earn_credit increment maximum) rej ?s1"
  let ?s3 = "fold refresh_credit (remdups (acc @ rej)) ?s2"
  have 1: "store_inv ?s1" "restyles s ?s1" using inv decay_credit_ok by (blast intro: fold_restyles)+
  have 2: "store_inv ?s2" "restyles ?s1 ?s2"
    using 1(1) earn_credit_ok [OF _ pars] by (blast intro: fold_restyles)+
  have 3: "store_inv ?s3" "restyles ?s2 ?s3"
    using 2(1) refresh_credit_ok by (blast intro: fold_restyles)+
  show "store_inv (apply_credit_outcomes acc rej increment maximum d s)"
    using 3(1) by (simp add: apply_credit_outcomes_def Let_def)
  show "restyles s (apply_credit_outcomes acc rej increment maximum d s)"
    using 1(2) 2(2) 3(2) by (auto simp: apply_credit_outcomes_def Let_def intro: restyles_trans)
qed

section \<open>The invariant and the life cycle along a run\<close>

lemmas edits_lemmas = decide_edits renew_edits begin_activation_edits consume_edits cancel_edits

lemma query_effects [simp]:
  "fst (get_bid i now s) = fst (expire_locked now s)"
  "fst (list_records now s) = fst (expire_locked now s)"
  "fst (pending_records now s) = fst (expire_locked now s)"
  "fst (active_reservations now s) = fst (expire_locked now s)"
  "fst (active_reservation_count now s) = fst (expire_locked now s)"
  by (simp_all add: get_bid_def list_records_def pending_records_def active_reservations_def
      active_reservation_count_def Let_def)

lemma store_effect_cases:
  "(\<exists>b. op = Submit b) \<or> (\<exists>a r i m d. op = CreditOutcomes a r i m d) \<or> edits now s (store_effect now op s)"
  by (cases op) (simp_all add: edits_lemmas)

lemma store_effect_inv:
  assumes "store_inv s" "wf_store_op op"
  shows "store_inv (store_effect now op s)" "evolves s (store_effect now op s)"
  using store_effect_cases [of op now s] assms submit_inv [OF assms(1)]
    edits_inv [OF assms(1)] edits_evolves [OF assms(1)] credit_outcomes_ok [OF assms(1)]
    restyles_evolves
  by fastforce+

lemma store_step_inv: "store_step s s' \<Longrightarrow> store_inv s \<Longrightarrow> store_inv s' \<and> evolves s s'"
  by (auto simp: store_effect_inv)

lemma store_steps_inv: "store_step\<^sup>*\<^sup>* s s' \<Longrightarrow> store_inv s \<Longrightarrow> store_inv s'"
  by (induction rule: rtranclp_induct) (auto simp: store_step_inv)

lemma store_steps_bid:
  assumes "store_step\<^sup>*\<^sup>* s s'" "store_inv s" "find_bid s i = Some r"
  shows "\<exists>r'. find_bid s' i = Some r' \<and> same_bid r r' \<and> status_next\<^sup>*\<^sup>* (status r) (status r')"
  using assms
proof (induction rule: rtranclp_induct)
  case base
  then show ?case by auto
next
  case (step t u)
  then obtain r' where r': "find_bid t i = Some r'" "same_bid r r'"
    "status_next\<^sup>*\<^sup>* (status r) (status r')" by auto
  moreover from step have "evolves t u" using store_step_inv store_steps_inv by blast
  ultimately obtain r'' where "find_bid u i = Some r''" "advances r' r''"
    by (auto simp: evolves_def)
  with r' show ?case
    by (auto simp: advances_def intro: same_bid_trans rtranclp.rtrancl_into_rtrancl)
qed

lemma terminal_steps: "status_next\<^sup>*\<^sup>* a b \<Longrightarrow> terminal a \<Longrightarrow> b = a"
  by (induction rule: converse_rtranclp_induct) auto

end
