(* ===== verification/Bid_Store_Laws.thy ===== *)
theory Bid_Store_Laws
  imports Bid_Store
begin

text \<open>
  What the bid store promises across calls and restarts: the file on disk always restores the
  records and credits in memory, a bid only moves forward through its life cycle, a lease is
  claimed at most once and only before it expires, and fairness credits are the documented
  function of the auctions won and lost.
\<close>

section \<open>Durability\<close>

text \<open>
  \<open>recovered s\<close> is the store a restarted daemon loads from the file \<open>s\<close> has left on disk;
  \<open>synced\<close> says that nothing of \<open>s\<close> is lost by the restart.
\<close>

definition recovered :: "bid_store \<Rightarrow> bid_store" where
  "recovered s = load (reservation_ttl s) True (store_file s)"

definition synced :: "bid_store \<Rightarrow> bool" where
  "synced s \<longleftrightarrow> (has_state_file s \<longrightarrow>
     records (recovered s) = records s
   \<and> (\<forall>t. dict_get (credits (recovered s)) t = dict_get (credits s) t))"

lemma fold_dict_put_distinct:
  "distinct (map f rs) \<Longrightarrow> dict_ok d \<Longrightarrow> f ` set rs \<inter> fst ` set d = {} \<Longrightarrow>
   fold (\<lambda>r d. dict_put (f r) (g r) d) rs d = d @ map (\<lambda>r. (f r, g r)) rs"
proof (induction rs arbitrary: d)
  case Nil
  then show ?case by simp
next
  case (Cons r rs)
  then have put: "dict_put (f r) (g r) d = d @ [(f r, g r)]"
    by (intro dict_put_fresh) (auto simp: dict_get_None_iff)
  with Cons have "dict_ok (d @ [(f r, g r)])" by (metis dict_ok_put)
  with Cons put show ?case by (auto simp: Int_Un_distrib)
qed

lemma find_bid_iff: "store_inv s \<Longrightarrow> find_bid s i = Some r \<longleftrightarrow> (i, r) \<in> set (records s)"
  by (simp add: store_inv_def find_bid_def dict_get_iff)

lemma records_keys:
  assumes "store_inv s"
  shows "map bid_id (bids_of s) = map fst (records s)"
    and "map (\<lambda>r. (bid_id r, r)) (bids_of s) = records s"
proof -
  have *: "bid_id (snd kr) = fst kr" if "kr \<in> set (records s)" for kr
    using that assms find_bid_iff [OF assms, of "fst kr" "snd kr"] store_invD(1) [OF assms]
    by simp
  then show "map bid_id (bids_of s) = map fst (records s)" by (simp add: bids_of_def)
  have "map (\<lambda>kr. (bid_id (snd kr), snd kr)) (records s) = map (\<lambda>kr. kr) (records s)"
    by (rule map_cong) (auto simp: * [simplified])
  then show "map (\<lambda>r. (bid_id r, r)) (bids_of s) = records s"
    by (simp add: bids_of_def comp_def)
qed

lemma distinct_bids: "store_inv s \<Longrightarrow> distinct (map bid_id (bids_of s))"
  by (simp add: records_keys store_inv_def dict_ok_def)

lemma dict_of_records_bids: "store_inv s \<Longrightarrow> dict_of_records (bids_of s) = records s"
  unfolding dict_of_records_def
  by (subst fold_dict_put_distinct [where g = "\<lambda>r. r"]) (simp_all add: distinct_bids records_keys(2))

lemma dict_of_credits_sorted:
  assumes "store_inv s"
  shows "dict_get (dict_of_credits (sort_key fst (credits s))) t = dict_get (credits s) t"
proof -
  let ?cs = "sort_key fst (credits s)"
  have ok: "dict_ok (credits s)" and nn: "\<And>t c. dict_get (credits s) t = Some c \<Longrightarrow> 0 \<le> c"
    using assms by (auto simp: store_inv_def)
  from ok have dist: "distinct (map fst (credits s))" by (simp add: dict_ok_def)
  then have inj: "inj_on fst (set (credits s))" "distinct (credits s)" by (simp_all add: distinct_map)
  then have "distinct (map fst ?cs)" by (simp add: distinct_map)
  then have "dict_of_credits ?cs = map (\<lambda>r. (fst r, max 0 (snd r))) ?cs"
    using fold_dict_put_distinct [of fst ?cs "[]" "\<lambda>r. max 0 (snd r)"]
    by (simp add: dict_of_credits_def case_prod_unfold)
  also have "\<dots> = map (\<lambda>r. r) ?cs"
  proof (rule map_cong)
    fix r assume "r \<in> set ?cs"
    then have "dict_get (credits s) (fst r) = Some (snd r)" using ok by (simp add: dict_get_iff)
    with nn [OF this] show "(fst r, max 0 (snd r)) = r" by simp
  qed simp
  finally have eq: "dict_of_credits ?cs = ?cs" by simp
  have "map_of ?cs = map_of (credits s)"
    using \<open>distinct (map fst ?cs)\<close> dist by (simp add: map_of_inject_set)
  with eq show ?thesis by (simp add: dict_get_def)
qed

lemma synced_persist:
  assumes "store_inv s"
  shows "synced (persist s)"
  using dict_of_records_bids [OF assms] dict_of_credits_sorted [OF assms]
  by (simp add: synced_def recovered_def persist_def load_def)

lemma expire_nothing:
  assumes "filter (is_due now) (bids_of s) = []"
  shows "fst (expire_locked now s) = s"
proof -
  have "map (\<lambda>(k, r). (k, expire_record now r)) (records s) = records s"
    using assms by (intro map_idI) (auto simp: filter_empty_conv bids_of_def)
  with assms show ?thesis by (simp add: expire_locked_def)
qed

lemma synced_expire:
  assumes "store_inv s" "synced s"
  shows "synced (fst (expire_locked now s))"
proof (cases "filter (is_due now) (bids_of s) = []")
  case True
  with assms show ?thesis by (simp add: expire_nothing)
next
  case False
  let ?s = "s\<lparr>records := map (\<lambda>(k, r). (k, expire_record now r)) (records s)\<rparr>"
  from False have eq: "fst (expire_locked now s) = persist ?s" by (simp add: expire_locked_def)
  with store_inv_expire [OF assms(1), of now] have "store_inv ?s" by simp
  with eq show ?thesis by (simp add: synced_persist)
qed

lemma synced_put_bid:
  "store_inv s \<Longrightarrow> wf_record r \<Longrightarrow> synced (put_bid r s)"
  using store_inv_put_bid [of s r] by (simp add: put_bid_def synced_persist)

lemma synced_edits:
  assumes inv: "store_inv s" and sync: "synced s" and edits: "edits now s s'"
  shows "synced s'"
proof -
  have "synced (put_bid r' s)" "synced (put_bid r' (fst (expire_locked now s)))"
    if "find_bid s i = Some r" "wf_record r \<longrightarrow> wf_record r'" for i r r'
    using that inv store_invD(2) [OF inv] by (simp_all add: synced_put_bid store_inv_expire)
  with edits show ?thesis using sync synced_expire [OF inv sync] unfolding edits_def by metis
qed

lemma synced_effect:
  assumes inv: "store_inv s" and sync: "synced s" and op: "wf_store_op op"
  shows "synced (store_effect now op s)"
proof -
  have "synced (fst (submit b now s))" for b
  proof (cases "find_bid s (bid_id b)")
    case None
    have "fst (submit b now s) = persist t \<Longrightarrow> synced (fst (submit b now s))" for t
      using submit_inv(1) [OF inv, of b now] by (simp add: synced_persist)
    moreover from None have "\<exists>t. fst (submit b now s) = persist t" by (auto simp: submit_def Let_def)
    ultimately show ?thesis by blast
  qed (use sync in \<open>simp add: submit_def\<close>)
  moreover have "synced (apply_credit_outcomes a r i m d s)" if "0 \<le> i" "0 < m" for a r i m d
    using credit_outcomes_ok(1) [OF inv that(1), of m a r d] that(2)
    by (simp add: apply_credit_outcomes_def Let_def synced_persist)
  ultimately show ?thesis
    using store_effect_cases [of op now s] synced_edits [OF inv sync] op by auto
qed

lemma store_steps_synced:
  "store_step\<^sup>*\<^sup>* s s' \<Longrightarrow> store_inv s \<Longrightarrow> synced s \<Longrightarrow> synced s'"
proof (induction rule: rtranclp_induct)
  case (step t u)
  then show ?case using store_steps_inv synced_effect by blast
qed simp

section \<open>A loaded store\<close>

definition file_records :: "bid_file option \<Rightarrow> bid_record list" where
  "file_records f = (case f of None \<Rightarrow> [] | Some (LegacyFile rs) \<Rightarrow> rs | Some (DocumentFile rs _) \<Rightarrow> rs)"

lemma fold_dict_put_ok:
  "dict_ok d \<Longrightarrow> dict_ok (fold (\<lambda>x d. dict_put (f x) (g x) d) xs d)"
  by (induction xs arbitrary: d) simp_all

lemma fold_dict_put_get:
  "dict_get (fold (\<lambda>x d. dict_put (f x) (g x) d) xs d) k = Some v \<Longrightarrow>
   dict_get d k = Some v \<or> (\<exists>x \<in> set xs. f x = k \<and> g x = v)"
  by (induction xs arbitrary: d) (fastforce split: if_splits)+

lemma load_inv:
  assumes "\<forall>r \<in> set (file_records file). wf_record r"
  shows "store_inv (load ttl durable file)" "synced (load ttl durable file)"
proof -
  have recs: "dict_ok (dict_of_records rs)"
    "\<And>i r. dict_get (dict_of_records rs) i = Some r \<Longrightarrow> bid_id r = i \<and> r \<in> set rs" for rs
    using fold_dict_put_ok [of "[]" bid_id "\<lambda>r. r" rs] fold_dict_put_get [of bid_id "\<lambda>r. r" rs "[]"]
    by (auto simp: dict_of_records_def)
  have creds: "dict_ok (dict_of_credits cs)"
    "\<And>t c. dict_get (dict_of_credits cs) t = Some c \<Longrightarrow> 0 \<le> c" for cs
    using fold_dict_put_ok [of "[]" fst "\<lambda>x. max 0 (snd x)" cs]
      fold_dict_put_get [of fst "\<lambda>x. max 0 (snd x)" cs "[]"]
    by (fastforce simp: dict_of_credits_def case_prod_unfold)+
  show "store_inv (load ttl durable file)"
    using assms recs creds
    by (auto simp: load_def Let_def store_inv_def find_bid_def file_records_def
        split: option.split bid_file.split)
  show "synced (load ttl durable file)"
    by (auto simp: synced_def recovered_def load_def Let_def split: option.split bid_file.split)
qed

section \<open>Leases: claimed once, and only in time\<close>

lemma begin_activation_Inr:
  assumes "begin_activation i t a b now s = (s', Inr r')"
  obtains r where "find_bid s i = Some r" "status r = Accepted" "\<not> is_due now r"
    "bid_task_id r = t" "bid_source r = a" "bid_destination r = b"
    "r' = r\<lparr>status := Activating, activation_started_at := Some now,
            bid_decision_reason := Some ClaimedByActivation\<rparr>"
    "s' = put_bid r' (fst (expire_locked now s))"
proof -
  from assms obtain r where r: "find_bid (fst (expire_locked now s)) i = Some r" "status r = Accepted"
    "bid_task_id r = t" "bid_source r = a" "bid_destination r = b"
    "r' = r\<lparr>status := Activating, activation_started_at := Some now,
            bid_decision_reason := Some ClaimedByActivation\<rparr>"
    "s' = put_bid r' (fst (expire_locked now s))"
    unfolding begin_activation_def Let_def
    by (simp split: option.splits if_splits del: find_bid_expire_locked) blast
  with live_after_expire [OF r(1)] that show thesis by simp
qed

lemma begin_activation_live:
  "find_bid s i = Some r \<Longrightarrow> status r = Accepted \<Longrightarrow> \<not> is_due now r \<Longrightarrow>
   is_ok (snd (begin_activation i (bid_task_id r) (bid_source r) (bid_destination r) now s))"
  by (simp add: begin_activation_def Let_def)

lemma begin_activation_status:
  "find_bid s i = Some r \<Longrightarrow> status r \<noteq> Accepted \<Longrightarrow> \<exists>e. snd (begin_activation i t a b now s) = Inl e"
  by (auto simp: begin_activation_def Let_def)

lemma begin_activation_due:
  "find_bid s i = Some r \<Longrightarrow> is_due now r \<Longrightarrow> \<exists>e. snd (begin_activation i t a b now s) = Inl e"
  by (auto simp: begin_activation_def Let_def)

lemma activating_never_accepted:
  "status_next\<^sup>*\<^sup>* Activating x \<Longrightarrow> x \<in> {Activating, Consumed, Expired, Cancelled}"
proof (induction rule: rtranclp_induct)
  case (step y z)
  then show ?case by (cases y) auto
qed simp

lemma claim_excludes_claim:
  assumes inv: "store_inv s" and first: "begin_activation i t a b now s = (s1, Inr r)"
    and run: "store_step\<^sup>*\<^sup>* s1 s2"
  shows "\<exists>e. snd (begin_activation i t' a' b' now' s2) = Inl e"
proof -
  obtain r0 where r0: "find_bid s i = Some r0" "status r = Activating" "bid_id r = bid_id r0"
    "s1 = put_bid r (fst (expire_locked now s))"
    using first by (rule begin_activation_Inr) simp
  then have "find_bid s1 i = Some r" using store_invD(1) [OF inv] by simp
  moreover have "store_inv s1"
    using edits_inv [OF inv begin_activation_edits [of now s i t a b]] first by simp
  ultimately obtain r2 where "find_bid s2 i = Some r2" "status_next\<^sup>*\<^sup>* Activating (status r2)"
    using store_steps_bid [OF run] r0(2) by metis
  then show ?thesis using activating_never_accepted begin_activation_status by fastforce
qed

lemma decide_accept:
  fixes now :: datetime
  assumes inv: "store_inv s" and r: "find_bid s i = Some r" "status r = Pending" and d: "d_status d = Accepted"
  defines "r' \<equiv> decided_record d now (reservation_ttl s) r"
  shows "decide i d now s = (put_bid r' (fst (expire_locked now s)), Inr r')"
    and "find_bid (fst (decide i d now s)) i = Some r'"
proof -
  have "\<not> is_due now r" using r(2) by (auto simp: is_due_def)
  with r d show *: "decide i d now s = (put_bid r' (fst (expire_locked now s)), Inr r')"
    by (simp add: decide_def Let_def r'_def)
  have "bid_id r' = i" using store_invD(1) [OF inv r(1)] by (simp add: r'_def decided_record_def)
  then show "find_bid (fst (decide i d now s)) i = Some r'" by (simp add: *)
qed

lemma accepted_window:
  fixes now :: datetime
  assumes inv: "store_inv s" and r: "find_bid s i = Some r" "status r = Pending"
    and d: "d_status d = Accepted"
  defines "s' \<equiv> fst (decide i d now s)"
  shows "is_ok (snd (begin_activation i (bid_task_id r) (bid_source r) (bid_destination r) later s'))
    \<longleftrightarrow> later < now + reservation_ttl s"
proof -
  let ?r' = "decided_record d now (reservation_ttl s) r"
  have r': "find_bid s' i = Some ?r'"
    unfolding s'_def using inv r d by (rule decide_accept(2))
  have sel: "bid_task_id ?r' = bid_task_id r" "bid_source ?r' = bid_source r"
    "bid_destination ?r' = bid_destination r" "status ?r' = Accepted"
    by (simp_all add: decided_record_def d)
  have due: "is_due later ?r' \<longleftrightarrow> now + reservation_ttl s \<le> later"
    by (simp add: is_due_def decided_record_def d)
  show ?thesis
  proof (cases "is_due later ?r'")
    case True
    obtain e where "snd (begin_activation i (bid_task_id r) (bid_source r) (bid_destination r) later s') = Inl e"
      using begin_activation_due [OF r' True] by blast
    with True due show ?thesis by simp
  next
    case False
    then show ?thesis using begin_activation_live [OF r' sel(4) False] due by (simp add: sel)
  qed
qed

section \<open>Bounds on the credits of an auction\<close>

lemma credit_for_set_credit:
  "find_bid s i = Some r \<Longrightarrow>
   credit_for (set_credit i x s) t = (if t = bid_task_id r then x else credit_for s t)"
  by (simp add: set_credit_def credit_for_def credit_of_def)

lemma credit_for_persist [simp]: "credit_for (persist s) t = credit_for s t"
  by (simp add: credit_for_def)

lemma credit_for_refresh [simp]: "credit_for (refresh_credit i s) t = credit_for s t"
  by (simp add: refresh_credit_def credit_for_def split: option.split)

lemma credit_for_fold_refresh [simp]: "credit_for (fold refresh_credit xs s) t = credit_for s t"
  by (induction xs arbitrary: s) simp_all

definition bid_task :: "bid_store \<Rightarrow> string \<Rightarrow> task_id option" where
  "bid_task s i = map_option bid_task_id (find_bid s i)"

lemma bid_task_restyles: "restyles s s' \<Longrightarrow> bid_task s' i = bid_task s i"
proof -
  assume "restyles s s'"
  then have "rel_option recredited (find_bid s i) (find_bid s' i)" by (simp add: restyles_def)
  then show ?thesis
    by (cases "find_bid s i"; cases "find_bid s' i")
       (auto simp: bid_task_def dest!: recredited_select(2) same_bid_select(2))
qed

lemma credit_decay_step:
  "credit_for (decay_credit d i s) t =
     (if bid_task s i = Some t then max 0 (credit_for s t * d) else credit_for s t)"
  by (auto simp: decay_credit_def bid_task_def credit_for_set_credit split: option.split)

lemma credit_earn_step:
  "credit_for (earn_credit inc mx i s) t =
     (if bid_task s i = Some t then min mx (credit_for s t + inc) else credit_for s t)"
  by (auto simp: earn_credit_def bid_task_def credit_for_set_credit split: option.split)

text \<open>
  Per task, the two loops are folds of the scalar updates over the bids of the task: the credit
  after an auction is a function of the credit before and of how many bids won and lost.
\<close>

lemma credit_fold_decay:
  assumes "store_inv s"
  shows "credit_for (fold (decay_credit d) xs s) t =
    ((\<lambda>c. max 0 (c * d)) ^^ length (filter (\<lambda>i. bid_task s i = Some t) xs)) (credit_for s t)"
  using assms
proof (induction xs arbitrary: s)
  case (Cons i xs)
  have "bid_task (decay_credit d i s) = bid_task s"
    using bid_task_restyles [OF decay_credit_ok(2) [OF Cons.prems]] by blast
  with Cons.IH [OF decay_credit_ok(1) [OF Cons.prems]] show ?case
    by (simp add: credit_decay_step funpow_Suc_right del: funpow.simps(2))
qed simp

lemma credit_fold_earn:
  assumes "store_inv s" "0 \<le> inc" "0 \<le> mx"
  shows "credit_for (fold (earn_credit inc mx) xs s) t =
    ((\<lambda>c. min mx (c + inc)) ^^ length (filter (\<lambda>i. bid_task s i = Some t) xs)) (credit_for s t)"
  using assms
proof (induction xs arbitrary: s)
  case (Cons i xs)
  have "bid_task (earn_credit inc mx i s) = bid_task s"
    using bid_task_restyles [OF earn_credit_ok(2) [OF Cons.prems]] by blast
  with Cons.IH [OF earn_credit_ok(1) [OF Cons.prems]] Cons.prems show ?case
    by (simp add: credit_earn_step funpow_Suc_right del: funpow.simps(2))
qed simp

lemma earn_funpow:
  fixes c inc :: real
  shows "0 \<le> inc \<Longrightarrow> ((\<lambda>c. min mx (c + inc)) ^^ Suc n) c = min mx (c + real (Suc n) * inc)"
  by (induction n) (auto simp: min_def algebra_simps)

lemma decay_funpow:
  fixes c d :: real
  shows "0 \<le> d \<Longrightarrow> 0 \<le> c \<Longrightarrow> ((\<lambda>c. max 0 (c * d)) ^^ n) c = c * d ^ n"
  by (induction n) (simp_all add: mult_ac)

lemma credit_outcome_value:
  fixes t :: task_id and acc rej :: "string list"
  assumes inv: "store_inv s" and pars: "0 \<le> inc" "0 \<le> mx" "0 \<le> d"
  defines "wins \<equiv> length (filter (\<lambda>i. bid_task s i = Some t) acc)"
    and "losses \<equiv> length (filter (\<lambda>i. bid_task s i = Some t) rej)"
  shows "credit_for (apply_credit_outcomes acc rej inc mx d s) t =
    (let c = credit_for s t * d ^ wins
     in if losses = 0 then c else min mx (c + real losses * inc))"
proof -
  let ?s1 = "fold (decay_credit d) acc s"
  have ok: "store_inv ?s1" "restyles s ?s1"
    using inv decay_credit_ok by (blast intro: fold_restyles)+
  have 1: "credit_for ?s1 t = credit_for s t * d ^ wins"
    using credit_fold_decay [OF inv] decay_funpow [OF pars(3) credit_for_nonneg [OF inv]]
    by (simp add: wins_def)
  have "credit_for (fold (earn_credit inc mx) rej ?s1) t
      = ((\<lambda>c. min mx (c + inc)) ^^ losses) (credit_for ?s1 t)"
    using credit_fold_earn [OF ok(1) pars(1,2)] bid_task_restyles [OF ok(2)] by (simp add: losses_def)
  with 1 show ?thesis
    using earn_funpow [OF pars(1)] by (cases losses) (simp_all add: apply_credit_outcomes_def Let_def)
qed

section \<open>A concrete store\<close>

text \<open>One bid of a task of node \<open>a\<close> for node \<open>b\<close>, and the stores it passes through.\<close>

definition sample_candidate :: scored_action where
  "sample_candidate =
     \<lparr>action = Migrate, source_node = ''a'', destination_node = Some ''b'',
      time_seconds = 100, carbon_grams = 10, cost_usd = 1, detail_idle_seconds = None,
      detail_carbon_confidence = None, normalized_time = 0, normalized_carbon = 0,
      normalized_cost = 0, score = 1 / 2\<rparr>"

definition sample_bid :: bid_request where
  "sample_bid =
     \<lparr>bid_id = ''bid-1'', epoch_id = ''e'', bid_task_id = ''t'', task_context = None,
      bid_source = ''a'', bid_destination = ''b'', candidate = sample_candidate, submitted_at = 0\<rparr>"

definition accept_sample :: decision where
  "accept_sample =
     \<lparr>d_status = Accepted, d_reason = SelectedBy LowestScore, d_strategy = Some LowestScore,
      d_rank = Some 1, d_credit_before = 0, d_resource_fit = Some True,
      d_compatibility_fit = Some True, d_compatibility_notes = [], d_metrics = None\<rparr>"

definition sample_empty :: bid_store where
  "sample_empty = load 180 True None"

definition sample_pending :: bid_store where
  "sample_pending = fst (submit sample_bid 1 sample_empty)"

definition sample_accepted :: bid_store where
  "sample_accepted = fst (decide ''bid-1'' accept_sample 5 sample_pending)"

lemma sample_inv: "store_inv sample_empty" "store_inv sample_pending" "store_inv sample_accepted"
proof -
  show 1: "store_inv sample_empty" by (simp add: sample_empty_def load_inv file_records_def)
  show 2: "store_inv sample_pending" using 1 by (simp add: sample_pending_def submit_inv)
  show "store_inv sample_accepted"
    unfolding sample_accepted_def using 2 decide_edits by (rule edits_inv)
qed

lemma sample_pending_bid:
  obtains r where "find_bid sample_pending ''bid-1'' = Some r" "status r = Pending"
    "bid_task_id r = ''t''" "bid_source r = ''a''" "bid_destination r = ''b''"
  by (simp add: sample_pending_def submit_def sample_empty_def load_def find_bid_def sample_bid_def Let_def)

section \<open>The promises of the store\<close>

text \<open>
  From a file of well-formed records, whatever locked calls follow in whatever order and at
  whatever instants, the store invariant holds: one record per bid identifier, the optional
  fields of a record agree with its status, and no fairness credit is negative.
\<close>

theorem store_run_invariant:
  assumes "\<forall>r \<in> set (file_records file). wf_record r"
    and "store_step\<^sup>*\<^sup>* (load ttl durable file) s"
  shows "store_inv s"
  using store_steps_inv [OF assms(2) load_inv(1) [OF assms(1)]] .

lemma sample_steps:
  "store_step\<^sup>*\<^sup>* sample_empty sample_pending" "store_step\<^sup>*\<^sup>* sample_pending sample_accepted"
proof -
  show "store_step\<^sup>*\<^sup>* sample_empty sample_pending"
    using call [of "Submit sample_bid" sample_pending 1 sample_empty] by (simp add: sample_pending_def)
  show "store_step\<^sup>*\<^sup>* sample_pending sample_accepted"
    using call [of "Decide ''bid-1'' accept_sample" sample_accepted 5 sample_pending]
    by (simp add: sample_accepted_def)
qed

theorem store_run_invariant_witness: "store_inv sample_accepted"
proof (rule store_run_invariant)
  show "\<forall>r \<in> set (file_records None). wf_record r" by (simp add: file_records_def)
  show "store_step\<^sup>*\<^sup>* (load 180 True None) sample_accepted"
    using sample_steps by (simp flip: sample_empty_def)
qed

text \<open>
  C12. A daemon that restarts after any sequence of calls loads, from the file the store left,
  exactly the records in memory and the same credit of every task: no bid, lease or credit is
  lost, and none comes back.
\<close>

theorem restart_restores_store:
  assumes "\<forall>r \<in> set (file_records file). wf_record r"
    and "store_step\<^sup>*\<^sup>* (load ttl True file) s"
    and "has_state_file s"
  shows "records (load ttl' True (store_file s)) = records s
    \<and> credit_for (load ttl' True (store_file s)) t = credit_for s t"
proof -
  have "synced s" using store_steps_synced [OF assms(2)] load_inv [OF assms(1)] by blast
  moreover have "records (load ttl' True f) = records (load ttl True f)"
    "credits (load ttl' True f) = credits (load ttl True f)" for f ttl
    by (simp_all add: load_def Let_def split: option.split bid_file.split)
  ultimately show ?thesis
    using assms(3) by (simp add: synced_def recovered_def credit_for_def credit_of_def) metis
qed

theorem restart_restores_store_witness:
  "records (load 60 True (store_file sample_accepted)) = records sample_accepted
    \<and> credit_for (load 60 True (store_file sample_accepted)) ''t'' = credit_for sample_accepted ''t''"
proof (rule restart_restores_store)
  show "\<forall>r \<in> set (file_records None). wf_record r" by (simp add: file_records_def)
  show "store_step\<^sup>*\<^sup>* (load 180 True None) sample_accepted"
    using sample_steps by (simp flip: sample_empty_def)
  show "has_state_file sample_accepted"
    by (simp add: sample_accepted_def decide_def accept_sample_def Let_def sample_pending_def
        submit_def sample_empty_def load_def find_bid_def split: option.split)
qed

text \<open>
  A bid keeps its identifier, task, endpoints, candidate and reception instant for ever, is
  never removed, and its status only moves along the life cycle pending, accepted, activating,
  consumed (with rejection, expiry and cancellation); a status that ends it never changes again.
\<close>

theorem bid_life_cycle:
  assumes "store_inv s" and "store_step\<^sup>*\<^sup>* s s'" and "find_bid s i = Some r"
  shows "\<exists>r'. find_bid s' i = Some r' \<and> same_bid r r' \<and> status_next\<^sup>*\<^sup>* (status r) (status r')
    \<and> (terminal (status r) \<longrightarrow> status r' = status r)"
  using store_steps_bid [OF assms(2,1,3)] terminal_steps by blast

theorem bid_life_cycle_witness:
  "\<exists>r r'. find_bid sample_pending ''bid-1'' = Some r \<and> find_bid sample_accepted ''bid-1'' = Some r'
    \<and> same_bid r r'"
proof -
  obtain r where "find_bid sample_pending ''bid-1'' = Some r" by (rule sample_pending_bid)
  with bid_life_cycle [OF sample_inv(2) sample_steps(2) this] show ?thesis by blast
qed

text \<open>
  C11. A capacity lease is claimed at most once: after a successful \<open>begin_activation\<close> no later
  \<open>begin_activation\<close> of the same bid succeeds, whatever calls come in between.
\<close>

theorem lease_claimed_once:
  assumes "store_inv s" and "begin_activation i t a b now s = (s1, Inr r)"
    and "store_step\<^sup>*\<^sup>* s1 s2"
  shows "\<exists>e. snd (begin_activation i t' a' b' now' s2) = Inl e"
  using claim_excludes_claim [OF assms] .

text \<open>
  The lease of a pending bid accepted at \<open>now\<close> can be claimed by the task and the
  endpoints of the bid exactly until \<open>now\<close> plus the configured time to live.
\<close>

theorem accepted_lease_window:
  assumes "store_inv s" and "find_bid s i = Some r" and "status r = Pending"
    and "d_status d = Accepted"
  shows "is_ok (snd (begin_activation i (bid_task_id r) (bid_source r) (bid_destination r) later
             (fst (decide i d now s))))
    \<longleftrightarrow> later < now + reservation_ttl s"
  using accepted_window [OF assms] .

lemma accepting_sample: "d_status accept_sample = Accepted"
  by (simp add: accept_sample_def)

lemma sample_ttl: "reservation_ttl sample_pending = 180"
  by (simp add: sample_pending_def submit_def sample_empty_def load_def Let_def find_bid_def)

theorem accepted_lease_window_witness:
  "is_ok (snd (begin_activation ''bid-1'' ''t'' ''a'' ''b'' 100 sample_accepted))
   \<and> \<not> is_ok (snd (begin_activation ''bid-1'' ''t'' ''a'' ''b'' 185 sample_accepted))"
proof -
  obtain r where r: "find_bid sample_pending ''bid-1'' = Some r" "status r = Pending"
    "bid_task_id r = ''t''" "bid_source r = ''a''" "bid_destination r = ''b''"
    by (rule sample_pending_bid)
  from accepted_lease_window [OF sample_inv(2) r(1,2) accepting_sample, of _ 5] r(3-5) show ?thesis
    by (simp add: sample_ttl flip: sample_accepted_def)
qed

theorem lease_claimed_once_witness:
  "\<exists>s1 r. begin_activation ''bid-1'' ''t'' ''a'' ''b'' 100 sample_accepted = (s1, Inr r)
    \<and> (\<exists>e. snd (begin_activation ''bid-1'' ''t'' ''a'' ''b'' 101 s1) = Inl e)"
proof -
  obtain r where r: "find_bid sample_pending ''bid-1'' = Some r" "status r = Pending"
    "bid_task_id r = ''t''" "bid_source r = ''a''" "bid_destination r = ''b''"
    by (rule sample_pending_bid)
  have "is_ok (snd (begin_activation ''bid-1'' ''t'' ''a'' ''b'' 100 sample_accepted))"
    using accepted_window [OF sample_inv(2) r(1,2), where d = accept_sample and now = 5 and later = 100] r(3-5)
    by (simp add: accepting_sample sample_ttl flip: sample_accepted_def)
  then obtain s1 r1 where first:
    "begin_activation ''bid-1'' ''t'' ''a'' ''b'' 100 sample_accepted = (s1, Inr r1)"
    by (metis is_ok.elims(2) prod.collapse)
  with lease_claimed_once [OF sample_inv(3) this rtranclp.rtrancl_refl] show ?thesis by blast
qed

text \<open>
  After an auction the fairness credit of a task is the credit before, decayed once per bid
  it won, plus the increment per bid it lost to contention, capped at the maximum; a task without
  a bid in the auction keeps its credit.
\<close>

theorem auction_credit_outcome:
  assumes "store_inv s" and "0 \<le> inc" and "0 \<le> mx" and "0 \<le> d"
  shows "credit_for (apply_credit_outcomes acc rej inc mx d s) t =
    (let wins = length (filter (\<lambda>i. bid_task s i = Some t) acc);
         losses = length (filter (\<lambda>i. bid_task s i = Some t) rej);
         c = credit_for s t * d ^ wins
     in if losses = 0 then c else min mx (c + real losses * inc))"
  using credit_outcome_value [OF assms] by (simp add: Let_def)

theorem auction_credit_outcome_witness:
  "credit_for (apply_credit_outcomes [] [''bid-1'', ''bid-1'', ''bid-2''] 1 5 (1 / 2) sample_pending) ''t'' = 2"
proof -
  obtain r where "find_bid sample_pending ''bid-1'' = Some r" "bid_task_id r = ''t''"
    by (rule sample_pending_bid)
  moreover have "find_bid sample_pending ''bid-2'' = None" "credit_for sample_pending ''t'' = 0"
    by (simp_all add: sample_pending_def submit_def sample_empty_def load_def find_bid_def
        sample_bid_def Let_def credit_for_def credit_of_def)
  ultimately show ?thesis
    using auction_credit_outcome [OF sample_inv(2), of 1 5 "1 / 2" "[]"
        "[''bid-1'', ''bid-1'', ''bid-2'']" "''t''"]
    by (simp add: bid_task_def)
qed

end
