(* ===== verification/Bid_Arbiter.thy ===== *)
theory Bid_Arbiter
  imports Bid_Store_Laws
begin

text \<open>
  \<open>magellan/bidding/arbiter.py\<close>: the destination-local auction.  No critical section of the store
  awaits, so the store's lock is never contended, no store call suspends and \<open>run_once\<close> is one
  atomic step of the daemon.  The registry is read once, through the protocol
  \<open>CapacityRegistry\<close>: its two answers are arguments here.  \<open>clock k\<close> is the k-th instant the
  step reads from the wall clock; \<open>now\<close> is the instant of the auction.
\<close>

section \<open>The arbiter and its view of free capacity\<close>

record arbiter =
  local_node_id :: node_id
  slot_capacity :: "int option"
  bid_window_seconds :: real
  node_resources :: node_resource_capacity
  arbiter_policy :: auction_policy
  node_capabilities :: node_runtime_capabilities
  arbiter_strategy :: auction_strategy

definition available_slots :: "int option \<Rightarrow> nat \<Rightarrow> nat \<Rightarrow> int option" where
  "available_slots capacity currently_owned reserved =
     (case capacity of None \<Rightarrow> None
      | Some c \<Rightarrow> Some (max 0 (c - int currently_owned - int reserved)))"

definition used_resources :: "task_resource_request list \<Rightarrow> bid_record list \<Rightarrow> resource_vector" where
  "used_resources owned reservations = sum_requests (owned @ map request_of reservations)"

definition available_resources ::
  "arbiter \<Rightarrow> nat \<Rightarrow> task_resource_request list \<Rightarrow> datetime \<Rightarrow> bid_store
     \<Rightarrow> bid_store \<times> int option \<times> resource_ledger \<times> real" where
  "available_resources a currently_owned owned wall s =
     (let (s', reservations) = active_reservations wall s;
          used = used_resources owned reservations
      in (s', available_slots (slot_capacity a) currently_owned (length reservations),
          from_capacity (node_resources a) used, resource_busy_fraction used (node_resources a)))"

definition full_ledger :: "arbiter \<Rightarrow> resource_ledger" where
  "full_ledger a = from_capacity (node_resources a) zero_vector"

section \<open>One verdict\<close>

record auction_state =
  slots_left :: "int option"
  ledger :: resource_ledger
  accepted_ids :: "string list"
  competition_rejected_ids :: "string list"
  selected_task_ids :: "task_id list"

record verdict =
  v_status :: bid_status
  v_reason :: decision_reason
  v_resource_fit :: bool
  v_compatibility :: compatibility_result
  v_earns_credit :: bool

definition slots_exhausted :: "auction_state \<Rightarrow> bool" where
  "slots_exhausted st = (case slots_left st of None \<Rightarrow> False | Some k \<Rightarrow> k \<le> 0)"

definition judge :: "arbiter \<Rightarrow> auction_state \<Rightarrow> bid_record \<Rightarrow> verdict" where
  "judge a st bid =
     (let request = request_of bid;
          infeasible = ledger_compatible (full_ledger a) request;
          compat = check_compatibility (requirements_of bid) (node_capabilities a);
          reject = (\<lambda>reason fit earns. \<lparr>v_status = Rejected, v_reason = reason, v_resource_fit = fit,
                      v_compatibility = compat, v_earns_credit = earns\<rparr>)
      in if bid_task_id bid \<in> set (selected_task_ids st)
         then reject DuplicateTask (infeasible = None) False
         else if \<not> compatible compat
         then reject (Incompatible (reasons compat)) (infeasible = None) False
         else case infeasible of
           Some reason \<Rightarrow> reject (Infeasible reason) False False
         | None \<Rightarrow>
             if slots_exhausted st then reject SlotsTaken True True
             else case ledger_compatible (ledger st) request of
               Some reason \<Rightarrow> reject (Contention reason) False True
             | None \<Rightarrow> \<lparr>v_status = Accepted, v_reason = SelectedBy (arbiter_strategy a),
                        v_resource_fit = True, v_compatibility = compat, v_earns_credit = False\<rparr>)"

definition settle :: "auction_state \<Rightarrow> bid_record \<Rightarrow> verdict \<Rightarrow> auction_state" where
  "settle st bid v =
     (if v_status v = Accepted
      then st\<lparr>slots_left := map_option (\<lambda>k. k - 1) (slots_left st),
              ledger := ledger_consume (ledger st) (request_of bid),
              accepted_ids := accepted_ids st @ [bid_id bid],
              selected_task_ids := bid_task_id bid # selected_task_ids st\<rparr>
      else if v_earns_credit v
      then st\<lparr>competition_rejected_ids := competition_rejected_ids st @ [bid_id bid]\<rparr>
      else st)"

definition decision_of ::
  "arbiter \<Rightarrow> real dict \<Rightarrow> nat \<Rightarrow> ranked_bid \<Rightarrow> verdict \<Rightarrow> decision" where
  "decision_of a cr rank item v =
     \<lparr>d_status = v_status v, d_reason = v_reason v, d_strategy = Some (arbiter_strategy a),
      d_rank = Some rank, d_credit_before = credit_of cr (bid_task_id (ranked_of item)),
      d_resource_fit = Some (v_resource_fit v),
      d_compatibility_fit = Some (compatible (v_compatibility v)),
      d_compatibility_notes = reasons (v_compatibility v),
      d_metrics = Some (metrics item, request_of (ranked_of item))\<rparr>"

section \<open>The auction\<close>

text \<open>The loop over the ranked bids; an exception of \<open>decide\<close> leaves it.\<close>

fun auction_loop ::
  "arbiter \<Rightarrow> real dict \<Rightarrow> datetime \<Rightarrow> nat \<Rightarrow> ranked_bid list \<Rightarrow> auction_state \<Rightarrow> bid_store
     \<Rightarrow> bid_store \<times> auction_state result" where
  "auction_loop a cr now rank [] st s = (s, Inr st)"
| "auction_loop a cr now rank (item # items) st s =
     (let v = judge a st (ranked_of item);
          (s', outcome) = decide (bid_id (ranked_of item)) (decision_of a cr rank item v) now s
      in case outcome of
           Inl e \<Rightarrow> (s', Inl e)
         | Inr _ \<Rightarrow> auction_loop a cr now (Suc rank) items (settle st (ranked_of item) v) s')"

text \<open>The closing loop reads every bid of the window again, to report it.\<close>

fun report_loop :: "(nat \<Rightarrow> datetime) \<Rightarrow> nat \<Rightarrow> ranked_bid list \<Rightarrow> bid_store \<Rightarrow> bid_store \<times> unit result" where
  "report_loop clock k [] s = (s, Inr ())"
| "report_loop clock k (item # items) s =
     (let (s', r) = get_bid (bid_id (ranked_of item)) (clock k) s
      in case r of None \<Rightarrow> (s', Inl (OtherError ''AssertionError''))
         | Some _ \<Rightarrow> report_loop clock (Suc k) items s')"

definition window_of :: "arbiter \<Rightarrow> bid_record list \<Rightarrow> bid_record list" where
  "window_of a pending =
     filter (\<lambda>b. received_at b \<le> received_at (hd pending) + bid_window_seconds a) pending"

definition start_state :: "int option \<Rightarrow> resource_ledger \<Rightarrow> auction_state" where
  "start_state slots l =
     \<lparr>slots_left = slots, ledger = l, accepted_ids = [], competition_rejected_ids = [],
      selected_task_ids = []\<rparr>"

definition hold_auction ::
  "arbiter \<Rightarrow> nat \<Rightarrow> task_resource_request list \<Rightarrow> datetime \<Rightarrow> (nat \<Rightarrow> datetime)
     \<Rightarrow> bid_record list \<Rightarrow> bid_store \<Rightarrow> bid_store \<times> bool result" where
  "hold_auction a currently_owned owned now clock window s =
     (let cr = credits s;
          ranked = rank_bids window (arbiter_strategy a) cr (node_resources a) (arbiter_policy a) now;
          (s1, slots, l, _) = available_resources a currently_owned owned (clock 1) s;
          (s2, outcome) = auction_loop a cr now 1 ranked (start_state slots l) s1
      in case outcome of
           Inl e \<Rightarrow> (s2, Inl e)
         | Inr st \<Rightarrow>
             let s3 = apply_credit_outcomes (accepted_ids st) (competition_rejected_ids st)
                        (credit_increment (arbiter_policy a)) (credit_max (arbiter_policy a))
                        (accepted_credit_decay (arbiter_policy a)) s2;
                 (s4, reported) = report_loop clock 2 ranked s3
             in (s4, case reported of Inl e \<Rightarrow> Inl e | Inr _ \<Rightarrow> Inr True))"

definition run_once ::
  "arbiter \<Rightarrow> nat \<Rightarrow> task_resource_request list \<Rightarrow> datetime \<Rightarrow> (nat \<Rightarrow> datetime) \<Rightarrow> bid_store
     \<Rightarrow> bid_store \<times> bool result" where
  "run_once a currently_owned owned now clock s =
     (let (s1, expired) = expire_locked now s;
          (s2, pending) = pending_records (clock 0) s1
      in if pending = [] then (s2, Inr (expired \<noteq> []))
         else if now < received_at (hd pending) + bid_window_seconds a then (s2, Inr (expired \<noteq> []))
         else hold_auction a currently_owned owned now clock (window_of a pending) s2)"

definition arbiter_status ::
  "arbiter \<Rightarrow> nat \<Rightarrow> task_resource_request list \<Rightarrow> datetime \<Rightarrow> bid_store
     \<Rightarrow> bid_store \<times> (node_id \<times> auction_strategy \<times> int option \<times> int option \<times> real
          \<times> (real option \<times> int option \<times> int option \<times> string set) \<times> real dict)" where
  "arbiter_status a currently_owned owned wall s =
     (let (s', slots, l, busy) = available_resources a currently_owned owned wall s
      in (s', local_node_id a, arbiter_strategy a, slot_capacity a, slots, busy,
          ledger_snapshot l, credits s'))"

section \<open>The specification: greedy admission in ranking order\<close>

text \<open>
  The specification knows neither ledgers nor reasons: a bid is admitted when its task has no
  earlier admission, the node meets its requirements, its accelerator is one the node lists, a
  slot is left and, of every resource it asks for, the demand so far plus its own stays within the
  configured limit.  A resource it asks nothing of never refuses it, even when the limit is exceeded.
\<close>

definition room_for :: "real \<Rightarrow> real \<Rightarrow> real option \<Rightarrow> bool" where
  "room_for used asked limit \<longleftrightarrow> (case limit of None \<Rightarrow> True | Some l \<Rightarrow> 0 < asked \<longrightarrow> used + asked \<le> l)"

definition request_fits :: "resource_vector \<Rightarrow> task_resource_request \<Rightarrow> node_resource_capacity \<Rightarrow> bool" where
  "request_fits used q c \<longleftrightarrow>
     room_for (rv_cpu_cores used) (cpu_cores q) (capacity_cpu_cores c)
   \<and> room_for (of_int (rv_memory_mb used)) (of_int (memory_mb q)) (map_option of_int (capacity_memory_mb c))
   \<and> room_for (of_int (rv_gpu_count used)) (of_int (gpu_count q)) (map_option of_int (capacity_gpu_count c))"

definition accelerator_ok :: "node_resource_capacity \<Rightarrow> task_resource_request \<Rightarrow> bool" where
  "accelerator_ok c q \<longleftrightarrow>
     (gpu_count q > 0 \<longrightarrow> accelerator_type q = None \<or> capacity_accelerator_types c = {}
        \<or> the (accelerator_type q) \<in> capacity_accelerator_types c)"

definition admissible ::
  "arbiter \<Rightarrow> int option \<Rightarrow> resource_vector \<Rightarrow> task_id list \<Rightarrow> bid_record \<Rightarrow> bool" where
  "admissible a slots used selected_tasks b \<longleftrightarrow>
     bid_task_id b \<notin> set selected_tasks
   \<and> requirements_met (requirements_of b) (node_capabilities a)
   \<and> accelerator_ok (node_resources a) (request_of b)
   \<and> (case slots of None \<Rightarrow> True | Some k \<Rightarrow> 0 < k)
   \<and> request_fits used (request_of b) (node_resources a)"

fun greedy ::
  "arbiter \<Rightarrow> int option \<Rightarrow> resource_vector \<Rightarrow> task_id list \<Rightarrow> bid_record list \<Rightarrow> string list" where
  "greedy a slots used selected_tasks [] = []"
| "greedy a slots used selected_tasks (b # bs) =
     (if admissible a slots used selected_tasks b
      then bid_id b # greedy a (map_option (\<lambda>k. k - 1) slots)
             (vector_add used (from_request (request_of b))) (bid_task_id b # selected_tasks) bs
      else greedy a slots used selected_tasks bs)"

end
