(* ===== verification/Bid_Arbiter_Laws.thy ===== *)
theory Bid_Arbiter_Laws
  imports Bid_Arbiter
begin

text \<open>
  The auction admits exactly the bids of the greedy specification, never over-commits task slots
  or configured resources, and never raises.
\<close>

section \<open>The demand of the active leases\<close>

definition active_ids :: "bid_store \<Rightarrow> string set" where
  "active_ids s = {i. \<exists>r. find_bid s i = Some r \<and> active_status (status r)}"

definition request_at :: "bid_store \<Rightarrow> string \<Rightarrow> task_resource_request" where
  "request_at s i = (case find_bid s i of None \<Rightarrow> default_resource_request | Some r \<Rightarrow> request_of r)"

definition requests_wf :: "bid_store \<Rightarrow> bool" where
  "requests_wf s \<longleftrightarrow> (\<forall>i r. find_bid s i = Some r \<longrightarrow> wf_resource_request (request_of r))"

lemma default_request_wf [simp]: "wf_resource_request default_resource_request"
  by (simp add: default_resource_request_def wf_resource_request_def)

lemma request_at_wf: "requests_wf s \<Longrightarrow> wf_resource_request (request_at s i)"
  by (simp add: requests_wf_def request_at_def split: option.split)

lemma finite_active_ids [simp]: "finite (active_ids s)"
proof -
  have "active_ids s \<subseteq> fst ` set (records s)"
    by (force simp: active_ids_def find_bid_def dest: dict_get_SomeD)
  then show ?thesis by (rule finite_subset) simp
qed

lemma set_reservations:
  "store_inv s \<Longrightarrow> r \<in> set (reservations_of s) \<longleftrightarrow>
     (\<exists>i. find_bid s i = Some r) \<and> active_status (status r)"
  by (force simp: reservations_of_def bids_of_def find_bid_iff)

lemma reservation_ids:
  assumes "store_inv s"
  shows "distinct (map bid_id (reservations_of s))" "bid_id ` set (reservations_of s) = active_ids s"
proof -
  show "distinct (map bid_id (reservations_of s))"
    using distinct_bids [OF assms] by (simp add: reservations_of_def distinct_map_filter)
  show "bid_id ` set (reservations_of s) = active_ids s"
    using store_invD(1) [OF assms]
    by (force simp: set_reservations [OF assms] active_ids_def image_iff)
qed

lemma length_reservations: "store_inv s \<Longrightarrow> length (reservations_of s) = card (active_ids s)"
  using reservation_ids [of s] distinct_card [of "map bid_id (reservations_of s)"] by simp

text \<open>Sums over the list of reservations are sums over the identifiers of active leases.\<close>

lemma reservation_sum:
  fixes f :: "task_resource_request \<Rightarrow> 'a::comm_monoid_add"
  assumes "store_inv s"
  shows "sum_list (map (\<lambda>r. f (request_of r)) (reservations_of s)) = (\<Sum>i\<in>active_ids s. f (request_at s i))"
proof -
  have inj: "inj_on bid_id (set (reservations_of s))" "distinct (reservations_of s)"
    using reservation_ids(1) [OF assms] by (simp_all add: distinct_map)
  have "sum_list (map (\<lambda>r. f (request_of r)) (reservations_of s))
      = (\<Sum>r\<in>set (reservations_of s). f (request_of r))"
    using inj(2) by (simp add: sum_list_distinct_conv_sum_set)
  also have "\<dots> = (\<Sum>r\<in>set (reservations_of s). f (request_at s (bid_id r)))"
    using store_invD(1) [OF assms]
    by (intro sum.cong) (auto simp: set_reservations [OF assms] request_at_def split: option.split)
  also have "\<dots> = (\<Sum>i\<in>bid_id ` set (reservations_of s). f (request_at s i))"
    using inj(1) by (simp add: sum.reindex)
  finally show ?thesis by (simp add: reservation_ids(2) [OF assms])
qed

section \<open>Demand along evolution\<close>

text \<open>
  \<open>covered A s s'\<close>: \<open>s'\<close> has the bids of \<open>s\<close>, unchanged in what was submitted, and only
  the leases of \<open>s\<close> and of the identifiers \<open>A\<close>.
\<close>

definition covered :: "string set \<Rightarrow> bid_store \<Rightarrow> bid_store \<Rightarrow> bool" where
  "covered A s s' \<longleftrightarrow> active_ids s' \<subseteq> active_ids s \<union> A
   \<and> (\<forall>i. rel_option same_bid (find_bid s i) (find_bid s' i))"

lemma same_request: "same_bid r r' \<Longrightarrow> request_of r' = request_of r"
  by (simp add: request_of_def same_bid_select(6))

lemma covered_request:
  assumes "covered A s s'"
  shows "request_at s' i = request_at s i" "requests_wf s \<Longrightarrow> requests_wf s'"
proof -
  have *: "rel_option same_bid (find_bid s i) (find_bid s' i)" for i
    using assms by (simp add: covered_def)
  show "request_at s' i = request_at s i"
    using * [of i] by (cases "find_bid s i"; cases "find_bid s' i") (simp_all add: request_at_def same_request)
  show "requests_wf s'" if "requests_wf s"
    unfolding requests_wf_def
  proof (intro allI impI)
    fix i r' assume r': "find_bid s' i = Some r'"
    with * [of i] obtain r where "find_bid s i = Some r" "same_bid r r'" by (auto simp: option_rel_Some2)
    with that show "wf_resource_request (request_of r')" by (simp add: requests_wf_def same_request)
  qed
qed

lemma covered_refl [simp]: "covered {} s s"
  by (simp add: covered_def option.rel_refl)

lemma covered_trans:
  assumes "covered A s t" "covered B t u"
  shows "covered (A \<union> B) s u"
proof -
  have "rel_option same_bid (find_bid s i) (find_bid u i)" for i
  proof -
    have "rel_option same_bid (find_bid s i) (find_bid t i)"
      "rel_option same_bid (find_bid t i) (find_bid u i)"
      using assms by (simp_all add: covered_def)
    then show ?thesis
      by (cases "find_bid s i"; cases "find_bid t i"; cases "find_bid u i")
         (auto intro: same_bid_trans)
  qed
  then show ?thesis using assms by (auto simp: covered_def)
qed

lemma covered_mono: "covered A s t \<Longrightarrow> A \<subseteq> B \<Longrightarrow> covered B s t"
  by (auto simp: covered_def)

lemma covered_expire: "covered {} s (fst (expire_locked now s))"
  by (auto simp: covered_def active_ids_def option.rel_map intro: option.rel_refl split: if_splits)

lemma covered_restyles: "restyles s s' \<Longrightarrow> covered {} s s'"
proof -
  assume "restyles s s'"
  then have rel: "rel_option recredited (find_bid s i) (find_bid s' i)" for i by (simp add: restyles_def)
  have "active_ids s' \<subseteq> active_ids s"
  proof
    fix i assume "i \<in> active_ids s'"
    then obtain r' where r': "find_bid s' i = Some r'" "active_status (status r')" by (auto simp: active_ids_def)
    with rel [of i] obtain r where "find_bid s i = Some r" "recredited r r'" by (auto simp: option_rel_Some2)
    with r'(2) show "i \<in> active_ids s" by (auto simp: active_ids_def recredited_select)
  qed
  moreover have "rel_option same_bid (find_bid s i) (find_bid s' i)" for i
    using rel [of i] by (rule option.rel_mono_strong) (simp add: recredited_select)
  ultimately show ?thesis by (simp add: covered_def)
qed

lemma covered_sum:
  fixes f :: "task_resource_request \<Rightarrow> 'a::ordered_comm_monoid_add"
  assumes cov: "covered A s s'" and A: "finite A" and nn: "\<And>i. 0 \<le> f (request_at s i)"
  shows "(\<Sum>i\<in>active_ids s'. f (request_at s' i))
     \<le> (\<Sum>i\<in>active_ids s. f (request_at s i)) + (\<Sum>i\<in>A - active_ids s. f (request_at s i))"
proof -
  have "(\<Sum>i\<in>active_ids s'. f (request_at s' i)) = (\<Sum>i\<in>active_ids s'. f (request_at s i))"
    by (simp add: covered_request(1) [OF cov])
  also have "\<dots> \<le> (\<Sum>i\<in>active_ids s \<union> (A - active_ids s). f (request_at s i))"
    using cov A nn by (intro sum_mono2) (auto simp: covered_def)
  also have "\<dots> = (\<Sum>i\<in>active_ids s. f (request_at s i)) + (\<Sum>i\<in>A - active_ids s. f (request_at s i))"
    using A by (intro sum.union_disjoint) auto
  finally show ?thesis .
qed

section \<open>What one decision does to the store\<close>

lemma decide_spec:
  assumes inv: "store_inv s" and r: "find_bid s i = Some r" "status r = Pending"
    and d: "d_status d \<in> {Accepted, Rejected}"
  shows "snd (decide i d now s) = Inr (decided_record d now (reservation_ttl s) r)"
    and "find_bid (fst (decide i d now s)) j =
      (if j = i then Some (decided_record d now (reservation_ttl s) r)
       else map_option (expire_record now) (find_bid s j))"
proof -
  let ?r' = "decided_record d now (reservation_ttl s) r"
  have "\<not> is_due now r" using r(2) by (auto simp: is_due_def)
  with r d have *: "decide i d now s = (put_bid ?r' (fst (expire_locked now s)), Inr ?r')"
    by (auto simp: decide_def Let_def)
  then show "snd (decide i d now s) = Inr ?r'" by simp
  have "bid_id ?r' = i" using store_invD(1) [OF inv r(1)] by (simp add: decided_record_def)
  then show "find_bid (fst (decide i d now s)) j =
      (if j = i then Some ?r' else map_option (expire_record now) (find_bid s j))"
    by (simp add: *)
qed

lemma decide_total: "find_bid s i = Some r \<Longrightarrow> d_status d \<in> {Accepted, Rejected} \<Longrightarrow>
    \<exists>r'. snd (decide i d now s) = Inr r'"
  by (auto simp: decide_def Let_def)

lemma decide_covered:
  assumes inv: "store_inv s" and r: "find_bid s i = Some r" and d: "d_status d \<in> {Accepted, Rejected}"
  shows "covered (if d_status d = Accepted then {i} else {}) s (fst (decide i d now s))"
proof (cases "status r = Pending")
  case True
  note spec = decide_spec(2) [OF inv r True d, of now]
  have "active_ids (fst (decide i d now s)) \<subseteq> active_ids s \<union> (if d_status d = Accepted then {i} else {})"
    using d by (auto simp: active_ids_def spec decided_record_def split: if_splits)
  moreover have "rel_option same_bid (find_bid s j) (find_bid (fst (decide i d now s)) j)" for j
    by (auto simp: spec r option.rel_map intro: option.rel_refl)
  ultimately show ?thesis by (simp add: covered_def)
next
  case False
  with r d have "fst (decide i d now s) = fst (expire_locked now s)"
    by (auto simp: decide_def Let_def)
  then show ?thesis using covered_expire covered_mono by (metis empty_subsetI)
qed

section \<open>The loop refines the greedy specification\<close>

lemma judge_status: "v_status (judge a st b) \<in> {Accepted, Rejected}"
  by (simp add: judge_def Let_def split: option.split)

lemma vector_add_nonneg:
  "rv_cpu_cores used \<ge> 0 \<Longrightarrow> rv_memory_mb used \<ge> 0 \<Longrightarrow> rv_gpu_count used \<ge> 0 \<Longrightarrow>
   wf_resource_request q \<Longrightarrow>
   rv_cpu_cores (vector_add used (from_request q)) \<ge> 0
   \<and> rv_memory_mb (vector_add used (from_request q)) \<ge> 0
   \<and> rv_gpu_count (vector_add used (from_request q)) \<ge> 0"
  by (simp add: wf_resource_request_def)

definition sound_usage :: "resource_vector \<Rightarrow> bool" where
  "sound_usage used \<longleftrightarrow> 0 \<le> rv_cpu_cores used \<and> 0 \<le> rv_memory_mb used \<and> 0 \<le> rv_gpu_count used"

lemma sound_usage_zero [simp]: "sound_usage zero_vector"
  by (simp add: sound_usage_def)

lemma sound_usage_add: "sound_usage used \<Longrightarrow> wf_resource_request q \<Longrightarrow> sound_usage (vector_add used (from_request q))"
  using vector_add_nonneg [of used q] by (simp add: sound_usage_def)

text \<open>
  The ledger clamps what remains at zero: it answers whether there is room for what is asked, and consuming
  mirrors adding to the usage, also over a limit that is exceeded.
\<close>

lemma remaining_room: "0 \<le> x \<Longrightarrow> Fin x \<le> remaining limit used \<longleftrightarrow> room_for used x limit"
  by (auto simp: remaining_def room_for_def split: option.splits)

lemma consume_clamped: "0 \<le> x \<Longrightarrow> consume_amount (remaining limit used) x = remaining limit (used + x)"
  by (auto simp: remaining_def max_def split: option.splits)

lemma ledger_mirrors:
  assumes "wf_resource_request q"
  shows "ledger_consume (from_capacity c used) q = from_capacity c (vector_add used (from_request q))"
  using assms by (simp add: ledger_consume_def from_capacity_def consume_clamped wf_resource_request_def)

text \<open>A ledger that mirrors a usage answers whether there is room for the request.\<close>

lemma ledger_answers:
  assumes "wf_resource_request q"
  shows "ledger_compatible (from_capacity c used) q = None \<longleftrightarrow> accelerator_ok c q \<and> request_fits used q c"
proof -
  have q: "0 \<le> cpu_cores q" "0 \<le> (of_int (memory_mb q) :: real)" "0 \<le> (of_int (gpu_count q) :: real)"
    using assms by (simp_all add: wf_resource_request_def)
  note room = remaining_room [OF q(1)] remaining_room [OF q(2)] remaining_room [OF q(3)]
  have gpu: "Fin (of_int (gpu_count q)) \<le> remaining l u \<Longrightarrow> 0 < gpu_count q \<Longrightarrow> Fin 0 < remaining l u" for l u
    using less_le_trans [of "Fin 0" "Fin (of_int (gpu_count q))"] by simp
  show ?thesis
    by (auto simp: ledger_compatible_None_iff accelerator_ok_def from_capacity_def request_fits_def room [symmetric] intro: gpu)
qed

lemma request_fits_alone: "sound_usage used \<Longrightarrow> request_fits used q c \<Longrightarrow> request_fits zero_vector q c"
  by (auto simp: request_fits_def room_for_def sound_usage_def split: option.splits)

text \<open>Over a usage that fits, room for a request is room for all.\<close>

lemma request_fits_total:
  assumes "fits_capacity used c" "wf_resource_request q" "request_fits used q c"
  shows "fits_capacity (vector_add used (from_request q)) c"
proof -
  have one: "within_limit (used + x) limit" if "within_limit used limit" "0 \<le> x" "room_for used x limit" for used x limit
    using that by (auto simp: within_limit_def room_for_def split: option.splits)
  have q: "0 \<le> cpu_cores q" "0 \<le> (of_int (memory_mb q) :: real)" "0 \<le> (of_int (gpu_count q) :: real)"
    using assms(2) by (simp_all add: wf_resource_request_def)
  show ?thesis
    using assms(1,3) one [OF _ q(1)] one [OF _ q(2)] one [OF _ q(3)] by (simp add: fits_capacity_def request_fits_def)
qed

lemma judge_accepts_iff:
  assumes "sound_usage used" "ledger st = from_capacity (node_resources a) used"
    and wf: "wf_resource_request (request_of b)"
  shows "v_status (judge a st b) = Accepted \<longleftrightarrow>
    admissible a (slots_left st) used (selected_task_ids st) b"
proof -
  let ?c = "node_resources a" and ?q = "request_of b"
  have alone: "ledger_compatible (full_ledger a) ?q = None \<longleftrightarrow> accelerator_ok ?c ?q \<and> request_fits zero_vector ?q ?c"
    using ledger_answers [OF wf] by (simp add: full_ledger_def)
  have rest: "ledger_compatible (ledger st) ?q = None \<longleftrightarrow> accelerator_ok ?c ?q \<and> request_fits used ?q ?c"
    using ledger_answers [OF wf] by (simp add: assms(2))
  note mono = request_fits_alone [OF assms(1), of ?q ?c]
  have slots: "slots_exhausted st \<longleftrightarrow> \<not> (case slots_left st of None \<Rightarrow> True | Some k \<Rightarrow> 0 < k)"
    by (auto simp: slots_exhausted_def split: option.split)
  show ?thesis
    using alone rest mono
    by (auto simp: judge_def Let_def check_compatibility_iff admissible_def slots split: option.split)
qed

lemma loop_greedy:
  assumes "store_inv s" "sound_usage used"
    and "ledger st = from_capacity (node_resources a) used"
    and "\<And>b. b \<in> ranked_of ` set items \<Longrightarrow>
           (\<exists>r. find_bid s (bid_id b) = Some r) \<and> wf_resource_request (request_of b)"
  shows "store_inv (fst (auction_loop a cr now rank items st s))
    \<and> covered (set (greedy a (slots_left st) used (selected_task_ids st) (map ranked_of items)))
        s (fst (auction_loop a cr now rank items st s))
    \<and> (\<exists>st'. snd (auction_loop a cr now rank items st s) = Inr st'
          \<and> accepted_ids st' = accepted_ids st
                @ greedy a (slots_left st) used (selected_task_ids st) (map ranked_of items))"
  using assms
proof (induction items arbitrary: rank st s used)
  case Nil
  then show ?case by simp
next
  case (Cons item items)
  let ?b = "ranked_of item"
  let ?v = "judge a st ?b"
  let ?d = "decision_of a cr rank item ?v"
  let ?i = "bid_id ?b"
  let ?s = "fst (decide ?i ?d now s)"
  let ?st = "settle st ?b ?v"
  from Cons.prems(4) obtain r where r: "find_bid s ?i = Some r" and wf: "wf_resource_request (request_of ?b)"
    by fastforce
  have d: "d_status ?d = v_status ?v" "d_status ?d \<in> {Accepted, Rejected}"
    using judge_status [of a st ?b] by (simp_all add: decision_of_def)
  obtain r' where "snd (decide ?i ?d now s) = Inr r'" using decide_total [OF r d(2)] by blast
  then have step: "auction_loop a cr now rank (item # items) st s = auction_loop a cr now (Suc rank) items ?st ?s"
    by (cases "decide ?i ?d now s") simp
  have inv: "store_inv ?s" using edits_inv [OF Cons.prems(1) decide_edits] .
  have cov: "covered (if v_status ?v = Accepted then {?i} else {}) s ?s"
    using decide_covered [OF Cons.prems(1) r d(2), of now] d(1) by simp
  have mem: "(\<exists>r. find_bid ?s (bid_id b) = Some r) \<and> wf_resource_request (request_of b)"
    if "b \<in> ranked_of ` set items" for b
  proof -
    obtain q where "find_bid s (bid_id b) = Some q" "wf_resource_request (request_of b)"
      using Cons.prems(4) [of b] \<open>b \<in> ranked_of ` set items\<close> by auto
    moreover have "rel_option same_bid (find_bid s (bid_id b)) (find_bid ?s (bid_id b))"
      using cov by (simp add: covered_def)
    ultimately show ?thesis by (auto simp: option_rel_Some1)
  qed
  show ?case
  proof (cases "admissible a (slots_left st) used (selected_task_ids st) ?b")
    case True
    then have acc: "v_status ?v = Accepted" by (simp add: judge_accepts_iff [OF Cons.prems(2,3) wf])
    let ?used = "vector_add used (from_request (request_of ?b))"
    have st: "ledger ?st = from_capacity (node_resources a) ?used"
      "slots_left ?st = map_option (\<lambda>k. k - 1) (slots_left st)"
      "selected_task_ids ?st = bid_task_id ?b # selected_task_ids st"
      "accepted_ids ?st = accepted_ids st @ [?i]"
      using ledger_mirrors [OF wf] by (simp_all add: settle_def acc Cons.prems(3))
    note IH = Cons.IH [OF inv sound_usage_add [OF Cons.prems(2) wf] st(1) mem, of "Suc rank", unfolded st(2-4)]
    have "covered ({?i} \<union> B) s u" if "covered B ?s u" for B u
      using covered_trans [OF cov] that by (simp add: acc)
    with IH True show ?thesis unfolding step by auto
  next
    case False
    then have rej: "v_status ?v = Rejected"
      using judge_accepts_iff [OF Cons.prems(2,3) wf] judge_status [of a st ?b] by blast
    have st: "ledger ?st = from_capacity (node_resources a) used" "slots_left ?st = slots_left st"
      "selected_task_ids ?st = selected_task_ids st" "accepted_ids ?st = accepted_ids st"
      by (simp_all add: settle_def rej Cons.prems(3))
    note IH = Cons.IH [OF inv Cons.prems(2) st(1) mem, of "Suc rank", unfolded st(2-4)]
    have "covered B s u" if "covered B ?s u" for B u
      using covered_trans [OF cov] that by (simp add: rej)
    with IH False show ?thesis unfolding step by simp
  qed
qed

section \<open>What the greedy specification guarantees\<close>

lemma greedy_sub: "set (greedy a slots used sel bs) \<subseteq> bid_id ` set bs"
  by (induction bs arbitrary: slots used sel) auto

lemma greedy_distinct: "distinct (map bid_id bs) \<Longrightarrow> distinct (greedy a slots used sel bs)"
proof (induction bs arbitrary: slots used sel)
  case (Cons b bs)
  then have "bid_id b \<notin> set (greedy a slots' used' sel' bs)" for slots' used' sel'
    using greedy_sub [of a slots' used' sel' bs] by auto
  with Cons show ?case by simp
qed simp

lemma greedy_slots: "0 \<le> k \<Longrightarrow> int (length (greedy a (Some k) used sel bs)) \<le> k"
proof (induction bs arbitrary: k used sel)
  case (Cons b bs)
  show ?case
  proof (cases "admissible a (Some k) used sel b")
    case True
    then have "0 < k" by (simp add: admissible_def)
    then have "int (length (greedy a (Some (k - 1)) u t bs)) \<le> k - 1" for u t
      using Cons.IH [of "k - 1"] by simp
    with True show ?thesis by (simp add: add.commute le_diff_eq)
  next
    case False
    with Cons show ?thesis by simp
  qed
qed simp

lemma greedy_fits:
  assumes "fits_capacity used (node_resources a)"
    and "\<And>b. b \<in> set bs \<Longrightarrow> q (bid_id b) = request_of b \<and> wf_resource_request (request_of b)"
  shows "fits_capacity (vector_add used (sum_requests (map q (greedy a slots used sel bs)))) (node_resources a)"
  using assms
proof (induction bs arbitrary: slots used sel)
  case (Cons b bs)
  have q: "\<And>b. b \<in> set bs \<Longrightarrow> q (bid_id b) = request_of b \<and> wf_resource_request (request_of b)"
    "q (bid_id b) = request_of b" "wf_resource_request (request_of b)"
    using Cons.prems(2) by auto
  show ?case
  proof (cases "admissible a slots used sel b")
    case True
    then have "fits_capacity (vector_add used (from_request (request_of b))) (node_resources a)"
      by (intro request_fits_total [OF Cons.prems(1) q(3)]) (simp add: admissible_def)
    from Cons.IH [OF this q(1)] True show ?thesis by (simp add: q(2) vector_add_assoc)
  next
    case False
    with Cons.IH [OF Cons.prems(1) q(1)] show ?thesis by simp
  qed
qed simp

lemma greedy_task:
  assumes "i \<in> set (greedy a slots used sel bs)"
  shows "\<exists>b \<in> set bs. bid_id b = i \<and> bid_task_id b \<notin> set sel
    \<and> requirements_met (requirements_of b) (node_capabilities a)
    \<and> accelerator_ok (node_resources a) (request_of b)"
  using assms
proof (induction bs arbitrary: slots used sel)
  case (Cons b bs)
  then show ?case
    by (cases "admissible a slots used sel b") (fastforce simp: admissible_def)+
qed simp

lemma distinct_map_eq: "distinct (map f xs) \<Longrightarrow> x \<in> set xs \<Longrightarrow> y \<in> set xs \<Longrightarrow> f x = f y \<Longrightarrow> x = y"
  by (metis distinct_map inj_onD)

lemma distinct_map_head: "distinct (map f (x # xs)) \<Longrightarrow> y \<in> set xs \<Longrightarrow> f y \<noteq> f x"
  by (metis distinct.simps(2) image_eqI list.set_map list.simps(9))

lemma greedy_head_notin:
  assumes "distinct (map bid_id (x # bs))" "bid_id x \<in> set (greedy a slots used sel (x # bs))"
  shows "admissible a slots used sel x"
proof (rule ccontr)
  assume "\<not> admissible a slots used sel x"
  then have "bid_id x \<in> bid_id ` set bs"
    using assms(2) greedy_sub [of a slots used sel bs] by auto
  with assms(1) show False by simp
qed

lemma greedy_tail_task:
  assumes "distinct (map bid_id (x # bs))" "y \<in> set bs"
    and "bid_id y \<in> set (greedy a slots used (bid_task_id x # sel) bs)"
  shows "bid_task_id y \<noteq> bid_task_id x"
proof -
  from greedy_task [OF assms(3)] obtain z where z: "z \<in> set bs" "bid_id z = bid_id y"
    "bid_task_id z \<noteq> bid_task_id x" by auto
  have "distinct (map bid_id bs)" using assms(1) by simp
  from distinct_map_eq [OF this z(1) assms(2) z(2)] z(3) show ?thesis by simp
qed

lemma greedy_Cons_mem:
  assumes "distinct (map bid_id (x # bs))" "y \<in> set bs"
    and "bid_id y \<in> set (greedy a slots used sel (x # bs))" "bid_task_id y = bid_task_id x"
  shows "bid_id x \<notin> set (greedy a slots used sel (x # bs))"
proof
  assume "bid_id x \<in> set (greedy a slots used sel (x # bs))"
  with assms(1) have adm: "admissible a slots used sel x" by (rule greedy_head_notin)
  moreover have "bid_id y \<noteq> bid_id x" by (rule distinct_map_head [OF assms(1,2)])
  ultimately have "bid_id y \<in> set (greedy a (map_option (\<lambda>k. k - 1) slots)
      (vector_add used (from_request (request_of x))) (bid_task_id x # sel) bs)"
    using assms(3) by simp
  from greedy_tail_task [OF assms(1,2) this] assms(4) show False by simp
qed

lemma greedy_one_per_task:
  assumes "distinct (map bid_id bs)" "b \<in> set bs" "c \<in> set bs" "bid_task_id b = bid_task_id c"
    and "bid_id b \<in> set (greedy a slots used sel bs)" "bid_id c \<in> set (greedy a slots used sel bs)"
  shows "b = c"
  using assms
proof (induction bs arbitrary: slots used sel)
  case (Cons x bs)
  have dist: "distinct (map bid_id bs)" using Cons.prems(1) by simp
  consider "b = x" "c = x" | "b = x" "c \<in> set bs" | "b \<in> set bs" "c = x" | "b \<in> set bs" "c \<in> set bs"
    using Cons.prems(2,3) by auto
  then show ?case
  proof cases
    case 2
    with greedy_Cons_mem [OF Cons.prems(1) 2(2) Cons.prems(6)] Cons.prems(4,5) show ?thesis by simp
  next
    case 3
    with greedy_Cons_mem [OF Cons.prems(1) 3(1) Cons.prems(5)] Cons.prems(4,6) show ?thesis by simp
  next
    case 4
    have "bid_id b \<noteq> bid_id x" "bid_id c \<noteq> bid_id x" using distinct_map_head [OF Cons.prems(1)] 4 by blast+
    then have "\<exists>sl us se. bid_id b \<in> set (greedy a sl us se bs) \<and> bid_id c \<in> set (greedy a sl us se bs)"
      using Cons.prems(5,6) by (cases "admissible a slots used sel x") auto
    then show ?thesis using Cons.IH [OF dist 4 Cons.prems(4)] by blast
  qed simp
qed simp

section \<open>The statuses the loop leaves\<close>

lemma loop_keeps_decided:
  assumes "store_inv s" "find_bid s i = Some r" "\<not> is_due now r" "status r \<noteq> Pending"
  shows "find_bid (fst (auction_loop a cr now rank items st s)) i = Some r"
  using assms
proof (induction items arbitrary: rank st s)
  case (Cons item items)
  let ?d = "decision_of a cr rank item (judge a st (ranked_of item))"
  let ?j = "bid_id (ranked_of item)"
  have d: "d_status ?d \<in> {Accepted, Rejected}" using judge_status by (simp add: decision_of_def)
  have keep: "find_bid (fst (decide ?j ?d now s)) i = Some r"
  proof (cases "find_bid s ?j")
    case None
    with d Cons.prems show ?thesis by (auto simp: decide_def Let_def)
  next
    case (Some q)
    show ?thesis
    proof (cases "status q = Pending")
      case True
      with Cons.prems Some have "i \<noteq> ?j" by auto
      with decide_spec(2) [OF Cons.prems(1) Some True d] Cons.prems show ?thesis by simp
    next
      case False
      with d Cons.prems Some show ?thesis by (auto simp: decide_def Let_def)
    qed
  qed
  have "store_inv (fst (decide ?j ?d now s))" using edits_inv [OF Cons.prems(1) decide_edits] .
  with Cons.IH keep Cons.prems(3,4) keep show ?case
    by (auto simp: Let_def split: prod.split sum.split)
qed simp

lemma loop_status:
  assumes "store_inv s" "sound_usage used"
    and "ledger st = from_capacity (node_resources a) used" and "0 < reservation_ttl s"
    and "\<And>b. b \<in> ranked_of ` set items \<Longrightarrow>
      (\<exists>r. find_bid s (bid_id b) = Some r \<and> status r = Pending) \<and> wf_resource_request (request_of b)"
    and "distinct (map (\<lambda>item. bid_id (ranked_of item)) items)" and "b \<in> ranked_of ` set items"
  shows "\<exists>r. find_bid (fst (auction_loop a cr now rank items st s)) (bid_id b) = Some r
    \<and> (if bid_id b \<in> set (greedy a (slots_left st) used (selected_task_ids st) (map ranked_of items))
       then status r = Accepted \<and> reservation_expires_at r = Some (now + reservation_ttl s)
       else status r = Rejected)"
  using assms
proof (induction items arbitrary: rank st s used)
  case Nil
  then show ?case by simp
next
  case (Cons item items)
  let ?b = "ranked_of item"
  let ?v = "judge a st ?b"
  let ?d = "decision_of a cr rank item ?v"
  let ?s = "fst (decide (bid_id ?b) ?d now s)"
  let ?st = "settle st ?b ?v"
  let ?adm = "admissible a (slots_left st) used (selected_task_ids st) ?b"
  let ?used = "if ?adm then vector_add used (from_request (request_of ?b)) else used"
  have d: "d_status ?d = v_status ?v" "d_status ?d \<in> {Accepted, Rejected}"
    using judge_status [of a st ?b] by (simp_all add: decision_of_def)
  have "?b \<in> ranked_of ` set (item # items)" by simp
  with Cons.prems(5) obtain r where r: "find_bid s (bid_id ?b) = Some r" "status r = Pending"
    and wf: "wf_resource_request (request_of ?b)" by blast
  note spec = decide_spec [OF Cons.prems(1) r d(2), of now]
  have step: "auction_loop a cr now rank (item # items) st s = auction_loop a cr now (Suc rank) items ?st ?s"
    using spec(1) by (cases "decide (bid_id ?b) ?d now s") simp
  have acc: "v_status ?v = (if ?adm then Accepted else Rejected)"
    using judge_accepts_iff [OF Cons.prems(2,3) wf] judge_status [of a st ?b] by auto
  have sound: "sound_usage ?used" and led: "ledger ?st = from_capacity (node_resources a) ?used"
    and sel: "slots_left ?st = (if ?adm then map_option (\<lambda>k. k - 1) (slots_left st) else slots_left st)"
      "selected_task_ids ?st = (if ?adm then bid_task_id ?b # selected_task_ids st else selected_task_ids st)"
    using sound_usage_add [OF Cons.prems(2) wf] ledger_mirrors [OF wf]
      Cons.prems(2,3) acc
    by (auto simp: admissible_def settle_def)
  have ttl: "reservation_ttl ?s = reservation_ttl s"
    using r d(2) by (auto simp: decide_def Let_def)
  have inv: "store_inv ?s" using edits_inv [OF Cons.prems(1) decide_edits] .
  have dist: "distinct (map (\<lambda>item. bid_id (ranked_of item)) items)"
    "\<And>c. c \<in> ranked_of ` set items \<Longrightarrow> bid_id c \<noteq> bid_id ?b"
    using Cons.prems(6) distinct_map_head [OF Cons.prems(6)] by auto
  have mem: "(\<exists>r. find_bid ?s (bid_id c) = Some r \<and> status r = Pending) \<and> wf_resource_request (request_of c)"
    if "c \<in> ranked_of ` set items" for c
  proof -
    from that Cons.prems(5) [of c] obtain q where q: "find_bid s (bid_id c) = Some q" "status q = Pending"
      "wf_resource_request (request_of c)" by auto
    have "\<not> is_due now q" using q(2) by (auto simp: is_due_def)
    with q dist(2) [OF that] show ?thesis by (simp add: spec(2))
  qed
  have eq: "set (greedy a (slots_left st) used (selected_task_ids st) (map ranked_of (item # items)))
     = (if ?adm then {bid_id ?b} else {})
       \<union> set (greedy a (slots_left ?st) ?used (selected_task_ids ?st) (map ranked_of items))"
    by (auto simp: sel)
  show ?case
  proof (cases "b \<in> ranked_of ` set items")
    case True
    have memeq: "bid_id b \<in> (if ?adm then {bid_id ?b} else {}) \<union> X \<longleftrightarrow> bid_id b \<in> X" for X
      using dist(2) [OF True] by simp
    have "0 < reservation_ttl ?s" using Cons.prems(4) ttl by simp
    from Cons.IH [OF inv sound led this mem dist(1) True, of "Suc rank"]
    show ?thesis unfolding step eq memeq ttl .
  next
    case False
    with Cons.prems(7) have b: "b = ?b" by auto
    have new: "bid_id ?b \<notin> set (greedy a (slots_left ?st) ?used (selected_task_ids ?st) (map ranked_of items))"
      using greedy_sub [of a "slots_left ?st" ?used "selected_task_ids ?st" "map ranked_of items"] dist(2)
      by fastforce
    let ?r' = "decided_record ?d now (reservation_ttl s) r"
    have st: "status ?r' = v_status ?v" "v_status ?v = Accepted \<Longrightarrow> reservation_expires_at ?r' = Some (now + reservation_ttl s)"
      using d(1) by (simp_all add: decided_record_def)
    have "find_bid (fst (auction_loop a cr now (Suc rank) items ?st ?s)) (bid_id ?b) = Some ?r'"
    proof (rule loop_keeps_decided [OF inv])
      show "find_bid ?s (bid_id ?b) = Some ?r'" by (simp add: spec(2))
      show "\<not> is_due now ?r'" "status ?r' \<noteq> Pending"
        using Cons.prems(4) st acc by (auto simp: is_due_def split: if_splits)
    qed
    with b new st acc show ?thesis unfolding step eq by (auto split: if_splits)
  qed
qed

section \<open>The whole step\<close>

lemma report_ok:
  assumes "store_inv s" "\<And>b. b \<in> ranked_of ` set items \<Longrightarrow> \<exists>r. find_bid s (bid_id b) = Some r"
  shows "snd (report_loop clock k items s) = Inr () \<and> covered {} s (fst (report_loop clock k items s))
    \<and> store_inv (fst (report_loop clock k items s))"
  using assms
proof (induction items arbitrary: k s)
  case (Cons item items)
  let ?s = "fst (expire_locked (clock k) s)"
  obtain r where "find_bid s (bid_id (ranked_of item)) = Some r" using Cons.prems(2) by auto
  then have step: "report_loop clock k (item # items) s = report_loop clock (Suc k) items ?s"
    by (simp add: get_bid_def Let_def)
  have "\<exists>r. find_bid ?s (bid_id b) = Some r" if "b \<in> ranked_of ` set items" for b
    using Cons.prems(2) [of b] that by auto
  from Cons.IH [OF store_inv_expire [OF Cons.prems(1)] this, of "Suc k"]
  show ?case unfolding step using covered_trans [OF covered_expire] by fastforce
qed simp

lemma covered_found: "covered A s s' \<Longrightarrow> (\<exists>r. find_bid s' i = Some r) \<longleftrightarrow> (\<exists>r. find_bid s i = Some r)"
  unfolding covered_def by (metis option.rel_distinct(1) option.rel_distinct(2) not_Some_eq)

text \<open>
  The admissions of an auction over a window, as the specification computes them from the state of
  the leases when the free capacity is read.
\<close>

definition auction_ranking ::
  "arbiter \<Rightarrow> datetime \<Rightarrow> bid_record list \<Rightarrow> bid_store \<Rightarrow> bid_record list" where
  "auction_ranking a now window s =
     map ranked_of (rank_bids window (arbiter_strategy a) (credits s) (node_resources a)
       (arbiter_policy a) now)"

definition auction_plan ::
  "arbiter \<Rightarrow> nat \<Rightarrow> task_resource_request list \<Rightarrow> datetime \<Rightarrow> bid_record list \<Rightarrow> bid_store \<Rightarrow> string list" where
  "auction_plan a n owned now window s =
     greedy a (available_slots (slot_capacity a) n (length (reservations_of s)))
       (used_resources owned (reservations_of s)) [] (auction_ranking a now window s)"

lemma used_resources_select:
  assumes "store_inv s"
  shows "rv_cpu_cores (used_resources owned (reservations_of s))
      = sum_list (map cpu_cores owned) + (\<Sum>i\<in>active_ids s. cpu_cores (request_at s i))"
    "rv_memory_mb (used_resources owned (reservations_of s))
      = sum_list (map memory_mb owned) + (\<Sum>i\<in>active_ids s. memory_mb (request_at s i))"
    "rv_gpu_count (used_resources owned (reservations_of s))
      = sum_list (map gpu_count owned) + (\<Sum>i\<in>active_ids s. gpu_count (request_at s i))"
  using reservation_sum [OF assms, of cpu_cores] reservation_sum [OF assms, of memory_mb]
    reservation_sum [OF assms, of gpu_count]
  by (simp_all add: used_resources_def sum_requests_append sum_requests_select comp_def)

definition owned_ok :: "task_resource_request list \<Rightarrow> bool" where
  "owned_ok owned = (\<forall>q \<in> set owned. wf_resource_request q)"

text \<open>What the arbiter is given; a node is ready for admissions when, besides, what it uses fits.\<close>

definition market_ready :: "arbiter \<Rightarrow> task_resource_request list \<Rightarrow> bid_store \<Rightarrow> bool" where
  "market_ready a owned s \<longleftrightarrow> store_inv s \<and> requests_wf s \<and> owned_ok owned \<and> wf_auction_policy (arbiter_policy a)"

definition admission_ready ::
  "arbiter \<Rightarrow> task_resource_request list \<Rightarrow> bid_store \<Rightarrow> bool" where
  "admission_ready a owned s \<longleftrightarrow> store_inv s \<and> requests_wf s \<and> owned_ok owned
     \<and> wf_auction_policy (arbiter_policy a)
     \<and> fits_capacity (used_resources owned (reservations_of s)) (node_resources a)"

lemma ready_market: "admission_ready a owned s \<Longrightarrow> market_ready a owned s"
  by (simp add: admission_ready_def market_ready_def)

lemma demand_nonneg:
  assumes "requests_wf s"
  shows "0 \<le> cpu_cores (request_at s i)" "0 \<le> memory_mb (request_at s i)" "0 \<le> gpu_count (request_at s i)"
  using request_at_wf [OF assms, of i] by (simp_all add: wf_resource_request_def)

lemma ready_sound_usage:
  assumes "market_ready a owned s"
  shows "sound_usage (used_resources owned (reservations_of s))"
proof -
  have own: "0 \<le> sum_list (map cpu_cores owned)" "0 \<le> sum_list (map memory_mb owned)"
    "0 \<le> sum_list (map gpu_count owned)"
    using assms
    by (auto simp: market_ready_def owned_ok_def wf_resource_request_def less_imp_le
        intro!: sum_list_nonneg)
  have "requests_wf s" "store_inv s" using assms by (simp_all add: market_ready_def)
  with own assms show ?thesis
    by (auto simp: sound_usage_def used_resources_select demand_nonneg
        intro!: add_nonneg_nonneg sum_nonneg)
qed

lemma covered_market:
  assumes "market_ready a owned s" "covered {} s s'" "store_inv s'"
  shows "market_ready a owned s'"
  using assms covered_request(2) [OF assms(2)] by (simp add: market_ready_def)

text \<open>Fewer leases leave the node ready, with no larger demand.\<close>

lemma covered_ready:
  assumes "admission_ready a owned s" "covered {} s s'" "store_inv s'"
  shows "admission_ready a owned s'"
    "length (reservations_of s') \<le> length (reservations_of s)"
proof -
  have inv: "store_inv s" and wf: "requests_wf s" using assms(1) by (simp_all add: admission_ready_def)
  have "fits_capacity (used_resources owned (reservations_of s')) (node_resources a)"
    by (rule fits_capacity_mono [where b = "used_resources owned (reservations_of s)"])
       (use assms(1) covered_sum [OF assms(2), of cpu_cores] covered_sum [OF assms(2), of memory_mb]
          covered_sum [OF assms(2), of gpu_count] demand_nonneg [OF wf]
        in \<open>simp_all add: admission_ready_def used_resources_select inv assms(3)\<close>)
  then show "admission_ready a owned s'"
    using assms covered_request(2) [OF assms(2)] by (simp add: admission_ready_def)
  show "length (reservations_of s') \<le> length (reservations_of s)"
    using assms(2) by (simp add: length_reservations inv assms(3) covered_def card_mono)
qed

lemma greedy_step_bounds:
  assumes ready: "admission_ready a owned s" and inv': "store_inv s'"
    and cov: "covered (set (auction_plan a n owned now window s)) s s'"
    and window: "\<And>b. b \<in> set window \<Longrightarrow> request_at s (bid_id b) = request_of b"
    and dist: "distinct (map bid_id window)"
  shows "fits_capacity (used_resources owned (reservations_of s')) (node_resources a)"
    and "slot_capacity a = Some c \<Longrightarrow>
      int n + int (length (reservations_of s')) \<le> max c (int n + int (length (reservations_of s)))"
proof -
  let ?g = "auction_plan a n owned now window s"
  let ?bs = "auction_ranking a now window s"
  let ?used = "used_resources owned (reservations_of s)"
  have inv: "store_inv s" and wf: "requests_wf s" and fits: "fits_capacity ?used (node_resources a)"
    using ready by (simp_all add: admission_ready_def)
  have mset_bs: "mset ?bs = mset window"
    unfolding auction_ranking_def by (rule mset_rank_bids)
  have set_bs: "set ?bs = set window" by (simp add: auction_ranking_def)
  have dist_bs: "distinct (map bid_id ?bs)"
    using dist mset_bs by (metis mset_map mset_eq_imp_distinct_iff)
  have dist_g: "distinct ?g"
    using greedy_distinct [OF dist_bs] by (simp add: auction_plan_def)
  have sum: "(\<Sum>i\<in>active_ids s'. f (request_at s' i))
      \<le> (\<Sum>i\<in>active_ids s. f (request_at s i)) + sum_list (map (\<lambda>i. f (request_at s i)) ?g)"
    if nn: "\<And>i. 0 \<le> f (request_at s i)" for f :: "task_resource_request \<Rightarrow> 'b::linordered_idom"
  proof -
    have "(\<Sum>i\<in>set ?g - active_ids s. f (request_at s i)) \<le> (\<Sum>i\<in>set ?g. f (request_at s i))"
      using nn by (intro sum_mono2) auto
    also have "\<dots> = sum_list (map (\<lambda>i. f (request_at s i)) ?g)"
      using dist_g by (simp add: sum_list_distinct_conv_sum_set)
    finally have le: "(\<Sum>i\<in>set ?g - active_ids s. f (request_at s i)) \<le> sum_list (map (\<lambda>i. f (request_at s i)) ?g)" .
    from nn have "(\<Sum>i\<in>active_ids s'. f (request_at s' i))
        \<le> (\<Sum>i\<in>active_ids s. f (request_at s i)) + (\<Sum>i\<in>set ?g - active_ids s. f (request_at s i))"
      using covered_sum [OF cov, of f] by simp
    with le show ?thesis by linarith
  qed
  have total: "fits_capacity (vector_add ?used (sum_requests (map (request_at s) ?g))) (node_resources a)"
    unfolding auction_plan_def using fits window set_bs request_at_wf [OF wf] by (intro greedy_fits) metis+
  show "fits_capacity (used_resources owned (reservations_of s')) (node_resources a)"
    by (rule fits_capacity_mono [OF total])
       (use sum [of cpu_cores] sum [of memory_mb] sum [of gpu_count] demand_nonneg [OF wf]
        in \<open>simp_all add: used_resources_select inv inv' sum_requests_select comp_def\<close>)
  assume c: "slot_capacity a = Some c"
  have "int (length ?g) \<le> max 0 (c - int n - int (length (reservations_of s)))"
    unfolding auction_plan_def available_slots_def c option.case by (rule greedy_slots) simp
  moreover have "int (card (active_ids s')) \<le> int (card (active_ids s)) + int (length ?g)"
    using sum [of "\<lambda>_. 1 :: int"] by (simp add: sum_list_triv)
  ultimately show "int n + int (length (reservations_of s')) \<le> max c (int n + int (length (reservations_of s)))"
    by (simp add: length_reservations inv inv')
qed

lemma report_keeps:
  "find_bid s i = Some r \<Longrightarrow> \<forall>k. \<not> is_due (clock k) r \<Longrightarrow>
   find_bid (fst (report_loop clock k items s)) i = Some r"
  by (induction items arbitrary: k s) (auto simp: get_bid_def Let_def split: option.split)

lemma restyled_bid:
  assumes "restyles s s'" "find_bid s i = Some r"
  obtains r' where "find_bid s' i = Some r'" "status r' = status r"
    "reservation_expires_at r' = reservation_expires_at r"
proof -
  have "rel_option recredited (find_bid s i) (find_bid s' i)" using assms(1) by (simp add: restyles_def)
  with assms(2) that show thesis by (auto simp: option_rel_Some1 recredited_select)
qed

lemma hold_auction_eq:
  assumes "s1 = fst (expire_locked (clock 1) s)"
    and "ranked = rank_bids window (arbiter_strategy a) (credits s) (node_resources a) (arbiter_policy a) now"
    and "st = start_state (available_slots (slot_capacity a) n (length (reservations_of s1)))
               (from_capacity (node_resources a) (used_resources owned (reservations_of s1)))"
    and "auction_loop a (credits s) now 1 ranked st s1 = (s2, Inr st')"
    and "s3 = apply_credit_outcomes (accepted_ids st') (competition_rejected_ids st')
      (credit_increment (arbiter_policy a)) (credit_max (arbiter_policy a))
      (accepted_credit_decay (arbiter_policy a)) s2"
  shows "hold_auction a n owned now clock window s =
    (fst (report_loop clock 2 ranked s3),
     case snd (report_loop clock 2 ranked s3) of Inl e \<Rightarrow> Inl e | Inr _ \<Rightarrow> Inr True)"
  using assms(4,5) unfolding hold_auction_def available_resources_def active_reservations_def Let_def
    assms(1-3) by (simp add: case_prod_unfold)

lemma hold_auction_spec:
  fixes clock :: "nat \<Rightarrow> datetime" and now :: datetime and n :: nat
  assumes ready: "market_ready a owned s" and dist: "distinct (map bid_id window)"
    and window: "\<And>b. b \<in> set window \<Longrightarrow> find_bid s (bid_id b) = Some b \<and> status b = Pending"
  defines "s1 \<equiv> fst (expire_locked (clock 1) s)"
  defines "s' \<equiv> fst (hold_auction a n owned now clock window s)"
    and "g \<equiv> auction_plan a n owned now window (fst (expire_locked (clock 1) s))"
  shows "snd (hold_auction a n owned now clock window s) = Inr True" "store_inv s'" "covered (set g) s1 s'"
    and "\<And>b. b \<in> set window \<Longrightarrow> 0 < reservation_ttl s \<Longrightarrow> \<forall>k. clock k < now + reservation_ttl s \<Longrightarrow>
      \<exists>r. find_bid s' (bid_id b) = Some r \<and> status r = (if bid_id b \<in> set g then Accepted else Rejected)"
proof -
  let ?cr = "credits s"
  let ?ranked = "rank_bids window (arbiter_strategy a) ?cr (node_resources a) (arbiter_policy a) now"
  let ?used = "used_resources owned (reservations_of s1)"
  let ?st = "start_state (available_slots (slot_capacity a) n (length (reservations_of s1)))
               (from_capacity (node_resources a) ?used)"
  let ?loop = "auction_loop a ?cr now 1 ?ranked ?st s1"
  have inv: "store_inv s" and wf: "requests_wf s" and pol: "wf_auction_policy (arbiter_policy a)"
    using ready by (simp_all add: market_ready_def)
  have inv1: "store_inv s1" unfolding s1_def by (rule store_inv_expire [OF inv])
  have sound: "sound_usage ?used"
    using covered_market [OF ready covered_expire] inv1 unfolding s1_def by (blast intro: ready_sound_usage)
  have g: "g = greedy a (slots_left ?st) ?used (selected_task_ids ?st) (map ranked_of ?ranked)"
    by (simp add: g_def auction_plan_def auction_ranking_def start_state_def s1_def)
  have led: "ledger ?st = from_capacity (node_resources a) ?used" by (simp add: start_state_def)
  have live: "find_bid s1 (bid_id b) = Some b \<and> status b = Pending \<and> wf_resource_request (request_of b)"
    if "b \<in> set window" for b
  proof -
    have "\<not> is_due (clock 1) b" using window [OF that] by (auto simp: is_due_def)
    with window [OF that] wf show ?thesis by (auto simp: s1_def requests_wf_def)
  qed
  have mem: "(\<exists>r. find_bid s1 (bid_id b) = Some r \<and> status r = Pending) \<and> wf_resource_request (request_of b)"
    "(\<exists>r. find_bid s1 (bid_id b) = Some r) \<and> wf_resource_request (request_of b)"
    if "b \<in> ranked_of ` set ?ranked" for b
    using live [of b] that by auto
  have loop_facts: "store_inv (fst ?loop) \<and> covered (set g) s1 (fst ?loop)
      \<and> (\<exists>st'. snd ?loop = Inr st' \<and> accepted_ids st' = accepted_ids ?st @ g)"
    unfolding g by (rule loop_greedy [OF inv1 sound led mem(2)])
  from loop_facts [THEN conjunct2, THEN conjunct2] obtain st' where st': "snd ?loop = Inr st'"
    by (elim exE conjE)
  note loop = loop_facts [THEN conjunct1] loop_facts [THEN conjunct2, THEN conjunct1] st'
  let ?s3 = "apply_credit_outcomes (accepted_ids st') (competition_rejected_ids st')
    (credit_increment (arbiter_policy a)) (credit_max (arbiter_policy a))
    (accepted_credit_decay (arbiter_policy a)) (fst ?loop)"
  have 3: "store_inv ?s3" "restyles (fst ?loop) ?s3"
    using credit_outcomes_ok [OF loop(1)] pol by (simp_all add: wf_auction_policy_def)
  have cov3: "covered (set g) s1 ?s3"
    using covered_trans [OF loop(2) covered_restyles [OF 3(2)]] by simp
  have there: "\<exists>r. find_bid ?s3 (bid_id b) = Some r" if "b \<in> ranked_of ` set ?ranked" for b
    using covered_found [OF cov3] mem(2) [OF that] by blast
  have report: "snd (report_loop clock 2 ?ranked ?s3) = Inr ()
      \<and> covered {} ?s3 (fst (report_loop clock 2 ?ranked ?s3))
      \<and> store_inv (fst (report_loop clock 2 ?ranked ?s3))"
    by (rule report_ok [OF 3(1) there])
  have eq: "hold_auction a n owned now clock window s
      = (fst (report_loop clock 2 ?ranked ?s3),
         case snd (report_loop clock 2 ?ranked ?s3) of Inl e \<Rightarrow> Inl e | Inr _ \<Rightarrow> Inr True)"
  proof (rule hold_auction_eq)
    show "s1 = fst (expire_locked (clock 1) s)" by (simp only: s1_def)
    show "?loop = (fst ?loop, Inr st')" using loop(3) by (metis prod.collapse)
  qed (rule refl)+
  show "snd (hold_auction a n owned now clock window s) = Inr True"
    using report by (simp add: eq)
  show "store_inv s'" using report by (simp add: s'_def eq)
  show "covered (set g) s1 s'"
    using covered_trans [OF cov3] report by (fastforce simp: s'_def eq)
  fix b assume b: "b \<in> set window" and ttl: "0 < reservation_ttl s"
    and clk: "\<forall>k. clock k < now + reservation_ttl s"
  have ttl1: "reservation_ttl s1 = reservation_ttl s" by (simp add: s1_def)
  have "distinct (map bid_id (map ranked_of ?ranked))"
    using dist mset_rank_bids by (metis mset_map mset_eq_imp_distinct_iff)
  then have dist': "distinct (map (\<lambda>item. bid_id (ranked_of item)) ?ranked)" by (simp add: comp_def)
  have in_ranked: "b \<in> ranked_of ` set ?ranked" using b by simp
  have "\<exists>r. find_bid (fst ?loop) (bid_id b) = Some r
      \<and> (if bid_id b \<in> set g
         then status r = Accepted \<and> reservation_expires_at r = Some (now + reservation_ttl s1)
         else status r = Rejected)"
    unfolding g by (rule loop_status [OF inv1 sound led ttl [folded ttl1] mem(1) dist' in_ranked])
  then obtain r where r: "find_bid (fst ?loop) (bid_id b) = Some r"
    "if bid_id b \<in> set g then status r = Accepted \<and> reservation_expires_at r = Some (now + reservation_ttl s)
     else status r = Rejected"
    unfolding ttl1 by blast
  from restyled_bid [OF 3(2) r(1)] obtain r' where r': "find_bid ?s3 (bid_id b) = Some r'"
    "status r' = status r" "reservation_expires_at r' = reservation_expires_at r" .
  have "\<forall>k. \<not> is_due (clock k) r'"
    using r(2) r'(2,3) clk by (auto simp: is_due_def not_le split: if_splits)
  from report_keeps [OF r'(1) this]
  have "find_bid s' (bid_id b) = Some r'" by (simp add: s'_def eq)
  with r(2) r'(2) show "\<exists>r. find_bid s' (bid_id b) = Some r
      \<and> status r = (if bid_id b \<in> set g then Accepted else Rejected)"
    by (auto split: if_splits)
qed

definition pending_bids :: "datetime \<Rightarrow> datetime \<Rightarrow> bid_store \<Rightarrow> bid_record list" where
  "pending_bids now wall s = snd (pending_records wall (fst (expire_locked now s)))"

definition settled_store :: "datetime \<Rightarrow> datetime \<Rightarrow> bid_store \<Rightarrow> bid_store" where
  "settled_store now wall s = fst (expire_locked wall (fst (expire_locked now s)))"

lemma run_once_eq:
  "run_once a n owned now clock s =
     (let pending = pending_bids now (clock 0) s; s2 = settled_store now (clock 0) s
      in if pending = [] \<or> now < received_at (hd pending) + bid_window_seconds a
         then (s2, Inr (snd (expire_locked now s) \<noteq> []))
         else hold_auction a n owned now clock (window_of a pending) s2)"
  unfolding run_once_def pending_bids_def settled_store_def
  by (auto simp: Let_def case_prod_unfold)

lemma settled_ok:
  assumes "store_inv s"
  shows "store_inv (settled_store now wall s)" "covered {} s (settled_store now wall s)"
    "reservation_ttl (settled_store now wall s) = reservation_ttl s"
  using store_inv_expire [OF store_inv_expire [OF assms]]
    covered_trans [OF covered_expire [of s now] covered_expire [of _ wall]]
  by (simp_all add: settled_store_def)

lemma expire_pending: "status r = Pending \<Longrightarrow> expire_record t r = r"
  by (simp add: expire_record_def is_due_def)

lemma expire_pendingD: "expire_record t r = b \<Longrightarrow> status b = Pending \<Longrightarrow> r = b"
  by (auto simp: expire_record_def split: if_splits)

lemma pending_bids_ok:
  assumes "store_inv s"
  shows "distinct (map bid_id (pending_bids now wall s))"
    and "set (pending_bids now wall s) = {b. find_bid s (bid_id b) = Some b \<and> status b = Pending}"
    and "b \<in> set (pending_bids now wall s) \<Longrightarrow>
      find_bid (settled_store now wall s) (bid_id b) = Some b \<and> status b = Pending"
proof -
  let ?s = "settled_store now wall s"
  have inv: "store_inv ?s" by (rule settled_ok [OF assms])
  have eq: "pending_bids now wall s = sort_key received_at (filter (\<lambda>r. status r = Pending)
      (rev (sort_key received_at (rev (bids_of ?s)))))"
    by (simp add: pending_bids_def pending_records_def list_records_def settled_store_def Let_def)
  have "distinct (bids_of ?s)" "inj_on bid_id (set (bids_of ?s))"
    using distinct_bids [OF inv] by (simp_all add: distinct_map)
  then show "distinct (map bid_id (pending_bids now wall s))"
    unfolding eq by (auto simp: distinct_map intro: inj_on_subset)
  have mem: "b \<in> set (bids_of ?s) \<longleftrightarrow> find_bid ?s (bid_id b) = Some b" for b
  proof
    assume "b \<in> set (bids_of ?s)"
    then obtain i where "find_bid ?s i = Some b" by (auto simp: bids_of_def find_bid_iff [OF inv])
    with store_invD(1) [OF inv this] show "find_bid ?s (bid_id b) = Some b" by simp
  next
    assume "find_bid ?s (bid_id b) = Some b"
    then show "b \<in> set (bids_of ?s)" by (force simp: bids_of_def find_bid_iff [OF inv])
  qed
  show "find_bid ?s (bid_id b) = Some b \<and> status b = Pending" if "b \<in> set (pending_bids now wall s)"
    using that mem by (simp add: eq)
  have "find_bid ?s (bid_id b) = Some b \<and> status b = Pending \<longleftrightarrow> find_bid s (bid_id b) = Some b \<and> status b = Pending" for b
  proof
    assume L: "find_bid ?s (bid_id b) = Some b \<and> status b = Pending"
    then obtain r where r: "find_bid s (bid_id b) = Some r" "expire_record wall (expire_record now r) = b"
      unfolding settled_store_def by auto
    from expire_pendingD [OF r(2)] L have "expire_record now r = b" by simp
    from expire_pendingD [OF this] L have "r = b" by simp
    with r L show "find_bid s (bid_id b) = Some b \<and> status b = Pending" by simp
  next
    assume "find_bid s (bid_id b) = Some b \<and> status b = Pending"
    then show "find_bid ?s (bid_id b) = Some b \<and> status b = Pending"
      by (simp add: settled_store_def expire_pending del: expire_record_select)
  qed
  with mem show "set (pending_bids now wall s) = {b. find_bid s (bid_id b) = Some b \<and> status b = Pending}"
    by (auto simp: eq)
qed

lemma window_sub: "set (window_of a pending) \<subseteq> set pending" "distinct (map bid_id pending) \<Longrightarrow>
    distinct (map bid_id (window_of a pending))"
  by (auto simp: window_of_def distinct_map_filter)

text \<open>Everything the later claims need of one step of the arbiter.\<close>

definition auction_due :: "arbiter \<Rightarrow> datetime \<Rightarrow> datetime \<Rightarrow> bid_store \<Rightarrow> bool" where
  "auction_due a now wall s \<longleftrightarrow> pending_bids now wall s \<noteq> []
     \<and> received_at (hd (pending_bids now wall s)) + bid_window_seconds a \<le> now"

definition admitted ::
  "arbiter \<Rightarrow> nat \<Rightarrow> task_resource_request list \<Rightarrow> datetime \<Rightarrow> (nat \<Rightarrow> datetime) \<Rightarrow> bid_store \<Rightarrow> string list" where
  "admitted a n owned now clock s =
     (if auction_due a now (clock 0) s
      then auction_plan a n owned now (window_of a (pending_bids now (clock 0) s))
             (fst (expire_locked (clock 1) (settled_store now (clock 0) s)))
      else [])"

lemma run_once_facts:
  fixes clock :: "nat \<Rightarrow> datetime" and now :: datetime and n :: nat
  assumes ready: "market_ready a owned s"
  defines "s1 \<equiv> fst (expire_locked (clock 1) (settled_store now (clock 0) s))"
  defines "s' \<equiv> fst (run_once a n owned now clock s)"
    and "window \<equiv> window_of a (pending_bids now (clock 0) s)"
  shows "is_ok (snd (run_once a n owned now clock s))" "store_inv s'" "market_ready a owned s1"
    "covered {} s s1" "auction_due a now (clock 0) s \<Longrightarrow> covered (set (admitted a n owned now clock s)) s1 s'"
    "\<not> auction_due a now (clock 0) s \<Longrightarrow> covered {} s s'"
    and "\<And>b. b \<in> set window \<Longrightarrow> auction_due a now (clock 0) s \<Longrightarrow> 0 < reservation_ttl s \<Longrightarrow>
      \<forall>k. clock k < now + reservation_ttl s \<Longrightarrow>
      \<exists>r. find_bid s' (bid_id b) = Some r
        \<and> status r = (if bid_id b \<in> set (admitted a n owned now clock s) then Accepted else Rejected)"
    and "distinct (map bid_id window)"
    and "\<And>b. b \<in> set window \<Longrightarrow> request_at s1 (bid_id b) = request_of b"
proof -
  let ?s2 = "settled_store now (clock 0) s"
  let ?p = "pending_bids now (clock 0) s"
  have inv: "store_inv s" using ready by (simp add: market_ready_def)
  note s2 = settled_ok [OF inv, of now "clock 0"]
  have ready2: "market_ready a owned ?s2" by (rule covered_market [OF ready s2(2,1)])
  have inv1: "store_inv s1" unfolding s1_def by (rule store_inv_expire [OF s2(1)])
  show "market_ready a owned s1"
    using covered_market [OF ready2 covered_expire] inv1 by (simp add: s1_def)
  show cov1: "covered {} s s1" using covered_trans [OF s2(2) covered_expire] by (simp add: s1_def)
  show dist: "distinct (map bid_id window)"
    using window_sub(2) pending_bids_ok(1) [OF inv] by (simp add: window_def)
  have live: "find_bid ?s2 (bid_id b) = Some b \<and> status b = Pending" if "b \<in> set window" for b
    using that window_sub(1) [of a ?p] pending_bids_ok(3) [OF inv] unfolding window_def by blast
  show "request_at s1 (bid_id b) = request_of b" if "b \<in> set window" for b
    using live [OF that] covered_request(1) [OF covered_expire, of "clock 1" ?s2 "bid_id b"]
    by (simp add: s1_def request_at_def)
  show "is_ok (snd (run_once a n owned now clock s))"
    using hold_auction_spec(1) [OF ready2 dist live]
    by (simp add: run_once_eq Let_def window_def)
  show "store_inv s'"
    using hold_auction_spec(2) [OF ready2 dist live] s2(1)
    by (simp add: s'_def run_once_eq Let_def window_def)
  show "covered {} s s'" if "\<not> auction_due a now (clock 0) s"
    using that s2(2) by (auto simp: s'_def run_once_eq auction_due_def Let_def)
  have eq: "s' = fst (hold_auction a n owned now clock window ?s2)" if "auction_due a now (clock 0) s"
    using that by (auto simp: s'_def run_once_eq auction_due_def window_def Let_def)
  have adm: "admitted a n owned now clock s = auction_plan a n owned now window s1"
    if "auction_due a now (clock 0) s"
    using that by (simp add: admitted_def window_def s1_def)
  show "covered (set (admitted a n owned now clock s)) s1 s'" if due: "auction_due a now (clock 0) s"
    unfolding eq [OF due] adm [OF due] s1_def by (rule hold_auction_spec(3) [OF ready2 dist live])
  fix b assume b: "b \<in> set window" and due: "auction_due a now (clock 0) s"
    and ttl: "0 < reservation_ttl s" "\<forall>k. clock k < now + reservation_ttl s"
  show "\<exists>r. find_bid s' (bid_id b) = Some r
      \<and> status r = (if bid_id b \<in> set (admitted a n owned now clock s) then Accepted else Rejected)"
    unfolding eq [OF due] adm [OF due] s1_def
    by (rule hold_auction_spec(4) [OF ready2 dist live b]) (use ttl s2(3) in simp_all)
qed

lemma run_once_ready:
  fixes clock :: "nat \<Rightarrow> datetime"
  assumes "admission_ready a owned s"
  shows "admission_ready a owned (fst (expire_locked (clock 1) (settled_store now (clock 0) s)))"
  by (rule covered_ready(1) [OF assms run_once_facts(4) [OF ready_market [OF assms]]])
     (use run_once_facts(3) [OF ready_market [OF assms], of clock now] in \<open>simp add: market_ready_def\<close>)

lemma run_once_slots:
  assumes "admission_ready a owned s" and "slot_capacity a = Some c"
  shows "int n + int (length (reservations_of (fst (run_once a n owned now clock s))))
    \<le> max c (int n + int (length (reservations_of s)))"
proof (cases "auction_due a now (clock 0) s")
  case False
  with run_once_facts(2,6) [OF ready_market [OF assms(1)]] show ?thesis
    using covered_ready(2) [OF assms(1)] by (fastforce intro: max.coboundedI2)
next
  case True
  let ?s1 = "fst (expire_locked (clock 1) (settled_store now (clock 0) s))"
  note inst = run_once_ready [OF assms(1), where now = now and clock = clock] run_once_facts(4,8,9) [OF ready_market [OF assms(1)], where now = now and clock = clock]
    run_once_facts(2,5) [OF ready_market [OF assms(1)], where now = now and clock = clock and n = n]
  have "int n + int (length (reservations_of (fst (run_once a n owned now clock s))))
      \<le> max c (int n + int (length (reservations_of ?s1)))"
    using inst(6) [OF True] True assms(2)
    by (intro greedy_step_bounds(2) [OF inst(1,5) _ inst(4,3)]) (simp_all add: admitted_def)
  moreover have "length (reservations_of ?s1) \<le> length (reservations_of s)"
    using inst(1) by (intro covered_ready(2) [OF assms(1) inst(2)]) (simp add: admission_ready_def)
  ultimately show ?thesis by linarith
qed

lemma run_once_resources:
  assumes "admission_ready a owned s"
  shows "fits_capacity (used_resources owned (reservations_of (fst (run_once a n owned now clock s))))
    (node_resources a)"
proof (cases "auction_due a now (clock 0) s")
  case False
  with run_once_facts(2,6) [OF ready_market [OF assms]] covered_ready(1) [OF assms] show ?thesis
    unfolding admission_ready_def by blast
next
  case True
  note inst = run_once_ready [OF assms, where now = now and clock = clock] run_once_facts(4,8,9) [OF ready_market [OF assms], where now = now and clock = clock]
    run_once_facts(2,5) [OF ready_market [OF assms], where now = now and clock = clock and n = n]
  show ?thesis
    using inst(6) [OF True] True
    by (intro greedy_step_bounds(1) [OF inst(1,5) _ inst(4,3)]) (simp_all add: admitted_def)
qed

end
