(* ===== verification/Bid_Arbiter_Claims.thy ===== *)
theory Bid_Arbiter_Claims
  imports Bid_Arbiter_Laws
begin

text \<open>The claims about one step of the arbiter, each applied to a concrete auction.\<close>

section \<open>A concrete auction\<close>

definition sample_arbiter :: arbiter where
  "sample_arbiter =
     \<lparr>local_node_id = ''b'', slot_capacity = Some 1, bid_window_seconds = 2,
      node_resources = \<lparr>capacity_cpu_cores = Some 4, capacity_memory_mb = None,
                        capacity_gpu_count = None, capacity_accelerator_types = {}\<rparr>,
      arbiter_policy = \<lparr>credit_increment = 1, credit_max = 5, accepted_credit_decay = 1 / 2,
                        deadline_urgency_window_seconds = 3600, resource_efficiency_floor = 1 / 100\<rparr>,
      node_capabilities = \<lparr>architecture = None, operating_system = None, cap_cpu_cores = None,
                           cap_memory_mb = None, cap_gpu_count = None, cap_accelerator_types = {},
                           commands = {}, runtimes = [], features = {}\<rparr>,
      arbiter_strategy = LowestScore\<rparr>"

text \<open>A second task bids half a second after the first; both ask for the default resources.\<close>

definition second_bid :: "task_id \<Rightarrow> bid_request" where
  "second_bid t = sample_bid\<lparr>bid_id := ''bid-2'', bid_task_id := t,
     candidate := sample_candidate\<lparr>score := 3 / 4\<rparr>\<rparr>"

definition contended_store :: "task_id \<Rightarrow> bid_store" where
  "contended_store t = fst (submit (second_bid t) (3 / 2) sample_pending)"

definition pending_record :: "bid_request \<Rightarrow> datetime \<Rightarrow> bid_record" where
  "pending_record b t =
     \<lparr>bid_id = bid_id b, epoch_id = epoch_id b, bid_task_id = bid_task_id b,
      task_context = task_context b, bid_source = bid_source b, bid_destination = bid_destination b,
      candidate = candidate b, submitted_at = submitted_at b, status = Pending, received_at = t,
      decided_at = None, bid_decision_reason = None, reservation_expires_at = None,
      activation_started_at = None, consumed_at = None, bid_strategy = None, auction_rank = None,
      auction_credit_before = 0, auction_credit_after = 0, resource_fit = None,
      compatibility_fit = None, compatibility_notes = [], auction_metrics = None\<rparr>"

lemma contended_records:
  "records (contended_store t) = [(''bid-1'', pending_record sample_bid 1), (''bid-2'', pending_record (second_bid t) (3 / 2))]"
  "reservation_ttl (contended_store t) = 180" "credits (contended_store t) = []"
  by (simp_all add: contended_store_def sample_pending_def submit_def sample_empty_def load_def Let_def
      find_bid_def sample_bid_def second_bid_def dict_put_def pending_record_def dict_get_def)

lemma contended_bids:
  "bids_of (contended_store t) = [pending_record sample_bid 1, pending_record (second_bid t) (3 / 2)]"
  by (simp add: bids_of_def contended_records)

lemma pending_record_select [simp]:
  "bid_id (pending_record b t) = bid_id b" "bid_task_id (pending_record b t) = bid_task_id b"
  "status (pending_record b t) = Pending" "received_at (pending_record b t) = t"
  "task_context (pending_record b t) = task_context b" "candidate (pending_record b t) = candidate b"
  by (simp_all add: pending_record_def)

lemma sample_ids [simp]:
  "bid_id sample_bid = ''bid-1''" "bid_id (second_bid t) = ''bid-2''" "bid_task_id sample_bid = ''t''"
  "bid_task_id (second_bid t) = t" "task_context sample_bid = None" "task_context (second_bid t) = None"
  "score (candidate sample_bid) = 1 / 2" "score (candidate (second_bid t)) = 3 / 4"
  by (simp_all add: sample_bid_def second_bid_def sample_candidate_def)

lemma sample_requests [simp]:
  "request_of (pending_record sample_bid t) = default_resource_request"
  "request_of (pending_record (second_bid u) t) = default_resource_request"
  by (simp_all add: request_of_def)

lemma contended_find:
  "find_bid (contended_store t) i =
     (if i = ''bid-1'' then Some (pending_record sample_bid 1)
      else if i = ''bid-2'' then Some (pending_record (second_bid t) (3 / 2)) else None)"
  by (simp add: find_bid_def contended_records dict_get_Cons)

lemma contended_ready: "admission_ready sample_arbiter [] (contended_store t)"
proof -
  have "store_inv (contended_store t)"
    unfolding contended_store_def by (rule submit_inv(1) [OF sample_inv(2)])
  moreover have "requests_wf (contended_store t)"
    by (auto simp: requests_wf_def contended_find split: if_splits)
  moreover have "reservations_of (contended_store t) = []"
    by (simp add: reservations_of_def contended_bids)
  ultimately show ?thesis
    by (simp add: admission_ready_def owned_ok_def wf_auction_policy_def sample_arbiter_def
        used_resources_def fits_capacity_def within_limit_def)
qed

lemma contended_settled: "settled_store now wall (contended_store t) = contended_store t"
proof -
  have *: "fst (expire_locked w (contended_store t)) = contended_store t" for w
    by (rule expire_nothing) (simp add: contended_bids is_due_def)
  then show ?thesis by (simp add: settled_store_def)
qed

lemma contended_pending:
  "pending_bids now wall (contended_store t) = [pending_record sample_bid 1, pending_record (second_bid t) (3 / 2)]"
proof -
  have *: "fst (expire_locked w (contended_store t)) = contended_store t" for w
    by (rule expire_nothing) (simp add: contended_bids is_due_def)
  show ?thesis
    by (simp add: pending_bids_def pending_records_def list_records_def * Let_def contended_bids)
qed

lemma contended_due: "auction_due sample_arbiter 10 wall (contended_store t)"
  by (simp add: auction_due_def contended_pending sample_arbiter_def)

lemma contended_window:
  "window_of sample_arbiter (pending_bids now wall (contended_store t))
     = [pending_record sample_bid 1, pending_record (second_bid t) (3 / 2)]"
  by (simp add: window_of_def contended_pending sample_arbiter_def)

section \<open>The claims\<close>

text \<open>
  An auction never over-commits the task slots of the node: whatever bids compete, the tasks
  the node owns and the leases it has granted stay within the configured capacity, or, where they
  exceeded it before, do not grow.
\<close>

theorem auction_never_overcommits_slots:
  assumes "admission_ready a owned s" and "slot_capacity a = Some c"
  shows "int n + int (length (reservations_of (fst (run_once a n owned now clock s))))
    \<le> max c (int n + int (length (reservations_of s)))"
  using run_once_slots [OF assms] .

theorem auction_never_overcommits_slots_witness:
  "length (reservations_of (fst (run_once sample_arbiter 0 [] 10 (\<lambda>_. 10) (contended_store ''u'')))) \<le> 1"
proof -
  have "slot_capacity sample_arbiter = Some 1" by (simp add: sample_arbiter_def)
  from auction_never_overcommits_slots [OF contended_ready this, of 0 10 "\<lambda>_. 10"]
  show ?thesis by (simp add: reservations_of_def contended_bids)
qed

text \<open>
  C10. An auction never over-commits configured resources: if the CPU, memory and GPU demand of the
  owned tasks and of the active leases fits the node before the step, the demand after it fits.
\<close>

theorem auction_never_overcommits_resources:
  assumes "admission_ready a owned s"
  shows "fits_capacity (used_resources owned (reservations_of (fst (run_once a n owned now clock s))))
    (node_resources a)"
  using run_once_resources [OF assms] .

theorem auction_never_overcommits_resources_witness:
  "rv_cpu_cores (used_resources []
     (reservations_of (fst (run_once sample_arbiter 0 [] 10 (\<lambda>_. 10) (contended_store ''u''))))) \<le> 4"
  using auction_never_overcommits_resources [OF contended_ready, of 0 10 "\<lambda>_. 10"]
  by (simp add: fits_capacity_def within_limit_def sample_arbiter_def)

text \<open>
  C1. When the window of an auction has closed, the step decides every bid of the window exactly
  as the greedy specification over the ranking says: the bids it admits are accepted, every other
  bid of the window is rejected; also on a node whose tasks and leases already exceed a limit.  The
  store is one its operations reach, the requests are well formed, and the clock readings of the
  step stay below the expiry of the leases it grants.
\<close>

theorem auction_implements_greedy:
  assumes "market_ready a owned s" and "auction_due a now (clock 0) s"
    and "b \<in> set (window_of a (pending_bids now (clock 0) s))"
    and "0 < reservation_ttl s" and "\<forall>k. clock k < now + reservation_ttl s"
  shows "\<exists>r. find_bid (fst (run_once a n owned now clock s)) (bid_id b) = Some r
    \<and> status r = (if bid_id b \<in> set (admitted a n owned now clock s) then Accepted else Rejected)"
  using run_once_facts(7) [OF assms(1,3,2,4,5)] .

lemma contended_ranking:
  "auction_ranking sample_arbiter 10 [pending_record sample_bid 1, pending_record (second_bid t) (3 / 2)] (contended_store t)
     = [pending_record sample_bid 1, pending_record (second_bid t) (3 / 2)]"
  by (simp add: auction_ranking_def rank_bids_def rank_one_def metrics_of_def deadline_metrics_def
      efficiency_of_def context_value_def Let_def sample_arbiter_def)

lemma contended_admitted: "admitted sample_arbiter 0 [] 10 (\<lambda>_. 10) (contended_store t) = [''bid-1'']"
proof -
  have none: "fst (expire_locked w (contended_store t)) = contended_store t" for w
    by (rule expire_nothing) (simp add: contended_bids is_due_def)
  have res: "reservations_of (contended_store t) = []" by (simp add: reservations_of_def contended_bids)
  have acc: "slot_capacity sample_arbiter = Some 1" by (simp add: sample_arbiter_def)
  have req: "requirements_of (pending_record sample_bid t) = default_requirements" for t
    by (simp add: requirements_of_def)
  show ?thesis
    using contended_due
    by (simp add: admitted_def auction_plan_def contended_window contended_settled none res acc
        contended_ranking available_slots_def used_resources_def admissible_def req
        accelerator_ok_def default_resource_request_def request_fits_def room_for_def
        sample_arbiter_def [THEN arg_cong [where f = node_resources]])
qed

theorem auction_implements_greedy_witness:
  "(\<exists>r. find_bid (fst (run_once sample_arbiter 0 [] 10 (\<lambda>_. 10) (contended_store ''u''))) ''bid-1'' = Some r
        \<and> status r = Accepted)
   \<and> (\<exists>r. find_bid (fst (run_once sample_arbiter 0 [] 10 (\<lambda>_. 10) (contended_store ''u''))) ''bid-2'' = Some r
        \<and> status r = Rejected)"
  using auction_implements_greedy [OF ready_market [OF contended_ready], where now = 10 and clock = "\<lambda>_. 10" and n = 0 and b = "pending_record sample_bid 1"]
    auction_implements_greedy [OF ready_market [OF contended_ready], where now = 10 and clock = "\<lambda>_. 10" and n = 0 and b = "pending_record (second_bid ''u'') (3 / 2)"]
  by (simp add: contended_due contended_window contended_records contended_admitted)

text \<open>
  Of several bids of one task in an auction window, at most one comes out with a lease.
\<close>

theorem one_lease_per_task:
  assumes "market_ready a owned s" and "auction_due a now (clock 0) s"
    and "b \<in> set (window_of a (pending_bids now (clock 0) s))"
    and "c \<in> set (window_of a (pending_bids now (clock 0) s))"
    and "b \<noteq> c" and "bid_task_id b = bid_task_id c"
    and "bid_id b \<in> active_ids (fst (run_once a n owned now clock s))"
  shows "bid_id c \<notin> active_ids (fst (run_once a n owned now clock s))"
proof -
  let ?s1 = "fst (expire_locked (clock 1) (settled_store now (clock 0) s))"
  let ?w = "window_of a (pending_bids now (clock 0) s)"
  note inst = run_once_facts(3,4,8,9) [OF assms(1), where now = now and clock = clock]
    run_once_facts(2,5) [OF assms(1), where now = now and clock = clock and n = n]
  have inv: "store_inv s" using assms(1) by (simp add: market_ready_def)
  have adm: "bid_id x \<in> set (auction_plan a n owned now ?w ?s1)"
    if "x \<in> set ?w" "bid_id x \<in> active_ids (fst (run_once a n owned now clock s))" for x
  proof -
    have "find_bid s (bid_id x) = Some x \<and> status x = Pending"
      using that(1) window_sub(1) pending_bids_ok(2) [OF inv] by blast
    then have "bid_id x \<notin> active_ids ?s1" using inst(2) by (fastforce simp: covered_def active_ids_def)
    with that(2) inst(6) [OF assms(2)] show ?thesis
      using assms(2) by (auto simp: covered_def admitted_def)
  qed
  have mset: "mset (auction_ranking a now ?w ?s1) = mset ?w"
    unfolding auction_ranking_def by (rule mset_rank_bids)
  then have "distinct (map bid_id (auction_ranking a now ?w ?s1))"
    using inst(3) by (metis mset_map mset_eq_imp_distinct_iff)
  note once = greedy_one_per_task [OF this _ _ assms(6)]
  show ?thesis
  proof
    assume "bid_id c \<in> active_ids (fst (run_once a n owned now clock s))"
    with once adm [OF assms(3,7)] adm [OF assms(4)] assms(3,4) mset_eq_setD [OF mset] have "b = c"
      by (simp add: auction_plan_def)
    with assms(5) show False ..
  qed
qed

lemma contended_first_active:
  "''bid-1'' \<in> active_ids (fst (run_once sample_arbiter 0 [] 10 (\<lambda>_. 10) (contended_store t)))"
proof -
  have "\<exists>r. find_bid (fst (run_once sample_arbiter 0 [] 10 (\<lambda>_. 10) (contended_store t))) ''bid-1'' = Some r
      \<and> status r = Accepted"
    using run_once_facts(7) [OF ready_market [OF contended_ready], where now = 10 and clock = "\<lambda>_. 10" and n = 0
        and b = "pending_record sample_bid 1"]
    by (simp add: contended_due contended_window contended_records contended_admitted)
  then show ?thesis by (auto simp: active_ids_def)
qed

theorem one_lease_per_task_witness:
  "''bid-2'' \<notin> active_ids (fst (run_once sample_arbiter 0 [] 10 (\<lambda>_. 10) (contended_store ''t'')))"
proof -
  have "pending_record sample_bid 1 \<noteq> pending_record (second_bid ''t'') (3 / 2)"
    by (auto dest: arg_cong [where f = bid_id])
  with one_lease_per_task [OF ready_market [OF contended_ready], where now = 10 and clock = "\<lambda>_. 10" and n = 0
      and b = "pending_record sample_bid 1" and c = "pending_record (second_bid ''t'') (3 / 2)"]
  show ?thesis by (simp add: contended_due contended_window contended_first_active)
qed

text \<open>
  The step of the arbiter raises nothing: the bids it decides and reports exist, so neither
  \<open>decide\<close> nor the assertion of the closing loop fails.
\<close>

theorem arbiter_step_never_raises:
  assumes "market_ready a owned s"
  shows "\<exists>progressed. snd (run_once a n owned now clock s) = Inr progressed"
  using run_once_facts(1) [OF assms, of n now clock]
  by (cases "snd (run_once a n owned now clock s)") auto

theorem arbiter_step_never_raises_witness:
  "\<exists>progressed. snd (run_once sample_arbiter 0 [] 10 (\<lambda>_. 10) (contended_store ''u'')) = Inr progressed"
  using arbiter_step_never_raises [OF ready_market [OF contended_ready]] .

end
