(* ===== verification/Task_Models.thy ===== *)
theory Task_Models
  imports Bid_Models
begin

text \<open>
  \<open>magellan/state/task_models.py\<close>, \<open>magellan/artifacts/models.py\<close> and the messages of
  \<open>magellan/migration/models.py\<close>: task definitions with the validation of their paths, the
  status of a task on one node, its accounting snapshot and its runtime state.  Fields that the
  code always writes together are grouped in sub-records.
\<close>

section \<open>Relative paths\<close>

text \<open>
  \<open>PurePosixPath(raw).parts\<close>, without the root: empty components and \<open>.\<close> are dropped.
  A path is safe when it is not absolute and no part is \<open>..\<close>.
\<close>

definition path_parts :: "string \<Rightarrow> string list" where
  "path_parts raw = filter (\<lambda>p. p \<noteq> [] \<and> p \<noteq> ''.'') (split_on (CHR ''/'') raw)"

definition is_absolute :: "string \<Rightarrow> bool" where
  "is_absolute raw = (raw \<noteq> [] \<and> hd raw = CHR ''/'')"

definition safe_relative :: "string \<Rightarrow> bool" where
  "safe_relative raw \<longleftrightarrow> \<not> is_absolute raw \<and> ''..'' \<notin> set (path_parts raw)"

text \<open>
  Where a path below a directory leads once the kernel follows it: \<open>resolve base ps\<close> walks the
  parts, a \<open>..\<close> leaving the directory reached so far (there are no symbolic links in the model).
\<close>

fun resolve :: "string list \<Rightarrow> string list \<Rightarrow> string list" where
  "resolve base [] = base"
| "resolve base (p # ps) = (if p = ''..'' then resolve (butlast base) ps else resolve (base @ [p]) ps)"

definition join_path :: "string list \<Rightarrow> string \<Rightarrow> string list" where
  "join_path base raw = (if is_absolute raw then path_parts raw else base @ path_parts raw)"

lemma resolve_safe: "''..'' \<notin> set ps \<Longrightarrow> resolve base ps = base @ ps"
  by (induction ps arbitrary: base) auto

lemma resolve_append: "resolve base (ps @ qs) = resolve (resolve base ps) qs"
  by (induction ps arbitrary: base) auto

lemma safe_join: "safe_relative raw \<Longrightarrow> join_path base raw = base @ path_parts raw"
  by (simp add: safe_relative_def join_path_def)

section \<open>Task definitions\<close>

record artifact_spec =
  artifact_id :: string
  artifact_kind :: string
  source_directory :: string
  target_relative_directory :: string

definition validate_artifact :: "artifact_spec \<Rightarrow> artifact_spec result" where
  "validate_artifact a =
     (if safe_relative (target_relative_directory a) then Inr a
      else Inl (ValueError ''target_relative_directory must be a safe relative path''))"

datatype adapter_kind = PythonModule | Command | Dendro

fun adapter_name :: "adapter_kind \<Rightarrow> string" where
  "adapter_name PythonModule = ''python_module''"
| "adapter_name Command = ''command''"
| "adapter_name Dendro = ''dendro''"

text \<open>How checkpoints, progress and completion of a Dendro solver are read from the files it leaves.\<close>

record discovery_spec =
  file_globs :: "string list"
  step_regex :: "string option"
  rank_regex :: "string option"
  expected_file_count :: "int option"
  expected_rank_count :: "int option"
  stability_seconds :: real
  include_sha256 :: bool
  native_bssn_prefix :: "string option"
  native_bssn_step_key :: string

record log_progress_spec =
  progress_log :: string
  progress_regex :: string
  progress_total_steps :: "real option"
  progress_log_bytes :: nat

record log_completion_spec =
  accept_zero_exit_code :: bool
  completion_log :: string
  success_regex :: "string option"
  completion_log_bytes :: nat

record dendro_options =
  checkpoint_discovery :: "discovery_spec option"
  log_progress :: "log_progress_spec option"
  log_completion :: "log_completion_spec option"

record process_spec =
  adapter :: adapter_kind
  spec_module :: "string option"
  spec_command :: "string list"
  spec_arguments :: "string list"
  resume_arguments :: "string list"
  environment :: "string dict"
  working_directory :: string
  checkpoint_relative_path :: string
  checkpoint_manifest_relative_path :: "string option"
  readiness_relative_path :: "string option"
  progress_relative_path :: "string option"
  completion_relative_path :: "string option"
  output_relative_directory :: "string option"
  stop_timeout_seconds :: real
  minimum_process_count :: int
  options :: "dendro_options option"

definition spec_paths :: "process_spec \<Rightarrow> (string \<times> string option) list" where
  "spec_paths p =
     [(''checkpoint_relative_path'', Some (checkpoint_relative_path p)),
      (''readiness_relative_path'', readiness_relative_path p),
      (''progress_relative_path'', progress_relative_path p),
      (''completion_relative_path'', completion_relative_path p),
      (''output_relative_directory'', output_relative_directory p),
      (''working_directory'', Some (working_directory p))]"

definition unsafe_path :: "string \<times> string option \<Rightarrow> bool" where
  "unsafe_path np = (case snd np of None \<Rightarrow> False | Some raw \<Rightarrow> \<not> safe_relative raw)"

definition validate_runtime :: "process_spec \<Rightarrow> process_spec result" where
  "validate_runtime p =
     (if adapter p = PythonModule \<and> (spec_module p = None \<or> spec_module p = Some [])
      then Inl (ValueError ''python_module runtime requires module'')
      else if adapter p = PythonModule \<and> spec_command p \<noteq> []
      then Inl (ValueError ''python_module runtime cannot define command'')
      else if adapter p \<noteq> PythonModule \<and> spec_command p = []
      then Inl (ValueError (adapter_name (adapter p) @ '' runtime requires command''))
      else if adapter p \<noteq> PythonModule \<and> spec_module p \<noteq> None
      then Inl (ValueError (adapter_name (adapter p) @ '' runtime cannot define module''))
      else if adapter p \<noteq> Dendro \<and> resume_arguments p \<noteq> []
      then Inl (ValueError ''resume_arguments are only valid for dendro runtime'')
      else if adapter p \<noteq> Dendro \<and> options p \<noteq> None
      then Inl (ValueError ''dendro_options are only valid for dendro runtime'')
      else if adapter p = Dendro \<and> (\<exists>d \<in> set_option (options p). checkpoint_discovery d \<noteq> None)
        \<and> checkpoint_manifest_relative_path p = None
      then Inl (ValueError ''Dendro checkpoint discovery requires a checkpoint manifest'')
      else case find unsafe_path (spec_paths p) of
        Some (name, _) \<Rightarrow> Inl (ValueError (name @ '' must be a safe relative path''))
      | None \<Rightarrow>
          if unsafe_path ([], checkpoint_manifest_relative_path p)
          then Inl (ValueError ''checkpoint_manifest_relative_path must be a safe relative path'')
          else Inr p)"

record task_definition =
  profile :: task_profile
  runtime :: process_spec
  artifacts :: "artifact_spec list"

definition validate_artifacts :: "task_definition \<Rightarrow> task_definition result" where
  "validate_artifacts d =
     (if distinct (map artifact_id (artifacts d)) then Inr d
      else Inl (ValueError ''Artifact IDs must be unique within a task''))"

definition wf_definition :: "task_definition \<Rightarrow> bool" where
  "wf_definition d \<longleftrightarrow> wf_profile (profile d) \<and> is_ok (validate_runtime (runtime d))
     \<and> (\<forall>a \<in> set (artifacts d). is_ok (validate_artifact a)) \<and> is_ok (validate_artifacts d)"

lemma validate_runtime_paths:
  assumes "is_ok (validate_runtime p)"
  shows "safe_relative (checkpoint_relative_path p)" "safe_relative (working_directory p)"
    "\<And>raw. readiness_relative_path p = Some raw \<Longrightarrow> safe_relative raw"
    "\<And>raw. progress_relative_path p = Some raw \<Longrightarrow> safe_relative raw"
    "\<And>raw. completion_relative_path p = Some raw \<Longrightarrow> safe_relative raw"
    "\<And>raw. output_relative_directory p = Some raw \<Longrightarrow> safe_relative raw"
    "\<And>raw. checkpoint_manifest_relative_path p = Some raw \<Longrightarrow> safe_relative raw"
proof -
  have none: "find unsafe_path (spec_paths p) = None"
    and manifest: "\<not> unsafe_path ([], checkpoint_manifest_relative_path p)"
    using assms by (auto simp: validate_runtime_def split: if_splits option.splits)
  from none have all: "\<forall>np \<in> set (spec_paths p). \<not> unsafe_path np" by (auto simp: find_None_iff)
  then show "safe_relative (checkpoint_relative_path p)" "safe_relative (working_directory p)"
    "\<And>raw. readiness_relative_path p = Some raw \<Longrightarrow> safe_relative raw"
    "\<And>raw. progress_relative_path p = Some raw \<Longrightarrow> safe_relative raw"
    "\<And>raw. completion_relative_path p = Some raw \<Longrightarrow> safe_relative raw"
    "\<And>raw. output_relative_directory p = Some raw \<Longrightarrow> safe_relative raw"
    by (auto simp: spec_paths_def unsafe_path_def)
  show "\<And>raw. checkpoint_manifest_relative_path p = Some raw \<Longrightarrow> safe_relative raw"
    using manifest by (simp add: unsafe_path_def)
qed

section \<open>Runtime state of a task on one node\<close>

datatype task_status = Stopped | Running | Paused | Migrating | Recovering | Remote | Completed | Failed

record task_accounting =
  estimated_remaining_seconds :: "real option"
  accumulated_runtime_seconds :: real
  accumulated_paused_seconds :: real
  accumulated_migration_seconds :: real
  accumulated_compute_cost :: real
  accumulated_transfer_cost :: real
  accumulated_cost :: real
  accumulated_compute_carbon :: real
  accumulated_transfer_carbon :: real
  accumulated_carbon :: real
  progress_completed_units :: "real option"
  progress_total_units :: "real option"
  progress_fraction :: "real option"
  progress_rate :: "real option"
  progress_updated_at :: "datetime option"

definition wf_accounting :: "task_accounting \<Rightarrow> bool" where
  "wf_accounting a \<longleftrightarrow>
     (\<forall>x. estimated_remaining_seconds a = Some x \<longrightarrow> 0 \<le> x)
   \<and> 0 \<le> accumulated_runtime_seconds a \<and> 0 \<le> accumulated_paused_seconds a
   \<and> 0 \<le> accumulated_migration_seconds a \<and> 0 \<le> accumulated_compute_cost a
   \<and> 0 \<le> accumulated_transfer_cost a \<and> 0 \<le> accumulated_cost a
   \<and> 0 \<le> accumulated_compute_carbon a \<and> 0 \<le> accumulated_transfer_carbon a
   \<and> 0 \<le> accumulated_carbon a
   \<and> (\<forall>x. progress_completed_units a = Some x \<longrightarrow> 0 \<le> x)
   \<and> (\<forall>x. progress_total_units a = Some x \<longrightarrow> 0 < x)
   \<and> (\<forall>x. progress_fraction a = Some x \<longrightarrow> 0 \<le> x \<and> x \<le> 1)
   \<and> (\<forall>x. progress_rate a = Some x \<longrightarrow> 0 < x)"

text \<open>The process of the task: identifiers and how it was launched.\<close>

record process_info =
  pid :: "int option"
  process_group_id :: "int option"
  runtime_adapter :: "string option"
  launch_command :: "string list"
  resumed_from_checkpoint :: bool

record pause_info =
  paused_at :: "datetime option"
  resume_at :: "datetime option"
  resume_wall_at :: "datetime option"
  pause_reason :: "string option"

record recovery_info =
  recovery_attempts :: int
  next_recovery_at :: "datetime option"
  recovery_exhausted :: bool
  last_failure_at :: "datetime option"

record output_info =
  completed_at :: "datetime option"
  manifest_relative_path :: "string option"
  manifest_sha256 :: "string option"
  output_bytes :: int

record task_state =
  state_task_id :: task_id
  owner_node_id :: node_id
  generation :: int
  task_status :: task_status
  process :: process_info
  last_migration_id :: "string option"
  state_last_migration_at :: "datetime option"
  state_last_pause_at :: "datetime option"
  pause :: pause_info
  pause_count :: int
  last_error :: "string option"
  last_exit_code :: "int option"
  recovery :: recovery_info
  final_output :: output_info
  updated_at :: datetime
  started_at :: "datetime option"
  last_accounted_at :: "datetime option"
  accounting :: task_accounting
  artifact_digests :: "string dict"

definition no_process :: process_info where
  "no_process = \<lparr>pid = None, process_group_id = None, runtime_adapter = None, launch_command = [],
                 resumed_from_checkpoint = False\<rparr>"

definition no_pause :: pause_info where
  "no_pause = \<lparr>paused_at = None, resume_at = None, resume_wall_at = None, pause_reason = None\<rparr>"

text \<open>\<open>TaskRuntimeState.accounting_snapshot\<close> copies the fields of the snapshot by name.\<close>

definition accounting_snapshot :: "task_state \<Rightarrow> task_accounting" where
  "accounting_snapshot st = accounting st"

section \<open>Messages between nodes (\<open>migration/models.py\<close>)\<close>

record ownership_update =
  ou_task_id :: task_id
  ou_owner :: node_id
  ou_generation :: int
  ou_migration_id :: "string option"
  ou_migration_at :: "datetime option"
  ou_artifact_digests :: "string dict"
  ou_status :: "task_status option"
  ou_completed_at :: "datetime option"
  ou_manifest_sha256 :: "string option"
  ou_output_bytes :: "int option"
  ou_accounting :: "task_accounting option"

end
