(* ===== verification/Task_Registry.thy ===== *)
theory Task_Registry
  imports Task_Models
begin

text \<open>
  \<open>magellan/state/persistent_registry.py\<close>: the definitions a daemon knows and the state files
  it keeps, one per task.  The code reads a state from its file, changes fields and writes it back
  with a new \<open>updated_at\<close>; each method is modelled as the change of one state
  (\<open>Raise\<close>, \<open>Keep\<close> without writing, \<open>Store\<close>) and \<open>run_edit\<close> is the reading and writing around it.
\<close>

section \<open>State and access\<close>

record registry =
  definitions :: "task_definition dict"
  state_files :: "task_state dict"
  registry_node :: node_id

definition get_definition :: "registry \<Rightarrow> task_id \<Rightarrow> task_definition result" where
  "get_definition reg t =
     (case dict_get (definitions reg) t of
        None \<Rightarrow> Inl (KeyError (''Unknown Magellan task definition: '' @ t))
      | Some d \<Rightarrow> Inr d)"

definition get_state :: "registry \<Rightarrow> task_id \<Rightarrow> task_state result" where
  "get_state reg t =
     bind_result (get_definition reg t) (\<lambda>_.
       case dict_get (state_files reg) t of
         None \<Rightarrow> Inl (FileNotFoundError t)
       | Some st \<Rightarrow> Inr st)"

definition write_state :: "datetime \<Rightarrow> task_state \<Rightarrow> registry \<Rightarrow> registry" where
  "write_state now st reg =
     reg\<lparr>state_files := dict_put (state_task_id st) (st\<lparr>updated_at := now\<rparr>) (state_files reg)\<rparr>"

definition initial_accounting :: "task_profile \<Rightarrow> task_accounting" where
  "initial_accounting p =
     \<lparr>estimated_remaining_seconds = profile_remaining_seconds p, accumulated_runtime_seconds = 0,
      accumulated_paused_seconds = 0, accumulated_migration_seconds = 0,
      accumulated_compute_cost = profile_accumulated_cost p, accumulated_transfer_cost = 0,
      accumulated_cost = profile_accumulated_cost p, accumulated_compute_carbon = 0,
      accumulated_transfer_carbon = 0, accumulated_carbon = 0, progress_completed_units = None,
      progress_total_units = None, progress_fraction = None, progress_rate = None,
      progress_updated_at = None\<rparr>"

definition initial_state :: "node_id \<Rightarrow> datetime \<Rightarrow> task_profile \<Rightarrow> task_state" where
  "initial_state node now p =
     \<lparr>state_task_id = profile_task_id p, owner_node_id = current_node_id p, generation = 0,
      task_status = (if current_node_id p = node then Stopped else Remote), process = no_process,
      last_migration_id = None, state_last_migration_at = None, state_last_pause_at = None,
      pause = no_pause, pause_count = 0, last_error = None, last_exit_code = None,
      recovery = \<lparr>recovery_attempts = 0, next_recovery_at = None, recovery_exhausted = False,
                  last_failure_at = None\<rparr>,
      final_output = \<lparr>completed_at = None, manifest_relative_path = None, manifest_sha256 = None,
                      output_bytes = 0\<rparr>,
      updated_at = now, started_at = None, last_accounted_at = None,
      accounting = initial_accounting p, artifact_digests = []\<rparr>"

definition initialize_state_if_missing :: "datetime \<Rightarrow> task_definition \<Rightarrow> registry \<Rightarrow> registry" where
  "initialize_state_if_missing now d reg =
     (if dict_get (state_files reg) (profile_task_id (profile d)) \<noteq> None then reg
      else write_state now (initial_state (registry_node reg) now (profile d)) reg)"

text \<open>The constructor, over the state files found on disk.\<close>

fun load_definitions :: "datetime \<Rightarrow> task_definition list \<Rightarrow> registry \<Rightarrow> registry result" where
  "load_definitions now [] reg = Inr reg"
| "load_definitions now (d # ds) reg =
     (let t = profile_task_id (profile d)
      in if dict_get (definitions reg) t \<noteq> None then Inl (ValueError (''Duplicate task ID: '' @ t))
         else load_definitions now ds (initialize_state_if_missing now d
                (reg\<lparr>definitions := dict_put t d (definitions reg)\<rparr>)))"

definition create_registry ::
  "datetime \<Rightarrow> task_definition list \<Rightarrow> task_state dict \<Rightarrow> node_id \<Rightarrow> registry result" where
  "create_registry now ds disk node =
     load_definitions now ds \<lparr>definitions = [], state_files = disk, registry_node = node\<rparr>"

definition register_definition ::
  "datetime \<Rightarrow> task_definition \<Rightarrow> registry \<Rightarrow> registry \<times> bool result" where
  "register_definition now d reg =
     (let t = profile_task_id (profile d)
      in case dict_get (definitions reg) t of
           Some existing \<Rightarrow>
             if existing \<noteq> d
             then (reg, Inl (RuntimeError (''Conflicting task definition for '' @ t)))
             else (reg, Inr False)
         | None \<Rightarrow> (initialize_state_if_missing now d
                     (reg\<lparr>definitions := dict_put t d (definitions reg)\<rparr>), Inr True))"

section \<open>Queries\<close>

definition sorted_ids :: "registry \<Rightarrow> task_id list" where
  "sorted_ids reg = sort (map fst (definitions reg))"

fun collect_results :: "'a result list \<Rightarrow> 'a list result" where
  "collect_results [] = Inr []"
| "collect_results (r # rs) = bind_result r (\<lambda>x. bind_result (collect_results rs) (\<lambda>xs. Inr (x # xs)))"

definition all_states :: "registry \<Rightarrow> task_state list result" where
  "all_states reg = collect_results (map (get_state reg) (sorted_ids reg))"

definition holds_capacity :: "task_status \<Rightarrow> bool" where
  "holds_capacity s = (s \<in> {Running, Paused, Migrating, Recovering, Failed})"

definition occupies :: "node_id \<Rightarrow> task_state \<Rightarrow> bool" where
  "occupies node st = (owner_node_id st = node \<and> holds_capacity (task_status st))"

definition count_owned :: "registry \<Rightarrow> node_id \<Rightarrow> nat result" where
  "count_owned reg node =
     bind_result (all_states reg) (\<lambda>sts. Inr (length (filter (occupies node) sts)))"

definition owned_resource_requests :: "registry \<Rightarrow> node_id \<Rightarrow> task_resource_request list result" where
  "owned_resource_requests reg node =
     bind_result (all_states reg) (\<lambda>sts.
       collect_results (map (\<lambda>st. bind_result (get_definition reg (state_task_id st))
                                    (\<lambda>d. Inr (resource_request (profile d))))
                            (filter (occupies node) sts)))"

definition owned_ids_with :: "task_status \<Rightarrow> registry \<Rightarrow> node_id \<Rightarrow> task_id list result" where
  "owned_ids_with s reg node =
     bind_result (all_states reg) (\<lambda>sts.
       Inr (map state_task_id (filter (\<lambda>st. owner_node_id st = node \<and> task_status st = s) sts)))"

definition running_owned_task_ids :: "registry \<Rightarrow> node_id \<Rightarrow> task_id list result" where
  "running_owned_task_ids = owned_ids_with Running"

definition paused_owned_task_ids :: "registry \<Rightarrow> node_id \<Rightarrow> task_id list result" where
  "paused_owned_task_ids = owned_ids_with Paused"

definition failed_owned_task_ids :: "registry \<Rightarrow> node_id \<Rightarrow> task_id list result" where
  "failed_owned_task_ids = owned_ids_with Failed"

definition scoring_profile :: "registry \<Rightarrow> task_id \<Rightarrow> int option \<Rightarrow> task_profile result" where
  "scoring_profile reg t checkpoint =
     bind_result (get_definition reg t) (\<lambda>d.
     bind_result (get_state reg t) (\<lambda>st.
       let p = (profile d)\<lparr>current_node_id := owner_node_id st,
                 last_migration_at := state_last_migration_at st,
                 last_pause_at := state_last_pause_at st,
                 profile_remaining_seconds :=
                   (case estimated_remaining_seconds (accounting st) of
                      None \<Rightarrow> profile_remaining_seconds (profile d)
                    | Some r \<Rightarrow> Some r),
                 profile_accumulated_cost := accumulated_cost (accounting st)\<rparr>
       in Inr (case checkpoint of None \<Rightarrow> p | Some b \<Rightarrow> p\<lparr>checkpoint_bytes := b\<rparr>)))"

definition ownership_update_of :: "task_state \<Rightarrow> ownership_update" where
  "ownership_update_of st =
     \<lparr>ou_task_id = state_task_id st, ou_owner = owner_node_id st, ou_generation = generation st,
      ou_migration_id = last_migration_id st, ou_migration_at = state_last_migration_at st,
      ou_artifact_digests = artifact_digests st,
      ou_status = (if task_status st = Completed then Some Completed else None),
      ou_completed_at = completed_at (final_output st),
      ou_manifest_sha256 = manifest_sha256 (final_output st),
      ou_output_bytes = Some (output_bytes (final_output st)),
      ou_accounting = Some (accounting_snapshot st)\<rparr>"

definition ownership_updates :: "registry \<Rightarrow> ownership_update list result" where
  "ownership_updates reg =
     bind_result (all_states reg) (\<lambda>sts. Inr (map ownership_update_of sts))"

section \<open>Reading, changing and writing one state\<close>

datatype 'a edit = Raise error | Keep | Store 'a

definition run_edit ::
  "(task_state \<Rightarrow> task_state edit) \<Rightarrow> datetime \<Rightarrow> task_id \<Rightarrow> registry \<Rightarrow> registry \<times> task_state result" where
  "run_edit f written t reg =
     (case get_state reg t of
        Inl e \<Rightarrow> (reg, Inl e)
      | Inr st \<Rightarrow>
          case f st of
            Raise e \<Rightarrow> (reg, Inl e)
          | Keep \<Rightarrow> (reg, Inr st)
          | Store st' \<Rightarrow> (write_state written st' reg, Inr (st'\<lparr>updated_at := written\<rparr>)))"

text \<open>The fields every stopping transition resets together.\<close>

definition halt :: "task_state \<Rightarrow> task_state" where
  "halt st = st\<lparr>process := (process st)\<lparr>pid := None, process_group_id := None\<rparr>, pause := no_pause\<rparr>"

section \<open>Local life cycle\<close>

definition set_artifact_digests :: "string dict \<Rightarrow> task_state \<Rightarrow> task_state edit" where
  "set_artifact_digests digests st = Store (st\<lparr>artifact_digests := digests\<rparr>)"

definition mark_running ::
  "node_id \<Rightarrow> int \<Rightarrow> string option \<Rightarrow> string list option \<Rightarrow> bool \<Rightarrow> datetime
     \<Rightarrow> task_state \<Rightarrow> task_state edit" where
  "mark_running node p adapter_id command resumed now st =
     (if owner_node_id st \<noteq> node
      then Raise (RuntimeError (''Cannot run '' @ state_task_id st @ ''; owner is '' @ owner_node_id st))
      else if task_status st = Completed
      then Raise (RuntimeError (''Cannot start completed task '' @ state_task_id st))
      else Store (st\<lparr>task_status := Running,
             process := \<lparr>pid = Some p, process_group_id = Some p,
                runtime_adapter = (if adapter_id = None then runtime_adapter (process st) else adapter_id),
                launch_command = (case command of None \<Rightarrow> launch_command (process st) | Some c \<Rightarrow> c),
                resumed_from_checkpoint = resumed\<rparr>,
             started_at := (if started_at st = None then Some now else started_at st),
             last_accounted_at := Some now, pause := no_pause, last_error := None,
             last_exit_code := None,
             recovery := (recovery st)\<lparr>next_recovery_at := None, recovery_exhausted := False\<rparr>\<rparr>))"

definition status_name :: "task_status \<Rightarrow> string" where
  "status_name s = (case s of Stopped \<Rightarrow> ''stopped'' | Running \<Rightarrow> ''running'' | Paused \<Rightarrow> ''paused''
     | Migrating \<Rightarrow> ''migrating'' | Recovering \<Rightarrow> ''recovering'' | Remote \<Rightarrow> ''remote''
     | Completed \<Rightarrow> ''completed'' | Failed \<Rightarrow> ''failed'')"

definition mark_paused ::
  "node_id \<Rightarrow> datetime \<Rightarrow> datetime \<Rightarrow> datetime \<Rightarrow> string \<Rightarrow> datetime \<Rightarrow> task_state \<Rightarrow> task_state edit" where
  "mark_paused node paused resume resume_wall reason now st =
     (if owner_node_id st \<noteq> node
      then Raise (RuntimeError (''Cannot pause '' @ state_task_id st @ ''; owner is '' @ owner_node_id st))
      else if task_status st \<noteq> Running \<or> pid (process st) = None
      then Raise (RuntimeError (''Cannot pause '' @ state_task_id st @ ''; status is '' @ status_name (task_status st)))
      else Store (st\<lparr>task_status := Paused,
             pause := \<lparr>paused_at = Some paused, resume_at = Some resume, resume_wall_at = Some resume_wall,
                       pause_reason = Some reason\<rparr>,
             state_last_pause_at := Some paused, pause_count := pause_count st + 1,
             last_accounted_at := Some now\<rparr>))"

definition mark_resumed :: "node_id \<Rightarrow> datetime \<Rightarrow> task_state \<Rightarrow> task_state edit" where
  "mark_resumed node now st =
     (if owner_node_id st \<noteq> node
      then Raise (RuntimeError (''Cannot resume '' @ state_task_id st @ ''; owner is '' @ owner_node_id st))
      else if task_status st \<noteq> Paused \<or> pid (process st) = None
      then Raise (RuntimeError (''Cannot resume '' @ state_task_id st @ ''; status is '' @ status_name (task_status st)))
      else Store (st\<lparr>task_status := Running, pause := no_pause, last_accounted_at := Some now\<rparr>))"

definition mark_stopped :: "task_state \<Rightarrow> task_state edit" where
  "mark_stopped st =
     (if task_status st = Completed then Keep
      else Store ((halt st)\<lparr>task_status := Stopped, last_exit_code := None\<rparr>))"

definition mark_migrating :: "node_id \<Rightarrow> string \<Rightarrow> task_state \<Rightarrow> task_state edit" where
  "mark_migrating node migration_id st =
     (if owner_node_id st \<noteq> node
      then Raise (RuntimeError (''Cannot migrate '' @ state_task_id st @ ''; owner is '' @ owner_node_id st))
      else if task_status st = Completed
      then Raise (RuntimeError (''Cannot migrate completed task '' @ state_task_id st))
      else Store (st\<lparr>task_status := Migrating, last_migration_id := Some migration_id\<rparr>))"

definition mark_failed :: "string \<Rightarrow> int option \<Rightarrow> datetime \<Rightarrow> task_state \<Rightarrow> task_state edit" where
  "mark_failed err exit_code now st =
     Store ((halt st)\<lparr>task_status := Failed, last_error := Some err, last_exit_code := exit_code,
       recovery := (recovery st)\<lparr>last_failure_at := Some now, next_recovery_at := None\<rparr>\<rparr>)"

definition schedule_recovery :: "datetime \<Rightarrow> task_state \<Rightarrow> task_state edit" where
  "schedule_recovery recover_at st =
     (if task_status st \<noteq> Failed then Keep
      else Store (st\<lparr>recovery := (recovery st)\<lparr>next_recovery_at := Some recover_at\<rparr>\<rparr>))"

definition begin_recovery :: "node_id \<Rightarrow> task_state \<Rightarrow> task_state edit" where
  "begin_recovery node st =
     (if owner_node_id st \<noteq> node
      then Raise (RuntimeError (''Cannot recover '' @ state_task_id st @ ''; owner is '' @ owner_node_id st))
      else if task_status st \<noteq> Failed
      then Raise (RuntimeError (''Cannot recover '' @ state_task_id st @ ''; status is '' @ status_name (task_status st)))
      else Store (st\<lparr>task_status := Recovering,
             recovery := (recovery st)\<lparr>recovery_attempts := recovery_attempts (recovery st) + 1,
                                       next_recovery_at := None\<rparr>\<rparr>))"

definition mark_recovery_exhausted :: "string \<Rightarrow> task_state \<Rightarrow> task_state edit" where
  "mark_recovery_exhausted err st =
     Store (st\<lparr>task_status := Failed,
       process := (process st)\<lparr>pid := None, process_group_id := None\<rparr>, last_error := Some err,
       recovery := (recovery st)\<lparr>next_recovery_at := None, recovery_exhausted := True\<rparr>\<rparr>)"

definition mark_completed ::
  "node_id \<Rightarrow> datetime \<Rightarrow> string \<Rightarrow> string \<Rightarrow> int \<Rightarrow> int option \<Rightarrow> task_state \<Rightarrow> task_state edit" where
  "mark_completed node completed manifest digest bytes exit_code st =
     (if owner_node_id st \<noteq> node
      then Raise (RuntimeError (''Cannot complete '' @ state_task_id st @ ''; owner is '' @ owner_node_id st))
      else Store ((halt st)\<lparr>task_status := Completed, last_error := None, last_exit_code := exit_code,
             final_output := \<lparr>completed_at = Some completed, manifest_relative_path = Some manifest,
                              manifest_sha256 = Some digest, output_bytes = bytes\<rparr>,
             recovery := (recovery st)\<lparr>next_recovery_at := None, recovery_exhausted := False\<rparr>\<rparr>))"

section \<open>Ownership and generations\<close>

definition stale_generation :: "int \<Rightarrow> task_state \<Rightarrow> error" where
  "stale_generation g st =
     RuntimeError (''Stale generation '' @ int_str g @ ''; current generation is '' @ int_str (generation st))"

definition claim_local ::
  "node_id \<Rightarrow> int \<Rightarrow> string \<Rightarrow> string dict \<Rightarrow> datetime \<Rightarrow> task_accounting option
     \<Rightarrow> task_state \<Rightarrow> task_state edit" where
  "claim_local node g migration_id digests migration_at acc st =
     (if g < generation st then Raise (stale_generation g st)
      else Store ((halt st)\<lparr>owner_node_id := node, generation := g, task_status := Stopped,
             last_migration_id := Some migration_id, state_last_migration_at := Some migration_at,
             last_error := None, last_exit_code := None, artifact_digests := digests,
             accounting := (case acc of None \<Rightarrow> accounting st | Some a \<Rightarrow> a)\<rparr>))"

definition mark_remote ::
  "node_id \<Rightarrow> int \<Rightarrow> string \<Rightarrow> datetime \<Rightarrow> task_state \<Rightarrow> task_state edit" where
  "mark_remote owner g migration_id migration_at st =
     (if generation st = g \<and> owner_node_id st = owner \<and> task_status st = Completed then Keep
      else Store ((halt st)\<lparr>owner_node_id := owner, generation := g, task_status := Remote,
             last_migration_id := Some migration_id, state_last_migration_at := Some migration_at,
             last_error := None, last_exit_code := None\<rparr>))"

definition restore_local_after_failure ::
  "node_id \<Rightarrow> int \<Rightarrow> string \<Rightarrow> task_state \<Rightarrow> task_state edit" where
  "restore_local_after_failure node g err st =
     Store ((halt st)\<lparr>owner_node_id := node, generation := g, task_status := Stopped,
       last_error := Some err, last_exit_code := None\<rparr>)"

definition outdated :: "ownership_update \<Rightarrow> task_state \<Rightarrow> bool" where
  "outdated u st \<longleftrightarrow> ou_generation u < generation st
   \<or> ou_generation u = generation st \<and> ou_owner u \<noteq> owner_node_id st
   \<or> ou_generation u = generation st \<and> task_status st = Completed \<and> ou_status u \<noteq> Some Completed"

definition apply_ownership :: "node_id \<Rightarrow> ownership_update \<Rightarrow> task_state \<Rightarrow> task_state edit" where
  "apply_ownership node u st =
     (if outdated u st then Keep
      else
        let st1 = st\<lparr>owner_node_id := ou_owner u, generation := ou_generation u,
              accounting := (case ou_accounting u of None \<Rightarrow> accounting st | Some a \<Rightarrow> a),
              last_migration_id :=
                (if ou_migration_id u = None then last_migration_id st else ou_migration_id u),
              state_last_migration_at :=
                (if ou_migration_at u = None then state_last_migration_at st else ou_migration_at u)\<rparr>
        in Store
          (if ou_status u = Some Completed
           then (halt st1)\<lparr>task_status := Completed,
                  final_output := (final_output st1)\<lparr>completed_at := ou_completed_at u,
                     manifest_sha256 := ou_manifest_sha256 u,
                     output_bytes := (case ou_output_bytes u of
                        None \<Rightarrow> output_bytes (final_output st1) | Some b \<Rightarrow> b)\<rparr>\<rparr>
           else if ou_owner u \<noteq> node then (halt st1)\<lparr>task_status := Remote\<rparr>
           else st1))"

text \<open>\<open>apply_ownership\<close> answers whether it wrote.\<close>

definition ownership_applied :: "node_id \<Rightarrow> ownership_update \<Rightarrow> task_state \<Rightarrow> bool" where
  "ownership_applied node u st = (apply_ownership node u st \<noteq> Keep)"

section \<open>Accounting\<close>

record accounting_delta =
  runtime_seconds :: real
  paused_seconds :: real
  migration_seconds :: real
  compute_cost :: real
  transfer_cost :: real
  compute_carbon :: real
  transfer_carbon :: real
  delta_accounted_at :: "datetime option"
  delta_remaining :: "real option"
  delta_completed_units :: "real option"
  delta_total_units :: "real option"
  delta_fraction :: "real option"
  delta_rate :: "real option"
  delta_progress_at :: "datetime option"

definition override :: "'v option \<Rightarrow> 'v option \<Rightarrow> 'v option" where
  "override new old = (case new of None \<Rightarrow> old | Some v \<Rightarrow> Some v)"

definition add_accounting :: "accounting_delta \<Rightarrow> task_accounting \<Rightarrow> task_accounting" where
  "add_accounting d a =
     (let compute_usd = accumulated_compute_cost a + max 0 (compute_cost d);
          transfer_usd = accumulated_transfer_cost a + max 0 (transfer_cost d);
          compute_g = accumulated_compute_carbon a + max 0 (compute_carbon d);
          transfer_g = accumulated_transfer_carbon a + max 0 (transfer_carbon d)
      in \<lparr>estimated_remaining_seconds =
            override (map_option (max 0) (delta_remaining d)) (estimated_remaining_seconds a),
          accumulated_runtime_seconds = accumulated_runtime_seconds a + max 0 (runtime_seconds d),
          accumulated_paused_seconds = accumulated_paused_seconds a + max 0 (paused_seconds d),
          accumulated_migration_seconds = accumulated_migration_seconds a + max 0 (migration_seconds d),
          accumulated_compute_cost = compute_usd, accumulated_transfer_cost = transfer_usd,
          accumulated_cost = compute_usd + transfer_usd, accumulated_compute_carbon = compute_g,
          accumulated_transfer_carbon = transfer_g, accumulated_carbon = compute_g + transfer_g,
          progress_completed_units = override (delta_completed_units d) (progress_completed_units a),
          progress_total_units = override (delta_total_units d) (progress_total_units a),
          progress_fraction = override (delta_fraction d) (progress_fraction a),
          progress_rate = override (delta_rate d) (progress_rate a),
          progress_updated_at = override (delta_progress_at d) (progress_updated_at a)\<rparr>)"

definition record_accounting :: "accounting_delta \<Rightarrow> task_state \<Rightarrow> task_state edit" where
  "record_accounting d st =
     Store (st\<lparr>accounting := add_accounting d (accounting st),
               last_accounted_at := override (delta_accounted_at d) (last_accounted_at st)\<rparr>)"

section \<open>The operations as one alphabet\<close>

datatype registry_op =
    SetDigests "string dict"
  | MarkRunning int "string option" "string list option" bool datetime
  | MarkPaused datetime datetime datetime string datetime
  | MarkResumed datetime
  | MarkStopped
  | MarkMigrating string
  | MarkFailed string "int option" datetime
  | ScheduleRecovery datetime
  | BeginRecovery
  | RecoveryExhausted string
  | MarkCompleted datetime string string int "int option"
  | ClaimLocal int string "string dict" datetime "task_accounting option"
  | MarkRemote node_id int string datetime
  | RestoreLocal int string
  | ApplyOwnership ownership_update
  | RecordAccounting accounting_delta

fun edit_of :: "node_id \<Rightarrow> registry_op \<Rightarrow> task_state \<Rightarrow> task_state edit" where
  "edit_of node (SetDigests ds) = set_artifact_digests ds"
| "edit_of node (MarkRunning p a c r now) = mark_running node p a c r now"
| "edit_of node (MarkPaused a b c reason now) = mark_paused node a b c reason now"
| "edit_of node (MarkResumed now) = mark_resumed node now"
| "edit_of node MarkStopped = mark_stopped"
| "edit_of node (MarkMigrating m) = mark_migrating node m"
| "edit_of node (MarkFailed e c now) = mark_failed e c now"
| "edit_of node (ScheduleRecovery t) = schedule_recovery t"
| "edit_of node BeginRecovery = begin_recovery node"
| "edit_of node (RecoveryExhausted e) = mark_recovery_exhausted e"
| "edit_of node (MarkCompleted t m d b c) = mark_completed node t m d b c"
| "edit_of node (ClaimLocal g m ds t acc) = claim_local node g m ds t acc"
| "edit_of node (MarkRemote ow g m t) = mark_remote ow g m t"
| "edit_of node (RestoreLocal g e) = restore_local_after_failure node g e"
| "edit_of node (ApplyOwnership u) = apply_ownership node u"
| "edit_of node (RecordAccounting d) = record_accounting d"

inductive registry_step :: "registry \<Rightarrow> registry \<Rightarrow> bool" where
  edit: "reg' = fst (run_edit (edit_of (registry_node reg) op) written t reg) \<Longrightarrow> registry_step reg reg'"
| register: "wf_definition d \<Longrightarrow> reg' = fst (register_definition now d reg) \<Longrightarrow> registry_step reg reg'"

inductive_cases registry_stepE: "registry_step reg reg'"

end
