(* ===== verification/Capacity_Interface.thy ===== *)
theory Capacity_Interface
  imports Bid_Arbiter_Laws
begin

text \<open>
  The protocol \<open>CapacityRegistry\<close> of \<open>bidding/arbiter.py\<close>: what the arbiter asks of a task
  registry, the laws it relies on, and what one step of the arbiter guarantees over any registry
  that obeys them.
\<close>

locale capacity_registry =
  fixes count :: "'r \<Rightarrow> node_id \<Rightarrow> nat result"
    and requests :: "'r \<Rightarrow> node_id \<Rightarrow> task_resource_request list result"
    and valid :: "'r \<Rightarrow> bool"
  assumes count_total: "valid r \<Longrightarrow> is_ok (count r n)"
    and requests_total: "valid r \<Longrightarrow> is_ok (requests r n)"
    and one_request_each: "valid r \<Longrightarrow> count r n = Inr k \<Longrightarrow> requests r n = Inr qs \<Longrightarrow> length qs = k"
    and requests_valid: "valid r \<Longrightarrow> requests r n = Inr qs \<Longrightarrow> q \<in> set qs \<Longrightarrow> wf_resource_request q"
begin

lemma answers:
  assumes "valid r"
  obtains qs where "count r n = Inr (length qs)" "requests r n = Inr qs" "owned_ok qs"
proof -
  obtain k qs where "count r n = Inr k" "requests r n = Inr qs"
    using count_total [OF assms, of n] requests_total [OF assms, of n]
    by (cases "count r n"; cases "requests r n") auto
  moreover have "length qs = k" using one_request_each [OF assms] calculation .
  moreover have "owned_ok qs"
    using requests_valid [OF assms] calculation(2) by (simp add: owned_ok_def)
  ultimately show thesis using that [of qs] by simp
qed

text \<open>A store is admissible over a registry when leases and owned tasks fit together.\<close>

lemma step_keeps_capacity:
  assumes "valid r" and "store_inv s" and "requests_wf s" and "wf_auction_policy (arbiter_policy a)"
    and "slot_capacity a = Some c" and "requests r node = Inr qs"
    and "length qs + length (reservations_of s) \<le> nat c"
    and "fits_capacity (used_resources qs (reservations_of s)) (node_resources a)"
  shows "let s' = fst (run_once a (length qs) qs now clock s)
    in length qs + length (reservations_of s') \<le> nat c
     \<and> fits_capacity (used_resources qs (reservations_of s')) (node_resources a)"
proof -
  have "owned_ok qs" using requests_valid [OF assms(1,6)] by (simp add: owned_ok_def)
  with assms have ready: "admission_ready a qs s" by (simp add: admission_ready_def)
  note slots = run_once_slots [OF ready assms(5), of "length qs" now clock]
  have "length qs + length (reservations_of (fst (run_once a (length qs) qs now clock s))) \<le> nat c"
    using slots assms(7) by linarith
  with run_once_resources [OF ready] show ?thesis by (simp add: Let_def)
qed

end

end
