(* ===== verification/Task_Registry_Laws.thy ===== *)
theory Task_Registry_Laws
  imports Task_Registry Capacity_Interface
begin

text \<open>
  What the task registry guarantees: a process is only recorded for a task owned here, accounting
  totals add up, ownership generations fence stale updates, and gossiped updates converge.
\<close>

section \<open>Well-formed states\<close>

definition cost_split :: "task_accounting \<Rightarrow> bool" where
  "cost_split a \<longleftrightarrow> accumulated_cost a = accumulated_compute_cost a + accumulated_transfer_cost a
     \<and> accumulated_carbon a = accumulated_compute_carbon a + accumulated_transfer_carbon a"

definition state_ok :: "node_id \<Rightarrow> task_state \<Rightarrow> bool" where
  "state_ok node st \<longleftrightarrow>
     (task_status st \<in> {Running, Paused, Migrating, Recovering} \<longrightarrow> owner_node_id st = node)
   \<and> (task_status st \<in> {Running, Paused} \<longrightarrow> pid (process st) \<noteq> None)
   \<and> (pid (process st) \<noteq> None \<longrightarrow> task_status st \<in> {Running, Paused, Migrating})
   \<and> (task_status st = Paused \<longrightarrow> resume_at (pause st) \<noteq> None \<and> resume_wall_at (pause st) \<noteq> None)
   \<and> cost_split (accounting st)"

text \<open>Accounting received from a peer is a snapshot of a state the same code keeps there.\<close>

fun trusted_op :: "registry_op \<Rightarrow> bool" where
  "trusted_op (ClaimLocal g m ds t acc) \<longleftrightarrow> (\<forall>a. acc = Some a \<longrightarrow> cost_split a)"
| "trusted_op (ApplyOwnership u) \<longleftrightarrow> (\<forall>a. ou_accounting u = Some a \<longrightarrow> cost_split a)"
| "trusted_op _ \<longleftrightarrow> True"

lemma halt_select [simp]:
  "pid (process (halt st)) = None" "pause (halt st) = no_pause" "owner_node_id (halt st) = owner_node_id st"
  "generation (halt st) = generation st" "task_status (halt st) = task_status st"
  "accounting (halt st) = accounting st" "state_task_id (halt st) = state_task_id st"
  "final_output (halt st) = final_output st"
  by (simp_all add: halt_def)

lemma cost_split_add [simp]: "cost_split (add_accounting d a)"
  by (simp add: cost_split_def add_accounting_def Let_def)

text \<open>Each operation keeps a well-formed state well-formed.\<close>

definition stores :: "(task_state \<Rightarrow> bool) \<Rightarrow> task_state edit \<Rightarrow> bool" where
  "stores P e = (case e of Store st' \<Rightarrow> P st' | _ \<Rightarrow> True)"

lemma stores_simps [simp]:
  "stores P (Store st) = P st" "stores P Keep" "stores P (Raise e)"
  "stores P (if c then e1 else e2) = (if c then stores P e1 else stores P e2)"
  by (simp_all add: stores_def)

lemma running_ok: "state_ok node st \<Longrightarrow> stores (state_ok node) (mark_running node p a c r now st)"
  by (simp add: state_ok_def mark_running_def)

lemma paused_ok: "state_ok node st \<Longrightarrow> stores (state_ok node) (mark_paused node a b c reason now st)"
  by (simp add: state_ok_def mark_paused_def)

lemma resumed_ok: "state_ok node st \<Longrightarrow> stores (state_ok node) (mark_resumed node now st)"
  by (simp add: state_ok_def mark_resumed_def)

lemma migrating_ok: "state_ok node st \<Longrightarrow> stores (state_ok node) (mark_migrating node m st)"
  by (simp add: state_ok_def mark_migrating_def)

lemma begin_recovery_ok: "state_ok node st \<Longrightarrow> stores (state_ok node) (begin_recovery node st)"
  by (auto simp: state_ok_def begin_recovery_def)

lemma halting_ok:
  assumes "state_ok node st"
  shows "stores (state_ok node) (mark_stopped st)"
    "stores (state_ok node) (mark_failed e x now st)"
    "stores (state_ok node) (mark_recovery_exhausted e st)"
    "stores (state_ok node) (mark_completed node t m d b x st)"
    "stores (state_ok node) (mark_remote ow g m t st)"
    "stores (state_ok node) (restore_local_after_failure node g e st)"
  using assms
  by (simp_all add: state_ok_def mark_stopped_def mark_failed_def mark_recovery_exhausted_def
      mark_completed_def mark_remote_def restore_local_after_failure_def)

lemma bookkeeping_ok:
  "state_ok node st \<Longrightarrow> stores (state_ok node) (set_artifact_digests ds st)"
  "state_ok node st \<Longrightarrow> stores (state_ok node) (record_accounting d st)"
  by (simp_all add: state_ok_def set_artifact_digests_def record_accounting_def)

lemma schedule_ok: "state_ok node st \<Longrightarrow> stores (state_ok node) (schedule_recovery t st)"
  by (cases "task_status st") (simp_all add: state_ok_def schedule_recovery_def)

lemma claim_ok:
  "state_ok node st \<Longrightarrow> \<forall>a. acc = Some a \<longrightarrow> cost_split a \<Longrightarrow>
   stores (state_ok node) (claim_local node g m ds t acc st)"
  by (cases acc) (simp_all add: state_ok_def claim_local_def)

lemma apply_ok:
  "state_ok node st \<Longrightarrow> \<forall>a. ou_accounting u = Some a \<longrightarrow> cost_split a \<Longrightarrow>
   stores (state_ok node) (apply_ownership node u st)"
  by (cases "ou_accounting u"; cases "ou_status u = Some Completed"; cases "ou_owner u = node")
     (simp_all add: state_ok_def apply_ownership_def Let_def)

lemmas edit_ok_lemmas = running_ok paused_ok resumed_ok migrating_ok begin_recovery_ok halting_ok
  bookkeeping_ok schedule_ok claim_ok apply_ok

lemma edit_ok: "state_ok node st \<Longrightarrow> trusted_op op \<Longrightarrow> stores (state_ok node) (edit_of node op st)"
  by (cases op) (simp_all only: edit_of.simps trusted_op.simps edit_ok_lemmas)

section \<open>The registry invariant\<close>

definition registry_inv :: "registry \<Rightarrow> bool" where
  "registry_inv reg \<longleftrightarrow> dict_ok (definitions reg)
   \<and> (\<forall>t d. dict_get (definitions reg) t = Some d \<longrightarrow>
        profile_task_id (profile d) = t \<and> wf_definition d \<and> dict_get (state_files reg) t \<noteq> None)
   \<and> (\<forall>t st. dict_get (state_files reg) t = Some st \<longrightarrow>
        state_task_id st = t \<and> state_ok (registry_node reg) st)"

lemma get_state_Inr_iff:
  "get_state reg t = Inr st \<longleftrightarrow>
     (\<exists>d. dict_get (definitions reg) t = Some d) \<and> dict_get (state_files reg) t = Some st"
  by (auto simp: get_state_def get_definition_def split: option.splits)

lemma write_state_select [simp]:
  "definitions (write_state now st reg) = definitions reg"
  "registry_node (write_state now st reg) = registry_node reg"
  "dict_get (state_files (write_state now st reg)) t =
     (if t = state_task_id st then Some (st\<lparr>updated_at := now\<rparr>) else dict_get (state_files reg) t)"
  by (simp_all add: write_state_def)

lemma state_ok_touch [simp]: "state_ok node (st\<lparr>updated_at := now\<rparr>) = state_ok node st"
  by (simp add: state_ok_def)

lemma registry_inv_write:
  "registry_inv reg \<Longrightarrow> state_ok (registry_node reg) st \<Longrightarrow> registry_inv (write_state now st reg)"
  by (auto simp: registry_inv_def)

lemma run_edit_inv:
  assumes "registry_inv reg" "trusted_op op"
  shows "registry_inv (fst (run_edit (edit_of (registry_node reg) op) written t reg))"
proof (cases "get_state reg t")
  case (Inr st)
  then have "dict_get (state_files reg) t = Some st" by (simp add: get_state_Inr_iff)
  with assms(1) have "state_ok (registry_node reg) st" by (simp add: registry_inv_def)
  with edit_ok [OF this assms(2)] assms(1) Inr show ?thesis
    by (cases "edit_of (registry_node reg) op st") (simp_all add: run_edit_def registry_inv_write)
qed (use assms in \<open>simp add: run_edit_def\<close>)

lemma initial_state_ok [simp]:
  "state_ok node (initial_state node now p)" "state_task_id (initial_state node now p) = profile_task_id p"
  by (auto simp: state_ok_def initial_state_def cost_split_def initial_accounting_def no_process_def)

lemma register_inv:
  assumes "registry_inv reg" "wf_definition d"
  shows "registry_inv (fst (register_definition now d reg))"
  using assms
  by (auto simp: register_definition_def initialize_state_if_missing_def registry_inv_def Let_def
      split: option.split)

text \<open>
  The runs of a registry: its named operations and registrations.  The raw \<open>set_state\<close>, by which a
  rolled back activation writes back a state it saved, is treated with the migration.
\<close>

inductive registry_run :: "registry \<Rightarrow> registry \<Rightarrow> bool" where
  start: "registry_run reg reg"
| op: "registry_run reg reg' \<Longrightarrow> trusted_op op \<Longrightarrow>
       registry_run reg (fst (run_edit (edit_of (registry_node reg') op) written t reg'))"
| new_task: "registry_run reg reg' \<Longrightarrow> wf_definition d \<Longrightarrow>
       registry_run reg (fst (register_definition now d reg'))"

lemma registry_run_inv: "registry_run reg reg' \<Longrightarrow> registry_inv reg \<Longrightarrow> registry_inv reg'"
  by (induction rule: registry_run.induct) (auto intro: run_edit_inv register_inv)

lemma load_definitions_inv:
  "load_definitions now ds reg = Inr reg' \<Longrightarrow> \<forall>d \<in> set ds. wf_definition d \<Longrightarrow>
   registry_inv reg \<Longrightarrow> registry_inv reg'"
proof (induction ds arbitrary: reg)
  case (Cons d ds)
  let ?t = "profile_task_id (profile d)"
  from Cons.prems(1) have new: "dict_get (definitions reg) ?t = None"
    and rest: "load_definitions now ds (initialize_state_if_missing now d
        (reg\<lparr>definitions := dict_put ?t d (definitions reg)\<rparr>)) = Inr reg'"
    by (auto simp: Let_def split: if_splits)
  from register_inv [OF Cons.prems(3), of d now] Cons.prems(2) new
  have "registry_inv (initialize_state_if_missing now d (reg\<lparr>definitions := dict_put ?t d (definitions reg)\<rparr>))"
    by (simp add: register_definition_def Let_def)
  with Cons.IH [OF rest] Cons.prems(2) show ?case by simp
qed simp

section \<open>Capacity queries are total and consistent\<close>

lemma collect_results_Inr:
  "(\<And>x. x \<in> set xs \<Longrightarrow> \<exists>y. f x = Inr y) \<Longrightarrow>
   collect_results (map f xs) = Inr (map (\<lambda>x. projr (f x)) xs)"
  by (induction xs) force+

lemma all_states_total:
  assumes "registry_inv reg"
  shows "all_states reg = Inr (map (\<lambda>t. the (dict_get (state_files reg) t)) (sorted_ids reg))"
proof -
  have get: "get_state reg t = Inr (the (dict_get (state_files reg) t))"
    if "t \<in> set (sorted_ids reg)" for t
  proof -
    from that have "t \<in> fst ` set (definitions reg)" by (simp add: sorted_ids_def)
    then obtain d where "dict_get (definitions reg) t = Some d"
      by (metis dict_get_None_iff option.exhaust)
    with assms show ?thesis by (auto simp: get_state_Inr_iff registry_inv_def)
  qed
  then have "all_states reg = Inr (map (\<lambda>t. projr (get_state reg t)) (sorted_ids reg))"
    unfolding all_states_def by (intro collect_results_Inr) blast
  with get show ?thesis by (metis (mono_tags, lifting) map_eq_conv sum.sel(2))
qed

lemma all_states_member:
  assumes "registry_inv reg" "all_states reg = Inr sts" "st \<in> set sts"
  shows "\<exists>d. get_definition reg (state_task_id st) = Inr d \<and> wf_definition d
    \<and> dict_get (state_files reg) (state_task_id st) = Some st"
proof -
  from assms have "st \<in> (\<lambda>t. the (dict_get (state_files reg) t)) ` fst ` set (definitions reg)"
    by (simp add: all_states_total sorted_ids_def) (metis list.set_map set_sort)
  then obtain t where t: "t \<in> fst ` set (definitions reg)"
    and st: "st = the (dict_get (state_files reg) t)" by blast
  from t obtain d where d: "dict_get (definitions reg) t = Some d"
    by (metis dict_get_None_iff option.exhaust)
  with assms(1) st have "dict_get (state_files reg) t = Some st" "state_task_id st = t" "wf_definition d"
    by (auto simp: registry_inv_def)
  with d show ?thesis by (simp add: get_definition_def)
qed

lemma capacity_answers:
  assumes "registry_inv reg"
  obtains k qs where "count_owned reg node = Inr k" "owned_resource_requests reg node = Inr qs"
    "length qs = k" "\<forall>q \<in> set qs. wf_resource_request q"
proof -
  obtain sts where sts: "all_states reg = Inr sts" using all_states_total [OF assms] by blast
  let ?f = "\<lambda>st. bind_result (get_definition reg (state_task_id st)) (\<lambda>d. Inr (resource_request (profile d)))"
  have f: "\<exists>q. ?f st = Inr q \<and> wf_resource_request q" if "st \<in> set sts" for st
    using all_states_member [OF assms sts that] by (auto simp: wf_definition_def wf_profile_def)
  have reqs: "owned_resource_requests reg node = Inr (map (\<lambda>st. projr (?f st)) (filter (occupies node) sts))"
    unfolding owned_resource_requests_def sts bind_result_simps
    by (intro collect_results_Inr) (use f in force)
  show thesis
  proof (rule that [OF _ reqs])
    show "count_owned reg node = Inr (length (filter (occupies node) sts))"
      by (simp add: count_owned_def sts)
    show "\<forall>q \<in> set (map (\<lambda>st. projr (?f st)) (filter (occupies node) sts)). wf_resource_request q"
      using f by fastforce
  qed simp
qed

interpretation persistent: capacity_registry count_owned owned_resource_requests registry_inv
proof
  fix r n k qs q
  assume inv: "registry_inv r"
  obtain k' qs' where answers: "count_owned r n = Inr k'" "owned_resource_requests r n = Inr qs'"
    "length qs' = k'" "\<forall>q \<in> set qs'. wf_resource_request q"
    using capacity_answers [OF inv] .
  then show "is_ok (count_owned r n)" "is_ok (owned_resource_requests r n)" by simp_all
  show "length qs = k" if "count_owned r n = Inr k" "owned_resource_requests r n = Inr qs"
    using answers that by simp
  show "wf_resource_request q" if "owned_resource_requests r n = Inr qs" "q \<in> set qs"
    using answers that by simp
qed

section \<open>Generations fence ownership\<close>

definition after_edit :: "(task_state \<Rightarrow> task_state edit) \<Rightarrow> task_state \<Rightarrow> task_state" where
  "after_edit f st = (case f st of Store st' \<Rightarrow> st' | _ \<Rightarrow> st)"

lemma after_apply:
  "generation (after_edit (apply_ownership node u) st) =
     (if outdated u st then generation st else ou_generation u)"
  "owner_node_id (after_edit (apply_ownership node u) st) =
     (if outdated u st then owner_node_id st else ou_owner u)"
  by (simp_all add: after_edit_def apply_ownership_def Let_def)

text \<open>Only a newer generation moves ownership, and it always does.\<close>

lemma apply_claim:
  "generation (after_edit (apply_ownership node u) st) = max (generation st) (ou_generation u)"
  "owner_node_id (after_edit (apply_ownership node u) st) =
     (if generation st < ou_generation u then ou_owner u else owner_node_id st)"
  by (auto simp: after_apply outdated_def)

definition receive :: "node_id \<Rightarrow> ownership_update list \<Rightarrow> task_state \<Rightarrow> task_state" where
  "receive node us st = fold (\<lambda>u st. after_edit (apply_ownership node u) st) us st"

lemma receive_simps [simp]:
  "receive node [] st = st"
  "receive node (u # us) st = receive node us (after_edit (apply_ownership node u) st)"
  by (simp_all add: receive_def)

lemma receive_generation:
  "generation (receive node us st) = fold (\<lambda>u g. max g (ou_generation u)) us (generation st)"
  by (induction us arbitrary: st) (simp_all add: apply_claim)

lemma receive_top:
  assumes "generation st = ou_generation u" "owner_node_id st = ou_owner u"
    and "\<forall>v \<in> set us. ou_generation v \<le> ou_generation u"
  shows "generation (receive node us st) = ou_generation u \<and> owner_node_id (receive node us st) = ou_owner u"
  using assms by (induction us arbitrary: st) (simp_all add: apply_claim)

lemma receive_converges:
  assumes "u \<in> set us" "\<forall>v \<in> set us. ou_generation v \<le> ou_generation u
      \<and> (ou_generation v = ou_generation u \<longrightarrow> ou_owner v = ou_owner u)"
    and "generation st \<le> ou_generation u"
    and "generation st = ou_generation u \<longrightarrow> owner_node_id st = ou_owner u"
  shows "generation (receive node us st) = ou_generation u \<and> owner_node_id (receive node us st) = ou_owner u"
  using assms
proof (induction us arbitrary: st)
  case (Cons v us)
  let ?st = "after_edit (apply_ownership node v) st"
  have st: "generation ?st \<le> ou_generation u" "generation ?st = ou_generation u \<longrightarrow> owner_node_id ?st = ou_owner u"
  proof -
    have v: "ou_generation v \<le> ou_generation u" "ou_generation v = ou_generation u \<longrightarrow> ou_owner v = ou_owner u"
      using Cons.prems(2) by simp_all
    show "generation ?st \<le> ou_generation u" using v(1) Cons.prems(3) by (simp add: apply_claim)
    show "generation ?st = ou_generation u \<longrightarrow> owner_node_id ?st = ou_owner u"
      unfolding apply_claim using v(2) Cons.prems(4)
      by (cases "generation st < ou_generation v") (simp_all add: max_def)
  qed
  show ?case
  proof (cases "u \<in> set us")
    case True
    have "\<forall>w \<in> set us. ou_generation w \<le> ou_generation u
        \<and> (ou_generation w = ou_generation u \<longrightarrow> ou_owner w = ou_owner u)"
      using Cons.prems(2) by (meson list.set_intros(2))
    then show ?thesis unfolding receive_simps by (rule Cons.IH [OF True _ st])
  next
    case False
    with Cons.prems(1) have "v = u" by simp
    with st Cons.prems(3) have "generation ?st = ou_generation u" by (simp add: apply_claim)
    with st(2) receive_top [of ?st u us node] Cons.prems(2) show ?thesis by simp
  qed
qed simp

lemma completion_sticky:
  assumes "task_status st = Completed" "ou_generation u \<le> generation st"
  shows "task_status (after_edit (apply_ownership node u) st) = Completed"
  using assms
  by (cases "ou_status u = Some Completed")
     (simp_all add: after_edit_def apply_ownership_def outdated_def Let_def)

fun forces_generation :: "registry_op \<Rightarrow> bool" where
  "forces_generation (MarkRemote ow g m t) = True"
| "forces_generation (RestoreLocal g e) = True"
| "forces_generation _ = False"

lemma stores_Let [simp]: "stores P (Let x f) = stores P (f x)"
  by (simp add: Let_def)

lemma generation_monotone:
  assumes "\<not> forces_generation op"
  shows "stores (\<lambda>st'. generation st \<le> generation st') (edit_of node op st)"
  using assms
  by (cases op; simp add: set_artifact_digests_def mark_running_def mark_paused_def mark_resumed_def
      mark_stopped_def mark_migrating_def mark_failed_def schedule_recovery_def begin_recovery_def
      mark_recovery_exhausted_def mark_completed_def claim_local_def apply_ownership_def
      record_accounting_def outdated_def)

section \<open>Accounting only grows\<close>

definition accounting_le :: "task_accounting \<Rightarrow> task_accounting \<Rightarrow> bool" where
  "accounting_le a b \<longleftrightarrow>
     accumulated_runtime_seconds a \<le> accumulated_runtime_seconds b
   \<and> accumulated_paused_seconds a \<le> accumulated_paused_seconds b
   \<and> accumulated_migration_seconds a \<le> accumulated_migration_seconds b
   \<and> accumulated_compute_cost a \<le> accumulated_compute_cost b
   \<and> accumulated_transfer_cost a \<le> accumulated_transfer_cost b
   \<and> accumulated_compute_carbon a \<le> accumulated_compute_carbon b
   \<and> accumulated_transfer_carbon a \<le> accumulated_transfer_carbon b"

lemma add_accounting_le: "accounting_le a (add_accounting d a)"
  by (simp add: accounting_le_def add_accounting_def Let_def)

lemma accounting_le_totals:
  "accounting_le a b \<Longrightarrow> cost_split a \<Longrightarrow> cost_split b \<Longrightarrow>
   accumulated_cost a \<le> accumulated_cost b \<and> accumulated_carbon a \<le> accumulated_carbon b"
  by (simp add: accounting_le_def cost_split_def)

lemma wf_add_accounting:
  assumes "wf_accounting a"
    and "\<forall>x. delta_completed_units d = Some x \<longrightarrow> 0 \<le> x" "\<forall>x. delta_total_units d = Some x \<longrightarrow> 0 < x"
    and "\<forall>x. delta_fraction d = Some x \<longrightarrow> 0 \<le> x \<and> x \<le> 1" "\<forall>x. delta_rate d = Some x \<longrightarrow> 0 < x"
  shows "wf_accounting (add_accounting d a)"
  using assms by (simp add: wf_accounting_def add_accounting_def Let_def override_def split: option.split)

end
