(* ===== verification/Task_Registry_Claims.thy ===== *)
theory Task_Registry_Claims
  imports Task_Registry_Laws Bid_Arbiter_Claims
begin

text \<open>The claims about task definitions, the task registry and its use by the arbiter.\<close>

section \<open>A concrete task\<close>

definition sample_profile :: task_profile where
  "sample_profile =
     \<lparr>profile_task_id = ''t'', workload_type = ''w'', current_node_id = ''a'', power_kw = 1,
      checkpoint_bytes = 0, data_bytes = 0, prestaged_node_ids = {}, profile_remaining_seconds = Some 60,
      profile_accumulated_cost = 2, cost_cap_usd = None, last_migration_at = None, last_pause_at = None,
      priority = 0, deadline_at = None, resource_request = default_resource_request,
      compatibility = default_requirements\<rparr>"

definition sample_runtime :: process_spec where
  "sample_runtime =
     \<lparr>adapter = PythonModule, spec_module = Some ''m'', spec_command = [], spec_arguments = [],
      resume_arguments = [], environment = [], working_directory = ''.'',
      checkpoint_relative_path = ''c/s'', checkpoint_manifest_relative_path = None,
      readiness_relative_path = None, progress_relative_path = None, completion_relative_path = None,
      output_relative_directory = None, stop_timeout_seconds = 10, minimum_process_count = 1,
      options = None\<rparr>"

definition sample_definition :: task_definition where
  "sample_definition = \<lparr>profile = sample_profile, runtime = sample_runtime, artifacts = []\<rparr>"

definition sample_registry :: registry where
  "sample_registry = initialize_state_if_missing 0 sample_definition
     \<lparr>definitions = [(''t'', sample_definition)], state_files = [], registry_node = ''a''\<rparr>"

definition started_registry :: registry where
  "started_registry =
     fst (run_edit (edit_of ''a'' (MarkRunning 7 None None False 1)) 1 ''t'' sample_registry)"

lemma sample_definition_wf: "wf_definition sample_definition"
proof -
  have "is_ok (validate_runtime sample_runtime)"
    by (simp add: validate_runtime_def sample_runtime_def spec_paths_def unsafe_path_def
        safe_relative_def is_absolute_def path_parts_def)
  then show ?thesis
    by (simp add: wf_definition_def sample_definition_def validate_artifacts_def wf_profile_def
        sample_profile_def)
qed

lemma sample_create: "create_registry 0 [sample_definition] [] ''a'' = Inr sample_registry"
  by (simp add: create_registry_def sample_registry_def dict_put_def sample_definition_def
      sample_profile_def Let_def)

lemma started_run: "registry_run sample_registry started_registry"
  using registry_run.op [OF registry_run.start, of "MarkRunning 7 None None False 1" sample_registry 1 "''t''"]
  by (simp add: started_registry_def sample_registry_def initialize_state_if_missing_def)

section \<open>The claims\<close>

text \<open>
  Every path a task definition may carry (working directory, checkpoint, manifest, readiness,
  progress, completion, output, artifact target) leads below the directory it is joined to: no
  sequence of \<open>..\<close> in a definition the code accepts leaves the directory of the task.
\<close>

theorem definition_paths_stay_inside:
  assumes "wf_definition d"
    and "raw \<in> {working_directory (runtime d), checkpoint_relative_path (runtime d)}
        \<union> set_option (checkpoint_manifest_relative_path (runtime d))
        \<union> set_option (readiness_relative_path (runtime d)) \<union> set_option (progress_relative_path (runtime d))
        \<union> set_option (completion_relative_path (runtime d)) \<union> set_option (output_relative_directory (runtime d))
        \<union> target_relative_directory ` set (artifacts d)"
  shows "\<exists>below. resolve base (path_parts raw) = base @ below \<and> join_path base raw = base @ below"
proof -
  have "is_ok (validate_runtime (runtime d))" using assms(1) by (simp add: wf_definition_def)
  note paths = validate_runtime_paths [OF this]
  have "safe_relative (target_relative_directory x)" if "x \<in> set (artifacts d)" for x
    using assms(1) that by (auto simp: wf_definition_def validate_artifact_def split: if_splits)
  with assms(2) paths have "safe_relative raw" by (auto simp: elem_set)
  then show ?thesis using safe_join resolve_safe by (auto simp: safe_relative_def)
qed

theorem definition_paths_stay_inside_witness:
  "\<exists>below. resolve [''tasks'', ''t''] (path_parts ''c/s'') = [''tasks'', ''t''] @ below"
proof -
  have "''c/s'' \<in> {working_directory (runtime sample_definition), checkpoint_relative_path (runtime sample_definition)}
        \<union> set_option (checkpoint_manifest_relative_path (runtime sample_definition))
        \<union> set_option (readiness_relative_path (runtime sample_definition))
        \<union> set_option (progress_relative_path (runtime sample_definition))
        \<union> set_option (completion_relative_path (runtime sample_definition))
        \<union> set_option (output_relative_directory (runtime sample_definition))
        \<union> target_relative_directory ` set (artifacts sample_definition)"
    by (simp add: sample_definition_def sample_runtime_def)
  from definition_paths_stay_inside [OF sample_definition_wf this] show ?thesis by blast
qed

text \<open>
  C13. Whatever sequence of registry operations follows the creation of a registry, a state with a
  process identifier belongs to a task this node owns, in a status that has a process; and a task
  that is running, paused, migrating or recovering here is owned here.
\<close>

theorem processes_only_for_owned_tasks:
  assumes "create_registry now ds [] node = Inr reg0" and "\<forall>d \<in> set ds. wf_definition d"
    and "registry_run reg0 reg" and "get_state reg t = Inr st"
  shows "(pid (process st) \<noteq> None \<longrightarrow>
            owner_node_id st = registry_node reg \<and> task_status st \<in> {Running, Paused, Migrating})
    \<and> (task_status st \<in> {Running, Paused, Migrating, Recovering} \<longrightarrow> owner_node_id st = registry_node reg)"
proof -
  have "registry_inv \<lparr>definitions = [], state_files = [], registry_node = node\<rparr>"
    by (simp add: registry_inv_def)
  with assms(1,2) have "registry_inv reg0" by (auto simp: create_registry_def intro: load_definitions_inv)
  with assms(3) have "registry_inv reg" by (rule registry_run_inv)
  with assms(4) have "state_ok (registry_node reg) st" by (auto simp: get_state_Inr_iff registry_inv_def)
  then show ?thesis unfolding state_ok_def by blast
qed

theorem processes_only_for_owned_tasks_witness:
  "\<exists>st. get_state started_registry ''t'' = Inr st \<and> pid (process st) = Some 7
     \<and> owner_node_id st = registry_node started_registry"
proof -
  have state: "\<exists>st. get_state started_registry ''t'' = Inr st \<and> pid (process st) = Some 7"
    by (simp add: started_registry_def run_edit_def get_state_def get_definition_def sample_registry_def
        initialize_state_if_missing_def write_state_def mark_running_def sample_definition_def
        sample_profile_def initial_state_def dict_get_Cons)
  then obtain st where st: "get_state started_registry ''t'' = Inr st" "pid (process st) = Some 7" by blast
  have "\<forall>d \<in> set [sample_definition]. wf_definition d" by (simp add: sample_definition_wf)
  from processes_only_for_owned_tasks [OF sample_create this started_run st(1)] st show ?thesis by simp
qed

text \<open>
  Ownership generations fence the past: no registry operation but the two by which the
  migration service imposes its own outcome (\<open>mark_remote\<close>, \<open>restore_local_after_failure\<close>) lowers
  the generation of a task; in particular neither a gossiped update nor a claim does.
\<close>

theorem generation_never_decreases:
  assumes "\<not> forces_generation op"
  shows "generation st \<le> generation (after_edit (edit_of node op) st)"
  using generation_monotone [OF assms, of st node]
  by (cases "edit_of node op st") (simp_all add: after_edit_def)

theorem generation_never_decreases_witness:
  "0 \<le> generation (after_edit (edit_of ''a'' (ClaimLocal 3 ''m'' [] 0 None)) (initial_state ''a'' 0 sample_profile))"
  using generation_never_decreases [of "ClaimLocal 3 ''m'' [] 0 None" "initial_state ''a'' 0 sample_profile" "''a''"]
  by (simp add: initial_state_def)

text \<open>
  C14. Gossip converges: a node that receives ownership updates in any order and any number of
  times ends with the owner and the generation of the newest one, provided one generation has one
  owner; two nodes that have received the same updates agree, whatever they knew before.
\<close>

theorem ownership_gossip_converges:
  assumes "u \<in> set us"
    and "\<forall>v \<in> set us. ou_generation v \<le> ou_generation u
      \<and> (ou_generation v = ou_generation u \<longrightarrow> ou_owner v = ou_owner u)"
    and "generation st \<le> ou_generation u"
    and "generation st = ou_generation u \<longrightarrow> owner_node_id st = ou_owner u"
  shows "generation (receive node us st) = ou_generation u \<and> owner_node_id (receive node us st) = ou_owner u"
  using receive_converges [OF assms] .

definition sample_update :: "node_id \<Rightarrow> int \<Rightarrow> ownership_update" where
  "sample_update owner g =
     \<lparr>ou_task_id = ''t'', ou_owner = owner, ou_generation = g, ou_migration_id = None,
      ou_migration_at = None, ou_artifact_digests = [], ou_status = None, ou_completed_at = None,
      ou_manifest_sha256 = None, ou_output_bytes = None, ou_accounting = None\<rparr>"

theorem ownership_gossip_converges_witness:
  "owner_node_id (receive ''a'' [sample_update ''b'' 2, sample_update ''c'' 1] (initial_state ''a'' 0 sample_profile)) = ''b''
   \<and> owner_node_id (receive ''d'' [sample_update ''c'' 1, sample_update ''b'' 2, sample_update ''c'' 1] (initial_state ''d'' 0 sample_profile)) = ''b''"
  using ownership_gossip_converges [of "sample_update ''b'' 2" "[sample_update ''b'' 2, sample_update ''c'' 1]"
      "initial_state ''a'' 0 sample_profile" "''a''"]
    ownership_gossip_converges [of "sample_update ''b'' 2"
      "[sample_update ''c'' 1, sample_update ''b'' 2, sample_update ''c'' 1]"
      "initial_state ''d'' 0 sample_profile" "''d''"]
  by (simp add: sample_update_def initial_state_def)

text \<open>
  A completed task stays completed under every update of its own or an older generation.
\<close>

theorem completion_survives_stale_updates:
  assumes "task_status st = Completed" and "\<forall>u \<in> set us. ou_generation u \<le> generation st"
  shows "task_status (receive node us st) = Completed \<and> generation (receive node us st) = generation st"
  using assms
proof (induction us arbitrary: st)
  case (Cons u us)
  let ?st = "after_edit (apply_ownership node u) st"
  from Cons.prems have "task_status ?st = Completed" by (intro completion_sticky) simp_all
  moreover have g: "generation ?st = generation st" using Cons.prems(2) by (simp add: apply_claim)
  ultimately show ?case using Cons.IH [of ?st] Cons.prems(2) by simp
qed simp

theorem completion_survives_stale_updates_witness:
  "task_status (receive ''a'' [sample_update ''b'' 0, sample_update ''a'' 0]
     ((initial_state ''a'' 0 sample_profile)\<lparr>task_status := Completed\<rparr>)) = Completed"
  using completion_survives_stale_updates [of "(initial_state ''a'' 0 sample_profile)\<lparr>task_status := Completed\<rparr>"
      "[sample_update ''b'' 0, sample_update ''a'' 0]" "''a''"]
  by (simp add: sample_update_def initial_state_def)

text \<open>
  Accounting is monotone and its totals add up: an increment never lowers a component, whatever
  the sign of its arguments, and the stored totals are the sums of their components.
\<close>

theorem accounting_monotone:
  "accounting_le a (add_accounting d a)
   \<and> accumulated_cost (add_accounting d a)
       = accumulated_compute_cost (add_accounting d a) + accumulated_transfer_cost (add_accounting d a)
   \<and> accumulated_carbon (add_accounting d a)
       = accumulated_compute_carbon (add_accounting d a) + accumulated_transfer_carbon (add_accounting d a)"
  using add_accounting_le cost_split_add unfolding cost_split_def by blast

lemma started_inv: "registry_inv started_registry"
proof -
  have "registry_inv \<lparr>definitions = [], state_files = [], registry_node = ''a''\<rparr>"
    by (simp add: registry_inv_def)
  from load_definitions_inv [OF sample_create [unfolded create_registry_def] _ this]
  have "registry_inv sample_registry" by (simp add: sample_definition_wf)
  with started_run show ?thesis by (rule registry_run_inv)
qed

lemma started_requests: "owned_resource_requests started_registry ''a'' = Inr [default_resource_request]"
  by (simp add: owned_resource_requests_def all_states_def sorted_ids_def started_registry_def
      run_edit_def get_state_def get_definition_def sample_registry_def initialize_state_if_missing_def
      write_state_def mark_running_def sample_definition_def sample_profile_def initial_state_def
      dict_get_Cons occupies_def holds_capacity_def)

text \<open>
  The arbiter over the persistent registry: if the tasks the registry counts and the leases of
  the store are within the slots and the resources of the node, they still are after a step.
\<close>

theorem arbiter_over_registry_keeps_capacity:
  assumes "registry_inv reg" and "store_inv s" and "requests_wf s"
    and "wf_auction_policy (arbiter_policy a)" and "slot_capacity a = Some c"
    and "owned_resource_requests reg node = Inr qs"
    and "length qs + length (reservations_of s) \<le> nat c"
    and "fits_capacity (used_resources qs (reservations_of s)) (node_resources a)"
  shows "count_owned reg node = Inr (length qs)
    \<and> length qs + length (reservations_of (fst (run_once a (length qs) qs now clock s))) \<le> nat c
    \<and> fits_capacity (used_resources qs (reservations_of (fst (run_once a (length qs) qs now clock s))))
        (node_resources a)"
proof -
  obtain qs' where "count_owned reg node = Inr (length qs')" "owned_resource_requests reg node = Inr qs'"
    using persistent.answers [OF assms(1), of node] by blast
  with persistent.step_keeps_capacity [OF assms, of now clock] assms(6) show ?thesis by (simp add: Let_def)
qed

theorem arbiter_over_registry_keeps_capacity_witness:
  "length (reservations_of (fst (run_once sample_arbiter 1 [default_resource_request] 10 (\<lambda>_. 10)
      (contended_store ''u'')))) = 0"
proof -
  have "store_inv (contended_store ''u'')" "requests_wf (contended_store ''u'')"
    and policy: "wf_auction_policy (arbiter_policy sample_arbiter)"
    using contended_ready by (simp_all add: admission_ready_def)
  moreover have res: "reservations_of (contended_store ''u'') = []"
    by (simp add: reservations_of_def contended_bids)
  moreover have slots: "slot_capacity sample_arbiter = Some 1" by (simp add: sample_arbiter_def)
  moreover have "fits_capacity (used_resources [default_resource_request] (reservations_of (contended_store ''u'')))
      (node_resources sample_arbiter)"
    by (simp add: res used_resources_def sample_arbiter_def fits_capacity_def within_limit_def
        default_resource_request_def)
  ultimately show ?thesis
    using arbiter_over_registry_keeps_capacity [OF started_inv _ _ policy slots started_requests, of "contended_store ''u''" 10 "\<lambda>_. 10"]
    by simp
qed

end
