(* ===== verification/Memory_Registry.thy ===== *)
theory Memory_Registry
  imports Capacity_Interface
begin

text \<open>
  \<open>magellan/state/task_registry.py\<close>: the in-memory registry of task profiles a peer knows, the
  second provider of the arbiter's capacity protocol.
\<close>

type_synonym memory_registry = "task_profile dict"

fun load_tasks :: "task_profile list \<Rightarrow> memory_registry \<Rightarrow> memory_registry result" where
  "load_tasks [] reg = Inr reg"
| "load_tasks (p # ps) reg =
     (if dict_get reg (profile_task_id p) \<noteq> None
      then Inl (ValueError (''Duplicate task ID: '' @ profile_task_id p))
      else load_tasks ps (dict_put (profile_task_id p) p reg))"

definition create_tasks :: "task_profile list \<Rightarrow> memory_registry result" where
  "create_tasks ps = load_tasks ps []"

definition all_tasks :: "memory_registry \<Rightarrow> task_profile list" where
  "all_tasks reg = map snd reg"

definition owned_tasks :: "memory_registry \<Rightarrow> node_id \<Rightarrow> task_profile list" where
  "owned_tasks reg node = filter (\<lambda>p. current_node_id p = node) (all_tasks reg)"

definition memory_count_owned :: "memory_registry \<Rightarrow> node_id \<Rightarrow> nat" where
  "memory_count_owned reg node = length (filter (\<lambda>p. current_node_id p = node) (all_tasks reg))"

definition memory_owned_requests :: "memory_registry \<Rightarrow> node_id \<Rightarrow> task_resource_request list" where
  "memory_owned_requests reg node =
     map resource_request (filter (\<lambda>p. current_node_id p = node) (all_tasks reg))"

definition get_task :: "memory_registry \<Rightarrow> task_id \<Rightarrow> task_profile result" where
  "get_task reg t =
     (case dict_get reg t of None \<Rightarrow> Inl (KeyError (''Unknown Magellan task: '' @ t)) | Some p \<Rightarrow> Inr p)"

definition memory_inv :: "memory_registry \<Rightarrow> bool" where
  "memory_inv reg \<longleftrightarrow> dict_ok reg \<and> (\<forall>(t, p) \<in> set reg. profile_task_id p = t \<and> wf_profile p)"

lemma memory_inv_put:
  assumes "memory_inv reg" "dict_get reg (profile_task_id p) = None" "wf_profile p"
  shows "memory_inv (dict_put (profile_task_id p) p reg)"
  using assms by (auto simp: memory_inv_def dict_put_fresh dict_ok_def dict_get_None_iff)

lemma load_tasks_spec:
  "load_tasks ps reg = Inr reg' \<Longrightarrow> memory_inv reg \<Longrightarrow> \<forall>p \<in> set ps. wf_profile p \<Longrightarrow>
   memory_inv reg' \<and> all_tasks reg' = all_tasks reg @ ps"
proof (induction ps arbitrary: reg)
  case (Cons p ps)
  let ?reg = "dict_put (profile_task_id p) p reg"
  from Cons.prems(1) have new: "dict_get reg (profile_task_id p) = None" and rest: "load_tasks ps ?reg = Inr reg'"
    by (auto split: if_splits)
  have "memory_inv ?reg" using memory_inv_put [OF Cons.prems(2) new] Cons.prems(3) by simp
  moreover have "all_tasks ?reg = all_tasks reg @ [p]" by (simp add: all_tasks_def dict_put_fresh [OF new])
  ultimately show ?case using Cons.IH [OF rest] Cons.prems(3) by simp
qed simp

lemma load_tasks_error:
  "(\<exists>e. load_tasks ps reg = Inl e) \<longleftrightarrow>
     \<not> distinct (map profile_task_id ps) \<or> profile_task_id ` set ps \<inter> fst ` set reg \<noteq> {}"
proof (induction ps arbitrary: reg)
  case (Cons p ps)
  show ?case
  proof (cases "dict_get reg (profile_task_id p) = None")
    case True
    then show ?thesis
      using Cons.IH [of "dict_put (profile_task_id p) p reg"]
      by (auto simp: fst_set_dict_put dict_get_None_iff)
  next
    case False
    then have "profile_task_id p \<in> fst ` set reg" by (simp add: dict_get_None_iff)
    with False show ?thesis by auto
  qed
qed simp

interpretation memory: capacity_registry
  "\<lambda>r n. Inr (memory_count_owned r n)" "\<lambda>r n. Inr (memory_owned_requests r n)" memory_inv
  by unfold_locales
     (auto simp: memory_count_owned_def memory_owned_requests_def memory_inv_def all_tasks_def
       wf_profile_def split: prod.splits)

end
