(* ===== verification/Carbon_Forecast.thy ===== *)
theory Carbon_Forecast
  imports Config_Models
begin

text \<open>
  \<open>magellan/carbon/forecast.py\<close> and the forecasting entry of \<open>magellan/carbon/store.py\<close>: the
  bounded linear trend with its fallbacks.  A series is the list of its (instant, value) samples in
  the order of time, as the index of the loaded frame is sorted and without duplicates.  The
  window average of \<open>CarbonStore.average\<close> rests on the interpolation of a third-party library and
  is a parameter, \<open>window_average\<close>.
\<close>

section \<open>Policy and estimate\<close>

datatype forecast_provider = LinearTrend | Persistence

record forecast_policy =
  forecast_enabled :: bool
  provider :: forecast_provider
  history_points :: nat
  minimum_points :: nat
  forecast_sample_seconds :: real
  maximum_change_per_hour :: real
  stale_after_seconds :: real
  configured_fallback :: "real option"
  forecast_confidence_floor :: real
  persistence_confidence :: real
  fallback_confidence :: real

definition wf_forecast_policy :: "forecast_policy \<Rightarrow> bool" where
  "wf_forecast_policy p \<longleftrightarrow> 1 \<le> minimum_points p \<and> minimum_points p \<le> history_points p
   \<and> 0 < forecast_sample_seconds p \<and> 0 \<le> maximum_change_per_hour p \<and> 0 < stale_after_seconds p
   \<and> (\<forall>x. configured_fallback p = Some x \<longrightarrow> 0 \<le> x)
   \<and> 0 \<le> forecast_confidence_floor p \<and> forecast_confidence_floor p \<le> 1
   \<and> 0 \<le> persistence_confidence p \<and> persistence_confidence p \<le> 1
   \<and> 0 \<le> fallback_confidence p \<and> fallback_confidence p \<le> 1"

definition validate_forecast_window :: "forecast_policy \<Rightarrow> forecast_policy result" where
  "validate_forecast_window p =
     (if minimum_points p > history_points p
      then Inl (ValueError ''minimum_points cannot exceed history_points'') else Inr p)"

datatype forecast_source = ConfiguredFallback | PersistenceSource | LinearTrendSource | LegacyAverage

datatype freshness = Fresh | Stale | Unavailable

record forecast_estimate =
  estimate_node :: node_id
  average_g_per_kwh :: real
  current_g_per_kwh :: real
  forecast_source :: forecast_source
  confidence :: real
  forecast_freshness :: freshness
  estimate_history_points :: nat
  forecast_start :: datetime
  forecast_horizon :: real
  generated_at :: datetime
  latest_sample_at :: "datetime option"
  sample_age_seconds :: "real option"
  slope_per_hour :: "real option"
  residual_rmse :: "real option"
  clamped :: bool

section \<open>Least squares\<close>

type_synonym series = "(datetime \<times> real) list"

definition mean :: "real list \<Rightarrow> real" where
  "mean xs = sum_list xs / real (length xs)"

definition linear_fit :: "series \<Rightarrow> real \<times> real \<times> real" where
  "linear_fit samples =
     (let latest = fst (last samples);
          xs = map (\<lambda>(t, _). (t - latest) / 3600) samples;
          ys = map snd samples;
          mean_x = mean xs; mean_y = mean ys;
          denominator = sum_list (map (\<lambda>x. (x - mean_x)\<^sup>2) xs);
          slope = (if denominator > 0
                   then sum_list (map (\<lambda>(x, y). (x - mean_x) * (y - mean_y)) (zip xs ys)) / denominator
                   else 0);
          intercept = mean_y - slope * mean_x;
          residuals = map (\<lambda>(x, y). y - (intercept + slope * x)) (zip xs ys)
      in (intercept, slope, sqrt (sum_list (map (\<lambda>r. r * r) residuals) / real (length residuals))))"

section \<open>The provider\<close>

definition fallback_estimate ::
  "node_id \<Rightarrow> datetime \<Rightarrow> datetime \<Rightarrow> real \<Rightarrow> forecast_source \<Rightarrow> real \<Rightarrow> real \<Rightarrow> freshness
     \<Rightarrow> nat \<Rightarrow> datetime option \<Rightarrow> real option \<Rightarrow> forecast_estimate" where
  "fallback_estimate node observed start duration src v conf fresh points latest age =
     \<lparr>estimate_node = node, average_g_per_kwh = max 0 v, current_g_per_kwh = max 0 v,
      forecast_source = src, confidence = max 0 (min 1 conf), forecast_freshness = fresh,
      estimate_history_points = points, forecast_start = start, forecast_horizon = duration,
      generated_at = observed, latest_sample_at = latest, sample_age_seconds = age,
      slope_per_hour = None, residual_rmse = None, clamped = False\<rparr>"

definition history_of :: "forecast_policy \<Rightarrow> datetime \<Rightarrow> series \<Rightarrow> series" where
  "history_of p observed s =
     (let past = filter (\<lambda>(t, _). t \<le> observed) s
      in drop (length past - history_points p) past)"

definition sample_offsets :: "real \<Rightarrow> real \<Rightarrow> real \<Rightarrow> real list" where
  "sample_offsets start_offset duration sample_seconds =
     (if duration = 0 then [start_offset]
      else let n = max 2 (nat \<lfloor>duration / sample_seconds\<rfloor> + 1)
           in map (\<lambda>i. start_offset + duration / 3600 * real i / real (n - 1)) [0..<n])"

text \<open>The trend branch of \<open>forecast\<close>, cut at its intermediate results.\<close>

definition trend_slope :: "forecast_policy \<Rightarrow> series \<Rightarrow> real" where
  "trend_slope p history =
     max (- maximum_change_per_hour p) (min (maximum_change_per_hour p) (fst (snd (linear_fit history))))"

definition trend_lower :: "forecast_policy \<Rightarrow> series \<Rightarrow> real" where
  "trend_lower p history = max 0 (Min (set (map snd history)) - maximum_change_per_hour p)"

definition trend_upper :: "forecast_policy \<Rightarrow> series \<Rightarrow> real" where
  "trend_upper p history = Max (set (map snd history)) + maximum_change_per_hour p"

definition trend_raw :: "forecast_policy \<Rightarrow> series \<Rightarrow> datetime \<Rightarrow> real \<Rightarrow> real list" where
  "trend_raw p history start duration =
     map (\<lambda>offset. fst (linear_fit history) + trend_slope p history * offset)
       (sample_offsets ((start - fst (last history)) / 3600) duration (forecast_sample_seconds p))"

definition trend_bounded :: "forecast_policy \<Rightarrow> series \<Rightarrow> datetime \<Rightarrow> real \<Rightarrow> real list" where
  "trend_bounded p history start duration =
     map (\<lambda>v. max (trend_lower p history) (min (trend_upper p history) v)) (trend_raw p history start duration)"

definition trend_clamped :: "forecast_policy \<Rightarrow> series \<Rightarrow> datetime \<Rightarrow> real \<Rightarrow> bool" where
  "trend_clamped p history start duration \<longleftrightarrow>
     trend_slope p history \<noteq> fst (snd (linear_fit history))
   \<or> trend_bounded p history start duration \<noteq> trend_raw p history start duration"

definition trend_confidence :: "forecast_policy \<Rightarrow> series \<Rightarrow> bool \<Rightarrow> real \<Rightarrow> real" where
  "trend_confidence p history was_clamped freshness_factor =
     (let values = set (map snd history);
          dynamic_scale = max (max (Max values - Min values) (snd (last history))) 1;
          fit_factor = max 0 (1 - snd (snd (linear_fit history)) / dynamic_scale);
          point_factor = min 1 (real (length history) / real (history_points p));
          clamp_factor = (if was_clamped then 3 / 4 else 1)
      in max (forecast_confidence_floor p)
           (min 1 (point_factor * fit_factor * freshness_factor * clamp_factor)))"

definition trend_estimate ::
  "node_id \<Rightarrow> forecast_policy \<Rightarrow> series \<Rightarrow> datetime \<Rightarrow> datetime \<Rightarrow> real \<Rightarrow> real \<Rightarrow> real
     \<Rightarrow> forecast_estimate" where
  "trend_estimate node p history observed start duration age freshness_factor =
     \<lparr>estimate_node = node,
      average_g_per_kwh = mean (map (max 0) (trend_bounded p history start duration)),
      current_g_per_kwh = snd (last history), forecast_source = LinearTrendSource,
      confidence = trend_confidence p history (trend_clamped p history start duration) freshness_factor,
      forecast_freshness = Fresh, estimate_history_points = length history,
      forecast_start = start, forecast_horizon = duration, generated_at = observed,
      latest_sample_at = Some (fst (last history)), sample_age_seconds = Some age,
      slope_per_hour = Some (trend_slope p history), residual_rmse = Some (snd (snd (linear_fit history))),
      clamped = trend_clamped p history start duration\<rparr>"

definition provider_forecast ::
  "node_id \<Rightarrow> series \<Rightarrow> datetime \<Rightarrow> datetime \<Rightarrow> real \<Rightarrow> forecast_policy \<Rightarrow> forecast_estimate result" where
  "provider_forecast node s observed start duration0 p =
     (let duration = max 0 duration0; history = history_of p observed s
      in if history = []
         then case configured_fallback p of
           None \<Rightarrow> Inl (ValueError (''No carbon samples or configured fallback for '' @ node))
         | Some v \<Rightarrow> Inr (fallback_estimate node observed start duration ConfiguredFallback v
                       (fallback_confidence p) Unavailable 0 None None)
         else
           let (latest_at, latest_value) = last history;
               age = max 0 (observed - latest_at);
               freshness_factor = max 0 (1 - age / stale_after_seconds p);
               points = length history
           in if age > stale_after_seconds p
              then case configured_fallback p of
                Some v \<Rightarrow> Inr (fallback_estimate node observed start duration ConfiguredFallback v
                            (fallback_confidence p) Stale points (Some latest_at) (Some age))
              | None \<Rightarrow> Inr (fallback_estimate node observed start duration PersistenceSource
                            latest_value 0 Stale points (Some latest_at) (Some age))
              else if provider p = Persistence \<or> points < minimum_points p
              then Inr (fallback_estimate node observed start duration PersistenceSource latest_value
                     (persistence_confidence p * min 1 (real points / real (minimum_points p)) * freshness_factor)
                     Fresh points (Some latest_at) (Some age))
              else Inr (trend_estimate node p history observed start duration age freshness_factor))"

section \<open>The store's entry\<close>

record carbon_store =
  carbon_cluster :: cluster_config
  series_by_node :: "series dict"

definition store_forecast ::
  "carbon_store \<Rightarrow> node_id \<Rightarrow> datetime \<Rightarrow> datetime \<Rightarrow> real \<Rightarrow> forecast_policy \<Rightarrow> forecast_estimate result" where
  "store_forecast cs node observed start duration p =
     (if duration < 0 then Inl (ValueError ''duration_seconds must be non-negative'')
      else bind_result (get_node (carbon_cluster cs) node) (\<lambda>n.
        let p' = (if configured_fallback p = None \<and> carbon_fallback_g_per_kwh n \<noteq> None
                  then p\<lparr>configured_fallback := carbon_fallback_g_per_kwh n\<rparr> else p)
        in case dict_get (series_by_node cs) node of
             None \<Rightarrow> Inl (KeyError node)
           | Some s \<Rightarrow> provider_forecast node s observed start duration p'))"

definition forecast_or_average ::
  "(node_id \<Rightarrow> datetime \<Rightarrow> real \<Rightarrow> real result) \<Rightarrow> carbon_store \<Rightarrow> forecast_policy option
     \<Rightarrow> node_id \<Rightarrow> datetime \<Rightarrow> datetime \<Rightarrow> real \<Rightarrow> forecast_estimate result" where
  "forecast_or_average window_average cs policy node observed start duration =
     (case policy of
        Some p \<Rightarrow>
          if forecast_enabled p then store_forecast cs node observed start duration p
          else bind_result (window_average node start duration) (\<lambda>v.
            Inr ((fallback_estimate node observed start duration LegacyAverage 0 0 Unavailable 0 None None)
              \<lparr>average_g_per_kwh := v, current_g_per_kwh := v\<rparr>))
      | None \<Rightarrow>
          bind_result (window_average node start duration) (\<lambda>v.
            Inr ((fallback_estimate node observed start duration LegacyAverage 0 0 Unavailable 0 None None)
              \<lparr>average_g_per_kwh := v, current_g_per_kwh := v\<rparr>)))"

section \<open>Bounds\<close>

lemma sum_list_bounds:
  fixes lo hi :: real
  shows "(\<And>x. x \<in> set xs \<Longrightarrow> lo \<le> x) \<Longrightarrow> real (length xs) * lo \<le> sum_list xs"
    and "(\<And>x. x \<in> set xs \<Longrightarrow> x \<le> hi) \<Longrightarrow> sum_list xs \<le> real (length xs) * hi"
proof -
  show "(\<And>x. x \<in> set xs \<Longrightarrow> lo \<le> x) \<Longrightarrow> real (length xs) * lo \<le> sum_list xs"
    using sum_list_mono [of xs "\<lambda>_. lo" "\<lambda>x. x"] by (simp add: sum_list_triv)
  show "(\<And>x. x \<in> set xs \<Longrightarrow> x \<le> hi) \<Longrightarrow> sum_list xs \<le> real (length xs) * hi"
    using sum_list_mono [of xs "\<lambda>x. x" "\<lambda>_. hi"] by (simp add: sum_list_triv)
qed

lemma mean_bounds:
  assumes "xs \<noteq> []" "\<And>x. x \<in> set xs \<Longrightarrow> lo \<le> x \<and> x \<le> hi"
  shows "lo \<le> mean xs" "mean xs \<le> hi"
proof -
  have "0 < real (length xs)" using assms(1) by simp
  moreover have "real (length xs) * lo \<le> sum_list xs" "sum_list xs \<le> real (length xs) * hi"
    using assms(2) by (simp_all add: sum_list_bounds)
  ultimately show "lo \<le> mean xs" "mean xs \<le> hi"
    by (simp_all add: mean_def pos_le_divide_eq pos_divide_le_eq mult.commute)
qed

lemma sample_offsets_nonempty [simp]: "sample_offsets a d s \<noteq> []"
  by (simp add: sample_offsets_def Let_def)

lemma trend_average_bounds:
  assumes "0 \<le> maximum_change_per_hour p" "history \<noteq> []" "\<forall>v \<in> set (map snd history). 0 \<le> v"
  shows "trend_lower p history \<le> average_g_per_kwh (trend_estimate node p history observed start d age ff)"
    and "average_g_per_kwh (trend_estimate node p history observed start d age ff) \<le> trend_upper p history"
proof -
  let ?vs = "set (map snd history)"
  have ne: "?vs \<noteq> {}" "finite ?vs" using assms(2) by simp_all
  then have "Min ?vs \<in> ?vs" by (intro Min_in)
  then have minmax: "0 \<le> Min ?vs" "Min ?vs \<le> Max ?vs" using assms(3) ne(2) by (blast, simp)
  then have le: "0 \<le> trend_lower p history" "trend_lower p history \<le> trend_upper p history"
    using assms(1) unfolding trend_lower_def trend_upper_def by linarith+
  let ?xs = "map (max 0) (trend_bounded p history start d)"
  have "?xs \<noteq> []" by (simp add: trend_bounded_def trend_raw_def)
  moreover have "trend_lower p history \<le> x \<and> x \<le> trend_upper p history" if "x \<in> set ?xs" for x
    using that le by (auto simp: trend_bounded_def)
  ultimately have "trend_lower p history \<le> mean ?xs" "mean ?xs \<le> trend_upper p history"
    using mean_bounds by blast+
  then show "trend_lower p history \<le> average_g_per_kwh (trend_estimate node p history observed start d age ff)"
    "average_g_per_kwh (trend_estimate node p history observed start d age ff) \<le> trend_upper p history"
    by (simp_all add: trend_estimate_def)
qed

lemma fallback_confidence_bounds [simp]:
  "0 \<le> confidence (fallback_estimate n ob st du src v c fr k l ag)"
  "confidence (fallback_estimate n ob st du src v c fr k l ag) \<le> 1"
  by (simp_all add: fallback_estimate_def)

lemma trend_confidence_bounds:
  assumes "wf_forecast_policy p"
  shows "0 \<le> confidence (trend_estimate node p h observed start d age ff)
    \<and> confidence (trend_estimate node p h observed start d age ff) \<le> 1"
proof -
  have "0 \<le> forecast_confidence_floor p" "forecast_confidence_floor p \<le> 1"
    using assms by (simp_all add: wf_forecast_policy_def)
  then have "0 \<le> max (forecast_confidence_floor p) (min 1 c) \<and> max (forecast_confidence_floor p) (min 1 c) \<le> 1" for c
    by (simp add: le_max_iff_disj)
  then show ?thesis unfolding trend_estimate_def trend_confidence_def Let_def forecast_estimate.simps .
qed

lemma estimate_confidence:
  assumes "wf_forecast_policy p"
  shows "on_ok (\<lambda>e. 0 \<le> confidence e \<and> confidence e \<le> 1) (provider_forecast node s observed start d p)"
  unfolding provider_forecast_def Let_def case_prod_unfold
  by (simp add: trend_confidence_bounds [OF assms] split: option.split)

section \<open>No look-ahead\<close>

lemma history_causal:
  "filter (\<lambda>(t, _). t \<le> observed) s = filter (\<lambda>(t, _). t \<le> observed) s' \<Longrightarrow>
   history_of p observed s = history_of p observed s'"
  by (simp add: history_of_def)

lemma history_past: "(t, v) \<in> set (history_of p observed s) \<Longrightarrow> t \<le> observed \<and> (t, v) \<in> set s"
  using in_set_dropD [of "(t, v)" _ "filter (\<lambda>(t, _). t \<le> observed) s"]
  by (auto simp: history_of_def Let_def)

lemma provider_causal:
  "filter (\<lambda>(t, _). t \<le> observed) s = filter (\<lambda>(t, _). t \<le> observed) s' \<Longrightarrow>
   provider_forecast node s observed start d p = provider_forecast node s' observed start d p"
  by (simp add: provider_forecast_def history_causal [of observed s s'])

section \<open>The fit is exact on affine data\<close>

lemma mean_affine: "xs \<noteq> [] \<Longrightarrow> mean (map (\<lambda>x. a + b * x) xs) = a + b * mean xs"
proof -
  assume "xs \<noteq> []"
  moreover have "sum_list (map (\<lambda>x. a + b * x) xs) = real (length xs) * a + b * sum_list xs"
    by (induction xs) (simp_all add: algebra_simps)
  ultimately show ?thesis by (simp add: mean_def field_simps)
qed

lemma zip_map_self: "map f (zip xs (map g xs)) = map (\<lambda>x. f (x, g x)) xs"
  by (induction xs) simp_all

lemma linear_fit_affine:
  fixes samples :: series
  defines "latest \<equiv> fst (last samples)"
  defines "xs \<equiv> map (\<lambda>s. (fst s - latest) / 3600) samples"
  assumes affine: "\<forall>(t, v) \<in> set samples. v = a + b * ((t - latest) / 3600)"
    and spread: "0 < sum_list (map (\<lambda>x. (x - mean xs)\<^sup>2) xs)"
  shows "linear_fit samples = (a, b, 0)"
proof -
  have ne: "xs \<noteq> []" using spread by auto
  have ys: "map snd samples = map (\<lambda>x. a + b * x) xs"
    using affine by (auto simp: xs_def)
  have xs': "map (\<lambda>(t, _). (t - latest) / 3600) samples = xs"
    by (simp add: xs_def case_prod_unfold)
  have my: "mean (map (\<lambda>x. a + b * x) xs) = a + b * mean xs" by (rule mean_affine [OF ne])
  have "sum_list (map (\<lambda>x. (x - mean xs) * (a + b * x - (a + b * mean xs))) xs)
      = b * sum_list (map (\<lambda>x. (x - mean xs)\<^sup>2) xs)"
    unfolding sum_list_const_mult [symmetric]
    by (intro arg_cong [where f = sum_list] map_cong) (simp_all add: power2_eq_square algebra_simps)
  with spread have slope: "sum_list (map (\<lambda>x. (x - mean xs) * (a + b * x - (a + b * mean xs))) xs)
      / sum_list (map (\<lambda>x. (x - mean xs)\<^sup>2) xs) = b" by simp
  have slope': "(if 0 < sum_list (map (\<lambda>x. (x - mean xs)\<^sup>2) xs)
      then sum_list (map (\<lambda>x. (x - mean xs) * (a + b * x - (a + b * mean xs))) xs)
        / sum_list (map (\<lambda>x. (x - mean xs)\<^sup>2) xs) else 0) = b"
    using spread slope by (simp only: if_True)
  have zero: "map (\<lambda>x. a + b * x - (a + b * mean xs - b * mean xs + b * x)) xs = map (\<lambda>_. 0) xs"
    by simp
  have "linear_fit samples = (a + b * mean xs - b * mean xs, b,
      sqrt (sum_list (map (\<lambda>r. r * r) (map (\<lambda>x. a + b * x - (a + b * mean xs - b * mean xs + b * x)) xs))
        / real (length (map (\<lambda>x. a + b * x - (a + b * mean xs - b * mean xs + b * x)) xs))))"
    unfolding linear_fit_def Let_def latest_def [symmetric] xs' ys my zip_map_self prod.case slope' ..
  then show ?thesis unfolding zero by (simp add: comp_def)
qed

end
