(* ===== verification/Cluster_Graph.thy ===== *)
theory Cluster_Graph
  imports Carbon_Forecast
begin

text \<open>
  \<open>magellan/graph/topology.py\<close>: the peers of a node and the metrics of an edge, configured or
  measured.  The two views of the telemetry store an edge reads are the fields of
  \<open>telemetry_source\<close>; \<open>None\<close> stands for a graph built without telemetry.
\<close>

section \<open>Distance\<close>

definition radians :: "real \<Rightarrow> real" where
  "radians degrees = degrees * pi / 180"

definition haversine_value :: "real \<Rightarrow> real \<Rightarrow> real \<Rightarrow> real \<Rightarrow> real" where
  "haversine_value lat1 lon1 lat2 lon2 =
     (sin ((radians lat2 - radians lat1) / 2))\<^sup>2
     + cos (radians lat1) * cos (radians lat2) * (sin ((radians lon2 - radians lon1) / 2))\<^sup>2"

definition haversine_distance_km :: "real \<Rightarrow> real \<Rightarrow> real \<Rightarrow> real \<Rightarrow> real" where
  "haversine_distance_km lat1 lon1 lat2 lon2 = 2 * 6371 * arcsin (sqrt (haversine_value lat1 lon1 lat2 lon2))"

section \<open>Edges\<close>

record edge_metrics =
  edge_from :: node_id
  edge_to :: node_id
  distance_km :: real
  bandwidth_mbps :: real
  latency_ms :: real
  bandwidth_source :: string
  latency_source :: string
  bandwidth_freshness :: freshness
  latency_freshness :: freshness
  checkpoint_seconds :: "real option"
  restore_seconds :: "real option"
  migration_overhead_seconds :: real
  transfer_fixed_seconds :: real
  transfer_steady_bandwidth_mbps :: "real option"
  transfer_model_source :: string
  calibration_source :: string

record edge_view =
  view_bandwidth :: real
  view_latency :: real
  view_bandwidth_source :: string
  view_latency_source :: string
  view_bandwidth_freshness :: freshness
  view_latency_freshness :: freshness
  view_transfer_fixed :: real
  view_transfer_steady :: "real option"
  view_transfer_source :: string

record calibration_view =
  calibration_freshness :: freshness
  checkpoint_ema :: "real option"
  transfer_ema :: "real option"
  restore_ema :: "real option"
  downtime_ema :: "real option"

record telemetry_source =
  edge_view_of :: "node_id \<Rightarrow> node_id \<Rightarrow> real \<Rightarrow> real \<Rightarrow> edge_view"
  calibration_of :: "node_id \<Rightarrow> node_id \<Rightarrow> calibration_view"

definition peers :: "cluster_config \<Rightarrow> node_id \<Rightarrow> node_config list" where
  "peers c nid = filter (\<lambda>n. node_identity n \<noteq> nid) (nodes c)"

definition measured_overhead :: "calibration_view \<Rightarrow> real" where
  "measured_overhead v =
     (case (downtime_ema v, checkpoint_ema v, transfer_ema v, restore_ema v) of
        (Some d, Some c, Some t, Some r) \<Rightarrow> max 0 (d - c - t - r)
      | _ \<Rightarrow> 0)"

definition configured_edge :: "cluster_config \<Rightarrow> node_id \<Rightarrow> node_id \<Rightarrow> real \<Rightarrow> edge_metrics" where
  "configured_edge c a b distance =
     (let override = get_edge_override c a b
      in \<lparr>edge_from = a, edge_to = b, distance_km = distance,
          bandwidth_mbps = (case override of Some e \<Rightarrow> edge_bandwidth_mbps e
                            | None \<Rightarrow> default_bandwidth_mbps c),
          latency_ms = (case override of Some e \<Rightarrow> edge_latency_ms e | None \<Rightarrow> default_latency_ms c),
          bandwidth_source = ''configured_fallback'', latency_source = ''configured_fallback'',
          bandwidth_freshness = Unavailable, latency_freshness = Unavailable,
          checkpoint_seconds = None, restore_seconds = None, migration_overhead_seconds = 0,
          transfer_fixed_seconds = 0, transfer_steady_bandwidth_mbps = None,
          transfer_model_source = ''unavailable'', calibration_source = ''configured_fallback''\<rparr>)"

definition apply_edge_view :: "edge_view \<Rightarrow> edge_metrics \<Rightarrow> edge_metrics" where
  "apply_edge_view v e =
     e\<lparr>bandwidth_mbps := view_bandwidth v, latency_ms := view_latency v,
       bandwidth_source := view_bandwidth_source v, latency_source := view_latency_source v,
       bandwidth_freshness := view_bandwidth_freshness v,
       latency_freshness := view_latency_freshness v,
       transfer_fixed_seconds := view_transfer_fixed v,
       transfer_steady_bandwidth_mbps := view_transfer_steady v,
       transfer_model_source := view_transfer_source v\<rparr>"

definition apply_calibration :: "calibration_view \<Rightarrow> edge_metrics \<Rightarrow> edge_metrics" where
  "apply_calibration v e =
     (if calibration_freshness v = Fresh
      then e\<lparr>checkpoint_seconds := checkpoint_ema v, restore_seconds := restore_ema v,
             migration_overhead_seconds := measured_overhead v,
             calibration_source := ''measured_migration_ema''\<rparr>
      else e)"

definition graph_edge ::
  "cluster_config \<Rightarrow> telemetry_source option \<Rightarrow> node_id \<Rightarrow> node_id \<Rightarrow> edge_metrics result" where
  "graph_edge c telemetry a b =
     bind_result (get_node c a) (\<lambda>source.
     bind_result (get_node c b) (\<lambda>destination.
       let distance = haversine_distance_km (latitude source) (longitude source)
                        (latitude destination) (longitude destination);
           e = configured_edge c a b distance
       in Inr (case telemetry of None \<Rightarrow> e
               | Some t \<Rightarrow> apply_calibration (calibration_of t a b)
                   (apply_edge_view (edge_view_of t a b (bandwidth_mbps e) (latency_ms e)) e))))"

section \<open>The distance is a symmetric, bounded quantity\<close>

lemma haversine_value_symmetric: "haversine_value a b c d = haversine_value c d a b"
proof -
  have "(sin ((x - y) / 2))\<^sup>2 = (sin ((y - x) / 2))\<^sup>2" for x y :: real
    using sin_minus [of "(y - x) / 2"] by (simp add: minus_divide_left)
  then show ?thesis by (simp add: haversine_value_def)
qed

lemma haversine_value_bounds:
  assumes "- 90 \<le> a" "a \<le> 90" "- 90 \<le> c" "c \<le> 90"
  shows "0 \<le> haversine_value a b c d" "haversine_value a b c d \<le> 1"
proof -
  have rad: "- (pi / 2) \<le> radians x" "radians x \<le> pi / 2" if "- 90 \<le> x" "x \<le> 90" for x
  proof -
    have "- 90 * pi \<le> x * pi" "x * pi \<le> 90 * pi"
      using that pi_ge_zero by (intro mult_right_mono; simp)+
    then show "- (pi / 2) \<le> radians x" "radians x \<le> pi / 2" by (simp_all add: radians_def)
  qed
  have cos_nn: "0 \<le> cos (radians a)" "0 \<le> cos (radians c)"
    using rad assms by (simp_all add: cos_ge_zero)
  let ?s = "(sin ((radians d - radians b) / 2))\<^sup>2"
  have s: "0 \<le> ?s" "?s \<le> 1" by (simp_all add: abs_square_le_1)
  then show "0 \<le> haversine_value a b c d" using cos_nn by (simp add: haversine_value_def)
  have "cos (radians a) * cos (radians c) * ?s \<le> cos (radians a) * cos (radians c)"
    using s cos_nn by (simp add: mult_left_le)
  also have "\<dots> = (cos (radians c - radians a) + cos (radians c + radians a)) / 2"
    by (simp add: cos_diff cos_add algebra_simps)
  also have "\<dots> \<le> (cos (radians c - radians a) + 1) / 2" by simp
  also have "\<dots> = 1 - (sin ((radians c - radians a) / 2))\<^sup>2"
  proof -
    obtain x where x: "(radians c - radians a) / 2 = x" by blast
    then have "radians c - radians a = 2 * x" by simp
    then show ?thesis unfolding x using cos_double_sin [of x] by simp
  qed
  finally show "haversine_value a b c d \<le> 1" by (simp add: haversine_value_def)
qed

lemma haversine_bounds:
  assumes "- 90 \<le> a" "a \<le> 90" "- 90 \<le> c" "c \<le> 90"
  shows "0 \<le> haversine_distance_km a b c d" "haversine_distance_km a b c d \<le> 6371 * pi"
proof -
  let ?r = "sqrt (haversine_value a b c d)"
  have r: "0 \<le> ?r" "?r \<le> 1" using haversine_value_bounds [OF assms] by simp_all
  then have "0 \<le> arcsin ?r" "arcsin ?r \<le> pi / 2"
    using arcsin_le_arcsin [of 0 ?r] arcsin_bounded [of ?r] by (simp, linarith)
  then show "0 \<le> haversine_distance_km a b c d" "haversine_distance_km a b c d \<le> 6371 * pi"
    by (simp_all add: haversine_distance_km_def)
qed

lemma haversine_self: "haversine_distance_km a b a b = 0"
  by (simp add: haversine_distance_km_def haversine_value_def)

lemma haversine_symmetric: "haversine_distance_km a b c d = haversine_distance_km c d a b"
  unfolding haversine_distance_km_def haversine_value_symmetric [of a b c d] ..

end
