(* ===== verification/Action_Models.thy ===== *)
theory Action_Models
  imports Cluster_Graph
begin

text \<open>
  \<open>magellan/models/continue_model.py\<close>, \<open>pause_model.py\<close> and \<open>migrate_model.py\<close>: the time,
  carbon and cost of the three actions.  \<open>fc node start duration\<close> is the carbon forecast at the
  instant of the evaluation (\<^const>\<open>forecast_or_average\<close> applied to its first arguments); an
  exception it raises leaves the estimate.
\<close>

type_synonym forecaster = "node_id \<Rightarrow> datetime \<Rightarrow> real \<Rightarrow> forecast_estimate result"

definition compute_seconds :: "task_profile \<Rightarrow> real \<Rightarrow> real" where
  "compute_seconds task horizon =
     (case profile_remaining_seconds task of None \<Rightarrow> horizon | Some r \<Rightarrow> min horizon r)"

definition carbon_of :: "real \<Rightarrow> real \<Rightarrow> forecast_estimate \<Rightarrow> real" where
  "carbon_of kw seconds f = kw * seconds_to_hours seconds * average_g_per_kwh f"

section \<open>Continue\<close>

definition estimate_continue ::
  "task_profile \<Rightarrow> node_config \<Rightarrow> forecaster \<Rightarrow> datetime \<Rightarrow> real \<Rightarrow> raw_action_estimate result" where
  "estimate_continue task node fc at_utc horizon =
     (let seconds = compute_seconds task horizon
      in bind_result (fc (node_identity node) at_utc seconds) (\<lambda>f.
         Inr \<lparr>action = Continue, source_node = node_identity node, destination_node = None,
              time_seconds = seconds, carbon_grams = carbon_of (power_kw task * pue node) seconds f,
              cost_usd = compute_price_usd_per_hour node * seconds_to_hours seconds,
              detail_idle_seconds = None, detail_carbon_confidence = Some (confidence f)\<rparr>))"

section \<open>Pause\<close>

text \<open>\<open>Inr None\<close> is the answer \<open>None\<close>: the pause would not fit the pause window.\<close>

definition estimate_pause ::
  "task_profile \<Rightarrow> node_config \<Rightarrow> forecaster \<Rightarrow> datetime \<Rightarrow> real \<Rightarrow> pause_policy \<Rightarrow> real option
     \<Rightarrow> raw_action_estimate option result" where
  "estimate_pause task node fc at_utc horizon p idle_override =
     (let seconds = compute_seconds task horizon;
          idle = (case idle_override of None \<Rightarrow> idle_seconds p | Some i \<Rightarrow> i)
      in if idle < 0 then Inl (ValueError ''idle_seconds must be non-negative'')
         else if idle + seconds > max_pause_window_seconds p then Inr None
         else
           let resume_start = at_utc + (pause_seconds p + idle);
               compute_start = resume_start + resume_seconds p;
               kw = power_kw task * pue node
           in bind_result (fc (node_identity node) at_utc (pause_seconds p)) (\<lambda>pf.
              bind_result (fc (node_identity node) resume_start (resume_seconds p)) (\<lambda>rf.
              bind_result (fc (node_identity node) compute_start seconds) (\<lambda>cf.
              Inr (Some
                \<lparr>action = Pause, source_node = node_identity node, destination_node = None,
                 time_seconds = pause_seconds p + idle + resume_seconds p + seconds,
                 carbon_grams = carbon_of kw (pause_seconds p) pf
                   + carbon_of kw (resume_seconds p) rf + carbon_of kw seconds cf,
                 cost_usd = compute_price_usd_per_hour node * seconds_to_hours seconds,
                 detail_idle_seconds = Some idle,
                 detail_carbon_confidence =
                   Some (min (min (confidence pf) (confidence rf)) (confidence cf))\<rparr>)))))"

section \<open>Migrate\<close>

definition transfer_bytes :: "task_profile \<Rightarrow> node_config \<Rightarrow> int option \<Rightarrow> int" where
  "transfer_bytes task destination static_override =
     checkpoint_bytes task
     + (case static_override of
          Some b \<Rightarrow> b
        | None \<Rightarrow> if node_identity destination \<in> prestaged_node_ids task then 0 else data_bytes task)"

definition transfer_duration :: "edge_metrics \<Rightarrow> int \<Rightarrow> real result" where
  "transfer_duration e b =
     (if transfer_model_source e = ''measured_migration_transport_affine_ema''
         \<and> transfer_steady_bandwidth_mbps e \<noteq> None
      then Inr (transfer_fixed_seconds e
             + of_int b * 8 / (the (transfer_steady_bandwidth_mbps e) * 1000000))
      else if bandwidth_source e \<in> {''measured_transfer_ema'', ''measured_migration_transport_ema''}
      then Inr (of_int b * 8 / (bandwidth_mbps e * 1000000))
      else transfer_seconds b (bandwidth_mbps e) (latency_ms e))"

record migration_timing =
  mt_checkpoint :: real
  mt_transfer :: real
  mt_restore :: real
  mt_overhead :: real

definition predicted_downtime :: "migration_timing \<Rightarrow> real" where
  "predicted_downtime m = mt_checkpoint m + mt_transfer m + mt_restore m + mt_overhead m"

definition migration_timing_of :: "edge_metrics \<Rightarrow> pause_policy \<Rightarrow> real \<Rightarrow> migration_timing" where
  "migration_timing_of e p transfer =
     \<lparr>mt_checkpoint = (case checkpoint_seconds e of None \<Rightarrow> pause_seconds p | Some c \<Rightarrow> c),
      mt_transfer = transfer,
      mt_restore = (case restore_seconds e of None \<Rightarrow> resume_seconds p | Some r \<Rightarrow> r),
      mt_overhead = max 0 (migration_overhead_seconds e)\<rparr>"

definition network_energy_kwh :: "migration_policy \<Rightarrow> edge_metrics \<Rightarrow> int \<Rightarrow> real" where
  "network_energy_kwh mp e b =
     bytes_to_gb b * (network_energy_kwh_per_gb_base mp + network_energy_kwh_per_gb_km mp * distance_km e)"

definition migration_estimate ::
  "task_profile \<Rightarrow> node_config \<Rightarrow> node_config \<Rightarrow> edge_metrics \<Rightarrow> migration_policy \<Rightarrow> migration_timing \<Rightarrow> int
     \<Rightarrow> real \<Rightarrow> forecast_estimate \<Rightarrow> forecast_estimate \<Rightarrow> forecast_estimate \<Rightarrow> raw_action_estimate" where
  "migration_estimate task src dst e mp m b seconds sf rf cf =
     \<lparr>action = Migrate, source_node = node_identity src,
      destination_node = Some (node_identity dst),
      time_seconds = mt_checkpoint m + mt_transfer m + mt_restore m + mt_overhead m + seconds,
      carbon_grams = carbon_of (power_kw task * pue src) (mt_checkpoint m) sf
        + carbon_of (power_kw task * pue dst) (mt_restore m) rf
        + carbon_of (power_kw task * pue dst) seconds cf
        + network_energy_kwh mp e b * ((average_g_per_kwh sf + average_g_per_kwh rf) / 2),
      cost_usd = compute_price_usd_per_hour dst * seconds_to_hours seconds
        + bytes_to_gb b * egress_price_usd_per_gb src,
      detail_idle_seconds = None,
      detail_carbon_confidence = Some (min (min (confidence sf) (confidence rf)) (confidence cf))\<rparr>"

definition estimate_migrate ::
  "task_profile \<Rightarrow> node_config \<Rightarrow> node_config \<Rightarrow> edge_metrics \<Rightarrow> forecaster \<Rightarrow> datetime \<Rightarrow> real
     \<Rightarrow> pause_policy \<Rightarrow> migration_policy \<Rightarrow> int option \<Rightarrow> raw_action_estimate result" where
  "estimate_migrate task src dst e fc at_utc horizon p mp static_override =
     (let seconds = compute_seconds task horizon; b = transfer_bytes task dst static_override
      in bind_result (transfer_duration e b) (\<lambda>transfer.
         let m = migration_timing_of e p transfer;
             restore_start = at_utc + (mt_checkpoint m + transfer + mt_overhead m);
             arrival = restore_start + mt_restore m
         in bind_result (fc (node_identity src) at_utc (mt_checkpoint m)) (\<lambda>sf.
            bind_result (fc (node_identity dst) restore_start (mt_restore m)) (\<lambda>rf.
            bind_result (fc (node_identity dst) arrival seconds) (\<lambda>cf.
            Inr (migration_estimate task src dst e mp m b seconds sf rf cf))))))"

section \<open>What the estimates guarantee\<close>

definition forecasts_nonneg :: "forecaster \<Rightarrow> bool" where
  "forecasts_nonneg fc \<longleftrightarrow> (\<forall>n t d. on_ok (\<lambda>f. 0 \<le> average_g_per_kwh f) (fc n t d))"

lemma compute_seconds_nonneg: "wf_profile task \<Longrightarrow> 0 \<le> h \<Longrightarrow> 0 \<le> compute_seconds task h"
  by (auto simp: wf_profile_def compute_seconds_def split: option.split)

lemma carbon_of_nonneg [simp]: "0 \<le> w \<Longrightarrow> 0 \<le> s \<Longrightarrow> 0 \<le> average_g_per_kwh f \<Longrightarrow> 0 \<le> carbon_of w s f"
  by (simp add: carbon_of_def seconds_to_hours_def)

lemma forecasts_nonnegD: "forecasts_nonneg fc \<Longrightarrow> fc n t d = Inr f \<Longrightarrow> 0 \<le> average_g_per_kwh f"
  unfolding forecasts_nonneg_def by (metis on_ok_simps(2))

definition edge_sound :: "edge_metrics \<Rightarrow> bool" where
  "edge_sound e \<longleftrightarrow> 0 \<le> distance_km e \<and> 0 < bandwidth_mbps e \<and> 0 \<le> latency_ms e
   \<and> (\<forall>x. checkpoint_seconds e = Some x \<longrightarrow> 0 \<le> x) \<and> (\<forall>x. restore_seconds e = Some x \<longrightarrow> 0 \<le> x)
   \<and> 0 \<le> transfer_fixed_seconds e \<and> (\<forall>x. transfer_steady_bandwidth_mbps e = Some x \<longrightarrow> 0 < x)"

lemma transfer_duration_total:
  assumes "edge_sound e" "0 \<le> b"
  shows "\<exists>t \<ge> 0. transfer_duration e b = Inr t"
  using assms by (auto simp: transfer_duration_def transfer_seconds_def edge_sound_def)

lemma transfer_duration_mono:
  assumes "edge_sound e" "b \<le> b'" "transfer_duration e b = Inr t" "transfer_duration e b' = Inr t'"
  shows "t \<le> t'"
proof -
  have "real_of_int b \<le> real_of_int b'" using assms(2) by simp
  with assms show ?thesis
    by (auto simp: transfer_duration_def transfer_seconds_def edge_sound_def divide_right_mono
        split: if_splits)
qed

lemma wf_node_simps: "wf_node n \<Longrightarrow> 0 \<le> pue n \<and> 0 \<le> compute_price_usd_per_hour n \<and> 0 \<le> egress_price_usd_per_gb n"
  by (simp add: wf_node_def)

lemma continue_wf:
  assumes "wf_profile task" "wf_node node" "0 \<le> h" "forecasts_nonneg fc"
  shows "on_ok (\<lambda>e. wf_estimate e \<and> action e = Continue \<and> source_node e = node_identity node)
    (estimate_continue task node fc at_utc h)"
  unfolding estimate_continue_def Let_def
proof (rule on_ok_bind)
  fix f assume "fc (node_identity node) at_utc (compute_seconds task h) = Inr f"
  then have "0 \<le> average_g_per_kwh f" using assms(4) forecasts_nonnegD by blast
  moreover have "0 \<le> power_kw task" using assms(1) by (simp add: wf_profile_def)
  ultimately show "on_ok (\<lambda>e. wf_estimate e \<and> action e = Continue \<and> source_node e = node_identity node)
      (Inr \<lparr>action = Continue, source_node = node_identity node, destination_node = None,
              time_seconds = compute_seconds task h,
              carbon_grams = carbon_of (power_kw task * pue node) (compute_seconds task h) f,
              cost_usd = compute_price_usd_per_hour node * seconds_to_hours (compute_seconds task h),
              detail_idle_seconds = None, detail_carbon_confidence = Some (confidence f)\<rparr>)"
    using compute_seconds_nonneg [OF assms(1,3)] wf_node_simps [OF assms(2)]
    by (simp add: wf_estimate_def seconds_to_hours_def)
qed

definition pause_sound :: "pause_policy \<Rightarrow> bool" where
  "pause_sound p \<longleftrightarrow> 0 \<le> pause_seconds p \<and> 0 \<le> resume_seconds p"

lemma pause_wf:
  assumes "wf_profile task" "wf_node node" "0 \<le> h" "forecasts_nonneg fc" "pause_sound p"
    and "estimate_pause task node fc at_utc h p idle = Inr (Some e)"
  shows "wf_estimate e" "action e = Pause" "source_node e = node_identity node"
    "compute_seconds task h \<le> time_seconds e"
    "time_seconds e \<le> pause_seconds p + resume_seconds p + max_pause_window_seconds p"
    "cost_usd e = compute_price_usd_per_hour node * seconds_to_hours (compute_seconds task h)"
proof -
  let ?s = "compute_seconds task h"
  define i where "i = (case idle of None \<Rightarrow> idle_seconds p | Some i \<Rightarrow> i)"
  have i: "0 \<le> i" "i + ?s \<le> max_pause_window_seconds p"
    using assms(6) by (auto simp: estimate_pause_def Let_def i_def split: if_splits)
  have "\<not> i < 0" "\<not> i + ?s > max_pause_window_seconds p" using i by simp_all
  with assms(6) obtain pf rf cf where f:
    "fc (node_identity node) at_utc (pause_seconds p) = Inr pf"
    "fc (node_identity node) (at_utc + (pause_seconds p + i)) (resume_seconds p) = Inr rf"
    "fc (node_identity node) (at_utc + (pause_seconds p + i) + resume_seconds p) ?s = Inr cf"
    and e: "time_seconds e = pause_seconds p + i + resume_seconds p + ?s"
      "carbon_grams e = carbon_of (power_kw task * pue node) (pause_seconds p) pf
        + carbon_of (power_kw task * pue node) (resume_seconds p) rf
        + carbon_of (power_kw task * pue node) ?s cf"
      "cost_usd e = compute_price_usd_per_hour node * seconds_to_hours ?s"
      "action e = Pause" "source_node e = node_identity node"
    unfolding estimate_pause_def Let_def i_def [symmetric]
    by (auto simp: bind_result_Inr_iff)
  have nn: "0 \<le> average_g_per_kwh pf" "0 \<le> average_g_per_kwh rf" "0 \<le> average_g_per_kwh cf"
    using f assms(4) forecasts_nonnegD by blast+
  have s: "0 \<le> ?s" by (rule compute_seconds_nonneg [OF assms(1,3)])
  have pw: "0 \<le> power_kw task * pue node"
    using assms(1) wf_node_simps [OF assms(2)] by (simp add: wf_profile_def)
  show "wf_estimate e"
    using nn s pw i assms(5) wf_node_simps [OF assms(2)]
    by (simp add: wf_estimate_def e pause_sound_def seconds_to_hours_def add_nonneg_nonneg)
  show "?s \<le> time_seconds e" "time_seconds e \<le> pause_seconds p + resume_seconds p + max_pause_window_seconds p"
    using i assms(5) by (simp_all add: e pause_sound_def)
qed (use assms(6) in \<open>auto simp: estimate_pause_def Let_def bind_result_Inr_iff split: if_splits\<close>)

lemma transfer_duration_zero_le:
  "edge_sound e \<Longrightarrow> 0 \<le> b \<Longrightarrow> transfer_duration e b = Inr t \<Longrightarrow> 0 \<le> t"
  using transfer_duration_total [of e b] by auto

lemma migration_timing_nonneg:
  assumes "edge_sound e" "pause_sound p" "0 \<le> t"
  shows "0 \<le> mt_checkpoint (migration_timing_of e p t)" "0 \<le> mt_restore (migration_timing_of e p t)"
    "0 \<le> mt_overhead (migration_timing_of e p t)" "mt_transfer (migration_timing_of e p t) = t"
  using assms by (auto simp: migration_timing_of_def edge_sound_def pause_sound_def split: option.split)

lemma transfer_bytes_nonneg:
  "wf_profile task \<Longrightarrow> (\<forall>x. b = Some x \<longrightarrow> 0 \<le> x) \<Longrightarrow> 0 \<le> transfer_bytes task n b"
  by (auto simp: transfer_bytes_def wf_profile_def split: option.split)

definition network_sound :: "migration_policy \<Rightarrow> bool" where
  "network_sound mp \<longleftrightarrow> 0 \<le> network_energy_kwh_per_gb_base mp \<and> 0 \<le> network_energy_kwh_per_gb_km mp"

lemma network_energy_nonneg:
  "network_sound mp \<Longrightarrow> edge_sound e \<Longrightarrow> 0 \<le> b \<Longrightarrow> 0 \<le> network_energy_kwh mp e b"
  by (simp add: network_energy_kwh_def bytes_to_gb_def network_sound_def edge_sound_def)

lemma migration_estimate_wf:
  assumes "wf_profile task" "wf_node src" "wf_node dst" "edge_sound e" "network_sound mp"
    "0 \<le> mt_checkpoint m" "0 \<le> mt_transfer m" "0 \<le> mt_restore m" "0 \<le> mt_overhead m" "0 \<le> b" "0 \<le> s"
    "0 \<le> average_g_per_kwh sf" "0 \<le> average_g_per_kwh rf" "0 \<le> average_g_per_kwh cf"
  shows "wf_estimate (migration_estimate task src dst e mp m b s sf rf cf)"
proof -
  have "0 \<le> power_kw task" using assms(1) by (simp add: wf_profile_def)
  moreover note wf_node_simps [OF assms(2)] wf_node_simps [OF assms(3)]
    network_energy_nonneg [OF assms(5,4,10)]
  ultimately show ?thesis using assms(6-14)
    by (simp add: wf_estimate_def migration_estimate_def seconds_to_hours_def bytes_to_gb_def)
qed

lemma migrate_wf:
  assumes "wf_profile task" "wf_node src" "wf_node dst" "edge_sound e" "0 \<le> h" "forecasts_nonneg fc"
    "pause_sound p" "network_sound mp" "\<forall>x. override = Some x \<longrightarrow> 0 \<le> x"
    and r: "estimate_migrate task src dst e fc at_utc h p mp override = Inr est"
  shows "wf_estimate est \<and> action est = Migrate \<and> source_node est = node_identity src
    \<and> destination_node est = Some (node_identity dst)"
proof -
  let ?s = "compute_seconds task h" and ?b = "transfer_bytes task dst override"
  from r obtain t sf rf cf where t: "transfer_duration e ?b = Inr t" and
    f: "\<exists>n st d. fc n st d = Inr sf" "\<exists>n st d. fc n st d = Inr rf" "\<exists>n st d. fc n st d = Inr cf" and
    est: "Inr (migration_estimate task src dst e mp (migration_timing_of e p t) ?b ?s sf rf cf) = (Inr est :: raw_action_estimate result)"
    unfolding estimate_migrate_def Let_def bind_result_Inr_iff
    by (elim exE conjE)
      (rule that, assumption, (rule exI)+, assumption, (rule exI)+, assumption, (rule exI)+, assumption+)
  have b: "0 \<le> ?b" using assms(1,9) by (rule transfer_bytes_nonneg)
  have nn: "0 \<le> average_g_per_kwh sf" "0 \<le> average_g_per_kwh rf" "0 \<le> average_g_per_kwh cf"
    using f assms(6) forecasts_nonnegD by blast+
  have t0: "0 \<le> t" using assms(4) b t by (rule transfer_duration_zero_le)
  note m = migration_timing_nonneg [OF assms(4,7) t0]
  have s: "0 \<le> ?s" using assms(1,5) by (rule compute_seconds_nonneg)
  have "wf_estimate est" unfolding Inr_inject [OF est, symmetric]
    by (rule migration_estimate_wf [OF assms(1-4,8)]) (simp_all add: m t0 b s nn)
  then show ?thesis using est by (auto simp: migration_estimate_def)
qed

end
