(* ===== verification/Adaptive_Policy.thy ===== *)
theory Adaptive_Policy
  imports Action_Models
begin

text \<open>
  \<open>magellan/policy/models.py\<close>, \<open>policy/adaptive.py\<close> and \<open>policy/store.py\<close>: the weights of a
  task adapted to its deadline, budget and carbon opportunity, the rolling windows that
  normalise the estimates, the decision history, and the durable store of all of it.  A state the
  store returns is a deep copy, so the functional value is the state; every clock read is an
  argument (\<open>created\<close> for a fresh state, \<open>now\<close> for the last update).
\<close>

section \<open>Data\<close>

datatype constraint_value = BoolValue bool | FloatValue real | TextValue string | NoneValue

record weight_multipliers =
  m_time :: real
  m_carbon :: real
  m_cost :: real

definition unit_multipliers :: weight_multipliers where
  "unit_multipliers = \<lparr>m_time = 1, m_carbon = 1, m_cost = 1\<rparr>"

record adaptation_signals =
  budget_slack_fraction :: "real option"
  deadline_slack_ratio :: "real option"
  carbon_opportunity_fraction :: real
  telemetry_confidence :: real
  carbon_forecast_confidence :: real
  cost_cap_exhausted :: bool
  deadline_at_risk :: bool

definition default_signals :: adaptation_signals where
  "default_signals = \<lparr>budget_slack_fraction = None, deadline_slack_ratio = None,
     carbon_opportunity_fraction = 0, telemetry_confidence = 0, carbon_forecast_confidence = 0,
     cost_cap_exhausted = False, deadline_at_risk = False\<rparr>"

record range_sample =
  range_minimum :: real
  range_maximum :: real
  range_observed_at :: datetime

definition wf_range :: "range_sample \<Rightarrow> bool" where
  "wf_range r \<longleftrightarrow> 0 \<le> range_minimum r \<and> range_minimum r \<le> range_maximum r"

definition metric_bounds :: "range_sample list \<Rightarrow> (real \<times> real) option" where
  "metric_bounds samples =
     (if samples = [] then None
      else Some (Min (set (map range_minimum samples)), Max (set (map range_maximum samples))))"

record rolling_normalization =
  roll_time :: "range_sample list"
  roll_carbon :: "range_sample list"
  roll_cost :: "range_sample list"

record normalization_bounds =
  time_min :: real
  time_max :: real
  carbon_min :: real
  carbon_max :: real
  cost_min :: real
  cost_max :: real

record decision_record =
  record_task_id :: task_id
  decision_index :: nat
  evaluated_at :: datetime
  selected_action :: action_type
  selected_destination :: "node_id option"
  selected_score :: real
  record_baseline :: weight_vector
  record_effective :: weight_vector
  record_multipliers :: weight_multipliers
  record_signals :: adaptation_signals
  record_bounds :: normalization_bounds
  record_constraints :: "constraint_value dict"
  record_reason :: string

record policy_state =
  state_task_id :: task_id
  baseline_weights :: weight_vector
  effective_weights :: weight_vector
  multipliers :: weight_multipliers
  signals :: adaptation_signals
  normalization :: rolling_normalization
  decision_count :: nat
  last_decision :: "decision_record option"
  decision_history :: "decision_record list"
  policy_created_at :: datetime
  policy_updated_at :: datetime

record decision_context =
  context_task_id :: task_id
  context_baseline :: weight_vector
  context_effective :: weight_vector
  context_multipliers :: weight_multipliers
  context_signals :: adaptation_signals
  context_bounds :: normalization_bounds
  context_constraints :: "constraint_value dict"

section \<open>The durable store\<close>

record policy_store =
  policy_states :: "policy_state dict"
  policy_file :: "policy_state dict option"

definition load_policies :: "policy_state dict option \<Rightarrow> policy_store" where
  "load_policies file =
     \<lparr>policy_states = (case file of None \<Rightarrow> [] | Some d \<Rightarrow> d), policy_file = file\<rparr>"

definition persist_policies :: "policy_store \<Rightarrow> policy_store" where
  "persist_policies s = s\<lparr>policy_file := Some (sort_key fst (policy_states s))\<rparr>"

definition get_policy :: "policy_store \<Rightarrow> task_id \<Rightarrow> policy_state option" where
  "get_policy s t = dict_get (policy_states s) t"

definition put_policy :: "policy_store \<Rightarrow> policy_state \<Rightarrow> policy_store" where
  "put_policy s st =
     persist_policies (s\<lparr>policy_states := dict_put (state_task_id st) st (policy_states s)\<rparr>)"

definition merge_policy :: "policy_store \<Rightarrow> policy_state \<Rightarrow> policy_store \<times> bool" where
  "merge_policy s st =
     (case dict_get (policy_states s) (state_task_id st) of
        Some current \<Rightarrow>
          if decision_count st < decision_count current then (s, False)
          else if decision_count st = decision_count current
            \<and> policy_updated_at st \<le> policy_updated_at current then (s, False)
          else (put_policy s st, True)
      | None \<Rightarrow> (put_policy s st, True))"

definition delete_policy :: "policy_store \<Rightarrow> task_id \<Rightarrow> policy_store \<times> bool" where
  "delete_policy s t =
     (if dict_get (policy_states s) t = None then (s, False)
      else (persist_policies (s\<lparr>policy_states := AList.delete t (policy_states s)\<rparr>), True))"

definition list_policies :: "policy_store \<Rightarrow> policy_state list" where
  "list_policies s = map snd (sort_key fst (policy_states s))"

section \<open>The service\<close>

record policy_service =
  adaptive_rules :: adaptive_policy
  service_baseline :: weight_vector

definition make_service :: "adaptive_policy \<Rightarrow> weight_vector \<Rightarrow> policy_service" where
  "make_service p configured = \<lparr>adaptive_rules = p, service_baseline = normalized configured\<rparr>"

definition state_for :: "policy_service \<Rightarrow> policy_store \<Rightarrow> task_id \<Rightarrow> datetime \<Rightarrow> policy_state" where
  "state_for svc s t created =
     (case get_policy s t of
        Some st \<Rightarrow> st
      | None \<Rightarrow> \<lparr>state_task_id = t, baseline_weights = service_baseline svc,
                  effective_weights = service_baseline svc, multipliers = unit_multipliers,
                  signals = default_signals,
                  normalization = \<lparr>roll_time = [], roll_carbon = [], roll_cost = []\<rparr>,
                  decision_count = 0, last_decision = None, decision_history = [],
                  policy_created_at = created, policy_updated_at = created\<rparr>)"

text \<open>\<open>xs[-n:]\<close>; for \<open>n = 0\<close> it is the whole list.\<close>

definition last_n :: "nat \<Rightarrow> 'a list \<Rightarrow> 'a list" where
  "last_n n xs = (if n = 0 then xs else drop (length xs - n) xs)"

definition append_capped :: "nat \<Rightarrow> 'a list \<Rightarrow> 'a \<Rightarrow> 'a list" where
  "append_capped limit xs x =
     (let ys = xs @ [x] in if length ys > limit then last_n limit ys else ys)"

definition append_metric :: "nat \<Rightarrow> range_sample list \<Rightarrow> real list \<Rightarrow> datetime \<Rightarrow> range_sample list" where
  "append_metric window samples measurements observed =
     append_capped window samples
       \<lparr>range_minimum = Min (set measurements), range_maximum = Max (set measurements),
        range_observed_at = observed\<rparr>"

definition append_ranges ::
  "policy_service \<Rightarrow> policy_state \<Rightarrow> raw_action_estimate list \<Rightarrow> datetime
     \<Rightarrow> (policy_state \<times> normalization_bounds) result" where
  "append_ranges svc st estimates observed =
     (if estimates = [] then Inl (ValueError ''min() iterable argument is empty'')
      else
        let w = rolling_window_epochs (adaptive_rules svc);
            n = normalization st;
            n' = \<lparr>roll_time = append_metric w (roll_time n) (map time_seconds estimates) observed,
                  roll_carbon = append_metric w (roll_carbon n) (map carbon_grams estimates) observed,
                  roll_cost = append_metric w (roll_cost n) (map cost_usd estimates) observed\<rparr>
        in case (metric_bounds (roll_time n'), metric_bounds (roll_carbon n'), metric_bounds (roll_cost n')) of
             (Some t, Some c, Some u) \<Rightarrow>
               Inr (st\<lparr>normalization := n'\<rparr>,
                 \<lparr>time_min = fst t, time_max = snd t, carbon_min = fst c, carbon_max = snd c,
                  cost_min = fst u, cost_max = snd u\<rparr>)
           | _ \<Rightarrow> Inl (OtherError ''AssertionError''))"

definition budget_slack :: "task_profile \<Rightarrow> real option \<times> bool" where
  "budget_slack task =
     (case cost_cap_usd task of
        None \<Rightarrow> (None, False)
      | Some cap \<Rightarrow>
          let remaining = max 0 (cap - profile_accumulated_cost task)
          in (Some (clamp (remaining / cap) 0 1), remaining \<le> 0))"

definition deadline_slack :: "task_profile \<Rightarrow> datetime \<Rightarrow> real option \<times> bool" where
  "deadline_slack task at_utc =
     (case (deadline_at task, profile_remaining_seconds task) of
        (Some deadline, Some remaining) \<Rightarrow>
          let ratio = max 0 (deadline - at_utc) / max remaining (1 / 1000000000)
          in (Some ratio, ratio \<le> 1)
      | _ \<Rightarrow> (None, False))"

definition carbon_opportunity :: "raw_action_estimate list \<Rightarrow> real" where
  "carbon_opportunity estimates =
     (let local_carbons = map carbon_grams (filter (\<lambda>e. action e \<in> {Continue, Pause}) estimates);
          migration_carbons = map carbon_grams (filter (\<lambda>e. action e = Migrate) estimates)
      in if local_carbons \<noteq> [] \<and> migration_carbons \<noteq> []
         then let best_local = Min (set local_carbons); best_migration = Min (set migration_carbons)
              in clamp ((best_local - best_migration) / max best_local (1 / 1000000000)) 0 1
         else 0)"

definition signals_of ::
  "task_profile \<Rightarrow> raw_action_estimate list \<Rightarrow> datetime \<Rightarrow> real \<Rightarrow> real \<Rightarrow> adaptation_signals" where
  "signals_of task estimates at_utc telemetry forecast =
     \<lparr>budget_slack_fraction = fst (budget_slack task),
      deadline_slack_ratio = fst (deadline_slack task at_utc),
      carbon_opportunity_fraction = carbon_opportunity estimates,
      telemetry_confidence = clamp telemetry 0 1,
      carbon_forecast_confidence = clamp forecast 0 1,
      cost_cap_exhausted = snd (budget_slack task),
      deadline_at_risk = snd (deadline_slack task at_utc)\<rparr>"

definition time_pressure :: "adaptation_signals \<Rightarrow> real" where
  "time_pressure g =
     (case deadline_slack_ratio g of
        None \<Rightarrow> 0
      | Some ratio \<Rightarrow> if deadline_at_risk g then 1 else clamp (1 - ratio) 0 1)"

definition cost_pressure :: "adaptation_signals \<Rightarrow> real" where
  "cost_pressure g = (case budget_slack_fraction g of None \<Rightarrow> 0 | Some slack \<Rightarrow> 1 - slack)"

definition carbon_signal :: "adaptive_policy \<Rightarrow> adaptation_signals \<Rightarrow> real" where
  "carbon_signal p g =
     carbon_opportunity_fraction g
     * sqrt (max (telemetry_confidence g) (confidence_floor p)
             * max (carbon_forecast_confidence g) (confidence_floor p))"

definition adapt_multipliers :: "adaptive_policy \<Rightarrow> adaptation_signals \<Rightarrow> weight_multipliers" where
  "adapt_multipliers p g =
     (let bound = multiplier_bound_fraction p; lower = 1 - bound; upper = 1 + bound
      in \<lparr>m_time = clamp (1 + bound * time_pressure g) lower upper,
          m_carbon = clamp (1 + bound * carbon_signal p g) lower upper,
          m_cost = clamp (1 + bound * cost_pressure g) lower upper\<rparr>)"

definition reweigh :: "weight_vector \<Rightarrow> weight_multipliers \<Rightarrow> weight_vector" where
  "reweigh baseline m =
     normalized \<lparr>w_time = w_time baseline * m_time m, w_carbon = w_carbon baseline * m_carbon m,
                 w_cost = w_cost baseline * m_cost m\<rparr>"

definition adapt :: "adaptive_policy \<Rightarrow> weight_vector \<Rightarrow> adaptation_signals
    \<Rightarrow> weight_multipliers \<times> weight_vector" where
  "adapt p baseline g = (let m = adapt_multipliers p g in (m, reweigh baseline m))"

definition prepare ::
  "policy_service \<Rightarrow> policy_store \<Rightarrow> task_profile \<Rightarrow> raw_action_estimate list \<Rightarrow> datetime \<Rightarrow> real
     \<Rightarrow> real \<Rightarrow> constraint_value dict \<Rightarrow> datetime \<Rightarrow> datetime
     \<Rightarrow> (policy_store \<times> decision_context) result" where
  "prepare svc s task estimates at_utc telemetry forecast constraints created now =
     bind_result (append_ranges svc (state_for svc s (profile_task_id task) created) estimates at_utc)
       (\<lambda>(st, bounds).
         let g = signals_of task estimates at_utc telemetry forecast;
             (m, effective) =
               (if adaptive_enabled (adaptive_rules svc) then adapt (adaptive_rules svc) (baseline_weights st) g
                else (unit_multipliers, baseline_weights st));
             st' = st\<lparr>effective_weights := effective, multipliers := m, signals := g, policy_updated_at := now\<rparr>
         in Inr (put_policy s st',
              \<lparr>context_task_id = profile_task_id task, context_baseline = baseline_weights st,
               context_effective = effective, context_multipliers = m, context_signals = g,
               context_bounds = bounds, context_constraints = constraints\<rparr>))"

definition decision_record_of ::
  "decision_result \<Rightarrow> decision_context \<Rightarrow> datetime \<Rightarrow> nat \<Rightarrow> decision_record" where
  "decision_record_of d c at_utc index =
     \<lparr>record_task_id = context_task_id c, decision_index = index, evaluated_at = at_utc,
      selected_action = action (selected d), selected_destination = destination_node (selected d),
      selected_score = score (selected d), record_baseline = context_baseline c,
      record_effective = context_effective c, record_multipliers = context_multipliers c,
      record_signals = context_signals c, record_bounds = context_bounds c,
      record_constraints = context_constraints c, record_reason = decision_reason_text d\<rparr>"

definition record_decision ::
  "policy_service \<Rightarrow> policy_store \<Rightarrow> decision_result \<Rightarrow> decision_context \<Rightarrow> datetime \<Rightarrow> datetime
     \<Rightarrow> datetime \<Rightarrow> policy_store \<times> policy_state" where
  "record_decision svc s d c at_utc created now =
     (let st = state_for svc s (context_task_id c) created;
          r = decision_record_of d c at_utc (Suc (decision_count st));
          st' = st\<lparr>decision_count := Suc (decision_count st), last_decision := Some r,
                   decision_history :=
                     append_capped (decision_history_limit (adaptive_rules svc)) (decision_history st) r,
                   effective_weights := context_effective c, multipliers := context_multipliers c,
                   signals := context_signals c, policy_updated_at := now\<rparr>
      in (put_policy s st', st'))"

definition reset_policy :: "policy_store \<Rightarrow> task_id \<Rightarrow> policy_store \<times> bool" where
  "reset_policy s t = delete_policy s t"

end
