(* ===== verification/Adaptive_Policy_Laws.thy ===== *)
theory Adaptive_Policy_Laws
  imports Adaptive_Policy
begin

text \<open>
  Laws of the adaptive policy: the bounds of the multipliers and of the weights they give, the
  rolling windows, the invariant of the store and the merge of snapshots from peers.
\<close>

section \<open>Capped lists\<close>

lemma last_n_append: "length xs \<le> n \<Longrightarrow> last_n n xs = xs"
  by (simp add: last_n_def)

lemma set_last_n: "set (last_n n xs) \<subseteq> set xs"
  by (auto simp: last_n_def dest: in_set_dropD)

lemma map_append_capped: "map f (append_capped n xs x) = append_capped n (map f xs) (f x)"
  by (simp add: append_capped_def last_n_def Let_def drop_map)

lemma set_append_capped: "set (append_capped n xs x) \<subseteq> insert x (set xs)"
  using set_last_n [of n "xs @ [x]"] by (auto simp: append_capped_def Let_def)

lemma last_append_capped: "append_capped n xs x \<noteq> []" "last (append_capped n xs x) = x"
  by (simp_all add: append_capped_def last_n_def Let_def)

lemma in_append_capped: "x \<in> set (append_capped n xs x)"
  using last_append_capped [of n xs x] last_in_set [of "append_capped n xs x"] by simp

lemma length_append_capped:
  "1 \<le> n \<Longrightarrow> length xs \<le> n \<Longrightarrow> length (append_capped n xs x) \<le> n"
  by (simp add: append_capped_def last_n_def Let_def)

text \<open>Consecutive numbering survives the cap.\<close>

lemma append_capped_upt:
  assumes "xs = [k..<c]" "k \<le> c"
  shows "\<exists>k' \<ge> k. append_capped n xs c = [k'..<Suc c] \<and> k' \<le> Suc c"
proof -
  have xs: "xs @ [c] = [k..<Suc c]" using assms by simp
  show ?thesis
  proof (cases "append_capped n xs c = [k..<Suc c]")
    case True
    then show ?thesis using assms(2) by (intro exI [where x = k]) simp
  next
    case False
    then have "append_capped n xs c = drop (Suc c - k - n) [k..<Suc c]"
      unfolding append_capped_def last_n_def Let_def xs by (simp del: upt_Suc split: if_splits)
    then show ?thesis using assms(2)
      by (intro exI [where x = "k + (Suc c - k - n)"]) (simp add: drop_upt del: upt_Suc)
  qed
qed

section \<open>Pressures, multipliers, weights\<close>

definition wf_signals :: "adaptation_signals \<Rightarrow> bool" where
  "wf_signals g \<longleftrightarrow>
     (\<forall>x. budget_slack_fraction g = Some x \<longrightarrow> 0 \<le> x \<and> x \<le> 1)
   \<and> (\<forall>x. deadline_slack_ratio g = Some x \<longrightarrow> 0 \<le> x)
   \<and> 0 \<le> carbon_opportunity_fraction g \<and> carbon_opportunity_fraction g \<le> 1
   \<and> 0 \<le> telemetry_confidence g \<and> telemetry_confidence g \<le> 1
   \<and> 0 \<le> carbon_forecast_confidence g \<and> carbon_forecast_confidence g \<le> 1"

lemma clamp_unit [simp]: "0 \<le> clamp v 0 1" "clamp v 0 1 \<le> 1"
  by (simp_all add: clamp_def)

lemma budget_slack_unit: "fst (budget_slack task) = Some x \<Longrightarrow> 0 \<le> x \<and> x \<le> 1"
  by (cases "cost_cap_usd task") (auto simp: budget_slack_def Let_def)

lemma deadline_slack_nonneg: "fst (deadline_slack task at_utc) = Some x \<Longrightarrow> 0 \<le> x"
  by (cases "deadline_at task"; cases "profile_remaining_seconds task")
    (auto simp: deadline_slack_def Let_def le_max_iff_disj intro!: divide_nonneg_nonneg)

lemma carbon_opportunity_unit: "0 \<le> carbon_opportunity es" "carbon_opportunity es \<le> 1"
  unfolding carbon_opportunity_def Let_def by simp_all

lemma signals_of_wf: "wf_signals (signals_of task estimates at_utc tc fcc)"
  using budget_slack_unit deadline_slack_nonneg
  by (simp add: wf_signals_def signals_of_def carbon_opportunity_unit)

lemma default_signals_wf: "wf_signals default_signals"
  by (simp add: wf_signals_def default_signals_def)

lemma time_pressure_unit: "0 \<le> time_pressure g" "time_pressure g \<le> 1"
  by (simp_all add: time_pressure_def split: option.split)

text \<open>
  The clamped term of the time pressure is never strictly between 0 and 1 on the signals the code
  computes: a slack ratio above 1 gives 0, any other gives 1.
\<close>

lemma time_pressure_is_binary: "time_pressure (signals_of task es at_utc tc fcc) \<in> {0, 1}"
proof (cases "fst (deadline_slack task at_utc)")
  case (Some r)
  then have "snd (deadline_slack task at_utc) = (r \<le> 1)"
    by (auto simp: deadline_slack_def Let_def split: option.splits)
  then show ?thesis using Some by (auto simp: time_pressure_def signals_of_def clamp_def)
qed (simp add: time_pressure_def signals_of_def)

lemma cost_pressure_unit: "wf_signals g \<Longrightarrow> 0 \<le> cost_pressure g \<and> cost_pressure g \<le> 1"
  by (auto simp: cost_pressure_def wf_signals_def split: option.split)

lemma carbon_signal_unit:
  assumes "wf_signals g" "wf_adaptive_policy p"
  shows "0 \<le> carbon_signal p g" "carbon_signal p g \<le> 1"
proof -
  let ?a = "max (telemetry_confidence g) (confidence_floor p)"
  let ?b = "max (carbon_forecast_confidence g) (confidence_floor p)"
  have ab: "0 \<le> ?a" "?a \<le> 1" "0 \<le> ?b" "?b \<le> 1"
    using assms by (auto simp: wf_signals_def wf_adaptive_policy_def le_max_iff_disj)
  then have "0 \<le> sqrt (?a * ?b)" "sqrt (?a * ?b) \<le> 1" by (simp_all add: mult_le_one)
  moreover have "0 \<le> carbon_opportunity_fraction g" "carbon_opportunity_fraction g \<le> 1"
    using assms(1) by (simp_all add: wf_signals_def)
  ultimately show "0 \<le> carbon_signal p g" "carbon_signal p g \<le> 1"
    by (simp_all add: carbon_signal_def mult_le_one)
qed

definition multipliers_within :: "real \<Rightarrow> weight_multipliers \<Rightarrow> bool" where
  "multipliers_within u m \<longleftrightarrow> m_time m \<in> {1..u} \<and> m_carbon m \<in> {1..u} \<and> m_cost m \<in> {1..u}"

lemma clamp_pressure:
  assumes "0 \<le> b" "0 \<le> x" "x \<le> 1"
  shows "clamp (1 + b * x) (1 - b) (1 + b) = 1 + b * x"
proof (rule clamp_id)
  have "0 \<le> b * x" "b * x \<le> b" using assms by (simp_all add: mult_left_le)
  then show "1 - b \<le> 1 + b * x" "1 + b * x \<le> 1 + b" using assms(1) by linarith+
qed

lemma adapt_multipliers_exact:
  assumes "wf_signals g" "wf_adaptive_policy p"
  shows "adapt_multipliers p g =
    \<lparr>m_time = 1 + multiplier_bound_fraction p * time_pressure g,
     m_carbon = 1 + multiplier_bound_fraction p * carbon_signal p g,
     m_cost = 1 + multiplier_bound_fraction p * cost_pressure g\<rparr>"
  using assms carbon_signal_unit [OF assms] cost_pressure_unit [OF assms(1)] time_pressure_unit [of g]
  by (simp add: adapt_multipliers_def Let_def clamp_pressure wf_adaptive_policy_def)

lemma adapt_multipliers_within:
  assumes "wf_signals g" "wf_adaptive_policy p"
  shows "multipliers_within (1 + multiplier_bound_fraction p) (adapt_multipliers p g)"
  using assms carbon_signal_unit [OF assms] cost_pressure_unit [OF assms(1)] time_pressure_unit [of g]
  by (simp add: adapt_multipliers_exact multipliers_within_def clamp_pressure wf_adaptive_policy_def
      mult_left_le)

lemma ratio_bounds:
  fixes w x y u :: real
  assumes "0 \<le> w" "1 \<le> x" "x \<le> u" "1 \<le> y" "y \<le> u"
  shows "w / u \<le> w * x / y" "w * x / y \<le> w * u" "0 \<le> w * x / y"
proof -
  have "w / u \<le> w / y" using assms by (intro divide_left_mono) simp_all
  also have "\<dots> \<le> w * x / y" using assms by (intro divide_right_mono) (simp_all add: mult_left_le_one_le mult_le_cancel_left1)
  finally show "w / u \<le> w * x / y" .
  have "w * x / y \<le> w * x / 1" using assms by (intro divide_left_mono) simp_all
  also have "\<dots> \<le> w * u" using assms by (simp add: mult_left_mono)
  finally show "w * x / y \<le> w * u" .
  show "0 \<le> w * x / y" using assms by simp
qed

definition weights_near :: "real \<Rightarrow> weight_vector \<Rightarrow> weight_vector \<Rightarrow> bool" where
  "weights_near u base w \<longleftrightarrow>
     w_time w \<in> {w_time base / u..w_time base * u}
   \<and> w_carbon w \<in> {w_carbon base / u..w_carbon base * u}
   \<and> w_cost w \<in> {w_cost base / u..w_cost base * u}"

lemma reweigh_bounds:
  assumes "on_simplex base" "multipliers_within u m" "1 \<le> u"
  shows "on_simplex (reweigh base m)" "weights_near u base (reweigh base m)"
proof -
  let ?T = "w_time base * m_time m + w_carbon base * m_carbon m + w_cost base * m_cost m"
  have b: "0 \<le> w_time base" "0 \<le> w_carbon base" "0 \<le> w_cost base"
    "w_time base + w_carbon base + w_cost base = 1"
    using assms(1) by (simp_all add: on_simplex_def weight_total_def)
  have m: "m_time m \<in> {1..u}" "m_carbon m \<in> {1..u}" "m_cost m \<in> {1..u}"
    using assms(2) by (simp_all add: multipliers_within_def)
  have "?T \<in> {1..u}" using weighted_sum_bounds [OF b m] .
  then have T: "1 \<le> ?T" "?T \<le> u" by simp_all
  then show "on_simplex (reweigh base m)"
    unfolding reweigh_def using b m by (intro normalized_on_simplex) (simp add: wf_weights_def)
  show "weights_near u base (reweigh base m)"
    using ratio_bounds [OF b(1) _ _ T, of "m_time m"] ratio_bounds [OF b(2) _ _ T, of "m_carbon m"]
      ratio_bounds [OF b(3) _ _ T, of "m_cost m"] m
    by (simp add: weights_near_def reweigh_def normalized_def Let_def)
qed

lemma reweigh_unit: "on_simplex base \<Longrightarrow> reweigh base unit_multipliers = base"
  by (cases base) (simp add: reweigh_def unit_multipliers_def normalized_fixpoint)

section \<open>Rolling windows\<close>

lemma metric_bounds_append:
  "metric_bounds (append_metric w ss vs ob) =
    Some (Min (set (map range_minimum (append_metric w ss vs ob))),
      Max (set (map range_maximum (append_metric w ss vs ob))))"
  by (simp add: metric_bounds_def append_metric_def last_append_capped)

lemma append_metric_covers:
  assumes "v \<in> set vs"
  shows "Min (set (map range_minimum (append_metric w ss vs ob))) \<le> v"
    and "v \<le> Max (set (map range_maximum (append_metric w ss vs ob)))"
proof -
  let ?x = "\<lparr>range_minimum = Min (set vs), range_maximum = Max (set vs), range_observed_at = ob\<rparr>"
  have x: "?x \<in> set (append_metric w ss vs ob)" unfolding append_metric_def by (rule in_append_capped)
  have "Min (set (map range_minimum (append_metric w ss vs ob))) \<le> range_minimum ?x"
    by (rule list_extrema) (use x in \<open>force\<close>)
  also have "\<dots> \<le> v" using assms by simp
  finally show "Min (set (map range_minimum (append_metric w ss vs ob))) \<le> v" .
  have "v \<le> range_maximum ?x" using assms by simp
  also have "\<dots> \<le> Max (set (map range_maximum (append_metric w ss vs ob)))"
    by (rule list_extrema) (use x in \<open>force\<close>)
  finally show "v \<le> Max (set (map range_maximum (append_metric w ss vs ob)))" .
qed

definition wf_window :: "nat \<Rightarrow> range_sample list \<Rightarrow> bool" where
  "wf_window w ss \<longleftrightarrow> length ss \<le> w \<and> (\<forall>r \<in> set ss. wf_range r)"

lemma append_metric_wf:
  assumes "1 \<le> w" "wf_window w ss" "vs \<noteq> []" "\<forall>v \<in> set vs. 0 \<le> v"
  shows "wf_window w (append_metric w ss vs ob)"
proof -
  have "Min (set vs) \<in> set vs" using assms(3) by (intro Min_in) simp_all
  then have "0 \<le> Min (set vs)" "Min (set vs) \<le> Max (set vs)" using assms(4) by simp_all
  then show ?thesis
    using assms set_append_capped [of w ss "\<lparr>range_minimum = Min (set vs), range_maximum = Max (set vs), range_observed_at = ob\<rparr>"]
    by (auto simp: wf_window_def append_metric_def length_append_capped wf_range_def)
qed

definition next_windows ::
  "policy_service \<Rightarrow> rolling_normalization \<Rightarrow> raw_action_estimate list \<Rightarrow> datetime \<Rightarrow> rolling_normalization" where
  "next_windows svc n es ob =
     \<lparr>roll_time = append_metric (rolling_window_epochs (adaptive_rules svc)) (roll_time n) (map time_seconds es) ob,
      roll_carbon = append_metric (rolling_window_epochs (adaptive_rules svc)) (roll_carbon n) (map carbon_grams es) ob,
      roll_cost = append_metric (rolling_window_epochs (adaptive_rules svc)) (roll_cost n) (map cost_usd es) ob\<rparr>"

definition window_bounds :: "rolling_normalization \<Rightarrow> normalization_bounds" where
  "window_bounds n =
     \<lparr>time_min = Min (set (map range_minimum (roll_time n))), time_max = Max (set (map range_maximum (roll_time n))),
      carbon_min = Min (set (map range_minimum (roll_carbon n))), carbon_max = Max (set (map range_maximum (roll_carbon n))),
      cost_min = Min (set (map range_minimum (roll_cost n))), cost_max = Max (set (map range_maximum (roll_cost n)))\<rparr>"

definition covers :: "normalization_bounds \<Rightarrow> raw_action_estimate \<Rightarrow> bool" where
  "covers b e \<longleftrightarrow> time_seconds e \<in> {time_min b..time_max b}
   \<and> carbon_grams e \<in> {carbon_min b..carbon_max b} \<and> cost_usd e \<in> {cost_min b..cost_max b}"

lemma append_ranges_eq:
  "es \<noteq> [] \<Longrightarrow> append_ranges svc st es ob =
    Inr (st\<lparr>normalization := next_windows svc (normalization st) es ob\<rparr>,
      window_bounds (next_windows svc (normalization st) es ob))"
  unfolding append_ranges_def Let_def next_windows_def window_bounds_def rolling_normalization.simps
    metric_bounds_append prod.case option.case fst_conv snd_conv by (simp only: if_False)

lemma window_bounds_cover:
  assumes "e \<in> set es"
  shows "covers (window_bounds (next_windows svc n es ob)) e"
proof -
  have "f e \<in> {Min (set (map range_minimum (append_metric w ss (map f es) ob)))
      ..Max (set (map range_maximum (append_metric w ss (map f es) ob)))}" for f w ss
    using assms append_metric_covers [of "f e" "map f es" w ss ob] by simp
  then show ?thesis
    unfolding covers_def window_bounds_def next_windows_def rolling_normalization.simps
      normalization_bounds.simps by blast
qed

section \<open>The invariant of the store\<close>

text \<open>
  The windows and the history stay within their limits, the ranges are ordered, the history holds
  the last decisions with consecutive numbers, and the last decision is the newest of it.
\<close>

definition wf_normalization :: "nat \<Rightarrow> rolling_normalization \<Rightarrow> bool" where
  "wf_normalization w n \<longleftrightarrow> wf_window w (roll_time n) \<and> wf_window w (roll_carbon n) \<and> wf_window w (roll_cost n)"

definition numbered :: "nat \<Rightarrow> nat list \<Rightarrow> bool" where
  "numbered c is \<longleftrightarrow> (\<exists>k \<le> c. is = [Suc k..<Suc c])"

definition wf_history :: "nat \<Rightarrow> policy_state \<Rightarrow> bool" where
  "wf_history limit st \<longleftrightarrow> length (decision_history st) \<le> limit
   \<and> numbered (decision_count st) (map decision_index (decision_history st))
   \<and> (decision_history st \<noteq> [] \<longrightarrow> last_decision st = Some (last (decision_history st)))"

definition wf_policy_state :: "policy_service \<Rightarrow> policy_state \<Rightarrow> bool" where
  "wf_policy_state svc st \<longleftrightarrow> on_simplex (baseline_weights st) \<and> on_simplex (effective_weights st)
   \<and> multipliers_within (1 + multiplier_bound_fraction (adaptive_rules svc)) (multipliers st)
   \<and> wf_signals (signals st)
   \<and> wf_normalization (rolling_window_epochs (adaptive_rules svc)) (normalization st)
   \<and> wf_history (decision_history_limit (adaptive_rules svc)) st"

definition wf_service :: "policy_service \<Rightarrow> bool" where
  "wf_service svc \<longleftrightarrow> wf_adaptive_policy (adaptive_rules svc) \<and> on_simplex (service_baseline svc)"

definition policy_store_ok :: "policy_service \<Rightarrow> policy_store \<Rightarrow> bool" where
  "policy_store_ok svc s \<longleftrightarrow> dict_ok (policy_states s)
   \<and> (\<forall>(k, st) \<in> set (policy_states s). state_task_id st = k \<and> wf_policy_state svc st)"

lemma make_service_wf: "wf_adaptive_policy p \<Longrightarrow> wf_weights w \<Longrightarrow> wf_service (make_service p w)"
  by (simp add: wf_service_def make_service_def normalized_on_simplex)

lemma numbered_Suc:
  assumes "1 \<le> limit" "numbered c (map decision_index h)" "decision_index r = Suc c"
  shows "numbered (Suc c) (map decision_index (append_capped limit h r))"
proof -
  from assms(2) obtain k where "k \<le> c" "map decision_index h = [Suc k..<Suc c]"
    unfolding numbered_def by blast
  then obtain k' where "Suc k \<le> k'" "append_capped limit (map decision_index h) (Suc c) = [k'..<Suc (Suc c)]"
      "k' \<le> Suc (Suc c)"
    using append_capped_upt [of "map decision_index h" "Suc k" "Suc c" limit] by auto
  then show ?thesis
    unfolding numbered_def map_append_capped assms(3) by (intro exI [where x = "k' - 1"]) auto
qed

lemma unit_multipliers_within: "1 \<le> u \<Longrightarrow> multipliers_within u unit_multipliers"
  by (simp add: multipliers_within_def unit_multipliers_def)

lemma policy_store_ok_get:
  "policy_store_ok svc s \<Longrightarrow> get_policy s t = Some st \<Longrightarrow> state_task_id st = t \<and> wf_policy_state svc st"
  by (auto simp: policy_store_ok_def get_policy_def dest: dict_get_SomeD)

lemma state_for_wf:
  assumes "wf_service svc" "policy_store_ok svc s"
  shows "wf_policy_state svc (state_for svc s t created)" "state_task_id (state_for svc s t created) = t"
proof -
  have "1 \<le> 1 + multiplier_bound_fraction (adaptive_rules svc)"
    using assms(1) by (simp add: wf_service_def wf_adaptive_policy_def)
  then have fresh: "get_policy s t = None \<Longrightarrow> wf_policy_state svc (state_for svc s t created)"
    using assms(1)
    by (simp add: state_for_def wf_policy_state_def wf_service_def unit_multipliers_within default_signals_wf
        wf_normalization_def wf_window_def wf_history_def numbered_def)
  show "wf_policy_state svc (state_for svc s t created)"
  proof (cases "get_policy s t")
    case (Some st)
    then show ?thesis using policy_store_ok_get [OF assms(2) Some] by (simp add: state_for_def)
  qed (fact fresh)
  show "state_task_id (state_for svc s t created) = t"
    using policy_store_ok_get [OF assms(2)] by (auto simp: state_for_def split: option.split)
qed

lemma persist_states [simp]: "policy_states (persist_policies s) = policy_states s"
  by (simp add: persist_policies_def)

lemma put_states [simp]:
  "policy_states (put_policy s st) = dict_put (state_task_id st) st (policy_states s)"
  by (simp add: put_policy_def)

lemma set_dict_put: "(k, v) \<in> set (dict_put k' v' d) \<Longrightarrow> (k, v) = (k', v') \<or> (k, v) \<in> set d"
  by (induction d) (auto simp: dict_put_def split: if_splits)

lemma put_policy_ok:
  "policy_store_ok svc s \<Longrightarrow> wf_policy_state svc st \<Longrightarrow> policy_store_ok svc (put_policy s st)"
  unfolding policy_store_ok_def by (auto dest!: set_dict_put)

lemma merge_policy_ok:
  "policy_store_ok svc s \<Longrightarrow> wf_policy_state svc st \<Longrightarrow> policy_store_ok svc (fst (merge_policy s st))"
  by (simp add: merge_policy_def put_policy_ok split: option.split)

lemma delete_policy_ok: "policy_store_ok svc s \<Longrightarrow> policy_store_ok svc (fst (delete_policy s t))"
proof -
  assume ok: "policy_store_ok svc s"
  have "set (AList.delete t (policy_states s)) \<subseteq> set (policy_states s)" by (auto simp: AList.delete_eq)
  then show ?thesis using ok
    by (auto simp: policy_store_ok_def delete_policy_def dict_ok_def AList.distinct_delete)
qed

lemma next_windows_wf:
  assumes "wf_adaptive_policy (adaptive_rules svc)" "es \<noteq> []" "\<forall>e \<in> set es. wf_estimate e"
    "wf_normalization (rolling_window_epochs (adaptive_rules svc)) n"
  shows "wf_normalization (rolling_window_epochs (adaptive_rules svc)) (next_windows svc n es ob)"
  using assms
  by (auto simp: wf_normalization_def next_windows_def wf_adaptive_policy_def wf_estimate_def
      intro!: append_metric_wf)

text \<open>The effect of \<open>prepare\<close> in one equation.\<close>

definition prepared ::
  "policy_service \<Rightarrow> policy_store \<Rightarrow> task_profile \<Rightarrow> raw_action_estimate list \<Rightarrow> datetime \<Rightarrow> real
     \<Rightarrow> real \<Rightarrow> datetime \<Rightarrow> datetime \<Rightarrow> policy_state" where
  "prepared svc s task es at_utc tc fcc created now =
     (let st = state_for svc s (profile_task_id task) created;
          g = signals_of task es at_utc tc fcc;
          r = (if adaptive_enabled (adaptive_rules svc) then adapt (adaptive_rules svc) (baseline_weights st) g
               else (unit_multipliers, baseline_weights st))
      in st\<lparr>normalization := next_windows svc (normalization st) es at_utc,
            effective_weights := snd r, multipliers := fst r, signals := g, policy_updated_at := now\<rparr>)"

lemma prepare_eq:
  "es \<noteq> [] \<Longrightarrow> prepare svc s task es at_utc tc fcc constraints created now =
    (let st = prepared svc s task es at_utc tc fcc created now
     in Inr (put_policy s st,
       \<lparr>context_task_id = profile_task_id task, context_baseline = baseline_weights st,
        context_effective = effective_weights st, context_multipliers = multipliers st,
        context_signals = signals st, context_bounds = window_bounds (normalization st),
        context_constraints = constraints\<rparr>))"
  by (simp add: prepare_def append_ranges_eq prepared_def Let_def case_prod_unfold)

lemma prepared_wf:
  assumes "wf_service svc" "policy_store_ok svc s" "es \<noteq> []" "\<forall>e \<in> set es. wf_estimate e"
  shows "wf_policy_state svc (prepared svc s task es at_utc tc fcc created now)"
proof -
  let ?st = "state_for svc s (profile_task_id task) created" and ?p = "adaptive_rules svc"
  let ?g = "signals_of task es at_utc tc fcc" and ?u = "1 + multiplier_bound_fraction (adaptive_rules svc)"
  have p: "wf_adaptive_policy ?p" using assms(1) by (simp add: wf_service_def)
  then have u: "1 \<le> ?u" by (simp add: wf_adaptive_policy_def)
  have st: "wf_policy_state svc ?st" using assms(1,2) by (rule state_for_wf)
  then have base: "on_simplex (baseline_weights ?st)" by (simp add: wf_policy_state_def)
  have m: "multipliers_within ?u (adapt_multipliers ?p ?g)"
    using signals_of_wf p by (rule adapt_multipliers_within)
  have n: "wf_normalization (rolling_window_epochs ?p) (next_windows svc (normalization ?st) es at_utc)"
    using p assms(3,4) st by (intro next_windows_wf) (simp_all add: wf_policy_state_def)
  have "multipliers_within ?u unit_multipliers" using u by (rule unit_multipliers_within)
  then show ?thesis
    using st base m n reweigh_bounds(1) [OF base m u]
    by (simp add: prepared_def adapt_def Let_def wf_policy_state_def wf_history_def signals_of_wf)
qed

definition wf_context :: "policy_service \<Rightarrow> decision_context \<Rightarrow> bool" where
  "wf_context svc c \<longleftrightarrow> on_simplex (context_baseline c) \<and> on_simplex (context_effective c)
   \<and> multipliers_within (1 + multiplier_bound_fraction (adaptive_rules svc)) (context_multipliers c)
   \<and> wf_signals (context_signals c)"

lemma prepare_ok:
  assumes "wf_service svc" "policy_store_ok svc s" "es \<noteq> []" "\<forall>e \<in> set es. wf_estimate e"
  obtains s' c where "prepare svc s task es at_utc tc fcc constraints created now = Inr (s', c)"
    "policy_store_ok svc s'" "wf_context svc c" "context_task_id c = profile_task_id task"
    "\<forall>e \<in> set es. covers (context_bounds c) e"
proof -
  let ?st = "prepared svc s task es at_utc tc fcc created now"
  have wf: "wf_policy_state svc ?st" using assms by (rule prepared_wf)
  have cov: "\<forall>e \<in> set es. covers (window_bounds (normalization ?st)) e"
    by (simp add: prepared_def Let_def window_bounds_cover)
  show ?thesis
    by (rule that [OF prepare_eq [OF assms(3), unfolded Let_def]])
      (use wf cov put_policy_ok [OF assms(2) wf] in \<open>simp_all add: wf_context_def wf_policy_state_def\<close>)
qed

lemma record_decision_ok:
  assumes "wf_service svc" "policy_store_ok svc s" "wf_context svc c"
    "record_decision svc s d c at_utc created now = (s', st')"
  shows "policy_store_ok svc s'" "wf_policy_state svc st'" "get_policy s' (context_task_id c) = Some st'"
    "decision_count st' = Suc (decision_count (state_for svc s (context_task_id c) created))"
proof -
  let ?st = "state_for svc s (context_task_id c) created" and ?limit = "decision_history_limit (adaptive_rules svc)"
  let ?r = "decision_record_of d c at_utc (Suc (decision_count ?st))"
  have st: "wf_policy_state svc ?st" "state_task_id ?st = context_task_id c"
    using assms(1,2) by (rule state_for_wf)+
  have limit: "1 \<le> ?limit" using assms(1) by (simp add: wf_service_def wf_adaptive_policy_def)
  have s': "s' = put_policy s st'" and st': "st' = ?st\<lparr>decision_count := Suc (decision_count ?st),
      last_decision := Some ?r, decision_history := append_capped ?limit (decision_history ?st) ?r,
      effective_weights := context_effective c, multipliers := context_multipliers c,
      signals := context_signals c, policy_updated_at := now\<rparr>"
    using assms(4) unfolding record_decision_def Let_def prod.inject by (blast, blast)
  have idx: "decision_index ?r = Suc (decision_count ?st)" by (simp add: decision_record_of_def)
  have h: "length (decision_history ?st) \<le> ?limit"
    "numbered (decision_count ?st) (map decision_index (decision_history ?st))"
    using st(1) by (simp_all add: wf_policy_state_def wf_history_def)
  have "wf_history ?limit st'"
    using length_append_capped [OF limit h(1)] numbered_Suc [OF limit h(2) idx]
    by (simp add: st' wf_history_def last_append_capped)
  then show wf: "wf_policy_state svc st'"
    using st(1) assms(3) by (simp add: st' wf_policy_state_def wf_context_def)
  show "policy_store_ok svc s'" unfolding s' using assms(2) wf by (rule put_policy_ok)
  show "get_policy s' (context_task_id c) = Some st'" using st(2) by (simp add: s' get_policy_def) (simp add: st')
  show "decision_count st' = Suc (decision_count ?st)" by (simp add: st')
qed

section \<open>Merging snapshots from peers\<close>

type_synonym policy_version = "nat \<times> datetime"

definition version_of :: "policy_state \<Rightarrow> policy_version" where
  "version_of st = (decision_count st, policy_updated_at st)"

definition merge_all :: "policy_store \<Rightarrow> policy_state list \<Rightarrow> policy_store" where
  "merge_all s updates = fold (\<lambda>st s. fst (merge_policy s st)) updates s"

lemma merge_policy_get:
  "get_policy (fst (merge_policy s st)) t =
    (if t \<noteq> state_task_id st then get_policy s t
     else case get_policy s t of
       None \<Rightarrow> Some st
     | Some current \<Rightarrow> if version_of st \<le> version_of current then Some current else Some st)"
  by (auto simp: merge_policy_def get_policy_def version_of_def less_eq_prod_def split: option.split)

lemma merge_all_Nil [simp]: "merge_all s [] = s"
  by (simp add: merge_all_def)

lemma merge_all_Cons [simp]: "merge_all s (st # sts) = merge_all (fst (merge_policy s st)) sts"
  by (simp add: merge_all_def)

text \<open>
  After any run of merges a store holds, for each task, the first of the newest snapshots it has
  seen: a state of maximal version among the one it had and those merged.
\<close>

definition candidates :: "policy_store \<Rightarrow> policy_state list \<Rightarrow> task_id \<Rightarrow> policy_state set" where
  "candidates s updates t = {st \<in> set updates. state_task_id st = t} \<union> set_option (get_policy s t)"

lemma merge_all_newest:
  assumes "candidates s updates t \<noteq> {}"
  shows "\<exists>st \<in> candidates s updates t. get_policy (merge_all s updates) t = Some st
    \<and> (\<forall>st' \<in> candidates s updates t. version_of st' \<le> version_of st)"
  using assms
proof (induction updates arbitrary: s)
  case Nil
  then show ?case by (auto simp: candidates_def)
next
  case (Cons u updates)
  let ?s = "fst (merge_policy s u)"
  show ?case
  proof (cases "state_task_id u = t")
    case False
    then have "candidates s (u # updates) t = candidates ?s updates t"
      by (auto simp: candidates_def merge_policy_get)
    then show ?thesis using Cons.IH [of ?s] Cons.prems by simp
  next
    case True
    obtain v where v: "get_policy ?s t = Some v" "v = u \<or> get_policy s t = Some v"
      "version_of u \<le> version_of v" "\<forall>w \<in> set_option (get_policy s t). version_of w \<le> version_of v"
    proof (cases "get_policy s t")
      case None
      then show ?thesis using that [of u] True by (simp add: merge_policy_get)
    next
      case (Some w)
      then show ?thesis using that [of w] that [of u] True
        by (cases "version_of u \<le> version_of w") (simp_all add: merge_policy_get)
    qed
    have "v \<in> candidates ?s updates t" using v by (simp add: candidates_def)
    then obtain st where st: "st \<in> candidates ?s updates t" "get_policy (merge_all ?s updates) t = Some st"
      "\<forall>st' \<in> candidates ?s updates t. version_of st' \<le> version_of st"
      using Cons.IH [of ?s] by blast
    have "version_of v \<le> version_of st" using st(3) v(1) by (simp add: candidates_def)
    then have top: "version_of st' \<le> version_of st" if "st' \<in> candidates s (u # updates) t" for st'
      using that st(3) v(3,4) by (auto simp: candidates_def intro: order_trans)
    have "st \<in> candidates s (u # updates) t"
      using st(1) v(1,2) True by (auto simp: candidates_def)
    with st(2) top show ?thesis by auto
  qed
qed

section \<open>Reload\<close>

lemma distinct_sort_keys: "distinct (map fst d) \<Longrightarrow> distinct (map fst (sort_key fst d))"
  by (simp add: distinct_map)

lemma map_of_sort_key: "distinct (map fst d) \<Longrightarrow> map_of (sort_key fst d) = map_of d"
  by (rule map_of_eqI)
    (auto simp: distinct_sort_keys map_of_eq_Some_iff [THEN iffD2] image_def)

end
