(* ===== verification/Scoring.thy ===== *)
theory Scoring
  imports Adaptive_Policy_Laws
begin

text \<open>
  \<open>magellan/scheduler/scoring.py\<close>: the estimates of a task's possible actions, their scores, the
  choice among them and the evaluation that threads the adaptive policy through it.  A graph is the
  cluster description with the telemetry it may read; the carbon store and forecast policy enter as
  the forecaster they induce at the instant of the evaluation.
\<close>

section \<open>Estimates\<close>

definition forecaster_at ::
  "(node_id \<Rightarrow> datetime \<Rightarrow> real \<Rightarrow> real result) \<Rightarrow> carbon_store \<Rightarrow> forecast_policy option \<Rightarrow> datetime
     \<Rightarrow> forecaster" where
  "forecaster_at window_average cs policy now =
     (\<lambda>node start duration. forecast_or_average window_average cs policy node now start duration)"

fun pause_estimates ::
  "(real \<Rightarrow> raw_action_estimate option result) \<Rightarrow> real list \<Rightarrow> raw_action_estimate list result" where
  "pause_estimates est [] = Inr []"
| "pause_estimates est (idle # idles) =
     bind_result (est idle) (\<lambda>e.
     bind_result (pause_estimates est idles) (\<lambda>es.
     Inr (case e of None \<Rightarrow> es | Some e \<Rightarrow> e # es)))"

definition over_cost_cap :: "task_profile \<Rightarrow> raw_action_estimate \<Rightarrow> bool" where
  "over_cost_cap task e =
     (case cost_cap_usd task of
        None \<Rightarrow> False
      | Some cap \<Rightarrow> profile_accumulated_cost task + cost_usd e > cap)"

fun migration_estimates ::
  "task_profile \<Rightarrow> (node_config \<Rightarrow> raw_action_estimate result) \<Rightarrow> node_id set option \<Rightarrow> node_config list
     \<Rightarrow> raw_action_estimate list result" where
  "migration_estimates task est destinations [] = Inr []"
| "migration_estimates task est destinations (n # ns) =
     (if (case destinations of None \<Rightarrow> False | Some ids \<Rightarrow> node_identity n \<notin> ids)
      then migration_estimates task est destinations ns
      else bind_result (est n) (\<lambda>e.
           bind_result (migration_estimates task est destinations ns) (\<lambda>es.
           Inr (if over_cost_cap task e then es else e # es))))"

definition static_override :: "int dict option \<Rightarrow> node_id \<Rightarrow> int option" where
  "static_override static_bytes n =
     (case static_bytes of None \<Rightarrow> None
      | Some d \<Rightarrow> Some (case dict_get d n of None \<Rightarrow> 0 | Some b \<Rightarrow> b))"

definition migrate_to ::
  "task_profile \<Rightarrow> cluster_config \<Rightarrow> scoring_policy \<Rightarrow> telemetry_source option \<Rightarrow> forecaster \<Rightarrow> datetime
     \<Rightarrow> int dict option \<Rightarrow> node_config \<Rightarrow> node_config \<Rightarrow> raw_action_estimate result" where
  "migrate_to task c p telemetry fc now static_bytes src dst =
     bind_result (graph_edge c telemetry (node_identity src) (node_identity dst)) (\<lambda>e.
     estimate_migrate task src dst e fc now (of_int (horizon_seconds p)) (pause p) (migration p)
       (static_override static_bytes (node_identity dst)))"

definition build_raw_actions ::
  "task_profile \<Rightarrow> cluster_config \<Rightarrow> scoring_policy \<Rightarrow> telemetry_source option \<Rightarrow> forecaster \<Rightarrow> datetime
     \<Rightarrow> int dict option \<Rightarrow> node_id set option \<Rightarrow> raw_action_estimate list result" where
  "build_raw_actions task c p telemetry fc now static_bytes destinations =
     bind_result (get_node c (current_node_id task)) (\<lambda>src.
     bind_result (estimate_continue task src fc now (of_int (horizon_seconds p))) (\<lambda>continue.
     bind_result (pause_estimates
         (\<lambda>idle. estimate_pause task src fc now (of_int (horizon_seconds p)) (pause p) (Some idle))
         (idle_candidates (pause p))) (\<lambda>pauses.
     bind_result (migration_estimates task (migrate_to task c p telemetry fc now static_bytes src)
         destinations (peers c (node_identity src))) (\<lambda>migrations.
     Inr (continue # pauses @ migrations)))))"

section \<open>Scores\<close>

definition normalize_with_bounds :: "real list \<Rightarrow> real \<Rightarrow> real \<Rightarrow> real list" where
  "normalize_with_bounds values minimum maximum =
     (if maximum \<le> minimum then map (\<lambda>_. 0) values
      else map (\<lambda>value. max 0 (min 1 ((value - minimum) / (maximum - minimum)))) values)"

definition scored_of :: "weight_vector \<Rightarrow> raw_action_estimate \<Rightarrow> real \<Rightarrow> real \<Rightarrow> real \<Rightarrow> scored_action" where
  "scored_of w e t c u =
     raw_action_estimate.extend e \<lparr>normalized_time = t, normalized_carbon = c, normalized_cost = u,
       score = w_time w * t + w_carbon w * c + w_cost w * u\<rparr>"

definition normalized_metrics ::
  "raw_action_estimate list \<Rightarrow> decision_context option \<Rightarrow> real list \<times> real list \<times> real list" where
  "normalized_metrics estimates context =
     (case context of
        None \<Rightarrow> (minmax_normalize (map time_seconds estimates), minmax_normalize (map carbon_grams estimates),
                 minmax_normalize (map cost_usd estimates))
      | Some c \<Rightarrow>
          let b = context_bounds c
          in (normalize_with_bounds (map time_seconds estimates) (time_min b) (time_max b),
              normalize_with_bounds (map carbon_grams estimates) (carbon_min b) (carbon_max b),
              normalize_with_bounds (map cost_usd estimates) (cost_min b) (cost_max b)))"

definition scoring_weights :: "scoring_policy \<Rightarrow> decision_context option \<Rightarrow> weight_vector" where
  "scoring_weights p context = (case context of None \<Rightarrow> normalized (weights p) | Some c \<Rightarrow> context_effective c)"

definition scored_list ::
  "raw_action_estimate list \<Rightarrow> scoring_policy \<Rightarrow> decision_context option \<Rightarrow> scored_action list" where
  "scored_list estimates p context =
     (let (ts, cs, us) = normalized_metrics estimates context; w = scoring_weights p context
      in map (\<lambda>i. scored_of w (estimates ! i) (ts ! i) (cs ! i) (us ! i)) [0..<length estimates])"

definition score_actions ::
  "raw_action_estimate list \<Rightarrow> scoring_policy \<Rightarrow> decision_context option \<Rightarrow> scored_action list result" where
  "score_actions estimates p context =
     (if estimates = [] then Inl (ValueError ''Cannot score an empty action list'')
      else Inr (sort_key score (scored_list estimates p context)))"

section \<open>Choice\<close>

text \<open>The reason of a pause leaves out the rendering of its idle seconds, a field of the action.\<close>

definition is_local :: "scored_action \<Rightarrow> bool" where
  "is_local a \<longleftrightarrow> action a = Continue \<or> action a = Pause"

definition gap_elapsed :: "datetime option \<Rightarrow> datetime \<Rightarrow> real \<Rightarrow> bool" where
  "gap_elapsed previous now gap = (case previous of None \<Rightarrow> True | Some l \<Rightarrow> \<not> now - l < gap)"

definition relative_improvement :: "scored_action \<Rightarrow> scored_action \<Rightarrow> real" where
  "relative_improvement best_local best =
     (score best_local - score best) / max (score best_local) (1 / 1000000000000)"

definition choose_action ::
  "task_profile \<Rightarrow> scored_action list \<Rightarrow> scoring_policy \<Rightarrow> datetime \<Rightarrow> decision_result result" where
  "choose_action task ranked p now =
     (if ranked = [] then Inl (ValueError ''No ranked actions were supplied'')
      else case min_by score (filter is_local ranked) of
        None \<Rightarrow> Inl (ValueError ''At least one local action must exist'')
      | Some best_local \<Rightarrow>
          let best = hd ranked;
              result = (\<lambda>a reason. Inr \<lparr>selected = a, ranked_actions = ranked, decision_reason_text = reason\<rparr>)
          in case action best of
               Pause \<Rightarrow>
                 (case find (\<lambda>a. action a = Continue) ranked of
                    None \<Rightarrow> Inl (OtherError ''StopIteration'')
                  | Some continue \<Rightarrow>
                      if \<not> gap_elapsed (last_pause_at task) now (min_pause_gap_seconds (pause p))
                      then result continue ''Pause has the lowest score, but the minimum pause gap has not elapsed''
                      else result best ''Pause has the lowest score'')
             | Continue \<Rightarrow> result best ''Continue has the lowest score''
             | Migrate \<Rightarrow>
                 if \<not> gap_elapsed (last_migration_at task) now (min_migration_gap_seconds (migration p))
                 then result best_local
                   ''Migration has the lowest score, but the minimum migration gap has not elapsed''
                 else if relative_improvement best_local best < required_improvement_fraction (migration p)
                 then result best_local ''Migration improvement is below the required hysteresis threshold''
                 else result best
                   ''Migration has the lowest score and passes migration gap and improvement checks'')"

section \<open>Evaluation\<close>

definition hard_constraints_of ::
  "task_profile \<Rightarrow> nat \<Rightarrow> raw_action_estimate list \<Rightarrow> constraint_value dict" where
  "hard_constraints_of task peer_count estimates =
     [(''cost_cap_enabled'', BoolValue (cost_cap_usd task \<noteq> None)),
      (''cost_cap_exhausted'',
         BoolValue (case cost_cap_usd task of None \<Rightarrow> False | Some cap \<Rightarrow> profile_accumulated_cost task \<ge> cap)),
      (''cost_cap_pruned_migrations'',
         FloatValue (max 0 (real peer_count - real (length (filter (\<lambda>e. action e = Migrate) estimates)))))]"

definition forecast_confidence_of :: "raw_action_estimate list \<Rightarrow> real \<Rightarrow> real" where
  "forecast_confidence_of estimates telemetry =
     (let cs = filter (\<lambda>c. c > 0) (List.map_filter detail_carbon_confidence estimates)
      in if cs = [] then telemetry else Min (set cs))"

record adaptive_clock =
  clock_created :: datetime
  clock_prepared :: datetime
  clock_recorded :: datetime

definition evaluate_task ::
  "task_profile \<Rightarrow> cluster_config \<Rightarrow> scoring_policy \<Rightarrow> telemetry_source option \<Rightarrow> forecaster \<Rightarrow> datetime
     \<Rightarrow> int dict option \<Rightarrow> (policy_service \<times> policy_store \<times> adaptive_clock) option \<Rightarrow> real
     \<Rightarrow> node_id set option
     \<Rightarrow> (decision_result \<times> (policy_store \<times> decision_context \<times> nat) option) result" where
  "evaluate_task task c p telemetry fc now static_bytes adaptive confidence_of_telemetry destinations =
     bind_result (build_raw_actions task c p telemetry fc now static_bytes destinations) (\<lambda>estimates.
     case adaptive of
       None \<Rightarrow>
         bind_result (score_actions estimates p None) (\<lambda>ranked.
         bind_result (choose_action task ranked p now) (\<lambda>d. Inr (d, None)))
     | Some (svc, s, clk) \<Rightarrow>
         bind_result (prepare svc s task estimates now confidence_of_telemetry
             (forecast_confidence_of estimates confidence_of_telemetry)
             (hard_constraints_of task (length (peers c (current_node_id task))) estimates)
             (clock_created clk) (clock_prepared clk)) (\<lambda>(s1, context).
         bind_result (score_actions estimates p (Some context)) (\<lambda>ranked.
         bind_result (choose_action task ranked p now) (\<lambda>d.
           let (s2, st) = record_decision svc s1 d context now (clock_created clk) (clock_recorded clk)
           in Inr (d, Some (s2, context, decision_count st))))))"

end
