(* ===== verification/Scoring_Laws.thy ===== *)
theory Scoring_Laws
  imports Scoring "HOL-Library.Multiset"
begin

text \<open>
  Laws of the scheduler: the shape of the estimate list, the scores on the unit interval, the
  order of the ranking and what a choice of each action implies.
\<close>

section \<open>The estimate list\<close>

lemma pause_estimates_set:
  "pause_estimates est idles = Inr es \<Longrightarrow> e \<in> set es \<Longrightarrow> \<exists>i \<in> set idles. est i = Inr (Some e)"
proof (induction idles arbitrary: es)
  case (Cons i idles)
  then show ?case by (auto simp: bind_result_Inr_iff split: option.splits)
qed simp

lemma migration_estimates_set:
  "migration_estimates task est ds ns = Inr es \<Longrightarrow> e \<in> set es \<Longrightarrow>
   \<exists>n \<in> set ns. est n = Inr e \<and> (\<forall>ids. ds = Some ids \<longrightarrow> node_identity n \<in> ids) \<and> \<not> over_cost_cap task e"
proof (induction ns arbitrary: es)
  case (Cons n ns)
  show ?case
  proof (cases "case ds of None \<Rightarrow> False | Some ids \<Rightarrow> node_identity n \<notin> ids")
    case True
    then show ?thesis using Cons by auto
  next
    case False
    then obtain e' es' where "est n = Inr e'" "migration_estimates task est ds ns = Inr es'"
      "es = (if over_cost_cap task e' then es' else e' # es')"
      using Cons.prems(1) by (auto simp: bind_result_Inr_iff)
    then show ?thesis using Cons False by (cases ds) (auto split: if_splits)
  qed
qed simp

lemma build_raw_actions_shape:
  assumes "build_raw_actions task c p telemetry fc now sb ds = Inr es"
  obtains src ce ps ms where "get_node c (current_node_id task) = Inr src"
    "estimate_continue task src fc now (of_int (horizon_seconds p)) = Inr ce"
    "pause_estimates (\<lambda>idle. estimate_pause task src fc now (of_int (horizon_seconds p)) (pause p) (Some idle))
       (idle_candidates (pause p)) = Inr ps"
    "migration_estimates task (migrate_to task c p telemetry fc now sb src) ds (peers c (node_identity src)) = Inr ms"
    "es = ce # ps @ ms"
  using assms unfolding build_raw_actions_def bind_result_Inr_iff by blast

section \<open>Scores\<close>

lemma length_normalize_with_bounds [simp]: "length (normalize_with_bounds vs a b) = length vs"
  by (simp add: normalize_with_bounds_def)

lemma normalize_with_bounds_unit: "n \<in> set (normalize_with_bounds vs a b) \<Longrightarrow> 0 \<le> n \<and> n \<le> 1"
  by (auto simp: normalize_with_bounds_def split: if_splits)

lemma normalize_with_bounds_mono:
  assumes "i < length vs" "j < length vs" "vs ! i \<le> vs ! j"
  shows "normalize_with_bounds vs a b ! i \<le> normalize_with_bounds vs a b ! j"
proof (cases "b \<le> a")
  case False
  then have "(vs ! i - a) / (b - a) \<le> (vs ! j - a) / (b - a)"
    using assms(3) by (intro divide_right_mono) simp_all
  then show ?thesis using assms by (auto simp: normalize_with_bounds_def)
qed (use assms in \<open>simp add: normalize_with_bounds_def\<close>)

lemma normalized_metrics_props:
  assumes "normalized_metrics es ctx = (ts, cs, us)"
  shows "length ts = length es" "length cs = length es" "length us = length es"
    and "\<forall>n \<in> set ts \<union> set cs \<union> set us. 0 \<le> n \<and> n \<le> 1"
    and "i < length es \<Longrightarrow> j < length es \<Longrightarrow> time_seconds (es ! i) \<le> time_seconds (es ! j) \<Longrightarrow> ts ! i \<le> ts ! j"
    and "i < length es \<Longrightarrow> j < length es \<Longrightarrow> carbon_grams (es ! i) \<le> carbon_grams (es ! j) \<Longrightarrow> cs ! i \<le> cs ! j"
    and "i < length es \<Longrightarrow> j < length es \<Longrightarrow> cost_usd (es ! i) \<le> cost_usd (es ! j) \<Longrightarrow> us ! i \<le> us ! j"
proof -
  show "length ts = length es" "length cs = length es" "length us = length es"
    using assms by (auto simp: normalized_metrics_def Let_def split: option.splits)
  show "\<forall>n \<in> set ts \<union> set cs \<union> set us. 0 \<le> n \<and> n \<le> 1"
    using assms minmax_normalize_unit normalize_with_bounds_unit
    by (cases ctx) (auto simp: normalized_metrics_def Let_def)
  note mono = minmax_normalize_mono [of i _ j] normalize_with_bounds_mono [of i _ j]
  show "i < length es \<Longrightarrow> j < length es \<Longrightarrow> time_seconds (es ! i) \<le> time_seconds (es ! j) \<Longrightarrow> ts ! i \<le> ts ! j"
    and "i < length es \<Longrightarrow> j < length es \<Longrightarrow> carbon_grams (es ! i) \<le> carbon_grams (es ! j) \<Longrightarrow> cs ! i \<le> cs ! j"
    and "i < length es \<Longrightarrow> j < length es \<Longrightarrow> cost_usd (es ! i) \<le> cost_usd (es ! j) \<Longrightarrow> us ! i \<le> us ! j"
    using assms mono by (cases ctx; auto simp: normalized_metrics_def Let_def)+
qed

definition wf_scoring_context :: "decision_context option \<Rightarrow> bool" where
  "wf_scoring_context ctx \<longleftrightarrow> (\<forall>c. ctx = Some c \<longrightarrow> on_simplex (context_effective c))"

lemma scoring_weights_simplex:
  "wf_weights (weights p) \<Longrightarrow> wf_scoring_context ctx \<Longrightarrow> on_simplex (scoring_weights p ctx)"
  by (simp add: scoring_weights_def wf_scoring_context_def normalized_on_simplex split: option.split)

lemma scored_of_simps [simp]:
  "action (scored_of w e t c u) = action e" "time_seconds (scored_of w e t c u) = time_seconds e"
  "carbon_grams (scored_of w e t c u) = carbon_grams e" "cost_usd (scored_of w e t c u) = cost_usd e"
  "source_node (scored_of w e t c u) = source_node e"
  "destination_node (scored_of w e t c u) = destination_node e"
  "raw_action_estimate.truncate (scored_of w e t c u) = e"
  "score (scored_of w e t c u) = w_time w * t + w_carbon w * c + w_cost w * u"
  "normalized_time (scored_of w e t c u) = t" "normalized_carbon (scored_of w e t c u) = c"
  "normalized_cost (scored_of w e t c u) = u"
  by (simp_all add: scored_of_def raw_action_estimate.defs)

lemma scored_list_truncate:
  "map raw_action_estimate.truncate (scored_list es p ctx) = es"
  by (simp add: scored_list_def case_prod_unfold Let_def comp_def map_nth)

lemma length_scored_list [simp]: "length (scored_list es p ctx) = length es"
  by (simp add: scored_list_def case_prod_unfold Let_def)

lemma scored_list_nth:
  assumes "normalized_metrics es ctx = (ts, cs, us)" "i < length es"
  shows "scored_list es p ctx ! i = scored_of (scoring_weights p ctx) (es ! i) (ts ! i) (cs ! i) (us ! i)"
  using assms by (simp add: scored_list_def Let_def)

lemma scored_list_unit:
  assumes "wf_weights (weights p)" "wf_scoring_context ctx" "a \<in> set (scored_list es p ctx)"
  shows "score a \<in> {0..1} \<and> normalized_time a \<in> {0..1} \<and> normalized_carbon a \<in> {0..1}
    \<and> normalized_cost a \<in> {0..1}"
proof -
  obtain ts cs us where n: "normalized_metrics es ctx = (ts, cs, us)" by (rule prod_cases3)
  from assms(3) obtain i where i: "i < length es" "a = scored_list es p ctx ! i"
    by (auto simp: in_set_conv_nth)
  have a: "a = scored_of (scoring_weights p ctx) (es ! i) (ts ! i) (cs ! i) (us ! i)"
    using i scored_list_nth [OF n] by simp
  have u: "ts ! i \<in> {0..1}" "cs ! i \<in> {0..1}" "us ! i \<in> {0..1}"
    using normalized_metrics_props(1-4) [OF n] i(1) by simp_all
  have "on_simplex (scoring_weights p ctx)" using assms(1,2) by (rule scoring_weights_simplex)
  then show ?thesis using weighted_sum_bounds [OF _ _ _ _ u] u
    by (simp add: a on_simplex_def weight_total_def)
qed

text \<open>An estimate no worse in all three metrics is never scored above another.\<close>

definition dominates :: "('a raw_action_estimate_scheme) \<Rightarrow> ('b raw_action_estimate_scheme) \<Rightarrow> bool" where
  "dominates a b \<longleftrightarrow> time_seconds a \<le> time_seconds b \<and> carbon_grams a \<le> carbon_grams b \<and> cost_usd a \<le> cost_usd b"

lemma scored_list_dominance:
  assumes "wf_weights (weights p)" "wf_scoring_context ctx"
    "a \<in> set (scored_list es p ctx)" "b \<in> set (scored_list es p ctx)" "dominates a b"
  shows "score a \<le> score b"
proof -
  obtain ts cs us where n: "normalized_metrics es ctx = (ts, cs, us)" by (rule prod_cases3)
  let ?w = "scoring_weights p ctx"
  from assms(3,4) obtain i j where ij: "i < length es" "j < length es"
    "a = scored_of ?w (es ! i) (ts ! i) (cs ! i) (us ! i)" "b = scored_of ?w (es ! j) (ts ! j) (cs ! j) (us ! j)"
    using scored_list_nth [OF n] by (force simp: in_set_conv_nth)
  have "on_simplex ?w" using assms(1,2) by (rule scoring_weights_simplex)
  moreover have "ts ! i \<le> ts ! j" "cs ! i \<le> cs ! j" "us ! i \<le> us ! j"
    using assms(5) ij normalized_metrics_props(5-7) [OF n ij(1,2)] by (simp_all add: dominates_def)
  ultimately show ?thesis unfolding ij scored_of_simps
    by (intro add_mono mult_left_mono) (simp_all add: on_simplex_def)
qed

lemma score_actions_set:
  "score_actions es p ctx = Inr ranked \<Longrightarrow>
    mset ranked = mset (scored_list es p ctx) \<and> set ranked = set (scored_list es p ctx)
    \<and> sorted (map score ranked) \<and> es \<noteq> []"
  by (auto simp: score_actions_def split: if_splits)

lemma score_actions_mset:
  "score_actions es p ctx = Inr ranked \<Longrightarrow> mset (map raw_action_estimate.truncate ranked) = mset es"
  by (metis score_actions_set mset_map scored_list_truncate)

section \<open>Choice\<close>

lemma choose_action_selected:
  assumes "choose_action task ranked p now = Inr d"
  shows "selected d \<in> set ranked" "ranked_actions d = ranked"
proof -
  from assms have ne: "ranked \<noteq> []" by (auto simp: choose_action_def)
  from assms ne obtain bl where bl: "min_by score (filter is_local ranked) = Some bl"
    by (auto simp: choose_action_def split: option.splits)
  have "bl \<in> set ranked" using min_by_SomeD(1) [OF bl] by simp
  moreover have "find (\<lambda>a. action a = Continue) ranked = Some x \<Longrightarrow> x \<in> set ranked" for x
    by (auto simp: find_Some_iff)
  ultimately show "selected d \<in> set ranked" "ranked_actions d = ranked"
    using assms ne bl
    by (auto simp: choose_action_def Let_def split: action_type.splits option.splits if_splits)
qed

lemma choose_action_total:
  assumes "a \<in> set ranked" "action a = Continue"
  shows "\<exists>d. choose_action task ranked p now = Inr d"
proof -
  have ne: "ranked \<noteq> []" "filter is_local ranked \<noteq> []"
    using assms by (auto simp: filter_empty_conv is_local_def)
  obtain bl where bl: "min_by score (filter is_local ranked) = Some bl"
    using ne(2) by (cases "min_by score (filter is_local ranked)") simp_all
  have "find (\<lambda>a. action a = Continue) ranked \<noteq> None" using assms by (auto simp: find_None_iff)
  then obtain x where x: "find (\<lambda>a. action a = Continue) ranked = Some x" by blast
  show ?thesis using ne(1) bl x
    by (cases "action (hd ranked)") (simp_all add: choose_action_def Let_def)
qed

end
