(* ===== verification/Scoring_Admissible.thy ===== *)
theory Scoring_Admissible
  imports Scoring_Laws
begin

text \<open>
  What an evaluation is given and what its estimate list then holds: the edges of a well-formed
  cluster are usable, every estimate is well formed and admissible, and estimation always succeeds
  when there is carbon data to forecast from.
\<close>

section \<open>The environment of an evaluation\<close>

definition wf_cluster :: "cluster_config \<Rightarrow> bool" where
  "wf_cluster c \<longleftrightarrow> (\<forall>n \<in> set (nodes c). wf_node n) \<and> 0 < default_bandwidth_mbps c \<and> 0 \<le> default_latency_ms c
   \<and> (\<forall>e \<in> set (edges c). 0 < edge_bandwidth_mbps e \<and> 0 \<le> edge_latency_ms e)"

definition view_sound :: "edge_view \<Rightarrow> bool" where
  "view_sound v \<longleftrightarrow> 0 < view_bandwidth v \<and> 0 \<le> view_latency v \<and> 0 \<le> view_transfer_fixed v
   \<and> (\<forall>x. view_transfer_steady v = Some x \<longrightarrow> 0 < x)"

definition calibration_sound :: "calibration_view \<Rightarrow> bool" where
  "calibration_sound v \<longleftrightarrow> (\<forall>x. checkpoint_ema v = Some x \<longrightarrow> 0 \<le> x) \<and> (\<forall>x. restore_ema v = Some x \<longrightarrow> 0 \<le> x)"

definition telemetry_sound :: "telemetry_source option \<Rightarrow> bool" where
  "telemetry_sound telemetry \<longleftrightarrow> (\<forall>t a b bw lat. telemetry = Some t \<longrightarrow> calibration_sound (calibration_of t a b)
     \<and> (0 < bw \<longrightarrow> 0 \<le> lat \<longrightarrow> view_sound (edge_view_of t a b bw lat)))"

lemma configured_edge_sound:
  assumes "wf_cluster c" "0 \<le> d"
  shows "edge_sound (configured_edge c a b d)"
proof (cases "get_edge_override c a b")
  case None
  then show ?thesis using assms by (simp add: configured_edge_def edge_sound_def wf_cluster_def)
next
  case (Some e)
  then have "e \<in> set (edges c)" by (auto simp: get_edge_override_def find_Some_iff)
  then show ?thesis using assms Some by (simp add: configured_edge_def edge_sound_def wf_cluster_def)
qed

lemma apply_edge_view_sound: "view_sound v \<Longrightarrow> edge_sound e \<Longrightarrow> edge_sound (apply_edge_view v e)"
  by (simp add: edge_sound_def apply_edge_view_def view_sound_def)

lemma apply_calibration_sound: "calibration_sound v \<Longrightarrow> edge_sound e \<Longrightarrow> edge_sound (apply_calibration v e)"
  by (simp add: edge_sound_def apply_calibration_def calibration_sound_def)

lemma graph_edge_sound:
  assumes "wf_cluster c" "telemetry_sound telemetry" "graph_edge c telemetry a b = Inr e"
  shows "edge_sound e"
proof -
  from assms(3) obtain s d where sd: "get_node c a = Inr s" "get_node c b = Inr d"
    by (auto simp: graph_edge_def bind_result_Inr_iff)
  then have "wf_node s" "wf_node d" using assms(1) get_node_InrD by (auto simp: wf_cluster_def)
  then have "0 \<le> haversine_distance_km (latitude s) (longitude s) (latitude d) (longitude d)"
    by (intro haversine_bounds) (simp_all add: wf_node_def)
  note base = configured_edge_sound [OF assms(1) this, of a b]
  show ?thesis
  proof (cases telemetry)
    case None
    then show ?thesis using assms(3) sd base by (simp add: graph_edge_def)
  next
    case (Some t)
    let ?e = "configured_edge c a b (haversine_distance_km (latitude s) (longitude s) (latitude d) (longitude d))"
    have "view_sound (edge_view_of t a b (bandwidth_mbps ?e) (latency_ms ?e))"
      using assms(2) Some base by (simp add: telemetry_sound_def edge_sound_def)
    moreover have "calibration_sound (calibration_of t a b)"
      using assms(2) Some by (simp add: telemetry_sound_def)
    ultimately show ?thesis
      using assms(3) sd base Some apply_edge_view_sound apply_calibration_sound
      by (simp add: graph_edge_def Let_def) blast
  qed
qed

text \<open>What an evaluation is given.\<close>

definition sound_inputs ::
  "task_profile \<Rightarrow> cluster_config \<Rightarrow> scoring_policy \<Rightarrow> telemetry_source option \<Rightarrow> forecaster \<Rightarrow> int dict option \<Rightarrow> bool" where
  "sound_inputs task c p telemetry fc sb \<longleftrightarrow> wf_profile task \<and> wf_cluster c \<and> wf_scoring_policy p
   \<and> telemetry_sound telemetry \<and> forecasts_nonneg fc \<and> (\<forall>d n b. sb = Some d \<longrightarrow> dict_get d n = Some b \<longrightarrow> 0 \<le> b)"

lemma sound_inputs_simps:
  assumes "sound_inputs task c p telemetry fc sb"
  shows "wf_profile task" "wf_cluster c" "wf_scoring_policy p" "telemetry_sound telemetry" "forecasts_nonneg fc"
    "pause_sound (pause p)" "network_sound (migration p)" "0 \<le> (of_int (horizon_seconds p) :: real)"
    "wf_weights (weights p)" "0 \<le> required_improvement_fraction (migration p)"
    "required_improvement_fraction (migration p) \<le> 1" "\<forall>x. static_override sb n = Some x \<longrightarrow> 0 \<le> x"
  using assms
  by (auto simp: sound_inputs_def wf_scoring_policy_def pause_sound_def network_sound_def static_override_def
      split: option.splits)

text \<open>What each estimate of the list is.\<close>

definition admissible ::
  "task_profile \<Rightarrow> cluster_config \<Rightarrow> scoring_policy \<Rightarrow> node_id set option \<Rightarrow> raw_action_estimate \<Rightarrow> bool" where
  "admissible task c p destinations e \<longleftrightarrow>
     wf_estimate e \<and> source_node e = current_node_id task
   \<and> (action e = Pause \<longrightarrow> time_seconds e
        \<le> pause_seconds (pause p) + resume_seconds (pause p) + max_pause_window_seconds (pause p))
   \<and> (action e = Migrate \<longrightarrow> \<not> over_cost_cap task e \<and> destination_node e \<noteq> None
        \<and> the (destination_node e) \<in> node_identity ` set (nodes c)
        \<and> the (destination_node e) \<noteq> current_node_id task
        \<and> (\<forall>ids. destinations = Some ids \<longrightarrow> the (destination_node e) \<in> ids))"

lemma continue_admissible:
  assumes "sound_inputs task c p telemetry fc sb" "get_node c (current_node_id task) = Inr src"
    "estimate_continue task src fc now (of_int (horizon_seconds p)) = Inr e"
  shows "admissible task c p ds e \<and> action e = Continue"
proof -
  note h = sound_inputs_simps [OF assms(1)] get_node_InrD [OF assms(2)]
  then have "wf_node src" by (simp add: wf_cluster_def)
  then show ?thesis
    using on_okD [OF continue_wf [OF h(1) \<open>wf_node src\<close> h(8) h(5)] assms(3)] h(14)
    by (simp add: admissible_def)
qed

lemma pause_admissible:
  assumes "sound_inputs task c p telemetry fc sb" "get_node c (current_node_id task) = Inr src"
    "estimate_pause task src fc now (of_int (horizon_seconds p)) (pause p) idle = Inr (Some e)"
  shows "admissible task c p ds e \<and> action e = Pause"
proof -
  note h = sound_inputs_simps [OF assms(1)] get_node_InrD [OF assms(2)]
  then have "wf_node src" by (simp add: wf_cluster_def)
  note w = pause_wf [OF h(1) this h(8) h(5) h(6) assms(3)]
  show ?thesis using w h(14) by (simp add: admissible_def)
qed

lemma migrate_admissible:
  assumes "sound_inputs task c p telemetry fc sb" "get_node c (current_node_id task) = Inr src"
    "dst \<in> set (peers c (node_identity src))" "migrate_to task c p telemetry fc now sb src dst = Inr e"
    "\<not> over_cost_cap task e" "\<forall>ids. ds = Some ids \<longrightarrow> node_identity dst \<in> ids"
  shows "admissible task c p ds e \<and> action e = Migrate"
proof -
  note h = sound_inputs_simps [OF assms(1)] get_node_InrD [OF assms(2)]
  from assms(4) obtain edge where edge: "graph_edge c telemetry (node_identity src) (node_identity dst) = Inr edge"
    and r: "estimate_migrate task src dst edge fc now (of_int (horizon_seconds p)) (pause p) (migration p)
       (static_override sb (node_identity dst)) = Inr e"
    by (auto simp: migrate_to_def bind_result_Inr_iff)
  have d: "dst \<in> set (nodes c)" "node_identity dst \<noteq> node_identity src" using assms(3) by (simp_all add: peers_def)
  have wf: "wf_node src" "wf_node dst" using h d by (simp_all add: wf_cluster_def)
  have "edge_sound edge" using h(2,4) edge by (rule graph_edge_sound)
  from migrate_wf [OF h(1) wf this h(8) h(5) h(6) h(7) sound_inputs_simps(12) [OF assms(1)] r]
  show ?thesis using assms(5,6) d h(14) by (auto simp: admissible_def)
qed

lemma build_admissible:
  assumes "sound_inputs task c p telemetry fc sb" "build_raw_actions task c p telemetry fc now sb ds = Inr es"
  shows "(\<forall>e \<in> set es. admissible task c p ds e) \<and> es \<noteq> [] \<and> action (hd es) = Continue"
proof -
  from assms(2) obtain src ce ps ms where src: "get_node c (current_node_id task) = Inr src" and
    ce: "estimate_continue task src fc now (of_int (horizon_seconds p)) = Inr ce" and
    ps: "pause_estimates (\<lambda>idle. estimate_pause task src fc now (of_int (horizon_seconds p)) (pause p) (Some idle))
       (idle_candidates (pause p)) = Inr ps" and
    ms: "migration_estimates task (migrate_to task c p telemetry fc now sb src) ds (peers c (node_identity src)) = Inr ms"
    and es: "es = ce # ps @ ms" by (rule build_raw_actions_shape)
  have "admissible task c p ds e" if "e \<in> set ps" for e
    using pause_estimates_set [OF ps that] pause_admissible [OF assms(1) src] by blast
  moreover have "admissible task c p ds e" if "e \<in> set ms" for e
    using migration_estimates_set [OF ms that] migrate_admissible [OF assms(1) src] by blast
  ultimately show ?thesis using continue_admissible [OF assms(1) src ce] by (auto simp: es)
qed

section \<open>Estimation always succeeds\<close>

text \<open>
  What the estimation needs of the forecaster: an answer for the nodes of the cluster and durations that are
  not negative, the only ones it asks about.
\<close>

definition forecasts_answer :: "cluster_config \<Rightarrow> forecaster \<Rightarrow> bool" where
  "forecasts_answer c fc \<longleftrightarrow> (\<forall>n \<in> set (nodes c). \<forall>t d. 0 \<le> d \<longrightarrow> is_ok (fc (node_identity n) t d))"

lemma forecasts_answerE:
  assumes "forecasts_answer c fc" "n \<in> set (nodes c)" "0 \<le> d"
  obtains f where "fc (node_identity n) t d = Inr f"
  using assms unfolding forecasts_answer_def is_ok_Inr by blast

text \<open>
  Carbon data a forecast can be made from: every node of the cluster has a series of intensities, and a
  fallback is configured for it, or some sample of it is not later than the evaluation.
\<close>

definition carbon_ready :: "carbon_store \<Rightarrow> forecast_policy \<Rightarrow> cluster_config \<Rightarrow> datetime \<Rightarrow> bool" where
  "carbon_ready cs fp c now \<longleftrightarrow> carbon_cluster cs = c \<and> forecast_enabled fp \<and> wf_forecast_policy fp
   \<and> (\<forall>n s. dict_get (series_by_node cs) n = Some s \<longrightarrow> (\<forall>(_, x) \<in> set s. 0 \<le> x))
   \<and> (\<forall>n \<in> set (nodes c). \<exists>s. dict_get (series_by_node cs) (node_identity n) = Some s
        \<and> (configured_fallback fp \<noteq> None \<or> carbon_fallback_g_per_kwh n \<noteq> None \<or> (\<exists>(t, _) \<in> set s. t \<le> now)))"

lemma history_of_nonempty:
  assumes "1 \<le> history_points p" "(t, v) \<in> set s" "t \<le> now"
  shows "history_of p now s \<noteq> []"
proof -
  have "(t, v) \<in> set (filter (\<lambda>(t, _). t \<le> now) s)" using assms(2,3) by simp
  then have "filter (\<lambda>(t, _). t \<le> now) s \<noteq> []" by force
  then have "0 < length (filter (\<lambda>(t, _). t \<le> now) s)" by blast
  then show ?thesis using assms(1) unfolding history_of_def Let_def drop_eq_Nil by linarith
qed

lemma provider_answers:
  assumes "configured_fallback p \<noteq> None \<or> history_of p now s \<noteq> []"
  shows "is_ok (provider_forecast n s now start d p)"
  using assms by (auto simp: provider_forecast_def Let_def case_prod_unfold split: option.split)

lemma provider_nonneg:
  assumes "wf_forecast_policy p" "\<forall>(_, x) \<in> set s. 0 \<le> x" "provider_forecast n s now start d p = Inr f"
  shows "0 \<le> average_g_per_kwh f"
proof -
  have lo: "0 \<le> average_g_per_kwh (trend_estimate n p h ob st du ag ff)" if "h = history_of p now s" "h \<noteq> []" for h ob st du ag ff
  proof -
    have "\<forall>v \<in> set (map snd h). 0 \<le> v" using history_past assms(2) that(1) by fastforce
    from trend_average_bounds(1) [OF _ that(2) this] have "trend_lower p h \<le> average_g_per_kwh (trend_estimate n p h ob st du ag ff)"
      using assms(1) by (simp add: wf_forecast_policy_def)
    moreover have "0 \<le> trend_lower p h" by (simp add: trend_lower_def)
    ultimately show ?thesis by simp
  qed
  have "on_ok (\<lambda>f. 0 \<le> average_g_per_kwh f) (provider_forecast n s now start d p)"
    unfolding provider_forecast_def Let_def case_prod_unfold
    using lo by (auto simp: fallback_estimate_def split: option.split)
  then show ?thesis using assms(3) by simp
qed

lemma wf_forecast_fallback: "wf_forecast_policy p \<Longrightarrow> (\<forall>x. v = Some x \<longrightarrow> 0 \<le> x) \<Longrightarrow> wf_forecast_policy (p\<lparr>configured_fallback := v\<rparr>)"
  by (simp add: wf_forecast_policy_def)

lemma forecaster_answers:
  assumes "carbon_ready cs fp c now"
  shows "forecasts_answer c (forecaster_at wa cs (Some fp) now)"
  unfolding forecasts_answer_def
proof (intro ballI allI impI)
  fix n t d assume n: "n \<in> set (nodes c)" and d: "0 \<le> (d :: real)"
  have "\<exists>n'. get_node c (node_identity n) = Inr n'" using n by (auto simp: get_node_def find_None_iff split: option.split)
  then obtain n' where n': "get_node c (node_identity n) = Inr n'" by blast
  then have id: "node_identity n' = node_identity n" "n' \<in> set (nodes c)" using get_node_InrD [OF n'] by simp_all
  obtain s where s: "dict_get (series_by_node cs) (node_identity n) = Some s"
    "configured_fallback fp \<noteq> None \<or> carbon_fallback_g_per_kwh n' \<noteq> None \<or> (\<exists>(t, _) \<in> set s. t \<le> now)"
    using assms id unfolding carbon_ready_def by metis
  have pts: "1 \<le> history_points (fp\<lparr>configured_fallback := v\<rparr>)" for v
    using assms by (simp add: carbon_ready_def wf_forecast_policy_def)
  let ?p = "if configured_fallback fp = None \<and> carbon_fallback_g_per_kwh n' \<noteq> None
      then fp\<lparr>configured_fallback := carbon_fallback_g_per_kwh n'\<rparr> else fp"
  have "configured_fallback ?p \<noteq> None \<or> history_of ?p now s \<noteq> []"
    using s(2) history_of_nonempty [of fp _ _ s now] pts [of "configured_fallback fp"] by (auto split: if_splits)
  note ok = provider_answers [OF this, of "node_identity n" t d]
  show "is_ok (forecaster_at wa cs (Some fp) now (node_identity n) t d)"
    using assms s(1) n' d ok
    by (simp add: forecaster_at_def forecast_or_average_def store_forecast_def carbon_ready_def Let_def not_less)
qed

lemma forecaster_nonneg:
  assumes "carbon_ready cs fp c now" "wf_cluster c"
  shows "forecasts_nonneg (forecaster_at wa cs (Some fp) now)"
  unfolding forecasts_nonneg_def
proof (intro allI)
  fix n t d
  have "0 \<le> average_g_per_kwh f" if f: "forecaster_at wa cs (Some fp) now n t d = Inr f" for f
  proof -
    obtain n' s where n': "get_node c n = Inr n'" "dict_get (series_by_node cs) n = Some s"
      "provider_forecast n s now t d (if configured_fallback fp = None \<and> carbon_fallback_g_per_kwh n' \<noteq> None
        then fp\<lparr>configured_fallback := carbon_fallback_g_per_kwh n'\<rparr> else fp) = Inr f"
      using assms(1) f
      by (auto simp: forecaster_at_def forecast_or_average_def store_forecast_def carbon_ready_def bind_result_Inr_iff Let_def
          split: if_splits option.splits)
    have "wf_node n'" using get_node_InrD [OF n'(1)] assms(2) by (simp add: wf_cluster_def)
    then have wf: "wf_forecast_policy (if configured_fallback fp = None \<and> carbon_fallback_g_per_kwh n' \<noteq> None
        then fp\<lparr>configured_fallback := carbon_fallback_g_per_kwh n'\<rparr> else fp)"
      using assms(1) wf_forecast_fallback by (auto simp: carbon_ready_def wf_node_def)
    have "\<forall>(_, x) \<in> set s. 0 \<le> x" using assms(1) n'(2) unfolding carbon_ready_def by blast
    from provider_nonneg [OF wf this n'(3)] show ?thesis .
  qed
  then show "on_ok (\<lambda>f. 0 \<le> average_g_per_kwh f) (forecaster_at wa cs (Some fp) now n t d)"
    by (cases "forecaster_at wa cs (Some fp) now n t d") simp_all
qed

lemma bind_result_total: "\<exists>x. r = Inr x \<and> (\<exists>y. f x = Inr y) \<Longrightarrow> \<exists>y. bind_result r f = Inr y"
  by auto

lemma estimate_continue_total:
  assumes "forecasts_answer c fc" "n \<in> set (nodes c)" "wf_profile task" "0 \<le> h"
  shows "\<exists>e. estimate_continue task n fc now h = Inr e"
  unfolding estimate_continue_def Let_def
  by (intro bind_result_total)
     (auto intro: forecasts_answerE [OF assms(1,2) compute_seconds_nonneg [OF assms(3,4)]])

lemma three_forecasts_total:
  assumes "forecasts_answer c fc" "n1 \<in> set (nodes c)" "n2 \<in> set (nodes c)" "n3 \<in> set (nodes c)"
    and "0 \<le> d1" "0 \<le> d2" "0 \<le> d3"
  shows "\<exists>y. bind_result (fc (node_identity n1) t1 d1) (\<lambda>x. bind_result (fc (node_identity n2) t2 d2) (\<lambda>y.
    bind_result (fc (node_identity n3) t3 d3) (\<lambda>z. Inr (g x y z)))) = Inr y"
proof -
  obtain x y z where "fc (node_identity n1) t1 d1 = Inr x" "fc (node_identity n2) t2 d2 = Inr y"
    "fc (node_identity n3) t3 d3 = Inr z"
    using forecasts_answerE [OF assms(1)] assms(2-7) by metis
  then show ?thesis by simp
qed

lemma estimate_pause_total:
  assumes "forecasts_answer c fc" "n \<in> set (nodes c)" "wf_profile task" "0 \<le> h" "pause_sound p" "0 \<le> idle"
  shows "\<exists>e. estimate_pause task n fc now h p (Some idle) = Inr e"
proof -
  have "0 \<le> pause_seconds p" "0 \<le> resume_seconds p" using assms(5) by (simp_all add: pause_sound_def)
  note go = three_forecasts_total [OF assms(1,2,2,2) this compute_seconds_nonneg [OF assms(3,4)]]
  show ?thesis using assms(6) unfolding estimate_pause_def Let_def option.case
    by (simp only: if_False not_less if_not_P) (auto intro!: go)
qed

lemma estimate_migrate_total:
  assumes "forecasts_answer c fc" "src \<in> set (nodes c)" "dst \<in> set (nodes c)" "wf_profile task" "0 \<le> h" "pause_sound p"
    and "edge_sound e" "\<forall>x. override = Some x \<longrightarrow> 0 \<le> x"
  shows "\<exists>est. estimate_migrate task src dst e fc now h p mp override = Inr est"
proof -
  obtain t where t: "0 \<le> t" "transfer_duration e (transfer_bytes task dst override) = Inr t"
    using transfer_duration_total [OF assms(7) transfer_bytes_nonneg [OF assms(4,8)]] by blast
  note m = migration_timing_nonneg [OF assms(7,6) t(1)]
  show ?thesis unfolding estimate_migrate_def Let_def t(2) bind_result_simps
    by (rule three_forecasts_total [OF assms(1,2,3,3) m(1,2) compute_seconds_nonneg [OF assms(4,5)]])
qed

lemma pause_estimates_total:
  "\<forall>i \<in> set idles. \<exists>e. est i = Inr e \<Longrightarrow> \<exists>es. pause_estimates est idles = Inr es"
  by (induction idles) auto

lemma migration_estimates_total:
  "\<forall>n \<in> set ns. \<exists>e. est n = Inr e \<Longrightarrow> \<exists>es. migration_estimates task est ds ns = Inr es"
  by (induction ns) auto

lemma migrate_to_total:
  assumes "sound_inputs task c p telemetry fc sb" "forecasts_answer c fc" "src \<in> set (nodes c)" "dst \<in> set (nodes c)"
  shows "\<exists>e. migrate_to task c p telemetry fc now sb src dst = Inr e"
proof -
  have known: "\<exists>n'. get_node c (node_identity n) = Inr n'" if "n \<in> set (nodes c)" for n
    using that by (auto simp: get_node_def find_None_iff split: option.split)
  obtain e where e: "graph_edge c telemetry (node_identity src) (node_identity dst) = Inr e"
    using known [OF assms(3)] known [OF assms(4)] by (auto simp: graph_edge_def Let_def)
  note h = sound_inputs_simps [OF assms(1)]
  have "edge_sound e" using h(2,4) e by (rule graph_edge_sound)
  from estimate_migrate_total [OF assms(2,3,4) h(1,8,6) this sound_inputs_simps(12) [OF assms(1)]]
  show ?thesis by (simp add: migrate_to_def e)
qed

lemma build_total:
  assumes "sound_inputs task c p telemetry fc sb" "forecasts_answer c fc" "get_node c (current_node_id task) = Inr src"
  shows "\<exists>es. build_raw_actions task c p telemetry fc now sb ds = Inr es"
proof -
  have src: "src \<in> set (nodes c)" using get_node_InrD [OF assms(3)] by simp
  note h = sound_inputs_simps [OF assms(1)]
  obtain ce where "estimate_continue task src fc now (of_int (horizon_seconds p)) = Inr ce"
    using estimate_continue_total [OF assms(2) src h(1,8)] by blast
  moreover obtain ps where "pause_estimates (\<lambda>idle. estimate_pause task src fc now (of_int (horizon_seconds p))
      (pause p) (Some idle)) (idle_candidates (pause p)) = Inr ps"
    using pause_estimates_total estimate_pause_total [OF assms(2) src h(1,8,6)]
      wf_scoring_policy_idle [OF h(3)] by meson
  moreover obtain ms where "migration_estimates task (migrate_to task c p telemetry fc now sb src) ds
      (peers c (node_identity src)) = Inr ms"
    using migration_estimates_total migrate_to_total [OF assms(1,2) src] by (metis filter_is_subset peers_def subsetD)
  ultimately show ?thesis by (simp add: build_raw_actions_def assms(3))
qed

text \<open>A ranking of admissible estimates that start with Continue can always be decided.\<close>

lemma ranked_has_continue:
  assumes "score_actions es p ctx = Inr ranked" "es \<noteq> []" "action (hd es) = Continue"
  shows "\<exists>a \<in> set ranked. action a = Continue"
proof -
  have "hd es \<in> set es" using assms(2) by simp
  then have "hd es \<in> set (map raw_action_estimate.truncate ranked)"
    using score_actions_mset [OF assms(1)] by (metis mset_eq_setD)
  then obtain a where "a \<in> set ranked" "raw_action_estimate.truncate a = hd es" by auto
  moreover have "action (raw_action_estimate.truncate a) = action a" by (simp add: raw_action_estimate.defs)
  ultimately show ?thesis using assms(3) by (intro bexI [of _ a]) simp_all
qed

lemma ranking_decided:
  assumes "es \<noteq> []" "action (hd es) = Continue"
  shows "\<exists>ranked d. score_actions es p ctx = Inr ranked \<and> choose_action task ranked p now = Inr d"
proof -
  obtain ranked where r: "score_actions es p ctx = Inr ranked" using assms(1) by (simp add: score_actions_def)
  then show ?thesis using ranked_has_continue [OF r assms] choose_action_total by blast
qed

end
