(* ===== verification/Adaptive_Policy_Claims.thy ===== *)
theory Adaptive_Policy_Claims
  imports Adaptive_Policy_Laws
begin

text \<open>
  The store of adaptive states as a step relation over the operations that change it, its
  reachable states, and the properties of the adaptive policy.
\<close>

section \<open>Steps\<close>

text \<open>
  \<open>prepare\<close> and \<open>record_decision\<close> are what an evaluation does, \<open>merge\<close> installs a snapshot of a
  peer that runs the same policy, \<open>reset\<close> is the operator's request, \<open>restart\<close> reloads the file.
\<close>

inductive policy_step :: "policy_service \<Rightarrow> policy_store \<Rightarrow> policy_store \<Rightarrow> bool" for svc where
  prepare_step: "prepare svc s task es at_utc tc fcc constraints created now = Inr (s', c) \<Longrightarrow>
     \<forall>e \<in> set es. wf_estimate e \<Longrightarrow> policy_step svc s s'"
| record_step: "record_decision svc s d c at_utc created now = (s', st) \<Longrightarrow> wf_context svc c \<Longrightarrow>
     policy_step svc s s'"
| merge_step: "merge_policy s st = (s', installed) \<Longrightarrow> wf_policy_state svc st \<Longrightarrow> policy_step svc s s'"
| reset_step: "reset_policy s t = (s', removed) \<Longrightarrow> policy_step svc s s'"
| restart_step: "policy_step svc s (load_policies (policy_file s))"

inductive policy_reachable :: "policy_service \<Rightarrow> policy_store \<Rightarrow> bool" for svc where
  fresh_store: "policy_reachable svc (load_policies None)"
| next_store: "policy_reachable svc s \<Longrightarrow> policy_step svc s s' \<Longrightarrow> policy_reachable svc s'"

definition policy_synced :: "policy_store \<Rightarrow> bool" where
  "policy_synced s \<longleftrightarrow>
     (case policy_file s of None \<Rightarrow> policy_states s = []
      | Some d \<Rightarrow> dict_ok d \<and> map_of d = map_of (policy_states s) \<and> set d = set (policy_states s))"

lemma put_policy_synced: "dict_ok (policy_states s) \<Longrightarrow> policy_synced (put_policy s st)"
  by (simp add: policy_synced_def put_policy_def persist_policies_def dict_ok_def map_of_sort_key
      distinct_sort_keys dict_put_def distinct_update)

lemma persist_policies_synced: "dict_ok (policy_states s) \<Longrightarrow> policy_synced (persist_policies s)"
  by (simp add: policy_synced_def persist_policies_def dict_ok_def map_of_sort_key distinct_sort_keys)

lemma load_synced:
  assumes "policy_store_ok svc s" "policy_synced s"
  shows "policy_store_ok svc (load_policies (policy_file s))" "policy_synced (load_policies (policy_file s))"
    "get_policy (load_policies (policy_file s)) t = get_policy s t"
proof -
  show "policy_store_ok svc (load_policies (policy_file s))"
    using assms
    by (cases "policy_file s") (simp_all add: policy_store_ok_def policy_synced_def load_policies_def)
  show "policy_synced (load_policies (policy_file s))"
    using assms(2) by (cases "policy_file s") (simp_all add: policy_synced_def load_policies_def)
  show "get_policy (load_policies (policy_file s)) t = get_policy s t"
    using assms(2)
    by (cases "policy_file s") (simp_all add: policy_synced_def load_policies_def get_policy_def dict_get_def)
qed

lemma policy_step_keeps:
  assumes "policy_step svc s s'" "wf_service svc" "policy_store_ok svc s" "policy_synced s"
  shows "policy_store_ok svc s' \<and> policy_synced s'"
  using assms(1)
proof cases
  case (prepare_step task es at_utc tc fcc constraints created now c)
  then have es: "es \<noteq> []" by (auto simp: prepare_def append_ranges_def)
  have "s' = put_policy s (prepared svc s task es at_utc tc fcc created now)"
    using prepare_step(1) by (simp add: prepare_eq [OF es] Let_def)
  then show ?thesis
    using put_policy_ok [OF assms(3) prepared_wf [OF assms(2,3) es prepare_step(2)]]
      put_policy_synced assms(3) by (simp add: policy_store_ok_def)
next
  case (record_step d c at_utc created now st)
  then have "policy_store_ok svc s'" by (intro record_decision_ok(1) [OF assms(2,3)])
  moreover have "s' = put_policy s st" using record_step(1) by (auto simp: record_decision_def Let_def)
  ultimately show ?thesis using put_policy_synced assms(3) by (simp add: policy_store_ok_def)
next
  case (merge_step st installed)
  then have "policy_store_ok svc s'" using merge_policy_ok [OF assms(3), of st] by simp
  moreover have "s' = s \<or> s' = put_policy s st"
    using merge_step(1) by (auto simp: merge_policy_def split: option.splits if_splits)
  ultimately show ?thesis using put_policy_synced assms(3,4) by (auto simp: policy_store_ok_def)
next
  case (reset_step t removed)
  then have "policy_store_ok svc s'"
    using delete_policy_ok [OF assms(3), of t] by (simp add: reset_policy_def)
  moreover have "s' = s \<or> s' = persist_policies (s\<lparr>policy_states := AList.delete t (policy_states s)\<rparr>)"
    using reset_step(1) by (auto simp: reset_policy_def delete_policy_def split: if_splits)
  moreover have "dict_ok (AList.delete t (policy_states s))"
    using assms(3) by (simp add: policy_store_ok_def dict_ok_def AList.distinct_delete)
  ultimately show ?thesis using persist_policies_synced assms(4) by auto
next
  case restart_step
  then show ?thesis using load_synced [OF assms(3,4)] by simp
qed

lemma policy_reachable_ok:
  assumes "policy_reachable svc s" "wf_service svc"
  shows "policy_store_ok svc s \<and> policy_synced s"
  using assms(1)
proof induction
  case fresh_store
  then show ?case by (simp add: load_policies_def policy_store_ok_def policy_synced_def)
next
  case (next_store s s')
  then show ?case using policy_step_keeps assms(2) by blast
qed

section \<open>Example data\<close>

definition example_adaptive :: adaptive_policy where
  "example_adaptive = \<lparr>adaptive_enabled = True, multiplier_bound_fraction = 1 / 4,
     rolling_window_epochs = 2, decision_history_limit = 3, confidence_floor = 1 / 5\<rparr>"

definition example_service :: policy_service where
  "example_service = make_service example_adaptive \<lparr>w_time = 2, w_carbon = 1, w_cost = 1\<rparr>"

definition example_task :: task_profile where
  "example_task = \<lparr>profile_task_id = ''t'', workload_type = ''w'', current_node_id = ''a'', power_kw = 1,
     checkpoint_bytes = 10, data_bytes = 10, prestaged_node_ids = {}, profile_remaining_seconds = Some 600,
     profile_accumulated_cost = 1, cost_cap_usd = Some 100, last_migration_at = None,
     last_pause_at = None, priority = 0, deadline_at = Some 1200,
     resource_request = default_resource_request, compatibility = default_requirements\<rparr>"

definition example_estimates :: "raw_action_estimate list" where
  "example_estimates =
     [\<lparr>action = Continue, source_node = ''a'', destination_node = None, time_seconds = 60,
       carbon_grams = 9, cost_usd = 1, detail_idle_seconds = None, detail_carbon_confidence = Some 1\<rparr>,
      \<lparr>action = Migrate, source_node = ''a'', destination_node = Some ''b'', time_seconds = 90,
       carbon_grams = 3, cost_usd = 2, detail_idle_seconds = None, detail_carbon_confidence = Some 1\<rparr>]"

lemma example_service_wf: "wf_service example_service"
  unfolding example_service_def
  by (rule make_service_wf) (simp_all add: wf_adaptive_policy_def example_adaptive_def wf_weights_def)

lemma example_estimates_wf: "example_estimates \<noteq> []" "\<forall>e \<in> set example_estimates. wf_estimate e"
  by (simp_all add: example_estimates_def wf_estimate_def)

lemma empty_store_ok: "policy_store_ok svc (load_policies None)"
  by (simp add: policy_store_ok_def load_policies_def)

section \<open>Properties\<close>

text \<open>
  C23. Adaptation is bounded: whatever the task, the estimates and the confidences, the multipliers
  an evaluation uses lie between 1 and 1 + \<open>multiplier_bound_fraction\<close>, its weights lie on the
  simplex, and no weight moves by more than that factor from its baseline.
\<close>

theorem adaptation_is_bounded:
  assumes "wf_service svc" "policy_store_ok svc s" "\<forall>e \<in> set es. wf_estimate e"
    and "prepare svc s task es at_utc tc fcc constraints created now = Inr (s', c)"
  shows "multipliers_within (1 + multiplier_bound_fraction (adaptive_rules svc)) (context_multipliers c)
    \<and> on_simplex (context_effective c)
    \<and> weights_near (1 + multiplier_bound_fraction (adaptive_rules svc)) (context_baseline c) (context_effective c)"
proof -
  let ?u = "1 + multiplier_bound_fraction (adaptive_rules svc)"
  have es: "es \<noteq> []" using assms(4) by (auto simp: prepare_def append_ranges_def)
  let ?st = "prepared svc s task es at_utc tc fcc created now"
  have wf: "wf_policy_state svc ?st" by (rule prepared_wf [OF assms(1,2) es assms(3)])
  have c: "context_multipliers c = multipliers ?st" "context_effective c = effective_weights ?st"
    "context_baseline c = baseline_weights ?st"
    using assms(4) by (auto simp: prepare_eq [OF es] Let_def)
  have p: "wf_adaptive_policy (adaptive_rules svc)" using assms(1) by (simp add: wf_service_def)
  then have u: "1 \<le> ?u" by (simp add: wf_adaptive_policy_def)
  have base: "on_simplex (baseline_weights ?st)" using wf by (simp add: wf_policy_state_def)
  have "effective_weights ?st = reweigh (baseline_weights ?st) (multipliers ?st)"
    using base by (simp add: prepared_def adapt_def Let_def reweigh_unit)
  moreover have m: "multipliers_within ?u (multipliers ?st)" using wf by (simp add: wf_policy_state_def)
  ultimately show ?thesis using reweigh_bounds [OF base m u] by (simp add: c)
qed

theorem adaptation_is_bounded_witness:
  "\<exists>s' c. prepare example_service (load_policies None) example_task example_estimates 0 1 1 [] 0 0 = Inr (s', c)
    \<and> on_simplex (context_effective c)"
proof -
  obtain s' c where p: "prepare example_service (load_policies None) example_task example_estimates 0 1 1 [] 0 0 = Inr (s', c)"
    using prepare_ok [OF example_service_wf empty_store_ok example_estimates_wf] by blast
  then show ?thesis
    using adaptation_is_bounded [OF example_service_wf empty_store_ok example_estimates_wf(2) p] by blast
qed

text \<open>
  The window an evaluation normalises by contains every estimate of that evaluation, and it is
  the hull of at most \<open>rolling_window_epochs\<close> recorded ranges per metric, which the store keeps.
\<close>

theorem window_covers_evaluation:
  assumes "wf_service svc" "policy_store_ok svc s" "\<forall>e \<in> set es. wf_estimate e"
    and "prepare svc s task es at_utc tc fcc constraints created now = Inr (s', c)"
  shows "(\<forall>e \<in> set es. covers (context_bounds c) e)
    \<and> (\<exists>st. get_policy s' (profile_task_id task) = Some st
        \<and> context_bounds c = window_bounds (normalization st)
        \<and> length (roll_time (normalization st)) \<le> rolling_window_epochs (adaptive_rules svc))"
proof -
  have es: "es \<noteq> []" using assms(4) by (auto simp: prepare_def append_ranges_def)
  let ?st = "prepared svc s task es at_utc tc fcc created now"
  have wf: "wf_policy_state svc ?st" by (rule prepared_wf [OF assms(1,2) es assms(3)])
  have s': "s' = put_policy s ?st" and c: "context_bounds c = window_bounds (normalization ?st)"
    using assms(4) by (auto simp: prepare_eq [OF es] Let_def)
  have "state_task_id ?st = profile_task_id task"
    using state_for_wf(2) [OF assms(1,2)] by (simp add: prepared_def Let_def)
  then have "get_policy s' (profile_task_id task) = Some ?st" by (simp add: s' get_policy_def)
  moreover have "\<forall>e \<in> set es. covers (context_bounds c) e"
    by (simp add: c prepared_def Let_def window_bounds_cover)
  ultimately show ?thesis
    using wf c by (auto simp: wf_policy_state_def wf_normalization_def wf_window_def)
qed

theorem window_covers_evaluation_witness:
  "\<exists>s' c. prepare example_service (load_policies None) example_task example_estimates 0 1 1 [] 0 0 = Inr (s', c)
    \<and> (\<forall>e \<in> set example_estimates. covers (context_bounds c) e)"
proof -
  obtain s' c where p: "prepare example_service (load_policies None) example_task example_estimates 0 1 1 [] 0 0 = Inr (s', c)"
    using prepare_ok [OF example_service_wf empty_store_ok example_estimates_wf] by blast
  then show ?thesis
    using window_covers_evaluation [OF example_service_wf empty_store_ok example_estimates_wf(2) p] by blast
qed

text \<open>
  Over any run of evaluations, merges, resets and restarts the store keeps its invariant: every
  state lies under its own task, its weights are on the simplex and its multipliers within the
  bound, the windows and the history respect their limits, and the history holds the last
  decisions, consecutively numbered up to \<open>decision_count\<close>.
\<close>

theorem policy_store_invariant:
  assumes "wf_service svc" "policy_reachable svc s"
  shows "policy_store_ok svc s"
  using policy_reachable_ok [OF assms(2,1)] by blast

theorem policy_store_invariant_witness:
  "\<exists>s. policy_step example_service (load_policies None) s \<and> policy_store_ok example_service s"
proof -
  obtain s c where p: "prepare example_service (load_policies None) example_task example_estimates 0 1 1 [] 0 0 = Inr (s, c)"
    using prepare_ok [OF example_service_wf empty_store_ok example_estimates_wf] by blast
  have step: "policy_step example_service (load_policies None) s"
    by (rule prepare_step [OF p example_estimates_wf(2)])
  then show ?thesis
    using policy_store_invariant [OF example_service_wf next_store [OF fresh_store step]] by blast
qed

text \<open>
  A restart loses nothing: in every reachable state the file reloads to a store that answers
  every lookup as before.
\<close>

theorem policy_restart:
  assumes "wf_service svc" "policy_reachable svc s"
  shows "get_policy (load_policies (policy_file s)) t = get_policy s t"
  using policy_reachable_ok [OF assms(2,1)] load_synced(3) by blast

theorem policy_restart_witness:
  "\<exists>s. policy_step example_service (load_policies None) s
    \<and> get_policy (load_policies (policy_file s)) ''t'' = get_policy s ''t''"
proof -
  obtain s c where p: "prepare example_service (load_policies None) example_task example_estimates 0 1 1 [] 0 0 = Inr (s, c)"
    using prepare_ok [OF example_service_wf empty_store_ok example_estimates_wf] by blast
  have step: "policy_step example_service (load_policies None) s"
    by (rule prepare_step [OF p example_estimates_wf(2)])
  then show ?thesis
    using policy_restart [OF example_service_wf next_store [OF fresh_store step]] by blast
qed

text \<open>
  Snapshots of a task's policy converge: two stores that have seen the same snapshots, in any
  order and however often, end with states of the same, greatest version
  (\<open>decision_count\<close>, \<open>updated_at_utc\<close>), and with the same state when versions identify states.
\<close>

theorem policy_merge_converges:
  assumes "candidates s us t = candidates s' us' t" "candidates s us t \<noteq> {}"
  shows "\<exists>st st'. get_policy (merge_all s us) t = Some st \<and> get_policy (merge_all s' us') t = Some st'
    \<and> version_of st = version_of st' \<and> version_of st = Max (version_of ` candidates s us t)
    \<and> (inj_on version_of (candidates s us t) \<longrightarrow> st = st')"
proof -
  obtain st where st: "st \<in> candidates s us t" "get_policy (merge_all s us) t = Some st"
    "\<forall>x \<in> candidates s us t. version_of x \<le> version_of st" using merge_all_newest [OF assms(2)] by blast
  have "candidates s' us' t \<noteq> {}" using assms by simp
  then obtain st' where st': "st' \<in> candidates s us t" "get_policy (merge_all s' us') t = Some st'"
    "\<forall>x \<in> candidates s us t. version_of x \<le> version_of st'"
    using merge_all_newest [of s' us' t] assms(1) by blast
  have fin: "finite (candidates s us t)" by (simp add: candidates_def)
  have "version_of st = Max (version_of ` candidates s us t)"
    by (rule Max_eqI [symmetric]) (use fin st in auto)
  moreover have "version_of st = version_of st'" using st st' by (simp add: order_antisym)
  ultimately show ?thesis using st st' inj_onD [of version_of "candidates s us t" st st'] by simp
qed

definition example_snapshot :: "nat \<Rightarrow> policy_state" where
  "example_snapshot n = (state_for example_service (load_policies None) ''t'' 0)\<lparr>decision_count := n\<rparr>"

lemma example_snapshot_task: "state_task_id (example_snapshot n) = ''t''"
  by (simp add: example_snapshot_def state_for_def get_policy_def load_policies_def)

theorem policy_merge_converges_witness:
  "\<exists>st st'. get_policy (merge_all (load_policies None) [example_snapshot 1, example_snapshot 2]) ''t'' = Some st
    \<and> get_policy (merge_all (load_policies None) [example_snapshot 2, example_snapshot 1, example_snapshot 2]) ''t''
        = Some st'
    \<and> version_of st = version_of st'"
proof -
  let ?e = "load_policies None"
  have "candidates ?e [example_snapshot 1, example_snapshot 2] ''t''
      = candidates ?e [example_snapshot 2, example_snapshot 1, example_snapshot 2] ''t''"
    by (simp add: candidates_def insert_commute)
  moreover have "candidates ?e [example_snapshot 1, example_snapshot 2] ''t'' \<noteq> {}"
    by (auto simp: candidates_def example_snapshot_task)
  ultimately show ?thesis using policy_merge_converges by blast
qed

end
