(* ===== verification/Evaluation_Claims.thy ===== *)
theory Evaluation_Claims
  imports Scoring_Admissible Adaptive_Policy_Claims
begin

text \<open>
  Properties of one evaluation of a task, from the forecasts to the decision.
\<close>

section \<open>The parts of an evaluation\<close>

lemma evaluate_task_parts:
  assumes "evaluate_task task c p telemetry fc now sb adaptive tc ds = Inr (d, out)"
  obtains es ctx ranked where "build_raw_actions task c p telemetry fc now sb ds = Inr es"
    "score_actions es p ctx = Inr ranked" "choose_action task ranked p now = Inr d"
proof -
  from assms obtain es where es: "build_raw_actions task c p telemetry fc now sb ds = Inr es"
    unfolding evaluate_task_def bind_result_Inr_iff by blast
  show ?thesis
  proof (cases adaptive)
    case None
    then show ?thesis using assms es that [OF es] by (auto simp: evaluate_task_def bind_result_Inr_iff)
  next
    case (Some a)
    obtain svc s clk where a: "a = (svc, s, clk)" by (rule prod_cases3)
    then have "evaluate_task task c p telemetry fc now sb (Some (svc, s, clk)) tc ds = Inr (d, out)"
      using assms Some by simp
    then have "\<exists>ctx ranked. score_actions es p ctx = Inr ranked \<and> choose_action task ranked p now = Inr d"
      unfolding evaluate_task_def es by (auto simp: bind_result_Inr_iff case_prod_unfold Let_def)
    then show ?thesis using that [OF es] by blast
  qed
qed

definition adaptive_ok :: "(policy_service \<times> policy_store \<times> adaptive_clock) option \<Rightarrow> bool" where
  "adaptive_ok a = (case a of None \<Rightarrow> True | Some (svc, s, clk) \<Rightarrow> wf_service svc \<and> policy_store_ok svc s)"

lemma evaluate_task_total:
  assumes "build_raw_actions task c p telemetry fc now sb ds = Inr es"
    "\<forall>e \<in> set es. wf_estimate e" "es \<noteq> []" "action (hd es) = Continue" "adaptive_ok adaptive"
  shows "\<exists>r. evaluate_task task c p telemetry fc now sb adaptive tc ds = Inr r"
proof (cases adaptive)
  case None
  then show ?thesis using ranking_decided [OF assms(3,4), of p None task now] assms(1)
    by (auto simp: evaluate_task_def)
next
  case (Some a)
  obtain svc s clk where a: "a = (svc, s, clk)" by (rule prod_cases3)
  then have ok: "wf_service svc" "policy_store_ok svc s" using assms(5) Some by (simp_all add: adaptive_ok_def)
  obtain s1 ctx where p1: "prepare svc s task es now tc (forecast_confidence_of es tc)
      (hard_constraints_of task (length (peers c (current_node_id task))) es)
      (clock_created clk) (clock_prepared clk) = Inr (s1, ctx)"
    by (rule prepare_ok [OF ok assms(3,2)])
  obtain ranked d where "score_actions es p (Some ctx) = Inr ranked" "choose_action task ranked p now = Inr d"
    using ranking_decided [OF assms(3,4)] by blast
  then show ?thesis using assms(1) Some a p1 by (simp add: evaluate_task_def case_prod_unfold Let_def)
qed

lemma choose_migrate:
  assumes "choose_action task ranked p now = Inr d" "action (selected d) = Migrate"
    "0 \<le> required_improvement_fraction (migration p)" "required_improvement_fraction (migration p) \<le> 1"
    "sorted (map score ranked)"
  shows "gap_elapsed (last_migration_at task) now (min_migration_gap_seconds (migration p))"
    and "a \<in> set ranked \<Longrightarrow> score (selected d) \<le> score a"
    and "a \<in> set ranked \<Longrightarrow> is_local a \<Longrightarrow>
      score (selected d) \<le> (1 - required_improvement_fraction (migration p)) * score a"
proof -
  let ?f = "required_improvement_fraction (migration p)"
  from assms(1) have ne: "ranked \<noteq> []" by (auto simp: choose_action_def)
  from assms(1) ne obtain bl where bl: "min_by score (filter is_local ranked) = Some bl"
    by (auto simp: choose_action_def split: option.splits)
  have loc: "is_local bl" using min_by_SomeD(1) [OF bl] by simp
  then have blm: "action bl \<noteq> Migrate" by (auto simp: is_local_def)
  have cont: "find (\<lambda>a. action a = Continue) ranked = Some x \<Longrightarrow> action x \<noteq> Migrate" for x
    by (auto simp: find_Some_iff)
  have sel: "selected d = hd ranked" "gap_elapsed (last_migration_at task) now (min_migration_gap_seconds (migration p))"
    "\<not> relative_improvement bl (hd ranked) < ?f"
    using assms(1,2) ne bl blm cont
    by (auto simp: choose_action_def Let_def split: action_type.splits option.splits if_splits)
  then show "gap_elapsed (last_migration_at task) now (min_migration_gap_seconds (migration p))" by simp
  show least: "score (selected d) \<le> score a" if "a \<in> set ranked" for a
    using that assms(5) ne unfolding sel(1) by (cases ranked) auto
  have "?f \<le> (score bl - score (hd ranked)) / max (score bl) (1 / 1000000000000)"
    using sel(3) by (simp add: relative_improvement_def)
  then have "?f * max (score bl) (1 / 1000000000000) \<le> score bl - score (hd ranked)"
    by (simp add: pos_le_divide_eq)
  moreover have "?f * score bl \<le> ?f * max (score bl) (1 / 1000000000000)"
    using assms(3) by (intro mult_left_mono) simp_all
  ultimately have imp: "score (hd ranked) \<le> (1 - ?f) * score bl" by (simp add: algebra_simps)
  show "score (selected d) \<le> (1 - ?f) * score a" if "a \<in> set ranked" "is_local a"
  proof -
    have "score bl \<le> score a" using min_by_SomeD(2) [OF bl, of a] that by simp
    then have "(1 - ?f) * score bl \<le> (1 - ?f) * score a" using assms(4) by (intro mult_left_mono) simp_all
    then show ?thesis using imp sel(1) by simp
  qed
qed

text \<open>Where a selected migration goes, when the destinations are restricted.\<close>

lemma build_destinations:
  assumes "build_raw_actions task c p telemetry fc now sb (Some ds) = Inr es" and "e \<in> set es" and "action e = Migrate"
  shows "\<exists>n \<in> set (peers c (current_node_id task)). destination_node e = Some (node_identity n) \<and> node_identity n \<in> ds
    \<and> \<not> over_cost_cap task e"
proof -
  from assms(1) obtain src ce ps ms where src: "get_node c (current_node_id task) = Inr src" and
    ce: "estimate_continue task src fc now (of_int (horizon_seconds p)) = Inr ce" and
    ps: "pause_estimates (\<lambda>idle. estimate_pause task src fc now (of_int (horizon_seconds p)) (scoring_policy.pause p) (Some idle))
       (idle_candidates (scoring_policy.pause p)) = Inr ps" and
    ms: "migration_estimates task (migrate_to task c p telemetry fc now sb src) (Some ds) (peers c (node_identity src)) = Inr ms"
    and es: "es = ce # ps @ ms" by (rule build_raw_actions_shape)
  have "action ce = Continue" using ce by (auto simp: estimate_continue_def bind_result_Inr_iff Let_def)
  moreover have "action x = Pause" if "x \<in> set ps" for x
    using pause_estimates_set [OF ps that] by (auto simp: estimate_pause_def bind_result_Inr_iff Let_def split: if_splits)
  ultimately have "e \<in> set ms" using assms(2,3) es by auto
  then obtain n where n: "n \<in> set (peers c (node_identity src))" "migrate_to task c p telemetry fc now sb src n = Inr e"
    "node_identity n \<in> ds" "\<not> over_cost_cap task e"
    using migration_estimates_set [OF ms] by auto
  moreover have "node_identity src = current_node_id task" using get_node_InrD [OF src] by simp
  ultimately show ?thesis
    by (auto simp: migrate_to_def estimate_migrate_def migration_estimate_def bind_result_Inr_iff Let_def)
qed

lemma selected_destination:
  assumes "evaluate_task task c p telemetry fc now sb adaptive tc (Some ds) = Inr (d, out)" and "action (selected d) = Migrate"
  shows "\<exists>n \<in> set (peers c (current_node_id task)). destination_node (selected d) = Some (node_identity n) \<and> node_identity n \<in> ds"
proof -
  obtain es ctx ranked where es: "build_raw_actions task c p telemetry fc now sb (Some ds) = Inr es"
    and r: "score_actions es p ctx = Inr ranked" and d: "choose_action task ranked p now = Inr d"
    using assms(1) by (rule evaluate_task_parts)
  have "selected d \<in> set ranked" using choose_action_selected [OF d] by simp
  then have "raw_action_estimate.truncate (selected d) \<in> set es"
    using score_actions_mset [OF r] by (metis (no_types) image_eqI mset_eq_setD set_map)
  from build_destinations [OF es this] assms(2) obtain n where "n \<in> set (peers c (current_node_id task))"
    "destination_node (selected d) = Some (node_identity n)" "node_identity n \<in> ds"
    by (auto simp: raw_action_estimate.truncate_def)
  then show ?thesis by blast
qed

section \<open>Example data\<close>

definition example_node :: "node_id \<Rightarrow> real \<Rightarrow> node_config" where
  "example_node n price = \<lparr>node_identity = n, latitude = 40, longitude = 10, task_capacity = None,
     resources = unlimited_capacity, capabilities = default_capabilities, pue = 1,
     compute_price_usd_per_hour = price, egress_price_usd_per_gb = 0, carbon_fallback_g_per_kwh = None\<rparr>"

definition example_cluster :: cluster_config where
  "example_cluster = \<lparr>epoch_seconds = 60, bid_window_seconds = 5, request_timeout_seconds = 1,
     reservation_ttl_seconds = 60, reservation_renew_interval_seconds = 20, default_bandwidth_mbps = 8,
     default_latency_ms = 0, nodes = [example_node ''a'' 6, example_node ''b'' 0], edges = []\<rparr>"

definition example_scoring :: scoring_policy where
  "example_scoring = \<lparr>horizon_seconds = 600, weights = \<lparr>w_time = 2, w_carbon = 1, w_cost = 1\<rparr>,
     pause = \<lparr>pause_seconds = 0, idle_seconds = 60, candidate_idle_seconds = [], resume_seconds = 0,
       max_pause_window_seconds = 3600, min_pause_gap_seconds = 0\<rparr>,
     migration = \<lparr>min_migration_gap_seconds = 60, required_improvement_fraction = 1 / 10,
       network_energy_kwh_per_gb_base = 0, network_energy_kwh_per_gb_km = 0, activation_timeout_seconds = 60\<rparr>\<rparr>"

definition example_forecast :: "real \<Rightarrow> forecast_estimate" where
  "example_forecast v = fallback_estimate ''a'' 0 0 0 ConfiguredFallback v 1 Fresh 0 None None"

definition example_forecaster :: forecaster where
  "example_forecaster = (\<lambda>n _ _. Inr (example_forecast (if n = ''a'' then 60 else 0)))"

definition example_mover :: task_profile where
  "example_mover = example_task\<lparr>checkpoint_bytes := 0, data_bytes := 0\<rparr>"

lemmas example_simps = example_node_def example_cluster_def example_scoring_def example_forecast_def
  example_forecaster_def example_mover_def example_task_def unlimited_capacity_def

lemma example_sound: "sound_inputs example_mover example_cluster example_scoring None example_forecaster None"
  by (simp add: sound_inputs_def example_simps wf_profile_def wf_cluster_def wf_node_def wf_capacity_def
      wf_scoring_policy_def wf_weights_def validate_pause_candidates_def idle_candidates_def
      wf_resource_request_def default_resource_request_def telemetry_sound_def forecasts_nonneg_def
      fallback_estimate_def)

definition example_forecast_policy :: forecast_policy where
  "example_forecast_policy = \<lparr>forecast_enabled = True, provider = LinearTrend, history_points = 24,
     minimum_points = 3, forecast_sample_seconds = 300, maximum_change_per_hour = 100,
     stale_after_seconds = 7200, configured_fallback = None, forecast_confidence_floor = 1 / 5,
     persistence_confidence = 1 / 2, fallback_confidence = 1 / 5\<rparr>"

definition example_series :: "real list \<Rightarrow> series" where
  "example_series vs = map (\<lambda>i. (3600 * real i, vs ! i)) [0..<length vs]"

definition example_carbon :: "real list \<Rightarrow> carbon_store" where
  "example_carbon vs = \<lparr>carbon_cluster = example_cluster, series_by_node = [(''a'', example_series vs)]\<rparr>"

definition example_trace :: carbon_store where
  "example_trace = \<lparr>carbon_cluster = example_cluster,
     series_by_node = [(''a'', example_series [100, 110, 120]), (''b'', example_series [20, 30, 10])]\<rparr>"

lemma example_ready: "carbon_ready example_trace example_forecast_policy example_cluster 7200"
  by (auto simp: carbon_ready_def example_trace_def example_forecast_policy_def wf_forecast_policy_def example_cluster_def
      example_node_def example_series_def dict_get_Cons upt_rec split: if_splits)

lemma example_wf_cluster: "wf_cluster example_cluster"
  using example_sound by (simp add: sound_inputs_def)

lemma example_trace_sound: "sound_inputs example_mover example_cluster example_scoring None
    (forecaster_at wa example_trace (Some example_forecast_policy) 7200) None"
  using example_sound forecaster_nonneg [OF example_ready example_wf_cluster, of wa] by (simp add: sound_inputs_def)

lemma example_known: "get_node example_cluster (current_node_id example_mover) = Inr (example_node ''a'' 6)"
  by (simp add: example_simps get_node_def)

definition example_local :: "action_type \<Rightarrow> real \<Rightarrow> real option \<Rightarrow> raw_action_estimate" where
  "example_local a t idle = \<lparr>action = a, source_node = ''a'', destination_node = None, time_seconds = t,
     carbon_grams = 10, cost_usd = 1, detail_idle_seconds = idle, detail_carbon_confidence = Some 1\<rparr>"

definition example_move :: raw_action_estimate where
  "example_move = \<lparr>action = Migrate, source_node = ''a'', destination_node = Some ''b'', time_seconds = 600,
     carbon_grams = 0, cost_usd = 0, detail_idle_seconds = None, detail_carbon_confidence = Some 1\<rparr>"

lemma example_build:
  "build_raw_actions example_mover example_cluster example_scoring None example_forecaster 0 None None =
    Inr [example_local Continue 600 None, example_local Pause 660 (Some 60), example_move]"
  by (simp add: build_raw_actions_def example_simps get_node_def estimate_continue_def estimate_pause_def
      compute_seconds_def carbon_of_def seconds_to_hours_def idle_candidates_def fallback_estimate_def
      peers_def migrate_to_def graph_edge_def configured_edge_def get_edge_override_def haversine_self
      estimate_migrate_def transfer_duration_def transfer_seconds_def transfer_bytes_def static_override_def
      migration_timing_of_def migration_estimate_def network_energy_kwh_def bytes_to_gb_def
      over_cost_cap_def example_local_def example_move_def)

section \<open>Properties\<close>

text \<open>
  The estimates of an evaluation are admissible: time, carbon and cost are non-negative, the
  source is the task's node, a pause fits the pause window, and a migration goes to another known
  and allowed node and stays within the task's cost cap; the list starts with Continue.
\<close>

theorem estimates_are_admissible:
  assumes "sound_inputs task c p telemetry fc sb"
    and "build_raw_actions task c p telemetry fc now sb ds = Inr es"
  shows "(\<forall>e \<in> set es. admissible task c p ds e) \<and> es \<noteq> [] \<and> action (hd es) = Continue"
  using assms by (rule build_admissible)

theorem estimates_are_admissible_witness:
  "admissible example_mover example_cluster example_scoring None example_move"
  using estimates_are_admissible [OF example_sound example_build] by simp

text \<open>
  C20. An evaluation always decides: with forecasting enabled, a known node, usable edges, and carbon data for
  every node of the cluster (a sample up to the instant of the evaluation, or a configured fallback),
  no exception leaves \<open>evaluate_task\<close>, with the adaptive policy or without it.
\<close>

theorem evaluation_always_decides:
  assumes "carbon_ready cs fp c now" and "sound_inputs task c p telemetry (forecaster_at wa cs (Some fp) now) sb"
    and "get_node c (current_node_id task) = Inr src" "adaptive_ok adaptive"
  shows "\<exists>r. evaluate_task task c p telemetry (forecaster_at wa cs (Some fp) now) now sb adaptive tc ds = Inr r"
proof -
  obtain es where es: "build_raw_actions task c p telemetry (forecaster_at wa cs (Some fp) now) now sb ds = Inr es"
    using build_total [OF assms(2) forecaster_answers [OF assms(1)] assms(3)] by blast
  have adm: "\<forall>e \<in> set es. wf_estimate e" "es \<noteq> []" "action (hd es) = Continue"
    using build_admissible [OF assms(2) es] by (simp_all add: admissible_def)
  show ?thesis by (rule evaluate_task_total [OF es adm assms(4)])
qed

theorem evaluation_always_decides_witness:
  "\<exists>r. evaluate_task example_mover example_cluster example_scoring None
     (forecaster_at (\<lambda>_ _ _. Inl (KeyError ''no window'')) example_trace (Some example_forecast_policy) 7200) 7200 None
     (Some (example_service, load_policies None, \<lparr>clock_created = 0, clock_prepared = 0, clock_recorded = 0\<rparr>)) 1 None
   = Inr r"
proof -
  have "adaptive_ok (Some (example_service, load_policies None,
      \<lparr>clock_created = 0, clock_prepared = 0, clock_recorded = 0\<rparr>))"
    by (simp add: adaptive_ok_def example_service_wf empty_store_ok)
  then show ?thesis by (rule evaluation_always_decides [OF example_ready example_trace_sound example_known])
qed

text \<open>
  The ranking is sound: it is the list of estimates reordered by score, every score and every
  normalised metric lies in [0, 1], and an estimate no worse than another in time, carbon and cost
  never scores above it.
\<close>

theorem ranking_is_sound:
  assumes "wf_weights (weights p)" "wf_scoring_context ctx" "score_actions es p ctx = Inr ranked"
  shows "mset (map raw_action_estimate.truncate ranked) = mset es \<and> sorted (map score ranked)
    \<and> (\<forall>a \<in> set ranked. score a \<in> {0..1} \<and> normalized_time a \<in> {0..1}
        \<and> normalized_carbon a \<in> {0..1} \<and> normalized_cost a \<in> {0..1})
    \<and> (\<forall>a \<in> set ranked. \<forall>b \<in> set ranked. dominates a b \<longrightarrow> score a \<le> score b)"
  using score_actions_set [OF assms(3)] score_actions_mset [OF assms(3)] scored_list_unit [OF assms(1,2)]
    scored_list_dominance [OF assms(1,2)] by simp

theorem ranking_is_sound_witness:
  "\<exists>ranked. score_actions [example_move, example_local Continue 600 None] example_scoring None = Inr ranked
    \<and> sorted (map score ranked)"
proof -
  have w: "wf_weights (weights example_scoring)" "wf_scoring_context None"
    by (simp_all add: example_scoring_def wf_weights_def wf_scoring_context_def)
  obtain ranked where r: "score_actions [example_move, example_local Continue 600 None] example_scoring None = Inr ranked"
    by (simp add: score_actions_def)
  then show ?thesis using ranking_is_sound [OF w r] by blast
qed

text \<open>
  C19. A migration is justified: when an evaluation selects one, the minimum gap since the last
  migration has elapsed, no candidate scores lower, it improves on every local action by the
  required fraction, the destination is allowed and the cost cap holds.
\<close>

theorem migration_is_justified:
  assumes "sound_inputs task c p telemetry fc sb"
    and "evaluate_task task c p telemetry fc now sb adaptive tc ds = Inr (d, out)"
    and "action (selected d) = Migrate"
  shows "gap_elapsed (last_migration_at task) now (min_migration_gap_seconds (migration p))
    \<and> (\<forall>a \<in> set (ranked_actions d). score (selected d) \<le> score a)
    \<and> (\<forall>a \<in> set (ranked_actions d). is_local a \<longrightarrow>
         score (selected d) \<le> (1 - required_improvement_fraction (migration p)) * score a)
    \<and> admissible task c p ds (raw_action_estimate.truncate (selected d))"
proof -
  obtain es ctx ranked where es: "build_raw_actions task c p telemetry fc now sb ds = Inr es"
    and r: "score_actions es p ctx = Inr ranked" and d: "choose_action task ranked p now = Inr d"
    using assms(2) by (rule evaluate_task_parts)
  have sel: "selected d \<in> set ranked" "ranked_actions d = ranked" using choose_action_selected [OF d] by simp_all
  have "sorted (map score ranked)" using score_actions_set [OF r] by simp
  note m = choose_migrate [OF d assms(3) sound_inputs_simps(10,11) [OF assms(1)] this]
  have "raw_action_estimate.truncate (selected d) \<in> set es"
    using sel(1) score_actions_mset [OF r] by (metis (no_types) image_eqI mset_eq_setD set_map)
  then have "admissible task c p ds (raw_action_estimate.truncate (selected d))"
    using build_admissible [OF assms(1) es] by blast
  then show ?thesis using m sel by simp
qed

definition example_ranking :: "scored_action list" where
  "example_ranking =
     [scored_of \<lparr>w_time = 1 / 2, w_carbon = 1 / 4, w_cost = 1 / 4\<rparr> example_move 0 0 0,
      scored_of \<lparr>w_time = 1 / 2, w_carbon = 1 / 4, w_cost = 1 / 4\<rparr> (example_local Continue 600 None) 0 1 1,
      scored_of \<lparr>w_time = 1 / 2, w_carbon = 1 / 4, w_cost = 1 / 4\<rparr> (example_local Pause 660 (Some 60)) 1 1 1]"

lemma example_ranked:
  "score_actions [example_local Continue 600 None, example_local Pause 660 (Some 60), example_move] example_scoring None
    = Inr example_ranking"
  by (simp add: score_actions_def scored_list_def normalized_metrics_def minmax_normalize_def Let_def
      example_local_def example_move_def scoring_weights_def example_scoring_def normalized_def upt_rec
      example_ranking_def)

lemma example_chosen:
  "\<exists>d. choose_action example_mover example_ranking example_scoring 0 = Inr d \<and> action (selected d) = Migrate"
  by (simp add: choose_action_def Let_def is_local_def example_ranking_def
      min_by_def example_move_def example_local_def example_simps gap_elapsed_def relative_improvement_def)

theorem migration_is_justified_witness:
  "\<exists>d. evaluate_task example_mover example_cluster example_scoring None example_forecaster 0 None None 1 None
      = Inr (d, None) \<and> action (selected d) = Migrate
    \<and> (\<forall>a \<in> set (ranked_actions d). score (selected d) \<le> score a)"
proof -
  obtain d where c: "choose_action example_mover example_ranking example_scoring 0 = Inr d"
    and m: "action (selected d) = Migrate" using example_chosen by blast
  have "evaluate_task example_mover example_cluster example_scoring None example_forecaster 0 None None 1 None
      = Inr (d, None)"
    by (simp add: evaluate_task_def example_build example_ranked c)
  then show ?thesis using migration_is_justified [OF example_sound _ m] m by blast
qed

section \<open>Carbon data\<close>

text \<open>Two stores that agree on the samples up to an instant.\<close>

definition same_past :: "datetime \<Rightarrow> carbon_store \<Rightarrow> carbon_store \<Rightarrow> bool" where
  "same_past now cs cs' \<longleftrightarrow> carbon_cluster cs = carbon_cluster cs'
   \<and> (\<forall>n. map_option (filter (\<lambda>(t, _). t \<le> now)) (dict_get (series_by_node cs) n)
         = map_option (filter (\<lambda>(t, _). t \<le> now)) (dict_get (series_by_node cs') n))"

lemma store_forecast_causal:
  assumes "same_past now cs cs'"
  shows "store_forecast cs n now start d p = store_forecast cs' n now start d p"
proof -
  have c: "carbon_cluster cs = carbon_cluster cs'" using assms by (simp add: same_past_def)
  have s: "map_option (filter (\<lambda>(t, _). t \<le> now)) (dict_get (series_by_node cs) n)
      = map_option (filter (\<lambda>(t, _). t \<le> now)) (dict_get (series_by_node cs') n)"
    using assms by (simp add: same_past_def)
  show ?thesis
  proof (cases "dict_get (series_by_node cs) n")
    case None
    then have "dict_get (series_by_node cs') n = None" using s by (cases "dict_get (series_by_node cs') n") simp_all
    then show ?thesis using None c by (simp add: store_forecast_def)
  next
    case (Some x)
    then obtain y where y: "dict_get (series_by_node cs') n = Some y"
      "filter (\<lambda>(t, _). t \<le> now) x = filter (\<lambda>(t, _). t \<le> now) y"
      using s by (cases "dict_get (series_by_node cs') n") simp_all
    show ?thesis using Some y(1) c provider_causal [OF y(2)] by (simp add: store_forecast_def)
  qed
qed

text \<open>
  C22. No decision looks ahead: with forecasting enabled, an evaluation depends on the carbon data
  only through the samples up to its own instant, so replaying a trace gives the decisions that
  were possible at the time.
\<close>

theorem evaluation_has_no_lookahead:
  assumes "same_past now cs cs'" "forecast_enabled fp"
  shows "evaluate_task task c p telemetry (forecaster_at wa cs (Some fp) now) now sb adaptive tc ds
    = evaluate_task task c p telemetry (forecaster_at wa cs' (Some fp) now) now sb adaptive tc ds"
proof -
  have "forecaster_at wa cs (Some fp) now = forecaster_at wa cs' (Some fp) now"
    using assms(2) store_forecast_causal [OF assms(1)]
    by (simp add: forecaster_at_def forecast_or_average_def fun_eq_iff)
  then show ?thesis by simp
qed

theorem evaluation_has_no_lookahead_witness:
  "evaluate_task example_mover example_cluster example_scoring None
     (forecaster_at (\<lambda>_ _ _. Inr 0) (example_carbon [100, 110, 120, 500]) (Some example_forecast_policy) 7200)
     7200 None None 1 None
   = evaluate_task example_mover example_cluster example_scoring None
     (forecaster_at (\<lambda>_ _ _. Inr 0) (example_carbon [100, 110, 120, 7]) (Some example_forecast_policy) 7200)
     7200 None None 1 None"
proof -
  have "same_past 7200 (example_carbon [100, 110, 120, 500]) (example_carbon [100, 110, 120, 7])"
    by (simp add: same_past_def example_carbon_def example_series_def dict_get_def upt_rec)
  moreover have "forecast_enabled example_forecast_policy" by (simp add: example_forecast_policy_def)
  ultimately show ?thesis by (rule evaluation_has_no_lookahead)
qed

text \<open>
  A forecast stays in range: its average is non-negative, its confidence lies in [0, 1], and
  when it comes from the trend its average lies between the extremes of the history it used, widened
  by \<open>maximum_change_per_hour\<close>.
\<close>

theorem forecast_stays_in_range:
  assumes "wf_forecast_policy p" "\<forall>(t, v) \<in> set s. 0 \<le> v"
    and "provider_forecast node s observed start d p = Inr f"
  shows "0 \<le> average_g_per_kwh f \<and> confidence f \<in> {0..1}
    \<and> (forecast_source f = LinearTrendSource \<longrightarrow> average_g_per_kwh f
        \<in> {trend_lower p (history_of p observed s)..trend_upper p (history_of p observed s)})"
proof -
  let ?h = "history_of p observed s"
  have mc: "0 \<le> maximum_change_per_hour p" using assms(1) by (simp add: wf_forecast_policy_def)
  have hv: "\<forall>v \<in> set (map snd ?h). 0 \<le> v" using history_past assms(2) by fastforce
  have fb: "0 \<le> average_g_per_kwh (fallback_estimate n ob st du src v c fr k l ag)"
    "forecast_source (fallback_estimate n ob st du src v c fr k l ag) = src" for n ob st du src v c fr k l ag
    by (simp_all add: fallback_estimate_def)
  have lo: "0 \<le> trend_lower p ?h" by (simp add: trend_lower_def)
  have tr: "average_g_per_kwh (trend_estimate node p ?h ob st du ag ff) \<in> {trend_lower p ?h..trend_upper p ?h}"
    if "?h \<noteq> []" for ob st du ag ff
    using trend_average_bounds [OF mc that hv] by simp
  have "on_ok (\<lambda>f. 0 \<le> average_g_per_kwh f \<and> (forecast_source f = LinearTrendSource \<longrightarrow>
      average_g_per_kwh f \<in> {trend_lower p ?h..trend_upper p ?h})) (provider_forecast node s observed start d p)"
    unfolding provider_forecast_def Let_def case_prod_unfold
    using fb tr lo by (auto split: option.split intro: order_trans)
  then show ?thesis using assms(3) estimate_confidence [OF assms(1), of node s observed start d] by simp
qed

theorem forecast_stays_in_range_witness:
  "\<exists>f. provider_forecast ''a'' (example_series [100, 110, 120]) 7200 7200 3600 example_forecast_policy = Inr f
    \<and> confidence f \<in> {0..1}"
proof -
  have p: "wf_forecast_policy example_forecast_policy"
    by (simp add: wf_forecast_policy_def example_forecast_policy_def)
  have v: "\<forall>(t, v) \<in> set (example_series [100, 110, 120]). 0 \<le> v" by (simp add: example_series_def upt_rec)
  have h: "history_of example_forecast_policy 7200 (example_series [100, 110, 120]) = example_series [100, 110, 120]"
    by (simp add: history_of_def example_series_def upt_rec example_forecast_policy_def)
  obtain f where f: "provider_forecast ''a'' (example_series [100, 110, 120]) 7200 7200 3600 example_forecast_policy = Inr f"
    unfolding provider_forecast_def h
    by (auto simp: Let_def example_series_def upt_rec example_forecast_policy_def)
  then show ?thesis using forecast_stays_in_range [OF p v f] by blast
qed

text \<open>
  The trend is exact on affine data: when the history of a node lies on a line and is not a
  single instant, the least-squares fit returns that line with residual zero.
\<close>

theorem trend_exact_on_affine_history:
  assumes "\<forall>(t, v) \<in> set samples. v = a + b * ((t - fst (last samples)) / 3600)"
    and "0 < sum_list (map (\<lambda>x. (x - mean (map (\<lambda>s. (fst s - fst (last samples)) / 3600) samples))\<^sup>2)
               (map (\<lambda>s. (fst s - fst (last samples)) / 3600) samples))"
  shows "linear_fit samples = (a, b, 0)"
  using assms by (rule linear_fit_affine)

theorem trend_exact_on_affine_history_witness:
  "linear_fit (example_series [100, 110, 120]) = (120, 10, 0)"
  by (rule trend_exact_on_affine_history) (simp_all add: example_series_def upt_rec mean_def power2_eq_square)

text \<open>
  Findings.  The fallback from a refused migration is the best local action, which may be a pause:
  the minimum pause gap is not consulted on that path.
\<close>

lemma pause_gap_is_bypassed:
  fixes task :: task_profile
  defines "w \<equiv> \<lparr>w_time = 0, w_carbon = 1, w_cost = 0\<rparr>"
  defines "ranked \<equiv> [scored_of w example_move 0 0 0, scored_of w (example_local Pause 660 (Some 60)) 1 (1 / 2) 1,
     scored_of w (example_local Continue 600 None) 0 1 1]"
  defines "mover \<equiv> example_mover\<lparr>last_pause_at := Some 95, last_migration_at := Some 95\<rparr>"
  defines "p \<equiv> example_scoring\<lparr>pause := (pause example_scoring)\<lparr>min_pause_gap_seconds := 60\<rparr>\<rparr>"
  shows "\<exists>d. choose_action mover ranked p 100 = Inr d \<and> action (selected d) = Pause
    \<and> \<not> gap_elapsed (last_pause_at mover) 100 (min_pause_gap_seconds (pause p))"
  unfolding w_def ranked_def mover_def p_def
  by (simp add: choose_action_def Let_def is_local_def min_by_def example_move_def example_local_def
      example_simps gap_elapsed_def)

end
