(* ===== verification/Runtime_Adapters.thy ===== *)
theory Runtime_Adapters
  imports Task_Registry
begin

text \<open>
  \<open>magellan/runtime/adapters.py\<close> and the parts of \<open>runtime/local_process.py\<close> that turn a task
  definition into a launch: the three adapters, the test that a Dendro checkpoint is complete and
  the wait for readiness.  What an adapter reads from the checkpoint directory is a
  \<open>checkpoint_view\<close>; the interpreter path and the rendering of one argument are parameters.
\<close>

section \<open>Checkpoints on disk\<close>

text \<open>
  An item of the manifest's file list as far as the code reads it: its path and its size, each
  \<open>None\<close> when it has another JSON type; an item that is no object is \<open>NoObject\<close>.
\<close>

datatype manifest_item = NoObject | Item "string option" "int option"

datatype manifest_read =
    ManifestMissing
  | ManifestUnreadable
  | ManifestRead "manifest_item list option" "int option"

record checkpoint_view =
  view_manifest :: manifest_read
  view_checkpoint_size :: "nat option"
  view_files :: "nat dict"

definition item_present :: "checkpoint_view \<Rightarrow> manifest_item \<Rightarrow> bool" where
  "item_present v item =
     (case item of
        Item (Some path) (Some expected) \<Rightarrow>
          (case dict_get (view_files v) path of None \<Rightarrow> False | Some n \<Rightarrow> int n = expected)
      | _ \<Rightarrow> False)"

definition checkpoint_ready :: "process_spec \<Rightarrow> checkpoint_view \<Rightarrow> bool \<times> int option" where
  "checkpoint_ready spec v =
     (if checkpoint_manifest_relative_path spec \<noteq> None
      then case view_manifest v of
             ManifestRead (Some items) step \<Rightarrow>
               if items \<noteq> [] \<and> list_all (item_present v) items then (True, step) else (False, None)
           | _ \<Rightarrow> (False, None)
      else if (case view_checkpoint_size v of None \<Rightarrow> False | Some n \<Rightarrow> 0 < n) then (True, None)
      else (list_ex (\<lambda>(_, n). 0 < n) (view_files v), None))"

section \<open>Launch plans\<close>

record launch_plan =
  plan_adapter :: string
  plan_command :: "string list"
  plan_resumed :: bool
  plan_environment :: "string dict"

definition module_plan :: "string \<Rightarrow> process_spec \<Rightarrow> (string \<Rightarrow> string) \<Rightarrow> launch_plan result" where
  "module_plan interpreter spec render =
     (case spec_module spec of
        None \<Rightarrow> Inl (OtherError ''AssertionError'')
      | Some m \<Rightarrow> Inr \<lparr>plan_adapter = ''python_module'',
          plan_command = [interpreter, ''-m'', m] @ map render (spec_arguments spec),
          plan_resumed = False, plan_environment = []\<rparr>)"

definition command_plan :: "process_spec \<Rightarrow> (string \<Rightarrow> string) \<Rightarrow> launch_plan" where
  "command_plan spec render =
     \<lparr>plan_adapter = ''command'',
      plan_command = map render (spec_command spec) @ map render (spec_arguments spec),
      plan_resumed = False, plan_environment = []\<rparr>"

definition dendro_plan ::
  "process_spec \<Rightarrow> (string \<Rightarrow> string) \<Rightarrow> checkpoint_view \<Rightarrow> string \<Rightarrow> launch_plan" where
  "dendro_plan spec render v directory =
     (let (resumed, step) = checkpoint_ready spec v;
          arguments = spec_arguments spec @ (if resumed then resume_arguments spec else [])
      in \<lparr>plan_adapter = ''dendro'',
          plan_command = map render (spec_command spec) @ map render arguments,
          plan_resumed = resumed,
          plan_environment =
            [(''MAGELLAN_DENDRO_RESUME'', if resumed then ''1'' else ''0''),
             (''MAGELLAN_DENDRO_CHECKPOINT_DIRECTORY'', directory),
             (''MAGELLAN_DENDRO_CHECKPOINT_STEP'', case step of None \<Rightarrow> '''' | Some n \<Rightarrow> int_str n)]\<rparr>)"

text \<open>The adapter registry knows exactly the three adapters a specification can name.\<close>

definition build_launch_plan ::
  "string \<Rightarrow> process_spec \<Rightarrow> (string \<Rightarrow> string) \<Rightarrow> checkpoint_view \<Rightarrow> string \<Rightarrow> launch_plan result" where
  "build_launch_plan interpreter spec render v directory =
     (case adapter spec of
        PythonModule \<Rightarrow> module_plan interpreter spec render
      | Command \<Rightarrow> Inr (command_plan spec render)
      | Dendro \<Rightarrow> Inr (dendro_plan spec render v directory))"

section \<open>Readiness\<close>

text \<open>
  One turn of the loop sees the exit code of the process, whether the readiness marker exists and
  how many processes its group has; the list ends when the deadline has passed.
\<close>

record readiness_poll =
  poll_exit :: "int option"
  poll_marker :: bool
  poll_processes :: int

fun wait_for_readiness :: "task_id \<Rightarrow> process_spec \<Rightarrow> readiness_poll list \<Rightarrow> unit result" where
  "wait_for_readiness t spec [] = Inl (OtherError (''TimeoutError: '' @ t @ '' did not become ready''))"
| "wait_for_readiness t spec (p # ps) =
     (case poll_exit p of
        Some c \<Rightarrow> Inl (RuntimeError (''Task '' @ t @ '' exited before becoming ready with code '' @ int_str c))
      | None \<Rightarrow>
          if (readiness_relative_path spec = None \<or> poll_marker p)
            \<and> minimum_process_count spec \<le> poll_processes p
          then Inr () else wait_for_readiness t spec ps)"

section \<open>Laws\<close>

text \<open>Readiness is reported exactly when a poll sees it with no exit before or at that poll.\<close>

definition poll_ready :: "process_spec \<Rightarrow> readiness_poll \<Rightarrow> bool" where
  "poll_ready spec p \<longleftrightarrow> (readiness_relative_path spec = None \<or> poll_marker p)
     \<and> minimum_process_count spec \<le> poll_processes p"

lemma wait_for_readiness_iff:
  "wait_for_readiness t spec ps = Inr () \<longleftrightarrow>
     (\<exists>i < length ps. poll_ready spec (ps ! i) \<and> (\<forall>j \<le> i. poll_exit (ps ! j) = None))"
proof (induction ps)
  case (Cons p ps)
  have split: "(\<exists>i < length (p # ps). poll_ready spec ((p # ps) ! i) \<and> (\<forall>j \<le> i. poll_exit ((p # ps) ! j) = None))
    \<longleftrightarrow> poll_exit p = None \<and> (poll_ready spec p
       \<or> (\<exists>i < length ps. poll_ready spec (ps ! i) \<and> (\<forall>j \<le> i. poll_exit (ps ! j) = None)))"
    (is "?L \<longleftrightarrow> ?R")
  proof
    assume ?L
    then obtain i where i: "i < length (p # ps)" "poll_ready spec ((p # ps) ! i)"
      "\<forall>j \<le> i. poll_exit ((p # ps) ! j) = None" by blast
    then have "poll_exit p = None" by (metis le0 nth_Cons_0)
    moreover have "poll_ready spec p \<or> (\<exists>k < length ps. poll_ready spec (ps ! k) \<and> (\<forall>j \<le> k. poll_exit (ps ! j) = None))"
    proof (cases i)
      case (Suc k)
      then have "\<forall>j \<le> k. poll_exit (ps ! j) = None" using i(3) by (metis Suc_le_mono nth_Cons_Suc)
      then show ?thesis using i Suc by auto
    qed (use i in simp)
    ultimately show ?R by blast
  next
    assume r: ?R
    show ?L
    proof (cases "poll_ready spec p")
      case True
      then show ?thesis using r by (intro exI [where x = 0]) simp
    next
      case False
      then obtain k where k: "k < length ps" "poll_ready spec (ps ! k)" "\<forall>j \<le> k. poll_exit (ps ! j) = None"
        using r by blast
      have "poll_exit ((p # ps) ! j) = None" if "j \<le> Suc k" for j
        using that r k(3) by (cases j) simp_all
      then show ?thesis using k by (intro exI [where x = "Suc k"]) simp
    qed
  qed
  show ?case
    by (subst split) (use Cons.IH in \<open>auto simp: poll_ready_def split: option.split\<close>)
qed simp

text \<open>A validated specification always has a plan, and only a complete checkpoint is resumed.\<close>

lemma build_launch_plan_total:
  assumes "is_ok (validate_runtime spec)"
  shows "\<exists>plan. build_launch_plan interpreter spec render v directory = Inr plan"
  using assms
  by (cases "adapter spec")
    (auto simp: build_launch_plan_def module_plan_def validate_runtime_def split: option.split if_splits)

lemma dendro_resumes_complete_checkpoint:
  assumes "plan_resumed (dendro_plan spec render v directory)"
    "checkpoint_manifest_relative_path spec \<noteq> None"
  obtains items step where "view_manifest v = ManifestRead (Some items) step" "items \<noteq> []"
    "\<forall>item \<in> set items. \<exists>path n. item = Item (Some path) (Some (int n)) \<and> dict_get (view_files v) path = Some n"
proof -
  have "fst (checkpoint_ready spec v)" using assms(1) by (simp add: dendro_plan_def case_prod_unfold Let_def)
  then obtain items step where m: "view_manifest v = ManifestRead (Some items) step" "items \<noteq> []"
      "list_all (item_present v) items"
    using assms(2) by (auto simp: checkpoint_ready_def split: manifest_read.splits option.splits if_splits)
  have "\<exists>path n. item = Item (Some path) (Some (int n)) \<and> dict_get (view_files v) path = Some n"
    if "item_present v item" for item
    using that by (auto simp: item_present_def split: manifest_item.splits option.splits)
  then show ?thesis using m that by (metis list_all_iff)
qed

end
