(* ===== verification/Completion.thy ===== *)
theory Completion
  imports Runtime_Adapters Task_Registry_Laws
begin

text \<open>
  \<open>magellan/runtime/completion.py\<close>: the completion marker a workload writes, its validation and
  the final output manifest.  The files of one task are a record; an absent file is \<open>None\<close>, and
  the regular files of the output directory are listed in the order \<open>sorted(rglob)\<close> gives.  The
  digest of a file and the text of a manifest are parameters.
\<close>

section \<open>Files\<close>

record completion_marker =
  marker_task_id :: task_id
  marker_success :: bool
  marker_completed_at :: datetime

datatype marker_read = MarkerUnreadable | MarkerRead completion_marker

record output_entry =
  entry_path :: string
  entry_content :: string

record final_output_file =
  final_path :: string
  final_size :: int
  final_sha256 :: string

record final_output_manifest =
  manifest_task_id :: task_id
  manifest_owner :: node_id
  manifest_generation :: int
  manifest_completed_at :: datetime
  manifest_created_at :: datetime
  manifest_total_bytes :: int
  manifest_files :: "final_output_file list"

record task_files =
  marker_file :: "marker_read option"
  output_entries :: "output_entry list option"
  manifest_file :: "final_output_manifest option"

section \<open>Markers\<close>

definition completion_error :: "string \<Rightarrow> error" where
  "completion_error message = RuntimeError message"

definition completion_marker_exists :: "process_spec \<Rightarrow> task_files \<Rightarrow> bool" where
  "completion_marker_exists spec f = (completion_relative_path spec \<noteq> None \<and> marker_file f \<noteq> None)"

definition load_marker :: "task_id \<Rightarrow> process_spec \<Rightarrow> task_files \<Rightarrow> completion_marker result" where
  "load_marker t spec f =
     (if completion_relative_path spec = None
      then Inl (completion_error (''Task '' @ t @ '' does not define a completion marker''))
      else case marker_file f of
        None \<Rightarrow> Inl (completion_error ''Completion marker does not exist'')
      | Some MarkerUnreadable \<Rightarrow> Inl (completion_error ''Invalid completion marker'')
      | Some (MarkerRead m) \<Rightarrow>
          if marker_task_id m \<noteq> t
          then Inl (completion_error (''Completion marker task mismatch: expected='' @ t @ '', actual='' @ marker_task_id m))
          else if \<not> marker_success m
          then Inl (completion_error (''Task '' @ t @ '' reported unsuccessful completion''))
          else Inr m)"

section \<open>Finalisation\<close>

definition collect_outputs ::
  "(string \<Rightarrow> string) \<Rightarrow> process_spec \<Rightarrow> task_files \<Rightarrow> final_output_file list result" where
  "collect_outputs sha256 spec f =
     (if output_relative_directory spec = None then Inr []
      else case output_entries f of
        None \<Rightarrow> Inl (completion_error ''Final output directory does not exist'')
      | Some es \<Rightarrow> Inr (map (\<lambda>e. \<lparr>final_path = entry_path e, final_size = int (length (entry_content e)),
                                  final_sha256 = sha256 (entry_content e)\<rparr>) es))"

definition finalize ::
  "(string \<Rightarrow> string) \<Rightarrow> (final_output_manifest \<Rightarrow> string) \<Rightarrow> task_id \<Rightarrow> int option \<Rightarrow> datetime \<Rightarrow> task_files
     \<Rightarrow> registry \<Rightarrow> registry \<times> task_files \<times> final_output_manifest result" where
  "finalize sha256 manifest_text t exit_code now f reg =
     (case get_definition reg t of
        Inl e \<Rightarrow> (reg, f, Inl e)
      | Inr d \<Rightarrow>
      case bind_result (load_marker t (runtime d) f) (\<lambda>m.
             bind_result (get_state reg t) (\<lambda>st.
             bind_result (collect_outputs sha256 (runtime d) f) (\<lambda>files.
             Inr (m, \<lparr>manifest_task_id = t, manifest_owner = owner_node_id st,
                      manifest_generation = generation st, manifest_completed_at = marker_completed_at m,
                      manifest_created_at = now, manifest_total_bytes = sum_list (map final_size files),
                      manifest_files = files\<rparr>)))) of
        Inl e \<Rightarrow> (reg, f, Inl e)
      | Inr (m, manifest) \<Rightarrow>
          let f' = f\<lparr>manifest_file := Some manifest\<rparr>;
              (reg', marked) = run_edit
                (mark_completed (registry_node reg) (marker_completed_at m) ''final-output/manifest.json''
                   (sha256 (manifest_text manifest)) (manifest_total_bytes manifest) exit_code) now t reg
          in (reg', f', bind_result marked (\<lambda>_. Inr manifest)))"

definition load_manifest :: "task_files \<Rightarrow> final_output_manifest result" where
  "load_manifest f =
     (case manifest_file f of
        None \<Rightarrow> Inl (FileNotFoundError ''Final output manifest does not exist'')
      | Some m \<Rightarrow> Inr m)"

text \<open>
  \<open>resolve_output_file\<close>: the file a relative path names below the output directory, given by its
  parts; the directory holds no symbolic links.
\<close>

definition resolve_output_file ::
  "process_spec \<Rightarrow> string list \<Rightarrow> string list set \<Rightarrow> string \<Rightarrow> string list result" where
  "resolve_output_file spec base regular_files raw =
     (if output_relative_directory spec = None
      then Inl (FileNotFoundError ''Task has no final output directory'')
      else if \<not> safe_relative raw
      then Inl (completion_error ''Output path must be a safe relative path'')
      else let candidate = resolve [] (join_path base raw)
           in if candidate \<noteq> base \<and> take (length base) candidate \<noteq> base
              then Inl (completion_error ''Output path escapes the task output directory'')
              else if candidate \<notin> regular_files
              then Inl (FileNotFoundError ''Final output file does not exist'')
              else Inr candidate)"

section \<open>Laws\<close>

lemma load_marker_Inr_iff:
  "load_marker t spec f = Inr m \<longleftrightarrow> completion_relative_path spec \<noteq> None
    \<and> marker_file f = Some (MarkerRead m) \<and> marker_task_id m = t \<and> marker_success m"
  by (auto simp: load_marker_def split: option.splits marker_read.splits if_splits)

lemma run_edit_Inr:
  assumes "run_edit f written t reg = (reg', Inr st')" "get_state reg t = Inr st" "f st = Store st1"
  shows "reg' = write_state written st1 reg" "st' = st1\<lparr>updated_at := written\<rparr>"
  using assms by (simp_all add: run_edit_def)

lemma registry_inv_state:
  "registry_inv reg \<Longrightarrow> get_state reg t = Inr st \<Longrightarrow> state_task_id st = t \<and> state_ok (registry_node reg) st"
  by (auto simp: registry_inv_def get_state_Inr_iff)

lemma get_state_write:
  assumes "get_state reg t = Inr st" "state_task_id st1 = t"
  shows "get_state (write_state written st1 reg) t' =
    (if t' = t then Inr (st1\<lparr>updated_at := written\<rparr>) else get_state reg t')"
  using assms
  by (auto simp: get_state_def get_definition_def bind_result_Inr_iff split: option.splits)

definition completes :: "(string \<Rightarrow> string) \<Rightarrow> (final_output_manifest \<Rightarrow> string) \<Rightarrow> completion_marker
    \<Rightarrow> final_output_manifest \<Rightarrow> task_state \<Rightarrow> task_state \<Rightarrow> bool" where
  "completes sha256 manifest_text m manifest st st1 \<longleftrightarrow>
     task_status st1 = Completed \<and> pid (process st1) = None \<and> owner_node_id st1 = owner_node_id st
   \<and> generation st1 = generation st \<and> state_task_id st1 = state_task_id st \<and> accounting st1 = accounting st
   \<and> final_output st1 = \<lparr>completed_at = Some (marker_completed_at m),
         manifest_relative_path = Some ''final-output/manifest.json'',
         manifest_sha256 = Some (sha256 (manifest_text manifest)), output_bytes = manifest_total_bytes manifest\<rparr>"

text \<open>
  A completion is recorded exactly for an owned task whose marker is its own and reports success,
  and it is the manifest on disk that the record names.
\<close>

lemma finalize_writes:
  assumes "registry_inv reg" "finalize sha256 text t x now f reg = (reg', f', Inr manifest)"
  obtains d m st st1 where "get_definition reg t = Inr d" "load_marker t (runtime d) f = Inr m"
    "get_state reg t = Inr st" "owner_node_id st = registry_node reg" "reg' = write_state now st1 reg"
    "completes sha256 text m manifest st st1" "load_manifest f' = Inr manifest"
    "manifest_generation manifest = generation st"
    "manifest_total_bytes manifest = sum_list (map final_size (manifest_files manifest))"
proof -
  from assms(2) obtain d where d: "get_definition reg t = Inr d"
    by (auto simp: finalize_def split: sum.splits)
  from assms(2) d obtain m st files where m: "load_marker t (runtime d) f = Inr m"
    and st: "get_state reg t = Inr st" and files: "collect_outputs sha256 (runtime d) f = Inr files"
    by (auto simp: finalize_def bind_result_def split: sum.splits prod.splits)
  let ?man = "\<lparr>manifest_task_id = t, manifest_owner = owner_node_id st,
      manifest_generation = generation st, manifest_completed_at = marker_completed_at m,
      manifest_created_at = now, manifest_total_bytes = sum_list (map final_size files), manifest_files = files\<rparr>"
  let ?f = "mark_completed (registry_node reg) (marker_completed_at m) ''final-output/manifest.json''
      (sha256 (text ?man)) (manifest_total_bytes ?man) x"
  obtain r where r: "run_edit ?f now t reg = (reg', r)" "bind_result r (\<lambda>_. Inr ?man) = Inr manifest"
      "f' = f\<lparr>manifest_file := Some ?man\<rparr>"
    using assms(2) d m st files by (auto simp: finalize_def Let_def split: prod.splits)
  then obtain st' where st': "r = Inr st'" "manifest = ?man" by (cases r) simp_all
  have own: "owner_node_id st = registry_node reg"
    using r(1) st' st by (auto simp: run_edit_def mark_completed_def split: if_splits)
  then obtain st1 where st1: "?f st = Store st1" "completes sha256 text m ?man st st1"
    by (simp add: mark_completed_def completes_def)
  have "reg' = write_state now st1 reg" by (rule run_edit_Inr(1) [OF r(1) [unfolded st'(1)] st st1(1)])
  then show ?thesis using that d m st own st1(2) r(3) st'(2) by (simp add: load_manifest_def)
qed

lemma finalize_raises:
  assumes "finalize sha256 text t x now f reg = (reg', f', Inl e)"
  shows "reg' = reg"
proof -
  have "snd (run_edit (mark_completed n a b c d x) now t reg) = Inl e' \<Longrightarrow>
      fst (run_edit (mark_completed n a b c d x) now t reg) = reg" for n a b c d e'
    by (auto simp: run_edit_def mark_completed_def split: sum.splits if_splits)
  then show ?thesis using assms
    by (auto simp: finalize_def Let_def bind_result_def case_prod_unfold split: sum.splits)
qed

text \<open>A resolved output file lies below the output directory.\<close>

lemma resolve_output_file_inside:
  assumes "resolve_output_file spec base regular_files raw = Inr path" "''..'' \<notin> set base"
  shows "path = base @ path_parts raw" "path \<in> regular_files"
proof -
  have safe: "safe_relative raw" and p: "path = resolve [] (join_path base raw)" "path \<in> regular_files"
    using assms(1) by (auto simp: resolve_output_file_def Let_def split: if_splits)
  then show "path \<in> regular_files" by simp
  have "''..'' \<notin> set (base @ path_parts raw)" using safe assms(2) by (simp add: safe_relative_def)
  then show "path = base @ path_parts raw" using p(1) safe by (simp add: safe_join resolve_safe)
qed

end
