(* ===== verification/Local_Runtime.thy ===== *)
theory Local_Runtime
  imports Completion
begin

text \<open>
  \<open>magellan/runtime/local_process.py\<close>: starting, pausing, resuming, stopping and reconciling the
  processes of the tasks a node owns.  The operating system is the set of live process groups and
  of those stopped by a signal; what it decides by itself (the pid of a new process, the turns of
  the readiness loop, whether a signal finds the group, how a process reacts to \<open>SIGTERM\<close>) is an
  argument of the operation.  A process group is named by the pid of its leader.
\<close>

section \<open>State\<close>

record local_runtime =
  tasks :: registry
  handles :: "int dict"
  live :: "int set"
  suspended :: "int set"
  files_of :: "task_id \<Rightarrow> task_files"
  node_capabilities :: node_runtime_capabilities

definition runtime_node :: "local_runtime \<Rightarrow> node_id" where
  "runtime_node rt = registry_node (tasks rt)"

definition process_alive :: "local_runtime \<Rightarrow> task_state \<Rightarrow> bool" where
  "process_alive rt st = (case pid (process st) of None \<Rightarrow> False | Some p \<Rightarrow> p \<in> live rt)"

text \<open>A call on the registry, from inside the runtime.\<close>

definition on_tasks ::
  "(task_state \<Rightarrow> task_state edit) \<Rightarrow> datetime \<Rightarrow> task_id \<Rightarrow> local_runtime \<Rightarrow> local_runtime \<times> task_state result" where
  "on_tasks f now t rt =
     (let (reg, r) = run_edit f now t (tasks rt) in (rt\<lparr>tasks := reg\<rparr>, r))"

definition kill_group :: "int \<Rightarrow> local_runtime \<Rightarrow> local_runtime" where
  "kill_group p rt = rt\<lparr>live := live rt - {p}, suspended := suspended rt - {p}\<rparr>"

definition drop_handle :: "task_id \<Rightarrow> local_runtime \<Rightarrow> local_runtime" where
  "drop_handle t rt = rt\<lparr>handles := AList.delete t (handles rt)\<rparr>"

text \<open>\<open>str(exc)\<close> and \<open>type(exc).__name__\<close>.\<close>

fun error_message :: "error \<Rightarrow> string" where
  "error_message (KeyError m) = m"
| "error_message (ValueError m) = m"
| "error_message (RuntimeError m) = m"
| "error_message (FileNotFoundError m) = m"
| "error_message (ActivationOutcomeUnknownError m) = m"
| "error_message (CheckpointValidationError m) = m"
| "error_message (ArtifactValidationError m) = m"
| "error_message (OtherError m) = m"

fun error_type :: "error \<Rightarrow> string" where
  "error_type (KeyError m) = ''KeyError''"
| "error_type (ValueError m) = ''ValueError''"
| "error_type (RuntimeError m) = ''RuntimeError''"
| "error_type (FileNotFoundError m) = ''FileNotFoundError''"
| "error_type (ActivationOutcomeUnknownError m) = ''ActivationOutcomeUnknownError''"
| "error_type (CheckpointValidationError m) = ''CheckpointValidationError''"
| "error_type (ArtifactValidationError m) = ''ArtifactValidationError''"
| "error_type (OtherError m) = ''Exception''"

definition describe_error :: "error \<Rightarrow> string" where
  "describe_error e = error_type e @ '': '' @ error_message e"

section \<open>Start\<close>

text \<open>What the outside of the process table answers to one start.\<close>

record start_environment =
  env_artifacts :: "unit result"
  env_plan :: "launch_plan result"
  env_spawn :: "int result"
  env_polls :: "readiness_poll list"
  env_exit :: "int option"

text \<open>The message of an incompatible node leaves out the rendering of its reasons.\<close>

text \<open>The guards of \<open>start\<close>: an error, the state of a task already running, or leave to launch.\<close>

definition start_guard :: "local_runtime \<Rightarrow> task_id \<Rightarrow> task_definition \<Rightarrow> task_state \<Rightarrow> task_state result option" where
  "start_guard rt t d st =
     (if \<not> compatible (check_compatibility (compatibility (profile d)) (node_capabilities rt))
      then Some (Inl (RuntimeError ''Local node is incompatible with task runtime''))
      else if owner_node_id st \<noteq> runtime_node rt
      then Some (Inl (RuntimeError (''Cannot start '' @ t @ ''; owner is '' @ owner_node_id st)))
      else if task_status st = Completed
      then Some (Inl (RuntimeError (''Cannot start completed task '' @ t)))
      else if task_status st = Running \<and> process_alive rt st then Some (Inr st)
      else if task_status st = Paused \<and> process_alive rt st
      then Some (Inl (RuntimeError (''Cannot start paused task '' @ t @ ''; resume it instead'')))
      else None)"

definition prepare_files :: "process_spec \<Rightarrow> task_files \<Rightarrow> task_files" where
  "prepare_files spec f =
     f\<lparr>output_entries := (if output_relative_directory spec = None then output_entries f
                          else case output_entries f of None \<Rightarrow> Some [] | Some es \<Rightarrow> Some es),
       marker_file := (if completion_relative_path spec = None then marker_file f else None)\<rparr>"

definition launch ::
  "task_id \<Rightarrow> task_definition \<Rightarrow> launch_plan \<Rightarrow> int \<Rightarrow> start_environment \<Rightarrow> datetime \<Rightarrow> datetime
     \<Rightarrow> local_runtime \<Rightarrow> local_runtime \<times> task_state result" where
  "launch t d plan p env now written rt =
     (let rt1 = rt\<lparr>live := insert p (live rt), suspended := suspended rt - {p}\<rparr>
      in case wait_for_readiness t (runtime d) (env_polls env) of
           Inl e \<Rightarrow>
             (fst (on_tasks (mark_failed (describe_error e) (env_exit env) now) written t (kill_group p rt1)),
              Inl (RuntimeError (describe_error e)))
         | Inr _ \<Rightarrow>
             on_tasks (mark_running (runtime_node rt) p (Some (plan_adapter plan)) (Some (plan_command plan))
                 (plan_resumed plan) now) written t
               (rt1\<lparr>handles := dict_put t p (handles rt1)\<rparr>))"

definition start ::
  "task_id \<Rightarrow> start_environment \<Rightarrow> datetime \<Rightarrow> datetime \<Rightarrow> local_runtime \<Rightarrow> local_runtime \<times> task_state result" where
  "start t env now written rt =
     (case bind_result (env_artifacts env) (\<lambda>_. bind_result (get_definition (tasks rt) t) (\<lambda>d.
             bind_result (get_state (tasks rt) t) (\<lambda>st. Inr (d, st)))) of
        Inl e \<Rightarrow> (rt, Inl e)
      | Inr (d, st) \<Rightarrow>
          case start_guard rt t d st of
            Some r \<Rightarrow> (rt, r)
          | None \<Rightarrow>
              case env_plan env of
                Inl e \<Rightarrow> (rt\<lparr>files_of := (files_of rt)(t := (files_of rt t)
                            \<lparr>output_entries := output_entries (prepare_files (runtime d) (files_of rt t))\<rparr>)\<rparr>, Inl e)
              | Inr plan \<Rightarrow>
                  let rt1 = rt\<lparr>files_of := (files_of rt)(t := prepare_files (runtime d) (files_of rt t))\<rparr>
                  in case env_spawn env of
                       Inl e \<Rightarrow> (rt1, Inl e)
                     | Inr p \<Rightarrow> launch t d plan p env now written rt1)"

section \<open>Pause and resume\<close>

text \<open>\<open>found\<close>: the signal still finds the process group.\<close>

definition pause_process ::
  "task_id \<Rightarrow> datetime \<Rightarrow> datetime \<Rightarrow> datetime \<Rightarrow> string \<Rightarrow> bool \<Rightarrow> datetime \<Rightarrow> datetime \<Rightarrow> local_runtime
     \<Rightarrow> local_runtime \<times> task_state result" where
  "pause_process t paused resume resume_wall reason found now written rt =
     (case get_state (tasks rt) t of
        Inl e \<Rightarrow> (rt, Inl e)
      | Inr st \<Rightarrow>
          if owner_node_id st \<noteq> runtime_node rt
          then (rt, Inl (RuntimeError (''Cannot pause '' @ t @ ''; owner is '' @ owner_node_id st)))
          else if task_status st = Paused then (rt, Inr st)
          else if task_status st \<noteq> Running \<or> \<not> process_alive rt st
          then (rt, Inl (RuntimeError (''Cannot pause '' @ t @ ''; no live running process'')))
          else case pid (process st) of
            None \<Rightarrow> (rt, Inl (OtherError ''unreachable''))
          | Some p \<Rightarrow>
              if \<not> found
              then (fst (on_tasks (mark_failed ''Process disappeared while pausing'' None now) written t
                      (kill_group p rt)),
                    Inl (RuntimeError (''Process disappeared while pausing '' @ t)))
              else on_tasks (mark_paused (runtime_node rt) paused resume resume_wall reason now) written t
                     (rt\<lparr>suspended := insert p (suspended rt)\<rparr>))"

definition resume_process ::
  "task_id \<Rightarrow> datetime \<Rightarrow> datetime \<Rightarrow> local_runtime \<Rightarrow> local_runtime \<times> task_state result" where
  "resume_process t now written rt =
     (case get_state (tasks rt) t of
        Inl e \<Rightarrow> (rt, Inl e)
      | Inr st \<Rightarrow>
          if owner_node_id st \<noteq> runtime_node rt
          then (rt, Inl (RuntimeError (''Cannot resume '' @ t @ ''; owner is '' @ owner_node_id st)))
          else if task_status st = Running then (rt, Inr st)
          else if task_status st \<noteq> Paused
          then (rt, Inl (RuntimeError (''Cannot resume '' @ t @ ''; status is '' @ status_name (task_status st))))
          else case pid (process st) of
            None \<Rightarrow> (rt, Inl (RuntimeError (''Cannot resume '' @ t @ ''; status is '' @ status_name (task_status st))))
          | Some p \<Rightarrow>
              if p \<notin> live rt
              then (fst (on_tasks (mark_failed ''Paused process is no longer running'' None now) written t rt),
                    Inl (RuntimeError (''Paused process for '' @ t @ '' is no longer running'')))
              else on_tasks (mark_resumed (runtime_node rt) now) written t
                     (rt\<lparr>suspended := suspended rt - {p}\<rparr>))"

section \<open>Stop\<close>

text \<open>
  How the group reacts: \<open>AlreadyGone\<close> when \<open>SIGTERM\<close> finds nothing, \<open>Exits\<close> within the stop
  timeout, \<open>NeedsKill\<close> after it, \<open>KillDenied\<close> when \<open>SIGKILL\<close> fails on a process still alive.
\<close>

datatype stop_reaction = AlreadyGone | Exits | NeedsKill | KillDenied

definition stop_process ::
  "task_id \<Rightarrow> stop_reaction \<Rightarrow> datetime \<Rightarrow> local_runtime \<Rightarrow> local_runtime \<times> task_state result" where
  "stop_process t reaction written rt =
     (case bind_result (get_definition (tasks rt) t) (\<lambda>_. get_state (tasks rt) t) of
        Inl e \<Rightarrow> (rt, Inl e)
      | Inr st \<Rightarrow>
          if task_status st = Completed then (rt, Inr st)
          else case pid (process st) of
            None \<Rightarrow> on_tasks mark_stopped written t rt
          | Some p \<Rightarrow>
              let rt1 = (if task_status st = Paused then rt\<lparr>suspended := suspended rt - {p}\<rparr> else rt)
              in case reaction of
                   KillDenied \<Rightarrow> (rt1, Inl (OtherError ''PermissionError''))
                 | _ \<Rightarrow> on_tasks mark_stopped written t (drop_handle t (kill_group p rt1)))"

section \<open>Reconciliation\<close>

record reconcile_event =
  event_task :: task_id
  event_status :: task_status
  event_exit :: "int option"

text \<open>
  \<open>exit_of t\<close> is what \<open>poll\<close> answers for a task whose handle is held, \<open>synthesize\<close> what the Dendro
  completion synthesizer (outside this model) leaves of the task's files.
\<close>

definition looks_alive :: "(task_id \<Rightarrow> int option) \<Rightarrow> local_runtime \<Rightarrow> task_state \<Rightarrow> bool" where
  "looks_alive exit_of rt st =
     ((dict_get (handles rt) (state_task_id st) = None \<or> exit_of (state_task_id st) = None)
      \<and> process_alive rt st)"

definition reconcile_one ::
  "(string \<Rightarrow> string) \<Rightarrow> (final_output_manifest \<Rightarrow> string) \<Rightarrow> (task_id \<Rightarrow> int option)
     \<Rightarrow> (task_id \<Rightarrow> int option \<Rightarrow> task_files \<Rightarrow> task_files) \<Rightarrow> datetime \<Rightarrow> datetime \<Rightarrow> task_state \<Rightarrow> local_runtime
     \<Rightarrow> local_runtime \<times> reconcile_event option" where
  "reconcile_one sha256 manifest_text exit_of synthesize now written st rt =
     (let t = state_task_id st;
          x = (if dict_get (handles rt) t = None then None else exit_of t)
      in if owner_node_id st \<noteq> runtime_node rt \<or> task_status st \<notin> {Running, Paused} \<or> looks_alive exit_of rt st
         then (rt, None)
         else
           let rt1 = drop_handle t rt;
               f = synthesize t x (files_of rt t);
               failed = (\<lambda>message rt'. (fst (on_tasks (mark_failed message x now) written t rt'),
                               Some \<lparr>event_task = t, event_status = Failed, event_exit = x\<rparr>))
           in case get_definition (tasks rt) t of
                Inl e \<Rightarrow> failed (error_message e) (rt1\<lparr>files_of := (files_of rt)(t := f)\<rparr>)
              | Inr d \<Rightarrow>
                  if completion_marker_exists (runtime d) f
                  then
                    let (reg, f', r) = finalize sha256 manifest_text t x now f (tasks rt1);
                        rt2 = rt1\<lparr>tasks := reg, files_of := (files_of rt)(t := f')\<rparr>
                    in (case r of
                          Inl e \<Rightarrow> failed (''Completion validation failed: '' @ error_message e) rt2
                        | Inr _ \<Rightarrow> (rt2, Some \<lparr>event_task = t, event_status = Completed, event_exit = x\<rparr>))
                  else failed ''Persisted process is no longer running and no valid completion marker was written''
                    (rt1\<lparr>files_of := (files_of rt)(t := f)\<rparr>))"

fun reconcile_states ::
  "(string \<Rightarrow> string) \<Rightarrow> (final_output_manifest \<Rightarrow> string) \<Rightarrow> (task_id \<Rightarrow> int option)
     \<Rightarrow> (task_id \<Rightarrow> int option \<Rightarrow> task_files \<Rightarrow> task_files) \<Rightarrow> datetime \<Rightarrow> datetime \<Rightarrow> task_state list \<Rightarrow> local_runtime
     \<Rightarrow> local_runtime \<times> reconcile_event list" where
  "reconcile_states sha256 manifest_text exit_of synthesize now written [] rt = (rt, [])"
| "reconcile_states sha256 manifest_text exit_of synthesize now written (st # sts) rt =
     (let (rt1, e) = reconcile_one sha256 manifest_text exit_of synthesize now written st rt;
          (rt2, es) = reconcile_states sha256 manifest_text exit_of synthesize now written sts rt1
      in (rt2, (case e of None \<Rightarrow> es | Some e \<Rightarrow> e # es)))"

definition reconcile ::
  "(string \<Rightarrow> string) \<Rightarrow> (final_output_manifest \<Rightarrow> string) \<Rightarrow> (task_id \<Rightarrow> int option)
     \<Rightarrow> (task_id \<Rightarrow> int option \<Rightarrow> task_files \<Rightarrow> task_files) \<Rightarrow> datetime \<Rightarrow> datetime \<Rightarrow> local_runtime
     \<Rightarrow> local_runtime \<times> reconcile_event list result" where
  "reconcile sha256 manifest_text exit_of synthesize now written rt =
     (case all_states (tasks rt) of
        Inl e \<Rightarrow> (rt, Inl e)
      | Inr sts \<Rightarrow>
          let (rt', es) = reconcile_states sha256 manifest_text exit_of synthesize now written sts rt
          in (rt', Inr es))"

end
