(* ===== verification/Local_Runtime_Laws.thy ===== *)
theory Local_Runtime_Laws
  imports Local_Runtime
begin

text \<open>
  The processes of a node and the states its registry records: every live process belongs to
  exactly one owned task that is running or paused, and it is stopped by a signal exactly when the
  task is paused.  Each operation of the runtime keeps this.
\<close>

section \<open>The invariant\<close>

definition recorded :: "local_runtime \<Rightarrow> task_id \<Rightarrow> int \<Rightarrow> bool" where
  "recorded rt t p \<longleftrightarrow> (\<exists>st. get_state (tasks rt) t = Inr st \<and> pid (process st) = Some p)"

definition runtime_inv :: "local_runtime \<Rightarrow> bool" where
  "runtime_inv rt \<longleftrightarrow> registry_inv (tasks rt)
   \<and> (\<forall>p \<in> live rt. \<exists>t. recorded rt t p)
   \<and> (\<forall>t t' p. recorded rt t p \<longrightarrow> recorded rt t' p \<longrightarrow> t = t')
   \<and> (\<forall>t st p. get_state (tasks rt) t = Inr st \<longrightarrow> pid (process st) = Some p \<longrightarrow>
        task_status st \<in> {Running, Paused} \<and> (p \<in> live rt \<longrightarrow> (p \<in> suspended rt) = (task_status st = Paused)))"

text \<open>The change of one task's state together with the process table.\<close>

definition updated :: "local_runtime \<Rightarrow> datetime \<Rightarrow> task_state \<Rightarrow> int set \<Rightarrow> int set \<Rightarrow> local_runtime" where
  "updated rt written st L S = rt\<lparr>tasks := write_state written st (tasks rt), live := L, suspended := S\<rparr>"

lemma runtime_inv_cong:
  "tasks rt = tasks rt' \<Longrightarrow> live rt = live rt' \<Longrightarrow> suspended rt = suspended rt' \<Longrightarrow> runtime_inv rt = runtime_inv rt'"
  by (simp add: runtime_inv_def recorded_def)

lemma recorded_write:
  assumes "get_state (tasks rt) t = Inr st" "state_task_id st1 = t"
  shows "recorded (updated rt w st1 L S) t' p \<longleftrightarrow>
    (if t' = t then pid (process st1) = Some p else recorded rt t' p)"
  using get_state_write [OF assms] by (auto simp: recorded_def updated_def)

lemma runtime_inv_update:
  assumes inv: "runtime_inv rt" and st: "get_state (tasks rt) t = Inr st" and id: "state_task_id st1 = t"
    and ok: "state_ok (runtime_node rt) st1"
    and grow: "\<And>p. p \<in> L \<Longrightarrow> p \<in> live rt \<or> pid (process st1) = Some p"
    and keep: "\<And>p. pid (process st) = Some p \<Longrightarrow> p \<in> L \<Longrightarrow> pid (process st1) = Some p"
    and mine: "\<And>p. pid (process st1) = Some p \<Longrightarrow> task_status st1 \<in> {Running, Paused}
        \<and> (p \<in> L \<longrightarrow> (p \<in> S) = (task_status st1 = Paused)) \<and> (\<forall>t'. t' \<noteq> t \<longrightarrow> \<not> recorded rt t' p)"
    and others: "\<And>p. p \<in> L \<Longrightarrow> pid (process st1) \<noteq> Some p \<Longrightarrow> (p \<in> S) = (p \<in> suspended rt)"
  shows "runtime_inv (updated rt w st1 L S)"
proof -
  have reg: "registry_inv (write_state w st1 (tasks rt))"
    using inv ok by (simp add: runtime_inv_def registry_inv_write runtime_node_def)
  note rec = recorded_write [OF st id, of w L S]
  have "\<exists>t'. recorded (updated rt w st1 L S) t' p" if "p \<in> L" for p
  proof (cases "pid (process st1) = Some p")
    case False
    then have "p \<in> live rt" using grow [OF that] by blast
    then obtain t' where t': "recorded rt t' p" using inv by (auto simp: runtime_inv_def)
    then have "t' \<noteq> t" using keep [OF _ that] False st by (auto simp: recorded_def)
    then show ?thesis using t' rec by metis
  qed (use rec in metis)
  moreover have "a = b" if "recorded (updated rt w st1 L S) a p" "recorded (updated rt w st1 L S) b p" for a b p
  proof (cases "pid (process st1) = Some p")
    case True
    then show ?thesis using that mine [OF True] rec by metis
  next
    case False
    then have "recorded rt a p" "recorded rt b p" using that rec by metis+
    then show ?thesis using inv unfolding runtime_inv_def by blast
  qed
  moreover have "task_status st' \<in> {Running, Paused} \<and> (p \<in> L \<longrightarrow> (p \<in> S) = (task_status st' = Paused))"
    if g: "get_state (write_state w st1 (tasks rt)) t' = Inr st'" and p: "pid (process st') = Some p" for t' st' p
  proof (cases "t' = t")
    case True
    then show ?thesis using g p mine get_state_write [OF st id, of w t'] by auto
  next
    case False
    then have g': "get_state (tasks rt) t' = Inr st'" using g get_state_write [OF st id, of w t'] by simp
    then have np: "pid (process st1) \<noteq> Some p" using mine False p by (auto simp: recorded_def)
    have "task_status st' \<in> {Running, Paused} \<and> (p \<in> live rt \<longrightarrow> (p \<in> suspended rt) = (task_status st' = Paused))"
      using inv g' p unfolding runtime_inv_def by blast
    then show ?thesis using np grow others by blast
  qed
  ultimately show ?thesis using reg by (simp add: runtime_inv_def updated_def)
qed

lemma runtime_invD:
  assumes "runtime_inv rt" "get_state (tasks rt) t = Inr st"
  shows "state_task_id st = t" "state_ok (runtime_node rt) st"
    "pid (process st) = Some p \<Longrightarrow> task_status st \<in> {Running, Paused}"
    "pid (process st) = Some p \<Longrightarrow> p \<in> live rt \<Longrightarrow> (p \<in> suspended rt) = (task_status st = Paused)"
    "pid (process st) = Some p \<Longrightarrow> t' \<noteq> t \<Longrightarrow> \<not> recorded rt t' p"
proof -
  have reg: "registry_inv (tasks rt)" using assms(1) by (simp add: runtime_inv_def)
  show "state_task_id st = t" "state_ok (runtime_node rt) st"
    using registry_inv_state [OF reg assms(2)] by (simp_all add: runtime_node_def)
  show "pid (process st) = Some p \<Longrightarrow> task_status st \<in> {Running, Paused}"
    "pid (process st) = Some p \<Longrightarrow> p \<in> live rt \<Longrightarrow> (p \<in> suspended rt) = (task_status st = Paused)"
    using assms unfolding runtime_inv_def by blast+
  show "pid (process st) = Some p \<Longrightarrow> t' \<noteq> t \<Longrightarrow> \<not> recorded rt t' p"
    using assms unfolding runtime_inv_def recorded_def by blast
qed

section \<open>Halting edits\<close>

text \<open>
  An edit that leaves the task without a process is safe once its old process is gone.
\<close>

lemma halting_edit_inv:
  assumes inv: "runtime_inv rt" and st: "get_state (tasks rt) t = Inr st"
    and edit: "\<And>st. stores (\<lambda>st1. pid (process st1) = None \<and> state_task_id st1 = state_task_id st) (f st)"
    and ok: "\<And>st. state_ok (runtime_node rt) st \<Longrightarrow> stores (state_ok (runtime_node rt)) (f st)"
    and gone: "\<And>p. pid (process st) = Some p \<Longrightarrow> p \<notin> live rt"
  shows "runtime_inv (fst (on_tasks f w t rt))"
proof (cases "f st")
  case (Store st1)
  have st1: "pid (process st1) = None" "state_task_id st1 = t" "state_ok (runtime_node rt) st1"
    using edit [of st] ok [of st] runtime_invD(1,2) [OF inv st] Store by simp_all
  have "fst (on_tasks f w t rt) = updated rt w st1 (live rt) (suspended rt)"
    using st Store by (simp add: on_tasks_def run_edit_def updated_def)
  also have "runtime_inv \<dots>"
    by (rule runtime_inv_update [OF inv st st1(2,3)]) (use gone st1(1) in auto)
  finally show ?thesis .
qed (use inv st in \<open>simp_all add: on_tasks_def run_edit_def\<close>)

lemma mark_failed_halts: "stores (\<lambda>st1. pid (process st1) = None \<and> state_task_id st1 = state_task_id st) (mark_failed e x now st)"
  by (simp add: mark_failed_def)

lemma mark_stopped_halts: "stores (\<lambda>st1. pid (process st1) = None \<and> state_task_id st1 = state_task_id st) (mark_stopped st)"
  by (simp add: mark_stopped_def)

section \<open>Each operation\<close>

lemma kill_group_select [simp]:
  "tasks (kill_group p rt) = tasks rt" "live (kill_group p rt) = live rt - {p}"
  "suspended (kill_group p rt) = suspended rt - {p}"
  by (simp_all add: kill_group_def)

lemma drop_handle_select [simp]:
  "tasks (drop_handle t rt) = tasks rt" "live (drop_handle t rt) = live rt" "suspended (drop_handle t rt) = suspended rt"
  by (simp_all add: drop_handle_def)

lemma kill_group_inv: "runtime_inv rt \<Longrightarrow> runtime_inv (kill_group p rt)"
  unfolding runtime_inv_def recorded_def by auto

lemma drop_handle_inv: "runtime_inv rt \<Longrightarrow> runtime_inv (drop_handle t rt)"
  using runtime_inv_cong [of "drop_handle t rt" rt] by simp

lemma mark_failed_inv:
  assumes "runtime_inv rt" "get_state (tasks rt) t = Inr st" "\<And>p. pid (process st) = Some p \<Longrightarrow> p \<notin> live rt"
  shows "runtime_inv (fst (on_tasks (mark_failed e x now) w t rt))"
  by (rule halting_edit_inv [OF assms(1,2) mark_failed_halts halting_ok(2)]) (use assms(3) in auto)

lemma mark_stopped_inv:
  assumes "runtime_inv rt" "get_state (tasks rt) t = Inr st" "\<And>p. pid (process st) = Some p \<Longrightarrow> p \<notin> live rt"
  shows "runtime_inv (fst (on_tasks mark_stopped w t rt))"
  by (rule halting_edit_inv [OF assms(1,2) mark_stopped_halts halting_ok(1)]) (use assms(3) in auto)

text \<open>The operating system gives a new process a pid no live process and no record has.\<close>

definition fresh_pid :: "local_runtime \<Rightarrow> int \<Rightarrow> bool" where
  "fresh_pid rt p \<longleftrightarrow> p \<notin> live rt \<and> (\<forall>t. \<not> recorded rt t p)"

lemma on_tasks_store:
  assumes "get_state (tasks rt) t = Inr st" "f st = Store st1"
  shows "on_tasks f w t rt = (rt\<lparr>tasks := write_state w st1 (tasks rt)\<rparr>, Inr (st1\<lparr>updated_at := w\<rparr>))"
  using assms by (simp add: on_tasks_def run_edit_def)

lemma launch_inv:
  assumes inv: "runtime_inv rt" and st: "get_state (tasks rt) t = Inr st" and guard: "start_guard rt t d st = None"
    and fresh: "fresh_pid rt p"
  shows "runtime_inv (fst (launch t d plan p env now w rt))"
proof -
  have dead: "q \<notin> live rt" if "pid (process st) = Some q" for q
    using guard runtime_invD(3) [OF inv st that] that
    by (auto simp: start_guard_def process_alive_def split: if_splits)
  have own: "owner_node_id st = runtime_node rt" "task_status st \<noteq> Completed"
    using guard by (auto simp: start_guard_def split: if_splits)
  have id: "state_task_id st = t" "state_ok (runtime_node rt) st" using runtime_invD(1,2) [OF inv st] by simp_all
  show ?thesis
  proof (cases "wait_for_readiness t (runtime d) (env_polls env)")
    case (Inl e)
    let ?rt = "kill_group p (rt\<lparr>live := insert p (live rt), suspended := suspended rt - {p}\<rparr>)"
    have "runtime_inv ?rt"
      using inv fresh kill_group_inv [OF inv, of p] runtime_inv_cong [of ?rt "kill_group p rt"]
      by (simp add: fresh_pid_def)
    moreover have "get_state (tasks ?rt) t = Inr st" using st by simp
    ultimately have "runtime_inv (fst (on_tasks (mark_failed (describe_error e) (env_exit env) now) w t ?rt))"
      by (rule mark_failed_inv) (use dead in auto)
    then show ?thesis using Inl by (simp add: launch_def)
  next
    case (Inr u)
    let ?st1 = "st\<lparr>task_status := Running,
             process := \<lparr>pid = Some p, process_group_id = Some p,
                runtime_adapter = Some (plan_adapter plan), launch_command = plan_command plan,
                resumed_from_checkpoint = plan_resumed plan\<rparr>,
             started_at := (if started_at st = None then Some now else started_at st),
             last_accounted_at := Some now, task_state.pause := no_pause, last_error := None,
             last_exit_code := None,
             recovery := (recovery st)\<lparr>next_recovery_at := None, recovery_exhausted := False\<rparr>\<rparr>"
    let ?rt = "rt\<lparr>live := insert p (live rt), suspended := suspended rt - {p}, handles := dict_put t p (handles rt)\<rparr>"
    have e: "mark_running (runtime_node rt) p (Some (plan_adapter plan)) (Some (plan_command plan))
        (plan_resumed plan) now st = Store ?st1"
      using own by (simp add: mark_running_def)
    have ok: "state_ok (runtime_node rt) ?st1" using id(2) own(1) by (simp add: state_ok_def)
    have l: "launch t d plan p env now w rt = (?rt\<lparr>tasks := write_state w ?st1 (tasks rt)\<rparr>, Inr (?st1\<lparr>updated_at := w\<rparr>))"
      using Inr on_tasks_store [of ?rt t st _ ?st1 w] st e by (simp add: launch_def Let_def)
    have "runtime_inv (updated rt w ?st1 (insert p (live rt)) (suspended rt - {p}))"
      by (rule runtime_inv_update [OF inv st _ ok]) (use id fresh dead in \<open>auto simp: fresh_pid_def\<close>)
    then show ?thesis
      using l runtime_inv_cong [of "?rt\<lparr>tasks := write_state w ?st1 (tasks rt)\<rparr>"
        "updated rt w ?st1 (insert p (live rt)) (suspended rt - {p})"]
      by (simp add: updated_def)
  qed
qed

lemma files_select [simp]:
  "tasks (rt\<lparr>files_of := g\<rparr>) = tasks rt" "live (rt\<lparr>files_of := g\<rparr>) = live rt"
  "suspended (rt\<lparr>files_of := g\<rparr>) = suspended rt"
  by simp_all

lemma start_guard_files [simp]: "start_guard (rt\<lparr>files_of := g\<rparr>) t d st = start_guard rt t d st"
proof -
  have "process_alive (rt\<lparr>files_of := g\<rparr>) st = process_alive rt st"
    "runtime_node (rt\<lparr>files_of := g\<rparr>) = runtime_node rt"
    by (simp_all add: process_alive_def runtime_node_def split: option.split)
  then show ?thesis unfolding start_guard_def by simp
qed

lemma files_inv: "runtime_inv rt \<Longrightarrow> runtime_inv (rt\<lparr>files_of := g\<rparr>)"
  using runtime_inv_cong [of "rt\<lparr>files_of := g\<rparr>" rt] by simp

lemma start_inv:
  assumes inv: "runtime_inv rt" and fresh: "\<And>p. env_spawn env = Inr p \<Longrightarrow> fresh_pid rt p"
  shows "runtime_inv (fst (start t env now w rt))"
proof (cases "bind_result (env_artifacts env) (\<lambda>_. bind_result (get_definition (tasks rt) t) (\<lambda>d.
             bind_result (get_state (tasks rt) t) (\<lambda>st. Inr (d, st))))")
  case (Inr ds)
  obtain d st where ds: "ds = (d, st)" by fastforce
  then have st: "get_state (tasks rt) t = Inr st" using Inr by (auto simp: bind_result_Inr_iff)
  show ?thesis
  proof (cases "start_guard rt t d st")
    case None
    show ?thesis
    proof (cases "env_plan env")
      case (Inl e)
      then show ?thesis using Inr ds None inv by (simp add: start_def files_inv)
    next
      case plan: (Inr plan)
      let ?rt = "rt\<lparr>files_of := (files_of rt)(t := prepare_files (runtime d) (files_of rt t))\<rparr>"
      show ?thesis
      proof (cases "env_spawn env")
        case (Inl e)
        then show ?thesis using Inr ds None plan inv by (simp add: start_def files_inv)
      next
        case spawn: (Inr p)
        have "fresh_pid ?rt p" using fresh [OF spawn] by (simp add: fresh_pid_def recorded_def)
        moreover have "start_guard ?rt t d st = None"
          using None by simp
        moreover have "get_state (tasks ?rt) t = Inr st" using st by simp
        ultimately have "runtime_inv (fst (launch t d plan p env now w ?rt))"
          using launch_inv [OF files_inv [OF inv]] by blast
        then show ?thesis using Inr ds None plan spawn by (simp add: start_def)
      qed
    qed
  qed (use Inr ds inv in \<open>simp add: start_def\<close>)
qed (use inv in \<open>simp add: start_def\<close>)

lemma pause_inv:
  assumes inv: "runtime_inv rt"
  shows "runtime_inv (fst (pause_process t a b c reason found now w rt))"
proof (cases "get_state (tasks rt) t")
  case (Inr st)
  note st = this
  have id: "state_task_id st = t" "state_ok (runtime_node rt) st" using runtime_invD(1,2) [OF inv st] by simp_all
  show ?thesis
  proof (cases "owner_node_id st = runtime_node rt \<and> task_status st = Running \<and> process_alive rt st")
    case True
    then obtain p where p: "pid (process st) = Some p" "p \<in> live rt"
      by (auto simp: process_alive_def split: option.splits)
    show ?thesis
    proof (cases found)
      case False
      have "runtime_inv (fst (on_tasks (mark_failed ''Process disappeared while pausing'' None now) w t (kill_group p rt)))"
        by (rule mark_failed_inv [OF kill_group_inv [OF inv]]) (use st p in auto)
      then show ?thesis using st True p False by (simp add: pause_process_def)
    next
      case found: True
      let ?st1 = "st\<lparr>task_status := Paused, task_state.pause := \<lparr>paused_at = Some a, resume_at = Some b, resume_wall_at = Some c,
          pause_reason = Some reason\<rparr>, state_last_pause_at := Some a, pause_count := pause_count st + 1,
          last_accounted_at := Some now\<rparr>"
      have e: "mark_paused (runtime_node rt) a b c reason now st = Store ?st1"
        using True p by (simp add: mark_paused_def)
      have ok: "state_ok (runtime_node rt) ?st1" using id(2) True p by (simp add: state_ok_def)
      have "fst (pause_process t a b c reason found now w rt) = updated rt w ?st1 (live rt) (insert p (suspended rt))"
        using st True p found on_tasks_store [of "rt\<lparr>suspended := insert p (suspended rt)\<rparr>" t st _ ?st1 w] e
        by (simp add: pause_process_def updated_def)
      also have "runtime_inv \<dots>"
        by (rule runtime_inv_update [OF inv st _ ok]) (use id p runtime_invD(5) [OF inv st] in auto)
      finally show ?thesis .
    qed
  qed (use inv st in \<open>auto simp: pause_process_def split: option.split\<close>)
qed (use inv in \<open>simp add: pause_process_def\<close>)

lemma resume_inv:
  assumes inv: "runtime_inv rt"
  shows "runtime_inv (fst (resume_process t now w rt))"
proof (cases "get_state (tasks rt) t")
  case (Inr st)
  note st = this
  have id: "state_task_id st = t" "state_ok (runtime_node rt) st" using runtime_invD(1,2) [OF inv st] by simp_all
  show ?thesis
  proof (cases "owner_node_id st = runtime_node rt \<and> task_status st = Paused")
    case True
    then obtain p where p: "pid (process st) = Some p" using id(2) by (auto simp: state_ok_def)
    show ?thesis
    proof (cases "p \<in> live rt")
      case False
      have "runtime_inv (fst (on_tasks (mark_failed ''Paused process is no longer running'' None now) w t rt))"
        by (rule mark_failed_inv [OF inv st]) (use p False in auto)
      then show ?thesis using st True p False by (simp add: resume_process_def)
    next
      case alive: True
      let ?st1 = "st\<lparr>task_status := Running, task_state.pause := no_pause, last_accounted_at := Some now\<rparr>"
      have e: "mark_resumed (runtime_node rt) now st = Store ?st1" using True p by (simp add: mark_resumed_def)
      have ok: "state_ok (runtime_node rt) ?st1" using id(2) True by (simp add: state_ok_def)
      have "fst (resume_process t now w rt) = updated rt w ?st1 (live rt) (suspended rt - {p})"
        using st True p alive on_tasks_store [of "rt\<lparr>suspended := suspended rt - {p}\<rparr>" t st _ ?st1 w] e
        by (simp add: resume_process_def updated_def)
      also have "runtime_inv \<dots>"
        by (rule runtime_inv_update [OF inv st _ ok]) (use id p runtime_invD(5) [OF inv st] in auto)
      finally show ?thesis .
    qed
  qed (use inv st in \<open>auto simp: resume_process_def split: option.split\<close>)
qed (use inv in \<open>simp add: resume_process_def\<close>)

text \<open>A group that cannot be killed is left as it is: only then is the answer an error.\<close>

lemma stop_inv:
  assumes inv: "runtime_inv rt" and reaction: "reaction \<noteq> KillDenied"
  shows "runtime_inv (fst (stop_process t reaction w rt))"
proof (cases "bind_result (get_definition (tasks rt) t) (\<lambda>_. get_state (tasks rt) t)")
  case (Inr st)
  then have st: "get_state (tasks rt) t = Inr st" by (auto simp: bind_result_Inr_iff)
  show ?thesis
  proof (cases "task_status st = Completed")
    case False
    show ?thesis
    proof (cases "pid (process st)")
      case None
      then show ?thesis using Inr False mark_stopped_inv [OF inv st] by (simp add: stop_process_def)
    next
      case (Some p)
      let ?rt1 = "if task_status st = Paused then rt\<lparr>suspended := suspended rt - {p}\<rparr> else rt"
      let ?rt = "drop_handle t (kill_group p ?rt1)"
      have "runtime_inv ?rt"
        using runtime_inv_cong [of ?rt "kill_group p rt"] kill_group_inv [OF inv] by auto
      moreover have "get_state (tasks ?rt) t = Inr st" using st by simp
      ultimately have "runtime_inv (fst (on_tasks mark_stopped w t ?rt))"
        by (rule mark_stopped_inv) (use Some in auto)
      then show ?thesis using Inr False Some reaction
        by (cases reaction) (simp_all add: stop_process_def Let_def)
    qed
  qed (use inv Inr in \<open>simp add: stop_process_def\<close>)
qed (use inv in \<open>simp add: stop_process_def\<close>)

section \<open>Reconciliation\<close>

text \<open>A handle only answers \<open>poll\<close> with an exit code once its process is gone.\<close>

definition exits_sound :: "(task_id \<Rightarrow> int option) \<Rightarrow> local_runtime \<Rightarrow> task_id \<Rightarrow> bool" where
  "exits_sound exit_of rt t \<longleftrightarrow>
     (\<forall>p. dict_get (handles rt) t \<noteq> None \<longrightarrow> exit_of t \<noteq> None \<longrightarrow> recorded rt t p \<longrightarrow> p \<notin> live rt)"

text \<open>What the treatment of task \<open>t\<close> leaves alone.\<close>

definition leaves_others :: "task_id \<Rightarrow> local_runtime \<Rightarrow> local_runtime \<Rightarrow> bool" where
  "leaves_others t rt rt' \<longleftrightarrow> live rt' = live rt \<and> suspended rt' = suspended rt
   \<and> registry_node (tasks rt') = registry_node (tasks rt) \<and> definitions (tasks rt') = definitions (tasks rt)
   \<and> (\<forall>t'. t' \<noteq> t \<longrightarrow> get_state (tasks rt') t' = get_state (tasks rt) t'
        \<and> dict_get (handles rt') t' = dict_get (handles rt) t')"

text \<open>The task is settled: if it still has a process, that process is live.\<close>

definition settled :: "local_runtime \<Rightarrow> task_id \<Rightarrow> bool" where
  "settled rt t \<longleftrightarrow> (\<forall>p. recorded rt t p \<longrightarrow> p \<in> live rt)"

lemma dict_get_delete: "t' \<noteq> t \<Longrightarrow> dict_get (AList.delete t d) t' = dict_get d t'"
  by (simp add: dict_get_def AList.delete_conv')

lemma closing_write:
  assumes inv: "runtime_inv rt" and st: "get_state (tasks rt) t = Inr st"
    and st1: "state_task_id st1 = t" "pid (process st1) = None" "state_ok (runtime_node rt) st1"
    and dead: "\<forall>p. pid (process st) = Some p \<longrightarrow> p \<notin> live rt"
    and rt': "tasks rt' = write_state w st1 (tasks rt)" "live rt' = live rt" "suspended rt' = suspended rt"
      "\<And>t'. t' \<noteq> t \<Longrightarrow> dict_get (handles rt') t' = dict_get (handles rt) t'"
  shows "runtime_inv rt' \<and> leaves_others t rt rt' \<and> settled rt' t"
proof -
  have "runtime_inv (updated rt w st1 (live rt) (suspended rt))"
    by (rule runtime_inv_update [OF inv st st1(1,3)]) (use st1 dead in auto)
  then have "runtime_inv rt'"
    using runtime_inv_cong [of rt' "updated rt w st1 (live rt) (suspended rt)"] rt' by (simp add: updated_def)
  then show ?thesis
    using rt' st1 get_state_write [OF st st1(1), of w] by (auto simp: leaves_others_def settled_def recorded_def)
qed

lemma failing_write:
  assumes inv: "runtime_inv rt" and st: "get_state (tasks rt) t = Inr st"
    and dead: "\<forall>p. pid (process st) = Some p \<longrightarrow> p \<notin> live rt"
    and rt0: "tasks rt0 = tasks rt" "live rt0 = live rt" "suspended rt0 = suspended rt"
      "\<And>t'. t' \<noteq> t \<Longrightarrow> dict_get (handles rt0) t' = dict_get (handles rt) t'"
  shows "runtime_inv (fst (on_tasks (mark_failed e x now) w t rt0))
    \<and> leaves_others t rt (fst (on_tasks (mark_failed e x now) w t rt0))
    \<and> settled (fst (on_tasks (mark_failed e x now) w t rt0)) t"
proof -
  obtain st1 where e: "mark_failed e x now st = Store st1" and st1: "state_task_id st1 = state_task_id st" "pid (process st1) = None"
    by (simp add: mark_failed_def)
  have id: "state_task_id st = t" "state_ok (runtime_node rt) st" using runtime_invD(1,2) [OF inv st] by simp_all
  have "state_ok (runtime_node rt) st1" using halting_ok(2) [OF id(2), of e x now] e by simp
  then show ?thesis
    using closing_write [OF inv st _ st1(2) _ dead, of "fst (on_tasks (mark_failed e x now) w t rt0)" w]
      on_tasks_store [of rt0 t st _ st1 w] st e st1 id rt0 by simp
qed

lemma completing_write:
  assumes inv: "runtime_inv rt" and st: "get_state (tasks rt) t = Inr st"
    and dead: "\<forall>p. pid (process st) = Some p \<longrightarrow> p \<notin> live rt"
    and fin: "finalize sha256 mtext t x now f (tasks rt) = (reg, f', Inr manifest)"
    and rt': "tasks rt' = reg" "live rt' = live rt" "suspended rt' = suspended rt"
      "\<And>t'. t' \<noteq> t \<Longrightarrow> dict_get (handles rt') t' = dict_get (handles rt) t'"
  shows "runtime_inv rt' \<and> leaves_others t rt rt' \<and> settled rt' t"
proof -
  have reg: "registry_inv (tasks rt)" using inv by (simp add: runtime_inv_def)
  obtain m st' st1 where w: "get_state (tasks rt) t = Inr st'" "reg = write_state now st1 (tasks rt)"
      "completes sha256 mtext m manifest st' st1"
    by (rule finalize_writes [OF reg fin])
  have id: "state_task_id st = t" "state_ok (runtime_node rt) st" using runtime_invD(1,2) [OF inv st] by simp_all
  have "state_task_id st1 = t" "pid (process st1) = None" "state_ok (runtime_node rt) st1"
    using w st id by (simp_all add: completes_def state_ok_def)
  then show ?thesis using closing_write [OF inv st _ _ _ dead] w(2) rt' by blast
qed

lemma reconcile_one_ok:
  assumes inv: "runtime_inv rt" and st: "get_state (tasks rt) (state_task_id st) = Inr st"
    and exits: "exits_sound exit_of rt (state_task_id st)"
  shows "runtime_inv (fst (reconcile_one sha mtext exit_of syn now w st rt))
    \<and> leaves_others (state_task_id st) rt (fst (reconcile_one sha mtext exit_of syn now w st rt))
    \<and> settled (fst (reconcile_one sha mtext exit_of syn now w st rt)) (state_task_id st)"
proof -
  let ?t = "state_task_id st" and ?R = "reconcile_one sha mtext exit_of syn now w st rt"
  let ?x = "if dict_get (handles rt) ?t = None then None else exit_of ?t" and ?f = "syn ?t (if dict_get (handles rt) ?t = None then None else exit_of ?t) (files_of rt ?t)"
  have ok: "state_ok (runtime_node rt) st" using runtime_invD(2) [OF inv st] .
  show ?thesis
  proof (cases "owner_node_id st \<noteq> runtime_node rt \<or> task_status st \<notin> {Running, Paused} \<or> looks_alive exit_of rt st")
    case True
    then have "fst ?R = rt" by (auto simp: reconcile_one_def Let_def)
    moreover have "settled rt ?t"
      using True ok st runtime_invD(3) [OF inv st]
      by (auto simp: settled_def recorded_def looks_alive_def process_alive_def state_ok_def split: option.splits)
    ultimately show ?thesis using inv by (simp add: leaves_others_def)
  next
    case False
    then have dead: "\<forall>p. pid (process st) = Some p \<longrightarrow> p \<notin> live rt"
      using st exits unfolding looks_alive_def process_alive_def exits_sound_def recorded_def by auto
    have R: "?R = (let rt1 = drop_handle ?t rt;
               failed = (\<lambda>message rt'. (fst (on_tasks (mark_failed message ?x now) w ?t rt'),
                               Some \<lparr>event_task = ?t, event_status = Failed, event_exit = ?x\<rparr>))
           in case get_definition (tasks rt) ?t of
                Inl e \<Rightarrow> failed (error_message e) (rt1\<lparr>files_of := (files_of rt)(?t := ?f)\<rparr>)
              | Inr d \<Rightarrow>
                  if completion_marker_exists (runtime d) ?f
                  then
                    let (reg, f', r) = finalize sha mtext ?t ?x now ?f (tasks rt1);
                        rt2 = rt1\<lparr>tasks := reg, files_of := (files_of rt)(?t := f')\<rparr>
                    in (case r of
                          Inl e \<Rightarrow> failed (''Completion validation failed: '' @ error_message e) rt2
                        | Inr _ \<Rightarrow> (rt2, Some \<lparr>event_task = ?t, event_status = Completed, event_exit = ?x\<rparr>))
                  else failed ''Persisted process is no longer running and no valid completion marker was written''
                    (rt1\<lparr>files_of := (files_of rt)(?t := ?f)\<rparr>))"
      using False unfolding reconcile_one_def Let_def by (simp only: if_False)
    obtain reg f' r where fin: "finalize sha mtext ?t ?x now ?f (tasks rt) = (reg, f', r)" by (rule prod_cases3)
    note fw = failing_write [OF inv st dead] and cw = completing_write [OF inv st dead]
    have fails: ?thesis
      if "fst ?R = fst (on_tasks (mark_failed message ?x now) w ?t (drop_handle ?t rt\<lparr>files_of := g\<rparr>))" for message g
      unfolding that by (rule fw) (simp_all add: drop_handle_def dict_get_delete)
    show ?thesis
    proof (cases "get_definition (tasks rt) ?t")
      case (Inl e)
      show ?thesis by (rule fails) (unfold R Let_def Inl sum.case fst_conv, rule refl)
    next
      case d: (Inr d)
      show ?thesis
      proof (cases "completion_marker_exists (runtime d) ?f")
        case False
        show ?thesis by (rule fails) (unfold R Let_def d sum.case if_not_P [OF False] fst_conv, rule refl)
      next
        case marker: True
        have R1: "?R = (case r of
             Inl e \<Rightarrow> (fst (on_tasks (mark_failed (''Completion validation failed: '' @ error_message e) ?x now) w ?t
                 (drop_handle ?t rt\<lparr>tasks := reg, files_of := (files_of rt)(?t := f')\<rparr>)),
               Some \<lparr>event_task = ?t, event_status = Failed, event_exit = ?x\<rparr>)
           | Inr _ \<Rightarrow> (drop_handle ?t rt\<lparr>tasks := reg, files_of := (files_of rt)(?t := f')\<rparr>,
               Some \<lparr>event_task = ?t, event_status = Completed, event_exit = ?x\<rparr>))"
          unfolding R Let_def d sum.case if_P [OF marker] drop_handle_select fin prod.case ..
        show ?thesis
        proof (cases r)
          case (Inl e)
          then have "reg = tasks rt" using finalize_raises fin by blast
          then have "drop_handle ?t rt\<lparr>tasks := reg, files_of := (files_of rt)(?t := f')\<rparr>
              = drop_handle ?t rt\<lparr>files_of := (files_of rt)(?t := f')\<rparr>" by (simp add: drop_handle_def)
          then show ?thesis by (intro fails) (simp add: R1 Inl)
        next
          case (Inr manifest)
          have "fst ?R = drop_handle ?t rt\<lparr>tasks := reg, files_of := (files_of rt)(?t := f')\<rparr>"
            by (simp add: R1 Inr)
          then show ?thesis by (intro cw [OF fin [unfolded Inr]]) (simp_all add: drop_handle_def dict_get_delete)
        qed
      qed
    qed
  qed
qed

lemma leaves_others_simps:
  assumes "leaves_others t rt rt'"
  shows "live rt' = live rt" "t' \<noteq> t \<Longrightarrow> get_state (tasks rt') t' = get_state (tasks rt) t'"
    "t' \<noteq> t \<Longrightarrow> recorded rt' t' p = recorded rt t' p"
    "t' \<noteq> t \<Longrightarrow> settled rt' t' = settled rt t'"
    "t' \<noteq> t \<Longrightarrow> exits_sound exit_of rt t' \<Longrightarrow> exits_sound exit_of rt' t'"
    "definitions (tasks rt') = definitions (tasks rt)"
  using assms by (simp_all add: leaves_others_def recorded_def settled_def exits_sound_def)

lemma reconcile_states_ok:
  assumes "runtime_inv rt" "\<forall>st \<in> set sts. get_state (tasks rt) (state_task_id st) = Inr st"
    "distinct (map state_task_id sts)" "\<forall>st \<in> set sts. exits_sound exit_of rt (state_task_id st)"
  shows "runtime_inv (fst (reconcile_states sha mtext exit_of syn now w sts rt))
    \<and> live (fst (reconcile_states sha mtext exit_of syn now w sts rt)) = live rt
    \<and> definitions (tasks (fst (reconcile_states sha mtext exit_of syn now w sts rt))) = definitions (tasks rt)
    \<and> (\<forall>t. t \<in> state_task_id ` set sts \<or> settled rt t \<longrightarrow>
         settled (fst (reconcile_states sha mtext exit_of syn now w sts rt)) t)"
  using assms
proof (induction sts arbitrary: rt)
  case (Cons st sts)
  let ?rt = "fst (reconcile_one sha mtext exit_of syn now w st rt)" and ?t = "state_task_id st"
  have one: "runtime_inv ?rt" "leaves_others ?t rt ?rt" "settled ?rt ?t"
    using reconcile_one_ok [of rt st exit_of] Cons.prems by simp_all
  have ne: "state_task_id s \<noteq> ?t" if "s \<in> set sts" for s using that Cons.prems(3) by (auto simp: image_iff)
  note IH = Cons.IH [of ?rt]
  have "\<forall>st \<in> set sts. get_state (tasks ?rt) (state_task_id st) = Inr st"
    "\<forall>st \<in> set sts. exits_sound exit_of ?rt (state_task_id st)"
    using Cons.prems ne leaves_others_simps [OF one(2)] by simp_all
  from IH [OF one(1) this(1) _ this(2)] Cons.prems(3)
  have rest: "runtime_inv (fst (reconcile_states sha mtext exit_of syn now w sts ?rt))"
    "live (fst (reconcile_states sha mtext exit_of syn now w sts ?rt)) = live ?rt"
    "definitions (tasks (fst (reconcile_states sha mtext exit_of syn now w sts ?rt))) = definitions (tasks ?rt)"
    "\<forall>t. t \<in> state_task_id ` set sts \<or> settled ?rt t \<longrightarrow> settled (fst (reconcile_states sha mtext exit_of syn now w sts ?rt)) t"
    by simp_all
  have "settled rt t \<Longrightarrow> settled ?rt t" for t
    using one(3) leaves_others_simps(4) [OF one(2), of t] by (cases "t = ?t") simp_all
  then show ?case using rest one leaves_others_simps(1,6) [OF one(2)]
    by (auto simp: Let_def case_prod_unfold)
qed simp

lemma all_states_ids:
  assumes "registry_inv reg" "all_states reg = Inr sts"
  shows "\<forall>st \<in> set sts. get_state reg (state_task_id st) = Inr st" "distinct (map state_task_id sts)"
    "state_task_id ` set sts = fst ` set (definitions reg)"
proof -
  have c: "collect_results (map (get_state reg) ts) = Inr xs \<Longrightarrow>
      map state_task_id xs = ts \<and> (\<forall>st \<in> set xs. get_state reg (state_task_id st) = Inr st)" for ts xs
  proof (induction ts arbitrary: xs)
    case (Cons t ts)
    then obtain y ys where "get_state reg t = Inr y" "collect_results (map (get_state reg) ts) = Inr ys" "xs = y # ys"
      by (auto simp: bind_result_Inr_iff)
    then show ?case using Cons.IH [of ys] registry_inv_state [OF assms(1)] by auto
  qed simp
  note r = c [of "sorted_ids reg" sts]
  then show "\<forall>st \<in> set sts. get_state reg (state_task_id st) = Inr st"
    using assms(2) by (simp add: all_states_def)
  have m: "map state_task_id sts = sorted_ids reg" using r assms(2) by (simp add: all_states_def)
  have "dict_ok (definitions reg)" using assms(1) by (simp add: registry_inv_def)
  then show "distinct (map state_task_id sts)" unfolding m by (simp add: sorted_ids_def dict_ok_def)
  have "set (map state_task_id sts) = fst ` set (definitions reg)" unfolding m by (simp add: sorted_ids_def)
  then show "state_task_id ` set sts = fst ` set (definitions reg)" by simp
qed

lemma recorded_known: "recorded rt t p \<Longrightarrow> t \<in> fst ` set (definitions (tasks rt))"
  by (auto simp: recorded_def get_state_Inr_iff dest!: dict_get_SomeD) (metis fst_conv image_eqI)

lemma reconcile_ok:
  assumes inv: "runtime_inv rt" and exits: "\<forall>t. exits_sound exit_of rt t"
  shows "\<exists>es. reconcile sha mtext exit_of syn now w rt = (fst (reconcile sha mtext exit_of syn now w rt), Inr es)"
    and "runtime_inv (fst (reconcile sha mtext exit_of syn now w rt))"
    and "live (fst (reconcile sha mtext exit_of syn now w rt)) = live rt"
    and "settled (fst (reconcile sha mtext exit_of syn now w rt)) t"
proof -
  have reg: "registry_inv (tasks rt)" using inv by (simp add: runtime_inv_def)
  obtain sts where sts: "all_states (tasks rt) = Inr sts" using all_states_total [OF reg] by blast
  let ?rt = "fst (reconcile_states sha mtext exit_of syn now w sts rt)"
  have r: "reconcile sha mtext exit_of syn now w rt = (?rt, Inr (snd (reconcile_states sha mtext exit_of syn now w sts rt)))"
    by (simp add: reconcile_def sts case_prod_unfold Let_def)
  note ids = all_states_ids [OF reg sts]
  note ok = reconcile_states_ok [OF inv ids(1,2), of exit_of sha mtext syn now w]
  have e: "\<forall>st \<in> set sts. exits_sound exit_of rt (state_task_id st)" using exits by blast
  show "\<exists>es. reconcile sha mtext exit_of syn now w rt = (fst (reconcile sha mtext exit_of syn now w rt), Inr es)"
    by (simp add: r)
  show "runtime_inv (fst (reconcile sha mtext exit_of syn now w rt))"
    "live (fst (reconcile sha mtext exit_of syn now w rt)) = live rt"
    using ok [OF e] by (simp_all add: r)
  show "settled (fst (reconcile sha mtext exit_of syn now w rt)) t"
  proof (cases "t \<in> fst ` set (definitions (tasks rt))")
    case True
    then show ?thesis using ok [OF e] ids(3) by (simp add: r)
  next
    case False
    then show ?thesis using ok [OF e] recorded_known [of ?rt t] by (auto simp: r settled_def)
  qed
qed

end
