(* ===== verification/Runtime_Accounting.thy ===== *)
theory Runtime_Accounting
  imports Local_Runtime_Laws Cluster_Graph
begin

text \<open>
  \<open>magellan/runtime/clock.py\<close>, \<open>runtime/progress.py\<close> and \<open>runtime/accounting.py\<close>: the accelerated
  clock, the progress record of a task, and the settling of the time, cost and carbon a task has
  used since it was last accounted.  The window average and point value of the carbon store, the
  measured power of a task and the refresh of a Dendro progress file are arguments.
\<close>

section \<open>Clock\<close>

datatype clock_mode = Wall | Trace

record clock_policy =
  clock_mode :: clock_mode
  trace_start :: "datetime option"
  trace_rate :: real

record magellan_clock =
  clock_policy :: clock_policy
  real_start :: datetime
  trace_origin :: "datetime option"

definition create_clock :: "clock_policy \<Rightarrow> datetime \<Rightarrow> magellan_clock result" where
  "create_clock p wall =
     (if clock_mode p = Trace
      then (case trace_start p of
              None \<Rightarrow> Inl (ValueError ''trace_start_utc is required when clock mode is 'trace' '')
            | Some s \<Rightarrow> Inr \<lparr>clock_policy = p, real_start = wall, trace_origin = Some s\<rparr>)
      else Inr \<lparr>clock_policy = p, real_start = wall, trace_origin = None\<rparr>)"

definition trace_seconds_per_real_second :: "magellan_clock \<Rightarrow> real" where
  "trace_seconds_per_real_second c =
     (if clock_mode (clock_policy c) = Wall then 1 else trace_rate (clock_policy c))"

definition evaluation_seconds_for_wall_seconds :: "magellan_clock \<Rightarrow> real \<Rightarrow> real" where
  "evaluation_seconds_for_wall_seconds c wall_seconds = max 0 wall_seconds * trace_seconds_per_real_second c"

definition wall_seconds_for_evaluation_seconds :: "magellan_clock \<Rightarrow> real \<Rightarrow> real" where
  "wall_seconds_for_evaluation_seconds c evaluation_seconds =
     max 0 evaluation_seconds / trace_seconds_per_real_second c"

definition clock_now :: "magellan_clock \<Rightarrow> datetime \<Rightarrow> datetime result" where
  "clock_now c wall =
     (if clock_mode (clock_policy c) = Wall then Inr wall
      else case trace_origin c of
        None \<Rightarrow> Inl (OtherError ''AssertionError'')
      | Some origin \<Rightarrow> Inr (origin + (wall - real_start c) * trace_rate (clock_policy c)))"

text \<open>The validated clocks: the rate of a policy is positive.\<close>

definition wf_clock :: "magellan_clock \<Rightarrow> bool" where
  "wf_clock c \<longleftrightarrow> 0 < trace_rate (clock_policy c)
   \<and> (clock_mode (clock_policy c) = Trace \<longrightarrow> trace_origin c \<noteq> None)"

section \<open>Progress records\<close>

record progress_snapshot =
  format_version :: int
  snapshot_task_id :: task_id
  completed_units :: real
  total_units :: "real option"
  snapshot_updated_at :: datetime

definition validate_progress :: "progress_snapshot \<Rightarrow> progress_snapshot result" where
  "validate_progress s =
     (if format_version s < 1 \<or> snapshot_task_id s = [] \<or> completed_units s < 0
        \<or> (\<exists>u \<in> set_option (total_units s). u \<le> 0)
      then Inl (ValueError ''validation error'')
      else if \<exists>u \<in> set_option (total_units s). u < completed_units s
      then Inl (ValueError ''completed_units cannot exceed total_units'')
      else Inr s)"

text \<open>
  The file holds nothing, something that is not a record (\<open>Inl\<close>, the exception of the JSON or
  field parser), or a record.
\<close>

definition load_progress :: "progress_snapshot result option \<Rightarrow> task_id \<Rightarrow> progress_snapshot option result" where
  "load_progress file t =
     (case file of
        None \<Rightarrow> Inr None
      | Some raw \<Rightarrow> bind_result (bind_result raw validate_progress) (\<lambda>s.
          if snapshot_task_id s \<noteq> t
          then Inl (ValueError (''Progress record task_id='' @ snapshot_task_id s @ '' does not match '' @ t))
          else Inr (Some s)))"

section \<open>Progress of a task\<close>

text \<open>\<open>refreshed\<close>: the outcome of the Dendro refresh; \<open>progress_file\<close>: what the file holds after it.\<close>

record progress_source =
  refreshed :: "unit result"
  progress_file :: "progress_snapshot result option"

record progress_report =
  report_remaining :: "real option"
  report_completed :: real
  report_total :: "real option"
  report_fraction :: "real option"
  report_rate :: "real option"
  report_at :: datetime

definition updated_rate :: "real \<Rightarrow> task_accounting \<Rightarrow> progress_snapshot \<Rightarrow> real option" where
  "updated_rate alpha a s =
     (case (progress_completed_units a, progress_updated_at a) of
        (Some units, Some at_time) \<Rightarrow>
          let elapsed = snapshot_updated_at s - at_time;
              delta = completed_units s - units
          in if elapsed > 0 \<and> delta > 0
             then (case progress_rate a of
                     None \<Rightarrow> Some (delta / elapsed)
                   | Some r \<Rightarrow> Some (alpha * (delta / elapsed) + (1 - alpha) * r))
             else progress_rate a
      | _ \<Rightarrow> progress_rate a)"

definition remaining_estimate ::
  "magellan_clock \<Rightarrow> task_accounting \<Rightarrow> real option \<Rightarrow> progress_snapshot \<Rightarrow> real option" where
  "remaining_estimate c a rate s =
     (case total_units s of
        None \<Rightarrow> estimated_remaining_seconds a
      | Some u \<Rightarrow>
          let remaining_units = max 0 (u - completed_units s)
          in if remaining_units = 0 then Some 0
             else case rate of
               None \<Rightarrow> estimated_remaining_seconds a
             | Some r \<Rightarrow> if r > 0 then Some (evaluation_seconds_for_wall_seconds c (remaining_units / r))
                         else estimated_remaining_seconds a)"

definition progress_report_of ::
  "magellan_clock \<Rightarrow> real \<Rightarrow> task_accounting \<Rightarrow> progress_snapshot \<Rightarrow> progress_report" where
  "progress_report_of c alpha a s =
     \<lparr>report_remaining = remaining_estimate c a (updated_rate alpha a s) s,
      report_completed = completed_units s, report_total = total_units s,
      report_fraction = map_option (\<lambda>u. min 1 (completed_units s / u)) (total_units s),
      report_rate = updated_rate alpha a s, report_at = snapshot_updated_at s\<rparr>"

definition progress_update ::
  "magellan_clock \<Rightarrow> real \<Rightarrow> task_definition \<Rightarrow> progress_source \<Rightarrow> task_id \<Rightarrow> task_accounting
     \<Rightarrow> progress_report option result" where
  "progress_update c alpha d src t a =
     (if progress_relative_path (runtime d) = None then Inr None
      else bind_result (refreshed src) (\<lambda>_. bind_result (load_progress (progress_file src) t) (\<lambda>snapshot.
        Inr (case snapshot of
               None \<Rightarrow> None
             | Some s \<Rightarrow>
                 if (\<exists>at_time \<in> set_option (progress_updated_at a). snapshot_updated_at s \<le> at_time) then None
                 else Some (progress_report_of c alpha a s)))))"

section \<open>Settling\<close>

record accounting_environment =
  environment_clock :: magellan_clock
  ema_alpha :: real
  site :: node_config
  carbon_average :: "node_id \<Rightarrow> datetime \<Rightarrow> real \<Rightarrow> real result"
  carbon_value_at :: "node_id \<Rightarrow> datetime \<Rightarrow> real result"
  measured_power :: "(task_id \<Rightarrow> real \<Rightarrow> real) option"
  progress_of :: "task_id \<Rightarrow> progress_source"

definition empty_delta :: accounting_delta where
  "empty_delta = \<lparr>runtime_seconds = 0, paused_seconds = 0, migration_seconds = 0, compute_cost = 0,
     transfer_cost = 0, compute_carbon = 0, transfer_carbon = 0, delta_accounted_at = None,
     delta_remaining = None, delta_completed_units = None, delta_total_units = None,
     delta_fraction = None, delta_rate = None, delta_progress_at = None\<rparr>"

definition with_progress :: "progress_report option \<Rightarrow> accounting_delta \<Rightarrow> accounting_delta" where
  "with_progress report d =
     (case report of
        None \<Rightarrow> d
      | Some r \<Rightarrow> d\<lparr>delta_remaining := report_remaining r, delta_completed_units := Some (report_completed r),
                    delta_total_units := report_total r, delta_fraction := report_fraction r,
                    delta_rate := report_rate r, delta_progress_at := Some (report_at r)\<rparr>)"

definition task_power :: "accounting_environment \<Rightarrow> task_id \<Rightarrow> task_profile \<Rightarrow> real" where
  "task_power env t p = (case measured_power env of None \<Rightarrow> power_kw p | Some f \<Rightarrow> f t (power_kw p))"

text \<open>The charge for the interval since the last settlement.\<close>

definition usage ::
  "accounting_environment \<Rightarrow> datetime \<Rightarrow> real \<Rightarrow> task_definition \<Rightarrow> task_state \<Rightarrow> bool \<Rightarrow> accounting_delta result" where
  "usage env trace_time elapsed d st alive =
     (if task_status st = Running \<and> alive
      then let hours = seconds_to_hours elapsed;
               spent = empty_delta\<lparr>runtime_seconds := elapsed,
                         compute_cost := compute_price_usd_per_hour (site env) * hours\<rparr>
           in if elapsed > 0
              then bind_result (carbon_average env (node_identity (site env)) (trace_time - elapsed) elapsed)
                     (\<lambda>intensity. Inr (spent\<lparr>compute_carbon :=
                        task_power env (state_task_id st) (profile d) * pue (site env) * hours * intensity\<rparr>))
              else Inr spent
      else if task_status st = Paused \<and> alive then Inr (empty_delta\<lparr>paused_seconds := elapsed\<rparr>)
      else Inr empty_delta)"

definition settle_task ::
  "accounting_environment \<Rightarrow> datetime \<Rightarrow> datetime \<Rightarrow> datetime \<Rightarrow> task_id \<Rightarrow> local_runtime
     \<Rightarrow> local_runtime \<times> task_state result" where
  "settle_task env wall trace_time written t rt =
     (case bind_result (get_state (tasks rt) t) (\<lambda>st.
             bind_result (get_definition (tasks rt) t) (\<lambda>d. Inr (st, d))) of
        Inl e \<Rightarrow> (rt, Inl e)
      | Inr (st, d) \<Rightarrow>
          if owner_node_id st \<noteq> node_identity (site env) then (rt, Inr st)
          else case progress_update (environment_clock env) (ema_alpha env) d (progress_of env t) t (accounting st) of
            Inl e \<Rightarrow> (rt, Inl e)
          | Inr report \<Rightarrow>
              case last_accounted_at st of
                None \<Rightarrow> on_tasks (record_accounting (with_progress report
                          (empty_delta\<lparr>delta_accounted_at := Some wall\<rparr>))) written t rt
              | Some last_wall \<Rightarrow>
                  let elapsed = evaluation_seconds_for_wall_seconds (environment_clock env)
                                  (max 0 (wall - last_wall))
                  in case usage env trace_time elapsed d st (process_alive rt st) of
                       Inl e \<Rightarrow> (rt, Inl e)
                     | Inr spent \<Rightarrow> on_tasks (record_accounting (with_progress report
                         (spent\<lparr>delta_accounted_at := Some wall\<rparr>))) written t rt)"

text \<open>The charge of a migration, on the state of the source.\<close>

definition record_migration ::
  "accounting_environment \<Rightarrow> cluster_config \<Rightarrow> edge_metrics result \<Rightarrow> migration_policy \<Rightarrow> task_id \<Rightarrow> node_id \<Rightarrow> int
     \<Rightarrow> real \<Rightarrow> datetime \<Rightarrow> datetime \<Rightarrow> local_runtime \<Rightarrow> local_runtime \<times> task_state result" where
  "record_migration env c edge p t destination transfer_bytes wall_seconds trace_time now rt =
     (case bind_result (get_node c destination) (\<lambda>n. bind_result edge (\<lambda>e.
           bind_result (carbon_value_at env (node_identity (site env)) trace_time) (\<lambda>source_intensity.
           bind_result (carbon_value_at env (node_identity n) trace_time) (\<lambda>destination_intensity.
             let gb = bytes_to_gb transfer_bytes;
                 energy = gb * (network_energy_kwh_per_gb_base p + network_energy_kwh_per_gb_km p * distance_km e)
             in Inr (empty_delta\<lparr>
                  migration_seconds := evaluation_seconds_for_wall_seconds (environment_clock env) wall_seconds,
                  transfer_cost := gb * egress_price_usd_per_gb (site env),
                  transfer_carbon := energy * (source_intensity + destination_intensity) / 2,
                  delta_accounted_at := Some now\<rparr>))))) of
        Inl e \<Rightarrow> (rt, Inl e)
      | Inr delta \<Rightarrow> on_tasks (record_accounting delta) now t rt)"

text \<open>One scan: an exception of one settlement ends it.\<close>

definition settles :: "node_id \<Rightarrow> task_state \<Rightarrow> bool" where
  "settles node st \<longleftrightarrow> owner_node_id st = node \<and> task_status st \<in> {Running, Paused}"

fun settle_all ::
  "accounting_environment \<Rightarrow> datetime \<Rightarrow> datetime \<Rightarrow> datetime \<Rightarrow> task_id list \<Rightarrow> local_runtime
     \<Rightarrow> local_runtime \<times> nat result" where
  "settle_all env wall trace_time written [] rt = (rt, Inr 0)"
| "settle_all env wall trace_time written (t # ts) rt =
     (case settle_task env wall trace_time written t rt of
        (rt1, Inl e) \<Rightarrow> (rt1, Inl e)
      | (rt1, Inr _) \<Rightarrow>
          let (rt2, r) = settle_all env wall trace_time written ts rt1
          in (rt2, bind_result r (\<lambda>n. Inr (Suc n))))"

definition accounting_run_once ::
  "accounting_environment \<Rightarrow> datetime \<Rightarrow> datetime \<Rightarrow> local_runtime \<Rightarrow> local_runtime \<times> nat result" where
  "accounting_run_once env wall written rt =
     (case bind_result (clock_now (environment_clock env) wall) (\<lambda>trace_time.
             bind_result (all_states (tasks rt)) (\<lambda>sts. Inr (trace_time, sts))) of
        Inl e \<Rightarrow> (rt, Inl e)
      | Inr (trace_time, sts) \<Rightarrow>
          settle_all env wall trace_time written
            (map state_task_id (filter (settles (node_identity (site env))) sts)) rt)"

end
