(* ===== verification/Runtime_Services.thy ===== *)
theory Runtime_Services
  imports Runtime_Accounting
begin

text \<open>
  \<open>magellan/runtime/recovery.py\<close> and \<open>magellan/runtime/pause.py\<close>: the scans that restart failed
  tasks with an exponential back-off and that resume paused tasks whose deadline has passed.  What
  the outside answers to one task of a scan (the checkpoint validation, the start of a process,
  the reads of the clock) is an argument per task.
\<close>

section \<open>Recovery\<close>

record recovery_policy =
  recovery_enabled :: bool
  max_restart_attempts :: int
  initial_backoff_seconds :: real
  max_backoff_seconds :: real

definition wf_recovery_policy :: "recovery_policy \<Rightarrow> bool" where
  "wf_recovery_policy p \<longleftrightarrow> 0 \<le> max_restart_attempts p \<and> 0 \<le> initial_backoff_seconds p
   \<and> 0 \<le> max_backoff_seconds p"

definition backoff_seconds :: "recovery_policy \<Rightarrow> int \<Rightarrow> real" where
  "backoff_seconds p attempts = min (max_backoff_seconds p) (initial_backoff_seconds p * 2 ^ nat (max 0 attempts))"

record recovery_environment =
  checkpoint_check :: "unit result"
  start_env :: start_environment
  wall_now :: datetime
  wall_written :: datetime

fun is_checkpoint_error :: "error \<Rightarrow> bool" where
  "is_checkpoint_error (CheckpointValidationError m) = True"
| "is_checkpoint_error e = False"

definition exhausted_message :: "task_state \<Rightarrow> string" where
  "exhausted_message st = ''Automatic recovery exhausted after '' @ int_str (recovery_attempts (recovery st))
     @ '' attempts: '' @ (case last_error st of None \<Rightarrow> ''None'' | Some e \<Rightarrow> e)"

text \<open>Restarting: the exception of \<open>begin_recovery\<close> escapes, the one of \<open>start\<close> is swallowed.\<close>

definition restart ::
  "recovery_environment \<Rightarrow> task_id \<Rightarrow> local_runtime \<Rightarrow> local_runtime \<times> bool result" where
  "restart env t rt =
     (case on_tasks (begin_recovery (runtime_node rt)) (wall_written env) t rt of
        (rt1, Inl e) \<Rightarrow> (rt1, Inl e)
      | (rt1, Inr _) \<Rightarrow> (fst (start t (start_env env) (wall_now env) (wall_written env) rt1), Inr True))"

definition recover_one ::
  "recovery_policy \<Rightarrow> datetime \<Rightarrow> recovery_environment \<Rightarrow> task_id \<Rightarrow> local_runtime \<Rightarrow> local_runtime \<times> bool result" where
  "recover_one p now env t rt =
     (case get_state (tasks rt) t of
        Inl e \<Rightarrow> (rt, Inl e)
      | Inr st \<Rightarrow>
          if owner_node_id st \<noteq> runtime_node rt \<or> task_status st \<noteq> Failed \<or> recovery_exhausted (recovery st)
          then (rt, Inr False)
          else
            let record_edit = (\<lambda>f. (fst (on_tasks f (wall_written env) t rt), Inr True))
            in if \<not> recovery_enabled p
               then record_edit (mark_recovery_exhausted ''Automatic recovery is disabled'')
               else if max_restart_attempts p \<le> recovery_attempts (recovery st)
               then record_edit (mark_recovery_exhausted (exhausted_message st))
               else case next_recovery_at (recovery st) of
                 None \<Rightarrow> record_edit (schedule_recovery (now + backoff_seconds p (recovery_attempts (recovery st))))
               | Some due \<Rightarrow>
                   if now < due then (rt, Inr False)
                   else case checkpoint_check env of
                     Inl e \<Rightarrow>
                       if is_checkpoint_error e
                       then record_edit (mark_recovery_exhausted
                              (''No valid checkpoint for recovery: '' @ error_message e))
                       else (rt, Inl e)
                   | Inr _ \<Rightarrow> restart env t rt)"

fun recover_all ::
  "recovery_policy \<Rightarrow> datetime \<Rightarrow> (task_id \<Rightarrow> recovery_environment) \<Rightarrow> task_id list \<Rightarrow> local_runtime
     \<Rightarrow> local_runtime \<times> bool result" where
  "recover_all p now env [] rt = (rt, Inr False)"
| "recover_all p now env (t # ts) rt =
     (case recover_one p now (env t) t rt of
        (rt1, Inl e) \<Rightarrow> (rt1, Inl e)
      | (rt1, Inr progressed) \<Rightarrow>
          let (rt2, r) = recover_all p now env ts rt1
          in (rt2, bind_result r (\<lambda>more. Inr (progressed \<or> more))))"

definition recovery_run_once ::
  "recovery_policy \<Rightarrow> datetime \<Rightarrow> (task_id \<Rightarrow> recovery_environment) \<Rightarrow> local_runtime
     \<Rightarrow> local_runtime \<times> bool result" where
  "recovery_run_once p now env rt =
     (case failed_owned_task_ids (tasks rt) (runtime_node rt) of
        Inl e \<Rightarrow> (rt, Inl e)
      | Inr ids \<Rightarrow> recover_all p now env ids rt)"

section \<open>Pause\<close>

text \<open>\<open>wall\<close> is the read of the wall clock inside \<open>pause\<close>; \<open>accounted\<close> is the service a resume settles
  with, if any, and \<open>check_wall\<close> the read the deadline is compared with.\<close>

definition pause_task ::
  "magellan_clock \<Rightarrow> task_id \<Rightarrow> datetime \<Rightarrow> real \<Rightarrow> string \<Rightarrow> datetime \<Rightarrow> bool \<Rightarrow> datetime \<Rightarrow> datetime \<Rightarrow> local_runtime
     \<Rightarrow> local_runtime \<times> task_state result" where
  "pause_task c t at_time idle reason wall found now written rt =
     (if idle < 0 then (rt, Inl (ValueError ''idle_seconds must be non-negative''))
      else pause_process t at_time (at_time + idle) (wall + wall_seconds_for_evaluation_seconds c idle)
             reason found now written rt)"

record resume_environment =
  accounted :: "accounting_environment option"
  check_wall :: datetime
  resume_wall :: datetime
  resume_now :: datetime
  resume_written :: datetime

definition resume_task :: "resume_environment \<Rightarrow> task_id \<Rightarrow> local_runtime \<Rightarrow> local_runtime \<times> task_state result" where
  "resume_task env t rt =
     (case (case accounted env of
              None \<Rightarrow> (rt, Inr ())
            | Some acc \<Rightarrow>
                (case clock_now (environment_clock acc) (resume_wall env) of
                   Inl e \<Rightarrow> (rt, Inl e)
                 | Inr trace_time \<Rightarrow>
                     (let (rt1, r) = settle_task acc (resume_wall env) trace_time (resume_written env) t rt
                      in (rt1, bind_result r (\<lambda>_. Inr ()))))) of
        (rt1, Inl e) \<Rightarrow> (rt1, Inl e)
      | (rt1, Inr _) \<Rightarrow> resume_process t (resume_now env) (resume_written env) rt1)"

text \<open>The wall deadline decides when there is one, else the deadline in evaluation time.\<close>

definition pause_due :: "datetime \<Rightarrow> datetime \<Rightarrow> task_state \<Rightarrow> bool" where
  "pause_due wall now st =
     (case resume_wall_at (task_state.pause st) of
        Some deadline \<Rightarrow> deadline \<le> wall
      | None \<Rightarrow> (case resume_at (task_state.pause st) of Some deadline \<Rightarrow> deadline \<le> now | None \<Rightarrow> False))"

definition resume_one ::
  "datetime \<Rightarrow> resume_environment \<Rightarrow> task_id \<Rightarrow> local_runtime \<Rightarrow> local_runtime \<times> nat result" where
  "resume_one now env t rt =
     (case get_state (tasks rt) t of
        Inl e \<Rightarrow> (rt, Inl e)
      | Inr st \<Rightarrow>
          if \<not> pause_due (check_wall env) now st then (rt, Inr 0)
          else case resume_task env t rt of
            (rt1, Inr _) \<Rightarrow> (rt1, Inr 1)
          | (rt1, Inl e) \<Rightarrow>
              (case on_tasks (mark_failed (''Pause resume failed: '' @ describe_error e) None (resume_now env))
                      (resume_written env) t rt1 of
                 (rt2, Inl e') \<Rightarrow> (rt2, Inl e')
               | (rt2, Inr _) \<Rightarrow> (rt2, Inr 0)))"

fun resume_all ::
  "datetime \<Rightarrow> (task_id \<Rightarrow> resume_environment) \<Rightarrow> task_id list \<Rightarrow> local_runtime
     \<Rightarrow> local_runtime \<times> nat result" where
  "resume_all now env [] rt = (rt, Inr 0)"
| "resume_all now env (t # ts) rt =
     (case resume_one now (env t) t rt of
        (rt1, Inl e) \<Rightarrow> (rt1, Inl e)
      | (rt1, Inr n) \<Rightarrow>
          let (rt2, r) = resume_all now env ts rt1
          in (rt2, bind_result r (\<lambda>m. Inr (n + m))))"

definition pause_run_once ::
  "datetime \<Rightarrow> (task_id \<Rightarrow> resume_environment) \<Rightarrow> local_runtime \<Rightarrow> local_runtime \<times> nat result" where
  "pause_run_once now env rt =
     (case paused_owned_task_ids (tasks rt) (runtime_node rt) of
        Inl e \<Rightarrow> (rt, Inl e)
      | Inr ids \<Rightarrow> resume_all now env ids rt)"

end
