(* ===== verification/Pause_Laws.thy ===== *)
theory Pause_Laws
  imports Runtime_Services_Laws
begin

text \<open>
  The pause scan: every owned paused task whose deadline has passed is running again afterwards, or
  failed when its process is gone; the other tasks are left alone.
\<close>

section \<open>The tasks a scan visits\<close>

lemma owned_ids_with_total:
  assumes "registry_inv reg"
  obtains ids where "owned_ids_with s reg node = Inr ids" "distinct ids"
    "\<And>t. t \<in> set ids \<longleftrightarrow> (\<exists>st. get_state reg t = Inr st \<and> owner_node_id st = node \<and> task_status st = s)"
proof -
  obtain sts where sts: "all_states reg = Inr sts" using all_states_total [OF assms] by blast
  note ids = all_states_ids [OF assms sts]
  let ?P = "\<lambda>st. owner_node_id st = node \<and> task_status st = s"
  have "owned_ids_with s reg node = Inr (map state_task_id (filter ?P sts))"
    by (simp add: owned_ids_with_def sts)
  moreover have "distinct (map state_task_id (filter ?P sts))" using ids(2) by (rule distinct_map_filter)
  moreover have "t \<in> set (map state_task_id (filter ?P sts)) \<longleftrightarrow> (\<exists>st. get_state reg t = Inr st \<and> ?P st)" for t
  proof
    assume "t \<in> set (map state_task_id (filter ?P sts))"
    then show "\<exists>st. get_state reg t = Inr st \<and> ?P st" using ids(1) by auto
  next
    assume "\<exists>st. get_state reg t = Inr st \<and> ?P st"
    then obtain st where st: "get_state reg t = Inr st" "?P st" by blast
    then have "t \<in> fst ` set (definitions reg)"
      by (auto simp: get_state_Inr_iff dest!: dict_get_SomeD) (metis fst_conv image_eqI)
    then obtain st' where st': "st' \<in> set sts" "state_task_id st' = t" using ids(3) by (metis imageE)
    then have "get_state reg t = Inr st'" using ids(1) by blast
    then show "t \<in> set (map state_task_id (filter ?P sts))" using st st' by auto
  qed
  ultimately show thesis by (rule that)
qed

section \<open>Resuming one task\<close>

definition resumed :: "local_runtime \<Rightarrow> task_id \<Rightarrow> bool" where
  "resumed rt t \<longleftrightarrow> (\<exists>st p. get_state (tasks rt) t = Inr st \<and> task_status st = Running
     \<and> pid (process st) = Some p \<and> p \<in> live rt \<and> p \<notin> suspended rt)"

definition given_up :: "local_runtime \<Rightarrow> task_id \<Rightarrow> bool" where
  "given_up rt t \<longleftrightarrow> (\<exists>st. get_state (tasks rt) t = Inr st \<and> task_status st = Failed \<and> pid (process st) = None)"

definition resume_sources :: "resume_environment \<Rightarrow> local_runtime \<Rightarrow> task_id \<Rightarrow> bool" where
  "resume_sources env rt t \<longleftrightarrow> (\<forall>acc d. accounted env = Some acc \<longrightarrow> get_definition (tasks rt) t = Inr d \<longrightarrow>
     is_ok (clock_now (environment_clock acc) (resume_wall env)) \<and> settlement_sources acc t d)"

lemma get_state_definition: "get_state reg t = Inr st \<Longrightarrow> \<exists>d. get_definition reg t = Inr d"
  by (auto simp: get_state_def bind_result_Inr_iff)

lemma settle_task_answers:
  assumes inv: "runtime_inv rt" and st: "get_state (tasks rt) t = Inr st" and d: "get_definition (tasks rt) t = Inr d"
    and sources: "settlement_sources env t d"
  shows "is_ok (snd (settle_task env wall tt w t rt))"
proof -
  obtain report where report: "progress_update (environment_clock env) (ema_alpha env) d (progress_of env t) t (accounting st) = Inr report"
    using progress_update_answers [OF sources] by blast
  have edit: "is_ok (snd (on_tasks (record_accounting delta) w t rt))" for delta
    using record_accounting_edit(4) [OF inv st] by blast
  show ?thesis
  proof (cases "last_accounted_at st")
    case None
    then show ?thesis using st d report edit by (simp add: settle_task_def)
  next
    case (Some since)
    obtain spent where "usage env tt (evaluation_seconds_for_wall_seconds (environment_clock env) (max 0 (wall - since))) d st
        (process_alive rt st) = Inr spent"
      using usage_answers [OF sources] by blast
    then show ?thesis using st d report edit Some by (simp add: settle_task_def)
  qed
qed

lemma mark_failed_effect:
  assumes st: "get_state (tasks rt) t = Inr st" and id: "state_task_id st = t"
  shows "own_change t rt (fst (on_tasks (mark_failed e x now) w t rt))"
    "given_up (fst (on_tasks (mark_failed e x now) w t rt)) t"
    "is_ok (snd (on_tasks (mark_failed e x now) w t rt))"
proof -
  let ?st1 = "(halt st)\<lparr>task_status := Failed, last_error := Some e, last_exit_code := x,
       recovery := (recovery st)\<lparr>last_failure_at := Some now, next_recovery_at := None\<rparr>\<rparr>"
  have store: "mark_failed e x now st = Store ?st1" by (simp add: mark_failed_def)
  have u: "on_tasks (mark_failed e x now) w t rt
      = (rt\<lparr>tasks := write_state w ?st1 (tasks rt)\<rparr>, Inr (?st1\<lparr>updated_at := w\<rparr>))"
    by (rule on_tasks_store [OF st]) (rule store)
  show "own_change t rt (fst (on_tasks (mark_failed e x now) w t rt))"
    by (rule own_change_edit [OF st]) (use id store in simp)
  show "given_up (fst (on_tasks (mark_failed e x now) w t rt)) t"
    unfolding u using get_state_write [OF st, of ?st1 w t] id by (simp add: given_up_def)
  show "is_ok (snd (on_tasks (mark_failed e x now) w t rt))" by (simp add: u)
qed

lemma resume_process_ok:
  assumes inv: "runtime_inv rt" and st: "get_state (tasks rt) t = Inr st" and s: "task_status st = Paused"
    and mine: "owner_node_id st = runtime_node rt" and p: "pid (process st) = Some p"
  shows "own_change t rt (fst (resume_process t now w rt))"
    "p \<in> live rt \<Longrightarrow> resumed (fst (resume_process t now w rt)) t \<and> is_ok (snd (resume_process t now w rt))"
    "p \<notin> live rt \<Longrightarrow> given_up (fst (resume_process t now w rt)) t \<and> \<not> is_ok (snd (resume_process t now w rt))"
proof -
  note id = runtime_invD(1) [OF inv st]
  let ?st1 = "st\<lparr>task_status := Running, task_state.pause := no_pause, last_accounted_at := Some now\<rparr>"
  let ?rt1 = "rt\<lparr>suspended := suspended rt - {p}\<rparr>"
  let ?f = "mark_failed ''Paused process is no longer running'' None now"
  have st1: "get_state (tasks ?rt1) t = Inr st" using st by simp
  have gone: "resume_process t now w rt = (fst (on_tasks ?f w t rt),
      Inl (RuntimeError (''Paused process for '' @ t @ '' is no longer running'')))" if "p \<notin> live rt"
    using st s mine p that by (simp add: resume_process_def)
  have cont: "resume_process t now w rt = on_tasks (mark_resumed (runtime_node rt) now) w t ?rt1" if "p \<in> live rt"
    using st s mine p that by (simp add: resume_process_def)
  have store: "mark_resumed (runtime_node rt) now st = Store ?st1" using s mine p by (simp add: mark_resumed_def)
  have u: "on_tasks (mark_resumed (runtime_node rt) now) w t ?rt1
      = (?rt1\<lparr>tasks := write_state w ?st1 (tasks ?rt1)\<rparr>, Inr (?st1\<lparr>updated_at := w\<rparr>))"
    by (rule on_tasks_store [OF st1]) (rule store)
  show "own_change t rt (fst (resume_process t now w rt))"
  proof (cases "p \<in> live rt")
    case True
    have "own_change t ?rt1 (fst (on_tasks (mark_resumed (runtime_node rt) now) w t ?rt1))"
      by (rule own_change_edit [OF st1]) (use store id in simp)
    then show ?thesis by (auto simp: cont [OF True] own_change_def)
  next
    case False
    then show ?thesis using mark_failed_effect(1) [OF st id] by (simp add: gone [OF False])
  qed
  show "resumed (fst (resume_process t now w rt)) t \<and> is_ok (snd (resume_process t now w rt))" if "p \<in> live rt"
    unfolding cont [OF that] u using get_state_write [OF st, of ?st1 w t] id p that by (simp add: resumed_def)
  show "given_up (fst (resume_process t now w rt)) t \<and> \<not> is_ok (snd (resume_process t now w rt))" if "p \<notin> live rt"
    unfolding gone [OF that] using mark_failed_effect(2) [OF st id] by simp
qed

lemma resume_task_ok:
  assumes inv: "runtime_inv rt" and st: "get_state (tasks rt) t = Inr st" and s: "task_status st = Paused"
    and mine: "owner_node_id st = runtime_node rt" and p: "pid (process st) = Some p"
    and sources: "resume_sources env rt t"
  shows "runtime_inv (fst (resume_task env t rt)) \<and> own_change t rt (fst (resume_task env t rt))
    \<and> (p \<in> live rt \<longrightarrow> resumed (fst (resume_task env t rt)) t \<and> is_ok (snd (resume_task env t rt)))
    \<and> (p \<notin> live rt \<longrightarrow> given_up (fst (resume_task env t rt)) t \<and> \<not> is_ok (snd (resume_task env t rt)))"
proof (cases "accounted env")
  case None
  then have "resume_task env t rt = resume_process t (resume_now env) (resume_written env) rt"
    by (simp add: resume_task_def)
  then show ?thesis using resume_inv [OF inv] resume_process_ok [OF inv st s mine p] by simp
next
  case (Some acc)
  obtain d where d: "get_definition (tasks rt) t = Inr d" using get_state_definition [OF st] by blast
  obtain tt where tt: "clock_now (environment_clock acc) (resume_wall env) = Inr tt" "settlement_sources acc t d"
    using sources Some d by (auto simp: resume_sources_def is_ok_Inr)
  let ?s = "settle_task acc (resume_wall env) tt (resume_written env) t rt"
  obtain x where x: "snd ?s = Inr x" 
    using settle_task_answers [OF inv st d tt(2), of "resume_wall env" tt "resume_written env"] by (simp add: is_ok_Inr) blast
  have r: "resume_task env t rt = resume_process t (resume_now env) (resume_written env) (fst ?s)"
    using Some tt(1) x by (simp add: resume_task_def case_prod_unfold Let_def)
  have ok: "runtime_inv (fst ?s)" "own_change t rt (fst ?s)"
    "\<exists>st'. get_state (tasks (fst ?s)) t = Inr st' \<and> resettled st st'"
    using settle_task_ok [OF inv st] by blast+
  then obtain st' where st': "get_state (tasks (fst ?s)) t = Inr st'" "resettled st st'" by blast
  note R = resettledD [OF st'(2)]
  have mine': "owner_node_id st' = runtime_node (fst ?s)" using R(2) mine ok(2) by (simp add: runtime_node_def own_change_def)
  have s': "task_status st' = Paused" "pid (process st') = Some p" using R(3,4) s p by simp_all
  note resume = resume_process_ok [OF ok(1) st'(1) s'(1) mine' s'(2)]
  have "live (fst ?s) = live rt" using ok(2) by (simp add: own_change_def)
  then show ?thesis unfolding r
    using resume_inv [OF ok(1)] resume(2,3) own_change_trans [OF ok(2) resume(1)] by simp
qed

text \<open>What the scan makes of an owned paused task.\<close>

definition attended :: "datetime \<Rightarrow> resume_environment \<Rightarrow> local_runtime \<Rightarrow> task_state \<Rightarrow> local_runtime \<Rightarrow> bool" where
  "attended now env rt st rt' \<longleftrightarrow>
     (let t = state_task_id st
      in if \<not> pause_due (check_wall env) now st then get_state (tasks rt') t = Inr st
         else if process_alive rt st then resumed rt' t else given_up rt' t)"

lemma resume_one_ok:
  assumes inv: "runtime_inv rt" and st: "get_state (tasks rt) t = Inr st" and s: "task_status st = Paused"
    and mine: "owner_node_id st = runtime_node rt" and sources: "resume_sources env rt t"
  shows "runtime_inv (fst (resume_one now env t rt)) \<and> own_change t rt (fst (resume_one now env t rt))
    \<and> is_ok (snd (resume_one now env t rt)) \<and> attended now env rt st (fst (resume_one now env t rt))"
proof -
  note id = runtime_invD(1) [OF inv st]
  obtain p where p: "pid (process st) = Some p" using runtime_invD(2) [OF inv st] s by (auto simp: state_ok_def)
  have alive: "process_alive rt st \<longleftrightarrow> p \<in> live rt" using p by (simp add: process_alive_def)
  let ?r = "resume_task env t rt"
  have ok: "runtime_inv (fst ?r)" "own_change t rt (fst ?r)"
    "p \<in> live rt \<longrightarrow> resumed (fst ?r) t \<and> is_ok (snd ?r)" "p \<notin> live rt \<longrightarrow> given_up (fst ?r) t \<and> \<not> is_ok (snd ?r)"
    using resume_task_ok [OF inv st s mine p sources] by blast+
  consider (early) "\<not> pause_due (check_wall env) now st"
    | (live) x where "pause_due (check_wall env) now st" "p \<in> live rt" "snd ?r = Inr x"
    | (gone) e where "pause_due (check_wall env) now st" "p \<notin> live rt" "snd ?r = Inl e"
    using ok(3,4) by (cases "snd ?r") auto
  then show ?thesis
  proof cases
    case early
    then show ?thesis using inv st id by (simp add: resume_one_def attended_def)
  next
    case live
    then have "resume_one now env t rt = (fst ?r, Inr 1)" using st by (simp add: resume_one_def case_prod_unfold)
    then show ?thesis using live ok id alive by (simp add: attended_def)
  next
    case gone
    obtain st' where st': "get_state (tasks (fst ?r)) t = Inr st'" "pid (process st') = None"
      using ok(4) gone(2) by (auto simp: given_up_def)
    note id' = runtime_invD(1) [OF ok(1) st'(1)]
    let ?m = "''Pause resume failed: '' @ describe_error e"
    let ?f = "on_tasks (mark_failed ?m None (resume_now env)) (resume_written env) t (fst ?r)"
    note failed = mark_failed_effect [OF st'(1) id', of ?m None "resume_now env" "resume_written env"]
    have r: "fst (resume_one now env t rt) = fst ?f" "is_ok (snd (resume_one now env t rt))"
      using st gone failed(3) by (auto simp: resume_one_def case_prod_unfold is_ok_Inr)
    have "runtime_inv (fst ?f)" by (rule mark_failed_inv [OF ok(1) st'(1)]) (use st'(2) in simp)
    then show ?thesis using gone id alive r failed(2) own_change_trans [OF ok(2) failed(1)]
      by (simp add: attended_def)
  qed
qed

lemma own_change_other:
  assumes "own_change t rt rt'" "t' \<noteq> t"
  shows "get_state (tasks rt') t' = get_state (tasks rt) t'" "resumed rt t' \<Longrightarrow> resumed rt' t'"
    "given_up rt' t' = given_up rt t'"
  using assms by (auto simp: own_change_def resumed_def given_up_def)

lemma own_change_setting:
  assumes "own_change t rt rt'"
  shows "process_alive rt' st = process_alive rt st" "resume_sources env rt' u = resume_sources env rt u"
    "runtime_node rt' = runtime_node rt" "live rt' = live rt"
  using assms
  by (simp_all add: own_change_def process_alive_def resume_sources_def get_definition_def runtime_node_def
      split: option.split)

section \<open>The scan\<close>

lemma resume_all_ok:
  assumes "runtime_inv rt" "distinct ts"
    "\<forall>t \<in> set ts. resume_sources (env t) rt t \<and> (\<exists>st. get_state (tasks rt) t = Inr st \<and> task_status st = Paused
       \<and> owner_node_id st = runtime_node rt)"
  shows "runtime_inv (fst (resume_all now env ts rt)) \<and> is_ok (snd (resume_all now env ts rt))
    \<and> live (fst (resume_all now env ts rt)) = live rt
    \<and> (\<forall>t. t \<notin> set ts \<longrightarrow> get_state (tasks (fst (resume_all now env ts rt))) t = get_state (tasks rt) t
         \<and> (resumed rt t \<longrightarrow> resumed (fst (resume_all now env ts rt)) t))
    \<and> (\<forall>t \<in> set ts. \<forall>st. get_state (tasks rt) t = Inr st \<longrightarrow> attended now (env t) rt st (fst (resume_all now env ts rt)))"
  using assms
proof (induction ts arbitrary: rt)
  case (Cons t ts)
  note inv = Cons.prems(1)
  obtain st where st: "get_state (tasks rt) t = Inr st" "task_status st = Paused" "owner_node_id st = runtime_node rt"
    and sources: "resume_sources (env t) rt t" using Cons.prems(3) by auto
  note id = runtime_invD(1) [OF inv st(1)]
  let ?r1 = "resume_one now (env t) t rt"
  let ?r = "resume_all now env ts (fst ?r1)"
  have one: "runtime_inv (fst ?r1)" "own_change t rt (fst ?r1)" "is_ok (snd ?r1)" "attended now (env t) rt st (fst ?r1)"
    using resume_one_ok [OF inv st sources] by blast+
  have other: "u \<noteq> t" if "u \<in> set ts" for u using that Cons.prems(2) by auto
  have "\<forall>u \<in> set ts. resume_sources (env u) (fst ?r1) u \<and> (\<exists>st. get_state (tasks (fst ?r1)) u = Inr st
       \<and> task_status st = Paused \<and> owner_node_id st = runtime_node (fst ?r1))"
    using Cons.prems(3) other own_change_other(1) [OF one(2)] own_change_setting(2,3) [OF one(2)] by auto
  moreover have "distinct ts" using Cons.prems(2) by simp
  ultimately have ih: "runtime_inv (fst ?r)" "is_ok (snd ?r)" "live (fst ?r) = live (fst ?r1)"
    "\<forall>u. u \<notin> set ts \<longrightarrow> get_state (tasks (fst ?r)) u = get_state (tasks (fst ?r1)) u
         \<and> (resumed (fst ?r1) u \<longrightarrow> resumed (fst ?r) u)"
    "\<forall>u \<in> set ts. \<forall>st. get_state (tasks (fst ?r1)) u = Inr st \<longrightarrow> attended now (env u) (fst ?r1) st (fst ?r)"
    using Cons.IH [OF one(1)] by blast+
  have r: "fst (resume_all now env (t # ts) rt) = fst ?r" "is_ok (snd (resume_all now env (t # ts) rt))"
    using one(3) ih(2) by (auto simp: is_ok_Inr case_prod_unfold Let_def)
  have first: "attended now (env t) rt st (fst ?r)"
  proof -
    have "t \<notin> set ts" using Cons.prems(2) by simp
    then have keep: "get_state (tasks (fst ?r)) t = get_state (tasks (fst ?r1)) t"
      "resumed (fst ?r1) t \<Longrightarrow> resumed (fst ?r) t" using ih(4) by blast+
    moreover have "given_up (fst ?r1) t \<Longrightarrow> given_up (fst ?r) t" using keep(1) by (simp add: given_up_def)
    ultimately show ?thesis using one(4) id by (auto simp: attended_def Let_def split: if_splits)
  qed
  have others: "attended now (env u) rt st' (fst ?r)" if u: "u \<in> set ts" "get_state (tasks rt) u = Inr st'" for u st'
  proof -
    have "get_state (tasks (fst ?r1)) u = Inr st'" using own_change_other(1) [OF one(2) other [OF u(1)]] u(2) by simp
    then have "attended now (env u) (fst ?r1) st' (fst ?r)" using ih(5) u(1) by blast
    then show ?thesis by (simp add: attended_def own_change_setting(1) [OF one(2)] Let_def)
  qed
  have rest: "get_state (tasks (fst ?r)) u = get_state (tasks rt) u \<and> (resumed rt u \<longrightarrow> resumed (fst ?r) u)"
    if "u \<notin> set (t # ts)" for u
    using that ih(4) own_change_other(1,2) [OF one(2), of u] by auto
  have lives: "live (fst ?r) = live rt" using ih(3) own_change_setting(4) [OF one(2)] by simp
  show ?case unfolding r(1)
    by (intro conjI allI impI ballI r(2) ih(1) lives) (use rest first others st in auto)
qed simp

lemma pause_run_once_ok:
  assumes inv: "runtime_inv rt" and sources: "\<forall>t. resume_sources (env t) rt t"
  shows "runtime_inv (fst (pause_run_once now env rt))" "is_ok (snd (pause_run_once now env rt))"
    "live (fst (pause_run_once now env rt)) = live rt"
    "get_state (tasks rt) t = Inr st \<Longrightarrow>
       if task_status st = Paused \<and> owner_node_id st = runtime_node rt
       then attended now (env t) rt st (fst (pause_run_once now env rt))
       else get_state (tasks (fst (pause_run_once now env rt))) t = Inr st"
proof -
  have reg: "registry_inv (tasks rt)" using inv by (simp add: runtime_inv_def)
  obtain ids where ids: "owned_ids_with Paused (tasks rt) (runtime_node rt) = Inr ids" "distinct ids"
    "\<And>t. t \<in> set ids \<longleftrightarrow> (\<exists>st. get_state (tasks rt) t = Inr st \<and> owner_node_id st = runtime_node rt \<and> task_status st = Paused)"
    using owned_ids_with_total [OF reg] by blast
  have r: "pause_run_once now env rt = resume_all now env ids rt"
    using ids(1) by (simp add: pause_run_once_def paused_owned_task_ids_def)
  have "\<forall>t \<in> set ids. resume_sources (env t) rt t \<and> (\<exists>st. get_state (tasks rt) t = Inr st \<and> task_status st = Paused
       \<and> owner_node_id st = runtime_node rt)" using sources ids(3) by auto
  note all = resume_all_ok [OF inv ids(2) this, of now]
  show "runtime_inv (fst (pause_run_once now env rt))" "is_ok (snd (pause_run_once now env rt))"
    "live (fst (pause_run_once now env rt)) = live rt" using all by (simp_all add: r)
  show "if task_status st = Paused \<and> owner_node_id st = runtime_node rt
       then attended now (env t) rt st (fst (pause_run_once now env rt))
       else get_state (tasks (fst (pause_run_once now env rt))) t = Inr st" if st: "get_state (tasks rt) t = Inr st"
  proof (cases "t \<in> set ids")
    case True
    then show ?thesis using all st ids(3) [of t] by (auto simp: r)
  next
    case False
    then show ?thesis using all st ids(3) [of t] by (auto simp: r)
  qed
qed

section \<open>A resume whose settlement raises\<close>

text \<open>
  When the settlement before a resume raises (an unreadable progress record, a missing carbon
  series), the scan marks the task failed: the record of its process is dropped while the process
  stays stopped by its signal, so a later restart runs beside it.
\<close>

lemma failing_settlement_keeps:
  assumes "runtime_inv rt" "get_state (tasks rt) t = Inr st" "snd (settle_task acc wall tt w t rt) = Inl e"
  shows "settle_task acc wall tt w t rt = (rt, Inl e)"
  using settle_task_cases [of acc wall tt w t rt] record_accounting_edit(4) [OF assms(1,2)] assms(3)
  by (metis is_ok.simps(2) prod.sel(2))

lemma resume_failure_orphans_process:
  assumes inv: "runtime_inv rt" and st: "get_state (tasks rt) t = Inr st" and p: "pid (process st) = Some p"
    and live: "p \<in> live rt" and due: "pause_due (check_wall env) now st"
    and acc: "accounted env = Some acc" "clock_now (environment_clock acc) (resume_wall env) = Inr tt"
    and raises: "snd (settle_task acc (resume_wall env) tt (resume_written env) t rt) = Inl e"
  defines "rt' \<equiv> fst (resume_one now env t rt)"
  shows "given_up rt' t" "p \<in> live rt'" "\<not> recorded rt' t' p"
proof -
  note id = runtime_invD(1) [OF inv st]
  let ?f = "on_tasks (mark_failed (''Pause resume failed: '' @ describe_error e) None (resume_now env)) (resume_written env) t rt"
  have task: "resume_task env t rt = (rt, Inl e)"
    using failing_settlement_keeps [OF inv st raises] acc by (simp add: resume_task_def)
  have r: "rt' = fst ?f"
    unfolding rt'_def using st due by (simp add: resume_one_def task split: prod.split sum.split)
  note failed = mark_failed_effect [OF st id, of "''Pause resume failed: '' @ describe_error e" None "resume_now env" "resume_written env"]
  show gone: "given_up rt' t" unfolding r by (rule failed(2))
  have own: "own_change t rt rt'" unfolding r by (rule failed(1))
  show "p \<in> live rt'" using own live by (simp add: own_change_def)
  show "\<not> recorded rt' t' p"
  proof (cases "t' = t")
    case True
    then show ?thesis using gone by (auto simp: recorded_def given_up_def)
  next
    case False
    then show ?thesis using own_change_other(1) [OF own False] runtime_invD(5) [OF inv st p False]
      by (simp add: recorded_def)
  qed
qed

end
