(* ===== verification/Runtime_Claims.thy ===== *)
theory Runtime_Claims
  imports Pause_Laws Task_Registry_Claims
begin

text \<open>
  The claims about the processes of a node and its background services: local runtime,
  reconciliation of processes, accounting, pause and recovery.
\<close>

section \<open>The node as a transition system\<close>

text \<open>
  The steps are the calls of the runtime and its services and the end of a process.  The operating
  system names a new process by a pid no record holds, a handle only reports the exit of a process
  that is gone, and a group that cannot be killed is not stopped.
\<close>

inductive runtime_step :: "local_runtime \<Rightarrow> local_runtime \<Rightarrow> bool" where
  starts: "(\<forall>p. env_spawn env = Inr p \<longrightarrow> fresh_pid rt p) \<Longrightarrow> runtime_step rt (fst (start t env now w rt))"
| pauses: "runtime_step rt (fst (pause_task c t at_time idle reason wall found now w rt))"
| resumes: "runtime_step rt (fst (resume_process t now w rt))"
| stops: "reaction \<noteq> KillDenied \<Longrightarrow> runtime_step rt (fst (stop_process t reaction w rt))"
| exits: "runtime_step rt (rt\<lparr>live := live rt - {p}\<rparr>)"
| reconciles: "\<forall>t. exits_sound exit_of rt t \<Longrightarrow>
    runtime_step rt (fst (reconcile sha mtext exit_of synthesize now w rt))"
| settled: "runtime_step rt (fst (settle_task acc wall tt w t rt))"
| recovers: "(\<forall>p. env_spawn (start_env env) = Inr p \<longrightarrow> fresh_pid rt p) \<Longrightarrow>
    runtime_step rt (fst (recover_one p now env t rt))"
| pause_scan: "\<forall>t. resume_sources (resume_env t) rt t \<Longrightarrow> runtime_step rt (fst (pause_run_once now resume_env rt))"

inductive runtime_run :: "local_runtime \<Rightarrow> local_runtime \<Rightarrow> bool" where
  here: "runtime_run rt rt"
| further: "runtime_run rt rt' \<Longrightarrow> runtime_step rt' rt'' \<Longrightarrow> runtime_run rt rt''"

definition node_started ::
  "registry \<Rightarrow> (task_id \<Rightarrow> task_files) \<Rightarrow> node_runtime_capabilities \<Rightarrow> local_runtime" where
  "node_started reg files caps =
     \<lparr>tasks = reg, handles = [], live = {}, suspended = {}, files_of = files, node_capabilities = caps\<rparr>"

lemma process_exit_inv: "runtime_inv rt \<Longrightarrow> runtime_inv (rt\<lparr>live := live rt - {p}\<rparr>)"
  unfolding runtime_inv_def recorded_def by auto

lemma settle_task_inv: "runtime_inv rt \<Longrightarrow> runtime_inv (fst (settle_task acc wall tt w t rt))"
proof (cases "get_state (tasks rt) t")
  case (Inl e)
  then show "runtime_inv rt \<Longrightarrow> runtime_inv (fst (settle_task acc wall tt w t rt))"
    by (simp add: settle_task_def)
qed (use settle_task_ok in blast)

lemma pause_task_inv: "runtime_inv rt \<Longrightarrow> runtime_inv (fst (pause_task c t a idle reason wall found now w rt))"
  by (simp add: pause_task_def pause_inv)

lemma runtime_step_inv: "runtime_step rt rt' \<Longrightarrow> runtime_inv rt \<Longrightarrow> runtime_inv rt'"
  by (induction rule: runtime_step.induct)
     (simp_all add: start_inv pause_task_inv resume_inv stop_inv process_exit_inv reconcile_ok settle_task_inv
       recover_one_inv pause_run_once_ok)

lemma runtime_run_inv: "runtime_run rt rt' \<Longrightarrow> runtime_inv rt \<Longrightarrow> runtime_inv rt'"
  by (induction rule: runtime_run.induct) (simp_all add: runtime_step_inv)

lemma created_registry_inv:
  assumes "create_registry now ds [] node = Inr reg" "\<forall>d \<in> set ds. wf_definition d"
  shows "registry_inv reg"
proof -
  have "registry_inv \<lparr>definitions = [], state_files = [], registry_node = node\<rparr>"
    by (simp add: registry_inv_def)
  with assms show ?thesis by (auto simp: create_registry_def intro: load_definitions_inv)
qed

lemma load_definitions_idle:
  "load_definitions now ds reg = Inr reg' \<Longrightarrow>
   \<forall>t st. dict_get (state_files reg) t = Some st \<longrightarrow> pid (process st) = None \<Longrightarrow>
   \<forall>t st. dict_get (state_files reg') t = Some st \<longrightarrow> pid (process st) = None"
proof (induction ds arbitrary: reg)
  case (Cons d ds)
  let ?reg = "initialize_state_if_missing now d
    (reg\<lparr>definitions := dict_put (profile_task_id (profile d)) d (definitions reg)\<rparr>)"
  have "load_definitions now ds ?reg = Inr reg'" using Cons.prems(1) by (simp add: Let_def split: if_splits)
  moreover have "\<forall>t st. dict_get (state_files ?reg) t = Some st \<longrightarrow> pid (process st) = None"
    using Cons.prems(2) by (simp add: initialize_state_if_missing_def initial_state_def no_process_def)
  ultimately show ?case using Cons.IH by blast
qed simp

lemma node_started_inv:
  assumes "create_registry now ds [] node = Inr reg" "\<forall>d \<in> set ds. wf_definition d"
  shows "runtime_inv (node_started reg files caps)"
proof -
  have "\<forall>t st. dict_get (state_files reg) t = Some st \<longrightarrow> pid (process st) = None"
    using load_definitions_idle [OF assms(1) [unfolded create_registry_def]] by simp
  then show ?thesis using created_registry_inv [OF assms]
    by (auto simp: runtime_inv_def node_started_def recorded_def get_state_Inr_iff)
qed

section \<open>A concrete node\<close>

definition demo_caps :: node_runtime_capabilities where
  "demo_caps = \<lparr>architecture = None, operating_system = None, cap_cpu_cores = None, cap_memory_mb = None,
     cap_gpu_count = None, cap_accelerator_types = {}, commands = {}, runtimes = [], features = {}\<rparr>"

definition demo_files :: "task_id \<Rightarrow> task_files" where
  "demo_files t = \<lparr>marker_file = None, output_entries = None, manifest_file = None\<rparr>"

definition demo_plan :: launch_plan where
  "demo_plan = \<lparr>plan_adapter = ''python_module'', plan_command = [''python''], plan_resumed = False, plan_environment = []\<rparr>"

definition demo_env :: "readiness_poll list \<Rightarrow> start_environment" where
  "demo_env polls = \<lparr>env_artifacts = Inr (), env_plan = Inr demo_plan, env_spawn = Inr 42, env_polls = polls,
     env_exit = None\<rparr>"

definition ready_poll :: readiness_poll where
  "ready_poll = \<lparr>poll_exit = None, poll_marker = True, poll_processes = 1\<rparr>"

definition demo_state :: "task_status \<Rightarrow> int option \<Rightarrow> task_state" where
  "demo_state s p = (initial_state ''a'' 0 sample_profile)
     \<lparr>task_status := s, process := no_process\<lparr>pid := p\<rparr>, last_accounted_at := Some 0,
      task_state.pause := (if s = Paused then \<lparr>paused_at = Some 10, resume_at = Some 15, resume_wall_at = Some 15,
         pause_reason = Some []\<rparr> else no_pause)\<rparr>"

definition demo_node :: "task_state \<Rightarrow> int set \<Rightarrow> int set \<Rightarrow> local_runtime" where
  "demo_node st L S =
     (node_started \<lparr>definitions = [(''t'', sample_definition)], state_files = [(''t'', st)], registry_node = ''a''\<rparr>
        demo_files demo_caps)\<lparr>live := L, suspended := S\<rparr>"

lemma demo_registry_inv:
  "state_task_id st = ''t'' \<Longrightarrow> state_ok ''a'' st \<Longrightarrow>
   registry_inv \<lparr>definitions = [(''t'', sample_definition)], state_files = [(''t'', st)], registry_node = ''a''\<rparr>"
  using sample_definition_wf
  by (simp add: registry_inv_def dict_get_Cons dict_ok_def sample_definition_def sample_profile_def)

lemma demo_get [simp]:
  "get_state (tasks (demo_node st L S)) t = (if t = ''t'' then Inr st else Inl (KeyError (''Unknown Magellan task definition: '' @ t)))"
  "get_definition (tasks (demo_node st L S)) ''t'' = Inr sample_definition"
  "live (demo_node st L S) = L" "suspended (demo_node st L S) = S" "runtime_node (demo_node st L S) = ''a''"
  "node_capabilities (demo_node st L S) = demo_caps" "handles (demo_node st L S) = []"
  by (simp_all add: demo_node_def node_started_def get_state_def get_definition_def dict_get_Cons runtime_node_def)

lemma demo_state_ok:
  "s \<in> {Running, Paused} \<Longrightarrow> state_ok ''a'' (demo_state s (Some p))"
  "s \<in> {Stopped, Failed} \<Longrightarrow> state_ok ''a'' (demo_state s None)"
  "state_task_id (demo_state s q) = ''t''" "owner_node_id (demo_state s q) = ''a''" "task_status (demo_state s q) = s"
  "pid (process (demo_state s q)) = q" "last_accounted_at (demo_state s q) = Some 0"
  by (auto simp: state_ok_def demo_state_def initial_state_def sample_profile_def no_process_def cost_split_def
      initial_accounting_def)

lemma demo_node_inv:
  assumes "state_task_id st = ''t''" "state_ok ''a'' st"
    "\<And>p. pid (process st) = Some p \<Longrightarrow> task_status st \<in> {Running, Paused} \<and> (p \<in> L \<longrightarrow> (p \<in> S) = (task_status st = Paused))"
    "L \<subseteq> set_option (pid (process st))"
  shows "runtime_inv (demo_node st L S)"
proof -
  have "registry_inv (tasks (demo_node st L S))"
    using demo_registry_inv [OF assms(1,2)] by (simp add: demo_node_def node_started_def)
  then show ?thesis using assms(3,4) by (auto simp: runtime_inv_def recorded_def split: if_splits)
qed

lemma sample_compatible [simp]: "compatible (check_compatibility (compatibility (profile sample_definition)) c)"
  by (simp add: sample_definition_def sample_profile_def check_compatibility_iff)

section \<open>The claims\<close>

text \<open>
  C24. From the start of a node on, along starts, pauses, resumes, stops, settlements, reconciliations, recovery
  scans and pause scans, and processes that end by themselves: every live process is recorded by exactly
  one task; the node owns that task; and the process runs when the task is running and is stopped by a
  signal when the task is paused.  So no two processes of one task live, and no process lives without a
  record.  The runs are those without migrations in which the kill of a process is not denied and the
  settlements a pause scan makes before it resumes succeed; a settlement that raises there, or one that
  raises in a migration, does orphan a process (\<open>resume_failure_orphans_process\<close>,
  \<open>settle_failure_orphans_process\<close>).
\<close>

theorem live_processes_are_recorded:
  assumes "create_registry now ds [] node = Inr reg" and "\<forall>d \<in> set ds. wf_definition d"
    and "runtime_run (node_started reg files caps) rt" and "p \<in> live rt"
  shows "(\<exists>!t. \<exists>st. get_state (tasks rt) t = Inr st \<and> pid (process st) = Some p)
    \<and> (\<forall>t st. get_state (tasks rt) t = Inr st \<longrightarrow> pid (process st) = Some p \<longrightarrow>
         owner_node_id st = runtime_node rt
         \<and> (task_status st = Running \<and> p \<notin> suspended rt \<or> task_status st = Paused \<and> p \<in> suspended rt))"
proof -
  have inv: "runtime_inv rt" using runtime_run_inv [OF assms(3) node_started_inv [OF assms(1,2)]] .
  then have "\<exists>t. recorded rt t p" and "\<And>t t'. recorded rt t p \<Longrightarrow> recorded rt t' p \<Longrightarrow> t = t'"
    using assms(4) unfolding runtime_inv_def by blast+
  then have "\<exists>!t. \<exists>st. get_state (tasks rt) t = Inr st \<and> pid (process st) = Some p"
    unfolding recorded_def by blast
  moreover have "owner_node_id st = runtime_node rt
      \<and> (task_status st = Running \<and> p \<notin> suspended rt \<or> task_status st = Paused \<and> p \<in> suspended rt)"
    if st: "get_state (tasks rt) t = Inr st" "pid (process st) = Some p" for t st
    using runtime_invD(2-4) [OF inv st(1)] st assms(4) by (auto simp: state_ok_def)
  ultimately show ?thesis by blast
qed

theorem live_processes_are_recorded_witness:
  "\<exists>!t. \<exists>st. get_state (tasks (fst (start ''t'' (demo_env [ready_poll]) 1 1
     (node_started sample_registry demo_files demo_caps)))) t = Inr st \<and> pid (process st) = Some 42"
proof -
  let ?rt = "node_started sample_registry demo_files demo_caps"
  have step: "runtime_step ?rt (fst (start ''t'' (demo_env [ready_poll]) 1 1 ?rt))"
    by (rule runtime_step.starts) (simp add: fresh_pid_def recorded_def node_started_def get_state_Inr_iff
        sample_registry_def initialize_state_if_missing_def initial_state_def no_process_def demo_env_def)
  have state: "\<exists>st. get_state (tasks ?rt) ''t'' = Inr st \<and> owner_node_id st = ''a'' \<and> task_status st = Stopped"
    by (simp add: node_started_def sample_registry_def initialize_state_if_missing_def get_state_def get_definition_def
        write_state_def dict_get_Cons sample_definition_def sample_profile_def initial_state_def)
  then obtain st where st: "get_state (tasks ?rt) ''t'' = Inr st" "owner_node_id st = ''a''" "task_status st = Stopped"
    by blast
  have d: "get_definition (tasks ?rt) ''t'' = Inr sample_definition" "runtime_node ?rt = ''a''"
    by (simp_all add: node_started_def sample_registry_def initialize_state_if_missing_def get_definition_def
        write_state_def dict_get_Cons runtime_node_def)
  have ready: "wait_for_readiness ''t'' (runtime sample_definition) [ready_poll] = Inr ()"
    by (simp add: ready_poll_def sample_definition_def sample_runtime_def)
  have "42 \<in> live (fst (start ''t'' (demo_env [ready_poll]) 1 1 ?rt))"
    using st d ready
    by (simp add: start_def demo_env_def start_guard_def launch_def Let_def on_tasks_def case_prod_unfold)
  from live_processes_are_recorded [OF sample_create _ runtime_run.further [OF runtime_run.here step] this]
  show ?thesis by (simp add: sample_definition_wf)
qed

text \<open>
  C25. A pause ends: when all settlements of accounting succeed, after one pause scan every owned task that was
  paused past its deadline runs again, in its own process, continued; only when that process is gone is
  the task failed, without a process.  The scan raises nothing.  (A settlement that raises fails the
  task although its process lives: \<open>resume_failure_orphans_process\<close>.)
\<close>

theorem due_pauses_are_resumed:
  assumes "runtime_inv rt" and "\<forall>t. resume_sources (env t) rt t"
    and "get_state (tasks rt) t = Inr st" and "task_status st = Paused" and "owner_node_id st = runtime_node rt"
    and "pause_due (check_wall (env t)) now st"
  shows "is_ok (snd (pause_run_once now env rt))
    \<and> (if process_alive rt st then resumed (fst (pause_run_once now env rt)) t
         else given_up (fst (pause_run_once now env rt)) t)"
proof -
  have "attended now (env t) rt st (fst (pause_run_once now env rt))"
    using pause_run_once_ok(4) [OF assms(1-3)] assms(4,5) by simp
  then show ?thesis
    using assms(6) runtime_invD(1) [OF assms(1,3)] pause_run_once_ok(2) [OF assms(1,2)] by (simp add: attended_def)
qed

theorem due_pauses_are_resumed_witness:
  "resumed (fst (pause_run_once 20 (\<lambda>t. \<lparr>accounted = None, check_wall = 16, resume_wall = 16, resume_now = 17,
      resume_written = 18\<rparr>) (demo_node (demo_state Paused (Some 42)) {42} {42}))) ''t''"
proof -
  let ?env = "\<lambda>t. \<lparr>accounted = None, check_wall = 16, resume_wall = 16, resume_now = 17, resume_written = 18\<rparr>"
  let ?st = "demo_state Paused (Some 42)"
  let ?rt = "demo_node ?st {42} {42}"
  have inv: "runtime_inv ?rt" by (rule demo_node_inv) (simp_all add: demo_state_ok)
  have sources: "\<forall>t. resume_sources (?env t) ?rt t" by (simp add: resume_sources_def)
  have st: "get_state (tasks ?rt) ''t'' = Inr ?st" by simp
  have facts: "task_status ?st = Paused" "owner_node_id ?st = runtime_node ?rt" by (simp_all add: demo_state_ok)
  have due: "pause_due (check_wall (?env ''t'')) 20 ?st" by (simp add: pause_due_def demo_state_def)
  have "process_alive ?rt ?st" by (simp add: process_alive_def demo_state_ok)
  then show ?thesis using due_pauses_are_resumed [OF inv sources st facts due] by simp
qed

text \<open>
  C26. Recovery ends: when every restart of an owned failed task fails in one of two ways, by a refused
  checkpoint or by a launched process that never becomes ready, and the scans are at least the maximal
  back-off apart, the task is given up after at most twice the permitted restarts plus one scan.  (A
  start that is refused before the launch is not retried at all: \<open>refused_restart_strands_the_task\<close>.)
\<close>

theorem recovery_gives_up:
  assumes "get_state (tasks rt) t = Inr st" and "get_definition (tasks rt) t = Inr d" and "state_task_id st = t"
    and "owner_node_id st = runtime_node rt" and "task_status st = Failed"
    and "compatible (check_compatibility (compatibility (profile d)) (node_capabilities rt))"
    and "next_recovery_at (recovery st) = None" and "0 \<le> recovery_attempts (recovery st)"
    and "recovery_enabled p" and "\<forall>(now, env) \<in> set scans. failing_restart d t env"
    and "spaced (max 0 (max_backoff_seconds p)) (map fst scans)"
    and "2 * nat (max_restart_attempts p) + 1 \<le> length scans"
  shows "\<exists>st'. get_state (tasks (recover_series p t scans rt)) t = Inr st' \<and> task_status st' = Failed
    \<and> recovery_exhausted (recovery st')"
proof -
  have "failing_task rt t d st" using assms(1-6) by (simp add: failing_task_def)
  from recover_series_gives_up [OF this assms(9-11,7,8,12)] show ?thesis .
qed

theorem recovery_gives_up_witness:
  "\<exists>st'. get_state (tasks (recover_series
      \<lparr>recovery_enabled = True, max_restart_attempts = 1, initial_backoff_seconds = 5, max_backoff_seconds = 60\<rparr> ''t''
      [(0, \<lparr>checkpoint_check = Inr (), start_env = demo_env [], wall_now = 0, wall_written = 0\<rparr>),
       (60, \<lparr>checkpoint_check = Inr (), start_env = demo_env [], wall_now = 60, wall_written = 60\<rparr>),
       (120, \<lparr>checkpoint_check = Inr (), start_env = demo_env [], wall_now = 120, wall_written = 120\<rparr>)]
      (demo_node (demo_state Failed None) {} {}))) ''t'' = Inr st' \<and> task_status st' = Failed
    \<and> recovery_exhausted (recovery st')"
proof (rule recovery_gives_up)
  show "get_state (tasks (demo_node (demo_state Failed None) {} {})) ''t'' = Inr (demo_state Failed None)" by simp
  show "get_definition (tasks (demo_node (demo_state Failed None) {} {})) ''t'' = Inr sample_definition" by simp
qed (simp_all add: demo_state_ok, simp_all add: demo_state_def initial_state_def failing_restart_def demo_env_def)


text \<open>
  Reconciliation is total and truthful: from any consistent node it raises nothing, reports its
  events, starts and ends no process, and afterwards every recorded process is live.  A task whose
  process is gone is completed or failed, never left running.
\<close>

theorem reconcile_settles_every_task:
  assumes "runtime_inv rt" and "\<forall>t. exits_sound exit_of rt t"
    and "reconcile sha256 manifest_text exit_of synthesize now w rt = (rt', r)"
  shows "is_ok r \<and> runtime_inv rt' \<and> live rt' = live rt
    \<and> (\<forall>t st. get_state (tasks rt') t = Inr st \<longrightarrow> task_status st \<in> {Running, Paused} \<longrightarrow> process_alive rt' st)"
proof -
  note ok = reconcile_ok [OF assms(1,2), of sha256 manifest_text synthesize now w]
  have rt': "rt' = fst (reconcile sha256 manifest_text exit_of synthesize now w rt)" using assms(3) by simp
  have "is_ok r" using ok(1) assms(3) by auto
  moreover have "process_alive rt' st"
    if st: "get_state (tasks rt') t = Inr st" "task_status st \<in> {Running, Paused}" for t st
  proof -
    obtain p where "pid (process st) = Some p"
      using runtime_invD(2) [OF ok(2) st(1) [unfolded rt']] st(2) by (auto simp: state_ok_def)
    then show ?thesis using ok(4) [of t] st(1) unfolding rt' [symmetric]
      by (auto simp: settled_def recorded_def process_alive_def)
  qed
  ultimately show ?thesis using ok(2,3) unfolding rt' by blast
qed

theorem reconcile_settles_every_task_witness:
  "is_ok (snd (reconcile id (\<lambda>_. []) (\<lambda>_. None) (\<lambda>_ _ f. f) 5 5 (demo_node (demo_state Running (Some 42)) {} {})))"
proof -
  let ?rt = "demo_node (demo_state Running (Some 42)) {} {}"
  have inv: "runtime_inv ?rt" by (rule demo_node_inv) (simp_all add: demo_state_ok)
  have "\<forall>t. exits_sound (\<lambda>_. None) ?rt t" by (simp add: exits_sound_def)
  from reconcile_settles_every_task [OF inv this surjective_pairing] show ?thesis by blast
qed

text \<open>
  C27. Nothing is charged twice and nothing is lost: when a task that keeps its process is settled
  any number of times at instants that do not go back, its runtime (or, paused, its paused time)
  grows by exactly the evaluation time from the first to the last of them.
\<close>

theorem settling_charges_once:
  assumes "runtime_inv rt" and "get_state (tasks rt) t = Inr st" and "get_definition (tasks rt) t = Inr d"
    and "owner_node_id st = node_identity (site env)" and "last_accounted_at st = Some since"
    and "process_alive rt st" and "settlement_sources env t d" and "task_status st \<in> {Running, Paused}"
    and "wf_clock (environment_clock env)" and "sorted (since # map fst settlements)"
  shows "\<exists>st'. get_state (tasks (settle_series env t settlements rt)) t = Inr st'
    \<and> charged (task_status st) st' = charged (task_status st) st
        + (last (since # map fst settlements) - since) * trace_seconds_per_real_second (environment_clock env)"
  using settle_series_charge [OF assms] by blast

definition demo_accounting :: accounting_environment where
  "demo_accounting = \<lparr>environment_clock = \<lparr>clock_policy = \<lparr>clock_mode = Wall, trace_start = None, trace_rate = 1\<rparr>,
        real_start = 0, trace_origin = None\<rparr>, ema_alpha = 1,
      site = \<lparr>node_identity = ''a'', latitude = 0, longitude = 0, task_capacity = None, resources = unlimited_capacity,
        capabilities = demo_caps, pue = 1, compute_price_usd_per_hour = 1, egress_price_usd_per_gb = 1,
        carbon_fallback_g_per_kwh = None\<rparr>,
      carbon_average = \<lambda>_ _ _. Inr 100, carbon_value_at = \<lambda>_ _. Inr 100, measured_power = None,
      progress_of = \<lambda>_. \<lparr>refreshed = Inr (), progress_file = None\<rparr>\<rparr>"

theorem settling_charges_once_witness:
  "\<exists>st'. get_state (tasks (settle_series demo_accounting ''t'' [(10, 10, 10), (30, 30, 30)]
      (demo_node (demo_state Running (Some 42)) {42} {}))) ''t'' = Inr st'
    \<and> charged Running st' = charged Running (demo_state Running (Some 42)) + (30 - 0) * 1"
proof -
  let ?st = "demo_state Running (Some 42)"
  let ?rt = "demo_node ?st {42} {}"
  have inv: "runtime_inv ?rt" by (rule demo_node_inv) (simp_all add: demo_state_ok)
  have "get_state (tasks ?rt) ''t'' = Inr ?st" "get_definition (tasks ?rt) ''t'' = Inr sample_definition" by simp_all
  moreover have "owner_node_id ?st = node_identity (site demo_accounting)" "last_accounted_at ?st = Some 0"
    "task_status ?st \<in> {Running, Paused}" by (simp_all add: demo_state_ok demo_accounting_def)
  moreover have "process_alive ?rt ?st" by (simp add: process_alive_def demo_state_ok)
  moreover have "settlement_sources demo_accounting ''t'' sample_definition"
    by (simp add: settlement_sources_def demo_accounting_def sample_definition_def sample_runtime_def)
  moreover have "wf_clock (environment_clock demo_accounting)" by (simp add: wf_clock_def demo_accounting_def)
  moreover have "sorted (0 # map fst [(10::real, 10::real, 10::real), (30, 30, 30)])" by simp
  ultimately show ?thesis
    using settling_charges_once [of ?rt "''t''" ?st sample_definition demo_accounting 0 "[(10, 10, 10), (30, 30, 30)]"] inv
    by (simp add: demo_state_ok trace_seconds_per_real_second_def demo_accounting_def)
qed

text \<open>
  A restart refused before the launch is lost: when the artifacts of a failed task cannot be
  verified, the swallowed exception leaves the task recovering without a process, and from then on
  neither the recovery scan nor the reconciliation of processes changes it.
\<close>

theorem refused_restart_strands_the_task:
  assumes "get_state (tasks rt) t = Inr st" and "get_definition (tasks rt) t = Inr d" and "state_task_id st = t"
    and "owner_node_id st = runtime_node rt" and "task_status st = Failed"
    and "compatible (check_compatibility (compatibility (profile d)) (node_capabilities rt))"
    and "env_artifacts (start_env env) = Inl e" and "restart env t rt = (rt', r)"
  shows "r = Inr True \<and> (\<exists>st'. get_state (tasks rt') t = Inr st' \<and> task_status st' = Recovering
    \<and> recover_one p now env' t rt' = (rt', Inr False)
    \<and> reconcile_one sha256 manifest_text exit_of synthesize later w st' rt' = (rt', None))"
proof -
  have ft: "failing_task rt t d st" using assms(1-6) by (simp add: failing_task_def)
  obtain st' where st': "get_state (tasks rt') t = Inr st'" "task_status st' = Recovering"
    using restart_refused(1) [OF ft assms(7)] assms(8) by auto
  show ?thesis using restart_refused(2) [OF ft assms(7)] assms(8) st' recovering_ignored [OF st'] by auto
qed

theorem refused_restart_strands_the_task_witness:
  "\<exists>rt' st'. restart \<lparr>checkpoint_check = Inr (), start_env = (demo_env [ready_poll])\<lparr>env_artifacts := Inl (RuntimeError [])\<rparr>,
      wall_now = 0, wall_written = 0\<rparr> ''t'' (demo_node (demo_state Failed None) {} {}) = (rt', Inr True)
    \<and> get_state (tasks rt') ''t'' = Inr st' \<and> task_status st' = Recovering"
proof -
  let ?env = "\<lparr>checkpoint_check = Inr (), start_env = (demo_env [ready_poll])\<lparr>env_artifacts := Inl (RuntimeError [])\<rparr>,
      wall_now = 0, wall_written = 0\<rparr>"
  let ?st = "demo_state Failed None"
  let ?rt = "demo_node ?st {} {}"
  have facts: "get_state (tasks ?rt) ''t'' = Inr ?st" "get_definition (tasks ?rt) ''t'' = Inr sample_definition"
    "state_task_id ?st = ''t''" "owner_node_id ?st = runtime_node ?rt" "task_status ?st = Failed"
    "compatible (check_compatibility (compatibility (profile sample_definition)) (node_capabilities ?rt))"
    "env_artifacts (start_env ?env) = Inl (RuntimeError [])"
    by (simp_all add: demo_state_ok)
  from refused_restart_strands_the_task [OF facts surjective_pairing] show ?thesis
    by (metis surjective_pairing)
qed

end
