(* ===== verification/Migration_Models.thy ===== *)
theory Migration_Models
  imports Runtime_Services Bid_Store Adaptive_Policy
begin

text \<open>
  \<open>magellan/migration/models.py\<close>, \<open>journal.py\<close> and \<open>client.py\<close>: the records of the migration
  journal, the messages between source and destination, and the client that activates a task on
  its destination and asks for the outcome.  The network and the destination are a state of their
  own, \<open>'d\<close>, reached through the operations of \<open>remote\<close>.
\<close>

section \<open>Records and messages\<close>

datatype migration_role = Source_Role | Destination_Role

datatype migration_status =
    Mig_Preparing
  | Mig_Transferring
  | Mig_Activating
  | Mig_Activated
  | Mig_Rolled_Back
  | Mig_Uncertain

record migration_record =
  mr_migration_id :: string
  mr_bid_id :: string
  mr_task_id :: task_id
  mr_source :: node_id
  mr_destination :: node_id
  mr_generation :: int
  mr_migration_at :: datetime
  mr_role :: migration_role
  mr_status :: migration_status
  mr_original :: "task_state option"
  mr_pid :: "int option"
  mr_error :: "string option"
  mr_created_at :: datetime
  mr_updated_at :: datetime

record artifact_binding =
  binding_artifact :: string
  binding_digest :: string
  binding_size :: int

record activation_request =
  ar_migration_id :: string
  ar_bid_id :: string
  ar_task_id :: task_id
  ar_source :: node_id
  ar_destination :: node_id
  ar_generation :: int
  ar_migration_at :: datetime
  ar_artifacts :: "artifact_binding list"
  ar_accounting :: "task_accounting option"
  ar_policy :: "policy_state option"

record activation_response =
  rsp_migration_id :: string
  rsp_task_id :: task_id
  rsp_destination :: node_id
  rsp_generation :: int
  rsp_activated :: bool
  rsp_pid :: "int option"
  rsp_error :: "string option"

definition digests_of :: "artifact_binding list \<Rightarrow> string dict" where
  "digests_of bs = fold (\<lambda>b. dict_put (binding_artifact b) (binding_digest b)) bs []"

definition finished :: "migration_status \<Rightarrow> bool" where
  "finished s = (s \<in> {Mig_Activated, Mig_Rolled_Back})"

section \<open>Journal\<close>

text \<open>One file per migration; the directory listing gives the records in the order of the list.\<close>

type_synonym journal = "migration_record dict"

definition journal_put :: "migration_record \<Rightarrow> journal \<Rightarrow> journal" where
  "journal_put r j = dict_put (mr_migration_id r) r j"

definition journal_get :: "journal \<Rightarrow> string \<Rightarrow> migration_record option" where
  "journal_get j m = dict_get j m"

definition journal_records :: "journal \<Rightarrow> migration_record list" where
  "journal_records j = sort_key mr_created_at (map snd j)"

definition put_record :: "datetime \<Rightarrow> migration_record \<Rightarrow> journal \<Rightarrow> journal" where
  "put_record now r j = journal_put (r\<lparr>mr_updated_at := now\<rparr>) j"

definition set_record_status ::
  "datetime \<Rightarrow> string \<Rightarrow> migration_status \<Rightarrow> int option \<Rightarrow> string option \<Rightarrow> journal \<Rightarrow> journal" where
  "set_record_status now m s p err j =
     (case journal_get j m of
        None \<Rightarrow> j
      | Some r \<Rightarrow> put_record now (r\<lparr>mr_status := s, mr_pid := p, mr_error := err\<rparr>) j)"

section \<open>Client\<close>

type_synonym checkpoint = "string dict"

datatype status_answer = Unreachable | Answer "migration_record option"

text \<open>
  What the source can do to the rest of the world: send a checkpoint, deliver one activation
  request (\<open>None\<close>: no valid response came back), read the answers its status queries get until the
  deadline, cancel the reservation, broadcast an ownership
  update with the adaptive policy of the task.
\<close>

record 'd remote =
  send_checkpoint :: "string \<Rightarrow> task_id \<Rightarrow> checkpoint option \<Rightarrow> 'd \<Rightarrow> 'd \<times> int result"
  deliver :: "nat \<Rightarrow> activation_request \<Rightarrow> 'd \<Rightarrow> 'd \<times> activation_response option"
  polls :: "string \<Rightarrow> 'd \<Rightarrow> status_answer list"
  cancel_reservation :: "string \<Rightarrow> decision_reason \<Rightarrow> 'd \<Rightarrow> 'd"
  broadcast :: "ownership_update \<Rightarrow> policy_state option \<Rightarrow> 'd \<Rightarrow> 'd"

fun client_attempts ::
  "'d remote \<Rightarrow> activation_request \<Rightarrow> nat list \<Rightarrow> 'd \<Rightarrow> 'd \<times> activation_response result" where
  "client_attempts net req [] d =
     (d, Inl (ActivationOutcomeUnknownError ''Destination activation outcome is unknown after retries''))"
| "client_attempts net req (i # is) d =
     (case deliver net i req d of
        (d', Some r) \<Rightarrow> (d', Inr r)
      | (d', None) \<Rightarrow> client_attempts net req is d')"

definition client_activate ::
  "'d remote \<Rightarrow> activation_request \<Rightarrow> 'd \<Rightarrow> 'd \<times> activation_response result" where
  "client_activate net req d = client_attempts net req [1, 2, 3] d"

text \<open>The loop over the status queries: an unreachable destination forgets the last record seen.\<close>

fun query_loop :: "status_answer list \<Rightarrow> migration_record option \<Rightarrow> bool \<Rightarrow> migration_record option \<times> bool" where
  "query_loop [] seen reached = (seen, reached)"
| "query_loop (Unreachable # ps) seen reached = query_loop ps None reached"
| "query_loop (Answer r # ps) seen reached =
     (case r of
        Some rec \<Rightarrow> if finished (mr_status rec) then (Some rec, True) else query_loop ps (Some rec) True
      | None \<Rightarrow> query_loop ps None True)"

definition query_remote_outcome :: "'d remote \<Rightarrow> string \<Rightarrow> 'd \<Rightarrow> migration_record option \<times> bool" where
  "query_remote_outcome net m d = query_loop (polls net m d) None False"

text \<open>How the source reads the answer of the queries.\<close>

datatype remote_verdict = Committed | Refused | Unknown_Outcome

definition verdict_of :: "migration_record option \<times> bool \<Rightarrow> remote_verdict" where
  "verdict_of q =
     (case q of
        (Some r, reached) \<Rightarrow>
          if mr_status r = Mig_Activated then Committed
          else if mr_status r = Mig_Rolled_Back then Refused
          else Unknown_Outcome
      | (None, reached) \<Rightarrow> if reached then Refused else Unknown_Outcome)"

section \<open>Laws\<close>

lemma journal_get_put [simp]:
  "journal_get (journal_put r j) m = (if m = mr_migration_id r then Some r else journal_get j m)"
  by (simp add: journal_get_def journal_put_def)

lemma journal_get_status [simp]:
  assumes "\<And>m r. journal_get j m = Some r \<Longrightarrow> mr_migration_id r = m"
  shows "journal_get (set_record_status now m s p err j) m' =
    (if m' = m then map_option (\<lambda>r. r\<lparr>mr_status := s, mr_pid := p, mr_error := err, mr_updated_at := now\<rparr>) (journal_get j m)
     else journal_get j m')"
  using assms by (auto simp: set_record_status_def put_record_def split: option.split)

text \<open>
  A destination that answered only with unfinished records, and then could not be reached, is
  treated like one that knows nothing of the migration.
\<close>

lemma query_forgets_unfinished:
  assumes "\<not> finished (mr_status r)"
  shows "verdict_of (query_loop [Answer (Some r), Unreachable] None False) = Refused"
  using assms by (simp add: verdict_of_def)

text \<open>
  With answers that tell the truth, so does the verdict; an answer that is not final is the truth
  only of a destination that has not taken the task over.
\<close>

definition truthful :: "bool \<Rightarrow> migration_record option \<Rightarrow> bool" where
  "truthful c r = (case r of None \<Rightarrow> \<not> c
     | Some rec \<Rightarrow> if finished (mr_status rec) then (mr_status rec = Mig_Activated) = c else \<not> c)"

lemma query_loop_sound:
  assumes "\<forall>r. Answer r \<in> set ps \<longrightarrow> truthful c r"
    and "\<forall>r. seen = Some r \<longrightarrow> \<not> finished (mr_status r)" and "reached \<longrightarrow> \<not> c"
  shows "case verdict_of (query_loop ps seen reached) of Committed \<Rightarrow> c | Refused \<Rightarrow> \<not> c | Unknown_Outcome \<Rightarrow> True"
  using assms
proof (induction ps arbitrary: seen reached)
  case Nil
  then show ?case by (auto simp: verdict_of_def finished_def split: option.split)
next
  case (Cons a ps)
  show ?case
  proof (cases a)
    case Unreachable
    then show ?thesis using Cons by simp
  next
    case (Answer r)
    have rest: "\<forall>r. Answer r \<in> set ps \<longrightarrow> truthful c r" and told: "truthful c r" using Cons.prems(1) Answer by auto
    show ?thesis
    proof (cases r)
      case None
      then show ?thesis using Cons.IH [OF rest, of None True] told Answer by (simp add: truthful_def)
    next
      case (Some rec)
      then show ?thesis using Cons.IH [OF rest, of "Some rec" True] told Answer
        by (auto simp: truthful_def verdict_of_def finished_def)
    qed
  qed
qed

end
