(* ===== verification/Migration_Destination.thy ===== *)
theory Migration_Destination
  imports Migration_Models
begin

text \<open>
  The destination side of \<open>magellan/migration/service.py\<close>: \<open>activate_incoming\<close> with its idempotent
  retry and its rollback, and the reconciliation of a destination record after a restart.  A node
  is its runtime with the registry, its journal, its bid store, its adaptive policies and the
  checkpoint directories (the live one of each task, the rollback copy of a migration, and what has
  been received for it).  Each step is a state transformer with a result; an exception is \<open>Inl\<close>.
\<close>

section \<open>State\<close>

record migration_node =
  runtime_of :: local_runtime
  journal :: journal
  bids :: bid_store
  policies :: "policy_store option"
  checkpoints :: "task_id \<Rightarrow> checkpoint option"
  backups :: "task_id \<times> string \<Rightarrow> checkpoint option"
  incoming :: "string \<Rightarrow> task_id \<Rightarrow> checkpoint option"

definition and_then :: "('s \<Rightarrow> 's \<times> 'a result) \<Rightarrow> ('a \<Rightarrow> 's \<Rightarrow> 's \<times> 'b result) \<Rightarrow> 's \<Rightarrow> 's \<times> 'b result" where
  "and_then f g s = (case f s of (s', Inl e) \<Rightarrow> (s', Inl e) | (s', Inr x) \<Rightarrow> g x s')"

definition in_runtime :: "(local_runtime \<Rightarrow> local_runtime \<times> 'a result) \<Rightarrow> migration_node \<Rightarrow> migration_node \<times> 'a result" where
  "in_runtime f n = (let (rt, r) = f (runtime_of n) in (n\<lparr>runtime_of := rt\<rparr>, r))"

definition in_bids :: "(bid_store \<Rightarrow> bid_store \<times> 'a result) \<Rightarrow> migration_node \<Rightarrow> migration_node \<times> 'a result" where
  "in_bids f n = (let (b, r) = f (bids n) in (n\<lparr>bids := b\<rparr>, r))"

definition answer :: "'a result \<Rightarrow> 's \<Rightarrow> 's \<times> 'a result" where
  "answer r s = (s, r)"

definition set_status ::
  "datetime \<Rightarrow> string \<Rightarrow> migration_status \<Rightarrow> int option \<Rightarrow> string option \<Rightarrow> migration_node \<Rightarrow> migration_node" where
  "set_status now m s p err n = n\<lparr>journal := set_record_status now m s p err (journal n)\<rparr>"

definition local_id :: "migration_node \<Rightarrow> node_id" where
  "local_id n = runtime_node (runtime_of n)"

text \<open>\<open>set_state\<close> of the registry.\<close>

definition set_state :: "datetime \<Rightarrow> task_state \<Rightarrow> migration_node \<Rightarrow> migration_node" where
  "set_state now st n = n\<lparr>runtime_of := (runtime_of n)\<lparr>tasks := write_state now st (tasks (runtime_of n))\<rparr>\<rparr>"

definition merge_received :: "policy_state option \<Rightarrow> migration_node \<Rightarrow> migration_node" where
  "merge_received p n =
     (case (p, policies n) of
        (Some st, Some s) \<Rightarrow> n\<lparr>policies := Some (fst (merge_policy s st))\<rparr>
      | _ \<Rightarrow> n)"

section \<open>Activation\<close>

text \<open>
  How the received directory takes its place: the old one moves away and the tree is copied; the
  move is refused; or the copy fails and leaves what it had written (nothing, or a partial tree).
\<close>

datatype installation = Installed | Move_Refused error | Copy_Refused error "checkpoint option"

text \<open>
  What the outside answers during one activation: the copy of the received checkpoint, its
  validation, the staging of the artifacts, the start of the process, a cancellation of the lease
  that arrives while the process starts, the reaction of the process to a stop, and the clock.
\<close>

record activation_environment =
  installation_answer :: installation
  checkpoint_answer :: "checkpoint \<Rightarrow> unit result"
  staging_answer :: "unit result"
  activation_start :: start_environment
  cancelled_meanwhile :: "string option"
  activation_stop :: stop_reaction
  activation_now :: datetime

definition incoming_record :: "datetime \<Rightarrow> activation_request \<Rightarrow> migration_status \<Rightarrow> task_state option \<Rightarrow> int option \<Rightarrow> migration_record" where
  "incoming_record now req s original p =
     \<lparr>mr_migration_id = ar_migration_id req, mr_bid_id = ar_bid_id req, mr_task_id = ar_task_id req,
      mr_source = ar_source req, mr_destination = ar_destination req, mr_generation = ar_generation req,
      mr_migration_at = ar_migration_at req, mr_role = Destination_Role, mr_status = s,
      mr_original = original, mr_pid = p, mr_error = None, mr_created_at = now, mr_updated_at = now\<rparr>"

definition response_to :: "activation_request \<Rightarrow> node_id \<Rightarrow> int \<Rightarrow> bool \<Rightarrow> int option \<Rightarrow> string option \<Rightarrow> activation_response" where
  "response_to req node g activated p err =
     \<lparr>rsp_migration_id = ar_migration_id req, rsp_task_id = ar_task_id req, rsp_destination = node,
      rsp_generation = g, rsp_activated = activated, rsp_pid = p, rsp_error = err\<rparr>"

definition claim_reservation :: "activation_environment \<Rightarrow> activation_request \<Rightarrow> migration_node \<Rightarrow> migration_node \<times> unit result" where
  "claim_reservation env req =
     and_then (in_bids (begin_activation (ar_bid_id req) (ar_task_id req) (ar_source req) (ar_destination req)
                  (activation_now env)))
       (\<lambda>_ n. case incoming n (ar_migration_id req) (ar_task_id req) of
                None \<Rightarrow> (n, Inl (FileNotFoundError ''Incoming checkpoint not found''))
              | Some c \<Rightarrow> (n, Inr ()))"

text \<open>
  A rollback copy left over is deleted, the old checkpoint becomes the rollback copy, and the
  received one is copied to its place.
\<close>

definition install_checkpoint :: "activation_environment \<Rightarrow> activation_request \<Rightarrow> migration_node \<Rightarrow> migration_node \<times> unit result" where
  "install_checkpoint env req n =
     (let t = ar_task_id req; m = ar_migration_id req;
          moved = n\<lparr>backups := (backups n)((t, m) := checkpoints n t), checkpoints := (checkpoints n)(t := None)\<rparr>
      in case installation_answer env of
           Installed \<Rightarrow> (moved\<lparr>checkpoints := (checkpoints n)(t := incoming n m t)\<rparr>, Inr ())
         | Move_Refused e \<Rightarrow> (n\<lparr>backups := (backups n)((t, m) := None)\<rparr>, Inl e)
         | Copy_Refused e left \<Rightarrow> (moved\<lparr>checkpoints := (checkpoints n)(t := left)\<rparr>, Inl e))"

definition establish :: "activation_environment \<Rightarrow> activation_request \<Rightarrow> migration_node \<Rightarrow> migration_node \<times> task_state result" where
  "establish env req =
     and_then (\<lambda>n. (n, case checkpoints n (ar_task_id req) of
                        None \<Rightarrow> Inl (CheckpointValidationError ''Checkpoint directory does not exist'')
                      | Some c \<Rightarrow> checkpoint_answer env c))
     (\<lambda>_. and_then (answer (staging_answer env))
     (\<lambda>_ n. and_then (in_runtime (on_tasks (claim_local (local_id n) (ar_generation req) (ar_migration_id req)
               (digests_of (ar_artifacts req)) (ar_migration_at req) (ar_accounting req))
               (activation_now env) (ar_task_id req)))
       (\<lambda>_. in_runtime (start (ar_task_id req) (activation_start env) (activation_now env) (activation_now env))) n))"

definition commit_reservation :: "activation_environment \<Rightarrow> activation_request \<Rightarrow> migration_node \<Rightarrow> migration_node \<times> unit result" where
  "commit_reservation env req n =
     and_then (in_bids (consume (ar_bid_id req) (activation_now env))) (\<lambda>_. answer (Inr ()))
       (merge_received (ar_policy req) n)"

text \<open>
  The rollback copy moves back.  A directory cannot be renamed over one that holds files: when the
  place was not cleared (nothing was installed) and holds files, the rename raises.
\<close>

definition holds_files :: "checkpoint option \<Rightarrow> bool" where
  "holds_files c = (case c of None \<Rightarrow> False | Some files \<Rightarrow> files \<noteq> [])"

definition restore_checkpoint :: "bool \<Rightarrow> activation_request \<Rightarrow> migration_node \<Rightarrow> migration_node \<times> unit result" where
  "restore_checkpoint replaced req n =
     (let t = ar_task_id req; m = ar_migration_id req;
          n1 = (if replaced then n\<lparr>checkpoints := (checkpoints n)(t := None)\<rparr> else n)
      in case backups n (t, m) of
           None \<Rightarrow> (n1, Inr ())
         | Some c \<Rightarrow>
             if holds_files (checkpoints n1 t) then (n1, Inl (OtherError ''OSError: Directory not empty''))
             else (n1\<lparr>checkpoints := (checkpoints n1)(t := Some c), backups := (backups n1)((t, m) := None)\<rparr>, Inr ()))"

definition cancel_locally :: "string \<Rightarrow> string \<Rightarrow> datetime \<Rightarrow> migration_node \<Rightarrow> migration_node" where
  "cancel_locally bid reason now n = fst (in_bids (cancel bid (ReasonText reason) now) n)"

definition drop_incoming :: "string \<Rightarrow> migration_node \<Rightarrow> migration_node" where
  "drop_incoming m n = n\<lparr>incoming := (incoming n)(m := (\<lambda>_. None))\<rparr>"

definition rollback_activation ::
  "activation_environment \<Rightarrow> activation_request \<Rightarrow> task_state \<Rightarrow> bool \<Rightarrow> bool \<Rightarrow> error \<Rightarrow> migration_node
     \<Rightarrow> migration_node \<times> activation_response result" where
  "rollback_activation env req original replaced started e n =
     (let t = ar_task_id req; m = ar_migration_id req; now = activation_now env; err = describe_error e;
          n1 = (if started then fst (in_runtime (stop_process t (activation_stop env) now) n) else n)
      in case restore_checkpoint replaced req n1 of
           (n2, Inl e2) \<Rightarrow> (n2, Inl e2)
         | (n2, Inr _) \<Rightarrow>
             let n3 = set_status now m Mig_Rolled_Back None (Some err) (set_state now original n2);
                 n4 = drop_incoming m (cancel_locally (ar_bid_id req) (''Destination activation rolled back: '' @ err) now n3)
             in (n4, Inr (response_to req (local_id n4) (ar_generation req) False None (Some err))))"

definition complete_activation ::
  "activation_environment \<Rightarrow> activation_request \<Rightarrow> task_state \<Rightarrow> migration_node \<Rightarrow> migration_node \<times> activation_response" where
  "complete_activation env req st n =
     (let t = ar_task_id req; m = ar_migration_id req; now = activation_now env;
          n1 = set_status now m Mig_Activated (pid (process st)) None n;
          n2 = drop_incoming m (n1\<lparr>backups := (backups n1)((t, m) := None)\<rparr>)
      in (n2, response_to req (local_id n2) (ar_generation req) True (pid (process st)) None))"

text \<open>A cancellation of the lease by its source, served while the process starts.\<close>

definition lease_meanwhile :: "activation_environment \<Rightarrow> activation_request \<Rightarrow> migration_node \<Rightarrow> migration_node" where
  "lease_meanwhile env req n =
     (case cancelled_meanwhile env of None \<Rightarrow> n
      | Some reason \<Rightarrow> cancel_locally (ar_bid_id req) reason (activation_now env) n)"

text \<open>
  The transaction: claim the lease, install the checkpoint, take the task over, commit.  What is
  raised on the way starts the rollback; what the rollback raises leaves the request.
\<close>

definition run_activation ::
  "activation_environment \<Rightarrow> activation_request \<Rightarrow> task_state \<Rightarrow> migration_node \<Rightarrow> migration_node \<times> activation_response result" where
  "run_activation env req original n =
     (case claim_reservation env req n of
        (n1, Inl e) \<Rightarrow> rollback_activation env req original False False e n1
      | (n1, Inr _) \<Rightarrow>
          (case install_checkpoint env req n1 of
             (n2, Inl e) \<Rightarrow> rollback_activation env req original False False e n2
           | (n2, Inr _) \<Rightarrow>
               (case establish env req n2 of
                  (n3, Inl e) \<Rightarrow> rollback_activation env req original True False e n3
                | (n3, Inr st) \<Rightarrow>
                    (case commit_reservation env req (lease_meanwhile env req n3) of
                       (n4, Inl e) \<Rightarrow> rollback_activation env req original True True e n4
                     | (n4, Inr _) \<Rightarrow> (case complete_activation env req st n4 of (n5, r) \<Rightarrow> (n5, Inr r))))))"

definition already_active :: "activation_request \<Rightarrow> task_state \<Rightarrow> migration_node \<Rightarrow> bool" where
  "already_active req st n \<longleftrightarrow>
     last_migration_id st = Some (ar_migration_id req) \<and> owner_node_id st = local_id n
   \<and> generation st = ar_generation req"

definition confirm_activation ::
  "activation_environment \<Rightarrow> activation_request \<Rightarrow> task_state \<Rightarrow> migration_node \<Rightarrow> migration_node \<times> activation_response" where
  "confirm_activation env req st n =
     (let now = activation_now env; m = ar_migration_id req;
          n' = (case journal_get (journal n) m of
                  None \<Rightarrow> n\<lparr>journal := put_record now (incoming_record now req Mig_Activated None (pid (process st))) (journal n)\<rparr>
                | Some _ \<Rightarrow> set_status now m Mig_Activated (pid (process st)) None n)
      in (n', response_to req (local_id n') (generation st) True (pid (process st)) None))"

definition begin_record :: "activation_environment \<Rightarrow> activation_request \<Rightarrow> task_state \<Rightarrow> migration_node \<Rightarrow> migration_node" where
  "begin_record env req st n =
     (let now = activation_now env; m = ar_migration_id req
      in case journal_get (journal n) m of
           None \<Rightarrow> n\<lparr>journal := put_record now (incoming_record now req Mig_Activating (Some st) None) (journal n)\<rparr>
         | Some _ \<Rightarrow> set_status now m Mig_Activating None None n)"

definition activate_incoming ::
  "activation_environment \<Rightarrow> activation_request \<Rightarrow> migration_node \<Rightarrow> migration_node \<times> activation_response result" where
  "activate_incoming env req n =
     (if ar_destination req \<noteq> local_id n
      then (n, Inr (response_to req (local_id n) (ar_generation req) False None
             (Some (''Request destination is '' @ ar_destination req @ '', but local node is '' @ local_id n))))
      else case get_state (tasks (runtime_of n)) (ar_task_id req) of
        Inl e \<Rightarrow> (n, Inl e)
      | Inr st \<Rightarrow>
          let n1 = merge_received (ar_policy req) n
          in if already_active req st n1
             then (let (n2, r) = confirm_activation env req st n1 in (n2, Inr r))
             else case journal_get (journal n1) (ar_migration_id req) of
               Some record \<Rightarrow>
                 if mr_status record = Mig_Rolled_Back
                 then (n1, Inr (response_to req (local_id n1) (ar_generation req) False None
                        (case mr_error record of None \<Rightarrow> Some ''Activation previously rolled back'' | e \<Rightarrow> e)))
                 else run_activation env req st (begin_record env req st n1)
             | None \<Rightarrow> run_activation env req st (begin_record env req st n1))"

section \<open>Reconciliation of a destination record\<close>

definition committed_here :: "migration_record \<Rightarrow> task_state \<Rightarrow> migration_node \<Rightarrow> bool" where
  "committed_here record st n \<longleftrightarrow>
     owner_node_id st = local_id n \<and> generation st = mr_generation record
   \<and> last_migration_id st = Some (mr_migration_id record) \<and> task_status st \<in> {Running, Paused, Completed}"

text \<open>The lease of a committed migration is driven to its end; errors are swallowed.\<close>

definition settle_reservation :: "datetime \<Rightarrow> migration_record \<Rightarrow> migration_node \<Rightarrow> migration_node" where
  "settle_reservation now record n =
     (let (b1, bid) = get_bid (mr_bid_id record) now (bids n);
          (b2, bid2) =
            (case bid of
               Some r \<Rightarrow>
                 if bid_record.status r = Accepted
                 then (case begin_activation (mr_bid_id record) (mr_task_id record) (mr_source record)
                              (mr_destination record) now b1 of
                         (b, Inl e) \<Rightarrow> (b, None)
                       | (b, Inr _) \<Rightarrow> get_bid (mr_bid_id record) now b)
                 else (b1, bid)
             | None \<Rightarrow> (b1, None))
      in n\<lparr>bids := (case bid2 of
             Some r \<Rightarrow> if bid_record.status r = Activating then fst (consume (mr_bid_id record) now b2) else b2
           | None \<Rightarrow> b2)\<rparr>)"

definition reconcile_destination_record ::
  "stop_reaction \<Rightarrow> datetime \<Rightarrow> migration_record \<Rightarrow> migration_node \<Rightarrow> migration_node \<times> unit result" where
  "reconcile_destination_record reaction now record n =
     (let t = mr_task_id record; m = mr_migration_id record
      in case get_state (tasks (runtime_of n)) t of
           Inl e \<Rightarrow> (n, Inl e)
         | Inr st \<Rightarrow>
             if committed_here record st n
             then (set_status now m Mig_Activated (pid (process st)) None (settle_reservation now record n), Inr ())
             else
               let n1 = (if last_migration_id st = Some m \<and> owner_node_id st = local_id n \<and> pid (process st) \<noteq> None
                         then fst (in_runtime (stop_process t reaction now) n) else n);
                   n2 = (case backups n1 (t, m) of
                           None \<Rightarrow> n1
                         | Some c \<Rightarrow> n1\<lparr>checkpoints := (checkpoints n1)(t := Some c),
                                        backups := (backups n1)((t, m) := None)\<rparr>);
                   n3 = (case mr_original record of None \<Rightarrow> n2 | Some original \<Rightarrow> set_state now original n2);
                   message = ''Daemon restart rolled back incomplete activation'';
                   n4 = drop_incoming m (cancel_locally (mr_bid_id record) message now n3)
               in (set_status now m Mig_Rolled_Back None (Some message) n4, Inr ()))"

end
