(* ===== verification/Migration_Source.thy ===== *)
theory Migration_Source
  imports Migration_Destination
begin

text \<open>
  The source side of \<open>magellan/migration/service.py\<close>: \<open>migrate\<close> with its three ways out (success,
  failure, unknown outcome), the finalisation and the rollback of a source record, and the
  reconciliation of the journal.  The state is the local node together with the rest of the world,
  \<open>'d\<close>, which the operations of \<open>remote\<close> change.  The heartbeat of the reservation, which runs
  beside the migration and only extends the lease, is part of the world.
\<close>

section \<open>Environment\<close>

text \<open>
  What the outside answers during one migration: the new identifier, the prefetch of the artifacts
  with the bytes that were missing, the settlement service with its clock reads, the reaction of the
  process to a stop, the validation of the checkpoint with its size, the telemetry calls, the
  carbon and network data of the accounting, and a restart of the process if it comes to that.
\<close>

record migrate_environment =
  new_id :: string
  prefetch_answer :: "(int \<times> artifact_binding list) result"
  settlement :: "accounting_environment option"
  settle_wall :: datetime
  settle_trace :: "datetime result"
  source_stop :: stop_reaction
  source_checkpoint :: "checkpoint option \<Rightarrow> int result"
  telemetry_transfer :: "unit result"
  accounting_cluster :: cluster_config
  accounting_edge :: "edge_metrics result"
  accounting_policy :: migration_policy
  downtime_so_far :: real
  telemetry_calibration :: "unit result"
  experiment_failed :: "unit result"
  restart_env :: start_environment
  migrate_now :: datetime

type_synonym 'd world = "migration_node \<times> 'd"

definition here :: "(migration_node \<Rightarrow> migration_node \<times> 'a result) \<Rightarrow> 'd world \<Rightarrow> 'd world \<times> 'a result" where
  "here f s = (let (n, r) = f (fst s) in ((n, snd s), r))"

definition there :: "('d \<Rightarrow> 'd \<times> 'a result) \<Rightarrow> 'd world \<Rightarrow> 'd world \<times> 'a result" where
  "there f s = (let (d, r) = f (snd s) in ((fst s, d), r))"

definition noted :: "(migration_node \<Rightarrow> migration_node) \<Rightarrow> 'd world \<Rightarrow> 'd world \<times> unit result" where
  "noted f s = ((f (fst s), snd s), Inr ())"

section \<open>Finalisation and rollback\<close>

definition success_update ::
  "task_id \<Rightarrow> node_id \<Rightarrow> string \<Rightarrow> int \<Rightarrow> datetime \<Rightarrow> artifact_binding list \<Rightarrow> task_accounting \<Rightarrow> ownership_update" where
  "success_update t destination m g at_time bindings acc =
     \<lparr>ou_task_id = t, ou_owner = destination, ou_generation = g, ou_migration_id = Some m,
      ou_migration_at = Some at_time, ou_artifact_digests = digests_of bindings, ou_status = None,
      ou_completed_at = None, ou_manifest_sha256 = None, ou_output_bytes = None, ou_accounting = Some acc\<rparr>"

definition policy_copy :: "task_id \<Rightarrow> migration_node \<Rightarrow> policy_state option" where
  "policy_copy t n = (case policies n of None \<Rightarrow> None | Some s \<Rightarrow> get_policy s t)"

definition finalize_source_success ::
  "'d remote \<Rightarrow> task_id \<Rightarrow> node_id \<Rightarrow> string \<Rightarrow> int \<Rightarrow> datetime \<Rightarrow> artifact_binding list \<Rightarrow> datetime
     \<Rightarrow> 'd world \<Rightarrow> 'd world \<times> unit result" where
  "finalize_source_success net t destination m g at_time bindings now =
     and_then (here (in_runtime (on_tasks (mark_remote destination g m at_time) now t)))
     (\<lambda>_ s. case get_state (tasks (runtime_of (fst s))) t of
         Inl e \<Rightarrow> (s, Inl e)
       | Inr st \<Rightarrow>
           and_then (there (\<lambda>d. (broadcast net (success_update t destination m g at_time bindings (accounting st)) (policy_copy t (fst s)) d, Inr ())))
             (\<lambda>_. noted (set_status now m Mig_Activated None None)) s)"

text \<open>The state a source record restores: the snapshot, owned here, stopped, without a process.\<close>

definition restored_state :: "node_id \<Rightarrow> migration_record \<Rightarrow> string \<Rightarrow> task_state \<Rightarrow> task_state" where
  "restored_state node record reason original =
     original\<lparr>owner_node_id := node, generation := max 0 (mr_generation record - 1), task_status := Stopped,
       process := (process original)\<lparr>pid := None\<rparr>, last_error := Some reason\<rparr>"

definition restart_here ::
  "start_environment \<Rightarrow> datetime \<Rightarrow> task_id \<Rightarrow> (error \<Rightarrow> string) \<Rightarrow> migration_node \<Rightarrow> migration_node \<times> unit result" where
  "restart_here env now t message n =
     (case in_runtime (start t env now now) n of
        (n', Inr _) \<Rightarrow> (n', Inr ())
      | (n', Inl e) \<Rightarrow>
          and_then (in_runtime (on_tasks (mark_failed (message e) None now) now t)) (\<lambda>_. answer (Inr ())) n')"

definition rollback_source_record ::
  "start_environment \<Rightarrow> datetime \<Rightarrow> migration_record \<Rightarrow> string \<Rightarrow> migration_node \<Rightarrow> migration_node \<times> unit result" where
  "rollback_source_record env now record reason n =
     (let t = mr_task_id record
      in and_then
           (\<lambda>n. case mr_original record of
                  Some original \<Rightarrow> (set_state now (restored_state (local_id n) record reason original) n, Inr ())
                | None \<Rightarrow> and_then (in_runtime (on_tasks
                      (restore_local_after_failure (local_id n) (max 0 (mr_generation record - 1)) reason) now t))
                    (\<lambda>_. answer (Inr ())) n)
         (\<lambda>_ n. case get_state (tasks (runtime_of n)) t of
             Inl e \<Rightarrow> (n, Inl e)
           | Inr st \<Rightarrow>
               and_then
                 (if owner_node_id st = local_id n \<and> pid (process st) = None
                  then restart_here env now t (\<lambda>e. ''Durable migration rollback restart failed: '' @ error_message e)
                  else answer (Inr ()))
               (\<lambda>_ n. (set_status now (mr_migration_id record) Mig_Rolled_Back None (Some reason) n, Inr ())) n) n)"

section \<open>The phases of a migration\<close>

definition source_record :: "migrate_environment \<Rightarrow> task_id \<Rightarrow> node_id \<Rightarrow> datetime \<Rightarrow> string \<Rightarrow> task_state \<Rightarrow> node_id \<Rightarrow> migration_record" where
  "source_record env t destination at_time bid original node =
     \<lparr>mr_migration_id = new_id env, mr_bid_id = bid, mr_task_id = t, mr_source = node,
      mr_destination = destination, mr_generation = generation original + 1, mr_migration_at = at_time,
      mr_role = Source_Role, mr_status = Mig_Preparing, mr_original = Some original, mr_pid = None,
      mr_error = None, mr_created_at = migrate_now env, mr_updated_at = migrate_now env\<rparr>"

text \<open>Quiesce: settle the accounting, mark the task migrating, stop its process.\<close>

definition quiesce_source :: "migrate_environment \<Rightarrow> task_id \<Rightarrow> migration_node \<Rightarrow> migration_node \<times> unit result" where
  "quiesce_source env t =
     and_then (\<lambda>n. case settlement env of
                 None \<Rightarrow> (n, Inr ())
               | Some acc \<Rightarrow> and_then (answer (settle_trace env)) (\<lambda>trace.
                   and_then (in_runtime (settle_task acc (settle_wall env) trace (migrate_now env) t))
                     (\<lambda>_. answer (Inr ()))) n)
     (\<lambda>_ n. and_then (in_runtime (on_tasks (mark_migrating (local_id n) (new_id env)) (migrate_now env) t))
     (\<lambda>_ n. and_then (in_runtime (stop_process t (source_stop env) (migrate_now env)))
        (\<lambda>_. answer (Inr ())) (set_status (migrate_now env) (new_id env) Mig_Transferring None None n)) n)"

definition activation_request_of ::
  "migrate_environment \<Rightarrow> task_id \<Rightarrow> node_id \<Rightarrow> datetime \<Rightarrow> string \<Rightarrow> int \<Rightarrow> artifact_binding list \<Rightarrow> task_state \<Rightarrow> migration_node
     \<Rightarrow> activation_request" where
  "activation_request_of env t destination at_time bid g bindings st n =
     \<lparr>ar_migration_id = new_id env, ar_bid_id = bid, ar_task_id = t, ar_source = local_id n,
      ar_destination = destination, ar_generation = g, ar_migration_at = at_time, ar_artifacts = bindings,
      ar_accounting = Some (accounting st),
      ar_policy = policy_copy t n\<rparr>"

text \<open>Handover: checkpoint, transfer, accounting, activation; a refused activation is an exception.\<close>

definition transfer_phase ::
  "'d remote \<Rightarrow> migrate_environment \<Rightarrow> task_id \<Rightarrow> node_id \<Rightarrow> datetime \<Rightarrow> int \<Rightarrow> 'd world \<Rightarrow> 'd world \<times> unit result" where
  "transfer_phase net env t destination at_time missing =
     and_then (\<lambda>s. (s, source_checkpoint env (checkpoints (fst s) t)))
     (\<lambda>bytes. and_then (\<lambda>s. there (send_checkpoint net (new_id env) t (checkpoints (fst s) t)) s)
     (\<lambda>sent. and_then (answer (if 0 < sent then telemetry_transfer env else Inr ()))
     (\<lambda>_ s. case settlement env of
         None \<Rightarrow> (s, Inr ())
       | Some acc \<Rightarrow> and_then (here (in_runtime (record_migration acc (accounting_cluster env) (accounting_edge env)
             (accounting_policy env) t destination (missing + bytes) (downtime_so_far env) at_time (migrate_now env))))
           (\<lambda>_. answer (Inr ())) s)))"

definition activation_phase ::
  "'d remote \<Rightarrow> migrate_environment \<Rightarrow> task_id \<Rightarrow> node_id \<Rightarrow> datetime \<Rightarrow> string \<Rightarrow> int \<Rightarrow> artifact_binding list
     \<Rightarrow> 'd world \<Rightarrow> 'd world \<times> unit result" where
  "activation_phase net env t destination at_time bid g bindings s =
     (case get_state (tasks (runtime_of (fst s))) t of
        Inl e \<Rightarrow> (s, Inl e)
      | Inr st \<Rightarrow>
          and_then (noted (set_status (migrate_now env) (new_id env) Mig_Activating None None))
          (\<lambda>_ s1. and_then (there (client_activate net
              (activation_request_of env t destination at_time bid g bindings st (fst s))))
             (\<lambda>rsp. answer (if rsp_activated rsp then Inr ()
                 else Inl (RuntimeError (case rsp_error rsp of None \<Rightarrow> ''Destination rejected activation'' | Some e \<Rightarrow> e)))) s1) s)"

section \<open>The ways out\<close>

definition give_back ::
  "migrate_environment \<Rightarrow> task_id \<Rightarrow> int \<Rightarrow> bool \<Rightarrow> error \<Rightarrow> migration_node \<Rightarrow> migration_node \<times> bool result" where
  "give_back env t old_generation stopped e n =
     (let err = describe_error e; now = migrate_now env
      in and_then (answer (experiment_failed env))
         (\<lambda>_ n. and_then (in_runtime (on_tasks (restore_local_after_failure (local_id n) old_generation err) now t))
         (\<lambda>_. and_then (if stopped
              then restart_here (restart_env env) now t
                     (\<lambda>x. ''Migration failed: '' @ err @ ''; local restart failed: '' @ error_message x)
              else answer (Inr ()))
         (\<lambda>_ n. (set_status now (new_id env) Mig_Rolled_Back None (Some err) n, Inr False))) n) n)"

definition unknown_message :: "error \<Rightarrow> string" where
  "unknown_message e =
     ''Migration activation outcome remains unknown; durable reconciliation will retry. '' @ describe_error e"

definition resolve_unknown ::
  "'d remote \<Rightarrow> migrate_environment \<Rightarrow> task_id \<Rightarrow> node_id \<Rightarrow> datetime \<Rightarrow> int \<Rightarrow> artifact_binding list \<Rightarrow> error
     \<Rightarrow> 'd world \<Rightarrow> 'd world \<times> bool result" where
  "resolve_unknown net env t destination at_time g bindings e s =
     (let m = new_id env; now = migrate_now env;
          s1 = (set_status now m Mig_Uncertain None (Some (describe_error e)) (fst s), snd s)
      in case verdict_of (query_remote_outcome net m (snd s)) of
           Committed \<Rightarrow> and_then (finalize_source_success net t destination m g at_time bindings now)
                          (\<lambda>_. answer (Inr True)) s1
         | Refused \<Rightarrow>
             (case journal_get (journal (fst s1)) m of
                None \<Rightarrow> (s1, Inr False)
              | Some r \<Rightarrow> and_then (here (rollback_source_record (restart_env env) now r
                    ''Destination confirmed activation did not commit'')) (\<lambda>_. answer (Inr False)) s1)
         | Unknown_Outcome \<Rightarrow>
             and_then (here (in_runtime (on_tasks (mark_recovery_exhausted (unknown_message e)) now t)))
               (\<lambda>_. answer (Inr False)) s1)"

fun is_unknown_outcome :: "error \<Rightarrow> bool" where
  "is_unknown_outcome (ActivationOutcomeUnknownError m) = True"
| "is_unknown_outcome e = False"

text \<open>The \<open>finally\<close> clause: without an activation the reservation is cancelled.\<close>

definition release_reservation ::
  "'d remote \<Rightarrow> migrate_environment \<Rightarrow> string \<Rightarrow> bool \<Rightarrow> 'd world \<times> 'a result \<Rightarrow> 'd world \<times> 'a result" where
  "release_reservation net env bid activated sr =
     (let (s, r) = sr
      in if activated then (s, r)
         else ((fst s, cancel_reservation net bid
                  (ReasonText (''Source migration '' @ new_id env @ '' did not complete'')) (snd s)), r))"

definition after_activation ::
  "'d remote \<Rightarrow> migrate_environment \<Rightarrow> task_id \<Rightarrow> node_id \<Rightarrow> datetime \<Rightarrow> int \<Rightarrow> artifact_binding list
     \<Rightarrow> 'd world \<Rightarrow> 'd world \<times> unit result" where
  "after_activation net env t destination at_time g bindings =
     and_then (answer (telemetry_calibration env))
       (\<lambda>_. finalize_source_success net t destination (new_id env) g at_time bindings (migrate_now env))"

definition migrate_prepared ::
  "'d remote \<Rightarrow> migrate_environment \<Rightarrow> task_id \<Rightarrow> node_id \<Rightarrow> datetime \<Rightarrow> string \<Rightarrow> int \<Rightarrow> int \<Rightarrow> artifact_binding list
     \<Rightarrow> 'd world \<Rightarrow> 'd world \<times> bool result" where
  "migrate_prepared net env t destination at_time bid old_generation missing bindings s =
     (let g = old_generation + 1
      in case here (quiesce_source env t) s of
           (s1, Inl e) \<Rightarrow>
             release_reservation net env bid False (here (give_back env t old_generation False e) s1)
         | (s1, Inr _) \<Rightarrow>
             (case and_then (transfer_phase net env t destination at_time missing)
                     (\<lambda>_. activation_phase net env t destination at_time bid g bindings) s1 of
                (s2, Inl e) \<Rightarrow>
                  if is_unknown_outcome e
                  then let (s3, r) = resolve_unknown net env t destination at_time g bindings e s2
                       in release_reservation net env bid (verdict_of (query_remote_outcome net (new_id env) (snd s2)) = Committed) (s3, r)
                  else release_reservation net env bid False (here (give_back env t old_generation True e) s2)
              | (s2, Inr _) \<Rightarrow>
                  (case after_activation net env t destination at_time g bindings s2 of
                     (s3, Inl e) \<Rightarrow> here (give_back env t old_generation True e) s3
                   | (s3, Inr _) \<Rightarrow> (s3, Inr True))))"

definition migrate ::
  "'d remote \<Rightarrow> migrate_environment \<Rightarrow> task_id \<Rightarrow> node_id \<Rightarrow> datetime \<Rightarrow> string \<Rightarrow> 'd world \<Rightarrow> 'd world \<times> bool result" where
  "migrate net env t destination at_time bid s =
     (case get_state (tasks (runtime_of (fst s))) t of
        Inl e \<Rightarrow> (s, Inl e)
      | Inr st \<Rightarrow>
          if owner_node_id st \<noteq> local_id (fst s) then (s, Inr False)
          else
            let n1 = (fst s)\<lparr>journal := put_record (migrate_now env)
                       (source_record env t destination at_time bid st (local_id (fst s))) (journal (fst s))\<rparr>
            in case prefetch_answer env of
                 Inl e \<Rightarrow> release_reservation net env bid False
                   ((set_status (migrate_now env) (new_id env) Mig_Rolled_Back None (Some (describe_error e)) n1, snd s), Inr False)
               | Inr (missing, bindings) \<Rightarrow>
                   migrate_prepared net env t destination at_time bid (generation st) missing bindings (n1, snd s))"

section \<open>Reconciliation of the journal\<close>

definition reconcile_source_record ::
  "'d remote \<Rightarrow> start_environment \<Rightarrow> datetime \<Rightarrow> migration_record \<Rightarrow> 'd world \<Rightarrow> 'd world \<times> unit result" where
  "reconcile_source_record net env now record s =
     (let t = mr_task_id record; m = mr_migration_id record
      in case get_state (tasks (runtime_of (fst s))) t of
           Inl e \<Rightarrow> (s, Inl e)
         | Inr st \<Rightarrow>
             if owner_node_id st = mr_destination record \<and> mr_generation record \<le> generation st
             then noted (set_status now m Mig_Activated None None) s
             else if mr_status record = Mig_Preparing \<and> owner_node_id st = local_id (fst s)
                  \<and> task_status st \<noteq> Migrating
             then noted (set_status now m Mig_Rolled_Back None (Some ''Migration ended before source quiesce'')) s
             else case verdict_of (query_remote_outcome net m (snd s)) of
               Committed \<Rightarrow> finalize_source_success net t (mr_destination record) m (mr_generation record)
                   (mr_migration_at record) [] now s
             | Refused \<Rightarrow> here (rollback_source_record env now record
                   ''Durable reconciliation confirmed no destination activation'') s
             | Unknown_Outcome \<Rightarrow>
                 noted (set_status now m Mig_Uncertain None (Some ''Destination outcome still unreachable'')) s)"

record repair_environment =
  repair_start :: start_environment
  repair_stop :: stop_reaction
  repair_now :: datetime

fun repair_records ::
  "'d remote \<Rightarrow> (string \<Rightarrow> repair_environment) \<Rightarrow> migration_record list \<Rightarrow> 'd world \<Rightarrow> 'd world \<times> nat result" where
  "repair_records net env [] s = (s, Inr 0)"
| "repair_records net env (record # rs) s =
     (if finished (mr_status record) then repair_records net env rs s
      else
        let m = mr_migration_id record; e = env m; before = journal_get (journal (fst s)) m
        in case (if mr_role record = Destination_Role
                 then here (reconcile_destination_record (repair_stop e) (repair_now e) record) s
                 else reconcile_source_record net (repair_start e) (repair_now e) record s) of
             (s1, Inl x) \<Rightarrow> (s1, Inl x)
           | (s1, Inr _) \<Rightarrow>
               let (s2, r) = repair_records net env rs s1
               in (s2, bind_result r (\<lambda>k.
                    Inr (if before = journal_get (journal (fst s1)) m then k else k + 1))))"

definition reconcile_durable_state ::
  "'d remote \<Rightarrow> (string \<Rightarrow> repair_environment) \<Rightarrow> 'd world \<Rightarrow> 'd world \<times> nat result" where
  "reconcile_durable_state net env s = repair_records net env (journal_records (journal (fst s))) s"

end
