(* ===== verification/Runtime_Outcomes.thy ===== *)
theory Runtime_Outcomes
  imports Pause_Laws
begin

text \<open>
  The operations of the local runtime seen from the services that call them: what a start and a
  stop of one task leave of its state, of the process table and of the other tasks.
\<close>

section \<open>Starting and stopping seen from outside\<close>

definition others_same :: "task_id \<Rightarrow> local_runtime \<Rightarrow> local_runtime \<Rightarrow> bool" where
  "others_same t rt rt' \<longleftrightarrow> definitions (tasks rt') = definitions (tasks rt)
   \<and> registry_node (tasks rt') = registry_node (tasks rt)
   \<and> (\<forall>t'. t' \<noteq> t \<longrightarrow> get_state (tasks rt') t' = get_state (tasks rt) t')"

lemma others_same_refl [simp]: "others_same t rt rt"
  by (simp add: others_same_def)

lemma others_same_trans: "others_same t rt rt' \<Longrightarrow> others_same t rt' rt'' \<Longrightarrow> others_same t rt rt''"
  by (simp add: others_same_def)

lemma others_same_edit:
  assumes "get_state (tasks rt) t = Inr st" "stores (\<lambda>s. state_task_id s = t) (f st)"
  shows "others_same t rt (fst (on_tasks f w t rt))"
proof -
  have "own_change t rt (fst (on_tasks f w t rt))" by (rule own_change_edit) (rule assms)+
  then show ?thesis by (simp add: own_change_def others_same_def)
qed

lemma others_same_cong: "tasks rt1 = tasks rt \<Longrightarrow> tasks rt2 = tasks rt' \<Longrightarrow> others_same t rt1 rt2 = others_same t rt rt'"
  by (simp add: others_same_def)

text \<open>The state a successful start leaves.\<close>

definition takes_off :: "local_runtime \<Rightarrow> task_state \<Rightarrow> task_state \<Rightarrow> local_runtime \<Rightarrow> bool" where
  "takes_off rt st st' rt' \<longleftrightarrow>
     task_status st' = Running \<and> owner_node_id st' = owner_node_id st \<and> generation st' = generation st
   \<and> last_migration_id st' = last_migration_id st \<and> state_task_id st' = state_task_id st
   \<and> (\<exists>p. pid (process st') = Some p \<and> p \<notin> live rt \<and> live rt' = insert p (live rt))"

lemma start_outcome:
  assumes inv: "runtime_inv rt" and st: "get_state (tasks rt) t = Inr st" and idle: "pid (process st) = None"
    and fresh: "\<forall>p. env_spawn env = Inr p \<longrightarrow> fresh_pid rt p" and s: "start t env now w rt = (rt', r)"
  shows "others_same t rt rt' \<and>
    (case r of Inl e \<Rightarrow> live rt' = live rt \<and> (\<exists>st'. get_state (tasks rt') t = Inr st' \<and> pid (process st') = None)
     | Inr st' \<Rightarrow> get_state (tasks rt') t = Inr st' \<and> takes_off rt st st' rt')"
proof -
  note id = runtime_invD(1) [OF inv st]
  obtain d where d: "get_definition (tasks rt) t = Inr d" using get_state_definition [OF st] by blast
  consider (early) e where "rt' = rt \<or> (\<exists>g. rt' = rt\<lparr>files_of := g\<rparr>)" "r = Inl e"
    | (launched) plan p where "start_guard rt t d st = None" "env_spawn env = Inr p"
        "start t env now w rt = launch t d plan p env now w
           (rt\<lparr>files_of := (files_of rt)(t := prepare_files (runtime d) (files_of rt t))\<rparr>)"
  proof -
    have guard: "\<exists>e. x = Inl e" if "start_guard rt t d st = Some x" for x
      using that idle by (auto simp: start_guard_def process_alive_def split: if_splits)
    show thesis
    proof (cases "env_artifacts env")
      case (Inl e)
      then have "rt' = rt" "r = Inl e" using s by (simp_all add: start_def)
      then show thesis using early by blast
    next
      case art: (Inr u)
      show thesis
      proof (cases "start_guard rt t d st")
        case (Some x)
        then show thesis using s early guard [OF Some] art st d by (auto simp: start_def)
      next
        case guard: None
        show thesis
        proof (cases "env_plan env")
          case (Inl e)
          then show thesis using s early art st d guard by (auto simp: start_def)
        next
          case plan: (Inr plan)
          show thesis
          proof (cases "env_spawn env")
            case (Inl e)
            then show thesis using s early art st d guard plan by (auto simp: start_def)
          next
            case (Inr p)
            then show thesis using launched [OF guard Inr] art st d guard plan by (simp add: start_def)
          qed
        qed
      qed
    qed
  qed
  then show ?thesis
  proof cases
    case early
    then show ?thesis using st idle by (auto simp: others_same_def)
  next
    case launched
    let ?rt = "rt\<lparr>files_of := (files_of rt)(t := prepare_files (runtime d) (files_of rt t))\<rparr>"
    have p: "p \<notin> live rt" using fresh launched(2) by (simp add: fresh_pid_def)
    have own: "owner_node_id st = runtime_node rt" "task_status st \<noteq> Completed"
      using launched(1) by (auto simp: start_guard_def split: if_splits)
    show ?thesis
    proof (cases "wait_for_readiness t (runtime d) (env_polls env)")
      case (Inl e)
      let ?dead = "kill_group p (?rt\<lparr>live := insert p (live ?rt), suspended := suspended ?rt - {p}\<rparr>)"
      let ?f = "mark_failed (describe_error e) (env_exit env) now"
      have rt': "rt' = fst (on_tasks ?f w t ?dead)" and r: "\<exists>x. r = Inl x"
        using s unfolding launched(3) by (auto simp: launch_def Inl Let_def)
      have st': "get_state (tasks ?dead) t = Inr st" using st by simp
      note eff = mark_failed_effect [OF st' id, of "describe_error e" "env_exit env" now w]
      have "others_same t rt rt'" using eff(1) unfolding rt' by (simp add: own_change_def others_same_def)
      moreover have "live rt' = live rt" using eff(1) p unfolding rt' by (simp add: own_change_def)
      moreover have "\<exists>st'. get_state (tasks rt') t = Inr st' \<and> pid (process st') = None"
        using eff(2) unfolding rt' by (auto simp: given_up_def)
      ultimately show ?thesis using r by auto
    next
      case (Inr u)
      let ?up = "?rt\<lparr>live := insert p (live ?rt), suspended := suspended ?rt - {p}, handles := dict_put t p (handles ?rt)\<rparr>"
      let ?f = "mark_running (runtime_node ?up) p (Some (plan_adapter plan)) (Some (plan_command plan)) (plan_resumed plan) now"
      obtain st1 where st1: "?f st = Store st1" and facts: "task_status st1 = Running"
        "owner_node_id st1 = owner_node_id st" "generation st1 = generation st"
        "last_migration_id st1 = last_migration_id st" "state_task_id st1 = state_task_id st" "pid (process st1) = Some p"
        using own by (simp add: mark_running_def runtime_node_def)
      have st': "get_state (tasks ?up) t = Inr st" using st by simp
      have u: "on_tasks ?f w t ?up = (?up\<lparr>tasks := write_state w st1 (tasks ?up)\<rparr>, Inr (st1\<lparr>updated_at := w\<rparr>))"
        by (rule on_tasks_store [OF st']) (rule st1)
      have e: "rt' = ?up\<lparr>tasks := write_state w st1 (tasks ?up)\<rparr>" "r = Inr (st1\<lparr>updated_at := w\<rparr>)"
        using s u unfolding launched(3) by (simp_all add: launch_def Inr Let_def runtime_node_def)
      have "others_same t ?up rt'" unfolding e(1) using others_same_edit [OF st', of ?f w] st1 facts(5) id u by simp
      then have "others_same t rt rt'" by (simp add: others_same_def)
      then show ?thesis
        using e facts p id get_state_write [OF st, of st1 w t] by (simp add: takes_off_def)
    qed
  qed
qed

lemma stop_outcome:
  assumes st: "get_state (tasks rt) t = Inr st" and id: "state_task_id st = t"
    and open_task: "task_status st \<noteq> Completed" and reaction: "reaction \<noteq> KillDenied"
    and s: "stop_process t reaction w rt = (rt', r)"
  shows "others_same t rt rt' \<and> live rt' = live rt - set_option (pid (process st))
    \<and> (\<forall>p. p \<notin> set_option (pid (process st)) \<longrightarrow> (p \<in> suspended rt') = (p \<in> suspended rt))
    \<and> (\<exists>w'. r = Inr (((halt st)\<lparr>task_status := Stopped, last_exit_code := None\<rparr>)\<lparr>updated_at := w'\<rparr>))
    \<and> get_state (tasks rt') t = r"
proof -
  obtain d where d: "get_definition (tasks rt) t = Inr d" using get_state_definition [OF st] by blast
  let ?st1 = "(halt st)\<lparr>task_status := Stopped, last_exit_code := None\<rparr>"
  have edit: "mark_stopped st = Store ?st1" using open_task by (simp add: mark_stopped_def)
  let ?rt0 = "case pid (process st) of None \<Rightarrow> rt | Some p \<Rightarrow> drop_handle t (kill_group p
      (if task_status st = Paused then rt\<lparr>suspended := suspended rt - {p}\<rparr> else rt))"
  have st0: "get_state (tasks ?rt0) t = Inr st" using st by (simp split: option.split)
  have u: "on_tasks mark_stopped w t ?rt0 = (?rt0\<lparr>tasks := write_state w ?st1 (tasks ?rt0)\<rparr>, Inr (?st1\<lparr>updated_at := w\<rparr>))"
    by (rule on_tasks_store [OF st0]) (rule edit)
  have "stop_process t reaction w rt = on_tasks mark_stopped w t ?rt0"
    using st d open_task reaction
    by (cases reaction) (simp_all add: stop_process_def Let_def split: option.split)
  then have e: "rt' = ?rt0\<lparr>tasks := write_state w ?st1 (tasks ?rt0)\<rparr>" "r = Inr (?st1\<lparr>updated_at := w\<rparr>)"
    using s u by simp_all
  have same: "tasks ?rt0 = tasks rt" by (simp split: option.split)
  have "others_same t rt rt'"
    using get_state_write [OF st, of ?st1 w] id unfolding e(1) by (simp add: others_same_def same)
  moreover have "live rt' = live rt - set_option (pid (process st))"
    "\<forall>p. p \<notin> set_option (pid (process st)) \<longrightarrow> (p \<in> suspended rt') = (p \<in> suspended rt)"
    unfolding e(1) by (auto split: option.split)
  moreover have "get_state (tasks rt') t = r"
    unfolding e using get_state_write [OF st, of ?st1 w t] id by (simp add: same)
  ultimately show ?thesis using e(2) by blast
qed

end
