(* ===== verification/Migration_Laws.thy ===== *)
theory Migration_Laws
  imports Migration_Destination Runtime_Outcomes Bid_Store_Laws
begin

text \<open>
  What the destination of a migration promises: an activation either takes the task over (lease
  consumed, checkpoint installed, process running, journal activated) or leaves the node as it
  was; a repeated request answers as the first did.
\<close>

section \<open>Frames\<close>

definition journal_ok :: "journal \<Rightarrow> bool" where
  "journal_ok j \<longleftrightarrow> (\<forall>m r. journal_get j m = Some r \<longrightarrow> mr_migration_id r = m)"

lemma journal_ok_put [simp]: "journal_ok j \<Longrightarrow> journal_ok (put_record now r j)"
  by (simp add: journal_ok_def put_record_def)

lemma journal_ok_status [simp]: "journal_ok j \<Longrightarrow> journal_ok (set_record_status now m s p e j)"
  by (simp add: set_record_status_def split: option.split)

lemma journal_status_get:
  "journal_ok j \<Longrightarrow> journal_get (set_record_status now m s p e j) m' =
    (if m' = m then map_option (\<lambda>r. r\<lparr>mr_status := s, mr_pid := p, mr_error := e, mr_updated_at := now\<rparr>) (journal_get j m)
     else journal_get j m')"
  by (rule journal_get_status) (simp add: journal_ok_def)

lemma set_status_select [simp]:
  "runtime_of (set_status now m s p e n) = runtime_of n" "bids (set_status now m s p e n) = bids n"
  "checkpoints (set_status now m s p e n) = checkpoints n" "backups (set_status now m s p e n) = backups n"
  "incoming (set_status now m s p e n) = incoming n" "local_id (set_status now m s p e n) = local_id n"
  "journal (set_status now m s p e n) = set_record_status now m s p e (journal n)"
  by (simp_all add: set_status_def local_id_def)

lemma merge_received_select [simp]:
  "runtime_of (merge_received p n) = runtime_of n" "bids (merge_received p n) = bids n"
  "checkpoints (merge_received p n) = checkpoints n" "backups (merge_received p n) = backups n"
  "incoming (merge_received p n) = incoming n" "local_id (merge_received p n) = local_id n"
  "journal (merge_received p n) = journal n"
  by (simp_all add: merge_received_def local_id_def split: option.split)

lemma drop_incoming_select [simp]:
  "runtime_of (drop_incoming m n) = runtime_of n" "bids (drop_incoming m n) = bids n"
  "checkpoints (drop_incoming m n) = checkpoints n" "backups (drop_incoming m n) = backups n"
  "local_id (drop_incoming m n) = local_id n" "journal (drop_incoming m n) = journal n"
  by (simp_all add: drop_incoming_def local_id_def)

lemma cancel_locally_select [simp]:
  "runtime_of (cancel_locally b x now n) = runtime_of n" "checkpoints (cancel_locally b x now n) = checkpoints n"
  "backups (cancel_locally b x now n) = backups n" "local_id (cancel_locally b x now n) = local_id n"
  "journal (cancel_locally b x now n) = journal n" "bids (cancel_locally b x now n) = fst (cancel b (ReasonText x) now (bids n))"
  by (simp_all add: cancel_locally_def in_bids_def local_id_def case_prod_unfold Let_def)

lemma set_state_select [simp]:
  "bids (set_state now st n) = bids n" "checkpoints (set_state now st n) = checkpoints n"
  "backups (set_state now st n) = backups n" "journal (set_state now st n) = journal n"
  "local_id (set_state now st n) = local_id n" "live (runtime_of (set_state now st n)) = live (runtime_of n)"
  "tasks (runtime_of (set_state now st n)) = write_state now st (tasks (runtime_of n))"
  by (simp_all add: set_state_def local_id_def runtime_node_def)

lemma restore_checkpoint_select [simp]:
  "runtime_of (fst (restore_checkpoint b req n)) = runtime_of n" "bids (fst (restore_checkpoint b req n)) = bids n"
  "journal (fst (restore_checkpoint b req n)) = journal n" "local_id (fst (restore_checkpoint b req n)) = local_id n"
  "incoming (fst (restore_checkpoint b req n)) = incoming n"
  by (simp_all add: restore_checkpoint_def local_id_def Let_def split: option.split)

lemma lease_meanwhile_select [simp]:
  "runtime_of (lease_meanwhile env req n) = runtime_of n" "checkpoints (lease_meanwhile env req n) = checkpoints n"
  "backups (lease_meanwhile env req n) = backups n" "local_id (lease_meanwhile env req n) = local_id n"
  "journal (lease_meanwhile env req n) = journal n" "incoming (lease_meanwhile env req n) = incoming n"
  "store_inv (bids n) \<Longrightarrow> store_inv (bids (lease_meanwhile env req n))"
  "cancelled_meanwhile env = None \<Longrightarrow> lease_meanwhile env req n = n"
  using edits_inv [OF _ cancel_edits]
  by (simp_all add: lease_meanwhile_def cancel_locally_def in_bids_def case_prod_unfold Let_def local_id_def split: option.split)

text \<open>A step that only touches the runtime.\<close>

definition runtime_only :: "migration_node \<Rightarrow> migration_node \<Rightarrow> bool" where
  "runtime_only n n' \<longleftrightarrow> n' = n\<lparr>runtime_of := runtime_of n'\<rparr>"

lemma runtime_only_refl [simp]: "runtime_only n n"
  by (simp add: runtime_only_def)

lemma runtime_only_in [simp]: "runtime_only n (fst (in_runtime f n))"
  by (simp add: runtime_only_def in_runtime_def case_prod_unfold Let_def)

lemma runtime_only_trans: "runtime_only n n' \<Longrightarrow> runtime_only n' n'' \<Longrightarrow> runtime_only n n''"
  unfolding runtime_only_def by (metis migration_node.update_convs(1) migration_node.surjective)

lemma runtime_onlyD:
  assumes "runtime_only n n'"
  shows "journal n' = journal n" "bids n' = bids n" "checkpoints n' = checkpoints n" "backups n' = backups n"
    "incoming n' = incoming n" "policies n' = policies n"
proof -
  have "n' = n\<lparr>runtime_of := runtime_of n'\<rparr>" using assms by (simp add: runtime_only_def)
  then obtain rt where "n' = n\<lparr>runtime_of := rt\<rparr>" by blast
  then show "journal n' = journal n" "bids n' = bids n" "checkpoints n' = checkpoints n" "backups n' = backups n"
    "incoming n' = incoming n" "policies n' = policies n" by simp_all
qed

section \<open>Taking the task over\<close>

lemma claim_outcome:
  assumes inv: "runtime_inv rt" and st: "get_state (tasks rt) t = Inr st" and idle: "pid (process st) = None"
    and acc: "\<forall>a. acc = Some a \<longrightarrow> cost_split a"
    and s: "on_tasks (claim_local (runtime_node rt) g m ds at_time acc) w t rt = (rt', r)"
  shows "runtime_inv rt' \<and> others_same t rt rt' \<and> live rt' = live rt
    \<and> (case r of Inl e \<Rightarrow> rt' = rt
       | Inr st' \<Rightarrow> get_state (tasks rt') t = Inr st' \<and> pid (process st') = None \<and> owner_node_id st' = runtime_node rt
           \<and> generation st' = g \<and> last_migration_id st' = Some m)"
proof (cases "g < generation st")
  case True
  then have "claim_local (runtime_node rt) g m ds at_time acc st = Raise (stale_generation g st)"
    by (simp add: claim_local_def)
  then show ?thesis using s inv st by (auto simp: on_tasks_def run_edit_def)
next
  case False
  note id = runtime_invD(1,2) [OF inv st]
  let ?f = "claim_local (runtime_node rt) g m ds at_time acc"
  let ?st1 = "(halt st)\<lparr>owner_node_id := runtime_node rt, generation := g, task_status := Stopped,
             last_migration_id := Some m, state_last_migration_at := Some at_time,
             last_error := None, last_exit_code := None, artifact_digests := ds,
             accounting := (case acc of None \<Rightarrow> accounting st | Some a \<Rightarrow> a)\<rparr>"
  have e: "?f st = Store ?st1" using False by (simp add: claim_local_def)
  have ok: "state_ok (runtime_node rt) ?st1" using claim_ok [OF id(2) acc, of g m ds at_time] e by simp
  have u: "on_tasks ?f w t rt = (rt\<lparr>tasks := write_state w ?st1 (tasks rt)\<rparr>, Inr (?st1\<lparr>updated_at := w\<rparr>))"
    by (rule on_tasks_store [OF st]) (rule e)
  have "runtime_inv (fst (on_tasks ?f w t rt))"
    by (rule no_process_edit_inv [OF inv st idle]) (use e ok id in simp)
  moreover have "others_same t rt (fst (on_tasks ?f w t rt))"
    by (rule others_same_edit [OF st]) (use e id in simp)
  moreover have "rt' = rt\<lparr>tasks := write_state w ?st1 (tasks rt)\<rparr>" "r = Inr (?st1\<lparr>updated_at := w\<rparr>)"
    using s u by simp_all
  moreover have "get_state (write_state w ?st1 (tasks rt)) t = Inr (?st1\<lparr>updated_at := w\<rparr>)"
    using get_state_write [OF st, of ?st1 w t] id(1) by simp
  ultimately show ?thesis using s by simp
qed

text \<open>Fresh pids stay fresh while no process starts.\<close>

lemma fresh_pid_frame:
  assumes "live rt' = live rt" "others_same t rt rt'" "get_state (tasks rt') t = Inr st'" "pid (process st') = None"
    and "fresh_pid rt p"
  shows "fresh_pid rt' p"
proof -
  have "recorded rt' u q \<Longrightarrow> recorded rt u q" for u q
    using assms(2-4) by (cases "u = t") (auto simp: recorded_def others_same_def)
  then show ?thesis using assms(1,5) by (auto simp: fresh_pid_def)
qed

definition took_over :: "migration_node \<Rightarrow> activation_request \<Rightarrow> task_state \<Rightarrow> migration_node \<Rightarrow> bool" where
  "took_over n req st n' \<longleftrightarrow> get_state (tasks (runtime_of n')) (ar_task_id req) = Inr st
   \<and> task_status st = Running \<and> owner_node_id st = local_id n \<and> generation st = ar_generation req
   \<and> last_migration_id st = Some (ar_migration_id req)
   \<and> (\<exists>p. pid (process st) = Some p \<and> p \<notin> live (runtime_of n) \<and> live (runtime_of n') = insert p (live (runtime_of n)))"

definition idle_task :: "task_id \<Rightarrow> local_runtime \<Rightarrow> bool" where
  "idle_task t rt \<longleftrightarrow> (\<exists>st. get_state (tasks rt) t = Inr st \<and> pid (process st) = None)"

lemma establish_outcome:
  assumes inv: "runtime_inv (runtime_of n)" and st: "get_state (tasks (runtime_of n)) (ar_task_id req) = Inr st"
    and idle: "pid (process st) = None" and acc: "\<forall>a. ar_accounting req = Some a \<longrightarrow> cost_split a"
    and fresh: "\<forall>p. env_spawn (activation_start env) = Inr p \<longrightarrow> fresh_pid (runtime_of n) p"
    and s: "establish env req n = (n', r)"
  shows "runtime_only n n' \<and> runtime_inv (runtime_of n') \<and> others_same (ar_task_id req) (runtime_of n) (runtime_of n')
    \<and> (case r of Inl e \<Rightarrow> live (runtime_of n') = live (runtime_of n) \<and> idle_task (ar_task_id req) (runtime_of n')
       | Inr st' \<Rightarrow> took_over n req st' n')"
proof -
  let ?t = "ar_task_id req" and ?rt = "runtime_of n" and ?w = "activation_now env"
  consider (refused) e where "n' = n" "r = Inl e"
    | (claims) "and_then (in_runtime (on_tasks (claim_local (local_id n) (ar_generation req) (ar_migration_id req)
               (digests_of (ar_artifacts req)) (ar_migration_at req) (ar_accounting req)) ?w ?t))
           (\<lambda>_. in_runtime (start ?t (activation_start env) ?w ?w)) n = (n', r)"
    using s by (auto simp: establish_def and_then_def answer_def split: option.splits sum.splits prod.splits)
  then show ?thesis
  proof cases
    case refused
    then show ?thesis using inv st idle by (auto simp: idle_task_def)
  next
    case claims
    let ?claim = "on_tasks (claim_local (runtime_node ?rt) (ar_generation req) (ar_migration_id req)
               (digests_of (ar_artifacts req)) (ar_migration_at req) (ar_accounting req)) ?w ?t ?rt"
    obtain rt1 r1 where c: "?claim = (rt1, r1)" by fastforce
    note claimed = claim_outcome [OF inv st idle acc c]
    show ?thesis
    proof (cases r1)
      case (Inl e)
      then have "n' = n\<lparr>runtime_of := rt1\<rparr>" "r = Inl e"
        using claims c by (auto simp: and_then_def in_runtime_def local_id_def)
      then show ?thesis using claimed Inl inv st idle by (simp add: runtime_only_def idle_task_def)
    next
      case (Inr st1)
      obtain rt2 r2 where b: "start ?t (activation_start env) ?w ?w rt1 = (rt2, r2)" by fastforce
      have n': "n' = n\<lparr>runtime_of := rt2\<rparr>" "r = r2"
        using claims c Inr b by (auto simp: and_then_def in_runtime_def local_id_def)
      have st1: "get_state (tasks rt1) ?t = Inr st1" "pid (process st1) = None" "owner_node_id st1 = runtime_node ?rt"
        "generation st1 = ar_generation req" "last_migration_id st1 = Some (ar_migration_id req)"
        and inv1: "runtime_inv rt1" and same1: "others_same ?t ?rt rt1" "live rt1 = live ?rt"
        using claimed Inr by simp_all
      have fresh1: "\<forall>p. env_spawn (activation_start env) = Inr p \<longrightarrow> fresh_pid rt1 p"
        using fresh fresh_pid_frame [OF same1(2,1) st1(1,2)] by blast
      note outcome = start_outcome [OF inv1 st1(1,2) fresh1 b]
      have "runtime_inv rt2" using start_inv [OF inv1, of "activation_start env" ?t ?w ?w] fresh1 b by simp
      moreover have "others_same ?t ?rt rt2" using others_same_trans [OF same1(1)] outcome by blast
      ultimately show ?thesis
        using outcome same1(2) st1 unfolding n'
        by (cases r2) (auto simp: runtime_only_def idle_task_def took_over_def takes_off_def local_id_def)
    qed
  qed
qed

lemma establish_only: "establish env req n = (n', r) \<Longrightarrow> runtime_only n n'"
  by (auto simp: establish_def and_then_def answer_def in_runtime_def runtime_only_def case_prod_unfold Let_def
      split: option.splits sum.splits)

section \<open>Rollback\<close>

lemma set_state_outcome:
  assumes inv: "runtime_inv (runtime_of n)" and idle: "idle_task t (runtime_of n)"
    and original: "task_state.state_task_id st = t" "pid (process st) = None" "state_ok (local_id n) st"
  shows "runtime_inv (runtime_of (set_state now st n))" "others_same t (runtime_of n) (runtime_of (set_state now st n))"
    "get_state (tasks (runtime_of (set_state now st n))) t = Inr (st\<lparr>task_state.updated_at := now\<rparr>)"
proof -
  let ?rt = "runtime_of n"
  obtain st0 where st0: "get_state (tasks ?rt) t = Inr st0" "pid (process st0) = None"
    using idle by (auto simp: idle_task_def)
  have u: "on_tasks (\<lambda>_. Store st) now t ?rt = (?rt\<lparr>tasks := write_state now st (tasks ?rt)\<rparr>, Inr (st\<lparr>task_state.updated_at := now\<rparr>))"
    by (rule on_tasks_store [OF st0(1)]) simp
  have r: "runtime_of (set_state now st n) = fst (on_tasks (\<lambda>_. Store st) now t ?rt)"
    unfolding u by (simp add: set_state_def)
  show "runtime_inv (runtime_of (set_state now st n))"
    unfolding r by (rule no_process_edit_inv [OF inv st0]) (use original in \<open>simp add: local_id_def\<close>)
  show "others_same t ?rt (runtime_of (set_state now st n))"
    unfolding r by (rule others_same_edit [OF st0(1)]) (use original in simp)
  show "get_state (tasks (runtime_of (set_state now st n))) t = Inr (st\<lparr>task_state.updated_at := now\<rparr>)"
    using get_state_write [OF st0(1) original(1), of now t] by simp
qed

text \<open>Where an exception finds the runtime: before the process runs, or with it running.\<close>

definition at_risk :: "task_id \<Rightarrow> bool \<Rightarrow> int set \<Rightarrow> local_runtime \<Rightarrow> bool" where
  "at_risk t started L rt \<longleftrightarrow>
     (if started
      then \<exists>st p. get_state (tasks rt) t = Inr st \<and> task_status st = Running \<and> pid (process st) = Some p
             \<and> p \<notin> L \<and> live rt = insert p L
      else idle_task t rt \<and> live rt = L)"

lemma quiesced:
  assumes inv: "runtime_inv rt" and risk: "at_risk t True L rt" and reaction: "reaction \<noteq> KillDenied"
  shows "runtime_inv (fst (stop_process t reaction w rt)) \<and> idle_task t (fst (stop_process t reaction w rt))
    \<and> live (fst (stop_process t reaction w rt)) = L \<and> others_same t rt (fst (stop_process t reaction w rt))"
proof -
  obtain st p where st: "get_state (tasks rt) t = Inr st" "task_status st = Running" "pid (process st) = Some p"
    "p \<notin> L" "live rt = insert p L" using risk by (auto simp: at_risk_def)
  obtain rt' r where s: "stop_process t reaction w rt = (rt', r)" by fastforce
  have "task_status st \<noteq> Completed" using st(2) by simp
  note stop = stop_outcome [OF st(1) runtime_invD(1) [OF inv st(1)] this reaction s]
  have "idle_task t rt'" using stop by (auto simp: idle_task_def)
  moreover have "live rt' = L" using stop st by auto
  moreover have "runtime_inv rt'" using stop_inv [OF inv reaction, of t w] s by simp
  ultimately show ?thesis using stop s by simp
qed

text \<open>A restoration over a cleared place always answers.\<close>

lemma restore_cleared:
  "snd (restore_checkpoint True req n) = Inr ()"
  "snd (restore_checkpoint b req n) = Inl e \<Longrightarrow> \<not> b \<and> checkpoints (fst (restore_checkpoint b req n)) = checkpoints n
     \<and> backups (fst (restore_checkpoint b req n)) = backups n"
  by (auto simp: restore_checkpoint_def holds_files_def Let_def split: option.splits if_splits)

lemma restore_checkpoint_cong:
  assumes "checkpoints n1 = checkpoints n" "backups n1 = backups n"
  shows "checkpoints (fst (restore_checkpoint b req n1)) = checkpoints (fst (restore_checkpoint b req n))"
    "snd (restore_checkpoint b req n1) = snd (restore_checkpoint b req n)"
  using assms by (auto simp: restore_checkpoint_def Let_def split: option.split)

lemma rollback_outcome:
  assumes inv: "runtime_inv (runtime_of n)" and risk: "at_risk (ar_task_id req) started L (runtime_of n)"
    and reaction: "activation_stop env \<noteq> KillDenied"
    and original: "task_state.state_task_id st = ar_task_id req" "pid (process st) = None" "state_ok (local_id n) st"
    and s: "rollback_activation env req st replaced started e n = (n', Inr resp)"
  shows "runtime_inv (runtime_of n') \<and> others_same (ar_task_id req) (runtime_of n) (runtime_of n')
    \<and> live (runtime_of n') = L
    \<and> get_state (tasks (runtime_of n')) (ar_task_id req) = Inr (st\<lparr>task_state.updated_at := activation_now env\<rparr>)
    \<and> \<not> rsp_activated resp \<and> local_id n' = local_id n
    \<and> journal n' = set_record_status (activation_now env) (ar_migration_id req) Mig_Rolled_Back None
        (Some (describe_error e)) (journal n)
    \<and> (\<exists>reason. bids n' = fst (cancel (ar_bid_id req) reason (activation_now env) (bids n)))
    \<and> checkpoints n' = checkpoints (fst (restore_checkpoint replaced req n))"
proof -
  let ?t = "ar_task_id req" and ?now = "activation_now env"
  let ?n1 = "if started then fst (in_runtime (stop_process ?t (activation_stop env) ?now) n) else n"
  have only: "runtime_only n ?n1" by simp
  have quiet: "runtime_inv (runtime_of ?n1)" "idle_task ?t (runtime_of ?n1)" "live (runtime_of ?n1) = L"
    "others_same ?t (runtime_of n) (runtime_of ?n1)"
    using inv risk quiesced [OF inv _ reaction, of ?t L ?now]
    by (cases started; simp add: in_runtime_def case_prod_unfold Let_def at_risk_def)+
  have id: "local_id ?n1 = local_id n" using quiet(4) by (simp add: local_id_def others_same_def runtime_node_def)
  let ?n2 = "fst (restore_checkpoint replaced req ?n1)"
  have n2: "runtime_of ?n2 = runtime_of ?n1" "local_id ?n2 = local_id n" using id by simp_all
  note put = set_state_outcome [of ?n2 ?t st ?now, unfolded n2, OF quiet(1,2) original]
  have frame: "journal ?n1 = journal n" "bids ?n1 = bids n" "checkpoints ?n1 = checkpoints n" "backups ?n1 = backups n"
    using runtime_onlyD [OF only] by blast+
  have ck: "checkpoints ?n2 = checkpoints (fst (restore_checkpoint replaced req n))"
    by (rule restore_checkpoint_cong(1)) (rule frame(3,4))+
  show ?thesis
    using s put quiet(3) others_same_trans [OF quiet(4)] ck frame id
    unfolding rollback_activation_def Let_def
    by (auto simp: response_to_def case_prod_unfold split: sum.splits)
qed

lemma rollback_raises:
  assumes s: "rollback_activation env req st replaced started e n = (n', Inl x)" and order: "started \<longrightarrow> replaced"
  shows "\<not> replaced" "runtime_of n' = runtime_of n" "journal n' = journal n" "bids n' = bids n" "incoming n' = incoming n"
    "checkpoints n' = checkpoints n" "backups n' = backups n" "holds_files (checkpoints n (ar_task_id req))"
    "backups n (ar_task_id req, ar_migration_id req) \<noteq> None"
proof -
  let ?n1 = "if started then fst (in_runtime (stop_process (ar_task_id req) (activation_stop env) (activation_now env)) n) else n"
  have r: "restore_checkpoint replaced req ?n1 = (n', Inl x)"
    using s by (auto simp: rollback_activation_def Let_def split: sum.splits prod.splits)
  then show nr: "\<not> replaced" using restore_cleared(2) [of replaced req ?n1 x] by simp
  then have r: "restore_checkpoint False req n = (n', Inl x)" using r order by simp
  then show "runtime_of n' = runtime_of n" "journal n' = journal n" "bids n' = bids n" "incoming n' = incoming n"
    "checkpoints n' = checkpoints n" "backups n' = backups n" "holds_files (checkpoints n (ar_task_id req))"
    "backups n (ar_task_id req, ar_migration_id req) \<noteq> None"
    by (auto simp: restore_checkpoint_def Let_def split: option.splits if_splits)
qed

section \<open>The transaction\<close>

lemma claim_reservation_outcome:
  assumes "claim_reservation env req n = (n', r)"
  shows "\<exists>b. n' = n\<lparr>bids := b\<rparr>" "r = Inr u \<Longrightarrow> \<exists>c. incoming n (ar_migration_id req) (ar_task_id req) = Some c"
proof -
  let ?b = "begin_activation (ar_bid_id req) (ar_task_id req) (ar_source req) (ar_destination req) (activation_now env) (bids n)"
  have e: "claim_reservation env req n =
    (case snd ?b of Inl e \<Rightarrow> (n\<lparr>bids := fst ?b\<rparr>, Inl e)
     | Inr _ \<Rightarrow> (case incoming n (ar_migration_id req) (ar_task_id req) of
          None \<Rightarrow> (n\<lparr>bids := fst ?b\<rparr>, Inl (FileNotFoundError ''Incoming checkpoint not found''))
        | Some c \<Rightarrow> (n\<lparr>bids := fst ?b\<rparr>, Inr ())))"
    by (cases "snd ?b") (simp_all add: claim_reservation_def and_then_def in_bids_def case_prod_unfold Let_def split: option.split)
  show "\<exists>b. n' = n\<lparr>bids := b\<rparr>"
    using assms unfolding e by (cases "snd ?b"; cases "incoming n (ar_migration_id req) (ar_task_id req)") auto
  show "r = Inr u \<Longrightarrow> \<exists>c. incoming n (ar_migration_id req) (ar_task_id req) = Some c"
    using assms unfolding e by (cases "snd ?b"; cases "incoming n (ar_migration_id req) (ar_task_id req)") auto
qed

lemma claim_reservation_store:
  "store_inv (bids n) \<Longrightarrow> store_inv (bids (fst (claim_reservation env req n)))"
  using edits_inv [OF _ begin_activation_edits]
  by (simp add: claim_reservation_def and_then_def in_bids_def case_prod_unfold Let_def split: sum.split option.split)

lemma consume_outcome:
  assumes "store_inv s" "consume i now s = (s', Inr r)"
  shows "\<exists>b. find_bid s' i = Some b \<and> bid_record.status b = Consumed"
proof -
  obtain b where b: "find_bid s i = Some b"
    "s' = put_bid (b\<lparr>bid_record.status := Consumed, consumed_at := Some now, reservation_expires_at := None,
                  bid_decision_reason := Some ActivationCompleted\<rparr>) s"
    using assms(2) by (auto simp: consume_def Let_def split: option.splits if_splits)
  then show ?thesis using store_invD(1) [OF assms(1) b(1)] by simp
qed

lemma cancel_outcome:
  assumes "store_inv s"
  shows "\<forall>b. find_bid (fst (cancel i reason now s)) i = Some b \<longrightarrow> terminal (bid_record.status b)"
proof (cases "find_bid s i")
  case None
  then show ?thesis by (simp add: cancel_def)
next
  case (Some b)
  then show ?thesis using store_invD(1) [OF assms Some] by (simp add: cancel_def Let_def terminal_def)
qed

text \<open>The node and the request of one activation; no rollback copy is left over from before.\<close>

definition activation_ground :: "activation_environment \<Rightarrow> activation_request \<Rightarrow> task_state \<Rightarrow> migration_node \<Rightarrow> bool" where
  "activation_ground env req st n \<longleftrightarrow> runtime_inv (runtime_of n) \<and> journal_ok (journal n) \<and> store_inv (bids n)
   \<and> get_state (tasks (runtime_of n)) (ar_task_id req) = Inr st \<and> pid (process st) = None
   \<and> (\<forall>p. env_spawn (activation_start env) = Inr p \<longrightarrow> fresh_pid (runtime_of n) p)
   \<and> activation_stop env \<noteq> KillDenied \<and> (\<forall>a. ar_accounting req = Some a \<longrightarrow> cost_split a)"

definition activation_setting :: "activation_environment \<Rightarrow> activation_request \<Rightarrow> task_state \<Rightarrow> migration_node \<Rightarrow> bool" where
  "activation_setting env req st n \<longleftrightarrow> activation_ground env req st n \<and> backups n (ar_task_id req, ar_migration_id req) = None"

text \<open>The outcomes of an activation: it commits, is refused, or its rollback raises.\<close>

definition activation_committed :: "migration_node \<Rightarrow> activation_request \<Rightarrow> task_state \<Rightarrow> migration_node \<Rightarrow> bool" where
  "activation_committed n req st n' \<longleftrightarrow> took_over n req st n'
   \<and> checkpoints n' = (checkpoints n)(ar_task_id req := incoming n (ar_migration_id req) (ar_task_id req))
   \<and> incoming n (ar_migration_id req) (ar_task_id req) \<noteq> None
   \<and> (\<exists>b. find_bid (bids n') (ar_bid_id req) = Some b \<and> bid_record.status b = Consumed)
   \<and> (\<exists>r. journal_get (journal n') (ar_migration_id req) = Some r \<and> mr_status r = Mig_Activated
        \<and> mr_pid r = pid (process st))"

definition activation_refused :: "migration_node \<Rightarrow> activation_request \<Rightarrow> task_state \<Rightarrow> migration_node \<Rightarrow> bool" where
  "activation_refused n req st n' \<longleftrightarrow> live (runtime_of n') = live (runtime_of n)
   \<and> (\<exists>w. get_state (tasks (runtime_of n')) (ar_task_id req) = Inr (st\<lparr>task_state.updated_at := w\<rparr>))
   \<and> (\<forall>b. find_bid (bids n') (ar_bid_id req) = Some b \<longrightarrow> terminal (bid_record.status b))
   \<and> (\<exists>r. journal_get (journal n') (ar_migration_id req) = Some r \<and> mr_status r = Mig_Rolled_Back)"

definition activation_stuck :: "migration_node \<Rightarrow> activation_request \<Rightarrow> migration_node \<Rightarrow> bool" where
  "activation_stuck n req n' \<longleftrightarrow> runtime_of n' = runtime_of n \<and> store_inv (bids n')
   \<and> (\<exists>r. journal_get (journal n') (ar_migration_id req) = Some r \<and> mr_status r = Mig_Activating)"

lemma rolled_back_refused:
  assumes ground: "activation_ground env req st n0" and dest: "local_id n1 = local_id n0"
    and inv: "runtime_inv (runtime_of n1)" and others: "others_same (ar_task_id req) (runtime_of n0) (runtime_of n1)"
    and risk: "at_risk (ar_task_id req) started (live (runtime_of n0)) (runtime_of n1)"
    and store: "store_inv (bids n1)"
    and known: "journal_ok (journal n1)" "journal_get (journal n1) (ar_migration_id req) \<noteq> None"
    and s: "rollback_activation env req st replaced started e n1 = (n', Inr resp)"
  shows "runtime_inv (runtime_of n') \<and> others_same (ar_task_id req) (runtime_of n0) (runtime_of n')
    \<and> local_id n' = local_id n0 \<and> \<not> rsp_activated resp \<and> activation_refused n0 req st n'"
proof -
  have reaction: "activation_stop env \<noteq> KillDenied" and st: "get_state (tasks (runtime_of n0)) (ar_task_id req) = Inr st"
    and idle: "pid (process st) = None" and inv0: "runtime_inv (runtime_of n0)"
    using ground by (simp_all add: activation_ground_def)
  note D = runtime_invD(1,2) [OF inv0 st]
  have ok: "state_ok (local_id n1) st" using D(2) dest by (simp add: local_id_def)
  note out = rollback_outcome [OF inv risk reaction D(1) idle ok s]
  obtain r where r: "journal_get (journal n1) (ar_migration_id req) = Some r" using known(2) by blast
  have j: "\<exists>r. journal_get (journal n') (ar_migration_id req) = Some r \<and> mr_status r = Mig_Rolled_Back"
    using out journal_status_get [OF known(1)] r by simp
  have b: "\<forall>b. find_bid (bids n') (ar_bid_id req) = Some b \<longrightarrow> terminal (bid_record.status b)"
    using out cancel_outcome [OF store] by metis
  have o: "others_same (ar_task_id req) (runtime_of n0) (runtime_of n')" using out others_same_trans [OF others] by blast
  show ?thesis unfolding activation_refused_def using out j b o dest by auto
qed

lemma rolled_back_stuck:
  assumes "activation_ground env req st n0" and "runtime_of n1 = runtime_of n0" and "store_inv (bids n1)"
    and "journal_get (journal n1) (ar_migration_id req) = Some r" "mr_status r = Mig_Activating"
    and s: "rollback_activation env req st False False e n1 = (n', Inl x)"
  shows "runtime_inv (runtime_of n') \<and> others_same (ar_task_id req) (runtime_of n0) (runtime_of n')
    \<and> local_id n' = local_id n0 \<and> activation_stuck n0 req n'"
  using rollback_raises [OF s] assms by (simp add: activation_stuck_def activation_ground_def local_id_def)

lemma install_checkpoint_select [simp]:
  "runtime_of (fst (install_checkpoint env req n)) = runtime_of n" "bids (fst (install_checkpoint env req n)) = bids n"
  "journal (fst (install_checkpoint env req n)) = journal n" "local_id (fst (install_checkpoint env req n)) = local_id n"
  "incoming (fst (install_checkpoint env req n)) = incoming n"
  by (simp_all add: install_checkpoint_def local_id_def Let_def split: installation.split)

lemma commit_reservation_frame:
  "commit_reservation env req n = (n', r) \<Longrightarrow> checkpoints n' = checkpoints n \<and> backups n' = backups n"
  by (auto simp: commit_reservation_def and_then_def in_bids_def answer_def case_prod_unfold Let_def split: sum.splits)

lemma commit_reservation_outcome:
  assumes "commit_reservation env req n = (n', r)" "store_inv (bids n)"
  shows "runtime_of n' = runtime_of n" "checkpoints n' = checkpoints n" "backups n' = backups n" "journal n' = journal n"
    "incoming n' = incoming n" "store_inv (bids n')" "local_id n' = local_id n"
    "r = Inr u \<Longrightarrow> \<exists>b. find_bid (bids n') (ar_bid_id req) = Some b \<and> bid_record.status b = Consumed"
proof -
  let ?c = "consume (ar_bid_id req) (activation_now env) (bids n)"
  have e: "n' = (merge_received (ar_policy req) n)\<lparr>bids := fst ?c\<rparr>" "is_ok r = is_ok (snd ?c)"
    using assms(1)
    by (auto simp: commit_reservation_def and_then_def in_bids_def answer_def case_prod_unfold Let_def split: sum.splits)
  then show "runtime_of n' = runtime_of n" "checkpoints n' = checkpoints n" "backups n' = backups n"
    "journal n' = journal n" "incoming n' = incoming n" "local_id n' = local_id n" by (simp_all add: local_id_def)
  show "store_inv (bids n')" using edits_inv [OF assms(2) consume_edits] e by simp
  assume "r = Inr u"
  then obtain x where "snd ?c = Inr x" using e(2) by (auto simp: is_ok_Inr)
  then have "?c = (fst ?c, Inr x)" by (metis prod.collapse)
  then show "\<exists>b. find_bid (bids n') (ar_bid_id req) = Some b \<and> bid_record.status b = Consumed"
    using consume_outcome [OF assms(2)] e(1) by simp
qed

text \<open>What every activation keeps, and what its answer says.\<close>

definition activation_result ::
  "migration_node \<Rightarrow> activation_request \<Rightarrow> task_state \<Rightarrow> migration_node \<Rightarrow> activation_response result \<Rightarrow> bool" where
  "activation_result n req st n' res \<longleftrightarrow> runtime_inv (runtime_of n')
   \<and> others_same (ar_task_id req) (runtime_of n) (runtime_of n') \<and> local_id n' = local_id n
   \<and> (case res of Inl e \<Rightarrow> activation_stuck n req n'
      | Inr resp \<Rightarrow> if rsp_activated resp then \<exists>st'. activation_committed n req st' n' \<and> rsp_pid resp = pid (process st')
          else activation_refused n req st n')"

lemma rolled_back_result:
  assumes ground: "activation_ground env req st n0" and dest: "local_id n1 = local_id n0"
    and inv: "runtime_inv (runtime_of n1)" and others: "others_same (ar_task_id req) (runtime_of n0) (runtime_of n1)"
    and risk: "at_risk (ar_task_id req) started (live (runtime_of n0)) (runtime_of n1)"
    and store: "store_inv (bids n1)"
    and known: "journal_ok (journal n1)" "journal_get (journal n1) (ar_migration_id req) = Some r" "mr_status r = Mig_Activating"
    and early: "replaced \<or> \<not> started \<and> runtime_of n1 = runtime_of n0"
    and s: "rollback_activation env req st replaced started e n1 = (n', res)"
  shows "activation_result n0 req st n' res"
proof (cases res)
  case (Inl x)
  then have s': "rollback_activation env req st replaced started e n1 = (n', Inl x)" using s by simp
  have "\<not> replaced" using rollback_raises(1) [OF s'] early by blast
  then show ?thesis
    using rolled_back_stuck [OF ground _ store known(2,3)] s' early Inl by (auto simp: activation_result_def)
next
  case (Inr resp)
  then show ?thesis
    using rolled_back_refused [OF ground dest inv others risk store known(1)] known(2) s by (simp add: activation_result_def)
qed

lemma run_activation_outcome:
  assumes ground: "activation_ground env req st n"
    and known: "journal_get (journal n) (ar_migration_id req) = Some r0" "mr_status r0 = Mig_Activating"
    and s: "run_activation env req st n = (n', res)"
  shows "activation_result n req st n' res"
proof -
  note S = ground [unfolded activation_ground_def]
  let ?t = "ar_task_id req" and ?m = "ar_migration_id req"
  obtain n1 r1 where c: "claim_reservation env req n = (n1, r1)" by fastforce
  note claimed = claim_reservation_outcome [OF c]
  obtain b where n1: "n1 = n\<lparr>bids := b\<rparr>" using claimed(1) by blast
  have store1: "store_inv (bids n1)" using claim_reservation_store [of n env req] S c by simp
  have frame1: "runtime_of n1 = runtime_of n" "journal n1 = journal n" "local_id n1 = local_id n"
    "checkpoints n1 = checkpoints n" "incoming n1 = incoming n"
    by (simp_all add: n1 local_id_def)
  have idle: "idle_task ?t (runtime_of n)" using S by (auto simp: idle_task_def)
  show ?thesis
  proof (cases r1)
    case (Inl e)
    have "rollback_activation env req st False False e n1 = (n', res)" using s c Inl by (simp add: run_activation_def)
    then show ?thesis using S frame1 store1 known idle
      by (intro rolled_back_result [OF ground, of n1 False r0 False e]) (simp_all add: at_risk_def)
  next
    case claim: (Inr u)
    obtain ck where ck: "incoming n ?m ?t = Some ck" using claimed(2) claim by blast
    obtain n2 r2 where i: "install_checkpoint env req n1 = (n2, r2)" by fastforce
    have frame2: "runtime_of n2 = runtime_of n" "journal n2 = journal n" "local_id n2 = local_id n" "bids n2 = bids n1"
      using install_checkpoint_select [of env req n1] frame1 by (simp_all add: i)
    show ?thesis
    proof (cases r2)
      case (Inl e)
      have "rollback_activation env req st False False e n2 = (n', res)"
        using s c claim i Inl by (simp add: run_activation_def)
      then show ?thesis using S frame2 store1 known idle
        by (intro rolled_back_result [OF ground, of n2 False r0 False e]) (simp_all add: at_risk_def)
    next
      case installed: (Inr v)
      have n2: "checkpoints n2 = (checkpoints n)(?t := incoming n ?m ?t)"
        using i installed frame1 by (auto simp: install_checkpoint_def Let_def split: installation.splits)
      obtain n3 r3 where e3: "establish env req n2 = (n3, r3)" by fastforce
      have est: "runtime_only n2 n3 \<and> runtime_inv (runtime_of n3) \<and> others_same ?t (runtime_of n2) (runtime_of n3)
        \<and> (case r3 of Inl e \<Rightarrow> live (runtime_of n3) = live (runtime_of n2) \<and> idle_task ?t (runtime_of n3)
           | Inr st' \<Rightarrow> took_over n2 req st' n3)"
        by (rule establish_outcome [where st = st, OF _ _ _ _ _ e3]) (use S frame2 in simp_all)
      note only = runtime_onlyD [OF conjunct1 [OF est]]
      have frame3: "journal n3 = journal n" "store_inv (bids n3)" "checkpoints n3 = checkpoints n2"
        using only frame2 store1 by simp_all
      have others3: "others_same ?t (runtime_of n) (runtime_of n3)" using est frame2 by simp
      have id3: "local_id n3 = local_id n" using others3 by (simp add: local_id_def others_same_def runtime_node_def)
      show ?thesis
      proof (cases r3)
        case (Inl e)
        have "rollback_activation env req st True False e n3 = (n', res)"
          using s c claim i installed e3 Inl by (simp add: run_activation_def)
        then show ?thesis using S est Inl frame2 frame3 id3 others3 known
          by (intro rolled_back_result [OF ground, of n3 False r0 True e]) (simp_all add: at_risk_def)
      next
        case started: (Inr st')
        let ?n3 = "lease_meanwhile env req n3"
        obtain n4 r4 where c4: "commit_reservation env req ?n3 = (n4, r4)" by fastforce
        have "store_inv (bids ?n3)" using frame3(2) by simp
        note com = commit_reservation_outcome [OF c4 this]
        have over: "took_over n req st' n3" using est started frame2 by (simp add: took_over_def)
        then obtain p where p: "get_state (tasks (runtime_of n3)) ?t = Inr st'" "task_status st' = Running"
          "pid (process st') = Some p" "p \<notin> live (runtime_of n)" "live (runtime_of n3) = insert p (live (runtime_of n))"
          by (auto simp: took_over_def)
        show ?thesis
        proof (cases r4)
          case (Inl e)
          have "rollback_activation env req st True True e n4 = (n', res)"
            using s c claim i installed e3 started c4 Inl by (simp add: run_activation_def)
          then show ?thesis using S est com frame3 id3 others3 known p
            by (intro rolled_back_result [OF ground, of n4 True r0 True e]) (auto simp: at_risk_def)
        next
          case (Inr v)
          obtain resp where fin: "(n', resp) = complete_activation env req st' n4" "res = Inr resp"
            using s c claim i installed e3 started c4 Inr by (auto simp: run_activation_def split: prod.splits)
          have n': "runtime_of n' = runtime_of n3" "checkpoints n' = checkpoints n3" "bids n' = bids n4"
            "local_id n' = local_id n" "rsp_activated resp" "rsp_pid resp = pid (process st')"
            "journal n' = set_record_status (activation_now env) ?m Mig_Activated (pid (process st')) None (journal n)"
            using fin(1) com(1-4,7) frame3 id3 by (auto simp: complete_activation_def Let_def response_to_def local_id_def)
          have j: "\<exists>r. journal_get (journal n') ?m = Some r \<and> mr_status r = Mig_Activated \<and> mr_pid r = pid (process st')"
            using known journal_status_get [of "journal n"] S unfolding n'(7) by auto
          have "took_over n req st' n'" using over n'(1) by (simp add: took_over_def)
          then have "activation_committed n req st' n'"
            unfolding activation_committed_def using n'(2) frame3(3) n2 ck com(8) [OF Inr] n'(3) j by simp
          then show ?thesis using est others3 n' fin(2) by (auto simp: activation_result_def)
        qed
      qed
    qed
  qed
qed

text \<open>What becomes of the checkpoints of an activation that does not commit.\<close>

definition copy_left :: "installation \<Rightarrow> checkpoint option" where
  "copy_left i = (case i of Copy_Refused e left \<Rightarrow> left | _ \<Rightarrow> None)"

definition old_checkpoint_stranded :: "activation_environment \<Rightarrow> activation_request \<Rightarrow> migration_node \<Rightarrow> migration_node \<Rightarrow> bool" where
  "old_checkpoint_stranded env req n n' \<longleftrightarrow> (let t = ar_task_id req; left = copy_left (installation_answer env) in
     holds_files left \<and> checkpoints n t \<noteq> None \<and> checkpoints n' = (checkpoints n)(t := left)
   \<and> backups n' = (backups n)((t, ar_migration_id req) := checkpoints n t) \<and> incoming n' = incoming n
   \<and> (\<exists>b. find_bid (bids n') (ar_bid_id req) = Some b \<and> bid_record.status b = Activating))"

definition checkpoints_after_refusal :: "activation_environment \<Rightarrow> activation_request \<Rightarrow> migration_node \<Rightarrow> migration_node \<Rightarrow> bool" where
  "checkpoints_after_refusal env req n n' \<longleftrightarrow> (let t = ar_task_id req; left = copy_left (installation_answer env) in
     checkpoints n' = checkpoints n \<or> checkpoints n t = None \<and> left \<noteq> None \<and> checkpoints n' = (checkpoints n)(t := left))"

lemma rollback_checkpoints:
  assumes "rollback_activation env req st replaced started e n = (n', Inr resp)"
  shows "checkpoints n' = checkpoints (fst (restore_checkpoint replaced req n))"
proof -
  let ?n1 = "if started then fst (in_runtime (stop_process (ar_task_id req) (activation_stop env) (activation_now env)) n) else n"
  have "checkpoints n' = checkpoints (fst (restore_checkpoint replaced req ?n1))"
    using assms by (auto simp: rollback_activation_def Let_def case_prod_unfold split: sum.splits)
  moreover have "checkpoints ?n1 = checkpoints n" "backups ?n1 = backups n"
    using runtime_onlyD(3,4) [of n ?n1] by simp_all
  ultimately show ?thesis using restore_checkpoint_cong(1) by metis
qed

lemma restore_installed:
  assumes "install_checkpoint env req n1 = (n2, Inr u)" "checkpoints n3 = checkpoints n2" "backups n3 = backups n2"
  shows "checkpoints (fst (restore_checkpoint True req n3)) = checkpoints n1"
  using assms by (auto simp: restore_checkpoint_def install_checkpoint_def holds_files_def Let_def
      split: option.splits installation.splits)

lemma restore_uninstalled:
  assumes i: "install_checkpoint env req n = (n1, Inl e)" and clean: "backups n (ar_task_id req, ar_migration_id req) = None"
  shows "snd (restore_checkpoint False req n1) = Inr () \<Longrightarrow> checkpoints_after_refusal env req n (fst (restore_checkpoint False req n1))"
    "snd (restore_checkpoint False req n1) = Inl x \<Longrightarrow> (let t = ar_task_id req; left = copy_left (installation_answer env) in
       holds_files left \<and> checkpoints n t \<noteq> None \<and> checkpoints n1 = (checkpoints n)(t := left)
     \<and> backups n1 = (backups n)((t, ar_migration_id req) := checkpoints n t))"
  using assms
  by (auto simp: restore_checkpoint_def install_checkpoint_def holds_files_def Let_def copy_left_def
      checkpoints_after_refusal_def split: option.splits installation.splits if_splits)

lemma claimed_lease_activates:
  assumes "store_inv (bids n)" and "claim_reservation env req n = (n', Inr u)"
  shows "\<exists>b. find_bid (bids n') (ar_bid_id req) = Some b \<and> bid_record.status b = Activating"
proof -
  let ?b = "begin_activation (ar_bid_id req) (ar_task_id req) (ar_source req) (ar_destination req) (activation_now env) (bids n)"
  obtain s' x where b: "?b = (s', x)" by fastforce
  have n': "bids n' = s'" "is_ok x"
    using assms(2) b
    by (auto simp: claim_reservation_def and_then_def in_bids_def split: sum.splits option.splits)
  define e where "e = fst (expire_locked (activation_now env) (bids n))"
  have inv: "store_inv e" unfolding e_def by (rule edits_inv [OF assms(1) edits_expire(1)])
  obtain r where r: "find_bid e (ar_bid_id req) = Some r"
    "s' = put_bid (r\<lparr>bid_record.status := Activating, activation_started_at := Some (activation_now env),
                             bid_decision_reason := Some ClaimedByActivation\<rparr>) e"
    using b n'(2) unfolding begin_activation_def Let_def e_def [symmetric] by (auto split: option.splits if_splits)
  show ?thesis using store_invD(1) [OF inv r(1)] n'(1) r(2) by simp
qed

lemma run_activation_checkpoints:
  assumes clean: "backups n (ar_task_id req, ar_migration_id req) = None" and store: "store_inv (bids n)"
    and s: "run_activation env req st n = (n', res)"
  shows "case res of Inl e \<Rightarrow> old_checkpoint_stranded env req n n'
    | Inr resp \<Rightarrow> \<not> rsp_activated resp \<longrightarrow> checkpoints_after_refusal env req n n'"
proof -
  let ?t = "ar_task_id req" and ?m = "ar_migration_id req"
  obtain n1 r1 where c: "claim_reservation env req n = (n1, r1)" by fastforce
  obtain b where n1: "n1 = n\<lparr>bids := b\<rparr>" using claim_reservation_outcome(1) [OF c] by blast
  have frame1: "checkpoints n1 = checkpoints n" "backups n1 = backups n" "incoming n1 = incoming n" by (simp_all add: n1)
  show ?thesis
  proof (cases r1)
    case (Inl e)
    have r: "rollback_activation env req st False False e n1 = (n', res)" using s c Inl by (simp add: run_activation_def)
    show ?thesis
    proof (cases res)
      case (Inl x)
      then show ?thesis using rollback_raises(9) [of env req st False False e n1 n' x] r frame1 clean by simp
    next
      case (Inr resp)
      then have "checkpoints n' = checkpoints n"
        using rollback_checkpoints [of env req st False False e n1 n' resp] r frame1 clean
        by (simp add: restore_checkpoint_def Let_def)
      then show ?thesis using Inr by (simp add: checkpoints_after_refusal_def)
    qed
  next
    case claim: (Inr u)
    obtain n2 r2 where i: "install_checkpoint env req n1 = (n2, r2)" by fastforce
    show ?thesis
    proof (cases r2)
      case (Inl e)
      have r: "rollback_activation env req st False False e n2 = (n', res)"
        using s c claim i Inl by (simp add: run_activation_def)
      note left = restore_uninstalled [OF i [unfolded Inl], unfolded frame1, OF clean]
      show ?thesis
      proof (cases res)
        case raised: (Inl x)
        then have r: "rollback_activation env req st False False e n2 = (n', Inl x)" using r by simp
        then have "snd (restore_checkpoint False req n2) = Inl x"
          by (auto simp: rollback_activation_def Let_def split: sum.splits prod.splits)
        note left = left(2) [OF this]
        have "bids n' = bids n1" "incoming n' = incoming n" "checkpoints n' = checkpoints n2" "backups n' = backups n2"
          using rollback_raises(4-7) [OF r] install_checkpoint_select(2,5) [of env req n1] frame1 by (simp_all add: i)
        then show ?thesis using left claimed_lease_activates [OF store c [unfolded claim]] raised
          by (simp add: old_checkpoint_stranded_def Let_def)
      next
        case (Inr resp)
        then have r: "rollback_activation env req st False False e n2 = (n', Inr resp)" using r by simp
        then have "snd (restore_checkpoint False req n2) = Inr ()"
          by (auto simp: rollback_activation_def Let_def split: sum.splits prod.splits)
        then show ?thesis using left(1) rollback_checkpoints [OF r] Inr frame1 by (simp add: checkpoints_after_refusal_def)
      qed
    next
      case installed: (Inr v)
      obtain n3 r3 where e3: "establish env req n2 = (n3, r3)" by fastforce
      have "runtime_only n2 n3" using establish_only [OF e3] .
      note frame3 = runtime_onlyD(3,4) [OF this]
      have reset: "checkpoints n' = checkpoints n"
        if "rollback_activation env req st True b e k = (n', Inr resp)" "checkpoints k = checkpoints n3" "backups k = backups n3"
        for b e k resp
        using rollback_checkpoints [OF that(1)] restore_installed [OF i [unfolded installed], of k] that(2,3) frame3 frame1 by simp
      have calm: "x \<noteq> Inl e" if "rollback_activation env req st True b e' k = (n', x)" for b e e' k x
        using rollback_raises(1) [of env req st True b e' k n' e] that by auto
      show ?thesis
      proof (cases r3)
        case (Inl e)
        have r: "rollback_activation env req st True False e n3 = (n', res)"
          using s c claim i installed e3 Inl by (simp add: run_activation_def)
        with calm [OF this] show ?thesis using reset [of False e n3] by (cases res) (auto simp: checkpoints_after_refusal_def)
      next
        case started: (Inr st')
        obtain n4 r4 where c4: "commit_reservation env req (lease_meanwhile env req n3) = (n4, r4)" by fastforce
        have frame4: "checkpoints n4 = checkpoints n3" "backups n4 = backups n3"
          using commit_reservation_frame [OF c4] by simp_all
        show ?thesis
        proof (cases r4)
          case (Inl e)
          have r: "rollback_activation env req st True True e n4 = (n', res)"
            using s c claim i installed e3 started c4 Inl by (simp add: run_activation_def)
          with calm [OF this] show ?thesis using reset [of True e n4] frame4 by (cases res) (auto simp: checkpoints_after_refusal_def)
        next
          case (Inr w)
          then show ?thesis using s c claim i installed e3 started c4
            by (auto simp: run_activation_def complete_activation_def response_to_def Let_def)
        qed
      qed
    qed
  qed
qed

section \<open>The request\<close>

lemma begin_record_select [simp]:
  "runtime_of (begin_record env req st n) = runtime_of n" "bids (begin_record env req st n) = bids n"
  "checkpoints (begin_record env req st n) = checkpoints n" "backups (begin_record env req st n) = backups n"
  "incoming (begin_record env req st n) = incoming n" "local_id (begin_record env req st n) = local_id n"
  "journal_ok (journal n) \<Longrightarrow> journal_ok (journal (begin_record env req st n))"
  by (simp_all add: begin_record_def local_id_def Let_def split: option.split)

lemma begin_record_known:
  "journal_ok (journal n) \<Longrightarrow>
   \<exists>r. journal_get (journal (begin_record env req st n)) (ar_migration_id req) = Some r \<and> mr_status r = Mig_Activating"
  by (auto simp: begin_record_def Let_def put_record_def incoming_record_def journal_status_get split: option.split)

lemma result_cong:
  assumes "runtime_of n = runtime_of m" "checkpoints n = checkpoints m" "incoming n = incoming m"
  shows "activation_result n req st n' res = activation_result m req st n' res"
  using assms
  by (simp add: activation_result_def activation_committed_def activation_refused_def activation_stuck_def took_over_def
      local_id_def split: sum.split)

lemma refusal_cong:
  assumes "checkpoints n = checkpoints m" "backups n = backups m" "incoming n = incoming m"
  shows "old_checkpoint_stranded env req n n' = old_checkpoint_stranded env req m n'"
    "checkpoints_after_refusal env req n n' = checkpoints_after_refusal env req m n'"
  using assms by (simp_all add: old_checkpoint_stranded_def checkpoints_after_refusal_def)

lemma already_active_cong [simp]: "already_active req st (merge_received p n) = already_active req st n"
  by (simp add: already_active_def)

lemma activate_incoming_outcome:
  assumes ground: "activation_ground env req st n" and dest: "ar_destination req = local_id n"
    and first: "\<not> already_active req st n"
    and open_record: "\<forall>r. journal_get (journal n) (ar_migration_id req) = Some r \<longrightarrow> mr_status r \<noteq> Mig_Rolled_Back"
    and a: "activate_incoming env req n = (n', res)"
  shows "activation_result n req st n' res"
    "backups n (ar_task_id req, ar_migration_id req) = None \<Longrightarrow>
      (case res of Inl e \<Rightarrow> old_checkpoint_stranded env req n n'
       | Inr resp \<Rightarrow> \<not> rsp_activated resp \<longrightarrow> checkpoints_after_refusal env req n n')"
proof -
  let ?n1 = "merge_received (ar_policy req) n"
  let ?n2 = "begin_record env req st ?n1"
  note S = ground [unfolded activation_ground_def]
  have ground2: "activation_ground env req st ?n2" using S by (simp add: activation_ground_def)
  obtain r0 where known: "journal_get (journal ?n2) (ar_migration_id req) = Some r0" "mr_status r0 = Mig_Activating"
    using begin_record_known [of ?n1 env req st] S by auto
  have r: "run_activation env req st ?n2 = (n', res)"
    using a dest S first open_record by (auto simp: activate_incoming_def Let_def split: option.splits)
  show "activation_result n req st n' res"
    using run_activation_outcome [OF ground2 known r] result_cong [of ?n2 n] by simp
  assume clean: "backups n (ar_task_id req, ar_migration_id req) = None"
  then show "case res of Inl e \<Rightarrow> old_checkpoint_stranded env req n n'
       | Inr resp \<Rightarrow> \<not> rsp_activated resp \<longrightarrow> checkpoints_after_refusal env req n n'"
    using run_activation_checkpoints [OF _ _ r] S refusal_cong [of ?n2 n] by (simp split: sum.splits)
qed

text \<open>A repeated request: the second answer is the first, and nothing happens.\<close>

lemma activate_again:
  assumes committed: "activation_committed n req st n'" and dest: "ar_destination req = local_id n'" and same: "local_id n' = local_id n"
    and journal: "journal_ok (journal n')"
  shows "\<exists>n'' resp. activate_incoming env req n' = (n'', Inr resp) \<and> rsp_activated resp \<and> rsp_pid resp = pid (process st)
    \<and> runtime_of n'' = runtime_of n' \<and> bids n'' = bids n' \<and> checkpoints n'' = checkpoints n' \<and> journal_ok (journal n'')
    \<and> (\<exists>r. journal_get (journal n'') (ar_migration_id req) = Some r \<and> mr_status r = Mig_Activated)"
proof -
  have st: "get_state (tasks (runtime_of n')) (ar_task_id req) = Inr st" and active: "already_active req st n'"
    using committed same by (auto simp: activation_committed_def took_over_def already_active_def)
  obtain r where r: "journal_get (journal n') (ar_migration_id req) = Some r"
    using committed by (auto simp: activation_committed_def)
  show ?thesis using dest st active r journal
    by (simp add: activate_incoming_def Let_def confirm_activation_def response_to_def journal_status_get)
qed

lemma refuse_again:
  assumes refused: "activation_refused n req st n'" and first: "\<not> already_active req st n" and same: "local_id n' = local_id n"
    and dest: "ar_destination req = local_id n'"
  shows "\<exists>n'' resp. activate_incoming env req n' = (n'', Inr resp) \<and> \<not> rsp_activated resp
    \<and> runtime_of n'' = runtime_of n' \<and> bids n'' = bids n' \<and> checkpoints n'' = checkpoints n' \<and> journal n'' = journal n'"
proof -
  obtain w where st: "get_state (tasks (runtime_of n')) (ar_task_id req) = Inr (st\<lparr>task_state.updated_at := w\<rparr>)"
    using refused by (auto simp: activation_refused_def)
  have inactive: "\<not> already_active req (st\<lparr>task_state.updated_at := w\<rparr>) n'" using first same by (simp add: already_active_def)
  obtain r where "journal_get (journal n') (ar_migration_id req) = Some r" "mr_status r = Mig_Rolled_Back"
    using refused by (auto simp: activation_refused_def)
  then show ?thesis using dest st inactive by (simp add: activate_incoming_def Let_def response_to_def)
qed

end
