(* ===== verification/Migration_Source_Laws.thy ===== *)
theory Migration_Source_Laws
  imports Migration_Source Migration_Laws
begin

text \<open>
  What the source of a migration promises about a destination that tells the truth: the contract of
  such a destination is a locale, and inside it a migration never leaves the task running on both
  sides, and answers success exactly when the destination has taken the task over.
\<close>

section \<open>A task in transit\<close>

text \<open>The task is owned here, stopped, without a process; \<open>L\<close> is what else runs.\<close>

definition in_transit :: "task_id \<Rightarrow> int set \<Rightarrow> migration_node \<Rightarrow> bool" where
  "in_transit t L n \<longleftrightarrow> live (runtime_of n) = L
   \<and> (\<exists>st. get_state (tasks (runtime_of n)) t = Inr st \<and> task_state.state_task_id st = t \<and> pid (process st) = None
        \<and> owner_node_id st = local_id n \<and> task_status st = Stopped \<and> cost_split (accounting st))"

definition quiet :: "task_id \<Rightarrow> int set \<Rightarrow> migration_node \<Rightarrow> bool" where
  "quiet t L n \<longleftrightarrow> live (runtime_of n) = L \<and> idle_task t (runtime_of n)"

lemma in_transit_quiet: "in_transit t L n \<Longrightarrow> quiet t L n"
  by (auto simp: in_transit_def quiet_def idle_task_def)

lemma in_transit_set_status [simp]: "in_transit t L (set_status now m s p e n) = in_transit t L n"
  by (simp add: in_transit_def)

lemma quiet_set_status [simp]: "quiet t L (set_status now m s p e n) = quiet t L n"
  by (simp add: quiet_def)

lemma edit_at:
  assumes st: "get_state (tasks (runtime_of n)) t = Inr st" and f: "f st = Store st1"
  shows "in_runtime (on_tasks f w t) n = (n\<lparr>runtime_of := (runtime_of n)\<lparr>tasks := write_state w st1 (tasks (runtime_of n))\<rparr>\<rparr>,
    Inr (st1\<lparr>task_state.updated_at := w\<rparr>))"
proof -
  have "on_tasks f w t (runtime_of n) = ((runtime_of n)\<lparr>tasks := write_state w st1 (tasks (runtime_of n))\<rparr>,
      Inr (st1\<lparr>task_state.updated_at := w\<rparr>))"
    by (rule on_tasks_store [OF st]) (rule f)
  then show ?thesis by (simp add: in_runtime_def)
qed

lemma edit_at_state:
  assumes st: "get_state (tasks (runtime_of n)) t = Inr st" and f: "f st = Store st1" and id: "task_state.state_task_id st1 = t"
  shows "get_state (tasks (runtime_of (fst (in_runtime (on_tasks f w t) n)))) t = Inr (st1\<lparr>task_state.updated_at := w\<rparr>)"
    "live (runtime_of (fst (in_runtime (on_tasks f w t) n))) = live (runtime_of n)"
    "local_id (fst (in_runtime (on_tasks f w t) n)) = local_id n"
    "snd (in_runtime (on_tasks f w t) n) = Inr (st1\<lparr>task_state.updated_at := w\<rparr>)"
    "journal (fst (in_runtime (on_tasks f w t) n)) = journal n"
  unfolding edit_at [where f = f, OF st f]
  using get_state_write [OF st id, of w t] by (simp_all add: local_id_def runtime_node_def)

section \<open>Quiescing\<close>

definition settlement_answers :: "migrate_environment \<Rightarrow> task_id \<Rightarrow> task_definition \<Rightarrow> bool" where
  "settlement_answers env t d \<longleftrightarrow>
     (\<forall>acc. settlement env = Some acc \<longrightarrow> is_ok (settle_trace env) \<and> settlement_sources acc t d)"

lemma settle_before:
  assumes inv: "runtime_inv (runtime_of n)" and st: "get_state (tasks (runtime_of n)) t = Inr st"
    and d: "get_definition (tasks (runtime_of n)) t = Inr d" and acc: "settlement_sources acc t d"
  obtains n' st' where "in_runtime (settle_task acc wall tt w t) n = (n', Inr st')" "runtime_inv (runtime_of n')"
    "others_same t (runtime_of n) (runtime_of n')" "live (runtime_of n') = live (runtime_of n)"
    "suspended (runtime_of n') = suspended (runtime_of n)" "runtime_only n n'"
    "\<exists>st'. get_state (tasks (runtime_of n')) t = Inr st' \<and> resettled st st'"
proof -
  let ?s = "settle_task acc wall tt w t (runtime_of n)"
  obtain st' where st': "snd ?s = Inr st'"
    using settle_task_answers [OF inv st d acc, of wall tt w] by (auto simp: is_ok_Inr)
  note ok = settle_task_ok [OF inv st, of acc wall tt w]
  have r: "in_runtime (settle_task acc wall tt w t) n = (n\<lparr>runtime_of := fst ?s\<rparr>, Inr st')"
    using st' by (simp add: in_runtime_def case_prod_unfold Let_def)
  show thesis
    by (rule that [OF r]) (use ok in \<open>simp_all add: own_change_def others_same_def runtime_only_def\<close>)
qed

lemma quiesce_outcome:
  assumes inv: "runtime_inv (runtime_of n)" and st: "get_state (tasks (runtime_of n)) t = Inr st"
    and mine: "owner_node_id st = local_id n" and open_task: "task_status st \<noteq> Completed"
    and d: "get_definition (tasks (runtime_of n)) t = Inr d" and answers: "settlement_answers env t d"
    and reaction: "source_stop env \<noteq> KillDenied"
  obtains n' where "quiesce_source env t n = (n', Inr ())"
    "in_transit t (live (runtime_of n) - set_option (pid (process st))) n'"
    "local_id n' = local_id n"
    "journal n' = set_record_status (migrate_now env) (new_id env) Mig_Transferring None None (journal n)"
proof -
  let ?w = "migrate_now env"
  have settled: "\<exists>n1 st1. (case settlement env of None \<Rightarrow> (n, Inr ())
      | Some acc \<Rightarrow> and_then (answer (settle_trace env)) (\<lambda>trace.
          and_then (in_runtime (settle_task acc (settle_wall env) trace ?w t)) (\<lambda>_. answer (Inr ()))) n) = (n1, Inr ())
      \<and> runtime_inv (runtime_of n1) \<and> others_same t (runtime_of n) (runtime_of n1) \<and> live (runtime_of n1) = live (runtime_of n)
      \<and> runtime_only n n1 \<and> get_state (tasks (runtime_of n1)) t = Inr st1 \<and> resettled st st1"
  proof (cases "settlement env")
    case None
    then show ?thesis using inv st by auto
  next
    case (Some acc)
    then obtain trace where trace: "settle_trace env = Inr trace" "settlement_sources acc t d"
      using answers by (auto simp: settlement_answers_def is_ok_Inr)
    obtain n1 st1 where s: "in_runtime (settle_task acc (settle_wall env) trace ?w t) n = (n1, Inr st1)"
      "runtime_inv (runtime_of n1)" "others_same t (runtime_of n) (runtime_of n1)" "live (runtime_of n1) = live (runtime_of n)"
      "suspended (runtime_of n1) = suspended (runtime_of n)" "runtime_only n n1"
      "\<exists>st'. get_state (tasks (runtime_of n1)) t = Inr st' \<and> resettled st st'"
      by (rule settle_before [OF inv st d trace(2)])
    then show ?thesis using Some trace(1) by (auto simp: and_then_def answer_def)
  qed
  then obtain n1 st1 where n1: "(case settlement env of None \<Rightarrow> (n, Inr ())
      | Some acc \<Rightarrow> and_then (answer (settle_trace env)) (\<lambda>trace.
          and_then (in_runtime (settle_task acc (settle_wall env) trace ?w t)) (\<lambda>_. answer (Inr ()))) n) = (n1, Inr ())"
    "runtime_inv (runtime_of n1)" "others_same t (runtime_of n) (runtime_of n1)" "live (runtime_of n1) = live (runtime_of n)"
    "runtime_only n n1" "get_state (tasks (runtime_of n1)) t = Inr st1" "resettled st st1" by blast
  note R = resettledD [OF n1(7)]
  have id1: "task_state.state_task_id st1 = t" using runtime_invD(1) [OF n1(2,6)] .
  have loc1: "local_id n1 = local_id n" using n1(3) by (simp add: local_id_def others_same_def runtime_node_def)
  let ?f = "mark_migrating (local_id n1) (new_id env)"
  let ?st2 = "st1\<lparr>task_status := Migrating, last_migration_id := Some (new_id env)\<rparr>"
  have f: "?f st1 = Store ?st2" using R open_task mine loc1 by (simp add: mark_migrating_def)
  have id2: "task_state.state_task_id ?st2 = t" using id1 by simp
  let ?n2 = "fst (in_runtime (on_tasks ?f ?w t) n1)"
  note e2 = edit_at_state [where f = ?f, OF n1(6) f id2, of ?w]
  let ?n3 = "set_status ?w (new_id env) Mig_Transferring None None ?n2"
  let ?st3 = "?st2\<lparr>task_state.updated_at := ?w\<rparr>"
  have st3: "get_state (tasks (runtime_of ?n3)) t = Inr ?st3" "task_state.state_task_id ?st3 = t" "task_status ?st3 \<noteq> Completed"
    using e2(1) id1 by simp_all
  obtain rt r where s: "stop_process t (source_stop env) ?w (runtime_of ?n3) = (rt, r)" by fastforce
  note stop = stop_outcome [OF st3 reaction s]
  let ?n4 = "?n3\<lparr>runtime_of := rt\<rparr>"
  have q: "quiesce_source env t n = (?n4, Inr ())"
    using n1(1) e2(4) s stop
    by (auto simp: quiesce_source_def and_then_def in_runtime_def case_prod_unfold Let_def answer_def)
  have ok1: "cost_split (accounting st1)" using runtime_invD(2) [OF n1(2,6)] by (simp add: state_ok_def)
  have lv: "live rt = live (runtime_of n) - set_option (pid (process st))"
    using stop e2(2) n1(4) R(4) by simp
  have loc4: "local_id ?n4 = local_id n"
    using stop e2(3) loc1 by (simp add: local_id_def others_same_def runtime_node_def)
  obtain w' where fin: "get_state (tasks rt) t
      = Inr (((halt ?st3)\<lparr>task_status := Stopped, last_exit_code := None\<rparr>)\<lparr>task_state.updated_at := w'\<rparr>)"
    using stop by auto
  have "in_transit t (live (runtime_of n) - set_option (pid (process st))) ?n4"
    unfolding in_transit_def using lv fin id1 R(2) mine loc4 ok1 by simp
  moreover have "journal ?n4 = set_record_status ?w (new_id env) Mig_Transferring None None (journal n)"
    using e2(5) runtime_onlyD(1) [OF n1(5)] by simp
  ultimately show thesis using that [OF q _ loc4] by blast
qed

section \<open>Transfer\<close>

lemma record_migration_cases:
  "(\<exists>r. record_migration acc c edge p t dst b x tt w rt = (rt, r))
   \<or> (\<exists>d. record_migration acc c edge p t dst b x tt w rt = on_tasks (record_accounting d) w t rt)"
  unfolding record_migration_def Let_def by (simp split: sum.split) blast

lemma in_transit_accounting:
  assumes "in_transit t L n"
  shows "in_transit t L (fst (in_runtime (on_tasks (record_accounting d) w t) n))"
    "local_id (fst (in_runtime (on_tasks (record_accounting d) w t) n)) = local_id n"
    "journal (fst (in_runtime (on_tasks (record_accounting d) w t) n)) = journal n"
proof -
  obtain st where st: "get_state (tasks (runtime_of n)) t = Inr st" "task_state.state_task_id st = t" "pid (process st) = None"
    "owner_node_id st = local_id n" "task_status st = Stopped" "cost_split (accounting st)" and L: "live (runtime_of n) = L"
    using assms by (auto simp: in_transit_def)
  let ?st1 = "st\<lparr>accounting := add_accounting d (accounting st),
               last_accounted_at := override (delta_accounted_at d) (last_accounted_at st)\<rparr>"
  have f: "record_accounting d st = Store ?st1" by (simp add: record_accounting_def)
  have id: "task_state.state_task_id ?st1 = t" using st(2) by simp
  note e = edit_at_state [where f = "record_accounting d", OF st(1) f id, of w]
  show "in_transit t L (fst (in_runtime (on_tasks (record_accounting d) w t) n))"
    unfolding in_transit_def using e st L by simp
  show "local_id (fst (in_runtime (on_tasks (record_accounting d) w t) n)) = local_id n"
    "journal (fst (in_runtime (on_tasks (record_accounting d) w t) n)) = journal n" using e by simp_all
qed

lemma in_transit_charge:
  assumes "in_transit t L n"
  shows "in_transit t L (fst (in_runtime (record_migration acc c edge p t dst b x tt w) n))
    \<and> local_id (fst (in_runtime (record_migration acc c edge p t dst b x tt w) n)) = local_id n
    \<and> journal (fst (in_runtime (record_migration acc c edge p t dst b x tt w) n)) = journal n"
  using record_migration_cases [of acc c edge p t dst b x tt w "runtime_of n"]
proof (elim disjE exE)
  fix r
  assume "record_migration acc c edge p t dst b x tt w (runtime_of n) = (runtime_of n, r)"
  then show ?thesis using assms by (simp add: in_runtime_def)
next
  fix d
  assume "record_migration acc c edge p t dst b x tt w (runtime_of n) = on_tasks (record_accounting d) w t (runtime_of n)"
  then have "in_runtime (record_migration acc c edge p t dst b x tt w) n = in_runtime (on_tasks (record_accounting d) w t) n"
    by (simp add: in_runtime_def)
  then show ?thesis using in_transit_accounting [OF assms] by simp
qed

lemma transfer_outcome:
  assumes "in_transit t L n" and "transfer_phase net env t dst at_time missing (n, d) = ((n', d'), r)"
  shows "in_transit t L n' \<and> local_id n' = local_id n \<and> journal n' = journal n
    \<and> (d' = d \<or> (\<exists>c. d' = fst (send_checkpoint net (new_id env) t c d)))"
proof -
  let ?ck = "checkpoints n t"
  let ?sent = "send_checkpoint net (new_id env) t ?ck d"
  have charge: "in_transit t L (fst (in_runtime (record_migration acc (accounting_cluster env) (accounting_edge env)
        (accounting_policy env) t dst b (downtime_so_far env) at_time (migrate_now env)) n))
    \<and> local_id (fst (in_runtime (record_migration acc (accounting_cluster env) (accounting_edge env)
        (accounting_policy env) t dst b (downtime_so_far env) at_time (migrate_now env)) n)) = local_id n
    \<and> journal (fst (in_runtime (record_migration acc (accounting_cluster env) (accounting_edge env)
        (accounting_policy env) t dst b (downtime_so_far env) at_time (migrate_now env)) n)) = journal n" for acc b
    by (rule in_transit_charge [OF assms(1)])
  show ?thesis
  proof (cases "source_checkpoint env ?ck")
    case (Inl e)
    then show ?thesis using assms by (simp add: transfer_phase_def and_then_def)
  next
    case ck: (Inr bytes)
    show ?thesis
    proof (cases "snd ?sent")
      case (Inl e)
      then show ?thesis using assms ck by (auto simp: transfer_phase_def and_then_def there_def case_prod_unfold Let_def)
    next
      case sent: (Inr k)
      show ?thesis
      proof (cases "if 0 < k then telemetry_transfer env else Inr ()")
        case (Inl e)
        then show ?thesis using assms ck sent
          by (auto simp: transfer_phase_def and_then_def there_def answer_def case_prod_unfold Let_def)
      next
        case tele: (Inr u)
        show ?thesis
        proof (cases "settlement env")
          case None
          then show ?thesis using assms ck sent tele
            by (auto simp: transfer_phase_def and_then_def there_def answer_def case_prod_unfold Let_def)
        next
          case (Some acc)
          let ?charge = "in_runtime (record_migration acc (accounting_cluster env) (accounting_edge env)
             (accounting_policy env) t dst (missing + bytes) (downtime_so_far env) at_time (migrate_now env)) n"
          have "n' = fst ?charge" "d' = fst ?sent"
            using assms(2) ck sent tele Some
            by (auto simp: transfer_phase_def and_then_def there_def here_def answer_def case_prod_unfold Let_def split: sum.splits)
          then show ?thesis using charge [of acc "missing + bytes"] by auto
        qed
      qed
    qed
  qed
qed

section \<open>Success and unknown outcome\<close>

text \<open>The source after a success: the task belongs to the destination, nothing of it runs here.\<close>

definition handed_over :: "task_id \<Rightarrow> node_id \<Rightarrow> int \<Rightarrow> int set \<Rightarrow> migration_node \<Rightarrow> bool" where
  "handed_over t destination g L n \<longleftrightarrow> live (runtime_of n) = L
   \<and> (\<exists>st. get_state (tasks (runtime_of n)) t = Inr st \<and> pid (process st) = None \<and> task_status st = Remote
        \<and> owner_node_id st = destination \<and> generation st = g)"

lemma handed_over_quiet: "handed_over t destination g L n \<Longrightarrow> quiet t L n"
  by (auto simp: handed_over_def quiet_def idle_task_def)

lemma finalize_outcome:
  assumes "in_transit t L n"
  shows "\<exists>n' acc pol. finalize_source_success net t destination m g at_time bs now (n, d)
      = ((n', broadcast net (success_update t destination m g at_time bs acc) pol d), Inr ())
    \<and> handed_over t destination g L n'"
proof -
  obtain st where st: "get_state (tasks (runtime_of n)) t = Inr st" "task_state.state_task_id st = t" "pid (process st) = None"
    "task_status st = Stopped" and L: "live (runtime_of n) = L"
    using assms by (auto simp: in_transit_def)
  let ?f = "mark_remote destination g m at_time"
  let ?st1 = "(halt st)\<lparr>owner_node_id := destination, generation := g, task_status := Remote,
             last_migration_id := Some m, state_last_migration_at := Some at_time,
             last_error := None, last_exit_code := None\<rparr>"
  have f: "?f st = Store ?st1" using st(4) by (simp add: mark_remote_def)
  have id: "task_state.state_task_id ?st1 = t" using st(2) by simp
  note e = edit_at_state [where f = ?f, OF st(1) f id, of now]
  let ?n1 = "fst (in_runtime (on_tasks ?f now t) n)"
  have "handed_over t destination g L (set_status now m Mig_Activated None None ?n1)"
    unfolding handed_over_def using e L by simp
  moreover have "finalize_source_success net t destination m g at_time bs now (n, d)
      = ((set_status now m Mig_Activated None None ?n1,
          broadcast net (success_update t destination m g at_time bs (accounting ?st1)) (policy_copy t ?n1) d), Inr ())"
    using e by (simp add: finalize_source_success_def and_then_def here_def there_def noted_def case_prod_unfold Let_def)
  ultimately show ?thesis by blast
qed

lemma exhausted_outcome:
  assumes "in_transit t L n"
  shows "quiet t L (fst (in_runtime (on_tasks (mark_recovery_exhausted x) w t) n))"
proof -
  obtain st where st: "get_state (tasks (runtime_of n)) t = Inr st" "task_state.state_task_id st = t"
    and L: "live (runtime_of n) = L" using assms by (auto simp: in_transit_def)
  let ?st1 = "st\<lparr>task_status := Failed, process := (process st)\<lparr>pid := None, process_group_id := None\<rparr>, last_error := Some x,
       recovery := (recovery st)\<lparr>next_recovery_at := None, recovery_exhausted := True\<rparr>\<rparr>"
  have f: "mark_recovery_exhausted x st = Store ?st1" by (simp add: mark_recovery_exhausted_def)
  have id: "task_state.state_task_id ?st1 = t" using st(2) by simp
  show ?thesis using edit_at_state [where f = "mark_recovery_exhausted x", OF st(1) f id, of w] L
    by (simp add: quiet_def idle_task_def)
qed

lemma give_back_result: "snd (give_back env t g stopped e n) \<noteq> Inr True"
  by (auto simp: give_back_def and_then_def answer_def Let_def split: sum.splits prod.splits)

section \<open>The contract of the destination\<close>

definition request_for :: "string \<Rightarrow> task_id \<Rightarrow> node_id \<Rightarrow> int \<Rightarrow> activation_request \<Rightarrow> bool" where
  "request_for m t destination g req \<longleftrightarrow> ar_migration_id req = m \<and> ar_task_id req = t \<and> ar_destination req = destination
   \<and> ar_generation req = g \<and> (\<forall>a. ar_accounting req = Some a \<longrightarrow> cost_split a)"

text \<open>
  \<open>sane\<close> is what the destination keeps while the migration is under way, \<open>committed\<close> that it has
  taken the task over.  Its answers tell the truth, and neither a cancelled reservation nor the
  announcement of the new owner changes the outcome.
\<close>

locale migration_endpoint =
  fixes net :: "'d remote" and m :: string and t :: task_id and destination :: node_id and g :: int
    and committed :: "'d \<Rightarrow> bool" and sane :: "'d \<Rightarrow> bool"
  assumes send_keeps: "sane d \<Longrightarrow> sane (fst (send_checkpoint net m t c d))
      \<and> committed (fst (send_checkpoint net m t c d)) = committed d"
    and deliver_keeps: "sane d \<Longrightarrow> request_for m t destination g req \<Longrightarrow> sane (fst (deliver net i req d))"
    and reply_true: "sane d \<Longrightarrow> request_for m t destination g req \<Longrightarrow> deliver net i req d = (d', Some r) \<Longrightarrow>
      rsp_activated r = committed d'"
    and polls_true: "sane d \<Longrightarrow> Answer x \<in> set (polls net m d) \<Longrightarrow> truthful (committed d) x"
    and cancel_keeps: "sane d \<Longrightarrow> committed (cancel_reservation net b reason d) = committed d"
    and broadcast_keeps: "sane d \<Longrightarrow> committed d \<Longrightarrow>
      committed (broadcast net (success_update t destination m g at_time bs acc) pol d)"
begin

lemma attempts_true:
  "sane d \<Longrightarrow> request_for m t destination g req \<Longrightarrow> client_attempts net req is d = (d', r) \<Longrightarrow>
   sane d' \<and> (\<forall>rsp. r = Inr rsp \<longrightarrow> rsp_activated rsp = committed d') \<and> (\<forall>e. r = Inl e \<longrightarrow> is_unknown_outcome e)"
proof (induction "is" arbitrary: d)
  case (Cons i "is")
  obtain d1 x where x: "deliver net i req d = (d1, x)" by fastforce
  have d1: "sane d1" using deliver_keeps [OF Cons.prems(1,2), of i] x by simp
  show ?case
  proof (cases x)
    case None
    then show ?thesis using Cons.IH [OF d1 Cons.prems(2)] Cons.prems(3) x by simp
  next
    case (Some rsp)
    then show ?thesis using Cons.prems x d1 reply_true [OF Cons.prems(1,2), of i d1 rsp] by auto
  qed
qed auto

lemma query_true:
  assumes "sane d"
  shows "case verdict_of (query_remote_outcome net m d) of Committed \<Rightarrow> committed d | Refused \<Rightarrow> \<not> committed d
    | Unknown_Outcome \<Rightarrow> True"
  unfolding query_remote_outcome_def
  by (rule query_loop_sound) (use polls_true [OF assms] in auto)

lemma resolve_true:
  assumes transit: "in_transit t L n" and sane: "sane d" and id: "new_id env = m"
    and s: "resolve_unknown net env t destination at_time g bs e (n, d) = ((n', d'), r)"
  shows "(committed d' \<longrightarrow> quiet t L n') \<and> (r = Inr True \<longrightarrow> committed d' \<and> handed_over t destination g L n')
    \<and> (d' = d \<or> committed d \<and> committed d' \<and> verdict_of (query_remote_outcome net m d) = Committed)"
proof -
  let ?now = "migrate_now env"
  let ?n1 = "set_status ?now m Mig_Uncertain None (Some (describe_error e)) n"
  have transit1: "in_transit t L ?n1" using transit by simp
  note q = query_true [OF sane]
  show ?thesis
  proof (cases "verdict_of (query_remote_outcome net m d)")
    case Committed
    obtain n2 acc pol where f: "finalize_source_success net t destination m g at_time bs ?now (?n1, d)
      = ((n2, broadcast net (success_update t destination m g at_time bs acc) pol d), Inr ())" "handed_over t destination g L n2"
      using finalize_outcome [OF transit1, of net destination m g at_time bs ?now d] by blast
    have "n' = n2" "d' = broadcast net (success_update t destination m g at_time bs acc) pol d" "r = Inr True"
      using s id Committed f(1) by (auto simp: resolve_unknown_def and_then_def answer_def Let_def)
    moreover have "committed d" using q Committed by simp
    ultimately show ?thesis using f(2) handed_over_quiet broadcast_keeps [OF sane] Committed by blast
  next
    case Refused
    have "\<not> committed d" using q Refused by simp
    moreover have "d' = d" "r \<noteq> Inr True"
      using s id Refused
      by (auto simp: resolve_unknown_def and_then_def answer_def here_def case_prod_unfold Let_def
          split: option.splits sum.splits prod.splits)
    ultimately show ?thesis by simp
  next
    case Unknown_Outcome
    let ?f = "in_runtime (on_tasks (mark_recovery_exhausted (unknown_message e)) ?now t)"
    have "n' = fst (?f ?n1)" "d' = d" "r \<noteq> Inr True"
      using s id Unknown_Outcome
      by (auto simp: resolve_unknown_def and_then_def answer_def here_def case_prod_unfold Let_def split: sum.splits)
    then show ?thesis using exhausted_outcome [OF transit1] by simp
  qed
qed

lemma activation_outcome:
  assumes transit: "in_transit t L n" and sane: "sane d" and id: "new_id env = m"
    and s: "activation_phase net env t destination at_time bid g bs (n, d) = ((n', d'), r)"
  shows "in_transit t L n' \<and> sane d' \<and> (r = Inr () \<longrightarrow> committed d')
    \<and> (\<forall>e. r = Inl e \<longrightarrow> is_unknown_outcome e \<or> \<not> committed d')"
proof -
  obtain st where st: "get_state (tasks (runtime_of n)) t = Inr st" "cost_split (accounting st)"
    using transit by (auto simp: in_transit_def)
  let ?req = "activation_request_of env t destination at_time bid g bs st n"
  have req: "request_for m t destination g ?req" using st(2) id by (simp add: request_for_def activation_request_of_def)
  let ?n1 = "set_status (migrate_now env) m Mig_Activating None None n"
  obtain d1 x where x: "client_attempts net ?req [1, 2, 3] d = (d1, x)" by fastforce
  note told = attempts_true [OF sane req x]
  have r: "n' = ?n1" "d' = d1" "r = (case x of Inl e \<Rightarrow> Inl e | Inr rsp \<Rightarrow> if rsp_activated rsp then Inr ()
      else Inl (RuntimeError (case rsp_error rsp of None \<Rightarrow> ''Destination rejected activation'' | Some e \<Rightarrow> e)))"
    using s st(1) x id
    by (auto simp: activation_phase_def and_then_def noted_def there_def answer_def client_activate_def split: sum.splits)
  show ?thesis using told transit unfolding r by (auto split: sum.splits if_splits)
qed

lemma migrate_prepared_true:
  assumes inv: "runtime_inv (runtime_of n)" and st: "get_state (tasks (runtime_of n)) t = Inr st"
    and mine: "owner_node_id st = local_id n" and open_task: "task_status st \<noteq> Completed"
    and d: "get_definition (tasks (runtime_of n)) t = Inr def" and answers: "settlement_answers env t def"
    and reaction: "source_stop env \<noteq> KillDenied" and id: "new_id env = m" and g: "g = generation st + 1"
    and sane: "sane d" and fresh: "\<not> committed d" and calibrated: "telemetry_calibration env = Inr ()"
    and s: "migrate_prepared net env t destination at_time bid (generation st) missing bs (n, d) = ((n', d'), r)"
  shows "(committed d' \<longrightarrow> quiet t (live (runtime_of n) - set_option (pid (process st))) n')
    \<and> (r = Inr True \<longrightarrow> committed d' \<and> handed_over t destination g (live (runtime_of n) - set_option (pid (process st))) n')"
proof -
  let ?L = "live (runtime_of n) - set_option (pid (process st))"
  obtain n1 where n1: "quiesce_source env t n = (n1, Inr ())" "in_transit t ?L n1"
    by (rule quiesce_outcome [OF inv st mine open_task d answers reaction])
  obtain n2 d2 x where tr: "transfer_phase net env t destination at_time missing (n1, d) = ((n2, d2), x)"
    by (metis surj_pair)
  have n2: "in_transit t ?L n2" "sane d2" "\<not> committed d2"
    using transfer_outcome [OF n1(2) tr] id sane fresh send_keeps by auto
  let ?abort = "\<lambda>e d. release_reservation net env bid False (here (give_back env t (generation st) True e) (n2, d))"
  have aborted: "\<not> committed d' \<and> r \<noteq> Inr True"
    if "((n', d'), r) = release_reservation net env bid False (here (give_back env t (generation st) True e) (k, dk))"
      and "sane dk" "\<not> committed dk" for e k dk
    using that cancel_keeps [OF that(2)] give_back_result [of env t "generation st" True e k]
    by (auto simp: release_reservation_def here_def case_prod_unfold Let_def)
  show ?thesis
  proof (cases x)
    case (Inl e)
    show ?thesis
    proof (cases "is_unknown_outcome e")
      case False
      have "((n', d'), r) = release_reservation net env bid False (here (give_back env t (generation st) True e) (n2, d2))"
        using s n1 tr Inl False by (simp add: migrate_prepared_def here_def and_then_def)
      from aborted [OF this n2(2,3)] show ?thesis by simp
    next
      case True
      obtain n3 d3 y where res: "resolve_unknown net env t destination at_time g bs e (n2, d2) = ((n3, d3), y)"
        by (metis surj_pair)
      note told = resolve_true [OF n2(1,2) id res]
      have v: "verdict_of (query_remote_outcome net m d2) \<noteq> Committed"
        using query_true [OF n2(2)] n2(3) by (cases "verdict_of (query_remote_outcome net m d2)") auto
      have out: "((n', d'), r) = release_reservation net env bid False ((n3, d3), y)"
        using s n1 tr Inl True res g id v by (simp add: migrate_prepared_def here_def and_then_def Let_def)
      have "\<not> committed d3" "sane d3" using told n2 v by auto
      then have "\<not> committed d'" "r = y" using out cancel_keeps by (auto simp: release_reservation_def)
      then show ?thesis using told \<open>\<not> committed d3\<close> by auto
    qed
  next
    case (Inr u)
    obtain n3 d3 y where act: "activation_phase net env t destination at_time bid g bs (n2, d2) = ((n3, d3), y)"
      by (metis surj_pair)
    note told = activation_outcome [OF n2(1,2) id act]
    show ?thesis
    proof (cases y)
      case (Inl e)
      show ?thesis
      proof (cases "is_unknown_outcome e")
        case False
        have "((n', d'), r) = release_reservation net env bid False (here (give_back env t (generation st) True e) (n3, d3))"
          using s n1 tr Inr act Inl False g by (simp add: migrate_prepared_def here_def and_then_def)
        from aborted [OF this] told Inl False show ?thesis by auto
      next
        case True
        obtain n4 d4 z where res: "resolve_unknown net env t destination at_time g bs e (n3, d3) = ((n4, d4), z)"
          by (metis surj_pair)
        have res_true: "(committed d4 \<longrightarrow> quiet t ?L n4) \<and> (z = Inr True \<longrightarrow> committed d4 \<and> handed_over t destination g ?L n4)
            \<and> (d4 = d3 \<or> committed d3 \<and> committed d4 \<and> verdict_of (query_remote_outcome net m d3) = Committed)"
          by (rule resolve_true [OF _ _ id res]) (use told in auto)
        let ?v = "verdict_of (query_remote_outcome net m d3) = Committed"
        have out: "((n', d'), r) = release_reservation net env bid ?v ((n4, d4), z)"
          using s n1 tr Inr act Inl True res g id by (simp add: migrate_prepared_def here_def and_then_def Let_def)
        have "committed d' = committed d4"
        proof (cases ?v)
          case False
          then have "d4 = d3" using res_true by blast
          then show ?thesis using out cancel_keeps told by (auto simp: release_reservation_def False)
        qed (use out in \<open>auto simp: release_reservation_def\<close>)
        moreover have "n' = n4" "r = z" using out by (auto simp: release_reservation_def split: if_splits)
        ultimately show ?thesis using res_true by simp
      qed
    next
      case act_ok: (Inr v)
      then have committed: "committed d3" "in_transit t ?L n3" "sane d3" using told by auto
      obtain n4 acc pol where f: "finalize_source_success net t destination m g at_time bs (migrate_now env) (n3, d3)
        = ((n4, broadcast net (success_update t destination m g at_time bs acc) pol d3), Inr ())" "handed_over t destination g ?L n4"
        using finalize_outcome [OF committed(2), of net destination m g at_time bs "migrate_now env" d3] by blast
      have "((n', d'), r) = ((n4, broadcast net (success_update t destination m g at_time bs acc) pol d3), Inr True)"
        using s n1 tr Inr act act_ok g id calibrated f(1)
        by (simp add: migrate_prepared_def here_def and_then_def after_activation_def answer_def)
      then show ?thesis using f(2) handed_over_quiet broadcast_keeps [OF committed(3,1)] by auto
    qed
  qed
qed

lemma migrate_true:
  assumes inv: "runtime_inv (runtime_of n)" and st: "get_state (tasks (runtime_of n)) t = Inr st"
    and mine: "owner_node_id st = local_id n" and open_task: "task_status st \<noteq> Completed"
    and d: "get_definition (tasks (runtime_of n)) t = Inr def" and answers: "settlement_answers env t def"
    and reaction: "source_stop env \<noteq> KillDenied" and id: "new_id env = m" and g: "g = generation st + 1"
    and sane: "sane d" and fresh: "\<not> committed d" and calibrated: "telemetry_calibration env = Inr ()"
    and s: "migrate net env t destination at_time bid (n, d) = ((n', d'), r)"
  shows "(committed d' \<longrightarrow> quiet t (live (runtime_of n) - set_option (pid (process st))) n')
    \<and> (r = Inr True \<longrightarrow> committed d' \<and> handed_over t destination g (live (runtime_of n) - set_option (pid (process st))) n')"
proof -
  let ?n1 = "n\<lparr>journal := put_record (migrate_now env) (source_record env t destination at_time bid st (local_id n)) (journal n)\<rparr>"
  have n1: "runtime_of ?n1 = runtime_of n" "local_id ?n1 = local_id n" by (simp_all add: local_id_def)
  show ?thesis
  proof (cases "prefetch_answer env")
    case (Inl e)
    then have "d' = cancel_reservation net bid (ReasonText (''Source migration '' @ new_id env @ '' did not complete'')) d"
      "r = Inr False"
      using s st mine by (auto simp: migrate_def Let_def release_reservation_def)
    then show ?thesis using cancel_keeps [OF sane] fresh by simp
  next
    case (Inr mb)
    obtain missing bs where mb: "mb = (missing, bs)" by fastforce
    have "migrate_prepared net env t destination at_time bid (generation st) missing bs (?n1, d) = ((n', d'), r)"
      using s st mine Inr mb by (simp add: migrate_def Let_def)
    from migrate_prepared_true [of ?n1, unfolded n1, OF inv st mine open_task d answers reaction id g sane fresh calibrated this]
    show ?thesis .
  qed
qed

end

end
