(* ===== verification/Migration_Protocol.thy ===== *)
theory Migration_Protocol
  imports Migration_Source_Laws
begin

text \<open>
  Source and destination together: a destination node behind a network that may lose requests,
  replies, status queries, cancellations and announcements meets the contract of
  \<open>migration_endpoint\<close>, so a migration between two nodes leaves one owner.
\<close>

section \<open>The network\<close>

text \<open>
  One attempt to activate: the request is lost, it is answered, or it is executed and the answer
  is lost.  \<open>reachable\<close> says which status queries get through before the deadline.
\<close>

datatype attempt = Lost | Answered activation_environment | Reply_Lost activation_environment

record network =
  attempt_of :: "nat \<Rightarrow> attempt"
  reachable :: "bool list"
  transfer_result :: "int result"
  cancel_at :: "datetime option"
  announce_at :: "datetime option"

definition receive_checkpoint :: "network \<Rightarrow> string \<Rightarrow> task_id \<Rightarrow> checkpoint option \<Rightarrow> migration_node \<Rightarrow> migration_node \<times> int result" where
  "receive_checkpoint net m t c d =
     (case transfer_result net of
        Inl e \<Rightarrow> (d, Inl e)
      | Inr k \<Rightarrow> (d\<lparr>incoming := (incoming d)(m := (incoming d m)(t := c))\<rparr>, Inr k))"

definition run_attempt :: "attempt \<Rightarrow> activation_request \<Rightarrow> migration_node \<Rightarrow> migration_node \<times> activation_response option" where
  "run_attempt a req d =
     (case a of
        Lost \<Rightarrow> (d, None)
      | Answered env \<Rightarrow> (case activate_incoming env req d of (d', Inl e) \<Rightarrow> (d', None) | (d', Inr r) \<Rightarrow> (d', Some r))
      | Reply_Lost env \<Rightarrow> (fst (activate_incoming env req d), None))"

text \<open>The handler of an ownership update (\<open>POST /ownership\<close>).\<close>

definition receive_ownership ::
  "datetime \<Rightarrow> ownership_update \<Rightarrow> policy_state option \<Rightarrow> migration_node \<Rightarrow> migration_node \<times> bool result" where
  "receive_ownership now u p n =
     (case get_state (tasks (runtime_of n)) (ou_task_id u) of
        Inl e \<Rightarrow> (n, Inl e)
      | Inr st \<Rightarrow>
          let applied = ownership_applied (local_id n) u st
          in and_then (in_runtime (on_tasks (apply_ownership (local_id n) u) now (ou_task_id u)))
               (\<lambda>_. and_then (if ou_artifact_digests u = [] then answer (Inr st)
                  else in_runtime (on_tasks (set_artifact_digests (ou_artifact_digests u)) now (ou_task_id u)))
                 (\<lambda>_ n'. (if applied then merge_received p n' else n', Inr applied))) n)"

definition node_remote :: "network \<Rightarrow> migration_node remote" where
  "node_remote net =
     \<lparr>send_checkpoint = receive_checkpoint net,
      deliver = (\<lambda>i. run_attempt (attempt_of net i)),
      polls = (\<lambda>m d. map (\<lambda>up. if up then Answer (journal_get (journal d) m) else Unreachable) (reachable net)),
      cancel_reservation = (\<lambda>b reason d. case cancel_at net of None \<Rightarrow> d
          | Some now \<Rightarrow> fst (in_bids (cancel b reason now) d)),
      broadcast = (\<lambda>u p d. case announce_at net of None \<Rightarrow> d | Some now \<Rightarrow> fst (receive_ownership now u p d))\<rparr>"

section \<open>The destination during a migration\<close>

definition runs_migration :: "string \<Rightarrow> task_id \<Rightarrow> int \<Rightarrow> migration_node \<Rightarrow> bool" where
  "runs_migration m t g d \<longleftrightarrow> (\<exists>st p. get_state (tasks (runtime_of d)) t = Inr st \<and> task_state.state_task_id st = t
     \<and> owner_node_id st = local_id d \<and> generation st = g \<and> last_migration_id st = Some m
     \<and> pid (process st) = Some p \<and> p \<in> live (runtime_of d))"

definition not_migrated :: "string \<Rightarrow> task_id \<Rightarrow> int \<Rightarrow> migration_node \<Rightarrow> bool" where
  "not_migrated m t g d \<longleftrightarrow> (\<exists>st. get_state (tasks (runtime_of d)) t = Inr st \<and> pid (process st) = None
     \<and> \<not> (last_migration_id st = Some m \<and> owner_node_id st = local_id d \<and> generation st = g))"

fun attempt_fits :: "migration_node \<Rightarrow> attempt \<Rightarrow> bool" where
  "attempt_fits d Lost \<longleftrightarrow> True"
| "attempt_fits d (Answered env) \<longleftrightarrow> activation_stop env \<noteq> KillDenied
     \<and> (\<forall>p. env_spawn (activation_start env) = Inr p \<longrightarrow> fresh_pid (runtime_of d) p)"
| "attempt_fits d (Reply_Lost env) \<longleftrightarrow> activation_stop env \<noteq> KillDenied
     \<and> (\<forall>p. env_spawn (activation_start env) = Inr p \<longrightarrow> fresh_pid (runtime_of d) p)"

definition awaits :: "network \<Rightarrow> string \<Rightarrow> task_id \<Rightarrow> int \<Rightarrow> migration_node \<Rightarrow> bool" where
  "awaits net m t g d \<longleftrightarrow> runtime_inv (runtime_of d) \<and> store_inv (bids d) \<and> not_migrated m t g d
   \<and> (\<forall>r. journal_get (journal d) m = Some r \<longrightarrow> mr_status r = Mig_Activating) \<and> (\<forall>i. attempt_fits d (attempt_of net i))"

definition sane_destination :: "network \<Rightarrow> string \<Rightarrow> task_id \<Rightarrow> node_id \<Rightarrow> int \<Rightarrow> migration_node \<Rightarrow> bool" where
  "sane_destination net m t destination g d \<longleftrightarrow> local_id d = destination \<and> journal_ok (journal d)
   \<and> (awaits net m t g d
      \<or> runs_migration m t g d \<and> (\<exists>r. journal_get (journal d) m = Some r \<and> mr_status r = Mig_Activated)
      \<or> not_migrated m t g d \<and> (\<exists>r. journal_get (journal d) m = Some r \<and> mr_status r = Mig_Rolled_Back))"

lemma attempt_fits_runtime: "runtime_of d' = runtime_of d \<Longrightarrow> attempt_fits d' a = attempt_fits d a"
  by (cases a) simp_all

lemma migration_cong:
  "runtime_of d' = runtime_of d \<Longrightarrow> runs_migration m t g d' = runs_migration m t g d"
  "runtime_of d' = runtime_of d \<Longrightarrow> not_migrated m t g d' = not_migrated m t g d"
  by (simp_all add: runs_migration_def not_migrated_def local_id_def)

lemma runs_not_idle: "not_migrated m t g d \<Longrightarrow> \<not> runs_migration m t g d"
  by (auto simp: runs_migration_def not_migrated_def)

section \<open>The journal stays keyed\<close>

lemma journal_rollback:
  "journal_ok (journal n) \<Longrightarrow> journal_ok (journal (fst (rollback_activation env req st replaced started e n)))"
  by (simp add: rollback_activation_def Let_def in_runtime_def case_prod_unfold split: sum.split)

lemma journal_in_runtime [simp]: "journal (fst (in_runtime f n)) = journal n"
  by (simp add: in_runtime_def case_prod_unfold Let_def)

lemma journal_in_bids [simp]: "journal (fst (in_bids f n)) = journal n"
  by (simp add: in_bids_def case_prod_unfold Let_def)

lemma journal_establish: "journal (fst (establish env req n)) = journal n"
  by (simp add: establish_def and_then_def answer_def case_prod_unfold in_runtime_def Let_def
      split: option.split sum.split)

lemma journal_claim: "journal (fst (claim_reservation env req n)) = journal n"
  by (simp add: claim_reservation_def and_then_def in_bids_def case_prod_unfold Let_def split: sum.split option.split)

lemma journal_commit: "journal (fst (commit_reservation env req n)) = journal n"
  by (simp add: commit_reservation_def and_then_def in_bids_def answer_def case_prod_unfold Let_def split: sum.split)

lemma journal_ok_run:
  assumes "journal_ok (journal n)"
  shows "journal_ok (journal (fst (run_activation env req st n)))"
proof -
  obtain n1 r1 where c: "claim_reservation env req n = (n1, r1)" by fastforce
  obtain n2 r2 where i: "install_checkpoint env req n1 = (n2, r2)" by fastforce
  obtain n3 r3 where e: "establish env req n2 = (n3, r3)" by fastforce
  obtain n4 r4 where k: "commit_reservation env req (lease_meanwhile env req n3) = (n4, r4)" by fastforce
  have j: "journal n1 = journal n" "journal n2 = journal n" "journal n3 = journal n" "journal n4 = journal n"
    using journal_claim [of env req n] install_checkpoint_select(3) [of env req n1] journal_establish [of env req n2]
      journal_commit [of env req "lease_meanwhile env req n3"] c i e k by simp_all
  show ?thesis using assms j c i e k
    by (simp add: run_activation_def journal_rollback complete_activation_def Let_def split: sum.split)
qed

lemma journal_ok_activate: "journal_ok (journal n) \<Longrightarrow> journal_ok (journal (fst (activate_incoming env req n)))"
  by (simp add: activate_incoming_def Let_def case_prod_unfold journal_ok_run confirm_activation_def
      split: sum.split option.split)


section \<open>One activation request\<close>

text \<open>
  A destination that waits either takes the task over, or rolls back, or keeps waiting: a rollback
  that raises answers nothing and leaves the record unfinished.
\<close>

lemma awaiting_activation:
  assumes w: "awaits net m t g d" and j: "journal_ok (journal d)" and dest: "local_id d = destination"
    and req: "request_for m t destination g req" and fits: "attempt_fits d (Answered env)"
    and a: "activate_incoming env req d = (d', res)"
  shows "local_id d' = destination
    \<and> (case res of Inl e \<Rightarrow> awaits net m t g d'
       | Inr r \<Rightarrow> if rsp_activated r
           then runs_migration m t g d' \<and> (\<exists>r. journal_get (journal d') m = Some r \<and> mr_status r = Mig_Activated)
           else not_migrated m t g d' \<and> (\<exists>r. journal_get (journal d') m = Some r \<and> mr_status r = Mig_Rolled_Back))"
proof -
  obtain st where st: "get_state (tasks (runtime_of d)) t = Inr st" "pid (process st) = None"
    "\<not> (last_migration_id st = Some m \<and> owner_node_id st = local_id d \<and> generation st = g)"
    using w by (auto simp: awaits_def not_migrated_def)
  have ground: "activation_ground env req st d"
    using w j st req fits by (simp add: activation_ground_def awaits_def request_for_def)
  have first: "\<not> already_active req st d" using st(3) req by (simp add: already_active_def request_for_def)
  have to: "ar_destination req = local_id d" using req dest by (simp add: request_for_def)
  have open_record: "\<forall>r. journal_get (journal d) (ar_migration_id req) = Some r \<longrightarrow> mr_status r \<noteq> Mig_Rolled_Back"
    using w req by (auto simp: awaits_def request_for_def)
  note out = activate_incoming_outcome(1) [OF ground to first open_record a, unfolded activation_result_def]
  have inv: "runtime_inv (runtime_of d')" and id: "local_id d' = local_id d" using out by simp_all
  have ids: "ar_task_id req = t" "ar_migration_id req = m" "ar_generation req = g" using req by (simp_all add: request_for_def)
  show ?thesis
  proof (cases res)
    case (Inl e)
    then have stuck: "activation_stuck d req d'" using out by simp
    then have same: "runtime_of d' = runtime_of d" "store_inv (bids d')" by (simp_all add: activation_stuck_def)
    have "\<forall>r. journal_get (journal d') m = Some r \<longrightarrow> mr_status r = Mig_Activating"
      using stuck ids by (auto simp: activation_stuck_def)
    then have "awaits net m t g d'"
      using w inv same attempt_fits_runtime [OF same(1)] migration_cong(2) [OF same(1)] unfolding awaits_def by simp
    then show ?thesis using Inl id dest by simp
  next
    case (Inr r)
    show ?thesis
    proof (cases "rsp_activated r")
      case True
      then obtain st' where c: "activation_committed d req st' d'" using out Inr by auto
      then have "task_state.state_task_id st' = t"
        using runtime_invD(1) [OF inv] ids by (auto simp: activation_committed_def took_over_def)
      then have "runs_migration m t g d'" "\<exists>r. journal_get (journal d') m = Some r \<and> mr_status r = Mig_Activated"
        using c ids id by (auto simp: activation_committed_def took_over_def runs_migration_def)
      then show ?thesis using Inr True id dest by simp
    next
      case False
      then have u: "activation_refused d req st d'" using out Inr by simp
      then obtain w where "get_state (tasks (runtime_of d')) t = Inr (st\<lparr>task_state.updated_at := w\<rparr>)"
        using ids by (auto simp: activation_refused_def)
      then have "not_migrated m t g d'" using st id by (auto simp: not_migrated_def)
      then show ?thesis using Inr False id dest u ids by (auto simp: activation_refused_def)
    qed
  qed
qed

lemma running_activation:
  assumes d: "runs_migration m t g d" and j: "journal_ok (journal d)" and dest: "local_id d = destination"
    and rec: "\<exists>r. journal_get (journal d) m = Some r \<and> mr_status r = Mig_Activated" and req: "request_for m t destination g req"
  shows "\<exists>d' r. activate_incoming env req d = (d', Inr r) \<and> rsp_activated r \<and> runtime_of d' = runtime_of d
    \<and> (\<exists>r. journal_get (journal d') m = Some r \<and> mr_status r = Mig_Activated)"
proof -
  have ids: "ar_task_id req = t" "ar_migration_id req = m" "ar_generation req = g" "ar_destination req = local_id d"
    using req dest by (simp_all add: request_for_def)
  obtain st where st: "get_state (tasks (runtime_of d)) t = Inr st" and active: "already_active req st d"
    using d ids by (auto simp: runs_migration_def already_active_def)
  obtain r where r: "journal_get (journal d) m = Some r" using rec by blast
  show ?thesis using ids st active r j
    by (simp add: activate_incoming_def Let_def confirm_activation_def response_to_def journal_status_get)
qed

lemma refused_activation:
  assumes d: "not_migrated m t g d" and rec: "\<exists>r. journal_get (journal d) m = Some r \<and> mr_status r = Mig_Rolled_Back"
    and dest: "local_id d = destination" and req: "request_for m t destination g req"
  shows "\<exists>d' r. activate_incoming env req d = (d', Inr r) \<and> \<not> rsp_activated r \<and> runtime_of d' = runtime_of d
    \<and> journal d' = journal d"
proof -
  have ids: "ar_task_id req = t" "ar_migration_id req = m" "ar_generation req = g" "ar_destination req = local_id d"
    using req dest by (simp_all add: request_for_def)
  obtain st where st: "get_state (tasks (runtime_of d)) t = Inr st" and inactive: "\<not> already_active req st d"
    using d ids by (auto simp: not_migrated_def already_active_def)
  then show ?thesis using ids rec by (auto simp: activate_incoming_def Let_def response_to_def)
qed

text \<open>Every request finds a sane destination, leaves it sane, and what is answered is what happened.\<close>

lemma sane_activation:
  assumes s: "sane_destination net m t destination g d" and req: "request_for m t destination g req"
    and fits: "awaits net m t g d \<Longrightarrow> attempt_fits d (Answered env)"
    and a: "activate_incoming env req d = (d', res)"
  shows "sane_destination net m t destination g d' \<and> (\<forall>r. res = Inr r \<longrightarrow> rsp_activated r = runs_migration m t g d')"
proof -
  have dest: "local_id d = destination" and j: "journal_ok (journal d)" using s by (simp_all add: sane_destination_def)
  have j': "journal_ok (journal d')" using journal_ok_activate [OF j, of env req] a by simp
  consider (waiting) "awaits net m t g d"
    | (active) "runs_migration m t g d" "\<exists>r. journal_get (journal d) m = Some r \<and> mr_status r = Mig_Activated"
    | (refused) "not_migrated m t g d" "\<exists>r. journal_get (journal d) m = Some r \<and> mr_status r = Mig_Rolled_Back"
    using s unfolding sane_destination_def by blast
  then show ?thesis
  proof cases
    case waiting
    note out = awaiting_activation [OF waiting j dest req fits [OF waiting] a]
    show ?thesis
    proof (cases res)
      case (Inl e)
      then show ?thesis using out j' by (simp add: sane_destination_def)
    next
      case (Inr r)
      then show ?thesis using out j' runs_not_idle unfolding sane_destination_def by (cases "rsp_activated r") auto
    qed
  next
    case active
    from running_activation [OF active(1) j dest active(2) req, of env] obtain r where
      o: "res = Inr r" "rsp_activated r" "runtime_of d' = runtime_of d"
      "\<exists>r. journal_get (journal d') m = Some r \<and> mr_status r = Mig_Activated" using a by auto
    then show ?thesis using active(1) j' dest migration_cong [OF o(3)] by (auto simp: sane_destination_def local_id_def)
  next
    case refused
    from refused_activation [OF refused dest req, of env] obtain r where
      o: "res = Inr r" "\<not> rsp_activated r" "runtime_of d' = runtime_of d" "journal d' = journal d" using a by auto
    then show ?thesis using refused j dest migration_cong [OF o(3)] runs_not_idle [OF refused(1)]
      by (auto simp: sane_destination_def local_id_def)
  qed
qed

lemma attempt_sane:
  assumes s: "sane_destination net m t destination g d" and req: "request_for m t destination g req"
  shows "sane_destination net m t destination g (fst (run_attempt (attempt_of net i) req d))
    \<and> (\<forall>d' r. run_attempt (attempt_of net i) req d = (d', Some r) \<longrightarrow> rsp_activated r = runs_migration m t g d')"
proof (cases "attempt_of net i")
  case Lost
  then show ?thesis using s by (simp add: run_attempt_def)
next
  case (Answered env)
  have fits: "attempt_fits d (Answered env)" if "awaits net m t g d" using that Answered unfolding awaits_def by metis
  obtain d' res where a: "activate_incoming env req d = (d', res)" by fastforce
  then show ?thesis using sane_activation [OF s req fits a] Answered by (auto simp: run_attempt_def split: sum.split)
next
  case (Reply_Lost env)
  have "attempt_fits d (Reply_Lost env)" if "awaits net m t g d" using that Reply_Lost unfolding awaits_def by metis
  then have fits: "awaits net m t g d \<Longrightarrow> attempt_fits d (Answered env)" by simp
  obtain d' res where a: "activate_incoming env req d = (d', res)" by fastforce
  then show ?thesis using sane_activation [OF s req fits a] Reply_Lost by (simp add: run_attempt_def)
qed

section \<open>The announcement\<close>

lemma ownership_keeps_running:
  assumes d: "runs_migration m t g d" and u: "ou_task_id u = t" "ou_owner u = local_id d" "ou_generation u = g"
    "ou_status u = None" "ou_migration_id u = Some m"
  shows "runs_migration m t g (fst (receive_ownership now u pol d))"
proof -
  obtain st p where st: "get_state (tasks (runtime_of d)) t = Inr st" and id: "task_state.state_task_id st = t"
    and own: "owner_node_id st = local_id d" "generation st = g" "last_migration_id st = Some m"
    and p: "pid (process st) = Some p" "p \<in> live (runtime_of d)"
    using d by (auto simp: runs_migration_def)
  define keeps where "keeps d' \<longleftrightarrow> local_id d' = local_id d \<and> live (runtime_of d') = live (runtime_of d)
    \<and> (\<exists>st'. get_state (tasks (runtime_of d')) t = Inr st' \<and> task_state.state_task_id st' = t \<and> owner_node_id st' = local_id d
         \<and> generation st' = g \<and> last_migration_id st' = Some m \<and> pid (process st') = Some p)" for d'
  have running: "runs_migration m t g d'" if "keeps d'" for d'
    using that p(2) by (auto simp: keeps_def runs_migration_def)
  let ?a = "in_runtime (on_tasks (apply_ownership (local_id d) u) now t) d"
  have applied: "keeps (fst ?a)"
  proof (cases "outdated u st")
    case True
    then have "apply_ownership (local_id d) u st = Keep" by (simp add: apply_ownership_def)
    then show ?thesis using st id own p by (simp add: keeps_def in_runtime_def on_tasks_def run_edit_def local_id_def)
  next
    case False
    then obtain st1 where e: "apply_ownership (local_id d) u st = Store st1" "task_state.state_task_id st1 = t"
      "owner_node_id st1 = local_id d" "generation st1 = g" "last_migration_id st1 = Some m" "process st1 = process st"
      using u id own by (simp add: apply_ownership_def Let_def)
    show ?thesis using edit_at_state [where f = "apply_ownership (local_id d) u", OF st e(1,2), of now] e p by (simp add: keeps_def)
  qed
  have digests: "keeps (fst (in_runtime (on_tasks (set_artifact_digests ds) now t) d'))" if kept: "keeps d'" for d' ds
  proof -
    obtain st' where st': "get_state (tasks (runtime_of d')) t = Inr st'" "task_state.state_task_id st' = t"
      "owner_node_id st' = local_id d" "generation st' = g" "last_migration_id st' = Some m" "pid (process st') = Some p"
      "local_id d' = local_id d" "live (runtime_of d') = live (runtime_of d)"
      using kept by (auto simp: keeps_def)
    have e: "set_artifact_digests ds st' = Store (st'\<lparr>artifact_digests := ds\<rparr>)" by (simp add: set_artifact_digests_def)
    show ?thesis using edit_at_state [where f = "set_artifact_digests ds", OF st'(1) e, of now] st' by (simp add: keeps_def)
  qed
  have merged: "keeps (merge_received pol d')" if "keeps d'" for d' using that by (simp add: keeps_def)
  have "keeps (fst (receive_ownership now u pol d))"
    using applied digests [of "fst ?a" "ou_artifact_digests u"] u(1) st merged
    by (simp add: receive_ownership_def and_then_def answer_def case_prod_unfold Let_def split: sum.split)
  then show ?thesis by (rule running)
qed

section \<open>The contract\<close>

lemma sane_frame:
  assumes "runtime_of d' = runtime_of d" "journal d' = journal d" "bids d' = bids d" "backups d' = backups d"
  shows "sane_destination net m t destination g d' = sane_destination net m t destination g d"
  using assms migration_cong [OF assms(1)] attempt_fits_runtime [OF assms(1)]
  by (simp only: sane_destination_def awaits_def local_id_def)

interpretation two_nodes: migration_endpoint "node_remote net" m t destination g "runs_migration m t g"
    "sane_destination net m t destination g" for net m t destination g
proof (unfold_locales, goal_cases)
  case (1 d c)
  let ?d = "fst (receive_checkpoint net m t c d)"
  have "runtime_of ?d = runtime_of d" "journal ?d = journal d" "bids ?d = bids d" "backups ?d = backups d"
    by (simp_all add: receive_checkpoint_def split: sum.split)
  then show ?case using 1 sane_frame [of ?d d] migration_cong(1) [of ?d d] by (simp add: node_remote_def)
next
  case (2 d req i)
  then show ?case using attempt_sane [of net m t destination g d req i] by (simp add: node_remote_def)
next
  case (3 d req i d' r)
  then show ?case using attempt_sane [of net m t destination g d req i] by (simp add: node_remote_def)
next
  case (4 d x)
  then have x: "x = journal_get (journal d) m" by (auto simp: node_remote_def split: if_splits)
  then show ?case using 4(1) runs_not_idle
    by (auto simp: sane_destination_def awaits_def finished_def truthful_def split: option.split)
next
  case (5 d b reason)
  then show ?case by (simp add: node_remote_def in_bids_def case_prod_unfold Let_def runs_migration_def local_id_def split: option.split)
next
  case (6 d at_time bs acc pol)
  have "local_id d = destination" using 6(1) by (simp add: sane_destination_def)
  then show ?case using ownership_keeps_running [OF 6(2), of "success_update t destination m g at_time bs acc"] 6(2)
    by (simp add: node_remote_def success_update_def split: option.split)
qed

end
