(* ===== verification/Migration_Success.thy ===== *)
theory Migration_Success
  imports Migration_Protocol
begin

text \<open>
  When a migration succeeds: the conditions under which a start launches, an activation commits and
  the whole migration runs through its phases.
\<close>

section \<open>A start that launches\<close>

definition launches :: "local_runtime \<Rightarrow> task_id \<Rightarrow> start_environment \<Rightarrow> bool" where
  "launches rt t env \<longleftrightarrow> env_artifacts env = Inr () \<and> is_ok (env_plan env) \<and> is_ok (env_spawn env)
   \<and> (\<forall>d. get_definition (tasks rt) t = Inr d \<longrightarrow>
        compatible (check_compatibility (compatibility (profile d)) (node_capabilities rt))
      \<and> wait_for_readiness t (runtime d) (env_polls env) = Inr ())"

lemma start_launches:
  assumes "launches rt t env" and st: "get_state (tasks rt) t = Inr st" and "pid (process st) = None"
    and "owner_node_id st = runtime_node rt" and "task_status st \<noteq> Completed" and id: "task_state.state_task_id st = t"
  shows "\<exists>st' p. snd (start t env now w rt) = Inr st' \<and> get_state (tasks (fst (start t env now w rt))) t = Inr st'
    \<and> task_status st' = Running \<and> owner_node_id st' = runtime_node rt \<and> generation st' = generation st
    \<and> pid (process st') = Some p \<and> p \<in> live (fst (start t env now w rt))
    \<and> runtime_node (fst (start t env now w rt)) = runtime_node rt"
proof -
  obtain d where d: "get_definition (tasks rt) t = Inr d" using get_state_definition [OF st] by blast
  have guard: "start_guard rt t d st = None" using assms d by (simp add: start_guard_def launches_def process_alive_def)
  obtain plan p where env: "env_plan env = Inr plan" "env_spawn env = Inr p"
    "env_artifacts env = Inr ()" "wait_for_readiness t (runtime d) (env_polls env) = Inr ()"
    using assms(1) d by (auto simp: launches_def is_ok_Inr)
  let ?up = "rt\<lparr>files_of := (files_of rt)(t := prepare_files (runtime d) (files_of rt t)), live := insert p (live rt),
     suspended := suspended rt - {p}, handles := dict_put t p (handles rt)\<rparr>"
  let ?f = "mark_running (runtime_node rt) p (Some (plan_adapter plan)) (Some (plan_command plan)) (plan_resumed plan) now"
  obtain st1 where st1: "?f st = Store st1" "task_status st1 = Running" "owner_node_id st1 = runtime_node rt"
    "generation st1 = generation st" "task_state.state_task_id st1 = t" "pid (process st1) = Some p"
    using assms(4,5) id by (simp add: mark_running_def)
  have "start t env now w rt = on_tasks ?f w t ?up"
    using st d guard env by (simp add: start_def launch_def Let_def runtime_node_def)
  also have "\<dots> = (?up\<lparr>tasks := write_state w st1 (tasks ?up)\<rparr>, Inr (st1\<lparr>task_state.updated_at := w\<rparr>))"
    by (rule on_tasks_store [of _ _ st]) (use st st1 in simp_all)
  finally show ?thesis using st1 get_state_write [OF st st1(5), of w t] by (simp add: runtime_node_def write_state_def)
qed

lemma launches_cong:
  "node_capabilities rt' = node_capabilities rt \<Longrightarrow> definitions (tasks rt') = definitions (tasks rt) \<Longrightarrow>
   launches rt' t env = launches rt t env"
  by (simp add: launches_def get_definition_def)

section \<open>An activation that commits\<close>

definition claimable :: "activation_request \<Rightarrow> datetime \<Rightarrow> bid_store \<Rightarrow> bool" where
  "claimable req now s \<longleftrightarrow> (\<exists>b. find_bid s (ar_bid_id req) = Some b \<and> bid_record.status b = Accepted \<and> \<not> is_due now b
   \<and> bid_task_id b = ar_task_id req \<and> bid_source b = ar_source req \<and> bid_destination b = ar_destination req)"

lemma claimable_claims:
  assumes inv: "store_inv s" and "claimable req now s"
  shows "\<exists>s' r r2. begin_activation (ar_bid_id req) (ar_task_id req) (ar_source req) (ar_destination req) now s = (s', Inr r)
    \<and> snd (consume (ar_bid_id req) now2 s') = Inr r2"
proof -
  obtain b where b: "find_bid s (ar_bid_id req) = Some b" "bid_record.status b = Accepted" "\<not> is_due now b"
    "bid_task_id b = ar_task_id req" "bid_source b = ar_source req" "bid_destination b = ar_destination req"
    using assms(2) by (auto simp: claimable_def)
  have e: "find_bid (fst (expire_locked now s)) (ar_bid_id req) = Some b"
    using b by (simp add: expire_record_def)
  have id: "bid_id b = ar_bid_id req" using store_invD(1) [OF inv b(1)] .
  let ?b1 = "b\<lparr>bid_record.status := Activating, activation_started_at := Some now,
                             bid_decision_reason := Some ClaimedByActivation\<rparr>"
  let ?s1 = "put_bid ?b1 (fst (expire_locked now s))"
  have "begin_activation (ar_bid_id req) (ar_task_id req) (ar_source req) (ar_destination req) now s = (?s1, Inr ?b1)"
    using e b by (simp add: begin_activation_def Let_def del: find_bid_expire_locked)
  moreover have "\<exists>r2. snd (consume (ar_bid_id req) now2 ?s1) = Inr r2"
    using id by (simp add: consume_def Let_def)
  ultimately show ?thesis by blast
qed

text \<open>What the destination needs besides the setting of an activation.\<close>

definition fits_activation :: "activation_environment \<Rightarrow> activation_request \<Rightarrow> checkpoint \<Rightarrow> task_state \<Rightarrow> migration_node \<Rightarrow> bool" where
  "fits_activation env req c st n \<longleftrightarrow> claimable req (activation_now env) (bids n)
   \<and> installation_answer env = Installed \<and> cancelled_meanwhile env = None
   \<and> checkpoint_answer env c = Inr () \<and> staging_answer env = Inr ()
   \<and> launches (runtime_of n) (ar_task_id req) (activation_start env) \<and> generation st \<le> ar_generation req"

lemma establish_succeeds:
  assumes inv: "runtime_inv (runtime_of n)" and st: "get_state (tasks (runtime_of n)) (ar_task_id req) = Inr st"
    and idle: "pid (process st) = None" and acc: "\<forall>a. ar_accounting req = Some a \<longrightarrow> cost_split a"
    and fit: "fits_activation env req c st n0" "runtime_of n0 = runtime_of n" and ck: "checkpoints n (ar_task_id req) = Some c"
  shows "is_ok (snd (establish env req n))"
proof -
  let ?t = "ar_task_id req" and ?w = "activation_now env" and ?rt = "runtime_of n"
  let ?f = "claim_local (runtime_node ?rt) (ar_generation req) (ar_migration_id req)
               (digests_of (ar_artifacts req)) (ar_migration_at req) (ar_accounting req)"
  obtain rt1 r1 where cl: "on_tasks ?f ?w ?t ?rt = (rt1, r1)" by fastforce
  note claimed = claim_outcome [OF inv st idle acc cl]
  have g: "generation st \<le> ar_generation req" using fit(1) by (simp add: fits_activation_def)
  obtain st1 where edit: "?f st = Store st1" and stopped: "task_status st1 = Stopped" "task_state.state_task_id st1 = task_state.state_task_id st"
    using g by (simp add: claim_local_def)
  have u: "on_tasks ?f ?w ?t ?rt = (?rt\<lparr>tasks := write_state ?w st1 (tasks ?rt)\<rparr>, Inr (st1\<lparr>task_state.updated_at := ?w\<rparr>))"
    by (rule on_tasks_store [OF st]) (rule edit)
  have rt1: "rt1 = ?rt\<lparr>tasks := write_state ?w st1 (tasks ?rt)\<rparr>" "r1 = Inr (st1\<lparr>task_state.updated_at := ?w\<rparr>)"
    using cl u by simp_all
  have "node_capabilities rt1 = node_capabilities ?rt" "definitions (tasks rt1) = definitions (tasks ?rt)"
    unfolding rt1(1) by (simp_all add: write_state_def)
  from launches_cong [OF this] have go: "launches rt1 ?t (activation_start env)"
    using fit by (simp add: fits_activation_def)
  have same: "runtime_node rt1 = runtime_node ?rt" using claimed by (simp add: others_same_def runtime_node_def)
  have st2: "get_state (tasks rt1) ?t = Inr (st1\<lparr>task_state.updated_at := ?w\<rparr>)"
    "pid (process (st1\<lparr>task_state.updated_at := ?w\<rparr>)) = None"
    "owner_node_id (st1\<lparr>task_state.updated_at := ?w\<rparr>) = runtime_node rt1"
    using claimed same unfolding rt1(2) by simp_all
  have "task_status (st1\<lparr>task_state.updated_at := ?w\<rparr>) \<noteq> Completed"
    "task_state.state_task_id (st1\<lparr>task_state.updated_at := ?w\<rparr>) = ?t"
    using stopped runtime_invD(1) [OF inv st] by simp_all
  note started = start_launches [OF go st2 this, of ?w ?w]
  have "snd (establish env req n) = snd (start ?t (activation_start env) ?w ?w rt1)"
    using fit(1) ck cl unfolding rt1(2)
    by (simp add: establish_def and_then_def answer_def fits_activation_def in_runtime_def local_id_def case_prod_unfold Let_def)
  then show ?thesis using started by (auto simp: is_ok_Inr)
qed

lemma run_activation_commits:
  assumes ground: "activation_ground env req st n" and fit: "fits_activation env req c st n"
    and ck: "incoming n (ar_migration_id req) (ar_task_id req) = Some c"
  shows "\<exists>n' resp. run_activation env req st n = (n', Inr resp) \<and> rsp_activated resp"
proof -
  note S = ground [unfolded activation_ground_def]
  obtain s' r r2 where bid: "begin_activation (ar_bid_id req) (ar_task_id req) (ar_source req) (ar_destination req)
      (activation_now env) (bids n) = (s', Inr r)"
    "snd (consume (ar_bid_id req) (activation_now env) s') = Inr r2"
    using claimable_claims [of "bids n" req "activation_now env" "activation_now env"] S fit
    by (auto simp: fits_activation_def)
  let ?n1 = "n\<lparr>bids := s'\<rparr>"
  have c1: "claim_reservation env req n = (?n1, Inr ())"
    using bid(1) ck by (simp add: claim_reservation_def and_then_def in_bids_def)
  obtain ni where i: "install_checkpoint env req ?n1 = (ni, Inr ())" "checkpoints ni (ar_task_id req) = Some c"
    using fit ck by (simp add: install_checkpoint_def fits_activation_def Let_def)
  have frame: "runtime_of ni = runtime_of n" "bids ni = s'"
    using install_checkpoint_select(1,2) [of env req ?n1] by (simp_all add: i(1))
  have "is_ok (snd (establish env req ni))"
    by (rule establish_succeeds [OF _ _ _ _ fit]) (use S i(2) frame in simp_all)
  then obtain n2 st' where e: "establish env req ni = (n2, Inr st')"
    by (auto simp: is_ok_Inr) (metis surjective_pairing)
  have "bids n2 = s'" using runtime_onlyD(2) [OF establish_only [OF e]] frame by simp
  then obtain n3 where "commit_reservation env req (lease_meanwhile env req n2) = (n3, Inr ())"
    using bid(2) fit
    by (auto simp: fits_activation_def commit_reservation_def and_then_def in_bids_def answer_def case_prod_unfold Let_def)
  then show ?thesis using c1 i(1) e
    by (simp add: run_activation_def complete_activation_def response_to_def Let_def)
qed

lemma activation_commits:
  assumes ground: "activation_ground env req st n" and dest: "ar_destination req = local_id n"
    and first: "\<not> already_active req st n"
    and new: "\<forall>r. journal_get (journal n) (ar_migration_id req) = Some r \<longrightarrow> mr_status r \<noteq> Mig_Rolled_Back"
    and fit: "fits_activation env req c st n" and ck: "incoming n (ar_migration_id req) (ar_task_id req) = Some c"
  shows "\<exists>n' resp. activate_incoming env req n = (n', Inr resp) \<and> rsp_activated resp"
proof -
  let ?n2 = "begin_record env req st (merge_received (ar_policy req) n)"
  note S = ground [unfolded activation_ground_def]
  have ground2: "activation_ground env req st ?n2" using S by (simp add: activation_ground_def)
  have fit2: "fits_activation env req c st ?n2" using fit by (simp add: fits_activation_def)
  have go: "\<exists>n' resp. run_activation env req st ?n2 = (n', Inr resp) \<and> rsp_activated resp"
    by (rule run_activation_commits [OF ground2 fit2]) (use ck in simp)
  have "activate_incoming env req n = run_activation env req st ?n2"
    using dest S first new by (auto simp: activate_incoming_def Let_def split: option.split)
  then show ?thesis using go by simp
qed

section \<open>A migration that runs through\<close>

text \<open>The task that leaves, and what answers on the way.\<close>

definition leaving :: "migrate_environment \<Rightarrow> task_id \<Rightarrow> migration_node \<Rightarrow> task_state \<Rightarrow> bool" where
  "leaving env t n st \<longleftrightarrow> runtime_inv (runtime_of n) \<and> get_state (tasks (runtime_of n)) t = Inr st
   \<and> owner_node_id st = local_id n \<and> task_status st \<noteq> Completed \<and> source_stop env \<noteq> KillDenied
   \<and> (\<forall>d. get_definition (tasks (runtime_of n)) t = Inr d \<longrightarrow> settlement_answers env t d)"

definition transferable :: "migrate_environment \<Rightarrow> network \<Rightarrow> node_id \<Rightarrow> datetime \<Rightarrow> checkpoint \<Rightarrow> bool" where
  "transferable env net destination at_time c \<longleftrightarrow> is_ok (source_checkpoint env (Some c)) \<and> is_ok (transfer_result net)
   \<and> telemetry_transfer env = Inr ()
   \<and> (\<forall>acc. settlement env = Some acc \<longrightarrow> (\<exists>nd. get_node (accounting_cluster env) destination = Inr nd
        \<and> is_ok (accounting_edge env) \<and> is_ok (carbon_value_at acc (node_identity (site acc)) at_time)
        \<and> is_ok (carbon_value_at acc (node_identity nd) at_time)))"

definition receives :: "network \<Rightarrow> task_id \<Rightarrow> node_id \<Rightarrow> node_id \<Rightarrow> string \<Rightarrow> int \<Rightarrow> checkpoint \<Rightarrow> migration_node \<Rightarrow> bool" where
  "receives net t source destination bid g c d \<longleftrightarrow> (\<exists>env st b. attempt_of net 1 = Answered env
   \<and> installation_answer env = Installed \<and> cancelled_meanwhile env = None
   \<and> get_state (tasks (runtime_of d)) t = Inr st \<and> generation st \<le> g
   \<and> checkpoint_answer env c = Inr () \<and> staging_answer env = Inr () \<and> launches (runtime_of d) t (activation_start env)
   \<and> find_bid (bids d) bid = Some b \<and> bid_record.status b = Accepted \<and> \<not> is_due (activation_now env) b
   \<and> bid_task_id b = t \<and> bid_source b = source \<and> bid_destination b = destination)"

lemma on_tasks_frame [simp]:
  "node_capabilities (fst (on_tasks f w t rt)) = node_capabilities rt"
  "definitions (tasks (fst (on_tasks f w t rt))) = definitions (tasks rt)"
  by (simp_all add: on_tasks_def run_edit_def write_state_def case_prod_unfold Let_def split: sum.split edit.split)

lemma stop_frame [simp]:
  "node_capabilities (fst (stop_process t reaction w rt)) = node_capabilities rt"
  "definitions (tasks (fst (stop_process t reaction w rt))) = definitions (tasks rt)"
  by (cases reaction; simp add: stop_process_def drop_handle_def kill_group_def Let_def split: sum.split option.split)+

lemma settle_frame [simp]:
  "node_capabilities (fst (settle_task acc wall tt w t rt)) = node_capabilities rt"
  "definitions (tasks (fst (settle_task acc wall tt w t rt))) = definitions (tasks rt)"
  by (simp_all add: settle_task_def Let_def split: sum.split option.split prod.split)

lemma in_runtime_frame:
  "checkpoints (fst (in_runtime f n)) = checkpoints n" "bids (fst (in_runtime f n)) = bids n"
  "runtime_of (fst (in_runtime f n)) = fst (f (runtime_of n))"
  by (simp_all add: in_runtime_def case_prod_unfold Let_def)

lemma quiesce_frame:
  "checkpoints (fst (quiesce_source env t n)) = checkpoints n"
  "node_capabilities (runtime_of (fst (quiesce_source env t n))) = node_capabilities (runtime_of n)"
  "definitions (tasks (runtime_of (fst (quiesce_source env t n)))) = definitions (tasks (runtime_of n))"
  by (auto simp: quiesce_source_def and_then_def answer_def case_prod_unfold in_runtime_frame
      split: sum.split option.split)

lemma charge_answers:
  assumes "in_transit t L n" and "settlement env = Some acc" and "transferable env net destination at_time c"
  shows "\<exists>n' st. in_runtime (record_migration acc (accounting_cluster env) (accounting_edge env)
      (accounting_policy env) t destination b x at_time w) n = (n', Inr st)
    \<and> checkpoints n' = checkpoints n \<and> node_capabilities (runtime_of n') = node_capabilities (runtime_of n)
    \<and> definitions (tasks (runtime_of n')) = definitions (tasks (runtime_of n))"
proof -
  obtain st where st: "get_state (tasks (runtime_of n)) t = Inr st" using assms(1) by (auto simp: in_transit_def)
  obtain d where r: "record_migration acc (accounting_cluster env) (accounting_edge env) (accounting_policy env)
      t destination b x at_time w (runtime_of n) = on_tasks (record_accounting d) w t (runtime_of n)"
    using assms(2,3) by (auto simp: transferable_def record_migration_def is_ok_Inr Let_def)
  have "\<exists>st'. snd (on_tasks (record_accounting d) w t (runtime_of n)) = Inr st'"
    using st by (simp add: on_tasks_def run_edit_def record_accounting_def case_prod_unfold Let_def)
  then obtain st' where st': "snd (on_tasks (record_accounting d) w t (runtime_of n)) = Inr st'" by blast
  have "in_runtime (record_migration acc (accounting_cluster env) (accounting_edge env)
      (accounting_policy env) t destination b x at_time w) n
    = (n\<lparr>runtime_of := fst (on_tasks (record_accounting d) w t (runtime_of n))\<rparr>, Inr st')"
    using r st' by (simp add: in_runtime_def case_prod_unfold Let_def)
  then show ?thesis by simp
qed

lemma transfer_succeeds:
  assumes transit: "in_transit t L n" and ok: "transferable env net destination at_time c" and ck: "checkpoints n t = Some c"
  shows "\<exists>n'. transfer_phase (node_remote net) env t destination at_time missing (n, d)
      = ((n', d\<lparr>incoming := (incoming d)(new_id env := (incoming d (new_id env))(t := Some c))\<rparr>), Inr ())
    \<and> node_capabilities (runtime_of n') = node_capabilities (runtime_of n)
    \<and> definitions (tasks (runtime_of n')) = definitions (tasks (runtime_of n))"
proof -
  obtain bytes k where b: "source_checkpoint env (Some c) = Inr bytes" "transfer_result net = Inr k" "telemetry_transfer env = Inr ()"
    using ok by (auto simp: transferable_def is_ok_Inr)
  have sent: "send_checkpoint (node_remote net) (new_id env) t (Some c) d
      = (d\<lparr>incoming := (incoming d)(new_id env := (incoming d (new_id env))(t := Some c))\<rparr>, Inr k)"
    using b by (simp add: node_remote_def receive_checkpoint_def)
  show ?thesis
  proof (cases "settlement env")
    case None
    then show ?thesis using b sent ck
      by (simp add: transfer_phase_def and_then_def there_def answer_def case_prod_unfold Let_def)
  next
    case (Some acc)
    obtain n' st where "in_runtime (record_migration acc (accounting_cluster env) (accounting_edge env)
      (accounting_policy env) t destination (missing + bytes) (downtime_so_far env) at_time (migrate_now env)) n = (n', Inr st)"
      "node_capabilities (runtime_of n') = node_capabilities (runtime_of n)"
      "definitions (tasks (runtime_of n')) = definitions (tasks (runtime_of n))"
      using charge_answers [OF transit Some ok] by blast
    then show ?thesis using b sent ck Some
      by (simp add: transfer_phase_def and_then_def there_def here_def answer_def case_prod_unfold Let_def)
  qed
qed

lemma activation_succeeds:
  assumes transit: "in_transit t L n" and src: "local_id n = source"
    and await: "awaits net (new_id env) t g d" and sane: "sane_destination net (new_id env) t destination g d"
    and fit: "receives net t source destination bid g c d" and ck: "incoming d (new_id env) t = Some c"
  shows "snd (activation_phase (node_remote net) env t destination at_time bid g bs (n, d)) = Inr ()"
proof -
  obtain st where st: "get_state (tasks (runtime_of n)) t = Inr st" "cost_split (accounting st)"
    using transit by (auto simp: in_transit_def)
  obtain aenv dst b where plain: "installation_answer aenv = Installed" "cancelled_meanwhile aenv = None"
    and aenv: "attempt_of net 1 = Answered aenv" "get_state (tasks (runtime_of d)) t = Inr dst" "generation dst \<le> g"
    "checkpoint_answer aenv c = Inr ()" "staging_answer aenv = Inr ()" "launches (runtime_of d) t (activation_start aenv)"
    "find_bid (bids d) bid = Some b" "bid_record.status b = Accepted" "\<not> is_due (activation_now aenv) b"
    "bid_task_id b = t" "bid_source b = source" "bid_destination b = destination"
    using fit by (auto simp: receives_def)
  let ?req = "activation_request_of env t destination at_time bid g bs st n"
  have ids: "ar_task_id ?req = t" "ar_migration_id ?req = new_id env" "ar_generation ?req = g" "ar_destination ?req = destination"
    "ar_source ?req = source" "ar_bid_id ?req = bid" "ar_accounting ?req = Some (accounting st)"
    using src by (simp_all add: activation_request_of_def)
  have fits: "attempt_fits d (Answered aenv)" using await aenv(1) unfolding awaits_def by metis
  have idle: "pid (process dst) = None"
    "\<not> (last_migration_id dst = Some (new_id env) \<and> owner_node_id dst = local_id d \<and> generation dst = g)"
    using await aenv(2) by (auto simp: awaits_def not_migrated_def)
  have dest: "local_id d = destination" "journal_ok (journal d)" using sane by (simp_all add: sane_destination_def)
  have ground: "activation_ground aenv ?req dst d"
    unfolding activation_ground_def ids using await dest aenv(2) idle fits st(2) by (simp add: awaits_def)
  have first: "\<not> already_active ?req dst d" unfolding already_active_def ids using idle(2) .
  have new: "\<forall>r. journal_get (journal d) (ar_migration_id ?req) = Some r \<longrightarrow> mr_status r \<noteq> Mig_Rolled_Back"
    unfolding ids using await by (auto simp: awaits_def)
  have "fits_activation aenv ?req c dst d" unfolding fits_activation_def claimable_def ids using aenv plain by auto
  moreover have "incoming d (ar_migration_id ?req) (ar_task_id ?req) = Some c" unfolding ids by (rule ck)
  ultimately obtain d' r where r: "activate_incoming aenv ?req d = (d', Inr r)" "rsp_activated r"
    using activation_commits [OF ground _ first new] dest ids by metis
  then have "client_activate (node_remote net) ?req d = (d', Inr r)"
    using aenv(1) by (simp add: client_activate_def node_remote_def run_attempt_def)
  then show ?thesis using st(1) r(2)
    by (simp add: activation_phase_def and_then_def noted_def there_def answer_def)
qed

lemma handover_succeeds:
  assumes leave: "leaving env t n st" and id: "new_id env = m" and g: "g = generation st + 1"
    and await: "awaits net m t g d" and sane: "sane_destination net m t destination g d"
    and fit: "receives net t (local_id n) destination bid g c d" and ck: "checkpoints n t = Some c"
    and transfer: "transferable env net destination at_time c"
  shows "\<exists>n2 n3 d3. quiesce_source env t n = (n2, Inr ())
    \<and> and_then (transfer_phase (node_remote net) env t destination at_time missing)
        (\<lambda>_. activation_phase (node_remote net) env t destination at_time bid g bs) (n2, d) = ((n3, d3), Inr ())
    \<and> in_transit t (live (runtime_of n) - set_option (pid (process st))) n3
    \<and> sane_destination net m t destination g d3 \<and> runs_migration m t g d3 \<and> local_id n3 = local_id n
    \<and> node_capabilities (runtime_of n3) = node_capabilities (runtime_of n)
    \<and> definitions (tasks (runtime_of n3)) = definitions (tasks (runtime_of n))"
proof -
  let ?L = "live (runtime_of n) - set_option (pid (process st))" and ?net = "node_remote net"
  have inv: "runtime_inv (runtime_of n)" and st: "get_state (tasks (runtime_of n)) t = Inr st"
    and L: "owner_node_id st = local_id n" "task_status st \<noteq> Completed" "source_stop env \<noteq> KillDenied"
    using leave by (simp_all add: leaving_def)
  obtain def where d: "get_definition (tasks (runtime_of n)) t = Inr def" using get_state_definition [OF st] by blast
  have answers: "settlement_answers env t def" using leave d by (simp add: leaving_def)
  obtain n2 where q: "quiesce_source env t n = (n2, Inr ())" "in_transit t ?L n2" "local_id n2 = local_id n"
    by (rule quiesce_outcome [OF inv st L(1,2) d answers L(3)])
  have f2: "checkpoints n2 = checkpoints n" "node_capabilities (runtime_of n2) = node_capabilities (runtime_of n)"
    "definitions (tasks (runtime_of n2)) = definitions (tasks (runtime_of n))"
    using quiesce_frame [of env t n] q(1) by simp_all
  have ck2: "checkpoints n2 t = Some c" using ck f2(1) by simp
  let ?d = "d\<lparr>incoming := (incoming d)(m := (incoming d m)(t := Some c))\<rparr>"
  obtain n' where tr: "transfer_phase ?net env t destination at_time missing (n2, d) = ((n', ?d), Inr ())"
    "node_capabilities (runtime_of n') = node_capabilities (runtime_of n2)"
    "definitions (tasks (runtime_of n')) = definitions (tasks (runtime_of n2))"
    using transfer_succeeds [OF q(2) transfer ck2] id by blast
  have n': "in_transit t ?L n'" "local_id n' = local_id n2" using transfer_outcome [OF q(2) tr(1)] by simp_all
  have same: "runtime_of ?d = runtime_of d" "journal ?d = journal d" "bids ?d = bids d" "backups ?d = backups d"
    "incoming ?d m t = Some c" by simp_all
  have sane': "sane_destination net m t destination g ?d" using sane sane_frame [OF same(1-4)] by simp
  have await': "awaits net m t g ?d"
    using await migration_cong(2) [OF same(1)] attempt_fits_runtime [OF same(1)] by (simp add: awaits_def)
  have fit': "receives net t (local_id n') destination bid g c ?d" using fit q(3) n'(2) by (simp add: receives_def)
  obtain n3 d3 r where act: "activation_phase ?net env t destination at_time bid g bs (n', ?d) = ((n3, d3), r)"
    by (metis surj_pair)
  have r: "r = Inr ()"
    using activation_succeeds [OF n'(1) refl _ _ fit', of env at_time bs, unfolded id, OF await' sane' same(5)] act by simp
  note out = two_nodes.activation_outcome [OF n'(1) sane' id act]
  have n3: "runtime_of n3 = runtime_of n'"
    using act by (auto simp: activation_phase_def and_then_def noted_def there_def answer_def case_prod_unfold Let_def split: sum.splits)
  have "local_id n3 = local_id n" using n3 n'(2) q(3) by (simp add: local_id_def)
  moreover have "and_then (transfer_phase ?net env t destination at_time missing)
        (\<lambda>_. activation_phase ?net env t destination at_time bid g bs) (n2, d) = ((n3, d3), Inr ())"
    using tr(1) act r by (simp add: and_then_def)
  ultimately show ?thesis using q(1) out r n3 tr(2,3) f2 by auto
qed

lemma leaving_journal [simp]: "leaving env t (n\<lparr>journal := j\<rparr>) st = leaving env t n st"
  by (simp add: leaving_def local_id_def)

lemma migrate_succeeds:
  assumes leave: "leaving env t n st" and id: "new_id env = m" and g: "g = generation st + 1"
    and await: "awaits net m t g d" and sane: "sane_destination net m t destination g d"
    and fit: "receives net t (local_id n) destination bid g c d" and ck: "checkpoints n t = Some c"
    and transfer: "transferable env net destination at_time c" and prefetch: "is_ok (prefetch_answer env)"
    and calibrated: "telemetry_calibration env = Inr ()"
  shows "\<exists>n' d'. migrate (node_remote net) env t destination at_time bid (n, d) = ((n', d'), Inr True)
    \<and> runs_migration m t g d' \<and> handed_over t destination g (live (runtime_of n) - set_option (pid (process st))) n'"
proof -
  let ?net = "node_remote net" and ?L = "live (runtime_of n) - set_option (pid (process st))"
  let ?n1 = "n\<lparr>journal := put_record (migrate_now env) (source_record env t destination at_time bid st (local_id n)) (journal n)\<rparr>"
  obtain missing bs where p: "prefetch_answer env = Inr (missing, bs)" using prefetch by (auto simp: is_ok_Inr)
  have st: "get_state (tasks (runtime_of n)) t = Inr st" "owner_node_id st = local_id n" using leave by (simp_all add: leaving_def)
  have n1: "leaving env t ?n1 st" "receives net t (local_id ?n1) destination bid g c d" "checkpoints ?n1 t = Some c"
    "live (runtime_of ?n1) = live (runtime_of n)"
    using leave fit ck by (simp_all add: local_id_def)
  obtain n2 n3 d3 where h: "quiesce_source env t ?n1 = (n2, Inr ())"
    "and_then (transfer_phase ?net env t destination at_time missing)
        (\<lambda>_. activation_phase ?net env t destination at_time bid g bs) (n2, d) = ((n3, d3), Inr ())"
    "in_transit t ?L n3" "sane_destination net m t destination g d3" "runs_migration m t g d3"
    using handover_succeeds [OF n1(1) id g await sane n1(2,3) transfer, of missing bs] n1(4) by auto
  obtain n4 acc pol where f: "finalize_source_success ?net t destination m g at_time bs (migrate_now env) (n3, d3)
      = ((n4, broadcast ?net (success_update t destination m g at_time bs acc) pol d3), Inr ())" "handed_over t destination g ?L n4"
    using finalize_outcome [OF h(3), of ?net destination m g at_time bs "migrate_now env" d3] by blast
  have "migrate ?net env t destination at_time bid (n, d)
      = ((n4, broadcast ?net (success_update t destination m g at_time bs acc) pol d3), Inr True)"
    using st p h(1,2) f(1) calibrated id g
    by (simp add: migrate_def migrate_prepared_def here_def after_activation_def and_then_def answer_def Let_def)
  then show ?thesis using f(2) two_nodes.broadcast_keeps [OF h(4,5)] by blast
qed

text \<open>
  An exception between the answer of the destination and the hand-over on the source gives the task
  back to the source, which starts it again.
\<close>

definition runs_here :: "task_id \<Rightarrow> int \<Rightarrow> migration_node \<Rightarrow> bool" where
  "runs_here t g n \<longleftrightarrow> (\<exists>st p. get_state (tasks (runtime_of n)) t = Inr st \<and> owner_node_id st = local_id n \<and> generation st = g
     \<and> task_status st = Running \<and> pid (process st) = Some p \<and> p \<in> live (runtime_of n))"

lemma give_back_restarts:
  assumes transit: "in_transit t L n" and launch: "launches (runtime_of n) t (restart_env env)"
    and journal: "experiment_failed env = Inr ()"
  shows "snd (give_back env t g True e n) = Inr False \<and> runs_here t g (fst (give_back env t g True e n))"
proof -
  obtain st where st: "get_state (tasks (runtime_of n)) t = Inr st" "task_state.state_task_id st = t"
    using transit by (auto simp: in_transit_def)
  let ?now = "migrate_now env" and ?err = "describe_error e"
  let ?f = "restore_local_after_failure (local_id n) g ?err"
  let ?st1 = "(halt st)\<lparr>owner_node_id := local_id n, generation := g, task_status := Stopped,
       last_error := Some ?err, last_exit_code := None\<rparr>"
  have f: "?f st = Store ?st1" by (simp add: restore_local_after_failure_def)
  have id: "task_state.state_task_id ?st1 = t" using st(2) by simp
  note e1 = edit_at_state [where f = ?f, OF st(1) f id, of ?now]
  obtain n1 where n1: "in_runtime (on_tasks ?f ?now t) n = (n1, Inr (?st1\<lparr>task_state.updated_at := ?now\<rparr>))"
    using e1(4) by (metis prod.collapse)
  note e1 = e1(1,3) [unfolded n1 fst_conv]
  have "n1 = fst (in_runtime (on_tasks ?f ?now t) n)" using n1 by simp
  then have frame: "node_capabilities (runtime_of n1) = node_capabilities (runtime_of n)"
    "definitions (tasks (runtime_of n1)) = definitions (tasks (runtime_of n))" by (simp_all only: in_runtime_frame on_tasks_frame)
  have go: "launches (runtime_of n1) t (restart_env env)"
    using launch launches_cong [OF frame] by simp
  have id1: "task_state.state_task_id (?st1\<lparr>task_state.updated_at := ?now\<rparr>) = t" using st(2) by simp
  have "\<exists>st' p. snd (start t (restart_env env) ?now ?now (runtime_of n1)) = Inr st'
      \<and> get_state (tasks (fst (start t (restart_env env) ?now ?now (runtime_of n1)))) t = Inr st'
      \<and> task_status st' = Running \<and> owner_node_id st' = runtime_node (runtime_of n1) \<and> generation st' = generation (?st1\<lparr>task_state.updated_at := ?now\<rparr>)
      \<and> pid (process st') = Some p \<and> p \<in> live (fst (start t (restart_env env) ?now ?now (runtime_of n1)))
      \<and> runtime_node (fst (start t (restart_env env) ?now ?now (runtime_of n1))) = runtime_node (runtime_of n1)"
    by (rule start_launches [OF go e1(1) _ _ _ id1]) (use e1(2) in \<open>simp_all add: local_id_def\<close>)
  then obtain rt st' p where s: "start t (restart_env env) ?now ?now (runtime_of n1) = (rt, Inr st')"
      "get_state (tasks rt) t = Inr st'" "task_status st' = Running" "owner_node_id st' = runtime_node (runtime_of n1)"
      "generation st' = g" "pid (process st') = Some p" "p \<in> live rt" and node: "runtime_node rt = runtime_node (runtime_of n1)"
    by (auto simp: prod_eq_iff)
  have e: "give_back env t g True e n = (set_status ?now (new_id env) Mig_Rolled_Back None (Some ?err) (n1\<lparr>runtime_of := rt\<rparr>), Inr False)"
  proof -
    have r: "restart_here (restart_env env) ?now t h n1 = (n1\<lparr>runtime_of := rt\<rparr>, Inr ())" for h
      using s(1) by (simp add: restart_here_def in_runtime_def)
    show ?thesis using n1 journal r by (simp add: give_back_def and_then_def answer_def Let_def)
  qed
  then show ?thesis using s node by (auto simp: runs_here_def local_id_def)
qed

end
