(* ===== verification/Migration_Claims.thy ===== *)
theory Migration_Claims
  imports Migration_Success Runtime_Claims
begin

text \<open>The claims about the migration of a task from one node to another.\<close>

section \<open>Two concrete nodes\<close>

definition demo_source :: migration_node where
  "demo_source = \<lparr>runtime_of = demo_node (demo_state Running (Some 42)) {42} {}, journal = [], bids = sample_empty, policies = None,
     checkpoints = (\<lambda>_. Some []), backups = (\<lambda>_. None), incoming = (\<lambda>_ _. None)\<rparr>"

definition demo_remote_state :: task_state where
  "demo_remote_state = initial_state ''b'' 0 sample_profile"

definition demo_destination :: migration_node where
  "demo_destination = \<lparr>runtime_of = node_started \<lparr>definitions = [(''t'', sample_definition)],
       state_files = [(''t'', demo_remote_state)], registry_node = ''b''\<rparr> demo_files demo_caps,
     journal = [], bids = sample_accepted, policies = None, checkpoints = (\<lambda>_. None), backups = (\<lambda>_. None), incoming = (\<lambda>_ _. None)\<rparr>"

definition demo_activation :: activation_environment where
  "demo_activation = \<lparr>installation_answer = Installed, checkpoint_answer = (\<lambda>_. Inr ()), staging_answer = Inr (),
     activation_start = demo_env [ready_poll], cancelled_meanwhile = None, activation_stop = Exits, activation_now = 100\<rparr>"

definition demo_network :: network where
  "demo_network = \<lparr>attempt_of = (\<lambda>_. Answered demo_activation), reachable = [True], transfer_result = Inr 0,
     cancel_at = None, announce_at = Some 101\<rparr>"

definition demo_migrate :: "unit result \<Rightarrow> migrate_environment" where
  "demo_migrate calibration = \<lparr>new_id = ''m'', prefetch_answer = Inr (0, []), settlement = None, settle_wall = 90, settle_trace = Inr 90,
     source_stop = Exits, source_checkpoint = (\<lambda>_. Inr 0), telemetry_transfer = Inr (),
     accounting_cluster = \<lparr>epoch_seconds = 60, bid_window_seconds = 5, request_timeout_seconds = 1, reservation_ttl_seconds = 60,
       reservation_renew_interval_seconds = 20, default_bandwidth_mbps = 8, default_latency_ms = 0, nodes = [], edges = []\<rparr>,
     accounting_edge = Inl (RuntimeError []),
     accounting_policy = \<lparr>min_migration_gap_seconds = 60, required_improvement_fraction = 0, network_energy_kwh_per_gb_base = 0,
       network_energy_kwh_per_gb_km = 0, activation_timeout_seconds = 60\<rparr>,
     downtime_so_far = 1, telemetry_calibration = calibration, experiment_failed = Inr (), restart_env = demo_env [ready_poll],
     migrate_now = 95\<rparr>"

lemma demo_destination_get [simp]:
  "get_state (tasks (runtime_of demo_destination)) t =
     (if t = ''t'' then Inr demo_remote_state else Inl (KeyError (''Unknown Magellan task definition: '' @ t)))"
  "get_definition (tasks (runtime_of demo_destination)) ''t'' = Inr sample_definition"
  "live (runtime_of demo_destination) = {}" "local_id demo_destination = ''b''"
  "node_capabilities (runtime_of demo_destination) = demo_caps"
  "journal demo_destination = []" "bids demo_destination = sample_accepted"
  by (simp_all add: demo_destination_def node_started_def get_state_def get_definition_def dict_get_Cons local_id_def runtime_node_def)

lemma demo_remote_facts [simp]:
  "pid (process demo_remote_state) = None" "owner_node_id demo_remote_state = ''a''" "generation demo_remote_state = 0"
  "task_state.state_task_id demo_remote_state = ''t''"
  by (simp_all add: demo_remote_state_def initial_state_def sample_profile_def no_process_def)

lemma demo_destination_inv: "runtime_inv (runtime_of demo_destination)"
proof -
  have "state_ok ''b'' demo_remote_state"
    by (auto simp: state_ok_def demo_remote_state_def initial_state_def sample_profile_def no_process_def cost_split_def
        initial_accounting_def)
  then have "registry_inv (tasks (runtime_of demo_destination))"
    using sample_definition_wf
    by (simp add: demo_destination_def node_started_def registry_inv_def dict_get_Cons dict_ok_def sample_definition_def
        sample_profile_def)
  then show ?thesis by (auto simp: runtime_inv_def recorded_def split: if_splits)
qed

lemma demo_launches:
  "launches rt ''t'' (demo_env [ready_poll])"
  if "get_definition (tasks rt) ''t'' = Inr sample_definition" "node_capabilities rt = demo_caps"
  using that by (simp add: launches_def demo_env_def ready_poll_def sample_definition_def sample_runtime_def
      sample_profile_def check_compatibility_iff)

lemma demo_awaits: "awaits demo_network ''m'' ''t'' 1 demo_destination"
proof -
  have "fresh_pid (runtime_of demo_destination) p" for p
    by (auto simp: fresh_pid_def recorded_def split: if_splits)
  then show ?thesis using demo_destination_inv sample_inv(3)
    by (simp add: awaits_def not_migrated_def demo_network_def demo_activation_def journal_get_def)
qed

lemma demo_sane: "sane_destination demo_network ''m'' ''t'' ''b'' 1 demo_destination"
  using demo_awaits by (simp add: sane_destination_def journal_ok_def journal_get_def)

lemma demo_lease:
  "\<exists>b. find_bid sample_accepted ''bid-1'' = Some b \<and> bid_record.status b = Accepted \<and> \<not> is_due 100 b
     \<and> bid_task_id b = ''t'' \<and> bid_source b = ''a'' \<and> bid_destination b = ''b''"
proof -
  obtain r where r: "find_bid sample_pending ''bid-1'' = Some r" "bid_record.status r = Pending"
    "bid_task_id r = ''t''" "bid_source r = ''a''" "bid_destination r = ''b''"
    by (rule sample_pending_bid)
  let ?b = "decided_record accept_sample 5 (reservation_ttl sample_pending) r"
  have "find_bid sample_accepted ''bid-1'' = Some ?b"
    using decide_accept(2) [OF sample_inv(2) r(1,2) accepting_sample] by (simp add: sample_accepted_def)
  moreover have "bid_record.status ?b = Accepted \<and> \<not> is_due 100 ?b \<and> bid_task_id ?b = ''t'' \<and> bid_source ?b = ''a'' \<and> bid_destination ?b = ''b''"
    using r by (simp add: decided_record_def accepting_sample is_due_def sample_ttl)
  ultimately show ?thesis by blast
qed

lemma demo_receives: "receives demo_network ''t'' ''a'' ''b'' ''bid-1'' 1 [] demo_destination"
proof -
  obtain b where b: "find_bid sample_accepted ''bid-1'' = Some b" "bid_record.status b = Accepted" "\<not> is_due 100 b"
    "bid_task_id b = ''t''" "bid_source b = ''a''" "bid_destination b = ''b''" using demo_lease by blast
  show ?thesis unfolding receives_def
    by (rule exI [of _ demo_activation], rule exI [of _ demo_remote_state], rule exI [of _ b])
       (use b demo_launches [of "runtime_of demo_destination"] in \<open>simp add: demo_network_def demo_activation_def\<close>)
qed

lemma demo_leaving: "leaving (demo_migrate c) ''t'' demo_source (demo_state Running (Some 42))"
proof -
  have "runtime_inv (demo_node (demo_state Running (Some 42)) {42} {})"
    by (rule demo_node_inv) (simp_all add: demo_state_ok)
  then show ?thesis
    by (simp add: leaving_def demo_source_def demo_migrate_def demo_state_ok local_id_def settlement_answers_def)
qed

lemma demo_facts:
  "new_id (demo_migrate c) = ''m''" "1 = generation (demo_state Running (Some 42)) + 1" "checkpoints demo_source ''t'' = Some []"
  "transferable (demo_migrate c) demo_network ''b'' 80 []" "is_ok (prefetch_answer (demo_migrate c))"
  "local_id demo_source = ''a''" "live (runtime_of demo_source) - set_option (pid (process (demo_state Running (Some 42)))) = {}"
  by (simp_all add: demo_migrate_def demo_state_def initial_state_def demo_source_def transferable_def demo_network_def local_id_def)

lemmas demo_migration =
  demo_leaving demo_facts(1,2) demo_awaits demo_sane demo_receives [folded demo_facts(6)] demo_facts(3,4,5)

section \<open>Refusals\<close>

lemma refused_pid:
  assumes "activate_incoming env req n = (n', Inr r)" and "\<not> rsp_activated r"
  shows "rsp_pid r = None"
proof -
  have roll: "rsp_pid r = None" if "rollback_activation env req st b b' e k = (n', Inr r)" for st b b' e k
    using that by (auto simp: rollback_activation_def response_to_def Let_def split: sum.splits prod.splits)
  have run: "rsp_pid r = None" if "run_activation env req st k = (n', Inr r)" for st k
    using that assms(2) roll
    by (auto simp: run_activation_def complete_activation_def response_to_def Let_def split: sum.splits prod.splits)
  show ?thesis using assms run
    by (auto simp: activate_incoming_def confirm_activation_def response_to_def Let_def
        split: if_splits sum.splits option.splits)
qed

section \<open>The claims\<close>

text \<open>
  C2. A migration leaves one owner.  The network may lose the transfer and any activation request, reply,
  status query, cancellation and announcement, and the destination may refuse at any step of the
  activation (lease, copy of the checkpoint, also half-way, validation, artifacts, start, a lease
  cancelled meanwhile): when the destination comes out running the task under the new generation, the
  source keeps no process of it (its live processes are exactly those of the other tasks) and records
  none; and the source reports success only when the destination runs the task and the source's own
  record names the new owner.  Taken as given: the settlement of the source's accounting and the
  calibration of its telemetry raise nothing, no process that is to be killed survives on either side,
  and the destination works off an activation to its end before it meets the next message, so it does
  not crash within one and no status query finds one under way.  Without these a second process or
  owner is possible: \<open>settle_failure_orphans_process\<close>, the late failure below, and
  \<open>query_forgets_unfinished\<close>.
\<close>

theorem migration_leaves_one_owner:
  assumes "leaving env t n st" and "telemetry_calibration env = Inr ()"
    and "sane_destination net (new_id env) t destination (generation st + 1) d"
    and "\<not> runs_migration (new_id env) t (generation st + 1) d"
    and "migrate (node_remote net) env t destination at_time bid (n, d) = ((n', d'), r)"
  shows "(runs_migration (new_id env) t (generation st + 1) d' \<longrightarrow>
        quiet t (live (runtime_of n) - set_option (pid (process st))) n')
    \<and> (r = Inr True \<longrightarrow> runs_migration (new_id env) t (generation st + 1) d'
        \<and> handed_over t destination (generation st + 1) (live (runtime_of n) - set_option (pid (process st))) n')"
proof -
  have L: "runtime_inv (runtime_of n)" "get_state (tasks (runtime_of n)) t = Inr st" "owner_node_id st = local_id n"
    "task_status st \<noteq> Completed" "source_stop env \<noteq> KillDenied" using assms(1) by (simp_all add: leaving_def)
  obtain def where d: "get_definition (tasks (runtime_of n)) t = Inr def" using get_state_definition [OF L(2)] by blast
  have "settlement_answers env t def" using assms(1) d by (simp add: leaving_def)
  from two_nodes.migrate_true [OF L(1-4) d this L(5) refl refl assms(3,4,2,5)] show ?thesis .
qed

theorem migration_leaves_one_owner_witness:
  "\<exists>n' d'. migrate (node_remote demo_network) (demo_migrate (Inr ())) ''t'' ''b'' 80 ''bid-1'' (demo_source, demo_destination)
      = ((n', d'), Inr True) \<and> runs_migration ''m'' ''t'' 1 d' \<and> quiet ''t'' {} n'"
proof -
  obtain n' d' where go: "migrate (node_remote demo_network) (demo_migrate (Inr ())) ''t'' ''b'' 80 ''bid-1'' (demo_source, demo_destination)
      = ((n', d'), Inr True)" "runs_migration ''m'' ''t'' 1 d'"
    using migrate_succeeds [OF demo_migration, of "Inr ()"] by (auto simp: demo_migrate_def)
  note id = demo_facts(1) [of "Inr ()"] and g = demo_facts(2) [symmetric]
  have "\<not> runs_migration ''m'' ''t'' 1 demo_destination" by (simp add: runs_migration_def)
  moreover have "telemetry_calibration (demo_migrate (Inr ())) = Inr ()" by (simp add: demo_migrate_def)
  ultimately show ?thesis
    using migration_leaves_one_owner [OF demo_leaving _ _ _ go(1), unfolded id g] demo_sane go demo_facts(7) by auto
qed



text \<open>
  C3. How an activation ends, whatever its steps answer (a started process can be stopped).  It
  commits: the task runs here under the request's generation, the received checkpoint is the task's,
  the lease is consumed, the journal says activated with the pid.  Or it is refused: the task's state
  and the processes are as before, the lease has ended, the rollback is journaled, and the
  checkpoints are as before too, except that a failed copy for a task that had no checkpoint leaves
  what it wrote.  Or the request ends in an exception, which happens only when the copy over an
  earlier checkpoint fails half-way: the rollback itself raises, the task's state and the processes
  are untouched, but nothing else is undone: the partial copy stays the task's checkpoint and the
  earlier one stays aside, the lease stays claimed and the journal says activating.  No other task
  is touched in any case.
\<close>

theorem activation_outcomes:
  assumes "activation_setting env req st n" and "ar_destination req = local_id n" and "\<not> already_active req st n"
    and "journal_get (journal n) (ar_migration_id req) = None"
    and "activate_incoming env req n = (n', res)"
  shows "others_same (ar_task_id req) (runtime_of n) (runtime_of n')
    \<and> (case res of
        Inr resp \<Rightarrow>
          if rsp_activated resp then \<exists>st'. activation_committed n req st' n' \<and> rsp_pid resp = pid (process st')
          else activation_refused n req st n' \<and> checkpoints_after_refusal env req n n'
      | Inl e \<Rightarrow> activation_stuck n req n' \<and> old_checkpoint_stranded env req n n')"
proof -
  have ground: "activation_ground env req st n" and clean: "backups n (ar_task_id req, ar_migration_id req) = None"
    using assms(1) by (simp_all add: activation_setting_def)
  have "\<forall>r. journal_get (journal n) (ar_migration_id req) = Some r \<longrightarrow> mr_status r \<noteq> Mig_Rolled_Back" using assms(4) by simp
  from activate_incoming_outcome [OF ground assms(2,3) this assms(5)] clean show ?thesis
    by (auto simp: activation_result_def split: sum.splits if_splits)
qed

definition demo_request :: activation_request where
  "demo_request = \<lparr>ar_migration_id = ''m'', ar_bid_id = ''bid-1'', ar_task_id = ''t'', ar_source = ''a'', ar_destination = ''b'',
     ar_generation = 1, ar_migration_at = 80, ar_artifacts = [], ar_accounting = None, ar_policy = None\<rparr>"

lemma demo_claimable: "claimable demo_request 100 sample_accepted"
  using demo_lease by (simp add: claimable_def demo_request_def)

lemma demo_setting:
  assumes "activation_stop env \<noteq> KillDenied" and "runtime_of n = runtime_of demo_destination" "journal n = []"
    "bids n = sample_accepted" "backups n = (\<lambda>_. None)"
  shows "activation_setting env demo_request demo_remote_state n"
proof -
  have "fresh_pid (runtime_of demo_destination) p" for p
    by (auto simp: fresh_pid_def recorded_def split: if_splits)
  then show ?thesis using demo_destination_inv sample_inv(3) assms
    by (simp add: activation_setting_def activation_ground_def demo_request_def journal_ok_def journal_get_def)
qed

lemma demo_inactive:
  assumes "runtime_of n = runtime_of demo_destination" "journal n = []"
  shows "\<not> already_active demo_request demo_remote_state n" "journal_get (journal n) (ar_migration_id demo_request) = None"
    "ar_destination demo_request = local_id n"
  using assms by (simp_all add: already_active_def demo_request_def journal_get_def local_id_def)
     (simp add: demo_destination_def node_started_def runtime_node_def)

text \<open>A destination with an earlier checkpoint, on which the copy of the received one fails half-way.\<close>

definition demo_received :: migration_node where
  "demo_received = demo_destination\<lparr>checkpoints := (\<lambda>_. Some [(''step_1'', ''old'')]),
     incoming := (\<lambda>_ _. Some [(''step_2'', ''new''), (''weights'', ''new'')])\<rparr>"

definition demo_disk_full :: activation_environment where
  "demo_disk_full = demo_activation\<lparr>installation_answer := Copy_Refused (OtherError ''No space left on device'') (Some [(''step_2'', ''new'')])\<rparr>"

theorem activation_outcomes_witness:
  "\<exists>n' e. activate_incoming demo_disk_full demo_request demo_received = (n', Inl e)
     \<and> activation_stuck demo_received demo_request n' \<and> checkpoints n' ''t'' = Some [(''step_2'', ''new'')]
     \<and> backups n' (''t'', ''m'') = Some [(''step_1'', ''old'')]"
proof -
  let ?n = demo_received and ?env = demo_disk_full
  have n: "runtime_of ?n = runtime_of demo_destination" "journal ?n = []" "bids ?n = sample_accepted" "backups ?n = (\<lambda>_. None)"
    by (simp_all add: demo_received_def) (simp add: demo_destination_def)
  have env: "activation_stop ?env \<noteq> KillDenied" by (simp add: demo_disk_full_def demo_activation_def)
  note set = demo_setting [OF env n] and inactive = demo_inactive [OF n(1,2)]
  let ?n2 = "begin_record ?env demo_request demo_remote_state (merge_received (ar_policy demo_request) ?n)"
  have "claimable demo_request (activation_now ?env) (bids ?n2)"
    using demo_claimable n(3) by (simp add: demo_disk_full_def demo_activation_def)
  then obtain s' r where bid: "begin_activation (ar_bid_id demo_request) (ar_task_id demo_request) (ar_source demo_request)
      (ar_destination demo_request) (activation_now ?env) (bids ?n2) = (s', Inr r)"
    using claimable_claims [of "bids ?n2" demo_request "activation_now ?env" "activation_now ?env"] n(3) sample_inv(3) by auto
  let ?n1 = "?n2\<lparr>bids := s'\<rparr>"
  have got: "incoming ?n1 = incoming ?n" "checkpoints ?n1 = checkpoints ?n" by simp_all
  have claim: "claim_reservation ?env demo_request ?n2 = (?n1, Inr ())"
    using bid got(1) by (simp add: claim_reservation_def and_then_def in_bids_def demo_received_def)
  obtain k where k: "install_checkpoint ?env demo_request ?n1 = (k, Inl (OtherError ''No space left on device''))"
    "checkpoints k ''t'' = Some [(''step_2'', ''new'')]" "backups k (''t'', ''m'') = Some [(''step_1'', ''old'')]"
    using got(2) by (simp add: install_checkpoint_def demo_disk_full_def demo_request_def demo_received_def Let_def)
  have "restore_checkpoint False demo_request k = (k, Inl (OtherError ''OSError: Directory not empty''))"
    using k(2,3) by (simp add: restore_checkpoint_def holds_files_def demo_request_def)
  then have "\<exists>n' e. run_activation ?env demo_request demo_remote_state ?n2 = (n', Inl e)"
    using claim k(1) by (simp add: run_activation_def rollback_activation_def Let_def)
  moreover have "activate_incoming ?env demo_request ?n = run_activation ?env demo_request demo_remote_state ?n2"
    using inactive set n
    by (simp add: activate_incoming_def activation_setting_def activation_ground_def Let_def)
  ultimately obtain n' e where go: "activate_incoming ?env demo_request ?n = (n', Inl e)" by auto
  from activation_outcomes [OF set inactive(3,1,2) this] have
    "activation_stuck ?n demo_request n'" "old_checkpoint_stranded ?env demo_request ?n n'" by simp_all
  then show ?thesis using go
    by (simp add: old_checkpoint_stranded_def copy_left_def demo_disk_full_def demo_request_def demo_received_def Let_def)
qed

text \<open>
  C4. Activation is idempotent: a repeated request, whatever the node would answer to its steps this
  time, gets the verdict of the first one and changes nothing more: same processes and tasks, same
  leases, same checkpoints.  So the client may retry.
\<close>

theorem activation_is_idempotent:
  assumes "activation_setting env req st n" and "ar_destination req = local_id n" and "\<not> already_active req st n"
    and "journal_get (journal n) (ar_migration_id req) = None"
    and "activate_incoming env req n = (n1, Inr r1)"
  shows "\<exists>n2 r2. activate_incoming env' req n1 = (n2, Inr r2) \<and> rsp_activated r2 = rsp_activated r1
    \<and> rsp_pid r2 = rsp_pid r1 \<and> runtime_of n2 = runtime_of n1 \<and> bids n2 = bids n1 \<and> checkpoints n2 = checkpoints n1"
proof -
  have ground: "activation_ground env req st n" using assms(1) by (simp add: activation_setting_def)
  have "\<forall>r. journal_get (journal n) (ar_migration_id req) = Some r \<longrightarrow> mr_status r \<noteq> Mig_Rolled_Back" using assms(4) by simp
  from activate_incoming_outcome(1) [OF ground assms(2,3) this assms(5)] have id: "local_id n1 = local_id n"
    and out: "if rsp_activated r1 then \<exists>st'. activation_committed n req st' n1 \<and> rsp_pid r1 = pid (process st')
       else activation_refused n req st n1" by (simp_all add: activation_result_def)
  have journal: "journal_ok (journal n1)"
    using journal_ok_activate [of n env req] assms(5) ground by (simp add: activation_ground_def)
  show ?thesis
  proof (cases "rsp_activated r1")
    case True
    then obtain st' where "activation_committed n req st' n1" "rsp_pid r1 = pid (process st')" using out by auto
    from activate_again [OF this(1) _ id journal, of env'] this(2) assms(2) id True show ?thesis by auto
  next
    case False
    have pid: "rsp_pid r1 = None" using refused_pid [OF assms(5) False] .
    have "activation_refused n req st n1" using out False by simp
    from refuse_again [OF this assms(3) id, of env'] obtain n2 r2 where
      again: "activate_incoming env' req n1 = (n2, Inr r2)" "\<not> rsp_activated r2" "runtime_of n2 = runtime_of n1"
        "bids n2 = bids n1" "checkpoints n2 = checkpoints n1" using assms(2) id by auto
    then show ?thesis using False pid refused_pid [OF again(1,2)] by auto
  qed
qed

theorem activation_is_idempotent_witness:
  "\<exists>n1 r1. activate_incoming demo_activation demo_request demo_destination = (n1, Inr r1)
     \<and> runtime_of (fst (activate_incoming demo_activation demo_request n1)) = runtime_of n1"
proof -
  have n: "runtime_of demo_destination = runtime_of demo_destination" "journal demo_destination = []"
    "bids demo_destination = sample_accepted" "backups demo_destination = (\<lambda>_. None)"
    by simp_all (simp add: demo_destination_def)
  have env: "activation_stop demo_activation \<noteq> KillDenied" by (simp add: demo_activation_def)
  note set = demo_setting [OF env n] and inactive = demo_inactive [OF n(1,2)]
  obtain n1 res where go: "activate_incoming demo_activation demo_request demo_destination = (n1, res)" by fastforce
  have "res \<noteq> Inl e" for e
    using activate_incoming_outcome(2) [OF _ inactive(3,1) _ go] set inactive(2)
    by (auto simp: activation_setting_def old_checkpoint_stranded_def demo_activation_def copy_left_def holds_files_def Let_def)
  then obtain r1 where r1: "res = Inr r1" by (cases res) auto
  from activation_is_idempotent [OF set inactive(3,1,2) go [unfolded r1], of demo_activation] go r1 show ?thesis by auto
qed

text \<open>
  C6. The hand-over has a gap: when an exception strikes between the answer of the destination and
  the hand-over on the source (the telemetry store or the experiment journal raises), \<open>migrate\<close>
  reports failure and starts the task again on the source under the old generation, while it runs
  on the destination under the new one: two owners, two processes.
\<close>

theorem late_failure_makes_two_owners:
  assumes "leaving env t n st" and "awaits net (new_id env) t (generation st + 1) d"
    and "sane_destination net (new_id env) t destination (generation st + 1) d"
    and "receives net t (local_id n) destination bid (generation st + 1) c d"
    and "checkpoints n t = Some c" and "transferable env net destination at_time c"
    and "is_ok (prefetch_answer env)" and "telemetry_calibration env = Inl e"
    and "experiment_failed env = Inr ()" and "launches (runtime_of n) t (restart_env env)"
  shows "\<exists>n' d'. migrate (node_remote net) env t destination at_time bid (n, d) = ((n', d'), Inr False)
    \<and> runs_migration (new_id env) t (generation st + 1) d' \<and> runs_here t (generation st) n'"
proof -
  let ?net = "node_remote net"
  let ?n1 = "n\<lparr>journal := put_record (migrate_now env) (source_record env t destination at_time bid st (local_id n)) (journal n)\<rparr>"
  obtain missing bs where p: "prefetch_answer env = Inr (missing, bs)" using assms(7) by (auto simp: is_ok_Inr)
  have st: "get_state (tasks (runtime_of n)) t = Inr st" "owner_node_id st = local_id n" using assms(1) by (simp_all add: leaving_def)
  have n1: "leaving env t ?n1 st" "receives net t (local_id ?n1) destination bid (generation st + 1) c d" "checkpoints ?n1 t = Some c"
    using assms(1,4,5) by (simp_all add: local_id_def)
  obtain n2 n3 d3 where h: "quiesce_source env t ?n1 = (n2, Inr ())"
    "and_then (transfer_phase ?net env t destination at_time missing)
        (\<lambda>_. activation_phase ?net env t destination at_time bid (generation st + 1) bs) (n2, d) = ((n3, d3), Inr ())"
    "in_transit t (live (runtime_of n) - set_option (pid (process st))) n3" "runs_migration (new_id env) t (generation st + 1) d3"
    "node_capabilities (runtime_of n3) = node_capabilities (runtime_of n)"
    "definitions (tasks (runtime_of n3)) = definitions (tasks (runtime_of n))"
    using handover_succeeds [OF n1(1) refl refl assms(2,3) n1(2,3) assms(6), of missing bs] by auto
  obtain k x where gb: "give_back env t (generation st) True e n3 = (k, x)" by fastforce
  have "launches (runtime_of n3) t (restart_env env)" using assms(10) launches_cong [OF h(5,6)] by simp
  note restart = give_back_restarts [OF h(3) this assms(9), of "generation st" e]
  have "x = Inr False" "runs_here t (generation st) k"
    using restart gb by simp_all
  moreover have "migrate ?net env t destination at_time bid (n, d) = ((k, d3), x)"
    using st p h(1,2) assms(8) gb
    by (simp add: migrate_def migrate_prepared_def here_def after_activation_def and_then_def answer_def Let_def)
  ultimately show ?thesis using h(4) by blast
qed

theorem late_failure_makes_two_owners_witness:
  "\<exists>n' d'. migrate (node_remote demo_network) (demo_migrate (Inl (RuntimeError ''disk full''))) ''t'' ''b'' 80 ''bid-1''
      (demo_source, demo_destination) = ((n', d'), Inr False) \<and> runs_migration ''m'' ''t'' 1 d' \<and> runs_here ''t'' 0 n'"
proof -
  let ?env = "demo_migrate (Inl (RuntimeError ''disk full''))"
  note id = demo_facts(1) and g = demo_facts(2) [symmetric]
  have g0: "generation (demo_state Running (Some 42)) = 0" using g by simp
  have "telemetry_calibration ?env = Inl (RuntimeError ''disk full'')" "experiment_failed ?env = Inr ()"
    "restart_env ?env = demo_env [ready_poll]" by (simp_all add: demo_migrate_def)
  moreover have "launches (runtime_of demo_source) ''t'' (demo_env [ready_poll])"
    by (rule demo_launches) (simp_all add: demo_source_def)
  ultimately show ?thesis
    using late_failure_makes_two_owners [OF demo_leaving, unfolded id g, OF demo_awaits demo_sane demo_receives [folded demo_facts(6)]
      demo_facts(3,4,5)] g0 by simp
qed

text \<open>
  A failure before the stop loses the process: when the settlement of the accounting raises,
  \<open>migrate\<close> reports failure and gives the task back as stopped, which drops the recorded pid, but
  the process was never stopped and is not restarted: it runs on without a record of it.
\<close>

theorem settle_failure_orphans_process:
  assumes "runtime_inv (runtime_of n)" and "get_state (tasks (runtime_of n)) t = Inr st" and "owner_node_id st = local_id n"
    and "pid (process st) = Some p" and "p \<in> live (runtime_of n)" and "is_ok (prefetch_answer env)"
    and "settlement env = Some acc" and "settle_trace env = Inr trace"
    and "snd (settle_task acc (settle_wall env) trace (migrate_now env) t (runtime_of n)) = Inl e"
    and "experiment_failed env = Inr ()"
  shows "\<exists>n' d'. migrate net env t destination at_time bid (n, d) = ((n', d'), Inr False)
    \<and> p \<in> live (runtime_of n') \<and> (\<nexists>u. recorded (runtime_of n') u p)"
proof -
  let ?now = "migrate_now env" and ?err = "describe_error e"
  let ?n1 = "n\<lparr>journal := put_record ?now (source_record env t destination at_time bid st (local_id n)) (journal n)\<rparr>"
  obtain missing bs where m: "prefetch_answer env = Inr (missing, bs)" using assms(6) by (auto simp: is_ok_Inr)
  obtain rt where s: "settle_task acc (settle_wall env) trace ?now t (runtime_of n) = (rt, Inl e)" using assms(9) by (metis prod.collapse)
  note ok = settle_task_ok [OF assms(1,2), of acc "settle_wall env" trace ?now, unfolded s fst_conv]
  have inv: "runtime_inv rt" and L: "p \<in> live rt" using ok assms(5) by (simp_all add: own_change_def)
  obtain st' where st': "get_state (tasks rt) t = Inr st'" "resettled st st'" using ok by blast
  have rec: "recorded rt t p" using st' assms(4) resettledD [OF st'(2)] by (auto simp: recorded_def)
  let ?n2 = "?n1\<lparr>runtime_of := rt\<rparr>"
  have q: "quiesce_source env t ?n1 = (?n2, Inl e)"
    using assms(7,8) s by (simp add: quiesce_source_def and_then_def answer_def in_runtime_def)
  let ?f = "restore_local_after_failure (local_id ?n2) (generation st) ?err"
  let ?st1 = "(halt st')\<lparr>owner_node_id := local_id ?n2, generation := generation st, task_status := Stopped,
       last_error := Some ?err, last_exit_code := None\<rparr>"
  have f: "?f st' = Store ?st1" by (simp add: restore_local_after_failure_def)
  have id: "task_state.state_task_id ?st1 = t" using runtime_invD(1) [OF inv st'(1)] by simp
  have st2: "get_state (tasks (runtime_of ?n2)) t = Inr st'" using st'(1) by simp
  obtain n3 where n3: "in_runtime (on_tasks ?f ?now t) ?n2 = (n3, Inr (?st1\<lparr>task_state.updated_at := ?now\<rparr>))"
    using edit_at_state(4) [where f = ?f, OF st2 f id, of ?now] by (metis prod.collapse)
  have "n3 = fst (in_runtime (on_tasks ?f ?now t) ?n2)" using n3 by simp
  then have r3: "runtime_of n3 = fst (on_tasks ?f ?now t rt)" by (simp add: in_runtime_frame)
  have gone: "get_state (tasks (runtime_of n3)) t = Inr (?st1\<lparr>task_state.updated_at := ?now\<rparr>)" "live (runtime_of n3) = live rt"
    using edit_at_state(1,2) [where f = ?f, OF st2 f id, of ?now] n3 by simp_all
  have others: "others_same t rt (runtime_of n3)"
    unfolding r3 by (rule others_same_edit [OF st'(1)]) (use f id in simp)
  have "\<not> recorded (runtime_of n3) u p" for u
  proof (cases "u = t")
    case False
    then show ?thesis using others rec inv by (auto simp: others_same_def recorded_def runtime_inv_def)
  qed (use gone(1) in \<open>simp add: recorded_def\<close>)
  moreover have "\<exists>n' d'. migrate net env t destination at_time bid (n, d) = ((n', d'), Inr False) \<and> runtime_of n' = runtime_of n3"
    using assms(2,3,10) m q n3
    by (simp add: migrate_def migrate_prepared_def here_def give_back_def release_reservation_def and_then_def answer_def Let_def)
  ultimately show ?thesis using gone(2) L by metis
qed

theorem settle_failure_orphans_process_witness:
  "\<exists>n' d'. migrate (node_remote demo_network) ((demo_migrate (Inr ()))
        \<lparr>settlement := Some (demo_accounting\<lparr>carbon_average := \<lambda>_ _ _. Inl (KeyError ''no samples'')\<rparr>)\<rparr>) ''t'' ''b'' 80 ''bid-1''
      (demo_source, demo_destination) = ((n', d'), Inr False)
    \<and> 42 \<in> live (runtime_of n') \<and> (\<nexists>u. recorded (runtime_of n') u 42)"
proof (rule settle_failure_orphans_process)
  let ?st = "demo_state Running (Some 42)" and ?acc = "demo_accounting\<lparr>carbon_average := \<lambda>_ _ _. Inl (KeyError ''no samples'')\<rparr>"
  show "runtime_inv (runtime_of demo_source)" and "get_state (tasks (runtime_of demo_source)) ''t'' = Inr ?st"
    "owner_node_id ?st = local_id demo_source"
    using demo_leaving by (simp_all add: leaving_def)
  show "snd (settle_task ?acc (settle_wall ((demo_migrate (Inr ()))\<lparr>settlement := Some ?acc\<rparr>)) 90
      (migrate_now ((demo_migrate (Inr ()))\<lparr>settlement := Some ?acc\<rparr>)) ''t'' (runtime_of demo_source)) = Inl (KeyError ''no samples'')"
    by (simp add: settle_task_def usage_def demo_accounting_def demo_source_def demo_migrate_def demo_state_ok progress_update_def
        process_alive_def sample_definition_def sample_runtime_def evaluation_seconds_for_wall_seconds_def
        trace_seconds_per_real_second_def Let_def)
qed (simp_all add: demo_state_ok demo_source_def demo_migrate_def)

end
