(* ===== verification/Scheduler_Service.thy ===== *)
theory Scheduler_Service
  imports Migration_Source Scoring
begin

text \<open>
  \<open>magellan/daemon/scheduler_service.py\<close> and the bid client of \<open>magellan/bidding/client.py\<close>: one
  epoch of a node (reconcile the processes, announce completions, evaluate every running task and
  carry out the decision) and the requests of an operator.  Evaluation, pause, bidding and migration
  are those of the component theories; the other nodes are the state \<open>'d\<close> of the remote.
\<close>

section \<open>Environment\<close>

text \<open>The bidding interface of the other nodes: submit a bid, read its record.\<close>

record 'd market =
  post_bid :: "bid_request \<Rightarrow> 'd \<Rightarrow> 'd \<times> bid_record result"
  read_bid :: "string \<Rightarrow> 'd \<Rightarrow> 'd \<times> bid_record result"

text \<open>
  What the outside answers during an epoch: the validation of a checkpoint with its size, the
  telemetry (the enriched profile, the refresh of edges, the confidence of the power measurement),
  the bytes missing at a destination, the experiment journal, new identifiers, the clocks, the
  number of polls the bid client has before its deadline, and what a migration meets.
\<close>

record scheduler_environment =
  sched_cluster :: cluster_config
  sched_policy :: scoring_policy
  sched_telemetry :: "telemetry_source option"
  sched_forecaster :: forecaster
  sched_accounting :: accounting_environment
  sched_adaptive :: "(policy_service \<times> adaptive_clock) option"
  checkpoint_size :: "task_id \<Rightarrow> checkpoint option \<Rightarrow> int result"
  enrich_profile :: "task_profile \<Rightarrow> task_profile"
  edges_fresh :: "node_id set \<Rightarrow> unit result"
  missing_bytes :: "task_id \<Rightarrow> node_id \<Rightarrow> int result"
  power_confidence :: "task_profile \<Rightarrow> real option"
  decision_journal :: "task_id \<Rightarrow> unit result"
  new_bid :: "task_id \<Rightarrow> string"
  epoch_label :: "task_id \<Rightarrow> datetime \<Rightarrow> string"
  sched_wall :: datetime
  sched_written :: datetime
  group_found :: "task_id \<Rightarrow> bool"
  poll_budget :: nat
  migration_env :: "task_id \<Rightarrow> migrate_environment"
  resume_env_of :: "task_id \<Rightarrow> resume_environment"

datatype epoch_outcome =
    Skipped
  | Continues
  | Pauses real
  | Bid_Lost bid_status
  | Migrates bool

section \<open>Bidding\<close>

text \<open>The bid client: submit, then poll while the bid is pending and the deadline not passed.\<close>

fun wait_for_bid :: "'d market \<Rightarrow> string \<Rightarrow> nat \<Rightarrow> bid_record \<Rightarrow> 'd \<Rightarrow> 'd \<times> bid_record result" where
  "wait_for_bid mk i k r d =
     (if bid_record.status r \<noteq> Pending then (d, Inr r)
      else case k of
        0 \<Rightarrow> (d, Inl (OtherError (''TimeoutError: Timed out waiting for bid '' @ i)))
      | Suc k' \<Rightarrow>
          (case read_bid mk i d of
             (d', Inl e) \<Rightarrow> (d', Inl e)
           | (d', Inr r') \<Rightarrow> wait_for_bid mk i k' r' d'))"

definition submit_and_wait :: "'d market \<Rightarrow> nat \<Rightarrow> bid_request \<Rightarrow> 'd \<Rightarrow> 'd \<times> bid_record result" where
  "submit_and_wait mk k b =
     and_then (post_bid mk b) (\<lambda>r. wait_for_bid mk (bid_id b) k r)"

text \<open>The best alternative to the candidate, and what losing the bid would cost.\<close>

definition same_move :: "scored_action \<Rightarrow> scored_action \<Rightarrow> bool" where
  "same_move a b \<longleftrightarrow> action a = action b \<and> destination_node a = destination_node b \<and> source_node a = source_node b"

definition fallback_of :: "scored_action \<Rightarrow> scored_action list \<Rightarrow> scored_action option" where
  "fallback_of best ranked = min_by score (filter (\<lambda>a. \<not> same_move a best) ranked)"

definition bid_context_of :: "task_profile \<Rightarrow> int \<Rightarrow> scored_action \<Rightarrow> scored_action list \<Rightarrow> task_bid_context" where
  "bid_context_of task static best ranked =
     (let fallback = fallback_of best ranked
      in \<lparr>ctx_workload_type = workload_type task, ctx_priority = priority task, ctx_deadline_at = deadline_at task,
          ctx_remaining_seconds = profile_remaining_seconds task, ctx_checkpoint_bytes = checkpoint_bytes task,
          ctx_static_data_bytes = static, ctx_accumulated_cost = profile_accumulated_cost task,
          ctx_cost_cap = cost_cap_usd task, ctx_resource_request = resource_request task,
          ctx_fallback_action = map_option action fallback,
          ctx_fallback_destination = (case fallback of None \<Rightarrow> None | Some a \<Rightarrow> destination_node a),
          ctx_fallback_score = map_option score fallback,
          ctx_opportunity_loss = (case fallback of None \<Rightarrow> 0 | Some a \<Rightarrow> max 0 (score a - score best)),
          ctx_compatibility = compatibility task\<rparr>)"

definition make_bid ::
  "scheduler_environment \<Rightarrow> string \<Rightarrow> task_id \<Rightarrow> task_profile \<Rightarrow> int \<Rightarrow> scored_action \<Rightarrow> scored_action list \<Rightarrow> node_id \<Rightarrow> node_id
     \<Rightarrow> bid_request result" where
  "make_bid env label t task static best ranked source destination =
     validate_migration_candidate
       \<lparr>bid_id = new_bid env t, epoch_id = label, bid_task_id = t,
        task_context = Some (bid_context_of task static best ranked), bid_source = source,
        bid_destination = destination, candidate = best, submitted_at = sched_wall env\<rparr>"

text \<open>The bid and, when it is accepted, the migration.\<close>

definition bid_and_migrate ::
  "'d remote \<Rightarrow> 'd market \<Rightarrow> scheduler_environment \<Rightarrow> datetime \<Rightarrow> bid_request \<Rightarrow> 'd world \<Rightarrow> 'd world \<times> epoch_outcome result" where
  "bid_and_migrate net mk env trace b =
     and_then (there (submit_and_wait mk (poll_budget env) b))
       (\<lambda>r. if bid_record.status r = Accepted
            then and_then (migrate net (migration_env env (bid_task_id b)) (bid_task_id b) (bid_destination b) trace (bid_id r))
                   (\<lambda>ok. answer (Inr (Migrates ok)))
            else answer (Inr (Bid_Lost (bid_record.status r))))"

section \<open>The inputs of a decision\<close>

definition compatible_destinations :: "cluster_config \<Rightarrow> node_id \<Rightarrow> task_profile \<Rightarrow> node_id set" where
  "compatible_destinations c node task =
     set (map node_identity (filter (\<lambda>n. compatible (check_compatibility (compatibility task) (capabilities n))) (peers c node)))"

fun static_bytes :: "scheduler_environment \<Rightarrow> task_id \<Rightarrow> node_config list \<Rightarrow> int dict result" where
  "static_bytes env t [] = Inr []"
| "static_bytes env t (n # ns) =
     bind_result (missing_bytes env t (node_identity n)) (\<lambda>b.
     bind_result (static_bytes env t ns) (\<lambda>d. Inr ((node_identity n, b) # d)))"

text \<open>
  The enriched profile, the bytes to move and the destinations.  Without a valid checkpoint a task
  has no destination at all.
\<close>

definition decision_inputs ::
  "scheduler_environment \<Rightarrow> task_id \<Rightarrow> migration_node \<Rightarrow> (task_profile \<times> int dict \<times> node_id set) result" where
  "decision_inputs env t n =
     (let reg = tasks (runtime_of n)
      in case checkpoint_size env t (checkpoints n t) of
           Inl e \<Rightarrow>
             (case e of
                CheckpointValidationError m \<Rightarrow>
                  bind_result (scoring_profile reg t None) (\<lambda>p. Inr (enrich_profile env p, [], {}))
              | _ \<Rightarrow> Inl e)
         | Inr bytes \<Rightarrow>
             bind_result (scoring_profile reg t (Some bytes)) (\<lambda>p.
               let task = enrich_profile env p;
                   ds = compatible_destinations (sched_cluster env) (local_id n) task
               in bind_result (if ds = {} then Inr () else edges_fresh env ds) (\<lambda>_.
                  bind_result (static_bytes env t
                      (filter (\<lambda>m. node_identity m \<in> ds) (peers (sched_cluster env) (local_id n)))) (\<lambda>sb.
                  Inr (task, sb, ds)))))"

definition adaptive_state :: "scheduler_environment \<Rightarrow> migration_node \<Rightarrow> (policy_service \<times> policy_store \<times> adaptive_clock) option" where
  "adaptive_state env n =
     (case (sched_adaptive env, policies n) of (Some (svc, clk), Some s) \<Rightarrow> Some (svc, s, clk) | _ \<Rightarrow> None)"

definition decide_task ::
  "scheduler_environment \<Rightarrow> datetime \<Rightarrow> migration_node \<Rightarrow> task_profile \<times> int dict \<times> node_id set
     \<Rightarrow> migration_node \<times> decision_result result" where
  "decide_task env trace n inputs =
     (let (task, sb, ds) = inputs
      in case evaluate_task task (sched_cluster env) (sched_policy env) (sched_telemetry env) (sched_forecaster env) trace
                (Some sb) (adaptive_state env n)
                (case power_confidence env task of None \<Rightarrow> 0 | Some x \<Rightarrow> x) (Some ds) of
           Inl e \<Rightarrow> (n, Inl e)
         | Inr (d, None) \<Rightarrow> (n, Inr d)
         | Inr (d, Some (s, _)) \<Rightarrow> (n\<lparr>policies := Some s\<rparr>, Inr d))"

section \<open>One task\<close>

definition idle_of :: "scheduler_environment \<Rightarrow> scored_action \<Rightarrow> real" where
  "idle_of env a = (case detail_idle_seconds a of None \<Rightarrow> idle_seconds (scoring_policy.pause (sched_policy env)) | Some i \<Rightarrow> i)"

definition pause_now ::
  "scheduler_environment \<Rightarrow> task_id \<Rightarrow> datetime \<Rightarrow> real \<Rightarrow> string \<Rightarrow> 'd world \<Rightarrow> 'd world \<times> task_state result" where
  "pause_now env t trace idle reason =
     here (in_runtime (pause_task (environment_clock (sched_accounting env)) t trace idle reason (sched_wall env)
       (group_found env t) (sched_wall env) (sched_written env)))"

definition carry_out ::
  "'d remote \<Rightarrow> 'd market \<Rightarrow> scheduler_environment \<Rightarrow> task_id \<Rightarrow> datetime \<Rightarrow> task_profile \<Rightarrow> int dict \<Rightarrow> decision_result
     \<Rightarrow> 'd world \<Rightarrow> 'd world \<times> epoch_outcome result" where
  "carry_out net mk env t trace task sb d s =
     (let a = selected d
      in case action a of
           Continue \<Rightarrow> (s, Inr Continues)
         | Pause \<Rightarrow>
             and_then (pause_now env t trace (idle_of env a) (decision_reason_text d))
               (\<lambda>_. answer (Inr (Pauses (idle_of env a)))) s
         | Migrate \<Rightarrow>
             (case destination_node a of
                None \<Rightarrow> (s, Inl (RuntimeError ''Selected migration has no destination''))
              | Some dst \<Rightarrow>
                  (case make_bid env (epoch_label env t trace) t task (case dict_get sb dst of None \<Rightarrow> 0 | Some b \<Rightarrow> b)
                          a (ranked_actions d) (local_id (fst s)) dst of
                     Inl e \<Rightarrow> (s, Inl e)
                   | Inr b \<Rightarrow> bid_and_migrate net mk env trace b s)))"

definition settle_now :: "scheduler_environment \<Rightarrow> task_id \<Rightarrow> datetime \<Rightarrow> 'd world \<Rightarrow> 'd world \<times> task_state result" where
  "settle_now env t trace =
     here (in_runtime (settle_task (sched_accounting env) (sched_wall env) trace (sched_written env) t))"

definition evaluate_locked ::
  "'d remote \<Rightarrow> 'd market \<Rightarrow> scheduler_environment \<Rightarrow> datetime \<Rightarrow> task_id \<Rightarrow> 'd world \<Rightarrow> 'd world \<times> epoch_outcome result" where
  "evaluate_locked net mk env trace t =
     and_then (settle_now env t trace)
     (\<lambda>_ s. case decision_inputs env t (fst s) of
         Inl e \<Rightarrow> (s, Inl e)
       | Inr inputs \<Rightarrow>
           and_then (here (\<lambda>n. decide_task env trace n inputs))
           (\<lambda>d. and_then (answer (decision_journal env t))
             (\<lambda>_. carry_out net mk env t trace (fst inputs) (fst (snd inputs)) d)) s)"

definition evaluate_one ::
  "'d remote \<Rightarrow> 'd market \<Rightarrow> scheduler_environment \<Rightarrow> datetime \<Rightarrow> task_id \<Rightarrow> 'd world \<Rightarrow> 'd world \<times> epoch_outcome result" where
  "evaluate_one net mk env trace t s =
     (case get_state (tasks (runtime_of (fst s))) t of
        Inl e \<Rightarrow> (s, Inl e)
      | Inr st \<Rightarrow>
          if owner_node_id st \<noteq> local_id (fst s) \<or> task_status st \<noteq> Running then (s, Inr Skipped)
          else evaluate_locked net mk env trace t s)"

section \<open>The epoch\<close>

text \<open>
  An exception of one task is printed; the loop goes on.  The results are the log of the epoch.  The
  epoch is one step: requests that the daemon serves while it awaits an answer are not interleaved.
\<close>

fun evaluate_tasks ::
  "'d remote \<Rightarrow> 'd market \<Rightarrow> scheduler_environment \<Rightarrow> datetime \<Rightarrow> task_id list \<Rightarrow> 'd world
     \<Rightarrow> 'd world \<times> epoch_outcome result list" where
  "evaluate_tasks net mk env trace [] s = (s, [])"
| "evaluate_tasks net mk env trace (t # ts) s =
     (let (s1, r) = evaluate_one net mk env trace t s;
          (s2, rs) = evaluate_tasks net mk env trace ts s1
      in (s2, r # rs))"

type_synonym announcement = "task_id \<times> int \<times> string option"

definition announcement_of :: "task_state \<Rightarrow> announcement" where
  "announcement_of st = (task_state.state_task_id st, generation st, manifest_sha256 (final_output st))"

definition completion_update :: "task_state \<Rightarrow> ownership_update" where
  "completion_update st =
     \<lparr>ou_task_id = task_state.state_task_id st, ou_owner = owner_node_id st, ou_generation = generation st,
      ou_migration_id = None, ou_migration_at = None, ou_artifact_digests = [], ou_status = Some Completed,
      ou_completed_at = completed_at (final_output st), ou_manifest_sha256 = manifest_sha256 (final_output st),
      ou_output_bytes = Some (output_bytes (final_output st)), ou_accounting = Some (accounting_snapshot st)\<rparr>"

fun announce_states ::
  "'d remote \<Rightarrow> migration_node \<Rightarrow> task_state list \<Rightarrow> announcement set \<Rightarrow> 'd \<Rightarrow> 'd \<times> announcement set" where
  "announce_states net n [] told d = (d, told)"
| "announce_states net n (st # sts) told d =
     (if owner_node_id st \<noteq> local_id n \<or> task_status st \<noteq> Completed \<or> announcement_of st \<in> told
      then announce_states net n sts told d
      else announce_states net n sts (insert (announcement_of st) told)
             (broadcast net (completion_update st) (policy_copy (task_state.state_task_id st) n) d))"

definition announce_completed ::
  "'d remote \<Rightarrow> announcement set \<Rightarrow> 'd world \<Rightarrow> 'd world \<times> announcement set result" where
  "announce_completed net told s =
     (case all_states (tasks (runtime_of (fst s))) of
        Inl e \<Rightarrow> (s, Inl e)
      | Inr sts \<Rightarrow> (let (d, told') = announce_states net (fst s) sts told (snd s) in ((fst s, d), Inr told')))"

definition run_epoch ::
  "'d remote \<Rightarrow> 'd market \<Rightarrow> scheduler_environment
     \<Rightarrow> (local_runtime \<Rightarrow> local_runtime \<times> reconcile_event list result) \<Rightarrow> announcement set \<Rightarrow> 'd world
     \<Rightarrow> ('d world \<times> announcement set) \<times> epoch_outcome result list result" where
  "run_epoch net mk env reconcile_processes told s =
     (case and_then (here (in_runtime reconcile_processes)) (\<lambda>_. announce_completed net told) s of
        (s1, Inl e) \<Rightarrow> ((s1, told), Inl e)
      | (s1, Inr told') \<Rightarrow>
          (case running_owned_task_ids (tasks (runtime_of (fst s1))) (local_id (fst s1)) of
             Inl e \<Rightarrow> ((s1, told'), Inl e)
           | Inr ids \<Rightarrow>
               if ids = [] then ((s1, told'), Inr [])
               else case clock_now (environment_clock (sched_accounting env)) (sched_wall env) of
                 Inl e \<Rightarrow> ((s1, told'), Inl e)
               | Inr trace \<Rightarrow> (let (s2, log) = evaluate_tasks net mk env trace ids s1 in ((s2, told'), Inr log))))"

section \<open>Requests of an operator\<close>

definition operator_guard :: "string \<Rightarrow> task_id \<Rightarrow> task_status \<Rightarrow> migration_node \<Rightarrow> task_state result" where
  "operator_guard verb t expected n =
     bind_result (get_state (tasks (runtime_of n)) t) (\<lambda>st.
       if owner_node_id st \<noteq> local_id n
       then Inl (RuntimeError (''Cannot '' @ verb @ '' '' @ t @ ''; owner is '' @ owner_node_id st))
       else if task_status st \<noteq> expected
       then Inl (RuntimeError (''Cannot '' @ verb @ '' '' @ t @ ''; status is '' @ status_name (task_status st)))
       else Inr st)"

definition requested_idle :: "scheduler_environment \<Rightarrow> real option \<Rightarrow> real result" where
  "requested_idle env idle =
     (let i = (case idle of None \<Rightarrow> idle_seconds (scoring_policy.pause (sched_policy env)) | Some x \<Rightarrow> x)
      in if i < 0 then Inl (ValueError ''idle_seconds must be non-negative'')
         else if max_pause_window_seconds (scoring_policy.pause (sched_policy env)) < i
         then Inl (ValueError ''idle_seconds exceeds max_pause_window_seconds'')
         else Inr i)"

definition request_pause ::
  "scheduler_environment \<Rightarrow> task_id \<Rightarrow> real option \<Rightarrow> string \<Rightarrow> 'd world \<Rightarrow> 'd world \<times> task_state result" where
  "request_pause env t idle reason s =
     (case bind_result (operator_guard ''pause'' t Running (fst s)) (\<lambda>_.
             bind_result (requested_idle env idle) (\<lambda>i.
             bind_result (clock_now (environment_clock (sched_accounting env)) (sched_wall env)) (\<lambda>trace. Inr (i, trace)))) of
        Inl e \<Rightarrow> (s, Inl e)
      | Inr (i, trace) \<Rightarrow> and_then (settle_now env t trace) (\<lambda>_. pause_now env t trace i reason) s)"

definition request_resume :: "scheduler_environment \<Rightarrow> task_id \<Rightarrow> 'd world \<Rightarrow> 'd world \<times> task_state result" where
  "request_resume env t s =
     (case bind_result (operator_guard ''resume'' t Paused (fst s)) (\<lambda>_.
             clock_now (environment_clock (sched_accounting env)) (sched_wall env)) of
        Inl e \<Rightarrow> (s, Inl e)
      | Inr trace \<Rightarrow> and_then (settle_now env t trace) (\<lambda>_. here (in_runtime (resume_task (resume_env_of env t) t))) s)"

datatype migration_answer =
    Already_There task_state
  | Bid_Refused bid_record
  | Migration_Done bid_record bool task_state

definition operator_destination :: "scheduler_environment \<Rightarrow> task_id \<Rightarrow> node_id \<Rightarrow> migration_node \<Rightarrow> unit result" where
  "operator_destination env t dst n =
     bind_result (get_node (sched_cluster env) dst) (\<lambda>nd.
       if dst = local_id n then Inl (ValueError ''Destination must differ from the local node'')
       else bind_result (get_definition (tasks (runtime_of n)) t) (\<lambda>d.
         if \<not> compatible (check_compatibility (compatibility (profile d)) (capabilities nd))
         then Inl (RuntimeError ''Incompatible migration destination'')
         else edges_fresh env {dst}))"

definition operator_candidate ::
  "scheduler_environment \<Rightarrow> task_id \<Rightarrow> node_id \<Rightarrow> migration_node \<Rightarrow> (datetime \<times> bid_request) result" where
  "operator_candidate env t dst n =
     bind_result (checkpoint_size env t (checkpoints n t)) (\<lambda>bytes.
     bind_result (scoring_profile (tasks (runtime_of n)) t (Some bytes)) (\<lambda>p.
       let task = enrich_profile env p
       in bind_result (missing_bytes env t dst) (\<lambda>missing.
          bind_result (clock_now (environment_clock (sched_accounting env)) (sched_wall env)) (\<lambda>trace.
          bind_result (evaluate_task task (sched_cluster env) (sched_policy env) (sched_telemetry env) (sched_forecaster env) trace
              (Some [(dst, missing)]) None 0 (Some {dst})) (\<lambda>(d, _).
          case find (\<lambda>a. action a = Migrate \<and> destination_node a = Some dst) (ranked_actions d) of
            None \<Rightarrow> Inl (RuntimeError (''No feasible migration candidate for '' @ t @ '' -> '' @ dst))
          | Some a \<Rightarrow>
              bind_result (make_bid env (''operator:'' @ epoch_label env t trace) t task missing a (ranked_actions d) (local_id n) dst)
                (\<lambda>b. Inr (trace, b)))))))"

definition request_migration ::
  "'d remote \<Rightarrow> 'd market \<Rightarrow> scheduler_environment \<Rightarrow> task_id \<Rightarrow> node_id \<Rightarrow> 'd world \<Rightarrow> 'd world \<times> migration_answer result" where
  "request_migration net mk env t dst s =
     (case get_state (tasks (runtime_of (fst s))) t of
        Inl e \<Rightarrow> (s, Inl e)
      | Inr st \<Rightarrow>
          if owner_node_id st = dst then (s, Inr (Already_There st))
          else case bind_result (operator_guard ''migrate'' t Running (fst s)) (\<lambda>_.
                 bind_result (operator_destination env t dst (fst s)) (\<lambda>_. operator_candidate env t dst (fst s))) of
            Inl e \<Rightarrow> (s, Inl e)
          | Inr (trace, b) \<Rightarrow>
              and_then (there (submit_and_wait mk (poll_budget env) b))
              (\<lambda>r. if bid_record.status r \<noteq> Accepted then answer (Inr (Bid_Refused r))
                   else and_then (migrate net (migration_env env t) t dst trace (bid_id r))
                     (\<lambda>ok s'. (s', bind_result (get_state (tasks (runtime_of (fst s'))) t) (\<lambda>st'. Inr (Migration_Done r ok st'))))) s)"

end
