(* ===== verification/Task_Locality.thy ===== *)
theory Task_Locality
  imports Migration_Laws Migration_Source
begin

text \<open>
  What an operation on one task leaves alone: every call of the runtime, of the services and of the
  migration that works on task \<open>t\<close> leaves the states of all other tasks, the definitions and the node
  as they were.  The rules are collected in \<open>locality\<close> and composed along \<open>and_then\<close>.
\<close>

named_theorems locality

section \<open>The runtime\<close>

definition keyed :: "local_runtime \<Rightarrow> bool" where
  "keyed rt \<longleftrightarrow> (\<forall>t st. get_state (tasks rt) t = Inr st \<longrightarrow> task_state.state_task_id st = t)"

definition local_to :: "task_id \<Rightarrow> local_runtime \<Rightarrow> local_runtime \<Rightarrow> bool" where
  "local_to t rt rt' \<longleftrightarrow> (keyed rt \<longrightarrow> keyed rt' \<and> others_same t rt rt')"

lemma runtime_inv_keyed: "runtime_inv rt \<Longrightarrow> keyed rt"
  using runtime_invD(1) by (auto simp: keyed_def)

lemma local_to_refl [locality, simp]: "local_to t rt rt"
  by (simp add: local_to_def)

lemma local_to_trans: "local_to t rt rt' \<Longrightarrow> local_to t rt' rt'' \<Longrightarrow> local_to t rt rt''"
  unfolding local_to_def using others_same_trans by blast

lemma local_to_cong: "tasks rt1 = tasks rt \<Longrightarrow> tasks rt2 = tasks rt' \<Longrightarrow> local_to t rt1 rt2 = local_to t rt rt'"
  by (simp add: local_to_def keyed_def others_same_def)

lemma local_to_same: "tasks rt' = tasks rt \<Longrightarrow> local_to t rt rt'"
  using local_to_cong [of rt rt rt' rt t] by simp

definition keeps_id :: "(task_state \<Rightarrow> task_state edit) \<Rightarrow> bool" where
  "keeps_id f \<longleftrightarrow> (\<forall>st st'. f st = Store st' \<longrightarrow> task_state.state_task_id st' = task_state.state_task_id st)"

lemma local_to_edit:
  assumes "keeps_id f"
  shows "local_to t rt (fst (on_tasks f w t rt))"
proof (cases "get_state (tasks rt) t")
  case (Inl e)
  then have "fst (on_tasks f w t rt) = rt" by (simp add: on_tasks_def run_edit_def)
  then show ?thesis by simp
next
  case (Inr st)
  show ?thesis
  proof (cases "f st")
    case (Store st1)
    have u: "on_tasks f w t rt = (rt\<lparr>tasks := write_state w st1 (tasks rt)\<rparr>, Inr (st1\<lparr>task_state.updated_at := w\<rparr>))"
      by (rule on_tasks_store [OF Inr]) (rule Store)
    have id: "task_state.state_task_id st1 = t" if "keyed rt"
      using assms Store that Inr by (auto simp: keeps_id_def keyed_def)
    have "keyed (fst (on_tasks f w t rt))" if k: "keyed rt"
      using k get_state_write [OF Inr id [OF k], of w] id [OF k] unfolding keyed_def u by (auto split: if_splits)
    moreover have "others_same t rt (fst (on_tasks f w t rt))" if "keyed rt"
      by (rule others_same_edit [OF Inr]) (use Store id that in simp)
    ultimately show ?thesis by (simp add: local_to_def)
  next
    case Keep
    then have "fst (on_tasks f w t rt) = rt" using Inr by (simp add: on_tasks_def run_edit_def)
    then show ?thesis by simp
  next
    case (Raise e)
    then have "fst (on_tasks f w t rt) = rt" using Inr by (simp add: on_tasks_def run_edit_def)
    then show ?thesis by simp
  qed
qed

lemma keeps_id [simp]:
  "keeps_id (record_accounting d)" "keeps_id (mark_failed m c now)" "keeps_id mark_stopped" "keeps_id (mark_migrating node m)"
  "keeps_id (mark_running node p a cmd b now)" "keeps_id (mark_resumed node now)" "keeps_id (mark_paused node t1 t2 t3 reason now)"
  "keeps_id (mark_recovery_exhausted m)" "keeps_id (mark_remote ow g m now)" "keeps_id (restore_local_after_failure node g m)"
  "keeps_id (claim_local node g m ds now acc)" "keeps_id (apply_ownership node u)" "keeps_id (set_artifact_digests ds)"
  by (auto simp: keeps_id_def record_accounting_def mark_failed_def mark_stopped_def mark_migrating_def mark_running_def
      mark_resumed_def mark_paused_def mark_recovery_exhausted_def mark_remote_def restore_local_after_failure_def
      claim_local_def apply_ownership_def set_artifact_digests_def Let_def split: if_splits option.splits)

lemma local_to_edit_after: "keeps_id f \<Longrightarrow> tasks rt1 = tasks rt \<Longrightarrow> local_to t rt (fst (on_tasks f w t rt1))"
  using local_to_edit [of f t rt1 w] local_to_cong [of rt rt1 "fst (on_tasks f w t rt1)" "fst (on_tasks f w t rt1)" t]
  by simp

lemma launch_local: "tasks rt1 = tasks rt \<Longrightarrow> local_to t rt (fst (launch t d plan p env now w rt1))"
  by (auto simp: launch_def Let_def kill_group_def local_to_edit_after split: sum.split)

lemmas local_steps = local_to_edit_after local_to_same launch_local

lemma stop_local [locality]: "local_to t rt (fst (stop_process t reaction w rt))"
  by (cases reaction; simp add: stop_process_def Let_def drop_handle_def kill_group_def local_steps split: sum.split option.split)

lemma start_local [locality]: "local_to t rt (fst (start t env now w rt))"
  by (simp add: start_def Let_def local_steps split: sum.split option.split prod.split)

lemma settle_local [locality]: "local_to t rt (fst (settle_task acc wall tt w t rt))"
  by (simp add: settle_task_def Let_def local_steps split: sum.split option.split prod.split)

lemma record_migration_local [locality]: "local_to t rt (fst (record_migration acc c edge p t dst b x tt w rt))"
  by (simp add: record_migration_def Let_def local_steps split: sum.split option.split)

lemma pause_local [locality]: "local_to t rt (fst (pause_task c t a i x wall found now w rt))"
  by (simp add: pause_task_def pause_process_def kill_group_def local_steps split: sum.split option.split)

lemma resume_local [locality]: "local_to t rt (fst (resume_process t now w rt))"
  by (simp add: resume_process_def local_steps split: sum.split option.split)

lemma resume_task_local [locality]: "local_to t rt (fst (resume_task env t rt))"
  unfolding resume_task_def
  by (auto simp: Let_def case_prod_unfold intro: local_to_trans [OF settle_local resume_local] settle_local resume_local
      split: sum.split option.split)

section \<open>The node\<close>

text \<open>The journal's record of the migration \<open>m\<close> is one of task \<open>t\<close>.\<close>

definition own_record :: "task_id \<Rightarrow> string \<Rightarrow> migration_node \<Rightarrow> bool" where
  "own_record t m n \<longleftrightarrow> keyed (runtime_of n)
   \<and> (\<forall>r. journal_get (journal n) m = Some r \<longrightarrow> mr_migration_id r = m \<and> mr_task_id r = t
        \<and> (\<forall>st. mr_original r = Some st \<longrightarrow> task_state.state_task_id st = t))"

definition confined :: "task_id \<Rightarrow> string \<Rightarrow> migration_node \<Rightarrow> migration_node \<Rightarrow> bool" where
  "confined t m n n' \<longleftrightarrow> (own_record t m n \<longrightarrow> own_record t m n' \<and> others_same t (runtime_of n) (runtime_of n'))"

lemma confined_refl [locality, simp]: "confined t m n n"
  by (simp add: confined_def)

lemma confined_trans: "confined t m n n' \<Longrightarrow> confined t m n' n'' \<Longrightarrow> confined t m n n''"
  unfolding confined_def using others_same_trans by blast

lemma confined_status [locality]: "confined t m n (set_status now m s p e n)"
  by (auto simp: confined_def own_record_def set_record_status_def put_record_def split: option.split)

lemma confined_runtime: "local_to t (runtime_of n) (runtime_of n') \<Longrightarrow> journal n' = journal n \<Longrightarrow> confined t m n n'"
  by (auto simp: confined_def own_record_def local_to_def)

lemma confined_in_runtime [locality]: "(\<And>rt. local_to t rt (fst (f rt))) \<Longrightarrow> confined t m n (fst (in_runtime f n))"
  by (auto simp: in_runtime_def case_prod_unfold Let_def intro!: confined_runtime)

lemma confined_edit [locality]: "keeps_id f \<Longrightarrow> confined t m n (fst (in_runtime (on_tasks f w t) n))"
  by (rule confined_in_runtime) (rule local_to_edit)

lemma confined_answer [locality]: "confined t m n (fst (answer r n))"
  by (simp add: answer_def)

lemma confined_and_then [locality]:
  assumes "confined t m n (fst (f n))" "\<And>x k. confined t m k (fst (g x k))"
  shows "confined t m n (fst (and_then f g n))"
  using assms unfolding and_then_def by (auto split: prod.split sum.split) (metis confined_trans fst_conv)

lemma confined_status_then:
  assumes "\<And>k. confined t m k (fst (f k))"
  shows "confined t m n (fst (f (set_status now m s p e n)))"
  by (rule confined_trans [OF confined_status assms])

text \<open>The same for the node within the world.\<close>

abbreviation held :: "task_id \<Rightarrow> string \<Rightarrow> 'd world \<Rightarrow> 'd world \<Rightarrow> bool" where
  "held t m s s' \<equiv> confined t m (fst s) (fst s')"

lemma held_and_then [locality]:
  assumes "held t m s (fst (f s))" "\<And>x k. held t m k (fst (g x k))"
  shows "held t m s (fst (and_then f g s))"
proof (cases "snd (f s)")
  case (Inl e)
  then show ?thesis using assms(1) by (simp add: and_then_def case_prod_unfold)
next
  case (Inr x)
  then have "fst (and_then f g s) = fst (g x (fst (f s)))" by (simp add: and_then_def case_prod_unfold)
  then show ?thesis using confined_trans [OF assms(1) assms(2)] by simp
qed

lemma held_here [locality]: "confined t m (fst s) (fst (f (fst s))) \<Longrightarrow> held t m s (fst (here f s))"
  by (simp add: here_def case_prod_unfold Let_def)

lemma held_there [locality]: "held t m s (fst (there f s))"
  by (simp add: there_def case_prod_unfold Let_def)

lemma held_answer [locality]: "held t m s (fst (answer r s))"
  by (simp add: answer_def)

lemma held_noted [locality]: "confined t m (fst s) (f (fst s)) \<Longrightarrow> held t m s (fst (noted f s))"
  by (simp add: noted_def)

section \<open>Migration\<close>

lemma confined_settlement:
  "confined t m n (fst (case settlement env of None \<Rightarrow> (n, Inr ())
      | Some acc \<Rightarrow> and_then (answer (settle_trace env)) (\<lambda>trace.
          and_then (in_runtime (settle_task acc (settle_wall env) trace now t)) (\<lambda>_. answer (Inr ()))) n))"
  by (auto split: option.split intro!: locality)

lemma quiesce_confined [locality]: "confined t (new_id env) n (fst (quiesce_source env t n))"
  unfolding quiesce_source_def
  by (intro confined_and_then confined_settlement confined_edit keeps_id
      confined_status_then [where f = "and_then (in_runtime (stop_process t (source_stop env) (migrate_now env))) (\<lambda>_. answer (Inr ()))"]
      confined_in_runtime stop_local confined_answer)

lemma restart_confined [locality]: "confined t m n (fst (restart_here env now t h n))"
proof -
  have s: "confined t m n (fst (in_runtime (start t env now now) n))" by (intro locality)
  show ?thesis unfolding restart_here_def
    by (auto simp: case_prod_unfold intro!: confined_trans [OF s] s confined_and_then confined_edit confined_answer split: sum.split)
qed

lemma give_back_confined [locality]: "confined t (new_id env) n (fst (give_back env t g stopped e n))"
  unfolding give_back_def Let_def
  by (cases stopped) (auto intro!: confined_and_then confined_answer confined_edit restart_confined confined_status)

lemma transfer_held [locality]: "held t m s (fst (transfer_phase net env t dst at_time missing s))"
  unfolding transfer_phase_def
  by (intro held_and_then) (auto intro!: held_and_then held_here held_there held_answer confined_in_runtime record_migration_local split: option.split)

lemma activation_held [locality]: "held t (new_id env) s (fst (activation_phase net env t dst at_time bid g bs s))"
  unfolding activation_phase_def
  by (auto split: sum.split intro!: held_and_then held_noted held_there held_answer confined_status)

lemma finalize_held [locality]: "held t m s (fst (finalize_source_success net t dst m g at_time bs now s))"
  unfolding finalize_source_success_def
  by (intro held_and_then) (auto split: sum.split intro!: held_and_then held_here held_noted held_there confined_edit confined_status)

lemma set_state_confined:
  "task_state.state_task_id st = t \<Longrightarrow> confined t m n (set_state now st n)"
proof -
  assume id: "task_state.state_task_id st = t"
  have "get_state (write_state now st reg) t' = (if t' = t then bind_result (get_definition reg t) (\<lambda>_. Inr (st\<lparr>task_state.updated_at := now\<rparr>))
      else get_state reg t')" for reg t'
    using id by (auto simp: get_state_def write_state_def get_definition_def split: option.split)
  then have "local_to t (runtime_of n) (runtime_of (set_state now st n))"
    using id by (auto simp: local_to_def keyed_def others_same_def set_state_def bind_result_Inr_iff write_state_def)
  then show ?thesis by (rule confined_runtime) simp
qed

lemma rollback_source_confined:
  assumes "own_record t m n" "journal_get (journal n) m = Some r"
  shows "confined t m n (fst (rollback_source_record env now r reason n))"
proof -
  have r: "mr_migration_id r = m" "mr_task_id r = t" "\<And>st. mr_original r = Some st \<Longrightarrow> task_state.state_task_id st = t"
    using assms by (auto simp: own_record_def)
  show ?thesis unfolding rollback_source_record_def r Let_def
    by (intro confined_and_then)
       (auto split: option.split sum.split intro!: set_state_confined confined_and_then confined_edit confined_answer restart_confined
          confined_status simp: restored_state_def r(3))
qed

lemma confined_if_own: "(own_record t m n \<Longrightarrow> confined t m n n') \<Longrightarrow> confined t m n n'"
  by (simp add: confined_def)

lemma resolve_held [locality]: "held t (new_id env) s (fst (resolve_unknown net env t dst at_time g bs e s))"
proof -
  let ?s1 = "(set_status (migrate_now env) (new_id env) Mig_Uncertain None (Some (describe_error e)) (fst s), snd s)"
  have first: "held t (new_id env) s ?s1" by (simp add: confined_status)
  have "held t (new_id env) ?s1 (fst (resolve_unknown net env t dst at_time g bs e s))"
  proof (cases "verdict_of (query_remote_outcome net (new_id env) (snd s))")
    case Committed
    then show ?thesis unfolding resolve_unknown_def Let_def
      by (simp del: fst_conv snd_conv) (intro held_and_then finalize_held held_answer)
  next
    case Refused
    show ?thesis
    proof (rule confined_if_own, cases "journal_get (journal (fst ?s1)) (new_id env)")
      case None
      then show "held t (new_id env) ?s1 (fst (resolve_unknown net env t dst at_time g bs e s))"
        using Refused by (simp add: resolve_unknown_def Let_def)
    next
      case (Some r)
      assume own: "own_record t (new_id env) (fst ?s1)"
      have "held t (new_id env) ?s1 (fst (and_then (here (rollback_source_record (restart_env env) (migrate_now env) r
          ''Destination confirmed activation did not commit'')) (\<lambda>_. answer (Inr False)) ?s1))"
        by (intro held_and_then held_here held_answer) (rule rollback_source_confined [OF own Some])
      then show "held t (new_id env) ?s1 (fst (resolve_unknown net env t dst at_time g bs e s))"
        using Refused Some by (simp add: resolve_unknown_def Let_def)
    qed
  next
    case Unknown_Outcome
    then show ?thesis unfolding resolve_unknown_def Let_def
      by (simp del: fst_conv snd_conv) (intro held_and_then held_here held_answer confined_edit keeps_id)
  qed
  with first show ?thesis by (rule confined_trans)
qed

lemma release_held: "held t m s (fst (release_reservation net env bid b sr)) = held t m s (fst sr)"
  by (simp add: release_reservation_def case_prod_unfold Let_def)

lemma after_activation_held [locality]: "held t (new_id env) s (fst (after_activation net env t dst at_time g bs s))"
  unfolding after_activation_def by (intro held_and_then held_answer finalize_held)

lemma migrate_prepared_held: "held t (new_id env) s (fst (migrate_prepared net env t dst at_time bid g missing bs s))"
proof -
  let ?q = "here (quiesce_source env t) s"
  let ?h = "and_then (transfer_phase net env t dst at_time missing)
                     (\<lambda>_. activation_phase net env t dst at_time bid (g + 1) bs) (fst ?q)"
  let ?f = "after_activation net env t dst at_time (g + 1) bs (fst ?h)"
  have q: "held t (new_id env) s (fst ?q)" by (intro held_here quiesce_confined)
  have h: "held t (new_id env) s (fst ?h)"
    by (rule confined_trans [OF q]) (intro held_and_then transfer_held activation_held)
  have f: "held t (new_id env) s (fst ?f)" by (rule confined_trans [OF h]) (rule after_activation_held)
  have gb: "held t (new_id env) s (fst (here (give_back env t g b e) k))" if "held t (new_id env) s k" for b e k
    using that by (rule confined_trans) (intro held_here give_back_confined)
  have r: "held t (new_id env) s (fst (resolve_unknown net env t dst at_time (g + 1) bs e k))" if "held t (new_id env) s k" for e k
    using that by (rule confined_trans) (rule resolve_held)
  show ?thesis
  proof (cases "snd ?q")
    case (Inl e)
    then show ?thesis using gb [OF q] by (simp add: migrate_prepared_def case_prod_unfold release_held)
  next
    case qi: (Inr u)
    show ?thesis
    proof (cases "snd ?h")
      case (Inl e)
      then show ?thesis using gb [OF h] r [OF h] qi by (simp add: migrate_prepared_def Let_def case_prod_unfold release_held)
    next
      case hi: (Inr v)
      show ?thesis
        using gb [OF f] f qi hi by (cases "snd ?f") (simp_all add: migrate_prepared_def Let_def case_prod_unfold)
    qed
  qed
qed

lemma migrate_local [locality]:
  "local_to t (runtime_of (fst s)) (runtime_of (fst (fst (migrate net env t dst at_time bid s))))"
  unfolding local_to_def
proof
  assume k: "keyed (runtime_of (fst s))"
  show "keyed (runtime_of (fst (fst (migrate net env t dst at_time bid s))))
    \<and> others_same t (runtime_of (fst s)) (runtime_of (fst (fst (migrate net env t dst at_time bid s))))"
  proof (cases "get_state (tasks (runtime_of (fst s))) t")
    case (Inl e)
    then show ?thesis using k by (simp add: migrate_def)
  next
    case (Inr st)
    let ?n1 = "(fst s)\<lparr>journal := put_record (migrate_now env)
                       (source_record env t dst at_time bid st (local_id (fst s))) (journal (fst s))\<rparr>"
    have own: "own_record t (new_id env) ?n1"
      using k Inr by (simp add: own_record_def put_record_def source_record_def keyed_def)
    show ?thesis
    proof (cases "owner_node_id st = local_id (fst s)")
      case False
      then show ?thesis using Inr k by (simp add: migrate_def)
    next
      case True
      show ?thesis
      proof (cases "prefetch_answer env")
        case (Inl e)
        then show ?thesis using Inr True k by (simp add: migrate_def Let_def release_reservation_def)
      next
        case p: (Inr mb)
        let ?r = "migrate_prepared net env t dst at_time bid (generation st) (fst mb) (snd mb) (?n1, snd s)"
        have "confined t (new_id env) ?n1 (fst (fst ?r))"
          using migrate_prepared_held [of t env "(?n1, snd s)" net dst at_time bid "generation st" "fst mb" "snd mb"] by simp
        then have "own_record t (new_id env) (fst (fst ?r))" "others_same t (runtime_of ?n1) (runtime_of (fst (fst ?r)))"
          using own by (simp_all only: confined_def)
        moreover have "migrate net env t dst at_time bid s = ?r"
          using Inr True p by (cases mb) (simp add: migrate_def Let_def)
        ultimately show ?thesis by (simp add: own_record_def)
      qed
    qed
  qed
qed

end
