(* ===== verification/Scheduler_Laws.thy ===== *)
theory Scheduler_Laws
  imports Scheduler_Service Task_Locality Evaluation_Claims
begin

text \<open>
  What an epoch promises: it works on the running tasks of the node only and on each from its own
  state, it migrates a task only after a justified decision and an accepted bid, and it announces a
  completion once.
\<close>

section \<open>One task\<close>

abbreviation runtime_in :: "'d world \<Rightarrow> local_runtime" where
  "runtime_in s \<equiv> runtime_of (fst s)"

lemma local_and_then:
  assumes "local_to t (runtime_in s) (runtime_in (fst (f s)))" "\<And>x k. local_to t (runtime_in k) (runtime_in (fst (g x k)))"
  shows "local_to t (runtime_in s) (runtime_in (fst (and_then f g s)))"
proof (cases "snd (f s)")
  case (Inl e)
  then show ?thesis using assms(1) by (simp add: and_then_def case_prod_unfold)
next
  case (Inr x)
  then have "fst (and_then f g s) = fst (g x (fst (f s)))" by (simp add: and_then_def case_prod_unfold)
  then show ?thesis using local_to_trans [OF assms(1) assms(2)] by simp
qed

lemma local_here_runtime:
  assumes "\<And>rt. local_to t rt (fst (f rt))"
  shows "local_to t (runtime_in s) (runtime_in (fst (here (in_runtime f) s)))"
  using assms by (simp add: here_def in_runtime_def case_prod_unfold Let_def)

lemma runtime_there [simp]: "runtime_in (fst (there f s)) = runtime_in s"
  by (simp add: there_def case_prod_unfold Let_def)

lemma runtime_answer [simp]: "runtime_in (fst (answer r s)) = runtime_in s"
  by (simp add: answer_def)

lemma runtime_decide [simp]: "runtime_in (fst (here (\<lambda>n. decide_task env trace n inputs) s)) = runtime_in s"
  by (simp add: here_def decide_task_def case_prod_unfold Let_def split: sum.split option.split)

lemma bid_and_migrate_local: "local_to (bid_task_id b) (runtime_in s) (runtime_in (fst (bid_and_migrate net mk env trace b s)))"
  unfolding bid_and_migrate_def
  by (intro local_and_then) (auto intro!: local_and_then migrate_local)

lemma make_bid_task:
  assumes "make_bid env label t task static best ranked source destination = Inr b"
  shows "bid_task_id b = t" "bid_destination b = destination" "candidate b = best" "bid_source b = source"
  using assms by (auto simp: make_bid_def validate_migration_candidate_def split: if_splits)

lemma carry_out_local: "local_to t (runtime_in s) (runtime_in (fst (carry_out net mk env t trace task sb d s)))"
proof -
  have "local_to t (runtime_in s) (runtime_in (fst (bid_and_migrate net mk env trace b s)))"
    if "make_bid env label t task static best ranked source destination = Inr b" for label static best ranked source destination b
    using bid_and_migrate_local [of b s] make_bid_task(1) [OF that] by simp
  moreover have "local_to t (runtime_in s) (runtime_in (fst (and_then (pause_now env t trace i x) (\<lambda>_. answer r) s)))" for i x r
    unfolding pause_now_def by (intro local_and_then local_here_runtime pause_local) simp
  ultimately show ?thesis
    by (auto simp: carry_out_def Let_def split: action_type.split option.split sum.split)
qed

lemma evaluate_locked_local: "local_to t (runtime_in s) (runtime_in (fst (evaluate_locked net mk env trace t s)))"
proof -
  have inner: "local_to t (runtime_in k) (runtime_in (fst (and_then (here (\<lambda>n. decide_task env trace n inputs))
           (\<lambda>d. and_then (answer (decision_journal env t))
             (\<lambda>_. carry_out net mk env t trace (fst inputs) (fst (snd inputs)) d)) k)))" for k inputs
    by (intro local_and_then carry_out_local) simp_all
  show ?thesis
    unfolding evaluate_locked_def settle_now_def
  proof (rule local_and_then, rule local_here_runtime, rule settle_local, goal_cases)
    case (1 x k)
    then show ?case using inner [of k] by (cases "decision_inputs env t (fst k)") simp_all
  qed
qed

lemma evaluate_one_local: "local_to t (runtime_in s) (runtime_in (fst (evaluate_one net mk env trace t s)))"
  by (auto simp: evaluate_one_def intro: evaluate_locked_local split: sum.split)

section \<open>The epoch\<close>

lemma evaluate_tasks_isolated:
  assumes "keyed (runtime_in s)" and "evaluate_tasks net mk env trace ids s = (s', rs)"
  shows "keyed (runtime_in s') \<and> length rs = length ids
    \<and> (\<forall>u. u \<notin> set ids \<longrightarrow> get_state (tasks (runtime_in s')) u = get_state (tasks (runtime_in s)) u)
    \<and> (distinct ids \<longrightarrow> (\<forall>i < length ids. \<exists>k. rs ! i = snd (evaluate_one net mk env trace (ids ! i) k)
         \<and> get_state (tasks (runtime_in k)) (ids ! i) = get_state (tasks (runtime_in s)) (ids ! i)))"
  using assms
proof (induction ids arbitrary: s rs)
  case (Cons t ts)
  obtain s1 r where one: "evaluate_one net mk env trace t s = (s1, r)" by fastforce
  obtain s2 rs' where tail: "evaluate_tasks net mk env trace ts s1 = (s2, rs')" by fastforce
  then have rest: "evaluate_tasks net mk env trace ts s1 = (s', rs')" "rs = r # rs'"
    using Cons.prems(2) one by auto
  have step: "keyed (runtime_in s1)" "others_same t (runtime_in s) (runtime_in s1)"
    using evaluate_one_local [of t s net mk env trace] Cons.prems(1) one by (auto simp: local_to_def)
  note IH = Cons.IH [OF step(1) rest(1)]
  have same: "get_state (tasks (runtime_in s1)) u = get_state (tasks (runtime_in s)) u" if "u \<noteq> t" for u
    using step(2) that by (simp add: others_same_def)
  have nth: "\<exists>k. rs ! i = snd (evaluate_one net mk env trace ((t # ts) ! i) k)
         \<and> get_state (tasks (runtime_in k)) ((t # ts) ! i) = get_state (tasks (runtime_in s)) ((t # ts) ! i)"
    if d: "distinct (t # ts)" and i: "i < length (t # ts)" for i
  proof (cases i)
    case 0
    then show ?thesis using one rest(2) by (metis nth_Cons_0 snd_conv)
  next
    case (Suc j)
    have "ts ! j \<noteq> t" using d i Suc by (auto simp: in_set_conv_nth)
    moreover obtain k where "rs' ! j = snd (evaluate_one net mk env trace (ts ! j) k)"
      "get_state (tasks (runtime_in k)) (ts ! j) = get_state (tasks (runtime_in s1)) (ts ! j)"
      using IH d i Suc by auto
    ultimately show ?thesis using Suc rest(2) same by (intro exI [of _ k]) simp
  qed
  show ?case using IH same rest(2) nth by auto
qed simp

section \<open>Decisions\<close>

lemma decide_task_evaluates:
  assumes "decide_task env trace n (task, sb, ds) = (n', Inr d)"
  shows "\<exists>out. evaluate_task task (sched_cluster env) (sched_policy env) (sched_telemetry env) (sched_forecaster env) trace
      (Some sb) (adaptive_state env n) (case power_confidence env task of None \<Rightarrow> 0 | Some x \<Rightarrow> x) (Some ds) = Inr (d, out)"
  using assms by (auto simp: decide_task_def split: sum.splits option.splits prod.splits)

text \<open>What led to the migration of a task: a checkpoint, a decision, a compatible destination, a bid.\<close>

definition justified_migration ::
  "'d market \<Rightarrow> scheduler_environment \<Rightarrow> datetime \<Rightarrow> task_id \<Rightarrow> 'd world \<Rightarrow> bool" where
  "justified_migration mk env trace t s \<longleftrightarrow> (\<exists>n task sb ds d out dst.
     decision_inputs env t n = Inr (task, sb, ds) \<and> is_ok (checkpoint_size env t (checkpoints n t))
   \<and> evaluate_task task (sched_cluster env) (sched_policy env) (sched_telemetry env) (sched_forecaster env) trace
       (Some sb) (adaptive_state env n) (case power_confidence env task of None \<Rightarrow> 0 | Some x \<Rightarrow> x) (Some ds) = Inr (d, out)
   \<and> action (selected d) = Migrate \<and> dst \<in> set (nodes (sched_cluster env)) \<and> destination_node (selected d) = Some (node_identity dst)
   \<and> node_identity dst \<noteq> local_id n \<and> compatible (check_compatibility (compatibility task) (capabilities dst))
   \<and> (\<exists>b r. validate_migration_candidate b = Inr b \<and> bid_task_id b = t \<and> candidate b = selected d \<and> bid_destination b = node_identity dst
        \<and> snd (submit_and_wait mk (poll_budget env) b (snd s)) = Inr r \<and> bid_record.status r = Accepted))"

lemma decision_inputs_destinations:
  assumes "decision_inputs env t n = Inr (task, sb, ds)" and "x \<in> ds"
  shows "is_ok (checkpoint_size env t (checkpoints n t))
    \<and> (\<exists>dst \<in> set (nodes (sched_cluster env)). node_identity dst = x \<and> x \<noteq> local_id n
         \<and> compatible (check_compatibility (compatibility task) (capabilities dst)))"
proof (cases "checkpoint_size env t (checkpoints n t)")
  case (Inl e)
  then show ?thesis using assms by (cases e) (auto simp: decision_inputs_def bind_result_Inr_iff Let_def)
next
  case (Inr b)
  then have "ds = compatible_destinations (sched_cluster env) (local_id n) task"
    using assms(1) by (auto simp: decision_inputs_def bind_result_Inr_iff Let_def)
  then show ?thesis using assms(2) Inr by (auto simp: compatible_destinations_def peers_def)
qed

lemma and_then_Inr:
  assumes "and_then f g s = (s', Inr y)"
  obtains s1 x where "f s = (s1, Inr x)" "g x s1 = (s', Inr y)"
  using assms by (auto simp: and_then_def split: prod.splits sum.splits)

lemma here_other: "here f s = (s', r) \<Longrightarrow> snd s' = snd s"
  by (auto simp: here_def case_prod_unfold Let_def)

lemma carry_out_migrates:
  assumes "carry_out net mk env t trace task sb d s = (s', Inr (Migrates ok))"
  obtains dst b r where "action (selected d) = Migrate" "destination_node (selected d) = Some dst"
    "validate_migration_candidate b = Inr b" "bid_task_id b = t" "candidate b = selected d" "bid_destination b = dst"
    "snd (submit_and_wait mk (poll_budget env) b (snd s)) = Inr r" "bid_record.status r = Accepted"
proof -
  have mig: "action (selected d) = Migrate"
    using assms by (auto simp: carry_out_def Let_def pause_now_def and_then_def answer_def
        split: action_type.splits prod.splits sum.splits)
  then obtain dst where dst: "destination_node (selected d) = Some dst"
    using assms by (auto simp: carry_out_def Let_def split: option.splits)
  obtain b where b: "make_bid env (epoch_label env t trace) t task (case dict_get sb dst of None \<Rightarrow> 0 | Some b \<Rightarrow> b)
        (selected d) (ranked_actions d) (local_id (fst s)) dst = Inr b"
    and go: "bid_and_migrate net mk env trace b s = (s', Inr (Migrates ok))"
    using assms mig dst by (auto simp: carry_out_def Let_def split: sum.splits)
  have v: "validate_migration_candidate b = Inr b"
    using b by (auto simp: make_bid_def validate_migration_candidate_def split: if_splits)
  obtain s1 r where sub: "there (submit_and_wait mk (poll_budget env) b) s = (s1, Inr r)"
    and next_step: "(if bid_record.status r = Accepted
            then and_then (migrate net (migration_env env (bid_task_id b)) (bid_task_id b) (bid_destination b) trace (bid_id r))
                   (\<lambda>ok. answer (Inr (Migrates ok)))
            else answer (Inr (Bid_Lost (bid_record.status r)))) s1 = (s', Inr (Migrates ok))"
    using go unfolding bid_and_migrate_def by (rule and_then_Inr)
  have "bid_record.status r = Accepted" using next_step by (auto simp: answer_def split: if_splits)
  moreover have "snd (submit_and_wait mk (poll_budget env) b (snd s)) = Inr r"
    using sub by (auto simp: there_def case_prod_unfold Let_def)
  ultimately show thesis using that [OF mig dst v make_bid_task(1,3,2) [OF b]] by blast
qed

lemma evaluate_one_justified:
  assumes "evaluate_one net mk env trace t s = (s', Inr (Migrates ok))"
  shows "(\<exists>st. get_state (tasks (runtime_in s)) t = Inr st \<and> owner_node_id st = local_id (fst s) \<and> task_status st = Running)
    \<and> justified_migration mk env trace t s"
proof -
  obtain st where st: "get_state (tasks (runtime_in s)) t = Inr st" "owner_node_id st = local_id (fst s)" "task_status st = Running"
    and ev: "evaluate_locked net mk env trace t s = (s', Inr (Migrates ok))"
    using assms by (auto simp: evaluate_one_def split: sum.splits if_splits)
  obtain s1 x where settle: "settle_now env t trace s = (s1, Inr x)" and
    rest: "(case decision_inputs env t (fst s1) of
         Inl e \<Rightarrow> (s1, Inl e)
       | Inr inputs \<Rightarrow>
           and_then (here (\<lambda>n. decide_task env trace n inputs))
           (\<lambda>d. and_then (answer (decision_journal env t))
             (\<lambda>_. carry_out net mk env t trace (fst inputs) (fst (snd inputs)) d)) s1) = (s', Inr (Migrates ok))"
    using ev unfolding evaluate_locked_def by (rule and_then_Inr)
  obtain task sb ds where inputs: "decision_inputs env t (fst s1) = Inr (task, sb, ds)"
    using rest by (auto split: sum.splits)
  obtain s2 d where dec: "here (\<lambda>n. decide_task env trace n (task, sb, ds)) s1 = (s2, Inr d)"
    and journal: "and_then (answer (decision_journal env t)) (\<lambda>_. carry_out net mk env t trace task sb d) s2 = (s', Inr (Migrates ok))"
    using rest inputs by (auto elim: and_then_Inr)
  obtain s3 y where "answer (decision_journal env t) s2 = (s3, Inr y)" and act: "carry_out net mk env t trace task sb d s3 = (s', Inr (Migrates ok))"
    using journal by (rule and_then_Inr)
  then have s3: "snd s3 = snd s"
    using here_other [OF dec] here_other [OF settle [unfolded settle_now_def]] by (simp add: answer_def)
  obtain out where eval: "evaluate_task task (sched_cluster env) (sched_policy env) (sched_telemetry env) (sched_forecaster env) trace
      (Some sb) (adaptive_state env (fst s1)) (case power_confidence env task of None \<Rightarrow> 0 | Some x \<Rightarrow> x) (Some ds) = Inr (d, out)"
    using decide_task_evaluates [of env trace "fst s1" task sb ds _ d] dec by (auto simp: here_def case_prod_unfold Let_def prod_eq_iff)
  obtain dst b r where bid: "action (selected d) = Migrate" "destination_node (selected d) = Some dst"
    "validate_migration_candidate b = Inr b" "bid_task_id b = t" "candidate b = selected d" "bid_destination b = dst"
    "snd (submit_and_wait mk (poll_budget env) b (snd s)) = Inr r" "bid_record.status r = Accepted"
    by (rule carry_out_migrates [OF act, unfolded s3])
  have "dst \<in> ds" using selected_destination [OF eval bid(1)] bid(2) by auto
  from decision_inputs_destinations [OF inputs this] obtain nd where nd: "nd \<in> set (nodes (sched_cluster env))" "node_identity nd = dst"
    "dst \<noteq> local_id (fst s1)" "compatible (check_compatibility (compatibility task) (capabilities nd))"
    "is_ok (checkpoint_size env t (checkpoints (fst s1) t))" by blast
  have "justified_migration mk env trace t s" unfolding justified_migration_def
    by (intro exI conjI, rule inputs, rule nd(5), rule eval, rule bid(1), rule nd(1))
       (use nd bid in \<open>auto\<close>)
  then show ?thesis using st by blast
qed

section \<open>Tasks without a checkpoint\<close>

lemma without_checkpoint_local:
  assumes "checkpoint_size env t (checkpoints (fst s) t) = Inl (CheckpointValidationError x)"
    and "evaluate_one net mk env trace t s = (s', r)"
  shows "snd s' = snd s \<and> (\<forall>ok. r \<noteq> Inr (Migrates ok)) \<and> (\<forall>b. r \<noteq> Inr (Bid_Lost b))"
proof -
  have stays: "snd (fst (carry_out net mk env t trace task sb d k)) = snd k
      \<and> (\<forall>ok. snd (carry_out net mk env t trace task sb d k) \<noteq> Inr (Migrates ok))
      \<and> (\<forall>b. snd (carry_out net mk env t trace task sb d k) \<noteq> Inr (Bid_Lost b))"
    if "action (selected d) \<noteq> Migrate" for task sb d k
    using that by (auto simp: carry_out_def pause_now_def and_then_def here_def answer_def Let_def case_prod_unfold
        split: action_type.split sum.split)
  define k where "k = fst (settle_now env t trace s)"
  have k: "snd k = snd s" "checkpoints (fst k) = checkpoints (fst s)"
    by (simp_all add: k_def settle_now_def here_def in_runtime_def case_prod_unfold Let_def)
  have rest: "snd (fst X) = snd s \<and> (\<forall>ok. snd X \<noteq> Inr (Migrates ok)) \<and> (\<forall>b. snd X \<noteq> Inr (Bid_Lost b))"
    if X: "X = (case decision_inputs env t (fst k) of
         Inl e \<Rightarrow> (k, Inl e)
       | Inr inputs \<Rightarrow>
           and_then (here (\<lambda>n. decide_task env trace n inputs))
           (\<lambda>d. and_then (answer (decision_journal env t))
             (\<lambda>_. carry_out net mk env t trace (fst inputs) (fst (snd inputs)) d)) k)" for X
  proof (cases "decision_inputs env t (fst k)")
    case (Inl e)
    then show ?thesis using X k by simp
  next
    case (Inr inputs)
    obtain task where i: "inputs = (task, [], {})"
      using Inr assms(1) k(2) by (auto simp: decision_inputs_def bind_result_Inr_iff Let_def)
    obtain n y where dec: "decide_task env trace (fst k) (task, [], {}) = (n, y)" by fastforce
    show ?thesis
    proof (cases y)
      case (Inl e)
      then show ?thesis using X Inr i dec k by (simp add: and_then_def here_def)
    next
      case d: (Inr d)
      have "action (selected d) \<noteq> Migrate"
        using decide_task_evaluates [of env trace "fst k" task "[]" "{}" n d] dec d selected_destination by fastforce
      then show ?thesis using X Inr i dec d k stays [of d task "[]" "(n, snd k)"]
        by (cases "decision_journal env t") (simp_all add: and_then_def here_def answer_def)
    qed
  qed
  show ?thesis
  proof (cases "get_state (tasks (runtime_in s)) t")
    case (Inl e)
    then show ?thesis using assms(2) by (auto simp: evaluate_one_def)
  next
    case (Inr st)
    show ?thesis
    proof (cases "owner_node_id st \<noteq> local_id (fst s) \<or> task_status st \<noteq> Running")
      case True
      then show ?thesis using assms(2) Inr by (auto simp: evaluate_one_def)
    next
      case False
      then have go: "evaluate_locked net mk env trace t s = (s', r)" using assms(2) Inr by (simp add: evaluate_one_def)
      show ?thesis
      proof (cases "snd (settle_now env t trace s)")
        case (Inl e)
        then have "s' = k" "r = Inl e" using go by (simp_all add: evaluate_locked_def and_then_def case_prod_unfold k_def)
        then show ?thesis using k(1) by simp
      next
        case (Inr x)
        then have "settle_now env t trace s = (k, Inr x)" by (simp add: k_def prod_eq_iff)
        then show ?thesis using go rest [of "(s', r)"]
          unfolding evaluate_locked_def and_then_def [of "settle_now env t trace"] by (simp del: split_paired_All)
      qed
    qed
  qed
qed

section \<open>Announcements\<close>

text \<open>What a pass has to announce: the completed tasks of the node that have not been announced yet.\<close>

definition unannounced :: "announcement set \<Rightarrow> migration_node \<Rightarrow> task_state list \<Rightarrow> task_state list" where
  "unannounced told n = filter (\<lambda>st. owner_node_id st = local_id n \<and> task_status st = Completed \<and> announcement_of st \<notin> told)"

lemma announce_states_exact:
  assumes "distinct (map task_state.state_task_id sts)"
  shows "announce_states net n sts told d =
    (fold (\<lambda>st. broadcast net (completion_update st) (policy_copy (task_state.state_task_id st) n)) (unannounced told n sts) d,
     told \<union> announcement_of ` set (unannounced told n sts))"
  using assms
proof (induction sts arbitrary: told d)
  case (Cons st sts)
  have "announcement_of st' \<noteq> announcement_of st" if "st' \<in> set sts" for st'
    using Cons.prems that by (auto simp: announcement_of_def image_iff)
  then have "unannounced (insert (announcement_of st) told) n sts = unannounced told n sts"
    unfolding unannounced_def by (intro filter_cong) auto
  then show ?case using Cons by (auto simp: unannounced_def)
qed (simp add: unannounced_def)

lemma announce_states_quiet:
  assumes "\<forall>st \<in> set sts. owner_node_id st = local_id n \<longrightarrow> task_status st = Completed \<longrightarrow> announcement_of st \<in> told"
  shows "announce_states net n sts told d = (d, told)"
  using assms by (induction sts) auto

section \<open>A migration that reports success\<close>

definition owned_by :: "task_id \<Rightarrow> node_id \<Rightarrow> 'd world \<Rightarrow> bool" where
  "owned_by t dst s \<longleftrightarrow> (\<exists>st. get_state (tasks (runtime_in s)) t = Inr st \<and> owner_node_id st = dst)"

lemma finalize_owner:
  assumes "keyed (runtime_in s)" and "finalize_source_success net t dst m g at_time bs now s = (s', Inr u)"
  shows "owned_by t dst s'"
proof -
  let ?f = "mark_remote dst g m at_time"
  obtain st where st: "get_state (tasks (runtime_in s)) t = Inr st"
    using assms(2) by (cases "get_state (tasks (runtime_in s)) t")
      (auto simp: finalize_source_success_def and_then_def here_def in_runtime_def on_tasks_def run_edit_def)
  have rt: "runtime_in s' = fst (on_tasks ?f now t (runtime_in s))"
    using assms(2) by (auto simp: finalize_source_success_def and_then_def here_def there_def noted_def in_runtime_def
        case_prod_unfold Let_def split: sum.splits)
  show ?thesis
  proof (cases "?f st")
    case (Store st1)
    have id: "task_state.state_task_id st1 = t" and own: "owner_node_id st1 = dst"
      using Store st assms(1) by (auto simp: mark_remote_def keyed_def split: if_splits)
    have u: "on_tasks ?f now t (runtime_in s) = ((runtime_in s)\<lparr>tasks := write_state now st1 (tasks (runtime_in s))\<rparr>,
        Inr (st1\<lparr>task_state.updated_at := now\<rparr>))"
      by (rule on_tasks_store [OF st]) (rule Store)
    show ?thesis using get_state_write [OF st id, of now t] own by (simp add: owned_by_def rt u)
  next
    case Keep
    then show ?thesis using st by (auto simp: owned_by_def rt mark_remote_def on_tasks_def run_edit_def split: if_splits)
  qed (use st in \<open>simp add: mark_remote_def split: if_splits\<close>)
qed

lemma resolve_owner:
  assumes "own_record t (new_id env) (fst s)" and "resolve_unknown net env t dst at_time g bs e s = (s', Inr True)"
  shows "owned_by t dst s'"
proof -
  let ?s1 = "(set_status (migrate_now env) (new_id env) Mig_Uncertain None (Some (describe_error e)) (fst s), snd s)"
  have k: "keyed (runtime_in ?s1)" using assms(1) by (simp add: own_record_def)
  have "verdict_of (query_remote_outcome net (new_id env) (snd s)) = Committed"
    using assms(2) by (auto simp: resolve_unknown_def Let_def answer_def elim!: and_then_Inr
        split: remote_verdict.splits option.splits)
  then have "and_then (finalize_source_success net t dst (new_id env) g at_time bs (migrate_now env)) (\<lambda>_. answer (Inr True)) ?s1
      = (s', Inr True)" using assms(2) by (simp add: resolve_unknown_def Let_def)
  then show ?thesis by (rule and_then_Inr) (use finalize_owner [OF k] in \<open>auto simp: answer_def\<close>)
qed

lemma release_runtime: "release_reservation net env bid b sr = (s', r) \<Longrightarrow> fst s' = fst (fst sr) \<and> r = snd sr"
  by (auto simp: release_reservation_def case_prod_unfold Let_def split: if_splits)

lemma give_back_refuses: "snd (here (give_back env t g b e) s) \<noteq> Inr True"
  by (auto simp: give_back_def and_then_def answer_def here_def Let_def split: sum.splits prod.splits)

lemma released_give_back: "release_reservation net env bid c (here (give_back env t g b e) s) \<noteq> (s', Inr True)"
  using give_back_refuses [of env t g b e s] release_runtime [of net env bid c "here (give_back env t g b e) s" s' "Inr True"]
  by auto

lemma migrate_prepared_owner:
  assumes own: "own_record t (new_id env) (fst s)"
    and s: "migrate_prepared net env t dst at_time bid g missing bs s = (s', Inr True)"
  shows "owned_by t dst s'"
proof -
  obtain s1 x where q: "here (quiesce_source env t) s = (s1, x)" by fastforce
  have own1: "own_record t (new_id env) (fst s1)"
    using held_here [where f = "quiesce_source env t" and s = s, OF quiesce_confined] own q by (simp add: confined_def)
  obtain u where x: "x = Inr u"
    using s q by (cases x) (simp_all add: migrate_prepared_def released_give_back)
  let ?h = "and_then (transfer_phase net env t dst at_time missing) (\<lambda>_. activation_phase net env t dst at_time bid (g + 1) bs)"
  obtain s2 y where h: "?h s1 = (s2, y)" by fastforce
  have "held t (new_id env) s1 (fst (?h s1))" by (intro held_and_then transfer_held activation_held)
  then have own2: "own_record t (new_id env) (fst s2)" using own1 h by (simp add: confined_def)
  show ?thesis
  proof (cases y)
    case (Inl e)
    have unknown: "is_unknown_outcome e"
      using s q x h Inl by (cases "is_unknown_outcome e") (simp_all add: migrate_prepared_def Let_def released_give_back)
    obtain s3 r where res: "resolve_unknown net env t dst at_time (g + 1) bs e s2 = (s3, r)" by fastforce
    then obtain c where "release_reservation net env bid c (s3, r) = (s', Inr True)"
      using s q x h Inl unknown by (auto simp: migrate_prepared_def Let_def)
    from release_runtime [OF this] have "fst s' = fst s3" "r = Inr True" by simp_all
    then show ?thesis using resolve_owner [OF own2, of net dst at_time "g + 1" bs e s3] res by (simp add: owned_by_def)
  next
    case (Inr v)
    obtain s3 z where f: "after_activation net env t dst at_time (g + 1) bs s2 = (s3, z)" by fastforce
    have "s3 = s' \<and> is_ok z"
    proof (cases z)
      case (Inl e)
      then show ?thesis using s q x h Inr f give_back_refuses [of env t g True e s3]
        by (simp add: migrate_prepared_def Let_def)
    next
      case Inr': (Inr w)
      then show ?thesis using s q x h Inr f by (simp add: migrate_prepared_def Let_def is_ok_Inr)
    qed
    then have "after_activation net env t dst at_time (g + 1) bs s2 = (s', z)" "is_ok z" using f by simp_all
    then obtain w where "finalize_source_success net t dst (new_id env) (g + 1) at_time bs (migrate_now env) s2 = (s', Inr w)"
      by (auto simp: after_activation_def is_ok_Inr answer_def elim!: and_then_Inr)
    moreover have "keyed (runtime_in s2)" using own2 by (simp add: own_record_def)
    ultimately show ?thesis by (blast intro: finalize_owner)
  qed
qed

lemma migrate_owner:
  assumes "keyed (runtime_in s)" and "migrate net env t dst at_time bid s = (s', Inr True)"
  shows "owned_by t dst s'"
proof -
  obtain st where st: "get_state (tasks (runtime_in s)) t = Inr st" "owner_node_id st = local_id (fst s)"
    using assms(2) by (auto simp: migrate_def split: sum.splits if_splits)
  let ?n1 = "(fst s)\<lparr>journal := put_record (migrate_now env)
                       (source_record env t dst at_time bid st (local_id (fst s))) (journal (fst s))\<rparr>"
  have own: "own_record t (new_id env) (fst (?n1, snd s))"
    using assms(1) st(1) by (simp add: own_record_def put_record_def source_record_def keyed_def)
  obtain mb where "prefetch_answer env = Inr mb"
    using assms(2) st release_runtime by (cases "prefetch_answer env") (fastforce simp: migrate_def Let_def)+
  then have "migrate_prepared net env t dst at_time bid (generation st) (fst mb) (snd mb) (?n1, snd s) = (s', Inr True)"
    using assms(2) st by (simp add: migrate_def Let_def case_prod_unfold)
  then show ?thesis by (rule migrate_prepared_owner [OF own])
qed

end
