(* ===== verification/Scheduler_Claims.thy ===== *)
theory Scheduler_Claims
  imports Scheduler_Laws Migration_Claims
begin

text \<open>The claims about the scheduler loop and the requests of an operator, with a node that runs an epoch.\<close>

section \<open>A concrete epoch\<close>

definition granted :: "bid_request \<Rightarrow> bid_record" where
  "granted b = \<lparr>bid_id = bid_id b, epoch_id = epoch_id b, bid_task_id = bid_task_id b, task_context = task_context b,
     bid_source = bid_source b, bid_destination = bid_destination b, candidate = candidate b, submitted_at = submitted_at b,
     status = Accepted, received_at = 80, decided_at = Some 80, bid_decision_reason = None,
     reservation_expires_at = Some 185, activation_started_at = None, consumed_at = None, bid_strategy = None,
     auction_rank = None, auction_credit_before = 0, auction_credit_after = 0, resource_fit = None,
     compatibility_fit = None, compatibility_notes = [], auction_metrics = None\<rparr>"

definition demo_market :: "'d market" where
  "demo_market = \<lparr>post_bid = (\<lambda>b d. (d, Inr (granted b))), read_bid = (\<lambda>i d. (d, Inl (KeyError i)))\<rparr>"

definition demo_epoch :: "int result \<Rightarrow> scheduler_environment" where
  "demo_epoch checkpoint = \<lparr>sched_cluster = example_cluster, sched_policy = example_scoring, sched_telemetry = None,
     sched_forecaster = example_forecaster, sched_accounting = demo_accounting, sched_adaptive = None,
     checkpoint_size = (\<lambda>_ _. checkpoint), enrich_profile = (\<lambda>_. example_mover), edges_fresh = (\<lambda>_. Inr ()),
     missing_bytes = (\<lambda>_ _. Inr 0), power_confidence = (\<lambda>_. None), decision_journal = (\<lambda>_. Inr ()),
     new_bid = (\<lambda>_. ''bid-1''), epoch_label = (\<lambda>_ _. ''e''), sched_wall = 80, sched_written = 80,
     group_found = (\<lambda>_. True), poll_budget = 1, migration_env = (\<lambda>_. demo_migrate (Inr ())),
     resume_env_of = (\<lambda>_. \<lparr>accounted = None, check_wall = 80, resume_wall = 80, resume_now = 80, resume_written = 80\<rparr>)\<rparr>"

lemma demo_build:
  "build_raw_actions example_mover example_cluster example_scoring None example_forecaster 80 (Some [(''b'', 0)]) (Some {''b''}) =
    Inr [example_local Continue 600 None, example_local Pause 660 (Some 60), example_move]"
  by (simp add: build_raw_actions_def example_simps get_node_def estimate_continue_def estimate_pause_def
      compute_seconds_def carbon_of_def seconds_to_hours_def idle_candidates_def fallback_estimate_def
      peers_def migrate_to_def graph_edge_def configured_edge_def get_edge_override_def haversine_self
      estimate_migrate_def transfer_duration_def transfer_seconds_def transfer_bytes_def static_override_def
      migration_timing_of_def migration_estimate_def network_energy_kwh_def bytes_to_gb_def dict_get_Cons
      over_cost_cap_def example_local_def example_move_def)

lemma demo_decision:
  "\<exists>d. evaluate_task example_mover example_cluster example_scoring None example_forecaster 80 (Some [(''b'', 0)]) None 0 (Some {''b''})
      = Inr (d, None) \<and> selected d = hd example_ranking \<and> ranked_actions d = example_ranking"
proof -
  have "\<exists>d. choose_action example_mover example_ranking example_scoring 80 = Inr d \<and> selected d = hd example_ranking
      \<and> ranked_actions d = example_ranking"
    by (simp add: choose_action_def Let_def is_local_def example_ranking_def
        min_by_def example_move_def example_local_def example_simps gap_elapsed_def relative_improvement_def)
  then show ?thesis by (auto simp: evaluate_task_def demo_build example_ranked)
qed

lemma demo_settled:
  obtains n x st where "\<And>d :: 'd. settle_now (demo_epoch c) ''t'' 80 (demo_source, d) = ((n, d), Inr x)"
    "leaving (demo_migrate (Inr ())) ''t'' n st" "resettled (demo_state Running (Some 42)) st" "runtime_only demo_source n"
    "get_definition (tasks (runtime_of n)) ''t'' = Inr sample_definition"
proof -
  let ?n = "demo_source" and ?st = "demo_state Running (Some 42)"
  have L: "runtime_inv (runtime_of ?n)" "get_state (tasks (runtime_of ?n)) ''t'' = Inr ?st"
    using demo_leaving by (simp_all add: leaving_def)
  have d: "get_definition (tasks (runtime_of ?n)) ''t'' = Inr sample_definition" by (simp add: demo_source_def)
  have src: "settlement_sources demo_accounting ''t'' sample_definition"
    by (simp add: settlement_sources_def demo_accounting_def sample_definition_def sample_runtime_def)
  obtain n x where go: "in_runtime (settle_task demo_accounting 80 80 80 ''t'') ?n = (n, Inr x)" "runtime_inv (runtime_of n)"
    "others_same ''t'' (runtime_of ?n) (runtime_of n)" "runtime_only ?n n"
    "\<exists>st. get_state (tasks (runtime_of n)) ''t'' = Inr st \<and> resettled ?st st"
    by (rule settle_before [OF L d src, of 80 80 80])
  then obtain st where st: "get_state (tasks (runtime_of n)) ''t'' = Inr st" "resettled ?st st" by blast
  have same: "local_id n = ''a''" "get_definition (tasks (runtime_of n)) ''t'' = Inr sample_definition"
    using go(3) d demo_facts(6) by (simp_all add: others_same_def local_id_def runtime_node_def get_definition_def)
  have "leaving (demo_migrate (Inr ())) ''t'' n st"
    using go(2) st same by (simp add: leaving_def resettledD [OF st(2)] demo_state_ok demo_migrate_def settlement_answers_def)
  moreover have "settle_now (demo_epoch c) ''t'' 80 (?n, d) = ((n, d), Inr x)" for d :: 'd
    using go(1) by (simp add: settle_now_def demo_epoch_def here_def)
  ultimately show thesis using that st(2) go(4) same(2) by blast
qed

lemma demo_inputs:
  assumes "runtime_only demo_source n" and "local_id n = ''a''"
    and "get_definition (tasks (runtime_of n)) ''t'' = Inr sample_definition" and "get_state (tasks (runtime_of n)) ''t'' = Inr st"
  shows "decision_inputs (demo_epoch (Inr 0)) ''t'' n = Inr (example_mover, [(''b'', 0)], {''b''})"
proof -
  have peer: "peers example_cluster ''a'' = [example_node ''b'' 0]" by (simp add: peers_def example_cluster_def example_node_def)
  have "compatible_destinations example_cluster ''a'' example_mover = {''b''}"
    by (simp add: compatible_destinations_def peer check_compatibility_iff example_mover_def example_task_def)
       (simp add: example_node_def)
  then show ?thesis using assms
    by (simp add: decision_inputs_def demo_epoch_def scoring_profile_def Let_def peer) (simp add: example_node_def)
qed

text \<open>The epoch of the source: it settles, decides to migrate, wins the bid and hands the task over.\<close>

lemma demo_epoch_migrates:
  "\<exists>s'. evaluate_one (node_remote demo_network) demo_market (demo_epoch (Inr 0)) 80 ''t'' (demo_source, demo_destination)
    = (s', Inr (Migrates True))"
proof -
  let ?E = "demo_epoch (Inr 0)" and ?D = demo_destination
  obtain n x st where n: "\<And>d :: migration_node. settle_now ?E ''t'' 80 (demo_source, d) = ((n, d), Inr x)"
    "leaving (demo_migrate (Inr ())) ''t'' n st" "resettled (demo_state Running (Some 42)) st" "runtime_only demo_source n"
    "get_definition (tasks (runtime_of n)) ''t'' = Inr sample_definition"
    by (rule demo_settled [where 'd = migration_node and c = "Inr 0"]) blast
  have own: "get_state (tasks (runtime_of n)) ''t'' = Inr st" "owner_node_id st = local_id n" "generation st = 0"
    using n(2) demo_facts(2) by (simp_all add: leaving_def resettledD [OF n(3)])
  have keep: "checkpoints n = checkpoints demo_source" "policies n = None"
    using arg_cong [OF n(4) [unfolded runtime_only_def], of checkpoints] arg_cong [OF n(4) [unfolded runtime_only_def], of policies]
    by (simp_all add: demo_source_def)
  have id: "local_id n = ''a''" using own(2) by (simp add: resettledD [OF n(3)] demo_state_ok)
  obtain d where d: "evaluate_task example_mover example_cluster example_scoring None example_forecaster 80 (Some [(''b'', 0)]) None 0 (Some {''b''})
      = Inr (d, None)" "selected d = hd example_ranking" "ranked_actions d = example_ranking" using demo_decision by blast
  obtain n' d' where go: "migrate (node_remote demo_network) (demo_migrate (Inr ())) ''t'' ''b'' 80 ''bid-1'' (n, ?D) = ((n', d'), Inr True)"
    using migrate_succeeds [OF n(2) demo_facts(1) _ demo_awaits demo_sane demo_receives [folded id] _ demo_facts(4,5)] own keep demo_facts(3)
    by (auto simp: demo_migrate_def)
  have decided: "decide_task ?E 80 n (example_mover, [(''b'', 0)], {''b''}) = (n, Inr d)"
    using d(1) keep by (simp add: decide_task_def demo_epoch_def adaptive_state_def)
  have "carry_out (node_remote demo_network) demo_market ?E ''t'' 80 example_mover [(''b'', 0)] d (n, ?D) = ((n', d'), Inr (Migrates True))"
    using go by (simp add: carry_out_def d(2,3) example_ranking_def scored_of_def example_move_def raw_action_estimate.defs Let_def
        make_bid_def validate_migration_candidate_def id bid_and_migrate_def and_then_def answer_def there_def submit_and_wait_def
        demo_market_def granted_def demo_epoch_def)
  then have "evaluate_locked (node_remote demo_network) demo_market ?E 80 ''t'' (demo_source, ?D) = ((n', d'), Inr (Migrates True))"
    using n(1) demo_inputs [OF n(4) id n(5) own(1)] decided
    by (simp add: evaluate_locked_def and_then_def here_def answer_def) (simp add: demo_epoch_def)
  moreover have "get_state (tasks (runtime_of demo_source)) ''t'' = Inr (demo_state Running (Some 42))"
    using demo_leaving by (simp add: leaving_def)
  ultimately show ?thesis by (simp add: evaluate_one_def demo_state_ok) (metis demo_facts(6))
qed

definition demo_finished :: migration_node where
  "demo_finished = demo_source\<lparr>runtime_of := demo_node (demo_state Completed None) {} {}\<rparr>"

section \<open>The claims\<close>

text \<open>
  C8. Tasks of an epoch are isolated: every task gets its evaluation, from the state it had when the
  epoch began, whatever exception the evaluation of another raised, and tasks outside the epoch's
  list keep their states.
\<close>

theorem epoch_isolates_tasks:
  assumes "runtime_inv (runtime_of (fst s))" and "distinct ids" and "evaluate_tasks net mk env trace ids s = (s', outcomes)"
  shows "length outcomes = length ids
    \<and> (\<forall>u. u \<notin> set ids \<longrightarrow> get_state (tasks (runtime_of (fst s'))) u = get_state (tasks (runtime_of (fst s))) u)
    \<and> (\<forall>i < length ids. \<exists>k. outcomes ! i = snd (evaluate_one net mk env trace (ids ! i) k)
         \<and> get_state (tasks (runtime_of (fst k))) (ids ! i) = get_state (tasks (runtime_of (fst s))) (ids ! i))"
  using evaluate_tasks_isolated [OF runtime_inv_keyed [OF assms(1)] assms(3)] assms(2) by blast

lemma demo_source_inv: "runtime_inv (runtime_of demo_source)"
  using demo_leaving by (simp add: leaving_def)

lemma demo_unknown: "evaluate_one net mk env trace ''u'' (demo_source, d)
    = ((demo_source, d), Inl (KeyError ''Unknown Magellan task definition: u''))"
  by (simp add: evaluate_one_def demo_source_def)

theorem epoch_isolates_tasks_witness:
  "\<exists>s' outcomes. evaluate_tasks (node_remote demo_network) demo_market (demo_epoch (Inr 0)) 80 [''u'', ''t''] (demo_source, demo_destination)
      = (s', outcomes) \<and> length outcomes = 2 \<and> outcomes ! 0 = Inl (KeyError ''Unknown Magellan task definition: u'') \<and> outcomes ! 1 = Inr (Migrates True)"
proof -
  obtain k where k: "evaluate_one (node_remote demo_network) demo_market (demo_epoch (Inr 0)) 80 ''t'' (demo_source, demo_destination)
    = (k, Inr (Migrates True))" using demo_epoch_migrates by blast
  then have go: "evaluate_tasks (node_remote demo_network) demo_market (demo_epoch (Inr 0)) 80 [''u'', ''t''] (demo_source, demo_destination)
      = (k, [Inl (KeyError ''Unknown Magellan task definition: u''), Inr (Migrates True)])" by (simp add: demo_unknown)
  have "length [Inl (KeyError ''Unknown Magellan task definition: u''), Inr (Migrates True)] = length [''u'', ''t'']"
    using epoch_isolates_tasks [OF _ _ go] demo_source_inv by simp
  then show ?thesis using go by simp
qed

text \<open>
  C7. The scheduler migrates only what is justified: an epoch that migrates a task has found it
  running here, a checkpoint of it valid, the migration selected by the evaluation of its profile,
  the destination another node of the cluster that satisfies the task's requirements, and the bid
  for exactly that move accepted.
\<close>

theorem scheduler_migrates_only_when_justified:
  assumes "evaluate_one net mk env trace t s = (s', Inr (Migrates ok))"
  shows "(\<exists>st. get_state (tasks (runtime_of (fst s))) t = Inr st \<and> owner_node_id st = local_id (fst s) \<and> task_status st = Running)
    \<and> justified_migration mk env trace t s"
  by (rule evaluate_one_justified [OF assms])

theorem scheduler_migrates_only_when_justified_witness:
  "justified_migration demo_market (demo_epoch (Inr 0)) 80 ''t'' (demo_source, demo_destination)"
proof -
  obtain s' where "evaluate_one (node_remote demo_network) demo_market (demo_epoch (Inr 0)) 80 ''t'' (demo_source, demo_destination)
    = (s', Inr (Migrates True))" using demo_epoch_migrates by blast
  from scheduler_migrates_only_when_justified [OF this] show ?thesis by blast
qed

text \<open>
  A task without a valid checkpoint stays: its evaluation sends nothing to another node, submits
  no bid and migrates nothing; it continues, pauses, is skipped or raises.
\<close>

theorem task_without_checkpoint_stays_local:
  assumes "checkpoint_size env t (checkpoints (fst s) t) = Inl (CheckpointValidationError x)"
    and "evaluate_one net mk env trace t s = (s', r)"
  shows "snd s' = snd s \<and> (\<forall>ok. r \<noteq> Inr (Migrates ok)) \<and> (\<forall>b. r \<noteq> Inr (Bid_Lost b))"
  by (rule without_checkpoint_local [OF assms])

theorem task_without_checkpoint_stays_local_witness:
  "\<exists>s' r. evaluate_one (node_remote demo_network) demo_market (demo_epoch (Inl (CheckpointValidationError ''torn''))) 80 ''t''
      (demo_source, demo_destination) = (s', r) \<and> snd s' = demo_destination"
proof -
  obtain s' r where go: "evaluate_one (node_remote demo_network) demo_market (demo_epoch (Inl (CheckpointValidationError ''torn''))) 80 ''t''
      (demo_source, demo_destination) = (s', r)" by fastforce
  have "checkpoint_size (demo_epoch (Inl (CheckpointValidationError ''torn''))) ''t'' (checkpoints (fst (demo_source, demo_destination)) ''t'')
      = Inl (CheckpointValidationError ''torn'')" by (simp add: demo_epoch_def)
  from task_without_checkpoint_stays_local [OF this go] show ?thesis using go by auto
qed

text \<open>
  C9. A completion is announced once: a pass hands the broadcaster the completion of every owned completed
  task not announced before, each exactly once and in the order of the registry, and nothing else;
  it remembers exactly these; and a pass repeated without new completions sends nothing.
\<close>

theorem completions_announced_once:
  assumes "registry_inv (tasks (runtime_of n))" and "all_states (tasks (runtime_of n)) = Inr sts"
  shows "\<exists>d'. announce_completed net told (n, d) = ((n, d'), Inr (told \<union> announcement_of ` set (unannounced told n sts)))
    \<and> d' = fold (\<lambda>st. broadcast net (completion_update st) (policy_copy (task_state.state_task_id st) n)) (unannounced told n sts) d
    \<and> distinct (map announcement_of (unannounced told n sts))
    \<and> announce_completed net (told \<union> announcement_of ` set (unannounced told n sts)) (n, d')
        = ((n, d'), Inr (told \<union> announcement_of ` set (unannounced told n sts)))"
proof -
  let ?due = "unannounced told n sts"
  let ?d = "fold (\<lambda>st. broadcast net (completion_update st) (policy_copy (task_state.state_task_id st) n)) ?due d"
  have ids: "distinct (map task_state.state_task_id sts)" by (rule all_states_ids(2) [OF assms])
  have first: "announce_completed net told (n, d) = ((n, ?d), Inr (told \<union> announcement_of ` set ?due))"
    by (simp add: announce_completed_def assms(2) announce_states_exact [OF ids])
  have "announce_states net n sts (told \<union> announcement_of ` set ?due) ?d = (?d, told \<union> announcement_of ` set ?due)"
    by (rule announce_states_quiet) (auto simp: unannounced_def)
  then have again: "announce_completed net (told \<union> announcement_of ` set ?due) (n, ?d) = ((n, ?d), Inr (told \<union> announcement_of ` set ?due))"
    by (simp add: announce_completed_def assms(2))
  have "distinct (map task_state.state_task_id ?due)" using ids by (simp add: unannounced_def distinct_map_filter)
  then have "distinct (map fst (map announcement_of ?due))" by (simp add: announcement_of_def comp_def)
  then have "distinct (map announcement_of ?due)" unfolding distinct_map [of fst] by blast
  then show ?thesis using first again by blast
qed

theorem completions_announced_once_witness:
  "\<exists>d'. announce_completed (node_remote demo_network) {} (demo_finished, demo_destination)
      = ((demo_finished, d'), Inr {(''t'', 0, None)})
    \<and> d' = broadcast (node_remote demo_network) (completion_update (demo_state Completed None)) (policy_copy ''t'' demo_finished) demo_destination
    \<and> announce_completed (node_remote demo_network) {(''t'', 0, None)} (demo_finished, d') = ((demo_finished, d'), Inr {(''t'', 0, None)})"
proof -
  have inv: "registry_inv (tasks (runtime_of demo_finished))"
  proof -
    have "state_ok ''a'' (demo_state Completed None)"
      by (simp add: state_ok_def demo_state_def initial_state_def sample_profile_def no_process_def cost_split_def initial_accounting_def)
    then have "runtime_inv (demo_node (demo_state Completed None) {} {})" by (intro demo_node_inv) (simp_all add: demo_state_ok)
    then show ?thesis unfolding runtime_inv_def by (simp add: demo_finished_def)
  qed
  have sts: "all_states (tasks (runtime_of demo_finished)) = Inr [demo_state Completed None]"
    by (simp add: demo_finished_def all_states_def sorted_ids_def demo_node_def node_started_def get_state_def get_definition_def dict_get_Cons)
  have due: "unannounced {} demo_finished [demo_state Completed None] = [demo_state Completed None]"
    by (simp add: unannounced_def demo_finished_def local_id_def demo_state_ok)
  have key: "announcement_of (demo_state Completed None) = (''t'', 0, None)" "task_state.state_task_id (demo_state Completed None) = ''t''"
    by (simp_all add: announcement_of_def demo_state_def initial_state_def sample_profile_def)
  show ?thesis
    using completions_announced_once [OF inv sts, of "node_remote demo_network" "{}" demo_destination] by (simp add: due key)
qed

text \<open>
  An operator's migration is idempotent: once a request has been answered with success, the same
  request is answered with the new owner's state and changes nothing, whatever the network then does.
\<close>

theorem operator_migration_is_idempotent:
  assumes "runtime_inv (runtime_of (fst s))" and "request_migration net mk env t dst s = (s', Inr (Migration_Done r True st))"
  shows "owner_node_id st = dst \<and> request_migration net' mk' env' t dst s' = (s', Inr (Already_There st))"
proof -
  obtain trace s1 s2 where s1: "runtime_of (fst s1) = runtime_of (fst s)"
    and mig: "migrate net (migration_env env t) t dst trace (bid_id r) s1 = (s2, Inr True)"
    and fin: "s' = s2" "get_state (tasks (runtime_of (fst s2))) t = Inr st"
    using assms(2) by (auto simp: request_migration_def answer_def there_def bind_result_Inr_iff case_prod_unfold Let_def
        elim!: and_then_Inr split: sum.splits if_splits)
  have "keyed (runtime_of (fst s1))" using assms(1) s1 by (simp add: runtime_inv_keyed)
  from migrate_owner [OF this mig] fin have "owner_node_id st = dst" by (auto simp: owned_by_def)
  then show ?thesis using fin by (simp add: request_migration_def)
qed

lemma demo_request:
  "\<exists>s' b st. request_migration (node_remote demo_network) demo_market (demo_epoch (Inr 0)) ''t'' ''b'' (demo_source, demo_destination)
    = (s', Inr (Migration_Done b True st))"
proof -
  let ?E = "demo_epoch (Inr 0)" and ?st = "demo_state Running (Some 42)"
  have st: "get_state (tasks (runtime_of demo_source)) ''t'' = Inr ?st" "owner_node_id ?st = ''a''" "task_status ?st = Running"
    "get_definition (tasks (runtime_of demo_source)) ''t'' = Inr sample_definition"
    by (simp_all add: demo_source_def demo_state_ok)
  have guard: "operator_guard ''migrate'' t Running demo_source = Inr ?st" if "t = ''t''" for t
    using that st demo_facts(6) by (simp add: operator_guard_def)
  have dst: "operator_destination ?E ''t'' ''b'' demo_source = Inr ()"
    using st demo_facts(6) by (simp add: operator_destination_def demo_epoch_def)
      (simp add: example_cluster_def get_node_def example_node_def)
  obtain d where d: "evaluate_task example_mover example_cluster example_scoring None example_forecaster 80 (Some [(''b'', 0)]) None 0 (Some {''b''})
      = Inr (d, None)" "ranked_actions d = example_ranking" using demo_decision by blast
  obtain b where b: "operator_candidate ?E ''t'' ''b'' demo_source = Inr (80, b)" "bid_id b = ''bid-1''"
    using st d demo_facts(6)
    by (simp add: operator_candidate_def demo_epoch_def scoring_profile_def Let_def clock_now_def demo_accounting_def)
       (simp add: example_ranking_def scored_of_def example_move_def raw_action_estimate.defs make_bid_def validate_migration_candidate_def)
  have calibrated: "telemetry_calibration (demo_migrate (Inr ())) = Inr ()" by (simp add: demo_migrate_def)
  obtain n' d' where go: "migrate (node_remote demo_network) (demo_migrate (Inr ())) ''t'' ''b'' 80 ''bid-1'' (demo_source, demo_destination)
      = ((n', d'), Inr True)" "handed_over ''t'' ''b'' 1 (live (runtime_of demo_source) - set_option (pid (process ?st))) n'"
    using migrate_succeeds [OF demo_migration calibrated] by blast
  then obtain st' where "get_state (tasks (runtime_of n')) ''t'' = Inr st'" by (auto simp: handed_over_def)
  then show ?thesis using st guard dst b go(1)
    by (simp add: request_migration_def and_then_def there_def submit_and_wait_def demo_market_def answer_def)
       (simp add: demo_epoch_def granted_def)
qed

theorem operator_migration_is_idempotent_witness:
  "\<exists>s' st. request_migration (node_remote demo_network) demo_market (demo_epoch (Inr 0)) ''t'' ''b'' s' = (s', Inr (Already_There st))
    \<and> owner_node_id st = ''b''"
proof -
  let ?S = "(demo_source, demo_destination)"
  obtain s' b st where go: "request_migration (node_remote demo_network) demo_market (demo_epoch (Inr 0)) ''t'' ''b'' ?S
    = (s', Inr (Migration_Done b True st))" using demo_request by blast
  have "runtime_inv (runtime_of (fst ?S))" using demo_source_inv by simp
  from operator_migration_is_idempotent [OF this go] show ?thesis by blast
qed

end
