(* ===== verification/Task_Catalog.thy ===== *)
theory Task_Catalog
  imports Task_Registry
begin

text \<open>
  \<open>magellan/submission/models.py\<close> and \<open>magellan/submission/catalog.py\<close>: immutable task definitions with
  revisions, task runs with idempotency keys, and the merge of another node's snapshot.  The digest of
  a submission is an argument: it is SHA-256 of a canonical encoding.
\<close>

section \<open>Submissions and records\<close>

record task_template =
  tpl_workload_type :: string
  tpl_power_kw :: real
  tpl_checkpoint_bytes :: int
  tpl_data_bytes :: int
  tpl_prestaged :: "node_id set"
  tpl_remaining_seconds :: "real option"
  tpl_accumulated_cost :: real
  tpl_cost_cap :: "real option"
  tpl_priority :: int
  tpl_deadline_at :: "datetime option"
  tpl_request :: task_resource_request
  tpl_compatibility :: task_compatibility_requirements

definition wf_template :: "task_template \<Rightarrow> bool" where
  "wf_template p \<longleftrightarrow>
     tpl_workload_type p \<noteq> [] \<and> 0 < tpl_power_kw p \<and> 0 \<le> tpl_checkpoint_bytes p \<and> 0 \<le> tpl_data_bytes p
   \<and> (\<forall>r. tpl_remaining_seconds p = Some r \<longrightarrow> 0 \<le> r) \<and> 0 \<le> tpl_accumulated_cost p
   \<and> (\<forall>c. tpl_cost_cap p = Some c \<longrightarrow> 0 < c) \<and> 0 \<le> tpl_priority p \<and> tpl_priority p \<le> 100
   \<and> wf_resource_request (tpl_request p)"

record definition_submission =
  definition_id :: string
  template :: task_template
  template_runtime :: process_spec
  template_artifacts :: "artifact_spec list"

definition wf_submission :: "('a definition_submission_scheme) \<Rightarrow> bool" where
  "wf_submission s \<longleftrightarrow> definition_id s \<noteq> [] \<and> wf_template (template s) \<and> is_ok (validate_runtime (template_runtime s))
   \<and> (\<forall>a \<in> set (template_artifacts s). is_ok (validate_artifact a)) \<and> distinct (map artifact_id (template_artifacts s))"

record definition_record = definition_submission +
  revision :: int
  digest :: string
  definition_origin :: node_id
  definition_created_at :: datetime

record run_submission =
  wanted_definition :: string
  wanted_revision :: "int option"
  wanted_owner :: "node_id option"
  wanted_key :: string
  wanted_start :: bool
  wanted_labels :: "string dict"

record run_record =
  run_id :: string
  run_definition_id :: string
  run_revision :: int
  run_digest :: string
  run_origin :: node_id
  run_owner :: node_id
  idempotency_key :: string
  request_digest :: string
  auto_start :: bool
  labels :: "string dict"
  run_created_at :: datetime

text \<open>The definition of the task a run stands for.\<close>

definition materialize :: "definition_record \<Rightarrow> string \<Rightarrow> node_id \<Rightarrow> task_definition" where
  "materialize d run owner =
     \<lparr>profile = \<lparr>profile_task_id = run, workload_type = tpl_workload_type (template d), current_node_id = owner,
         power_kw = tpl_power_kw (template d), checkpoint_bytes = tpl_checkpoint_bytes (template d),
         data_bytes = tpl_data_bytes (template d), prestaged_node_ids = tpl_prestaged (template d),
         profile_remaining_seconds = tpl_remaining_seconds (template d),
         profile_accumulated_cost = tpl_accumulated_cost (template d), cost_cap_usd = tpl_cost_cap (template d),
         last_migration_at = None, last_pause_at = None, priority = tpl_priority (template d),
         deadline_at = tpl_deadline_at (template d), resource_request = tpl_request (template d),
         compatibility = tpl_compatibility (template d)\<rparr>,
      runtime = template_runtime d, artifacts = template_artifacts d\<rparr>"

section \<open>The store\<close>

type_synonym definition_key = "string \<times> int"

definition key_of :: "definition_record \<Rightarrow> definition_key" where
  "key_of d = (definition_id d, revision d)"

type_synonym catalog_file = "definition_record list \<times> run_record list"

record task_catalog =
  catalog_node :: node_id
  catalog_definitions :: "(definition_key \<times> definition_record) list"
  catalog_runs :: "run_record dict"
  stored :: "catalog_file option"

definition find_definition :: "task_catalog \<Rightarrow> definition_key \<Rightarrow> definition_record option" where
  "find_definition c k = map_of (catalog_definitions c) k"

definition put_definition :: "definition_record \<Rightarrow> task_catalog \<Rightarrow> task_catalog" where
  "put_definition d c = c\<lparr>catalog_definitions := AList.update (key_of d) d (catalog_definitions c)\<rparr>"

definition put_run :: "run_record \<Rightarrow> task_catalog \<Rightarrow> task_catalog" where
  "put_run r c = c\<lparr>catalog_runs := dict_put (run_id r) r (catalog_runs c)\<rparr>"

definition list_definitions :: "task_catalog \<Rightarrow> definition_record list" where
  "list_definitions c = map snd (sort_key fst (catalog_definitions c))"

definition list_runs :: "task_catalog \<Rightarrow> run_record list" where
  "list_runs c = map snd (sort_key fst (catalog_runs c))"

definition persist_catalog :: "task_catalog \<Rightarrow> task_catalog" where
  "persist_catalog c = c\<lparr>stored := Some (list_definitions c, list_runs c)\<rparr>"

definition load_catalog :: "node_id \<Rightarrow> catalog_file option \<Rightarrow> task_catalog" where
  "load_catalog node file =
     (let c = \<lparr>catalog_node = node, catalog_definitions = [], catalog_runs = [], stored = file\<rparr>
      in case file of None \<Rightarrow> c
       | Some (ds, rs) \<Rightarrow> fold put_run rs (fold put_definition ds c))"

definition catalog_definition :: "task_catalog \<Rightarrow> string \<Rightarrow> int option \<Rightarrow> definition_record result" where
  "catalog_definition c i wanted =
     (let candidates = map snd (filter (\<lambda>((j, _), _). j = i) (catalog_definitions c))
      in if candidates = [] then Inl (KeyError (''Unknown task definition: '' @ i))
         else case wanted of
           None \<Rightarrow> Inr (hd (filter (\<lambda>d. \<forall>e \<in> set candidates. revision e \<le> revision d) candidates))
         | Some r \<Rightarrow>
             (case find_definition c (i, r) of
                None \<Rightarrow> Inl (KeyError (''Unknown task definition revision: '' @ i))
              | Some d \<Rightarrow> Inr d))"

definition catalog_run :: "task_catalog \<Rightarrow> string \<Rightarrow> run_record result" where
  "catalog_run c i =
     (case dict_get (catalog_runs c) i of None \<Rightarrow> Inl (KeyError (''Unknown task run: '' @ i)) | Some r \<Rightarrow> Inr r)"

section \<open>Submitting\<close>

definition next_revision :: "definition_record list \<Rightarrow> int" where
  "next_revision ds = fold max (map revision ds) 0 + 1"

definition register_submission ::
  "(definition_submission \<Rightarrow> string) \<Rightarrow> definition_submission \<Rightarrow> node_id \<Rightarrow> datetime \<Rightarrow> task_catalog
     \<Rightarrow> task_catalog \<times> definition_record \<times> bool" where
  "register_submission digest_of s origin now c =
     (let existing = filter (\<lambda>d. definition_id d = definition_id s) (map snd (catalog_definitions c))
      in case find (\<lambda>d. digest d = digest_of s) existing of
           Some d \<Rightarrow> (c, d, False)
         | None \<Rightarrow>
             let d = definition_submission.extend s
                       \<lparr>revision = next_revision existing, digest = digest_of s, definition_origin = origin,
                        definition_created_at = now\<rparr>
             in (persist_catalog (put_definition d c), d, True))"

definition create_run ::
  "(run_submission \<Rightarrow> string) \<Rightarrow> string \<Rightarrow> run_submission \<Rightarrow> node_id \<Rightarrow> node_id \<Rightarrow> datetime \<Rightarrow> task_catalog
     \<Rightarrow> task_catalog \<times> (run_record \<times> bool) result" where
  "create_run digest_of fresh s owner origin now c =
     (case find (\<lambda>r. idempotency_key r = wanted_key s) (map snd (catalog_runs c)) of
        Some r \<Rightarrow>
          if request_digest r \<noteq> digest_of s
          then (c, Inl (ValueError ''Idempotency key was already used with a different request''))
          else (c, Inr (r, False))
      | None \<Rightarrow>
          (case catalog_definition c (wanted_definition s) (wanted_revision s) of
             Inl e \<Rightarrow> (c, Inl e)
           | Inr d \<Rightarrow>
               let r = \<lparr>run_id = ''run-'' @ fresh, run_definition_id = definition_id d, run_revision = revision d,
                        run_digest = digest d, run_origin = origin, run_owner = owner, idempotency_key = wanted_key s,
                        request_digest = digest_of s, auto_start = wanted_start s, labels = wanted_labels s,
                        run_created_at = now\<rparr>
               in (persist_catalog (put_run r c), Inr (r, True))))"

definition materialize_run :: "task_catalog \<Rightarrow> run_record \<Rightarrow> task_definition result" where
  "materialize_run c r =
     bind_result (catalog_definition c (run_definition_id r) (Some (run_revision r))) (\<lambda>d.
       if digest d \<noteq> run_digest r
       then Inl (RuntimeError (''Definition digest mismatch for task run '' @ run_id r))
       else Inr (materialize d (run_id r) (run_owner r)))"

definition materialized_definitions :: "task_catalog \<Rightarrow> task_definition list result" where
  "materialized_definitions c = collect_results (map (materialize_run c) (list_runs c))"

section \<open>Replication\<close>

record catalog_snapshot =
  reporter :: node_id
  offered_definitions :: "definition_record list"
  offered_runs :: "run_record list"

definition snapshot_of :: "task_catalog \<Rightarrow> catalog_snapshot" where
  "snapshot_of c =
     \<lparr>reporter = catalog_node c, offered_definitions = list_definitions c, offered_runs = list_runs c\<rparr>"

text \<open>A conflict raises where it is met: what was added before it stays in memory.\<close>

fun merge_definitions :: "definition_record list \<Rightarrow> task_catalog \<Rightarrow> task_catalog \<times> definition_record list result" where
  "merge_definitions [] c = (c, Inr [])"
| "merge_definitions (d # ds) c =
     (case find_definition c (key_of d) of
        Some l \<Rightarrow>
          if digest l \<noteq> digest d
          then (c, Inl (RuntimeError (''Conflicting immutable task definition '' @ definition_id d)))
          else merge_definitions ds c
      | None \<Rightarrow>
          let (c', out) = merge_definitions ds (put_definition d c)
          in (c', bind_result out (\<lambda>added. Inr (d # added))))"

definition admit_run :: "task_catalog \<Rightarrow> run_record \<Rightarrow> bool result" where
  "admit_run c r =
     (if \<exists>x \<in> set (map snd (catalog_runs c)). idempotency_key x = idempotency_key r \<and> run_id x \<noteq> run_id r
      then Inl (RuntimeError (''Conflicting task runs use idempotency key '' @ idempotency_key r))
      else case dict_get (catalog_runs c) (run_id r) of
        Some l \<Rightarrow> if l \<noteq> r then Inl (RuntimeError (''Conflicting immutable task run '' @ run_id r)) else Inr False
      | None \<Rightarrow>
          bind_result (catalog_definition c (run_definition_id r) (Some (run_revision r))) (\<lambda>d.
            if digest d \<noteq> run_digest r
            then Inl (RuntimeError (''Definition digest mismatch for replicated run '' @ run_id r))
            else Inr True))"

fun merge_runs :: "run_record list \<Rightarrow> task_catalog \<Rightarrow> task_catalog \<times> run_record list result" where
  "merge_runs [] c = (c, Inr [])"
| "merge_runs (r # rs) c =
     (case admit_run c r of
        Inl e \<Rightarrow> (c, Inl e)
      | Inr False \<Rightarrow> merge_runs rs c
      | Inr True \<Rightarrow>
          let (c', out) = merge_runs rs (put_run r c)
          in (c', bind_result out (\<lambda>added. Inr (r # added))))"

definition merge_snapshot ::
  "catalog_snapshot \<Rightarrow> task_catalog \<Rightarrow> task_catalog \<times> (definition_record list \<times> run_record list) result" where
  "merge_snapshot s c =
     (case merge_definitions (offered_definitions s) c of
        (c1, Inl e) \<Rightarrow> (c1, Inl e)
      | (c1, Inr ds) \<Rightarrow>
          (case merge_runs (offered_runs s) c1 of
             (c2, Inl e) \<Rightarrow> (c2, Inl e)
           | (c2, Inr rs) \<Rightarrow> (if ds = [] \<and> rs = [] then c2 else persist_catalog c2, Inr (ds, rs))))"

end
