(* ===== verification/Reconciliation.thy ===== *)
theory Reconciliation
  imports Task_Catalog Migration_Source
begin

text \<open>
  \<open>magellan/submission/service.py\<close> and \<open>magellan/reconciliation/service.py\<close>: the submission of
  definitions and runs to a node, and the periodic repair of its catalogue, its migrations and its
  view of who owns which task.  The snapshots a peer answered are arguments; a peer that did not
  answer contributes none.
\<close>

section \<open>Submission\<close>

record run_view =
  viewed_run :: run_record
  viewed_state :: task_state

type_synonym submission_node = "task_catalog \<times> local_runtime"

definition submit_definition ::
  "(definition_submission \<Rightarrow> string) \<Rightarrow> definition_submission \<Rightarrow> datetime \<Rightarrow> submission_node \<Rightarrow> submission_node \<times> definition_record" where
  "submit_definition digest_of s now n =
     (let (c, d, _) = register_submission digest_of s (runtime_node (snd n)) now (fst n) in ((c, snd n), d))"

text \<open>What a run submission meets: the nodes known, the digest, a fresh identifier, the start.\<close>

record submission_environment =
  known_nodes :: cluster_config
  run_digest_of :: "run_submission \<Rightarrow> string"
  fresh_run :: string
  submitted_now :: datetime
  run_start :: start_environment
  run_written :: datetime

definition register_run :: "datetime \<Rightarrow> run_record \<Rightarrow> submission_node \<Rightarrow> submission_node \<times> bool result" where
  "register_run now r n =
     (case materialize_run (fst n) r of
        Inl e \<Rightarrow> (n, Inl e)
      | Inr d \<Rightarrow> (let (reg, out) = register_definition now d (tasks (snd n)) in ((fst n, (snd n)\<lparr>tasks := reg\<rparr>), out)))"

definition run_state :: "submission_environment \<Rightarrow> bool \<Rightarrow> string \<Rightarrow> submission_node \<Rightarrow> submission_node \<times> task_state result" where
  "run_state env begins i n =
     (if begins
      then let (rt, out) = start i (run_start env) (submitted_now env) (run_written env) (snd n) in ((fst n, rt), out)
      else (n, get_state (tasks (snd n)) i))"

definition submit_run :: "submission_environment \<Rightarrow> run_submission \<Rightarrow> submission_node \<Rightarrow> submission_node \<times> run_view result" where
  "submit_run env s n =
     (let here = runtime_node (snd n);
          owner = (case wanted_owner s of None \<Rightarrow> here | Some o' \<Rightarrow> if o' = [] then here else o')
      in case get_node (known_nodes env) owner of
           Inl e \<Rightarrow> (n, Inl e)
         | Inr _ \<Rightarrow>
             if wanted_start s \<and> owner \<noteq> here
             then (n, Inl (ValueError ''auto_start requires the submission peer to be the initial owner''))
             else case create_run (run_digest_of env) (fresh_run env) s owner here (submitted_now env) (fst n) of
               (c, Inl e) \<Rightarrow> ((c, snd n), Inl e)
             | (c, Inr (r, created)) \<Rightarrow>
                 and_then (register_run (run_written env) r)
                 (\<lambda>_. and_then (run_state env (wanted_start s \<and> created) (run_id r))
                 (\<lambda>st. answer (Inr \<lparr>viewed_run = r, viewed_state = st\<rparr>))) (c, snd n))"

definition view_run :: "string \<Rightarrow> submission_node \<Rightarrow> run_view result" where
  "view_run i n =
     bind_result (catalog_run (fst n) i) (\<lambda>r.
     bind_result (get_state (tasks (snd n)) i) (\<lambda>st. Inr \<lparr>viewed_run = r, viewed_state = st\<rparr>))"

definition view_runs :: "submission_node \<Rightarrow> run_view list result" where
  "view_runs n = collect_results (map (\<lambda>r. view_run (run_id r) n) (list_runs (fst n)))"

section \<open>The catalogue of the peers\<close>

fun register_runs :: "datetime \<Rightarrow> run_record list \<Rightarrow> submission_node \<Rightarrow> submission_node \<times> nat result" where
  "register_runs now [] n = (n, Inr 0)"
| "register_runs now (r # rs) n =
     and_then (register_run now r) (\<lambda>_. and_then (register_runs now rs) (\<lambda>k. answer (Inr (k + 1)))) n"

definition take_snapshot :: "datetime \<Rightarrow> catalog_snapshot \<Rightarrow> submission_node \<Rightarrow> submission_node \<times> (nat \<times> nat) result" where
  "take_snapshot now s n =
     (case merge_snapshot s (fst n) of
        (c, Inl e) \<Rightarrow> ((c, snd n), Inl e)
      | (c, Inr (ds, rs)) \<Rightarrow>
          and_then (register_runs now rs) (\<lambda>k. answer (Inr (length ds, k))) (c, snd n))"

fun reconcile_catalog ::
  "datetime \<Rightarrow> catalog_snapshot list \<Rightarrow> submission_node \<Rightarrow> submission_node \<times> (nat \<times> nat) result" where
  "reconcile_catalog now [] n = (n, Inr (0, 0))"
| "reconcile_catalog now (s # ss) n =
     and_then (take_snapshot now s)
     (\<lambda>(d, r). and_then (reconcile_catalog now ss) (\<lambda>(d', r'). answer (Inr (d + d', r + r')))) n"

section \<open>The ownership of the peers\<close>

definition take_update ::
  "datetime \<Rightarrow> ownership_update \<times> policy_state option \<Rightarrow> migration_node \<Rightarrow> migration_node \<times> bool result" where
  "take_update now up n =
     (let (u, p) = up; t = ou_task_id u
      in case get_state (tasks (runtime_of n)) t of
           Inl e \<Rightarrow> (n, Inl e)
         | Inr st \<Rightarrow>
             if \<not> ownership_applied (local_id n) u st then (n, Inr False)
             else and_then (in_runtime (on_tasks (apply_ownership (local_id n) u) now t))
               (\<lambda>_. and_then (if ou_artifact_digests u = [] then answer (Inr st)
                  else in_runtime (on_tasks (set_artifact_digests (ou_artifact_digests u)) now t))
                 (\<lambda>_ n'. (merge_received p n', Inr True))) n)"

fun unknown_task :: "error \<Rightarrow> bool" where
  "unknown_task (KeyError _) = True"
| "unknown_task _ = False"

fun take_updates ::
  "datetime \<Rightarrow> (ownership_update \<times> policy_state option) list \<Rightarrow> migration_node \<Rightarrow> migration_node \<times> nat result" where
  "take_updates now [] n = (n, Inr 0)"
| "take_updates now (u # us) n =
     (case take_update now u n of
        (n1, Inl e) \<Rightarrow> if unknown_task e then take_updates now us n1 else (n1, Inl e)
      | (n1, Inr applied) \<Rightarrow>
          (let (n2, r) = take_updates now us n1 in (n2, bind_result r (\<lambda>k. Inr (if applied then k + 1 else k)))))"

section \<open>One pass\<close>

type_synonym 'd reconciled = "task_catalog \<times> 'd world"

definition in_catalog ::
  "(submission_node \<Rightarrow> submission_node \<times> 'a result) \<Rightarrow> 'd reconciled \<Rightarrow> 'd reconciled \<times> 'a result" where
  "in_catalog f s =
     (let ((c, rt), r) = f (fst s, runtime_of (fst (snd s)))
      in ((c, (fst (snd s))\<lparr>runtime_of := rt\<rparr>, snd (snd s)), r))"

definition in_world :: "('d world \<Rightarrow> 'd world \<times> 'a result) \<Rightarrow> 'd reconciled \<Rightarrow> 'd reconciled \<times> 'a result" where
  "in_world f s = (let (w, r) = f (snd s) in ((fst s, w), r))"

definition reconcile_once ::
  "bool \<Rightarrow> 'd remote \<Rightarrow> (string \<Rightarrow> repair_environment) \<Rightarrow> datetime \<Rightarrow> catalog_snapshot list
     \<Rightarrow> (ownership_update \<times> policy_state option) list list \<Rightarrow> 'd reconciled \<Rightarrow> 'd reconciled \<times> nat result" where
  "reconcile_once enabled net env now snapshots updates s =
     (if \<not> enabled then (s, Inr 0)
      else and_then (in_world (reconcile_durable_state net env))
        (\<lambda>_. and_then (in_catalog (reconcile_catalog now snapshots))
        (\<lambda>(ds, rs). and_then (in_world (here (take_updates now (concat updates))))
        (\<lambda>applied. answer (Inr (applied + ds + rs))))) s)"

end
