(* ===== verification/Replica_Interface.thy ===== *)
theory Replica_Interface
  imports Prelude
begin

text \<open>
  The contract of a replica that only grows: what a merge may do to what can be read from a replica.
  The provider is the task catalogue; what replication relies on is proved here once.
\<close>

definition agrees :: "('k \<Rightarrow> 'v option) \<Rightarrow> ('k \<Rightarrow> 'v option) \<Rightarrow> bool" where
  "agrees f g \<longleftrightarrow> (\<forall>k v w. f k = Some v \<longrightarrow> g k = Some w \<longrightarrow> v = w)"

lemma map_leD: "f \<subseteq>\<^sub>m g \<Longrightarrow> f k = Some v \<Longrightarrow> g k = Some v"
  by (metis domI map_le_def)

lemma agrees_below: "f \<subseteq>\<^sub>m h \<Longrightarrow> g \<subseteq>\<^sub>m h \<Longrightarrow> agrees f g"
  unfolding agrees_def by (metis map_leD option.inject)

lemma agrees_mono: "agrees f' g \<Longrightarrow> f \<subseteq>\<^sub>m f' \<Longrightarrow> agrees f g"
  unfolding agrees_def using map_leD by metis

lemma map_eqI: "(\<And>k v. f k = Some v \<longleftrightarrow> g k = Some v) \<Longrightarrow> f = g"
  by (rule ext) (metis not_Some_eq)

locale growing_replica =
  fixes merge :: "'m \<Rightarrow> 's \<Rightarrow> 's \<times> 'e result" and view :: "'s \<Rightarrow> 'k \<Rightarrow> 'v option" and offer :: "'m \<Rightarrow> 'k \<Rightarrow> 'v option"
  assumes merge_grows: "view s \<subseteq>\<^sub>m view (fst (merge m s))"
    and merge_takes: "merge m s = (s', Inr x) \<Longrightarrow> offer m \<subseteq>\<^sub>m view s' \<and> dom (view s') = dom (view s) \<union> dom (offer m)"
begin

lemma merge_union:
  assumes "merge m s = (s', Inr x)"
  shows "agrees (view s) (offer m)" "view s' k = Some v \<longleftrightarrow> view s k = Some v \<or> offer m k = Some v"
proof -
  have le: "view s \<subseteq>\<^sub>m view s'" "offer m \<subseteq>\<^sub>m view s'" and d: "dom (view s') = dom (view s) \<union> dom (offer m)"
    using merge_grows [of s m] merge_takes [OF assms] assms by auto
  show "agrees (view s) (offer m)" by (rule agrees_below [OF le])
  show "view s' k = Some v \<longleftrightarrow> view s k = Some v \<or> offer m k = Some v"
  proof
    assume v: "view s' k = Some v"
    then have "k \<in> dom (view s) \<union> dom (offer m)" using d by blast
    then obtain w where w: "view s k = Some w \<or> offer m k = Some w" by blast
    then have "view s' k = Some w" using map_leD [OF le(1)] map_leD [OF le(2)] by blast
    then show "view s k = Some v \<or> offer m k = Some v" using v w by simp
  qed (use map_leD [OF le(1)] map_leD [OF le(2)] in blast)
qed

text \<open>Merging a list of messages; the first exception ends it.\<close>

fun merge_all :: "'m list \<Rightarrow> 's \<Rightarrow> 's \<times> unit result" where
  "merge_all [] s = (s, Inr ())"
| "merge_all (m # ms) s = (case merge m s of (s1, Inl e) \<Rightarrow> (s1, Inl e) | (s1, Inr _) \<Rightarrow> merge_all ms s1)"

lemma merge_all_keeps: "view s \<subseteq>\<^sub>m view (fst (merge_all ms s))"
proof (induction ms arbitrary: s)
  case (Cons m ms)
  obtain s1 r where m: "merge m s = (s1, r)" by fastforce
  have k: "view s \<subseteq>\<^sub>m view s1" using merge_grows [of s m] m by simp
  show ?case
  proof (cases r)
    case Inl
    then show ?thesis using m k by simp
  next
    case Inr
    then show ?thesis using m map_le_trans [OF k Cons.IH [of s1]] by simp
  qed
qed simp

lemma merge_all_reads:
  assumes "merge_all ms s = (s', Inr u)"
  shows "view s' k = Some v \<longleftrightarrow> view s k = Some v \<or> (\<exists>m \<in> set ms. offer m k = Some v)"
  using assms
proof (induction ms arbitrary: s)
  case (Cons m ms)
  obtain s1 x where m: "merge m s = (s1, Inr x)" and rest: "merge_all ms s1 = (s', Inr u)"
    using Cons.prems by (auto split: prod.splits sum.splits)
  show ?case using Cons.IH [OF rest] merge_union(2) [OF m] by auto
qed simp

text \<open>Replicas that started alike and have merged the same messages, in any order, read alike.\<close>

lemma same_messages_same_view:
  assumes "view s = view t" "merge_all ms s = (s', Inr u)" "merge_all ns t = (t', Inr w)" "set ms = set ns"
  shows "view s' = view t'"
  by (rule map_eqI) (use merge_all_reads [OF assms(2)] merge_all_reads [OF assms(3)] assms(1,4) in simp)

text \<open>Two replicas that exchange what they hold read alike, when neither raises.\<close>

lemma exchange_converges:
  assumes "offer m = view s" "offer n = view t" "merge n s = (s', Inr x)" "merge m t = (t', Inr y)"
  shows "view s' = view t'"
  by (rule map_eqI) (use merge_union(2) [OF assms(3)] merge_union(2) [OF assms(4)] assms(1,2) in auto)

text \<open>A conflict is for ever: nothing a replica merges later makes the message acceptable.\<close>

lemma conflict_is_permanent:
  assumes "\<not> agrees (view s) (offer m)"
  shows "\<not> is_ok (snd (merge m (fst (merge_all ms s))))"
proof
  let ?t = "fst (merge_all ms s)"
  assume "is_ok (snd (merge m ?t))"
  then obtain t' x where "merge m ?t = (t', Inr x)" by (cases "snd (merge m ?t)") (auto simp: prod_eq_iff)
  then have "agrees (view ?t) (offer m)" by (rule merge_union(1))
  then show False using assms agrees_mono merge_all_keeps by blast
qed

end

end
