(* ===== verification/Task_Catalog_Laws.thy ===== *)
theory Task_Catalog_Laws
  imports Task_Catalog Task_Registry_Laws Replica_Interface
begin

text \<open>
  The task catalogue keeps its invariant (every run refers to a definition it holds, with the same
  digest), is a replica that only grows, and its file reloads to what it held.
\<close>

section \<open>Lookups\<close>

lemma find_put [simp]: "find_definition (put_definition d c) k = (if k = key_of d then Some d else find_definition c k)"
  by (simp add: find_definition_def put_definition_def update_conv')

lemma put_frame [simp]:
  "find_definition (put_run r c) k = find_definition c k" "find_definition (persist_catalog c) k = find_definition c k"
  "catalog_runs (put_definition d c) = catalog_runs c" "catalog_runs (put_run r c) = dict_put (run_id r) r (catalog_runs c)"
  "catalog_runs (persist_catalog c) = catalog_runs c"
  "catalog_definitions (put_run r c) = catalog_definitions c" "catalog_definitions (persist_catalog c) = catalog_definitions c"
  "catalog_node (put_run r c) = catalog_node c" "catalog_node (persist_catalog c) = catalog_node c"
  "catalog_node (put_definition d c) = catalog_node c"
  "stored (put_definition d c) = stored c" "stored (put_run r c) = stored c"
  by (simp_all add: find_definition_def put_run_def put_definition_def persist_catalog_def)

lemma catalog_definition_exact: "catalog_definition c i (Some r) = Inr d \<longleftrightarrow> find_definition c (i, r) = Some d"
proof (cases "find_definition c (i, r)")
  case None
  then show ?thesis by (simp add: catalog_definition_def Let_def)
next
  case (Some e)
  then have "((i, r), e) \<in> set (catalog_definitions c)" by (simp add: find_definition_def map_of_SomeD)
  then have "filter (\<lambda>((j, _), _). j = i) (catalog_definitions c) \<noteq> []" by (auto simp: filter_empty_conv)
  then show ?thesis using Some by (simp add: catalog_definition_def)
qed

section \<open>The invariant\<close>

definition entries_ok :: "task_catalog \<Rightarrow> bool" where
  "entries_ok c \<longleftrightarrow> distinct (map fst (catalog_definitions c)) \<and> dict_ok (catalog_runs c)
   \<and> (\<forall>k d. find_definition c k = Some d \<longrightarrow> key_of d = k \<and> 1 \<le> revision d \<and> wf_submission d)"

definition run_ok :: "task_catalog \<Rightarrow> run_record \<Rightarrow> bool" where
  "run_ok c r \<longleftrightarrow> run_id r \<noteq> [] \<and> run_owner r \<noteq> []
   \<and> (\<exists>d. find_definition c (run_definition_id r, run_revision r) = Some d \<and> digest d = run_digest r)"

definition catalog_ok :: "task_catalog \<Rightarrow> bool" where
  "catalog_ok c \<longleftrightarrow> entries_ok c
   \<and> (\<forall>i r. dict_get (catalog_runs c) i = Some r \<longrightarrow> run_id r = i \<and> run_ok c r)
   \<and> (\<forall>i j r q. dict_get (catalog_runs c) i = Some r \<longrightarrow> dict_get (catalog_runs c) j = Some q
        \<longrightarrow> idempotency_key r = idempotency_key q \<longrightarrow> i = j)"

definition wf_offer :: "definition_record \<Rightarrow> bool" where
  "wf_offer d \<longleftrightarrow> 1 \<le> revision d \<and> wf_submission d"

definition wf_snapshot :: "catalog_snapshot \<Rightarrow> bool" where
  "wf_snapshot s \<longleftrightarrow> (\<forall>d \<in> set (offered_definitions s). wf_offer d)
   \<and> (\<forall>r \<in> set (offered_runs s). run_id r \<noteq> [] \<and> run_owner r \<noteq> [])"

lemma run_ok_mono: "run_ok c r \<Longrightarrow> find_definition c \<subseteq>\<^sub>m find_definition c' \<Longrightarrow> run_ok c' r"
  unfolding run_ok_def using map_leD by metis

lemma catalog_ok_persist [simp]: "catalog_ok (persist_catalog c) = catalog_ok c"
  by (simp add: catalog_ok_def entries_ok_def run_ok_def)

lemma put_definition_ok:
  assumes "catalog_ok c" and "wf_offer d" and "find_definition c (key_of d) = None"
  shows "catalog_ok (put_definition d c)"
proof -
  have "find_definition c \<subseteq>\<^sub>m find_definition (put_definition d c)" using assms(3) by (auto simp: map_le_def)
  then have "run_ok c r \<Longrightarrow> run_ok (put_definition d c) r" for r by (rule run_ok_mono [rotated])
  then show ?thesis using assms
    by (auto simp: catalog_ok_def entries_ok_def wf_offer_def) (simp add: put_definition_def distinct_update)
qed

lemma put_run_ok:
  assumes "catalog_ok c" and "run_ok c r" and "dict_get (catalog_runs c) (run_id r) = None"
    and "\<And>i q. dict_get (catalog_runs c) i = Some q \<Longrightarrow> idempotency_key q \<noteq> idempotency_key r"
  shows "catalog_ok (put_run r c)"
proof -
  have "run_ok (put_run r c) q = run_ok c q" for q by (simp add: run_ok_def)
  then show ?thesis using assms by (auto simp: catalog_ok_def entries_ok_def split: if_splits) metis+
qed

lemma runs_by_key:
  assumes "dict_ok (catalog_runs c)"
  shows "r \<in> set (map snd (catalog_runs c)) \<longleftrightarrow> (\<exists>i. dict_get (catalog_runs c) i = Some r)"
  using dict_get_iff [OF assms, of _ r] by (force simp: image_iff)

section \<open>Merging\<close>

lemma merge_definitions_spec:
  assumes "merge_definitions ds c = (c', out)"
  shows "find_definition c \<subseteq>\<^sub>m find_definition c' \<and> catalog_runs c' = catalog_runs c \<and> stored c' = stored c
    \<and> catalog_node c' = catalog_node c
    \<and> (\<forall>added. out = Inr added \<longrightarrow> dom (find_definition c') = dom (find_definition c) \<union> key_of ` set ds
        \<and> (\<forall>d \<in> set ds. map_option digest (find_definition c' (key_of d)) = Some (digest d))
        \<and> (added = [] \<longrightarrow> c' = c))
    \<and> (catalog_ok c \<longrightarrow> (\<forall>d \<in> set ds. wf_offer d) \<longrightarrow> catalog_ok c')"
  using assms
proof (induction ds arbitrary: c out)
  case (Cons d ds)
  show ?case
  proof (cases "find_definition c (key_of d)")
    case None
    obtain out' where rest: "merge_definitions ds (put_definition d c) = (c', out')" "out = bind_result out' (\<lambda>added. Inr (d # added))"
      using Cons.prems None by (auto split: prod.splits)
    note IH = Cons.IH [OF rest(1)]
    have grow: "find_definition c \<subseteq>\<^sub>m find_definition (put_definition d c)" using None by (auto simp: map_le_def)
    have mine: "find_definition c' (key_of d) = Some d" by (rule map_leD [OF conjunct1 [OF IH]]) simp
    have dom: "dom (find_definition (put_definition d c)) = insert (key_of d) (dom (find_definition c))" by auto
    have ok: "catalog_ok c \<Longrightarrow> wf_offer d \<Longrightarrow> catalog_ok (put_definition d c)" using put_definition_ok None by blast
    have le: "find_definition c \<subseteq>\<^sub>m find_definition c'" by (rule map_le_trans [OF grow conjunct1 [OF IH]])
    have frame: "catalog_runs c' = catalog_runs c" "stored c' = stored c" "catalog_node c' = catalog_node c" using IH by simp_all
    have dn: "dom (find_definition c') = insert (key_of d) (dom (find_definition c)) \<union> key_of ` set ds"
      "\<forall>x \<in> set ds. map_option digest (find_definition c' (key_of x)) = Some (digest x)" if "out' = Inr a" for a
      using IH [unfolded dom] that by blast+
    have "catalog_ok c \<Longrightarrow> \<forall>x \<in> set (d # ds). wf_offer x \<Longrightarrow> catalog_ok c'" using IH ok by simp
    then show ?thesis using le frame mine rest(2) dn by (cases out') (simp, simp)
  next
    case (Some l)
    show ?thesis
    proof (cases "digest l = digest d")
      case True
      then have rest: "merge_definitions ds c = (c', out)" using Cons.prems Some by simp
      note IH = Cons.IH [OF rest]
      have "find_definition c' (key_of d) = Some l" by (rule map_leD [OF conjunct1 [OF IH] Some])
      moreover have "insert (key_of d) (dom (find_definition c)) = dom (find_definition c)" using Some by blast
      ultimately show ?thesis using IH True by auto
    next
      case False
      then show ?thesis using Cons.prems Some by auto
    qed
  qed
qed auto

lemma admit_run_True:
  assumes "admit_run c r = Inr True"
  shows "dict_get (catalog_runs c) (run_id r) = None"
    "\<And>i q. dict_ok (catalog_runs c) \<Longrightarrow> dict_get (catalog_runs c) i = Some q \<Longrightarrow> run_id q = i \<Longrightarrow> idempotency_key q \<noteq> idempotency_key r"
    "run_id r \<noteq> [] \<Longrightarrow> run_owner r \<noteq> [] \<Longrightarrow> run_ok c r"
proof -
  have none: "\<forall>x \<in> set (map snd (catalog_runs c)). idempotency_key x = idempotency_key r \<longrightarrow> run_id x = run_id r"
    and get: "dict_get (catalog_runs c) (run_id r) = None"
    and d: "\<exists>d. catalog_definition c (run_definition_id r) (Some (run_revision r)) = Inr d \<and> digest d = run_digest r"
    using assms by (auto simp: admit_run_def bind_result_Inr_iff split: if_splits option.splits)
  show "dict_get (catalog_runs c) (run_id r) = None" by (rule get)
  show "run_id r \<noteq> [] \<Longrightarrow> run_owner r \<noteq> [] \<Longrightarrow> run_ok c r" using d by (auto simp: run_ok_def catalog_definition_exact)
  show "idempotency_key q \<noteq> idempotency_key r"
    if "dict_ok (catalog_runs c)" "dict_get (catalog_runs c) i = Some q" "run_id q = i" for i q
    using none get that runs_by_key [OF that(1), of q] by (metis option.distinct(1))
qed

lemma admit_run_False: "admit_run c r = Inr False \<Longrightarrow> dict_get (catalog_runs c) (run_id r) = Some r"
  by (auto simp: admit_run_def bind_result_Inr_iff split: if_splits option.splits)

lemma merge_runs_spec:
  assumes "merge_runs rs c = (c', out)"
  shows "dict_get (catalog_runs c) \<subseteq>\<^sub>m dict_get (catalog_runs c') \<and> find_definition c' = find_definition c \<and> stored c' = stored c
    \<and> catalog_node c' = catalog_node c
    \<and> (\<forall>added. out = Inr added \<longrightarrow> dom (dict_get (catalog_runs c')) = dom (dict_get (catalog_runs c)) \<union> run_id ` set rs
        \<and> (\<forall>r \<in> set rs. dict_get (catalog_runs c') (run_id r) = Some r) \<and> (added = [] \<longrightarrow> c' = c))
    \<and> (catalog_ok c \<longrightarrow> (\<forall>r \<in> set rs. run_id r \<noteq> [] \<and> run_owner r \<noteq> []) \<longrightarrow> catalog_ok c')"
  using assms
proof (induction rs arbitrary: c out)
  case (Cons r rs)
  show ?case
  proof (cases "admit_run c r")
    case (Inl e)
    then show ?thesis using Cons.prems by auto
  next
    case (Inr b)
    show ?thesis
    proof (cases b)
      case True
      have adm: "admit_run c r = Inr True" using Inr True by simp
      note new = admit_run_True [OF adm]
      obtain out' where rest: "merge_runs rs (put_run r c) = (c', out')" "out = bind_result out' (\<lambda>added. Inr (r # added))"
        using Cons.prems Inr True by (auto split: prod.splits)
      note IH = Cons.IH [OF rest(1)]
      have grow: "dict_get (catalog_runs c) \<subseteq>\<^sub>m dict_get (catalog_runs (put_run r c))" using new(1) by (auto simp: map_le_def)
      have mine: "dict_get (catalog_runs c') (run_id r) = Some r" by (rule map_leD [OF conjunct1 [OF IH]]) simp
      have dom: "dom (dict_get (catalog_runs (put_run r c))) = insert (run_id r) (dom (dict_get (catalog_runs c)))" by auto
      have same: "find_definition (put_run r c) = find_definition c" by (rule ext) simp
      have ok: "catalog_ok (put_run r c)" if "catalog_ok c" "run_id r \<noteq> []" "run_owner r \<noteq> []"
        by (rule put_run_ok [OF that(1) new(3) [OF that(2,3)] new(1) new(2)])
           (use that(1) in \<open>auto simp: catalog_ok_def entries_ok_def\<close>)
      have le: "dict_get (catalog_runs c) \<subseteq>\<^sub>m dict_get (catalog_runs c')" by (rule map_le_trans [OF grow conjunct1 [OF IH]])
      have frame: "find_definition c' = find_definition c" "stored c' = stored c" "catalog_node c' = catalog_node c"
        using IH same by simp_all
      have dn: "dom (dict_get (catalog_runs c')) = insert (run_id r) (dom (dict_get (catalog_runs c))) \<union> run_id ` set rs"
        "\<forall>x \<in> set rs. dict_get (catalog_runs c') (run_id x) = Some x" if "out' = Inr a" for a
        using IH [unfolded dom] that by blast+
      have "catalog_ok c \<Longrightarrow> \<forall>x \<in> set (r # rs). run_id x \<noteq> [] \<and> run_owner x \<noteq> [] \<Longrightarrow> catalog_ok c'" using IH ok by simp
      then show ?thesis using le frame mine rest(2) dn by (cases out') (simp, simp)
    next
      case False
      then have l: "dict_get (catalog_runs c) (run_id r) = Some r" using admit_run_False Inr by simp
      have rest: "merge_runs rs c = (c', out)" using Cons.prems Inr False by simp
      note IH = Cons.IH [OF rest]
      have "dict_get (catalog_runs c') (run_id r) = Some r" by (rule map_leD [OF conjunct1 [OF IH] l])
      moreover have "insert (run_id r) (dom (dict_get (catalog_runs c))) = dom (dict_get (catalog_runs c))" using l by blast
      ultimately show ?thesis using IH by auto
    qed
  qed
qed auto

lemma merge_snapshot_ok:
  assumes "catalog_ok c" and "wf_snapshot s"
  shows "catalog_ok (fst (merge_snapshot s c))"
proof -
  obtain c1 r1 where d: "merge_definitions (offered_definitions s) c = (c1, r1)" by fastforce
  obtain c2 r2 where r: "merge_runs (offered_runs s) c1 = (c2, r2)" by fastforce
  have "catalog_ok c1" using merge_definitions_spec [OF d] assms by (simp add: wf_snapshot_def)
  moreover from this have "catalog_ok c2" using merge_runs_spec [OF r] assms(2) by (simp add: wf_snapshot_def)
  ultimately show ?thesis using d r by (cases r1; cases r2) (simp_all add: merge_snapshot_def)
qed

text \<open>What can be read of a catalogue, and what a snapshot offers: digests of definitions, and runs.\<close>

definition catalog_view :: "task_catalog \<Rightarrow> definition_key + string \<Rightarrow> (string + run_record) option" where
  "catalog_view c k = (case k of
     Inl d \<Rightarrow> map_option (\<lambda>x. Inl (digest x)) (find_definition c d)
   | Inr i \<Rightarrow> map_option Inr (dict_get (catalog_runs c) i))"

definition snapshot_offer :: "catalog_snapshot \<Rightarrow> definition_key + string \<Rightarrow> (string + run_record) option" where
  "snapshot_offer s k = (case k of
     Inl d \<Rightarrow> map_option (\<lambda>x. Inl (digest x)) (map_of (map (\<lambda>x. (key_of x, x)) (offered_definitions s)) d)
   | Inr i \<Rightarrow> map_option Inr (map_of (map (\<lambda>x. (run_id x, x)) (offered_runs s)) i))"

lemma catalog_view_mono:
  assumes "find_definition c \<subseteq>\<^sub>m find_definition c'" and "dict_get (catalog_runs c) \<subseteq>\<^sub>m dict_get (catalog_runs c')"
  shows "catalog_view c \<subseteq>\<^sub>m catalog_view c'"
  unfolding map_le_def
proof
  fix k
  assume "k \<in> dom (catalog_view c)"
  then show "catalog_view c k = catalog_view c' k"
    using map_leD [OF assms(1)] map_leD [OF assms(2)] by (cases k) (auto simp: catalog_view_def dom_def)
qed

lemma dom_sum: "dom f = Inl ` {a. f (Inl a) \<noteq> None} \<union> Inr ` {b. f (Inr b) \<noteq> None}"
proof (rule set_eqI)
  fix k
  show "k \<in> dom f \<longleftrightarrow> k \<in> Inl ` {a. f (Inl a) \<noteq> None} \<union> Inr ` {b. f (Inr b) \<noteq> None}" by (cases k) auto
qed

lemma dom_catalog_view: "dom (catalog_view c) = Inl ` dom (find_definition c) \<union> Inr ` dom (dict_get (catalog_runs c))"
  unfolding dom_sum [of "catalog_view c"] by (simp add: catalog_view_def dom_def)

lemma dom_keyed: "{k. map_of (map (\<lambda>x. (f x, x)) xs) k \<noteq> None} = f ` set xs"
  using dom_map_of_conv_image_fst [of "map (\<lambda>x. (f x, x)) xs"] by (simp add: dom_def image_image)

lemma dom_snapshot_offer: "dom (snapshot_offer s) = Inl ` key_of ` set (offered_definitions s) \<union> Inr ` run_id ` set (offered_runs s)"
  unfolding dom_sum [of "snapshot_offer s"] by (simp add: snapshot_offer_def flip: dom_keyed)

lemma map_of_keyed: "map_of (map (\<lambda>x. (f x, x)) xs) k = Some x \<Longrightarrow> x \<in> set xs \<and> f x = k"
  by (auto dest!: map_of_SomeD)

lemma catalog_view_persist [simp]: "catalog_view (persist_catalog c) = catalog_view c"
  by (simp add: catalog_view_def fun_eq_iff split: sum.split)

lemma merge_snapshot_parts:
  obtains c1 r1 c2 r2 where "merge_definitions (offered_definitions s) c = (c1, r1)" "merge_runs (offered_runs s) c1 = (c2, r2)"
    "merge_snapshot s c = (case r1 of Inl e \<Rightarrow> (c1, Inl e) | Inr ds \<Rightarrow>
       (case r2 of Inl e \<Rightarrow> (c2, Inl e) | Inr rs \<Rightarrow> (if ds = [] \<and> rs = [] then c2 else persist_catalog c2, Inr (ds, rs))))"
proof -
  obtain c1 r1 where d: "merge_definitions (offered_definitions s) c = (c1, r1)" by fastforce
  obtain c2 r2 where r: "merge_runs (offered_runs s) c1 = (c2, r2)" by fastforce
  show thesis by (rule that [OF d r]) (simp add: merge_snapshot_def d r split: sum.split)
qed

lemma merge_snapshot_grows: "catalog_view c \<subseteq>\<^sub>m catalog_view (fst (merge_snapshot s c))"
proof (rule merge_snapshot_parts [of s c])
  fix c1 r1 c2 r2
  assume d: "merge_definitions (offered_definitions s) c = (c1, r1)" and r: "merge_runs (offered_runs s) c1 = (c2, r2)"
    and m: "merge_snapshot s c = (case r1 of Inl e \<Rightarrow> (c1, Inl e) | Inr ds \<Rightarrow>
       (case r2 of Inl e \<Rightarrow> (c2, Inl e) | Inr rs \<Rightarrow> (if ds = [] \<and> rs = [] then c2 else persist_catalog c2, Inr (ds, rs))))"
  have le1: "catalog_view c \<subseteq>\<^sub>m catalog_view c1" by (rule catalog_view_mono) (use merge_definitions_spec [OF d] in simp_all)
  have le2: "catalog_view c1 \<subseteq>\<^sub>m catalog_view c2" by (rule catalog_view_mono) (use merge_runs_spec [OF r] in simp_all)
  show ?thesis using le1 map_le_trans [OF le1 le2] by (simp add: m split: sum.split)
qed

lemma merge_snapshot_takes:
  assumes "merge_snapshot s c = (c', Inr x)"
  shows "snapshot_offer s \<subseteq>\<^sub>m catalog_view c' \<and> dom (catalog_view c') = dom (catalog_view c) \<union> dom (snapshot_offer s)"
proof (rule merge_snapshot_parts [of s c])
  fix c1 r1 c2 r2
  assume d': "merge_definitions (offered_definitions s) c = (c1, r1)" and r': "merge_runs (offered_runs s) c1 = (c2, r2)"
    and m: "merge_snapshot s c = (case r1 of Inl e \<Rightarrow> (c1, Inl e) | Inr ds \<Rightarrow>
       (case r2 of Inl e \<Rightarrow> (c2, Inl e) | Inr rs \<Rightarrow> (if ds = [] \<and> rs = [] then c2 else persist_catalog c2, Inr (ds, rs))))"
  obtain ds where ds: "r1 = Inr ds" using m assms by (cases r1) simp_all
  obtain rs where rs: "r2 = Inr rs" using m assms ds by (cases r2) simp_all
  note D = merge_definitions_spec [OF d' [unfolded ds]] and R = merge_runs_spec [OF r' [unfolded rs]]
  have "fst (merge_snapshot s c) = (if ds = [] \<and> rs = [] then c2 else persist_catalog c2)" by (simp add: m ds rs)
  then have view: "catalog_view c' = catalog_view c2" by (simp add: assms)
  have dig: "\<And>x. x \<in> set (offered_definitions s) \<Longrightarrow> map_option digest (find_definition c2 (key_of x)) = Some (digest x)"
    and run: "\<And>x. x \<in> set (offered_runs s) \<Longrightarrow> dict_get (catalog_runs c2) (run_id x) = Some x"
    and doms: "dom (find_definition c2) = dom (find_definition c) \<union> key_of ` set (offered_definitions s)"
      "dom (dict_get (catalog_runs c2)) = dom (dict_get (catalog_runs c)) \<union> run_id ` set (offered_runs s)"
    using D R by simp_all
  have "snapshot_offer s \<subseteq>\<^sub>m catalog_view c2" unfolding map_le_def
  proof
    fix k
    assume k: "k \<in> dom (snapshot_offer s)"
    show "snapshot_offer s k = catalog_view c2 k"
    proof (cases k)
      case (Inl a)
      then obtain x where x: "map_of (map (\<lambda>x. (key_of x, x)) (offered_definitions s)) a = Some x"
        using k by (auto simp: snapshot_offer_def)
      show ?thesis using dig [of x] map_of_keyed [OF x] x Inl by (auto simp: snapshot_offer_def catalog_view_def)
    next
      case (Inr i)
      then obtain x where x: "map_of (map (\<lambda>x. (run_id x, x)) (offered_runs s)) i = Some x"
        using k by (auto simp: snapshot_offer_def)
      show ?thesis using run [of x] map_of_keyed [OF x] x Inr by (auto simp: snapshot_offer_def catalog_view_def)
    qed
  qed
  moreover have "dom (catalog_view c2) = dom (catalog_view c) \<union> dom (snapshot_offer s)"
    unfolding dom_catalog_view dom_snapshot_offer doms image_Un by (simp only: Un_ac)
  ultimately show ?thesis unfolding view by blast
qed

interpretation catalog: growing_replica merge_snapshot catalog_view snapshot_offer
  by unfold_locales (rule merge_snapshot_grows, rule merge_snapshot_takes)

section \<open>The file\<close>

lemma put_definition_upd: "find_definition (put_definition d c) = (find_definition c)(key_of d \<mapsto> d)"
  by (rule ext) simp

lemma put_run_upd: "dict_get (catalog_runs (put_run r c)) = (dict_get (catalog_runs c))(run_id r \<mapsto> r)"
  by (rule ext) simp

lemma fold_put_definition:
  "find_definition (fold put_definition ds c) = find_definition c ++ map_of (rev (map (\<lambda>d. (key_of d, d)) ds))"
  by (induction ds arbitrary: c) (simp_all add: put_definition_upd del: find_put)

lemma fold_put_run:
  "dict_get (catalog_runs (fold put_run rs c)) = dict_get (catalog_runs c) ++ map_of (rev (map (\<lambda>r. (run_id r, r)) rs))"
  by (induction rs arbitrary: c) (simp_all add: put_run_upd del: put_frame)

lemma fold_put_frame [simp]:
  "catalog_runs (fold put_definition ds c) = catalog_runs c"
  by (induction ds arbitrary: c) simp_all

lemma fold_put_run_frame [simp]:
  "catalog_definitions (fold put_run rs c) = catalog_definitions c" "find_definition (fold put_run rs c) k = find_definition c k"
  by (induction rs arbitrary: c; simp)+

lemma fold_put_stored: "stored (fold put_definition ds c) = stored c" "stored (fold put_run rs c) = stored c"
proof -
  show "stored (fold put_definition ds c) = stored c" by (induction ds arbitrary: c) simp_all
  show "stored (fold put_run rs c) = stored c" by (induction rs arbitrary: c) simp_all
qed

lemma sorted_keyed:
  assumes "distinct (map fst xs)" and "\<forall>(k, v) \<in> set xs. f v = k"
  shows "map_of (map (\<lambda>v. (f v, v)) (map snd (sort_key fst xs))) = map_of xs"
    "map_of (rev (map (\<lambda>v. (f v, v)) (map snd (sort_key fst xs)))) = map_of xs"
proof -
  have e: "map (\<lambda>v. (f v, v)) (map snd (sort_key fst xs)) = sort_key fst xs"
    unfolding map_map by (rule map_idI) (use assms(2) in auto)
  have d: "distinct (map fst (sort_key fst xs))" using assms(1) by (metis distinct_map distinct_sort set_sort)
  show "map_of (rev (map (\<lambda>v. (f v, v)) (map snd (sort_key fst xs)))) = map_of xs"
    unfolding e using d assms(1) map_of_inject_set [of "rev (sort_key fst xs)" xs] by (simp flip: rev_map)
  show "map_of (map (\<lambda>v. (f v, v)) (map snd (sort_key fst xs))) = map_of xs"
    unfolding e using d assms(1) map_of_inject_set [of "sort_key fst xs" xs] by simp
qed

lemma persisted_view:
  assumes "catalog_ok c"
  shows "find_definition (load_catalog n (stored (persist_catalog c))) = find_definition c"
    "dict_get (catalog_runs (load_catalog n (stored (persist_catalog c)))) = dict_get (catalog_runs c)"
proof -
  have keys: "distinct (map fst (catalog_definitions c))" "dict_ok (catalog_runs c)"
    "\<forall>(k, v) \<in> set (catalog_definitions c). key_of v = k"
    using assms by (auto simp: catalog_ok_def entries_ok_def find_definition_def)
  moreover have "\<forall>(i, r) \<in> set (catalog_runs c). run_id r = i"
    using assms dict_get_iff [OF keys(2)] by (auto simp: catalog_ok_def)
  ultimately have s: "map_of (rev (map (\<lambda>d. (key_of d, d)) (list_definitions c))) = map_of (catalog_definitions c)"
    "map_of (rev (map (\<lambda>r. (run_id r, r)) (list_runs c))) = map_of (catalog_runs c)"
    using sorted_keyed(2) [of "catalog_definitions c" key_of] sorted_keyed(2) [of "catalog_runs c" run_id]
    by (simp_all only: list_definitions_def list_runs_def dict_ok_def)
  let ?c = "\<lparr>catalog_node = n, catalog_definitions = [], catalog_runs = [], stored = stored (persist_catalog c)\<rparr>"
  have l: "load_catalog n (stored (persist_catalog c)) = fold put_run (list_runs c) (fold put_definition (list_definitions c) ?c)"
    by (simp add: load_catalog_def persist_catalog_def)
  have empty: "find_definition ?c = Map.empty" by (simp add: find_definition_def fun_eq_iff)
  have "find_definition (load_catalog n (stored (persist_catalog c))) = find_definition (fold put_definition (list_definitions c) ?c)"
    unfolding l by (rule ext) simp
  then show "find_definition (load_catalog n (stored (persist_catalog c))) = find_definition c"
    by (simp add: fold_put_definition s empty) (simp add: find_definition_def fun_eq_iff)
  show "dict_get (catalog_runs (load_catalog n (stored (persist_catalog c)))) = dict_get (catalog_runs c)"
    unfolding l fold_put_run s by (simp add: dict_get_def fun_eq_iff map_add_def split: option.split)
qed

lemma load_distinct: "distinct (map fst (catalog_definitions (load_catalog n f))) \<and> dict_ok (catalog_runs (load_catalog n f))"
proof -
  have "distinct (map fst (catalog_definitions c)) \<Longrightarrow> distinct (map fst (catalog_definitions (fold put_definition ds c)))" for ds c
    by (induction ds arbitrary: c) (simp_all add: put_definition_def distinct_update)
  moreover have "dict_ok (catalog_runs c) \<Longrightarrow> dict_ok (catalog_runs (fold put_run rs c))" for rs c
    by (induction rs arbitrary: c) simp_all
  ultimately show ?thesis by (simp add: load_catalog_def Let_def split: option.split)
qed

lemma catalog_ok_cong:
  assumes "catalog_ok c" and "find_definition c' = find_definition c" and "dict_get (catalog_runs c') = dict_get (catalog_runs c)"
    and "distinct (map fst (catalog_definitions c'))" "dict_ok (catalog_runs c')"
  shows "catalog_ok c'"
  using assms(1) unfolding catalog_ok_def entries_ok_def run_ok_def assms(2,3) using assms(4,5) by blast

lemma reload_ok:
  assumes "catalog_ok c"
  shows "catalog_ok (load_catalog n (stored (persist_catalog c)))"
  by (rule catalog_ok_cong [OF assms persisted_view [OF assms]]) (use load_distinct in blast)+

lemma empty_catalog_ok: "catalog_ok (load_catalog n None)" "catalog_view (load_catalog n None) = Map.empty"
  by (simp_all add: load_catalog_def catalog_ok_def entries_ok_def find_definition_def catalog_view_def fun_eq_iff split: sum.split)

lemma reload_view: "catalog_ok c \<Longrightarrow> catalog_view (load_catalog n (stored (persist_catalog c))) = catalog_view c"
  by (simp add: catalog_view_def fun_eq_iff persisted_view split: sum.split)

section \<open>Histories\<close>

text \<open>The file is that of an earlier catalogue, whose entries the current one still holds.\<close>

definition file_ok :: "task_catalog \<Rightarrow> bool" where
  "file_ok c \<longleftrightarrow> stored c = None
   \<or> (\<exists>c0. catalog_ok c0 \<and> stored c = stored (persist_catalog c0) \<and> catalog_view c0 \<subseteq>\<^sub>m catalog_view c)"

inductive catalog_step :: "task_catalog \<Rightarrow> task_catalog \<Rightarrow> bool" where
  register: "wf_submission s \<Longrightarrow> register_submission digest_of s origin now c = (c', d, b) \<Longrightarrow> catalog_step c c'"
| run: "create_run run_digest_of fresh s owner origin now c = (c', r) \<Longrightarrow> owner \<noteq> [] \<Longrightarrow>
    dict_get (catalog_runs c) (''run-'' @ fresh) = None \<Longrightarrow> catalog_step c c'"
| merge: "wf_snapshot s \<Longrightarrow> merge_snapshot s c = (c', out) \<Longrightarrow> catalog_step c c'"
| restart: "catalog_step c (load_catalog (catalog_node c) (stored c))"

inductive catalog_reachable :: "node_id \<Rightarrow> task_catalog \<Rightarrow> bool" for n where
  start: "catalog_reachable n (load_catalog n None)"
| step: "catalog_reachable n c \<Longrightarrow> catalog_step c c' \<Longrightarrow> catalog_reachable n c'"

lemma file_ok_grown:
  assumes "file_ok c" and "stored c' = stored c" and "catalog_view c \<subseteq>\<^sub>m catalog_view c'"
  shows "file_ok c'"
  using assms map_le_trans unfolding file_ok_def by metis

lemma file_ok_persisted: "catalog_ok c \<Longrightarrow> file_ok (persist_catalog c)"
  unfolding file_ok_def by (metis catalog_view_persist map_le_refl)

lemma file_ok_reload: "file_ok c \<Longrightarrow> catalog_view (load_catalog n (stored c)) \<subseteq>\<^sub>m catalog_view c"
  using reload_view empty_catalog_ok(2) unfolding file_ok_def by (metis map_le_empty)

lemma snapshot_offer_own: "catalog_ok c \<Longrightarrow> snapshot_offer (snapshot_of c) = catalog_view c"
proof -
  assume ok: "catalog_ok c"
  have keys: "distinct (map fst (catalog_definitions c))" "dict_ok (catalog_runs c)"
    "\<forall>(k, v) \<in> set (catalog_definitions c). key_of v = k"
    using ok by (auto simp: catalog_ok_def entries_ok_def find_definition_def)
  moreover have "\<forall>(i, r) \<in> set (catalog_runs c). run_id r = i"
    using ok dict_get_iff [OF keys(2)] by (auto simp: catalog_ok_def)
  ultimately have "map_of (map (\<lambda>d. (key_of d, d)) (list_definitions c)) = map_of (catalog_definitions c)"
    "map_of (map (\<lambda>r. (run_id r, r)) (list_runs c)) = map_of (catalog_runs c)"
    using sorted_keyed [of "catalog_definitions c" key_of] sorted_keyed [of "catalog_runs c" run_id]
    by (simp_all only: list_definitions_def list_runs_def dict_ok_def)
  then show ?thesis
    by (simp add: snapshot_offer_def snapshot_of_def catalog_view_def find_definition_def dict_get_def fun_eq_iff split: sum.split)
qed

lemma next_revision_fresh: "d \<in> set ds \<Longrightarrow> revision d < next_revision ds" "1 \<le> next_revision ds"
proof -
  have n: "next_revision ds = Max (set (0 # map revision ds)) + 1" by (simp only: next_revision_def Max.set_eq_fold)
  show "d \<in> set ds \<Longrightarrow> revision d < next_revision ds" unfolding n by (intro zle_add1_eq_le [THEN iffD2] Max_ge) simp_all
  show "1 \<le> next_revision ds" using Max_ge [of "set (0 # map revision ds)" 0] unfolding n by simp
qed

section \<open>Every operation keeps the invariant\<close>

lemma find_SomeD: "find P xs = Some x \<Longrightarrow> x \<in> set xs \<and> P x"
  by (induction xs) (auto split: if_splits)

lemma register_spec:
  assumes "register_submission digest_of s origin now c = (c', d, b)" and "catalog_ok c" and "wf_submission s"
  shows "catalog_ok c' \<and> catalog_view c \<subseteq>\<^sub>m catalog_view c' \<and> (stored c' = stored c \<and> c' = c \<or> (\<exists>x. c' = persist_catalog x))
    \<and> definition_id d = definition_id s \<and> digest d = digest_of s \<and> find_definition c' (key_of d) = Some d"
proof -
  let ?ex = "filter (\<lambda>d. definition_id d = definition_id s) (map snd (catalog_definitions c))"
  have E: "entries_ok c" using assms(2) by (simp add: catalog_ok_def)
  show ?thesis
  proof (cases "find (\<lambda>d. digest d = digest_of s) ?ex")
    case (Some x)
    then have x: "x \<in> set ?ex" "digest x = digest_of s" using find_SomeD by fast+
    then obtain k where "find_definition c k = Some x"
      using E by (auto simp: entries_ok_def find_definition_def)
    then have "find_definition c (key_of x) = Some x" using E unfolding entries_ok_def by metis
    then show ?thesis using x assms(1,2) Some by (auto simp: register_submission_def)
  next
    case None
    let ?d = "definition_submission.extend s \<lparr>revision = next_revision ?ex, digest = digest_of s, definition_origin = origin,
                        definition_created_at = now\<rparr>"
    have out: "c' = persist_catalog (put_definition ?d c)" "d = ?d" using None assms(1) by (auto simp: register_submission_def Let_def)
    have f: "definition_id ?d = definition_id s" "revision ?d = next_revision ?ex" "digest ?d = digest_of s"
      "wf_submission ?d" using assms(3) by (simp_all add: definition_submission.defs wf_submission_def)
    have new: "find_definition c (key_of ?d) = None"
    proof (rule ccontr)
      assume "find_definition c (key_of ?d) \<noteq> None"
      then obtain x where x: "find_definition c (key_of ?d) = Some x" by blast
      then have "key_of x = key_of ?d" using E unfolding entries_ok_def by blast
      moreover have "x \<in> set (map snd (catalog_definitions c))" using x by (force simp: find_definition_def dest!: map_of_SomeD)
      ultimately have "x \<in> set ?ex" "revision x = next_revision ?ex" using f by (simp_all add: key_of_def)
      then show False using next_revision_fresh(1) by fastforce
    qed
    have "wf_offer ?d" using f next_revision_fresh(2) by (simp add: wf_offer_def)
    then have ok: "catalog_ok (put_definition ?d c)" using put_definition_ok [OF assms(2) _ new] by blast
    have "catalog_view c \<subseteq>\<^sub>m catalog_view (put_definition ?d c)"
      by (rule catalog_view_mono) (use new in \<open>auto simp: map_le_def\<close>)
    then show ?thesis using ok out f by auto
  qed
qed

lemma catalog_definition_holds:
  assumes "catalog_definition c i wanted = Inr d" and "catalog_ok c"
  shows "find_definition c (key_of d) = Some d"
proof -
  define cs where "cs = map snd (filter (\<lambda>((j, _), _). j = i) (catalog_definitions c))"
  have E: "distinct (map fst (catalog_definitions c))" "\<And>k x. find_definition c k = Some x \<Longrightarrow> key_of x = k"
    using assms(2) by (auto simp: catalog_ok_def entries_ok_def)
  show ?thesis
  proof (cases wanted)
    case (Some r)
    then have "find_definition c (i, r) = Some d" using assms(1) catalog_definition_exact by simp
    then show ?thesis using E(2) by auto
  next
    case None
    let ?best = "filter (\<lambda>d. \<forall>e \<in> set cs. revision e \<le> revision d) cs"
    have ne: "cs \<noteq> []" and d: "d = hd ?best" using assms(1) None by (simp_all add: catalog_definition_def Let_def cs_def [symmetric] split: if_splits)
    have "Max (revision ` set cs) \<in> revision ` set cs" using ne by (intro Max_in) auto
    then obtain x where "x \<in> set cs" "\<forall>e \<in> set cs. revision e \<le> revision x" by (metis (no_types, lifting) Max_ge finite_imageI finite_set image_eqI imageE)
    then have "?best \<noteq> []" by (auto simp: filter_empty_conv)
    then have "d \<in> set cs" using d hd_in_set [of ?best] by auto
    then obtain k where "(k, d) \<in> set (catalog_definitions c)" by (auto simp: cs_def)
    then have "find_definition c k = Some d" using E(1) by (simp add: find_definition_def)
    then show ?thesis using E(2) by auto
  qed
qed

lemma create_run_spec:
  assumes "create_run digest_of fresh s owner origin now c = (c', out)" and "catalog_ok c" and "owner \<noteq> []"
    and "dict_get (catalog_runs c) (''run-'' @ fresh) = None"
  shows "catalog_ok c' \<and> catalog_view c \<subseteq>\<^sub>m catalog_view c' \<and> (stored c' = stored c \<and> c' = c \<or> (\<exists>x. c' = persist_catalog x))
    \<and> (\<forall>r b. out = Inr (r, b) \<longrightarrow> dict_get (catalog_runs c') (run_id r) = Some r \<and> idempotency_key r = wanted_key s
         \<and> request_digest r = digest_of s)"
proof (cases "find (\<lambda>r. idempotency_key r = wanted_key s) (map snd (catalog_runs c))")
  case (Some r)
  then have r: "r \<in> set (map snd (catalog_runs c))" "idempotency_key r = wanted_key s" using find_SomeD by fast+
  have "dict_ok (catalog_runs c)" using assms(2) by (simp add: catalog_ok_def entries_ok_def)
  then obtain i where "dict_get (catalog_runs c) i = Some r" using r(1) runs_by_key by blast
  then have "dict_get (catalog_runs c) (run_id r) = Some r" using assms(2) by (auto simp: catalog_ok_def)
  then show ?thesis using assms(1,2) Some r(2) by (auto simp: create_run_def split: if_splits)
next
  case None
  show ?thesis
  proof (cases "catalog_definition c (wanted_definition s) (wanted_revision s)")
    case (Inl e)
    then show ?thesis using None assms(1,2) by (auto simp: create_run_def)
  next
    case (Inr d)
    let ?r = "\<lparr>run_id = ''run-'' @ fresh, run_definition_id = definition_id d, run_revision = revision d,
                        run_digest = digest d, run_origin = origin, run_owner = owner, idempotency_key = wanted_key s,
                        request_digest = digest_of s, auto_start = wanted_start s, labels = wanted_labels s,
                        run_created_at = now\<rparr>"
    have out: "c' = persist_catalog (put_run ?r c)" "out = Inr (?r, True)"
      using None Inr assms(1) by (simp_all add: create_run_def Let_def)
    have "find_definition c (key_of d) = Some d" using Inr assms(2) by (rule catalog_definition_holds)
    then have "run_ok c ?r" using assms(3) by (auto simp: run_ok_def key_of_def)
    moreover have "dict_get (catalog_runs c) i = Some q \<Longrightarrow> idempotency_key q \<noteq> wanted_key s" for i q
      using None dict_get_SomeD [of "catalog_runs c" i q] by (force simp: find_None_iff)
    ultimately have "catalog_ok (put_run ?r c)" using put_run_ok [OF assms(2), of ?r] assms(4) by auto
    moreover have "catalog_view c \<subseteq>\<^sub>m catalog_view (put_run ?r c)"
      by (rule catalog_view_mono) (use assms(4) in \<open>auto simp: map_le_def\<close>)
    ultimately show ?thesis using out by auto
  qed
qed

lemma merge_step:
  assumes "merge_snapshot s c = (c', out)" and "catalog_ok c" and "wf_snapshot s"
  shows "catalog_ok c' \<and> catalog_view c \<subseteq>\<^sub>m catalog_view c' \<and> (stored c' = stored c \<or> (\<exists>x. c' = persist_catalog x))"
proof (rule merge_snapshot_parts [of s c])
  fix c1 r1 c2 r2
  assume d: "merge_definitions (offered_definitions s) c = (c1, r1)" and r: "merge_runs (offered_runs s) c1 = (c2, r2)"
    and m: "merge_snapshot s c = (case r1 of Inl e \<Rightarrow> (c1, Inl e) | Inr ds \<Rightarrow>
       (case r2 of Inl e \<Rightarrow> (c2, Inl e) | Inr rs \<Rightarrow> (if ds = [] \<and> rs = [] then c2 else persist_catalog c2, Inr (ds, rs))))"
  have "stored c1 = stored c" "stored c2 = stored c" using merge_definitions_spec [OF d] merge_runs_spec [OF r] by simp_all
  then have "stored (fst (merge_snapshot s c)) = stored c \<or> (\<exists>x. fst (merge_snapshot s c) = persist_catalog x)"
    unfolding m by (auto split: sum.split)
  then show ?thesis using merge_snapshot_ok [OF assms(2,3)] merge_snapshot_grows [of c s] assms(1) by simp
qed

lemma catalog_step_keeps:
  assumes "catalog_step c c'" and "catalog_ok c" and "file_ok c"
  shows "catalog_ok c' \<and> file_ok c'"
proof -
  have settle: "file_ok k" if "catalog_ok k" "catalog_view c \<subseteq>\<^sub>m catalog_view k" "stored k = stored c \<or> (\<exists>x. k = persist_catalog x)" for k
    using that file_ok_grown [OF assms(3)] file_ok_persisted by (metis catalog_ok_persist)
  show ?thesis using assms(1)
  proof cases
    case (register s digest_of origin now d b)
    then show ?thesis using register_spec [OF register(2) assms(2) register(1)] settle [of c'] by blast
  next
    case (run run_digest_of fresh s owner origin now r)
    then show ?thesis using create_run_spec [OF run(1) assms(2) run(2,3)] settle [of c'] by blast
  next
    case (merge s out)
    then show ?thesis using merge_step [OF merge(2) assms(2) merge(1)] settle [of c'] by blast
  next
    case restart
    show ?thesis
    proof (cases "stored c")
      case None
      then show ?thesis using restart empty_catalog_ok(1) by (simp add: file_ok_def load_catalog_def)
    next
      case (Some f)
      then obtain c0 where c0: "catalog_ok c0" "stored c = stored (persist_catalog c0)" using assms(3) by (auto simp: file_ok_def)
      have "stored c' = stored c" using restart
        by (simp add: load_catalog_def Let_def fold_put_stored split: option.split prod.split)
      moreover have "catalog_view c' = catalog_view c0"
        using persisted_view [OF c0(1), of "catalog_node c"] restart c0(2) by (simp add: catalog_view_def fun_eq_iff split: sum.split)
      ultimately show ?thesis using reload_ok [OF c0(1)] restart c0 unfolding file_ok_def by (metis map_le_refl)
    qed
  qed
qed

lemma catalog_reachable_ok: "catalog_reachable n c \<Longrightarrow> catalog_ok c \<and> file_ok c"
proof (induction rule: catalog_reachable.induct)
  case start
  then show ?case using empty_catalog_ok(1) by (simp add: file_ok_def load_catalog_def)
qed (use catalog_step_keeps in blast)

section \<open>Runs\<close>

lemma materialize_wf:
  assumes "wf_submission d" and "run \<noteq> []" and "owner \<noteq> []"
  shows "wf_definition (materialize d run owner)"
  using assms by (simp add: wf_definition_def wf_submission_def materialize_def wf_profile_def wf_template_def validate_artifacts_def)

lemma materialize_run_ok:
  assumes "catalog_ok c" and "dict_get (catalog_runs c) i = Some r"
  shows "\<exists>d. materialize_run c r = Inr d \<and> wf_definition d \<and> profile_task_id (profile d) = run_id r \<and> current_node_id (profile d) = run_owner r"
proof -
  have r: "run_ok c r" using assms by (simp add: catalog_ok_def)
  then obtain d where d: "find_definition c (run_definition_id r, run_revision r) = Some d" "digest d = run_digest r"
    by (auto simp: run_ok_def)
  then have "wf_submission d" using assms(1) by (simp add: catalog_ok_def entries_ok_def)
  then have "wf_definition (materialize d (run_id r) (run_owner r))" using materialize_wf r by (simp add: run_ok_def)
  then show ?thesis using d by (simp add: materialize_run_def catalog_definition_exact [THEN iffD2]) (simp add: materialize_def)
qed

lemma collect_results_ok:
  assumes "\<And>x. x \<in> set xs \<Longrightarrow> \<exists>y. f x = Inr y \<and> P x y"
  shows "\<exists>ys. collect_results (map f xs) = Inr ys \<and> list_all2 P xs ys"
  using assms
proof (induction xs)
  case (Cons x xs)
  obtain y where "f x = Inr y" "P x y" using Cons.prems by fastforce
  moreover obtain ys where "collect_results (map f xs) = Inr ys" "list_all2 P xs ys" using Cons by fastforce
  ultimately show ?case by auto
qed simp

lemma list_runs_held: "r \<in> set (list_runs c) \<Longrightarrow> dict_ok (catalog_runs c) \<Longrightarrow> \<exists>i. dict_get (catalog_runs c) i = Some r"
  using dict_get_iff [of "catalog_runs c" _ r] by (auto simp: list_runs_def)

lemma materialized_ok:
  assumes "catalog_ok c"
  shows "\<exists>ds. materialized_definitions c = Inr ds
    \<and> list_all2 (\<lambda>r d. wf_definition d \<and> profile_task_id (profile d) = run_id r \<and> current_node_id (profile d) = run_owner r) (list_runs c) ds"
  unfolding materialized_definitions_def
proof (rule collect_results_ok)
  fix r
  assume "r \<in> set (list_runs c)"
  then obtain i where "dict_get (catalog_runs c) i = Some r" using list_runs_held [of r c] assms unfolding catalog_ok_def entries_ok_def by blast
  then show "\<exists>d. materialize_run c r = Inr d \<and> wf_definition d \<and> profile_task_id (profile d) = run_id r \<and> current_node_id (profile d) = run_owner r"
    by (rule materialize_run_ok [OF assms])
qed

lemma only_run_found:
  assumes "catalog_ok c" and "dict_get (catalog_runs c) i = Some r" and "idempotency_key r = key"
  shows "find (\<lambda>x. idempotency_key x = key) (map snd (catalog_runs c)) = Some r"
proof -
  have d: "dict_ok (catalog_runs c)" using assms(1) by (simp add: catalog_ok_def entries_ok_def)
  have "r \<in> set (map snd (catalog_runs c))" using runs_by_key [OF d] assms(2) by blast
  then have "find (\<lambda>x. idempotency_key x = key) (map snd (catalog_runs c)) \<noteq> None"
    using assms(3) by (auto simp: find_None_iff)
  then obtain q where q: "find (\<lambda>x. idempotency_key x = key) (map snd (catalog_runs c)) = Some q" by blast
  then have "q \<in> set (map snd (catalog_runs c))" "idempotency_key q = key" using find_SomeD by fast+
  moreover from this obtain j where j: "dict_get (catalog_runs c) j = Some q" using runs_by_key [OF d] by blast
  ultimately have "j = i" using assms unfolding catalog_ok_def by metis
  then show ?thesis using q j assms(2) by simp
qed

end
