(* ===== verification/Reconciliation_Laws.thy ===== *)
theory Reconciliation_Laws
  imports Reconciliation Task_Catalog_Laws Task_Locality
begin

text \<open>
  What a pass of the reconciliation promises: afterwards the node is behind no update it was shown;
  and what it does not: a conflict in the catalogue ends the pass before the first update is read.
\<close>

section \<open>Ownership\<close>

abbreviation known_generation :: "migration_node \<Rightarrow> task_id \<Rightarrow> int \<Rightarrow> bool" where
  "known_generation n t g \<equiv> \<exists>st. get_state (tasks (runtime_of n)) t = Inr st \<and> g \<le> generation st"

text \<open>A step that works on tasks only and lowers no generation.\<close>

definition catching_up :: "migration_node \<Rightarrow> migration_node \<Rightarrow> bool" where
  "catching_up n n' \<longleftrightarrow> (keyed (runtime_of n) \<longrightarrow> keyed (runtime_of n')) \<and> local_id n' = local_id n
   \<and> (keyed (runtime_of n) \<longrightarrow> (\<forall>t g. known_generation n t g \<longrightarrow> known_generation n' t g))"

lemma catching_up_refl [simp]: "catching_up n n"
  by (simp add: catching_up_def)

lemma catching_up_trans: "catching_up n n' \<Longrightarrow> catching_up n' n'' \<Longrightarrow> catching_up n n''"
  unfolding catching_up_def by auto

lemma catching_upD:
  assumes "catching_up n n'" and "keyed (runtime_of n)"
  shows "known_generation n t g \<Longrightarrow> known_generation n' t g"
  using assms unfolding catching_up_def by blast

lemma edit_catching_up:
  assumes "keyed (runtime_of n)" and st: "get_state (tasks (runtime_of n)) t = Inr st" and f: "f st = Store st1"
    and id: "task_state.state_task_id st1 = t" and g: "generation st \<le> generation st1"
  shows "in_runtime (on_tasks f w t) n = (n\<lparr>runtime_of := (runtime_of n)\<lparr>tasks := write_state w st1 (tasks (runtime_of n))\<rparr>\<rparr>,
      Inr (st1\<lparr>task_state.updated_at := w\<rparr>))"
    and "catching_up n (fst (in_runtime (on_tasks f w t) n))"
    and "get_state (tasks (runtime_of (fst (in_runtime (on_tasks f w t) n)))) t = Inr (st1\<lparr>task_state.updated_at := w\<rparr>)"
proof -
  note s = on_tasks_store [of "runtime_of n" t st f st1 w, OF st f]
  show r: "in_runtime (on_tasks f w t) n = (n\<lparr>runtime_of := (runtime_of n)\<lparr>tasks := write_state w st1 (tasks (runtime_of n))\<rparr>\<rparr>,
      Inr (st1\<lparr>task_state.updated_at := w\<rparr>))" by (simp add: in_runtime_def s)
  note get = get_state_write [OF st id, of w]
  show "get_state (tasks (runtime_of (fst (in_runtime (on_tasks f w t) n)))) t = Inr (st1\<lparr>task_state.updated_at := w\<rparr>)"
    by (simp add: r get)
  have "keyed ((runtime_of n)\<lparr>tasks := write_state w st1 (tasks (runtime_of n))\<rparr>)"
    using assms(1) id unfolding keyed_def by (auto simp: get split: if_splits)
  moreover have "registry_node (write_state w st1 (tasks (runtime_of n))) = registry_node (tasks (runtime_of n))"
    by (simp add: write_state_def)
  ultimately show "catching_up n (fst (in_runtime (on_tasks f w t) n))"
    unfolding catching_up_def r by (auto simp: get local_id_def runtime_node_def st g intro: order_trans)
qed

lemma merge_received_runtime [simp]: "runtime_of (merge_received p n) = runtime_of n"
  by (simp add: merge_received_def split: option.split)

lemma catching_up_merge_received: "catching_up n n' \<Longrightarrow> catching_up n (merge_received p n')"
  by (simp add: catching_up_def local_id_def)

lemma apply_ownership_store:
  assumes "ownership_applied node u st"
  obtains st1 where "apply_ownership node u st = Store st1" "task_state.state_task_id st1 = task_state.state_task_id st"
    "generation st1 = ou_generation u" "generation st \<le> ou_generation u"
proof -
  have o: "\<not> outdated u st" using assms by (auto simp: ownership_applied_def apply_ownership_def)
  then obtain st1 where s: "apply_ownership node u st = Store st1" by (auto simp: apply_ownership_def Let_def)
  have "generation st1 = ou_generation u" using s o by (auto simp: apply_ownership_def Let_def)
  moreover have "task_state.state_task_id st1 = task_state.state_task_id st" using s o by (auto simp: apply_ownership_def Let_def)
  ultimately show thesis using that s o by (auto simp: outdated_def)
qed

lemma take_update_spec:
  assumes "keyed (runtime_of n)" and "take_update now (u, p) n = (n', r)"
  shows "catching_up n n' \<and> (\<forall>st. get_state (tasks (runtime_of n)) (ou_task_id u) = Inr st \<longrightarrow>
      is_ok r \<and> known_generation n' (ou_task_id u) (ou_generation u))
    \<and> (\<forall>e. r = Inl e \<longrightarrow> n' = n \<and> get_state (tasks (runtime_of n)) (ou_task_id u) = Inl e)"
proof (cases "get_state (tasks (runtime_of n)) (ou_task_id u)")
  case (Inl e)
  then show ?thesis using assms(2) by (auto simp: take_update_def)
next
  case (Inr st)
  show ?thesis
  proof (cases "ownership_applied (local_id n) u st")
    case False
    then have "ou_generation u \<le> generation st"
      by (auto simp: ownership_applied_def apply_ownership_def outdated_def Let_def split: if_splits)
    then show ?thesis using False Inr assms(2) by (auto simp: take_update_def)
  next
    case True
    then obtain st1 where st1: "apply_ownership (local_id n) u st = Store st1"
      "task_state.state_task_id st1 = task_state.state_task_id st"
      "generation st1 = ou_generation u" "generation st \<le> ou_generation u" by (rule apply_ownership_store)
    have id: "task_state.state_task_id st1 = ou_task_id u" using st1(2) assms(1) Inr by (simp add: keyed_def)
    have g: "generation st \<le> generation st1" using st1 by simp
    let ?f = "apply_ownership (local_id n) u"
    note E = edit_catching_up [where f = ?f and w = now, OF assms(1) Inr st1(1) id g]
    obtain n1 where n1: "in_runtime (on_tasks ?f now (ou_task_id u)) n = (n1, Inr (st1\<lparr>task_state.updated_at := now\<rparr>))"
      using E(1) by blast
    have a1: "catching_up n n1" "get_state (tasks (runtime_of n1)) (ou_task_id u) = Inr (st1\<lparr>task_state.updated_at := now\<rparr>)"
      using E(2,3) n1 by simp_all
    show ?thesis
    proof (cases "ou_artifact_digests u = []")
      case True': True
      then have "take_update now (u, p) n = (merge_received p n1, Inr True)"
        using Inr True n1 by (simp add: take_update_def and_then_def answer_def)
      then have out: "n' = merge_received p n1" "r = Inr True" using assms(2) by simp_all
      show ?thesis using a1 st1 catching_up_merge_received [OF a1(1)] by (simp add: out)
    next
      case False
      let ?st2 = "st1\<lparr>task_state.updated_at := now\<rparr>"
      have k: "keyed (runtime_of n1)" using a1(1) assms(1) by (simp add: catching_up_def)
      note F = edit_catching_up [where f = "set_artifact_digests (ou_artifact_digests u)" and w = now
          and ?st1.0 = "?st2\<lparr>artifact_digests := ou_artifact_digests u\<rparr>", OF k a1(2)]
      obtain n2 x where n2: "in_runtime (on_tasks (set_artifact_digests (ou_artifact_digests u)) now (ou_task_id u)) n1 = (n2, Inr x)"
        "catching_up n1 n2" "known_generation n2 (ou_task_id u) (ou_generation u)"
        using F id st1(3) by (simp add: set_artifact_digests_def)
      then have "take_update now (u, p) n = (merge_received p n2, Inr True)"
        using Inr True False n1 by (simp add: take_update_def and_then_def)
      then have out: "n' = merge_received p n2" "r = Inr True" using assms(2) by simp_all
      show ?thesis using n2 catching_up_merge_received [OF catching_up_trans [OF a1(1) n2(2)]] by (simp add: out)
    qed
  qed
qed

lemma take_updates_spec:
  assumes "keyed (runtime_of n)" and "take_updates now us n = (n', r)"
  shows "catching_up n n' \<and> (\<forall>k. r = Inr k \<longrightarrow> (\<forall>(u, p) \<in> set us. is_ok (get_state (tasks (runtime_of n)) (ou_task_id u)) \<longrightarrow>
      known_generation n' (ou_task_id u) (ou_generation u)))"
  using assms
proof (induction us arbitrary: n n' r)
  case (Cons up us)
  obtain u p where up: "up = (u, p)" by (cases up)
  obtain n1 r1 where one: "take_update now (u, p) n = (n1, r1)" by fastforce
  note O = take_update_spec [OF Cons.prems(1) one]
  have k: "keyed (runtime_of n1)" using O Cons.prems(1) by (simp add: catching_up_def)
  obtain n2 r2 where rest: "take_updates now us n1 = (n2, r2)" by fastforce
  note R = Cons.IH [OF k rest]
  have ok: "is_ok (get_state (tasks (runtime_of n1)) t)" if known: "is_ok (get_state (tasks (runtime_of n)) t)" for t
  proof -
    obtain st where "get_state (tasks (runtime_of n)) t = Inr st" using known by (auto simp: is_ok_Inr)
    then have "known_generation n t (generation st)" by simp
    from catching_upD [OF conjunct1 [OF O] Cons.prems(1) this] have "known_generation n1 t (generation st)" .
    then show ?thesis by auto
  qed
  show ?case
  proof (cases "(\<exists>e. r1 = Inl e \<and> \<not> unknown_task e)")
    case True
    then show ?thesis using Cons.prems(2) up one O by auto
  next
    case False
    then have out: "n' = n2" "\<forall>k. r = Inr k \<longrightarrow> is_ok r2"
      using Cons.prems(2) up one rest by (cases r1; cases r2; auto)+
    have adv: "catching_up n n2" using O R catching_up_trans by blast
    have pass: "known_generation n1 t g \<Longrightarrow> known_generation n2 t g" for t g
      by (rule catching_upD [OF conjunct1 [OF R] k])
    have mine: "known_generation n2 (ou_task_id u) (ou_generation u)" if kn: "is_ok (get_state (tasks (runtime_of n)) (ou_task_id u))"
    proof (rule pass)
      obtain st where "get_state (tasks (runtime_of n)) (ou_task_id u) = Inr st" using kn by (auto simp: is_ok_Inr)
      then show "known_generation n1 (ou_task_id u) (ou_generation u)" using O by metis
    qed
    have others: "known_generation n2 (ou_task_id v) (ou_generation v)"
      if v: "(v, q) \<in> set us" "is_ok (get_state (tasks (runtime_of n)) (ou_task_id v))" "r = Inr j" for v q j
    proof -
      obtain k2 where "r2 = Inr k2" using out(2) v(3) by (auto simp: is_ok_Inr)
      then show ?thesis using R v(1) ok [OF v(2)] by fastforce
    qed
    show ?thesis using adv mine others unfolding out(1) up by auto
  qed
qed simp

section \<open>Conflicts\<close>

lemma take_snapshot_conflict:
  assumes "\<not> agrees (catalog_view (fst n)) (snapshot_offer s)"
  shows "\<exists>n' e. take_snapshot now s n = (n', Inl e)"
proof -
  have "\<not> is_ok (snd (merge_snapshot s (fst n)))" using catalog.conflict_is_permanent [OF assms, of "[]"] by simp
  then obtain c e where "merge_snapshot s (fst n) = (c, Inl e)" by (cases "merge_snapshot s (fst n)"; cases "snd (merge_snapshot s (fst n))") auto
  then show ?thesis by (simp add: take_snapshot_def)
qed

lemma register_run_catalog: "fst (fst (register_run now r n)) = fst n"
  by (simp add: register_run_def case_prod_unfold Let_def split: sum.split)

lemma register_runs_catalog: "fst (fst (register_runs now rs n)) = fst n"
proof (induction rs arbitrary: n)
  case (Cons r rs)
  obtain n1 x where a: "register_run now r n = (n1, x)" by fastforce
  have n1: "fst n1 = fst n" using register_run_catalog [of now r n] a by simp
  obtain n2 y where b: "register_runs now rs n1 = (n2, y)" by fastforce
  have "fst n2 = fst n1" using Cons.IH [of n1] b by simp
  then show ?case using a b n1 by (cases x; cases y) (simp_all add: and_then_def answer_def)
qed simp

lemma take_snapshot_grows: "catalog_view (fst n) \<subseteq>\<^sub>m catalog_view (fst (fst (take_snapshot now s n)))"
proof -
  obtain c x where m: "merge_snapshot s (fst n) = (c, x)" by fastforce
  have le: "catalog_view (fst n) \<subseteq>\<^sub>m catalog_view c" using merge_snapshot_grows [of "fst n" s] m by simp
  have "fst (fst (take_snapshot now s n)) = c"
    using register_runs_catalog [of now _ "(c, snd n)"] m
    by (cases x) (simp_all add: take_snapshot_def and_then_def answer_def case_prod_unfold split: sum.split)
  then show ?thesis using le by simp
qed

lemma reconcile_catalog_conflict:
  assumes "s \<in> set ss" and "\<not> agrees (catalog_view (fst n)) (snapshot_offer s)"
  shows "\<exists>n' e. reconcile_catalog now ss n = (n', Inl e)"
  using assms
proof (induction ss arbitrary: n)
  case (Cons x ss)
  obtain n1 r where one: "take_snapshot now x n = (n1, r)" by fastforce
  show ?case
  proof (cases r)
    case (Inl e)
    then show ?thesis using one by (simp add: and_then_def)
  next
    case (Inr k)
    then have "x \<noteq> s" using take_snapshot_conflict [OF Cons.prems(2), of now] one by auto
    moreover have "\<not> agrees (catalog_view (fst n1)) (snapshot_offer s)"
      using Cons.prems(2) agrees_mono take_snapshot_grows [of n now x] one by fastforce
    ultimately obtain n' e where "reconcile_catalog now ss n1 = (n', Inl e)" using Cons by fastforce
    then show ?thesis using one Inr by (auto simp: and_then_def case_prod_unfold)
  qed
qed simp

section \<open>Submission\<close>

text \<open>
  A request whose key is known starts nothing, also when it asks for a start and the first attempt to
  start the run had raised.
\<close>

lemma repeated_request_never_starts:
  assumes "create_run (run_digest_of env) (fresh_run env) s owner (runtime_node rt) (submitted_now env) c = (c', Inr (r, False))"
    and "owner = (case wanted_owner s of None \<Rightarrow> runtime_node rt | Some x \<Rightarrow> if x = [] then runtime_node rt else x)"
  shows "live (snd (fst (submit_run env s (c, rt)))) = live rt \<and> suspended (snd (fst (submit_run env s (c, rt)))) = suspended rt"
proof -
  have reg: "live (snd (fst (register_run now r n))) = live (snd n) \<and> suspended (snd (fst (register_run now r n))) = suspended (snd n)"
    for now r n by (simp add: register_run_def case_prod_unfold Let_def split: sum.split)
  obtain n1 x where n1: "register_run (run_written env) r (c', rt) = (n1, x)" by fastforce
  have "live (snd n1) = live rt" "suspended (snd n1) = suspended rt" using reg [of "run_written env" r "(c', rt)"] n1 by simp_all
  then show ?thesis using assms n1
    by (cases x) (simp_all add: submit_run_def and_then_def run_state_def answer_def Let_def split: sum.split)
qed

end
