(* ===== verification/Catalog_Claims.thy ===== *)
theory Catalog_Claims
  imports Reconciliation_Laws Migration_Claims
begin

text \<open>The claims about the task catalogue, its replication and the reconciliation of a node with its peers.\<close>

section \<open>Example data\<close>

definition example_template :: task_template where
  "example_template = \<lparr>tpl_workload_type = ''w'', tpl_power_kw = 1, tpl_checkpoint_bytes = 0, tpl_data_bytes = 0,
     tpl_prestaged = {}, tpl_remaining_seconds = None, tpl_accumulated_cost = 0, tpl_cost_cap = None, tpl_priority = 0,
     tpl_deadline_at = None, tpl_request = default_resource_request, tpl_compatibility = default_requirements\<rparr>"

definition example_submission :: "string \<Rightarrow> definition_submission" where
  "example_submission w = \<lparr>definition_id = ''job'', template = example_template\<lparr>tpl_workload_type := w\<rparr>,
     template_runtime = sample_runtime, template_artifacts = []\<rparr>"

text \<open>A stand-in digest that tells the two example definitions apart.\<close>

definition example_digest :: "definition_submission \<Rightarrow> string" where
  "example_digest s = tpl_workload_type (template s)"

definition example_request :: run_submission where
  "example_request = \<lparr>wanted_definition = ''job'', wanted_revision = None, wanted_owner = None, wanted_key = ''k'',
     wanted_start = False, wanted_labels = []\<rparr>"

definition example_catalog :: "node_id \<Rightarrow> string \<Rightarrow> task_catalog" where
  "example_catalog n w = fst (register_submission example_digest (example_submission w) n 0 (load_catalog n None))"

definition example_running :: task_catalog where
  "example_running = fst (create_run wanted_key ''1'' example_request ''a'' ''a'' 5 (example_catalog ''a'' ''w''))"

lemma example_submission_wf: "w \<noteq> [] \<Longrightarrow> wf_submission (example_submission w)"
  using sample_definition_wf
  by (simp add: wf_submission_def example_submission_def wf_template_def example_template_def wf_definition_def
      sample_definition_def wf_resource_request_def default_resource_request_def)

lemma example_registered:
  "register_submission example_digest (example_submission w) n 0 (load_catalog n None)
    = (example_catalog n w, definition_submission.extend (example_submission w)
        \<lparr>revision = 1, digest = w, definition_origin = n, definition_created_at = 0\<rparr>, True)"
  by (simp add: example_catalog_def register_submission_def load_catalog_def example_digest_def example_submission_def
      next_revision_def Let_def)

lemma example_catalog_reachable: "w \<noteq> [] \<Longrightarrow> catalog_reachable n (example_catalog n w)"
  by (rule catalog_reachable.step [OF catalog_reachable.start])
     (rule catalog_step.register [OF example_submission_wf example_registered])

lemma example_created:
  "create_run wanted_key ''1'' example_request ''a'' ''a'' 5 (example_catalog ''a'' ''w'') = (example_running,
     Inr (\<lparr>run_id = ''run-1'', run_definition_id = ''job'', run_revision = 1, run_digest = ''w'', run_origin = ''a'', run_owner = ''a'',
       idempotency_key = ''k'', request_digest = ''k'', auto_start = False, labels = [], run_created_at = 5\<rparr>, True))"
proof -
  have "catalog_definition (example_catalog ''a'' ''w'') ''job'' None = Inr (definition_submission.extend (example_submission ''w'')
        \<lparr>revision = 1, digest = ''w'', definition_origin = ''a'', definition_created_at = 0\<rparr>)"
    by (simp add: catalog_definition_def example_catalog_def register_submission_def load_catalog_def example_digest_def
        example_submission_def next_revision_def Let_def put_definition_def persist_catalog_def key_of_def definition_submission.defs)
  moreover have "catalog_runs (example_catalog ''a'' ''w'') = []"
    by (simp add: example_catalog_def register_submission_def load_catalog_def Let_def)
  ultimately show ?thesis
    by (simp add: example_running_def create_run_def example_request_def Let_def definition_submission.defs example_submission_def)
qed

lemma example_running_reachable: "catalog_reachable ''a'' example_running"
proof -
  have "catalog_runs (example_catalog ''a'' ''w'') = []"
    by (simp add: example_catalog_def register_submission_def load_catalog_def Let_def)
  then show ?thesis
    by (intro catalog_reachable.step [OF example_catalog_reachable [of "''w''"]] catalog_step.run [OF example_created]) simp_all
qed

section \<open>The claims\<close>

text \<open>
  C17. Every accepted run has its task: in every catalogue a node can reach, by submissions, runs,
  merges (also failed ones) and restarts, every run materialises to a well-formed task definition
  with the run's identifier and owner, so the start-up of the daemon never fails on its catalogue;
  and what a restart reads back from the file is part of what the catalogue held.
\<close>

theorem every_run_materializes:
  assumes "catalog_reachable n c"
  shows "(\<exists>ds. materialized_definitions c = Inr ds
      \<and> list_all2 (\<lambda>r d. wf_definition d \<and> profile_task_id (profile d) = run_id r \<and> current_node_id (profile d) = run_owner r)
          (list_runs c) ds)
    \<and> catalog_view (load_catalog n (stored c)) \<subseteq>\<^sub>m catalog_view c"
proof -
  have ok: "catalog_ok c" "file_ok c" using catalog_reachable_ok [OF assms] by simp_all
  show ?thesis using materialized_ok [OF ok(1)] file_ok_reload [OF ok(2)] by blast
qed

theorem every_run_materializes_witness:
  "\<exists>ds. materialized_definitions example_running = Inr ds \<and> length ds = length (list_runs example_running)"
  using every_run_materializes [OF example_running_reachable] list_all2_lengthD by fastforce

text \<open>
  Submissions are idempotent: once a definition or a run has been accepted, the same submission
  creates nothing more in any later catalogue, whatever was merged or restarted in between; a run
  submission gets the same run, and its key with another request is refused.
\<close>

theorem resubmission_is_idempotent:
  assumes "catalog_reachable n c" and "catalog_reachable n' k"
    and "create_run digest_of fresh s owner origin now c = (c1, Inr (r, b))" and "catalog_view c1 \<subseteq>\<^sub>m catalog_view k"
    and "owner \<noteq> []" and "dict_get (catalog_runs c) (''run-'' @ fresh) = None"
  shows "create_run digest_of fresh' s owner' origin' later k = (k, Inr (r, False))
    \<and> (wanted_key s' = wanted_key s \<longrightarrow> digest_of s' \<noteq> digest_of s \<longrightarrow>
        (\<exists>m. create_run digest_of fresh' s' owner' origin' later k = (k, Inl (ValueError m))))"
proof -
  have ok: "catalog_ok c" "catalog_ok k" using catalog_reachable_ok assms(1,2) by blast+
  have r: "dict_get (catalog_runs c1) (run_id r) = Some r" "idempotency_key r = wanted_key s" "request_digest r = digest_of s"
    using create_run_spec [OF assms(3) ok(1) assms(5,6)] by simp_all
  then have "catalog_view c1 (Inr (run_id r)) = Some (Inr r)" by (simp add: catalog_view_def)
  then have "catalog_view k (Inr (run_id r)) = Some (Inr r)" by (rule map_leD [OF assms(4)])
  then have k: "dict_get (catalog_runs k) (run_id r) = Some r" by (auto simp: catalog_view_def)
  have found: "find (\<lambda>x. idempotency_key x = wanted_key s) (map snd (catalog_runs k)) = Some r"
    by (rule only_run_found [OF ok(2) k r(2)])
  show ?thesis using found r(3) by (simp add: create_run_def)
qed

theorem resubmission_is_idempotent_witness:
  "\<exists>r. create_run wanted_key ''2'' example_request ''b'' ''b'' 9 example_running = (example_running, Inr (r, False))
    \<and> run_id r = ''run-1''"
proof -
  have none: "dict_get (catalog_runs (example_catalog ''a'' ''w'')) (''run-'' @ ''1'') = None"
    by (simp add: example_catalog_def register_submission_def load_catalog_def Let_def)
  have reach: "catalog_reachable ''a'' (example_catalog ''a'' ''w'')" by (rule example_catalog_reachable) simp
  from resubmission_is_idempotent [OF reach example_running_reachable example_created map_le_refl _ none]
  show ?thesis by auto
qed

text \<open>
  C16. Catalogues converge: two nodes that exchange their snapshots without a conflict, or that
  started alike and have merged the same snapshots in any order and any number of times, hold the
  same definitions (by digest) and the same runs.
\<close>

theorem catalogs_converge:
  assumes "catalog_reachable n c" and "catalog_reachable m k"
  shows "(\<forall>c' k' x y. merge_snapshot (snapshot_of k) c = (c', Inr x) \<longrightarrow> merge_snapshot (snapshot_of c) k = (k', Inr y)
        \<longrightarrow> catalog_view c' = catalog_view k')
    \<and> (\<forall>ss us c' k'. catalog_view c = catalog_view k \<longrightarrow> set ss = set us \<longrightarrow> catalog.merge_all ss c = (c', Inr ())
        \<longrightarrow> catalog.merge_all us k = (k', Inr ()) \<longrightarrow> catalog_view c' = catalog_view k')"
proof -
  have "snapshot_offer (snapshot_of c) = catalog_view c" "snapshot_offer (snapshot_of k) = catalog_view k"
    using snapshot_offer_own catalog_reachable_ok assms by blast+
  then show ?thesis using catalog.exchange_converges catalog.same_messages_same_view by blast
qed

theorem catalogs_converge_witness:
  "\<exists>c' k'. merge_snapshot (snapshot_of (example_catalog ''b'' ''w'')) (example_catalog ''a'' ''w'') = (c', Inr ([], []))
    \<and> merge_snapshot (snapshot_of (example_catalog ''a'' ''w'')) (example_catalog ''b'' ''w'') = (k', Inr ([], []))
    \<and> catalog_view c' = catalog_view k'"
proof -
  have go: "merge_snapshot (snapshot_of (example_catalog n ''w'')) (example_catalog m ''w'') = (example_catalog m ''w'', Inr ([], []))" for n m
    by (simp add: example_catalog_def register_submission_def load_catalog_def Let_def next_revision_def persist_catalog_def
        put_definition_def list_definitions_def list_runs_def snapshot_of_def merge_snapshot_def find_definition_def
        key_of_def definition_submission.defs)
  have "catalog_reachable n (example_catalog n ''w'')" for n by (rule example_catalog_reachable) simp
  then show ?thesis using catalogs_converge [of "''a''" "example_catalog ''a'' ''w''" "''b''" "example_catalog ''b'' ''w''"] go by blast
qed

text \<open>
  C15. A conflicting definition blocks the repair of ownership: in a pass that is shown the snapshot of a peer
  whose definitions or runs disagree with what the node holds (two nodes that accepted different content
  under one name both call it revision 1), the exception leaves before the first ownership update is
  read, whatever updates the pass was shown.  The same holds in every catalogue that extends the one of
  the node, so for each later pass that is shown this snapshot again; a pass the peer does not answer, or
  one after a restart that lost unpersisted records, need not raise.
\<close>

theorem conflicting_catalog_blocks_ownership:
  assumes "s \<in> set snapshots" and "\<not> agrees (catalog_view c) (snapshot_offer s)" and "catalog_view c \<subseteq>\<^sub>m catalog_view c'"
  shows "\<exists>s' e. \<forall>updates. reconcile_once True net env now snapshots updates (c', w) = (s', Inl e)"
proof -
  have conflict: "\<not> agrees (catalog_view c') (snapshot_offer s)" using assms(2,3) agrees_mono by blast
  obtain w' r where d: "reconcile_durable_state net env w = (w', r)" by fastforce
  show ?thesis
  proof (cases r)
    case (Inl e)
    then show ?thesis using d by (simp add: reconcile_once_def and_then_def in_world_def)
  next
    case (Inr k)
    have "\<exists>n' e. reconcile_catalog now snapshots (c', runtime_of (fst w')) = (n', Inl e)"
      by (rule reconcile_catalog_conflict [OF assms(1)]) (simp add: conflict)
    then show ?thesis using d Inr by (auto simp: reconcile_once_def and_then_def in_world_def in_catalog_def)
  qed
qed

theorem conflicting_catalog_blocks_ownership_witness:
  "\<exists>s' e. \<forall>updates. reconcile_once True (node_remote demo_network)
     (\<lambda>_. \<lparr>repair_start = demo_env [ready_poll], repair_stop = Exits, repair_now = 0\<rparr>) 0 [snapshot_of (example_catalog ''b'' ''w'')] updates
     (example_catalog ''a'' ''v'', (demo_source, demo_destination)) = (s', Inl e)"
proof -
  have "catalog_reachable n (example_catalog n w)" if "w \<noteq> []" for n w by (rule example_catalog_reachable [OF that])
  then have o: "snapshot_offer (snapshot_of (example_catalog ''b'' ''w'')) = catalog_view (example_catalog ''b'' ''w'')"
    by (intro snapshot_offer_own) (use catalog_reachable_ok in blast)
  have "catalog_view (example_catalog n w) (Inl (''job'', 1)) = Some (Inl w)" for n w
    by (simp add: catalog_view_def example_catalog_def register_submission_def load_catalog_def Let_def next_revision_def
        key_of_def definition_submission.defs example_submission_def example_digest_def)
  then have "\<not> agrees (catalog_view (example_catalog ''a'' ''v'')) (snapshot_offer (snapshot_of (example_catalog ''b'' ''w'')))"
    unfolding o agrees_def by fastforce
  then show ?thesis by (intro conflicting_catalog_blocks_ownership [OF _ _ map_le_refl]) simp_all
qed

text \<open>
  C18. Reconciliation catches up: a pass over the updates of the peers that raises nothing leaves no
  known task behind any update it was shown, whatever their order, and forgets no task's progress.
\<close>

theorem reconciliation_catches_up:
  assumes "runtime_inv (runtime_of n)" and "take_updates now us n = (n', Inr k)"
  shows "(\<forall>(u, p) \<in> set us. is_ok (get_state (tasks (runtime_of n)) (ou_task_id u)) \<longrightarrow>
        (\<exists>st. get_state (tasks (runtime_of n')) (ou_task_id u) = Inr st \<and> ou_generation u \<le> generation st))
    \<and> (\<forall>t st. get_state (tasks (runtime_of n)) t = Inr st \<longrightarrow>
        (\<exists>st'. get_state (tasks (runtime_of n')) t = Inr st' \<and> generation st \<le> generation st'))"
proof -
  have k: "keyed (runtime_of n)" using assms(1) by (rule runtime_inv_keyed)
  note S = take_updates_spec [OF k assms(2)]
  have "known_generation n t g \<Longrightarrow> known_generation n' t g" for t g by (rule catching_upD [OF conjunct1 [OF S] k])
  then show ?thesis using S by auto
qed

theorem reconciliation_catches_up_witness:
  "\<exists>n' st. take_updates 0 [(sample_update ''c'' 1, None), (sample_update ''b'' 2, None)] demo_source = (n', Inr 2)
    \<and> get_state (tasks (runtime_of n')) ''t'' = Inr st \<and> 2 \<le> generation st"
proof -
  let ?us = "[(sample_update ''c'' 1, None), (sample_update ''b'' 2, None)]"
  have g: "get_state (tasks (runtime_of demo_source)) ''t'' = Inr (demo_state Running (Some 42))" "runtime_inv (runtime_of demo_source)"
    using demo_leaving by (simp_all add: leaving_def)
  have "snd (take_updates 0 ?us demo_source) = Inr 2"
    by (simp add: take_update_def sample_update_def demo_source_def and_then_def answer_def in_runtime_def on_tasks_def run_edit_def
        ownership_applied_def apply_ownership_def outdated_def demo_state_def initial_state_def sample_profile_def local_id_def
        runtime_node_def demo_node_def node_started_def get_state_def get_definition_def write_state_def dict_get_Cons
        merge_received_def halt_def Let_def)
  then obtain n' where go: "take_updates 0 ?us demo_source = (n', Inr 2)" by (metis prod.collapse)
  from reconciliation_catches_up [OF g(2) go] show ?thesis using g(1) go by (force simp: sample_update_def)
qed

end
