(* ===== verification/Telemetry_Store.thy ===== *)
theory Telemetry_Store
  imports Cluster_Graph
begin

text \<open>
  \<open>magellan/telemetry/models.py\<close> and \<open>magellan/telemetry/store.py\<close>: what a node has measured of its
  tasks, its edges and its migrations, kept as exponential moving averages with the instant of the
  last sample, and the views in which stale measurements give way to the configured values.
\<close>

section \<open>Records\<close>

record task_telemetry =
  tt_node :: node_id
  tt_pid :: "int option"
  tt_process_count :: int
  tt_process_state :: "string option"
  tt_cpu_percent :: "real option"
  tt_memory_mb :: "real option"
  tt_checkpoint_bytes :: "int option"
  tt_power :: "real option"
  tt_power_source :: string
  tt_power_confidence :: real
  tt_progress_rate :: "real option"
  tt_remaining_seconds :: "real option"
  tt_samples :: nat
  tt_sampled_at :: "datetime option"
  tt_error :: "string option"

record task_telemetry_view = task_telemetry +
  ttv_freshness :: freshness
  ttv_age :: "real option"
  ttv_power :: real
  ttv_power_source :: string

record edge_telemetry =
  latency_average :: "real option"
  bandwidth_average :: "real option"
  fixed_average :: "real option"
  steady_average :: "real option"
  latency_samples :: nat
  bandwidth_samples :: nat
  model_samples :: nat
  bandwidth_sample_source :: "string option"
  model_source :: "string option"
  model_small :: "(int \<times> real) option"
  model_large :: "(int \<times> real) option"
  latency_at :: "datetime option"
  bandwidth_at :: "datetime option"
  model_at :: "datetime option"
  success_at :: "datetime option"
  failure_at :: "datetime option"
  failures :: nat
  edge_error :: "string option"

record edge_telemetry_view = edge_view +
  etv_model_freshness :: freshness
  etv_latency_age :: "real option"
  etv_bandwidth_age :: "real option"
  etv_model_age :: "real option"

record calibration_record =
  checkpoint_average :: "real option"
  transfer_average :: "real option"
  restore_average :: "real option"
  activation_average :: "real option"
  downtime_average :: "real option"
  calibrated_bytes :: "int option"
  calibration_samples :: nat
  calibrated_at :: "datetime option"

record telemetry_document =
  task_records :: "task_telemetry dict"
  edge_records :: "edge_telemetry dict"
  calibrations :: "calibration_record dict"

definition empty_document :: telemetry_document where
  "empty_document = \<lparr>task_records = [], edge_records = [], calibrations = []\<rparr>"

definition blank_task :: "node_id \<Rightarrow> task_telemetry" where
  "blank_task n = \<lparr>tt_node = n, tt_pid = None, tt_process_count = 0, tt_process_state = None, tt_cpu_percent = None,
     tt_memory_mb = None, tt_checkpoint_bytes = None, tt_power = None, tt_power_source = ''configured_fallback'',
     tt_power_confidence = 0, tt_progress_rate = None, tt_remaining_seconds = None, tt_samples = 0, tt_sampled_at = None,
     tt_error = None\<rparr>"

definition blank_edge :: edge_telemetry where
  "blank_edge = \<lparr>latency_average = None, bandwidth_average = None, fixed_average = None, steady_average = None,
     latency_samples = 0, bandwidth_samples = 0, model_samples = 0, bandwidth_sample_source = None, model_source = None,
     model_small = None, model_large = None, latency_at = None, bandwidth_at = None, model_at = None, success_at = None,
     failure_at = None, failures = 0, edge_error = None\<rparr>"

definition blank_calibration :: calibration_record where
  "blank_calibration = \<lparr>checkpoint_average = None, transfer_average = None, restore_average = None, activation_average = None,
     downtime_average = None, calibrated_bytes = None, calibration_samples = 0, calibrated_at = None\<rparr>"

section \<open>Ages and averages\<close>

definition age_seconds :: "datetime option \<Rightarrow> datetime \<Rightarrow> real option" where
  "age_seconds at_time now = map_option (\<lambda>t. max 0 (now - t)) at_time"

definition freshness_of :: "datetime option \<Rightarrow> real \<Rightarrow> datetime \<Rightarrow> freshness" where
  "freshness_of at_time stale_after now =
     (case age_seconds at_time now of None \<Rightarrow> Unavailable | Some a \<Rightarrow> if stale_after < a then Stale else Fresh)"

definition ema :: "real \<Rightarrow> real option \<Rightarrow> real \<Rightarrow> real" where
  "ema alpha previous observed = (case previous of None \<Rightarrow> observed | Some p \<Rightarrow> alpha * observed + (1 - alpha) * p)"

definition mbps :: "int \<Rightarrow> real \<Rightarrow> real" where
  "mbps bytes seconds = of_int bytes * 8 / seconds / 1000000"

text \<open>The two-point fit of \<open>seconds = fixed + bytes / rate\<close>.\<close>

definition fit_transfer_model :: "int \<Rightarrow> real \<Rightarrow> int \<Rightarrow> real \<Rightarrow> (real \<times> real) result" where
  "fit_transfer_model small_bytes small_seconds large_bytes large_seconds =
     (if small_bytes \<le> 0 \<or> large_bytes \<le> small_bytes
      then Inl (ValueError ''Transfer-model samples need two increasing payload sizes'')
      else if small_seconds \<le> 0 \<or> large_seconds \<le> 0
      then Inl (ValueError ''Transfer-model sample durations must be positive'')
      else
        let delta_seconds = large_seconds - small_seconds; delta_bytes = large_bytes - small_bytes
        in if delta_seconds \<le> 1 / 1000000000 then Inr (0, mbps large_bytes large_seconds)
           else let steady = mbps delta_bytes delta_seconds;
                    payload = of_int small_bytes * 8 / (steady * 1000000)
                in Inr (max 0 (small_seconds - payload), steady))"

section \<open>The store\<close>

record telemetry_store =
  document :: telemetry_document
  store_alpha :: real
  telemetry_file :: "telemetry_document option"

text \<open>The file is read when it parses; otherwise the store starts empty.\<close>

definition load_telemetry :: "real \<Rightarrow> telemetry_document option \<Rightarrow> telemetry_store" where
  "load_telemetry alpha file =
     \<lparr>document = (case file of None \<Rightarrow> empty_document | Some d \<Rightarrow> d), store_alpha = alpha, telemetry_file = file\<rparr>"

definition persist_telemetry :: "telemetry_store \<Rightarrow> telemetry_store" where
  "persist_telemetry s = s\<lparr>telemetry_file := Some (document s)\<rparr>"

definition edge_key :: "node_id \<Rightarrow> node_id \<Rightarrow> string" where
  "edge_key a b = a @ ''->'' @ b"

definition put_task :: "task_id \<Rightarrow> task_telemetry \<Rightarrow> telemetry_store \<Rightarrow> telemetry_store" where
  "put_task t r s = persist_telemetry (s\<lparr>document := (document s)\<lparr>task_records := dict_put t r (task_records (document s))\<rparr>\<rparr>)"

definition edge_record :: "telemetry_store \<Rightarrow> node_id \<Rightarrow> node_id \<Rightarrow> edge_telemetry option" where
  "edge_record s a b = dict_get (edge_records (document s)) (edge_key a b)"

definition edge_or_blank :: "telemetry_store \<Rightarrow> node_id \<Rightarrow> node_id \<Rightarrow> edge_telemetry" where
  "edge_or_blank s a b = (case edge_record s a b of None \<Rightarrow> blank_edge | Some r \<Rightarrow> r)"

definition put_edge :: "node_id \<Rightarrow> node_id \<Rightarrow> edge_telemetry \<Rightarrow> telemetry_store \<Rightarrow> telemetry_store \<times> edge_telemetry" where
  "put_edge a b r s =
     (persist_telemetry (s\<lparr>document := (document s)\<lparr>edge_records := dict_put (edge_key a b) r (edge_records (document s))\<rparr>\<rparr>), r)"

definition succeeded :: "datetime \<Rightarrow> edge_telemetry \<Rightarrow> edge_telemetry" where
  "succeeded at_time r = r\<lparr>success_at := Some at_time, failures := 0, edge_error := None\<rparr>"

subsection \<open>Tasks\<close>

definition update_task :: "task_id \<Rightarrow> task_telemetry \<Rightarrow> telemetry_store \<Rightarrow> telemetry_store \<times> task_telemetry" where
  "update_task t r s = (put_task t r s, r)"

definition task_record :: "telemetry_store \<Rightarrow> task_id \<Rightarrow> task_telemetry option" where
  "task_record s t = dict_get (task_records (document s)) t"

definition task_view :: "telemetry_store \<Rightarrow> task_id \<Rightarrow> real \<Rightarrow> real \<Rightarrow> datetime \<Rightarrow> task_telemetry_view" where
  "task_view s t configured stale_after now =
     (let r = (case task_record s t of None \<Rightarrow> blank_task ''unknown'' | Some r \<Rightarrow> r);
          fresh = freshness_of (tt_sampled_at r) stale_after now;
          measured = (case tt_power r of Some p \<Rightarrow> fresh = Fresh \<and> 0 < p | None \<Rightarrow> False)
      in task_telemetry.extend r
           \<lparr>ttv_freshness = fresh, ttv_age = age_seconds (tt_sampled_at r) now,
            ttv_power = (if measured then the (tt_power r) else configured),
            ttv_power_source = (if measured then tt_power_source r else ''configured_fallback'')\<rparr>)"

subsection \<open>Edges\<close>

definition record_latency :: "node_id \<Rightarrow> node_id \<Rightarrow> real \<Rightarrow> datetime \<Rightarrow> telemetry_store \<Rightarrow> telemetry_store \<times> edge_telemetry" where
  "record_latency a b latency at_time s =
     (let r = edge_or_blank s a b
      in put_edge a b (succeeded at_time
           (r\<lparr>latency_average := Some (ema (store_alpha s) (latency_average r) (max 0 latency)),
              latency_samples := latency_samples r + 1, latency_at := Some at_time\<rparr>)) s)"

definition refine_model :: "real \<Rightarrow> int \<Rightarrow> real \<Rightarrow> datetime \<Rightarrow> edge_telemetry \<Rightarrow> edge_telemetry" where
  "refine_model alpha bytes seconds at_time r =
     (case (fixed_average r, steady_average r) of
        (Some fixed, Some steady) \<Rightarrow>
          if 1 / 1000000000 < seconds - fixed
          then r\<lparr>steady_average := Some (ema alpha (Some steady) (mbps bytes (seconds - fixed))),
                 model_samples := model_samples r + 1, model_source := Some ''migration_observation_refined'',
                 model_at := Some at_time\<rparr>
          else r
      | _ \<Rightarrow> r)"

definition record_transfer ::
  "node_id \<Rightarrow> node_id \<Rightarrow> int \<Rightarrow> real \<Rightarrow> datetime \<Rightarrow> string \<Rightarrow> telemetry_store \<Rightarrow> telemetry_store \<times> edge_telemetry result" where
  "record_transfer a b bytes seconds at_time source s =
     (if bytes \<le> 0 \<or> seconds \<le> 0 then (s, Inl (ValueError ''A bandwidth sample needs positive bytes and duration''))
      else
        let r = edge_or_blank s a b;
            r1 = r\<lparr>bandwidth_average := Some (ema (store_alpha s) (bandwidth_average r) (mbps bytes seconds)),
                   bandwidth_samples := bandwidth_samples r + 1, bandwidth_sample_source := Some source,
                   bandwidth_at := Some at_time\<rparr>;
            r2 = (if source = ''migration_transfer'' then refine_model (store_alpha s) bytes seconds at_time r1 else r1);
            (s', r3) = put_edge a b (succeeded at_time r2) s
        in (s', Inr r3))"

text \<open>The two kinds of model samples end alike: scalar bandwidth, the fitted model, the instants.\<close>

definition model_sample ::
  "real \<Rightarrow> real \<Rightarrow> real \<Rightarrow> real \<Rightarrow> int \<times> real \<Rightarrow> int \<times> real \<Rightarrow> string \<Rightarrow> datetime \<Rightarrow> edge_telemetry \<Rightarrow> edge_telemetry" where
  "model_sample alpha bandwidth fixed steady small large source at_time r =
     r\<lparr>bandwidth_average := Some (ema alpha (bandwidth_average r) bandwidth),
       bandwidth_samples := bandwidth_samples r + 2, bandwidth_sample_source := Some source, bandwidth_at := Some at_time,
       fixed_average := Some (ema alpha (fixed_average r) fixed), steady_average := Some (ema alpha (steady_average r) steady),
       model_samples := model_samples r + 1, model_source := Some source, model_small := Some small,
       model_large := Some large, model_at := Some at_time\<rparr>"

definition record_transfer_model_pair ::
  "node_id \<Rightarrow> node_id \<Rightarrow> int \<times> real \<Rightarrow> int \<times> real \<Rightarrow> datetime \<Rightarrow> string \<Rightarrow> telemetry_store
     \<Rightarrow> telemetry_store \<times> edge_telemetry result" where
  "record_transfer_model_pair a b small large at_time source s =
     (case fit_transfer_model (fst small) (snd small) (fst large) (snd large) of
        Inl e \<Rightarrow> (s, Inl e)
      | Inr (fixed, steady) \<Rightarrow>
          let (s', r) = put_edge a b (succeeded at_time (model_sample (store_alpha s) (mbps (fst large) (snd large)) fixed steady
                  small large source at_time (edge_or_blank s a b))) s
          in (s', Inr r))"

definition record_transfer_model_stream ::
  "node_id \<Rightarrow> node_id \<Rightarrow> int \<times> real \<Rightarrow> int \<times> real \<Rightarrow> datetime \<Rightarrow> string \<Rightarrow> telemetry_store
     \<Rightarrow> telemetry_store \<times> edge_telemetry result" where
  "record_transfer_model_stream a b small stream at_time source s =
     (if fst small \<le> 0 \<or> snd small \<le> 0 then (s, Inl (ValueError ''Small rsync sample must be positive''))
      else if fst stream \<le> 0 \<or> snd stream \<le> 0 then (s, Inl (ValueError ''SSH stream sample must be positive''))
      else
        let steady = mbps (fst stream) (snd stream);
            payload = of_int (fst small) * 8 / (steady * 1000000);
            (s', r) = put_edge a b (succeeded at_time (model_sample (store_alpha s) steady (max 0 (snd small - payload)) steady
                  small stream source at_time (edge_or_blank s a b))) s
        in (s', Inr r))"

definition record_edge_failure :: "node_id \<Rightarrow> node_id \<Rightarrow> string \<Rightarrow> datetime \<Rightarrow> telemetry_store \<Rightarrow> telemetry_store \<times> edge_telemetry" where
  "record_edge_failure a b err at_time s =
     (let r = edge_or_blank s a b
      in put_edge a b (r\<lparr>failure_at := Some at_time, failures := failures r + 1, edge_error := Some err\<rparr>) s)"

definition edge_view_at ::
  "telemetry_store \<Rightarrow> node_id \<Rightarrow> node_id \<Rightarrow> real \<Rightarrow> real \<Rightarrow> real \<Rightarrow> datetime \<Rightarrow> edge_telemetry_view" where
  "edge_view_at s a b configured_bandwidth configured_latency stale_after now =
     (let r = edge_or_blank s a b;
          lf = freshness_of (latency_at r) stale_after now;
          bf = freshness_of (bandwidth_at r) stale_after now;
          mf = freshness_of (model_at r) stale_after now;
          use_latency = (lf = Fresh \<and> latency_average r \<noteq> None);
          use_bandwidth = (bf = Fresh \<and> bandwidth_average r \<noteq> None);
          use_model = (mf = Fresh \<and> fixed_average r \<noteq> None \<and> steady_average r \<noteq> None)
      in \<lparr>view_bandwidth = (if use_bandwidth then the (bandwidth_average r) else configured_bandwidth),
          view_latency = (if use_latency then the (latency_average r) else configured_latency),
          view_bandwidth_source = (if use_bandwidth then ''measured_migration_transport_ema'' else ''configured_fallback''),
          view_latency_source = (if use_latency then ''measured_http_rtt'' else ''configured_fallback''),
          view_bandwidth_freshness = bf, view_latency_freshness = lf,
          view_transfer_fixed = (if use_model then the (fixed_average r) else 0),
          view_transfer_steady = (if use_model then steady_average r else None),
          view_transfer_source = (if use_model then ''measured_migration_transport_affine_ema'' else ''unavailable''),
          etv_model_freshness = mf, etv_latency_age = age_seconds (latency_at r) now,
          etv_bandwidth_age = age_seconds (bandwidth_at r) now, etv_model_age = age_seconds (model_at r) now\<rparr>)"

subsection \<open>Migrations\<close>

definition calibration_or_blank :: "telemetry_store \<Rightarrow> node_id \<Rightarrow> node_id \<Rightarrow> calibration_record" where
  "calibration_or_blank s a b =
     (case dict_get (calibrations (document s)) (edge_key a b) of None \<Rightarrow> blank_calibration | Some r \<Rightarrow> r)"

definition record_migration_calibration ::
  "node_id \<Rightarrow> node_id \<Rightarrow> real \<Rightarrow> real \<Rightarrow> real \<Rightarrow> real \<Rightarrow> real \<Rightarrow> int \<Rightarrow> datetime \<Rightarrow> telemetry_store
     \<Rightarrow> telemetry_store \<times> calibration_record" where
  "record_migration_calibration a b checkpoint transfer restore activation downtime bytes at_time s =
     (let r = calibration_or_blank s a b;
          avg = (\<lambda>prev x. Some (ema (store_alpha s) prev (max 0 x)));
          r' = \<lparr>checkpoint_average = avg (checkpoint_average r) checkpoint, transfer_average = avg (transfer_average r) transfer,
                restore_average = avg (restore_average r) restore, activation_average = avg (activation_average r) activation,
                downtime_average = avg (downtime_average r) downtime, calibrated_bytes = Some (max 0 bytes),
                calibration_samples = calibration_samples r + 1, calibrated_at = Some at_time\<rparr>
      in (persist_telemetry (s\<lparr>document := (document s)
            \<lparr>calibrations := dict_put (edge_key a b) r' (calibrations (document s))\<rparr>\<rparr>), r'))"

definition calibration_view_at :: "telemetry_store \<Rightarrow> node_id \<Rightarrow> node_id \<Rightarrow> real \<Rightarrow> datetime \<Rightarrow> calibration_view" where
  "calibration_view_at s a b stale_after now =
     (let r = calibration_or_blank s a b
      in \<lparr>calibration_freshness = freshness_of (calibrated_at r) stale_after now, checkpoint_ema = checkpoint_average r,
          transfer_ema = transfer_average r, restore_ema = restore_average r, downtime_ema = downtime_average r\<rparr>)"

text \<open>The telemetry as the cluster graph reads it, at an instant.\<close>

definition telemetry_at :: "telemetry_store \<Rightarrow> real \<Rightarrow> real \<Rightarrow> datetime \<Rightarrow> telemetry_source" where
  "telemetry_at s edge_stale calibration_stale now =
     \<lparr>edge_view_of = (\<lambda>a b bw lat. edge_view.truncate (edge_view_at s a b bw lat edge_stale now)),
      calibration_of = (\<lambda>a b. calibration_view_at s a b calibration_stale now)\<rparr>"

end
