(* ===== verification/Telemetry_Service.thy ===== *)
theory Telemetry_Service
  imports Telemetry_Store Local_Runtime
begin

text \<open>
  \<open>magellan/telemetry/service.py\<close> and the arithmetic of \<open>magellan/telemetry/power.py\<close> and
  \<open>magellan/telemetry/process.py\<close>: sampling the processes of the local tasks, attributing the power
  of the node, probing the edges and enriching the profile a decision is made on.  What procfs, the
  energy counters, the HTTP probe and the transfer probe answer are arguments.
\<close>

section \<open>State\<close>

record telemetry_policy =
  edge_probe_interval :: real
  bandwidth_probe_interval :: real
  task_stale_after :: real
  edge_stale_after :: real
  calibration_stale_after :: real
  telemetry_alpha :: real
  power_idle_fraction :: real
  cpu_power_confidence :: real
  fallback_power_confidence :: real

definition wf_telemetry_policy :: "telemetry_policy \<Rightarrow> bool" where
  "wf_telemetry_policy p \<longleftrightarrow> 0 < edge_probe_interval p \<and> 0 < bandwidth_probe_interval p \<and> 0 < task_stale_after p
   \<and> 0 < edge_stale_after p \<and> 0 < calibration_stale_after p \<and> 0 < telemetry_alpha p \<and> telemetry_alpha p \<le> 1
   \<and> power_idle_fraction p \<in> {0..1} \<and> cpu_power_confidence p \<in> {0..1} \<and> fallback_power_confidence p \<in> {0..1}"

record process_measurement =
  pm_count :: int
  pm_state :: "string option"
  pm_cpu_seconds :: real
  pm_memory_mb :: real
  pm_sampled_at :: datetime

record telemetry_node =
  telemetry :: telemetry_store
  previous_cpu :: "(real \<times> datetime) dict"
  last_edge_probe :: real
  last_bandwidth_probe :: "real dict"

definition on_telemetry :: "(telemetry_store \<Rightarrow> telemetry_store \<times> 'a) \<Rightarrow> telemetry_node \<Rightarrow> telemetry_node \<times> 'a" where
  "on_telemetry f n = (let (s, x) = f (telemetry n) in (n\<lparr>telemetry := s\<rparr>, x))"

section \<open>Processes\<close>

text \<open>One line of procfs, parsed: pid, state, process group, CPU ticks, resident pages.\<close>

type_synonym process_line = "int \<times> string \<times> int \<times> real \<times> int"

definition sample_group :: "real \<Rightarrow> real \<Rightarrow> datetime \<Rightarrow> process_line list \<Rightarrow> int \<Rightarrow> process_measurement result" where
  "sample_group ticks page now table leader =
     (let own = filter (\<lambda>(_, _, g, _, _). g = leader) table
      in if own = [] then Inl (OtherError ''ProcessLookupError'')
         else Inr \<lparr>pm_count = int (length own),
                pm_state = map_option (\<lambda>(_, st, _, _, _). st) (find (\<lambda>(p, _, _, _, _). p = leader) (rev own)),
                pm_cpu_seconds = sum_list (map (\<lambda>(_, _, _, c, _). c) own) / ticks,
                pm_memory_mb = of_int (sum_list (map (\<lambda>(_, _, _, _, r). max 0 r) own)) * page / (1024 * 1024),
                pm_sampled_at = now\<rparr>)"

definition cpu_percent_of :: "(real \<times> datetime) option \<Rightarrow> process_measurement \<Rightarrow> real option" where
  "cpu_percent_of previous m =
     (case previous of
        None \<Rightarrow> None
      | Some (cpu, at_time) \<Rightarrow>
          let elapsed = max 0 (pm_sampled_at m - at_time); delta = max 0 (pm_cpu_seconds m - cpu)
          in if 0 < elapsed then Some (delta / elapsed * 100) else None)"

definition modelled_power :: "telemetry_policy \<Rightarrow> task_profile \<Rightarrow> real option \<Rightarrow> real" where
  "modelled_power p prof cpu =
     (case cpu of
        None \<Rightarrow> power_kw prof
      | Some c \<Rightarrow>
          let cores = max (1 / 10) (cpu_cores (resource_request prof));
              utilization = min 1 (c / (cores * 100))
          in power_kw prof * (power_idle_fraction p + (1 - power_idle_fraction p) * utilization))"

definition task_or_blank :: "node_id \<Rightarrow> task_id \<Rightarrow> telemetry_node \<Rightarrow> task_telemetry" where
  "task_or_blank node t n = (case task_record (telemetry n) t of None \<Rightarrow> blank_task node | Some r \<Rightarrow> r)"

definition sampled :: "telemetry_policy \<Rightarrow> node_id \<Rightarrow> datetime \<Rightarrow> task_profile \<Rightarrow> task_state \<Rightarrow> process_measurement \<Rightarrow> real option
    \<Rightarrow> int \<Rightarrow> nat \<Rightarrow> task_telemetry" where
  "sampled p node now prof st m cpu bytes samples =
     \<lparr>tt_node = node, tt_pid = pid (process st), tt_process_count = pm_count m, tt_process_state = pm_state m,
      tt_cpu_percent = cpu, tt_memory_mb = Some (pm_memory_mb m), tt_checkpoint_bytes = Some bytes,
      tt_power = Some (modelled_power p prof cpu),
      tt_power_source = (if cpu = None then ''configured_fallback'' else ''procfs_cpu_utilization_model''),
      tt_power_confidence = (if cpu = None then fallback_power_confidence p else cpu_power_confidence p),
      tt_progress_rate = progress_rate (accounting st), tt_remaining_seconds = estimated_remaining_seconds (accounting st),
      tt_samples = samples + 1, tt_sampled_at = Some now, tt_error = None\<rparr>"

definition sample_task ::
  "telemetry_policy \<Rightarrow> registry \<Rightarrow> (int \<Rightarrow> process_measurement result) \<Rightarrow> (task_id \<Rightarrow> int result) \<Rightarrow> datetime \<Rightarrow> task_id
     \<Rightarrow> telemetry_node \<Rightarrow> telemetry_node \<times> task_telemetry result" where
  "sample_task p reg sampler directory_bytes now t n =
     (let node = registry_node reg in
      case bind_result (get_state reg t) (\<lambda>st. bind_result (get_definition reg t) (\<lambda>d. Inr (st, d))) of
        Inl e \<Rightarrow> (n, Inl e)
      | Inr (st, d) \<Rightarrow>
          let old = task_or_blank node t n;
              keep = (\<lambda>r k. let (k', x) = on_telemetry (update_task t r) k in (k', Inr x))
          in case pid (process st) of
               None \<Rightarrow> keep (old\<lparr>tt_pid := None, tt_process_count := 0, tt_process_state := None,
                           tt_error := Some ''Task has no live local process''\<rparr>) n
             | Some q \<Rightarrow>
                 if task_status st \<notin> {Running, Paused}
                 then keep (old\<lparr>tt_pid := Some q, tt_process_count := 0, tt_process_state := None,
                           tt_error := Some ''Task has no live local process''\<rparr>) n
                 else case sampler q of
                   Inl e \<Rightarrow> keep (old\<lparr>tt_pid := Some q, tt_error := Some (describe_error e)\<rparr>) n
                 | Inr m \<Rightarrow>
                     let cpu = cpu_percent_of (dict_get (previous_cpu n) t) m;
                         n1 = n\<lparr>previous_cpu := dict_put t (pm_cpu_seconds m, pm_sampled_at m) (previous_cpu n)\<rparr>
                     in case directory_bytes t of
                          Inl e \<Rightarrow> keep (old\<lparr>tt_pid := Some q, tt_error := Some (describe_error e)\<rparr>) n1
                        | Inr bytes \<Rightarrow> keep (sampled p node now (profile d) st m cpu bytes (tt_samples old)) n1)"

section \<open>Energy counters\<close>

text \<open>One zone: its counter and, when the file exists, the range after which the counter wraps.\<close>

type_synonym energy_zones = "(string \<times> int \<times> int option) list"

definition zone_delta :: "int option \<Rightarrow> int option \<Rightarrow> int \<Rightarrow> int" where
  "zone_delta old limit v =
     (case old of
        None \<Rightarrow> 0
      | Some o' \<Rightarrow> if o' \<le> v then v - o' else (case limit of None \<Rightarrow> 0 | Some m \<Rightarrow> max 0 (m - o' + v)))"

definition energy_delta :: "int dict \<Rightarrow> energy_zones \<Rightarrow> int" where
  "energy_delta old zones = sum_list (map (\<lambda>(z, v, limit). zone_delta (dict_get old z) limit v) zones)"

definition sample_power ::
  "energy_zones \<Rightarrow> real \<Rightarrow> (int dict \<times> real) option \<Rightarrow> (int dict \<times> real) option \<times> real option" where
  "sample_power zones now previous =
     (if zones = [] then (previous, None)
      else
        let current = Some (map (\<lambda>(z, v, _). (z, v)) zones, now)
        in case previous of
             None \<Rightarrow> (current, None)
           | Some (old, at_time) \<Rightarrow>
               let elapsed = now - at_time; delta = energy_delta old zones
               in if elapsed \<le> 0 \<or> delta \<le> 0 then (current, None)
                  else (current, Some (of_int delta / 1000000 / elapsed / 1000)))"

definition power_weights :: "task_telemetry list \<Rightarrow> real list" where
  "power_weights rs =
     (let ws = map (\<lambda>r. max 0 (case tt_cpu_percent r of None \<Rightarrow> 0 | Some c \<Rightarrow> c)) rs
      in if sum_list ws \<le> 0 then replicate (length rs) 1 else ws)"

definition power_shares :: "real \<Rightarrow> real list \<Rightarrow> real list" where
  "power_shares node_power ws = map (\<lambda>w. max (1 / 1000000000) (node_power * w / sum_list ws)) ws"

fun put_shares :: "(task_id \<times> task_telemetry) list \<Rightarrow> real list \<Rightarrow> telemetry_store \<Rightarrow> telemetry_store" where
  "put_shares ((t, r) # rs) (x # xs) s =
     put_shares rs xs (fst (update_task t (r\<lparr>tt_power := Some x, tt_power_source := ''rapl_cpu_share'', tt_power_confidence := 9 / 10\<rparr>) s))"
| "put_shares _ _ s = s"

definition apply_node_power :: "real option \<Rightarrow> task_id list \<Rightarrow> telemetry_store \<Rightarrow> telemetry_store" where
  "apply_node_power node_power ts s =
     (case node_power of
        None \<Rightarrow> s
      | Some p \<Rightarrow>
          let rs = List.map_filter (\<lambda>t. map_option (\<lambda>r. (t, r)) (task_record s t)) ts
          in put_shares rs (power_shares p (power_weights (map snd rs))) s)"

section \<open>Edges\<close>

definition configured_values :: "cluster_config \<Rightarrow> node_id \<Rightarrow> node_id \<Rightarrow> real \<times> real" where
  "configured_values c a b =
     (case get_edge_override c a b of
        Some e \<Rightarrow> (edge_bandwidth_mbps e, edge_latency_ms e)
      | None \<Rightarrow> (default_bandwidth_mbps c, default_latency_ms c))"

text \<open>
  The code reads the clock anew at every use: when an edge is looked at before a refresh, when its round
  trip or a failure is recorded, at each of the two questions whether its transport is due (the second
  inside the lock), when the transfer is recorded, for the view a probe answers and for the view the
  caller is answered at last.
\<close>

datatype clock_use =
  Looked | Measured_Latency | Asked_Due | Asked_Due_Locked | Measured_Transfer | Probe_Answered | Finally_Viewed

text \<open>
  What a probe of an edge meets: the readings of the wall clock and of the monotonic clock, one per use
  and destination, that of a sampled task, the instant a pass begins its probes, the HTTP round trip and
  the transfer measurements.
\<close>

record probe_environment =
  probe_cluster :: cluster_config
  probe_policy :: telemetry_policy
  probe_node :: node_id
  probe_clock :: "clock_use \<Rightarrow> node_id \<Rightarrow> datetime"
  probe_monotonic :: "clock_use \<Rightarrow> node_id \<Rightarrow> real"
  sample_clock :: "task_id \<Rightarrow> datetime"
  pass_monotonic :: real
  round_trip :: "node_id \<Rightarrow> real result"
  transport :: "node_id \<Rightarrow> ((int \<times> real) \<times> (int \<times> real)) result"

definition edge_view_now :: "probe_environment \<Rightarrow> clock_use \<Rightarrow> node_id \<Rightarrow> telemetry_node \<Rightarrow> edge_telemetry_view result" where
  "edge_view_now env use b n =
     bind_result (get_node (probe_cluster env) b) (\<lambda>_.
       let (bw, lat) = configured_values (probe_cluster env) (probe_node env) b
       in Inr (edge_view_at (telemetry n) (probe_node env) b bw lat (edge_stale_after (probe_policy env)) (probe_clock env use b)))"

definition probe_due :: "probe_environment \<Rightarrow> clock_use \<Rightarrow> bool \<Rightarrow> node_id \<Rightarrow> telemetry_node \<Rightarrow> bool" where
  "probe_due env use force b n =
     (force \<or> (case edge_view_now env use b n of
        Inl _ \<Rightarrow> False
      | Inr v \<Rightarrow> etv_model_freshness v = Unavailable
          \<or> (case dict_get (last_bandwidth_probe n) b of
               None \<Rightarrow> bandwidth_probe_interval (probe_policy env) \<le> (case etv_model_age v of None \<Rightarrow> 0 | Some a \<Rightarrow> a)
             | Some l \<Rightarrow> bandwidth_probe_interval (probe_policy env) \<le> probe_monotonic env use b - l)))"

definition probe_transport :: "probe_environment \<Rightarrow> node_id \<Rightarrow> telemetry_node \<Rightarrow> telemetry_node" where
  "probe_transport env b n =
     (case bind_result (transport env b) (\<lambda>(small, stream).
             let (s, r) = record_transfer_model_stream (probe_node env) b small stream (probe_clock env Measured_Transfer b)
                            ''ssh_stream_plus_rsync_setup_probe'' (telemetry n)
             in bind_result r (\<lambda>_. Inr s)) of
        Inr s \<Rightarrow> n\<lparr>telemetry := s, last_bandwidth_probe := dict_put b (probe_monotonic env Measured_Transfer b) (last_bandwidth_probe n)\<rparr>
      | Inl e \<Rightarrow> fst (on_telemetry (record_edge_failure (probe_node env) b (''bandwidth_probe:'' @ describe_error e)
              (probe_clock env Measured_Transfer b)) n))"

definition probe_edge ::
  "probe_environment \<Rightarrow> bool \<Rightarrow> node_id \<Rightarrow> telemetry_node \<Rightarrow> telemetry_node \<times> edge_telemetry_view result" where
  "probe_edge env force b n =
     (if b = probe_node env then (n, Inl (ValueError ''Destination must be a peer''))
      else case get_node (probe_cluster env) b of
        Inl e \<Rightarrow> (n, Inl e)
      | Inr _ \<Rightarrow>
          (case round_trip env b of
             Inl e \<Rightarrow>
               let n1 = fst (on_telemetry (record_edge_failure (probe_node env) b (describe_error e) (probe_clock env Measured_Latency b)) n)
               in (n1, edge_view_now env Probe_Answered b n1)
           | Inr latency \<Rightarrow>
               let n1 = fst (on_telemetry (record_latency (probe_node env) b latency (probe_clock env Measured_Latency b)) n);
                   n2 = (if probe_due env Asked_Due force b n1 \<and> probe_due env Asked_Due_Locked force b n1
                         then probe_transport env b n1 else n1)
               in (n2, edge_view_now env Probe_Answered b n2)))"

fun probe_edges :: "probe_environment \<Rightarrow> bool \<Rightarrow> node_id list \<Rightarrow> telemetry_node \<Rightarrow> telemetry_node \<times> unit result" where
  "probe_edges env force [] n = (n, Inr ())"
| "probe_edges env force (b # bs) n =
     (case probe_edge env force b n of
        (n1, Inl e) \<Rightarrow> (n1, Inl e)
      | (n1, Inr _) \<Rightarrow> probe_edges env force bs n1)"

fun views_now :: "probe_environment \<Rightarrow> clock_use \<Rightarrow> node_id list \<Rightarrow> telemetry_node \<Rightarrow> (node_id \<times> edge_telemetry_view) list result" where
  "views_now env use [] n = Inr []"
| "views_now env use (b # bs) n =
     bind_result (edge_view_now env use b n) (\<lambda>v. bind_result (views_now env use bs n) (\<lambda>vs. Inr ((b, v) # vs)))"

definition edge_is_stale :: "edge_telemetry_view \<Rightarrow> bool" where
  "edge_is_stale v \<longleftrightarrow> view_latency_freshness v \<noteq> Fresh \<or> etv_model_freshness v \<noteq> Fresh"

definition ensure_edges_fresh ::
  "probe_environment \<Rightarrow> node_id list \<Rightarrow> telemetry_node \<Rightarrow> telemetry_node \<times> (node_id \<times> edge_telemetry_view) list result" where
  "ensure_edges_fresh env bs n =
     (let unique = rev (remdups (rev bs))
      in case views_now env Looked unique n of
           Inl e \<Rightarrow> (n, Inl e)
         | Inr vs \<Rightarrow>
             (case probe_edges env True (map fst (filter (\<lambda>(_, v). edge_is_stale v) vs)) n of
                (n1, Inl e) \<Rightarrow> (n1, Inl e)
              | (n1, Inr _) \<Rightarrow> (n1, views_now env Finally_Viewed unique n1)))"

definition refresh_all_edges ::
  "probe_environment \<Rightarrow> telemetry_node \<Rightarrow> telemetry_node \<times> (node_id \<times> edge_telemetry_view) list result" where
  "refresh_all_edges env n =
     (let ids = map node_identity (peers (probe_cluster env) (probe_node env))
      in case probe_edges env True ids n of
           (n1, Inl e) \<Rightarrow> (n1, Inl e)
         | (n1, Inr _) \<Rightarrow> (n1, views_now env Finally_Viewed ids n1))"

section \<open>One pass\<close>

fun sample_tasks ::
  "telemetry_policy \<Rightarrow> registry \<Rightarrow> (int \<Rightarrow> process_measurement result) \<Rightarrow> (task_id \<Rightarrow> int result)
     \<Rightarrow> (task_id \<Rightarrow> datetime) \<Rightarrow> task_id list
     \<Rightarrow> telemetry_node \<Rightarrow> telemetry_node \<times> unit result" where
  "sample_tasks p reg sampler bytes clock [] n = (n, Inr ())"
| "sample_tasks p reg sampler bytes clock (t # ts) n =
     (case sample_task p reg sampler bytes (clock t) t n of
        (n1, Inl e) \<Rightarrow> (n1, Inl e)
      | (n1, Inr _) \<Rightarrow> sample_tasks p reg sampler bytes clock ts n1)"

definition telemetry_once ::
  "probe_environment \<Rightarrow> registry \<Rightarrow> (int \<Rightarrow> process_measurement result) \<Rightarrow> (task_id \<Rightarrow> int result) \<Rightarrow> real option \<Rightarrow> bool
     \<Rightarrow> telemetry_node \<Rightarrow> telemetry_node \<times> (nat \<times> nat) result" where
  "telemetry_once env reg sampler bytes node_power force n =
     (case all_states reg of
        Inl e \<Rightarrow> (n, Inl e)
      | Inr sts \<Rightarrow>
          let ts = map state_task_id (filter (\<lambda>st. owner_node_id st = probe_node env \<and> task_status st \<in> {Running, Paused}) sts)
          in case sample_tasks (probe_policy env) reg sampler bytes (sample_clock env) ts n of
               (n1, Inl e) \<Rightarrow> (n1, Inl e)
             | (n1, Inr _) \<Rightarrow>
                 let n2 = n1\<lparr>telemetry := apply_node_power node_power ts (telemetry n1)\<rparr>;
                     ids = map node_identity (peers (probe_cluster env) (probe_node env))
                 in if \<not> (force \<or> edge_probe_interval (probe_policy env) \<le> pass_monotonic env - last_edge_probe n2)
                    then (n2, Inr (length ts, 0))
                    else (case probe_edges env False ids n2 of
                            (n3, Inl e) \<Rightarrow> (n3, Inl e)
                          | (n3, Inr _) \<Rightarrow> (n3\<lparr>last_edge_probe := pass_monotonic env\<rparr>,
                              Inr (length ts, length (nodes (probe_cluster env)) - 1))))"

section \<open>The profile of a decision\<close>

definition enrich_from_telemetry :: "telemetry_policy \<Rightarrow> telemetry_store \<Rightarrow> datetime \<Rightarrow> task_profile \<Rightarrow> task_profile" where
  "enrich_from_telemetry p s now prof =
     (let v = task_view s (profile_task_id prof) (power_kw prof) (task_stale_after p) now
      in prof\<lparr>power_kw := ttv_power v,
              checkpoint_bytes := (case tt_checkpoint_bytes v of
                 Some b \<Rightarrow> if ttv_freshness v = Fresh then b else checkpoint_bytes prof
               | None \<Rightarrow> checkpoint_bytes prof)\<rparr>)"

end
