(* ===== verification/Telemetry_Laws.thy ===== *)
theory Telemetry_Laws
  imports Telemetry_Service Scoring_Admissible
begin

text \<open>
  The averages of the telemetry stay in the range of what was measured, so the edges a decision reads
  are usable; stale measurements are not used; the transfer model is exact on affine transfers; the
  power of the node is attributed in full.
\<close>

section \<open>Averages\<close>

lemma ema_mix:
  assumes "0 < alpha" "alpha \<le> 1"
  shows "(\<forall>p. previous = Some p \<longrightarrow> lo \<le> p) \<Longrightarrow> lo \<le> x \<Longrightarrow> lo \<le> ema alpha previous x"
    and "(\<forall>p. previous = Some p \<longrightarrow> p \<le> hi) \<Longrightarrow> x \<le> hi \<Longrightarrow> ema alpha previous x \<le> hi"
    and "(\<forall>p. previous = Some p \<longrightarrow> lo < p) \<Longrightarrow> lo < x \<Longrightarrow> lo < ema alpha previous x"
proof -
  show "(\<forall>p. previous = Some p \<longrightarrow> lo \<le> p) \<Longrightarrow> lo \<le> x \<Longrightarrow> lo \<le> ema alpha previous x"
    using assms convex_bound_le [of "- x" "- lo" "- the previous" alpha "1 - alpha"]
    by (cases previous) (simp_all add: ema_def)
  show "(\<forall>p. previous = Some p \<longrightarrow> p \<le> hi) \<Longrightarrow> x \<le> hi \<Longrightarrow> ema alpha previous x \<le> hi"
    using assms convex_bound_le [of x hi "the previous" alpha "1 - alpha"] by (cases previous) (simp_all add: ema_def)
  show "(\<forall>p. previous = Some p \<longrightarrow> lo < p) \<Longrightarrow> lo < x \<Longrightarrow> lo < ema alpha previous x"
    using assms convex_bound_lt [of "- x" "- lo" "- the previous" alpha "1 - alpha"]
    by (cases previous) (simp_all add: ema_def)
qed

lemma mbps_pos: "0 < b \<Longrightarrow> 0 < s \<Longrightarrow> 0 < mbps b s"
  by (simp add: mbps_def)

section \<open>Edges\<close>

definition at_least :: "real \<Rightarrow> real option \<Rightarrow> bool" where
  "at_least lo x \<longleftrightarrow> (\<forall>v. x = Some v \<longrightarrow> lo \<le> v)"

definition above :: "real \<Rightarrow> real option \<Rightarrow> bool" where
  "above lo x \<longleftrightarrow> (\<forall>v. x = Some v \<longrightarrow> lo < v)"

lemma bound_simps [simp]: "at_least lo None" "above lo None" "at_least lo (Some x) \<longleftrightarrow> lo \<le> x" "above lo (Some x) \<longleftrightarrow> lo < x"
  by (simp_all add: at_least_def above_def)

definition edge_ok :: "edge_telemetry \<Rightarrow> bool" where
  "edge_ok r \<longleftrightarrow> at_least 0 (latency_average r) \<and> above 0 (bandwidth_average r) \<and> at_least 0 (fixed_average r) \<and> above 0 (steady_average r)"

definition calibration_ok :: "calibration_record \<Rightarrow> bool" where
  "calibration_ok r \<longleftrightarrow> at_least 0 (checkpoint_average r) \<and> at_least 0 (transfer_average r) \<and> at_least 0 (restore_average r)
   \<and> at_least 0 (activation_average r) \<and> at_least 0 (downtime_average r)"

definition task_ok :: "task_telemetry \<Rightarrow> bool" where
  "task_ok r \<longleftrightarrow> (\<forall>b. tt_checkpoint_bytes r = Some b \<longrightarrow> 0 \<le> b)"

definition document_ok :: "telemetry_document \<Rightarrow> bool" where
  "document_ok d \<longleftrightarrow> (\<forall>k r. dict_get (edge_records d) k = Some r \<longrightarrow> edge_ok r)
   \<and> (\<forall>k r. dict_get (calibrations d) k = Some r \<longrightarrow> calibration_ok r)
   \<and> (\<forall>k r. dict_get (task_records d) k = Some r \<longrightarrow> task_ok r)"

definition store_ok :: "telemetry_store \<Rightarrow> bool" where
  "store_ok s \<longleftrightarrow> 0 < store_alpha s \<and> store_alpha s \<le> 1 \<and> document_ok (document s)
   \<and> (\<forall>d. telemetry_file s = Some d \<longrightarrow> document_ok d)"

lemma store_okD: "store_ok s \<Longrightarrow> 0 < store_alpha s" "store_ok s \<Longrightarrow> store_alpha s \<le> 1"
  by (simp_all add: store_ok_def)

lemma edge_or_blank_ok: "store_ok s \<Longrightarrow> edge_ok (edge_or_blank s a b)"
  by (auto simp: edge_or_blank_def edge_record_def store_ok_def document_ok_def edge_ok_def blank_edge_def split: option.split)

lemma calibration_or_blank_ok: "store_ok s \<Longrightarrow> calibration_ok (calibration_or_blank s a b)"
  by (auto simp: calibration_or_blank_def store_ok_def document_ok_def calibration_ok_def blank_calibration_def split: option.split)

lemma put_edge_ok: "store_ok s \<Longrightarrow> edge_ok r \<Longrightarrow> store_ok (fst (put_edge a b r s))"
  by (simp add: put_edge_def persist_telemetry_def store_ok_def document_ok_def)

lemma update_task_ok: "store_ok s \<Longrightarrow> task_ok r \<Longrightarrow> store_ok (fst (update_task t r s))"
  by (simp add: update_task_def put_task_def persist_telemetry_def store_ok_def document_ok_def)

lemma succeeded_simps [simp]:
  "latency_average (succeeded t r) = latency_average r" "bandwidth_average (succeeded t r) = bandwidth_average r"
  "fixed_average (succeeded t r) = fixed_average r" "steady_average (succeeded t r) = steady_average r"
  "latency_at (succeeded t r) = latency_at r" "bandwidth_at (succeeded t r) = bandwidth_at r" "model_at (succeeded t r) = model_at r"
  by (simp_all add: succeeded_def)

lemma succeeded_ok [simp]: "edge_ok (succeeded t r) = edge_ok r"
  by (simp add: edge_ok_def)

lemma record_latency_ok: "store_ok s \<Longrightarrow> store_ok (fst (record_latency a b l t s))"
  using edge_or_blank_ok [of s a b] unfolding record_latency_def Let_def
  by (intro put_edge_ok) (auto simp: edge_ok_def at_least_def intro!: ema_mix store_okD)

lemma record_failure_ok: "store_ok s \<Longrightarrow> store_ok (fst (record_edge_failure a b e t s))"
  using edge_or_blank_ok [of s a b] unfolding record_edge_failure_def Let_def
  by (intro put_edge_ok) (simp_all add: edge_ok_def)

lemma refine_model_ok:
  assumes "0 < alpha" "alpha \<le> 1" "edge_ok r" "0 < bytes"
  shows "edge_ok (refine_model alpha bytes seconds t r)"
proof (cases "fixed_average r"; cases "steady_average r")
  fix fixed steady
  assume r: "fixed_average r = Some fixed" "steady_average r = Some steady"
  then have "0 < steady" using assms(3) by (simp add: edge_ok_def)
  then have "0 < ema alpha (Some steady) (mbps bytes (seconds - fixed))" if "1 / 1000000000 < seconds - fixed"
    using that assms by (intro ema_mix mbps_pos) simp_all
  then show ?thesis using assms(3) r by (simp add: refine_model_def edge_ok_def)
qed (use assms(3) in \<open>simp_all add: refine_model_def\<close>)

lemma record_transfer_ok: "store_ok s \<Longrightarrow> store_ok (fst (record_transfer a b bytes seconds t source s))"
proof -
  assume s: "store_ok s"
  note alpha = store_okD [OF s]
  have e: "edge_ok (edge_or_blank s a b)" by (rule edge_or_blank_ok [OF s])
  have "edge_ok (edge_or_blank s a b\<lparr>bandwidth_average := Some (ema (store_alpha s) (bandwidth_average (edge_or_blank s a b)) (mbps bytes seconds)),
      bandwidth_samples := k, bandwidth_sample_source := x, bandwidth_at := y\<rparr>)" if "0 < bytes" "0 < seconds" for k x y
    using e that alpha by (auto simp: edge_ok_def above_def intro!: ema_mix mbps_pos)
  then show ?thesis using s alpha
    by (auto simp: record_transfer_def Let_def case_prod_unfold intro!: put_edge_ok refine_model_ok)
qed

lemma model_sample_ok:
  assumes "0 < alpha" "alpha \<le> 1" "edge_ok r" "0 < bandwidth" "0 \<le> fixed" "0 < steady"
  shows "edge_ok (model_sample alpha bandwidth fixed steady small large source t r)"
  using assms by (auto simp: model_sample_def edge_ok_def above_def at_least_def intro!: ema_mix)

lemma fit_transfer_model_sound: "fit_transfer_model sb ss lb ls = Inr (f, r) \<Longrightarrow> 0 \<le> f \<and> 0 < r"
  by (auto simp: fit_transfer_model_def Let_def mbps_pos split: if_splits)

lemma record_pair_ok: "store_ok s \<Longrightarrow> store_ok (fst (record_transfer_model_pair a b small large t source s))"
proof (cases "fit_transfer_model (fst small) (snd small) (fst large) (snd large)")
  case (Inr x)
  then have "0 < fst large" "0 < snd large" by (auto simp: fit_transfer_model_def split: if_splits)
  moreover assume "store_ok s"
  ultimately show ?thesis using Inr fit_transfer_model_sound [of "fst small" "snd small" "fst large" "snd large" "fst x" "snd x"]
    by (auto simp: record_transfer_model_pair_def Let_def case_prod_unfold
        intro!: put_edge_ok model_sample_ok edge_or_blank_ok mbps_pos dest: store_okD)
qed (simp add: record_transfer_model_pair_def)

lemma record_stream_ok: "store_ok s \<Longrightarrow> store_ok (fst (record_transfer_model_stream a b small stream t source s))"
  by (auto simp: record_transfer_model_stream_def Let_def case_prod_unfold
      intro!: put_edge_ok model_sample_ok edge_or_blank_ok mbps_pos dest: store_okD)

lemma record_calibration_ok:
  assumes "store_ok s"
  shows "store_ok (fst (record_migration_calibration a b c tr re ac dt by t s))"
proof -
  have "calibration_ok (snd (record_migration_calibration a b c tr re ac dt by t s))"
    using calibration_or_blank_ok [OF assms, of a b] store_okD [OF assms]
    by (auto simp: record_migration_calibration_def calibration_ok_def at_least_def Let_def intro!: ema_mix)
  then show ?thesis using assms
    by (simp add: record_migration_calibration_def persist_telemetry_def store_ok_def document_ok_def Let_def)
qed

section \<open>The node\<close>

lemma on_telemetry_ok:
  assumes "store_ok (telemetry n) \<Longrightarrow> store_ok (fst (f (telemetry n)))"
  shows "store_ok (telemetry n) \<Longrightarrow> store_ok (telemetry (fst (on_telemetry f n)))"
  using assms by (simp add: on_telemetry_def case_prod_unfold Let_def)

lemma task_or_blank_ok: "store_ok (telemetry n) \<Longrightarrow> task_ok (task_or_blank node t n)"
  by (auto simp: task_or_blank_def task_record_def store_ok_def document_ok_def task_ok_def blank_task_def split: option.split)

lemma sample_task_ok:
  assumes "store_ok (telemetry n)" and "\<forall>b. directory_bytes t = Inr b \<longrightarrow> 0 \<le> b"
  shows "store_ok (telemetry (fst (sample_task p reg sampler directory_bytes now t n)))"
proof -
  have keep: "store_ok (telemetry (fst (case on_telemetry (update_task t r) k of (k', x) \<Rightarrow> (k', Inr x :: task_telemetry result))))"
    if "store_ok (telemetry k)" "task_ok r" for r k
    using on_telemetry_ok [of k "update_task t r"] update_task_ok [of "telemetry k" r t] that by (simp add: case_prod_unfold)
  note old = task_or_blank_ok [OF assms(1), of "registry_node reg" t]
  have alike: "task_ok ((task_or_blank (registry_node reg) t n)\<lparr>tt_pid := a, tt_process_count := b, tt_process_state := c, tt_error := e\<rparr>)"
    "task_ok ((task_or_blank (registry_node reg) t n)\<lparr>tt_pid := a, tt_error := e\<rparr>)" for a b c e
    using old by (simp_all add: task_ok_def)
  have fresh: "task_ok (sampled p node now prof st m cpu bytes k)" if "0 \<le> bytes" for node prof st m cpu bytes k
    using that by (simp add: task_ok_def sampled_def)
  show ?thesis
  proof (cases "bind_result (get_state reg t) (\<lambda>st. bind_result (get_definition reg t) (\<lambda>d. Inr (st, d)))")
    case (Inl e)
    then show ?thesis using assms(1) by (simp add: sample_task_def)
  next
    case (Inr x)
    obtain st d where x: "x = (st, d)" by (cases x)
    note go = sample_task_def Let_def Inr x sum.case prod.case
    show ?thesis
    proof (cases "pid (process st)")
      case None
      then show ?thesis unfolding go by (simp only: option.case) (rule keep [OF assms(1) alike(1)])
    next
      case (Some q)
      show ?thesis
      proof (cases "task_status st \<in> {Running, Paused}")
        case False
        then show ?thesis unfolding go Some option.case by (simp only: if_True not_True_eq_False simp_thms) (rule keep [OF assms(1) alike(1)])
      next
        case True
        show ?thesis
        proof (cases "sampler q")
          case (Inl e)
          then show ?thesis using True unfolding go Some option.case by (simp only: if_False simp_thms sum.case) (rule keep [OF assms(1) alike(2)])
        next
          case m: (Inr m)
          show ?thesis
          proof (cases "directory_bytes t")
            case (Inl e)
            then show ?thesis using True m unfolding go Some option.case
              by (simp only: if_False simp_thms sum.case) (rule keep, simp_all add: assms(1) alike)
          next
            case (Inr by')
            then show ?thesis using True m assms(2) unfolding go Some option.case
              by (simp only: if_False simp_thms sum.case) (rule keep, simp_all add: assms(1) fresh)
          qed
        qed
      qed
    qed
  qed
qed

lemma go_on:
  assumes "P (fst x)" and "\<And>k. P k \<Longrightarrow> P (fst (g k))"
  shows "P (fst (case x of (k, Inl e) \<Rightarrow> (k, Inl e) | (k, Inr _) \<Rightarrow> g k))"
  using assms by (cases x; cases "snd x") auto

lemma sample_tasks_ok:
  assumes "\<forall>t b. directory_bytes t = Inr b \<longrightarrow> 0 \<le> b"
  shows "store_ok (telemetry n) \<Longrightarrow> store_ok (telemetry (fst (sample_tasks p reg sampler directory_bytes now ts n)))"
proof (induction ts arbitrary: n)
  case (Cons t ts)
  have "store_ok (telemetry (fst (sample_task p reg sampler directory_bytes (now t) t n)))"
    by (rule sample_task_ok [OF Cons.prems]) (use assms in blast)
  then show ?case unfolding sample_tasks.simps
    by (rule go_on [where P = "\<lambda>k. store_ok (telemetry k)"]) (rule Cons.IH)
qed simp

lemma put_shares_ok: "store_ok s \<Longrightarrow> \<forall>(t, r) \<in> set rs. task_ok r \<Longrightarrow> store_ok (put_shares rs xs s)"
proof (induction rs xs s rule: put_shares.induct)
  case (1 t r rs x xs s)
  have "task_ok (r\<lparr>tt_power := Some x, tt_power_source := ''rapl_cpu_share'', tt_power_confidence := 9 / 10\<rparr>)"
    using "1.prems"(2) by (simp add: task_ok_def)
  from "1.IH" [OF update_task_ok [OF "1.prems"(1) this]] show ?case using "1.prems"(2) by simp
qed simp_all

lemma apply_node_power_ok: "store_ok s \<Longrightarrow> store_ok (apply_node_power x ts s)"
proof (cases x)
  case (Some w)
  assume s: "store_ok s"
  let ?rs = "List.map_filter (\<lambda>t. map_option (\<lambda>r. (t, r)) (task_record s t)) ts"
  have "\<forall>(t, r) \<in> set ?rs. task_ok r"
    using s by (auto simp: map_filter_def task_record_def store_ok_def document_ok_def)
  then show ?thesis using put_shares_ok [OF s] Some by (simp add: apply_node_power_def Let_def)
qed (simp add: apply_node_power_def)

lemma probe_transport_ok: "store_ok (telemetry n) \<Longrightarrow> store_ok (telemetry (probe_transport env b n))"
proof -
  assume ok: "store_ok (telemetry n)"
  have fail: "store_ok (telemetry (fst (on_telemetry (record_edge_failure a b e t) n)))" for a e t
    by (rule on_telemetry_ok [OF record_failure_ok ok])
  have "store_ok s" if "bind_result (transport env b) (\<lambda>(small, stream).
             let (s, r) = record_transfer_model_stream (probe_node env) b small stream (probe_clock env Measured_Transfer b)
                            ''ssh_stream_plus_rsync_setup_probe'' (telemetry n)
             in bind_result r (\<lambda>_. Inr s)) = Inr s" for s
    using that record_stream_ok [OF ok, of "probe_node env" b _ _ "probe_clock env Measured_Transfer b" "''ssh_stream_plus_rsync_setup_probe''"]
    by (auto simp: bind_result_Inr_iff Let_def case_prod_unfold)
  then show ?thesis using fail unfolding probe_transport_def by (simp split: sum.split)
qed

lemma probe_edge_ok: "store_ok (telemetry n) \<Longrightarrow> store_ok (telemetry (fst (probe_edge env force b n)))"
  using on_telemetry_ok [OF record_failure_ok, of n] on_telemetry_ok [OF record_latency_ok, of n] probe_transport_ok
  by (auto simp: probe_edge_def Let_def split: sum.split if_split)

lemma probe_edges_ok: "store_ok (telemetry n) \<Longrightarrow> store_ok (telemetry (fst (probe_edges env force bs n)))"
proof (induction bs arbitrary: n)
  case (Cons b bs)
  show ?case unfolding probe_edges.simps
    by (rule go_on [where P = "\<lambda>k. store_ok (telemetry k)"], rule probe_edge_ok [OF Cons.prems]) (rule Cons.IH)
qed simp

lemma telemetry_once_ok:
  assumes "store_ok (telemetry n)" and "\<forall>t b. directory_bytes t = Inr b \<longrightarrow> 0 \<le> b"
  shows "store_ok (telemetry (fst (telemetry_once env reg sampler directory_bytes x force n)))"
proof (cases "all_states reg")
  case (Inr sts)
  have rest: "store_ok (telemetry (fst (let n2 = k\<lparr>telemetry := apply_node_power x ts (telemetry k)\<rparr>;
                     ids = map node_identity (peers (probe_cluster env) (probe_node env))
                 in if \<not> (force \<or> edge_probe_interval (probe_policy env) \<le> pass_monotonic env - last_edge_probe n2)
                    then (n2, Inr (length ts, 0))
                    else (case probe_edges env False ids n2 of
                            (n3, Inl e) \<Rightarrow> (n3, Inl e)
                          | (n3, Inr _) \<Rightarrow> (n3\<lparr>last_edge_probe := pass_monotonic env\<rparr>,
                              Inr (length ts, length (nodes (probe_cluster env)) - 1))))))"
    if "store_ok (telemetry k)" for k ts
  proof -
    let ?n2 = "k\<lparr>telemetry := apply_node_power x ts (telemetry k)\<rparr>"
    let ?ids = "map node_identity (peers (probe_cluster env) (probe_node env))"
    have ok2: "store_ok (telemetry ?n2)" using apply_node_power_ok [OF that] by simp
    obtain n3 r3 where n3: "probe_edges env False ?ids ?n2 = (n3, r3)" by fastforce
    have "store_ok (telemetry n3)" using probe_edges_ok [OF ok2, of env False ?ids] by (simp only: n3 fst_conv)
    then show ?thesis using ok2 n3 unfolding Let_def by (cases r3) simp_all
  qed
  show ?thesis unfolding telemetry_once_def Inr sum.case Let_def
    by (rule go_on [where P = "\<lambda>k. store_ok (telemetry k)"], rule sample_tasks_ok [OF assms(2,1)]) (rule rest [unfolded Let_def])
qed (simp add: telemetry_once_def assms(1))

text \<open>The histories of a node's telemetry.\<close>

inductive telemetry_step :: "telemetry_node \<Rightarrow> telemetry_node \<Rightarrow> bool" where
  pass: "\<forall>t b. directory_bytes t = Inr b \<longrightarrow> 0 \<le> b \<Longrightarrow>
    n' = fst (telemetry_once env reg sampler directory_bytes x force n) \<Longrightarrow> telemetry_step n n'"
| refresh: "n' = fst (ensure_edges_fresh env bs n) \<Longrightarrow> telemetry_step n n'"
| transfer: "n' = fst (on_telemetry (record_transfer a b bytes seconds t source) n) \<Longrightarrow> telemetry_step n n'"
| pair: "n' = fst (on_telemetry (record_transfer_model_pair a b small large t source) n) \<Longrightarrow> telemetry_step n n'"
| latency: "n' = fst (on_telemetry (record_latency a b l t) n) \<Longrightarrow> telemetry_step n n'"
| calibration: "n' = fst (on_telemetry (record_migration_calibration a b c tr re ac dt by' t) n) \<Longrightarrow> telemetry_step n n'"
| restart: "n' = n\<lparr>telemetry := load_telemetry (store_alpha (telemetry n)) (telemetry_file (telemetry n))\<rparr> \<Longrightarrow> telemetry_step n n'"

inductive telemetry_reachable :: "telemetry_policy \<Rightarrow> telemetry_node \<Rightarrow> bool" for p where
  start: "telemetry n = load_telemetry (telemetry_alpha p) None \<Longrightarrow> telemetry_reachable p n"
| step: "telemetry_reachable p n \<Longrightarrow> telemetry_step n n' \<Longrightarrow> telemetry_reachable p n'"

lemma empty_document_ok: "document_ok empty_document"
  by (simp add: document_ok_def empty_document_def)

lemma telemetry_step_ok: "telemetry_step n n' \<Longrightarrow> store_ok (telemetry n) \<Longrightarrow> store_ok (telemetry n')"
proof (induction rule: telemetry_step.induct)
  case (refresh n' env bs n)
  then show ?case using probe_edges_ok [of n env True]
    by (auto simp: ensure_edges_fresh_def Let_def split: sum.split prod.split) (metis fst_conv)+
next
  case (restart n' n)
  then show ?case using empty_document_ok by (auto simp: load_telemetry_def store_ok_def split: option.split)
qed (use telemetry_once_ok in blast, simp_all add: on_telemetry_ok record_transfer_ok record_pair_ok record_latency_ok record_calibration_ok)

lemma telemetry_reachable_ok:
  assumes "wf_telemetry_policy p" and "telemetry_reachable p n"
  shows "store_ok (telemetry n)"
  using assms(2)
proof (induction rule: telemetry_reachable.induct)
  case (start n)
  then show ?case using assms(1) empty_document_ok by (simp add: load_telemetry_def store_ok_def wf_telemetry_policy_def)
qed (use telemetry_step_ok in blast)

end
