(* ===== verification/Telemetry_Claims.thy ===== *)
theory Telemetry_Claims
  imports Telemetry_Laws Evaluation_Claims
begin

text \<open>The claims about the telemetry and what decisions read of it.\<close>

section \<open>What a decision reads\<close>

lemma edge_view_sound:
  assumes "store_ok s" "0 < bw" "0 \<le> lat"
  shows "view_sound (edge_view.truncate (edge_view_at s a b bw lat stale now))"
  using edge_or_blank_ok [OF assms(1), of a b] assms(2,3)
  by (auto simp: view_sound_def edge_view_at_def edge_view.truncate_def edge_ok_def at_least_def above_def Let_def)

lemma calibration_view_sound: "store_ok s \<Longrightarrow> calibration_sound (calibration_view_at s a b stale now)"
  using calibration_or_blank_ok [of s a b]
  by (auto simp: calibration_sound_def calibration_view_at_def calibration_ok_def at_least_def Let_def)

lemma telemetry_at_sound: "store_ok s \<Longrightarrow> telemetry_sound (Some (telemetry_at s es cs now))"
  using edge_view_sound calibration_view_sound by (auto simp: telemetry_sound_def telemetry_at_def)

lemma enriched_wf:
  assumes "store_ok s" and "wf_profile prof"
  shows "wf_profile (enrich_from_telemetry p s now prof)"
proof -
  let ?v = "task_view s (profile_task_id prof) (power_kw prof) (task_stale_after p) now"
  have "0 < ttv_power ?v"
    using assms(2) by (auto simp: task_view_def task_telemetry.defs wf_profile_def Let_def split: option.split)
  moreover have "0 \<le> b" if "tt_checkpoint_bytes ?v = Some b" for b
    using that assms(1)
    by (auto simp: task_view_def task_telemetry.defs task_record_def blank_task_def store_ok_def document_ok_def task_ok_def Let_def
        split: option.splits)
  ultimately show ?thesis using assms(2) by (auto simp: enrich_from_telemetry_def wf_profile_def Let_def split: option.split)
qed

text \<open>A fresh sample replaces the checkpoint size the caller has just validated.\<close>

lemma enrichment_replaces_checkpoint_size:
  assumes "task_record s (profile_task_id prof) = Some r" and "freshness_of (tt_sampled_at r) (task_stale_after p) now = Fresh"
    and "tt_checkpoint_bytes r = Some b"
  shows "checkpoint_bytes (enrich_from_telemetry p s now prof) = b"
  using assms by (simp add: enrich_from_telemetry_def task_view_def task_telemetry.defs Let_def)

section \<open>Refreshing\<close>

text \<open>The instants of the two measurements of an edge that decide whether it is served as measured.\<close>

definition measured_at :: "probe_environment \<Rightarrow> telemetry_node \<Rightarrow> node_id \<Rightarrow> datetime option \<times> datetime option" where
  "measured_at env n b = (let r = edge_or_blank (telemetry n) (probe_node env) b in (latency_at r, model_at r))"

lemma edge_view_reads:
  assumes "edge_view_now env use b n = Inr v" and "measured_at env n b = (l, m)"
  shows "etv_latency_age v = age_seconds l (probe_clock env use b)" "etv_model_age v = age_seconds m (probe_clock env use b)"
    "view_latency_freshness v = freshness_of l (edge_stale_after (probe_policy env)) (probe_clock env use b)"
    "etv_model_freshness v = freshness_of m (edge_stale_after (probe_policy env)) (probe_clock env use b)"
  using assms by (auto simp: edge_view_now_def bind_result_Inr_iff measured_at_def edge_view_at_def Let_def case_prod_unfold)

lemma edge_key_inj [simp]: "edge_key a b = edge_key a c \<longleftrightarrow> b = c"
  by (simp add: edge_key_def)

lemma put_edge_reads [simp]:
  "edge_or_blank (fst (put_edge a b r s)) a c = (if c = b then r else edge_or_blank s a c)"
  by (simp add: edge_or_blank_def edge_record_def put_edge_def persist_telemetry_def)

definition answering :: "probe_environment \<Rightarrow> node_id \<Rightarrow> bool" where
  "answering env b \<longleftrightarrow> b \<noteq> probe_node env \<and> is_ok (get_node (probe_cluster env) b) \<and> is_ok (round_trip env b)
   \<and> (\<exists>sb ss lb ls. transport env b = Inr ((sb, ss), (lb, ls)) \<and> 0 < sb \<and> 0 < ss \<and> 0 < lb \<and> 0 < ls)"

abbreviation probe_instants :: "probe_environment \<Rightarrow> node_id \<Rightarrow> datetime option \<times> datetime option" where
  "probe_instants env b \<equiv> (Some (probe_clock env Measured_Latency b), Some (probe_clock env Measured_Transfer b))"

lemma probe_edge_measures:
  assumes "answering env b"
  obtains n' v where "probe_edge env True b n = (n', Inr v)" "measured_at env n' b = probe_instants env b"
    "\<And>c. c \<noteq> b \<Longrightarrow> measured_at env n' c = measured_at env n c"
proof -
  obtain latency nd where a: "round_trip env b = Inr latency" "get_node (probe_cluster env) b = Inr nd" "b \<noteq> probe_node env"
    using assms(1) by (auto simp: answering_def is_ok_Inr)
  obtain sb ss lb ls where t: "transport env b = Inr ((sb, ss), (lb, ls))" "0 < sb" "0 < ss" "0 < lb" "0 < ls"
    using assms(1) by (auto simp: answering_def)
  define n1 where "n1 = fst (on_telemetry (record_latency (probe_node env) b latency (probe_clock env Measured_Latency b)) n)"
  define n2 where "n2 = probe_transport env b n1"
  obtain v where v: "edge_view_now env Probe_Answered b n2 = Inr v"
    using a(2) by (simp add: edge_view_now_def case_prod_unfold Let_def)
  have go: "probe_edge env True b n = (n2, Inr v)"
    using a v by (simp add: probe_edge_def n1_def [symmetric] n2_def [symmetric] probe_due_def Let_def)
  have r1: "measured_at env n1 c = (if c = b then (Some (probe_clock env Measured_Latency b), snd (measured_at env n b))
      else measured_at env n c)" for c
    by (simp add: n1_def measured_at_def on_telemetry_def record_latency_def succeeded_def Let_def case_prod_unfold)
  have r2: "measured_at env n2 c = (if c = b then (fst (measured_at env n1 b), Some (probe_clock env Measured_Transfer b))
      else measured_at env n1 c)" for c
    using t by (simp add: n2_def measured_at_def probe_transport_def record_transfer_model_stream_def succeeded_def Let_def
        case_prod_unfold model_sample_def)
  show thesis using that [OF go] r1 r2 by simp
qed

lemma probe_edges_measure:
  assumes "\<forall>b \<in> set bs. answering env b"
  shows "\<exists>n'. probe_edges env True bs n = (n', Inr ())
    \<and> (\<forall>c. measured_at env n' c = (if c \<in> set bs then probe_instants env c else measured_at env n c))"
  using assms
proof (induction bs arbitrary: n)
  case (Cons b bs)
  have b: "answering env b" and bs: "\<forall>b \<in> set bs. answering env b" using Cons.prems by simp_all
  obtain n1 v where n1: "probe_edge env True b n = (n1, Inr v)" "measured_at env n1 b = probe_instants env b"
    "\<And>c. c \<noteq> b \<Longrightarrow> measured_at env n1 c = measured_at env n c" using probe_edge_measures [OF b, of n] by blast
  from Cons.IH [OF bs, of n1] obtain n' where n': "probe_edges env True bs n1 = (n', Inr ())"
    "\<forall>c. measured_at env n' c = (if c \<in> set bs then probe_instants env c else measured_at env n1 c)" by blast
  have "measured_at env n' c = (if c \<in> set (b # bs) then probe_instants env c else measured_at env n c)" for c
    using n'(2) n1(2,3) by (cases "c = b") auto
  then show ?case using n'(1) n1(1) by simp
qed simp

lemma views_now_all:
  assumes "\<forall>b \<in> set bs. is_ok (get_node (probe_cluster env) b)"
  shows "\<exists>vs. views_now env use bs n = Inr vs \<and> map fst vs = bs \<and> (\<forall>(b, v) \<in> set vs. edge_view_now env use b n = Inr v)"
  using assms
proof (induction bs)
  case (Cons b bs)
  obtain nd where "get_node (probe_cluster env) b = Inr nd" using Cons.prems by (auto simp: is_ok_Inr)
  then have "\<exists>v. edge_view_now env use b n = Inr v" by (simp add: edge_view_now_def case_prod_unfold Let_def)
  then show ?case using Cons by fastforce
qed simp

text \<open>An edge served with measurements of at most the given age.\<close>

definition aged :: "real \<Rightarrow> edge_telemetry_view \<Rightarrow> bool" where
  "aged limit v \<longleftrightarrow> (\<exists>a. etv_latency_age v = Some a \<and> a \<le> limit) \<and> (\<exists>a. etv_model_age v = Some a \<and> a \<le> limit)"

lemma freshness_of_fresh: "freshness_of t limit now = Fresh \<longleftrightarrow> (\<exists>a. age_seconds t now = Some a \<and> a \<le> limit)"
  by (auto simp: freshness_of_def split: option.split)

lemma age_later: "age_seconds t now = Some a \<Longrightarrow> later \<le> now + d \<Longrightarrow> 0 \<le> d \<Longrightarrow> \<exists>a'. age_seconds t later = Some a' \<and> a' \<le> a + d"
  by (auto simp: age_seconds_def)

lemma fresh_iff_aged: "edge_view_now env use b n = Inr v \<Longrightarrow> \<not> edge_is_stale v \<longleftrightarrow> aged (edge_stale_after (probe_policy env)) v"
  by (cases "measured_at env n b") (auto simp: edge_is_stale_def aged_def edge_view_reads freshness_of_fresh)

lemma view_ages:
  assumes "edge_view_now env Finally_Viewed b n' = Inr v" and "edge_view_now env Looked b n = Inr w"
    and "measured_at env n' b = (if edge_is_stale w then probe_instants env b else measured_at env n b)"
    and "0 \<le> d" and "\<forall>u \<in> {Looked, Measured_Latency, Measured_Transfer}. probe_clock env Finally_Viewed b \<le> probe_clock env u b + d"
  shows "aged (if edge_is_stale w then d else edge_stale_after (probe_policy env) + d) v"
proof (cases "edge_is_stale w")
  case True
  then show ?thesis using edge_view_reads [OF assms(1)] assms(3-5) by (auto simp: aged_def age_seconds_def)
next
  case False
  obtain l m where lm: "measured_at env n b = (l, m)" by fastforce
  from False have "aged (edge_stale_after (probe_policy env)) w" using fresh_iff_aged [OF assms(2)] by simp
  then obtain a a' where ages: "age_seconds l (probe_clock env Looked b) = Some a" "a \<le> edge_stale_after (probe_policy env)"
    "age_seconds m (probe_clock env Looked b) = Some a'" "a' \<le> edge_stale_after (probe_policy env)"
    by (auto simp: aged_def edge_view_reads [OF assms(2) lm])
  note later = age_later [OF ages(1) _ assms(4), of "probe_clock env Finally_Viewed b"]
    age_later [OF ages(3) _ assms(4), of "probe_clock env Finally_Viewed b"]
  have "measured_at env n' b = (l, m)" using assms(3) False lm by simp
  then show ?thesis using later ages(2,4) assms(5) False edge_view_reads [OF assms(1)] by (fastforce simp: aged_def)
qed

section \<open>Power\<close>

lemma power_weights_pos:
  assumes "rs \<noteq> []"
  shows "\<forall>w \<in> set (power_weights rs). 0 \<le> w" and "0 < sum_list (power_weights rs)" and "length (power_weights rs) = length rs"
  using assms by (auto simp: power_weights_def Let_def sum_list_replicate)

lemma sum_shares:
  assumes "0 \<le> x" and "\<forall>w \<in> set ws. 0 \<le> w" and "0 < sum_list ws"
  shows "x \<le> sum_list (power_shares x ws)" and "sum_list (power_shares x ws) \<le> x + of_nat (length ws) / 1000000000"
proof -
  let ?t = "sum_list ws"
  have part: "sum_list (map (\<lambda>w. x * w / ?t) us) = x * sum_list us / ?t" for us
    by (induction us) (simp_all add: distrib_left add_divide_distrib)
  have "sum_list (map (\<lambda>w. x * w / ?t) ws) \<le> sum_list (power_shares x ws)"
    unfolding power_shares_def by (rule sum_list_mono) simp
  then show "x \<le> sum_list (power_shares x ws)" using part [of ws] assms(3) by simp
  have "sum_list (map (\<lambda>w. max (1 / 1000000000) (x * w / ?t)) us) \<le> sum_list (map (\<lambda>w. x * w / ?t) us) + of_nat (length us) / 1000000000"
    if "\<forall>w \<in> set us. 0 \<le> w" for us
    using that
  proof (induction us)
    case (Cons u us)
    have "0 \<le> x * u / ?t" using Cons.prems assms(1,3) by simp
    then have "max (1 / 1000000000) (x * u / ?t) \<le> x * u / ?t + 1 / 1000000000" by simp
    then show ?case using Cons by (simp add: add_divide_distrib)
  qed simp
  from this [OF assms(2)] show "sum_list (power_shares x ws) \<le> x + of_nat (length ws) / 1000000000"
    using part [of ws] assms(3) by (simp add: power_shares_def)
qed

lemma update_task_reads [simp]: "task_record (fst (update_task t r s)) u = (if u = t then Some r else task_record s u)"
  by (simp add: update_task_def put_task_def persist_telemetry_def task_record_def)

definition power_of :: "telemetry_store \<Rightarrow> task_id \<Rightarrow> real" where
  "power_of s t = (case task_record s t of None \<Rightarrow> 0 | Some r \<Rightarrow> (case tt_power r of None \<Rightarrow> 0 | Some x \<Rightarrow> x))"

lemma put_shares_others: "u \<notin> fst ` set rs \<Longrightarrow> task_record (put_shares rs xs s) u = task_record s u"
  by (induction rs xs s rule: put_shares.induct) auto

lemma put_shares_power:
  "distinct (map fst rs) \<Longrightarrow> length rs = length xs \<Longrightarrow> map (power_of (put_shares rs xs s)) (map fst rs) = xs"
proof (induction rs xs s rule: put_shares.induct)
  case (1 t r rs x xs s)
  have "power_of (put_shares ((t, r) # rs) (x # xs) s) t = x"
    using "1.prems"(1) by (simp add: power_of_def put_shares_others)
  then show ?case using 1 by simp
qed simp_all

section \<open>Properties\<close>

definition example_telemetry_policy :: telemetry_policy where
  "example_telemetry_policy =
     \<lparr>edge_probe_interval = 60, bandwidth_probe_interval = 3600, task_stale_after = 30, edge_stale_after = 60,
      calibration_stale_after = 600, telemetry_alpha = 1 / 2, power_idle_fraction = 1 / 2, cpu_power_confidence = 1 / 2,
      fallback_power_confidence = 1 / 4\<rparr>"

lemma example_telemetry_wf: "wf_telemetry_policy example_telemetry_policy"
  by (simp add: example_telemetry_policy_def wf_telemetry_policy_def)

definition example_probes :: probe_environment where
  "example_probes =
     \<lparr>probe_cluster = example_cluster, probe_policy = example_telemetry_policy, probe_node = ''a'',
      probe_clock = (\<lambda>u _. if u = Finally_Viewed then 1030 else if u = Looked then 1000 else 1010), probe_monotonic = (\<lambda>_ _. 1000),
      sample_clock = (\<lambda>_. 1000), pass_monotonic = 1000, round_trip = (\<lambda>_. Inr 5), transport = (\<lambda>_. Inr ((1000, 1), (1000000, 1)))\<rparr>"


text \<open>
  C21. Decisions over measured telemetry: whatever a node has sampled, probed, refreshed, calibrated or
  reloaded, with forecasting enabled and carbon data for every node of the cluster, the evaluation of a
  task on its telemetry and on the profile enriched by it answers, and its estimates are admissible for
  the enriched profile.
\<close>

theorem telemetry_decisions_are_admissible:
  assumes "wf_telemetry_policy q" "telemetry_reachable q n" and "carbon_ready cs fp c now"
    and "sound_inputs task c p None (forecaster_at wa cs (Some fp) now) sb"
    and "get_node c (current_node_id task) = Inr src" "adaptive_ok adaptive"
  shows "let prof = enrich_from_telemetry q (telemetry n) now task;
             source = Some (telemetry_at (telemetry n) (edge_stale_after q) (calibration_stale_after q) now);
             fc = forecaster_at wa cs (Some fp) now
         in \<exists>es r. build_raw_actions prof c p source fc now sb ds = Inr es \<and> (\<forall>e \<in> set es. admissible prof c p ds e)
            \<and> evaluate_task prof c p source fc now sb adaptive tc ds = Inr r"
proof -
  let ?prof = "enrich_from_telemetry q (telemetry n) now task"
  let ?source = "Some (telemetry_at (telemetry n) (edge_stale_after q) (calibration_stale_after q) now)"
  let ?fc = "forecaster_at wa cs (Some fp) now"
  have ok: "store_ok (telemetry n)" by (rule telemetry_reachable_ok [OF assms(1,2)])
  have inputs: "sound_inputs ?prof c p ?source ?fc sb"
    using assms(4) enriched_wf [OF ok] telemetry_at_sound [OF ok] by (simp add: sound_inputs_def)
  have node: "get_node c (current_node_id ?prof) = Inr src"
    using assms(5) by (simp add: enrich_from_telemetry_def Let_def)
  obtain es where es: "build_raw_actions ?prof c p ?source ?fc now sb ds = Inr es"
    using build_total [OF inputs forecaster_answers [OF assms(3)] node] by blast
  note sound = build_admissible [OF inputs es]
  then have "\<exists>r. evaluate_task ?prof c p ?source ?fc now sb adaptive tc ds = Inr r"
    by (intro evaluate_task_total [OF es _ _ _ assms(6)]) (simp_all add: admissible_def)
  then show ?thesis using es sound by (simp add: Let_def)
qed

theorem telemetry_decisions_are_admissible_witness:
  "let n = fst (on_telemetry (record_latency ''a'' ''b'' 5 7190) \<lparr>telemetry = load_telemetry (telemetry_alpha example_telemetry_policy) None,
        previous_cpu = [], last_edge_probe = 0, last_bandwidth_probe = []\<rparr>);
       prof = enrich_from_telemetry example_telemetry_policy (telemetry n) 7200 example_mover;
       source = Some (telemetry_at (telemetry n) (edge_stale_after example_telemetry_policy) (calibration_stale_after example_telemetry_policy) 7200);
       fc = forecaster_at (\<lambda>_ _ _. Inl (KeyError ''no window'')) example_trace (Some example_forecast_policy) 7200
   in \<exists>es r. build_raw_actions prof example_cluster example_scoring source fc 7200 None None = Inr es
      \<and> (\<forall>e \<in> set es. admissible prof example_cluster example_scoring None e)
      \<and> evaluate_task prof example_cluster example_scoring source fc 7200 None None 1 None = Inr r"
proof -
  let ?n = "\<lparr>telemetry = load_telemetry (telemetry_alpha example_telemetry_policy) None, previous_cpu = [], last_edge_probe = 0,
      last_bandwidth_probe = []\<rparr>"
  have reach: "telemetry_reachable example_telemetry_policy (fst (on_telemetry (record_latency ''a'' ''b'' 5 7190) ?n))"
    by (rule telemetry_reachable.step [OF telemetry_reachable.start telemetry_step.latency]) simp_all
  have "adaptive_ok None" by (simp add: adaptive_ok_def)
  from telemetry_decisions_are_admissible [OF example_telemetry_wf reach example_ready example_trace_sound example_known this]
  show ?thesis unfolding Let_def .
qed

text \<open>
  The transfer model is exact on affine links: when two probes of a link took \<open>fixed + bytes / rate\<close>
  seconds, any transfer over the edge, while the model is fresh, is predicted without error; earlier
  samples of the same link do not disturb the averages.
\<close>

definition link_seconds :: "real \<Rightarrow> real \<Rightarrow> int \<Rightarrow> real" where
  "link_seconds fixed rate bytes = fixed + of_int bytes * 8 / (rate * 1000000)"

lemma fit_affine:
  assumes "0 \<le> fixed" "0 < rate" "0 < small" "small < large"
    and "1 / 1000000000 < link_seconds fixed rate large - link_seconds fixed rate small"
  shows "fit_transfer_model small (link_seconds fixed rate small) large (link_seconds fixed rate large) = Inr (fixed, rate)"
proof -
  have pos: "0 < link_seconds fixed rate b" if "0 < b" for b
    using assms(1,2) that by (simp add: link_seconds_def add_nonneg_pos)
  have delta: "link_seconds fixed rate large - link_seconds fixed rate small = of_int (large - small) * 8 / (rate * 1000000)"
    by (simp add: link_seconds_def algebra_simps diff_divide_distrib)
  have "mbps (large - small) (link_seconds fixed rate large - link_seconds fixed rate small) = rate"
    using assms(2,4) unfolding delta by (simp add: mbps_def)
  moreover have "max 0 (link_seconds fixed rate small - of_int small * 8 / (rate * 1000000)) = fixed"
    using assms(1) by (simp add: link_seconds_def)
  ultimately show ?thesis
    using assms pos [of small] pos [of large] by (simp add: fit_transfer_model_def Let_def)
qed

lemma ema_same: "previous \<in> {None, Some x} \<Longrightarrow> ema alpha previous x = x"
  by (auto simp: ema_def algebra_simps)

theorem transfer_model_is_exact:
  assumes "0 \<le> fixed" "0 < rate" "0 < small" "small < large"
    and "1 / 1000000000 < link_seconds fixed rate large - link_seconds fixed rate small"
    and "fixed_average (edge_or_blank s a b) \<in> {None, Some fixed}" "steady_average (edge_or_blank s a b) \<in> {None, Some rate}"
    and "s' = fst (record_transfer_model_pair a b (small, link_seconds fixed rate small) (large, link_seconds fixed rate large) sampled_time source s)"
    and "0 \<le> stale" "now \<le> sampled_time + stale"
    and "graph_edge c (Some (telemetry_at s' stale calibration_stale now)) a b = Inr e"
  shows "transfer_duration e bytes = Inr (link_seconds fixed rate bytes)"
proof -
  let ?r = "edge_or_blank s' a b"
  have r: "fixed_average ?r = Some fixed" "steady_average ?r = Some rate" "model_at ?r = Some sampled_time"
    using assms(6,7) unfolding assms(8) record_transfer_model_pair_def fst_conv snd_conv fit_affine [OF assms(1-5)]
    by (simp_all add: Let_def case_prod_unfold model_sample_def ema_same)
  have "freshness_of (model_at ?r) stale now = Fresh" using assms(9,10) r(3) by (simp add: freshness_of_def age_seconds_def)
  then have view: "view_transfer_fixed (edge_view_at s' a b x y stale now) = fixed"
    "view_transfer_steady (edge_view_at s' a b x y stale now) = Some rate"
    "view_transfer_source (edge_view_at s' a b x y stale now) = ''measured_migration_transport_affine_ema''" for x y
    using r by (simp_all add: edge_view_at_def Let_def)
  have "transfer_model_source e = ''measured_migration_transport_affine_ema'' \<and> transfer_fixed_seconds e = fixed
      \<and> transfer_steady_bandwidth_mbps e = Some rate"
    using assms(11) view
    by (auto simp: graph_edge_def bind_result_Inr_iff Let_def telemetry_at_def apply_calibration_def apply_edge_view_def edge_view.defs)
  then show ?thesis by (simp add: transfer_duration_def link_seconds_def)
qed

theorem transfer_model_is_exact_witness:
  "bind_result (graph_edge example_cluster (Some (telemetry_at (fst (record_transfer_model_pair ''a'' ''b'' (1000, link_seconds 2 8 1000)
      (2000000, link_seconds 2 8 2000000) 0 ''probe'' (load_telemetry 1 None))) 60 60 30)) ''a'' ''b'') (\<lambda>e. transfer_duration e 5000000)
    = Inr (link_seconds 2 8 5000000)"
proof -
  let ?s = "fst (record_transfer_model_pair ''a'' ''b'' (1000, link_seconds 2 8 1000) (2000000, link_seconds 2 8 2000000) 0 ''probe''
      (load_telemetry 1 None))"
  obtain e where e: "graph_edge example_cluster (Some (telemetry_at ?s 60 60 30)) ''a'' ''b'' = Inr e"
    by (simp add: graph_edge_def example_simps get_node_def Let_def)
  from transfer_model_is_exact [OF _ _ _ _ _ _ _ refl _ _ e, of 5000000] have "transfer_duration e 5000000 = Inr (link_seconds 2 8 5000000)"
    by (simp add: link_seconds_def load_telemetry_def edge_or_blank_def edge_record_def empty_document_def blank_edge_def)
  then show ?thesis using e by simp
qed

text \<open>
  C28. Refreshing serves recent measurements: when every asked peer answers its probes and no more than
  \<open>d\<close> seconds pass between a reading of the clock for a peer (the first look, the two measurements) and the
  final view of it, \<open>ensure_edges_fresh\<close> returns one view per peer, in the order of the request; a peer
  found stale is served with measurements at most \<open>d\<close> seconds old, and so is fresh when \<open>d\<close> is within the
  limit of staleness; a peer found fresh is not measured again and may be older than that limit by up to \<open>d\<close>.
\<close>

theorem refreshed_edges_are_recent:
  assumes "\<forall>b \<in> set bs. answering env b" and "0 \<le> d"
    and "\<forall>b \<in> set bs. \<forall>u \<in> {Looked, Measured_Latency, Measured_Transfer}.
           probe_clock env Finally_Viewed b \<le> probe_clock env u b + d"
  shows "\<exists>n' vs. ensure_edges_fresh env bs n = (n', Inr vs) \<and> map fst vs = rev (remdups (rev bs))
    \<and> (\<forall>(b, v) \<in> set vs. \<exists>w. edge_view_now env Looked b n = Inr w
         \<and> aged (if edge_is_stale w then d else edge_stale_after (probe_policy env) + d) v
         \<and> (edge_is_stale w \<and> d \<le> edge_stale_after (probe_policy env) \<longrightarrow> \<not> edge_is_stale v))"
proof -
  let ?bs = "rev (remdups (rev bs))"
  have known: "\<forall>b \<in> set ?bs. is_ok (get_node (probe_cluster env) b)" using assms(1) by (simp add: answering_def)
  obtain ws where ws: "views_now env Looked ?bs n = Inr ws" "map fst ws = ?bs" "\<forall>(b, w) \<in> set ws. edge_view_now env Looked b n = Inr w"
    using views_now_all [OF known, of Looked n] by blast
  let ?stale = "map fst (filter (\<lambda>(_, w). edge_is_stale w) ws)"
  have "set ?stale \<subseteq> set (map fst ws)" by auto
  then have "set ?stale \<subseteq> set bs" unfolding ws(2) by simp
  then obtain n' where n': "probe_edges env True ?stale n = (n', Inr ())"
    "\<forall>c. measured_at env n' c = (if c \<in> set ?stale then probe_instants env c else measured_at env n c)"
    using probe_edges_measure [of ?stale env n] assms(1) by blast
  obtain vs where vs: "views_now env Finally_Viewed ?bs n' = Inr vs" "map fst vs = ?bs"
    "\<forall>(b, v) \<in> set vs. edge_view_now env Finally_Viewed b n' = Inr v" using views_now_all [OF known, of Finally_Viewed n'] by blast
  have "\<exists>w. edge_view_now env Looked b n = Inr w \<and> aged (if edge_is_stale w then d else edge_stale_after (probe_policy env) + d) v
      \<and> (edge_is_stale w \<and> d \<le> edge_stale_after (probe_policy env) \<longrightarrow> \<not> edge_is_stale v)" if bv: "(b, v) \<in> set vs" for b v
  proof -
    have v: "edge_view_now env Finally_Viewed b n' = Inr v" using vs(3) bv by blast
    have "b \<in> set (map fst vs)" using bv by force
    then have b: "b \<in> set (map fst ws)" unfolding vs(2) ws(2) .
    then obtain w where w: "(b, w) \<in> set ws" by auto
    then have now: "edge_view_now env Looked b n = Inr w" using ws(3) by blast
    have "b \<in> set ?stale \<longleftrightarrow> edge_is_stale w" using w ws(3) now by force
    then have m: "measured_at env n' b = (if edge_is_stale w then probe_instants env b else measured_at env n b)" using n'(2) by simp
    have bs: "b \<in> set bs" using b unfolding ws(2) by simp
    have aged: "aged (if edge_is_stale w then d else edge_stale_after (probe_policy env) + d) v"
      by (rule view_ages [OF v now m assms(2)]) (use assms(3) bs in blast)
    have "\<not> edge_is_stale v" if "edge_is_stale w" "d \<le> edge_stale_after (probe_policy env)"
      using aged that unfolding fresh_iff_aged [OF v] by (fastforce simp: aged_def)
    then show ?thesis using now aged by blast
  qed
  then have all: "\<forall>(b, v) \<in> set vs. \<exists>w. edge_view_now env Looked b n = Inr w
      \<and> aged (if edge_is_stale w then d else edge_stale_after (probe_policy env) + d) v
      \<and> (edge_is_stale w \<and> d \<le> edge_stale_after (probe_policy env) \<longrightarrow> \<not> edge_is_stale v)" by blast
  have "ensure_edges_fresh env bs n = (n', Inr vs)" using ws(1) n'(1) vs(1) by (simp add: ensure_edges_fresh_def Let_def)
  then show ?thesis using vs(2) all by blast
qed

theorem refreshed_edges_are_recent_witness:
  "\<exists>n' v. ensure_edges_fresh example_probes [''b'', ''b''] \<lparr>telemetry = load_telemetry 1 None, previous_cpu = [], last_edge_probe = 0,
      last_bandwidth_probe = []\<rparr> = (n', Inr [(''b'', v)]) \<and> aged 30 v \<and> \<not> edge_is_stale v"
proof -
  let ?n = "\<lparr>telemetry = load_telemetry 1 None, previous_cpu = [], last_edge_probe = 0, last_bandwidth_probe = []\<rparr>"
  have ok: "\<forall>b \<in> set [''b'', ''b'']. answering example_probes b"
    by (simp add: answering_def example_probes_def example_simps get_node_def)
  have stale: "edge_is_stale w" if "edge_view_now example_probes Looked ''b'' ?n = Inr w" for w
    using edge_view_reads [OF that, of None None] that
    by (simp add: edge_is_stale_def measured_at_def load_telemetry_def edge_or_blank_def edge_record_def empty_document_def blank_edge_def
        freshness_of_def age_seconds_def)
  from refreshed_edges_are_recent [OF ok, of 30 ?n] obtain n' vs where
    go: "ensure_edges_fresh example_probes [''b'', ''b''] ?n = (n', Inr vs)" "map fst vs = [''b'']"
    "\<forall>(b, v) \<in> set vs. \<exists>w. edge_view_now example_probes Looked b ?n = Inr w
         \<and> aged (if edge_is_stale w then 30 else edge_stale_after (probe_policy example_probes) + 30) v
         \<and> (edge_is_stale w \<and> 30 \<le> edge_stale_after (probe_policy example_probes) \<longrightarrow> \<not> edge_is_stale v)"
    by (auto simp: example_probes_def)
  then obtain v where v: "vs = [(''b'', v)]" by (cases vs) auto
  then obtain w where w: "edge_view_now example_probes Looked ''b'' ?n = Inr w"
    "aged (if edge_is_stale w then 30 else edge_stale_after (probe_policy example_probes) + 30) v"
    "edge_is_stale w \<and> 30 \<le> edge_stale_after (probe_policy example_probes) \<longrightarrow> \<not> edge_is_stale v" using go(3) by auto
  have "30 \<le> edge_stale_after (probe_policy example_probes)" by (simp add: example_probes_def example_telemetry_policy_def)
  then show ?thesis using go(1) v w stale [OF w(1)] by auto
qed

text \<open>
  The power of the node is attributed in full: after a reading of the energy counters the powers of
  the sampled tasks sum to the power of the node, up to a floor of a microwatt per task.
\<close>

theorem node_power_is_attributed:
  assumes "0 \<le> x" "ts \<noteq> []" "distinct ts" "\<forall>t \<in> set ts. task_record s t \<noteq> None"
  shows "sum_list (map (power_of (apply_node_power (Some x) ts s)) ts) \<in> {x .. x + of_nat (length ts) / 1000000000}"
proof -
  let ?rs = "map (\<lambda>t. (t, the (task_record s t))) ts"
  have rs: "List.map_filter (\<lambda>t. map_option (\<lambda>r. (t, r)) (task_record s t)) us = map (\<lambda>t. (t, the (task_record s t))) us"
    if "\<forall>t \<in> set us. task_record s t \<noteq> None" for us
    using that by (induction us) (auto simp: map_filter_simps)
  have ids: "map fst ?rs = ts" by (simp add: comp_def)
  let ?ws = "power_weights (map snd ?rs)"
  note pos = power_weights_pos [of "map snd ?rs"]
  have "map (power_of (apply_node_power (Some x) ts s)) ts = power_shares x ?ws"
  proof -
    have "length ?rs = length (power_shares x ?ws)" using assms(2) pos(3) by (simp add: power_shares_def)
    from put_shares_power [OF _ this, of s, unfolded ids] assms(3) rs [OF assms(4)] show ?thesis
      by (simp only: apply_node_power_def Let_def option.case)
  qed
  then show ?thesis using sum_shares [OF assms(1) pos(1,2)] assms(2) pos(3) by simp
qed

definition example_sample :: "real option \<Rightarrow> task_telemetry" where
  "example_sample cpu = (blank_task ''a'')\<lparr>tt_cpu_percent := cpu\<rparr>"

theorem node_power_is_attributed_witness:
  "sum_list (map (power_of (apply_node_power (Some (1 / 2)) [''t'', ''u'']
      (put_task ''u'' (example_sample None) (put_task ''t'' (example_sample (Some 80)) (load_telemetry 1 None))))) [''t'', ''u''])
   \<in> {1 / 2 .. 1 / 2 + 2 / 1000000000}"
  using node_power_is_attributed [of "1 / 2" "[''t'', ''u'']"
      "put_task ''u'' (example_sample None) (put_task ''t'' (example_sample (Some 80)) (load_telemetry 1 None))"]
  by (simp add: put_task_def persist_telemetry_def task_record_def)

end
