(* ===== verification/Carbon_Window.thy ===== *)
theory Carbon_Window
  imports Carbon_Forecast
begin

text \<open>
  The readings of \<open>magellan/carbon/store.py\<close>: the intensity at an instant, interpolated linearly in
  time between the samples around it, and the mean over a window, taken at one instant a minute.
  \<^typ>\<open>series\<close> is the sorted series a CSV file loads to.
\<close>

section \<open>Readings\<close>

fun interpolate :: "series \<Rightarrow> datetime \<Rightarrow> real" where
  "interpolate [] t = 0"
| "interpolate [(a, x)] t = x"
| "interpolate ((a, x) # (b, y) # s) t =
     (if t \<le> b then x + (y - x) * ((t - a) / (b - a)) else interpolate ((b, y) # s) t)"

definition node_series :: "carbon_store \<Rightarrow> node_id \<Rightarrow> series result" where
  "node_series cs n = (case dict_get (series_by_node cs) n of None \<Rightarrow> Inl (KeyError n) | Some s \<Rightarrow> Inr s)"

definition carbon_bounds :: "carbon_store \<Rightarrow> node_id \<Rightarrow> (datetime \<times> datetime) result" where
  "carbon_bounds cs n = bind_result (node_series cs n) (\<lambda>s. Inr (fst (hd s), fst (last s)))"

definition value_at :: "carbon_store \<Rightarrow> node_id \<Rightarrow> datetime \<Rightarrow> real result" where
  "value_at cs n t =
     bind_result (node_series cs n) (\<lambda>s.
       if t < fst (hd s) \<or> fst (last s) < t then Inl (ValueError ''Timestamp is outside data range'')
       else Inr (interpolate s t))"

definition minute_samples :: "datetime \<Rightarrow> real \<Rightarrow> datetime list" where
  "minute_samples start duration = map (\<lambda>k. start + 60 * real k) [0..<nat \<lceil>duration / 60\<rceil>]"

definition window_mean :: "carbon_store \<Rightarrow> node_id \<Rightarrow> datetime \<Rightarrow> real \<Rightarrow> real result" where
  "window_mean cs n start duration =
     (if duration < 0 then Inl (ValueError ''duration_seconds must be non-negative'')
      else if duration = 0 then value_at cs n start
      else bind_result (node_series cs n) (\<lambda>s.
        if start < fst (hd s) \<or> fst (last s) < start + duration then Inl (ValueError ''Carbon window is outside data range'')
        else if minute_samples start duration = [] then value_at cs n start
        else Inr (mean (map (interpolate s) (minute_samples start duration)))))"

section \<open>Readings lie between the samples\<close>

definition series_ok :: "series \<Rightarrow> bool" where
  "series_ok s \<longleftrightarrow> s \<noteq> [] \<and> sorted_wrt (<) (map fst s)"

definition series_within :: "real \<Rightarrow> real \<Rightarrow> series \<Rightarrow> bool" where
  "series_within lo hi s \<longleftrightarrow> (\<forall>(_, x) \<in> set s. lo \<le> x \<and> x \<le> hi)"

lemma interpolate_within:
  assumes "series_ok s" "series_within lo hi s" "fst (hd s) \<le> t" "t \<le> fst (last s)"
  shows "lo \<le> interpolate s t \<and> interpolate s t \<le> hi"
  using assms
proof (induction s t rule: interpolate.induct)
  case (3 a x b y s t)
  show ?case
  proof (cases "t \<le> b")
    case True
    define u where "u = (t - a) / (b - a)"
    have "a < b" "a \<le> t" using "3.prems"(1,3) by (simp_all add: series_ok_def)
    then have u: "0 \<le> u" "u \<le> 1" using True by (simp_all add: u_def)
    have e: "interpolate ((a, x) # (b, y) # s) t = (1 - u) * x + u * y"
      using True by (simp add: u_def [symmetric] algebra_simps)
    have xy: "lo \<le> x" "x \<le> hi" "lo \<le> y" "y \<le> hi" using "3.prems"(2) by (simp_all add: series_within_def)
    show ?thesis unfolding e
      using convex_bound_le [of x hi y "1 - u" u] convex_bound_le [of "- x" "- lo" "- y" "1 - u" u] xy u by simp
  next
    case False
    then show ?thesis using "3.IH" "3.prems" by (simp add: series_ok_def series_within_def)
  qed
qed (simp_all add: series_ok_def series_within_def)

text \<open>At a sample the reading is the sample.\<close>

lemma interpolate_sample: "series_ok s \<Longrightarrow> (t, v) \<in> set s \<Longrightarrow> interpolate s t = v"
proof (induction s t rule: interpolate.induct)
  case (3 a x b y s t)
  consider "t = a" "v = x" | "t = b" "v = y" "a < b" | "(t, v) \<in> set s" "b < t"
    using "3.prems" by (fastforce simp: series_ok_def)
  then show ?case
  proof cases
    case 1
    then show ?thesis using "3.prems"(1) by (simp add: series_ok_def)
  next
    case 3
    then show ?thesis using "3.IH" "3.prems" by (simp add: series_ok_def)
  qed simp
qed (simp_all add: series_ok_def)

lemma mean_within:
  assumes "xs \<noteq> []" "\<forall>x \<in> set xs. lo \<le> x \<and> x \<le> hi"
  shows "lo \<le> mean xs \<and> mean xs \<le> hi"
proof -
  have "real (length xs) * lo \<le> sum_list xs \<and> sum_list xs \<le> real (length xs) * hi"
    using assms(2) by (induction xs) (auto simp: algebra_simps)
  then show ?thesis using assms(1) by (simp add: mean_def field_simps)
qed

lemma minute_samples_in:
  assumes "t \<in> set (minute_samples start duration)"
  shows "start \<le> t \<and> t < start + duration"
proof -
  obtain k where k: "t = start + 60 * real k" "k < nat \<lceil>duration / 60\<rceil>" using assms by (auto simp: minute_samples_def)
  then have "real k < duration / 60" by (simp add: zless_nat_eq_int_zless less_ceiling_iff)
  then show ?thesis using k(1) by simp
qed

definition carbon_ok :: "carbon_store \<Rightarrow> bool" where
  "carbon_ok cs \<longleftrightarrow> (\<forall>n s. dict_get (series_by_node cs) n = Some s \<longrightarrow> series_ok s \<and> (\<forall>(_, x) \<in> set s. 0 \<le> x))"

lemma window_mean_within:
  assumes "window_mean cs n start duration = Inr v" "dict_get (series_by_node cs) n = Some s" "series_ok s" "series_within lo hi s"
  shows "lo \<le> v \<and> v \<le> hi"
proof -
  have node: "node_series cs n = Inr s" using assms(2) by (simp add: node_series_def)
  have inside: "lo \<le> interpolate s t \<and> interpolate s t \<le> hi" if "fst (hd s) \<le> t" "t \<le> fst (last s)" for t
    by (rule interpolate_within [OF assms(3,4) that])
  have at: "lo \<le> x \<and> x \<le> hi" if "value_at cs n t = Inr x" for t x
    using that inside [of t] by (auto simp: value_at_def node split: if_splits)
  have "lo \<le> mean (map (interpolate s) ts) \<and> mean (map (interpolate s) ts) \<le> hi"
    if "ts = minute_samples start duration" "ts \<noteq> []" "fst (hd s) \<le> start" "start + duration \<le> fst (last s)" for ts
    using that(2-4) inside minute_samples_in [of _ start duration] unfolding that(1) [symmetric]
    by (intro mean_within) (auto, force+)
  then show ?thesis using assms(1) at by (auto simp: window_mean_def node Let_def split: if_splits)
qed

lemma window_mean_nonneg:
  assumes "carbon_ok cs" "window_mean cs n start duration = Inr v"
  shows "0 \<le> v"
proof -
  obtain s where s: "dict_get (series_by_node cs) n = Some s"
    using assms(2) by (auto simp: window_mean_def value_at_def node_series_def bind_result_Inr_iff split: if_splits option.splits)
  have ok: "series_ok s" "\<forall>(_, x) \<in> set s. 0 \<le> x" using assms(1) s by (simp_all add: carbon_ok_def)
  have "x \<le> Max (snd ` set s)" if "(a, x) \<in> set s" for a x using that by (intro Max_ge) force+
  then have "series_within 0 (Max (snd ` set s)) s" using ok(2) by (auto simp: series_within_def)
  from window_mean_within [OF assms(2) s ok(1) this] show ?thesis by simp
qed

lemma window_mean_total:
  assumes "dict_get (series_by_node cs) n = Some s" "fst (hd s) \<le> start" "start + duration \<le> fst (last s)" "0 \<le> duration"
  shows "\<exists>v. window_mean cs n start duration = Inr v"
  using assms by (auto simp: window_mean_def value_at_def node_series_def)

end
