(* ===== verification/Comparison.thy ===== *)
theory Comparison
  imports Scoring_Admissible Carbon_Window
begin

text \<open>
  \<open>magellan/experiments/comparison.py\<close>: what a placement policy would have spent on a workload over
  a recorded carbon trace.  Steps and outcomes keep every number the comparison computes with; the
  free-form \<open>details\<close> and \<open>metadata\<close> dictionaries, which nothing reads back, are left out.
\<close>

section \<open>Records\<close>

record comparison_workload =
  workload_name :: string
  workload_seconds :: real
  workload_power :: real
  workload_checkpoint_bytes :: int
  workload_static_bytes :: int
  workload_start_node :: node_id
  workload_cost_cap :: "real option"

definition wf_workload :: "comparison_workload \<Rightarrow> bool" where
  "wf_workload w \<longleftrightarrow> workload_name w \<noteq> [] \<and> 0 < workload_seconds w \<and> 0 < workload_power w
   \<and> 0 \<le> workload_checkpoint_bytes w \<and> 0 \<le> workload_static_bytes w \<and> workload_start_node w \<noteq> []
   \<and> (\<forall>c. workload_cost_cap w = Some c \<longrightarrow> 0 < c)"

record replay_step =
  step_index :: nat
  step_action :: string
  step_source :: node_id
  step_destination :: "node_id option"
  step_started :: datetime
  step_finished :: datetime
  step_elapsed :: real
  step_compute :: real
  step_idle :: real
  step_migration :: real
  step_carbon :: real
  step_cost :: real
  step_remaining :: real

record policy_outcome =
  outcome_policy :: string
  outcome_start_node :: node_id
  outcome_final_node :: node_id
  outcome_initial_node :: "node_id option"
  outcome_completed :: bool
  outcome_makespan :: real
  outcome_compute :: real
  outcome_idle :: real
  outcome_overhead :: real
  outcome_migration :: real
  outcome_carbon :: real
  outcome_cost :: real
  outcome_migrations :: nat
  outcome_pauses :: nat
  outcome_decisions :: nat
  outcome_owners :: "node_id list"
  outcome_steps :: "replay_step list"

record segment_metrics =
  segment_elapsed :: real
  segment_carbon :: real
  segment_cost :: real

section \<open>What a stretch of time costs\<close>

text \<open>\<open>average\<close> is the reading of the carbon store over a window.\<close>

type_synonym carbon_average = "node_id \<Rightarrow> datetime \<Rightarrow> real \<Rightarrow> real result"

definition compute_segment :: "carbon_average \<Rightarrow> node_config \<Rightarrow> datetime \<Rightarrow> real \<Rightarrow> real \<Rightarrow> segment_metrics result" where
  "compute_segment average node start seconds kw =
     (if seconds \<le> 0 then Inr \<lparr>segment_elapsed = 0, segment_carbon = 0, segment_cost = 0\<rparr>
      else bind_result (average (node_identity node) start seconds) (\<lambda>intensity.
        Inr \<lparr>segment_elapsed = seconds,
             segment_carbon = kw * pue node * seconds_to_hours seconds * intensity,
             segment_cost = compute_price_usd_per_hour node * seconds_to_hours seconds\<rparr>))"

definition active_overhead_segment ::
  "carbon_average \<Rightarrow> node_config \<Rightarrow> datetime \<Rightarrow> real \<Rightarrow> real \<Rightarrow> segment_metrics result" where
  "active_overhead_segment average node start seconds kw =
     (if seconds \<le> 0 then Inr \<lparr>segment_elapsed = 0, segment_carbon = 0, segment_cost = 0\<rparr>
      else bind_result (average (node_identity node) start seconds) (\<lambda>intensity.
        Inr \<lparr>segment_elapsed = seconds,
             segment_carbon = kw * pue node * seconds_to_hours seconds * intensity, segment_cost = 0\<rparr>))"

definition realized_migration ::
  "node_config \<Rightarrow> node_config \<Rightarrow> edge_metrics \<Rightarrow> scoring_policy \<Rightarrow> carbon_average \<Rightarrow> datetime \<Rightarrow> real \<Rightarrow> int \<Rightarrow> int
     \<Rightarrow> segment_metrics result" where
  "realized_migration src dst e p average start kw checkpoint static =
     (let b = checkpoint + static
      in bind_result (transfer_seconds b (bandwidth_mbps e) (latency_ms e)) (\<lambda>transfer.
         let cs = (case checkpoint_seconds e of Some s \<Rightarrow> s | None \<Rightarrow> pause_seconds (pause p));
             rs = (case restore_seconds e of Some s \<Rightarrow> s | None \<Rightarrow> resume_seconds (pause p))
         in bind_result (average (node_identity src) start cs) (\<lambda>ci.
            bind_result (average (node_identity dst) (start + (cs + transfer)) rs) (\<lambda>ri.
              Inr \<lparr>segment_elapsed = cs + transfer + rs,
                   segment_carbon = kw * pue src * seconds_to_hours cs * ci
                     + kw * pue dst * seconds_to_hours rs * ri
                     + network_energy_kwh (migration p) e b * ((ci + ri) / 2),
                   segment_cost = bytes_to_gb b * egress_price_usd_per_gb src\<rparr>))))"

text \<open>A pause: what it cost, the idle seconds and the overhead of pausing and resuming.\<close>

definition pause_metrics ::
  "node_config \<Rightarrow> scoring_policy \<Rightarrow> carbon_average \<Rightarrow> datetime \<Rightarrow> real \<Rightarrow> real \<Rightarrow> (segment_metrics \<times> real \<times> real) result" where
  "pause_metrics node p average start idle kw =
     bind_result (active_overhead_segment average node start (pause_seconds (pause p)) kw) (\<lambda>a.
     bind_result (active_overhead_segment average node (start + (pause_seconds (pause p) + idle))
         (resume_seconds (pause p)) kw) (\<lambda>b.
     Inr (\<lparr>segment_elapsed = pause_seconds (pause p) + idle + resume_seconds (pause p),
           segment_carbon = segment_carbon a + segment_carbon b, segment_cost = 0\<rparr>,
          idle, pause_seconds (pause p) + resume_seconds (pause p))))"

section \<open>Fixed placements\<close>

definition static_outcome ::
  "string \<Rightarrow> node_config \<Rightarrow> comparison_workload \<Rightarrow> carbon_average \<Rightarrow> datetime \<Rightarrow> policy_outcome result" where
  "static_outcome label node w average start =
     (let n = node_identity node; d = workload_seconds w
      in bind_result (compute_segment average node start d (workload_power w)) (\<lambda>m.
        Inr \<lparr>outcome_policy = label, outcome_start_node = n, outcome_final_node = n, outcome_initial_node = Some n,
             outcome_completed = True, outcome_makespan = d, outcome_compute = d, outcome_idle = 0, outcome_overhead = 0,
             outcome_migration = 0, outcome_carbon = segment_carbon m, outcome_cost = segment_cost m,
             outcome_migrations = 0, outcome_pauses = 0, outcome_decisions = 0, outcome_owners = [n],
             outcome_steps = [\<lparr>step_index = 1, step_action = ''continue'', step_source = n, step_destination = None,
               step_started = start, step_finished = start + d, step_elapsed = d, step_compute = d, step_idle = 0,
               step_migration = 0, step_carbon = segment_carbon m, step_cost = segment_cost m, step_remaining = 0\<rparr>]\<rparr>))"

fun map_results :: "('a \<Rightarrow> 'b result) \<Rightarrow> 'a list \<Rightarrow> 'b list result" where
  "map_results f [] = Inr []"
| "map_results f (x # xs) = bind_result (f x) (\<lambda>y. bind_result (map_results f xs) (\<lambda>ys. Inr (y # ys)))"

definition static_candidates ::
  "cluster_config \<Rightarrow> comparison_workload \<Rightarrow> carbon_average \<Rightarrow> datetime \<Rightarrow> policy_outcome list result" where
  "static_candidates c w average start =
     map_results (\<lambda>node. static_outcome ''static_candidate'' node w average start) (nodes c)"

definition estimate_of_outcome :: "policy_outcome \<Rightarrow> raw_action_estimate" where
  "estimate_of_outcome out =
     \<lparr>action = Continue, source_node = outcome_final_node out, destination_node = None,
      time_seconds = outcome_makespan out, carbon_grams = outcome_carbon out, cost_usd = outcome_cost out,
      detail_idle_seconds = None, detail_carbon_confidence = None\<rparr>"

definition choose_weighted_static ::
  "policy_outcome list \<Rightarrow> scoring_policy \<Rightarrow> (policy_outcome \<times> scored_action list) result" where
  "choose_weighted_static outs p =
     bind_result (score_actions (map estimate_of_outcome outs) p None) (\<lambda>ranked.
       case find (\<lambda>out. outcome_final_node out = source_node (hd ranked)) outs of
         None \<Rightarrow> Inl (OtherError ''StopIteration'')
       | Some out \<Rightarrow> Inr (out, ranked))"

definition best_static_outcome ::
  "cluster_config \<Rightarrow> scoring_policy \<Rightarrow> comparison_workload \<Rightarrow> carbon_average \<Rightarrow> datetime \<Rightarrow> policy_outcome result" where
  "best_static_outcome c p w average start =
     bind_result (static_candidates c w average start) (\<lambda>outs.
     bind_result (choose_weighted_static outs p) (\<lambda>(out, _). Inr (out\<lparr>outcome_policy := ''best_static''\<rparr>)))"

definition dispatch_profile :: "comparison_workload \<Rightarrow> node_id \<Rightarrow> task_profile" where
  "dispatch_profile w n =
     \<lparr>profile_task_id = ''dispatch-'' @ workload_name w, workload_type = ''comparison'', current_node_id = n,
      power_kw = workload_power w, checkpoint_bytes = workload_checkpoint_bytes w, data_bytes = workload_static_bytes w,
      prestaged_node_ids = {}, profile_remaining_seconds = Some (workload_seconds w), profile_accumulated_cost = 0,
      cost_cap_usd = workload_cost_cap w, last_migration_at = None, last_pause_at = None, priority = 0, deadline_at = None,
      resource_request = default_resource_request, compatibility = default_requirements\<rparr>"

definition best_at_dispatch_outcome ::
  "cluster_config \<Rightarrow> scoring_policy \<Rightarrow> comparison_workload \<Rightarrow> carbon_average \<Rightarrow> (datetime \<Rightarrow> forecaster) \<Rightarrow> datetime
     \<Rightarrow> policy_outcome result" where
  "best_at_dispatch_outcome c p w average forecast start =
     bind_result (map_results (\<lambda>node. estimate_continue (dispatch_profile w (node_identity node)) node (forecast start) start
         (of_int (horizon_seconds p))) (nodes c)) (\<lambda>es.
     bind_result (score_actions es p None) (\<lambda>ranked.
     bind_result (get_node c (source_node (hd ranked))) (\<lambda>node.
     static_outcome ''best_at_dispatch'' node w average start)))"

section \<open>Replaying the scheduler\<close>

datatype causal_label = Temporal_Only | Magellan_Causal

fun label_text :: "causal_label \<Rightarrow> string" where
  "label_text Temporal_Only = ''temporal_only''"
| "label_text Magellan_Causal = ''magellan_causal''"

record replay_setting =
  replay_label :: causal_label
  replay_cluster :: cluster_config
  replay_policy :: scoring_policy
  replay_service :: policy_service
  replay_workload :: comparison_workload
  replay_average :: carbon_average
  replay_forecast :: "datetime \<Rightarrow> forecaster"
  replay_clock :: "nat \<Rightarrow> adaptive_clock"
  replay_prestaged :: bool

record replay_state =
  rp_time :: datetime
  rp_node :: node_id
  rp_remaining :: real
  rp_carbon :: real
  rp_cost :: real
  rp_compute :: real
  rp_idle :: real
  rp_overhead :: real
  rp_migration :: real
  rp_migrations :: nat
  rp_pauses :: nat
  rp_last_migration :: "datetime option"
  rp_last_pause :: "datetime option"
  rp_staged :: "node_id set"
  rp_owners :: "node_id list"
  rp_steps :: "replay_step list"
  rp_store :: policy_store

definition replay_start :: "replay_setting \<Rightarrow> datetime \<Rightarrow> replay_state" where
  "replay_start x start =
     (let n = workload_start_node (replay_workload x)
      in \<lparr>rp_time = start, rp_node = n, rp_remaining = workload_seconds (replay_workload x), rp_carbon = 0, rp_cost = 0,
          rp_compute = 0, rp_idle = 0, rp_overhead = 0, rp_migration = 0, rp_migrations = 0, rp_pauses = 0,
          rp_last_migration = None, rp_last_pause = None,
          rp_staged = (if replay_prestaged x then node_identity ` set (nodes (replay_cluster x)) else {n}),
          rp_owners = [n], rp_steps = [], rp_store = load_policies None\<rparr>)"

definition replay_profile :: "replay_setting \<Rightarrow> replay_state \<Rightarrow> task_profile" where
  "replay_profile x s =
     (let w = replay_workload x
      in \<lparr>profile_task_id = ''replay-'' @ label_text (replay_label x) @ ''-'' @ workload_name w, workload_type = ''comparison'',
          current_node_id = rp_node s, power_kw = workload_power w, checkpoint_bytes = workload_checkpoint_bytes w,
          data_bytes = workload_static_bytes w, prestaged_node_ids = rp_staged s,
          profile_remaining_seconds = Some (rp_remaining s), profile_accumulated_cost = rp_cost s,
          cost_cap_usd = workload_cost_cap w, last_migration_at = rp_last_migration s, last_pause_at = rp_last_pause s,
          priority = 0, deadline_at = None, resource_request = default_resource_request,
          compatibility = default_requirements\<rparr>)"

definition replay_destinations :: "replay_setting \<Rightarrow> replay_state \<Rightarrow> node_id list" where
  "replay_destinations x s =
     (if replay_label x = Temporal_Only then []
      else filter (\<lambda>n. n \<noteq> rp_node s) (map node_identity (nodes (replay_cluster x))))"

definition staged_bytes :: "replay_setting \<Rightarrow> replay_state \<Rightarrow> node_id \<Rightarrow> int" where
  "staged_bytes x s n = (if n \<in> rp_staged s then 0 else workload_static_bytes (replay_workload x))"

definition replay_decision :: "replay_setting \<Rightarrow> nat \<Rightarrow> replay_state \<Rightarrow> (decision_result \<times> policy_store) result" where
  "replay_decision x i s =
     (let ds = replay_destinations x s
      in bind_result (evaluate_task (replay_profile x s) (replay_cluster x) (replay_policy x) None
           (replay_forecast x (rp_time s)) (rp_time s) (Some (map (\<lambda>n. (n, staged_bytes x s n)) ds))
           (Some (replay_service x, rp_store s, replay_clock x i)) 0 (Some (set ds))) (\<lambda>(d, out).
         Inr (d, case out of None \<Rightarrow> rp_store s | Some (s2, _, _) \<Rightarrow> s2)))"

definition replay_continue :: "replay_setting \<Rightarrow> nat \<Rightarrow> node_config \<Rightarrow> replay_state \<Rightarrow> replay_state result" where
  "replay_continue x i node s =
     (let seconds = min (of_int (epoch_seconds (replay_cluster x))) (rp_remaining s)
      in bind_result (compute_segment (replay_average x) node (rp_time s) seconds (workload_power (replay_workload x))) (\<lambda>m.
         let now = rp_time s + seconds; remaining = max 0 (rp_remaining s - seconds)
         in Inr (s\<lparr>rp_time := now, rp_remaining := remaining, rp_compute := rp_compute s + seconds,
               rp_carbon := rp_carbon s + segment_carbon m, rp_cost := rp_cost s + segment_cost m,
               rp_steps := rp_steps s @ [\<lparr>step_index = i, step_action = ''continue'', step_source = rp_node s,
                 step_destination = None, step_started = rp_time s, step_finished = now, step_elapsed = seconds,
                 step_compute = seconds, step_idle = 0, step_migration = 0, step_carbon = segment_carbon m,
                 step_cost = segment_cost m, step_remaining = remaining\<rparr>]\<rparr>)))"

definition replay_pause :: "replay_setting \<Rightarrow> nat \<Rightarrow> node_config \<Rightarrow> real \<Rightarrow> replay_state \<Rightarrow> replay_state result" where
  "replay_pause x i node idle s =
     bind_result (pause_metrics node (replay_policy x) (replay_average x) (rp_time s) idle (workload_power (replay_workload x)))
       (\<lambda>(m, paused, overhead).
         let now = rp_time s + segment_elapsed m
         in Inr (s\<lparr>rp_time := now, rp_idle := rp_idle s + paused, rp_overhead := rp_overhead s + overhead,
               rp_carbon := rp_carbon s + segment_carbon m, rp_last_pause := Some (rp_time s), rp_pauses := rp_pauses s + 1,
               rp_steps := rp_steps s @ [\<lparr>step_index = i, step_action = ''pause'', step_source = rp_node s,
                 step_destination = None, step_started = rp_time s, step_finished = now, step_elapsed = segment_elapsed m,
                 step_compute = 0, step_idle = paused, step_migration = 0, step_carbon = segment_carbon m, step_cost = 0,
                 step_remaining = rp_remaining s\<rparr>]\<rparr>))"

definition replay_migrate :: "replay_setting \<Rightarrow> nat \<Rightarrow> node_config \<Rightarrow> node_id option \<Rightarrow> replay_state \<Rightarrow> replay_state result" where
  "replay_migrate x i src destination s =
     (case destination of
        None \<Rightarrow> Inl (RuntimeError ''Causal replay selected migration without destination'')
      | Some d \<Rightarrow>
          bind_result (get_node (replay_cluster x) d) (\<lambda>dst.
          bind_result (graph_edge (replay_cluster x) None (rp_node s) d) (\<lambda>e.
          bind_result (realized_migration src dst e (replay_policy x) (replay_average x) (rp_time s)
              (workload_power (replay_workload x)) (workload_checkpoint_bytes (replay_workload x)) (staged_bytes x s d)) (\<lambda>m.
            let now = rp_time s + segment_elapsed m
            in Inr (s\<lparr>rp_time := now, rp_migration := rp_migration s + segment_elapsed m,
                  rp_carbon := rp_carbon s + segment_carbon m, rp_cost := rp_cost s + segment_cost m,
                  rp_migrations := rp_migrations s + 1, rp_last_migration := Some (rp_time s), rp_node := d,
                  rp_staged := insert d (rp_staged s), rp_owners := rp_owners s @ [d],
                  rp_steps := rp_steps s @ [\<lparr>step_index = i, step_action = ''migrate'', step_source = node_identity src,
                    step_destination = Some d, step_started = rp_time s, step_finished = now,
                    step_elapsed = segment_elapsed m, step_compute = 0, step_idle = 0, step_migration = segment_elapsed m,
                    step_carbon = segment_carbon m, step_cost = segment_cost m, step_remaining = rp_remaining s\<rparr>]\<rparr>)))))"

definition replay_one :: "replay_setting \<Rightarrow> nat \<Rightarrow> replay_state \<Rightarrow> replay_state result" where
  "replay_one x i s =
     bind_result (replay_decision x i s) (\<lambda>(d, store).
     bind_result (get_node (replay_cluster x) (rp_node s)) (\<lambda>node.
       let s1 = s\<lparr>rp_store := store\<rparr>
       in case action (selected d) of
            Continue \<Rightarrow> replay_continue x i node s1
          | Pause \<Rightarrow> replay_pause x i node (case detail_idle_seconds (selected d) of None \<Rightarrow> 0 | Some idle \<Rightarrow> idle) s1
          | Migrate \<Rightarrow> replay_migrate x i node (destination_node (selected d)) s1))"

text \<open>
  The loop over the decisions: it stops at the first head at which nothing remains, and raises when
  the last decision has been taken, whether or not it finished the work.
\<close>

fun replay_loop :: "replay_setting \<Rightarrow> nat \<Rightarrow> nat \<Rightarrow> replay_state \<Rightarrow> replay_state result" where
  "replay_loop x 0 i s = Inl (RuntimeError ''Causal replay exceeded its decisions without completing'')"
| "replay_loop x (Suc k) i s =
     (if rp_remaining s \<le> 1 / 1000000000 then Inr s
      else bind_result (replay_one x i s) (replay_loop x k (i + 1)))"

definition replay_outcome :: "replay_setting \<Rightarrow> datetime \<Rightarrow> replay_state \<Rightarrow> policy_outcome" where
  "replay_outcome x start s =
     \<lparr>outcome_policy = label_text (replay_label x), outcome_start_node = workload_start_node (replay_workload x),
      outcome_final_node = rp_node s, outcome_initial_node = Some (workload_start_node (replay_workload x)),
      outcome_completed = (rp_remaining s \<le> 1 / 1000000000), outcome_makespan = rp_time s - start,
      outcome_compute = rp_compute s, outcome_idle = rp_idle s, outcome_overhead = rp_overhead s,
      outcome_migration = rp_migration s, outcome_carbon = rp_carbon s, outcome_cost = rp_cost s,
      outcome_migrations = rp_migrations s, outcome_pauses = rp_pauses s, outcome_decisions = length (rp_steps s),
      outcome_owners = rp_owners s, outcome_steps = rp_steps s\<rparr>"

definition replay_causal_policy :: "replay_setting \<Rightarrow> nat \<Rightarrow> datetime \<Rightarrow> policy_outcome result" where
  "replay_causal_policy x max_decisions start =
     bind_result (get_node (replay_cluster x) (workload_start_node (replay_workload x))) (\<lambda>_.
     bind_result (replay_loop x max_decisions 1 (replay_start x start)) (\<lambda>s. Inr (replay_outcome x start s)))"

section \<open>Comparing outcomes\<close>

record reference_scales =
  scale_time :: real
  scale_carbon :: real
  scale_cost :: real

definition comparison_reference_scales :: "policy_outcome list \<Rightarrow> reference_scales result" where
  "comparison_reference_scales outs =
     (if outs = [] then Inl (ValueError ''At least one outcome is required'')
      else Inr \<lparr>scale_time = max (Max (set (map outcome_makespan outs))) (1 / 1000000000000),
                scale_carbon = max (Max (set (map outcome_carbon outs))) (1 / 1000000000000),
                scale_cost = max (Max (set (map outcome_cost outs))) (1 / 1000000000000)\<rparr>)"

definition global_objective :: "policy_outcome \<Rightarrow> scoring_policy \<Rightarrow> reference_scales \<Rightarrow> real" where
  "global_objective out p r =
     (let w = normalized (weights p)
      in w_time w * outcome_makespan out / scale_time r + w_carbon w * outcome_carbon out / scale_carbon r
         + w_cost w * outcome_cost out / scale_cost r)"

definition ceil_steps :: "real \<Rightarrow> real \<Rightarrow> nat" where
  "ceil_steps seconds quantum = nat (max 1 \<lceil>seconds / quantum - 1 / 1000000000000\<rceil>)"

end
