(* ===== verification/Oracle.thy ===== *)
theory Oracle
  imports Comparison "HOL-Library.Multiset"
begin

text \<open>
  \<open>magellan/experiments/oracle.py\<close>: the clairvoyant reference schedule, a shortest path over the
  states (quanta elapsed, quanta of work done, node) whose edges are a quantum of work, a quantum of
  waiting and a migration.  The two caches of the source hold values that depend on their keys alone
  and are left out; the queue, a binary heap there, is the list of its entries.
\<close>

section \<open>The problem\<close>

record oracle_problem =
  op_cluster :: cluster_config
  op_policy :: scoring_policy
  op_workload :: comparison_workload
  op_average :: carbon_average
  op_start :: datetime
  op_time_reference :: real
  op_carbon_reference :: real
  op_cost_reference :: real
  op_quantum :: real
  op_multiplier :: real
  op_prestaged :: bool

record oracle_state =
  os_elapsed :: nat
  os_work :: nat
  os_node :: node_id

record oracle_edge =
  oe_action :: string
  oe_source :: node_id
  oe_destination :: "node_id option"
  oe_steps :: nat
  oe_elapsed :: real
  oe_compute :: real
  oe_idle :: real
  oe_migration :: real
  oe_carbon :: real
  oe_cost :: real

definition incremental_objective :: "oracle_problem \<Rightarrow> oracle_edge \<Rightarrow> real" where
  "incremental_objective pb e =
     (let w = normalized (weights (op_policy pb)); floor_of = (\<lambda>r. max r (1 / 1000000000000))
      in w_time w * oe_elapsed e / floor_of (op_time_reference pb)
         + w_carbon w * oe_carbon e / floor_of (op_carbon_reference pb)
         + w_cost w * oe_cost e / floor_of (op_cost_reference pb))"

definition oracle_work :: "oracle_problem \<Rightarrow> nat" where
  "oracle_work pb = nat \<lceil>workload_seconds (op_workload pb) / op_quantum pb\<rceil>"

definition oracle_limit :: "oracle_problem \<Rightarrow> nat" where
  "oracle_limit pb = nat \<lceil>workload_seconds (op_workload pb) * op_multiplier pb / op_quantum pb\<rceil>"

definition oracle_initial :: "oracle_problem \<Rightarrow> oracle_state" where
  "oracle_initial pb = \<lparr>os_elapsed = 0, os_work = 0, os_node = workload_start_node (op_workload pb)\<rparr>"

section \<open>The edges of a state\<close>

definition state_time :: "oracle_problem \<Rightarrow> oracle_state \<Rightarrow> datetime" where
  "state_time pb st = op_start pb + real (os_elapsed st) * op_quantum pb"

definition quantum_of_work :: "oracle_problem \<Rightarrow> oracle_state \<Rightarrow> real" where
  "quantum_of_work pb st =
     min (op_quantum pb) (max 0 (workload_seconds (op_workload pb) - real (os_work st) * op_quantum pb))"

definition continue_move :: "oracle_problem \<Rightarrow> oracle_state \<Rightarrow> node_config \<Rightarrow> (oracle_state \<times> oracle_edge) result" where
  "continue_move pb st source =
     (let seconds = quantum_of_work pb st
      in bind_result (compute_segment (op_average pb) source (state_time pb st) seconds (workload_power (op_workload pb))) (\<lambda>m.
        Inr (st\<lparr>os_elapsed := os_elapsed st + 1, os_work := os_work st + 1\<rparr>,
             \<lparr>oe_action = ''continue'', oe_source = os_node st, oe_destination = None, oe_steps = 1, oe_elapsed = seconds,
              oe_compute = seconds, oe_idle = 0, oe_migration = 0, oe_carbon = segment_carbon m, oe_cost = segment_cost m\<rparr>)))"

definition wait_move :: "oracle_problem \<Rightarrow> oracle_state \<Rightarrow> oracle_state \<times> oracle_edge" where
  "wait_move pb st =
     (st\<lparr>os_elapsed := os_elapsed st + 1\<rparr>,
      \<lparr>oe_action = ''wait'', oe_source = os_node st, oe_destination = None, oe_steps = 1, oe_elapsed = op_quantum pb,
       oe_compute = 0, oe_idle = op_quantum pb, oe_migration = 0, oe_carbon = 0, oe_cost = 0\<rparr>)"

definition migrate_move ::
  "oracle_problem \<Rightarrow> oracle_state \<Rightarrow> node_config \<Rightarrow> node_config \<Rightarrow> (oracle_state \<times> oracle_edge) result" where
  "migrate_move pb st source destination =
     bind_result (graph_edge (op_cluster pb) None (os_node st) (node_identity destination)) (\<lambda>e.
     bind_result (realized_migration source destination e (op_policy pb) (op_average pb) (state_time pb st)
         (workload_power (op_workload pb)) (workload_checkpoint_bytes (op_workload pb))
         (if op_prestaged pb then 0 else workload_static_bytes (op_workload pb))) (\<lambda>m.
       let k = ceil_steps (segment_elapsed m) (op_quantum pb)
       in Inr (st\<lparr>os_elapsed := os_elapsed st + k, os_node := node_identity destination\<rparr>,
               \<lparr>oe_action = ''migrate'', oe_source = os_node st, oe_destination = Some (node_identity destination), oe_steps = k,
                oe_elapsed = real k * op_quantum pb, oe_compute = 0, oe_idle = 0, oe_migration = segment_elapsed m,
                oe_carbon = segment_carbon m, oe_cost = segment_cost m\<rparr>)))"

definition oracle_moves :: "oracle_problem \<Rightarrow> oracle_state \<Rightarrow> (oracle_state \<times> oracle_edge) list result" where
  "oracle_moves pb st =
     bind_result (get_node (op_cluster pb) (os_node st)) (\<lambda>source.
     bind_result (continue_move pb st source) (\<lambda>c.
     bind_result (map_results (migrate_move pb st source) (peers (op_cluster pb) (os_node st))) (\<lambda>ms.
     Inr (c # wait_move pb st # ms))))"

section \<open>The queue\<close>

type_synonym queue_entry = "real \<times> nat \<times> oracle_state"

definition before :: "queue_entry \<Rightarrow> queue_entry \<Rightarrow> bool" where
  "before a b \<longleftrightarrow> fst a < fst b \<or> (fst a = fst b \<and> fst (snd a) < fst (snd b))"

fun pop_least :: "queue_entry list \<Rightarrow> (queue_entry \<times> queue_entry list) option" where
  "pop_least [] = None"
| "pop_least (x # q) =
     (case pop_least q of
        None \<Rightarrow> Some (x, [])
      | Some (y, r) \<Rightarrow> if before y x then Some (y, x # r) else Some (x, q))"

section \<open>The search\<close>

record oracle_search =
  best :: "oracle_state \<Rightarrow> real option"
  spent :: "oracle_state \<Rightarrow> (real \<times> real \<times> real) option"
  came_from :: "oracle_state \<Rightarrow> (oracle_state \<times> oracle_edge) option"
  waiting :: "queue_entry list"
  serial :: nat

definition search_start :: "oracle_problem \<Rightarrow> oracle_search" where
  "search_start pb =
     \<lparr>best = [oracle_initial pb \<mapsto> 0], spent = [oracle_initial pb \<mapsto> (0, 0, 0)], came_from = Map.empty,
      waiting = [(0, 0, oracle_initial pb)], serial = 1\<rparr>"

abbreviation slack :: real where "slack \<equiv> 1 / 1000000000000"

definition relax ::
  "oracle_problem \<Rightarrow> real \<Rightarrow> oracle_state \<Rightarrow> real \<times> real \<times> real \<Rightarrow> oracle_state \<times> oracle_edge \<Rightarrow> oracle_search \<Rightarrow> oracle_search" where
  "relax pb so_far st prior move s =
     (let (t, e) = move; c = so_far + incremental_objective pb e; (pt, pc, pu) = prior
      in if oracle_limit pb < os_elapsed t then s
         else if (case best s t of None \<Rightarrow> False | Some d \<Rightarrow> d \<le> c + slack) then s
         else s\<lparr>best := (best s)(t \<mapsto> c), spent := (spent s)(t \<mapsto> (pt + oe_elapsed e, pc + oe_carbon e, pu + oe_cost e)),
                came_from := (came_from s)(t \<mapsto> (st, e)), waiting := waiting s @ [(c, serial s, t)], serial := serial s + 1\<rparr>)"

lemma pop_least_None [simp]: "pop_least q = None \<longleftrightarrow> q = []"
  by (cases q) (auto split: option.split)

lemma pop_least_mset: "pop_least q = Some (x, r) \<Longrightarrow> mset q = add_mset x (mset r)"
  by (induction q arbitrary: x r) (auto split: option.splits if_splits)

lemma ceil_steps_pos: "1 \<le> ceil_steps x q"
  by (simp add: ceil_steps_def le_nat_iff)

lemma map_results_set: "map_results f xs = Inr ys \<Longrightarrow> y \<in> set ys \<Longrightarrow> \<exists>x \<in> set xs. f x = Inr y"
  by (induction xs arbitrary: ys) (auto simp: bind_result_Inr_iff)

lemma oracle_moves_cases:
  assumes "oracle_moves pb st = Inr ms" "(t, e) \<in> set ms"
  obtains src where "get_node (op_cluster pb) (os_node st) = Inr src" "continue_move pb st src = Inr (t, e)"
  | "(t, e) = wait_move pb st"
  | src dst where "get_node (op_cluster pb) (os_node st) = Inr src" "dst \<in> set (peers (op_cluster pb) (os_node st))"
      "migrate_move pb st src dst = Inr (t, e)"
proof -
  from assms(1) obtain src x xs where src: "get_node (op_cluster pb) (os_node st) = Inr src" and x: "continue_move pb st src = Inr x"
    and xs: "map_results (migrate_move pb st src) (peers (op_cluster pb) (os_node st)) = Inr xs"
    and ms: "ms = x # wait_move pb st # xs"
    unfolding oracle_moves_def bind_result_Inr_iff by auto
  consider "(t, e) = x" | "(t, e) = wait_move pb st" | "(t, e) \<in> set xs" using assms(2) ms by auto
  then show thesis
    using that(1) [OF src] x that(2) that(3) [OF src] map_results_set [OF xs, of "(t, e)"] by cases blast+
qed

lemma oracle_moves_later: "oracle_moves pb st = Inr ms \<Longrightarrow> (t, e) \<in> set ms \<Longrightarrow> os_elapsed st < os_elapsed t"
  using ceil_steps_pos
  by (elim oracle_moves_cases) (auto simp: continue_move_def wait_move_def migrate_move_def bind_result_Inr_iff Let_def
      Suc_le_eq)

lemma relax_waiting:
  assumes "os_elapsed st < os_elapsed (fst m)"
  shows "\<exists>new. waiting (relax pb c st p m s) = waiting s @ new
    \<and> (\<forall>(_, _, t) \<in> set new. os_elapsed st < os_elapsed t \<and> os_elapsed t \<le> oracle_limit pb)"
  using assms by (auto simp: relax_def Let_def case_prod_unfold)

lemma relax_all_waiting:
  assumes "\<forall>m \<in> set ms. os_elapsed st < os_elapsed (fst m)"
  shows "\<exists>new. waiting (fold (relax pb c st p) ms s) = waiting s @ new
    \<and> (\<forall>(_, _, t) \<in> set new. os_elapsed st < os_elapsed t \<and> os_elapsed t \<le> oracle_limit pb)"
  using assms
proof (induction ms arbitrary: s)
  case (Cons m ms)
  obtain new where new: "waiting (relax pb c st p m s) = waiting s @ new"
    "\<forall>(_, _, t) \<in> set new. os_elapsed st < os_elapsed t \<and> os_elapsed t \<le> oracle_limit pb"
    using relax_waiting [of st m pb c p s] Cons.prems by auto
  obtain new2 where new2: "waiting (fold (relax pb c st p) ms (relax pb c st p m s)) = waiting (relax pb c st p m s) @ new2"
    "\<forall>(_, _, t) \<in> set new2. os_elapsed st < os_elapsed t \<and> os_elapsed t \<le> oracle_limit pb"
    using Cons.IH [of "relax pb c st p m s"] Cons.prems by auto
  show ?case
    by (rule exI [of _ "new @ new2"]) (use new new2 in auto)
qed simp

text \<open>How many quanta an entry of the queue leaves before the horizon.\<close>

definition room :: "oracle_problem \<Rightarrow> queue_entry list \<Rightarrow> nat multiset" where
  "room pb q = image_mset (\<lambda>(_, _, t). oracle_limit pb - os_elapsed t) (mset q)"

lemma room_pop: "pop_least q = Some (x, r) \<Longrightarrow> (room pb r, room pb q) \<in> mult less_than"
  using pop_least_mset [of q x r]
  by (simp add: room_def subset_implies_mult)

lemma room_expand:
  assumes "pop_least q = Some ((c, k, st), r)" and "os_elapsed st < oracle_limit pb"
    and "\<forall>(_, _, t) \<in> set new. os_elapsed st < os_elapsed t \<and> os_elapsed t \<le> oracle_limit pb"
  shows "(room pb (r @ new), room pb q) \<in> mult less_than"
proof -
  have "(room pb r + room pb new, room pb r + {#oracle_limit pb - os_elapsed st#}) \<in> mult less_than"
    by (rule one_step_implies_mult) (use assms(2,3) in \<open>fastforce simp: room_def\<close>)+
  then show ?thesis using pop_least_mset [OF assms(1)] by (simp add: room_def)
qed

function oracle_loop :: "oracle_problem \<Rightarrow> oracle_search \<Rightarrow> (oracle_search \<times> oracle_state option) result" where
  "oracle_loop pb s =
     (case pop_least (waiting s) of
        None \<Rightarrow> Inr (s, None)
      | Some ((total_score, _, st), rest) \<Rightarrow>
          let s1 = s\<lparr>waiting := rest\<rparr>
          in if (case best s st of None \<Rightarrow> False | Some d \<Rightarrow> d + slack < total_score) then oracle_loop pb s1
             else if oracle_work pb \<le> os_work st then Inr (s1, Some st)
             else if oracle_limit pb \<le> os_elapsed st then oracle_loop pb s1
             else case oracle_moves pb st of
                    Inl e \<Rightarrow> Inl e
                  | Inr ms \<Rightarrow>
                      (case spent s st of
                         None \<Rightarrow> Inl (KeyError ''metrics'')
                       | Some prior \<Rightarrow> oracle_loop pb (fold (relax pb total_score st prior) ms s1)))"
  by pat_completeness auto
termination
proof (relation "inv_image (mult less_than) (\<lambda>(pb, s). room pb (waiting s))")
  show "wf (inv_image (mult less_than) (\<lambda>(pb, s). room pb (waiting s)))"
    by (intro wf_inv_image wf_mult wf_less_than)
next
  fix pb and s s1 :: oracle_search and p x and y rest and c :: real and k :: nat and st
  assume "pop_least (waiting s) = Some p" "(x, rest) = p" "(c, y) = x" "(k, st) = y" "s1 = s\<lparr>waiting := rest\<rparr>"
  then show "((pb, s1), pb, s) \<in> inv_image (mult less_than) (\<lambda>(pb, s). room pb (waiting s))"
    using room_pop [of "waiting s" x rest pb] by auto
next
  fix pb and s s1 :: oracle_search and p x and y rest and c :: real and k :: nat and st
  assume "pop_least (waiting s) = Some p" "(x, rest) = p" "(c, y) = x" "(k, st) = y" "s1 = s\<lparr>waiting := rest\<rparr>"
  then show "((pb, s1), pb, s) \<in> inv_image (mult less_than) (\<lambda>(pb, s). room pb (waiting s))"
    using room_pop [of "waiting s" x rest pb] by auto
next
  fix pb and s s1 :: oracle_search and p x and y rest and c :: real and k :: nat and st ms prior
  assume a: "pop_least (waiting s) = Some p" "(x, rest) = p" "(c, y) = x" "(k, st) = y" "s1 = s\<lparr>waiting := rest\<rparr>"
    "\<not> oracle_limit pb \<le> os_elapsed st" "oracle_moves pb st = Inr ms"
  obtain new where new: "waiting (fold (relax pb c st prior) ms s1) = waiting s1 @ new"
    "\<forall>(_, _, t) \<in> set new. os_elapsed st < os_elapsed t \<and> os_elapsed t \<le> oracle_limit pb"
    using relax_all_waiting [of ms st pb c prior s1] oracle_moves_later [OF a(7)] by fastforce
  have "pop_least (waiting s) = Some ((c, k, st), rest)" using a(1-4) by simp
  from room_expand [OF this _ new(2)] a(5,6) new(1)
  show "((pb, fold (relax pb c st prior) ms s1), pb, s) \<in> inv_image (mult less_than) (\<lambda>(pb, s). room pb (waiting s))"
    by simp
qed

declare oracle_loop.simps [simp del]

section \<open>The schedule\<close>

text \<open>The edges from the initial state to the cursor, last first on the way back.\<close>

partial_function (option) oracle_trace ::
  "(oracle_state \<Rightarrow> (oracle_state \<times> oracle_edge) option) \<Rightarrow> oracle_state \<Rightarrow> oracle_state \<Rightarrow> oracle_edge list
     \<Rightarrow> oracle_edge list result option" where
  "oracle_trace came initial cursor path =
     (if cursor = initial then Some (Inr path)
      else case came cursor of
             None \<Rightarrow> Some (Inl (KeyError ''previous''))
           | Some x \<Rightarrow> oracle_trace came initial (fst x) (snd x # path))"

fun schedule_steps :: "real \<Rightarrow> nat \<Rightarrow> datetime \<Rightarrow> real \<Rightarrow> oracle_edge list \<Rightarrow> replay_step list" where
  "schedule_steps duration i t work [] = []"
| "schedule_steps duration i t work (e # es) =
     \<lparr>step_index = i, step_action = oe_action e, step_source = oe_source e, step_destination = oe_destination e,
      step_started = t, step_finished = t + oe_elapsed e, step_elapsed = oe_elapsed e, step_compute = oe_compute e,
      step_idle = oe_idle e, step_migration = oe_migration e, step_carbon = oe_carbon e, step_cost = oe_cost e,
      step_remaining = max 0 (duration - (work + oe_compute e))\<rparr>
     # schedule_steps duration (i + 1) (t + oe_elapsed e) (work + oe_compute e) es"

definition schedule_owners :: "node_id \<Rightarrow> oracle_edge list \<Rightarrow> node_id list" where
  "schedule_owners start path = start # List.map_filter oe_destination (filter (\<lambda>e. oe_action e = ''migrate'') path)"

definition schedule_outcome :: "oracle_problem \<Rightarrow> real \<Rightarrow> oracle_edge list \<Rightarrow> policy_outcome" where
  "schedule_outcome pb makespan path =
     (let start = workload_start_node (op_workload pb); owners = schedule_owners start path;
          total_of = (\<lambda>f. sum_list (map f path))
      in \<lparr>outcome_policy = ''clairvoyant_oracle'', outcome_start_node = start, outcome_final_node = last owners,
          outcome_initial_node = Some start, outcome_completed = True, outcome_makespan = makespan,
          outcome_compute = total_of oe_compute, outcome_idle = total_of oe_idle, outcome_overhead = 0,
          outcome_migration = total_of oe_migration, outcome_carbon = total_of oe_carbon, outcome_cost = total_of oe_cost,
          outcome_migrations = length (filter (\<lambda>e. oe_action e = ''migrate'') path),
          outcome_pauses = length (filter (\<lambda>e. oe_action e = ''wait'') path), outcome_decisions = length path,
          outcome_owners = owners,
          outcome_steps = schedule_steps (workload_seconds (op_workload pb)) 1 (op_start pb) 0 path\<rparr>)"

text \<open>
  The answer is the outcome and its \<open>objective_value\<close>; the outer option is the loop over the
  predecessors, which is shown to end.
\<close>

definition oracle_answer :: "oracle_problem \<Rightarrow> oracle_search \<Rightarrow> oracle_state \<Rightarrow> (policy_outcome \<times> real) result option" where
  "oracle_answer pb s goal =
     map_option (\<lambda>r. bind_result r (\<lambda>path.
       case (spent s goal, best s goal) of
         (Some (makespan, _, _), Some d) \<Rightarrow> Inr (schedule_outcome pb makespan path, d)
       | _ \<Rightarrow> Inl (KeyError ''metrics'')))
       (oracle_trace (came_from s) (oracle_initial pb) goal [])"

definition clairvoyant_oracle :: "oracle_problem \<Rightarrow> (policy_outcome \<times> real) result option" where
  "clairvoyant_oracle pb =
     (if op_quantum pb \<le> 0 then Some (Inl (ValueError ''quantum_seconds must be positive''))
      else if op_multiplier pb < 1 then Some (Inl (ValueError ''max_elapsed_multiplier must be >= 1''))
      else case bind_result (get_node (op_cluster pb) (workload_start_node (op_workload pb)))
               (\<lambda>_. oracle_loop pb (search_start pb)) of
             Inl e \<Rightarrow> Some (Inl e)
           | Inr (s, None) \<Rightarrow> Some (Inl (RuntimeError ''Oracle could not complete workload inside max elapsed horizon''))
           | Inr (s, Some goal) \<Rightarrow> oracle_answer pb s goal)"

end
