(* ===== verification/Oracle_Laws.thy ===== *)
theory Oracle_Laws
  imports Oracle
begin

text \<open>
  The search keeps a settled set: settled states have their final distance, everything reachable from
  them in one move is at most a slack away from it, and every other labelled state waits in the queue.
  The reference is the set of schedules, the paths of moves within the horizon.
\<close>

section \<open>Schedules\<close>

inductive oracle_path :: "oracle_problem \<Rightarrow> oracle_edge list \<Rightarrow> oracle_state \<Rightarrow> bool" for pb where
  path_start: "oracle_path pb [] (oracle_initial pb)"
| path_move: "oracle_path pb es t \<Longrightarrow> oracle_moves pb t = Inr ms \<Longrightarrow> (u, e) \<in> set ms \<Longrightarrow> os_elapsed u \<le> oracle_limit pb
    \<Longrightarrow> oracle_path pb (es @ [e]) u"

definition path_objective :: "oracle_problem \<Rightarrow> oracle_edge list \<Rightarrow> real" where
  "path_objective pb es = sum_list (map (incremental_objective pb) es)"

lemma path_objective_simps [simp]:
  "path_objective pb [] = 0" "path_objective pb (es @ [e]) = path_objective pb es + incremental_objective pb e"
  by (simp_all add: path_objective_def)

definition moves_cost :: "oracle_problem \<Rightarrow> bool" where
  "moves_cost pb \<longleftrightarrow> (\<forall>t ms u e. oracle_moves pb t = Inr ms \<longrightarrow> (u, e) \<in> set ms \<longrightarrow> 0 \<le> incremental_objective pb e)"

lemma moves_costD: "moves_cost pb \<Longrightarrow> oracle_moves pb t = Inr ms \<Longrightarrow> (u, e) \<in> set ms \<Longrightarrow> 0 \<le> incremental_objective pb e"
  unfolding moves_cost_def by blast

section \<open>The queue yields a least entry\<close>

lemma pop_least_set: "pop_least q = Some (x, r) \<Longrightarrow> set q = insert x (set r)"
  by (drule pop_least_mset, drule arg_cong [of _ _ set_mset]) simp

lemma pop_least_min: "pop_least q = Some (x, r) \<Longrightarrow> y \<in> set r \<Longrightarrow> \<not> before y x"
proof (induction q arbitrary: x r y)
  case (Cons z q)
  show ?case
  proof (cases "pop_least q")
    case None
    then show ?thesis using Cons.prems by simp
  next
    case (Some p)
    obtain w s where w: "p = (w, s)" by (cases p)
    have q: "set q = insert w (set s)" using pop_least_set [of q w s] Some w by simp
    show ?thesis
    proof (cases "before w z")
      case True
      then have x: "x = w" and r: "r = z # s" using Cons.prems(1) Some w by simp_all
      have "\<not> before z w" using True by (auto simp: before_def)
      moreover have "\<not> before y w" if "y \<in> set s" using Cons.IH [OF _ that, of w] Some w by simp
      ultimately show ?thesis using Cons.prems(2) unfolding x r by auto
    next
      case False
      then have x: "x = z" and r: "r = q" using Cons.prems(1) Some w by simp_all
      have "y = w \<or> y \<in> set s" using Cons.prems(2) r q by simp
      moreover have "\<not> before y w" if "y \<in> set s" using Cons.IH [OF _ that, of w] Some w by simp
      ultimately have "y = w \<or> \<not> before y w" by blast
      then show ?thesis using False unfolding x by (auto simp: before_def)
    qed
  qed
qed simp

lemma pop_least_le:
  assumes "pop_least q = Some ((c, k, t), r)" "(c', k', t') \<in> set q"
  shows "c \<le> c'"
  using pop_least_min [OF assms(1), of "(c', k', t')"] assms(2) pop_least_set [OF assms(1)] by (auto simp: before_def)

section \<open>The invariant\<close>

definition add_edge :: "real \<times> real \<times> real \<Rightarrow> oracle_edge \<Rightarrow> real \<times> real \<times> real" where
  "add_edge x e = (case x of (t, c, u) \<Rightarrow> (t + oe_elapsed e, c + oe_carbon e, u + oe_cost e))"

definition moved :: "oracle_problem \<Rightarrow> oracle_state \<Rightarrow> oracle_edge \<Rightarrow> oracle_state \<Rightarrow> bool" where
  "moved pb p e t \<longleftrightarrow> (\<exists>ms. oracle_moves pb p = Inr ms \<and> (t, e) \<in> set ms) \<and> os_elapsed t \<le> oracle_limit pb"

text \<open>Every move out of \<open>t\<close> is labelled within a slack of the distance of \<open>t\<close>.\<close>

definition relaxed :: "oracle_problem \<Rightarrow> oracle_search \<Rightarrow> oracle_state \<Rightarrow> bool" where
  "relaxed pb s t \<longleftrightarrow> os_elapsed t < oracle_limit pb \<longrightarrow>
     (\<exists>ms d. oracle_moves pb t = Inr ms \<and> best s t = Some d
       \<and> (\<forall>(u, e) \<in> set ms. os_elapsed u \<le> oracle_limit pb \<longrightarrow>
           (\<exists>du. best s u = Some du \<and> du \<le> d + incremental_objective pb e + slack)))"

definition labelled :: "oracle_problem \<Rightarrow> oracle_state set \<Rightarrow> oracle_search \<Rightarrow> oracle_state \<Rightarrow> bool" where
  "labelled pb S s t \<longleftrightarrow>
     (t = oracle_initial pb \<and> best s t = Some 0 \<and> spent s t = Some (0, 0, 0))
   \<or> (t \<noteq> oracle_initial pb \<and> (\<exists>p e d x. came_from s t = Some (p, e) \<and> p \<in> S \<and> moved pb p e t \<and> best s p = Some d
        \<and> best s t = Some (d + incremental_objective pb e) \<and> spent s p = Some x \<and> spent s t = Some (add_edge x e)))"

definition search_inv :: "oracle_problem \<Rightarrow> oracle_state set \<Rightarrow> oracle_state set \<Rightarrow> oracle_search \<Rightarrow> bool" where
  "search_inv pb S R s \<longleftrightarrow>
     best s (oracle_initial pb) = Some 0
   \<and> (\<forall>(c, k, t) \<in> set (waiting s). \<exists>d. best s t = Some d \<and> (c = d \<or> d + slack < c))
   \<and> (\<forall>t d. best s t = Some d \<longrightarrow> labelled pb S s t \<and> (t \<in> S \<or> (\<exists>k. (d, k, t) \<in> set (waiting s))))
   \<and> (\<forall>t \<in> S. os_work t < oracle_work pb \<and> (\<exists>d. best s t = Some d \<and> (\<forall>(c, _, _) \<in> set (waiting s). d \<le> c)))
   \<and> (\<forall>t \<in> R. relaxed pb s t)"

lemma search_invD:
  assumes "search_inv pb S R s"
  shows "best s (oracle_initial pb) = Some 0"
    and "(c, k, t) \<in> set (waiting s) \<Longrightarrow> \<exists>d. best s t = Some d \<and> (c = d \<or> d + slack < c)"
    and "best s t = Some d \<Longrightarrow> labelled pb S s t"
    and "best s t = Some d \<Longrightarrow> t \<notin> S \<Longrightarrow> \<exists>k. (d, k, t) \<in> set (waiting s)"
    and "t \<in> S \<Longrightarrow> os_work t < oracle_work pb"
    and "t \<in> S \<Longrightarrow> \<exists>d. best s t = Some d \<and> (\<forall>(c, _, _) \<in> set (waiting s). d \<le> c)"
    and "t \<in> R \<Longrightarrow> relaxed pb s t"
proof -
  note parts = assms [unfolded search_inv_def]
  show "best s (oracle_initial pb) = Some 0" using parts by (elim conjE)
  show "\<exists>d. best s t = Some d \<and> (c = d \<or> d + slack < c)" if "(c, k, t) \<in> set (waiting s)"
    using bspec [OF parts [THEN conjunct2, THEN conjunct1] that] by simp
  note three = parts [THEN conjunct2, THEN conjunct2, THEN conjunct1, rule_format]
  show "labelled pb S s t" if "best s t = Some d" by (rule conjunct1 [OF three [OF that]])
  show "\<exists>k. (d, k, t) \<in> set (waiting s)" if "best s t = Some d" "t \<notin> S"
    using conjunct2 [OF three [OF that(1)]] that(2) by (elim disjE) simp_all
  note four = parts [THEN conjunct2, THEN conjunct2, THEN conjunct2, THEN conjunct1, THEN bspec]
  show "os_work t < oracle_work pb" if "t \<in> S" by (rule conjunct1 [OF four [OF that]])
  show "\<exists>d. best s t = Some d \<and> (\<forall>(c, _, _) \<in> set (waiting s). d \<le> c)" if "t \<in> S" by (rule conjunct2 [OF four [OF that]])
  show "relaxed pb s t" if "t \<in> R"
    by (rule parts [THEN conjunct2, THEN conjunct2, THEN conjunct2, THEN conjunct2, THEN bspec, OF that])
qed

lemma search_start_inv: "search_inv pb {} {} (search_start pb)"
  by (simp add: search_inv_def search_start_def labelled_def)

lemma labelled_mono:
  assumes "labelled pb S s t" "S \<subseteq> T"
  shows "labelled pb T s t"
  using assms unfolding labelled_def by blast

section \<open>Relaxing\<close>

lemma labelled_update:
  assumes "labelled pb S s t" "u \<notin> S" "u \<noteq> oracle_initial pb" "t \<noteq> u"
  shows "labelled pb S (s\<lparr>best := (best s)(u \<mapsto> c), spent := (spent s)(u \<mapsto> x), came_from := (came_from s)(u \<mapsto> y),
      waiting := q, serial := k\<rparr>) t"
  using assms unfolding labelled_def by auto

lemma relax_keeps:
  assumes inv: "search_inv pb S R s" and st: "st \<in> S" "best s st = Some far" "spent s st = Some prior"
    and least: "\<forall>t \<in> S. \<exists>d. best s t = Some d \<and> d \<le> far"
    and move: "moved pb st e u \<or> oracle_limit pb < os_elapsed u" and pos: "0 \<le> incremental_objective pb e"
    and later: "os_elapsed st < os_elapsed u" and R: "R \<subseteq> S"
  shows "search_inv pb S R (relax pb far st prior (u, e) s)"
    and "\<forall>t \<in> S. best (relax pb far st prior (u, e) s) t = best s t \<and> spent (relax pb far st prior (u, e) s) t = spent s t"
    and "\<forall>t d. best s t = Some d \<longrightarrow> (\<exists>d' \<le> d. best (relax pb far st prior (u, e) s) t = Some d')"
    and "os_elapsed u \<le> oracle_limit pb \<longrightarrow>
      (\<exists>du. best (relax pb far st prior (u, e) s) u = Some du \<and> du \<le> far + incremental_objective pb e + slack)"
proof -
  let ?c = "far + incremental_objective pb e"
  let ?r = "relax pb far st prior (u, e) s"
  define blocked where "blocked \<longleftrightarrow> oracle_limit pb < os_elapsed u \<or> (\<exists>d. best s u = Some d \<and> d \<le> ?c + slack)"
  have stay: "?r = s" if blocked
    using that by (auto simp: blocked_def relax_def Let_def case_prod_unfold)
  have go: "?r = s\<lparr>best := (best s)(u \<mapsto> ?c), spent := (spent s)(u \<mapsto> add_edge prior e),
      came_from := (came_from s)(u \<mapsto> (st, e)), waiting := waiting s @ [(?c, serial s, u)], serial := serial s + 1\<rparr>"
    if "\<not> blocked"
    using that by (auto simp: blocked_def relax_def add_edge_def Let_def case_prod_unfold split: option.split)
  have new: "u \<notin> S" if "\<not> blocked" using that least pos by (fastforce simp: blocked_def)
  have ni: "u \<noteq> oracle_initial pb" if "\<not> blocked"
    using later by (auto simp: oracle_initial_def)
  show keep: "\<forall>t \<in> S. best ?r t = best s t \<and> spent ?r t = spent s t"
    using stay go new by (cases blocked) auto
  show lower: "\<forall>t d. best s t = Some d \<longrightarrow> (\<exists>d' \<le> d. best ?r t = Some d')"
  proof (cases blocked)
    case False
    then have "\<forall>d. best s u = Some d \<longrightarrow> ?c \<le> d" by (force simp: blocked_def)
    then show ?thesis by (auto simp: go [OF False])
  qed (simp add: stay)
  show "os_elapsed u \<le> oracle_limit pb \<longrightarrow> (\<exists>du. best ?r u = Some du \<and> du \<le> ?c + slack)"
  proof (cases blocked)
    case True
    then show ?thesis by (auto simp: stay [OF True] blocked_def)
  next
    case False
    then show ?thesis by (simp add: go [OF False])
  qed
  have relaxed: "relaxed pb ?r t" if "t \<in> R" for t
  proof -
    have t: "relaxed pb s t" "best ?r t = best s t" using search_invD(7) [OF inv that] keep that R by auto
    show ?thesis unfolding relaxed_def
    proof
      assume "os_elapsed t < oracle_limit pb"
      then obtain ms d where ms: "oracle_moves pb t = Inr ms" "best s t = Some d"
        "\<forall>(v, f) \<in> set ms. os_elapsed v \<le> oracle_limit pb \<longrightarrow> (\<exists>dv. best s v = Some dv \<and> dv \<le> d + incremental_objective pb f + slack)"
        using t(1) unfolding relaxed_def by blast
      have "\<exists>dv. best ?r v = Some dv \<and> dv \<le> d + incremental_objective pb f + slack"
        if "(v, f) \<in> set ms" "os_elapsed v \<le> oracle_limit pb" for v f
      proof -
        obtain dv where dv: "best s v = Some dv" "dv \<le> d + incremental_objective pb f + slack" using ms(3) \<open>(v, f) \<in> set ms\<close> \<open>os_elapsed v \<le> _\<close> by blast
        then show ?thesis using lower by (meson order_trans)
      qed
      then show "\<exists>ms d. oracle_moves pb t = Inr ms \<and> best ?r t = Some d
          \<and> (\<forall>(u, e) \<in> set ms. os_elapsed u \<le> oracle_limit pb \<longrightarrow> (\<exists>du. best ?r u = Some du \<and> du \<le> d + incremental_objective pb e + slack))"
        using ms(1,2) t(2) by auto
    qed
  qed
  show "search_inv pb S R ?r"
  proof (cases blocked)
    case True
    then show ?thesis using inv stay by simp
  next
    case False
    note go = go [OF False] and new = new [OF False] and ni = ni [OF False]
    have m: "moved pb st e u" using move False by (auto simp: blocked_def)
    have old: "?c + slack < d" if "best s u = Some d" for d using that False by (auto simp: blocked_def not_le)
    show ?thesis unfolding search_inv_def
    proof (intro conjI ballI allI impI)
      show "best ?r (oracle_initial pb) = Some 0" using search_invD(1) [OF inv] ni by (simp add: go)
    next
      fix x assume x: "x \<in> set (waiting ?r)"
      obtain c k t where ckt: "x = (c, k, t)" by (rule prod_cases3)
      consider "x = (?c, serial s, u)" | "(c, k, t) \<in> set (waiting s)" using x ckt by (auto simp: go)
      then have "\<exists>d. best ?r t = Some d \<and> (c = d \<or> d + slack < c)"
      proof cases
        case 2
        then obtain d where "best s t = Some d" "c = d \<or> d + slack < c" using search_invD(2) [OF inv] by blast
        then show ?thesis using old by (cases "t = u") (auto simp: go)
      qed (simp add: go ckt)
      then show "case x of (c, k, t) \<Rightarrow> \<exists>d. best ?r t = Some d \<and> (c = d \<or> d + slack < c)" by (simp add: ckt)
    next
      fix t d assume t: "best ?r t = Some d"
      show "labelled pb S ?r t"
      proof (cases "t = u")
        case True
        have at: "came_from ?r u = Some (st, e)" "best ?r u = Some ?c" "spent ?r u = Some (add_edge prior e)"
          "best ?r st = Some far" "spent ?r st = Some prior"
          using st new by (auto simp: go)
        show ?thesis unfolding labelled_def True using st(1) m ni at by blast
      next
        case False
        then show ?thesis using t search_invD(3) [OF inv] labelled_update [OF _ new ni False] by (simp add: go)
      qed
      show "t \<in> S \<or> (\<exists>k. (d, k, t) \<in> set (waiting ?r))"
        using t search_invD(4) [OF inv, of t d] by (cases "t = u") (auto simp: go)
    next
      fix t assume t: "t \<in> S"
      show "os_work t < oracle_work pb" by (rule search_invD(5) [OF inv t])
      obtain d where d: "best s t = Some d" "\<forall>(c, _, _) \<in> set (waiting s). d \<le> c" using search_invD(6) [OF inv t] by blast
      have "d \<le> far" using least t d(1) by force
      then have "\<forall>(c, _, _) \<in> set (waiting ?r). d \<le> c" using d(2) pos by (auto simp: go)
      then show "\<exists>d. best ?r t = Some d \<and> (\<forall>(c, _, _) \<in> set (waiting ?r). d \<le> c)"
        using d(1) keep t by auto
    qed (use relaxed in blast)
  qed
qed

text \<open>Relaxing all moves of a settled state.\<close>

lemma relax_all_keeps:
  assumes "search_inv pb S R s" "st \<in> S" "best s st = Some far" "spent s st = Some prior"
    and "\<forall>t \<in> S. \<exists>d. best s t = Some d \<and> d \<le> far" "R \<subseteq> S"
    and "\<forall>(u, e) \<in> set ms. moved pb st e u \<or> oracle_limit pb < os_elapsed u"
    and "\<forall>(u, e) \<in> set ms. 0 \<le> incremental_objective pb e \<and> os_elapsed st < os_elapsed u"
  shows "search_inv pb S R (fold (relax pb far st prior) ms s) \<and> best (fold (relax pb far st prior) ms s) st = Some far
    \<and> (\<forall>t d. best s t = Some d \<longrightarrow> (\<exists>d' \<le> d. best (fold (relax pb far st prior) ms s) t = Some d'))
    \<and> (\<forall>(u, e) \<in> set ms. os_elapsed u \<le> oracle_limit pb \<longrightarrow>
        (\<exists>du. best (fold (relax pb far st prior) ms s) u = Some du \<and> du \<le> far + incremental_objective pb e + slack))"
  using assms
proof (induction ms arbitrary: s)
  case (Cons m ms)
  obtain u e where m: "m = (u, e)" by (cases m)
  have cond: "moved pb st e u \<or> oracle_limit pb < os_elapsed u" "0 \<le> incremental_objective pb e" "os_elapsed st < os_elapsed u"
    using Cons.prems(7,8) m by simp_all
  let ?r = "relax pb far st prior (u, e) s"
  note one = relax_keeps [OF Cons.prems(1-5) cond Cons.prems(6)]
  have st: "best ?r st = Some far" "spent ?r st = Some prior" using one(2) Cons.prems(2-4) by auto
  have least: "\<forall>t \<in> S. \<exists>d. best ?r t = Some d \<and> d \<le> far" using one(2) Cons.prems(5) by fastforce
  have rest: "\<forall>(u, e) \<in> set ms. moved pb st e u \<or> oracle_limit pb < os_elapsed u"
    "\<forall>(u, e) \<in> set ms. 0 \<le> incremental_objective pb e \<and> os_elapsed st < os_elapsed u"
    using Cons.prems(7,8) by simp_all
  note ih = Cons.IH [OF one(1) Cons.prems(2) st least Cons.prems(6) rest]
  let ?f = "fold (relax pb far st prior) ms ?r"
  have down: "\<exists>d' \<le> d. best ?f t = Some d'" if "best s t = Some d" for t d
    using ih one(3) that by (meson order_trans)
  have head: "\<exists>du. best ?f u = Some du \<and> du \<le> far + incremental_objective pb e + slack" if "os_elapsed u \<le> oracle_limit pb"
    using one(4) that ih by (meson order_trans)
  show ?case using ih down head by (simp add: m)
qed simp

section \<open>Popping\<close>

lemma stale_keeps:
  assumes inv: "search_inv pb S R s" and pop: "pop_least (waiting s) = Some ((c, k, st), rest)"
    and stale: "best s st = Some d" "d + slack < c"
  shows "search_inv pb S R (s\<lparr>waiting := rest\<rparr>)"
proof -
  have q: "set (waiting s) = insert (c, k, st) (set rest)" by (rule pop_least_set [OF pop])
  have same: "labelled pb S (s\<lparr>waiting := rest\<rparr>) t = labelled pb S s t" "relaxed pb (s\<lparr>waiting := rest\<rparr>) t = relaxed pb s t" for t
    by (simp_all add: labelled_def relaxed_def)
  have "t \<in> S \<or> (\<exists>k. (d', k, t) \<in> set rest)" if known: "best s t = Some d'" for t d'
  proof (cases "t \<in> S")
    case False
    obtain k' where "(d', k', t) \<in> set (waiting s)" using search_invD(4) [OF inv known False] by blast
    then show ?thesis using q stale known by auto
  qed simp
  moreover have "\<forall>(c, k, t) \<in> set rest. \<exists>d. best s t = Some d \<and> (c = d \<or> d + slack < c)"
    using search_invD(2) [OF inv] q by auto
  moreover have "\<exists>d. best s t = Some d \<and> (\<forall>(c, _, _) \<in> set rest. d \<le> c)" if "t \<in> S" for t
    using search_invD(6) [OF inv that] q by auto
  moreover note search_invD(1,3,5,7) [OF inv]
  ultimately show ?thesis unfolding search_inv_def same by simp
qed

lemma settle_keeps:
  assumes inv: "search_inv pb S S s" and pop: "pop_least (waiting s) = Some ((c, k, st), rest)"
    and live: "\<not> (\<exists>d. best s st = Some d \<and> d + slack < c)" and work: "os_work st < oracle_work pb"
  shows "best s st = Some c" and "search_inv pb (insert st S) (S - {st}) (s\<lparr>waiting := rest\<rparr>)"
    and "\<forall>t \<in> insert st S. \<exists>d. best s t = Some d \<and> d \<le> c"
proof -
  have q: "set (waiting s) = insert (c, k, st) (set rest)" by (rule pop_least_set [OF pop])
  show b: "best s st = Some c" using search_invD(2) [OF inv, of c k st] q live by auto
  have old: "\<exists>d. best s t = Some d \<and> (\<forall>(c, _, _) \<in> set (waiting s). d \<le> c)" if "t \<in> S" for t
    by (rule search_invD(6) [OF inv that])
  show "\<forall>t \<in> insert st S. \<exists>d. best s t = Some d \<and> d \<le> c" using old b q by fastforce
  have same: "relaxed pb (s\<lparr>waiting := rest\<rparr>) t = relaxed pb s t" for t
    by (simp add: relaxed_def)
  have lab: "labelled pb (insert st S) (s\<lparr>waiting := rest\<rparr>) t" if "best s t = Some d" for t d
    using labelled_mono [OF search_invD(3) [OF inv that], of "insert st S"] by (simp add: labelled_def subset_insertI)
  have wait: "t \<in> insert st S \<or> (\<exists>k. (d, k, t) \<in> set rest)" if "best s t = Some d" for t d
    using search_invD(4) [OF inv that] q by auto
  have low: "\<exists>d. best s t = Some d \<and> (\<forall>(c, _, _) \<in> set rest. d \<le> c)" if "t \<in> insert st S" for t
  proof (cases "t = st")
    case True
    then show ?thesis using b pop_least_le [OF pop] q by auto
  next
    case False
    then show ?thesis using old [of t] that q by auto
  qed
  show "search_inv pb (insert st S) (S - {st}) (s\<lparr>waiting := rest\<rparr>)"
    unfolding search_inv_def same
  proof (intro conjI ballI allI impI)
    show "labelled pb (insert st S) (s\<lparr>waiting := rest\<rparr>) t" if "best (s\<lparr>waiting := rest\<rparr>) t = Some d" for t d
      using lab that by simp
    show "t \<in> insert st S \<or> (\<exists>k. (d, k, t) \<in> set (waiting (s\<lparr>waiting := rest\<rparr>)))" if "best (s\<lparr>waiting := rest\<rparr>) t = Some d" for t d
      using wait that by simp
    show "os_work t < oracle_work pb" if "t \<in> insert st S" for t
      using that search_invD(5) [OF inv] work by auto
    show "\<exists>d. best (s\<lparr>waiting := rest\<rparr>) t = Some d \<and> (\<forall>(c, _, _) \<in> set (waiting (s\<lparr>waiting := rest\<rparr>)). d \<le> c)"
      if "t \<in> insert st S" for t using low that by simp
    show "case x of (c, k, t) \<Rightarrow> \<exists>d. best (s\<lparr>waiting := rest\<rparr>) t = Some d \<and> (c = d \<or> d + slack < c)"
      if "x \<in> set (waiting (s\<lparr>waiting := rest\<rparr>))" for x
      using search_invD(2) [OF inv] q that by auto
  qed (use search_invD(1,7) [OF inv] in simp_all)
qed

lemma all_relaxed: "search_inv pb S R s \<Longrightarrow> \<forall>t \<in> T. relaxed pb s t \<Longrightarrow> search_inv pb S (R \<union> T) s"
  unfolding search_inv_def by blast

lemma settled_inv: "search_inv pb (insert st S) (S - {st}) s \<Longrightarrow> relaxed pb s st \<Longrightarrow> search_inv pb (insert st S) (insert st S) s"
  using all_relaxed [of pb "insert st S" "S - {st}" s "{st}"] by simp

section \<open>The labels are schedules\<close>

definition path_spent :: "oracle_edge list \<Rightarrow> real \<times> real \<times> real" where
  "path_spent es = (sum_list (map oe_elapsed es), sum_list (map oe_carbon es), sum_list (map oe_cost es))"

lemma path_spent_snoc: "path_spent (es @ [e]) = add_edge (path_spent es) e"
  by (simp add: path_spent_def add_edge_def)

lemma moved_later: "moved pb p e t \<Longrightarrow> os_elapsed p < os_elapsed t"
  using oracle_moves_later by (auto simp: moved_def)

lemma label_is_path:
  assumes "\<forall>t d. best s t = Some d \<longrightarrow> labelled pb S s t"
  shows "best s t = Some d \<Longrightarrow> \<exists>es. oracle_path pb es t \<and> d = path_objective pb es \<and> spent s t = Some (path_spent es)
    \<and> (\<forall>acc. oracle_trace (came_from s) (oracle_initial pb) t acc = Some (Inr (es @ acc)))"
proof (induction "os_elapsed t" arbitrary: t d rule: less_induct)
  case less
  have lab: "labelled pb S s t" using assms less.prems by blast
  show ?case
  proof (cases "t = oracle_initial pb")
    case True
    then show ?thesis using lab less.prems path_start [of pb]
      by (intro exI [of _ "[]"]) (auto simp: labelled_def path_spent_def oracle_trace.simps)
  next
    case False
    then obtain p e dp x where p: "came_from s t = Some (p, e)" "moved pb p e t" "best s p = Some dp"
      "best s t = Some (dp + incremental_objective pb e)" "spent s p = Some x" "spent s t = Some (add_edge x e)"
      using lab unfolding labelled_def by blast
    obtain es where es: "oracle_path pb es p" "dp = path_objective pb es" "spent s p = Some (path_spent es)"
      "\<forall>acc. oracle_trace (came_from s) (oracle_initial pb) p acc = Some (Inr (es @ acc))"
      using less.hyps [OF moved_later [OF p(2)] p(3)] by blast
    have "oracle_path pb (es @ [e]) t" using p(2) path_move [OF es(1)] unfolding moved_def by blast
    moreover have "d = path_objective pb (es @ [e])" using less.prems p(4) es(2) by simp
    moreover have "spent s t = Some (path_spent (es @ [e]))" using p(5,6) es(3) by (simp add: path_spent_snoc)
    moreover have "oracle_trace (came_from s) (oracle_initial pb) t acc = Some (Inr ((es @ [e]) @ acc))" for acc
      using False p(1) es(4) by (simp add: oracle_trace.simps [of _ _ t])
    ultimately show ?thesis by blast
  qed
qed

section \<open>The loop\<close>

definition goal_popped :: "oracle_problem \<Rightarrow> oracle_search \<Rightarrow> oracle_state \<Rightarrow> bool" where
  "goal_popped pb s g \<longleftrightarrow> (\<exists>S s0 d k rest. search_inv pb S S s0 \<and> pop_least (waiting s0) = Some ((d, k, g), rest)
     \<and> best s0 g = Some d \<and> oracle_work pb \<le> os_work g \<and> s = s0\<lparr>waiting := rest\<rparr>)"

definition loop_post :: "oracle_problem \<Rightarrow> (oracle_search \<times> oracle_state option) result \<Rightarrow> bool" where
  "loop_post pb r = (case r of
       Inl e \<Rightarrow> \<exists>es t. oracle_path pb es t \<and> os_elapsed t < oracle_limit pb \<and> oracle_moves pb t = Inl e
     | Inr (s, None) \<Rightarrow> waiting s = [] \<and> (\<exists>S. search_inv pb S S s)
     | Inr (s, Some g) \<Rightarrow> goal_popped pb s g)"

lemma oracle_loop_post: "moves_cost pb \<Longrightarrow> search_inv pb S S s \<Longrightarrow> loop_post pb (oracle_loop pb s)"
proof (induction pb s arbitrary: S rule: oracle_loop.induct)
  case (1 pb s)
  note cost = "1.prems"(1) and inv = "1.prems"(2)
  show ?case
  proof (cases "pop_least (waiting s)")
    case None
    then show ?thesis using inv by (auto simp: oracle_loop.simps [of pb s] loop_post_def)
  next
    case (Some x)
    obtain c k st rest where x: "x = ((c, k, st), rest)" by (metis surj_pair)
    note pop = Some [unfolded x]
    let ?s1 = "s\<lparr>waiting := rest\<rparr>"
    note unfold = oracle_loop.simps [of pb s] pop option.case prod.case Let_def
    show ?thesis
    proof (cases "\<exists>d. best s st = Some d \<and> d + slack < c")
      case True
      then obtain d where d: "best s st = Some d" "d + slack < c" by blast
      have "loop_post pb (oracle_loop pb ?s1)"
        by (rule "1.IH"(1) [OF pop refl refl refl refl _ cost stale_keeps [OF inv pop d]]) (use d in simp)
      then show ?thesis using d by (simp add: unfold)
    next
      case live: False
      then have nostale: "\<not> (case best s st of None \<Rightarrow> False | Some d \<Rightarrow> d + slack < c)" by (auto split: option.split)
      show ?thesis
      proof (cases "oracle_work pb \<le> os_work st")
        case True
        have "best s st = Some c" using search_invD(2) [OF inv, of c k st] pop_least_set [OF pop] live by auto
        then have "goal_popped pb ?s1 st" using inv pop True unfolding goal_popped_def by blast
        then show ?thesis using nostale True by (simp add: unfold loop_post_def)
      next
        case work: False
        then have w: "os_work st < oracle_work pb" by simp
        note settle = settle_keeps [OF inv pop live w]
        show ?thesis
        proof (cases "oracle_limit pb \<le> os_elapsed st")
          case True
          have "search_inv pb (insert st S) (insert st S) ?s1"
            by (rule settled_inv [OF settle(2)]) (use True in \<open>simp add: relaxed_def\<close>)
          then have "loop_post pb (oracle_loop pb ?s1)"
            by (rule "1.IH"(2) [OF pop refl refl refl refl nostale work True cost])
          then show ?thesis using nostale work True by (simp add: unfold)
        next
          case room: False
          show ?thesis
          proof (cases "oracle_moves pb st")
            case (Inl e)
            obtain es where "oracle_path pb es st"
              using label_is_path [OF _ settle(1)] search_invD(3) [OF inv] by blast
            then have "\<exists>es t. oracle_path pb es t \<and> os_elapsed t < oracle_limit pb \<and> oracle_moves pb t = Inl e"
              using Inl room not_le by blast
            then show ?thesis using Inl nostale work room by (simp add: unfold loop_post_def)
          next
            case (Inr ms)
            have "labelled pb S s st" by (rule search_invD(3) [OF inv settle(1)])
            then have "spent s st \<noteq> None" unfolding labelled_def by (metis option.distinct(1))
            then obtain prior where prior: "spent s st = Some prior" by blast
            let ?f = "fold (relax pb c st prior) ms ?s1"
            have moves: "\<forall>(u, e) \<in> set ms. moved pb st e u \<or> oracle_limit pb < os_elapsed u"
              "\<forall>(u, e) \<in> set ms. 0 \<le> incremental_objective pb e \<and> os_elapsed st < os_elapsed u"
              using Inr moves_costD [OF cost Inr] oracle_moves_later [OF Inr] by (force simp: moved_def)+
            have keep: "search_inv pb (insert st S) (S - {st}) ?f \<and> best ?f st = Some c
              \<and> (\<forall>t d. best ?s1 t = Some d \<longrightarrow> (\<exists>d' \<le> d. best ?f t = Some d'))
              \<and> (\<forall>(u, e) \<in> set ms. os_elapsed u \<le> oracle_limit pb \<longrightarrow>
                  (\<exists>du. best ?f u = Some du \<and> du \<le> c + incremental_objective pb e + slack))"
              by (rule relax_all_keeps [OF settle(2)]) (use settle(1,3) prior moves in auto)
            then have "relaxed pb ?f st" using Inr by (auto simp: relaxed_def)
            then have "search_inv pb (insert st S) (insert st S) ?f" using keep by (intro settled_inv) simp_all
            then have "loop_post pb (oracle_loop pb ?f)"
              by (intro "1.IH"(3) [OF pop refl refl refl refl nostale work room Inr prior [folded x] cost])
            then show ?thesis using nostale work room Inr prior by (simp add: unfold)
          qed
        qed
      qed
    qed
  qed
qed

end
