(* ===== verification/Comparison_Claims.thy ===== *)
theory Comparison_Claims
  imports Comparison Evaluation_Claims
begin

text \<open>
  What a stretch of time costs is never negative; a replay accounts for every second it spends, the log of its steps
  adds up to its totals; what the fixed placements choose.
\<close>

section \<open>Segments\<close>

definition average_ok :: "carbon_average \<Rightarrow> bool" where
  "average_ok average \<longleftrightarrow> (\<forall>n t d v. average n t d = Inr v \<longrightarrow> 0 \<le> v)"

lemma average_okD: "average_ok average \<Longrightarrow> average n t d = Inr v \<Longrightarrow> 0 \<le> v"
  unfolding average_ok_def by blast

lemma window_mean_ok: "carbon_ok cs \<Longrightarrow> average_ok (window_mean cs)"
  by (simp add: average_ok_def window_mean_nonneg)

definition segment_ok :: "segment_metrics \<Rightarrow> bool" where
  "segment_ok m \<longleftrightarrow> 0 \<le> segment_elapsed m \<and> 0 \<le> segment_carbon m \<and> 0 \<le> segment_cost m"

lemma compute_segment_ok:
  assumes "average_ok average" "wf_node node" "0 \<le> kw" "compute_segment average node start seconds kw = Inr m"
  shows "segment_ok m" and "segment_elapsed m = max 0 seconds"
  using assms(3,4) wf_node_simps [OF assms(2)] average_okD [OF assms(1)]
  by (auto simp: compute_segment_def segment_ok_def bind_result_Inr_iff seconds_to_hours_def split: if_splits)

lemma overhead_segment_ok:
  assumes "average_ok average" "wf_node node" "0 \<le> kw" "active_overhead_segment average node start seconds kw = Inr m"
  shows "segment_ok m"
  using assms(3,4) wf_node_simps [OF assms(2)] average_okD [OF assms(1)]
  by (auto simp: active_overhead_segment_def segment_ok_def bind_result_Inr_iff seconds_to_hours_def split: if_splits)

lemma realized_migration_ok:
  assumes "average_ok average" "wf_node src" "wf_node dst" "edge_sound e" "wf_scoring_policy p" "0 \<le> kw" "0 \<le> checkpoint" "0 \<le> static"
    and "realized_migration src dst e p average start kw checkpoint static = Inr m"
  shows "segment_ok m"
proof -
  let ?b = "checkpoint + static"
  define cs where "cs = (case checkpoint_seconds e of Some s \<Rightarrow> s | None \<Rightarrow> pause_seconds (pause p))"
  define rs where "rs = (case restore_seconds e of Some s \<Rightarrow> s | None \<Rightarrow> resume_seconds (pause p))"
  have pp: "0 \<le> pause_seconds (pause p)" "0 \<le> resume_seconds (pause p)" "network_sound (migration p)"
    using assms(5) by (simp_all add: wf_scoring_policy_def network_sound_def)
  have times: "0 \<le> cs" "0 \<le> rs"
    using assms(4) pp by (auto simp: edge_sound_def cs_def rs_def split: option.split)
  obtain transfer where t: "transfer_seconds ?b (bandwidth_mbps e) (latency_ms e) = Inr transfer"
    using assms(9) by (auto simp: realized_migration_def bind_result_Inr_iff Let_def)
  have t0: "0 \<le> transfer" using t assms(4,7,8) by (auto simp: transfer_seconds_def edge_sound_def split: if_splits)
  obtain ci ri where i: "average (node_identity src) start cs = Inr ci" "average (node_identity dst) (start + (cs + transfer)) rs = Inr ri"
    and m: "segment_elapsed m = cs + transfer + rs"
      "segment_carbon m = kw * pue src * seconds_to_hours cs * ci + kw * pue dst * seconds_to_hours rs * ri
         + network_energy_kwh (migration p) e ?b * ((ci + ri) / 2)"
      "segment_cost m = bytes_to_gb ?b * egress_price_usd_per_gb src"
    using assms(9) t unfolding realized_migration_def Let_def cs_def [symmetric] rs_def [symmetric]
    by (auto simp: bind_result_Inr_iff)
  have "0 \<le> ci" "0 \<le> ri" using i average_okD [OF assms(1)] by blast+
  then show ?thesis
    using times t0 assms(6,7,8) network_energy_nonneg [OF pp(3) assms(4), of ?b] wf_node_simps [OF assms(2)] wf_node_simps [OF assms(3)]
    by (simp add: segment_ok_def m seconds_to_hours_def bytes_to_gb_def)
qed

section \<open>The replay keeps its books\<close>

text \<open>Consecutive steps meet, and the last one ends at \<open>finish\<close>.\<close>

fun contiguous :: "datetime \<Rightarrow> replay_step list \<Rightarrow> datetime \<Rightarrow> bool" where
  "contiguous t [] finish = (t = finish)"
| "contiguous t (s # ss) finish =
     (step_started s = t \<and> step_finished s = t + step_elapsed s \<and> contiguous (step_finished s) ss finish)"

lemma contiguous_snoc:
  "contiguous t (ss @ [s]) finish \<longleftrightarrow>
     (\<exists>u. contiguous t ss u \<and> step_started s = u \<and> step_finished s = u + step_elapsed s \<and> step_finished s = finish)"
  by (induction ss arbitrary: t) auto

definition replay_inv :: "replay_setting \<Rightarrow> datetime \<Rightarrow> replay_state \<Rightarrow> bool" where
  "replay_inv x start s \<longleftrightarrow>
     start + (rp_compute s + rp_idle s + rp_overhead s + rp_migration s) = rp_time s
   \<and> rp_compute s + rp_remaining s = workload_seconds (replay_workload x) \<and> 0 \<le> rp_remaining s
   \<and> sum_list (map step_compute (rp_steps s)) = rp_compute s \<and> sum_list (map step_idle (rp_steps s)) = rp_idle s
   \<and> sum_list (map step_migration (rp_steps s)) = rp_migration s
   \<and> sum_list (map step_carbon (rp_steps s)) = rp_carbon s \<and> sum_list (map step_cost (rp_steps s)) = rp_cost s
   \<and> contiguous start (rp_steps s) (rp_time s)
   \<and> rp_owners s \<noteq> [] \<and> hd (rp_owners s) = workload_start_node (replay_workload x) \<and> last (rp_owners s) = rp_node s
   \<and> length (rp_owners s) = Suc (rp_migrations s) \<and> distinct_adj (rp_owners s)
   \<and> (replay_label x = Temporal_Only \<longrightarrow> rp_migrations s = 0)"

lemma replay_start_inv:
  "0 \<le> workload_seconds (replay_workload x) \<Longrightarrow> replay_inv x start (replay_start x start)"
  by (simp add: replay_inv_def replay_start_def Let_def)

lemma replay_inv_store [simp]: "replay_inv x start (s\<lparr>rp_store := store\<rparr>) = replay_inv x start s"
  by (simp add: replay_inv_def)

lemma replay_continue_inv:
  assumes "replay_inv x start s" "replay_continue x i node s = Inr s'"
  shows "replay_inv x start s'"
  using assms
  by (auto simp: replay_inv_def replay_continue_def bind_result_Inr_iff Let_def contiguous_snoc)

lemma replay_pause_inv:
  assumes "replay_inv x start s" "replay_pause x i node idle s = Inr s'"
  shows "replay_inv x start s'"
  using assms
  by (auto simp: replay_inv_def replay_pause_def pause_metrics_def bind_result_Inr_iff Let_def contiguous_snoc)

lemma distinct_adj_snoc: "xs \<noteq> [] \<Longrightarrow> distinct_adj (xs @ [y]) \<longleftrightarrow> distinct_adj xs \<and> last xs \<noteq> y"
  by (auto simp: distinct_adj_append_iff)

lemma replay_migrate_inv:
  assumes "replay_inv x start s" "replay_migrate x i src d s = Inr s'" and "d \<noteq> Some (rp_node s)" "replay_label x \<noteq> Temporal_Only"
  shows "replay_inv x start s'"
  using assms
  by (auto simp: replay_inv_def replay_migrate_def bind_result_Inr_iff Let_def contiguous_snoc distinct_adj_snoc split: option.splits)

lemma replay_destination:
  assumes "replay_decision x i s = Inr (d, store)" "action (selected d) = Migrate"
  shows "replay_label x \<noteq> Temporal_Only \<and> destination_node (selected d) \<noteq> Some (rp_node s)"
proof -
  obtain out where e: "evaluate_task (replay_profile x s) (replay_cluster x) (replay_policy x) None
           (replay_forecast x (rp_time s)) (rp_time s) (Some (map (\<lambda>n. (n, staged_bytes x s n)) (replay_destinations x s)))
           (Some (replay_service x, rp_store s, replay_clock x i)) 0 (Some (set (replay_destinations x s))) = Inr (d, out)"
    using assms(1) by (auto simp: replay_decision_def bind_result_Inr_iff Let_def)
  obtain n :: node_config where "destination_node (selected d) = Some (node_identity n)" "node_identity n \<in> set (replay_destinations x s)"
    using selected_destination [OF e assms(2)] by auto
  then show ?thesis by (auto simp: replay_destinations_def split: if_splits)
qed

lemma replay_one_inv:
  assumes "replay_inv x start s" "replay_one x i s = Inr s'"
  shows "replay_inv x start s' \<and> length (rp_steps s') = Suc (length (rp_steps s))"
proof -
  obtain d store node where d: "replay_decision x i s = Inr (d, store)" "get_node (replay_cluster x) (rp_node s) = Inr node"
    and go: "(case action (selected d) of
            Continue \<Rightarrow> replay_continue x i node (s\<lparr>rp_store := store\<rparr>)
          | Pause \<Rightarrow> replay_pause x i node (case detail_idle_seconds (selected d) of None \<Rightarrow> 0 | Some idle \<Rightarrow> idle) (s\<lparr>rp_store := store\<rparr>)
          | Migrate \<Rightarrow> replay_migrate x i node (destination_node (selected d)) (s\<lparr>rp_store := store\<rparr>)) = Inr s'"
    using assms(2) by (auto simp: replay_one_def bind_result_Inr_iff Let_def)
  have inv: "replay_inv x start (s\<lparr>rp_store := store\<rparr>)" using assms(1) by simp
  show ?thesis
  proof (cases "action (selected d)")
    case Continue
    then show ?thesis using go replay_continue_inv [OF inv]
      by (auto simp: replay_continue_def bind_result_Inr_iff Let_def)
  next
    case Pause
    then have p: "replay_pause x i node (case detail_idle_seconds (selected d) of None \<Rightarrow> 0 | Some idle \<Rightarrow> idle) (s\<lparr>rp_store := store\<rparr>) = Inr s'"
      using go by simp
    then have "length (rp_steps s') = Suc (length (rp_steps s))"
      by (auto simp: replay_pause_def bind_result_Inr_iff Let_def)
    then show ?thesis using replay_pause_inv [OF inv p] by simp
  next
    case Migrate
    then have m: "replay_migrate x i node (destination_node (selected d)) (s\<lparr>rp_store := store\<rparr>) = Inr s'" using go by simp
    then have "length (rp_steps s') = Suc (length (rp_steps s))"
      by (auto simp: replay_migrate_def bind_result_Inr_iff Let_def split: option.splits)
    then show ?thesis using replay_migrate_inv [OF inv m] replay_destination [OF d(1) Migrate] by simp
  qed
qed

lemma replay_loop_inv:
  "replay_inv x start s \<Longrightarrow> replay_loop x k i s = Inr s' \<Longrightarrow>
     replay_inv x start s' \<and> rp_remaining s' \<le> 1 / 1000000000 \<and> length (rp_steps s') < length (rp_steps s) + k"
proof (induction k arbitrary: i s)
  case (Suc k)
  show ?case
  proof (cases "rp_remaining s \<le> 1 / 1000000000")
    case True
    then show ?thesis using Suc.prems by simp
  next
    case False
    then obtain s1 where s1: "replay_one x i s = Inr s1" "replay_loop x k (i + 1) s1 = Inr s'"
      using Suc.prems(2) by (auto simp: bind_result_Inr_iff)
    show ?thesis using Suc.IH [OF conjunct1 [OF replay_one_inv [OF Suc.prems(1) s1(1)]] s1(2)] replay_one_inv [OF Suc.prems(1) s1(1)]
      by simp
  qed
qed simp

section \<open>Properties\<close>

text \<open>
  A replay accounts for every second: what it reports as makespan is compute, idle, overhead and
  migration time together, the work is done to a nanosecond, the steps follow one another from the start
  and add up to the totals, the owners start at the submission node and change at every migration, and
  the temporal policy never migrates.
\<close>

theorem replay_accounts_for_time:
  assumes "replay_causal_policy x k start = Inr out" and "0 \<le> workload_seconds (replay_workload x)"
  shows "outcome_makespan out = outcome_compute out + outcome_idle out + outcome_overhead out + outcome_migration out
    \<and> outcome_compute out \<in> {workload_seconds (replay_workload x) - 1 / 1000000000 .. workload_seconds (replay_workload x)}
    \<and> outcome_compute out = sum_list (map step_compute (outcome_steps out))
    \<and> outcome_carbon out = sum_list (map step_carbon (outcome_steps out)) \<and> outcome_cost out = sum_list (map step_cost (outcome_steps out))
    \<and> contiguous start (outcome_steps out) (start + outcome_makespan out)
    \<and> hd (outcome_owners out) = workload_start_node (replay_workload x) \<and> last (outcome_owners out) = outcome_final_node out
    \<and> length (outcome_owners out) = Suc (outcome_migrations out) \<and> distinct_adj (outcome_owners out)
    \<and> (replay_label x = Temporal_Only \<longrightarrow> outcome_migrations out = 0)
    \<and> outcome_completed out \<and> outcome_decisions out < k"
proof -
  obtain s where s: "replay_loop x k 1 (replay_start x start) = Inr s" "out = replay_outcome x start s"
    using assms(1) by (auto simp: replay_causal_policy_def bind_result_Inr_iff)
  have inv: "replay_inv x start s" "rp_remaining s \<le> 1 / 1000000000" "length (rp_steps s) < k"
    using replay_loop_inv [OF replay_start_inv [OF assms(2)] s(1)] by (simp_all add: replay_start_def Let_def)
  then show ?thesis by (auto simp: s(2) replay_outcome_def replay_inv_def)
qed

definition example_run :: replay_setting where
  "example_run = \<lparr>replay_label = Temporal_Only, replay_cluster = example_cluster,
     replay_policy = example_scoring\<lparr>pause := (pause example_scoring)\<lparr>max_pause_window_seconds := 100\<rparr>\<rparr>, replay_service = example_service,
     replay_workload = \<lparr>workload_name = ''w'', workload_seconds = 60, workload_power = 1, workload_checkpoint_bytes = 0,
       workload_static_bytes = 0, workload_start_node = ''a'', workload_cost_cap = None\<rparr>,
     replay_average = (\<lambda>_ _ _. Inr 50), replay_forecast = (\<lambda>_. example_forecaster),
     replay_clock = (\<lambda>_. \<lparr>clock_created = 0, clock_prepared = 0, clock_recorded = 0\<rparr>), replay_prestaged = True\<rparr>"

lemma only_continue:
  assumes "evaluate_task task c p telemetry fc now sb adaptive tc ds = Inr (d, out)" "build_raw_actions task c p telemetry fc now sb ds = Inr [e]"
  shows "action (selected d) = action e"
proof -
  obtain es ctx ranked where es: "build_raw_actions task c p telemetry fc now sb ds = Inr es"
    and r: "score_actions es p ctx = Inr ranked" and d: "choose_action task ranked p now = Inr d"
    using assms(1) by (rule evaluate_task_parts)
  have "selected d \<in> set ranked" using choose_action_selected [OF d] by simp
  then have "raw_action_estimate.truncate (selected d) \<in> set [e]"
    using score_actions_mset [OF r] es assms(2) by (metis (no_types) Inr_inject image_eqI mset_eq_setD set_map)
  then show ?thesis by (auto simp: raw_action_estimate.truncate_def)
qed

lemma example_run_ends: "\<exists>out. replay_causal_policy example_run 2 0 = Inr out"
proof -
  let ?s = "replay_start example_run 0"
  obtain e where e: "build_raw_actions (replay_profile example_run ?s) example_cluster (replay_policy example_run) None example_forecaster 0
      (Some []) (Some {}) = Inr [e]" "action e = Continue" "wf_estimate e"
    by (simp add: build_raw_actions_def example_run_def replay_start_def replay_profile_def example_simps get_node_def estimate_continue_def
        estimate_pause_def compute_seconds_def carbon_of_def seconds_to_hours_def idle_candidates_def fallback_estimate_def peers_def Let_def
        wf_estimate_def)
  have "adaptive_ok (Some (replay_service example_run, rp_store ?s, replay_clock example_run 1))"
    by (simp add: adaptive_ok_def example_run_def replay_start_def example_service_wf empty_store_ok Let_def)
  then obtain d out where ev: "evaluate_task (replay_profile example_run ?s) example_cluster (replay_policy example_run) None example_forecaster 0
      (Some []) (Some (replay_service example_run, rp_store ?s, replay_clock example_run 1)) 0 (Some {}) = Inr (d, out)"
    using evaluate_task_total [OF e(1)] e(2,3) by fastforce
  have act: "action (selected d) = Continue" using only_continue [OF ev e(1)] e(2) by simp
  have dec: "replay_decision example_run 1 ?s = Inr (d, case out of None \<Rightarrow> rp_store ?s | Some (s2, _, _) \<Rightarrow> s2)"
  proof -
    have "replay_label example_run = Temporal_Only" "replay_cluster example_run = example_cluster" "rp_time ?s = 0"
      "replay_forecast example_run 0 = example_forecaster"
      by (simp_all add: example_run_def replay_start_def Let_def)
    then show ?thesis using ev by (simp add: replay_decision_def replay_destinations_def Let_def)
  qed
  obtain s1 where s1: "replay_one example_run 1 ?s = Inr s1" "rp_remaining s1 = 0"
    unfolding replay_one_def dec bind_result_simps prod.case act action_type.case
    by (simp add: example_run_def replay_start_def example_simps get_node_def replay_continue_def compute_segment_def Let_def)
  have "rp_remaining ?s = 60" by (simp add: example_run_def replay_start_def Let_def)
  then have "replay_loop example_run 2 1 ?s = Inr s1" using s1 by (simp add: numeral_2_eq_2)
  then show ?thesis by (simp add: replay_causal_policy_def example_run_def example_simps get_node_def)
qed

theorem replay_accounts_for_time_witness:
  "\<exists>out. replay_causal_policy example_run 2 0 = Inr out \<and> outcome_completed out \<and> outcome_migrations out = 0
    \<and> outcome_compute out \<in> {60 - 1 / 1000000000 .. 60}"
proof -
  obtain out where out: "replay_causal_policy example_run 2 0 = Inr out" using example_run_ends by blast
  have "0 \<le> workload_seconds (replay_workload example_run)" "replay_label example_run = Temporal_Only"
    "workload_seconds (replay_workload example_run) = 60" by (simp_all add: example_run_def)
  then show ?thesis using replay_accounts_for_time [OF out] out by auto
qed

text \<open>
  The bound on the decisions is strict: a replay whose last permitted decision completes the work is
  reported as not having completed.
\<close>

lemma last_decision_is_too_late:
  assumes "1 / 1000000000 < rp_remaining s" "replay_one x i s = Inr s1" "rp_remaining s1 = 0"
  shows "replay_loop x 1 i s = Inl (RuntimeError ''Causal replay exceeded its decisions without completing'')"
  using assms by (simp add: One_nat_def)

end
