(* ===== verification/Oracle_Claims.thy ===== *)
theory Oracle_Claims
  imports Oracle_Laws Comparison_Claims
begin

text \<open>The clairvoyant oracle answers with a schedule of the workload that no other schedule beats.\<close>

section \<open>Well-formed problems\<close>

definition wf_problem :: "oracle_problem \<Rightarrow> bool" where
  "wf_problem pb \<longleftrightarrow> wf_cluster (op_cluster pb) \<and> wf_scoring_policy (op_policy pb) \<and> wf_workload (op_workload pb)
   \<and> average_ok (op_average pb) \<and> 0 < op_quantum pb \<and> 1 \<le> op_multiplier pb"

lemma known_node_wf: "wf_cluster c \<Longrightarrow> get_node c n = Inr node \<Longrightarrow> wf_node node"
  using get_node_InrD by (auto simp: wf_cluster_def)

lemma moves_nonneg:
  assumes "wf_problem pb" "oracle_moves pb t = Inr ms" "(u, e) \<in> set ms"
  shows "0 \<le> oe_elapsed e \<and> 0 \<le> oe_carbon e \<and> 0 \<le> oe_cost e"
proof -
  have wf: "wf_cluster (op_cluster pb)" "wf_scoring_policy (op_policy pb)" "average_ok (op_average pb)" "0 < op_quantum pb"
    "0 \<le> workload_power (op_workload pb)" "0 \<le> workload_checkpoint_bytes (op_workload pb)" "0 \<le> workload_static_bytes (op_workload pb)"
    using assms(1) by (simp_all add: wf_problem_def wf_workload_def)
  from assms(2,3) show ?thesis
  proof (cases rule: oracle_moves_cases)
    case (1 src)
    then have "wf_node src" using known_node_wf wf(1) by blast
    then show ?thesis using 1(2) compute_segment_ok [OF wf(3) _ wf(5)] wf(4)
      by (auto simp: continue_move_def Let_def bind_result_Inr_iff segment_ok_def quantum_of_work_def)
  next
    case 2
    then show ?thesis using wf(4) by (simp add: wait_move_def)
  next
    case (3 src dst)
    have n: "wf_node src" "wf_node dst" using known_node_wf 3(1,2) wf(1) by (auto simp: peers_def wf_cluster_def)
    obtain edge m where m: "graph_edge (op_cluster pb) None (os_node t) (node_identity dst) = Inr edge"
      "realized_migration src dst edge (op_policy pb) (op_average pb) (state_time pb t) (workload_power (op_workload pb))
         (workload_checkpoint_bytes (op_workload pb)) (if op_prestaged pb then 0 else workload_static_bytes (op_workload pb)) = Inr m"
      "oe_elapsed e = real (ceil_steps (segment_elapsed m) (op_quantum pb)) * op_quantum pb" "oe_carbon e = segment_carbon m"
      "oe_cost e = segment_cost m"
      using 3(3) by (auto simp: migrate_move_def Let_def bind_result_Inr_iff)
    have "edge_sound edge" by (rule graph_edge_sound [OF wf(1) _ m(1)]) (simp add: telemetry_sound_def)
    from realized_migration_ok [OF wf(3) n this wf(2,5,6) _ m(2)] show ?thesis
      using m(3-5) wf(4,7) by (simp add: segment_ok_def)
  qed
qed

lemma objective_nonneg:
  assumes "wf_problem pb" "0 \<le> oe_elapsed e" "0 \<le> oe_carbon e" "0 \<le> oe_cost e"
  shows "0 \<le> incremental_objective pb e"
proof -
  have "on_simplex (normalized (weights (op_policy pb)))"
    using assms(1) normalized_on_simplex by (simp add: wf_problem_def wf_scoring_policy_def)
  then show ?thesis
    using assms(2-4) by (simp add: incremental_objective_def Let_def on_simplex_def add_nonneg_nonneg)
qed

lemma moves_cost_wf: "wf_problem pb \<Longrightarrow> moves_cost pb"
  unfolding moves_cost_def using moves_nonneg objective_nonneg by blast

section \<open>Optimality\<close>

text \<open>Along a schedule either the state reached is labelled well enough or the popped goal is no dearer.\<close>

lemma path_bound:
  assumes "moves_cost pb" "search_inv pb S S s" "pop_least (waiting s) = Some ((d, k, g), rest)" "oracle_path pb es u"
  shows "(\<exists>du. best s u = Some du \<and> du \<le> path_objective pb es + real (length es) * slack)
    \<or> d \<le> path_objective pb es + real (length es) * slack"
  using assms(4)
proof (induction rule: oracle_path.induct)
  case path_start
  then show ?case using search_invD(1) [OF assms(2)] by simp
next
  case (path_move es t ms u e)
  have w: "0 \<le> incremental_objective pb e" by (rule moves_costD [OF assms(1) path_move.hyps(2,3)])
  have grow: "path_objective pb es + real (length es) * slack + incremental_objective pb e + slack
      = path_objective pb (es @ [e]) + real (length (es @ [e])) * slack"
    by (simp add: algebra_simps)
  from path_move.IH show ?case
  proof
    assume "\<exists>dt. best s t = Some dt \<and> dt \<le> path_objective pb es + real (length es) * slack"
    then obtain dt where dt: "best s t = Some dt" "dt \<le> path_objective pb es + real (length es) * slack" by blast
    show ?thesis
    proof (cases "t \<in> S")
      case True
      have "os_elapsed t < oracle_limit pb" using oracle_moves_later [OF path_move.hyps(2,3)] path_move.hyps(4) by simp
      then have "\<exists>du. best s u = Some du \<and> du \<le> dt + incremental_objective pb e + slack"
        using search_invD(7) [OF assms(2) True] path_move.hyps(2-4) dt(1) by (fastforce simp: relaxed_def)
      then show ?thesis using dt(2) grow by (smt (verit))
    next
      case False
      then obtain k' where "(dt, k', t) \<in> set (waiting s)" using search_invD(4) [OF assms(2) dt(1)] by blast
      then have "d \<le> dt" by (rule pop_least_le [OF assms(3)])
      then show ?thesis using dt(2) grow w by linarith
    qed
  next
    assume "d \<le> path_objective pb es + real (length es) * slack"
    then show ?thesis using grow w by linarith
  qed
qed

lemma goal_optimal:
  assumes "moves_cost pb" "goal_popped pb s g" "oracle_path pb es u" "oracle_work pb \<le> os_work u"
  shows "\<exists>d. best s g = Some d \<and> d \<le> path_objective pb es + real (length es) * slack"
proof -
  obtain S s0 d k rest where g: "search_inv pb S S s0" "pop_least (waiting s0) = Some ((d, k, g), rest)" "best s0 g = Some d"
    "s = s0\<lparr>waiting := rest\<rparr>" using assms(2) unfolding goal_popped_def by blast
  have "d \<le> path_objective pb es + real (length es) * slack"
    using path_bound [OF assms(1) g(1,2) assms(3)]
  proof
    assume "\<exists>du. best s0 u = Some du \<and> du \<le> path_objective pb es + real (length es) * slack"
    then obtain du where du: "best s0 u = Some du" "du \<le> path_objective pb es + real (length es) * slack" by blast
    have "u \<notin> S" using search_invD(5) [OF g(1)] assms(4) by (meson not_le)
    then obtain k' where "(du, k', u) \<in> set (waiting s0)" using search_invD(4) [OF g(1) du(1)] by blast
    then show ?thesis using pop_least_le [OF g(2)] du(2) by fastforce
  qed
  then show ?thesis using g(3,4) by simp
qed

section \<open>The objective of the outcome\<close>

lemma path_objective_spent:
  "path_objective pb es =
     (let w = normalized (weights (op_policy pb)); (t, c, u) = path_spent es
      in w_time w * t / max (op_time_reference pb) slack + w_carbon w * c / max (op_carbon_reference pb) slack
         + w_cost w * u / max (op_cost_reference pb) slack)"
  by (induction es)
    (simp_all add: path_objective_def path_spent_def incremental_objective_def Let_def add_divide_distrib distrib_left)

section \<open>The search succeeds\<close>

lemma work_within_limit: "wf_problem pb \<Longrightarrow> oracle_work pb \<le> oracle_limit pb"
proof -
  assume wf: "wf_problem pb"
  then have "workload_seconds (op_workload pb) * 1 \<le> workload_seconds (op_workload pb) * op_multiplier pb"
    by (intro mult_left_mono) (simp_all add: wf_problem_def wf_workload_def)
  then have "workload_seconds (op_workload pb) / op_quantum pb
      \<le> workload_seconds (op_workload pb) * op_multiplier pb / op_quantum pb"
    using wf by (intro divide_right_mono) (simp_all add: wf_problem_def)
  then show ?thesis unfolding oracle_work_def oracle_limit_def by (intro nat_mono ceiling_mono)
qed

lemma work_positive: "wf_problem pb \<Longrightarrow> 0 < oracle_work pb"
  by (simp add: oracle_work_def wf_problem_def wf_workload_def)

definition working :: "oracle_problem \<Rightarrow> nat \<Rightarrow> oracle_state" where
  "working pb k = \<lparr>os_elapsed = k, os_work = k, os_node = workload_start_node (op_workload pb)\<rparr>"

lemma continue_in_moves:
  assumes "oracle_moves pb (working pb k) = Inr ms"
  shows "\<exists>e. (working pb (Suc k), e) \<in> set ms"
  using assms by (auto simp: oracle_moves_def bind_result_Inr_iff continue_move_def working_def Let_def)

lemma search_never_empty:
  assumes wf: "wf_problem pb" and inv: "search_inv pb S S s" and none: "waiting s = []"
  shows False
proof -
  have all: "t \<in> S" if "best s t = Some d" for t d
    using search_invD(4) [OF inv that] none by auto
  have "\<exists>d. best s (working pb k) = Some d" if "k \<le> oracle_work pb" for k
    using that
  proof (induction k)
    case 0
    then show ?case using search_invD(1) [OF inv] by (simp add: working_def oracle_initial_def)
  next
    case (Suc k)
    then obtain d where d: "best s (working pb k) = Some d" by auto
    have room: "os_elapsed (working pb k) < oracle_limit pb" "Suc k \<le> oracle_limit pb"
      using Suc.prems work_within_limit [OF wf] by (simp_all add: working_def)
    obtain ms d where ms: "oracle_moves pb (working pb k) = Inr ms"
      "\<forall>(u, e) \<in> set ms. os_elapsed u \<le> oracle_limit pb \<longrightarrow> (\<exists>du. best s u = Some du \<and> du \<le> d + incremental_objective pb e + slack)"
      using search_invD(7) [OF inv all [OF d]] room(1) unfolding relaxed_def by blast
    obtain e where "(working pb (Suc k), e) \<in> set ms" using continue_in_moves [OF ms(1)] by blast
    then show ?case using ms(2) room(2) by (fastforce simp: working_def)
  qed
  then obtain d where "best s (working pb (oracle_work pb)) = Some d" by blast
  then show False using all search_invD(5) [OF inv] by (fastforce simp: working_def)
qed

lemma oracle_result:
  assumes wf: "wf_problem pb" and node: "get_node (op_cluster pb) (workload_start_node (op_workload pb)) = Inr n"
  shows "(\<exists>es t e. oracle_path pb es t \<and> os_elapsed t < oracle_limit pb \<and> oracle_moves pb t = Inl e
      \<and> clairvoyant_oracle pb = Some (Inl e))
    \<or> (\<exists>s g es. goal_popped pb s g \<and> best s g = Some (path_objective pb es) \<and> oracle_path pb es g \<and> oracle_work pb \<le> os_work g
      \<and> clairvoyant_oracle pb = Some (Inr (schedule_outcome pb (sum_list (map oe_elapsed es)) es, path_objective pb es)))"
proof -
  have guards: "\<not> op_quantum pb \<le> 0" "\<not> op_multiplier pb < 1" using wf by (simp_all add: wf_problem_def)
  have start: "clairvoyant_oracle pb = (case oracle_loop pb (search_start pb) of
             Inl e \<Rightarrow> Some (Inl e)
           | Inr (s, None) \<Rightarrow> Some (Inl (RuntimeError ''Oracle could not complete workload inside max elapsed horizon''))
           | Inr (s, Some goal) \<Rightarrow> oracle_answer pb s goal)"
    using guards by (simp add: clairvoyant_oracle_def node)
  have post: "loop_post pb (oracle_loop pb (search_start pb))"
    by (rule oracle_loop_post [OF moves_cost_wf [OF wf] search_start_inv])
  show ?thesis
  proof (cases "oracle_loop pb (search_start pb)")
    case (Inl e)
    then show ?thesis using post by (auto simp: loop_post_def start)
  next
    case (Inr x)
    obtain s g where x: "x = (s, g)" by (cases x)
    show ?thesis
    proof (cases g)
      case None
      then have "waiting s = []" "\<exists>S. search_inv pb S S s" using post by (simp_all add: Inr x loop_post_def)
      then show ?thesis using search_never_empty [OF wf] by blast
    next
      case (Some goal)
      then have popped: "goal_popped pb s goal" using post by (simp add: Inr x loop_post_def)
      then obtain S s0 d k rest where g: "search_inv pb S S s0" "best s0 goal = Some d" "s = s0\<lparr>waiting := rest\<rparr>"
        "oracle_work pb \<le> os_work goal" unfolding goal_popped_def by blast
      obtain es where es: "oracle_path pb es goal" "d = path_objective pb es" "spent s0 goal = Some (path_spent es)"
        "\<forall>acc. oracle_trace (came_from s0) (oracle_initial pb) goal acc = Some (Inr (es @ acc))"
        using label_is_path [OF _ g(2)] search_invD(3) [OF g(1)] by blast
      have "clairvoyant_oracle pb = Some (Inr (schedule_outcome pb (sum_list (map oe_elapsed es)) es, path_objective pb es))"
        using es(3,4) g(2) es(2) by (simp add: start Inr x Some oracle_answer_def g(3) path_spent_def)
      moreover have "best s goal = Some (path_objective pb es)" using g(2,3) es(2) by simp
      ultimately show ?thesis using popped es(1) g(4) by blast
    qed
  qed
qed

section \<open>What a schedule adds up to\<close>

lemma next_quantum: "0 \<le> (q::real) \<Longrightarrow> min q (max 0 (d - a)) = min d (a + q) - min d a"
  by (simp add: min_def max_def)

lemma path_compute:
  assumes "wf_problem pb" "oracle_path pb es t"
  shows "sum_list (map oe_compute es) = min (workload_seconds (op_workload pb)) (real (os_work t) * op_quantum pb)"
  using assms(2)
proof (induction rule: oracle_path.induct)
  case path_start
  then show ?case using assms(1) by (simp add: oracle_initial_def wf_problem_def wf_workload_def)
next
  case (path_move es t ms u e)
  let ?q = "op_quantum pb" and ?d = "workload_seconds (op_workload pb)"
  have "oe_compute e = min ?d (real (os_work u) * ?q) - min ?d (real (os_work t) * ?q)"
    using path_move.hyps(2,3)
  proof (cases rule: oracle_moves_cases)
    case (1 src)
    then have "os_work u = Suc (os_work t)" "oe_compute e = quantum_of_work pb t"
      by (auto simp: continue_move_def Let_def bind_result_Inr_iff)
    moreover have "real (Suc (os_work t)) * ?q = real (os_work t) * ?q + ?q" by (simp add: algebra_simps)
    moreover have "0 \<le> ?q" using assms(1) by (simp add: wf_problem_def)
    ultimately show ?thesis by (simp only: quantum_of_work_def next_quantum)
  next
    case 2
    then show ?thesis by (simp add: wait_move_def)
  next
    case (3 src dst)
    then show ?thesis by (auto simp: migrate_move_def Let_def bind_result_Inr_iff)
  qed
  then show ?case using path_move.IH by simp
qed

lemma work_covers: "wf_problem pb \<Longrightarrow> oracle_work pb \<le> k \<Longrightarrow> workload_seconds (op_workload pb) \<le> real k * op_quantum pb"
proof -
  assume "wf_problem pb" "oracle_work pb \<le> k"
  then have "workload_seconds (op_workload pb) / op_quantum pb \<le> real k" "0 < op_quantum pb"
    by (simp_all add: oracle_work_def nat_le_iff ceiling_le_iff wf_problem_def)
  then show ?thesis by (simp add: pos_divide_le_eq)
qed

lemma map_filter_snoc: "List.map_filter f (xs @ [x]) = List.map_filter f xs @ (case f x of None \<Rightarrow> [] | Some y \<Rightarrow> [y])"
  by (induction xs) (auto simp: map_filter_simps split: option.split)

lemma path_owner: "oracle_path pb es t \<Longrightarrow> last (schedule_owners (workload_start_node (op_workload pb)) es) = os_node t"
proof (induction rule: oracle_path.induct)
  case path_start
  then show ?case by (simp add: schedule_owners_def oracle_initial_def map_filter_simps)
next
  case (path_move es t ms u e)
  let ?o = "\<lambda>es. schedule_owners (workload_start_node (op_workload pb)) es"
  have "(oe_action e \<noteq> ''migrate'' \<and> os_node u = os_node t) \<or> (oe_action e = ''migrate'' \<and> oe_destination e = Some (os_node u))"
    using path_move.hyps(2,3)
  proof (cases rule: oracle_moves_cases)
    case (1 src)
    then show ?thesis by (auto simp: continue_move_def Let_def bind_result_Inr_iff)
  next
    case 2
    then show ?thesis by (simp add: wait_move_def)
  next
    case (3 src dst)
    then show ?thesis by (auto simp: migrate_move_def Let_def bind_result_Inr_iff)
  qed
  then show ?case using path_move.IH by (auto simp: schedule_owners_def map_filter_snoc)
qed

lemma schedule_steps_sums:
  "sum_list (map step_elapsed (schedule_steps d i t w es)) = sum_list (map oe_elapsed es)"
  "sum_list (map step_compute (schedule_steps d i t w es)) = sum_list (map oe_compute es)"
  "sum_list (map step_carbon (schedule_steps d i t w es)) = sum_list (map oe_carbon es)"
  "sum_list (map step_cost (schedule_steps d i t w es)) = sum_list (map oe_cost es)"
  by (induction es arbitrary: i t w) simp_all

lemma schedule_contiguous: "contiguous t (schedule_steps d i t w es) (t + sum_list (map oe_elapsed es))"
  by (induction es arbitrary: i t w) (simp_all add: add.assoc [symmetric])

section \<open>Averages that always answer\<close>

lemma map_results_ok: "\<forall>x \<in> set xs. is_ok (f x) \<Longrightarrow> is_ok (map_results f xs)"
  by (induction xs) (auto simp: is_ok_Inr)

lemma bind_ok: "is_ok r \<Longrightarrow> (\<And>x. is_ok (f x)) \<Longrightarrow> is_ok (bind_result r f)"
  by (cases r) simp_all

lemma path_node_known:
  assumes "is_ok (get_node (op_cluster pb) (workload_start_node (op_workload pb)))"
  shows "oracle_path pb es t \<Longrightarrow> is_ok (get_node (op_cluster pb) (os_node t))"
proof (induction rule: oracle_path.induct)
  case path_start
  then show ?case using assms by (simp add: oracle_initial_def)
next
  case (path_move es t ms u e)
  from path_move.hyps(2,3) show ?case
  proof (cases rule: oracle_moves_cases)
    case (1 src)
    then show ?thesis using path_move.IH by (auto simp: continue_move_def Let_def bind_result_Inr_iff)
  next
    case 2
    then show ?thesis using path_move.IH by (simp add: wait_move_def)
  next
    case (3 src dst)
    then show ?thesis by (auto simp: migrate_move_def Let_def bind_result_Inr_iff graph_edge_def is_ok_Inr)
  qed
qed

lemma moves_answer:
  assumes wf: "wf_problem pb" and av: "\<forall>n t d. is_ok (op_average pb n t d)" and node: "is_ok (get_node (op_cluster pb) (os_node t))"
  shows "is_ok (oracle_moves pb t)"
proof -
  obtain src where src: "get_node (op_cluster pb) (os_node t) = Inr src" using node by (auto simp: is_ok_Inr)
  have av': "\<exists>v. op_average pb n s d = Inr v" for n s d using av by (simp add: is_ok_Inr)
  have "\<exists>m. compute_segment (op_average pb) src s d kw = Inr m" for s d kw
    using av' [of "node_identity src" s d] by (auto simp: compute_segment_def)
  then have c: "is_ok (continue_move pb t src)"
    by (simp add: continue_move_def is_ok_Inr Let_def bind_result_Inr_iff)
  have "is_ok (migrate_move pb t src dst)" if "dst \<in> set (peers (op_cluster pb) (os_node t))" for dst
  proof -
    have "dst \<in> set (nodes (op_cluster pb))" using that by (simp add: peers_def)
    then obtain n where n: "get_node (op_cluster pb) (node_identity dst) = Inr n"
      unfolding get_node_def by (cases "find (\<lambda>n. node_identity n = node_identity dst) (nodes (op_cluster pb))") (auto simp: find_None_iff)
    obtain e where e: "graph_edge (op_cluster pb) None (os_node t) (node_identity dst) = Inr e"
      by (simp add: graph_edge_def src n Let_def)
    have "edge_sound e" by (rule graph_edge_sound [OF _ _ e]) (use wf in \<open>simp_all add: wf_problem_def telemetry_sound_def\<close>)
    then have "\<not> bandwidth_mbps e \<le> 0" by (simp add: edge_sound_def)
    then have "is_ok (realized_migration src dst e (op_policy pb) (op_average pb) (state_time pb t) kw cb sb)" for kw cb sb
      unfolding realized_migration_def Let_def by (intro bind_ok) (simp_all add: av transfer_seconds_def)
    then show ?thesis by (simp add: migrate_move_def e bind_ok Let_def)
  qed
  then have "is_ok (map_results (migrate_move pb t src) (peers (op_cluster pb) (os_node t)))" by (intro map_results_ok) simp
  then show ?thesis using c by (auto simp: oracle_moves_def src is_ok_Inr)
qed

section \<open>Properties\<close>

text \<open>
  C29. The clairvoyant oracle is optimal: when the trace covers the horizon it answers with a schedule
  that completes the work, and no schedule of continue, wait and migrate moves within the horizon that
  completes the work has an objective smaller by more than the comparison slack per move.
\<close>

theorem oracle_is_optimal:
  assumes "wf_problem pb" and "is_ok (get_node (op_cluster pb) (workload_start_node (op_workload pb)))"
    and "\<forall>es t. oracle_path pb es t \<longrightarrow> os_elapsed t < oracle_limit pb \<longrightarrow> is_ok (oracle_moves pb t)"
  shows "\<exists>out v path goal. clairvoyant_oracle pb = Some (Inr (out, v)) \<and> v = path_objective pb path
    \<and> out = schedule_outcome pb (sum_list (map oe_elapsed path)) path \<and> oracle_path pb path goal \<and> oracle_work pb \<le> os_work goal
    \<and> (\<forall>es u. oracle_path pb es u \<longrightarrow> oracle_work pb \<le> os_work u \<longrightarrow> v \<le> path_objective pb es + real (length es) * slack)"
proof -
  obtain n where "get_node (op_cluster pb) (workload_start_node (op_workload pb)) = Inr n" using assms(2) by (auto simp: is_ok_Inr)
  from oracle_result [OF assms(1) this] show ?thesis
  proof (elim disjE exE conjE)
    fix es t e assume "oracle_path pb es t" "os_elapsed t < oracle_limit pb" "oracle_moves pb t = Inl e"
    then show ?thesis using assms(3) by fastforce
  next
    fix s g path assume g: "goal_popped pb s g" "best s g = Some (path_objective pb path)" "oracle_path pb path g"
      "oracle_work pb \<le> os_work g"
      "clairvoyant_oracle pb = Some (Inr (schedule_outcome pb (sum_list (map oe_elapsed path)) path, path_objective pb path))"
    have "path_objective pb path \<le> path_objective pb es + real (length es) * slack"
      if "oracle_path pb es u" "oracle_work pb \<le> os_work u" for es u
      using goal_optimal [OF moves_cost_wf [OF assms(1)] g(1) that] g(2) by simp
    then show ?thesis using g by blast
  qed
qed

definition example_workload :: comparison_workload where
  "example_workload = \<lparr>workload_name = ''w'', workload_seconds = 60, workload_power = 1, workload_checkpoint_bytes = 0,
     workload_static_bytes = 0, workload_start_node = ''a'', workload_cost_cap = None\<rparr>"

definition example_problem :: oracle_problem where
  "example_problem = \<lparr>op_cluster = example_cluster, op_policy = example_scoring, op_workload = example_workload,
     op_average = (\<lambda>n _ _. Inr (if n = ''a'' then 400 else 50)), op_start = 0, op_time_reference = 60, op_carbon_reference = 1,
     op_cost_reference = 1, op_quantum = 60, op_multiplier = 2, op_prestaged = True\<rparr>"

lemma example_problem_wf: "wf_problem example_problem"
  using example_sound
  by (simp add: wf_problem_def example_problem_def sound_inputs_def example_workload_def wf_workload_def average_ok_def)

lemma example_problem_known: "is_ok (get_node (op_cluster example_problem) (workload_start_node (op_workload example_problem)))"
  by (simp add: example_problem_def example_workload_def example_simps get_node_def)

lemma example_problem_moves: "oracle_path example_problem es t \<Longrightarrow> is_ok (oracle_moves example_problem t)"
  by (rule moves_answer [OF example_problem_wf _ path_node_known [OF example_problem_known]]) (simp_all add: example_problem_def)

theorem oracle_is_optimal_witness:
  "\<exists>out v path goal. clairvoyant_oracle example_problem = Some (Inr (out, v)) \<and> oracle_path example_problem path goal
    \<and> oracle_work example_problem \<le> os_work goal \<and> v = path_objective example_problem path"
  using oracle_is_optimal [OF example_problem_wf example_problem_known] example_problem_moves by blast

text \<open>
  What the oracle reports adds up: the compute time is the duration of the workload, makespan,
  carbon and cost are the sums over the reported steps, the steps follow one another from the start, the
  final node is the last owner, and the reported objective is the weighted objective of those totals.
\<close>

theorem oracle_report_adds_up:
  assumes "wf_problem pb" and "clairvoyant_oracle pb = Some (Inr (out, v))"
  shows "outcome_compute out = workload_seconds (op_workload pb) \<and> sum_list (map step_compute (outcome_steps out)) = outcome_compute out
    \<and> sum_list (map step_elapsed (outcome_steps out)) = outcome_makespan out
    \<and> sum_list (map step_carbon (outcome_steps out)) = outcome_carbon out \<and> sum_list (map step_cost (outcome_steps out)) = outcome_cost out
    \<and> contiguous (op_start pb) (outcome_steps out) (op_start pb + outcome_makespan out) \<and> last (outcome_owners out) = outcome_final_node out
    \<and> v = (let w = normalized (weights (op_policy pb))
           in w_time w * outcome_makespan out / max (op_time_reference pb) slack
            + w_carbon w * outcome_carbon out / max (op_carbon_reference pb) slack
            + w_cost w * outcome_cost out / max (op_cost_reference pb) slack)"
proof -
  obtain n where "get_node (op_cluster pb) (workload_start_node (op_workload pb)) = Inr n"
    using assms(2) by (cases "get_node (op_cluster pb) (workload_start_node (op_workload pb))") (auto simp: clairvoyant_oracle_def split: if_splits)
  from oracle_result [OF assms(1) this] obtain es g where es: "oracle_path pb es g" "oracle_work pb \<le> os_work g"
    "out = schedule_outcome pb (sum_list (map oe_elapsed es)) es" "v = path_objective pb es"
    using assms(2) by auto
  have "sum_list (map oe_compute es) = workload_seconds (op_workload pb)"
    using path_compute [OF assms(1) es(1)] work_covers [OF assms(1) es(2)] by simp
  then show ?thesis
    using es(3,4) by (simp add: schedule_outcome_def Let_def schedule_steps_sums schedule_contiguous path_objective_spent path_spent_def)
qed

theorem oracle_report_adds_up_witness:
  "\<exists>out v. clairvoyant_oracle example_problem = Some (Inr (out, v)) \<and> outcome_compute out = 60
    \<and> sum_list (map step_elapsed (outcome_steps out)) = outcome_makespan out"
proof -
  obtain n where "get_node (op_cluster example_problem) (workload_start_node (op_workload example_problem)) = Inr n"
    using example_problem_known by (auto simp: is_ok_Inr)
  from oracle_result [OF example_problem_wf this] obtain out v where "clairvoyant_oracle example_problem = Some (Inr (out, v))"
    using example_problem_moves by fastforce
  with oracle_report_adds_up [OF example_problem_wf this] show ?thesis
    by (auto simp: example_problem_def example_workload_def)
qed

text \<open>
  C30. The search ends: on a well-formed problem the oracle returns, and it raises only what a reading
  along a schedule raised; it never reports that the work cannot be completed within the horizon.
\<close>

theorem oracle_ends:
  assumes "wf_problem pb" and "is_ok (get_node (op_cluster pb) (workload_start_node (op_workload pb)))"
  shows "(\<exists>out v. clairvoyant_oracle pb = Some (Inr (out, v)))
    \<or> (\<exists>es t e. oracle_path pb es t \<and> oracle_moves pb t = Inl e \<and> clairvoyant_oracle pb = Some (Inl e))"
proof -
  obtain n where "get_node (op_cluster pb) (workload_start_node (op_workload pb)) = Inr n" using assms(2) by (auto simp: is_ok_Inr)
  from oracle_result [OF assms(1) this] show ?thesis by blast
qed

theorem oracle_ends_witness:
  "(\<exists>out v. clairvoyant_oracle example_problem = Some (Inr (out, v)))
    \<or> (\<exists>es t e. oracle_path example_problem es t \<and> oracle_moves example_problem t = Inl e \<and> clairvoyant_oracle example_problem = Some (Inl e))"
  by (rule oracle_ends [OF example_problem_wf example_problem_known])

end
