(* ===== verification/Artifact_Cache.thy ===== *)
theory Artifact_Cache
  imports Migration_Destination
begin

text \<open>
  \<open>magellan/artifacts/manager.py\<close>, \<open>prefetch.py\<close> and \<open>client.py\<close>, with the two artifact handlers of
  \<open>magellan/api/app.py\<close>: the content-addressed cache of a node, the import of an artifact from its source
  directory, the links a task reads its artifacts through, and the push of missing artifacts to the
  destination of a migration.  A directory is a dictionary from relative paths to contents.  The two
  digests (of a content, of the canonical listing of an artifact), the source directories and the
  transfer are arguments.  The targets of one task are taken not to lie below one another.
\<close>

section \<open>Manifests and cache entries\<close>

type_synonym tree = "string dict"

record artifact_file =
  file_path :: string
  file_size :: int
  file_sha256 :: string

record artifact_manifest =
  am_artifact :: string
  am_kind :: string
  am_digest :: string
  am_size :: int
  am_files :: "artifact_file list"

text \<open>A manifest file is absent, unreadable for the model class, or holds a manifest.\<close>

datatype stored_manifest = No_Manifest | Bad_Manifest | Stored artifact_manifest

record cache_entry =
  entry_manifest :: stored_manifest
  entry_payload :: "tree option"

text \<open>
  What the file system answers: the digests, the content behind a path that leaves the payload, the
  source directory when the manifest is built and when it is copied, and the instant of a write.
\<close>

record artifact_environment =
  content_digest :: "string \<Rightarrow> string"
  listing_digest :: "string \<Rightarrow> string \<Rightarrow> artifact_file list \<Rightarrow> string"
  beyond :: "string \<Rightarrow> string option"
  tree_listed :: "string \<Rightarrow> tree option"
  tree_copied :: "string \<Rightarrow> tree result"
  artifact_now :: datetime

record artifact_node =
  artifact_tasks :: registry
  artifact_cache :: "cache_entry dict"
  artifact_incoming :: "string \<times> string \<Rightarrow> cache_entry option"
  artifact_links :: "task_id \<Rightarrow> string dict"

text \<open>\<open>as_posix\<close> of a relative path.\<close>

fun posix :: "string list \<Rightarrow> string" where
  "posix [] = ''.''"
| "posix [p] = p"
| "posix (p # ps) = p @ ''/'' @ posix ps"

definition payload_file :: "artifact_environment \<Rightarrow> tree \<Rightarrow> string \<Rightarrow> string option" where
  "payload_file env p raw = (if safe_relative raw then dict_get p (posix (path_parts raw)) else beyond env raw)"

section \<open>Building and validating\<close>

definition listed_file :: "artifact_environment \<Rightarrow> string \<times> string \<Rightarrow> artifact_file" where
  "listed_file env kc =
     \<lparr>file_path = fst kc, file_size = int (length (snd kc)), file_sha256 = content_digest env (snd kc)\<rparr>"

definition build_manifest :: "artifact_environment \<Rightarrow> artifact_spec \<Rightarrow> artifact_manifest result" where
  "build_manifest env s =
     (case tree_listed env (source_directory s) of
        None \<Rightarrow> Inl (FileNotFoundError (''Artifact source directory does not exist: '' @ source_directory s))
      | Some p \<Rightarrow>
          let files = map (listed_file env) (sort_key (\<lambda>kc. path_parts (fst kc)) p)
          in if files = [] then Inl (ArtifactValidationError (''Artifact directory is empty: '' @ source_directory s))
             else Inr \<lparr>am_artifact = artifact_id s, am_kind = artifact_kind s,
                       am_digest = listing_digest env (artifact_id s) (artifact_kind s) files,
                       am_size = sum_list (map file_size files), am_files = files\<rparr>)"

definition load_artifact_manifest :: "cache_entry dict \<Rightarrow> string \<Rightarrow> artifact_manifest result" where
  "load_artifact_manifest c d =
     (case dict_get c d of
        None \<Rightarrow> Inl (ArtifactValidationError (''Artifact manifest does not exist: '' @ d))
      | Some e \<Rightarrow> (case entry_manifest e of
            No_Manifest \<Rightarrow> Inl (ArtifactValidationError (''Artifact manifest does not exist: '' @ d))
          | Bad_Manifest \<Rightarrow> Inl (ValueError ''ValidationError'')
          | Stored m \<Rightarrow> Inr m))"

fun check_files :: "artifact_environment \<Rightarrow> bool \<Rightarrow> tree \<Rightarrow> artifact_file list \<Rightarrow> unit result" where
  "check_files env verify p [] = Inr ()"
| "check_files env verify p (f # fs) =
     (case payload_file env p (file_path f) of
        None \<Rightarrow> Inl (ArtifactValidationError (''Artifact file is missing: '' @ file_path f))
      | Some x \<Rightarrow>
          if int (length x) \<noteq> file_size f
          then Inl (ArtifactValidationError (''Artifact size mismatch for '' @ file_path f))
          else if verify \<and> content_digest env x \<noteq> file_sha256 f
          then Inl (ArtifactValidationError (''Artifact digest mismatch: '' @ file_path f))
          else check_files env verify p fs)"

definition validate_cache ::
  "artifact_environment \<Rightarrow> bool \<Rightarrow> cache_entry dict \<Rightarrow> string \<Rightarrow> artifact_manifest result" where
  "validate_cache env verify c d =
     bind_result (load_artifact_manifest c d) (\<lambda>m.
       case Option.bind (dict_get c d) entry_payload of
         None \<Rightarrow> Inl (ArtifactValidationError (''Artifact payload does not exist: '' @ d))
       | Some p \<Rightarrow> bind_result (check_files env verify p (am_files m)) (\<lambda>_. Inr m))"

fun is_artifact_error :: "error \<Rightarrow> bool" where
  "is_artifact_error (ArtifactValidationError _) = True"
| "is_artifact_error _ = False"

definition has_artifact :: "artifact_environment \<Rightarrow> cache_entry dict \<Rightarrow> string \<Rightarrow> bool result" where
  "has_artifact env c d =
     (case validate_cache env False c d of
        Inr _ \<Rightarrow> Inr True
      | Inl e \<Rightarrow> if is_artifact_error e then Inr False else Inl e)"

section \<open>Import and staging\<close>

definition import_source :: "artifact_environment \<Rightarrow> artifact_spec \<Rightarrow> artifact_node \<Rightarrow> artifact_node \<times> artifact_manifest result" where
  "import_source env s n =
     (case build_manifest env s of
        Inl e \<Rightarrow> (n, Inl e)
      | Inr m \<Rightarrow>
          case has_artifact env (artifact_cache n) (am_digest m) of
            Inl e \<Rightarrow> (n, Inl e)
          | Inr True \<Rightarrow> (n, validate_cache env True (artifact_cache n) (am_digest m))
          | Inr False \<Rightarrow>
              case tree_copied env (source_directory s) of
                Inl e \<Rightarrow> (n, Inl e)
              | Inr p \<Rightarrow>
                  let n1 = (if dict_get (artifact_cache n) (am_digest m) \<noteq> None then n
                            else n\<lparr>artifact_cache := dict_put (am_digest m)
                                    \<lparr>entry_manifest = Stored m, entry_payload = Some p\<rparr> (artifact_cache n)\<rparr>)
                  in (n1, validate_cache env True (artifact_cache n1) (am_digest m)))"

definition find_spec :: "artifact_spec list \<Rightarrow> string \<Rightarrow> artifact_spec option" where
  "find_spec specs i = find (\<lambda>s. artifact_id s = i) (rev specs)"

fun stage_each ::
  "artifact_environment \<Rightarrow> artifact_spec list \<Rightarrow> task_id \<Rightarrow> artifact_binding list \<Rightarrow> string dict \<Rightarrow> artifact_node
     \<Rightarrow> artifact_node \<times> string dict result" where
  "stage_each env specs t [] ds n = (n, Inr ds)"
| "stage_each env specs t (b # bs) ds n =
     (case find_spec specs (binding_artifact b) of
        None \<Rightarrow> (n, Inl (ArtifactValidationError (''Unknown artifact for task '' @ t @ '': '' @ binding_artifact b)))
      | Some s \<Rightarrow>
          case validate_cache env True (artifact_cache n) (binding_digest b) of
            Inl e \<Rightarrow> (n, Inl e)
          | Inr _ \<Rightarrow> stage_each env specs t bs (dict_put (binding_artifact b) (binding_digest b) ds)
              (n\<lparr>artifact_links := (artifact_links n)
                   (t := dict_put (posix (path_parts (target_relative_directory s))) (binding_digest b) (artifact_links n t))\<rparr>))"

definition stage_bindings ::
  "artifact_environment \<Rightarrow> task_id \<Rightarrow> artifact_binding list \<Rightarrow> artifact_node \<Rightarrow> artifact_node \<times> unit result" where
  "stage_bindings env t bs n =
     (case get_definition (artifact_tasks n) t of
        Inl e \<Rightarrow> (n, Inl e)
      | Inr d \<Rightarrow> and_then (stage_each env (artifacts d) t bs [])
          (\<lambda>ds n1. let (reg, r) = run_edit (set_artifact_digests ds) (artifact_now env) t (artifact_tasks n1)
                   in (n1\<lparr>artifact_tasks := reg\<rparr>, bind_result r (\<lambda>_. Inr ()))) n)"

definition obtain_artifact ::
  "artifact_environment \<Rightarrow> string option \<Rightarrow> artifact_spec \<Rightarrow> artifact_node \<Rightarrow> artifact_node \<times> artifact_manifest result" where
  "obtain_artifact env known s n =
     (case known of
        None \<Rightarrow> import_source env s n
      | Some d \<Rightarrow>
          case has_artifact env (artifact_cache n) d of
            Inl e \<Rightarrow> (n, Inl e)
          | Inr True \<Rightarrow> (n, validate_cache env False (artifact_cache n) d)
          | Inr False \<Rightarrow> import_source env s n)"

fun obtain_artifacts ::
  "artifact_environment \<Rightarrow> string dict \<Rightarrow> artifact_spec list \<Rightarrow> artifact_node \<Rightarrow> artifact_node \<times> artifact_binding list result" where
  "obtain_artifacts env ds [] n = (n, Inr [])"
| "obtain_artifacts env ds (s # ss) n =
     and_then (obtain_artifact env (dict_get ds (artifact_id s)) s)
     (\<lambda>m. and_then (obtain_artifacts env ds ss)
     (\<lambda>bs. answer (Inr (\<lparr>binding_artifact = artifact_id s, binding_digest = am_digest m, binding_size = am_size m\<rparr> # bs)))) n"

definition ensure_task_artifacts ::
  "artifact_environment \<Rightarrow> task_id \<Rightarrow> artifact_node \<Rightarrow> artifact_node \<times> artifact_binding list result" where
  "ensure_task_artifacts env t n =
     (case bind_result (get_definition (artifact_tasks n) t) (\<lambda>d.
             bind_result (get_state (artifact_tasks n) t) (\<lambda>st. Inr (d, st))) of
        Inl e \<Rightarrow> (n, Inl e)
      | Inr (d, st) \<Rightarrow>
          and_then (obtain_artifacts env (artifact_digests st) (artifacts d))
          (\<lambda>bs. and_then (stage_bindings env t bs) (\<lambda>_. answer (Inr bs))) n)"

fun bindings_of :: "cache_entry dict \<Rightarrow> string dict \<Rightarrow> artifact_spec list \<Rightarrow> artifact_binding list result" where
  "bindings_of c ds [] = Inr []"
| "bindings_of c ds (s # ss) =
     (case dict_get ds (artifact_id s) of
        None \<Rightarrow> bindings_of c ds ss
      | Some d \<Rightarrow> bind_result (load_artifact_manifest c d) (\<lambda>m. bind_result (bindings_of c ds ss) (\<lambda>bs.
          Inr (\<lparr>binding_artifact = artifact_id s, binding_digest = d, binding_size = am_size m\<rparr> # bs))))"

definition bindings_for_task :: "task_id \<Rightarrow> artifact_node \<Rightarrow> artifact_binding list result" where
  "bindings_for_task t n =
     bind_result (get_definition (artifact_tasks n) t) (\<lambda>d.
     bind_result (get_state (artifact_tasks n) t) (\<lambda>st.
       bindings_of (artifact_cache n) (artifact_digests st) (artifacts d)))"

section \<open>Artifacts that arrive\<close>

definition commit_incoming ::
  "artifact_environment \<Rightarrow> string \<Rightarrow> string \<Rightarrow> artifact_node \<Rightarrow> artifact_node \<times> artifact_manifest result" where
  "commit_incoming env m d n =
     (case artifact_incoming n (m, d) of
        None \<Rightarrow> (n, Inl (ArtifactValidationError (''Incoming artifact does not exist: '' @ d)))
      | Some e \<Rightarrow>
          let n1 = n\<lparr>artifact_incoming := (artifact_incoming n)((m, d) := None)\<rparr>
          in if dict_get (artifact_cache n) d \<noteq> None
             then (n1, validate_cache env True (artifact_cache n) d)
             else let n2 = n1\<lparr>artifact_cache := dict_put d e (artifact_cache n)\<rparr>
                  in case validate_cache env True (artifact_cache n2) d of
                       Inr x \<Rightarrow> (n2, Inr x)
                     | Inl err \<Rightarrow> (n2\<lparr>artifact_cache := AList.delete d (artifact_cache n2)\<rparr>, Inl err))"

text \<open>The handlers of \<open>POST /artifacts/status\<close> and \<open>POST /artifacts/commit\<close>.\<close>

fun artifact_status :: "artifact_environment \<Rightarrow> artifact_binding list \<Rightarrow> cache_entry dict \<Rightarrow> (string list \<times> string list) result" where
  "artifact_status env [] c = Inr ([], [])"
| "artifact_status env (b # bs) c =
     bind_result (has_artifact env c (binding_digest b)) (\<lambda>here.
     bind_result (artifact_status env bs c) (\<lambda>(present, missing).
       Inr (if here then (binding_digest b # present, missing) else (present, binding_digest b # missing))))"

record commit_request =
  cr_migration :: string
  cr_task :: task_id
  cr_artifact :: string
  cr_digest :: string

record commit_response =
  cp_artifact :: string
  cp_digest :: string
  cp_committed :: bool
  cp_size :: int
  cp_error :: "string option"

definition commit_artifact :: "artifact_environment \<Rightarrow> commit_request \<Rightarrow> artifact_node \<Rightarrow> artifact_node \<times> commit_response" where
  "commit_artifact env q n =
     (let (n', r) = commit_incoming env (cr_migration q) (cr_digest q) n
      in (n', case r of
                Inr m \<Rightarrow> \<lparr>cp_artifact = cr_artifact q, cp_digest = cr_digest q, cp_committed = True,
                          cp_size = am_size m, cp_error = None\<rparr>
              | Inl e \<Rightarrow> \<lparr>cp_artifact = cr_artifact q, cp_digest = cr_digest q, cp_committed = False,
                          cp_size = 0, cp_error = Some (describe_error e)\<rparr>))"

section \<open>Prefetch\<close>

text \<open>
  The destination as the client and the transfer reach it: the status request, the copy of a cache
  directory into its incoming area, the commit request.
\<close>

record 'd artifact_peer =
  peer_status :: "artifact_binding list \<Rightarrow> 'd \<Rightarrow> 'd \<times> string list result"
  peer_copy :: "string \<Rightarrow> string \<Rightarrow> cache_entry \<Rightarrow> 'd \<Rightarrow> 'd \<times> unit result"
  peer_commit :: "commit_request \<Rightarrow> 'd \<Rightarrow> 'd \<times> commit_response result"

definition at_source :: "('n \<Rightarrow> 'n \<times> 'a result) \<Rightarrow> 'n \<times> 'd \<Rightarrow> ('n \<times> 'd) \<times> 'a result" where
  "at_source f s = (let (n, r) = f (fst s) in ((n, snd s), r))"

definition at_peer :: "('d \<Rightarrow> 'd \<times> 'a result) \<Rightarrow> 'n \<times> 'd \<Rightarrow> ('n \<times> 'd) \<times> 'a result" where
  "at_peer f s = (let (d, r) = f (snd s) in ((fst s, d), r))"

text \<open>\<open>RsyncArtifactTransfer.send\<close>: the destination is known and the artifact is cached, then it is copied.\<close>

definition send_artifact ::
  "cluster_config \<Rightarrow> 'd artifact_peer \<Rightarrow> string \<Rightarrow> node_id \<Rightarrow> string \<Rightarrow> artifact_node \<times> 'd \<Rightarrow> (artifact_node \<times> 'd) \<times> unit result" where
  "send_artifact c net d dst m s =
     (case get_node c dst of
        Inl e \<Rightarrow> (s, Inl e)
      | Inr _ \<Rightarrow>
          case dict_get (artifact_cache (fst s)) d of
            None \<Rightarrow> (s, Inl (FileNotFoundError (''Local artifact cache is missing: '' @ d)))
          | Some e \<Rightarrow> at_peer (peer_copy net m d e) s)"

definition refused_commit :: "artifact_binding \<Rightarrow> commit_response \<Rightarrow> error" where
  "refused_commit b r =
     RuntimeError (case cp_error r of
         Some (x # xs) \<Rightarrow> x # xs
       | _ \<Rightarrow> ''Destination failed to commit artifact '' @ binding_artifact b)"

fun push_missing ::
  "cluster_config \<Rightarrow> 'd artifact_peer \<Rightarrow> task_id \<Rightarrow> node_id \<Rightarrow> string \<Rightarrow> string list \<Rightarrow> artifact_binding list
     \<Rightarrow> artifact_node \<times> 'd \<Rightarrow> (artifact_node \<times> 'd) \<times> unit result" where
  "push_missing c net t dst m missing [] s = (s, Inr ())"
| "push_missing c net t dst m missing (b # bs) s =
     (if binding_digest b \<notin> set missing then push_missing c net t dst m missing bs s
      else and_then (send_artifact c net (binding_digest b) dst m)
        (\<lambda>_. and_then (at_peer (peer_commit net \<lparr>cr_migration = m, cr_task = t, cr_artifact = binding_artifact b,
                                                 cr_digest = binding_digest b\<rparr>))
        (\<lambda>r. if cp_committed r then push_missing c net t dst m missing bs
             else answer (Inl (refused_commit b r)))) s)"

definition prefetch ::
  "cluster_config \<Rightarrow> 'd artifact_peer \<Rightarrow> artifact_environment \<Rightarrow> task_id \<Rightarrow> node_id \<Rightarrow> string \<Rightarrow> artifact_node \<times> 'd
     \<Rightarrow> (artifact_node \<times> 'd) \<times> artifact_binding list result" where
  "prefetch c net env t dst m =
     and_then (at_source (ensure_task_artifacts env t)) (\<lambda>bs.
     and_then (at_peer (peer_status net bs)) (\<lambda>missing.
     and_then (push_missing c net t dst m missing bs) (\<lambda>_. answer (Inr bs))))"

definition bytes_of_missing :: "artifact_binding list \<Rightarrow> string list \<Rightarrow> int" where
  "bytes_of_missing bs missing = sum_list (map binding_size (filter (\<lambda>b. binding_digest b \<in> set missing) bs))"

text \<open>The estimate before a migration: when the destination does not answer, everything must move.\<close>

definition artifact_bytes_missing ::
  "'d artifact_peer \<Rightarrow> artifact_environment \<Rightarrow> task_id \<Rightarrow> artifact_node \<times> 'd \<Rightarrow> (artifact_node \<times> 'd) \<times> int result" where
  "artifact_bytes_missing net env t =
     and_then (at_source (ensure_task_artifacts env t)) (\<lambda>bs s.
       case at_peer (peer_status net bs) s of
         (s', Inr missing) \<Rightarrow> (s', Inr (bytes_of_missing bs missing))
       | (s', Inl _) \<Rightarrow> (s', Inr (sum_list (map binding_size bs))))"

end
