(* ===== verification/Artifact_Laws.thy ===== *)
theory Artifact_Laws
  imports Artifact_Cache Task_Registry_Laws
begin

text \<open>
  What the artifact cache promises: an entry is published only when it validates, so a sound cache stays
  sound; what a task is staged validates; and what a source pushes is what the destination holds.
\<close>

section \<open>Validation\<close>

definition file_matches :: "artifact_environment \<Rightarrow> bool \<Rightarrow> tree \<Rightarrow> artifact_file \<Rightarrow> bool" where
  "file_matches env verify p f \<longleftrightarrow>
     (\<exists>x. payload_file env p (file_path f) = Some x \<and> int (length x) = file_size f
        \<and> (verify \<longrightarrow> content_digest env x = file_sha256 f))"

definition entry_matches :: "artifact_environment \<Rightarrow> bool \<Rightarrow> cache_entry \<Rightarrow> artifact_manifest \<Rightarrow> bool" where
  "entry_matches env verify e m \<longleftrightarrow>
     entry_manifest e = Stored m \<and> (\<exists>p. entry_payload e = Some p \<and> (\<forall>f \<in> set (am_files m). file_matches env verify p f))"

lemma check_files_iff: "check_files env verify p fs = Inr u \<longleftrightarrow> (\<forall>f \<in> set fs. file_matches env verify p f)"
  by (induction fs) (auto simp: file_matches_def split: option.split)

lemma validate_cache_iff:
  "validate_cache env verify c d = Inr m \<longleftrightarrow> (\<exists>e. dict_get c d = Some e \<and> entry_matches env verify e m)"
  by (auto simp: validate_cache_def load_artifact_manifest_def entry_matches_def bind_result_Inr_iff check_files_iff
      split: option.splits stored_manifest.splits)

lemma file_matches_weaken: "file_matches env True p f \<Longrightarrow> file_matches env False p f"
  by (auto simp: file_matches_def)

lemma validate_cache_weaken: "validate_cache env True c d = Inr m \<Longrightarrow> validate_cache env False c d = Inr m"
  using file_matches_weaken by (fastforce simp: validate_cache_iff entry_matches_def)

lemma check_files_raises: "check_files env verify p fs = Inl e \<Longrightarrow> is_artifact_error e"
  by (induction fs) (auto split: option.splits if_splits)

definition sound_entry :: "artifact_environment \<Rightarrow> cache_entry \<Rightarrow> bool" where
  "sound_entry env e \<longleftrightarrow> (\<exists>m. entry_matches env True e m)"

definition cache_sound :: "artifact_environment \<Rightarrow> cache_entry dict \<Rightarrow> bool" where
  "cache_sound env c \<longleftrightarrow> dict_ok c \<and> (\<forall>d e. dict_get c d = Some e \<longrightarrow> sound_entry env e)"

lemma sound_validates:
  "sound_entry env e \<Longrightarrow> dict_get c d = Some e \<Longrightarrow> \<exists>m. validate_cache env verify c d = Inr m"
  using validate_cache_weaken by (cases verify) (fastforce simp: validate_cache_iff sound_entry_def)+

lemma has_artifact_sound:
  "cache_sound env c \<Longrightarrow> has_artifact env c d = Inr (dict_get c d \<noteq> None)"
proof (cases "dict_get c d")
  case None
  then show ?thesis by (simp add: has_artifact_def validate_cache_def load_artifact_manifest_def)
next
  case (Some e)
  assume "cache_sound env c"
  with Some obtain m where "validate_cache env False c d = Inr m"
    using sound_validates by (metis cache_sound_def)
  with Some show ?thesis by (simp add: has_artifact_def)
qed

text \<open>
  A digest is held when its entry validates in full: its files match the manifest stored beside them.
  Like \<open>validate_cache\<close>, this does not compare the digest of that manifest with the name of the entry.
\<close>

definition holds :: "artifact_environment \<Rightarrow> string \<Rightarrow> cache_entry dict \<Rightarrow> bool" where
  "holds env d c \<longleftrightarrow> is_ok (validate_cache env True c d)"

lemma holds_iff: "holds env d c \<longleftrightarrow> (\<exists>e. dict_get c d = Some e \<and> sound_entry env e)"
  by (auto simp: holds_def is_ok_Inr validate_cache_iff sound_entry_def)

lemma holds_sound: "cache_sound env c \<Longrightarrow> holds env d c \<longleftrightarrow> dict_get c d \<noteq> None"
  by (auto simp: holds_iff cache_sound_def)

text \<open>The order in which caches grow: entries are added, never replaced.\<close>

definition cache_grows :: "cache_entry dict \<Rightarrow> cache_entry dict \<Rightarrow> bool" where
  "cache_grows c c' \<longleftrightarrow> (\<forall>d e. dict_get c d = Some e \<longrightarrow> dict_get c' d = Some e)"

lemma cache_grows_refl [simp]: "cache_grows c c"
  by (simp add: cache_grows_def)

lemma cache_grows_trans: "cache_grows c c' \<Longrightarrow> cache_grows c' c'' \<Longrightarrow> cache_grows c c''"
  by (simp add: cache_grows_def)

lemma cache_grows_put: "dict_get c d = None \<Longrightarrow> cache_grows c (dict_put d e c)"
  by (auto simp: cache_grows_def)

lemma cache_grows_holds: "cache_grows c c' \<Longrightarrow> holds env d c \<Longrightarrow> holds env d c'"
  by (auto simp: holds_iff cache_grows_def)

lemma dict_delete_put_fresh: "dict_get c d = None \<Longrightarrow> AList.delete d (dict_put d e c) = c"
  by (induction c) (auto simp: dict_put_def dict_get_def AList.delete_eq split: if_splits)

section \<open>Commit\<close>

lemma commit_incoming_cases:
  assumes "commit_incoming env m d n = (n', r)"
  shows "(artifact_cache n' = artifact_cache n
      \<or> (dict_get (artifact_cache n) d = None \<and> (\<exists>e. artifact_incoming n (m, d) = Some e \<and> sound_entry env e
           \<and> artifact_cache n' = dict_put d e (artifact_cache n))))
    \<and> (is_ok r \<longrightarrow> holds env d (artifact_cache n')) \<and> artifact_tasks n' = artifact_tasks n"
proof (cases "artifact_incoming n (m, d)")
  case None
  then show ?thesis using assms by (auto simp: commit_incoming_def)
next
  case (Some e)
  show ?thesis
  proof (cases "dict_get (artifact_cache n) d")
    case (Some e')
    with \<open>artifact_incoming n (m, d) = Some e\<close> show ?thesis
      using assms by (auto simp: commit_incoming_def Let_def holds_def)
  next
    case None
    let ?c = "dict_put d e (artifact_cache n)"
    show ?thesis
    proof (cases "validate_cache env True ?c d")
      case (Inl err)
      with None Some show ?thesis
        using assms by (auto simp: commit_incoming_def Let_def dict_delete_put_fresh Inl)
    next
      case (Inr x)
      then have "sound_entry env e" by (auto simp: validate_cache_iff sound_entry_def)
      with Inr None Some show ?thesis
        using assms by (auto simp: commit_incoming_def Let_def holds_def)
    qed
  qed
qed

lemma commit_incoming_grows: "commit_incoming env m d n = (n', r) \<Longrightarrow> cache_grows (artifact_cache n) (artifact_cache n')"
  using commit_incoming_cases [of env m d n n' r] by (auto simp: cache_grows_put)

lemma cache_sound_put: "cache_sound env c \<Longrightarrow> sound_entry env e \<Longrightarrow> cache_sound env (dict_put d e c)"
  by (auto simp: cache_sound_def)

lemma commit_incoming_sound:
  "commit_incoming env m d n = (n', r) \<Longrightarrow> cache_sound env (artifact_cache n) \<Longrightarrow> cache_sound env (artifact_cache n')"
  using commit_incoming_cases [of env m d n n' r] cache_sound_put by metis

section \<open>Import\<close>

text \<open>A source directory is steady when it is copied as it was listed.\<close>

definition wf_tree :: "tree \<Rightarrow> bool" where
  "wf_tree p \<longleftrightarrow> dict_ok p \<and> (\<forall>k \<in> fst ` set p. safe_relative k \<and> posix (path_parts k) = k)"

definition steady_sources :: "artifact_environment \<Rightarrow> bool" where
  "steady_sources env \<longleftrightarrow> (\<forall>src p. tree_listed env src = Some p \<longrightarrow> wf_tree p \<and> tree_copied env src = Inr p)"

lemma build_manifest_matches:
  assumes "build_manifest env s = Inr m" "tree_listed env (source_directory s) = Some p" "wf_tree p"
  shows "entry_matches env True \<lparr>entry_manifest = Stored m, entry_payload = Some p\<rparr> m"
proof -
  have m: "set (am_files m) = listed_file env ` set p" using assms(1,2)
    by (auto simp: build_manifest_def Let_def split: if_splits)
  have "file_matches env True p (listed_file env (k, x))" if "(k, x) \<in> set p" for k x
    using that assms(3) dict_get_iff [of p k x]
    by (force simp: file_matches_def listed_file_def payload_file_def wf_tree_def)
  then show ?thesis by (auto simp: entry_matches_def m)
qed

lemma import_source_cases:
  assumes "import_source env s n = (n', r)"
  shows "n' = n \<or> (\<exists>m p. build_manifest env s = Inr m \<and> tree_copied env (source_directory s) = Inr p
      \<and> dict_get (artifact_cache n) (am_digest m) = None
      \<and> n' = n\<lparr>artifact_cache := dict_put (am_digest m) \<lparr>entry_manifest = Stored m, entry_payload = Some p\<rparr> (artifact_cache n)\<rparr>)"
proof (cases "build_manifest env s")
  case (Inl e)
  then show ?thesis using assms by (simp add: import_source_def)
next
  case (Inr m)
  then show ?thesis using assms
    by (auto simp: import_source_def Let_def split: sum.splits bool.splits if_splits)
qed

definition keeps_all_but_cache :: "artifact_node \<Rightarrow> artifact_node \<Rightarrow> bool" where
  "keeps_all_but_cache n n' \<longleftrightarrow> n' = n\<lparr>artifact_cache := artifact_cache n'\<rparr> \<and> cache_grows (artifact_cache n) (artifact_cache n')"

lemma keeps_all_but_cache_refl [simp]: "keeps_all_but_cache n n"
  by (simp add: keeps_all_but_cache_def)

lemma keeps_all_but_cache_trans:
  "keeps_all_but_cache n n' \<Longrightarrow> keeps_all_but_cache n' n'' \<Longrightarrow> keeps_all_but_cache n n''"
  using cache_grows_trans by (cases n; cases n'; cases n'') (auto simp: keeps_all_but_cache_def)

lemma import_source_keeps:
  assumes "import_source env s n = (n', r)"
  shows "keeps_all_but_cache n n'"
  using import_source_cases [OF assms] by (auto simp: keeps_all_but_cache_def cache_grows_put)

lemma import_source_sound:
  assumes "import_source env s n = (n', r)" "steady_sources env" "cache_sound env (artifact_cache n)"
  shows "cache_sound env (artifact_cache n')"
  using import_source_cases [OF assms(1)]
proof
  assume "n' = n"
  then show ?thesis using assms(3) by simp
next
  assume "\<exists>m p. build_manifest env s = Inr m \<and> tree_copied env (source_directory s) = Inr p
      \<and> dict_get (artifact_cache n) (am_digest m) = None
      \<and> n' = n\<lparr>artifact_cache := dict_put (am_digest m) \<lparr>entry_manifest = Stored m, entry_payload = Some p\<rparr> (artifact_cache n)\<rparr>"
  then obtain m p where m: "build_manifest env s = Inr m" "tree_copied env (source_directory s) = Inr p"
    and n': "n' = n\<lparr>artifact_cache := dict_put (am_digest m) \<lparr>entry_manifest = Stored m, entry_payload = Some p\<rparr> (artifact_cache n)\<rparr>"
    by blast
  obtain q where q: "tree_listed env (source_directory s) = Some q"
    using m(1) by (auto simp: build_manifest_def split: option.splits)
  then have "wf_tree q" "q = p" using assms(2) m(2) by (auto simp: steady_sources_def)
  then have "sound_entry env \<lparr>entry_manifest = Stored m, entry_payload = Some p\<rparr>"
    using build_manifest_matches [OF m(1)] q by (auto simp: sound_entry_def)
  then show ?thesis using n' cache_sound_put [OF assms(3)] by simp
qed

lemma obtain_artifact_shape: "obtain_artifact env k s n = (n', r) \<Longrightarrow> n' = n \<or> (\<exists>r'. import_source env s n = (n', r'))"
  by (auto simp: obtain_artifact_def split: option.splits sum.splits bool.splits)

lemma obtain_artifacts_keeps:
  "obtain_artifacts env ds ss n = (n', r) \<Longrightarrow> keeps_all_but_cache n n'
     \<and> (steady_sources env \<longrightarrow> cache_sound env (artifact_cache n) \<longrightarrow> cache_sound env (artifact_cache n'))"
proof (induction ss arbitrary: n n' r)
  case Nil
  then show ?case by simp
next
  case (Cons s ss)
  obtain n1 r1 where one: "obtain_artifact env (dict_get ds (artifact_id s)) s n = (n1, r1)"
    by (cases "obtain_artifact env (dict_get ds (artifact_id s)) s n")
  have step: "keeps_all_but_cache n n1"
    "steady_sources env \<longrightarrow> cache_sound env (artifact_cache n) \<longrightarrow> cache_sound env (artifact_cache n1)"
    using obtain_artifact_shape [OF one] import_source_keeps import_source_sound by auto
  obtain n2 r2 where rest: "obtain_artifacts env ds ss n1 = (n2, r2)" by (cases "obtain_artifacts env ds ss n1")
  have "n' = n1 \<or> n' = n2" using Cons.prems one rest
    by (auto simp: and_then_def answer_def split: sum.splits)
  then show ?case using step Cons.IH [OF rest] keeps_all_but_cache_trans by blast
qed

section \<open>Staging\<close>

lemma stage_each_keeps: "stage_each env specs t bs ds n = (n', r) \<Longrightarrow> n' = n\<lparr>artifact_links := artifact_links n'\<rparr>"
  by (induction env specs t bs ds n rule: stage_each.induct) (auto split: option.splits sum.splits)

lemma stage_each_ok:
  "stage_each env specs t bs ds n = (n', Inr ds') \<Longrightarrow>
     (\<forall>b \<in> set bs. holds env (binding_digest b) (artifact_cache n))
   \<and> ds' = fold (\<lambda>b. dict_put (binding_artifact b) (binding_digest b)) bs ds"
  by (induction env specs t bs ds n rule: stage_each.induct) (auto simp: holds_def split: option.splits sum.splits)

lemma stage_bindings_ok:
  assumes "stage_bindings env t bs n = (n', r)"
  shows "artifact_cache n' = artifact_cache n" "artifact_incoming n' = artifact_incoming n"
    "r = Inr u \<Longrightarrow> \<forall>b \<in> set bs. holds env (binding_digest b) (artifact_cache n)"
    "r = Inr u \<Longrightarrow> registry_inv (artifact_tasks n)
       \<Longrightarrow> \<exists>st. get_state (artifact_tasks n') t = Inr st \<and> artifact_digests st = digests_of bs"
proof -
  define d where "d = (case get_definition (artifact_tasks n) t of Inr d \<Rightarrow> d | Inl _ \<Rightarrow> undefined)"
  obtain n1 r1 where one: "stage_each env (artifacts d) t bs [] n = (n1, r1)"
    by (cases "stage_each env (artifacts d) t bs [] n")
  obtain links where n1: "n1 = n\<lparr>artifact_links := links\<rparr>" using stage_each_keeps [OF one] by blast
  obtain reg' r2 where edit: "run_edit (set_artifact_digests (digests_of bs)) (artifact_now env) t (artifact_tasks n) = (reg', r2)"
    by (cases "run_edit (set_artifact_digests (digests_of bs)) (artifact_now env) t (artifact_tasks n)")
  have digests: "ds = digests_of bs" "\<forall>b \<in> set bs. holds env (binding_digest b) (artifact_cache n)" if "r1 = Inr ds" for ds
    using stage_each_ok [OF one [unfolded that]] by (simp_all add: digests_of_def)
  have shape: "n' = n \<and> \<not> is_ok r \<or> n' = n1 \<and> \<not> is_ok r
      \<or> is_ok r1 \<and> n' = n1\<lparr>artifact_tasks := reg'\<rparr> \<and> r = bind_result r2 (\<lambda>_. Inr ())"
  proof (cases "get_definition (artifact_tasks n) t")
    case (Inl e)
    then show ?thesis using assms by (auto simp: stage_bindings_def)
  next
    case (Inr d')
    then have d: "get_definition (artifact_tasks n) t = Inr d" by (simp add: d_def)
    show ?thesis
    proof (cases r1)
      case (Inl e)
      then show ?thesis using assms one d by (auto simp: stage_bindings_def and_then_def)
    next
      case (Inr ds)
      have "artifact_tasks n1 = artifact_tasks n" using n1 by simp
      then show ?thesis using assms one d Inr digests(1) [OF Inr] edit
        by (auto simp: stage_bindings_def and_then_def)
    qed
  qed
  from shape show "artifact_cache n' = artifact_cache n" "artifact_incoming n' = artifact_incoming n" using n1 by auto
  show "\<forall>b \<in> set bs. holds env (binding_digest b) (artifact_cache n)" if "r = Inr u"
    using shape that digests(2) by (auto simp: is_ok_Inr)
  show "\<exists>st. get_state (artifact_tasks n') t = Inr st \<and> artifact_digests st = digests_of bs"
    if "r = Inr u" and inv: "registry_inv (artifact_tasks n)"
  proof -
    have n': "artifact_tasks n' = reg'" and r2: "is_ok r2"
      using shape that(1) by (cases r2; simp add: is_ok_Inr)+
    obtain st where st: "get_state (artifact_tasks n) t = Inr st"
      using edit r2 by (cases "get_state (artifact_tasks n) t") (auto simp: run_edit_def is_ok_Inr)
    have "task_state.state_task_id st = t" using registry_inv_state [OF inv st] by simp
    then have "get_state reg' t = Inr (st\<lparr>artifact_digests := digests_of bs, updated_at := artifact_now env\<rparr>)"
      using edit st get_state_write [OF st, of "st\<lparr>artifact_digests := digests_of bs\<rparr>"]
      by (auto simp: run_edit_def set_artifact_digests_def)
    then show ?thesis using n' by simp
  qed
qed

lemma ensure_task_artifacts_ok:
  assumes "ensure_task_artifacts env t n = (n', r)"
  shows "cache_grows (artifact_cache n) (artifact_cache n')" "artifact_incoming n' = artifact_incoming n"
    "steady_sources env \<Longrightarrow> cache_sound env (artifact_cache n) \<Longrightarrow> cache_sound env (artifact_cache n')"
    "r = Inr bs \<Longrightarrow> \<forall>b \<in> set bs. holds env (binding_digest b) (artifact_cache n')"
    "r = Inr bs \<Longrightarrow> registry_inv (artifact_tasks n)
       \<Longrightarrow> \<exists>st. get_state (artifact_tasks n') t = Inr st \<and> artifact_digests st = digests_of bs"
proof -
  define known where "known = bind_result (get_definition (artifact_tasks n) t) (\<lambda>d.
      bind_result (get_state (artifact_tasks n) t) (\<lambda>st. Inr (d, st)))"
  have "cache_grows (artifact_cache n) (artifact_cache n') \<and> artifact_incoming n' = artifact_incoming n
    \<and> (steady_sources env \<longrightarrow> cache_sound env (artifact_cache n) \<longrightarrow> cache_sound env (artifact_cache n'))
    \<and> (\<forall>bs. r = Inr bs \<longrightarrow> (\<forall>b \<in> set bs. holds env (binding_digest b) (artifact_cache n')))
    \<and> (\<forall>bs. r = Inr bs \<longrightarrow> registry_inv (artifact_tasks n)
        \<longrightarrow> (\<exists>st. get_state (artifact_tasks n') t = Inr st \<and> artifact_digests st = digests_of bs))" (is ?all)
  proof (cases known)
    case (Inl e)
    then show ?thesis using assms by (auto simp: ensure_task_artifacts_def simp flip: known_def)
  next
    case (Inr dst)
    obtain d st where k: "known = Inr (d, st)" using Inr by (cases dst) simp
    obtain n1 r1 where one: "obtain_artifacts env (artifact_digests st) (artifacts d) n = (n1, r1)"
      by (cases "obtain_artifacts env (artifact_digests st) (artifacts d) n")
    have keep: "n1 = n\<lparr>artifact_cache := artifact_cache n1\<rparr>" "cache_grows (artifact_cache n) (artifact_cache n1)"
      "steady_sources env \<longrightarrow> cache_sound env (artifact_cache n) \<longrightarrow> cache_sound env (artifact_cache n1)"
      using obtain_artifacts_keeps [OF one] by (auto simp: keeps_all_but_cache_def)
    have same: "artifact_tasks n1 = artifact_tasks n" "artifact_incoming n1 = artifact_incoming n"
      by (subst keep(1), simp)+
    show ?thesis
    proof (cases r1)
      case (Inl e)
      then have "n' = n1" "r = Inl e" using assms k one
        by (simp_all add: ensure_task_artifacts_def and_then_def flip: known_def)
      then show ?thesis using keep(2,3) same(2) by simp
    next
      case (Inr bs)
      obtain n2 r2 where two: "stage_bindings env t bs n1 = (n2, r2)" by (cases "stage_bindings env t bs n1")
      have res: "n' = n2" "r = bind_result r2 (\<lambda>_. Inr bs)" using assms k one Inr two
        by (auto simp: ensure_task_artifacts_def and_then_def answer_def split: sum.splits simp flip: known_def)
      show ?thesis using res keep same stage_bindings_ok [OF two] by (cases r2) auto
    qed
  qed
  then show "cache_grows (artifact_cache n) (artifact_cache n')" "artifact_incoming n' = artifact_incoming n"
    "steady_sources env \<Longrightarrow> cache_sound env (artifact_cache n) \<Longrightarrow> cache_sound env (artifact_cache n')"
    "r = Inr bs \<Longrightarrow> \<forall>b \<in> set bs. holds env (binding_digest b) (artifact_cache n')"
    "r = Inr bs \<Longrightarrow> registry_inv (artifact_tasks n)
       \<Longrightarrow> \<exists>st. get_state (artifact_tasks n') t = Inr st \<and> artifact_digests st = digests_of bs"
    by blast+
qed

section \<open>What a source relies on of a destination\<close>

text \<open>
  \<open>held x d\<close>: the destination in state \<open>d\<close> holds a full copy of the artifact with digest \<open>x\<close>.  Nothing a
  source does takes a copy away; what the status does not report as missing is held, and so is what a
  commit reports as committed.
\<close>

locale artifact_endpoint =
  fixes peer :: "'d artifact_peer" and held :: "string \<Rightarrow> 'd \<Rightarrow> bool" and sane :: "'d \<Rightarrow> bool"
  assumes status_law: "sane d \<Longrightarrow> peer_status peer bs d = (d', r) \<Longrightarrow> sane d' \<and> (\<forall>x. held x d \<longrightarrow> held x d')
      \<and> (\<forall>missing. r = Inr missing \<longrightarrow> (\<forall>b \<in> set bs. binding_digest b \<in> set missing \<or> held (binding_digest b) d'))"
    and copy_law: "sane d \<Longrightarrow> peer_copy peer m x e d = (d', u) \<Longrightarrow> sane d' \<and> (\<forall>y. held y d \<longrightarrow> held y d')"
    and commit_law: "sane d \<Longrightarrow> peer_commit peer q d = (d', a) \<Longrightarrow> sane d' \<and> (\<forall>y. held y d \<longrightarrow> held y d')
      \<and> (\<forall>rsp. a = Inr rsp \<longrightarrow> cp_committed rsp \<longrightarrow> held (cr_digest q) d')"
begin

lemma send_keeps:
  assumes "sane (snd s)" "send_artifact c peer x dst m s = (s', u)"
  shows "sane (snd s') \<and> (\<forall>y. held y (snd s) \<longrightarrow> held y (snd s')) \<and> fst s' = fst s"
  using assms copy_law by (auto simp: send_artifact_def at_peer_def split: sum.splits option.splits prod.splits)

lemma push_missing_delivers:
  "sane (snd s) \<Longrightarrow> push_missing c peer t dst m missing bs s = (s', u) \<Longrightarrow>
     sane (snd s') \<and> (\<forall>y. held y (snd s) \<longrightarrow> held y (snd s')) \<and> fst s' = fst s
   \<and> (is_ok u \<longrightarrow> (\<forall>b \<in> set bs. binding_digest b \<in> set missing \<longrightarrow> held (binding_digest b) (snd s')))"
proof (induction bs arbitrary: s)
  case Nil
  then show ?case by simp
next
  case (Cons b bs)
  show ?case
  proof (cases "binding_digest b \<in> set missing")
    case False
    then show ?thesis using Cons by simp
  next
    case True
    let ?q = "\<lparr>cr_migration = m, cr_task = t, cr_artifact = binding_artifact b, cr_digest = binding_digest b\<rparr>"
    obtain s1 u1 where one: "send_artifact c peer (binding_digest b) dst m s = (s1, u1)"
      by (cases "send_artifact c peer (binding_digest b) dst m s")
    obtain d2 a where two: "peer_commit peer ?q (snd s1) = (d2, a)" by (cases "peer_commit peer ?q (snd s1)")
    have s1: "sane (snd s1)" "\<forall>y. held y (snd s) \<longrightarrow> held y (snd s1)" "fst s1 = fst s"
      using send_keeps [OF Cons.prems(1) one] by blast+
    have d2: "sane d2" "\<forall>y. held y (snd s1) \<longrightarrow> held y d2"
        "\<And>rsp. a = Inr rsp \<Longrightarrow> cp_committed rsp \<Longrightarrow> held (binding_digest b) d2"
      using commit_law [OF s1(1) two] by auto
    consider "s' = s1" "\<not> is_ok u" | "s' = (fst s1, d2)" "\<not> is_ok u"
      | rsp where "a = Inr rsp" "cp_committed rsp" "push_missing c peer t dst m missing bs (fst s1, d2) = (s', u)"
      using Cons.prems(2) True one two
      by (auto simp: and_then_def at_peer_def answer_def split: sum.splits if_splits)
    then show ?thesis
    proof cases
      case 3
      then show ?thesis using Cons.IH [of "(fst s1, d2)"] s1 d2 by auto
    qed (use s1 d2 in auto)
  qed
qed

lemma prefetch_delivers:
  assumes "sane (snd s)" "prefetch c peer env t dst m s = (s', r)"
  shows "sane (snd s') \<and> (\<forall>y. held y (snd s) \<longrightarrow> held y (snd s'))
      \<and> (\<forall>bs. r = Inr bs \<longrightarrow> (\<forall>b \<in> set bs. held (binding_digest b) (snd s')))"
proof -
  obtain n1 r1 where one: "ensure_task_artifacts env t (fst s) = (n1, r1)" by (cases "ensure_task_artifacts env t (fst s)")
  show ?thesis
  proof (cases r1)
    case (Inl e)
    then show ?thesis using assms one by (auto simp: prefetch_def and_then_def at_source_def)
  next
    case (Inr bs)
    obtain d2 r2 where two: "peer_status peer bs (snd s) = (d2, r2)" by (cases "peer_status peer bs (snd s)")
    have d2: "sane d2" "\<forall>y. held y (snd s) \<longrightarrow> held y d2"
        "\<And>missing. r2 = Inr missing \<Longrightarrow> \<forall>b \<in> set bs. binding_digest b \<in> set missing \<or> held (binding_digest b) d2"
      using status_law [OF assms(1) two] by auto
    show ?thesis
    proof (cases r2)
      case (Inl e)
      then show ?thesis using assms one Inr two d2 by (auto simp: prefetch_def and_then_def at_source_def at_peer_def)
    next
      case (Inr missing)
      obtain s3 u where three: "push_missing c peer t dst m missing bs (n1, d2) = (s3, u)"
        by (cases "push_missing c peer t dst m missing bs (n1, d2)")
      have res: "s' = s3" "r = bind_result u (\<lambda>_. Inr bs)" using assms(2) one \<open>r1 = Inr bs\<close> two Inr three
        by (cases u; simp add: prefetch_def and_then_def at_source_def at_peer_def answer_def)+
      show ?thesis using res push_missing_delivers [OF _ three] d2 Inr by (cases u) auto
    qed
  qed
qed

end

section \<open>A destination behind a network\<close>

text \<open>
  The network may lose a status answer, a commit request or a commit answer, and a copy may leave any
  part of the artifact in the incoming area, whatever it reports.
\<close>

record artifact_network =
  status_arrives :: bool
  copy_outcome :: "cache_entry \<Rightarrow> cache_entry option \<times> unit result"
  commit_arrives :: bool
  commit_answered :: bool

definition node_artifacts :: "artifact_environment \<Rightarrow> artifact_network \<Rightarrow> artifact_node artifact_peer" where
  "node_artifacts env net =
     \<lparr>peer_status = (\<lambda>bs d. (d, if status_arrives net
                       then bind_result (artifact_status env bs (artifact_cache d)) (\<lambda>(_, missing). Inr missing)
                       else Inl (OtherError ''HTTPError''))),
      peer_copy = (\<lambda>m x e d. let (left, u) = copy_outcome net e
                       in (d\<lparr>artifact_incoming := (artifact_incoming d)((m, x) := left)\<rparr>, u)),
      peer_commit = (\<lambda>q d. if commit_arrives net
                       then let (d', rsp) = commit_artifact env q d
                            in (d', if commit_answered net then Inr rsp else Inl (OtherError ''HTTPError''))
                       else (d, Inl (OtherError ''HTTPError'')))\<rparr>"

lemma artifact_status_sound:
  assumes "cache_sound env c"
  shows "artifact_status env bs c = Inr (map binding_digest (filter (\<lambda>b. dict_get c (binding_digest b) \<noteq> None) bs),
      map binding_digest (filter (\<lambda>b. dict_get c (binding_digest b) = None) bs))"
  by (induction bs) (simp_all add: has_artifact_sound [OF assms])

interpretation stored: artifact_endpoint "node_artifacts env net" "\<lambda>x d. holds env x (artifact_cache d)"
    "\<lambda>d. cache_sound env (artifact_cache d)" for env net
proof (unfold_locales, goal_cases)
  case (1 d bs d' r)
  then show ?case
    by (auto simp: node_artifacts_def artifact_status_sound holds_sound split: if_splits)
next
  case (2 d m x e d' u)
  then show ?case by (auto simp: node_artifacts_def split: prod.splits)
next
  case (3 d q d' a)
  show ?case
  proof (cases "commit_arrives net")
    case False
    then show ?thesis using 3 by (auto simp: node_artifacts_def)
  next
    case True
    obtain d2 rsp where c: "commit_artifact env q d = (d2, rsp)" by (cases "commit_artifact env q d")
    then obtain v where v: "commit_incoming env (cr_migration q) (cr_digest q) d = (d2, v)" "cp_committed rsp = is_ok v"
      by (cases "commit_incoming env (cr_migration q) (cr_digest q) d") (auto simp: commit_artifact_def split: sum.splits)
    have "d' = d2" "a = Inr rsp \<or> \<not> is_ok a" using 3(2) True c by (auto simp: node_artifacts_def split: if_splits)
    then show ?thesis
      using commit_incoming_sound [OF v(1) 3(1)] cache_grows_holds [OF commit_incoming_grows [OF v(1)]]
        commit_incoming_cases [OF v(1)] v(2) by auto
  qed
qed

end
