(* ===== verification/Artifact_Claims.thy ===== *)
theory Artifact_Claims
  imports Artifact_Laws Task_Registry_Claims Evaluation_Claims
begin

text \<open>The claims about the artifact cache and the push of artifacts to a destination.\<close>

section \<open>A working network\<close>

definition working :: "artifact_network" where
  "working = \<lparr>status_arrives = True, copy_outcome = (\<lambda>e. (Some e, Inr ())), commit_arrives = True, commit_answered = True\<rparr>"

definition same_files :: "artifact_environment \<Rightarrow> artifact_environment \<Rightarrow> bool" where
  "same_files env env' \<longleftrightarrow> content_digest env' = content_digest env \<and> beyond env' = beyond env"

lemma sound_elsewhere: "same_files env env' \<Longrightarrow> sound_entry env e \<Longrightarrow> sound_entry env' e"
proof -
  assume "same_files env env'" and e: "sound_entry env e"
  then have "payload_file env' = payload_file env" "content_digest env' = content_digest env"
    by (auto simp: same_files_def payload_file_def fun_eq_iff)
  then show "sound_entry env' e" using e by (simp add: sound_entry_def entry_matches_def file_matches_def)
qed

text \<open>Entries the destination gains are copies of the entries of the source.\<close>

definition copied_from :: "cache_entry dict \<Rightarrow> cache_entry dict \<Rightarrow> cache_entry dict \<Rightarrow> bool" where
  "copied_from src c c' \<longleftrightarrow> cache_grows c c'
     \<and> (\<forall>x. dict_get c x = None \<longrightarrow> dict_get c' x = None \<or> dict_get c' x = dict_get src x)"

lemma copied_from_refl [simp]: "copied_from src c c"
  by (simp add: copied_from_def)

lemma copied_from_trans: "copied_from src c c' \<Longrightarrow> copied_from src c' c'' \<Longrightarrow> copied_from src c c''"
  unfolding copied_from_def by (metis cache_grows_trans cache_grows_def not_None_eq)

lemma copied_from_put: "dict_get c x = None \<Longrightarrow> dict_get src x = Some e \<Longrightarrow> copied_from src c (dict_put x e c)"
  by (auto simp: copied_from_def cache_grows_put)

text \<open>One artifact, sent and committed.\<close>

lemma commit_of_copy:
  assumes "cache_sound env' (artifact_cache d)" "dict_get src x = Some e" "sound_entry env' e"
    and d1: "d1 = d\<lparr>artifact_incoming := (artifact_incoming d)((m, x) := Some e)\<rparr>"
  obtains d2 v where "commit_incoming env' m x d1 = (d2, Inr v)" "cache_sound env' (artifact_cache d2)"
    "copied_from src (artifact_cache d) (artifact_cache d2)"
proof -
  obtain d2 r where c: "commit_incoming env' m x d1 = (d2, r)" by (cases "commit_incoming env' m x d1")
  have "is_ok r \<and> copied_from src (artifact_cache d) (artifact_cache d2)"
  proof (cases "dict_get (artifact_cache d) x")
    case (Some e')
    then have "sound_entry env' e'" using assms(1) by (simp add: cache_sound_def)
    then obtain v where v: "validate_cache env' True (artifact_cache d) x = Inr v" using sound_validates Some by metis
    show ?thesis using c Some by (auto simp: commit_incoming_def d1 v)
  next
    case None
    obtain v where v: "validate_cache env' True (dict_put x e (artifact_cache d)) x = Inr v"
      using sound_validates [OF assms(3), of "dict_put x e (artifact_cache d)" x True] by auto
    show ?thesis using c None copied_from_put [OF None assms(2)] by (auto simp: commit_incoming_def d1 Let_def v)
  qed
  moreover have "cache_sound env' (artifact_cache d2)" using commit_incoming_sound [OF c] assms(1) by (simp add: d1)
  ultimately show ?thesis using that c by (auto simp: is_ok_Inr)
qed

lemma push_missing_completes:
  assumes env: "same_files env env'" and dst: "get_node c dst = Inr nd"
  shows "cache_sound env' (artifact_cache d) \<Longrightarrow> \<forall>b \<in> set bs. holds env (binding_digest b) (artifact_cache n) \<Longrightarrow>
    \<exists>d'. push_missing c (node_artifacts env' working) t dst m missing bs (n, d) = ((n, d'), Inr ())
       \<and> cache_sound env' (artifact_cache d') \<and> copied_from (artifact_cache n) (artifact_cache d) (artifact_cache d')"
proof (induction bs arbitrary: d)
  case Nil
  then show ?case by simp
next
  case (Cons b bs)
  let ?x = "binding_digest b"
  show ?case
  proof (cases "?x \<in> set missing")
    case False
    then show ?thesis using Cons by simp
  next
    case True
    obtain e where e: "dict_get (artifact_cache n) ?x = Some e" "sound_entry env' e"
      using Cons.prems(2) sound_elsewhere [OF env] by (auto simp: holds_iff)
    define d1 where "d1 = d\<lparr>artifact_incoming := (artifact_incoming d)((m, ?x) := Some e)\<rparr>"
    obtain d2 v where com: "commit_incoming env' m ?x d1 = (d2, Inr v)" and d2: "cache_sound env' (artifact_cache d2)"
      "copied_from (artifact_cache n) (artifact_cache d) (artifact_cache d2)"
      using commit_of_copy [OF Cons.prems(1) e d1_def] by blast
    obtain d3 where "push_missing c (node_artifacts env' working) t dst m missing bs (n, d2) = ((n, d3), Inr ())"
      "cache_sound env' (artifact_cache d3)" "copied_from (artifact_cache n) (artifact_cache d2) (artifact_cache d3)"
      using Cons.IH [OF d2(1)] Cons.prems(2) by auto
    then show ?thesis using True e dst com d2(2) copied_from_trans
      by (auto simp: and_then_def send_artifact_def at_peer_def node_artifacts_def working_def commit_artifact_def
          simp flip: d1_def)
  qed
qed

section \<open>A concrete artifact\<close>

definition data_spec :: artifact_spec where
  "data_spec = \<lparr>artifact_id = ''data'', artifact_kind = ''dataset'', source_directory = ''/data'',
     target_relative_directory = ''in''\<rparr>"

definition data_tree :: tree where
  "data_tree = [(''f'', ''abc'')]"

definition data_files :: artifact_environment where
  "data_files = \<lparr>content_digest = (\<lambda>x. x), listing_digest = (\<lambda>_ _ _. ''d1''), beyond = (\<lambda>_. None),
     tree_listed = (\<lambda>src. if src = ''/data'' then Some data_tree else None),
     tree_copied = (\<lambda>src. if src = ''/data'' then Inr data_tree else Inl (OtherError src)), artifact_now = 5\<rparr>"

definition data_registry :: registry where
  "data_registry = initialize_state_if_missing 0 (sample_definition\<lparr>artifacts := [data_spec]\<rparr>)
     \<lparr>definitions = [(''t'', sample_definition\<lparr>artifacts := [data_spec]\<rparr>)], state_files = [], registry_node = ''a''\<rparr>"

definition data_source :: artifact_node where
  "data_source = \<lparr>artifact_tasks = data_registry,
     artifact_cache = [], artifact_incoming = (\<lambda>_. None), artifact_links = (\<lambda>_. [])\<rparr>"

definition data_manifest :: artifact_manifest where
  "data_manifest = \<lparr>am_artifact = ''data'', am_kind = ''dataset'', am_digest = ''d1'', am_size = 3,
     am_files = [\<lparr>file_path = ''f'', file_size = 3, file_sha256 = ''abc''\<rparr>]\<rparr>"

lemma data_registry_reads:
  "get_definition data_registry ''t'' = Inr (sample_definition\<lparr>artifacts := [data_spec]\<rparr>)"
  "get_state data_registry ''t'' = Inr ((initial_state ''a'' 0 sample_profile)\<lparr>task_state.updated_at := 0\<rparr>)"
  by (simp_all add: data_registry_def initialize_state_if_missing_def write_state_def get_definition_def get_state_def
      sample_definition_def sample_profile_def initial_state_def dict_get_def dict_put_def)

lemma data_manifest_built: "build_manifest data_files data_spec = Inr data_manifest"
  by (simp add: build_manifest_def data_files_def data_spec_def data_tree_def data_manifest_def listed_file_def)

lemma data_files_match: "check_files data_files v data_tree (am_files data_manifest) = Inr ()"
  by (simp add: data_manifest_def data_files_def data_tree_def payload_file_def safe_relative_def is_absolute_def
      path_parts_def dict_get_def)

lemma data_ensured:
  "ensure_task_artifacts data_files ''t'' data_source
     = (fst (ensure_task_artifacts data_files ''t'' data_source),
        Inr [\<lparr>binding_artifact = ''data'', binding_digest = ''d1'', binding_size = 3\<rparr>])"
proof -
  have spec: "artifact_id data_spec = ''data''" "tree_copied data_files (source_directory data_spec) = Inr data_tree"
    "am_digest data_manifest = ''d1''" "am_size data_manifest = 3"
    by (simp_all add: data_spec_def data_files_def data_manifest_def)
  have st: "artifact_digests ((initial_state ''a'' 0 sample_profile)\<lparr>task_state.updated_at := 0\<rparr>) = []"
    by (simp add: initial_state_def)
  show ?thesis
    by (simp add: ensure_task_artifacts_def data_source_def data_registry_reads st obtain_artifact_def import_source_def
        data_manifest_built has_artifact_def validate_cache_def load_artifact_manifest_def data_files_match spec
        and_then_def answer_def stage_bindings_def find_spec_def run_edit_def set_artifact_digests_def)
qed

definition data_destination :: artifact_node where
  "data_destination = data_source\<lparr>artifact_cache := []\<rparr>"

lemma data_destination_sound: "cache_sound data_files (artifact_cache data_destination)"
  by (simp add: data_destination_def cache_sound_def)

lemma example_peer_known: "get_node example_cluster ''b'' = Inr (example_node ''b'' 0)"
  by (simp add: get_node_def example_cluster_def example_node_def)

section \<open>The claims\<close>

lemma prefetch_completes_parts:
  assumes "ensure_task_artifacts env t n = (n1, Inr bs)" "get_node c dst = Inr nd"
    and "same_files env env'" "cache_sound env' (artifact_cache d)"
  obtains d' where "prefetch c (node_artifacts env' working) env t dst m (n, d) = ((n1, d'), Inr bs)"
    "cache_sound env' (artifact_cache d')" "copied_from (artifact_cache n1) (artifact_cache d) (artifact_cache d')"
    "\<forall>b \<in> set bs. holds env' (binding_digest b) (artifact_cache d')"
proof -
  define missing where "missing = map binding_digest (filter (\<lambda>b. dict_get (artifact_cache d) (binding_digest b) = None) bs)"
  have held: "\<forall>b \<in> set bs. holds env (binding_digest b) (artifact_cache n1)"
    using ensure_task_artifacts_ok(4) [OF assms(1)] by simp
  obtain d' where push: "push_missing c (node_artifacts env' working) t dst m missing bs (n1, d) = ((n1, d'), Inr ())"
    and d': "cache_sound env' (artifact_cache d')" "copied_from (artifact_cache n1) (artifact_cache d) (artifact_cache d')"
    using push_missing_completes [OF assms(3,2,4) held] by blast
  have run: "prefetch c (node_artifacts env' working) env t dst m (n, d) = ((n1, d'), Inr bs)"
    using push assms(1) by (simp add: prefetch_def and_then_def at_source_def at_peer_def node_artifacts_def working_def
        answer_def artifact_status_sound [OF assms(4)] missing_def)
  then show ?thesis using that d' stored.prefetch_delivers [of env' "(n, d)" c working env t dst m "(n1, d')" "Inr bs"] assms(4)
    by auto
qed

text \<open>
  C33. A prefetch over a working network to a reachable destination completes: when the artifacts of the task can
  be ensured at the source and every entry of the destination's cache matches its own manifest, every
  artifact bound to the task is held by the destination afterwards, its cache is still sound, and what it
  gained are exact copies of the source's entries.
\<close>

theorem prefetch_completes:
  assumes "ensure_task_artifacts env t n = (n1, Inr bs)" "get_node c dst = Inr nd"
    and "same_files env env'" "cache_sound env' (artifact_cache d)"
  shows "\<exists>d'. prefetch c (node_artifacts env' working) env t dst m (n, d) = ((n1, d'), Inr bs)
    \<and> cache_sound env' (artifact_cache d') \<and> copied_from (artifact_cache n1) (artifact_cache d) (artifact_cache d')
    \<and> (\<forall>b \<in> set bs. holds env' (binding_digest b) (artifact_cache d'))"
  using prefetch_completes_parts [OF assms] by metis

theorem prefetch_completes_witness:
  "\<exists>d'. prefetch example_cluster (node_artifacts data_files working) data_files ''t'' ''b'' ''m'' (data_source, data_destination)
      = ((fst (ensure_task_artifacts data_files ''t'' data_source), d'),
         Inr [\<lparr>binding_artifact = ''data'', binding_digest = ''d1'', binding_size = 3\<rparr>])
    \<and> is_ok (validate_cache data_files True (artifact_cache d') ''d1'')"
proof -
  have "same_files data_files data_files" by (simp add: same_files_def)
  from prefetch_completes [where m = "''m''", OF data_ensured example_peer_known this data_destination_sound]
  show ?thesis by (fastforce simp: holds_def)
qed

lemma prefetched_artifacts_are_held_parts:
  assumes "cache_sound env' (artifact_cache d)"
    and "prefetch c (node_artifacts env' net) env t dst m (n, d) = ((n', d'), r)"
  shows "cache_sound env' (artifact_cache d')" "\<And>x. holds env' x (artifact_cache d) \<Longrightarrow> holds env' x (artifact_cache d')"
    "\<And>bs b. r = Inr bs \<Longrightarrow> b \<in> set bs \<Longrightarrow> holds env' (binding_digest b) (artifact_cache d')"
  using stored.prefetch_delivers [of env' "(n, d)" c net env t dst m "(n', d')" r] assms by auto

text \<open>
  C34. Whatever the network loses and whatever a copy leaves behind: a destination whose cache entries all match
  their own manifests keeps it so, loses no entry, and has, after a prefetch that returns, an entry for every
  artifact bound to the task whose files have the sizes and digests its own manifest lists.  That manifest
  is the one that came with the copy; like the code, this does not compare its digest with the requested
  one (\<open>commit_ignores_the_label\<close>).
\<close>

theorem prefetched_artifacts_are_held:
  assumes "cache_sound env' (artifact_cache d)"
    and "prefetch c (node_artifacts env' net) env t dst m (n, d) = ((n', d'), r)"
  shows "cache_sound env' (artifact_cache d')
    \<and> (\<forall>x. holds env' x (artifact_cache d) \<longrightarrow> holds env' x (artifact_cache d'))
    \<and> (\<forall>bs. r = Inr bs \<longrightarrow> (\<forall>b \<in> set bs. holds env' (binding_digest b) (artifact_cache d')))"
  using prefetched_artifacts_are_held_parts [OF assms] by blast

theorem prefetched_artifacts_are_held_witness:
  "cache_sound data_files (artifact_cache (snd (fst (prefetch example_cluster
     (node_artifacts data_files (working\<lparr>copy_outcome := (\<lambda>e. (Some (e\<lparr>entry_payload := None\<rparr>), Inr ()))\<rparr>))
     data_files ''t'' ''b'' ''m'' (data_source, data_destination)))))"
proof -
  define net where "net = working\<lparr>copy_outcome := (\<lambda>e. (Some (e\<lparr>entry_payload := None\<rparr>), Inr ()))\<rparr>"
  obtain n' d' r where "prefetch example_cluster (node_artifacts data_files net) data_files ''t'' ''b'' ''m''
      (data_source, data_destination) = ((n', d'), r)"
    by (metis surj_pair)
  then show ?thesis using prefetched_artifacts_are_held [OF data_destination_sound] by (simp flip: net_def)
qed

lemma corrupt_entry_never_heals_parts:
  assumes "dict_get (artifact_cache d) x = Some e" "\<not> sound_entry env e"
  shows "\<not> is_ok (snd (commit_incoming env m x d))"
    "artifact_cache (fst (commit_incoming env m x d)) = artifact_cache d"
    "artifact_incoming (fst (commit_incoming env m x d)) (m, x) = None"
    "\<And>s y. build_manifest env s = Inr y \<Longrightarrow> am_digest y = x \<Longrightarrow>
       \<not> is_ok (snd (import_source env s d)) \<and> artifact_cache (fst (import_source env s d)) = artifact_cache d"
proof -
  have bad: "\<not> is_ok (validate_cache env True (artifact_cache d) x)"
    using assms by (auto simp: is_ok_Inr validate_cache_iff sound_entry_def)
  show "\<not> is_ok (snd (commit_incoming env m x d))" "artifact_cache (fst (commit_incoming env m x d)) = artifact_cache d"
    "artifact_incoming (fst (commit_incoming env m x d)) (m, x) = None"
    using bad assms(1) by (simp_all add: commit_incoming_def Let_def split: option.split)
  show "\<not> is_ok (snd (import_source env s d)) \<and> artifact_cache (fst (import_source env s d)) = artifact_cache d"
    if "build_manifest env s = Inr y" "am_digest y = x" for s y
    using bad assms(1) that by (auto simp: import_source_def Let_def split: sum.split bool.split)
qed

text \<open>C35. A damaged cache entry is never repaired: once the entry of a digest no longer validates, every later commit
  of that artifact fails, discards the fresh copy and leaves the entry, and so does an import from the source
  directory that builds the same digest.\<close>

theorem corrupt_entry_never_heals:
  assumes "dict_get (artifact_cache d) x = Some e" "\<not> sound_entry env e"
  shows "\<not> is_ok (snd (commit_incoming env m x d))
    \<and> artifact_cache (fst (commit_incoming env m x d)) = artifact_cache d
    \<and> artifact_incoming (fst (commit_incoming env m x d)) (m, x) = None
    \<and> (\<forall>s y. build_manifest env s = Inr y \<and> am_digest y = x \<longrightarrow>
         \<not> is_ok (snd (import_source env s d)) \<and> artifact_cache (fst (import_source env s d)) = artifact_cache d)"
  using corrupt_entry_never_heals_parts [OF assms] by blast

theorem corrupt_entry_never_heals_witness:
  "\<not> is_ok (snd (commit_incoming data_files ''m'' ''d1''
     (data_destination\<lparr>artifact_cache := [(''d1'', \<lparr>entry_manifest = No_Manifest, entry_payload = None\<rparr>)],
        artifact_incoming := (\<lambda>_. Some \<lparr>entry_manifest = Stored data_manifest, entry_payload = Some data_tree\<rparr>)\<rparr>)))"
  by (rule conjunct1 [OF corrupt_entry_never_heals [where e = "\<lparr>entry_manifest = No_Manifest, entry_payload = None\<rparr>"]])
    (simp_all add: dict_get_def sound_entry_def entry_matches_def)

text \<open>The receiver never compares the digest it is told with the manifest: any entry that matches its own listing is
  published under the name of the request.\<close>

lemma commit_ignores_the_label:
  assumes "sound_entry env e" "dict_get (artifact_cache d) x = None" "artifact_incoming d (m, x) = Some e"
  shows "is_ok (snd (commit_incoming env m x d))" "dict_get (artifact_cache (fst (commit_incoming env m x d))) x = Some e"
proof -
  obtain v where "validate_cache env True (dict_put x e (artifact_cache d)) x = Inr v"
    using sound_validates [OF assms(1), of "dict_put x e (artifact_cache d)" x True] by auto
  then show "is_ok (snd (commit_incoming env m x d))" "dict_get (artifact_cache (fst (commit_incoming env m x d))) x = Some e"
    using assms by (simp_all add: commit_incoming_def Let_def)
qed

end
