(* ===== verification/Dendro.thy ===== *)
theory Dendro
  imports Runtime_Accounting "HOL-Library.Countable"
begin

text \<open>
  \<open>magellan/runtime/dendro.py\<close>: the discovery of complete, stable checkpoints among the files a Dendro
  solver leaves, the completion marker synthesised for a clean exit, and the progress read from the log.
  Glob and regular expression matching, number parsing, JSON text, UTF-8 decoding and digests are the
  functions of the environment; a glob is taken to list the files in the order of the directory, and a
  native prefix to hold no glob metacharacter.  A native file name is parsed here, with ASCII digits.
\<close>

section \<open>JSON values and files\<close>

text \<open>A number with a fraction or an exponent is a rational: unlike reals, JSON values have texts.\<close>

datatype json =
    JNull
  | JBool bool
  | JInt int
  | JNumber rat
  | JStr string
  | JList "json list"
  | JDict "(string \<times> json) list"

instance json :: countable
  by countable_datatype

text \<open>\<open>isinstance(x, int)\<close> with its value (a bool is an int), \<open>x == i\<close>, the truth of a value, \<open>d.get(k)\<close>.\<close>

fun as_int :: "json \<Rightarrow> int option" where
  "as_int (JInt i) = Some i"
| "as_int (JBool b) = Some (if b then 1 else 0)"
| "as_int _ = None"

fun equals_int :: "json \<Rightarrow> int \<Rightarrow> bool" where
  "equals_int (JInt i) j = (i = j)"
| "equals_int (JBool b) j = ((if b then 1 else 0) = j)"
| "equals_int (JNumber r) j = (r = of_int j)"
| "equals_int _ j = False"

fun truthy :: "json \<Rightarrow> bool" where
  "truthy JNull = False"
| "truthy (JBool b) = b"
| "truthy (JInt i) = (i \<noteq> 0)"
| "truthy (JNumber r) = (r \<noteq> 0)"
| "truthy (JStr s) = (s \<noteq> [])"
| "truthy (JList xs) = (xs \<noteq> [])"
| "truthy (JDict d) = (d \<noteq> [])"

definition item_get :: "(string \<times> json) list \<Rightarrow> string \<Rightarrow> json" where
  "item_get d k = (case dict_get d k of None \<Rightarrow> JNull | Some j \<Rightarrow> j)"

record stored_file =
  file_bytes :: string
  file_mtime :: int

definition file_length :: "stored_file \<Rightarrow> int" where
  "file_length f = int (length (file_bytes f))"

text \<open>A directory: the relative paths of its files, in some order.  Times are in nanoseconds.\<close>

type_synonym directory = "stored_file dict"

record regex_match =
  named_group :: "string \<Rightarrow> string option"
  first_group :: "string option option"

record dendro_environment =
  glob_matches :: "string \<Rightarrow> string \<Rightarrow> bool"
  regex_search :: "string \<Rightarrow> string \<Rightarrow> regex_match option"
  regex_finditer :: "string \<Rightarrow> string \<Rightarrow> regex_match list"
  parse_integer :: "string \<Rightarrow> int result"
  parse_float :: "string \<Rightarrow> real result"
  split_lines :: "string \<Rightarrow> string list"
  decode_utf8 :: "string \<Rightarrow> string"
  decode_json :: "string \<Rightarrow> json option"
  encode_json :: "json \<Rightarrow> string"
  sha256_of :: "string \<Rightarrow> string"
  now_ns :: int
  now_text :: string

definition group_text :: "string \<Rightarrow> regex_match \<Rightarrow> string option" where
  "group_text name m =
     (case named_group m name of
        Some raw \<Rightarrow> Some raw
      | None \<Rightarrow> (case first_group m of None \<Rightarrow> None | Some g \<Rightarrow> g))"

definition extract_number :: "dendro_environment \<Rightarrow> string option \<Rightarrow> string \<Rightarrow> string \<Rightarrow> int option result" where
  "extract_number env pattern v name =
     (case pattern of
        None \<Rightarrow> Inr None
      | Some p \<Rightarrow> (case regex_search env p v of
          None \<Rightarrow> Inr None
        | Some m \<Rightarrow> (case group_text name m of
            None \<Rightarrow> Inr None
          | Some raw \<Rightarrow> bind_result (parse_integer env raw) (\<lambda>i. Inr (Some i)))))"

definition unstable :: "dendro_environment \<Rightarrow> discovery_spec \<Rightarrow> stored_file \<Rightarrow> bool" where
  "unstable env spec f \<longleftrightarrow> of_int (now_ns env - file_mtime f) / 1000000000 < stability_seconds spec"

section \<open>Publishing a manifest\<close>

text \<open>A checkpoint file: its relative path and the rank that wrote it.\<close>

type_synonym checkpoint_item = "string \<times> int option"

definition length_at :: "directory \<Rightarrow> string \<Rightarrow> int" where
  "length_at dir k = (case dict_get dir k of None \<Rightarrow> 0 | Some f \<Rightarrow> file_length f)"

definition bytes_at :: "directory \<Rightarrow> string \<Rightarrow> string" where
  "bytes_at dir k = (case dict_get dir k of None \<Rightarrow> [] | Some f \<Rightarrow> file_bytes f)"

definition entry_of :: "dendro_environment \<Rightarrow> discovery_spec \<Rightarrow> directory \<Rightarrow> checkpoint_item \<Rightarrow> json" where
  "entry_of env spec dir kr =
     JDict ([(''path'', JStr (fst kr)), (''size_bytes'', JInt (length_at dir (fst kr)))]
       @ (case snd kr of None \<Rightarrow> [] | Some r \<Rightarrow> [(''rank'', JInt r)])
       @ (if include_sha256 spec then [(''sha256'', JStr (sha256_of env (bytes_at dir (fst kr))))] else []))"

definition manifest_json ::
  "dendro_environment \<Rightarrow> discovery_spec \<Rightarrow> int \<Rightarrow> int option \<Rightarrow> directory \<Rightarrow> checkpoint_item list \<Rightarrow> json" where
  "manifest_json env spec step gen dir items =
     JDict ([(''format_version'', JInt 1), (''workload_type'', JStr ''dendro-gr''), (''checkpoint_step'', JInt step),
       (''expected_rank_count'', case expected_rank_count spec of None \<Rightarrow> JNull | Some n \<Rightarrow> JInt n),
       (''created_at_utc'', JStr (now_text env)), (''files'', JList (map (entry_of env spec dir) items))]
       @ (case gen of None \<Rightarrow> [] | Some g \<Rightarrow> [(''checkpoint_generation'', JInt g)]))"

definition write_manifest ::
  "dendro_environment \<Rightarrow> discovery_spec \<Rightarrow> string \<Rightarrow> int \<Rightarrow> int option \<Rightarrow> checkpoint_item list \<Rightarrow> directory \<Rightarrow> directory" where
  "write_manifest env spec manifest step gen items dir =
     dict_put manifest \<lparr>file_bytes = encode_json env (manifest_json env spec step gen dir items),
                        file_mtime = now_ns env\<rparr> dir"

text \<open>The items \<open>for item in existing.get("files", [])\<close> runs over.\<close>

fun iterated :: "json \<Rightarrow> json list result" where
  "iterated (JList xs) = Inr xs"
| "iterated (JStr s) = Inr (map (\<lambda>c. JStr [c]) s)"
| "iterated (JDict d) = Inr (map (\<lambda>kv. JStr (fst kv)) d)"
| "iterated _ = Inl (OtherError ''TypeError'')"

fun hashable :: "json \<Rightarrow> bool" where
  "hashable (JList _) = False"
| "hashable (JDict _) = False"
| "hashable _ = True"

fun listed_sizes :: "json list \<Rightarrow> (json \<times> json) list \<Rightarrow> (json \<times> json) list result" where
  "listed_sizes [] acc = Inr acc"
| "listed_sizes (JDict d # xs) acc =
     (if hashable (item_get d ''path'')
      then listed_sizes xs (AList.update (item_get d ''path'') (item_get d ''size_bytes'') acc)
      else Inl (OtherError ''TypeError''))"
| "listed_sizes (_ # xs) acc = listed_sizes xs acc"

definition same_sizes :: "(json \<times> json) list \<Rightarrow> (string \<times> int) list \<Rightarrow> bool" where
  "same_sizes existing wanted \<longleftrightarrow>
     length existing = length wanted
   \<and> list_all (\<lambda>(k, n). case map_of existing (JStr k) of None \<Rightarrow> False | Some v \<Rightarrow> equals_int v n) wanted"

definition has_digest :: "json \<Rightarrow> bool" where
  "has_digest j = (case j of JDict d \<Rightarrow> truthy (item_get d ''sha256'') | _ \<Rightarrow> False)"

text \<open>Whether the manifest on disk already describes the selected files.\<close>

definition manifest_current ::
  "dendro_environment \<Rightarrow> discovery_spec \<Rightarrow> int \<Rightarrow> int option \<Rightarrow> (string \<times> int) list \<Rightarrow> string \<Rightarrow> bool result" where
  "manifest_current env spec step gen wanted text =
     (case decode_json env text of
        None \<Rightarrow> Inr False
      | Some (JDict m) \<Rightarrow>
          bind_result (iterated (case dict_get m ''files'' of None \<Rightarrow> JList [] | Some j \<Rightarrow> j)) (\<lambda>items.
          bind_result (listed_sizes items []) (\<lambda>sizes.
            Inr (equals_int (item_get m ''checkpoint_step'') step
               \<and> (case gen of None \<Rightarrow> True | Some g \<Rightarrow> equals_int (item_get m ''checkpoint_generation'') g)
               \<and> same_sizes sizes wanted
               \<and> (\<not> include_sha256 spec \<or> list_all has_digest items))))
      | Some _ \<Rightarrow> Inl (OtherError ''AttributeError''))"

definition publish_manifest ::
  "dendro_environment \<Rightarrow> discovery_spec \<Rightarrow> string \<Rightarrow> int \<Rightarrow> int option \<Rightarrow> checkpoint_item list \<Rightarrow> directory
     \<Rightarrow> directory \<times> bool result" where
  "publish_manifest env spec manifest step gen items dir =
     (let wanted = fold (\<lambda>(k, _). dict_put k (length_at dir k)) items [];
          fresh = (write_manifest env spec manifest step gen items dir, Inr True)
      in case dict_get dir manifest of
           None \<Rightarrow> fresh
         | Some f \<Rightarrow> (case manifest_current env spec step gen wanted (file_bytes f) of
             Inl e \<Rightarrow> (dir, Inl e)
           | Inr True \<Rightarrow> (dir, Inr True)
           | Inr False \<Rightarrow> fresh))"

section \<open>Generic discovery\<close>

definition candidate_of ::
  "dendro_environment \<Rightarrow> discovery_spec \<Rightarrow> string \<Rightarrow> string \<times> stored_file \<Rightarrow> (int \<times> int option) option result" where
  "candidate_of env spec manifest kf =
     (if fst kf = manifest then Inr None
      else bind_result (extract_number env (step_regex spec) (fst kf) ''step'') (\<lambda>step.
        if step_regex spec \<noteq> None \<and> step = None then Inr None
        else bind_result (extract_number env (rank_regex spec) (fst kf) ''rank'') (\<lambda>rank.
          if rank_regex spec \<noteq> None \<and> rank = None then Inr None
          else if unstable env spec (snd kf) then Inr None
          else Inr (Some (case step of None \<Rightarrow> 0 | Some s \<Rightarrow> s, rank)))))"

fun scan_files ::
  "dendro_environment \<Rightarrow> discovery_spec \<Rightarrow> string \<Rightarrow> (string \<times> stored_file) list \<Rightarrow> (int \<times> int option) dict
     \<Rightarrow> (int \<times> int option) dict result" where
  "scan_files env spec manifest [] found = Inr found"
| "scan_files env spec manifest (kf # kfs) found =
     bind_result (candidate_of env spec manifest kf) (\<lambda>c.
       scan_files env spec manifest kfs (case c of None \<Rightarrow> found | Some sr \<Rightarrow> dict_put (fst kf) sr found))"

definition globbed :: "dendro_environment \<Rightarrow> discovery_spec \<Rightarrow> directory \<Rightarrow> (string \<times> stored_file) list" where
  "globbed env spec dir = concat (map (\<lambda>g. filter (\<lambda>kf. glob_matches env g (fst kf)) dir) (file_globs spec))"

definition group_at :: "(int \<times> int option) dict \<Rightarrow> int \<Rightarrow> checkpoint_item list" where
  "group_at found s = List.map_filter (\<lambda>(k, s', r). if s' = s then Some (k, r) else None) found"

definition complete_group :: "discovery_spec \<Rightarrow> checkpoint_item list \<Rightarrow> bool" where
  "complete_group spec items \<longleftrightarrow>
     (case expected_file_count spec of None \<Rightarrow> True | Some n \<Rightarrow> int (length items) = n)
   \<and> (case expected_rank_count spec of None \<Rightarrow> True
      | Some n \<Rightarrow> int (length (remdups (List.map_filter snd items))) = n)"

definition select_step :: "discovery_spec \<Rightarrow> (int \<times> int option) dict \<Rightarrow> int option" where
  "select_step spec found =
     find (\<lambda>s. complete_group spec (group_at found s)) (rev (sort (remdups (map (\<lambda>kv. fst (snd kv)) found))))"

section \<open>Native BSSN discovery\<close>

text \<open>The text between a prefix and a suffix, when the name has both.\<close>

definition text_between :: "string \<Rightarrow> string \<Rightarrow> string \<Rightarrow> string option" where
  "text_between pre suf name =
     (let n = length name - length pre - length suf
      in if length pre + length suf \<le> length name \<and> take (length pre) name = pre
            \<and> drop (length name - length suf) name = suf
         then Some (take n (drop (length pre) name)) else None)"

definition numbered :: "string \<Rightarrow> string \<Rightarrow> string \<Rightarrow> int option" where
  "numbered pre suf name =
     (case text_between pre suf name of
        None \<Rightarrow> None
      | Some digits \<Rightarrow> if digits \<noteq> [] \<and> list_all is_digit digits then Some (parse_int digits) else None)"

definition native_step :: "dendro_environment \<Rightarrow> discovery_spec \<Rightarrow> stored_file \<Rightarrow> int option" where
  "native_step env spec f =
     (case decode_json env (file_bytes f) of
        Some (JDict m) \<Rightarrow> as_int (item_get m (native_bssn_step_key spec))
      | _ \<Rightarrow> None)"

definition native_ranks :: "string \<Rightarrow> discovery_spec \<Rightarrow> int \<Rightarrow> directory \<Rightarrow> int list" where
  "native_ranks pre spec g dir =
     (case expected_rank_count spec of
        None \<Rightarrow> sort (List.map_filter (\<lambda>kf. numbered (pre @ ''_'' @ int_str g @ ''_'') ''.var'' (fst kf)) dir)
      | Some n \<Rightarrow> map int [0..<nat n])"

definition native_items :: "string \<Rightarrow> int \<Rightarrow> int list \<Rightarrow> string \<Rightarrow> checkpoint_item list" where
  "native_items pre g ranks step_name =
     (step_name, None)
     # concat (map (\<lambda>r. [(pre @ ''_'' @ int_str g @ ''_'' @ int_str r @ ''.var'', Some r),
                          (pre @ ''_'' @ int_str g @ ''_octree_'' @ int_str r @ ''.oct'', Some r)]) ranks)
     @ [(pre @ ''_aeh_solver_checkpt-cp'' @ int_str g @ ''.json'', None)]"

definition present_and_stable :: "dendro_environment \<Rightarrow> discovery_spec \<Rightarrow> directory \<Rightarrow> checkpoint_item \<Rightarrow> bool" where
  "present_and_stable env spec dir kr =
     (case dict_get dir (fst kr) of
        None \<Rightarrow> False
      | Some f \<Rightarrow> 0 < file_length f \<and> \<not> unstable env spec f)"

type_synonym native_candidate = "int \<times> int \<times> checkpoint_item list"

definition native_candidate_of ::
  "dendro_environment \<Rightarrow> discovery_spec \<Rightarrow> string \<Rightarrow> directory \<Rightarrow> string \<times> stored_file \<Rightarrow> native_candidate option" where
  "native_candidate_of env spec pre dir kf =
     (case numbered (pre @ ''_'') ''_step.cp'' (fst kf) of
        None \<Rightarrow> None
      | Some g \<Rightarrow> (case native_step env spec (snd kf) of
          None \<Rightarrow> None
        | Some step \<Rightarrow>
            let ranks = native_ranks pre spec g dir; items = native_items pre g ranks (fst kf)
            in if ranks \<noteq> [] \<and> list_all (present_and_stable env spec dir) items
                  \<and> (case expected_file_count spec of None \<Rightarrow> True | Some n \<Rightarrow> int (length items) = n)
               then Some (step, g, items) else None))"

text \<open>\<open>max\<close> by step and generation keeps the first of equal candidates.\<close>

fun latest :: "native_candidate list \<Rightarrow> native_candidate option" where
  "latest [] = None"
| "latest (c # cs) =
     (case latest cs of
        None \<Rightarrow> Some c
      | Some c' \<Rightarrow> if fst c < fst c' \<or> (fst c = fst c' \<and> fst (snd c) < fst (snd c')) then Some c' else Some c)"

definition discover_native ::
  "dendro_environment \<Rightarrow> discovery_spec \<Rightarrow> string \<Rightarrow> string \<Rightarrow> directory \<Rightarrow> directory \<times> bool result" where
  "discover_native env spec pre manifest dir =
     (case latest (List.map_filter (native_candidate_of env spec pre dir) dir) of
        None \<Rightarrow> (dir, Inr False)
      | Some (step, g, items) \<Rightarrow> publish_manifest env spec manifest step (Some g) (sort_key fst items) dir)"

definition discover ::
  "dendro_environment \<Rightarrow> discovery_spec \<Rightarrow> string \<Rightarrow> directory \<Rightarrow> directory \<times> bool result" where
  "discover env spec manifest dir =
     (case native_bssn_prefix spec of
        Some pre \<Rightarrow> discover_native env spec pre manifest dir
      | None \<Rightarrow> (case scan_files env spec manifest (globbed env spec dir) [] of
          Inl e \<Rightarrow> (dir, Inl e)
        | Inr found \<Rightarrow> (case select_step spec found of
            None \<Rightarrow> (dir, Inr False)
          | Some s \<Rightarrow> publish_manifest env spec manifest s None (sort_key fst (group_at found s)) dir)))"

section \<open>Completion and progress from the log\<close>

definition read_log_tail :: "dendro_environment \<Rightarrow> string \<Rightarrow> nat \<Rightarrow> string" where
  "read_log_tail env bytes maximum = decode_utf8 env (drop (length bytes - maximum) bytes)"

definition clean_exit :: "dendro_environment \<Rightarrow> log_completion_spec \<Rightarrow> (string \<Rightarrow> string option) \<Rightarrow> int option \<Rightarrow> bool" where
  "clean_exit env spec logs exit_code \<longleftrightarrow>
     accept_zero_exit_code spec \<and> exit_code = Some 0
   \<and> (case success_regex spec of
        None \<Rightarrow> True
      | Some p \<Rightarrow> (case logs (completion_log spec) of
          None \<Rightarrow> False
        | Some bytes \<Rightarrow> regex_search env p (read_log_tail env bytes (completion_log_bytes spec)) \<noteq> None))"

definition synthesize_completion ::
  "dendro_environment \<Rightarrow> process_spec \<Rightarrow> (string \<Rightarrow> string option) \<Rightarrow> datetime \<Rightarrow> task_id \<Rightarrow> int option \<Rightarrow> task_files
     \<Rightarrow> task_files \<times> bool" where
  "synthesize_completion env p logs now t exit_code f =
     (case (if adapter p = Dendro then Option.bind (options p) log_completion else None) of
        None \<Rightarrow> (f, False)
      | Some spec \<Rightarrow>
          if completion_relative_path p = None \<or> marker_file f \<noteq> None \<or> \<not> clean_exit env spec logs exit_code then (f, False)
          else (f\<lparr>marker_file := Some (MarkerRead \<lparr>marker_task_id = t, marker_success = True, marker_completed_at = now\<rparr>)\<rparr>,
                True))"

text \<open>The answer is what the progress file then holds, or \<open>None\<close> when it is left as it was; \<open>log_time\<close> is the
  modification time of the log.\<close>

definition refresh_progress ::
  "dendro_environment \<Rightarrow> process_spec \<Rightarrow> (string \<Rightarrow> string option) \<Rightarrow> datetime \<Rightarrow> task_id \<Rightarrow> progress_snapshot option result" where
  "refresh_progress env p logs log_time t =
     (case (if adapter p = Dendro then Option.bind (options p) log_progress else None) of
        None \<Rightarrow> Inr None
      | Some spec \<Rightarrow>
          if progress_relative_path p = None then Inr None
          else case logs (progress_log spec) of
            None \<Rightarrow> Inr None
          | Some bytes \<Rightarrow>
              let ms = concat (map (regex_finditer env (progress_regex spec))
                         (split_lines env (read_log_tail env bytes (progress_log_bytes spec))))
              in if ms = [] then Inr None
                 else case group_text ''step'' (last ms) of
                   None \<Rightarrow> Inr None
                 | Some raw \<Rightarrow> bind_result (parse_float env raw) (\<lambda>step.
                     Inr (Some \<lparr>format_version = 1, snapshot_task_id = t, completed_units = step,
                                total_units = progress_total_steps spec, snapshot_updated_at = log_time\<rparr>)))"

end
