(* ===== verification/Checkpoint.thy ===== *)
theory Checkpoint
  imports Dendro Artifact_Cache
begin

text \<open>
  \<open>magellan/runtime/checkpoint.py\<close>: the validation of a task's checkpoint before it is migrated, bid for or
  restarted from.  The manager remembers which file contents it has already compared with a digest, by path,
  modification time, size and expected digest.  The checkpoint directory is \<open>None\<close> while it does not exist.
\<close>

record checkpoint_summary =
  summary_task :: task_id
  summary_bytes :: int
  summary_files :: int
  summary_manifest :: "string option"
  summary_step :: "int option"

definition directory_bytes :: "directory \<Rightarrow> int" where
  "directory_bytes dir = sum_list (map (\<lambda>kf. file_length (snd kf)) dir)"

type_synonym digest_key = "string \<times> int \<times> int \<times> string"
type_synonym digest_cache = "(digest_key \<times> bool) list"

text \<open>\<open>str()\<close> of the expected digest: \<open>rendered\<close> for what is no string.\<close>

definition digest_text :: "(json \<Rightarrow> string) \<Rightarrow> json \<Rightarrow> string" where
  "digest_text rendered j = (case j of JStr s \<Rightarrow> s | _ \<Rightarrow> rendered j)"

definition digest_matches :: "dendro_environment \<Rightarrow> json \<Rightarrow> stored_file \<Rightarrow> bool" where
  "digest_matches env expected f = (expected = JStr (sha256_of env (file_bytes f)))"

definition check_digest ::
  "dendro_environment \<Rightarrow> (json \<Rightarrow> string) \<Rightarrow> string \<Rightarrow> stored_file \<Rightarrow> json \<Rightarrow> digest_cache \<Rightarrow> digest_cache \<times> bool" where
  "check_digest env rendered path f expected c =
     (let key = (path, file_mtime f, file_length f, digest_text rendered expected)
      in case map_of c key of
           Some b \<Rightarrow> (c, b)
         | None \<Rightarrow> ((key, digest_matches env expected f) # c, digest_matches env expected f))"

definition invalid :: "string \<Rightarrow> error" where
  "invalid message = CheckpointValidationError message"

text \<open>What the manifest lists without its digest: the file and the digest it must have.\<close>

definition listed_entry :: "directory \<Rightarrow> json \<Rightarrow> (string \<times> stored_file \<times> json) result" where
  "listed_entry dir j =
     (case j of
        JDict d \<Rightarrow>
          (case item_get d ''path'' of
             JStr raw \<Rightarrow>
               if \<not> safe_relative raw then Inl (invalid (''Unsafe manifest path: '' @ raw))
               else (case dict_get dir (posix (path_parts raw)) of
                   None \<Rightarrow> Inl (invalid (''Manifest file is missing: '' @ raw))
                 | Some f \<Rightarrow>
                     if as_int (item_get d ''size_bytes'') \<noteq> Some (file_length f)
                     then Inl (invalid (''Checkpoint size mismatch for '' @ raw))
                     else Inr (posix (path_parts raw), f, item_get d ''sha256''))
           | _ \<Rightarrow> Inl (invalid ''Manifest file path is invalid''))
      | _ \<Rightarrow> Inl (invalid ''Invalid checkpoint manifest entry''))"

fun check_entries ::
  "dendro_environment \<Rightarrow> (json \<Rightarrow> string) \<Rightarrow> directory \<Rightarrow> json list \<Rightarrow> digest_cache \<Rightarrow> digest_cache \<times> unit result" where
  "check_entries env rendered dir [] c = (c, Inr ())"
| "check_entries env rendered dir (j # js) c =
     (case listed_entry dir j of
        Inl e \<Rightarrow> (c, Inl e)
      | Inr (path, f, expected) \<Rightarrow>
          if expected = JNull then check_entries env rendered dir js c
          else let (c', b) = check_digest env rendered path f expected c
               in if b then check_entries env rendered dir js c'
                  else (c', Inl (invalid (''Checkpoint digest mismatch for '' @ path))))"

text \<open>Manifests are taken to be UTF-8 text; \<open>decode_json\<close> fails only for text that is not JSON.\<close>

definition manifest_files_of :: "dendro_environment \<Rightarrow> string \<Rightarrow> ((string \<times> json) list \<times> json list) result" where
  "manifest_files_of env text =
     (case decode_json env text of
        None \<Rightarrow> Inl (invalid ''Invalid checkpoint manifest'')
      | Some (JDict m) \<Rightarrow>
          (case item_get m ''files'' of
             JList (x # xs) \<Rightarrow> Inr (m, x # xs)
           | _ \<Rightarrow> Inl (invalid ''Checkpoint manifest contains no files''))
      | Some _ \<Rightarrow> Inl (OtherError ''AttributeError''))"

definition checkpoint_step_of :: "(string \<times> json) list \<Rightarrow> int option result" where
  "checkpoint_step_of m =
     (case item_get m ''checkpoint_step'' of
        JNull \<Rightarrow> Inr None
      | j \<Rightarrow> (case as_int j of Some i \<Rightarrow> Inr (Some i) | None \<Rightarrow> Inl (invalid ''checkpoint_step must be an integer'')))"

definition validate_manifest ::
  "dendro_environment \<Rightarrow> (json \<Rightarrow> string) \<Rightarrow> task_id \<Rightarrow> string \<Rightarrow> directory \<Rightarrow> digest_cache \<Rightarrow> digest_cache \<times> checkpoint_summary result" where
  "validate_manifest env rendered t manifest dir c =
     (case dict_get dir manifest of
        None \<Rightarrow> (c, Inl (invalid (''Checkpoint manifest does not exist: '' @ manifest)))
      | Some f \<Rightarrow> (case manifest_files_of env (file_bytes f) of
          Inl e \<Rightarrow> (c, Inl e)
        | Inr (m, js) \<Rightarrow>
            and_then (check_entries env rendered dir js)
            (\<lambda>_. answer (bind_result (checkpoint_step_of m) (\<lambda>step.
               Inr \<lparr>summary_task = t, summary_bytes = directory_bytes dir, summary_files = int (length js),
                    summary_manifest = Some manifest, summary_step = step\<rparr>))) c))"

definition discovery_of :: "process_spec \<Rightarrow> discovery_spec option" where
  "discovery_of p = (if adapter p = Dendro then Option.bind (options p) checkpoint_discovery else None)"

definition checkpoint_name :: "process_spec \<Rightarrow> string option" where
  "checkpoint_name p = (case path_parts (checkpoint_relative_path p) of [] \<Rightarrow> None | ps \<Rightarrow> Some (last ps))"

type_synonym checkpoint_state = "directory \<times> digest_cache"

text \<open>\<open>validate\<close>, over the directory and the remembered digests.\<close>

definition validate_checkpoint ::
  "dendro_environment \<Rightarrow> (json \<Rightarrow> string) \<Rightarrow> registry \<Rightarrow> task_id \<Rightarrow> directory option \<times> digest_cache
     \<Rightarrow> (directory option \<times> digest_cache) \<times> checkpoint_summary result" where
  "validate_checkpoint env rendered reg t s =
     (case get_definition reg t of
        Inl e \<Rightarrow> (s, Inl e)
      | Inr d \<Rightarrow> (case fst s of
          None \<Rightarrow> (s, Inl (invalid ''Checkpoint directory does not exist''))
        | Some dir \<Rightarrow> (case checkpoint_manifest_relative_path (runtime d) of
            None \<Rightarrow>
              (case Option.bind (checkpoint_name (runtime d)) (dict_get dir) of
                 None \<Rightarrow> (s, Inl (invalid ''Checkpoint file does not exist''))
               | Some _ \<Rightarrow> (s, Inr \<lparr>summary_task = t, summary_bytes = directory_bytes dir,
                                    summary_files = int (length dir), summary_manifest = None, summary_step = None\<rparr>))
          | Some raw \<Rightarrow>
              let manifest = posix (path_parts raw);
                  (dir1, found) = (case discovery_of (runtime d) of
                                     None \<Rightarrow> (dir, Inr False)
                                   | Some spec \<Rightarrow> discover env spec manifest dir)
              in case found of
                   Inl e \<Rightarrow> ((Some dir1, snd s), Inl e)
                 | Inr _ \<Rightarrow> (let (c, r) = validate_manifest env rendered t manifest dir1 (snd s)
                             in ((Some dir1, c), r)))))"

end
