(* ===== verification/Checkpoint_Laws.thy ===== *)
theory Checkpoint_Laws
  imports Checkpoint
begin

text \<open>
  The remembered digests do not change an answer as long as no file changes under the same time and size; a
  manifest the discovery has just written lists a complete group and validates; a checkpoint that validates is
  one the Dendro adapter resumes from.
\<close>

section \<open>The reference without remembered digests\<close>

fun verify_entries :: "dendro_environment \<Rightarrow> directory \<Rightarrow> json list \<Rightarrow> unit result" where
  "verify_entries env dir [] = Inr ()"
| "verify_entries env dir (j # js) =
     bind_result (listed_entry dir j) (\<lambda>(path, f, expected).
       if expected = JNull \<or> digest_matches env expected f then verify_entries env dir js
       else Inl (invalid (''Checkpoint digest mismatch for '' @ path)))"

definition reference_validation :: "dendro_environment \<Rightarrow> task_id \<Rightarrow> string \<Rightarrow> directory \<Rightarrow> checkpoint_summary result" where
  "reference_validation env t manifest dir =
     (case dict_get dir manifest of
        None \<Rightarrow> Inl (invalid (''Checkpoint manifest does not exist: '' @ manifest))
      | Some f \<Rightarrow>
          bind_result (manifest_files_of env (file_bytes f)) (\<lambda>(m, js).
          bind_result (verify_entries env dir js) (\<lambda>_.
          bind_result (checkpoint_step_of m) (\<lambda>step.
            Inr \<lparr>summary_task = t, summary_bytes = directory_bytes dir, summary_files = int (length js),
                 summary_manifest = Some manifest, summary_step = step\<rparr>))))"

text \<open>
  A memory is honest for a directory when what it remembers of a file, by path, time and size, and of a digest
  is true: the digest is that of the contents, or is not.  The digests a manifest lists are texts, or absent.
\<close>

definition honest :: "dendro_environment \<Rightarrow> directory \<Rightarrow> digest_cache \<Rightarrow> bool" where
  "honest env dir c \<longleftrightarrow>
     (\<forall>path f s b. dict_get dir path = Some f \<longrightarrow> map_of c (path, file_mtime f, file_length f, s) = Some b
        \<longrightarrow> b = (s = sha256_of env (file_bytes f)))"

definition textual :: "json \<Rightarrow> bool" where
  "textual j \<longleftrightarrow> j = JNull \<or> (\<exists>s. j = JStr s)"

definition textual_digests :: "json list \<Rightarrow> bool" where
  "textual_digests js \<longleftrightarrow> (\<forall>d. JDict d \<in> set js \<longrightarrow> textual (item_get d ''sha256''))"

definition textual_manifest :: "dendro_environment \<Rightarrow> directory \<Rightarrow> string \<Rightarrow> bool" where
  "textual_manifest env dir manifest \<longleftrightarrow>
     (\<forall>f m js. dict_get dir manifest = Some f \<longrightarrow> manifest_files_of env (file_bytes f) = Inr (m, js) \<longrightarrow> textual_digests js)"

lemma listed_entry_file: "listed_entry dir j = Inr (path, f, expected) \<Longrightarrow> dict_get dir path = Some f"
  by (auto simp: listed_entry_def split: json.splits if_splits option.splits)

lemma listed_entry_textual:
  "listed_entry dir j = Inr (path, f, expected) \<Longrightarrow> textual_digests (j # js) \<Longrightarrow> textual expected"
  by (auto simp: listed_entry_def textual_digests_def split: json.splits if_splits option.splits)

lemma check_digest_honest:
  assumes "honest env dir c" "dict_get dir path = Some f" "check_digest env rendered path f (JStr s) c = (c', b)"
  shows "b = digest_matches env (JStr s) f" "honest env dir c'"
proof -
  let ?key = "(path, file_mtime f, file_length f, s)"
  have "b = digest_matches env (JStr s) f \<and> honest env dir c'"
  proof (cases "map_of c ?key")
    case (Some b')
    then show ?thesis using assms by (auto simp: check_digest_def honest_def digest_text_def digest_matches_def)
  next
    case None
    then have "c' = (?key, s = sha256_of env (file_bytes f)) # c" "b = digest_matches env (JStr s) f"
      using assms(3) by (auto simp: check_digest_def digest_text_def digest_matches_def)
    moreover have "honest env dir ((?key, s = sha256_of env (file_bytes f)) # c)"
      using assms(1,2) by (auto simp: honest_def split: if_splits)
    ultimately show ?thesis by simp
  qed
  then show "b = digest_matches env (JStr s) f" "honest env dir c'" by blast+
qed

lemma check_entries_honest:
  "honest env dir c \<Longrightarrow> textual_digests js \<Longrightarrow> check_entries env rendered dir js c = (c', r) \<Longrightarrow>
    r = verify_entries env dir js \<and> honest env dir c'"
proof (induction js arbitrary: c)
  case Nil
  then show ?case by simp
next
  case (Cons j js)
  have rest: "textual_digests js" using Cons.prems(2) by (simp add: textual_digests_def)
  show ?case
  proof (cases "listed_entry dir j")
    case (Inl e)
    then show ?thesis using Cons.prems by simp
  next
    case (Inr x)
    obtain path f expected where x: "listed_entry dir j = Inr (path, f, expected)" using Inr by (cases x) auto
    show ?thesis
    proof (cases "expected = JNull")
      case True
      then show ?thesis using Cons rest x by simp
    next
      case False
      then obtain s where s: "expected = JStr s" using listed_entry_textual [OF x Cons.prems(2)] by (auto simp: textual_def)
      obtain c1 b where d: "check_digest env rendered path f (JStr s) c = (c1, b)"
        by (cases "check_digest env rendered path f (JStr s) c")
      note h = check_digest_honest [OF Cons.prems(1) listed_entry_file [OF x] d]
      show ?thesis using Cons.prems(3) Cons.IH [OF h(2) rest] h x d s by (auto split: if_splits)
    qed
  qed
qed

lemma validate_manifest_honest:
  assumes "textual_manifest env dir manifest" "honest env dir c"
    and "validate_manifest env rendered t manifest dir c = (c', r)"
  shows "r = reference_validation env t manifest dir" "honest env dir c'"
proof -
  have "r = reference_validation env t manifest dir \<and> honest env dir c'"
  proof (cases "dict_get dir manifest")
    case None
    then show ?thesis using assms by (simp add: validate_manifest_def reference_validation_def)
  next
    case (Some f)
    show ?thesis
    proof (cases "manifest_files_of env (file_bytes f)")
      case (Inl e)
      then show ?thesis using assms Some by (simp add: validate_manifest_def reference_validation_def)
    next
      case (Inr mj)
      obtain c1 r1 where ce: "check_entries env rendered dir (snd mj) c = (c1, r1)"
        by (cases "check_entries env rendered dir (snd mj) c")
      have "textual_digests (snd mj)" using assms(1) Some Inr unfolding textual_manifest_def by (metis prod.collapse)
      note h = check_entries_honest [OF assms(2) this ce]
      show ?thesis using assms(3) Some Inr h ce
        by (cases mj) (auto simp: validate_manifest_def reference_validation_def and_then_def answer_def split: sum.splits)
    qed
  qed
  then show "r = reference_validation env t manifest dir" "honest env dir c'" by blast+
qed

section \<open>What a validated manifest says\<close>

definition intact :: "dendro_environment \<Rightarrow> directory \<Rightarrow> json \<Rightarrow> bool" where
  "intact env dir j \<longleftrightarrow>
     (\<exists>path f expected. listed_entry dir j = Inr (path, f, expected) \<and> (expected = JNull \<or> digest_matches env expected f))"

lemma verify_entries_iff: "verify_entries env dir js = Inr u \<longleftrightarrow> list_all (intact env dir) js"
proof (induction js)
  case (Cons j js)
  then show ?case by (cases "listed_entry dir j") (auto simp: intact_def split: if_splits)
qed simp

lemma listed_entry_Inr:
  assumes "listed_entry dir j = Inr (path, f, expected)"
  obtains d raw where "j = JDict d" "item_get d ''path'' = JStr raw" "safe_relative raw" "path = posix (path_parts raw)"
    "dict_get dir path = Some f" "as_int (item_get d ''size_bytes'') = Some (file_length f)" "item_get d ''sha256'' = expected"
  using assms by (auto simp: listed_entry_def split: json.splits if_splits option.splits)

section \<open>A manifest just written\<close>

definition wf_directory :: "directory \<Rightarrow> bool" where
  "wf_directory dir \<longleftrightarrow> dict_ok dir \<and> (\<forall>k \<in> fst ` set dir. safe_relative k \<and> posix (path_parts k) = k)"

definition codec :: "dendro_environment \<Rightarrow> bool" where
  "codec env \<longleftrightarrow> (\<forall>j. decode_json env (encode_json env j) = Some j)"

lemma wf_directoryD:
  assumes "wf_directory dir" "dict_get dir k = Some f"
  shows "safe_relative k" "posix (path_parts k) = k"
proof -
  have "k \<in> fst ` set dir" using dict_get_SomeD [OF assms(2)] by force
  then show "safe_relative k" "posix (path_parts k) = k" using assms(1) by (auto simp: wf_directory_def)
qed

definition listable :: "string \<Rightarrow> directory \<Rightarrow> checkpoint_item list \<Rightarrow> bool" where
  "listable manifest dir items \<longleftrightarrow> items \<noteq> [] \<and> (\<forall>k \<in> fst ` set items. k \<noteq> manifest \<and> dict_get dir k \<noteq> None)"

lemma entry_intact:
  assumes "wf_directory dir" "dict_get dir k = Some f" "k \<noteq> manifest"
  shows "intact env (write_manifest env spec manifest step g items dir) (entry_of env spec dir (k, r))"
  using assms(2,3) wf_directoryD [OF assms(1,2)]
  by (auto simp: intact_def listed_entry_def entry_of_def item_get_def dict_get_Cons write_manifest_def length_at_def
      bytes_at_def digest_matches_def split: option.split)

lemma written_manifest_validates:
  assumes "codec env" "wf_directory dir" "listable manifest dir items"
    and d: "dir' = write_manifest env spec manifest step g items dir"
  shows "reference_validation env t manifest dir' =
    Inr \<lparr>summary_task = t, summary_bytes = directory_bytes dir', summary_files = int (length items),
         summary_manifest = Some manifest, summary_step = Some step\<rparr>"
proof -
  let ?js = "map (entry_of env spec dir) items"
  obtain m where m: "manifest_json env spec step g dir items = JDict m" "item_get m ''files'' = JList ?js"
    "item_get m ''checkpoint_step'' = JInt step"
    by (simp add: manifest_json_def item_get_def dict_get_Cons)
  have stored: "dict_get dir' manifest = Some \<lparr>file_bytes = encode_json env (JDict m), file_mtime = now_ns env\<rparr>"
    by (simp add: d write_manifest_def m(1))
  have "?js \<noteq> []" using assms(3) by (simp add: listable_def)
  then have "manifest_files_of env (encode_json env (JDict m)) = Inr (m, ?js)"
    using assms(1) m(2) by (cases ?js) (simp_all add: manifest_files_of_def codec_def)
  moreover have "list_all (intact env dir') ?js"
  proof (unfold list_all_iff, rule ballI)
    fix j assume "j \<in> set ?js"
    then obtain k r where kr: "(k, r) \<in> set items" "j = entry_of env spec dir (k, r)" by auto
    then obtain f where "dict_get dir k = Some f" "k \<noteq> manifest" using assms(3) by (force simp: listable_def)
    then show "intact env dir' j" using entry_intact [OF assms(2)] kr(2) d by blast
  qed
  then have "verify_entries env dir' ?js = Inr ()" by (simp only: verify_entries_iff)
  ultimately show ?thesis using stored m(3)
    by (simp add: reference_validation_def checkpoint_step_of_def)
qed

text \<open>The digests of a manifest just written are texts, when it lists any.\<close>

lemma written_manifest_textual:
  assumes "codec env"
  shows "textual_manifest env (write_manifest env spec manifest step g items dir) manifest"
proof -
  have "textual_digests (map (entry_of env spec dir) items)"
  proof -
    have "textual (item_get d ''sha256'')" if "entry_of env spec dir (k, r) = JDict d" for d k r
      using that by (cases r) (auto simp: textual_def entry_of_def item_get_def dict_get_Cons)
    then show ?thesis by (force simp: textual_digests_def)
  qed
  then show ?thesis using assms
    by (auto simp: textual_manifest_def write_manifest_def manifest_json_def codec_def manifest_files_of_def item_get_def dict_get_Cons
        split: json.splits list.splits)
qed

section \<open>What the discovery writes\<close>

lemma publish_manifest_writes:
  assumes "publish_manifest env spec manifest step g items dir = (dir', r)" "dir' \<noteq> dir"
  shows "dir' = write_manifest env spec manifest step g items dir"
  using assms by (auto simp: publish_manifest_def Let_def split: option.splits sum.splits bool.splits)

definition sound_found :: "string \<Rightarrow> directory \<Rightarrow> (int \<times> int option) dict \<Rightarrow> bool" where
  "sound_found manifest dir found \<longleftrightarrow> (\<forall>k \<in> fst ` set found. k \<noteq> manifest \<and> dict_get dir k \<noteq> None)"

lemma candidate_of_manifest: "candidate_of env spec manifest (k, f) = Inr (Some c) \<Longrightarrow> k \<noteq> manifest"
  by (auto simp: candidate_of_def)

lemma scan_files_sound:
  "scan_files env spec manifest kfs found = Inr found' \<Longrightarrow> sound_found manifest dir found \<Longrightarrow>
     \<forall>kf \<in> set kfs. dict_get dir (fst kf) \<noteq> None \<Longrightarrow> sound_found manifest dir found'"
proof (induction kfs arbitrary: found)
  case (Cons kf kfs)
  obtain c where c: "candidate_of env spec manifest kf = Inr c"
    and rest: "scan_files env spec manifest kfs (case c of None \<Rightarrow> found | Some sr \<Rightarrow> dict_put (fst kf) sr found) = Inr found'"
    using Cons.prems(1) by (auto simp: bind_result_Inr_iff)
  have "sound_found manifest dir (case c of None \<Rightarrow> found | Some sr \<Rightarrow> dict_put (fst kf) sr found)"
  proof (cases c)
    case None
    then show ?thesis using Cons.prems(2) by simp
  next
    case (Some sr)
    then have "fst kf \<noteq> manifest" using c candidate_of_manifest [of env spec manifest "fst kf" "snd kf"] by simp
    moreover have "dict_get dir (fst kf) \<noteq> None" using Cons.prems(3) unfolding list.set by blast
    ultimately show ?thesis using Cons.prems(2) unfolding Some sound_found_def
      by (simp only: option.case fst_set_dict_put ball_simps simp_thms)
  qed
  then show ?case using Cons.IH [OF rest] Cons.prems(3) by simp
qed simp

lemma map_filter_set: "set (List.map_filter f xs) = {y. \<exists>x \<in> set xs. f x = Some y}"
  by (force simp: List.map_filter_def)

lemma group_at_listable:
  assumes "sound_found manifest dir found" "s \<in> fst ` snd ` set found"
  shows "listable manifest dir (sort_key fst (group_at found s))"
proof -
  obtain k r where kr: "(k, s, r) \<in> set found" using assms(2) by auto
  then have "(k, r) \<in> set (group_at found s)" by (force simp: group_at_def map_filter_set)
  moreover have "fst ` set (group_at found s) \<subseteq> fst ` set found"
    by (force simp: group_at_def map_filter_set split: if_splits)
  moreover have "set (sort_key fst (group_at found s)) = set (group_at found s)" by simp
  ultimately show ?thesis using assms(1) unfolding listable_def sound_found_def
    by (metis empty_iff list.set(1) subsetD)
qed

lemma find_descending:
  fixes ys :: "'a::linorder list"
  assumes "sorted_wrt (\<ge>) ys" "find P ys = Some s"
  shows "s \<in> set ys \<and> P s \<and> (\<forall>y \<in> set ys. P y \<longrightarrow> y \<le> s)"
  using assms by (induction ys) (auto split: if_splits)

lemma select_step_newest:
  assumes "select_step spec found = Some s"
  shows "s \<in> fst ` snd ` set found" "complete_group spec (group_at found s)"
    "\<And>s'. s' \<in> fst ` snd ` set found \<Longrightarrow> complete_group spec (group_at found s') \<Longrightarrow> s' \<le> s"
proof -
  define ys where "ys = rev (sort (remdups (map (\<lambda>kv. fst (snd kv)) found)))"
  have steps: "set ys = fst ` snd ` set found" by (auto simp: ys_def image_image)
  have "sorted_wrt (\<ge>) ys" by (simp add: ys_def sorted_wrt_rev)
  from find_descending [OF this, of "\<lambda>s. complete_group spec (group_at found s)" s]
  have "s \<in> set ys \<and> complete_group spec (group_at found s)
      \<and> (\<forall>y \<in> set ys. complete_group spec (group_at found y) \<longrightarrow> y \<le> s)"
    using assms by (simp add: select_step_def ys_def)
  then show "s \<in> fst ` snd ` set found" "complete_group spec (group_at found s)"
    "\<And>s'. s' \<in> fst ` snd ` set found \<Longrightarrow> complete_group spec (group_at found s') \<Longrightarrow> s' \<le> s"
    unfolding steps by blast+
qed

text \<open>Native candidates.\<close>

lemma latest_greatest:
  "latest cs = Some c \<Longrightarrow> c \<in> set cs \<and> (\<forall>c' \<in> set cs. fst c' \<le> fst c)"
proof (induction cs arbitrary: c)
  case (Cons x xs)
  show ?case
  proof (cases "latest xs")
    case None
    then have "xs = []" by (cases xs) (auto split: option.splits if_splits)
    then show ?thesis using Cons.prems by simp
  next
    case (Some y)
    note y = Cons.IH [OF Some]
    show ?thesis
    proof (cases "fst x < fst y \<or> (fst x = fst y \<and> fst (snd x) < fst (snd y))")
      case True
      then have "c = y" using Cons.prems Some by simp
      then show ?thesis using True y by auto
    next
      case False
      then have "c = x" "fst y \<le> fst x" using Cons.prems Some by auto
      then show ?thesis using y by (auto intro: order_trans)
    qed
  qed
qed simp

lemma numbered_prefix: "numbered pre suf name = Some g \<Longrightarrow> take (length pre) name = pre"
  by (auto simp: numbered_def text_between_def Let_def split: option.splits if_splits)

lemma native_items_prefix:
  assumes "take (Suc (length pre)) step_name = pre @ ''_''" "k \<in> fst ` set (native_items pre g ranks step_name)"
  shows "take (Suc (length pre)) k = pre @ ''_''"
  using assms by (auto simp: native_items_def)

lemma native_candidate_listable:
  assumes "native_candidate_of env spec pre dir kf = Some (step, g, items)" "take (Suc (length pre)) manifest \<noteq> pre @ ''_''"
  shows "listable manifest dir (sort_key fst items)"
proof -
  have items: "items = native_items pre g (native_ranks pre spec g dir) (fst kf)"
    and present: "list_all (present_and_stable env spec dir) items"
    and name: "numbered (pre @ ''_'') ''_step.cp'' (fst kf) = Some g"
    using assms(1) by (auto simp: native_candidate_of_def Let_def split: option.splits if_splits)
  have "take (Suc (length pre)) (fst kf) = pre @ ''_''" using numbered_prefix [OF name] by simp
  then have "\<forall>k \<in> fst ` set items. k \<noteq> manifest" using native_items_prefix assms(2) items by blast
  moreover have "\<forall>k \<in> fst ` set items. dict_get dir k \<noteq> None"
    using present by (auto simp: list_all_iff present_and_stable_def split: option.splits)
  moreover have "items \<noteq> []" by (simp add: items native_items_def)
  moreover have "set (sort_key fst items) = set items" by simp
  ultimately show ?thesis unfolding listable_def by (metis list.set_intros(1) list.set(1) empty_iff list.exhaust)
qed

text \<open>
  The complete checkpoints a discovery can choose from: their steps and files.  A directory and a manifest
  name fit a specification when a native prefix cannot produce the name of the manifest.
\<close>

definition complete_checkpoints ::
  "dendro_environment \<Rightarrow> discovery_spec \<Rightarrow> string \<Rightarrow> directory \<Rightarrow> (int \<times> checkpoint_item list) set" where
  "complete_checkpoints env spec manifest dir =
     (case native_bssn_prefix spec of
        Some pre \<Rightarrow> {(s, items). \<exists>kf \<in> set dir. \<exists>g. native_candidate_of env spec pre dir kf = Some (s, g, items)}
      | None \<Rightarrow> {(s, items). \<exists>found. scan_files env spec manifest (globbed env spec dir) [] = Inr found
           \<and> s \<in> fst ` snd ` set found \<and> items = group_at found s \<and> complete_group spec items})"

definition manifest_apart :: "discovery_spec \<Rightarrow> string \<Rightarrow> bool" where
  "manifest_apart spec manifest \<longleftrightarrow>
     (\<forall>pre. native_bssn_prefix spec = Some pre \<longrightarrow> take (Suc (length pre)) manifest \<noteq> pre @ ''_'')"

lemma discover_writes:
  assumes "discover env spec manifest dir = (dir', r)" "dir' \<noteq> dir" "dict_ok dir" "manifest_apart spec manifest"
  obtains step g items where "dir' = write_manifest env spec manifest step g (sort_key fst items) dir"
    "listable manifest dir (sort_key fst items)" "(step, items) \<in> complete_checkpoints env spec manifest dir"
    "\<forall>(s, _) \<in> complete_checkpoints env spec manifest dir. s \<le> step"
proof (cases "native_bssn_prefix spec")
  case (Some pre)
  let ?cs = "List.map_filter (native_candidate_of env spec pre dir) dir"
  obtain step g items where l: "latest ?cs = Some (step, g, items)"
    and p: "publish_manifest env spec manifest step (Some g) (sort_key fst items) dir = (dir', r)"
    using assms(1,2) Some by (auto simp: discover_def discover_native_def split: option.splits)
  have best: "(step, g, items) \<in> set ?cs" "\<forall>c' \<in> set ?cs. fst c' \<le> step" using latest_greatest [OF l] by simp_all
  then obtain kf where kf: "kf \<in> set dir" "native_candidate_of env spec pre dir kf = Some (step, g, items)"
    by (auto simp: map_filter_set)
  show ?thesis
  proof (rule that)
    show "dir' = write_manifest env spec manifest step (Some g) (sort_key fst items) dir"
      by (rule publish_manifest_writes [OF p assms(2)])
    show "listable manifest dir (sort_key fst items)"
      using native_candidate_listable [OF kf(2)] assms(4) Some by (simp add: manifest_apart_def)
    show "(step, items) \<in> complete_checkpoints env spec manifest dir"
      using kf Some by (auto simp: complete_checkpoints_def)
    show "\<forall>(s, _) \<in> complete_checkpoints env spec manifest dir. s \<le> step"
      using best(2) Some by (fastforce simp: complete_checkpoints_def map_filter_set)
  qed
next
  case None
  obtain found where f: "scan_files env spec manifest (globbed env spec dir) [] = Inr found"
    using assms(1,2) None by (auto simp: discover_def split: sum.splits)
  then obtain step where s: "select_step spec found = Some step"
    and p: "publish_manifest env spec manifest step None (sort_key fst (group_at found step)) dir = (dir', r)"
    using assms(1,2) None by (auto simp: discover_def split: option.splits)
  have "\<forall>kf \<in> set (globbed env spec dir). dict_get dir (fst kf) \<noteq> None"
    using assms(3) by (auto simp: globbed_def dict_get_None_iff)
  then have sound: "sound_found manifest dir found"
    using scan_files_sound [OF f, of dir] by (simp add: sound_found_def)
  note newest = select_step_newest [OF s]
  show ?thesis
  proof (rule that)
    show "dir' = write_manifest env spec manifest step None (sort_key fst (group_at found step)) dir"
      by (rule publish_manifest_writes [OF p assms(2)])
    show "listable manifest dir (sort_key fst (group_at found step))" by (rule group_at_listable [OF sound newest(1)])
    show "(step, group_at found step) \<in> complete_checkpoints env spec manifest dir"
      using newest(1,2) f None by (auto simp: complete_checkpoints_def)
    show "\<forall>(s, _) \<in> complete_checkpoints env spec manifest dir. s \<le> step"
      using newest(3) f None by (auto simp: complete_checkpoints_def)
  qed
qed

end
