(* ===== verification/Checkpoint_Claims.thy ===== *)
theory Checkpoint_Claims
  imports Checkpoint_Laws Runtime_Claims
begin

text \<open>The claims about the discovery and validation of checkpoints and about the exit of a Dendro solver.\<close>

section \<open>Concrete solver files\<close>

definition solver_environment :: dendro_environment where
  "solver_environment = \<lparr>glob_matches = (\<lambda>_ _. True),
     regex_search = (\<lambda>_ v. Some \<lparr>named_group = (\<lambda>_. Some v), first_group = None\<rparr>), regex_finditer = (\<lambda>_ _. []),
     parse_integer = (\<lambda>v. Inr (parse_int v)), parse_float = (\<lambda>v. Inr 0), split_lines = (\<lambda>v. [v]), decode_utf8 = (\<lambda>v. v),
     decode_json = (\<lambda>v. Some (from_nat (length v))), encode_json = (\<lambda>j. replicate (to_nat j) CHR ''x''),
     sha256_of = (\<lambda>v. ''h'' @ v), now_ns = 9000000000, now_text = ''now''\<rparr>"

definition solver_discovery :: discovery_spec where
  "solver_discovery = \<lparr>file_globs = [''*''], step_regex = Some ''step'', rank_regex = None, expected_file_count = Some 1,
     expected_rank_count = None, stability_seconds = 2, include_sha256 = True, native_bssn_prefix = None,
     native_bssn_step_key = ''step''\<rparr>"

definition solver_files :: directory where
  "solver_files = [(''1'', \<lparr>file_bytes = ''ab'', file_mtime = 0\<rparr>), (''2'', \<lparr>file_bytes = ''cd'', file_mtime = 0\<rparr>)]"

lemma solver_codec: "codec solver_environment"
  by (simp add: codec_def solver_environment_def)

lemma solver_wf: "wf_directory solver_files"
  by (simp add: wf_directory_def solver_files_def dict_ok_def safe_relative_def is_absolute_def path_parts_def)

lemma solver_discovers:
  "discover solver_environment solver_discovery ''m'' solver_files
     = (write_manifest solver_environment solver_discovery ''m'' 2 None [(''2'', None)] solver_files, Inr True)"
proof -
  have scan: "scan_files solver_environment solver_discovery ''m'' (globbed solver_environment solver_discovery solver_files) []
      = Inr [(''1'', 1, None), (''2'', 2, None)]"
    by (simp add: globbed_def solver_discovery_def solver_environment_def solver_files_def candidate_of_def
        extract_number_def group_text_def unstable_def parse_int_def digit_value_def dict_put_def)
  have "select_step solver_discovery [(''1'', 1, None), (''2'', 2, None)] = Some 2"
    by (simp add: select_step_def complete_group_def solver_discovery_def group_at_def List.map_filter_def)
  moreover have "native_bssn_prefix solver_discovery = None" "dict_get solver_files ''m'' = None"
    by (simp_all add: solver_discovery_def solver_files_def dict_get_def)
  ultimately show ?thesis
    by (simp add: discover_def scan group_at_def List.map_filter_def publish_manifest_def Let_def)
qed

section \<open>The claims\<close>

lemma discovered_checkpoint_validates_parts:
  assumes "codec env" "wf_directory dir" "manifest_apart spec manifest"
    and "discover env spec manifest dir = (dir', r)" "dir' \<noteq> dir"
    and "honest env dir' c"
  obtains step items where "(step, items) \<in> complete_checkpoints env spec manifest dir"
    "\<forall>(s, _) \<in> complete_checkpoints env spec manifest dir. s \<le> step"
    "snd (validate_manifest env rendered t manifest dir' c) =
       Inr \<lparr>summary_task = t, summary_bytes = directory_bytes dir', summary_files = int (length items),
            summary_manifest = Some manifest, summary_step = Some step\<rparr>"
proof -
  have "dict_ok dir" using assms(2) by (simp add: wf_directory_def)
  then obtain step g items where w: "dir' = write_manifest env spec manifest step g (sort_key fst items) dir"
    "listable manifest dir (sort_key fst items)" and best: "(step, items) \<in> complete_checkpoints env spec manifest dir"
    "\<forall>(s, _) \<in> complete_checkpoints env spec manifest dir. s \<le> step"
    using discover_writes [OF assms(4,5) _ assms(3)] by blast
  obtain c' v where v: "validate_manifest env rendered t manifest dir' c = (c', v)"
    by (cases "validate_manifest env rendered t manifest dir' c")
  have "v = Inr \<lparr>summary_task = t, summary_bytes = directory_bytes dir', summary_files = int (length items),
            summary_manifest = Some manifest, summary_step = Some step\<rparr>"
    using validate_manifest_honest(1) [OF _ assms(6) v] written_manifest_textual [OF assms(1)]
      written_manifest_validates [OF assms(1,2) w(2,1), of t] w(1) by simp
  then show ?thesis using that best v by simp
qed

text \<open>C36. A manifest the discovery writes describes the newest complete and stable checkpoint among the solver's files,
  and the manager that validates it next, with any honest memory, accepts it and reports its step.\<close>

theorem discovered_checkpoint_validates:
  assumes "codec env" "wf_directory dir" "manifest_apart spec manifest"
    and "discover env spec manifest dir = (dir', r)" "dir' \<noteq> dir"
    and "honest env dir' c"
  shows "\<exists>(step, items) \<in> complete_checkpoints env spec manifest dir.
    (\<forall>(s, _) \<in> complete_checkpoints env spec manifest dir. s \<le> step)
    \<and> snd (validate_manifest env rendered t manifest dir' c) =
       Inr \<lparr>summary_task = t, summary_bytes = directory_bytes dir', summary_files = int (length items),
            summary_manifest = Some manifest, summary_step = Some step\<rparr>"
proof -
  obtain step items where "(step, items) \<in> complete_checkpoints env spec manifest dir"
    "\<forall>(s, _) \<in> complete_checkpoints env spec manifest dir. s \<le> step"
    "snd (validate_manifest env rendered t manifest dir' c) =
       Inr \<lparr>summary_task = t, summary_bytes = directory_bytes dir', summary_files = int (length items),
            summary_manifest = Some manifest, summary_step = Some step\<rparr>"
    by (rule discovered_checkpoint_validates_parts [OF assms])
  then show ?thesis by blast
qed

definition solver_written :: directory where
  "solver_written = write_manifest solver_environment solver_discovery ''m'' 2 None [(''2'', None)] solver_files"

text \<open>A memory with the digest of a file the manifest lists, a wrong digest of it, and what it knew of another time.\<close>

definition solver_memory :: digest_cache where
  "solver_memory = [((''2'', 0, 2, ''hcd''), True), ((''2'', 0, 2, ''hxx''), False), ((''2'', 7, 2, ''hxx''), True)]"

lemma solver_written_files:
  "dict_get solver_written p = (if p = ''m'' then dict_get solver_written ''m'' else dict_get solver_files p)"
  by (simp add: solver_written_def write_manifest_def)

lemma solver_memory_honest: "honest solver_environment solver_written solver_memory"
proof -
  have "dict_get solver_written ''2'' = Some \<lparr>file_bytes = ''cd'', file_mtime = 0\<rparr>"
    by (subst solver_written_files) (simp add: solver_files_def dict_get_Cons)
  then show ?thesis by (auto simp: honest_def solver_memory_def solver_environment_def split: if_splits)
qed

theorem discovered_checkpoint_validates_witness:
  "is_ok (snd (validate_manifest solver_environment (\<lambda>_. []) ''t'' ''m''
     (fst (discover solver_environment solver_discovery ''m'' solver_files)) solver_memory))"
proof -
  have apart: "manifest_apart solver_discovery ''m''" by (simp add: manifest_apart_def solver_discovery_def)
  have new: "solver_written \<noteq> solver_files" by (simp add: solver_written_def write_manifest_def solver_files_def dict_put_def)
  note found = solver_discovers [folded solver_written_def]
  from discovered_checkpoint_validates [where t = "''t''" and rendered = "\<lambda>_. []", OF solver_codec solver_wf apart found new solver_memory_honest]
  show ?thesis by (auto simp: found is_ok_Inr)
qed

lemma validation_ignores_memory_parts:
  assumes "textual_manifest env dir manifest" "honest env dir c"
  shows "snd (validate_manifest env rendered t manifest dir c) = reference_validation env t manifest dir"
    "honest env dir (fst (validate_manifest env rendered t manifest dir c))"
    "is_ok (snd (validate_manifest env rendered t manifest dir c)) \<longleftrightarrow>
       (\<exists>f m js. dict_get dir manifest = Some f \<and> manifest_files_of env (file_bytes f) = Inr (m, js)
          \<and> list_all (intact env dir) js \<and> is_ok (checkpoint_step_of m))"
proof -
  obtain c' r where v: "validate_manifest env rendered t manifest dir c = (c', r)"
    by (cases "validate_manifest env rendered t manifest dir c")
  note h = validate_manifest_honest [OF assms v]
  show "snd (validate_manifest env rendered t manifest dir c) = reference_validation env t manifest dir"
    "honest env dir (fst (validate_manifest env rendered t manifest dir c))"
    using h v by simp_all
  show "is_ok (snd (validate_manifest env rendered t manifest dir c)) \<longleftrightarrow>
       (\<exists>f m js. dict_get dir manifest = Some f \<and> manifest_files_of env (file_bytes f) = Inr (m, js)
          \<and> list_all (intact env dir) js \<and> is_ok (checkpoint_step_of m))"
    using h(1) v verify_entries_iff [of env dir _ "()"]
    by (auto simp: reference_validation_def is_ok_Inr bind_result_Inr_iff split: option.splits)
qed

text \<open>C37. Remembering digests does not change what a validation answers: with a memory that is true of the files, and
  a manifest whose digests, where it lists them, are texts, the manager answers exactly as one that reads every
  file, errors included, whatever it shows other values as, and its memory stays true; and it accepts exactly the
  manifests all of whose entries are intact and whose step, if any, is an integer.\<close>

theorem validation_ignores_memory:
  assumes "textual_manifest env dir manifest" "honest env dir c"
  shows "snd (validate_manifest env rendered t manifest dir c) = reference_validation env t manifest dir
    \<and> honest env dir (fst (validate_manifest env rendered t manifest dir c))
    \<and> (is_ok (snd (validate_manifest env rendered t manifest dir c)) \<longleftrightarrow>
         (\<exists>f m js. dict_get dir manifest = Some f \<and> manifest_files_of env (file_bytes f) = Inr (m, js)
            \<and> list_all (intact env dir) js \<and> is_ok (checkpoint_step_of m)))"
  using validation_ignores_memory_parts [OF assms] by blast

theorem validation_ignores_memory_witness:
  "snd (validate_manifest solver_environment (\<lambda>_. []) ''t'' ''m'' solver_written solver_memory)
     = Inr \<lparr>summary_task = ''t'', summary_bytes = directory_bytes solver_written, summary_files = 1,
            summary_manifest = Some ''m'', summary_step = Some 2\<rparr>
   \<and> honest solver_environment solver_written (fst (validate_manifest solver_environment (\<lambda>_. []) ''t'' ''m'' solver_written solver_memory))
   \<and> (\<exists>f m d. dict_get solver_written ''m'' = Some f \<and> manifest_files_of solver_environment (file_bytes f) = Inr (m, [JDict d])
        \<and> item_get d ''sha256'' = JStr ''hcd'')"
proof -
  have textual: "textual_manifest solver_environment solver_written ''m''"
    unfolding solver_written_def by (rule written_manifest_textual [OF solver_codec])
  have listable: "listable ''m'' solver_files [(''2'', None)]" by (simp add: listable_def solver_files_def dict_get_Cons)
  have listed: "\<exists>f m d. dict_get solver_written ''m'' = Some f \<and> manifest_files_of solver_environment (file_bytes f) = Inr (m, [JDict d])
      \<and> item_get d ''sha256'' = JStr ''hcd''"
  proof -
    have "decode_json solver_environment (encode_json solver_environment j) = Some j" for j
      using solver_codec by (simp add: codec_def)
    moreover have "sha256_of solver_environment ''cd'' = ''hcd''" by (simp add: solver_environment_def)
    ultimately show ?thesis
      by (simp add: solver_written_def write_manifest_def manifest_files_of_def manifest_json_def item_get_def dict_get_Cons entry_of_def
          bytes_at_def solver_discovery_def solver_files_def)
  qed
  show ?thesis
    using validation_ignores_memory [OF textual solver_memory_honest, of "\<lambda>_. []" "''t''"] listed
      written_manifest_validates [OF solver_codec solver_wf listable solver_written_def, of "''t''"] by simp
qed

text \<open>
  A process of a Dendro task that has exited with code 0, whose log shows success where a pattern is configured and
  whose outputs can be read, is completed by the next reconciliation although the solver writes no marker; with
  any other exit code it is failed.
\<close>

definition exited :: "local_runtime \<Rightarrow> task_id \<Rightarrow> task_state \<Rightarrow> bool" where
  "exited rt t st \<longleftrightarrow> get_state (tasks rt) t = Inr st \<and> task_state.state_task_id st = t \<and> owner_node_id st = runtime_node rt
     \<and> task_status st \<in> {Running, Paused} \<and> dict_get (handles rt) t \<noteq> None"

definition solver_task :: "task_definition \<Rightarrow> log_completion_spec \<Rightarrow> bool" where
  "solver_task d spec \<longleftrightarrow> adapter (runtime d) = Dendro \<and> Option.bind (options (runtime d)) log_completion = Some spec
     \<and> completion_relative_path (runtime d) \<noteq> None"

lemma clean_dendro_exit_completes:
  assumes "exited rt t st" "exit_of t = Some x" "get_definition (tasks rt) t = Inr d" "solver_task d spec"
    and "marker_file (files_of rt t) = None" "is_ok (collect_outputs sha256 (runtime d) (files_of rt t))"
  shows "snd (reconcile_one sha256 manifest_text exit_of (\<lambda>t x f. fst (synthesize_completion env (runtime d) logs marked t x f))
      now written st rt)
    = Some \<lparr>event_task = t, event_status = (if clean_exit env spec logs (Some x) then Completed else Failed), event_exit = Some x\<rparr>"
proof -
  note e = assms(1) [unfolded exited_def] and s = assms(4) [unfolded solver_task_def]
  let ?f = "fst (synthesize_completion env (runtime d) logs marked t (Some x) (files_of rt t))"
  have live: "\<not> looks_alive exit_of rt st" using e assms(2) by (simp add: looks_alive_def)
  show ?thesis
  proof (cases "clean_exit env spec logs (Some x)")
    case False
    then have "?f = files_of rt t" using s by (simp add: synthesize_completion_def)
    then show ?thesis using e s live assms(2,3,5) False
      by (auto simp: reconcile_one_def Let_def completion_marker_exists_def drop_handle_def)
  next
    case True
    let ?m = "\<lparr>marker_task_id = t, marker_success = True, marker_completed_at = marked\<rparr>"
    have f: "?f = (files_of rt t)\<lparr>marker_file := Some (MarkerRead ?m)\<rparr>"
      using s True assms(5) by (simp add: synthesize_completion_def)
    have "collect_outputs sha256 (runtime d) ?f = collect_outputs sha256 (runtime d) (files_of rt t)"
      by (simp add: f collect_outputs_def)
    then obtain fs where "collect_outputs sha256 (runtime d) ?f = Inr fs" using assms(6) by (auto simp: is_ok_Inr)
    then have "is_ok (snd (snd (finalize sha256 manifest_text t (Some x) now ?f (tasks rt))))"
      using e s assms(3) by (auto simp: finalize_def load_marker_def f Let_def run_edit_def mark_completed_def
          runtime_node_def split: prod.split)
    then show ?thesis using e s live assms(2,3) True f
      by (auto simp: reconcile_one_def Let_def completion_marker_exists_def drop_handle_def is_ok_Inr split: prod.split)
  qed
qed

text \<open>
  A log that counts beyond the configured total leaves a progress record that cannot be loaded again: the
  settlement of the task raises from then on.
\<close>

lemma overshooting_log_blocks_accounting:
  assumes "refresh_progress env p logs log_time t = Inr (Some s)" "u \<in> set_option (total_units s)" "u < completed_units s"
  shows "\<not> is_ok (load_progress (Some (Inr s)) t)"
proof -
  have "\<not> is_ok (validate_progress s)" using assms(2,3) by (auto simp: validate_progress_def)
  then show ?thesis by (cases "validate_progress s") (simp_all add: load_progress_def)
qed

end
