(* ===== verification/Calibration.thy ===== *)
theory Calibration
  imports Config_Models "HOL-Library.Multiset"
begin

text \<open>
  \<open>magellan/policy/calibration.py\<close>: the grid of baseline weights and the choice of the best feasible candidate
  measured over it.  A step size is the exact decimal its text denotes; the JSON files and the command line
  around the two functions are left out.
\<close>

section \<open>The grid\<close>

definition step_units :: "rat \<Rightarrow> int result" where
  "step_units step =
     (if step \<le> 0 \<or> 1 < step then Inl (ValueError ''Calibration step size must be in (0, 1]'')
      else if of_int (floor (1 / step)) \<noteq> 1 / step
      then Inl (ValueError ''Calibration step size must divide 1 exactly, for example 0.5, 0.25, 0.1, or 0.02'')
      else Inr (floor (1 / step)))"

text \<open>\<open>round(x, 12)\<close>, ties to the even neighbour, in units of the last digit.\<close>

definition round_half_even :: "real \<Rightarrow> int" where
  "round_half_even x =
     (let n = floor x; d = x - of_int n
      in if d < 1 / 2 then n else if 1 / 2 < d then n + 1 else if even n then n else n + 1)"

definition digits12 :: "real \<Rightarrow> int" where
  "digits12 x = round_half_even (x * 10 ^ 12)"

definition grid_key :: "weight_vector \<Rightarrow> int \<times> int \<times> int" where
  "grid_key w = (digits12 (w_time w), digits12 (w_carbon w), digits12 (w_cost w))"

definition grid_point :: "int \<Rightarrow> int \<times> int \<Rightarrow> weight_vector" where
  "grid_point n ij = \<lparr>w_time = of_int (fst ij) / of_int n, w_carbon = of_int (snd ij) / of_int n,
     w_cost = of_int (n - fst ij - snd ij) / of_int n\<rparr>"

definition grid_units :: "int \<Rightarrow> (int \<times> int) list" where
  "grid_units n = concat (map (\<lambda>i. map (\<lambda>j. (i, j)) [0..n - i]) [0..n])"

definition validate_unique :: "weight_vector list \<Rightarrow> weight_vector list result" where
  "validate_unique ws =
     (if distinct (map grid_key ws) then Inr ws else Inl (ValueError ''Calibration grid contains duplicate weights''))"

definition generate_simplex_weight_grid :: "rat \<Rightarrow> weight_vector list result" where
  "generate_simplex_weight_grid step =
     bind_result (step_units step) (\<lambda>n. validate_unique (map (grid_point n) (grid_units n)))"

section \<open>Candidates\<close>

record calibration_candidate =
  cc_weights :: weight_vector
  cc_time :: real
  cc_carbon :: real
  cc_cost :: real
  cc_label :: "string option"

record calibration_score =
  cs_candidate :: calibration_candidate
  cs_normalized_time :: real
  cs_normalized_carbon :: real
  cs_normalized_cost :: real
  cs_score :: real

record calibration_result =
  cal_selected :: calibration_score
  cal_feasible :: nat
  cal_rejected :: nat
  cal_ranked :: "calibration_score list"

definition weight_key :: "weight_vector \<Rightarrow> int \<times> int \<times> int" where
  "weight_key w = grid_key (normalized w)"

definition validate_grid_coverage :: "calibration_candidate list \<Rightarrow> weight_vector list \<Rightarrow> unit result" where
  "validate_grid_coverage cs grid =
     (let candidate_keys = set (map (weight_key \<circ> cc_weights) cs); grid_keys = set (map weight_key grid)
      in if grid_keys - candidate_keys \<noteq> {} \<or> candidate_keys - grid_keys \<noteq> {}
         then Inl (ValueError ''Calibration candidates do not exactly cover the requested grid'')
         else Inr ())"

definition candidate_feasible :: "real option \<Rightarrow> real option \<Rightarrow> calibration_candidate \<Rightarrow> bool" where
  "candidate_feasible cost_cap deadline c \<longleftrightarrow>
     (case cost_cap of None \<Rightarrow> True | Some cap \<Rightarrow> cc_cost c \<le> cap)
   \<and> (case deadline of None \<Rightarrow> True | Some d \<Rightarrow> cc_time c \<le> d)"

definition candidate_score :: "calibration_candidate \<Rightarrow> real \<Rightarrow> real \<Rightarrow> real \<Rightarrow> calibration_score" where
  "candidate_score c nt nc nu =
     (let w = normalized (cc_weights c)
      in \<lparr>cs_candidate = c, cs_normalized_time = nt, cs_normalized_carbon = nc, cs_normalized_cost = nu,
          cs_score = w_time w * nt + w_carbon w * nc + w_cost w * nu\<rparr>)"

definition score_candidates :: "calibration_candidate list \<Rightarrow> calibration_score list" where
  "score_candidates cs =
     map (\<lambda>(c, nt, nc, nu). candidate_score c nt nc nu)
       (zip cs (zip (minmax_normalize (map cc_time cs))
         (zip (minmax_normalize (map cc_carbon cs)) (minmax_normalize (map cc_cost cs)))))"

text \<open>The sort key: score, carbon, time, cost, rounded weights, label.\<close>

definition selection_key :: "calibration_score \<Rightarrow> real list \<times> (int \<times> int \<times> int) \<times> string" where
  "selection_key s =
     ([cs_score s, cc_carbon (cs_candidate s), cc_time (cs_candidate s), cc_cost (cs_candidate s)],
      weight_key (cc_weights (cs_candidate s)),
      case cc_label (cs_candidate s) of None \<Rightarrow> [] | Some l \<Rightarrow> l)"

definition select_calibrated_baseline ::
  "calibration_candidate list \<Rightarrow> real option \<Rightarrow> real option \<Rightarrow> calibration_result result" where
  "select_calibrated_baseline cs cost_cap deadline =
     (if cs = [] then Inl (ValueError ''At least one calibration candidate is required'')
      else
        let feasible = filter (candidate_feasible cost_cap deadline) cs
        in if feasible = [] then Inl (ValueError ''No calibration candidates satisfy hard constraints'')
           else let ranked = sort_key selection_key (score_candidates feasible)
                in Inr \<lparr>cal_selected = hd ranked, cal_feasible = length feasible,
                        cal_rejected = length cs - length feasible, cal_ranked = ranked\<rparr>)"

section \<open>What the grid holds\<close>

lemma set_grid_units: "set (grid_units n) = {(i, j). 0 \<le> i \<and> 0 \<le> j \<and> i + j \<le> n}"
  by (auto simp: grid_units_def image_iff)

lemma distinct_grid_units: "distinct (grid_units n)"
proof -
  have "distinct (concat (map (\<lambda>i. map (Pair i) [0..n - i]) is))" if "distinct is" for "is"
    using that by (induction "is") (auto simp: distinct_map inj_on_def)
  then show ?thesis by (simp add: grid_units_def)
qed

lemma length_grid_rows: "length (concat (map (\<lambda>i. map (\<lambda>j. (i, j)) [0..k - i]) is)) = sum_list (map (\<lambda>i. nat (k - i + 1)) is)"
  by (induction "is") simp_all

lemma sum_rows: "2 * sum_list (map (\<lambda>i. nat (int m - i + 1)) [0..int m]) = (m + 1) * (m + 2)"
proof (induction m)
  case 0
  then show ?case by simp
next
  case (Suc m)
  have split: "[0..int (Suc m)] = 0 # map (\<lambda>i. i + 1) [0..int m]"
  proof -
    have "[0..int (Suc m)] = 0 # [1..int (Suc m)]" by (simp add: upto.simps [of 0])
    moreover have "[1..int (Suc m)] = map (\<lambda>i. i + 1) [0..int m]"
      by (rule nth_equalityI) auto
    ultimately show ?thesis by simp
  qed
  have "sum_list (map (\<lambda>i. nat (int (Suc m) - i + 1)) [0..int (Suc m)])
      = m + 2 + sum_list (map (\<lambda>i. nat (int m - i + 1)) [0..int m])"
  proof -
    have "map (\<lambda>i. nat (int (Suc m) - i + 1)) [0..int (Suc m)] = (m + 2) # map (\<lambda>i. nat (int m - i + 1)) [0..int m]"
      unfolding split by (simp add: algebra_simps)
    then show ?thesis by (simp only: sum_list.Cons)
  qed
  then show ?case using Suc by simp
qed

lemma length_grid_units: "0 \<le> n \<Longrightarrow> 2 * int (length (grid_units n)) = (n + 1) * (n + 2)"
proof -
  assume "0 \<le> n"
  then obtain m where n: "n = int m" by (metis nonneg_int_cases)
  have "2 * length (grid_units n) = (m + 1) * (m + 2)"
    unfolding grid_units_def length_grid_rows n using sum_rows [of m] by simp
  then have "int (2 * length (grid_units n)) = int ((m + 1) * (m + 2))" by (rule arg_cong)
  then show ?thesis by (simp add: n algebra_simps)
qed

lemma grid_point_simplex:
  assumes "0 < n" "0 \<le> i" "0 \<le> j" "i + j \<le> n"
  shows "on_simplex (grid_point n (i, j))"
proof -
  have "real_of_int i / real_of_int n + real_of_int j / real_of_int n + real_of_int (n - i - j) / real_of_int n = 1"
    using assms(1) by (simp add: field_simps)
  moreover have "0 \<le> n - i - j" using assms(4) by simp
  ultimately show ?thesis using assms by (simp add: on_simplex_def grid_point_def weight_total_def)
qed

lemma round_half_even_bounds: "x - 1 / 2 \<le> of_int (round_half_even x)" "of_int (round_half_even x) \<le> x + 1 / 2"
  by (auto simp: round_half_even_def Let_def) linarith+

lemma digits12_inj:
  assumes "0 < n" "n \<le> 100000000000" "digits12 (of_int i / of_int n) = digits12 (of_int j / of_int n)"
  shows "i = j"
proof (rule ccontr)
  assume "i \<noteq> j"
  let ?x = "of_int i / of_int n * 10 ^ 12 :: real" and ?y = "of_int j / of_int n * 10 ^ 12 :: real"
  have near: "\<bar>?x - ?y\<bar> \<le> 1"
    using round_half_even_bounds [of ?x] round_half_even_bounds [of ?y] assms(3) unfolding digits12_def by linarith
  have "1 \<le> \<bar>i - j\<bar>" using \<open>i \<noteq> j\<close> by simp
  then have one: "1 \<le> \<bar>real_of_int i - real_of_int j\<bar>" by linarith
  have n: "0 < real_of_int n" "real_of_int n \<le> 10 ^ 11" using assms(1,2) by simp_all
  have "?x - ?y = (real_of_int i - real_of_int j) * (10 ^ 12 / real_of_int n)" using n(1) by (simp add: field_simps)
  then have diff: "\<bar>?x - ?y\<bar> = \<bar>real_of_int i - real_of_int j\<bar> * (10 ^ 12 / real_of_int n)"
    using n(1) by (simp only: abs_mult) simp
  have big: "10 \<le> 10 ^ 12 / real_of_int n" using n by (simp add: field_simps)
  have "1 * 10 \<le> \<bar>real_of_int i - real_of_int j\<bar> * (10 ^ 12 / real_of_int n)"
    by (rule mult_mono [OF one big]) auto
  then show False using near diff by linarith
qed

text \<open>Every step size that divides 1 and has at most $10^{11}$ steps gives the complete grid: all and only the
  weight vectors in multiples of the step, none of them twice, each on the simplex, $(n+1)(n+2)/2$ in number; the
  duplicate check never refuses one.\<close>

theorem grid_covers_simplex:
  assumes "step_units step = Inr n" "n \<le> 100000000000"
  obtains ws where "generate_simplex_weight_grid step = Inr ws" "distinct ws" "2 * int (length ws) = (n + 1) * (n + 2)"
    "set ws = {grid_point n (i, j) | i j. 0 \<le> i \<and> 0 \<le> j \<and> i + j \<le> n}" "\<forall>w \<in> set ws. on_simplex w"
proof -
  have "0 < step" "step \<le> 1" "of_int n = 1 / step" using assms(1) by (auto simp: step_units_def split: if_splits)
  then have pos: "0 < n" by (metis divide_pos_pos of_int_0_less_iff zero_less_one)
  let ?ws = "map (grid_point n) (grid_units n)"
  have "inj_on (grid_key \<circ> grid_point n) (set (grid_units n))"
    using digits12_inj [OF pos assms(2)] by (auto simp: inj_on_def grid_key_def grid_point_def)
  then have keys: "distinct (map grid_key ?ws)" using distinct_grid_units by (simp add: distinct_map)
  show ?thesis
  proof (rule that)
    show "generate_simplex_weight_grid step = Inr ?ws"
      using assms(1) keys by (simp add: generate_simplex_weight_grid_def validate_unique_def)
    show "distinct ?ws" using keys distinct_map by blast
    show "2 * int (length ?ws) = (n + 1) * (n + 2)" using length_grid_units [of n] pos by simp
    show "set ?ws = {grid_point n (i, j) | i j. 0 \<le> i \<and> 0 \<le> j \<and> i + j \<le> n}" by (auto simp: set_grid_units)
    show "\<forall>w \<in> set ?ws. on_simplex w" using grid_point_simplex [OF pos] by (auto simp: set_grid_units)
  qed
qed

theorem grid_covers_simplex_witness:
  "\<exists>ws. generate_simplex_weight_grid (1 / 10) = Inr ws \<and> length ws = 66 \<and> grid_point 10 (3, 3) \<in> set ws"
proof -
  have s: "step_units (1 / 10) = Inr 10" by (simp add: step_units_def)
  show ?thesis
  proof (rule grid_covers_simplex [OF s])
    fix ws assume ws: "generate_simplex_weight_grid (1 / 10) = Inr ws" "2 * int (length ws) = (10 + 1) * (10 + 2)"
      "set ws = {grid_point 10 (i, j) | i j. 0 \<le> i \<and> 0 \<le> j \<and> i + j \<le> 10}"
    have "grid_point 10 (3, 3) \<in> set ws" unfolding ws(3) by force
    moreover have "length ws = 66" using ws(2) by simp
    ultimately show ?thesis using ws(1) by blast
  qed simp
qed

section \<open>The choice\<close>

text \<open>
  What the choice is to mean, said without the code's lists: the place of a value between the least and the
  greatest of its column, the share of each weight, the weighted sum of the places, and the order of the
  candidates: score, carbon, time, cost, the shares of the weights rounded to twelve digits, label.
\<close>

definition place :: "real set \<Rightarrow> real \<Rightarrow> real" where
  "place X x = (if Max X = Min X then 0 else (x - Min X) / (Max X - Min X))"

definition weighted_place :: "calibration_candidate set \<Rightarrow> calibration_candidate \<Rightarrow> real" where
  "weighted_place F c =
     (let w = cc_weights c
      in w_time w / weight_total w * place (cc_time ` F) (cc_time c)
         + w_carbon w / weight_total w * place (cc_carbon ` F) (cc_carbon c)
         + w_cost w / weight_total w * place (cc_cost ` F) (cc_cost c))"

definition rounded_share :: "(weight_vector \<Rightarrow> real) \<Rightarrow> calibration_candidate \<Rightarrow> real" where
  "rounded_share f c = of_int (digits12 (f (cc_weights c) / weight_total (cc_weights c)))"

fun first_difference :: "(real \<times> real) list \<Rightarrow> bool \<Rightarrow> bool" where
  "first_difference [] otherwise = otherwise"
| "first_difference ((x, y) # r) otherwise \<longleftrightarrow> x < y \<or> x = y \<and> first_difference r otherwise"

definition label_text :: "calibration_candidate \<Rightarrow> string" where
  "label_text c = (case cc_label c of None \<Rightarrow> [] | Some l \<Rightarrow> l)"

definition preferred :: "calibration_candidate set \<Rightarrow> calibration_candidate \<Rightarrow> calibration_candidate \<Rightarrow> bool" where
  "preferred F c c' =
     first_difference
       (map (\<lambda>f. (f c, f c')) [weighted_place F, cc_carbon, cc_time, cc_cost, rounded_share w_time, rounded_share w_carbon, rounded_share w_cost])
       (label_text c \<le> label_text c')"

lemma place_of_column: "i < length xs \<Longrightarrow> minmax_normalize (map f xs) ! i = place (f ` set xs) (f (xs ! i))"
  by (simp add: minmax_normalize_nth place_def)

lemma score_candidates_score:
  assumes "s \<in> set (score_candidates cs)"
  shows "cs_score s = weighted_place (set cs) (cs_candidate s)"
proof -
  obtain i where i: "i < length cs" "s = score_candidates cs ! i"
    using assms by (auto simp: in_set_conv_nth score_candidates_def)
  then show ?thesis
    by (simp add: score_candidates_def candidate_score_def place_of_column weighted_place_def normalized_def weight_total_def Let_def)
qed

lemma selection_key_preferred:
  assumes "cs_score s = weighted_place F (cs_candidate s)" "cs_score s' = weighted_place F (cs_candidate s')"
    and "selection_key s \<le> selection_key s'"
  shows "preferred F (cs_candidate s) (cs_candidate s')"
proof -
  have key: "weight_key (cc_weights c) = (x, y, z) \<Longrightarrow> rounded_share w_time c = of_int x \<and> rounded_share w_carbon c = of_int y
      \<and> rounded_share w_cost c = of_int z" for c x y z
    by (simp add: weight_key_def grid_key_def normalized_def rounded_share_def weight_total_def Let_def)
  obtain x y z where k: "weight_key (cc_weights (cs_candidate s)) = (x, y, z)" by (cases "weight_key (cc_weights (cs_candidate s))")
  obtain x' y' z' where k': "weight_key (cc_weights (cs_candidate s')) = (x', y', z')" by (cases "weight_key (cc_weights (cs_candidate s'))")
  note shares = key [OF k] key [OF k']
  show ?thesis
    using assms(3)
    by (auto simp: preferred_def selection_key_def shares k k' assms(1,2) label_text_def less_eq_prod_def less_prod_def list_le_def
        list_less_def lexordp_simps split: if_splits)
qed

lemma score_candidates_candidate: "map cs_candidate (score_candidates cs) = cs"
  by (rule nth_equalityI) (simp_all add: score_candidates_def candidate_score_def Let_def)

lemma calibration_selects_best_feasible_parts:
  shows "is_ok (select_calibrated_baseline cs cost_cap deadline) \<longleftrightarrow> (\<exists>c \<in> set cs. candidate_feasible cost_cap deadline c)"
    and "select_calibrated_baseline cs cost_cap deadline = Inr r \<Longrightarrow>
      mset (map cs_candidate (cal_ranked r)) = mset (filter (candidate_feasible cost_cap deadline) cs)
    \<and> cal_selected r = hd (cal_ranked r) \<and> cal_feasible r + cal_rejected r = length cs
    \<and> (\<forall>s \<in> set (cal_ranked r). cs_score s = weighted_place {c \<in> set cs. candidate_feasible cost_cap deadline c} (cs_candidate s))
    \<and> sorted_wrt (\<lambda>s s'. preferred {c \<in> set cs. candidate_feasible cost_cap deadline c} (cs_candidate s) (cs_candidate s')) (cal_ranked r)"
    and "select_calibrated_baseline cs cost_cap deadline = Inr r \<Longrightarrow>
      select_calibrated_baseline (filter (candidate_feasible cost_cap deadline) cs) None None = Inr (r\<lparr>cal_rejected := 0\<rparr>)"
proof -
  let ?fs = "filter (candidate_feasible cost_cap deadline) cs"
  let ?ranked = "sort_key selection_key (score_candidates ?fs)"
  have answer: "select_calibrated_baseline cs cost_cap deadline =
      (if ?fs = [] then select_calibrated_baseline cs cost_cap deadline
       else Inr \<lparr>cal_selected = hd ?ranked, cal_feasible = length ?fs, cal_rejected = length cs - length ?fs, cal_ranked = ?ranked\<rparr>)"
    by (auto simp: select_calibrated_baseline_def Let_def)
  show "is_ok (select_calibrated_baseline cs cost_cap deadline) \<longleftrightarrow> (\<exists>c \<in> set cs. candidate_feasible cost_cap deadline c)"
    by (auto simp: select_calibrated_baseline_def Let_def filter_empty_conv)
  assume r: "select_calibrated_baseline cs cost_cap deadline = Inr r"
  then have fs: "?fs \<noteq> []" by (auto simp: select_calibrated_baseline_def Let_def split: if_splits)
  then have r': "r = \<lparr>cal_selected = hd ?ranked, cal_feasible = length ?fs, cal_rejected = length cs - length ?fs, cal_ranked = ?ranked\<rparr>"
    using r answer by simp
  let ?F = "{c \<in> set cs. candidate_feasible cost_cap deadline c}"
  have F: "?F = set ?fs" by auto
  have scores: "cs_score s = weighted_place ?F (cs_candidate s)" if "s \<in> set ?ranked" for s
    using that score_candidates_score [of s ?fs] unfolding F by simp
  have "sorted_wrt (\<lambda>s s'. selection_key s \<le> selection_key s') ?ranked" using sorted_sort_key [of selection_key] by (simp add: sorted_wrt_map)
  then have order: "sorted_wrt (\<lambda>s s'. preferred ?F (cs_candidate s) (cs_candidate s')) ?ranked"
    by (rule sorted_wrt_mono_rel [rotated]) (use selection_key_preferred scores in blast)
  have members: "mset (map cs_candidate ?ranked) = mset ?fs"
    using score_candidates_candidate [of ?fs] by (metis mset_map mset_sort)
  have counts: "length ?fs + (length cs - length ?fs) = length cs" by simp
  show "mset (map cs_candidate (cal_ranked r)) = mset ?fs
    \<and> cal_selected r = hd (cal_ranked r) \<and> cal_feasible r + cal_rejected r = length cs
    \<and> (\<forall>s \<in> set (cal_ranked r). cs_score s = weighted_place {c \<in> set cs. candidate_feasible cost_cap deadline c} (cs_candidate s))
    \<and> sorted_wrt (\<lambda>s s'. preferred {c \<in> set cs. candidate_feasible cost_cap deadline c} (cs_candidate s) (cs_candidate s')) (cal_ranked r)"
    unfolding r' using scores order members counts by simp
  have "candidate_feasible None None = (\<lambda>_. True)" by (simp add: candidate_feasible_def fun_eq_iff)
  then show "select_calibrated_baseline ?fs None None = Inr (r\<lparr>cal_rejected := 0\<rparr>)"
    using fs by (simp add: select_calibrated_baseline_def Let_def r')
qed

definition measured :: "real \<Rightarrow> calibration_candidate" where
  "measured cost = \<lparr>cc_weights = \<lparr>w_time = 1, w_carbon = 1, w_cost = 0\<rparr>, cc_time = 60, cc_carbon = 5, cc_cost = cost,
     cc_label = None\<rparr>"

text \<open>C40. The calibration chooses the best candidate that meets the hard constraints: it fails exactly when no candidate
  meets them; the ranking holds every feasible candidate once, each scored by the weighted sum of its places among
  the feasible ones (the weights divided by their total), and is in order of score, then carbon, time, cost, rounded
  weights and label; the selected one is its first; and candidates that break a constraint change nothing but
  their count.\<close>

theorem calibration_selects_best_feasible:
  "(is_ok (select_calibrated_baseline cs cost_cap deadline) \<longleftrightarrow> (\<exists>c \<in> set cs. candidate_feasible cost_cap deadline c))
   \<and> (\<forall>r. select_calibrated_baseline cs cost_cap deadline = Inr r \<longrightarrow>
      mset (map cs_candidate (cal_ranked r)) = mset (filter (candidate_feasible cost_cap deadline) cs)
    \<and> cal_selected r = hd (cal_ranked r) \<and> cal_feasible r + cal_rejected r = length cs
    \<and> (\<forall>s \<in> set (cal_ranked r). cs_score s = weighted_place {c \<in> set cs. candidate_feasible cost_cap deadline c} (cs_candidate s))
    \<and> sorted_wrt (\<lambda>s s'. preferred {c \<in> set cs. candidate_feasible cost_cap deadline c} (cs_candidate s) (cs_candidate s')) (cal_ranked r)
    \<and> select_calibrated_baseline (filter (candidate_feasible cost_cap deadline) cs) None None = Inr (r\<lparr>cal_rejected := 0\<rparr>))"
  using calibration_selects_best_feasible_parts by blast

theorem calibration_selects_best_feasible_witness:
  "\<exists>r. select_calibrated_baseline [measured 9, measured 2, measured 1] (Some 5) None = Inr r
     \<and> map cs_candidate (cal_ranked r) = [measured 1, measured 2] \<and> cs_candidate (cal_selected r) = measured 1
     \<and> cal_feasible r + cal_rejected r = 3"
proof -
  let ?cs = "[measured 9, measured 2, measured 1]"
  note all = calibration_selects_best_feasible [of ?cs "Some 5" None]
  have "is_ok (select_calibrated_baseline ?cs (Some 5) None)"
    using conjunct1 [OF all] by (simp add: candidate_feasible_def measured_def)
  then obtain r where r: "select_calibrated_baseline ?cs (Some 5) None = Inr r" by (auto simp: is_ok_Inr)
  have fs: "filter (candidate_feasible (Some 5) None) ?cs = [measured 2, measured 1]"
    "{c \<in> set ?cs. candidate_feasible (Some 5) None c} = {measured 2, measured 1}"
    by (auto simp: candidate_feasible_def measured_def)
  note facts = conjunct2 [OF all, rule_format, OF r, unfolded fs]
  have ne: "measured 2 \<noteq> measured 1" by (simp add: measured_def)
  let ?xs = "map cs_candidate (cal_ranked r)"
  have "mset ?xs = {#measured 2, measured 1#}" using facts by simp
  then have "?xs = [measured 2, measured 1] \<or> ?xs = [measured 1, measured 2]"
    by (cases ?xs; cases "tl ?xs") (auto simp: add_eq_conv_ex)
  moreover have "\<not> preferred {measured 2, measured 1} (measured 2) (measured 1)"
    by (simp add: preferred_def weighted_place_def place_def measured_def weight_total_def Let_def)
  moreover have "sorted_wrt (preferred {measured 2, measured 1}) ?xs" using facts by (simp add: sorted_wrt_map)
  ultimately have xs: "?xs = [measured 1, measured 2]" by auto
  have sel: "cal_selected r = hd (cal_ranked r)" using facts by (elim conjE)
  then have "cs_candidate (cal_selected r) = measured 1" using xs by (cases "cal_ranked r") simp_all
  moreover have "cal_feasible r + cal_rejected r = 3" using facts by simp
  ultimately show ?thesis using r xs by (intro exI [of _ r] conjI)
qed

end
