(* ===== verification/Event_Journal.thy ===== *)
theory Event_Journal
  imports Prelude
begin

text \<open>
  \<open>magellan/experiments/events.py\<close>: the append-only journal of structured observations a daemon keeps beside its
  control state, and what the journal promises to those who read it page by page or restart on it.  A line of the
  file is blank, an event, or something the model class does not read.  The free-form payload is a type parameter.
\<close>

record 'p experiment_event =
  ev_sequence :: int
  ev_id :: string
  ev_node :: node_id
  ev_type :: string
  ev_observed :: datetime
  ev_trace_time :: "datetime option"
  ev_task :: "task_id option"
  ev_generation :: "int option"
  ev_payload :: 'p

definition wf_event :: "'p experiment_event \<Rightarrow> bool" where
  "wf_event e \<longleftrightarrow> 1 \<le> ev_sequence e \<and> ev_id e \<noteq> [] \<and> ev_node e \<noteq> [] \<and> ev_type e \<noteq> []
   \<and> (\<forall>g \<in> set_option (ev_generation e). 0 \<le> g)"

datatype 'p event_line = Blank_Line | Unreadable_Line | Event_Line "'p experiment_event"

record 'p event_journal =
  event_lines :: "'p event_line list"
  event_node :: node_id
  last_sequence :: int

section \<open>Operations\<close>

fun scan_last_sequence :: "nat \<Rightarrow> int \<Rightarrow> 'p event_line list \<Rightarrow> int result" where
  "scan_last_sequence n high [] = Inr high"
| "scan_last_sequence n high (Blank_Line # ls) = scan_last_sequence (Suc n) high ls"
| "scan_last_sequence n high (Unreadable_Line # ls) =
     Inl (RuntimeError (''Invalid experiment event journal line '' @ nat_str n))"
| "scan_last_sequence n high (Event_Line e # ls) =
     (if wf_event e then scan_last_sequence (Suc n) (max high (ev_sequence e)) ls
      else Inl (RuntimeError (''Invalid experiment event journal line '' @ nat_str n)))"

definition open_journal :: "'p event_line list \<Rightarrow> node_id \<Rightarrow> 'p event_journal result" where
  "open_journal file node =
     bind_result (scan_last_sequence 1 0 file) (\<lambda>high.
       Inr \<lparr>event_lines = file, event_node = node, last_sequence = high\<rparr>)"

definition append_event ::
  "string \<Rightarrow> string \<Rightarrow> task_id option \<Rightarrow> int option \<Rightarrow> datetime option \<Rightarrow> 'p \<Rightarrow> datetime \<Rightarrow> 'p event_journal
     \<Rightarrow> 'p event_journal \<times> 'p experiment_event result" where
  "append_event fresh kind t g trace payload now j =
     (let e = \<lparr>ev_sequence = last_sequence j + 1, ev_id = fresh, ev_node = event_node j, ev_type = kind, ev_observed = now,
               ev_trace_time = trace, ev_task = t, ev_generation = g, ev_payload = payload\<rparr>
      in if wf_event e
         then (j\<lparr>event_lines := event_lines j @ [Event_Line e], last_sequence := last_sequence j + 1\<rparr>, Inr e)
         else (j, Inl (ValueError ''ValidationError'')))"

definition wanted_event :: "int \<Rightarrow> task_id option \<Rightarrow> string option \<Rightarrow> 'p experiment_event \<Rightarrow> bool" where
  "wanted_event after t kind e \<longleftrightarrow>
     after < ev_sequence e \<and> (t = None \<or> ev_task e = t) \<and> (kind = None \<or> Some (ev_type e) = kind)"

fun collect_events ::
  "int \<Rightarrow> task_id option \<Rightarrow> string option \<Rightarrow> int \<Rightarrow> 'p event_line list \<Rightarrow> 'p experiment_event list \<Rightarrow> 'p experiment_event list result" where
  "collect_events after t kind limit [] found = Inr found"
| "collect_events after t kind limit (Blank_Line # ls) found = collect_events after t kind limit ls found"
| "collect_events after t kind limit (Unreadable_Line # ls) found = Inl (ValueError ''ValidationError'')"
| "collect_events after t kind limit (Event_Line e # ls) found =
     (if \<not> wf_event e then Inl (ValueError ''ValidationError'')
      else if \<not> wanted_event after t kind e then collect_events after t kind limit ls found
      else if limit \<le> int (length (found @ [e])) then Inr (found @ [e])
      else collect_events after t kind limit ls (found @ [e]))"

definition list_events ::
  "int \<Rightarrow> task_id option \<Rightarrow> string option \<Rightarrow> int \<Rightarrow> 'p event_journal \<Rightarrow> 'p experiment_event list result" where
  "list_events after t kind limit j =
     (if after < 0 then Inl (ValueError ''after_sequence must be non-negative'')
      else if limit < 1 then Inl (ValueError ''limit must be positive'')
      else collect_events after t kind limit (event_lines j) [])"

section \<open>The events of a journal\<close>

fun event_of :: "'p event_line \<Rightarrow> 'p experiment_event option" where
  "event_of (Event_Line e) = Some e"
| "event_of _ = None"

definition events_of :: "'p event_journal \<Rightarrow> 'p experiment_event list" where
  "events_of j = List.map_filter event_of (event_lines j)"

text \<open>Every line is a blank or a valid event, and the events are numbered 1, 2, ... up to the last sequence.\<close>

definition journal_inv :: "'p event_journal \<Rightarrow> bool" where
  "journal_inv j \<longleftrightarrow> Unreadable_Line \<notin> set (event_lines j) \<and> (\<forall>e \<in> set (events_of j). wf_event e)
   \<and> map ev_sequence (events_of j) = [1..last_sequence j] \<and> 0 \<le> last_sequence j"

text \<open>The journals a daemon can have: a new file, appends, restarts on the file.\<close>

inductive journal_run :: "node_id \<Rightarrow> 'p event_journal \<Rightarrow> bool" for node where
  fresh: "open_journal [] node = Inr j \<Longrightarrow> journal_run node j"
| append: "journal_run node j \<Longrightarrow> append_event i kind t g trace p now j = (j', r) \<Longrightarrow> journal_run node j'"
| restart: "journal_run node j \<Longrightarrow> open_journal (event_lines j) node = Inr j' \<Longrightarrow> journal_run node j'"

lemma events_of_lines: "events_of j = List.map_filter event_of (event_lines j)"
  by (simp add: events_of_def)

lemma scan_sequence:
  assumes "Unreadable_Line \<notin> set ls" "\<forall>e \<in> set (List.map_filter event_of ls). wf_event e"
  shows "scan_last_sequence n high ls = Inr (fold max (map ev_sequence (List.map_filter event_of ls)) high)"
  using assms by (induction n high ls rule: scan_last_sequence.induct) (auto simp: List.map_filter_simps max.commute)

lemma fold_max_le: "h \<le> (k :: int) \<Longrightarrow> \<forall>x \<in> set xs. x \<le> k \<Longrightarrow> fold max xs h \<le> k"
  by (induction xs arbitrary: h) auto

lemma fold_max_upto: "0 \<le> k \<Longrightarrow> fold max [1..k] 0 = (k :: int)"
proof (cases "k = 0")
  case False
  assume "0 \<le> k"
  then have "[1..k] = [1..k - 1] @ [k]" using False upto_rec2 [of 1 k] by simp
  moreover have "fold max [1..k - 1] 0 \<le> k - 1"
    using \<open>0 \<le> k\<close> False fold_max_le [of 0 "k - 1" "[1..k - 1]"] by simp
  ultimately show ?thesis by simp
qed simp

lemma reopen_same:
  assumes "journal_inv j" "event_node j = node"
  shows "open_journal (event_lines j) node = Inr j"
proof -
  have "scan_last_sequence 1 0 (event_lines j) = Inr (last_sequence j)"
    using assms(1) fold_max_upto [of "last_sequence j"]
    by (simp add: scan_sequence journal_inv_def flip: events_of_lines)
  then show ?thesis using assms(2) by (simp add: open_journal_def)
qed

lemma map_filter_append: "List.map_filter f (xs @ ys) = List.map_filter f xs @ List.map_filter f ys"
  by (induction xs) (auto simp: List.map_filter_simps split: option.splits)

lemma append_keeps:
  assumes j: "journal_inv j" and a: "append_event i kind t g trace p now j = (j', r)"
  shows "journal_inv j' \<and> event_node j' = event_node j"
proof -
  define e where "e = \<lparr>ev_sequence = last_sequence j + 1, ev_id = i, ev_node = event_node j, ev_type = kind,
    ev_observed = now, ev_trace_time = trace, ev_task = t, ev_generation = g, ev_payload = p\<rparr>"
  have upto: "[1..last_sequence j + 1] = [1..last_sequence j] @ [last_sequence j + 1]"
    using j by (simp add: journal_inv_def upto_rec2)
  show ?thesis
  proof (cases "wf_event e")
    case True
    then have j': "j' = j\<lparr>event_lines := event_lines j @ [Event_Line e], last_sequence := last_sequence j + 1\<rparr>"
      using a by (simp add: append_event_def Let_def e_def)
    then have "events_of j' = events_of j @ [e]"
      by (simp add: events_of_def map_filter_append List.map_filter_simps)
    then show ?thesis using j j' True upto by (auto simp: journal_inv_def e_def)
  next
    case False
    then show ?thesis using a j by (simp add: append_event_def Let_def e_def)
  qed
qed

lemma empty_journal: "journal_inv \<lparr>event_lines = [], event_node = node, last_sequence = 0\<rparr>"
  by (simp add: journal_inv_def events_of_def List.map_filter_simps)

lemma journal_run_inv: "journal_run node j \<Longrightarrow> journal_inv j \<and> event_node j = node"
proof (induction rule: journal_run.induct)
  case (fresh j)
  then have "j = \<lparr>event_lines = [], event_node = node, last_sequence = 0\<rparr>" by (simp add: open_journal_def)
  then show ?case using empty_journal by simp
next
  case (append j i kind t g trace p now j' r)
  then show ?case using append_keeps [of j i kind t g trace p now j' r] by simp
next
  case (restart j j')
  then show ?case using reopen_same [of j node] by simp
qed

section \<open>Pages\<close>

lemma collect_page:
  assumes "Unreadable_Line \<notin> set ls" "\<forall>e \<in> set (List.map_filter event_of ls). wf_event e" "int (length found) < limit"
  shows "collect_events after t kind limit ls found =
    Inr (found @ take (nat limit - length found) (filter (wanted_event after t kind) (List.map_filter event_of ls)))"
  using assms
proof (induction after t kind limit ls found rule: collect_events.induct)
  case (4 after t kind limit e ls found)
  show ?case
  proof (cases "wanted_event after t kind e")
    case False
    then show ?thesis using 4 by (simp add: List.map_filter_simps)
  next
    case True
    show ?thesis
    proof (cases "limit \<le> int (length (found @ [e]))")
      case full: True
      then have "nat limit - length found = 1" using 4(5) by simp
      then show ?thesis using True full 4(4) by (simp add: List.map_filter_simps)
    next
      case False
      then have "nat limit - length found = Suc (nat limit - length (found @ [e]))" by simp
      then show ?thesis using True False 4 by (simp add: List.map_filter_simps)
    qed
  qed
qed (simp_all add: List.map_filter_simps)

lemma list_events_page:
  assumes "journal_inv j" "0 \<le> after" "1 \<le> limit"
  shows "list_events after t kind limit j = Inr (take (nat limit) (filter (wanted_event after t kind) (events_of j)))"
  using assms collect_page [of "event_lines j" "[]" limit after t kind]
  by (simp add: list_events_def journal_inv_def flip: events_of_lines)

text \<open>A line that is not an event, anywhere in the file, blocks the next start of the daemon.\<close>

lemma torn_line_blocks_start:
  assumes "Unreadable_Line \<in> set ls"
  shows "\<exists>e. scan_last_sequence n high ls = Inl e"
  using assms by (induction n high ls rule: scan_last_sequence.induct) auto

lemma torn_line_blocks_restart:
  assumes "Unreadable_Line \<in> set ls"
  shows "\<exists>e. open_journal ls node = Inl e"
  using torn_line_blocks_start [OF assms, of 1 0] by (auto simp: open_journal_def)

lemma below_last: "sorted_wrt (<) (map f xs) \<Longrightarrow> x \<in> set xs \<Longrightarrow> f x \<le> (f (last xs) :: int)"
  by (induction xs) (auto split: if_splits intro: less_imp_le)

lemma filter_take_split:
  assumes "sorted_wrt (<) (map f xs)" "take n xs \<noteq> []"
  shows "filter (\<lambda>x. f (last (take n xs)) < (f x :: int)) xs = drop n xs"
proof -
  have s: "sorted_wrt (<) (map f (take n xs) @ map f (drop n xs))"
    using assms(1) by (metis append_take_drop_id map_append)
  define p where "p = take n xs"
  define q where "q = drop n xs"
  have "sorted_wrt (<) (map f p)" using s p_def by (simp add: sorted_wrt_append)
  then have "\<forall>x \<in> set p. f x \<le> f (last p)" using below_last [of f p] by blast
  moreover have "\<forall>x \<in> set q. f (last p) < f x"
    using s assms(2) p_def q_def by (auto simp: sorted_wrt_append)
  ultimately have "filter (\<lambda>x. f (last p) < f x) (p @ q) = q" by (auto simp: filter_empty_conv leD)
  then show ?thesis by (simp add: p_def q_def)
qed

lemma wanted_from_page:
  assumes "after \<le> (a :: int)"
  shows "filter (wanted_event a t kind) es = filter (\<lambda>e. a < ev_sequence e) (filter (wanted_event after t kind) es)"
  using assms by (induction es) (auto simp: wanted_event_def)

lemma wanted_increasing:
  assumes "journal_inv j"
  shows "sorted_wrt (<) (map ev_sequence (filter (wanted_event after t kind) (events_of j)))"
proof -
  have "sorted_wrt (<) (map ev_sequence (filter P es))" if "sorted_wrt (<) (map ev_sequence es)"
    for P and es :: "'a experiment_event list"
    using that by (induction es) auto
  then show ?thesis using assms by (simp add: journal_inv_def)
qed

text \<open>
  C38. What a reader of the journal sees page by page.  In every journal a daemon can have (a new file, appends,
  restarts on the file), a page is an initial segment of the events asked for, a page shorter than the limit is all of
  them, and asking again after the sequence of the page's last event continues exactly where the page ended: no event
  is skipped and none is given twice, under every filter and every limit.
\<close>

theorem event_pages_continue:
  assumes "journal_run node j" "list_events after t kind limit j = Inr page" "page \<noteq> []"
  shows "\<exists>rest. filter (wanted_event after t kind) (events_of j) = page @ rest
    \<and> (int (length page) < limit \<longrightarrow> rest = [])
    \<and> (\<forall>limit' \<ge> 1. list_events (ev_sequence (last page)) t kind limit' j = Inr (take (nat limit') rest))"
proof -
  let ?all = "filter (wanted_event after t kind) (events_of j)"
  have inv: "journal_inv j" using journal_run_inv [OF assms(1)] by simp
  have bounds: "0 \<le> after" "1 \<le> limit" using assms(2) by (auto simp: list_events_def split: if_splits)
  have page: "page = take (nat limit) ?all" using assms(2) list_events_page [OF inv bounds] by simp
  have "last page \<in> set ?all" using assms(3) page in_set_takeD last_in_set by metis
  then have after: "after \<le> ev_sequence (last page)" by (simp add: wanted_event_def)
  have "filter (\<lambda>e. ev_sequence (last page) < ev_sequence e) ?all = drop (nat limit) ?all"
    using filter_take_split [OF wanted_increasing [OF inv]] assms(3) unfolding page by blast
  then have "filter (wanted_event (ev_sequence (last page)) t kind) (events_of j) = drop (nat limit) ?all"
    by (simp only: wanted_from_page [OF after])
  then have "list_events (ev_sequence (last page)) t kind limit' j = Inr (take (nat limit') (drop (nat limit) ?all))"
    if "1 \<le> limit'" for limit'
    using list_events_page [OF inv _ that] after bounds by simp
  moreover have "?all = page @ drop (nat limit) ?all" by (simp add: page)
  moreover have "drop (nat limit) ?all = []" if "int (length page) < limit" using that page by auto
  ultimately show ?thesis by blast
qed

definition demo_event :: "int \<Rightarrow> unit experiment_event" where
  "demo_event n = \<lparr>ev_sequence = n, ev_id = ''e'', ev_node = ''a'', ev_type = ''task.started'', ev_observed = 5,
     ev_trace_time = None, ev_task = None, ev_generation = None, ev_payload = ()\<rparr>"

definition demo_journal :: "unit event_journal" where
  "demo_journal = \<lparr>event_lines = [Event_Line (demo_event 1), Event_Line (demo_event 2)], event_node = ''a'',
     last_sequence = 2\<rparr>"

lemma demo_journal_run: "journal_run ''a'' demo_journal"
proof -
  let ?start = "\<lparr>event_lines = [], event_node = ''a'', last_sequence = 0\<rparr> :: unit event_journal"
  let ?one = "\<lparr>event_lines = [Event_Line (demo_event 1)], event_node = ''a'', last_sequence = 1\<rparr>"
  have "journal_run ''a'' ?start" by (rule journal_run.fresh) (simp add: open_journal_def)
  moreover have "append_event ''e'' ''task.started'' None None None () 5 ?start = (?one, Inr (demo_event 1))"
    by (simp add: append_event_def Let_def wf_event_def demo_event_def)
  ultimately have "journal_run ''a'' ?one" by (rule journal_run.append)
  moreover have "append_event ''e'' ''task.started'' None None None () 5 ?one = (demo_journal, Inr (demo_event 2))"
    by (simp add: append_event_def Let_def wf_event_def demo_event_def demo_journal_def)
  ultimately show ?thesis by (rule journal_run.append)
qed

theorem event_pages_continue_witness:
  "\<exists>rest. filter (wanted_event 0 None None) (events_of demo_journal) = [demo_event 1] @ rest"
proof -
  have "list_events 0 None None 1 demo_journal = Inr [demo_event 1]"
    by (simp add: list_events_def demo_journal_def wf_event_def wanted_event_def demo_event_def)
  from event_pages_continue [OF demo_journal_run this] show ?thesis by auto
qed

end
