(* ===== verification/Capability_Drift.thy ===== *)
theory Capability_Drift
  imports Config_Models
begin

text \<open>
  \<open>magellan/capabilities/discovery.py\<close> and the handler \<open>GET /capabilities\<close> of \<open>api/app.py\<close>: what a node finds on
  itself, how it differs from what its configuration advertises, and what \<open>ready\<close> promises to the peers, who decide
  compatibility on the configuration.  What the host answers (its platform, its memory file, the commands on its path
  and the output of their \<open>--version\<close>) is an argument; digits are the ASCII digits.
\<close>

section \<open>Versions in banners\<close>

text \<open>The groups \<open>.digits\<close> a text begins with.\<close>

function dotted_groups :: "string \<Rightarrow> string list" where
  "dotted_groups s =
     (case s of
        [] \<Rightarrow> []
      | c # r \<Rightarrow> if c = CHR ''.'' \<and> takeWhile is_digit r \<noteq> []
                 then takeWhile is_digit r # dotted_groups (dropWhile is_digit r) else [])"
  by pat_completeness auto
termination
  by (relation "measure length") (auto simp: le_imp_less_Suc length_dropWhile_le)

declare dotted_groups.simps [simp del]

text \<open>
  The first maximal \<open>digits(.digits)+\<close>.  The pattern cannot start inside a run of digits, so a run without a dotted
  group after it is skipped whole.
\<close>

function version_search :: "string \<Rightarrow> string list option" where
  "version_search s =
     (case s of
        [] \<Rightarrow> None
      | c # cs \<Rightarrow>
          if \<not> is_digit c then version_search cs
          else let r = dropWhile is_digit cs
               in if dotted_groups r = [] then version_search r
                  else Some ((c # takeWhile is_digit cs) # dotted_groups r))"
  by pat_completeness auto
termination
  by (relation "measure length") (auto simp: le_imp_less_Suc length_dropWhile_le)

declare version_search.simps [simp del]

definition runtime_version_tuple :: "string \<Rightarrow> int list option" where
  "runtime_version_tuple v = map_option (map parse_int) (version_search v)"

definition runtime_version_matches :: "string \<Rightarrow> string \<Rightarrow> bool" where
  "runtime_version_matches configured observed \<longleftrightarrow>
     take (length configured) observed = configured
   \<or> (case (runtime_version_tuple configured, runtime_version_tuple observed) of
        (Some c, Some v) \<Rightarrow> take (length c) v = c
      | _ \<Rightarrow> False)"

section \<open>Discovery\<close>

record host =
  host_machine :: string
  host_system :: string
  host_cpu_count :: "int option"
  host_meminfo :: "string list option"
  host_python :: string
  on_path :: "string \<Rightarrow> bool"
  version_output :: "string \<Rightarrow> string list option"

text \<open>\<open>str.lower\<close> on ASCII, \<open>str.split\<close> at white space.\<close>

definition lower_char :: "char \<Rightarrow> char" where
  "lower_char c = (if CHR ''A'' \<le> c \<and> c \<le> CHR ''Z'' then char_of (of_char c + 32 :: nat) else c)"

fun words_of :: "string \<Rightarrow> string \<Rightarrow> string list" where
  "words_of [] w = (if w = [] then [] else [rev w])"
| "words_of (c # cs) w =
     (if is_space c then (if w = [] then words_of cs [] else rev w # words_of cs []) else words_of cs (c # w))"

text \<open>\<open>int(x)\<close> of a word of digits.\<close>

definition int_of_word :: "string \<Rightarrow> int result" where
  "int_of_word w =
     (if w \<noteq> [] \<and> list_all is_digit w then Inr (parse_int w)
      else Inl (ValueError (''invalid literal for int() with base 10: '' @ w)))"

definition memory_mb :: "host \<Rightarrow> int option result" where
  "memory_mb h =
     (case Option.bind (host_meminfo h) (find (\<lambda>l. take 9 l = ''MemTotal:'')) of
        None \<Rightarrow> Inr None
      | Some l \<Rightarrow> (case words_of l [] of
          _ # w # _ \<Rightarrow> bind_result (int_of_word w) (\<lambda>kb. Inr (Some (kb div 1024)))
        | _ \<Rightarrow> Inl (OtherError ''IndexError'')))"

definition command_version :: "host \<Rightarrow> string \<Rightarrow> string option" where
  "command_version h c =
     (if \<not> on_path h c then None
      else case version_output h c of
        None \<Rightarrow> None
      | Some [] \<Rightarrow> None
      | Some (l # _) \<Rightarrow> Some l)"

definition common_commands :: "string set" where
  "common_commands = {''bash'', ''python3'', ''rsync'', ''mpirun'', ''mpiexec''}"

definition discovered_commands :: "host \<Rightarrow> node_config \<Rightarrow> string set" where
  "discovered_commands h n = {c \<in> commands (capabilities n) \<union> common_commands. on_path h c}"

definition discovered_runtimes :: "host \<Rightarrow> string dict" where
  "discovered_runtimes h =
     (''python'', host_python h)
     # List.map_filter (\<lambda>(name, c). map_option (\<lambda>v. (name, v)) (command_version h c))
         [(''openmpi'', ''mpirun''), (''rsync'', ''rsync'')]"

definition discovered_features :: "string set \<Rightarrow> string set" where
  "discovered_features found =
     {''local-command'', ''python-module'', ''process-group'', ''application-checkpoint'', ''dendro-adapter''}
     \<union> (if ''mpirun'' \<in> found \<or> ''mpiexec'' \<in> found then {''mpi''} else {})"

definition discover_local_capabilities :: "host \<Rightarrow> node_config \<Rightarrow> node_runtime_capabilities result" where
  "discover_local_capabilities h n =
     bind_result (memory_mb h) (\<lambda>memory.
       Inr \<lparr>architecture = Some (map lower_char (host_machine h)),
            operating_system = Some (map lower_char (host_system h)),
            cap_cpu_cores = Some (case host_cpu_count h of Some i \<Rightarrow> if i = 0 then 1 else of_int i | None \<Rightarrow> 1),
            cap_memory_mb = memory, cap_gpu_count = capacity_gpu_count (resources n),
            cap_accelerator_types = capacity_accelerator_types (resources n),
            commands = discovered_commands h n, runtimes = discovered_runtimes h,
            features = discovered_features (discovered_commands h n)\<rparr>)"

section \<open>Drift\<close>

datatype drift =
    ArchitectureDrift string "string option"
  | SystemDrift string "string option"
  | CommandsMissing "string set"
  | FeaturesMissing "string set"
  | RuntimeMissing string
  | VersionDrift string string string

definition runtime_drift :: "string dict \<Rightarrow> string \<times> string \<Rightarrow> drift list" where
  "runtime_drift found kv =
     (case dict_get found (fst kv) of
        None \<Rightarrow> [RuntimeMissing (fst kv)]
      | Some v \<Rightarrow> if runtime_version_matches (snd kv) v then [] else [VersionDrift (fst kv) (snd kv) v])"

definition drift_of :: "node_runtime_capabilities \<Rightarrow> node_runtime_capabilities \<Rightarrow> drift list" where
  "drift_of c v =
     (case architecture c of Some a \<Rightarrow> if architecture v \<noteq> Some a then [ArchitectureDrift a (architecture v)] else []
      | None \<Rightarrow> [])
     @ (case operating_system c of
          Some s \<Rightarrow> if operating_system v \<noteq> Some s then [SystemDrift s (operating_system v)] else []
        | None \<Rightarrow> [])
     @ (let m = commands c - commands v in if m \<noteq> {} then [CommandsMissing m] else [])
     @ (let m = features c - features v in if m \<noteq> {} then [FeaturesMissing m] else [])
     @ concat (map (runtime_drift (runtimes v)) (runtimes c))"

record capability_report =
  report_configured :: node_runtime_capabilities
  report_observed :: node_runtime_capabilities
  report_drift :: "drift list"
  report_ready :: bool

definition capability_report_of :: "node_config \<Rightarrow> node_runtime_capabilities \<Rightarrow> capability_report" where
  "capability_report_of n v =
     \<lparr>report_configured = capabilities n, report_observed = v, report_drift = drift_of (capabilities n) v,
      report_ready = (drift_of (capabilities n) v = [])\<rparr>"

section \<open>What readiness means\<close>

lemma runtime_drift_Nil_iff:
  "runtime_drift found kv = [] \<longleftrightarrow>
     (\<exists>v. dict_get found (fst kv) = Some v \<and> runtime_version_matches (snd kv) v)"
  by (simp add: runtime_drift_def split: option.split)

lemma drift_Nil_iff:
  "drift_of c v = [] \<longleftrightarrow>
     (\<forall>a. architecture c = Some a \<longrightarrow> architecture v = Some a)
   \<and> (\<forall>s. operating_system c = Some s \<longrightarrow> operating_system v = Some s)
   \<and> commands c \<subseteq> commands v \<and> features c \<subseteq> features v
   \<and> (\<forall>(name, ver) \<in> set (runtimes c). \<exists>w. dict_get (runtimes v) name = Some w \<and> runtime_version_matches ver w)"
  by (cases "architecture c"; cases "operating_system c")
     (auto simp: drift_of_def Let_def runtime_drift_Nil_iff)

text \<open>What a task asks for beyond quantities of resources and versions of runtimes.\<close>

definition qualitative :: "task_compatibility_requirements \<Rightarrow> bool" where
  "qualitative r \<longleftrightarrow> minimum_cpu_cores r = None \<and> minimum_memory_mb r = None \<and> minimum_gpu_count r = None
   \<and> req_accelerator_types r = {} \<and> required_runtimes r = []"

text \<open>A prefix of the text of a version is not a prefix of the version.\<close>

lemma prefix_confuses_versions:
  "runtime_version_matches ''3.1'' ''3.11.2''" "\<not> version_matches ''3.11.2'' ''==3.1''"
  by code_simp+

text \<open>Cores, memory, accelerators and the text of a version may differ without any drift.\<close>

lemma drift_ignores_resources:
  "drift_of c (v\<lparr>cap_cpu_cores := x, cap_memory_mb := y, cap_gpu_count := z, cap_accelerator_types := w\<rparr>) = drift_of c v"
  by (cases "architecture c"; cases "operating_system c") (simp_all add: drift_of_def)

fun of_runtime :: "drift \<Rightarrow> bool" where
  "of_runtime (RuntimeMissing _) = True"
| "of_runtime (VersionDrift _ _ _) = True"
| "of_runtime _ = False"

lemma runtime_drift_kind: "d \<in> set (runtime_drift found kv) \<Longrightarrow> of_runtime d"
  by (auto simp: runtime_drift_def split: option.splits if_splits)

lemma qualitative_drift_Nil_iff:
  "filter (\<lambda>d. \<not> of_runtime d) (drift_of c v) = [] \<longleftrightarrow>
     (\<forall>a. architecture c = Some a \<longrightarrow> architecture v = Some a)
   \<and> (\<forall>s. operating_system c = Some s \<longrightarrow> operating_system v = Some s)
   \<and> commands c \<subseteq> commands v \<and> features c \<subseteq> features v"
proof -
  have "filter (\<lambda>d. \<not> of_runtime d) (concat (map (runtime_drift (runtimes v)) (runtimes c))) = []"
    by (auto simp: filter_empty_conv dest: runtime_drift_kind)
  then show ?thesis
    by (cases "architecture c"; cases "operating_system c") (auto simp: drift_of_def Let_def)
qed

text \<open>A requirement that asks for one thing the configuration has.\<close>

lemma promise_of_architecture:
  "requirements_met (default_requirements\<lparr>architectures := {a}\<rparr>) c' \<longleftrightarrow> architecture c' = Some a"
  by (simp add: requirements_met_def default_requirements_def)

lemma promise_of_system:
  "requirements_met (default_requirements\<lparr>operating_systems := {a}\<rparr>) c' \<longleftrightarrow> operating_system c' = Some a"
  by (simp add: requirements_met_def default_requirements_def)

lemma promise_of_commands:
  "requirements_met (default_requirements\<lparr>required_commands := A\<rparr>) c' \<longleftrightarrow> A \<subseteq> commands c'"
  by (simp add: requirements_met_def default_requirements_def)

lemma promise_of_features:
  "requirements_met (default_requirements\<lparr>required_features := A\<rparr>) c' \<longleftrightarrow> A \<subseteq> features c'"
  by (simp add: requirements_met_def default_requirements_def)

lemma qualitative_defaults:
  "qualitative (default_requirements\<lparr>architectures := A\<rparr>)" "qualitative (default_requirements\<lparr>operating_systems := A\<rparr>)"
  "qualitative (default_requirements\<lparr>required_commands := A\<rparr>)" "qualitative (default_requirements\<lparr>required_features := A\<rparr>)"
  by (simp_all add: qualitative_def default_requirements_def)

text \<open>
  C39. What \<open>ready\<close> promises.  The peers decide compatibility on the configuration of a node.  A node reports no drift
  other than of runtimes exactly when every task whose requirements name architectures, operating systems, commands
  and features, and which is compatible with the configured capabilities, is compatible with those the node observes
  on itself; a node that is ready reports no drift at all.
\<close>

theorem drift_is_a_broken_promise:
  "(filter (\<lambda>d. \<not> of_runtime d) (report_drift (capability_report_of n v)) = []) \<longleftrightarrow>
     (\<forall>r. qualitative r \<and> compatible (check_compatibility r (capabilities n)) \<longrightarrow> compatible (check_compatibility r v))"
  (is "?none \<longleftrightarrow> ?kept")
proof
  assume ?none
  then show ?kept
    by (auto simp: capability_report_of_def qualitative_drift_Nil_iff check_compatibility_iff requirements_met_def qualitative_def)
next
  assume kept: ?kept
  then have promise: "requirements_met r v" if "qualitative r" "requirements_met r (capabilities n)" for r
    using that by (simp add: check_compatibility_iff)
  have "architecture v = Some a" if "architecture (capabilities n) = Some a" for a
    using promise [OF qualitative_defaults(1) [of "{a}"]] that by (simp add: promise_of_architecture)
  moreover have "operating_system v = Some a" if "operating_system (capabilities n) = Some a" for a
    using promise [OF qualitative_defaults(2) [of "{a}"]] that by (simp add: promise_of_system)
  moreover have "commands (capabilities n) \<subseteq> commands v"
    using promise [OF qualitative_defaults(3) [of "commands (capabilities n)"]] by (simp add: promise_of_commands)
  moreover have "features (capabilities n) \<subseteq> features v"
    using promise [OF qualitative_defaults(4) [of "features (capabilities n)"]] by (simp add: promise_of_features)
  ultimately show ?none by (simp add: capability_report_of_def qualitative_drift_Nil_iff)
qed

definition demo_capable :: node_config where
  "demo_capable = \<lparr>node_identity = ''a'', latitude = 0, longitude = 0, task_capacity = None, resources = unlimited_capacity,
     capabilities = default_capabilities\<lparr>commands := {''rsync''}\<rparr>, pue = 1, compute_price_usd_per_hour = 0,
     egress_price_usd_per_gb = 0, carbon_fallback_g_per_kwh = None\<rparr>"

theorem drift_is_a_broken_promise_witness:
  "\<exists>r. qualitative r \<and> compatible (check_compatibility r (capabilities demo_capable))
     \<and> \<not> compatible (check_compatibility r default_capabilities)"
proof -
  have "filter (\<lambda>d. \<not> of_runtime d) (report_drift (capability_report_of demo_capable default_capabilities)) \<noteq> []"
    by (simp add: capability_report_of_def qualitative_drift_Nil_iff demo_capable_def default_capabilities_def)
  with drift_is_a_broken_promise [of demo_capable default_capabilities] show ?thesis by blast
qed

end
