(* ===== verification/Http_Interface.thy ===== *)
theory Http_Interface
  imports Reconciliation Scheduler_Service Telemetry_Service Bid_Arbiter Migration_Protocol Event_Journal Capability_Drift
begin

text \<open>
  \<open>magellan/api/app.py\<close> and \<open>api/peer_client.py\<close>: the handlers of the HTTP interface over the components they call,
  with the status codes they answer.  A request has already been read by its model class.  The components' state is
  the \<open>daemon\<close>; the context the handlers read (configuration, policies, clocks and what the outside answers) is the
  \<open>api_context\<close>.  Fields of an answer that only copy a configured value are left out.
\<close>

section \<open>Refusals\<close>

text \<open>The detail of a refusal is a text of the handler or the text of an exception; an exception no clause catches is a
  plain 500.\<close>

datatype detail = Says string | Text_Of error | Unhandled

datatype refusal = Refusal nat detail

type_synonym 'a response = "refusal + 'a"

fun status_code :: "refusal \<Rightarrow> nat" where
  "status_code (Refusal c _) = c"

fun key_error :: "error \<Rightarrow> bool" where
  "key_error (KeyError _) = True"
| "key_error _ = False"

fun value_error :: "error \<Rightarrow> bool" where
  "value_error (ValueError _) = True"
| "value_error _ = False"

text \<open>The exceptions of the daemon's own classes are runtime errors.\<close>

fun runtime_error :: "error \<Rightarrow> bool" where
  "runtime_error (RuntimeError _) = True"
| "runtime_error (ActivationOutcomeUnknownError _) = True"
| "runtime_error (CheckpointValidationError _) = True"
| "runtime_error (ArtifactValidationError _) = True"
| "runtime_error _ = False"

fun missing_file :: "error \<Rightarrow> bool" where
  "missing_file (FileNotFoundError _) = True"
| "missing_file _ = False"

text \<open>The \<open>except\<close> clauses of a handler, in order.\<close>

type_synonym except_clause = "(error \<Rightarrow> bool) \<times> nat"

fun caught :: "except_clause list \<Rightarrow> error \<Rightarrow> refusal" where
  "caught [] e = Refusal 500 Unhandled"
| "caught ((p, code) # cs) e = (if p e then Refusal code (Text_Of e) else caught cs e)"

definition respond :: "except_clause list \<Rightarrow> 'a result \<Rightarrow> 'a response" where
  "respond cs r = (case r of Inl e \<Rightarrow> Inl (caught cs e) | Inr x \<Rightarrow> Inr x)"

definition responds :: "except_clause list \<Rightarrow> 's \<times> 'a result \<Rightarrow> 's \<times> 'a response" where
  "responds cs sr = (fst sr, respond cs (snd sr))"

definition not_found :: "except_clause list" where
  "not_found = [(key_error, 404)]"

definition not_found_or_conflict :: "except_clause list" where
  "not_found_or_conflict = [(key_error, 404), (\<lambda>e. value_error e \<or> runtime_error e, 409)]"

section \<open>Bids\<close>

definition submit_bid :: "cluster_config \<Rightarrow> node_id \<Rightarrow> bid_request \<Rightarrow> datetime \<Rightarrow> bid_store \<Rightarrow> bid_store \<times> bid_record response" where
  "submit_bid c me q now s =
     (if bid_request.bid_destination q \<noteq> me
      then (s, Inl (Refusal 400 (Says (''Bid destination is '' @ bid_request.bid_destination q @ '', but this daemon is '' @ me))))
      else case get_node c (bid_request.bid_source q) of
        Inl e \<Rightarrow> (s, Inl (caught [(key_error, 400)] e))
      | Inr _ \<Rightarrow> (let (s', r) = submit q now s in (s', Inr r)))"

definition read_bid_record :: "string \<Rightarrow> datetime \<Rightarrow> bid_store \<Rightarrow> bid_store \<times> bid_record response" where
  "read_bid_record i now s =
     (let (s', r) = get_bid i now s
      in (s', case r of None \<Rightarrow> Inl (Refusal 404 (Says (''Unknown bid: '' @ i))) | Some b \<Rightarrow> Inr b))"

definition renew_bid :: "string \<Rightarrow> datetime \<Rightarrow> bid_store \<Rightarrow> bid_store \<times> bid_record response" where
  "renew_bid i now s = responds [(key_error, 404), (runtime_error, 409)] (renew i now s)"

definition cancel_bid :: "string \<Rightarrow> string \<Rightarrow> datetime \<Rightarrow> bid_store \<Rightarrow> bid_store \<times> bid_record response" where
  "cancel_bid i reason now s = responds not_found (cancel i (ReasonText reason) now s)"

section \<open>Tasks\<close>

text \<open>\<open>start\<close> and \<open>stop\<close> call the runtime directly; the other three go through the scheduler service.\<close>

definition start_task ::
  "(task_id \<Rightarrow> start_environment) \<Rightarrow> datetime \<Rightarrow> datetime \<Rightarrow> task_id \<Rightarrow> local_runtime \<Rightarrow> local_runtime \<times> task_state response" where
  "start_task env now written t rt =
     responds [(\<lambda>e. key_error e \<or> runtime_error e, 400)] (start t (env t) now written rt)"

definition settle_and_stop ::
  "accounting_environment \<Rightarrow> stop_reaction \<Rightarrow> datetime \<Rightarrow> datetime \<Rightarrow> task_id \<Rightarrow> local_runtime \<Rightarrow> local_runtime \<times> task_state result" where
  "settle_and_stop env reaction now written t rt =
     (case clock_now (environment_clock env) now of
        Inl e \<Rightarrow> (rt, Inl e)
      | Inr trace \<Rightarrow>
          and_then (settle_task env now trace written t) (\<lambda>_. stop_process t reaction written) rt)"

definition stop_task ::
  "accounting_environment \<Rightarrow> stop_reaction \<Rightarrow> datetime \<Rightarrow> datetime \<Rightarrow> task_id \<Rightarrow> local_runtime \<Rightarrow> local_runtime \<times> task_state response" where
  "stop_task env reaction now written t rt =
     responds [(\<lambda>e. key_error e \<or> runtime_error e, 400)] (settle_and_stop env reaction now written t rt)"

definition pause_running :: "scheduler_environment \<Rightarrow> task_id \<Rightarrow> real option \<Rightarrow> 'd world \<Rightarrow> 'd world \<times> task_state response" where
  "pause_running env t idle s = responds not_found_or_conflict (request_pause env t idle ''Operator requested pause'' s)"

definition resume_paused :: "scheduler_environment \<Rightarrow> task_id \<Rightarrow> 'd world \<Rightarrow> 'd world \<times> task_state response" where
  "resume_paused env t s = responds [(key_error, 404), (runtime_error, 409)] (request_resume env t s)"

definition migrate_task ::
  "'d remote \<Rightarrow> 'd market \<Rightarrow> scheduler_environment \<Rightarrow> task_id \<Rightarrow> node_id \<Rightarrow> 'd world \<Rightarrow> 'd world \<times> migration_answer response" where
  "migrate_task net mk env t dst s = responds not_found_or_conflict (request_migration net mk env t dst s)"

text \<open>The definition and the state of every task.\<close>

definition task_summaries :: "registry \<Rightarrow> (task_definition \<times> task_state) list result" where
  "task_summaries reg =
     collect_results (map (\<lambda>t. bind_result (get_definition reg t) (\<lambda>d. bind_result (get_state reg t) (\<lambda>st. Inr (d, st))))
       (sorted_ids reg))"

section \<open>Definitions and runs\<close>

text \<open>
  The canonical digest is taken before the catalogue is looked at; it raises for a submission that
  has no JSON form (a number that is not finite).
\<close>

definition submit_task_definition ::
  "(definition_submission \<Rightarrow> string result) \<Rightarrow> definition_submission \<Rightarrow> datetime \<Rightarrow> submission_node
     \<Rightarrow> submission_node \<times> definition_record response" where
  "submit_task_definition digest_of q now n =
     (case digest_of q of
        Inl e \<Rightarrow> (n, Inl (caught [(\<lambda>e. value_error e \<or> runtime_error e, 409)] e))
      | Inr hash \<Rightarrow> (let (n', d) = submit_definition (\<lambda>_. hash) q now n in (n', Inr d)))"

definition read_task_definition :: "string \<Rightarrow> int option \<Rightarrow> task_catalog \<Rightarrow> definition_record response" where
  "read_task_definition i wanted c = respond not_found (catalog_definition c i wanted)"

definition create_task_run :: "submission_environment \<Rightarrow> run_submission \<Rightarrow> submission_node \<Rightarrow> submission_node \<times> run_view response" where
  "create_task_run env q n = responds not_found_or_conflict (submit_run env q n)"

definition read_task_run :: "string \<Rightarrow> submission_node \<Rightarrow> run_view response" where
  "read_task_run i n = respond not_found (view_run i n)"

definition read_task_runs :: "submission_node \<Rightarrow> run_view list response" where
  "read_task_runs n = respond [] (view_runs n)"

section \<open>Nodes, carbon, events, policies\<close>

definition node_details :: "cluster_config \<Rightarrow> node_id \<Rightarrow> node_config response" where
  "node_details c i = respond not_found (get_node c i)"

definition carbon_forecast ::
  "cluster_config \<Rightarrow> carbon_store \<Rightarrow> forecast_policy \<Rightarrow> real \<Rightarrow> datetime result \<Rightarrow> node_id \<Rightarrow> real option \<Rightarrow> real \<Rightarrow> forecast_estimate response" where
  "carbon_forecast c cs p default_horizon clock i horizon offset =
     (let duration = (case horizon of None \<Rightarrow> default_horizon | Some h \<Rightarrow> h)
      in case get_node c i of
           Inl e \<Rightarrow> Inl (caught not_found e)
         | Inr _ \<Rightarrow>
             if offset < 0 then Inl (Refusal 400 (Says ''start_offset_seconds must be non-negative''))
             else if duration < 0 then Inl (Refusal 400 (Says ''horizon_seconds must be non-negative''))
             else case clock of
               Inl e \<Rightarrow> Inl (caught [] e)
             | Inr observed \<Rightarrow>
                 respond [(value_error, 422)] (store_forecast cs i observed (observed + offset) duration p))"

record 'p event_page =
  page_last_sequence :: int
  page_events :: "'p experiment_event list"

definition experiment_events ::
  "int \<Rightarrow> task_id option \<Rightarrow> string option \<Rightarrow> int \<Rightarrow> 'p event_journal \<Rightarrow> 'p event_page response" where
  "experiment_events after t kind limit j =
     (if after < 0 then Inl (Refusal 400 (Says ''after_sequence must be non-negative''))
      else if limit < 1 \<or> 100000 < limit then Inl (Refusal 400 (Says ''limit must be between 1 and 100000''))
      else respond [] (bind_result (list_events after t kind limit j) (\<lambda>es.
        Inr \<lparr>page_last_sequence = last_sequence j, page_events = es\<rparr>)))"

definition read_policy_state :: "task_id \<Rightarrow> policy_store \<Rightarrow> policy_state response" where
  "read_policy_state t s =
     (case get_policy s t of
        None \<Rightarrow> Inl (Refusal 404 (Says (''No adaptive policy state for task: '' @ t)))
      | Some p \<Rightarrow> Inr p)"

text \<open>\<open>check_all_peers\<close>: every other node with whether its health answered.\<close>

definition check_all_peers :: "cluster_config \<Rightarrow> node_id \<Rightarrow> (node_config \<Rightarrow> bool) \<Rightarrow> (node_id \<times> bool) list" where
  "check_all_peers c me answers = map (\<lambda>n. (node_identity n, answers n)) (filter (\<lambda>n. node_identity n \<noteq> me) (nodes c))"

definition peer_report :: "cluster_config \<Rightarrow> node_id \<Rightarrow> (node_config \<Rightarrow> bool) \<Rightarrow> nat \<times> nat \<times> (node_id \<times> bool) list" where
  "peer_report c me answers =
     (let rs = check_all_peers c me answers in (length (filter snd rs), length rs, rs))"

section \<open>Telemetry\<close>

definition upload_limit :: "nat \<Rightarrow> nat" where
  "upload_limit probe_bytes = max (probe_bytes * 4) (4 * 1024 * 1024)"

definition probe_upload :: "nat \<Rightarrow> string \<Rightarrow> nat response" where
  "probe_upload probe_bytes body =
     (if upload_limit probe_bytes < length body
      then Inl (Refusal 413 (Says (''Telemetry probe payload exceeds '' @ nat_str (upload_limit probe_bytes) @ '' bytes'')))
      else Inr (length body))"

text \<open>The checks every edge handler begins with: the destination is known and is another node.\<close>

definition refused_peer :: "probe_environment \<Rightarrow> node_id \<Rightarrow> refusal option" where
  "refused_peer env b =
     (case get_node (probe_cluster env) b of
        Inl e \<Rightarrow> Some (caught not_found e)
      | Inr _ \<Rightarrow> if b = probe_node env then Some (Refusal 400 (Says ''Destination must be a peer'')) else None)"

definition view_of_edge :: "probe_environment \<Rightarrow> node_id \<Rightarrow> telemetry_node \<Rightarrow> edge_telemetry_view" where
  "view_of_edge env b n =
     (let (bw, lat) = configured_values (probe_cluster env) (probe_node env) b
      in edge_view_at (telemetry n) (probe_node env) b bw lat (edge_stale_after (probe_policy env)) (probe_clock env Finally_Viewed b))"

definition read_edge :: "probe_environment \<Rightarrow> node_id \<Rightarrow> telemetry_node \<Rightarrow> edge_telemetry_view response" where
  "read_edge env b n = (case refused_peer env b of Some r \<Rightarrow> Inl r | None \<Rightarrow> Inr (view_of_edge env b n))"

definition read_edges :: "probe_environment \<Rightarrow> telemetry_node \<Rightarrow> edge_telemetry_view list" where
  "read_edges env n = map (\<lambda>b. view_of_edge env (node_identity b) n)
     (filter (\<lambda>b. node_identity b \<noteq> probe_node env) (nodes (probe_cluster env)))"

definition ensure_edge :: "probe_environment \<Rightarrow> node_id \<Rightarrow> telemetry_node \<Rightarrow> telemetry_node \<times> edge_telemetry_view response" where
  "ensure_edge env b n =
     (case refused_peer env b of
        Some r \<Rightarrow> (n, Inl r)
      | None \<Rightarrow> responds [] (case ensure_edges_fresh env [b] n of
            (n', Inl e) \<Rightarrow> (n', Inl e)
          | (n', Inr vs) \<Rightarrow> (n', case dict_get vs b of None \<Rightarrow> Inl (KeyError b) | Some v \<Rightarrow> Inr v)))"

definition refresh_edge :: "probe_environment \<Rightarrow> node_id \<Rightarrow> telemetry_node \<Rightarrow> telemetry_node \<times> edge_telemetry_view response" where
  "refresh_edge env b n =
     (case refused_peer env b of
        Some r \<Rightarrow> (n, Inl r)
      | None \<Rightarrow> responds [] (probe_edge env True b n))"

definition refresh_edges :: "probe_environment \<Rightarrow> telemetry_node \<Rightarrow> telemetry_node \<times> (node_id \<times> edge_telemetry_view) list response" where
  "refresh_edges env n = responds [] (refresh_all_edges env n)"

text \<open>An edge measured by the operator.  Quantities that are given are positive (a latency may be 0).\<close>

record edge_sample =
  sample_latency :: "real option"
  sample_bytes :: "int option"
  sample_seconds :: "real option"

definition wf_sample :: "edge_sample \<Rightarrow> bool" where
  "wf_sample q \<longleftrightarrow> (\<forall>l \<in> set_option (sample_latency q). 0 \<le> l)
   \<and> (\<forall>b \<in> set_option (sample_bytes q). 0 < b) \<and> (\<forall>d \<in> set_option (sample_seconds q). 0 < d)"

definition record_sample :: "probe_environment \<Rightarrow> node_id \<Rightarrow> edge_sample \<Rightarrow> telemetry_store \<Rightarrow> telemetry_store \<times> unit result" where
  "record_sample env b q s =
     (let s1 = (case sample_latency q of None \<Rightarrow> s | Some l \<Rightarrow> fst (record_latency (probe_node env) b l (probe_clock env Measured_Latency b) s))
      in case (sample_bytes q, sample_seconds q) of
           (Some bytes, Some d) \<Rightarrow>
             (let (s2, r) = record_transfer (probe_node env) b bytes d (probe_clock env Measured_Transfer b) ''operator_sample'' s1
              in (s2, bind_result r (\<lambda>_. Inr ())))
         | _ \<Rightarrow> (s1, Inr ()))"

definition sample_edge :: "probe_environment \<Rightarrow> node_id \<Rightarrow> edge_sample \<Rightarrow> telemetry_node \<Rightarrow> telemetry_node \<times> edge_telemetry_view response" where
  "sample_edge env b q n =
     (case refused_peer env b of
        Some r \<Rightarrow> (n, Inl r)
      | None \<Rightarrow>
          if sample_latency q = None \<and> sample_bytes q = None
          then (n, Inl (Refusal 400 (Says ''At least one sample is required'')))
          else if (sample_bytes q = None) \<noteq> (sample_seconds q = None)
          then (n, Inl (Refusal 400 (Says ''transfer_bytes and transfer_duration_seconds must be provided together'')))
          else let (n', r) = on_telemetry (record_sample env b q) n
               in (n', respond [] (bind_result r (\<lambda>_. Inr (view_of_edge env b n')))))"

definition view_of_task :: "probe_environment \<Rightarrow> telemetry_node \<Rightarrow> task_id \<Rightarrow> task_definition \<Rightarrow> task_telemetry_view" where
  "view_of_task env n t d =
     task_view (telemetry n) t (power_kw (profile d)) (task_stale_after (probe_policy env)) (sample_clock env t)"

definition read_task_telemetry :: "probe_environment \<Rightarrow> registry \<Rightarrow> telemetry_node \<Rightarrow> task_id \<Rightarrow> task_telemetry_view response" where
  "read_task_telemetry env reg n t =
     respond not_found (bind_result (get_definition reg t) (\<lambda>d. Inr (view_of_task env n t d)))"

definition read_tasks_telemetry :: "probe_environment \<Rightarrow> registry \<Rightarrow> telemetry_node \<Rightarrow> task_telemetry_view list response" where
  "read_tasks_telemetry env reg n =
     respond [] (bind_result (all_states reg) (\<lambda>sts. collect_results
       (map (\<lambda>st. bind_result (get_definition reg (task_state.state_task_id st))
          (\<lambda>d. Inr (view_of_task env n (task_state.state_task_id st) d))) sts)))"

section \<open>Migrations, ownership, outputs, reconciliation\<close>

definition read_migration :: "string \<Rightarrow> journal \<Rightarrow> migration_record response" where
  "read_migration m j =
     (case journal_get j m of None \<Rightarrow> Inl (Refusal 404 (Says (''Unknown migration: '' @ m))) | Some r \<Rightarrow> Inr r)"

definition activate_migration ::
  "activation_environment \<Rightarrow> activation_request \<Rightarrow> migration_node \<Rightarrow> migration_node \<times> activation_response response" where
  "activate_migration env q n = responds [] (activate_incoming env q n)"

definition ownership_snapshot :: "migration_node \<Rightarrow> (ownership_update \<times> policy_state option) list response" where
  "ownership_snapshot n =
     respond [] (bind_result (ownership_updates (tasks (runtime_of n))) (\<lambda>us.
       Inr (map (\<lambda>u. (u, Option.bind (policies n) (\<lambda>s. get_policy s (ou_task_id u)))) us)))"

definition update_ownership ::
  "datetime \<Rightarrow> ownership_update \<Rightarrow> policy_state option \<Rightarrow> migration_node \<Rightarrow> migration_node \<times> bool response" where
  "update_ownership now u p n = responds not_found (receive_ownership now u p n)"

definition output_owner :: "local_runtime \<Rightarrow> task_id \<Rightarrow> except_clause list \<Rightarrow> unit response" where
  "output_owner rt t cs =
     (case get_state (tasks rt) t of
        Inl e \<Rightarrow> Inl (caught cs e)
      | Inr st \<Rightarrow>
          if owner_node_id st \<noteq> runtime_node rt
          then Inl (Refusal 409 (Says (''Final outputs are owned by '' @ owner_node_id st))) else Inr ())"

definition task_outputs :: "local_runtime \<Rightarrow> task_id \<Rightarrow> final_output_manifest response" where
  "task_outputs rt t =
     (let cs = [(key_error, 404), (missing_file, 404)]
      in case output_owner rt t cs of
           Inl r \<Rightarrow> Inl r
         | Inr _ \<Rightarrow> respond cs (bind_result (get_definition (tasks rt) t) (\<lambda>_. load_manifest (files_of rt t))))"

text \<open>The file is named by its parts below the output directory, whose regular files are given.\<close>

definition task_output_file ::
  "(task_id \<Rightarrow> string list) \<Rightarrow> (task_id \<Rightarrow> string list set) \<Rightarrow> local_runtime \<Rightarrow> task_id \<Rightarrow> string \<Rightarrow> string list response" where
  "task_output_file base regular rt t raw =
     (let cs = [(key_error, 404), (missing_file, 404), (runtime_error, 400)]
      in case output_owner rt t cs of
           Inl r \<Rightarrow> Inl r
         | Inr _ \<Rightarrow> respond cs (bind_result (get_definition (tasks rt) t) (\<lambda>d.
             resolve_output_file (runtime d) (base t) (regular t) raw)))"

text \<open>What an exited process answers, as the reconciliation of the runtime reads it.\<close>

record exit_environment =
  exit_digest :: "string \<Rightarrow> string"
  exit_manifest_text :: "final_output_manifest \<Rightarrow> string"
  exit_codes :: "task_id \<Rightarrow> int option"
  exit_synthesis :: "task_id \<Rightarrow> int option \<Rightarrow> task_files \<Rightarrow> task_files"

definition reconcile_runtime ::
  "exit_environment \<Rightarrow> datetime \<Rightarrow> datetime \<Rightarrow> local_runtime \<Rightarrow> local_runtime \<times> reconcile_event list response" where
  "reconcile_runtime env now written rt =
     responds [] (reconcile (exit_digest env) (exit_manifest_text env) (exit_codes env) (exit_synthesis env) now written rt)"

section \<open>Health\<close>

record health_report =
  hr_owned :: nat
  hr_pending_bids :: nat
  hr_reservations :: nat
  hr_completed :: nat
  hr_paused :: nat
  hr_migrations :: nat
  hr_definitions :: nat
  hr_runs :: nat
  hr_task_records :: nat
  hr_edge_records :: nat
  hr_calibrations :: nat
  hr_policies :: nat
  hr_slots :: "int option"
  hr_busy :: real

definition count_status :: "task_status \<Rightarrow> (task_definition \<times> task_state) list \<Rightarrow> nat" where
  "count_status x ss = length (filter (\<lambda>(_, st). task_status st = x) ss)"

definition health ::
  "arbiter \<Rightarrow> datetime \<Rightarrow> task_catalog \<Rightarrow> telemetry_node \<Rightarrow> policy_store \<Rightarrow> migration_node \<Rightarrow> migration_node \<times> health_report response" where
  "health a now c tn ps n =
     (let reg = tasks (runtime_of n);
          (b1, rs) = list_records now (bids n);
          (b2, active) = active_reservation_count now b1
      in case bind_result (count_owned reg (local_id n)) (\<lambda>owned.
              bind_result (owned_resource_requests reg (local_id n)) (\<lambda>qs.
              bind_result (task_summaries reg) (\<lambda>ss. Inr (owned, qs, ss)))) of
           Inl e \<Rightarrow> (n\<lparr>bids := b2\<rparr>, Inl (caught [] e))
         | Inr (owned, qs, ss) \<Rightarrow>
             let (b3, _, _, _, slots, busy, _) = arbiter_status a owned qs now b2
             in (n\<lparr>bids := b3\<rparr>, Inr
                  \<lparr>hr_owned = owned, hr_pending_bids = length (filter (\<lambda>r. bid_record.status r = Pending) rs),
                   hr_reservations = active, hr_completed = count_status Completed ss, hr_paused = count_status Paused ss,
                   hr_migrations = length (journal_records (journal n)), hr_definitions = length (list_definitions c),
                   hr_runs = length (list_runs c), hr_task_records = length (task_records (document (telemetry tn))),
                   hr_edge_records = length (edge_records (document (telemetry tn))),
                   hr_calibrations = length (calibrations (document (telemetry tn))),
                   hr_policies = length (list_policies ps), hr_slots = slots, hr_busy = busy\<rparr>))"

section \<open>The requests\<close>

text \<open>What a daemon keeps between two requests: its node with the nodes it reaches, its catalogue, telemetry, journal.\<close>

record ('p, 'd) daemon =
  daemon_world :: "'d world"
  daemon_catalog :: task_catalog
  daemon_telemetry :: telemetry_node
  daemon_events :: "'p event_journal"

record 'd api_context =
  api_scheduler :: scheduler_environment
  api_remote :: "'d remote"
  api_market :: "'d market"
  api_submission :: submission_environment
  api_definition_digest :: "definition_submission \<Rightarrow> string result"
  api_probe :: probe_environment
  api_start :: "task_id \<Rightarrow> start_environment"
  api_stop :: stop_reaction
  api_activation :: activation_environment
  api_exit :: exit_environment
  api_carbon :: carbon_store
  api_forecast :: forecast_policy
  api_horizon :: real
  api_output_base :: "task_id \<Rightarrow> string list"
  api_output_files :: "task_id \<Rightarrow> string list set"
  api_now :: datetime
  api_written :: datetime

datatype request =
    Submit_Bid bid_request
  | Read_Bid string
  | Renew_Bid string
  | Cancel_Bid string string
  | Start_Task task_id
  | Stop_Task task_id
  | Pause_Task task_id "real option"
  | Resume_Task task_id
  | Migrate_Task task_id node_id
  | Submit_Definition definition_submission
  | Read_Definition string "int option"
  | Create_Run run_submission
  | Read_Run string
  | Read_Node node_id
  | Read_Forecast node_id "real option" real
  | Read_Events int "task_id option" "string option" int
  | Read_Policy task_id
  | Reset_Policy task_id
  | Read_Edge node_id
  | Ensure_Edge node_id
  | Refresh_Edge node_id
  | Sample_Edge node_id edge_sample
  | Read_Task_Telemetry task_id
  | Read_Migration string
  | Activate activation_request
  | Update_Ownership ownership_update "policy_state option"
  | Read_Outputs task_id
  | Read_Output_File task_id string
  | Reconcile_Runtime

definition daemon_node :: "('p, 'd) daemon \<Rightarrow> migration_node" where
  "daemon_node d = fst (daemon_world d)"

definition set_node :: "migration_node \<Rightarrow> ('p, 'd) daemon \<Rightarrow> ('p, 'd) daemon" where
  "set_node n d = d\<lparr>daemon_world := (n, snd (daemon_world d))\<rparr>"

definition refusal_of :: "'a response \<Rightarrow> refusal option" where
  "refusal_of r = (case r of Inl x \<Rightarrow> Some x | Inr _ \<Rightarrow> None)"

text \<open>A handler of one component, run on the daemon; of its answer only the refusal is kept.\<close>

definition at_bids :: "(bid_store \<Rightarrow> bid_store \<times> 'a response) \<Rightarrow> ('p, 'd) daemon \<Rightarrow> ('p, 'd) daemon \<times> refusal option" where
  "at_bids f d = (let (s, r) = f (bids (daemon_node d)) in (set_node ((daemon_node d)\<lparr>bids := s\<rparr>) d, refusal_of r))"

definition at_runtime ::
  "(local_runtime \<Rightarrow> local_runtime \<times> 'a response) \<Rightarrow> ('p, 'd) daemon \<Rightarrow> ('p, 'd) daemon \<times> refusal option" where
  "at_runtime f d =
     (let (rt, r) = f (runtime_of (daemon_node d)) in (set_node ((daemon_node d)\<lparr>runtime_of := rt\<rparr>) d, refusal_of r))"

definition at_node :: "(migration_node \<Rightarrow> migration_node \<times> 'a response) \<Rightarrow> ('p, 'd) daemon \<Rightarrow> ('p, 'd) daemon \<times> refusal option" where
  "at_node f d = (let (n, r) = f (daemon_node d) in (set_node n d, refusal_of r))"

definition at_world :: "('d world \<Rightarrow> 'd world \<times> 'a response) \<Rightarrow> ('p, 'd) daemon \<Rightarrow> ('p, 'd) daemon \<times> refusal option" where
  "at_world f d = (let (w, r) = f (daemon_world d) in (d\<lparr>daemon_world := w\<rparr>, refusal_of r))"

definition at_catalog ::
  "(submission_node \<Rightarrow> submission_node \<times> 'a response) \<Rightarrow> ('p, 'd) daemon \<Rightarrow> ('p, 'd) daemon \<times> refusal option" where
  "at_catalog f d =
     (let ((c, rt), r) = f (daemon_catalog d, runtime_of (daemon_node d))
      in (set_node ((daemon_node d)\<lparr>runtime_of := rt\<rparr>) (d\<lparr>daemon_catalog := c\<rparr>), refusal_of r))"

definition at_telemetry ::
  "(telemetry_node \<Rightarrow> telemetry_node \<times> 'a response) \<Rightarrow> ('p, 'd) daemon \<Rightarrow> ('p, 'd) daemon \<times> refusal option" where
  "at_telemetry f d = (let (n, r) = f (daemon_telemetry d) in (d\<lparr>daemon_telemetry := n\<rparr>, refusal_of r))"

definition policy_store_of :: "migration_node \<Rightarrow> policy_store" where
  "policy_store_of n = (case policies n of None \<Rightarrow> load_policies None | Some s \<Rightarrow> s)"

definition reset_policy_of :: "task_id \<Rightarrow> migration_node \<Rightarrow> migration_node \<times> bool response" where
  "reset_policy_of t n =
     (let (s, b) = reset_policy (policy_store_of n) t in (n\<lparr>policies := map_option (\<lambda>_. s) (policies n)\<rparr>, Inr b))"

fun serve :: "'d api_context \<Rightarrow> request \<Rightarrow> ('p, 'd) daemon \<Rightarrow> ('p, 'd) daemon \<times> refusal option" where
  "serve x (Submit_Bid q) d =
     at_bids (submit_bid (sched_cluster (api_scheduler x)) (local_id (daemon_node d)) q (api_now x)) d"
| "serve x (Read_Bid i) d = at_bids (read_bid_record i (api_now x)) d"
| "serve x (Renew_Bid i) d = at_bids (renew_bid i (api_now x)) d"
| "serve x (Cancel_Bid i reason) d = at_bids (cancel_bid i reason (api_now x)) d"
| "serve x (Start_Task t) d = at_runtime (start_task (api_start x) (api_now x) (api_written x) t) d"
| "serve x (Stop_Task t) d =
     at_runtime (stop_task (sched_accounting (api_scheduler x)) (api_stop x) (api_now x) (api_written x) t) d"
| "serve x (Pause_Task t idle) d = at_world (pause_running (api_scheduler x) t idle) d"
| "serve x (Resume_Task t) d = at_world (resume_paused (api_scheduler x) t) d"
| "serve x (Migrate_Task t dst) d = at_world (migrate_task (api_remote x) (api_market x) (api_scheduler x) t dst) d"
| "serve x (Submit_Definition q) d = at_catalog (submit_task_definition (api_definition_digest x) q (api_now x)) d"
| "serve x (Read_Definition i r) d = (d, refusal_of (read_task_definition i r (daemon_catalog d)))"
| "serve x (Create_Run q) d = at_catalog (create_task_run (api_submission x) q) d"
| "serve x (Read_Run i) d = (d, refusal_of (read_task_run i (daemon_catalog d, runtime_of (daemon_node d))))"
| "serve x (Read_Node i) d = (d, refusal_of (node_details (sched_cluster (api_scheduler x)) i))"
| "serve x (Read_Forecast i horizon offset) d =
     (d, refusal_of (carbon_forecast (sched_cluster (api_scheduler x)) (api_carbon x) (api_forecast x) (api_horizon x)
           (clock_now (environment_clock (sched_accounting (api_scheduler x))) (api_now x)) i horizon offset))"
| "serve x (Read_Events after t kind limit) d = (d, refusal_of (experiment_events after t kind limit (daemon_events d)))"
| "serve x (Read_Policy t) d = (d, refusal_of (read_policy_state t (policy_store_of (daemon_node d))))"
| "serve x (Reset_Policy t) d = at_node (reset_policy_of t) d"
| "serve x (Read_Edge b) d = (d, refusal_of (read_edge (api_probe x) b (daemon_telemetry d)))"
| "serve x (Ensure_Edge b) d = at_telemetry (ensure_edge (api_probe x) b) d"
| "serve x (Refresh_Edge b) d = at_telemetry (refresh_edge (api_probe x) b) d"
| "serve x (Sample_Edge b q) d = at_telemetry (sample_edge (api_probe x) b q) d"
| "serve x (Read_Task_Telemetry t) d =
     (d, refusal_of (read_task_telemetry (api_probe x) (tasks (runtime_of (daemon_node d))) (daemon_telemetry d) t))"
| "serve x (Read_Migration m) d = (d, refusal_of (read_migration m (journal (daemon_node d))))"
| "serve x (Activate q) d = at_node (activate_migration (api_activation x) q) d"
| "serve x (Update_Ownership u p) d = at_node (update_ownership (api_written x) u p) d"
| "serve x (Read_Outputs t) d = (d, refusal_of (task_outputs (runtime_of (daemon_node d)) t))"
| "serve x (Read_Output_File t raw) d =
     (d, refusal_of (task_output_file (api_output_base x) (api_output_files x) (runtime_of (daemon_node d)) t raw))"
| "serve x Reconcile_Runtime d = at_runtime (reconcile_runtime (api_exit x) (api_now x) (api_written x)) d"

end
