(* ===== verification/Http_Claims.thy ===== *)
theory Http_Claims
  imports Http_Interface Scheduler_Claims
begin

text \<open>What a refusal of the HTTP interface means for the daemon that answers it, and the limits of what it promises.\<close>

section \<open>Refusals\<close>

lemma respond_Inl_iff: "respond cs r = Inl x \<longleftrightarrow> (\<exists>e. r = Inl e \<and> x = caught cs e)"
  by (cases r) (auto simp: respond_def)

lemma refusal_of_Some_iff [simp]: "refusal_of r = Some x \<longleftrightarrow> r = Inl x"
  by (cases r) (simp_all add: refusal_of_def)

lemma uncaught: "respond [] r = Inl x \<Longrightarrow> status_code x = 500"
  by (auto simp: respond_Inl_iff)

lemma caught_key: "caught not_found e = x \<Longrightarrow> status_code x \<noteq> 500 \<Longrightarrow> key_error e"
  by (auto simp: not_found_def split: if_splits)

lemma set_node_same [simp]: "set_node (daemon_node d) d = d"
  by (simp add: set_node_def daemon_node_def)

text \<open>A handler that leaves its component as it was whenever it refuses for a reason it knows.\<close>

definition quiet :: "('s \<Rightarrow> 's \<times> 'a response) \<Rightarrow> bool" where
  "quiet f \<longleftrightarrow> (\<forall>s s' r. f s = (s', Inl r) \<longrightarrow> status_code r \<noteq> 500 \<longrightarrow> s' = s)"

lemma quietD: "quiet f \<Longrightarrow> f s = (s', Inl r) \<Longrightarrow> status_code r \<noteq> 500 \<Longrightarrow> s' = s"
  by (simp add: quiet_def)

lemma quiet_total: "(\<And>s. \<exists>s' x. f s = (s', Inr x)) \<Longrightarrow> quiet f"
  by (metis quiet_def Inl_Inr_False snd_conv)

lemma quiet_uncaught: "(\<And>s. \<exists>y. f s = responds [] y) \<Longrightarrow> quiet f"
  unfolding quiet_def responds_def by (metis snd_conv uncaught)

lemma quiet_submit_bid: "quiet (submit_bid c me q now)"
  by (auto simp: quiet_def submit_bid_def split: if_splits sum.splits prod.splits)

lemma quiet_cancel_bid: "quiet (cancel_bid i reason now)"
  by (auto simp: quiet_def cancel_bid_def responds_def respond_Inl_iff cancel_def Let_def split: option.splits if_splits)

lemma quiet_ensure_edge: "quiet (ensure_edge env b)"
  unfolding quiet_def ensure_edge_def by (auto simp: responds_def dest: uncaught split: option.splits)

lemma quiet_refresh_edge: "quiet (refresh_edge env b)"
  unfolding quiet_def refresh_edge_def by (auto simp: responds_def dest: uncaught split: option.splits)

lemma quiet_sample_edge: "quiet (sample_edge env b q)"
  unfolding quiet_def sample_edge_def
  by (auto simp: Let_def dest: uncaught split: option.splits if_splits prod.splits)

lemma quiet_submit_definition: "quiet (submit_task_definition digest_of q now)"
  by (auto simp: quiet_def submit_task_definition_def split: sum.splits prod.splits)

lemma quiet_reset_policy: "quiet (reset_policy_of t)"
  by (rule quiet_total) (auto simp: reset_policy_of_def split: prod.split)

lemma quiet_activate: "quiet (activate_migration env q)"
  unfolding activate_migration_def by (rule quiet_uncaught) blast

lemma quiet_reconcile: "quiet (reconcile_runtime env now written)"
  unfolding reconcile_runtime_def by (rule quiet_uncaught) blast

text \<open>An ownership update raises a key error only for a task the node does not know.\<close>

lemma known_after_write:
  "get_state reg t = Inr st \<Longrightarrow> \<exists>st'. get_state (write_state now s reg) t = Inr st'"
  by (auto simp: get_state_def bind_result_Inr_iff get_definition_def write_state_def dict_get_put split: option.splits)

lemma run_edit_known:
  assumes st: "get_state reg t = Inr st" and f: "\<And>x e. f x \<noteq> Raise e" and r: "run_edit f now t reg = (reg', r)"
  shows "(\<exists>x. r = Inr x) \<and> (\<exists>st'. get_state reg' t = Inr st')"
proof (cases "f st")
  case Keep
  then have "reg' = reg" "r = Inr st" using st r by (simp_all add: run_edit_def)
  then show ?thesis using st by simp
next
  case (Store s)
  then have "reg' = write_state now s reg" "r = Inr (s\<lparr>updated_at := now\<rparr>)" using st r by (simp_all add: run_edit_def)
  then show ?thesis using known_after_write [OF st] by simp
qed (use f in blast)

lemma apply_ownership_total: "apply_ownership node u st \<noteq> Raise e"
  by (simp add: apply_ownership_def Let_def)

lemma set_artifact_digests_total: "set_artifact_digests ds st \<noteq> Raise e"
  by (simp add: set_artifact_digests_def)

lemma receive_ownership_known:
  assumes st: "get_state (tasks (runtime_of n)) (ou_task_id u) = Inr st"
  shows "\<exists>b. snd (receive_ownership now u p n) = Inr b"
proof -
  let ?t = "ou_task_id u"
  obtain reg r where a: "run_edit (apply_ownership (local_id n) u) now ?t (tasks (runtime_of n)) = (reg, r)" by fastforce
  obtain reg2 r2 where b: "run_edit (set_artifact_digests (ou_artifact_digests u)) now ?t reg = (reg2, r2)" by fastforce
  obtain x st' where r: "r = Inr x" and st': "get_state reg ?t = Inr st'"
    using run_edit_known [OF st apply_ownership_total a] by blast
  obtain y where "r2 = Inr y"
    using run_edit_known [OF st' set_artifact_digests_total b] by blast
  then show ?thesis
    using a b r st by (simp add: receive_ownership_def and_then_def answer_def in_runtime_def on_tasks_def Let_def)
qed

lemma receive_ownership_key_error:
  assumes "receive_ownership now u p n = (n', Inl e)"
  shows "n' = n"
proof (cases "get_state (tasks (runtime_of n)) (ou_task_id u)")
  case (Inl e')
  then show ?thesis using assms by (simp add: receive_ownership_def)
next
  case (Inr st)
  then show ?thesis using receive_ownership_known [OF Inr, of now p] assms by simp
qed

lemma quiet_update_ownership: "quiet (update_ownership now u p)"
  unfolding quiet_def update_ownership_def
  by (auto simp: responds_def respond_Inl_iff) (metis prod.collapse receive_ownership_key_error)

section \<open>From a component to the daemon\<close>

lemma at_bids_quiet: "at_bids f d = (d', Some r) \<Longrightarrow> quiet f \<Longrightarrow> status_code r \<noteq> 500 \<Longrightarrow> d' = d"
  by (auto simp: at_bids_def dest: quietD split: prod.splits)

lemma at_runtime_quiet: "at_runtime f d = (d', Some r) \<Longrightarrow> quiet f \<Longrightarrow> status_code r \<noteq> 500 \<Longrightarrow> d' = d"
  by (auto simp: at_runtime_def dest: quietD split: prod.splits)

lemma at_node_quiet: "at_node f d = (d', Some r) \<Longrightarrow> quiet f \<Longrightarrow> status_code r \<noteq> 500 \<Longrightarrow> d' = d"
  by (auto simp: at_node_def dest: quietD split: prod.splits)

lemma at_telemetry_quiet: "at_telemetry f d = (d', Some r) \<Longrightarrow> quiet f \<Longrightarrow> status_code r \<noteq> 500 \<Longrightarrow> d' = d"
  by (auto simp: at_telemetry_def dest: quietD split: prod.splits)

lemma at_catalog_quiet:
  assumes "at_catalog f d = (d', Some r)" "quiet f" "status_code r \<noteq> 500"
  shows "d' = d"
proof -
  obtain c rt y where f: "f (daemon_catalog d, runtime_of (daemon_node d)) = ((c, rt), y)"
    by (cases "f (daemon_catalog d, runtime_of (daemon_node d))") auto
  then have d': "d' = set_node ((daemon_node d)\<lparr>runtime_of := rt\<rparr>) (d\<lparr>daemon_catalog := c\<rparr>)" and y: "y = Inl r"
    using assms(1) by (simp_all add: at_catalog_def Let_def)
  have "(c, rt) = (daemon_catalog d, runtime_of (daemon_node d))" by (rule quietD [OF assms(2) f [unfolded y] assms(3)])
  then show ?thesis using d' by (simp add: set_node_def daemon_node_def)
qed

text \<open>The requests that act on processes or record runs; they may have acted before they are refused.\<close>

fun acts_on_tasks :: "request \<Rightarrow> bool" where
  "acts_on_tasks (Start_Task _) = True"
| "acts_on_tasks (Stop_Task _) = True"
| "acts_on_tasks (Pause_Task _ _) = True"
| "acts_on_tasks (Resume_Task _) = True"
| "acts_on_tasks (Migrate_Task _ _) = True"
| "acts_on_tasks (Create_Run _) = True"
| "acts_on_tasks _ = False"

definition bids_expired :: "datetime \<Rightarrow> ('p, 'd) daemon \<Rightarrow> ('p, 'd) daemon" where
  "bids_expired now d = set_node ((daemon_node d)\<lparr>bids := fst (expire_locked now (bids (daemon_node d)))\<rparr>) d"

lemma read_bid_expires:
  "at_bids (read_bid_record i now) d = (d', y) \<Longrightarrow> d' = bids_expired now d"
  by (auto simp: at_bids_def read_bid_record_def get_bid_def bids_expired_def Let_def)

lemma renew_bid_expires:
  "at_bids (renew_bid i now) d = (d', Some r) \<Longrightarrow> d' = bids_expired now d"
  by (auto simp: at_bids_def renew_bid_def responds_def respond_Inl_iff renew_def bids_expired_def Let_def
      split: option.splits if_splits)

text \<open>
  C31. A refusal changes nothing.  Every request that is not one of the six acting on processes or recording a run, and
  that is refused with a status code other than 500, leaves the daemon as it was, except that reading or renewing
  a bid first expires the bids that are due.
\<close>

theorem refused_requests_change_nothing:
  assumes "serve x q d = (d', Some r)" "status_code r \<noteq> 500" "\<not> acts_on_tasks q"
  shows "d' = d \<or> ((\<exists>i. q = Read_Bid i \<or> q = Renew_Bid i) \<and> d' = bids_expired (api_now x) d)"
proof (cases q)
  case (Submit_Bid b)
  then show ?thesis using assms at_bids_quiet [OF _ quiet_submit_bid] by simp blast
next
  case (Cancel_Bid i reason)
  then show ?thesis using assms at_bids_quiet [OF _ quiet_cancel_bid] by simp blast
next
  case (Read_Bid i)
  then show ?thesis using assms read_bid_expires by simp blast
next
  case (Renew_Bid i)
  then show ?thesis using assms renew_bid_expires by simp blast
next
  case (Submit_Definition s)
  then show ?thesis using assms at_catalog_quiet [OF _ quiet_submit_definition] by simp blast
next
  case (Reset_Policy t)
  then show ?thesis using assms at_node_quiet [OF _ quiet_reset_policy] by simp blast
next
  case (Ensure_Edge b)
  then show ?thesis using assms at_telemetry_quiet [OF _ quiet_ensure_edge] by simp blast
next
  case (Refresh_Edge b)
  then show ?thesis using assms at_telemetry_quiet [OF _ quiet_refresh_edge] by simp blast
next
  case (Sample_Edge b s)
  then show ?thesis using assms at_telemetry_quiet [OF _ quiet_sample_edge] by simp blast
next
  case (Activate a)
  then show ?thesis using assms at_node_quiet [OF _ quiet_activate] by simp blast
next
  case (Update_Ownership u p)
  then show ?thesis using assms at_node_quiet [OF _ quiet_update_ownership] by simp blast
next
  case Reconcile_Runtime
  then show ?thesis using assms at_runtime_quiet [OF _ quiet_reconcile] by simp blast
qed (use assms in auto)

section \<open>A concrete daemon\<close>

definition demo_probe :: probe_environment where
  "demo_probe = \<lparr>probe_cluster = example_cluster,
     probe_policy = \<lparr>edge_probe_interval = 1, bandwidth_probe_interval = 1, task_stale_after = 1, edge_stale_after = 1,
       calibration_stale_after = 1, telemetry_alpha = 1, power_idle_fraction = 0, cpu_power_confidence = 1,
       fallback_power_confidence = 1\<rparr>,
     probe_node = ''a'', probe_clock = (\<lambda>_ _. 80), probe_monotonic = (\<lambda>_ _. 80), sample_clock = (\<lambda>_. 80), pass_monotonic = 80,
     round_trip = (\<lambda>_. Inr 1), transport = (\<lambda>_. Inr ((1, 1), (1, 1)))\<rparr>"

definition demo_api :: "migration_node api_context" where
  "demo_api = \<lparr>api_scheduler = demo_epoch (Inr 0), api_remote = node_remote demo_network, api_market = demo_market,
     api_submission = \<lparr>known_nodes = example_cluster, run_digest_of = (\<lambda>_. ''h''), fresh_run = ''r'', submitted_now = 80,
       run_start = demo_env [ready_poll], run_written = 80\<rparr>,
     api_definition_digest = (\<lambda>_. Inr ''h''), api_probe = demo_probe, api_start = (\<lambda>_. demo_env [ready_poll]), api_stop = Exits,
     api_activation = demo_activation,
     api_exit = \<lparr>exit_digest = (\<lambda>v. v), exit_manifest_text = (\<lambda>_. ''m''), exit_codes = (\<lambda>_. None), exit_synthesis = (\<lambda>_ _ f. f)\<rparr>,
     api_carbon = \<lparr>carbon_cluster = example_cluster, series_by_node = []\<rparr>,
     api_forecast = \<lparr>forecast_enabled = True, provider = Persistence, history_points = 2, minimum_points = 2,
       forecast_sample_seconds = 1, maximum_change_per_hour = 1, stale_after_seconds = 1, configured_fallback = None,
       forecast_confidence_floor = 0, persistence_confidence = 0, fallback_confidence = 0\<rparr>,
     api_horizon = 60, api_output_base = (\<lambda>_. []), api_output_files = (\<lambda>_. {}), api_now = 80, api_written = 80\<rparr>"

definition demo_daemon :: "(unit, migration_node) daemon" where
  "demo_daemon = \<lparr>daemon_world = (demo_source, demo_destination), daemon_catalog = load_catalog ''a'' None,
     daemon_telemetry = \<lparr>telemetry = load_telemetry 1 None, previous_cpu = [], last_edge_probe = 0, last_bandwidth_probe = []\<rparr>,
     daemon_events = \<lparr>event_lines = [], event_node = ''a'', last_sequence = 0\<rparr>\<rparr>"

lemma demo_daemon_node [simp]: "daemon_node demo_daemon = demo_source" "local_id demo_source = ''a''"
  using demo_facts(6) by (simp_all add: demo_daemon_def daemon_node_def)

theorem refused_requests_change_nothing_witness:
  "fst (serve demo_api (Submit_Bid sample_bid) demo_daemon) = demo_daemon"
proof -
  have "snd (serve demo_api (Submit_Bid sample_bid) demo_daemon)
      = Some (Refusal 400 (Says (''Bid destination is b, but this daemon is a'')))"
    by (simp add: at_bids_def submit_bid_def sample_bid_def refusal_of_def)
  then obtain d' where "serve demo_api (Submit_Bid sample_bid) demo_daemon
      = (d', Some (Refusal 400 (Says (''Bid destination is b, but this daemon is a''))))" by (metis prod.collapse)
  from refused_requests_change_nothing [OF this] this show ?thesis by simp
qed

section \<open>Operator requests\<close>

text \<open>The task a request of the scheduler service is for, and the status it needs.\<close>

fun operates_on :: "request \<Rightarrow> (task_id \<times> task_status) option" where
  "operates_on (Pause_Task t _) = Some (t, Running)"
| "operates_on (Resume_Task t) = Some (t, Paused)"
| "operates_on (Migrate_Task t _) = Some (t, Running)"
| "operates_on _ = None"

lemma operator_guard_refuses:
  "get_state (tasks (runtime_of n)) t = Inl e \<Longrightarrow> operator_guard verb t expected n = Inl e"
  "get_state (tasks (runtime_of n)) t = Inr st \<Longrightarrow> owner_node_id st \<noteq> local_id n \<or> task_status st \<noteq> expected
     \<Longrightarrow> \<exists>m. operator_guard verb t expected n = Inl (RuntimeError m)"
  by (auto simp: operator_guard_def)

lemma at_world_refuses: "f (daemon_world d) = (daemon_world d, Inl r) \<Longrightarrow> at_world f d = (d, Some r)"
  by (simp add: at_world_def refusal_of_def)

lemma request_refused:
  "operator_guard ''pause'' t Running (fst w) = Inl e \<Longrightarrow> request_pause env t idle reason w = (w, Inl e)"
  "operator_guard ''resume'' t Paused (fst w) = Inl e \<Longrightarrow> request_resume env t w = (w, Inl e)"
  "get_state (tasks (runtime_of (fst w))) t = Inl e \<Longrightarrow> request_migration net mk env t dst w = (w, Inl e)"
  "get_state (tasks (runtime_of (fst w))) t = Inr st \<Longrightarrow> owner_node_id st \<noteq> dst
     \<Longrightarrow> operator_guard ''migrate'' t Running (fst w) = Inl e \<Longrightarrow> request_migration net mk env t dst w = (w, Inl e)"
  by (simp_all add: request_pause_def request_resume_def request_migration_def)

lemma serve_refused:
  "request_pause (api_scheduler x) t idle ''Operator requested pause'' (daemon_world d) = (daemon_world d, Inl e)
     \<Longrightarrow> serve x (Pause_Task t idle) d = (d, Some (caught not_found_or_conflict e))"
  "request_resume (api_scheduler x) t (daemon_world d) = (daemon_world d, Inl e)
     \<Longrightarrow> serve x (Resume_Task t) d = (d, Some (caught [(key_error, 404), (runtime_error, 409)] e))"
  "request_migration (api_remote x) (api_market x) (api_scheduler x) t dst (daemon_world d) = (daemon_world d, Inl e)
     \<Longrightarrow> serve x (Migrate_Task t dst) d = (d, Some (caught not_found_or_conflict e))"
  by (simp_all add: pause_running_def resume_paused_def migrate_task_def responds_def respond_def at_world_refuses)

lemmas refusal_codes = not_found_or_conflict_def caught.simps key_error.simps value_error.simps runtime_error.simps

lemma operator_requests_are_guarded_parts:
  assumes "operates_on q = Some (t, expected)" "serve x q d = (d', reply)"
  shows "get_state (tasks (runtime_of (daemon_node d))) t = Inl (KeyError m)
      \<Longrightarrow> d' = d \<and> reply = Some (Refusal 404 (Text_Of (KeyError m)))"
    and "get_state (tasks (runtime_of (daemon_node d))) t = Inr st
      \<Longrightarrow> owner_node_id st \<noteq> local_id (daemon_node d) \<or> task_status st \<noteq> expected
      \<Longrightarrow> q \<noteq> Migrate_Task t (owner_node_id st)
      \<Longrightarrow> d' = d \<and> (\<exists>m. reply = Some (Refusal 409 (Text_Of (RuntimeError m))))"
proof -
  assume known: "get_state (tasks (runtime_of (daemon_node d))) t = Inl (KeyError m)"
  note guard = operator_guard_refuses(1) [OF known]
  show "d' = d \<and> reply = Some (Refusal 404 (Text_Of (KeyError m)))"
    using assms known guard [of "''pause''"] guard [of "''resume''"]
    by (cases q) (auto simp: request_refused daemon_node_def serve_refused(1) [OF request_refused(1)]
        serve_refused(2) [OF request_refused(2)] serve_refused(3) [OF request_refused(3)] refusal_codes simp del: serve.simps)
next
  assume known: "get_state (tasks (runtime_of (daemon_node d))) t = Inr st"
    and wrong: "owner_node_id st \<noteq> local_id (daemon_node d) \<or> task_status st \<noteq> expected"
    and away: "q \<noteq> Migrate_Task t (owner_node_id st)"
  have guard: "\<exists>m. operator_guard verb t expected (fst (daemon_world d)) = Inl (RuntimeError m)" for verb
    using operator_guard_refuses(2) [OF known wrong] by (simp add: daemon_node_def)
  obtain m1 m2 m3 where m: "operator_guard ''pause'' t expected (fst (daemon_world d)) = Inl (RuntimeError m1)"
    "operator_guard ''resume'' t expected (fst (daemon_world d)) = Inl (RuntimeError m2)"
    "operator_guard ''migrate'' t expected (fst (daemon_world d)) = Inl (RuntimeError m3)"
    using guard by blast
  have st: "get_state (tasks (runtime_of (fst (daemon_world d)))) t = Inr st" using known by (simp add: daemon_node_def)
  show "d' = d \<and> (\<exists>m. reply = Some (Refusal 409 (Text_Of (RuntimeError m))))"
    using assms away m st
    by (cases q) (auto simp: serve_refused(1) [OF request_refused(1)] serve_refused(2) [OF request_refused(2)]
        serve_refused(3) [OF request_refused(4) [OF st]] refusal_codes simp del: serve.simps)
qed

text \<open>
  C32. The guards of the operator.  A request to pause, resume or migrate a task is answered 404 when the node does not
  know the task, and 409 when another node owns it or its status is not the one the request needs; in each
  case the daemon, its processes included, is left as it was.  The one exception is a migration to the
  node that already owns the task, which is answered as done.
\<close>

theorem operator_requests_are_guarded:
  assumes "operates_on q = Some (t, expected)" "serve x q d = (d', reply)"
  shows "(\<forall>m. get_state (tasks (runtime_of (daemon_node d))) t = Inl (KeyError m)
        \<longrightarrow> d' = d \<and> reply = Some (Refusal 404 (Text_Of (KeyError m))))
    \<and> (\<forall>st. get_state (tasks (runtime_of (daemon_node d))) t = Inr st
        \<and> (owner_node_id st \<noteq> local_id (daemon_node d) \<or> task_status st \<noteq> expected)
        \<and> q \<noteq> Migrate_Task t (owner_node_id st)
        \<longrightarrow> d' = d \<and> (\<exists>m. reply = Some (Refusal 409 (Text_Of (RuntimeError m)))))"
  using operator_requests_are_guarded_parts [OF assms] by blast

theorem operator_requests_are_guarded_witness:
  "fst (serve demo_api (Resume_Task ''t'') demo_daemon) = demo_daemon"
proof -
  let ?st = "demo_state Running (Some 42)"
  have "get_state (tasks (runtime_of (daemon_node demo_daemon))) ''t'' = Inr ?st" by (simp add: demo_source_def demo_state_ok)
  moreover have "task_status ?st \<noteq> Paused" by (simp add: demo_state_ok)
  moreover obtain d' y where "serve demo_api (Resume_Task ''t'') demo_daemon = (d', y)" by (metis prod.collapse)
  ultimately show ?thesis
    using operator_requests_are_guarded [of "Resume_Task ''t''" "''t''" Paused demo_api demo_daemon d' y] by simp
qed

section \<open>Limits\<close>

text \<open>A stop sent to a node that does not own the task is not refused: it answers the task as stopped, in its own copy of
  the state, whatever the process on the owner does.\<close>

lemma stop_elsewhere_reports_success:
  assumes "get_state (tasks rt) t = Inr st" "get_definition (tasks rt) t = Inr d"
    and "owner_node_id st \<noteq> node_identity (site env)" "task_status st \<noteq> Completed" "pid (process st) = None"
    and "clock_now (environment_clock env) now = Inr trace"
  shows "\<exists>rt' st'. stop_task env reaction now written t rt = (rt', Inr st')
    \<and> task_status st' = Stopped \<and> owner_node_id st' = owner_node_id st"
  using assms
  by (simp add: stop_task_def settle_and_stop_def responds_def respond_def and_then_def settle_task_def stop_process_def
      on_tasks_def run_edit_def mark_stopped_def halt_def)

text \<open>A sample the model class lets through is never refused once the destination is a peer and something is measured.\<close>

lemma sample_of_a_peer_is_recorded:
  assumes "wf_sample q" "refused_peer env b = None" "sample_latency q \<noteq> None \<or> sample_bytes q \<noteq> None"
    "(sample_bytes q = None) = (sample_seconds q = None)"
  shows "\<exists>n' v. sample_edge env b q n = (n', Inr v)"
  using assms
  by (auto simp: sample_edge_def record_sample_def wf_sample_def record_transfer_def on_telemetry_def respond_def Let_def
      split: option.splits prod.splits)

text \<open>On the journals a daemon can have, the event handler answers every page it is asked for within its bounds.\<close>

lemma events_are_answered:
  assumes "journal_run node j" "0 \<le> after" "1 \<le> limit" "limit \<le> 100000"
  shows "experiment_events after t kind limit j =
    Inr \<lparr>page_last_sequence = last_sequence j, page_events = take (nat limit) (filter (wanted_event after t kind) (events_of j))\<rparr>"
  using assms list_events_page [of j after limit t kind] journal_run_inv [OF assms(1)]
  by (simp add: experiment_events_def respond_def)

end
