(* ===== verification/Spec2Isabelle.thy ===== *)
theory Spec2Isabelle
  imports Bid_Ranking_Claims Bid_Store_Laws Bid_Arbiter_Claims Task_Registry_Claims Memory_Registry
    Evaluation_Claims Runtime_Claims Migration_Claims Scheduler_Claims Catalog_Claims
    Telemetry_Claims Oracle_Claims Artifact_Claims Checkpoint_Claims Calibration Http_Claims
begin

text \<open>
  Magellan V2 is a peer-to-peer control plane for long-running, checkpointable tasks.  Every node
  runs one daemon (\<open>src/magellan\<close>).  Each epoch a daemon evaluates its own running tasks: it
  estimates the time, carbon and cost of continuing, pausing and migrating, picks an action, and for a
  migration bids for capacity at the destination, whose arbiter admits or rejects bids.  An accepted
  migration stops the process, transfers the checkpoint, activates the task on the destination and
  moves the ownership.  Catalogues and ownership are repaired by gossip between peers.  This development
  models the control plane and proves what it promises.

  \<^bold>\<open>The program's parts, and the theories that model them\<close>

  \<^item> Shared vocabulary: \<open>Prelude\<close> (errors, results, dictionaries, instants, generic lemmas) and
    \<open>Config_Models\<close> (\<open>models/types.py\<close>, \<open>models/utils.py\<close>, \<open>config/models.py\<close>,
    \<open>config/policy_models.py\<close>).
  \<^item> Capabilities: \<open>Capabilities\<close> (\<open>capabilities/models.py\<close>, \<open>checker.py\<close>).  \<open>check_compatibility\<close> is
    asked by the scheduler, by the arbiter of the destination and by \<open>start\<close> of the runtime.
  \<^item> Bidding (\<open>bidding/\<close>): \<open>Bid_Models\<close>, \<open>Bid_Resources\<close> (the resource ledger), \<open>Bid_Ranking\<close>
    (the strategies), \<open>Bid_Store\<close> (records, leases, fairness credits, the file), \<open>Bid_Arbiter\<close> (one
    auction).  The \<open>_Laws\<close> and \<open>_Claims\<close> theories beside them hold what is proved:
    \<open>Bid_Store_Laws\<close>, \<open>Bid_Arbiter_Laws\<close>, \<open>Bid_Ranking_Claims\<close>, \<open>Bid_Arbiter_Claims\<close>.
  \<^item> Registries (\<open>state/\<close>): \<open>Task_Models\<close>, \<open>Task_Registry\<close> (\<open>persistent_registry.py\<close>),
    \<open>Memory_Registry\<close> (\<open>task_registry.py\<close>), \<open>Task_Registry_Laws\<close>, \<open>Task_Registry_Claims\<close>.
  \<^item> Decisions: \<open>Carbon_Forecast\<close> and \<open>Carbon_Window\<close> (\<open>carbon/\<close>), \<open>Cluster_Graph\<close>
    (\<open>graph/topology.py\<close>), \<open>Action_Models\<close> (\<open>models/*_model.py\<close>), \<open>Adaptive_Policy\<close> (\<open>policy/\<close>),
    \<open>Scoring\<close> (\<open>scheduler/scoring.py\<close>); laws in \<open>Adaptive_Policy_Laws\<close>, \<open>Scoring_Laws\<close>,
    \<open>Scoring_Admissible\<close>, properties in \<open>Adaptive_Policy_Claims\<close>, \<open>Evaluation_Claims\<close>.
  \<^item> Telemetry (\<open>telemetry/\<close>): \<open>Telemetry_Store\<close>, \<open>Telemetry_Service\<close>, \<open>Telemetry_Laws\<close>,
    \<open>Telemetry_Claims\<close>.
  \<^item> Processes (\<open>runtime/\<close>): \<open>Runtime_Adapters\<close>, \<open>Completion\<close>, \<open>Local_Runtime\<close>,
    \<open>Runtime_Accounting\<close> (clock, progress, accounting), \<open>Runtime_Services\<close> (recovery and pause
    scans); laws in \<open>Local_Runtime_Laws\<close>, \<open>Runtime_Services_Laws\<close>, \<open>Pause_Laws\<close>,
    \<open>Runtime_Outcomes\<close>, \<open>Task_Locality\<close>, properties in \<open>Runtime_Claims\<close>.
  \<^item> Migration (\<open>migration/\<close>): \<open>Migration_Models\<close> (messages, journal, client),
    \<open>Migration_Destination\<close>, \<open>Migration_Source\<close>, \<open>Migration_Protocol\<close> (both sides and a network that
    loses messages); laws in \<open>Migration_Laws\<close>, \<open>Migration_Source_Laws\<close>, \<open>Migration_Success\<close>,
    properties in \<open>Migration_Claims\<close>.
  \<^item> Scheduler loop: \<open>Scheduler_Service\<close> (\<open>daemon/scheduler_service.py\<close>), \<open>Scheduler_Laws\<close>,
    \<open>Scheduler_Claims\<close>.
  \<^item> Submission and gossip: \<open>Task_Catalog\<close> (\<open>submission/catalog.py\<close>), \<open>Reconciliation\<close>
    (\<open>submission/service.py\<close>, \<open>reconciliation/service.py\<close>), their \<open>_Laws\<close>, \<open>Catalog_Claims\<close>.
  \<^item> Experiments (\<open>experiments/\<close>): \<open>Comparison\<close> (policy replay over a recorded trace) and \<open>Oracle\<close>
    (the clairvoyant shortest path), their \<open>_Laws\<close> and \<open>_Claims\<close>; \<open>Event_Journal\<close> (\<open>events.py\<close>); and
    \<open>Calibration\<close> (\<open>policy/calibration.py\<close>).
  \<^item> Artifacts (\<open>artifacts/\<close>): \<open>Artifact_Cache\<close>, \<open>Artifact_Laws\<close>, \<open>Artifact_Claims\<close>.
  \<^item> Checkpoints (\<open>runtime/dendro.py\<close>, \<open>runtime/checkpoint.py\<close>): \<open>Dendro\<close>, \<open>Checkpoint\<close>,
    \<open>Checkpoint_Laws\<close>, \<open>Checkpoint_Claims\<close>.
  \<^item> The HTTP interface (\<open>api/app.py\<close>): \<open>Http_Interface\<close> holds one definition per handler over the
    components above, with the status codes, and \<open>serve\<close>, the whole interface as one function of the daemon's
    state; \<open>Capability_Drift\<close> (\<open>capabilities/discovery.py\<close> and the capabilities handler); properties in
    \<open>Http_Claims\<close>.

  \<^bold>\<open>How code becomes definitions\<close>

  A pydantic model or dataclass is a \<open>record\<close>, an enumeration or a set of literals a \<open>datatype\<close>.  A
  method that mutates its object takes the state and returns it updated with its result;
  an exception is \<open>Inl\<close> of the \<open>error\<close> type, and the state beside it is what the code leaves behind
  when it raises, so partial effects are visible.  A validator is a function into a result, a \<open>Field\<close>
  constraint a \<open>wf_\<close> predicate.  Floats are reals, integers unbounded, instants seconds in UTC, a dict
  an association list in insertion order.  The clock, the network, the operating system, digests and
  files of other programs enter as arguments, grouped in one environment record per operation, so
  each theorem holds for every way they may behave.  A method that runs under a lock, or that never
  awaits, is one atomic step; \<open>and_then\<close> sequences the steps of a handler and keeps what an earlier
  step did when a later one raises.

  \<^bold>\<open>Interfaces\<close>

  \<^item> \<open>capacity_registry\<close> (\<open>Capacity_Interface\<close>) is the protocol the arbiter asks of a registry; both
    registries of the program are its interpretations, and the arbiter's guarantees follow for each.
  \<^item> \<open>migration_endpoint\<close> (\<open>Migration_Source_Laws\<close>) is what a source relies on of a destination behind
    a network; \<open>Migration_Protocol\<close> discharges it for the model's own destination, for every
    combination of lost requests, replies, queries and announcements and of refused steps, a copy of
    the checkpoint that fails half-way included.
  \<^item> \<open>growing_replica\<close> (\<open>Replica_Interface\<close>) is what replication relies on of a store; the task
    catalogue is its interpretation.
  \<^item> \<open>artifact_endpoint\<close> (\<open>Artifact_Laws\<close>) is what a prefetch relies on of a destination whose copies and
    answers may fail; the model's own cache behind its two handlers is the interpretation.

  \<^bold>\<open>What is proved\<close>

  \<^item> Bidding: the auction refines a greedy specification, never over-commits slots or resources over
    either registry and never raises; a lease is claimed at most once; the file restores the store.
  \<^item> Ownership: processes are recorded only for owned tasks and live processes are exactly the recorded
    ones; stale updates are fenced and gossip converges in any order.
  \<^item> Migration: an activation commits, or is refused and leaves the task as it was, or, when the copy
    over an earlier checkpoint fails half-way, strands it between the two; a repeated request answers as the
    first; a migration leaves one owner under the conditions its statement names (an exception that follows
    the commit gives a concrete run with two owners); under a working network it completes.
  \<^item> Decisions: estimates are admissible, an evaluation with carbon data decides, uses no future carbon value, and
    migrates only when hysteresis, gap and score allow; adaptation stays in its bounds.
  \<^item> Scheduler and gossip: an epoch works on each running task from its own state; completions are
    announced once; catalogues converge; a reconciliation catches up with every update shown to it
    unless a conflicting catalogue ends the pass first.
  \<^item> Services: due pauses are resumed when the accounting settles, recovery gives up, settling charges every
    interval once; refreshed telemetry is as recent as the clock readings of the refresh.
  \<^item> Experiments: a replay accounts for all time it spends; the oracle's schedule is optimal, its report
    adds up and the search ends; the pages of the event journal continue each other; the calibration picks
    the best feasible candidate of a complete grid.
  \<^item> Artifacts and checkpoints: over a sound cache, what a completed prefetch reports has an entry that matches
    its own manifest whatever the network did, and the prefetch completes when nothing fails; a damaged cache entry never heals; a discovered checkpoint is the newest
    complete one and validates; remembered digests never change an answer.
  \<^item> HTTP: a refused request changes nothing, the operator's requests are guarded, and the drift a node
    reports is exactly the promises of its configuration it cannot keep.

  \<^bold>\<open>Bounds and fuel\<close>

  \<open>wait_for_bid\<close> polls at most the budget the bid window allows (the code's deadline divided by its poll
  interval); the three attempts of the migration client and the list of readiness polls are those of
  the code; \<open>replay\<close> runs for at most \<open>max_decisions\<close> decisions, the bound the code itself enforces.
  \<open>oracle_loop\<close> is total, its measure the multiset of what each queue entry may still expand to, and
  \<open>oracle_trace\<close> a \<open>partial_function\<close> shown to return on every table the search builds.

  \<^bold>\<open>Not modelled\<close>

  The workloads and measurement scripts (programs run by the control plane or around it), the
  deployment, the loading of YAML and CSV files, the construction of the daemon
  context, JSON text, log lines, HTTP transport, rsync and ssh, procfs and the energy counters, regular
  expressions and globs.  Where the control plane depends on their outcome, the outcome is an argument.

  \<^bold>\<open>Granularity\<close>

  An epoch, an activation and a reconciliation pass are each one step, and a message is worked off before the
  next: other requests are not interleaved at their awaits, except that a lease may be cancelled while an
  activation starts its process, and no daemon crashes within a step.  Every reading of the clock by the
  telemetry service is its own argument; elsewhere the readings of one operation are the fields of its
  environment.  Directories are moved and copied as a whole, or fail as \<open>installation\<close> says.  Manifests and
  other texts are taken to be UTF-8.
\<close>

end
